(* ===== verification/Prelude.thy ===== *)
theory Prelude
  imports Main "HOL-Library.Word"
begin

text \<open>
  Shared vocabulary of the development: the machine integer types of the code, its return
  codes (src/return.h), and the generic lemmas on pointer chains, lists and words that the
  component theories share.

  Widths are those of the code's main target, a 32-bit little-endian ARM
  (\<open>size_t\<close> has 32 bits).  A pointer into an array is the index of the element; the null
  pointer is \<open>None\<close>.  A function that may dereference a null pointer (or may
  not return) has an \<open>option\<close> result, and \<open>None\<close> stands for that case.
\<close>

unbundle bit_operations_syntax

type_synonym u8 = "8 word"
type_synonym u16 = "16 word"
type_synonym u32 = "32 word"
type_synonym u64 = "64 word"
type_synonym size_t = "32 word"
type_synonym ptr = nat

text \<open>Return codes, in the order of the enumeration.\<close>

datatype ret_type = RET_SUCCESS | RET_ERROR | RET_BLOCKED | RET_SLEEP | RET_YIELD

text \<open>The codes on which the macro \<open>CALL\<close> returns at once (src/sched/macros/call.h).\<close>

definition call_waits :: "ret_type \<Rightarrow> bool" where
  "call_waits r \<longleftrightarrow> r = RET_SLEEP \<or> r = RET_BLOCKED \<or> r = RET_YIELD"

section \<open>Pointer chains\<close>

text \<open>
  \<open>seg f p xs e\<close>: following the pointer field \<open>f\<close> from \<open>p\<close> visits exactly the addresses
  \<open>xs\<close>, in order, and then holds the pointer \<open>e\<close>.
\<close>

fun seg :: "(ptr \<Rightarrow> ptr option) \<Rightarrow> ptr option \<Rightarrow> ptr list \<Rightarrow> ptr option \<Rightarrow> bool" where
  "seg f p [] e = (p = e)"
| "seg f p (x # xs) e = (p = Some x \<and> seg f (f x) xs e)"

text \<open>Walking a chain for at most \<open>n\<close> steps: the executable abstraction of a chain.\<close>

fun walk :: "(ptr \<Rightarrow> ptr option) \<Rightarrow> ptr option \<Rightarrow> nat \<Rightarrow> ptr list" where
  "walk f p 0 = []"
| "walk f None (Suc n) = []"
| "walk f (Some x) (Suc n) = x # walk f (f x) n"

named_theorems chain_simps

lemma seg_append [chain_simps]:
  "seg f p (xs @ ys) e = (\<exists>m. seg f p xs m \<and> seg f m ys e)"
  by (induction xs arbitrary: p) auto

lemma seg_upd [simp]: "x \<notin> set xs \<Longrightarrow> seg (f(x := v)) p xs e = seg f p xs e"
  by (induction xs arbitrary: p) auto

lemma seg_cong: "(\<And>x. x \<in> set xs \<Longrightarrow> f x = g x) \<Longrightarrow> seg f p xs e = seg g p xs e"
  by (induction xs arbitrary: p) auto

lemma seg_snoc [chain_simps]:
  "seg f p (xs @ [x]) e = (seg f p xs (Some x) \<and> f x = e)"
  by (auto simp: seg_append)

lemma walk_seg: "seg f p xs None \<Longrightarrow> walk f p (length xs) = xs"
  by (induction xs arbitrary: p) auto

lemma walk_seg_more: "seg f p xs None \<Longrightarrow> length xs \<le> n \<Longrightarrow> walk f p n = xs"
proof (induction xs arbitrary: p n)
  case Nil
  then show ?case by (cases n) auto
next
  case (Cons x xs)
  then show ?case by (cases n) auto
qed

lemma seg_det: "seg f p xs None \<Longrightarrow> seg f p ys None \<Longrightarrow> xs = ys"
proof (induction xs arbitrary: p ys)
  case Nil
  then show ?case by (cases ys) auto
next
  case (Cons x xs)
  then show ?case by (cases ys) auto
qed

lemma seg_head: "seg f p xs None \<Longrightarrow> p = (case xs of [] \<Rightarrow> None | x # _ \<Rightarrow> Some x)"
  by (cases xs) auto

lemma seg_None_iff [simp]: "seg f None xs None \<longleftrightarrow> xs = []"
  by (cases xs) auto

section \<open>Lists and words\<close>

lemma butlast_snoc_cases:
  obtains "xs = []" | ys y where "xs = ys @ [y]"
  by (cases xs rule: rev_cases) auto

lemma of_nat_word_eq_iff:
  "a < 2 ^ LENGTH('w) \<Longrightarrow> b < 2 ^ LENGTH('w) \<Longrightarrow>
   ((of_nat a :: 'w::len word) = of_nat b) = (a = b)"
  by (simp add: word_of_nat_eq_iff take_bit_nat_eq_self)

lemma unat_of_nat32 [simp]: "n < 2 ^ 32 \<Longrightarrow> unat (of_nat n :: size_t) = n"
  by (simp add: unsigned_of_nat take_bit_nat_eq_self)

lemma unat_ucast_up:
  "LENGTH('a) \<le> LENGTH('b) \<Longrightarrow> unat (ucast (w :: 'a::len word) :: 'b::len word) = unat w"
proof -
  assume le: "LENGTH('a) \<le> LENGTH('b)"
  have "unat w < 2 ^ LENGTH('a)"
    by (rule unsigned_less)
  also have "\<dots> \<le> 2 ^ LENGTH('b)"
    using le by (rule power_increasing) simp
  finally show ?thesis
    by (simp add: unsigned_ucast_eq take_bit_nat_eq_self)
qed

end
