(* ===== verification/SimpleQueueModel.thy ===== *)
theory SimpleQueueModel
  imports Prelude
begin

text \<open>
  The intrusive doubly linked queues of src/queue: nodes (queue_node.h), the FIFO queue and the
  sorted queue that work directly on nodes (queue_simple.h, queue_sort.h) and the forward
  iterator (queue_iterator.h).  A heap maps node addresses to nodes; a queue is the record of
  its three members.  \<open>wf_queue h q xs\<close> says that the members and the links of \<open>q\<close> describe
  the address list \<open>xs\<close> from head to tail, in both directions.
\<close>

section \<open>Nodes and the node heap\<close>

record 'a node =
  nd_prev :: "ptr option"
  nd_next :: "ptr option"
  nd_data :: 'a

type_synonym 'a heap = "ptr \<Rightarrow> 'a node"

definition set_prev :: "ptr \<Rightarrow> ptr option \<Rightarrow> 'a heap \<Rightarrow> 'a heap" where
  "set_prev a p h = h(a := (h a)\<lparr>nd_prev := p\<rparr>)"

definition set_next :: "ptr \<Rightarrow> ptr option \<Rightarrow> 'a heap \<Rightarrow> 'a heap" where
  "set_next a p h = h(a := (h a)\<lparr>nd_next := p\<rparr>)"

definition set_data :: "ptr \<Rightarrow> 'a \<Rightarrow> 'a heap \<Rightarrow> 'a heap" where
  "set_data a d h = h(a := (h a)\<lparr>nd_data := d\<rparr>)"

text \<open>The three columns of a heap.\<close>

definition prevs :: "'a heap \<Rightarrow> ptr \<Rightarrow> ptr option" where
  "prevs h = (\<lambda>a. nd_prev (h a))"

definition nexts :: "'a heap \<Rightarrow> ptr \<Rightarrow> ptr option" where
  "nexts h = (\<lambda>a. nd_next (h a))"

definition datas :: "'a heap \<Rightarrow> ptr \<Rightarrow> 'a" where
  "datas h = (\<lambda>a. nd_data (h a))"

named_theorems heap_simps

lemma heap_columns [heap_simps]:
  "prevs (set_prev a p h) = (prevs h)(a := p)"
  "nexts (set_prev a p h) = nexts h"
  "datas (set_prev a p h) = datas h"
  "prevs (set_next a p h) = prevs h"
  "nexts (set_next a p h) = (nexts h)(a := p)"
  "datas (set_next a p h) = datas h"
  "prevs (set_data a d h) = prevs h"
  "nexts (set_data a d h) = nexts h"
  "datas (set_data a d h) = (datas h)(a := d)"
  by (auto simp: prevs_def nexts_def datas_def set_prev_def set_next_def set_data_def)

lemma heap_reads [heap_simps]:
  "nd_prev (h a) = prevs h a" "nd_next (h a) = nexts h a" "nd_data (h a) = datas h a"
  by (simp_all add: prevs_def nexts_def datas_def)

section \<open>The FIFO queue on nodes\<close>

record squeue =
  m_head :: "ptr option"
  m_tail :: "ptr option"
  m_size :: size_t

definition empty_queue :: squeue where
  "empty_queue = \<lparr>m_head = None, m_tail = None, m_size = 0\<rparr>"

definition push_node :: "ptr \<Rightarrow> 'a heap \<Rightarrow> squeue \<Rightarrow> 'a heap \<times> squeue" where
  "push_node node h q =
     (case m_head q of
        None \<Rightarrow>
          (set_next node None (set_prev node None h),
           q\<lparr>m_head := Some node, m_tail := Some node, m_size := 1\<rparr>)
      | Some hd_p \<Rightarrow>
          (set_prev node None (set_next node (Some hd_p) (set_prev hd_p (Some node) h)),
           q\<lparr>m_size := m_size q + 1, m_head := Some node\<rparr>))"

definition pop_node :: "'a heap \<Rightarrow> squeue \<Rightarrow> ptr option \<times> 'a heap \<times> squeue" where
  "pop_node h q =
     (case m_tail q of
        None \<Rightarrow> (None, h, q)
      | Some r \<Rightarrow>
          (case nd_prev (h r) of
             None \<Rightarrow> (Some r, h, q\<lparr>m_tail := None, m_size := m_size q - 1, m_head := None\<rparr>)
           | Some p \<Rightarrow>
               (Some r, set_next p None h, q\<lparr>m_tail := Some p, m_size := m_size q - 1\<rparr>)))"

text \<open>\<open>None\<close>: a null pointer is dereferenced.\<close>

definition remove_node :: "ptr \<Rightarrow> 'a heap \<Rightarrow> squeue \<Rightarrow> ('a heap \<times> squeue) option" where
  "remove_node node h q =
     map_option (\<lambda>(h', q'). (h', q'\<lparr>m_size := m_size q' - 1\<rparr>))
       (if Some node = m_head q then
          (case nd_next (h node) of
             None \<Rightarrow> Some (h, q\<lparr>m_head := None, m_tail := None\<rparr>)
           | Some n \<Rightarrow> Some (set_prev n None h, q\<lparr>m_head := Some n\<rparr>))
        else if Some node = m_tail q then
          (case nd_prev (h node) of
             None \<Rightarrow> None
           | Some p \<Rightarrow> Some (set_next p None h, q\<lparr>m_tail := Some p\<rparr>))
        else
          (case nd_prev (h node) of
             None \<Rightarrow> None
           | Some p \<Rightarrow>
               (let h1 = set_next p (nd_next (h node)) h in
                (case nd_next (h1 node) of
                   None \<Rightarrow> None
                 | Some n \<Rightarrow> Some (set_prev n (nd_prev (h1 node)) h1, q)))))"

definition peek_node :: "squeue \<Rightarrow> ptr option" where
  "peek_node q = m_tail q"

definition num_nodes :: "squeue \<Rightarrow> size_t" where
  "num_nodes q = m_size q"

definition head_node :: "squeue \<Rightarrow> ptr option" where
  "head_node q = m_head q"

section \<open>The forward iterator\<close>

text \<open>\<open>operator++\<close>: the new position and the pointer to the data it returns.\<close>

definition it_step :: "'a heap \<Rightarrow> ptr option \<Rightarrow> ptr option \<times> ptr option" where
  "it_step h cur =
     (case cur of None \<Rightarrow> (None, None) | Some c \<Rightarrow> (nd_next (h c), nd_next (h c)))"

text \<open>\<open>operator*\<close>.\<close>

definition it_deref :: "ptr option \<Rightarrow> ptr option" where
  "it_deref cur = cur"

text \<open>The positions a \<open>while(cur = *it) ... ++it\<close> loop visits, for at most \<open>n\<close> rounds.\<close>

fun it_visits :: "'a heap \<Rightarrow> ptr option \<Rightarrow> nat \<Rightarrow> ptr list" where
  "it_visits h it 0 = []"
| "it_visits h it (Suc n) =
     (case it_deref it of None \<Rightarrow> [] | Some c \<Rightarrow> c # it_visits h (fst (it_step h it)) n)"

section \<open>The sorted queue on nodes\<close>

text \<open>
  The \<open>while\<close> loop of \<open>SimpleSortedQueue::push_node\<close>: \<open>Some it\<close> with the value of \<open>it\<close> when
  the loop ends, \<open>None\<close> if it does not end.
\<close>

partial_function (option) find_pos ::
  "('a \<Rightarrow> 'a \<Rightarrow> bool) \<Rightarrow> 'a heap \<Rightarrow> 'a \<Rightarrow> ptr option \<Rightarrow> ptr option option" where
  "find_pos srt h d it =
     (case it of
        None \<Rightarrow> Some None
      | Some i \<Rightarrow>
          if srt (nd_data (h i)) d then Some (Some i) else find_pos srt h d (nd_next (h i)))"

definition sorted_push_node ::
  "('a \<Rightarrow> 'a \<Rightarrow> bool) \<Rightarrow> ptr \<Rightarrow> 'a heap \<Rightarrow> squeue \<Rightarrow> ('a heap \<times> squeue) option" where
  "sorted_push_node srt node h q =
     (case m_head q of
        None \<Rightarrow>
          Some (set_next node None (set_prev node None h),
                q\<lparr>m_head := Some node, m_tail := Some node, m_size := 1\<rparr>)
      | Some hd_p \<Rightarrow>
          (let q1 = q\<lparr>m_size := m_size q + 1\<rparr> in
           (case find_pos srt h (nd_data (h node)) (Some hd_p) of
              None \<Rightarrow> None
            | Some None \<Rightarrow>
                (case m_tail q1 of
                   None \<Rightarrow> None
                 | Some t \<Rightarrow>
                     Some (set_next t (Some node) (set_next node None (set_prev node (m_tail q1) h)),
                           q1\<lparr>m_tail := Some node\<rparr>))
            | Some (Some i) \<Rightarrow>
                (let h1 = set_next node (Some i) h;
                     h2 = set_prev node (nd_prev (h1 i)) h1;
                     h3 = set_prev i (Some node) h2
                 in Some (h3, if Some i = m_head q1 then q1\<lparr>m_head := Some node\<rparr> else q1)))))"

section \<open>Well-formed queues\<close>

definition wf_queue :: "'a heap \<Rightarrow> squeue \<Rightarrow> ptr list \<Rightarrow> bool" where
  "wf_queue h q xs \<longleftrightarrow>
     distinct xs \<and> seg (nexts h) (m_head q) xs None \<and>
     seg (prevs h) (m_tail q) (rev xs) None \<and> m_size q = of_nat (length xs)"

text \<open>The part of it that popping relies on: the links from the tail towards the head.\<close>

definition bwd_queue :: "'a heap \<Rightarrow> squeue \<Rightarrow> ptr list \<Rightarrow> bool" where
  "bwd_queue h q xs \<longleftrightarrow>
     distinct xs \<and> seg (prevs h) (m_tail q) (rev xs) None \<and> m_size q = of_nat (length xs)"

lemma wf_bwd: "wf_queue h q xs \<Longrightarrow> bwd_queue h q xs"
  by (simp add: wf_queue_def bwd_queue_def)

lemma wf_queue_det: "wf_queue h q xs \<Longrightarrow> wf_queue h q ys \<Longrightarrow> xs = ys"
  by (auto simp: wf_queue_def dest: seg_det)

lemma wf_empty_queue [simp]: "wf_queue h empty_queue []"
  by (simp add: wf_queue_def empty_queue_def)

lemma wf_queue_Nil: "wf_queue h q [] \<longleftrightarrow> m_head q = None \<and> m_tail q = None \<and> m_size q = 0"
  by (auto simp: wf_queue_def)

text \<open>Frame: only the links of the queue's own nodes matter.\<close>

lemma wf_queue_frame:
  assumes "\<And>x. x \<in> set xs \<Longrightarrow> prevs h' x = prevs h x"
    and "\<And>x. x \<in> set xs \<Longrightarrow> nexts h' x = nexts h x"
  shows "wf_queue h' q xs = wf_queue h q xs"
proof -
  have "seg (nexts h') (m_head q) xs None = seg (nexts h) (m_head q) xs None"
    by (rule seg_cong) (rule assms(2))
  moreover have "seg (prevs h') (m_tail q) (rev xs) None = seg (prevs h) (m_tail q) (rev xs) None"
    by (rule seg_cong) (simp add: assms(1))
  ultimately show ?thesis by (simp add: wf_queue_def)
qed

lemma wf_queue_head: "wf_queue h q xs \<Longrightarrow> m_head q = (case xs of [] \<Rightarrow> None | x # _ \<Rightarrow> Some x)"
  by (auto simp: wf_queue_def dest: seg_head)

lemma wf_queue_tail: "wf_queue h q xs \<Longrightarrow> m_tail q = (if xs = [] then None else Some (last xs))"
  by (cases xs rule: rev_cases) (auto simp: wf_queue_def)

section \<open>Correctness of the FIFO operations\<close>

lemma wf_push_node:
  assumes wf: "wf_queue h q xs" and new: "n \<notin> set xs" and r: "push_node n h q = (h', q')"
  shows "wf_queue h' q' (n # xs)" and "datas h' = datas h"
proof -
  show "datas h' = datas h"
    using r by (auto simp: push_node_def heap_simps split: option.splits)
  show "wf_queue h' q' (n # xs)"
  proof (cases xs)
    case Nil
    with wf r show ?thesis
      by (auto simp: wf_queue_Nil push_node_def wf_queue_def heap_simps)
  next
    case (Cons x ys)
    have nx: "n \<noteq> x" "n \<notin> set ys" "x \<notin> set ys"
      using new wf Cons by (auto simp: wf_queue_def)
    have hd_q: "m_head q = Some x"
      using wf Cons by (simp add: wf_queue_def)
    show ?thesis
      using wf r nx Cons hd_q
      by (auto simp: push_node_def wf_queue_def heap_simps chain_simps)
  qed
qed

lemma bwd_pop_node:
  assumes "bwd_queue h q (xs @ [x])" and "pop_node h q = (r, h', q')"
  shows "r = Some x" and "bwd_queue h' q' xs" and "datas h' = datas h"
    and "prevs h' = prevs h"
  using assms
  by (cases xs rule: rev_cases;
      auto simp: bwd_queue_def pop_node_def heap_simps chain_simps split: option.splits)+

lemma wf_pop_node:
  assumes wf: "wf_queue h q (xs @ [x])" and r: "pop_node h q = (r, h', q')"
  shows "r = Some x" and "wf_queue h' q' xs" and "datas h' = datas h"
proof -
  show "r = Some x" and "datas h' = datas h"
    using bwd_pop_node [OF wf_bwd [OF wf] r] by auto
  show "wf_queue h' q' xs"
    using wf r
    by (cases xs rule: rev_cases)
       (auto simp: wf_queue_def pop_node_def heap_simps chain_simps split: option.splits)
qed

lemma pop_node_empty: "wf_queue h q [] \<Longrightarrow> pop_node h q = (None, h, q)"
  by (simp add: wf_queue_Nil pop_node_def)

text \<open>Removing any member unlinks exactly that member, wherever it stands.\<close>

lemma remove_head:
  assumes "wf_queue h q (n # bs)"
  shows "\<exists>h' q'. remove_node n h q = Some (h', q') \<and> wf_queue h' q' bs \<and> datas h' = datas h"
  using assms
  by (cases bs) (auto simp: wf_queue_def remove_node_def heap_simps chain_simps)

lemma remove_last:
  assumes "wf_queue h q (as @ [n])" and "as \<noteq> []"
  shows "\<exists>h' q'. remove_node n h q = Some (h', q') \<and> wf_queue h' q' as \<and> datas h' = datas h"
proof -
  obtain zs p where as: "as = zs @ [p]"
    using assms(2) by (cases as rule: rev_cases) auto
  have "m_head q \<noteq> Some n"
    using assms(1) as by (cases zs) (auto simp: wf_queue_def)
  then show ?thesis
    using assms(1) as by (auto simp: wf_queue_def remove_node_def heap_simps chain_simps)
qed

lemma remove_middle:
  assumes "wf_queue h q (as @ n # bs)" and "as \<noteq> []" and "bs \<noteq> []"
  shows "\<exists>h' q'. remove_node n h q = Some (h', q') \<and> wf_queue h' q' (as @ bs) \<and> datas h' = datas h"
proof -
  obtain zs p where as: "as = zs @ [p]"
    using assms(2) by (cases as rule: rev_cases) auto
  obtain b cs where bs: "bs = b # cs"
    using assms(3) by (cases bs) auto
  have "m_head q \<noteq> Some n"
    using assms(1) as by (cases zs) (auto simp: wf_queue_def)
  moreover have "m_tail q \<noteq> Some n"
    using assms(1) bs wf_queue_tail [OF assms(1)] by (auto simp: wf_queue_def split: if_splits)
  ultimately show ?thesis
    using assms(1) as bs by (auto simp: wf_queue_def remove_node_def heap_simps chain_simps Let_def)
qed

lemma wf_remove_node:
  assumes "wf_queue h q (as @ n # bs)"
  shows "\<exists>h' q'. remove_node n h q = Some (h', q') \<and> wf_queue h' q' (as @ bs) \<and> datas h' = datas h"
proof (cases "as = []")
  case True
  with assms remove_head show ?thesis by fastforce
next
  case False
  then show ?thesis
    using assms remove_last [of h q as n] remove_middle [of h q as n bs]
    by (cases "bs = []") auto
qed

lemma peek_node_wf: "wf_queue h q xs \<Longrightarrow> peek_node q = (if xs = [] then None else Some (last xs))"
  by (simp add: peek_node_def wf_queue_tail)

lemma it_visits_seg:
  "seg (nexts h) p xs None \<Longrightarrow> length xs < n \<Longrightarrow> it_visits h p n = xs"
proof (induction n arbitrary: p xs)
  case 0
  then show ?case by simp
next
  case (Suc n)
  then show ?case
    by (cases xs) (auto simp: it_deref_def it_step_def heap_simps)
qed

lemma it_visits_wf: "wf_queue h q xs \<Longrightarrow> length xs < n \<Longrightarrow> it_visits h (m_head q) n = xs"
  by (simp add: wf_queue_def it_visits_seg)

section \<open>The sorted queue\<close>

text \<open>Where the loop of the sorted push stops, on a queue whose links are complete.\<close>

lemma find_pos_seg:
  "seg (nexts h) p xs None \<Longrightarrow>
   find_pos srt h d p =
     Some (case dropWhile (\<lambda>x. \<not> srt (datas h x) d) xs of [] \<Rightarrow> None | x # _ \<Rightarrow> Some x)"
proof (induction xs arbitrary: p)
  case Nil
  then show ?case by (simp add: find_pos.simps)
next
  case (Cons x xs)
  then have "p = Some x" and "seg (nexts h) (nexts h x) xs None"
    by auto
  with Cons.IH [of "nexts h x"] show ?case
    by (simp add: find_pos.simps [of srt h d "Some x"] heap_simps)
qed

text \<open>Insertion before the first element that should leave the queue earlier.\<close>

definition insert_by :: "('b \<Rightarrow> bool) \<Rightarrow> 'b \<Rightarrow> 'b list \<Rightarrow> 'b list" where
  "insert_by P n xs = takeWhile P xs @ n # dropWhile P xs"

lemma set_insert_by [simp]: "set (insert_by P n xs) = insert n (set xs)"
proof -
  have "set (takeWhile P xs @ dropWhile P xs) = set xs"
    by simp
  then show ?thesis
    by (simp only: insert_by_def set_append list.set) blast
qed

lemma length_insert_by [simp]: "length (insert_by P n xs) = Suc (length xs)"
proof -
  have "length (takeWhile P xs @ dropWhile P xs) = length xs"
    by simp
  then show ?thesis
    by (simp only: insert_by_def length_append list.size)
qed

lemma distinct_insert_by: "distinct xs \<Longrightarrow> n \<notin> set xs \<Longrightarrow> distinct (insert_by P n xs)"
proof -
  assume a: "distinct xs" "n \<notin> set xs"
  have "distinct (takeWhile P xs @ dropWhile P xs)" and "n \<notin> set (takeWhile P xs @ dropWhile P xs)"
    using a by simp_all
  then show ?thesis
    by (simp only: insert_by_def distinct_append set_append list.set distinct.simps) blast
qed

text \<open>
  On a completely linked queue the sorted push always returns, and the pop order it leaves is
  the insertion order of the specification.
\<close>

lemma sorted_push_empty:
  assumes "wf_queue h q []"
  shows "\<exists>h' q'. sorted_push_node srt n h q = Some (h', q') \<and> wf_queue h' q' [n] \<and> datas h' = datas h"
  using assms by (auto simp: wf_queue_Nil sorted_push_node_def wf_queue_def heap_simps)

lemma sorted_push_end:
  assumes wf: "wf_queue h q xs" and ne: "xs \<noteq> []" and new: "n \<notin> set xs"
    and pos: "find_pos srt h (nd_data (h n)) (m_head q) = Some None"
  shows "\<exists>h' q'. sorted_push_node srt n h q = Some (h', q') \<and> wf_queue h' q' (xs @ [n]) \<and>
    datas h' = datas h"
proof -
  obtain zs t where xs: "xs = zs @ [t]"
    using ne by (cases xs rule: rev_cases) auto
  obtain x where hd: "m_head q = Some x"
    using wf ne by (cases xs) (auto simp: wf_queue_def)
  have "m_tail q = Some t"
    using wf_queue_tail [OF wf] xs by simp
  then show ?thesis
    using wf new pos xs hd
    by (auto simp: sorted_push_node_def wf_queue_def heap_simps chain_simps)
qed

lemma sorted_push_before:
  assumes wf: "wf_queue h q (as @ i # bs)" and new: "n \<notin> set (as @ i # bs)"
    and pos: "find_pos srt h (nd_data (h n)) (m_head q) = Some (Some i)"
  shows "\<exists>h' q'. sorted_push_node srt n h q = Some (h', q') \<and> bwd_queue h' q' (as @ n # i # bs) \<and>
    (as = [] \<longrightarrow> wf_queue h' q' (n # i # bs)) \<and> datas h' = datas h"
proof -
  obtain x where hd: "m_head q = Some x" and hdx: "x = (case as of [] \<Rightarrow> i | a # _ \<Rightarrow> a)"
    using wf by (cases as) (auto simp: wf_queue_def)
  show ?thesis
    using wf new pos hd hdx
    by (auto simp: sorted_push_node_def wf_queue_def bwd_queue_def heap_simps chain_simps Let_def
        split: list.splits)
qed

lemma sorted_push_wf:
  assumes wf: "wf_queue h q xs" and new: "n \<notin> set xs"
    and P: "P = (\<lambda>x. \<not> srt (datas h x) (datas h n))"
  shows "\<exists>h' q'. sorted_push_node srt n h q = Some (h', q') \<and> bwd_queue h' q' (insert_by P n xs) \<and>
    (takeWhile P xs = [] \<or> dropWhile P xs = [] \<longrightarrow> wf_queue h' q' (insert_by P n xs)) \<and>
    datas h' = datas h"
proof (cases "xs = []")
  case True
  then show ?thesis
    using sorted_push_empty [of h q srt n] wf by (auto simp: insert_by_def intro: wf_bwd)
next
  case False
  have pos: "find_pos srt h (nd_data (h n)) (m_head q) =
      Some (case dropWhile P xs of [] \<Rightarrow> None | x # _ \<Rightarrow> Some x)"
    using wf by (simp add: wf_queue_def find_pos_seg P heap_simps)
  show ?thesis
  proof (cases "dropWhile P xs")
    case Nil
    then have tw: "takeWhile P xs = xs"
      by (metis append_Nil2 takeWhile_dropWhile_id)
    have "find_pos srt h (nd_data (h n)) (m_head q) = Some None"
      using pos by (simp add: Nil)
    from sorted_push_end [OF wf False new this] show ?thesis
      unfolding insert_by_def tw Nil by (blast intro: wf_bwd)
  next
    case (Cons i bs)
    have xs: "xs = takeWhile P xs @ i # bs"
      using takeWhile_dropWhile_id [of P xs] Cons by simp
    have "\<exists>h' q'. sorted_push_node srt n h q = Some (h', q') \<and>
        bwd_queue h' q' (takeWhile P xs @ n # i # bs) \<and>
        (takeWhile P xs = [] \<longrightarrow> wf_queue h' q' (n # i # bs)) \<and> datas h' = datas h"
      by (rule sorted_push_before) (use wf new xs pos Cons in simp_all)
    then show ?thesis
      by (auto simp: insert_by_def Cons)
  qed
qed

text \<open>Keys in pop order: with a strict order on keys, insertion keeps the pop order sorted.\<close>

lemma insert_by_sorted:
  fixes key :: "'b \<Rightarrow> 'k::linorder"
  assumes "sorted (rev (map key xs))" and "P = (\<lambda>x. \<not> key x < key n)"
  shows "sorted (rev (map key (insert_by P n xs)))"
  using assms(1)
proof (induction xs)
  case Nil
  then show ?case by (simp add: insert_by_def)
next
  case (Cons x xs)
  have IH: "sorted (rev (map key (insert_by P n xs)))"
    using Cons by (simp add: sorted_append)
  show ?case
  proof (cases "P x")
    case True
    then have "insert_by P n (x # xs) = x # insert_by P n xs"
      by (simp add: insert_by_def)
    moreover have "\<forall>y\<in>set (insert_by P n xs). key y \<le> key x"
      using Cons.prems True assms(2) by (auto simp: sorted_append)
    ultimately show ?thesis
      using IH by (simp add: sorted_append)
  next
    case False
    then have "insert_by P n (x # xs) = n # x # xs"
      by (simp add: insert_by_def)
    moreover have "\<forall>y\<in>set (x # xs). key y \<le> key n"
      using Cons.prems False assms(2) by (force simp: sorted_append)
    ultimately show ?thesis
      using Cons.prems by (simp add: sorted_append)
  qed
qed

section \<open>What the sorted push does not keep\<close>

text \<open>
  A run of the sorted queue: push the nodes \<open>ns\<close> in order, then pop \<open>k\<close> times; the popped data.
\<close>

fun sorted_push_all ::
  "('a \<Rightarrow> 'a \<Rightarrow> bool) \<Rightarrow> ptr list \<Rightarrow> 'a heap \<Rightarrow> squeue \<Rightarrow> ('a heap \<times> squeue) option" where
  "sorted_push_all srt [] h q = Some (h, q)"
| "sorted_push_all srt (n # ns) h q =
     (case sorted_push_node srt n h q of
        None \<Rightarrow> None | Some (h', q') \<Rightarrow> sorted_push_all srt ns h' q')"

fun pop_all :: "nat \<Rightarrow> 'a heap \<Rightarrow> squeue \<Rightarrow> 'a list" where
  "pop_all 0 h q = []"
| "pop_all (Suc k) h q =
     (case pop_node h q of
        (None, h', q') \<Rightarrow> []
      | (Some r, h', q') \<Rightarrow> nd_data (h' r) # pop_all k h' q')"

definition example_heap :: "'a list \<Rightarrow> 'a heap" where
  "example_heap ds = (\<lambda>a. \<lparr>nd_prev = None, nd_next = None, nd_data = ds ! a\<rparr>)"

lemma sorted_push_all_pop_order:
  "map_option (\<lambda>(h, q). pop_all 4 h q)
     (sorted_push_all (\<lambda>f s :: nat. f < s) [0, 1, 2, 3] (example_heap [10, 5, 7, 8]) empty_queue)
   = Some [5, 8, 7, 10]"
  by (simp add: eval_nat_numeral sorted_push_node_def find_pos.simps empty_queue_def pop_node_def
      set_prev_def set_next_def example_heap_def)

lemma sorted_push_all_iteration:
  "map_option (\<lambda>(h, q). map (\<lambda>a. nd_data (h a)) (it_visits h (m_head q) 10))
     (sorted_push_all (\<lambda>f s :: nat. f < s) [0, 1, 2] (example_heap [10, 5, 7]) empty_queue)
   = Some [10, 5]"
  by (simp add: eval_nat_numeral sorted_push_node_def find_pos.simps empty_queue_def it_deref_def
      it_step_def set_prev_def set_next_def example_heap_def)

end
