(* ===== verification/PoolModel.thy ===== *)
theory PoolModel
  imports SimpleQueueModel
begin

text \<open>
  The fixed size memory pool of src/pool/pool.h.  Descriptors and the nodes that list them are
  arrays, addressed by index; descriptor addresses outside the pool's own array stand for
  descriptors of other pools.  A pointer to an object is the index of its descriptor
  (\<open>container_of\<close> is then the identity).
\<close>

record 'a pool_desc =
  d_owner :: nat
  d_allocated :: bool
  d_obj :: 'a

record 'a pool =
  p_this :: nat
  m_desc :: "ptr \<Rightarrow> 'a pool_desc"
  m_nodes :: "ptr heap"
  m_freeDesc :: squeue
  m_freeNodes :: squeue

section \<open>Operations\<close>

definition set_desc :: "ptr \<Rightarrow> ('a pool_desc \<Rightarrow> 'a pool_desc) \<Rightarrow> 'a pool \<Rightarrow> 'a pool" where
  "set_desc d f p = p\<lparr>m_desc := (m_desc p)(d := f (m_desc p d))\<rparr>"

text \<open>One round of the constructor's loop, and the constructor.\<close>

definition pool_init_step :: "nat \<Rightarrow> 'a pool \<Rightarrow> 'a pool" where
  "pool_init_step i p =
     (let p1 = set_desc i (\<lambda>d. d\<lparr>d_owner := p_this p\<rparr>) p;
          p2 = set_desc i (\<lambda>d. d\<lparr>d_allocated := False\<rparr>) p1;
          (h, q) = push_node i (set_data i i (m_nodes p2)) (m_freeDesc p2)
      in p2\<lparr>m_nodes := h, m_freeDesc := q\<rparr>)"

definition pool_init :: "nat \<Rightarrow> (ptr \<Rightarrow> 'a pool_desc) \<Rightarrow> ptr heap \<Rightarrow> nat \<Rightarrow> 'a pool" where
  "pool_init this desc nodes n =
     fold pool_init_step [0..<n]
       \<lparr>p_this = this, m_desc = desc, m_nodes = nodes,
        m_freeDesc = empty_queue, m_freeNodes = empty_queue\<rparr>"

definition pool_alloc :: "'a pool \<Rightarrow> ptr option \<times> 'a pool" where
  "pool_alloc p =
     (case pop_node (m_nodes p) (m_freeDesc p) of
        (None, h, q) \<Rightarrow> (None, p\<lparr>m_nodes := h, m_freeDesc := q\<rparr>)
      | (Some node, h, q) \<Rightarrow>
          (let (h', q') = push_node node h (m_freeNodes p);
               d = nd_data (h' node);
               p' = p\<lparr>m_nodes := h', m_freeDesc := q, m_freeNodes := q'\<rparr>
           in (Some d, set_desc d (\<lambda>x. x\<lparr>d_allocated := True\<rparr>) p')))"

definition pool_free :: "ptr \<Rightarrow> 'a pool \<Rightarrow> bool \<times> 'a pool" where
  "pool_free d p =
     (if \<not> d_allocated (m_desc p d) then (False, p)
      else if d_owner (m_desc p d) \<noteq> p_this p then (False, p)
      else
        (case pop_node (m_nodes p) (m_freeNodes p) of
           (None, h, q) \<Rightarrow> (False, p\<lparr>m_nodes := h, m_freeNodes := q\<rparr>)
         | (Some node, h, q) \<Rightarrow>
             (let p1 = set_desc d (\<lambda>x. x\<lparr>d_allocated := False\<rparr>) (p\<lparr>m_freeNodes := q\<rparr>);
                  (h', q') = push_node node (set_data node d h) (m_freeDesc p1)
              in (True, p1\<lparr>m_nodes := h', m_freeDesc := q'\<rparr>))))"

text \<open>The objects of the pool, and writing through pointers to them.\<close>

definition pool_obj :: "'a pool \<Rightarrow> ptr \<Rightarrow> 'a" where
  "pool_obj p = (\<lambda>d. d_obj (m_desc p d))"

definition pool_put :: "(ptr \<Rightarrow> 'a) \<Rightarrow> 'a pool \<Rightarrow> 'a pool" where
  "pool_put objs p = p\<lparr>m_desc := (\<lambda>d. (m_desc p d)\<lparr>d_obj := objs d\<rparr>)\<rparr>"

text \<open>The objects handed out and not yet freed.\<close>

definition pool_live :: "nat \<Rightarrow> 'a pool \<Rightarrow> ptr set" where
  "pool_live n p = {d. d < n \<and> d_allocated (m_desc p d)}"

section \<open>Invariant\<close>

definition pool_lists :: "nat \<Rightarrow> 'a pool \<Rightarrow> ptr list \<Rightarrow> ptr list \<Rightarrow> bool" where
  "pool_lists n p ds ns \<longleftrightarrow>
     wf_queue (m_nodes p) (m_freeDesc p) ds \<and> wf_queue (m_nodes p) (m_freeNodes p) ns \<and>
     set ds \<inter> set ns = {} \<and> set ds \<union> set ns = {..<n} \<and>
     inj_on (datas (m_nodes p)) (set ds) \<and>
     datas (m_nodes p) ` set ds = {d. d < n \<and> \<not> d_allocated (m_desc p d)}"

definition pool_inv :: "nat \<Rightarrow> 'a pool \<Rightarrow> bool" where
  "pool_inv n p \<longleftrightarrow>
     (\<forall>d. (d_owner (m_desc p d) = p_this p) = (d < n)) \<and> (\<exists>ds ns. pool_lists n p ds ns)"

lemma push_node_frame:
  assumes "wf_queue h q xs" and "push_node n h q = (h', q')" and "a \<notin> insert n (set xs)"
  shows "prevs h' a = prevs h a" and "nexts h' a = nexts h a"
  using assms by (cases xs; auto simp: push_node_def wf_queue_def heap_simps split: option.splits)+

lemma pop_node_frame:
  assumes "wf_queue h q (xs @ [x])" and "pop_node h q = (r, h', q')" and "a \<notin> set xs"
  shows "prevs h' a = prevs h a" and "nexts h' a = nexts h a"
  using assms
  by (cases xs rule: rev_cases;
      auto simp: pop_node_def wf_queue_def heap_simps chain_simps split: option.splits)+

text \<open>Moving the last node of one queue to the front of another one in the same heap.\<close>

lemma move_node:
  assumes q1: "wf_queue h q1 (xs @ [n])" and q2: "wf_queue h q2 ys"
    and disj: "set (xs @ [n]) \<inter> set ys = {}"
    and pop: "pop_node h q1 = (r, h1, q1')"
    and cols: "prevs h2 = prevs h1" "nexts h2 = nexts h1"
    and push: "push_node n h2 q2 = (h3, q2')"
  shows "r = Some n" and "wf_queue h3 q1' xs" and "wf_queue h3 q2' (n # ys)"
    and "datas h1 = datas h" and "datas h3 = datas h2"
proof -
  note p = wf_pop_node [OF q1 pop]
  show "r = Some n" and "datas h1 = datas h"
    using p by auto
  have frame2: "wf_queue h2 q1' xs"
    using p(2) by (simp add: wf_queue_frame [of xs h2 h1] cols)
  have "wf_queue h1 q2 ys"
    using q2 disj pop_node_frame [OF q1 pop] by (subst wf_queue_frame [of ys h1 h]) auto
  then have wq2: "wf_queue h2 q2 ys"
    by (simp add: wf_queue_frame [of ys h2 h1] cols)
  have nys: "n \<notin> set ys"
    using disj by auto
  show "wf_queue h3 q2' (n # ys)" and "datas h3 = datas h2"
    using wf_push_node [OF wq2 nys push] by auto
  have nxs: "\<And>x. x \<in> set xs \<Longrightarrow> x \<notin> insert n (set ys)"
    using disj q1 by (auto simp: wf_queue_def)
  show "wf_queue h3 q1' xs"
    using frame2 push_node_frame [OF wq2 push nxs]
    by (subst wf_queue_frame [of xs h3 h2]) auto
qed

section \<open>Allocation\<close>

lemma set_desc_simps [simp]:
  "m_nodes (set_desc d f p) = m_nodes p" "m_freeDesc (set_desc d f p) = m_freeDesc p"
  "m_freeNodes (set_desc d f p) = m_freeNodes p" "p_this (set_desc d f p) = p_this p"
  "m_desc (set_desc d f p) = (m_desc p)(d := f (m_desc p d))"
  by (simp_all add: set_desc_def)

lemma pool_alloc_empty:
  assumes "pool_lists n p [] ns"
  shows "pool_alloc p = (None, p)" and "pool_live n p = {..<n}"
proof -
  show "pool_alloc p = (None, p)"
    using assms by (simp add: pool_lists_def pool_alloc_def pop_node_empty)
  show "pool_live n p = {..<n}"
    using assms by (auto simp: pool_lists_def pool_live_def)
qed

lemma pool_alloc_nonempty:
  assumes l: "pool_lists n p (xs @ [nd]) ns"
  shows "\<exists>p'. pool_alloc p = (Some (datas (m_nodes p) nd), p') \<and>
    pool_lists n p' xs (nd # ns) \<and> p_this p' = p_this p \<and>
    m_desc p' = (m_desc p)(datas (m_nodes p) nd :=
                  (m_desc p (datas (m_nodes p) nd))\<lparr>d_allocated := True\<rparr>)"
proof -
  let ?d = "datas (m_nodes p) nd"
  obtain r h q where pop: "pop_node (m_nodes p) (m_freeDesc p) = (r, h, q)"
    by (metis prod_cases3)
  obtain h' q' where push: "push_node nd h (m_freeNodes p) = (h', q')"
    by fastforce
  have w: "wf_queue (m_nodes p) (m_freeDesc p) (xs @ [nd])"
      "wf_queue (m_nodes p) (m_freeNodes p) ns" "set (xs @ [nd]) \<inter> set ns = {}"
    using l by (auto simp: pool_lists_def)
  note mv = move_node [OF w pop refl refl push]
  let ?p' = "set_desc ?d (\<lambda>x. x\<lparr>d_allocated := True\<rparr>)
               (p\<lparr>m_nodes := h', m_freeDesc := q, m_freeNodes := q'\<rparr>)"
  have "pool_alloc p = (Some ?d, ?p')"
    using mv pop push by (simp add: pool_alloc_def heap_simps Let_def)
  moreover have "pool_lists n ?p' xs (nd # ns)"
  proof -
    have nd: "nd \<notin> set xs" "set xs \<subseteq> set (xs @ [nd])"
      using w by (auto simp: wf_queue_def)
    have inj: "inj_on (datas (m_nodes p)) (set (xs @ [nd]))"
        and im: "datas (m_nodes p) ` set (xs @ [nd]) = {d. d < n \<and> \<not> d_allocated (m_desc p d)}"
      using l by (auto simp: pool_lists_def)
    have ne: "\<forall>x\<in>set xs. datas (m_nodes p) x \<noteq> ?d"
      using inj nd by (auto simp: inj_on_def)
    then have "datas (m_nodes p) ` set xs = {d. d < n \<and> \<not> d_allocated (m_desc p d)} - {?d}"
      using im by auto
    then show ?thesis
      using l mv inj ne by (auto simp: pool_lists_def inj_on_def)
  qed
  ultimately show ?thesis
    by auto
qed

section \<open>Freeing\<close>

lemma pool_lists_card:
  assumes "pool_lists n p ds ns"
  shows "length ds + length ns = n"
proof -
  have "card (set ds \<union> set ns) = card (set ds) + card (set ns)"
    using assms by (intro card_Un_disjoint) (auto simp: pool_lists_def)
  then show ?thesis
    using assms by (auto simp: pool_lists_def wf_queue_def distinct_card)
qed

lemma pool_lists_card_free:
  assumes "pool_lists n p ds ns"
  shows "card (pool_live n p) + length ds = n"
proof -
  have free: "card {d. d < n \<and> \<not> d_allocated (m_desc p d)} = length ds"
    using assms card_image [of "datas (m_nodes p)" "set ds"]
    by (auto simp: pool_lists_def wf_queue_def distinct_card)
  have "card (pool_live n p \<union> {d. d < n \<and> \<not> d_allocated (m_desc p d)}) =
      card (pool_live n p) + card {d. d < n \<and> \<not> d_allocated (m_desc p d)}"
    by (rule card_Un_disjoint) (auto simp: pool_live_def)
  moreover have "pool_live n p \<union> {d. d < n \<and> \<not> d_allocated (m_desc p d)} = {..<n}"
    by (auto simp: pool_live_def)
  ultimately show ?thesis
    using free by simp
qed

lemma pool_free_live:
  assumes l: "pool_lists n p ds ns" and d: "d \<in> pool_live n p" and ow: "d_owner (m_desc p d) = p_this p"
  shows "\<exists>p' nd ms. pool_free d p = (True, p') \<and> ns = ms @ [nd] \<and>
    pool_lists n p' (nd # ds) ms \<and> p_this p' = p_this p \<and>
    m_desc p' = (m_desc p)(d := (m_desc p d)\<lparr>d_allocated := False\<rparr>) \<and>
    datas (m_nodes p') = (datas (m_nodes p))(nd := d)"
proof -
  have "card (pool_live n p) > 0"
    using d by (auto simp: card_gt_0_iff pool_live_def)
  then have "ns \<noteq> []"
    using pool_lists_card [OF l] pool_lists_card_free [OF l] by auto
  then obtain ms nd where ns: "ns = ms @ [nd]"
    by (cases ns rule: rev_cases) auto
  obtain r h q where pop: "pop_node (m_nodes p) (m_freeNodes p) = (r, h, q)"
    by (metis prod_cases3)
  obtain h' q' where push: "push_node nd (set_data nd d h) (m_freeDesc p) = (h', q')"
    by fastforce
  have w: "wf_queue (m_nodes p) (m_freeNodes p) (ms @ [nd])"
      "wf_queue (m_nodes p) (m_freeDesc p) ds" "set (ms @ [nd]) \<inter> set ds = {}"
    using l by (auto simp: pool_lists_def ns)
  have cols: "prevs (set_data nd d h) = prevs h" "nexts (set_data nd d h) = nexts h"
    by (simp_all add: heap_simps)
  note mv = move_node [OF w pop cols push]
  have dat: "datas h' = (datas (m_nodes p))(nd := d)"
    using mv by (simp add: heap_simps)
  let ?p' = "set_desc d (\<lambda>x. x\<lparr>d_allocated := False\<rparr>) (p\<lparr>m_freeNodes := q\<rparr>)
               \<lparr>m_nodes := h', m_freeDesc := q'\<rparr>"
  have al: "d < n" "d_allocated (m_desc p d)"
    using d by (auto simp: pool_live_def)
  have "pool_free d p = (True, ?p')"
    using mv pop push ow al by (simp add: pool_free_def)
  moreover have "pool_lists n ?p' (nd # ds) ms"
  proof -
    have nd: "nd \<notin> set ds" "nd \<notin> set ms"
      using w by (auto simp: wf_queue_def)
    have im: "datas (m_nodes p) ` set ds = {e. e < n \<and> \<not> d_allocated (m_desc p e)}"
        and inj: "inj_on (datas (m_nodes p)) (set ds)"
      using l by (auto simp: pool_lists_def)
    have same: "\<And>x. x \<in> set ds \<Longrightarrow> ((datas (m_nodes p))(nd := d)) x = datas (m_nodes p) x"
      using nd by auto
    have im': "datas h' ` set ds = {e. e < n \<and> \<not> d_allocated (m_desc p e)}"
      unfolding dat using im same by (metis (no_types, lifting) image_cong)
    have dnot: "d \<notin> datas h' ` set ds"
      using im' al by auto
    have inj': "inj_on (datas h') (insert nd (set ds))"
      using inj same dnot nd by (simp add: dat inj_on_def) (metis imageI)
    have "datas h' ` insert nd (set ds) = insert d {e. e < n \<and> \<not> d_allocated (m_desc p e)}"
      unfolding image_insert im' by (simp add: dat)
    then show ?thesis
      using l mv inj' al nd by (auto simp: pool_lists_def ns)
  qed
  ultimately show ?thesis
    using ns dat by auto
qed

section \<open>The constructor\<close>

lemma pool_init_step_lists:
  assumes "wf_queue (m_nodes p) (m_freeDesc p) (rev [0..<k])"
    and "\<forall>i<k. datas (m_nodes p) i = i"
  shows "wf_queue (m_nodes (pool_init_step k p)) (m_freeDesc (pool_init_step k p)) (rev [0..<Suc k])"
    and "\<forall>i<Suc k. datas (m_nodes (pool_init_step k p)) i = i"
    and "m_desc (pool_init_step k p) =
           (m_desc p)(k := (m_desc p k)\<lparr>d_owner := p_this p, d_allocated := False\<rparr>)"
    and "p_this (pool_init_step k p) = p_this p"
    and "m_freeNodes (pool_init_step k p) = m_freeNodes p"
proof -
  obtain h q where push: "push_node k (set_data k k (m_nodes p)) (m_freeDesc p) = (h, q)"
    by fastforce
  have w: "wf_queue (set_data k k (m_nodes p)) (m_freeDesc p) (rev [0..<k])"
    using assms(1) by (subst wf_queue_frame [of _ _ "m_nodes p"]) (simp_all add: heap_simps)
  note wp = wf_push_node [OF w _ push]
  show "wf_queue (m_nodes (pool_init_step k p)) (m_freeDesc (pool_init_step k p)) (rev [0..<Suc k])"
    using wp push by (simp add: pool_init_step_def)
  show "\<forall>i<Suc k. datas (m_nodes (pool_init_step k p)) i = i"
    using wp push assms(2) by (auto simp: pool_init_step_def heap_simps)
qed (auto simp: pool_init_step_def Let_def set_desc_def split: prod.splits)

lemma pool_init_fold:
  fixes p :: "'a pool"
  assumes p: "p = \<lparr>p_this = this, m_desc = desc, m_nodes = nodes,
      m_freeDesc = empty_queue, m_freeNodes = empty_queue\<rparr>"
    and p': "p' = fold pool_init_step [0..<k] p"
  shows "wf_queue (m_nodes p') (m_freeDesc p') (rev [0..<k]) \<and>
    (\<forall>i<k. datas (m_nodes p') i = i) \<and>
    m_desc p' = (\<lambda>d. if d < k then (desc d)\<lparr>d_owner := this, d_allocated := False\<rparr> else desc d) \<and>
    p_this p' = this \<and> m_freeNodes p' = empty_queue"
  using p'
proof (induction k arbitrary: p')
  case 0
  then show ?case by (simp add: p)
next
  case (Suc k)
  have "p' = pool_init_step k (fold pool_init_step [0..<k] p)"
    using Suc.prems by simp
  moreover note Suc.IH [OF refl]
  ultimately show ?case
    using pool_init_step_lists [of "fold pool_init_step [0..<k] p" k] by (auto simp: fun_eq_iff less_Suc_eq)
qed

lemma pool_init_inv:
  assumes "\<And>d. d \<ge> n \<Longrightarrow> d_owner (desc d) \<noteq> this"
  shows "pool_inv n (pool_init this desc nodes n)" and "pool_live n (pool_init this desc nodes n) = {}"
proof -
  note f = pool_init_fold [OF refl refl, where k = n and this = this and desc = desc and nodes = nodes,
      folded pool_init_def]
  have inj: "inj_on (datas (m_nodes (pool_init this desc nodes n))) {..<n}"
    using f by (auto simp: inj_on_def)
  have "datas (m_nodes (pool_init this desc nodes n)) ` {..<n} = (\<lambda>i. i) ` {..<n}"
    by (rule image_cong) (use f in auto)
  then have "pool_lists n (pool_init this desc nodes n) (rev [0..<n]) []"
    using f inj by (auto simp: pool_lists_def atLeast0LessThan)
  then show "pool_inv n (pool_init this desc nodes n)"
    using f assms by (auto simp: pool_inv_def not_less)
  show "pool_live n (pool_init this desc nodes n) = {}"
    using f by (auto simp: pool_live_def)
qed

section \<open>The pool interface\<close>

text \<open>What a client of a pool relies on: the laws of \<open>alloc\<close> and \<open>free\<close> over the set of live objects.\<close>

locale object_pool =
  fixes alloc :: "'p \<Rightarrow> ptr option \<times> 'p"
    and free :: "ptr \<Rightarrow> 'p \<Rightarrow> bool \<times> 'p"
    and obj :: "'p \<Rightarrow> ptr \<Rightarrow> 'o"
    and put :: "(ptr \<Rightarrow> 'o) \<Rightarrow> 'p \<Rightarrow> 'p"
    and live :: "'p \<Rightarrow> ptr set"
    and inv :: "'p \<Rightarrow> bool"
    and cap :: nat
  assumes live_bound: "inv p \<Longrightarrow> live p \<subseteq> {..<cap}"
    and alloc_room: "inv p \<Longrightarrow> card (live p) < cap \<Longrightarrow> \<exists>d p'. alloc p = (Some d, p')"
    and alloc_full: "inv p \<Longrightarrow> card (live p) = cap \<Longrightarrow> alloc p = (None, p)"
    and alloc_Some: "inv p \<Longrightarrow> alloc p = (Some d, p') \<Longrightarrow>
          inv p' \<and> d \<notin> live p \<and> live p' = insert d (live p) \<and> obj p' = obj p"
    and free_live: "inv p \<Longrightarrow> d \<in> live p \<Longrightarrow>
          \<exists>p'. free d p = (True, p') \<and> inv p' \<and> live p' = live p - {d} \<and> obj p' = obj p"
    and free_dead: "inv p \<Longrightarrow> d \<notin> live p \<Longrightarrow> free d p = (False, p)"
    and put_laws: "obj (put os p) = os" "live (put os p) = live p" "inv (put os p) = inv p"
begin

lemma live_finite: "inv p \<Longrightarrow> finite (live p)"
  using live_bound finite_subset by blast

lemma live_card: "inv p \<Longrightarrow> card (live p) \<le> cap"
  using live_bound [of p] card_mono [of "{..<cap}" "live p"] by simp

text \<open>Freeing what was just allocated succeeds and restores the set of live objects.\<close>

lemma alloc_free:
  assumes "inv p" and "alloc p = (Some d, p')"
  shows "\<exists>p''. free d p' = (True, p'') \<and> inv p'' \<and> live p'' = live p"
  using alloc_Some [OF assms] free_live [of p' d] by auto

text \<open>A second free of the same object is refused and changes nothing.\<close>

lemma double_free:
  assumes "inv p" and "d \<in> live p" and "free d p = (b, p')"
  shows "free d p' = (False, p')"
  using free_live [OF assms(1,2)] assms(3) free_dead [of p' d] by auto

text \<open>\<open>n\<close> allocations in a row, and the objects they return.\<close>

primrec allocs :: "nat \<Rightarrow> 'p \<Rightarrow> ptr list \<times> 'p" where
  "allocs 0 p = ([], p)"
| "allocs (Suc n) p =
     (case alloc p of
        (None, p') \<Rightarrow> ([], p')
      | (Some d, p') \<Rightarrow> (case allocs n p' of (ds, p'') \<Rightarrow> (d # ds, p'')))"

lemma allocs_distinct:
  assumes "inv p" and "allocs n p = (ds, p')"
  shows "inv p' \<and> distinct ds \<and> set ds \<inter> live p = {} \<and> live p' = live p \<union> set ds \<and>
    length ds = min n (cap - card (live p))"
  using assms
proof (induction n arbitrary: p ds p')
  case 0
  then show ?case by auto
next
  case (Suc n)
  show ?case
  proof (cases "card (live p) = cap")
    case True
    then show ?thesis
      using Suc.prems alloc_full by auto
  next
    case False
    then obtain d p1 where a: "alloc p = (Some d, p1)"
      using Suc.prems(1) live_card alloc_room by (metis le_neq_implies_less)
    obtain es p2 where r: "allocs n p1 = (es, p2)"
      by fastforce
    note s = alloc_Some [OF Suc.prems(1) a]
    have c: "card (live p1) = Suc (card (live p))"
      using s live_finite [OF Suc.prems(1)] by simp
    have "ds = d # es" "p' = p2"
      using Suc.prems(2) a r by auto
    moreover have "card (live p) < cap"
      using False live_card [OF Suc.prems(1)] by simp
    ultimately show ?thesis
      using Suc.IH [OF _ r] s c by auto
  qed
qed

end

lemma pool_live_bound: "pool_live n p \<subseteq> {..<n}"
  by (auto simp: pool_live_def)

lemma pool_alloc_room:
  assumes inv: "pool_inv n p" and room: "card (pool_live n p) < n"
  shows "\<exists>d p'. pool_alloc p = (Some d, p')"
proof -
  obtain ds ns where l: "pool_lists n p ds ns"
    using inv by (auto simp: pool_inv_def)
  then have "ds \<noteq> []"
    using pool_lists_card_free [OF l] room by auto
  then obtain xs nd where "ds = xs @ [nd]"
    by (cases ds rule: rev_cases) auto
  then show ?thesis
    using pool_alloc_nonempty l by blast
qed

lemma pool_alloc_full:
  assumes inv: "pool_inv n p" and full: "card (pool_live n p) = n"
  shows "pool_alloc p = (None, p)"
proof -
  obtain ds ns where l: "pool_lists n p ds ns"
    using inv by (auto simp: pool_inv_def)
  then have "ds = []"
    using pool_lists_card_free [OF l] full by auto
  then show ?thesis
    using pool_alloc_empty l by blast
qed

lemma pool_alloc_Some:
  assumes inv: "pool_inv n p" and a: "pool_alloc p = (Some d, p')"
  shows "pool_inv n p' \<and> d \<notin> pool_live n p \<and> pool_live n p' = insert d (pool_live n p) \<and>
    pool_obj p' = pool_obj p"
proof -
  obtain ds ns where l: "pool_lists n p ds ns"
    using inv by (auto simp: pool_inv_def)
  then have "ds \<noteq> []"
    using a pool_alloc_empty by force
  then obtain xs nd where ds: "ds = xs @ [nd]"
    by (cases ds rule: rev_cases) auto
  have d: "d = datas (m_nodes p) nd"
    and l': "pool_lists n p' xs (nd # ns)" and o: "p_this p' = p_this p"
    and dd: "m_desc p' = (m_desc p)(d := (m_desc p d)\<lparr>d_allocated := True\<rparr>)"
    using pool_alloc_nonempty [of n p xs nd ns] l a by (auto simp: ds)
  have "d \<in> datas (m_nodes p) ` set ds"
    by (simp add: d ds)
  then have "d < n" "\<not> d_allocated (m_desc p d)"
    using l by (auto simp: pool_lists_def)
  moreover have "pool_inv n p'"
    using inv l' o dd by (auto simp: pool_inv_def)
  ultimately show ?thesis
    by (auto simp: pool_live_def pool_obj_def dd)
qed

lemma pool_free_live':
  assumes inv: "pool_inv n p" and d: "d \<in> pool_live n p"
  shows "\<exists>p'. pool_free d p = (True, p') \<and> pool_inv n p' \<and> pool_live n p' = pool_live n p - {d} \<and>
    pool_obj p' = pool_obj p"
proof -
  obtain ds ns where l: "pool_lists n p ds ns"
    using inv by (auto simp: pool_inv_def)
  have "d_owner (m_desc p d) = p_this p"
    using inv d by (auto simp: pool_inv_def pool_live_def)
  from pool_free_live [OF l d this] inv show ?thesis
    by (fastforce simp: pool_inv_def pool_live_def pool_obj_def fun_eq_iff)
qed

lemma pool_free_dead:
  assumes "pool_inv n p" and "d \<notin> pool_live n p"
  shows "pool_free d p = (False, p)"
  using assms by (auto simp: pool_free_def pool_inv_def pool_live_def)

lemma pool_put_laws:
  "pool_obj (pool_put os p) = os" "pool_live n (pool_put os p) = pool_live n p"
  "pool_inv n (pool_put os p) = pool_inv n p"
  by (auto simp: pool_obj_def pool_live_def pool_inv_def pool_lists_def pool_put_def)

interpretation mp: object_pool pool_alloc "pool_free" pool_obj pool_put "pool_live n" "pool_inv n" n
  for n
  by (unfold_locales;
      (rule pool_live_bound | rule pool_put_laws | erule (1) pool_alloc_room | erule (1) pool_alloc_full |
       erule (1) pool_alloc_Some | erule (1) pool_free_live' | erule (1) pool_free_dead))

section \<open>Histories of a pool\<close>

text \<open>
  What happens to a pool: an allocation, a free of any pointer, and a change of a descriptor that
  does not belong to the pool, for example by the pool that it belongs to: its flag and its object
  may become anything, its owner stays another one.
\<close>

datatype 'a pool_op = Alloc | Free ptr | Foreign ptr bool 'a

definition pool_foreign :: "ptr \<Rightarrow> bool \<Rightarrow> 'a \<Rightarrow> 'a pool \<Rightarrow> 'a pool" where
  "pool_foreign d al x p =
     (if d_owner (m_desc p d) = p_this p then p
      else set_desc d (\<lambda>e. e\<lparr>d_allocated := al, d_obj := x\<rparr>) p)"

fun pool_run :: "'a pool_op list \<Rightarrow> 'a pool \<Rightarrow> 'a pool" where
  "pool_run [] p = p"
| "pool_run (Alloc # ops) p = pool_run ops (snd (pool_alloc p))"
| "pool_run (Free d # ops) p = pool_run ops (snd (pool_free d p))"
| "pool_run (Foreign d al x # ops) p = pool_run ops (pool_foreign d al x p)"

lemma pool_foreign_inv:
  assumes "pool_inv n p"
  shows "pool_inv n (pool_foreign d al x p)"
proof (cases "d_owner (m_desc p d) = p_this p")
  case True
  then show ?thesis
    using assms by (simp add: pool_foreign_def)
next
  case False
  then have d: "\<not> d < n"
    using assms by (auto simp: pool_inv_def)
  have "{e. e < n \<and> \<not> d_allocated (((m_desc p)(d := (m_desc p d)\<lparr>d_allocated := al, d_obj := x\<rparr>)) e)} =
      {e. e < n \<and> \<not> d_allocated (m_desc p e)}"
    using d by auto
  then have "pool_lists n (pool_foreign d al x p) ds ns = pool_lists n p ds ns" for ds ns
    using False by (simp add: pool_foreign_def pool_lists_def)
  then show ?thesis
    using assms False by (auto simp: pool_inv_def pool_foreign_def)
qed

lemma pool_run_inv: "pool_inv n p \<Longrightarrow> pool_inv n (pool_run ops p)"
proof (induction ops p rule: pool_run.induct)
  case (2 ops p)
  then show ?case
    using mp.alloc_Some [OF "2.prems"] mp.alloc_full [OF "2.prems"] mp.alloc_room [OF "2.prems"]
      mp.live_card [OF "2.prems"] by (metis le_neq_implies_less pool_run.simps(2) snd_conv)
next
  case (3 d ops p)
  then show ?case
    using mp.free_live [OF "3.prems", of d] mp.free_dead [OF "3.prems", of d]
    by (metis pool_run.simps(3) snd_conv)
qed (simp_all add: pool_foreign_inv)

text \<open>A pool in zeroed static memory; its own address is 1.\<close>

definition pool_boot :: "'a \<Rightarrow> nat \<Rightarrow> 'a pool" where
  "pool_boot x n =
     pool_init 1 (\<lambda>d. \<lparr>d_owner = 0, d_allocated = False, d_obj = x\<rparr>)
       (\<lambda>a. \<lparr>nd_prev = None, nd_next = None, nd_data = 0\<rparr>) n"

lemma pool_boot_inv: "pool_inv n (pool_boot x n)" and pool_boot_live: "pool_live n (pool_boot x n) = {}"
  using pool_init_inv [of n "\<lambda>d. \<lparr>d_owner = 0, d_allocated = False, d_obj = x\<rparr>" 1]
  by (simp_all add: pool_boot_def)

text \<open>C5: In any memory in which no descriptor outside the pool names it as its owner, after any
  history of allocations, frees (of pointers in use, freed before, or of another pool, whose
  descriptor may well be marked as allocated) and changes to the other descriptors: an allocation
  hands out an object of the pool that is not in use, changes nothing else, and is refused exactly
  when all objects are in use; freeing an object in use succeeds and makes it available; freeing any
  other pointer is refused and changes nothing, so that no object is ever listed as free twice (the
  comment on \<open>free\<close> fears that a double free could do that).\<close>

theorem pool_alloc_fresh:
  assumes "\<forall>d\<ge>n. d_owner (desc d) \<noteq> this" and "p = pool_run ops (pool_init this desc nodes n)"
  shows "(case pool_alloc p of
      (None, p') \<Rightarrow> card (pool_live n p) = n \<and> p' = p
    | (Some d, p') \<Rightarrow> d < n \<and> d \<notin> pool_live n p \<and> pool_live n p' = insert d (pool_live n p) \<and>
        pool_obj p' = pool_obj p) \<and>
    (\<forall>d. if d \<in> pool_live n p
         then (\<exists>p'. pool_free d p = (True, p') \<and> pool_live n p' = pool_live n p - {d} \<and>
                 pool_obj p' = pool_obj p \<and> pool_free d p' = (False, p'))
         else pool_free d p = (False, p))"
proof
  have inv: "pool_inv n p"
    unfolding assms(2) by (intro pool_run_inv pool_init_inv(1)) (use assms(1) in simp)
  show "case pool_alloc p of
      (None, p') \<Rightarrow> card (pool_live n p) = n \<and> p' = p
    | (Some d, p') \<Rightarrow> d < n \<and> d \<notin> pool_live n p \<and> pool_live n p' = insert d (pool_live n p) \<and>
        pool_obj p' = pool_obj p"
  proof (cases "card (pool_live n p) = n")
    case True
    then show ?thesis
      using mp.alloc_full [OF inv] by simp
  next
    case False
    then obtain d p' where a: "pool_alloc p = (Some d, p')"
      using mp.alloc_room [OF inv] mp.live_card [OF inv] by (metis le_neq_implies_less)
    then show ?thesis
      using mp.alloc_Some [OF inv a] mp.live_bound [of n p'] by auto
  qed
  show "\<forall>d. if d \<in> pool_live n p
         then (\<exists>p'. pool_free d p = (True, p') \<and> pool_live n p' = pool_live n p - {d} \<and>
                 pool_obj p' = pool_obj p \<and> pool_free d p' = (False, p'))
         else pool_free d p = (False, p)"
    using mp.free_live [OF inv] mp.free_dead [OF inv] mp.double_free [OF inv] by fastforce
qed

text \<open>A pool of two objects; descriptor 7 is of another pool, which allocates it.  Freeing it here
  has no effect, and both objects can be allocated.\<close>

definition ex_pool :: "nat pool" where
  "ex_pool = pool_run [Alloc, Foreign 7 True 9, Free 7]
     (pool_init 1 (\<lambda>d. \<lparr>d_owner = 2, d_allocated = False, d_obj = 0\<rparr>)
       (\<lambda>a. \<lparr>nd_prev = None, nd_next = None, nd_data = 0\<rparr>) 2)"

theorem pool_alloc_fresh_witness:
  "d_allocated (m_desc ex_pool 7) \<and> pool_free 7 ex_pool = (False, ex_pool) \<and>
   fst (pool_free 0 ex_pool) \<and> fst (pool_alloc ex_pool) = Some 1"
proof -
  have al: "d_allocated (m_desc ex_pool 7)" "d_allocated (m_desc ex_pool 0)"
      "fst (pool_alloc ex_pool) = Some 1"
    by code_simp+
  have "\<forall>d\<ge>2. d_owner \<lparr>d_owner = 2, d_allocated = False, d_obj = 0 :: nat\<rparr> \<noteq> 1"
    by simp
  from conjunct2 [OF pool_alloc_fresh [OF this ex_pool_def]]
  have pf: "if d \<in> pool_live 2 ex_pool
      then (\<exists>p'. pool_free d ex_pool = (True, p') \<and> pool_live 2 p' = pool_live 2 ex_pool - {d} \<and>
              pool_obj p' = pool_obj ex_pool \<and> pool_free d p' = (False, p'))
      else pool_free d ex_pool = (False, ex_pool)" for d
    by (rule spec)
  have l: "7 \<notin> pool_live 2 ex_pool" "0 \<in> pool_live 2 ex_pool"
    using al(2) by (simp_all add: pool_live_def)
  obtain p' where "pool_free 0 ex_pool = (True, p')"
    using pf [of 0] l(2) by (simp only: if_True) blast
  moreover have "pool_free 7 ex_pool = (False, ex_pool)"
    using pf [of 7] l(1) by (simp only: if_False)
  ultimately show ?thesis
    using al(1,3) by (simp only: fst_conv simp_thms)
qed

text \<open>Freeing twice: the first free of an object in use succeeds, the second one is refused and
  leaves the pool as it is, whatever happened before.\<close>

theorem pool_double_free:
  assumes "d \<in> pool_live n (pool_run ops (pool_boot x n))"
  shows "\<exists>p'. pool_free d (pool_run ops (pool_boot x n)) = (True, p') \<and> d \<notin> pool_live n p' \<and>
    pool_free d p' = (False, p')"
proof -
  have inv: "pool_inv n (pool_run ops (pool_boot x n))"
    by (intro pool_run_inv pool_boot_inv)
  from mp.free_live [OF inv assms] mp.double_free [OF inv assms] show ?thesis
    by (metis Diff_iff insertI1)
qed

end
