(* ===== verification/AllocQueueModel.thy ===== *)
theory AllocQueueModel
  imports PoolModel
begin

text \<open>
  The preallocated queues of src/queue/allocated_queue.h: a node pool and a queue of the pool's
  nodes.  A pointer to an element is the index of its node.  The interface of src/queue/queue.h
  is the locale \<open>fifo_queue\<close>, interpreted on \<open>alloc::Queue\<close>.
\<close>

record 'a aqueue =
  aq_queue :: squeue
  aq_pool :: "'a node pool"

section \<open>alloc::Queue\<close>

definition aq_heap :: "'a aqueue \<Rightarrow> 'a heap" where
  "aq_heap a = pool_obj (aq_pool a)"

definition aq_init :: "nat \<Rightarrow> (ptr \<Rightarrow> 'a node pool_desc) \<Rightarrow> ptr heap \<Rightarrow> nat \<Rightarrow> 'a aqueue" where
  "aq_init this desc nodes n =
     \<lparr>aq_queue = empty_queue, aq_pool = pool_init this desc nodes n\<rparr>"

definition aq_push :: "'a \<Rightarrow> 'a aqueue \<Rightarrow> ptr option \<times> 'a aqueue" where
  "aq_push x a =
     (case pool_alloc (aq_pool a) of
        (None, p) \<Rightarrow> (None, a\<lparr>aq_pool := p\<rparr>)
      | (Some node, p) \<Rightarrow>
          (let (h, q) = push_node node (set_data node x (pool_obj p)) (aq_queue a)
           in (Some node, \<lparr>aq_queue = q, aq_pool = pool_put h p\<rparr>)))"

text \<open>The overload without an argument, which leaves the data of the new node as it is.\<close>

definition aq_push_uninit :: "'a aqueue \<Rightarrow> ptr option \<times> 'a aqueue" where
  "aq_push_uninit a =
     (case pool_alloc (aq_pool a) of
        (None, p) \<Rightarrow> (None, a\<lparr>aq_pool := p\<rparr>)
      | (Some node, p) \<Rightarrow>
          (let (h, q) = push_node node (pool_obj p) (aq_queue a)
           in (Some node, \<lparr>aq_queue = q, aq_pool = pool_put h p\<rparr>)))"

definition aq_pop :: "'a aqueue \<Rightarrow> 'a aqueue" where
  "aq_pop a =
     (case pop_node (aq_heap a) (aq_queue a) of
        (None, h, q) \<Rightarrow> a\<lparr>aq_queue := q, aq_pool := pool_put h (aq_pool a)\<rparr>
      | (Some node, h, q) \<Rightarrow>
          \<lparr>aq_queue = q, aq_pool = snd (pool_free node (pool_put h (aq_pool a)))\<rparr>)"

definition aq_peek :: "'a aqueue \<Rightarrow> ptr option" where
  "aq_peek a = peek_node (aq_queue a)"

definition aq_remove :: "ptr \<Rightarrow> 'a aqueue \<Rightarrow> 'a aqueue option" where
  "aq_remove node a =
     (case remove_node node (aq_heap a) (aq_queue a) of
        None \<Rightarrow> None
      | Some (h, q) \<Rightarrow>
          Some \<lparr>aq_queue = q, aq_pool = snd (pool_free node (pool_put h (aq_pool a)))\<rparr>)"

definition aq_size :: "'a aqueue \<Rightarrow> size_t" where
  "aq_size a = num_nodes (aq_queue a)"

definition aq_iterator :: "'a aqueue \<Rightarrow> ptr option" where
  "aq_iterator a = head_node (aq_queue a)"

text \<open>Reading the element behind a pointer, and the pointers in pop order.\<close>

definition aq_val :: "'a aqueue \<Rightarrow> ptr \<Rightarrow> 'a" where
  "aq_val a = datas (aq_heap a)"

definition aq_elems :: "'a aqueue \<Rightarrow> ptr list" where
  "aq_elems a = walk (prevs (aq_heap a)) (m_tail (aq_queue a)) (unat (m_size (aq_queue a)))"

section \<open>alloc::SortedQueue\<close>

definition sq_push :: "('a \<Rightarrow> 'a \<Rightarrow> bool) \<Rightarrow> 'a \<Rightarrow> 'a aqueue \<Rightarrow> (ptr option \<times> 'a aqueue) option" where
  "sq_push srt x a =
     (case pool_alloc (aq_pool a) of
        (None, p) \<Rightarrow> Some (None, a\<lparr>aq_pool := p\<rparr>)
      | (Some node, p) \<Rightarrow>
          (case sorted_push_node srt node (set_data node x (pool_obj p)) (aq_queue a) of
             None \<Rightarrow> None
           | Some (h, q) \<Rightarrow> Some (Some node, \<lparr>aq_queue = q, aq_pool = pool_put h p\<rparr>)))"

definition sq_pop :: "'a aqueue \<Rightarrow> 'a aqueue" where
  "sq_pop a =
     (case pop_node (aq_heap a) (aq_queue a) of
        (None, h, q) \<Rightarrow> a\<lparr>aq_queue := q, aq_pool := pool_put h (aq_pool a)\<rparr>
      | (Some node, h, q) \<Rightarrow>
          \<lparr>aq_queue = q, aq_pool = snd (pool_free node (pool_put h (aq_pool a)))\<rparr>)"

definition sq_peek :: "'a aqueue \<Rightarrow> ptr option" where
  "sq_peek a = peek_node (aq_queue a)"

definition sq_remove :: "ptr \<Rightarrow> 'a aqueue \<Rightarrow> 'a aqueue option" where
  "sq_remove node a =
     (case remove_node node (aq_heap a) (aq_queue a) of
        None \<Rightarrow> None
      | Some (h, q) \<Rightarrow>
          Some \<lparr>aq_queue = q, aq_pool = snd (pool_free node (pool_put h (aq_pool a)))\<rparr>)"

definition sq_size :: "'a aqueue \<Rightarrow> size_t" where
  "sq_size a = num_nodes (aq_queue a)"

definition sq_iterator :: "'a aqueue \<Rightarrow> ptr option" where
  "sq_iterator a = head_node (aq_queue a)"

section \<open>Invariants\<close>

definition aq_wf :: "nat \<Rightarrow> 'a aqueue \<Rightarrow> ptr list \<Rightarrow> bool" where
  "aq_wf n a xs \<longleftrightarrow>
     n < 2 ^ 32 \<and> pool_inv n (aq_pool a) \<and> wf_queue (aq_heap a) (aq_queue a) xs \<and>
     set xs = pool_live n (aq_pool a)"

definition aq_inv :: "nat \<Rightarrow> 'a aqueue \<Rightarrow> bool" where
  "aq_inv n a \<longleftrightarrow> (\<exists>xs. aq_wf n a xs)"

text \<open>What is left of it on the sorted queue: the links towards the head.\<close>

definition aq_bwd :: "nat \<Rightarrow> 'a aqueue \<Rightarrow> ptr list \<Rightarrow> bool" where
  "aq_bwd n a xs \<longleftrightarrow>
     n < 2 ^ 32 \<and> pool_inv n (aq_pool a) \<and> bwd_queue (aq_heap a) (aq_queue a) xs \<and>
     set xs = pool_live n (aq_pool a)"

lemma aq_wf_bwd: "aq_wf n a xs \<Longrightarrow> aq_bwd n a xs"
  by (auto simp: aq_wf_def aq_bwd_def wf_bwd)

lemma aq_bwd_length: "aq_bwd n a xs \<Longrightarrow> length xs \<le> n"
proof -
  assume b: "aq_bwd n a xs"
  then have "length xs = card (set xs)"
    by (metis aq_bwd_def bwd_queue_def distinct_card)
  also have "\<dots> \<le> n"
    using b mp.live_card [of n "aq_pool a"] by (simp add: aq_bwd_def)
  finally show ?thesis .
qed

lemma aq_bwd_card: "aq_bwd n a xs \<Longrightarrow> card (pool_live n (aq_pool a)) = length xs"
  by (auto simp: aq_bwd_def bwd_queue_def dest: distinct_card)

lemma aq_bwd_elems: "aq_bwd n a xs \<Longrightarrow> aq_elems a = rev xs"
proof -
  assume b: "aq_bwd n a xs"
  have "unat (m_size (aq_queue a)) = length (rev xs)"
    using b aq_bwd_length [OF b] by (auto simp: aq_bwd_def bwd_queue_def)
  then show ?thesis
    using b by (simp add: aq_elems_def aq_bwd_def bwd_queue_def walk_seg del: length_rev)
qed

lemmas aq_wf_elems = aq_bwd_elems [OF aq_wf_bwd]
lemmas aq_wf_length = aq_bwd_length [OF aq_wf_bwd]
lemmas aq_wf_card = aq_bwd_card [OF aq_wf_bwd]

section \<open>The operations keep the invariant\<close>

lemma aq_heap_put [simp]:
  "aq_heap \<lparr>aq_queue = q, aq_pool = pool_put h p\<rparr> = h"
  by (simp add: aq_heap_def pool_put_laws)

lemma aq_init_wf:
  assumes "n < 2 ^ 32" and "\<And>d. d \<ge> n \<Longrightarrow> d_owner (desc d) \<noteq> this"
  shows "aq_wf n (aq_init this desc nodes n) []"
  using assms pool_init_inv [of n desc this nodes] by (auto simp: aq_wf_def aq_init_def)

lemma aq_push_wf:
  assumes w: "aq_wf n a xs" and room: "length xs < n"
  shows "\<exists>d a'. aq_push x a = (Some d, a') \<and> d \<notin> set xs \<and> aq_wf n a' (d # xs) \<and>
    aq_val a' = (aq_val a)(d := x)"
proof -
  have inv: "pool_inv n (aq_pool a)" and live: "pool_live n (aq_pool a) = set xs"
    using w by (auto simp: aq_wf_def)
  obtain d p where al: "pool_alloc (aq_pool a) = (Some d, p)"
    using mp.alloc_room [OF inv] aq_wf_card [OF w] room by auto
  note s = mp.alloc_Some [OF inv al]
  obtain h q where push: "push_node d (set_data d x (pool_obj p)) (aq_queue a) = (h, q)"
    by fastforce
  have wq: "wf_queue (set_data d x (pool_obj p)) (aq_queue a) xs"
    using w s by (subst wf_queue_frame [of _ _ "aq_heap a"]) (auto simp: heap_simps aq_heap_def aq_wf_def)
  have nd: "d \<notin> set xs"
    using s live by auto
  note wp = wf_push_node [OF wq nd push]
  have "aq_push x a = (Some d, \<lparr>aq_queue = q, aq_pool = pool_put h p\<rparr>)"
    using al push by (simp add: aq_push_def)
  moreover have "aq_wf n \<lparr>aq_queue = q, aq_pool = pool_put h p\<rparr> (d # xs)"
    using w wp s live by (auto simp: aq_wf_def pool_put_laws)
  moreover have "datas h = (datas (aq_heap a))(d := x)"
    using wp s by (simp add: heap_simps aq_heap_def)
  ultimately show ?thesis
    using nd by (auto simp: aq_val_def)
qed

lemma aq_push_full:
  assumes "aq_wf n a xs" and "length xs = n"
  shows "aq_push x a = (None, a)"
  using assms mp.alloc_full [of n "aq_pool a"] aq_wf_card [OF assms(1)]
  by (simp add: aq_push_def aq_wf_def)

text \<open>Giving an unlinked node back to the pool.\<close>

lemma free_unlinked:
  assumes inv: "pool_inv n p" and live: "pool_live n p = set xs" and d: "d \<in> set xs"
    and ys: "set ys = set xs - {d}"
  shows "pool_inv n (snd (pool_free d (pool_put h p)))"
    and "pool_live n (snd (pool_free d (pool_put h p))) = set ys"
    and "pool_obj (snd (pool_free d (pool_put h p))) = h"
proof -
  have "pool_inv n (pool_put h p)" and "d \<in> pool_live n (pool_put h p)"
    using inv live d by (simp_all add: pool_put_laws)
  from mp.free_live [OF this] obtain p' where p': "pool_free d (pool_put h p) = (True, p')"
      "pool_inv n p'" "pool_live n p' = pool_live n p - {d}" "pool_obj p' = h"
    by (metis pool_put_laws(1,2))
  then show "pool_inv n (snd (pool_free d (pool_put h p)))"
      and "pool_live n (snd (pool_free d (pool_put h p))) = set ys"
      and "pool_obj (snd (pool_free d (pool_put h p))) = h"
    by (simp_all add: ys live)
qed

lemma aq_pop_nonempty:
  assumes w: "aq_wf n a (xs @ [x])"
  shows "aq_wf n (aq_pop a) xs" and "aq_val (aq_pop a) = aq_val a"
proof -
  obtain r h q where pop: "pop_node (aq_heap a) (aq_queue a) = (r, h, q)"
    by (metis prod_cases3)
  have wq: "wf_queue (aq_heap a) (aq_queue a) (xs @ [x])"
    using w by (simp add: aq_wf_def)
  note wp = wf_pop_node [OF wq pop]
  have ys: "set xs = set (xs @ [x]) - {x}"
    using wq by (auto simp: wf_queue_def)
  have "pool_inv n (aq_pool a)" "pool_live n (aq_pool a) = set (xs @ [x])"
    using w by (auto simp: aq_wf_def)
  from free_unlinked [OF this _ ys, of h]
  have fr: "pool_inv n (snd (pool_free x (pool_put h (aq_pool a))))"
      "pool_live n (snd (pool_free x (pool_put h (aq_pool a)))) = set xs"
      "pool_obj (snd (pool_free x (pool_put h (aq_pool a)))) = h"
    by simp_all
  have e: "aq_pop a = \<lparr>aq_queue = q, aq_pool = snd (pool_free x (pool_put h (aq_pool a)))\<rparr>"
    using pop wp by (simp add: aq_pop_def)
  show "aq_wf n (aq_pop a) xs" and "aq_val (aq_pop a) = aq_val a"
    using w wp fr unfolding e by (auto simp: aq_wf_def aq_val_def aq_heap_def)
qed

lemma pool_put_self: "pool_put (pool_obj p) p = p"
  by (simp add: pool_put_def pool_obj_def)

lemma aq_pop_empty: "aq_wf n a [] \<Longrightarrow> aq_pop a = a"
  by (simp add: aq_wf_def aq_pop_def pop_node_empty aq_heap_def pool_put_self)

lemma aq_remove_wf:
  assumes w: "aq_wf n a (as @ x # bs)"
  shows "\<exists>a'. aq_remove x a = Some a' \<and> aq_wf n a' (as @ bs) \<and> aq_val a' = aq_val a"
proof -
  have wq: "wf_queue (aq_heap a) (aq_queue a) (as @ x # bs)"
    using w by (simp add: aq_wf_def)
  obtain h q where rm: "remove_node x (aq_heap a) (aq_queue a) = Some (h, q)"
    and wr: "wf_queue h q (as @ bs)" "datas h = datas (aq_heap a)"
    using wf_remove_node [OF wq] by blast
  have ys: "set (as @ bs) = set (as @ x # bs) - {x}"
    using wq by (auto simp: wf_queue_def)
  have "pool_inv n (aq_pool a)" "pool_live n (aq_pool a) = set (as @ x # bs)"
    using w by (auto simp: aq_wf_def)
  from free_unlinked [OF this _ ys, of h]
  have fr: "pool_inv n (snd (pool_free x (pool_put h (aq_pool a))))"
      "pool_live n (snd (pool_free x (pool_put h (aq_pool a)))) = set (as @ bs)"
      "pool_obj (snd (pool_free x (pool_put h (aq_pool a)))) = h"
    by simp_all
  have e: "aq_remove x a = Some \<lparr>aq_queue = q, aq_pool = snd (pool_free x (pool_put h (aq_pool a)))\<rparr>"
    using rm by (simp add: aq_remove_def)
  show ?thesis
    using w wr fr unfolding e by (auto simp: aq_wf_def aq_val_def aq_heap_def)
qed

lemma aq_peek_wf: "aq_wf n a xs \<Longrightarrow> aq_peek a = (if xs = [] then None else Some (last xs))"
  by (auto simp: aq_peek_def aq_wf_def dest: peek_node_wf)

lemma aq_size_wf: "aq_wf n a xs \<Longrightarrow> aq_size a = of_nat (length xs)"
  by (simp add: aq_size_def num_nodes_def aq_wf_def wf_queue_def)

lemma aq_iterator_wf: "aq_wf n a xs \<Longrightarrow> it_visits (aq_heap a) (aq_iterator a) (Suc n) = xs"
  using aq_wf_length [of n a xs] it_visits_wf [of "aq_heap a" "aq_queue a" xs "Suc n"]
  by (simp add: aq_iterator_def head_node_def aq_wf_def del: it_visits.simps)

text \<open>The overload of \<open>push\<close> that only links a node.\<close>

lemma aq_push_uninit_wf:
  assumes w: "aq_wf n a xs" and room: "length xs < n"
  shows "\<exists>d a'. aq_push_uninit a = (Some d, a') \<and> d \<notin> set xs \<and> aq_wf n a' (d # xs) \<and> aq_val a' = aq_val a"
proof -
  have same: "aq_push_uninit a = aq_push (aq_val a (the (fst (pool_alloc (aq_pool a))))) a"
    if "pool_alloc (aq_pool a) = (Some d, p)" "pool_obj p = pool_obj (aq_pool a)" for d p
  proof -
    have "set_data d (aq_val a d) (pool_obj p) = pool_obj p"
      by (simp add: set_data_def aq_val_def datas_def aq_heap_def that)
    then show ?thesis
      by (simp add: aq_push_def aq_push_uninit_def that(1))
  qed
  have inv: "pool_inv n (aq_pool a)"
    using w by (auto simp: aq_wf_def)
  obtain d p where al: "pool_alloc (aq_pool a) = (Some d, p)"
    using mp.alloc_room [OF inv] aq_wf_card [OF w] room by auto
  then have e: "aq_push_uninit a = aq_push (aq_val a d) a"
    using same mp.alloc_Some [OF inv al] by simp
  obtain d' a' where r: "aq_push (aq_val a d) a = (Some d', a')" "d' \<notin> set xs" "aq_wf n a' (d' # xs)"
      "aq_val a' = (aq_val a)(d' := aq_val a d)"
    using aq_push_wf [OF w room] by blast
  moreover have "d' = d"
    using r(1) al by (auto simp: aq_push_def split: prod.splits)
  ultimately show ?thesis
    using e by auto
qed

section \<open>The sorted queue\<close>

text \<open>
  Pushing onto a completely linked sorted queue inserts the element at its place in the pop
  order; all links are complete again when that place is at one of the two ends.
\<close>

lemma sq_push_wf:
  assumes w: "aq_wf n a xs" and room: "length xs < n"
    and P: "P = (\<lambda>d. \<not> srt (aq_val a d) x)"
  shows "\<exists>d a'. sq_push srt x a = Some (Some d, a') \<and> d \<notin> set xs \<and> aq_bwd n a' (insert_by P d xs) \<and>
    (takeWhile P xs = [] \<or> dropWhile P xs = [] \<longrightarrow> aq_wf n a' (insert_by P d xs)) \<and>
    aq_val a' = (aq_val a)(d := x)"
proof -
  have inv: "pool_inv n (aq_pool a)" and live: "pool_live n (aq_pool a) = set xs"
    using w by (auto simp: aq_wf_def)
  obtain d p where al: "pool_alloc (aq_pool a) = (Some d, p)"
    using mp.alloc_room [OF inv] aq_wf_card [OF w] room by auto
  note s = mp.alloc_Some [OF inv al]
  let ?h0 = "set_data d x (pool_obj p)"
  let ?Q = "\<lambda>y. \<not> srt (datas ?h0 y) (datas ?h0 d)"
  have wq: "wf_queue ?h0 (aq_queue a) xs"
    using w s by (subst wf_queue_frame [of _ _ "aq_heap a"]) (auto simp: heap_simps aq_heap_def aq_wf_def)
  have nd: "d \<notin> set xs"
    using s live by auto
  have vals: "datas ?h0 = (aq_val a)(d := x)"
    using s by (simp add: heap_simps aq_val_def aq_heap_def)
  have PQ: "\<forall>y\<in>set xs. ?Q y = P y"
    using nd by (auto simp: P vals)
  have ins: "insert_by ?Q d xs = insert_by P d xs"
    and ends: "takeWhile ?Q xs = takeWhile P xs" "dropWhile ?Q xs = dropWhile P xs"
    using PQ by (simp_all add: insert_by_def cong: takeWhile_cong dropWhile_cong)
  obtain h q where push: "sorted_push_node srt d ?h0 (aq_queue a) = Some (h, q)"
    and res: "bwd_queue h q (insert_by P d xs)"
      "takeWhile P xs = [] \<or> dropWhile P xs = [] \<longrightarrow> wf_queue h q (insert_by P d xs)"
      "datas h = datas ?h0"
    using sorted_push_wf [OF wq nd refl, of srt] unfolding ins ends by blast
  let ?a = "\<lparr>aq_queue = q, aq_pool = pool_put h p\<rparr>"
  have "sq_push srt x a = Some (Some d, ?a)"
    using al push by (simp add: sq_push_def)
  moreover have "pool_inv n (pool_put h p)" "pool_live n (pool_put h p) = set (insert_by P d xs)" "n < 2 ^ 32"
    using s live w by (simp_all add: pool_put_laws aq_wf_def)
  ultimately show ?thesis
    using nd res vals unfolding aq_bwd_def aq_wf_def aq_val_def
    by (intro exI [of _ d] exI [of _ ?a]) simp
qed

lemma sq_push_full: "aq_wf n a xs \<Longrightarrow> length xs = n \<Longrightarrow> sq_push srt x a = Some (None, a)"
  using mp.alloc_full [of n "aq_pool a"] aq_wf_card [of n a xs] by (simp add: sq_push_def aq_wf_def)

text \<open>Popping follows the complete links, so the pop order of \<open>aq_bwd\<close> is what comes out.\<close>

lemma sq_pop_bwd:
  assumes w: "aq_bwd n a (xs @ [x])"
  shows "aq_bwd n (sq_pop a) xs" and "aq_val (sq_pop a) = aq_val a" and "sq_peek a = Some x"
proof -
  obtain r h q where pop: "pop_node (aq_heap a) (aq_queue a) = (r, h, q)"
    by (metis prod_cases3)
  have wq: "bwd_queue (aq_heap a) (aq_queue a) (xs @ [x])"
    using w by (simp add: aq_bwd_def)
  note wp = bwd_pop_node [OF wq pop]
  have ys: "set xs = set (xs @ [x]) - {x}"
    using wq by (auto simp: bwd_queue_def)
  have "pool_inv n (aq_pool a)" "pool_live n (aq_pool a) = set (xs @ [x])"
    using w by (auto simp: aq_bwd_def)
  from free_unlinked [OF this _ ys, of h]
  have fr: "pool_inv n (snd (pool_free x (pool_put h (aq_pool a))))"
      "pool_live n (snd (pool_free x (pool_put h (aq_pool a)))) = set xs"
      "pool_obj (snd (pool_free x (pool_put h (aq_pool a)))) = h"
    by simp_all
  have e: "sq_pop a = \<lparr>aq_queue = q, aq_pool = snd (pool_free x (pool_put h (aq_pool a)))\<rparr>"
    using pop wp by (simp add: sq_pop_def)
  show "aq_bwd n (sq_pop a) xs" and "aq_val (sq_pop a) = aq_val a"
    using w wp fr unfolding e by (auto simp: aq_bwd_def aq_val_def aq_heap_def)
  show "sq_peek a = Some x"
    using wq by (simp add: sq_peek_def peek_node_def bwd_queue_def)
qed

text \<open>The operations the sorted queue shares with the FIFO queue.\<close>

lemma sq_shared: "sq_pop = aq_pop" "sq_peek = aq_peek" "sq_remove = aq_remove" "sq_size = aq_size"
    "sq_iterator = aq_iterator"
  by (simp_all add: fun_eq_iff sq_pop_def aq_pop_def sq_peek_def aq_peek_def sq_remove_def aq_remove_def
      sq_size_def aq_size_def sq_iterator_def aq_iterator_def)

section \<open>The queue interface\<close>

text \<open>
  The contract of src/queue/queue.h over the list of element pointers in pop order: first in,
  first out, removal of any element by its pointer, at most \<open>cap\<close> elements.
\<close>

locale fifo_queue =
  fixes push :: "'a \<Rightarrow> 'q \<Rightarrow> ptr option \<times> 'q"
    and pop :: "'q \<Rightarrow> 'q"
    and peek :: "'q \<Rightarrow> ptr option"
    and remove :: "ptr \<Rightarrow> 'q \<Rightarrow> 'q option"
    and size_of :: "'q \<Rightarrow> size_t"
    and val :: "'q \<Rightarrow> ptr \<Rightarrow> 'a"
    and elems :: "'q \<Rightarrow> ptr list"
    and inv :: "'q \<Rightarrow> bool"
    and cap :: nat
  assumes elems_distinct: "inv q \<Longrightarrow> distinct (elems q)"
    and elems_bound: "inv q \<Longrightarrow> length (elems q) \<le> cap"
    and push_room: "inv q \<Longrightarrow> length (elems q) < cap \<Longrightarrow>
          \<exists>p q'. push x q = (Some p, q') \<and> inv q' \<and> p \<notin> set (elems q) \<and>
            elems q' = elems q @ [p] \<and> val q' = (val q)(p := x)"
    and push_full: "inv q \<Longrightarrow> length (elems q) = cap \<Longrightarrow> push x q = (None, q)"
    and pop_laws: "inv q \<Longrightarrow> inv (pop q) \<and> elems (pop q) = tl (elems q) \<and> val (pop q) = val q"
    and peek_law: "inv q \<Longrightarrow> peek q = (if elems q = [] then None else Some (hd (elems q)))"
    and remove_laws: "inv q \<Longrightarrow> p \<in> set (elems q) \<Longrightarrow>
          \<exists>q'. remove p q = Some q' \<and> inv q' \<and> elems q' = remove1 p (elems q) \<and> val q' = val q"
    and size_law: "inv q \<Longrightarrow> size_of q = of_nat (length (elems q))"
begin

text \<open>The contents of the queue, oldest first.\<close>

definition contents :: "'q \<Rightarrow> 'a list" where
  "contents q = map (val q) (elems q)"

lemma contents_push:
  assumes "inv q" and "length (elems q) < cap"
  shows "\<exists>p q'. push x q = (Some p, q') \<and> inv q' \<and> contents q' = contents q @ [x] \<and> val q' p = x \<and>
    elems q' = elems q @ [p] \<and> p \<notin> set (elems q) \<and> (\<forall>r\<in>set (elems q). val q' r = val q r)"
proof -
  obtain p q' where "push x q = (Some p, q')" "inv q'" "p \<notin> set (elems q)"
      "elems q' = elems q @ [p]" "val q' = (val q)(p := x)"
    using push_room [OF assms] by blast
  moreover from this have "map (val q') (elems q) = map (val q) (elems q)"
    by auto
  ultimately show ?thesis
    by (auto simp: contents_def)
qed

lemma contents_pop: "inv q \<Longrightarrow> contents (pop q) = tl (contents q)"
  using pop_laws [of q] by (simp add: contents_def map_tl)

lemma peek_contents:
  "inv q \<Longrightarrow> peek q = Some p \<Longrightarrow> contents q = val q p # contents (pop q) \<and> elems q = p # elems (pop q)"
  using peek_law [of q] pop_laws [of q] by (cases "elems q") (auto simp: contents_def split: if_splits)

lemma peek_None: "inv q \<Longrightarrow> peek q = None \<longleftrightarrow> elems q = []"
  using peek_law [of q] by auto

text \<open>Popping everything yields the contents: the loop \<open>while(p = peek()) {pop(); use *p}\<close>.\<close>

fun drain :: "nat \<Rightarrow> 'q \<Rightarrow> 'a list \<times> 'q" where
  "drain 0 q = ([], q)"
| "drain (Suc n) q =
     (case peek q of
        None \<Rightarrow> ([], q)
      | Some p \<Rightarrow> (case drain n (pop q) of (xs, q') \<Rightarrow> (val (pop q) p # xs, q')))"

lemma drain_contents:
  "inv q \<Longrightarrow> length (elems q) < n \<Longrightarrow> drain n q = (xs, q') \<Longrightarrow> xs = contents q \<and> inv q' \<and> elems q' = []"
proof (induction n arbitrary: q xs q')
  case 0
  then show ?case by simp
next
  case (Suc n)
  show ?case
  proof (cases "peek q")
    case None
    then show ?thesis
      using Suc.prems peek_None [of q] by (auto simp: contents_def)
  next
    case (Some p)
    obtain ys r where d: "drain n (pop q) = (ys, r)"
      by fastforce
    note pc = peek_contents [OF Suc.prems(1) Some] and pl = pop_laws [OF Suc.prems(1)]
    have "ys = contents (pop q) \<and> inv r \<and> elems r = []"
      by (rule Suc.IH [OF _ _ d]) (use pl Suc.prems pc in auto)
    moreover have "xs = val (pop q) p # ys" and "q' = r"
      using Suc.prems(3) Some d by auto
    ultimately show ?thesis
      using pc pl by (metis (no_types))
  qed
qed

text \<open>Pushing a list of elements, as long as there is room.\<close>

fun push_list :: "'a list \<Rightarrow> 'q \<Rightarrow> 'q" where
  "push_list [] q = q"
| "push_list (x # xs) q = push_list xs (snd (push x q))"

lemma push_list_contents:
  "inv q \<Longrightarrow> length (elems q) + length xs \<le> cap \<Longrightarrow>
   inv (push_list xs q) \<and> contents (push_list xs q) = contents q @ xs \<and>
   length (elems (push_list xs q)) = length (elems q) + length xs"
proof (induction xs arbitrary: q)
  case Nil
  then show ?case by simp
next
  case (Cons x xs)
  then obtain p q' where "push x q = (Some p, q')" "inv q'" "contents q' = contents q @ [x]"
      "elems q' = elems q @ [p]"
    using contents_push [of q x] by auto
  then show ?case
    using Cons.IH [of q'] Cons.prems by auto
qed

end

text \<open>\<open>alloc::Queue\<close> keeps the contract.\<close>

lemma aq_invE:
  assumes "aq_inv n a"
  obtains xs where "aq_wf n a xs" and "aq_elems a = rev xs" and "distinct xs" and "length xs \<le> n"
proof -
  obtain xs where w: "aq_wf n a xs"
    using assms by (auto simp: aq_inv_def)
  moreover have "distinct xs"
    using w by (auto simp: aq_wf_def wf_queue_def)
  ultimately show thesis
    using that aq_wf_elems [OF w] aq_wf_length [OF w] by blast
qed

lemma aq_law_push:
  assumes "aq_inv n a" and "length (aq_elems a) < n"
  shows "\<exists>p a'. aq_push x a = (Some p, a') \<and> aq_inv n a' \<and> p \<notin> set (aq_elems a) \<and>
    aq_elems a' = aq_elems a @ [p] \<and> aq_val a' = (aq_val a)(p := x)"
proof -
  obtain xs where xs: "aq_wf n a xs" "aq_elems a = rev xs"
    using assms(1) by (rule aq_invE)
  obtain d a' where "aq_push x a = (Some d, a')" "d \<notin> set xs" "aq_wf n a' (d # xs)"
      "aq_val a' = (aq_val a)(d := x)"
    using aq_push_wf [OF xs(1), of x] assms(2) xs(2) by auto
  then show ?thesis
    using xs(2) aq_wf_elems [of n a' "d # xs"] by (auto simp: aq_inv_def)
qed

lemma aq_law_full: "aq_inv n a \<Longrightarrow> length (aq_elems a) = n \<Longrightarrow> aq_push x a = (None, a)"
  by (erule aq_invE) (simp add: aq_push_full)

lemma aq_law_pop:
  assumes "aq_inv n a"
  shows "aq_inv n (aq_pop a) \<and> aq_elems (aq_pop a) = tl (aq_elems a) \<and> aq_val (aq_pop a) = aq_val a"
proof -
  obtain xs where xs: "aq_wf n a xs" "aq_elems a = rev xs"
    using assms by (rule aq_invE)
  show ?thesis
  proof (cases xs rule: rev_cases)
    case Nil
    then show ?thesis
      using assms xs aq_pop_empty [of n a] by auto
  next
    case (snoc ys y)
    then show ?thesis
      using xs aq_pop_nonempty [of n a ys y] aq_wf_elems [of n "aq_pop a" ys] by (auto simp: aq_inv_def)
  qed
qed

lemma aq_law_peek:
  assumes "aq_inv n a"
  shows "aq_peek a = (if aq_elems a = [] then None else Some (hd (aq_elems a)))"
proof -
  obtain xs where "aq_wf n a xs" "aq_elems a = rev xs"
    using assms by (rule aq_invE)
  then show ?thesis
    using aq_peek_wf [of n a xs] by (simp add: hd_rev)
qed

lemma aq_law_remove:
  assumes "aq_inv n a" and "p \<in> set (aq_elems a)"
  shows "\<exists>a'. aq_remove p a = Some a' \<and> aq_inv n a' \<and> aq_elems a' = remove1 p (aq_elems a) \<and>
    aq_val a' = aq_val a"
proof -
  obtain xs where xs: "aq_wf n a xs" "aq_elems a = rev xs" "distinct xs"
    using assms(1) by (rule aq_invE)
  obtain as bs where sp: "xs = as @ p # bs"
    using assms(2) xs(2) by (metis in_set_conv_decomp set_rev)
  have "aq_wf n a (as @ p # bs)"
    using xs(1) sp by simp
  then obtain a' where r: "aq_remove p a = Some a'" "aq_wf n a' (as @ bs)" "aq_val a' = aq_val a"
    using aq_remove_wf by blast
  have "remove1 p (rev xs) = rev (as @ bs)"
    using xs(3) sp by (simp add: remove1_append)
  then show ?thesis
    using r xs(2) aq_wf_elems [OF r(2)] by (auto simp: aq_inv_def)
qed

lemma aq_law_size: "aq_inv n a \<Longrightarrow> aq_size a = of_nat (length (aq_elems a))"
  by (erule aq_invE) (simp add: aq_size_wf)

lemma aq_law_distinct: "aq_inv n a \<Longrightarrow> distinct (aq_elems a)"
  by (erule aq_invE) simp

lemma aq_law_bound: "aq_inv n a \<Longrightarrow> length (aq_elems a) \<le> n"
  by (erule aq_invE) simp

interpretation aq: fifo_queue aq_push aq_pop aq_peek aq_remove aq_size aq_val aq_elems "aq_inv n" n
  for n
  by (unfold_locales;
      (erule (1) aq_law_push | erule (1) aq_law_full | erule aq_law_pop | erule aq_law_peek |
       erule (1) aq_law_remove | erule aq_law_size | erule aq_law_distinct | erule aq_law_bound))

lemma aq_init_inv:
  assumes "n < 2 ^ 32" and "\<And>d. d \<ge> n \<Longrightarrow> d_owner (desc d) \<noteq> this"
  shows "aq_inv n (aq_init this desc nodes n)" and "aq_elems (aq_init this desc nodes n) = []"
proof -
  have w: "aq_wf n (aq_init this desc nodes n) []"
    by (rule aq_init_wf) (use assms in auto)
  show "aq_inv n (aq_init this desc nodes n)" and "aq_elems (aq_init this desc nodes n) = []"
    using w aq_wf_elems [OF w] by (auto simp: aq_inv_def)
qed

text \<open>
  The sorted queue under the same contract, for pushes that land at one of the ends: an element
  that leaves before all others, or after all others.
\<close>

lemma sq_law_push:
  assumes inv: "aq_inv n a" and room: "length (aq_elems a) < n"
    and ends: "(\<forall>p\<in>set (aq_elems a). \<not> srt (aq_val a p) x) \<or> (\<forall>p\<in>set (aq_elems a). srt (aq_val a p) x)"
  shows "\<exists>p a'. sq_push srt x a = Some (Some p, a') \<and> aq_inv n a' \<and> p \<notin> set (aq_elems a) \<and>
    aq_val a' = (aq_val a)(p := x) \<and>
    aq_elems a' = (if \<forall>r\<in>set (aq_elems a). \<not> srt (aq_val a r) x
                   then p # aq_elems a else aq_elems a @ [p])"
proof -
  obtain xs where xs: "aq_wf n a xs" "aq_elems a = rev xs"
    using inv by (rule aq_invE)
  let ?P = "\<lambda>d. \<not> srt (aq_val a d) x"
  have len: "length xs < n"
    using room xs(2) by simp
  obtain d a' where r: "sq_push srt x a = Some (Some d, a')" "d \<notin> set xs"
      "takeWhile ?P xs = [] \<or> dropWhile ?P xs = [] \<longrightarrow> aq_wf n a' (insert_by ?P d xs)"
      "aq_val a' = (aq_val a)(d := x)"
    using sq_push_wf [OF xs(1) len refl, of srt x] by blast
  show ?thesis
  proof (cases "\<forall>p\<in>set (aq_elems a). ?P p")
    case True
    then have tw: "takeWhile ?P xs = xs" and dw: "dropWhile ?P xs = []"
      using xs(2) by auto
    have "aq_wf n a' (xs @ [d])"
      using r(3) unfolding insert_by_def tw dw by blast
    then show ?thesis
      using r xs(2) True aq_wf_elems [of n a' "xs @ [d]"] by (auto simp: aq_inv_def)
  next
    case False
    then have all: "\<forall>p\<in>set xs. \<not> ?P p" and ne: "xs \<noteq> []"
      using ends xs(2) by auto
    then have tw: "takeWhile ?P xs = []" and dw: "dropWhile ?P xs = xs"
      by (cases xs; simp)+
    have "aq_wf n a' (d # xs)"
      using r(3) unfolding insert_by_def tw dw by simp
    then show ?thesis
      using r xs(2) False aq_wf_elems [of n a' "d # xs"] by (auto simp: aq_inv_def)
  qed
qed

section \<open>Queue properties\<close>

text \<open>Pushing a list, and the loop \<open>while((p = q.peek())) {q.pop(); use *p;}\<close>.\<close>

fun aq_push_all :: "'a list \<Rightarrow> 'a aqueue \<Rightarrow> 'a aqueue" where
  "aq_push_all [] a = a"
| "aq_push_all (x # xs) a = aq_push_all xs (snd (aq_push x a))"

fun aq_drain :: "nat \<Rightarrow> 'a aqueue \<Rightarrow> 'a list \<times> 'a aqueue" where
  "aq_drain 0 a = ([], a)"
| "aq_drain (Suc n) a =
     (case aq_peek a of
        None \<Rightarrow> ([], a)
      | Some p \<Rightarrow> (case aq_drain n (aq_pop a) of (xs, a') \<Rightarrow> (aq_val (aq_pop a) p # xs, a')))"

lemma aq_push_all_eq: "aq_push_all xs a = aq.push_list xs a"
  by (induction xs arbitrary: a) auto

lemma aq_drain_eq: "aq_drain n a = aq.drain n a"
  by (induction n arbitrary: a) (auto split: option.split prod.split)

definition boot_aqueue :: "'a \<Rightarrow> nat \<Rightarrow> 'a aqueue" where
  "boot_aqueue x n =
     aq_init 1 (\<lambda>d. \<lparr>d_owner = 0, d_allocated = False,
                     d_obj = \<lparr>nd_prev = None, nd_next = None, nd_data = x\<rparr>\<rparr>)
       (\<lambda>a. \<lparr>nd_prev = None, nd_next = None, nd_data = 0\<rparr>) n"

lemma boot_aqueue_inv: "n < 2 ^ 32 \<Longrightarrow> aq_inv n (boot_aqueue x n)"
  and boot_aqueue_elems: "n < 2 ^ 32 \<Longrightarrow> aq_elems (boot_aqueue x n) = []"
  unfolding boot_aqueue_def by (rule aq_init_inv; simp)+

text \<open>C6: First in, first out: elements pushed while there is room come out of a queue in the
  order they went in, after what the queue held before; the queue is empty afterwards and its
  size is zero.\<close>

theorem queue_fifo:
  assumes "aq_inv n a" and "length (aq_elems a) + length xs \<le> n"
  shows "fst (aq_drain (Suc n) (aq_push_all xs a)) = map (aq_val a) (aq_elems a) @ xs \<and>
    aq_elems (snd (aq_drain (Suc n) (aq_push_all xs a))) = [] \<and>
    aq_size (snd (aq_drain (Suc n) (aq_push_all xs a))) = 0"
proof -
  obtain ys a' where d: "aq.drain (Suc n) (aq.push_list xs a) = (ys, a')"
    by fastforce
  note p = aq.push_list_contents [OF assms]
  have "length (aq_elems (aq.push_list xs a)) < Suc n"
    using p assms(2) by simp
  from aq.drain_contents [OF _ this d] p have "ys = map (aq_val a) (aq_elems a) @ xs \<and> aq_inv n a' \<and> aq_elems a' = []"
    by (auto simp: aq.contents_def)
  then show ?thesis
    using d aq.size_law [of n a'] unfolding aq_push_all_eq aq_drain_eq d by auto
qed

theorem queue_fifo_witness:
  "fst (aq_drain (Suc 3) (aq_push_all [7, 8, 9] (boot_aqueue (0 :: nat) 3))) = [7, 8, 9]"
  using queue_fifo [of 3 "boot_aqueue (0 :: nat) 3" "[7, 8, 9]"] boot_aqueue_inv [of 3 "0 :: nat"]
    boot_aqueue_elems [of 3 "0 :: nat"]
  by (simp del: aq_push_all.simps aq_drain.simps)

text \<open>A push into a sorted queue whose links are intact returns, and in the order in which
  elements will be popped the new element stands behind exactly those old elements that the
  comparison puts before it; a full queue refuses the element.\<close>

theorem sorted_queue_push:
  assumes "aq_wf n a xs"
  shows "if length xs = n then sq_push srt x a = Some (None, a)
    else \<exists>d a'. sq_push srt x a = Some (Some d, a') \<and> d \<notin> set xs \<and> aq_val a' d = x \<and>
      aq_elems a' = rev (dropWhile (\<lambda>e. \<not> srt (aq_val a e) x) xs) @ [d] @
        rev (takeWhile (\<lambda>e. \<not> srt (aq_val a e) x) xs)"
proof (cases "length xs = n")
  case True
  then show ?thesis
    using sq_push_full [OF assms] by simp
next
  case False
  then have room: "length xs < n"
    using aq_wf_length [OF assms] by simp
  from sq_push_wf [where srt = srt and x = x, OF assms room refl] obtain d a' where r:
    "sq_push srt x a = Some (Some d, a')" "d \<notin> set xs"
    "aq_bwd n a' (insert_by (\<lambda>d. \<not> srt (aq_val a d) x) d xs)" "aq_val a' = (aq_val a)(d := x)"
    by blast
  have "aq_elems a' = rev (insert_by (\<lambda>d. \<not> srt (aq_val a d) x) d xs)"
    by (rule aq_bwd_elems [OF r(3)])
  then show ?thesis
    using r False by (auto simp: insert_by_def)
qed

theorem sorted_queue_push_witness:
  "\<exists>d a'. sq_push (\<lambda>f s. f < s) (5 :: nat) (boot_aqueue 0 3) = Some (Some d, a') \<and> aq_val a' d = 5 \<and>
    aq_elems a' = [d]"
proof -
  have "aq_wf 3 (boot_aqueue (0 :: nat) 3) []"
    unfolding boot_aqueue_def by (rule aq_init_wf) auto
  from sorted_queue_push [OF this, of "\<lambda>f s. f < s" 5] show ?thesis
    by auto
qed

end
