(* ===== verification/SchedModel.thy ===== *)
theory SchedModel
  imports AllocQueueModel
begin

text \<open>
  The cooperative scheduler of src/sched/sched.h and sched.cpp.  A task pointer is the index of
  the task in the static array \<open>tasks\<close>; the two queues are the models of \<open>alloc::Queue\<close> and
  \<open>alloc::SortedQueue\<close>, and \<open>ready_loc\<close> and \<open>sleep_loc\<close> point into them.  The system time
  function is external code: it reads and may change a world \<open>'w\<close>.  The code of a task is the
  parameter \<open>run\<close> of the dispatcher, which sees and may change the whole scheduler state.
\<close>

section \<open>State\<close>

datatype task_state = STATE_UNALLOCATED | STATE_ACTIVE | STATE_SLEEPING | STATE_BLOCKED

record ('f, 'b) task =
  t_state :: task_state
  t_func :: 'f
  t_arg :: 'b
  t_tid :: int
  t_wake_time :: u32
  t_ready_loc :: "ptr option"
  t_sleep_loc :: "ptr option"

record ('f, 'b, 'w) sched =
  sched_dispatched :: int
  tasks :: "nat \<Rightarrow> ('f, 'b) task"
  ready_q :: "nat aqueue"
  sleep_q :: "nat aqueue"
  get_time :: "'w \<Rightarrow> u32 \<times> 'w"
  world :: 'w

definition MAX_NUM_TASKS :: nat where
  "MAX_NUM_TASKS = 64"

definition upd_task :: "nat \<Rightarrow> (('f, 'b) task \<Rightarrow> ('f, 'b) task) \<Rightarrow> ('f, 'b, 'w) sched \<Rightarrow> ('f, 'b, 'w) sched" where
  "upd_task t f s = s\<lparr>tasks := (tasks s)(t := f (tasks s t))\<rparr>"

text \<open>Calling the time function.\<close>

definition read_time :: "('f, 'b, 'w) sched \<Rightarrow> u32 \<times> ('f, 'b, 'w) sched" where
  "read_time s = (case get_time s (world s) of (v, w) \<Rightarrow> (v, s\<lparr>world := w\<rparr>))"

definition dummy_time :: "'w \<Rightarrow> u32 \<times> 'w" where
  "dummy_time w = (0, w)"

section \<open>Operations\<close>

definition sleep_sort :: "(nat \<Rightarrow> ('f, 'b) task) \<Rightarrow> nat \<Rightarrow> nat \<Rightarrow> bool" where
  "sleep_sort ts f s = (t_wake_time (ts s) > t_wake_time (ts f))"

definition sched_init ::
  "('w \<Rightarrow> u32 \<times> 'w) option \<Rightarrow> ('f, 'b, 'w) sched \<Rightarrow> bool \<times> ('f, 'b, 'w) sched" where
  "sched_init func s = (case func of None \<Rightarrow> (False, s) | Some g \<Rightarrow> (True, s\<lparr>get_time := g\<rparr>))"

definition sched_time :: "('f, 'b, 'w) sched \<Rightarrow> u32 \<times> ('f, 'b, 'w) sched" where
  "sched_time s = read_time s"

definition push_ready :: "nat \<Rightarrow> ('f, 'b, 'w) sched \<Rightarrow> ('f, 'b, 'w) sched" where
  "push_ready t s =
     (case aq_push t (ready_q s) of
        (loc, q) \<Rightarrow> upd_task t (\<lambda>x. x\<lparr>t_ready_loc := loc\<rparr>) (s\<lparr>ready_q := q\<rparr>))"

definition sched_start :: "'f \<Rightarrow> 'b \<Rightarrow> ('f, 'b, 'w) sched \<Rightarrow> int \<times> ('f, 'b, 'w) sched" where
  "sched_start func arg s =
     (case find (\<lambda>i. t_state (tasks s i) = STATE_UNALLOCATED) [0..<MAX_NUM_TASKS] of
        None \<Rightarrow> (-1, s)
      | Some i \<Rightarrow>
          (let s1 = upd_task i (\<lambda>x. x\<lparr>t_state := STATE_ACTIVE, t_func := func, t_arg := arg,
                                     t_tid := int i, t_sleep_loc := None\<rparr>) s
           in (int i, push_ready i s1)))"

text \<open>The loop of \<open>_sched_wakeup_tasks\<close>; \<open>None\<close>: it does not return.\<close>

partial_function (option) sched_wakeup_tasks ::
  "('f, 'b, 'w) sched \<Rightarrow> ('f, 'b, 'w) sched option" where
  "sched_wakeup_tasks s =
     (case sq_peek (sleep_q s) of
        None \<Rightarrow> Some s
      | Some task_p \<Rightarrow>
          (let t = aq_val (sleep_q s) task_p;
               v = fst (read_time s);
               s1 = snd (read_time s)
           in if v \<ge> t_wake_time (tasks s1 t)
              then sched_wakeup_tasks
                     (push_ready t
                       (upd_task t (\<lambda>x. x\<lparr>t_state := STATE_ACTIVE, t_sleep_loc := None\<rparr>)
                         (s1\<lparr>sleep_q := sq_pop (sleep_q s1)\<rparr>)))
              else Some s1))"

definition sched_dispatch ::
  "('f \<Rightarrow> 'b \<Rightarrow> ('f, 'b, 'w) sched \<Rightarrow> (ret_type \<times> ('f, 'b, 'w) sched) option) \<Rightarrow>
   ('f, 'b, 'w) sched \<Rightarrow> ('f, 'b, 'w) sched option" where
  "sched_dispatch run s =
     (case sched_wakeup_tasks s of
        None \<Rightarrow> None
      | Some s1 \<Rightarrow>
          (case aq_peek (ready_q s1) of
             None \<Rightarrow> Some (s1\<lparr>sched_dispatched := int MAX_NUM_TASKS\<rparr>)
           | Some task_p \<Rightarrow>
               (let s2 = s1\<lparr>ready_q := aq_pop (ready_q s1)\<rparr>;
                    t = aq_val (ready_q s2) task_p;
                    s3 = upd_task t (\<lambda>x. x\<lparr>t_ready_loc := None\<rparr>) s2;
                    s4 = s3\<lparr>sched_dispatched := t_tid (tasks s3 t)\<rparr>
                in (case run (t_func (tasks s4 t)) (t_arg (tasks s4 t)) s4 of
                      None \<Rightarrow> None
                    | Some (ret, s5) \<Rightarrow>
                        (let s6 = (if ret = RET_ERROR
                                   then upd_task t (\<lambda>x. x\<lparr>t_state := STATE_UNALLOCATED\<rparr>) s5
                                   else if t_state (tasks s5 t) = STATE_ACTIVE
                                   then push_ready t s5 else s5)
                         in Some (s6\<lparr>sched_dispatched := int MAX_NUM_TASKS\<rparr>))))))"

text \<open>The task identifiers are not checked by the code; \<open>t\<close> is an index below \<open>MAX_NUM_TASKS\<close>.\<close>

definition sched_sleep :: "nat \<Rightarrow> u32 \<Rightarrow> ('f, 'b, 'w) sched \<Rightarrow> ('f, 'b, 'w) sched option" where
  "sched_sleep t time s =
     (case (case t_sleep_loc (tasks s t) of
              Some loc \<Rightarrow> map_option (\<lambda>q. s\<lparr>sleep_q := q\<rparr>) (sq_remove loc (sleep_q s))
            | None \<Rightarrow>
                (case t_ready_loc (tasks s t) of
                   Some loc \<Rightarrow>
                     map_option (\<lambda>q. upd_task t (\<lambda>x. x\<lparr>t_ready_loc := None\<rparr>) (s\<lparr>ready_q := q\<rparr>))
                       (aq_remove loc (ready_q s))
                 | None \<Rightarrow> Some s)) of
        None \<Rightarrow> None
      | Some s1 \<Rightarrow>
          (let (v, s2) = read_time (upd_task t (\<lambda>x. x\<lparr>t_state := STATE_SLEEPING\<rparr>) s1);
               s3 = upd_task t (\<lambda>x. x\<lparr>t_wake_time := v + time\<rparr>) s2
           in (case sq_push (sleep_sort (tasks s3)) t (sleep_q s3) of
                 None \<Rightarrow> None
               | Some (loc, q) \<Rightarrow>
                   Some (upd_task t (\<lambda>x. x\<lparr>t_sleep_loc := loc\<rparr>) (s3\<lparr>sleep_q := q\<rparr>)))))"

definition sched_wake :: "nat \<Rightarrow> ('f, 'b, 'w) sched \<Rightarrow> ('f, 'b, 'w) sched option" where
  "sched_wake t s =
     (if t_state (tasks s t) \<noteq> STATE_BLOCKED \<and> t_state (tasks s t) \<noteq> STATE_SLEEPING then Some s
      else if t_ready_loc (tasks s t) \<noteq> None then Some s
      else
        (case (case t_sleep_loc (tasks s t) of
                 Some loc \<Rightarrow>
                   map_option (\<lambda>q. upd_task t (\<lambda>x. x\<lparr>t_sleep_loc := None\<rparr>) (s\<lparr>sleep_q := q\<rparr>))
                     (sq_remove loc (sleep_q s))
               | None \<Rightarrow> Some s) of
           None \<Rightarrow> None
         | Some s1 \<Rightarrow>
             Some (upd_task t (\<lambda>x. x\<lparr>t_state := STATE_ACTIVE\<rparr>) (push_ready t s1))))"

definition sched_block :: "nat \<Rightarrow> ('f, 'b, 'w) sched \<Rightarrow> ('f, 'b, 'w) sched option" where
  "sched_block t s =
     map_option (upd_task t (\<lambda>x. x\<lparr>t_state := STATE_BLOCKED\<rparr>))
       (case t_ready_loc (tasks s t) of
          Some loc \<Rightarrow>
            map_option (\<lambda>q. upd_task t (\<lambda>x. x\<lparr>t_ready_loc := None\<rparr>) (s\<lparr>ready_q := q\<rparr>))
              (aq_remove loc (ready_q s))
        | None \<Rightarrow>
            (case t_sleep_loc (tasks s t) of
               Some loc \<Rightarrow>
                 map_option (\<lambda>q. upd_task t (\<lambda>x. x\<lparr>t_sleep_loc := None\<rparr>) (s\<lparr>sleep_q := q\<rparr>))
                   (sq_remove loc (sleep_q s))
             | None \<Rightarrow> Some s))"

section \<open>Back pointers from tasks to queue elements\<close>

text \<open>
  \<open>locs_ok n es v loc\<close>: the elements \<open>es\<close> of a queue hold task indexes below \<open>n\<close>, and \<open>loc\<close> is
  the inverse: the location of a task is the element that holds it.
\<close>

definition locs_ok :: "nat \<Rightarrow> ptr list \<Rightarrow> (ptr \<Rightarrow> nat) \<Rightarrow> (nat \<Rightarrow> ptr option) \<Rightarrow> bool" where
  "locs_ok n es v loc \<longleftrightarrow>
     (\<forall>p\<in>set es. v p < n \<and> loc (v p) = Some p) \<and>
     (\<forall>t<n. \<forall>p. loc t = Some p \<longrightarrow> p \<in> set es \<and> v p = t)"

lemma locs_okI:
  assumes "\<And>p. p \<in> set es \<Longrightarrow> v p < n" and "\<And>p. p \<in> set es \<Longrightarrow> loc (v p) = Some p"
    and "\<And>t p. t < n \<Longrightarrow> loc t = Some p \<Longrightarrow> p \<in> set es"
    and "\<And>t p. t < n \<Longrightarrow> loc t = Some p \<Longrightarrow> v p = t"
  shows "locs_ok n es v loc"
  unfolding locs_ok_def using assms by blast

lemma locs_okD:
  assumes "locs_ok n es v loc"
  shows "p \<in> set es \<Longrightarrow> v p < n" and "p \<in> set es \<Longrightarrow> loc (v p) = Some p"
    and "t < n \<Longrightarrow> loc t = Some p \<Longrightarrow> p \<in> set es" and "t < n \<Longrightarrow> loc t = Some p \<Longrightarrow> v p = t"
  using assms unfolding locs_ok_def by blast+

lemma locs_ok_insert:
  assumes l: "locs_ok n es v loc" and p: "p \<notin> set es" and t: "t < n" "loc t = None"
    and es': "set es' = insert p (set es)"
  shows "locs_ok n es' (v(p := t)) (loc(t := Some p))"
proof (rule locs_okI)
  fix r
  assume r: "r \<in> set es'"
  show "(v(p := t)) r < n"
    using r es' t locs_okD(1) [OF l] by auto
  show "(loc(t := Some p)) ((v(p := t)) r) = Some r"
  proof (cases "r = p")
    case True
    then show ?thesis by simp
  next
    case False
    then have "loc (v r) = Some r"
      using r es' locs_okD(2) [OF l] by auto
    moreover have "v r \<noteq> t"
      using \<open>loc (v r) = Some r\<close> t by auto
    ultimately show ?thesis
      using False by simp
  qed
next
  fix u r
  assume u: "u < n" "(loc(t := Some p)) u = Some r"
  show "r \<in> set es'"
    using u es' locs_okD(3) [OF l] by (auto split: if_splits)
  show "(v(p := t)) r = u"
    using u p locs_okD(3,4) [OF l, of u r] by (auto split: if_splits)
qed

lemma locs_ok_remove:
  assumes l: "locs_ok n es v loc" and t: "loc t = Some p" "t < n" and es': "set es' = set es - {p}"
  shows "locs_ok n es' v (loc(t := None))"
proof (rule locs_okI)
  fix r
  assume r: "r \<in> set es'"
  then have r': "r \<in> set es" "r \<noteq> p"
    using es' by auto
  show "v r < n"
    using r' locs_okD(1) [OF l] by simp
  have "v r \<noteq> t"
    using r' locs_okD(2) [OF l, of r] t by auto
  then show "(loc(t := None)) (v r) = Some r"
    using r' locs_okD(2) [OF l, of r] by simp
next
  fix u r
  assume u: "u < n" "(loc(t := None)) u = Some r"
  then have u': "loc u = Some r" "u \<noteq> t"
    by (auto split: if_splits)
  have "r \<noteq> p"
    using u' locs_okD(4) [OF l u(1), of r] locs_okD(4) [OF l t(2,1)] by auto
  then show "r \<in> set es'"
    using u' es' locs_okD(3) [OF l u(1)] by auto
  show "v r = u"
    using u' locs_okD(4) [OF l u(1)] by simp
qed

lemma locs_ok_room:
  assumes l: "locs_ok n es v loc" and d: "distinct es" and t: "t < n" "loc t = None"
  shows "length es < n"
proof -
  have inj: "inj_on v (set es)"
    by (rule inj_on_inverseI [where g = "\<lambda>x. the (loc x)"]) (simp add: locs_okD(2) [OF l])
  have "v ` set es \<subseteq> {..<n} - {t}"
  proof
    fix x
    assume "x \<in> v ` set es"
    then obtain p where "p \<in> set es" "x = v p" by auto
    then show "x \<in> {..<n} - {t}"
      using locs_okD(1,2) [OF l, of p] t by auto
  qed
  then have "card (v ` set es) \<le> card ({..<n} - {t})"
    by (intro card_mono) auto
  then show ?thesis
    using card_image [OF inj] distinct_card [OF d] t by simp
qed

text \<open>A queue of task indexes with back pointers, for any implementation of the queue contract.\<close>

locale task_queue = fifo_queue push pop peek remove size_of val elems inv cap
  for push :: "nat \<Rightarrow> 'q \<Rightarrow> ptr option \<times> 'q"
    and pop :: "'q \<Rightarrow> 'q"
    and peek :: "'q \<Rightarrow> ptr option"
    and remove :: "ptr \<Rightarrow> 'q \<Rightarrow> 'q option"
    and size_of :: "'q \<Rightarrow> size_t"
    and val :: "'q \<Rightarrow> ptr \<Rightarrow> nat"
    and elems :: "'q \<Rightarrow> ptr list"
    and inv :: "'q \<Rightarrow> bool"
    and cap :: nat
begin

lemma indexed_push:
  assumes "inv q" and "locs_ok cap (elems q) (val q) loc" and "t < cap" and "loc t = None"
  shows "\<exists>p q'. push t q = (Some p, q') \<and> inv q' \<and> elems q' = elems q @ [p] \<and> p \<notin> set (elems q) \<and>
    val q' = (val q)(p := t) \<and> locs_ok cap (elems q') (val q') (loc(t := Some p))"
proof -
  have "length (elems q) < cap"
    using locs_ok_room assms elems_distinct by blast
  then obtain p q' where q': "push t q = (Some p, q')" "inv q'" "p \<notin> set (elems q)"
      "elems q' = elems q @ [p]" "val q' = (val q)(p := t)"
    using push_room [OF assms(1)] by blast
  moreover have "locs_ok cap (elems q') (val q') (loc(t := Some p))"
    unfolding q'(5) by (rule locs_ok_insert) (use assms q' in auto)
  ultimately show ?thesis
    by blast
qed

lemma indexed_remove:
  assumes "inv q" and "locs_ok cap (elems q) (val q) loc" and "t < cap" and "loc t = Some p"
  shows "\<exists>q'. remove p q = Some q' \<and> inv q' \<and> elems q' = remove1 p (elems q) \<and> val q' = val q \<and>
    locs_ok cap (elems q') (val q') (loc(t := None))"
proof -
  have "p \<in> set (elems q)"
    using locs_okD(3) [OF assms(2,3,4)] .
  then obtain q' where q': "remove p q = Some q'" "inv q'" "elems q' = remove1 p (elems q)" "val q' = val q"
    using remove_laws [OF assms(1)] by blast
  moreover have "locs_ok cap (elems q') (val q') (loc(t := None))"
    unfolding q'(4)
    by (rule locs_ok_remove) (use assms q' elems_distinct [OF assms(1)] in auto)
  ultimately show ?thesis
    by blast
qed

lemma indexed_pop:
  assumes "inv q" and "locs_ok cap (elems q) (val q) loc" and "peek q = Some p"
  shows "inv (pop q) \<and> elems q = p # elems (pop q) \<and> val (pop q) = val q \<and> val q p < cap \<and>
    loc (val q p) = Some p \<and> locs_ok cap (elems (pop q)) (val (pop q)) (loc(val q p := None))"
proof -
  have e: "elems q = p # elems (pop q)"
    using peek_contents [OF assms(1,3)] by simp
  have pin: "p \<in> set (elems q)" and pout: "p \<notin> set (elems (pop q))"
      and sub: "set (elems (pop q)) = set (elems q) - {p}"
    using arg_cong [OF e, of set] elems_distinct [OF assms(1)] arg_cong [OF e, of distinct] by auto
  have p: "val q p < cap" "loc (val q p) = Some p"
    using locs_okD(1,2) [OF assms(2) pin] .
  have "locs_ok cap (elems (pop q)) (val q) (loc(val q p := None))"
    by (rule locs_ok_remove [OF assms(2) p(2,1) sub])
  with pop_laws [OF assms(1)] e p show ?thesis
    by metis
qed

end

interpretation tq: task_queue aq_push aq_pop aq_peek aq_remove aq_size aq_val aq_elems "aq_inv n" n
  for n
  by unfold_locales

section \<open>The scheduler invariant\<close>

text \<open>
  Every queue is well formed and agrees with the location fields of the tasks, a task on the
  ready queue is active and not on the sleep queue, exactly the sleeping tasks are on the sleep
  queue, in the order of their wake times, and allocated tasks carry their own index.
\<close>

definition ready_locs :: "('f, 'b, 'w) sched \<Rightarrow> nat \<Rightarrow> ptr option" where
  "ready_locs s = (\<lambda>t. t_ready_loc (tasks s t))"

definition sleep_locs :: "('f, 'b, 'w) sched \<Rightarrow> nat \<Rightarrow> ptr option" where
  "sleep_locs s = (\<lambda>t. t_sleep_loc (tasks s t))"

definition sleep_times :: "('f, 'b, 'w) sched \<Rightarrow> u32 list" where
  "sleep_times s = map (\<lambda>p. t_wake_time (tasks s (aq_val (sleep_q s) p))) (aq_elems (sleep_q s))"

definition task_ok :: "nat \<Rightarrow> ('f, 'b) task \<Rightarrow> bool" where
  "task_ok t x \<longleftrightarrow>
     (t_ready_loc x \<noteq> None \<longrightarrow> t_state x = STATE_ACTIVE) \<and>
     (t_sleep_loc x \<noteq> None \<longleftrightarrow> t_state x = STATE_SLEEPING) \<and>
     (t_state x \<noteq> STATE_UNALLOCATED \<longrightarrow> t_tid x = int t)"

definition sched_ok :: "('f, 'b, 'w) sched \<Rightarrow> bool" where
  "sched_ok s \<longleftrightarrow>
     aq_inv MAX_NUM_TASKS (ready_q s) \<and> aq_inv MAX_NUM_TASKS (sleep_q s) \<and>
     locs_ok MAX_NUM_TASKS (aq_elems (ready_q s)) (aq_val (ready_q s)) (ready_locs s) \<and>
     locs_ok MAX_NUM_TASKS (aq_elems (sleep_q s)) (aq_val (sleep_q s)) (sleep_locs s) \<and>
     (\<forall>t<MAX_NUM_TASKS. task_ok t (tasks s t)) \<and> sorted (sleep_times s)"

text \<open>The tasks of the two queues, in the order they will leave.\<close>

definition ready_tasks :: "('f, 'b, 'w) sched \<Rightarrow> nat list" where
  "ready_tasks s = map (aq_val (ready_q s)) (aq_elems (ready_q s))"

definition sleeping_tasks :: "('f, 'b, 'w) sched \<Rightarrow> nat list" where
  "sleeping_tasks s = map (aq_val (sleep_q s)) (aq_elems (sleep_q s))"

lemma sleep_times_tasks: "sleep_times s = map (\<lambda>t. t_wake_time (tasks s t)) (sleeping_tasks s)"
  by (simp add: sleep_times_def sleeping_tasks_def)

lemma upd_task_simps [simp]:
  "tasks (upd_task t f s) = (tasks s)(t := f (tasks s t))"
  "ready_q (upd_task t f s) = ready_q s" "sleep_q (upd_task t f s) = sleep_q s"
  "get_time (upd_task t f s) = get_time s" "world (upd_task t f s) = world s"
  "sched_dispatched (upd_task t f s) = sched_dispatched s"
  by (simp_all add: upd_task_def)

definition queues_ok :: "('f, 'b, 'w) sched \<Rightarrow> bool" where
  "queues_ok s \<longleftrightarrow>
     aq_inv MAX_NUM_TASKS (ready_q s) \<and> aq_inv MAX_NUM_TASKS (sleep_q s) \<and>
     locs_ok MAX_NUM_TASKS (aq_elems (ready_q s)) (aq_val (ready_q s)) (ready_locs s) \<and>
     locs_ok MAX_NUM_TASKS (aq_elems (sleep_q s)) (aq_val (sleep_q s)) (sleep_locs s)"

lemma sched_ok_iff:
  "sched_ok s \<longleftrightarrow> queues_ok s \<and> (\<forall>t<MAX_NUM_TASKS. task_ok t (tasks s t)) \<and> sorted (sleep_times s)"
  by (auto simp: sched_ok_def queues_ok_def)

lemma locs_upd [simp]:
  "ready_locs (upd_task t f s) = (ready_locs s)(t := t_ready_loc (f (tasks s t)))"
  "sleep_locs (upd_task t f s) = (sleep_locs s)(t := t_sleep_loc (f (tasks s t)))"
  by (auto simp: ready_locs_def sleep_locs_def)

lemma locs_fields [simp]:
  "ready_locs (s\<lparr>ready_q := q\<rparr>) = ready_locs s" "ready_locs (s\<lparr>sleep_q := q\<rparr>) = ready_locs s"
  "ready_locs (s\<lparr>world := w\<rparr>) = ready_locs s" "ready_locs (s\<lparr>sched_dispatched := d\<rparr>) = ready_locs s"
  "sleep_locs (s\<lparr>ready_q := q\<rparr>) = sleep_locs s" "sleep_locs (s\<lparr>sleep_q := q\<rparr>) = sleep_locs s"
  "sleep_locs (s\<lparr>world := w\<rparr>) = sleep_locs s" "sleep_locs (s\<lparr>sched_dispatched := d\<rparr>) = sleep_locs s"
  by (simp_all add: ready_locs_def sleep_locs_def)

lemma locs_self: "(ready_locs s)(t := t_ready_loc (tasks s t)) = ready_locs s"
  "(sleep_locs s)(t := t_sleep_loc (tasks s t)) = sleep_locs s"
  by (auto simp: ready_locs_def sleep_locs_def)

lemma queues_ok_upd:
  "t_ready_loc (f (tasks s t)) = t_ready_loc (tasks s t) \<Longrightarrow>
   t_sleep_loc (f (tasks s t)) = t_sleep_loc (tasks s t) \<Longrightarrow>
   queues_ok (upd_task t f s) = queues_ok s"
  by (simp add: queues_ok_def locs_self)

lemma queues_ok_fields [simp]:
  "queues_ok (s\<lparr>world := w\<rparr>) = queues_ok s" "queues_ok (s\<lparr>sched_dispatched := d\<rparr>) = queues_ok s"
  by (simp_all add: queues_ok_def)

lemma sleep_times_upd:
  "t_wake_time (f (tasks s t)) = t_wake_time (tasks s t) \<Longrightarrow> sleep_times (upd_task t f s) = sleep_times s"
  by (simp add: sleep_times_def)

lemma sleep_times_fields [simp]:
  "sleep_times (s\<lparr>world := w\<rparr>) = sleep_times s" "sleep_times (s\<lparr>sched_dispatched := d\<rparr>) = sleep_times s"
  "sleep_times (s\<lparr>ready_q := q\<rparr>) = sleep_times s"
  by (simp_all add: sleep_times_def)

lemma sched_ok_task: "sched_ok s \<Longrightarrow> t < MAX_NUM_TASKS \<Longrightarrow> task_ok t (tasks s t)"
  by (simp add: sched_ok_iff)

lemma read_time_eq: "read_time s = (fst (get_time s (world s)), s\<lparr>world := snd (get_time s (world s))\<rparr>)"
  by (simp add: read_time_def split_beta)

subsection \<open>Moving a task between queues\<close>

lemma push_ready_ok:
  assumes "queues_ok s" and t: "t < MAX_NUM_TASKS" and "t_ready_loc (tasks s t) = None"
  shows "queues_ok (push_ready t s) \<and> ready_tasks (push_ready t s) = ready_tasks s @ [t] \<and>
    sleep_q (push_ready t s) = sleep_q s \<and>
    (\<exists>p. tasks (push_ready t s) = (tasks s)(t := (tasks s t)\<lparr>t_ready_loc := Some p\<rparr>)) \<and>
    sched_dispatched (push_ready t s) = sched_dispatched s \<and> get_time (push_ready t s) = get_time s \<and>
    world (push_ready t s) = world s"
proof -
  have inv: "aq_inv MAX_NUM_TASKS (ready_q s)"
    and l: "locs_ok MAX_NUM_TASKS (aq_elems (ready_q s)) (aq_val (ready_q s)) (ready_locs s)"
    using assms(1) by (simp_all add: queues_ok_def)
  have "ready_locs s t = None"
    using assms(3) by (simp add: ready_locs_def)
  from tq.indexed_push [OF inv l t this] obtain p q where
    q: "aq_push t (ready_q s) = (Some p, q)" "aq_inv MAX_NUM_TASKS q" "p \<notin> set (aq_elems (ready_q s))"
       "aq_elems q = aq_elems (ready_q s) @ [p]" "aq_val q = (aq_val (ready_q s))(p := t)"
       "locs_ok MAX_NUM_TASKS (aq_elems q) (aq_val q) ((ready_locs s)(t := Some p))"
    by blast
  have e: "push_ready t s = upd_task t (\<lambda>x. x\<lparr>t_ready_loc := Some p\<rparr>) (s\<lparr>ready_q := q\<rparr>)"
    by (simp add: push_ready_def q(1))
  have "map (aq_val q) (aq_elems (ready_q s)) = map (aq_val (ready_q s)) (aq_elems (ready_q s))"
    using q(3,5) by auto
  then show ?thesis
    unfolding e using assms(1) q by (auto simp: queues_ok_def ready_tasks_def locs_self)
qed

lemma remove_ready_ok:
  assumes "queues_ok s" and t: "t < MAX_NUM_TASKS" and loc: "t_ready_loc (tasks s t) = Some p"
  shows "\<exists>q. aq_remove p (ready_q s) = Some q \<and>
    queues_ok (upd_task t (\<lambda>x. x\<lparr>t_ready_loc := None\<rparr>) (s\<lparr>ready_q := q\<rparr>))"
proof -
  have inv: "aq_inv MAX_NUM_TASKS (ready_q s)"
    and l: "locs_ok MAX_NUM_TASKS (aq_elems (ready_q s)) (aq_val (ready_q s)) (ready_locs s)"
    using assms(1) by (simp_all add: queues_ok_def)
  have "ready_locs s t = Some p"
    using loc by (simp add: ready_locs_def)
  from tq.indexed_remove [OF inv l t this] obtain q where
    "aq_remove p (ready_q s) = Some q" "aq_inv MAX_NUM_TASKS q" "aq_val q = aq_val (ready_q s)"
    "locs_ok MAX_NUM_TASKS (aq_elems q) (aq_val q) ((ready_locs s)(t := None))"
    by blast
  then show ?thesis
    using assms(1) by (simp add: queues_ok_def locs_self)
qed

lemma remove_sleep_ok:
  assumes "queues_ok s" and srt: "sorted (sleep_times s)"
    and t: "t < MAX_NUM_TASKS" and loc: "t_sleep_loc (tasks s t) = Some p"
  shows "\<exists>q. sq_remove p (sleep_q s) = Some q \<and>
    queues_ok (upd_task t (\<lambda>x. x\<lparr>t_sleep_loc := None\<rparr>) (s\<lparr>sleep_q := q\<rparr>)) \<and>
    sorted (sleep_times (s\<lparr>sleep_q := q\<rparr>)) \<and> t \<notin> set (sleeping_tasks (s\<lparr>sleep_q := q\<rparr>))"
proof -
  have inv: "aq_inv MAX_NUM_TASKS (sleep_q s)"
    and l: "locs_ok MAX_NUM_TASKS (aq_elems (sleep_q s)) (aq_val (sleep_q s)) (sleep_locs s)"
    using assms(1) by (simp_all add: queues_ok_def)
  have "sleep_locs s t = Some p"
    using loc by (simp add: sleep_locs_def)
  from tq.indexed_remove [OF inv l t this] obtain q where q:
    "aq_remove p (sleep_q s) = Some q" "aq_inv MAX_NUM_TASKS q"
    "aq_elems q = remove1 p (aq_elems (sleep_q s))" "aq_val q = aq_val (sleep_q s)"
    "locs_ok MAX_NUM_TASKS (aq_elems q) (aq_val q) ((sleep_locs s)(t := None))"
    by blast
  have "sorted (sleep_times (s\<lparr>sleep_q := q\<rparr>))"
    using srt by (simp add: sleep_times_def q sorted_map_remove1)
  moreover have "t \<notin> set (sleeping_tasks (s\<lparr>sleep_q := q\<rparr>))"
    using locs_okD(2) [OF q(5)] by (force simp: sleeping_tasks_def)
  ultimately show ?thesis
    using assms(1) q by (simp add: queues_ok_def locs_self sq_shared)
qed

section \<open>The operations keep the invariant\<close>

lemma sched_okI:
  assumes "queues_ok s" and "\<And>t. t < MAX_NUM_TASKS \<Longrightarrow> task_ok t (tasks s t)" and "sorted (sleep_times s)"
  shows "sched_ok s"
  using assms by (simp add: sched_ok_iff)

lemma find_unallocated:
  "find (\<lambda>i. t_state (ts i) = STATE_UNALLOCATED) [0..<n] = Some i \<Longrightarrow>
   i < n \<and> t_state (ts i) = STATE_UNALLOCATED \<and> (\<forall>j<i. t_state (ts j) \<noteq> STATE_UNALLOCATED)"
  by (auto simp: find_Some_iff)

lemma sched_start_Some:
  assumes ok: "sched_ok s" and t: "t < MAX_NUM_TASKS" "t_state (tasks s t) = STATE_UNALLOCATED"
    and least: "\<forall>u<t. t_state (tasks s u) \<noteq> STATE_UNALLOCATED"
  shows "\<exists>s'. sched_start f b s = (int t, s') \<and> sched_ok s' \<and> ready_tasks s' = ready_tasks s @ [t] \<and>
    sleeping_tasks s' = sleeping_tasks s \<and>
    t_state (tasks s' t) = STATE_ACTIVE \<and> t_func (tasks s' t) = f \<and> t_arg (tasks s' t) = b \<and>
    (\<forall>u. u \<noteq> t \<longrightarrow> tasks s' u = tasks s u)"
proof -
  let ?s1 = "upd_task t (\<lambda>x. x\<lparr>t_state := STATE_ACTIVE, t_func := f, t_arg := b,
               t_tid := int t, t_sleep_loc := None\<rparr>) s"
  have tk: "task_ok t (tasks s t)"
    using ok t by (simp add: sched_ok_task)
  then have locs: "t_ready_loc (tasks s t) = None" "t_sleep_loc (tasks s t) = None"
    using t by (auto simp: task_ok_def)
  have q1: "queues_ok ?s1"
    using ok locs by (subst queues_ok_upd) (auto simp: sched_ok_iff)
  have "find (\<lambda>i. t_state (tasks s i) = STATE_UNALLOCATED) [0..<MAX_NUM_TASKS] = Some t"
    using t least by (auto simp: find_Some_iff intro!: exI [of _ t])
  then have e: "sched_start f b s = (int t, push_ready t ?s1)"
    by (simp add: sched_start_def)
  have p: "t_ready_loc (tasks ?s1 t) = None"
    using locs by simp
  note pr = push_ready_ok [OF q1 t(1) p]
  have st: "sleep_times (push_ready t ?s1) = sleep_times s"
    using pr by (auto simp: sleep_times_def)
  have "sched_ok (push_ready t ?s1)"
  proof (rule sched_okI)
    show "queues_ok (push_ready t ?s1)"
      using pr by blast
    show "sorted (sleep_times (push_ready t ?s1))"
      using ok by (simp add: st sched_ok_iff)
    show "task_ok u (tasks (push_ready t ?s1) u)" if "u < MAX_NUM_TASKS" for u
      using pr locs sched_ok_task [OF ok that] by (cases "u = t") (auto simp: task_ok_def)
  qed
  then show ?thesis
    unfolding e using pr by (auto simp: ready_tasks_def sleeping_tasks_def)
qed

lemma sched_start_None:
  assumes "\<forall>u<MAX_NUM_TASKS. t_state (tasks s u) \<noteq> STATE_UNALLOCATED"
  shows "sched_start f b s = (-1, s)"
proof -
  have "find (\<lambda>i. t_state (tasks s i) = STATE_UNALLOCATED) [0..<MAX_NUM_TASKS] = None"
    using assms by (auto simp: find_None_iff)
  then show ?thesis
    by (simp add: sched_start_def)
qed

lemma sched_start_ok: "sched_ok s \<Longrightarrow> sched_ok (snd (sched_start f b s))"
proof -
  assume ok: "sched_ok s"
  show ?thesis
  proof (cases "find (\<lambda>i. t_state (tasks s i) = STATE_UNALLOCATED) [0..<MAX_NUM_TASKS]")
    case None
    then show ?thesis using ok by (simp add: sched_start_def)
  next
    case (Some t)
    then show ?thesis
      using sched_start_Some [OF ok, of t f b] find_unallocated [OF Some] by auto
  qed
qed

text \<open>Waking and blocking a task: always defined, and the task ends where it should.\<close>

lemma sched_wake_ok:
  assumes ok: "sched_ok s" and t: "t < MAX_NUM_TASKS"
    and st: "t_state (tasks s t) = STATE_BLOCKED \<or> t_state (tasks s t) = STATE_SLEEPING"
  shows "\<exists>s'. sched_wake t s = Some s' \<and> sched_ok s' \<and> ready_tasks s' = ready_tasks s @ [t] \<and>
    t_state (tasks s' t) = STATE_ACTIVE \<and> (\<forall>u. u \<noteq> t \<longrightarrow> tasks s' u = tasks s u)"
proof -
  have tk: "task_ok t (tasks s t)"
    using ok t by (simp add: sched_ok_task)
  have rl: "t_ready_loc (tasks s t) = None"
    using tk st by (auto simp: task_ok_def)
  have "\<exists>s1. (case t_sleep_loc (tasks s t) of
        Some loc \<Rightarrow> map_option (\<lambda>q. upd_task t (\<lambda>x. x\<lparr>t_sleep_loc := None\<rparr>) (s\<lparr>sleep_q := q\<rparr>))
                      (sq_remove loc (sleep_q s))
      | None \<Rightarrow> Some s) = Some s1 \<and> queues_ok s1 \<and> sorted (sleep_times s1) \<and> ready_q s1 = ready_q s \<and>
      tasks s1 = (tasks s)(t := (tasks s t)\<lparr>t_sleep_loc := None\<rparr>)"
  proof (cases "t_sleep_loc (tasks s t)")
    case None
    then have "tasks s = (tasks s)(t := (tasks s t)\<lparr>t_sleep_loc := None\<rparr>)"
      by (intro ext) simp
    with None show ?thesis
      using ok by (simp add: sched_ok_iff)
  next
    case (Some p)
    have "queues_ok s" and "sorted (sleep_times s)"
      using ok by (auto simp: sched_ok_iff)
    from remove_sleep_ok [OF this t Some] show ?thesis
      using Some by (auto simp: sleep_times_upd)
  qed
  then obtain s1 where e1: "(case t_sleep_loc (tasks s t) of
        Some loc \<Rightarrow> map_option (\<lambda>q. upd_task t (\<lambda>x. x\<lparr>t_sleep_loc := None\<rparr>) (s\<lparr>sleep_q := q\<rparr>))
                      (sq_remove loc (sleep_q s))
      | None \<Rightarrow> Some s) = Some s1"
    and s1: "queues_ok s1" "sorted (sleep_times s1)" "ready_q s1 = ready_q s"
      "tasks s1 = (tasks s)(t := (tasks s t)\<lparr>t_sleep_loc := None\<rparr>)"
    by blast
  have rl1: "t_ready_loc (tasks s1 t) = None"
    using rl s1 by simp
  note pr = push_ready_ok [OF s1(1) t rl1]
  let ?s' = "upd_task t (\<lambda>x. x\<lparr>t_state := STATE_ACTIVE\<rparr>) (push_ready t s1)"
  have e: "sched_wake t s = Some ?s'"
    using st rl e1 by (auto simp: sched_wake_def)
  have "sleep_times ?s' = sleep_times s1"
    using pr by (auto simp: sleep_times_def)
  then have "sched_ok ?s'"
  proof (intro sched_okI)
    show "queues_ok ?s'"
      using pr by (subst queues_ok_upd) auto
    show "task_ok u (tasks ?s' u)" if "u < MAX_NUM_TASKS" for u
      using pr s1(4) st sched_ok_task [OF ok that] by (cases "u = t") (auto simp: task_ok_def)
  qed (use s1 in simp)
  then show ?thesis
    unfolding e using pr s1 by (auto simp: ready_tasks_def)
qed

lemma sched_wake_noop:
  "t_state (tasks s t) \<noteq> STATE_BLOCKED \<Longrightarrow> t_state (tasks s t) \<noteq> STATE_SLEEPING \<Longrightarrow>
   sched_wake t s = Some s"
  by (simp add: sched_wake_def)

lemma task_locs_None:
  "t_sleep_loc x = None \<Longrightarrow> x\<lparr>t_ready_loc := None, t_sleep_loc := None\<rparr> = x\<lparr>t_ready_loc := None\<rparr>"
  "t_ready_loc x = None \<Longrightarrow> x\<lparr>t_ready_loc := None, t_sleep_loc := None\<rparr> = x\<lparr>t_sleep_loc := None\<rparr>"
  by (cases x; simp)+

lemma unqueue_ok:
  assumes ok: "sched_ok s" and t: "t < MAX_NUM_TASKS"
  shows "\<exists>s1. (case t_ready_loc (tasks s t) of
      Some loc \<Rightarrow> map_option (\<lambda>q. upd_task t (\<lambda>x. x\<lparr>t_ready_loc := None\<rparr>) (s\<lparr>ready_q := q\<rparr>))
                    (aq_remove loc (ready_q s))
    | None \<Rightarrow> (case t_sleep_loc (tasks s t) of
        Some loc \<Rightarrow> map_option (\<lambda>q. upd_task t (\<lambda>x. x\<lparr>t_sleep_loc := None\<rparr>) (s\<lparr>sleep_q := q\<rparr>))
                      (sq_remove loc (sleep_q s))
      | None \<Rightarrow> Some s)) = Some s1 \<and> queues_ok s1 \<and> sorted (sleep_times s1) \<and>
    tasks s1 = (tasks s)(t := (tasks s t)\<lparr>t_ready_loc := None, t_sleep_loc := None\<rparr>)"
proof -
  have tk: "task_ok t (tasks s t)" and q: "queues_ok s" and srt: "sorted (sleep_times s)"
    using ok t by (auto simp: sched_ok_iff)
  show ?thesis
  proof (cases "t_ready_loc (tasks s t)")
    case (Some p)
    then have "t_sleep_loc (tasks s t) = None"
      using tk by (auto simp: task_ok_def)
    with remove_ready_ok [OF q t Some] Some srt show ?thesis
      by (auto simp: sleep_times_upd task_locs_None)
  next
    case None
    show ?thesis
    proof (cases "t_sleep_loc (tasks s t)")
      case (Some p)
      with remove_sleep_ok [OF q srt t Some] None show ?thesis
        by (auto simp: sleep_times_upd task_locs_None)
    next
      case None2: None
      then have "tasks s = (tasks s)(t := (tasks s t)\<lparr>t_ready_loc := None, t_sleep_loc := None\<rparr>)"
        using None by (intro ext) simp
      then show ?thesis
        using None None2 q srt by simp
    qed
  qed
qed

lemma sched_block_ok:
  assumes ok: "sched_ok s" and t: "t < MAX_NUM_TASKS"
    and al: "t_state (tasks s t) \<noteq> STATE_UNALLOCATED"
  shows "\<exists>s'. sched_block t s = Some s' \<and> sched_ok s' \<and> t_state (tasks s' t) = STATE_BLOCKED \<and>
    t \<notin> set (ready_tasks s') \<and> t \<notin> set (sleeping_tasks s') \<and> (\<forall>u. u \<noteq> t \<longrightarrow> tasks s' u = tasks s u)"
proof -
  from unqueue_ok [OF ok t] obtain s1 where e1: "(case t_ready_loc (tasks s t) of
      Some loc \<Rightarrow> map_option (\<lambda>q. upd_task t (\<lambda>x. x\<lparr>t_ready_loc := None\<rparr>) (s\<lparr>ready_q := q\<rparr>))
                    (aq_remove loc (ready_q s))
    | None \<Rightarrow> (case t_sleep_loc (tasks s t) of
        Some loc \<Rightarrow> map_option (\<lambda>q. upd_task t (\<lambda>x. x\<lparr>t_sleep_loc := None\<rparr>) (s\<lparr>sleep_q := q\<rparr>))
                      (sq_remove loc (sleep_q s))
      | None \<Rightarrow> Some s)) = Some s1"
    and s1: "queues_ok s1" "sorted (sleep_times s1)"
      "tasks s1 = (tasks s)(t := (tasks s t)\<lparr>t_ready_loc := None, t_sleep_loc := None\<rparr>)"
    by blast
  let ?s' = "upd_task t (\<lambda>x. x\<lparr>t_state := STATE_BLOCKED\<rparr>) s1"
  have e: "sched_block t s = Some ?s'"
    by (simp add: sched_block_def e1)
  have ok': "sched_ok ?s'"
  proof (rule sched_okI)
    show "queues_ok ?s'"
      using s1 by (subst queues_ok_upd) auto
    show "sorted (sleep_times ?s')"
      using s1 by (subst sleep_times_upd) auto
    show "task_ok u (tasks ?s' u)" if "u < MAX_NUM_TASKS" for u
      using s1(3) al sched_ok_task [OF ok that] by (cases "u = t") (auto simp: task_ok_def)
  qed
  have "t \<notin> set (ready_tasks ?s')" and "t \<notin> set (sleeping_tasks ?s')"
  proof -
    have "locs_ok MAX_NUM_TASKS (aq_elems (ready_q s1)) (aq_val (ready_q s1)) (ready_locs s1)"
      and "locs_ok MAX_NUM_TASKS (aq_elems (sleep_q s1)) (aq_val (sleep_q s1)) (sleep_locs s1)"
      using s1(1) by (auto simp: queues_ok_def)
    note l = locs_okD(2) [OF this(1)] locs_okD(2) [OF this(2)]
    show "t \<notin> set (ready_tasks ?s')" and "t \<notin> set (sleeping_tasks ?s')"
      using l s1(3) by (force simp: ready_tasks_def sleeping_tasks_def ready_locs_def sleep_locs_def)+
  qed
  with ok' show ?thesis
    unfolding e using s1(3) by auto
qed

subsection \<open>Sleeping\<close>

text \<open>
  The wake time of a task that goes to sleep fits the sleep queue if it is at one of its ends:
  no other sleeping task wakes earlier, or all of them do.
\<close>

definition sleep_fits :: "nat \<Rightarrow> u32 \<Rightarrow> ('f, 'b, 'w) sched \<Rightarrow> bool" where
  "sleep_fits t w s \<longleftrightarrow>
     (\<forall>u<MAX_NUM_TASKS. u \<noteq> t \<and> t_state (tasks s u) = STATE_SLEEPING \<longrightarrow> w \<le> t_wake_time (tasks s u)) \<or>
     (\<forall>u<MAX_NUM_TASKS. u \<noteq> t \<and> t_state (tasks s u) = STATE_SLEEPING \<longrightarrow> t_wake_time (tasks s u) < w)"

text \<open>The state in which the task is off every queue, with its new state and wake time.\<close>

definition sleep_prep :: "nat \<Rightarrow> u32 \<Rightarrow> ('f, 'b, 'w) sched \<Rightarrow> ('f, 'b, 'w) sched \<Rightarrow> bool" where
  "sleep_prep t w s s3 \<longleftrightarrow>
     aq_inv MAX_NUM_TASKS (ready_q s3) \<and> aq_inv MAX_NUM_TASKS (sleep_q s3) \<and>
     locs_ok MAX_NUM_TASKS (aq_elems (ready_q s3)) (aq_val (ready_q s3)) (ready_locs s3) \<and>
     locs_ok MAX_NUM_TASKS (aq_elems (sleep_q s3)) (aq_val (sleep_q s3)) ((sleep_locs s)(t := None)) \<and>
     sorted (map (\<lambda>p. t_wake_time (tasks s (aq_val (sleep_q s3) p))) (aq_elems (sleep_q s3))) \<and>
     (\<forall>u. u \<noteq> t \<longrightarrow> tasks s3 u = tasks s u) \<and> t_state (tasks s3 t) = STATE_SLEEPING \<and>
     t_wake_time (tasks s3 t) = w \<and> t_ready_loc (tasks s3 t) = None \<and> t_tid (tasks s3 t) = t_tid (tasks s t)"

lemma sleep_prep_push:
  assumes ok: "sched_ok s" and t: "t < MAX_NUM_TASKS" and al: "t_state (tasks s t) \<noteq> STATE_UNALLOCATED"
    and prep: "sleep_prep t w s s3" and fits: "sleep_fits t w s"
  shows "\<exists>p q. sq_push (sleep_sort (tasks s3)) t (sleep_q s3) = Some (Some p, q) \<and>
    sched_ok (upd_task t (\<lambda>x. x\<lparr>t_sleep_loc := Some p\<rparr>) (s3\<lparr>sleep_q := q\<rparr>))"
proof -
  let ?es = "aq_elems (sleep_q s3)" and ?v = "aq_val (sleep_q s3)"
  let ?loc = "(sleep_locs s)(t := None)"
  have inv: "aq_inv MAX_NUM_TASKS (sleep_q s3)" and l: "locs_ok MAX_NUM_TASKS ?es ?v ?loc"
    and oth: "\<And>u. u \<noteq> t \<Longrightarrow> tasks s3 u = tasks s u" and wt: "t_wake_time (tasks s3 t) = w"
    using prep by (auto simp: sleep_prep_def)
  have mem: "?v p < MAX_NUM_TASKS" "?v p \<noteq> t" "t_state (tasks s (?v p)) = STATE_SLEEPING"
      "tasks s3 (?v p) = tasks s (?v p)" if "p \<in> set ?es" for p
  proof -
    show a: "?v p < MAX_NUM_TASKS" and b: "?v p \<noteq> t"
      using locs_okD(1,2) [OF l that] by (auto split: if_splits)
    then have "t_sleep_loc (tasks s (?v p)) = Some p"
      using locs_okD(2) [OF l that] by (simp add: sleep_locs_def)
    then show "t_state (tasks s (?v p)) = STATE_SLEEPING"
      using sched_ok_task [OF ok a] by (auto simp: task_ok_def)
    show "tasks s3 (?v p) = tasks s (?v p)"
      using b by (rule oth)
  qed
  let ?srt = "sleep_sort (tasks s3)"
  have srt: "?srt (?v p) t = (t_wake_time (tasks s (?v p)) < w)" if "p \<in> set ?es" for p
    using mem(4) [OF that] wt by (simp add: sleep_sort_def)
  have ends: "(\<forall>p\<in>set ?es. \<not> ?srt (?v p) t) \<or> (\<forall>p\<in>set ?es. ?srt (?v p) t)"
    using fits mem(1-3) srt unfolding sleep_fits_def by (metis leD)
  have room: "length ?es < MAX_NUM_TASKS"
    by (rule locs_ok_room [OF l _ t]) (use aq_law_distinct [OF inv] in auto)
  obtain p q where q: "sq_push ?srt t (sleep_q s3) = Some (Some p, q)" "aq_inv MAX_NUM_TASKS q"
      "p \<notin> set ?es" "aq_val q = ?v(p := t)"
      "aq_elems q = (if \<forall>r\<in>set ?es. \<not> ?srt (?v r) t then p # ?es else ?es @ [p])"
    using sq_law_push [where srt = ?srt and x = t, OF inv room ends] by blast
  let ?s' = "upd_task t (\<lambda>x. x\<lparr>t_sleep_loc := Some p\<rparr>) (s3\<lparr>sleep_q := q\<rparr>)"
  have "locs_ok MAX_NUM_TASKS (aq_elems q) (?v(p := t)) (?loc(t := Some p))"
    by (rule locs_ok_insert [OF l q(3) t]) (simp_all add: q(5))
  moreover have "sleep_locs ?s' = ?loc(t := Some p)"
    using oth by (auto simp: sleep_locs_def)
  moreover have "ready_locs ?s' = ready_locs s3"
    by (auto simp: ready_locs_def)
  ultimately have qs: "queues_ok ?s'"
    using prep q by (simp add: queues_ok_def sleep_prep_def)
  have old: "map (\<lambda>r. t_wake_time (tasks ?s' (aq_val q r))) ?es = map (\<lambda>r. t_wake_time (tasks s (?v r))) ?es"
    using mem q(3,4) by auto
  have new: "t_wake_time (tasks ?s' (aq_val q p)) = w"
    using q(4) wt by simp
  have srt_old: "sorted (map (\<lambda>r. t_wake_time (tasks s (?v r))) ?es)"
    using prep by (simp add: sleep_prep_def)
  have "sorted (sleep_times ?s')"
  proof (cases "\<forall>r\<in>set ?es. \<not> ?srt (?v r) t")
    case True
    then have "sleep_times ?s' = w # map (\<lambda>r. t_wake_time (tasks s (?v r))) ?es"
      unfolding sleep_times_def using q(5) [unfolded if_P [OF True]] old new by simp
    then show ?thesis
      using srt_old True srt by (auto simp: not_less)
  next
    case False
    then have "sleep_times ?s' = map (\<lambda>r. t_wake_time (tasks s (?v r))) ?es @ [w]"
      unfolding sleep_times_def using q(5) [unfolded if_not_P [OF False]] old new by simp
    then show ?thesis
      using srt_old False ends srt by (auto simp: sorted_append less_imp_le)
  qed
  then have "sched_ok ?s'"
  proof (intro sched_okI qs)
    show "task_ok u (tasks ?s' u)" if "u < MAX_NUM_TASKS" for u
      using sched_ok_task [OF ok that] oth [of u] prep al
      by (cases "u = t") (auto simp: task_ok_def sleep_prep_def)
  qed
  with q(1) show ?thesis
    by blast
qed

lemma sched_sleep_ok:
  assumes ok: "sched_ok s" and t: "t < MAX_NUM_TASKS" and al: "t_state (tasks s t) \<noteq> STATE_UNALLOCATED"
    and w: "w = fst (get_time s (world s)) + time" and fits: "sleep_fits t w s"
  shows "\<exists>s'. sched_sleep t time s = Some s' \<and> sched_ok s' \<and> t_state (tasks s' t) = STATE_SLEEPING \<and>
    t_wake_time (tasks s' t) = w \<and> t_ready_loc (tasks s' t) = None \<and> (\<forall>u. u \<noteq> t \<longrightarrow> tasks s' u = tasks s u)"
proof -
  have tk: "task_ok t (tasks s t)" and qok: "queues_ok s" and srt: "sorted (sleep_times s)"
    using ok t by (auto simp: sched_ok_iff)
  let ?first = "case t_sleep_loc (tasks s t) of
      Some loc \<Rightarrow> map_option (\<lambda>q. s\<lparr>sleep_q := q\<rparr>) (sq_remove loc (sleep_q s))
    | None \<Rightarrow> (case t_ready_loc (tasks s t) of
        Some loc \<Rightarrow> map_option (\<lambda>q. upd_task t (\<lambda>x. x\<lparr>t_ready_loc := None\<rparr>) (s\<lparr>ready_q := q\<rparr>))
                      (aq_remove loc (ready_q s))
      | None \<Rightarrow> Some s)"
  let ?mid = "\<lambda>s1. upd_task t (\<lambda>x. x\<lparr>t_wake_time := w\<rparr>)
      ((upd_task t (\<lambda>x. x\<lparr>t_state := STATE_SLEEPING\<rparr>) s1)\<lparr>world := snd (get_time s (world s))\<rparr>)"
  have "\<exists>s1. ?first = Some s1 \<and> sleep_prep t w s (?mid s1) \<and> get_time s1 = get_time s \<and> world s1 = world s"
  proof (cases "t_sleep_loc (tasks s t)")
    case (Some p)
    then have rl: "t_ready_loc (tasks s t) = None"
      using tk by (auto simp: task_ok_def)
    then have rls: "(ready_locs s)(t := None) = ready_locs s"
      by (auto simp: ready_locs_def)
    from remove_sleep_ok [OF qok srt t Some] Some rl rls show ?thesis
      by (auto simp: queues_ok_def sleep_prep_def sleep_times_def)
  next
    case None
    then have sl: "(sleep_locs s)(t := None) = sleep_locs s"
      by (auto simp: sleep_locs_def)
    show ?thesis
    proof (cases "t_ready_loc (tasks s t)")
      case None2: None
      then have "(ready_locs s)(t := None) = ready_locs s"
        by (auto simp: ready_locs_def)
      then show ?thesis
        using None None2 qok srt sl by (auto simp: queues_ok_def sleep_prep_def sleep_times_def)
    next
      case (Some p)
      from remove_ready_ok [OF qok t Some] None Some srt sl show ?thesis
        by (auto simp: queues_ok_def sleep_prep_def sleep_times_def)
    qed
  qed
  then obtain s1 where s1: "?first = Some s1" "sleep_prep t w s (?mid s1)"
      "get_time s1 = get_time s" "world s1 = world s"
    by blast
  obtain p q where pq: "sq_push (sleep_sort (tasks (?mid s1))) t (sleep_q (?mid s1)) = Some (Some p, q)"
      "sched_ok (upd_task t (\<lambda>x. x\<lparr>t_sleep_loc := Some p\<rparr>) ((?mid s1)\<lparr>sleep_q := q\<rparr>))"
    using sleep_prep_push [OF ok t al s1(2) fits] by blast
  have "sched_sleep t time s = Some (upd_task t (\<lambda>x. x\<lparr>t_sleep_loc := Some p\<rparr>) ((?mid s1)\<lparr>sleep_q := q\<rparr>))"
    using pq(1) by (simp add: sched_sleep_def s1 read_time_eq w)
  with pq(2) s1(2) show ?thesis
    by (auto simp: sleep_prep_def)
qed

subsection \<open>Waking the tasks that are due\<close>

lemma sched_ok_world [simp]: "sched_ok (s\<lparr>world := w\<rparr>) = sched_ok s"
  by (simp add: sched_ok_iff)

lemma sched_ok_dispatched [simp]: "sched_ok (s\<lparr>sched_dispatched := d\<rparr>) = sched_ok s"
  by (simp add: sched_ok_iff)

text \<open>One round of the loop on a nonempty sleep queue.\<close>

lemma wakeup_step:
  assumes ok: "sched_ok s" and peek: "sq_peek (sleep_q s) = Some p" and t: "t = aq_val (sleep_q s) p"
    and s': "s' = push_ready t (upd_task t (\<lambda>x. x\<lparr>t_state := STATE_ACTIVE, t_sleep_loc := None\<rparr>)
                   (s\<lparr>sleep_q := sq_pop (sleep_q s)\<rparr>))"
  shows "sched_ok s'" and "sleeping_tasks s = t # sleeping_tasks s'"
    and "ready_tasks s' = ready_tasks s @ [t]" and "get_time s' = get_time s"
    and "\<forall>u. t_wake_time (tasks s' u) = t_wake_time (tasks s u)"
    and "sched_dispatched s' = sched_dispatched s" and "world s' = world s"
proof -
  let ?q = "sq_pop (sleep_q s)"
  have inv: "aq_inv MAX_NUM_TASKS (sleep_q s)"
    and l: "locs_ok MAX_NUM_TASKS (aq_elems (sleep_q s)) (aq_val (sleep_q s)) (sleep_locs s)"
    and srt: "sorted (sleep_times s)"
    using ok by (auto simp: sched_ok_def)
  have pk: "aq_peek (sleep_q s) = Some p"
    using peek by (simp add: sq_shared)
  have pop: "aq_inv MAX_NUM_TASKS ?q" "aq_elems (sleep_q s) = p # aq_elems ?q" "aq_val ?q = aq_val (sleep_q s)"
      "t < MAX_NUM_TASKS" "sleep_locs s t = Some p"
      "locs_ok MAX_NUM_TASKS (aq_elems ?q) (aq_val ?q) ((sleep_locs s)(t := None))"
    using tq.indexed_pop [OF inv l pk] unfolding t sq_shared by blast+
  let ?s1 = "upd_task t (\<lambda>x. x\<lparr>t_state := STATE_ACTIVE, t_sleep_loc := None\<rparr>) (s\<lparr>sleep_q := ?q\<rparr>)"
  have tk: "task_ok t (tasks s t)"
    using sched_ok_task [OF ok pop(4)] .
  then have st: "t_state (tasks s t) = STATE_SLEEPING" "t_ready_loc (tasks s t) = None"
    using pop(5) by (auto simp: task_ok_def sleep_locs_def)
  have "(ready_locs s)(t := None) = ready_locs s"
    using st by (auto simp: ready_locs_def)
  then have q1: "queues_ok ?s1"
    using ok pop st by (simp add: queues_ok_def sched_ok_def)
  have rl1: "t_ready_loc (tasks ?s1 t) = None"
    using st by simp
  note pr = push_ready_ok [OF q1 pop(4) rl1, folded s']
  have tl: "sleep_times s = t_wake_time (tasks s t) # sleep_times s'"
    using pop pr by (auto simp: sleep_times_def t)
  show "sched_ok s'"
  proof (rule sched_okI)
    show "queues_ok s'"
      using pr by blast
    show "sorted (sleep_times s')"
      using srt tl by simp
    show "task_ok u (tasks s' u)" if "u < MAX_NUM_TASKS" for u
      using pr sched_ok_task [OF ok that] st by (cases "u = t") (auto simp: task_ok_def)
  qed
  show "sleeping_tasks s = t # sleeping_tasks s'"
    using pop pr by (simp add: sleeping_tasks_def t)
  show "ready_tasks s' = ready_tasks s @ [t]"
    using pr by (simp add: ready_tasks_def)
  show "get_time s' = get_time s" and "sched_dispatched s' = sched_dispatched s" and "world s' = world s"
    using pr by simp_all
  show "\<forall>u. t_wake_time (tasks s' u) = t_wake_time (tasks s u)"
    using pr by auto
qed

text \<open>
  The whole loop: it returns, and moves a prefix of the sleep queue to the end of the ready
  queue.  If the clock is steady, that is if reading it does not move it, this prefix is exactly
  the tasks that are due.
\<close>

definition steady_clock :: "('f, 'b, 'w) sched \<Rightarrow> bool" where
  "steady_clock s \<longleftrightarrow> (\<forall>w. fst (get_time s (snd (get_time s w))) = fst (get_time s w))"

lemma steady_clock_time: "steady_clock s \<Longrightarrow> fst (get_time s (snd (get_time s w))) = fst (get_time s w)"
  by (simp add: steady_clock_def)

lemma sched_time_fst: "fst (sched_time s) = fst (get_time s (world s))"
  by (simp add: sched_time_def read_time_eq)

lemma wakeup_tasks_ok:
  assumes "sched_ok s"
  shows "\<exists>s' k. sched_wakeup_tasks s = Some s' \<and> sched_ok s' \<and>
    ready_tasks s' = ready_tasks s @ take k (sleeping_tasks s) \<and>
    sleeping_tasks s' = drop k (sleeping_tasks s) \<and> k \<le> length (sleeping_tasks s) \<and>
    get_time s' = get_time s \<and> sched_dispatched s' = sched_dispatched s \<and>
    (steady_clock s \<longrightarrow> fst (sched_time s') = fst (sched_time s) \<and>
       k = length (takeWhile (\<lambda>t. t_wake_time (tasks s t) \<le> fst (sched_time s)) (sleeping_tasks s)))"
  using assms
proof (induction "length (sleeping_tasks s)" arbitrary: s rule: less_induct)
  case less
  have ok: "sched_ok s" by fact
  show ?case
  proof (cases "sq_peek (sleep_q s)")
    case None
    then have "aq_peek (sleep_q s) = None"
      by (simp add: sq_shared)
    then have "aq_elems (sleep_q s) = []"
      using ok aq.peek_None by (auto simp: sched_ok_def)
    then have "sleeping_tasks s = []"
      by (simp add: sleeping_tasks_def)
    moreover have "sched_wakeup_tasks s = Some s"
      by (subst sched_wakeup_tasks.simps) (simp add: None)
    ultimately show ?thesis
      using ok by (intro exI [of _ s] exI [of _ 0]) simp
  next
    case (Some p)
    define t where "t = aq_val (sleep_q s) p"
    define v where "v = fst (get_time s (world s))"
    let ?s1 = "s\<lparr>world := snd (get_time s (world s))\<rparr>"
    define s2 where "s2 = push_ready t (upd_task t (\<lambda>x. x\<lparr>t_state := STATE_ACTIVE, t_sleep_loc := None\<rparr>)
                   (?s1\<lparr>sleep_q := sq_pop (sleep_q ?s1)\<rparr>))"
    have ok1: "sched_ok ?s1" and pk1: "sq_peek (sleep_q ?s1) = Some p" and t1: "t = aq_val (sleep_q ?s1) p"
      using ok Some by (simp_all add: t_def)
    note st = wakeup_step [OF ok1 pk1 t1 s2_def]
    have sl: "sleeping_tasks ?s1 = sleeping_tasks s" "ready_tasks ?s1 = ready_tasks s"
      by (simp_all add: sleeping_tasks_def ready_tasks_def)
    have v1: "fst (sched_time ?s1) = v" "fst (sched_time s2) = v" if "steady_clock s"
      using steady_clock_time [OF that] st(4,7) by (simp_all add: sched_time_fst v_def)
    show ?thesis
    proof (cases "v \<ge> t_wake_time (tasks s t)")
      case False
      have "sched_wakeup_tasks s = Some ?s1"
        using False by (subst sched_wakeup_tasks.simps) (simp add: Some read_time_eq t_def v_def)
      moreover have "takeWhile (\<lambda>t. t_wake_time (tasks s t) \<le> fst (sched_time s)) (sleeping_tasks s) = []"
        using False st(2) sl by (auto simp: v_def sched_time_fst)
      ultimately show ?thesis
        using ok sl v1 by (intro exI [of _ ?s1] exI [of _ 0]) (simp add: sched_time_fst v_def)
    next
      case True
      have e: "sched_wakeup_tasks s = sched_wakeup_tasks s2"
        using True
        by (subst sched_wakeup_tasks.simps) (simp add: Some read_time_eq t_def v_def s2_def Let_def)
      have "length (sleeping_tasks s2) < length (sleeping_tasks s)"
        using st(2) sl by simp
      from less.hyps [OF this st(1)] obtain s' k where r: "sched_wakeup_tasks s2 = Some s'" "sched_ok s'"
          "ready_tasks s' = ready_tasks s2 @ take k (sleeping_tasks s2)"
          "sleeping_tasks s' = drop k (sleeping_tasks s2)" "k \<le> length (sleeping_tasks s2)"
          "get_time s' = get_time s2" "sched_dispatched s' = sched_dispatched s2"
          "steady_clock s2 \<longrightarrow> fst (sched_time s') = fst (sched_time s2) \<and>
             k = length (takeWhile (\<lambda>t. t_wake_time (tasks s2 t) \<le> fst (sched_time s2)) (sleeping_tasks s2))"
        by blast
      have "fst (sched_time s') = fst (sched_time s) \<and>
          Suc k = length (takeWhile (\<lambda>t. t_wake_time (tasks s t) \<le> fst (sched_time s)) (sleeping_tasks s))"
        if sc: "steady_clock s"
      proof -
        have "steady_clock s2"
          using sc st(4) by (simp add: steady_clock_def)
        then show ?thesis
          using r(8) v1 [OF sc] st(2,5) sl True by (simp add: sched_time_fst v_def)
      qed
      then show ?thesis
        using e r st sl by (intro exI [of _ s'] exI [of _ "Suc k"]) auto
    qed
  qed
qed

text \<open>Whatever is woken, no task gets another function, argument, identifier or wake time.\<close>

definition same_code :: "('f, 'b, 'w) sched \<Rightarrow> ('f, 'b, 'w) sched \<Rightarrow> bool" where
  "same_code s s' \<longleftrightarrow>
     (\<forall>u. t_func (tasks s' u) = t_func (tasks s u) \<and> t_arg (tasks s' u) = t_arg (tasks s u) \<and>
          t_tid (tasks s' u) = t_tid (tasks s u) \<and> t_wake_time (tasks s' u) = t_wake_time (tasks s u))"

lemma same_code_refl [simp]: "same_code s s" "same_code s (s\<lparr>world := w\<rparr>)"
  by (simp_all add: same_code_def)

lemma same_code_trans: "same_code s s1 \<Longrightarrow> same_code s1 s2 \<Longrightarrow> same_code s s2"
  by (simp add: same_code_def)

lemma same_code_push_ready: "same_code s s1 \<Longrightarrow> same_code s (push_ready t s1)"
  by (auto simp: same_code_def push_ready_def split: prod.split)

lemma wakeup_same_code:
  assumes "sched_wakeup_tasks s = Some s'"
  shows "same_code s s'"
proof (rule sched_wakeup_tasks.raw_induct [OF _ assms], goal_cases)
  case (1 rec s s')
  show ?case
  proof (cases "sq_peek (sleep_q s)")
    case None
    then show ?thesis
      using 1(2) by simp
  next
    case (Some p)
    let ?t = "aq_val (sleep_q s) p" and ?s1 = "s\<lparr>world := snd (get_time s (world s))\<rparr>"
    let ?s2 = "push_ready ?t (upd_task ?t (\<lambda>x. x\<lparr>t_state := STATE_ACTIVE, t_sleep_loc := None\<rparr>)
        (?s1\<lparr>sleep_q := sq_pop (sleep_q ?s1)\<rparr>))"
    have "same_code s ?s2"
      by (rule same_code_push_ready) (simp add: same_code_def)
    then have "same_code s s'" if "rec ?s2 = Some s'"
      by (rule same_code_trans) (rule 1(1) [OF that])
    moreover have "rec ?s2 = Some s' \<or> s' = ?s1"
      using 1(2) by (auto simp: Some read_time_eq Let_def split: if_splits)
    ultimately show ?thesis
      by auto
  qed
qed

subsection \<open>Dispatching\<close>

text \<open>
  What the dispatcher needs of task code: it keeps the invariant, does not put the running task
  on the ready queue itself, and does not leave it asleep when it reports an error.
\<close>

definition task_code_ok ::
  "('f \<Rightarrow> 'b \<Rightarrow> ('f, 'b, 'w) sched \<Rightarrow> (ret_type \<times> ('f, 'b, 'w) sched) option) \<Rightarrow> bool" where
  "task_code_ok run \<longleftrightarrow>
     (\<forall>f b s ret s' t. sched_ok s \<and> t < MAX_NUM_TASKS \<and> sched_dispatched s = int t \<and>
        t_ready_loc (tasks s t) = None \<and> t_state (tasks s t) = STATE_ACTIVE \<and>
        run f b s = Some (ret, s') \<longrightarrow>
        sched_ok s' \<and> t_ready_loc (tasks s' t) = None \<and>
        (ret = RET_ERROR \<longrightarrow> t_state (tasks s' t) \<noteq> STATE_SLEEPING))"

text \<open>The dispatcher after the task has returned.\<close>

definition dispatch_finish :: "nat \<Rightarrow> ret_type \<Rightarrow> ('f, 'b, 'w) sched \<Rightarrow> ('f, 'b, 'w) sched" where
  "dispatch_finish t ret s5 =
     (if ret = RET_ERROR then upd_task t (\<lambda>x. x\<lparr>t_state := STATE_UNALLOCATED\<rparr>) s5
      else if t_state (tasks s5 t) = STATE_ACTIVE then push_ready t s5 else s5)
     \<lparr>sched_dispatched := int MAX_NUM_TASKS\<rparr>"

lemma dispatch_runs_head:
  assumes ok: "sched_ok s" and wk: "sched_wakeup_tasks s = Some s1" and ok1: "sched_ok s1"
    and rd: "ready_tasks s1 = t # ts"
  shows "\<exists>s4. sched_dispatch run s =
      map_option (\<lambda>(ret, s5). dispatch_finish t ret s5)
        (run (t_func (tasks s1 t)) (t_arg (tasks s1 t)) s4) \<and>
    sched_ok s4 \<and> t < MAX_NUM_TASKS \<and> sched_dispatched s4 = int t \<and> ready_tasks s4 = ts \<and>
    tasks s4 = (tasks s1)(t := (tasks s1 t)\<lparr>t_ready_loc := None\<rparr>) \<and> sleep_q s4 = sleep_q s1 \<and>
    get_time s4 = get_time s1 \<and> world s4 = world s1 \<and> t_state (tasks s4 t) = STATE_ACTIVE"
proof -
  have inv: "aq_inv MAX_NUM_TASKS (ready_q s1)"
    and l: "locs_ok MAX_NUM_TASKS (aq_elems (ready_q s1)) (aq_val (ready_q s1)) (ready_locs s1)"
    using ok1 by (auto simp: sched_ok_def)
  obtain p where pk: "aq_peek (ready_q s1) = Some p"
    using rd aq.peek_None [OF inv] by (cases "aq_peek (ready_q s1)") (auto simp: ready_tasks_def)
  note pop = tq.indexed_pop [OF inv l pk]
  have t: "t = aq_val (ready_q s1) p" and ts: "ts = map (aq_val (ready_q s1)) (aq_elems (aq_pop (ready_q s1)))"
    using rd pop by (metis (no_types, lifting) list.map(2) list.inject ready_tasks_def)+
  have tl: "t < MAX_NUM_TASKS" and rl: "ready_locs s1 t = Some p"
    using pop by (simp_all add: t)
  have st: "t_state (tasks s1 t) = STATE_ACTIVE" "t_tid (tasks s1 t) = int t"
      "t_sleep_loc (tasks s1 t) = None"
    using sched_ok_task [OF ok1 tl] rl by (auto simp: task_ok_def ready_locs_def)
  define s4 where "s4 = (upd_task t (\<lambda>x. x\<lparr>t_ready_loc := None\<rparr>)
      (s1\<lparr>ready_q := aq_pop (ready_q s1)\<rparr>))\<lparr>sched_dispatched := int t\<rparr>"
  have vals: "aq_val (aq_pop (ready_q s1)) = aq_val (ready_q s1)"
    using pop by blast
  have "sched_dispatch run s =
      map_option (\<lambda>(ret, s5). dispatch_finish t ret s5) (run (t_func (tasks s1 t)) (t_arg (tasks s1 t)) s4)"
    by (simp add: sched_dispatch_def wk pk vals t [symmetric] Let_def st s4_def dispatch_finish_def
        split: option.split prod.split)
  moreover have "sched_ok s4"
  proof (rule sched_okI)
    have inv': "aq_inv MAX_NUM_TASKS (aq_pop (ready_q s1))" and l': "locs_ok MAX_NUM_TASKS
        (aq_elems (aq_pop (ready_q s1))) (aq_val (ready_q s1)) ((ready_locs s1)(t := None))"
      using pop unfolding t vals by blast+
    have "queues_ok s1"
      using ok1 by (simp add: sched_ok_iff)
    with inv' l' show "queues_ok s4"
      by (simp add: s4_def queues_ok_def locs_self vals)
    show "sorted (sleep_times s4)"
      using ok1 by (simp add: s4_def sched_ok_def sleep_times_upd)
    show "task_ok u (tasks s4 u)" if "u < MAX_NUM_TASKS" for u
      using sched_ok_task [OF ok1 that] st by (cases "u = t") (auto simp: s4_def task_ok_def)
  qed
  moreover have "ready_tasks s4 = ts"
    by (simp add: s4_def ready_tasks_def ts vals)
  ultimately show ?thesis
    using tl st by (intro exI [of _ s4]) (simp add: s4_def)
qed

lemma dispatch_idle:
  assumes ok: "sched_ok s" and wk: "sched_wakeup_tasks s = Some s1" and ok1: "sched_ok s1"
    and rd: "ready_tasks s1 = []"
  shows "sched_dispatch run s = Some (s1\<lparr>sched_dispatched := int MAX_NUM_TASKS\<rparr>)"
proof -
  have "aq_inv MAX_NUM_TASKS (ready_q s1)"
    using ok1 by (auto simp: sched_ok_def)
  then have "aq_peek (ready_q s1) = None"
    using rd aq.peek_None by (auto simp: ready_tasks_def)
  then show ?thesis
    by (simp add: sched_dispatch_def wk)
qed

lemma dispatch_finish_ok:
  assumes ok: "sched_ok s5" and t: "t < MAX_NUM_TASKS" and rl: "t_ready_loc (tasks s5 t) = None"
    and er: "ret = RET_ERROR \<Longrightarrow> t_state (tasks s5 t) \<noteq> STATE_SLEEPING"
  shows "sched_ok (dispatch_finish t ret s5)"
    and "ret \<noteq> RET_ERROR \<Longrightarrow> t_state (tasks s5 t) = STATE_ACTIVE \<Longrightarrow>
      ready_tasks (dispatch_finish t ret s5) = ready_tasks s5 @ [t]"
    and "sleeping_tasks (dispatch_finish t ret s5) = sleeping_tasks s5"
    and "get_time (dispatch_finish t ret s5) = get_time s5"
proof -
  have q: "queues_ok s5"
    using ok by (simp add: sched_ok_iff)
  note pr = push_ready_ok [OF q t rl]
  have tk: "task_ok t (tasks s5 t)"
    using sched_ok_task [OF ok t] .
  have err: "sched_ok (upd_task t (\<lambda>x. x\<lparr>t_state := STATE_UNALLOCATED\<rparr>) s5)"
    if "t_state (tasks s5 t) \<noteq> STATE_SLEEPING"
  proof (rule sched_okI)
    show "queues_ok (upd_task t (\<lambda>x. x\<lparr>t_state := STATE_UNALLOCATED\<rparr>) s5)"
      using q by (subst queues_ok_upd) auto
    show "sorted (sleep_times (upd_task t (\<lambda>x. x\<lparr>t_state := STATE_UNALLOCATED\<rparr>) s5))"
      using ok by (subst sleep_times_upd) (auto simp: sched_ok_iff)
    show "task_ok u (tasks (upd_task t (\<lambda>x. x\<lparr>t_state := STATE_UNALLOCATED\<rparr>) s5) u)"
      if "u < MAX_NUM_TASKS" for u
      using sched_ok_task [OF ok that] rl \<open>t_state (tasks s5 t) \<noteq> STATE_SLEEPING\<close> tk
      by (cases "u = t") (auto simp: task_ok_def)
  qed
  have act: "sched_ok (push_ready t s5)" if "t_state (tasks s5 t) = STATE_ACTIVE"
  proof (rule sched_okI)
    show "queues_ok (push_ready t s5)"
      using pr by blast
    have "sleep_times (push_ready t s5) = sleep_times s5"
      using pr by (auto simp: sleep_times_def)
    then show "sorted (sleep_times (push_ready t s5))"
      using ok by (simp add: sched_ok_iff)
    show "task_ok u (tasks (push_ready t s5) u)" if "u < MAX_NUM_TASKS" for u
      using pr sched_ok_task [OF ok that] \<open>t_state (tasks s5 t) = STATE_ACTIVE\<close> tk
      by (cases "u = t") (auto simp: task_ok_def)
  qed
  show "sched_ok (dispatch_finish t ret s5)"
    using err act er ok by (simp add: dispatch_finish_def)
  show "ret \<noteq> RET_ERROR \<Longrightarrow> t_state (tasks s5 t) = STATE_ACTIVE \<Longrightarrow>
      ready_tasks (dispatch_finish t ret s5) = ready_tasks s5 @ [t]"
    using pr by (simp add: dispatch_finish_def ready_tasks_def)
  show "sleeping_tasks (dispatch_finish t ret s5) = sleeping_tasks s5"
    and "get_time (dispatch_finish t ret s5) = get_time s5"
    using pr by (simp_all add: dispatch_finish_def sleeping_tasks_def)
qed

lemma sched_dispatch_ok:
  assumes ok: "sched_ok s" and run: "task_code_ok run" and d: "sched_dispatch run s = Some s'"
  shows "sched_ok s'"
proof -
  obtain s1 where wk: "sched_wakeup_tasks s = Some s1" and ok1: "sched_ok s1"
    using wakeup_tasks_ok [OF ok] by blast
  show ?thesis
  proof (cases "ready_tasks s1")
    case Nil
    have "s' = s1\<lparr>sched_dispatched := int MAX_NUM_TASKS\<rparr>"
      using dispatch_idle [OF ok wk ok1 Nil, of run] d by simp
    then show ?thesis
      using ok1 by simp
  next
    case (Cons t ts)
    obtain s4 where s4: "sched_dispatch run s =
        map_option (\<lambda>(ret, s5). dispatch_finish t ret s5)
          (run (t_func (tasks s1 t)) (t_arg (tasks s1 t)) s4)"
      "sched_ok s4" "t < MAX_NUM_TASKS" "sched_dispatched s4 = int t" "t_ready_loc (tasks s4 t) = None"
      "t_state (tasks s4 t) = STATE_ACTIVE"
      using dispatch_runs_head [OF ok wk ok1 Cons] by fastforce
    obtain ret s5 where r: "run (t_func (tasks s1 t)) (t_arg (tasks s1 t)) s4 = Some (ret, s5)"
        "s' = dispatch_finish t ret s5"
      using d s4(1) by auto
    have "sched_ok s5 \<and> t_ready_loc (tasks s5 t) = None \<and>
        (ret = RET_ERROR \<longrightarrow> t_state (tasks s5 t) \<noteq> STATE_SLEEPING)"
      using run s4 r(1) unfolding task_code_ok_def by blast
    then show ?thesis
      using dispatch_finish_ok(1) [of s5 t ret] s4(3) r(2) by blast
  qed
qed

end
