(* ===== verification/SchedReach.thy ===== *)
theory SchedReach
  imports SchedModel
begin

text \<open>
  The runs of the scheduler of src/sched: the state at boot, a step relation with one rule per
  public operation of sched.h, the invariant of every reachable state, what one dispatch does,
  and the round robin order of repeated dispatches.  The last section holds the two behaviours
  that break the queue discipline: a task that is blocked and woken while it runs, and a sleep
  whose wake time lies between those of other sleeping tasks.
\<close>

section \<open>Facts read off the invariant\<close>

lemma sched_ok_ready:
  assumes ok: "sched_ok s"
  shows "distinct (ready_tasks s)" and "t \<in> set (ready_tasks s) \<Longrightarrow> t < MAX_NUM_TASKS"
    and "t \<in> set (ready_tasks s) \<Longrightarrow> t_state (tasks s t) = STATE_ACTIVE"
    and "t \<in> set (ready_tasks s) \<Longrightarrow> t_ready_loc (tasks s t) \<noteq> None"
proof -
  have inv: "aq_inv MAX_NUM_TASKS (ready_q s)"
    and l: "locs_ok MAX_NUM_TASKS (aq_elems (ready_q s)) (aq_val (ready_q s)) (ready_locs s)"
    using ok by (auto simp: sched_ok_def)
  have "inj_on (aq_val (ready_q s)) (set (aq_elems (ready_q s)))"
    by (rule inj_on_inverseI [where g = "\<lambda>x. the (ready_locs s x)"]) (simp add: locs_okD(2) [OF l])
  then show "distinct (ready_tasks s)"
    using aq.elems_distinct [OF inv] by (simp add: ready_tasks_def distinct_map)
  have *: "t < MAX_NUM_TASKS \<and> ready_locs s t \<noteq> None" if "t \<in> set (ready_tasks s)" for t
    using that locs_okD(1,2) [OF l] by (auto simp: ready_tasks_def)
  show "t \<in> set (ready_tasks s) \<Longrightarrow> t < MAX_NUM_TASKS"
    and "t \<in> set (ready_tasks s) \<Longrightarrow> t_ready_loc (tasks s t) \<noteq> None"
    using * by (auto simp: ready_locs_def)
  show "t_state (tasks s t) = STATE_ACTIVE" if "t \<in> set (ready_tasks s)"
    using * [OF that] sched_ok_task [OF ok, of t] by (auto simp: task_ok_def ready_locs_def)
qed

lemma sched_ok_sleeping:
  assumes ok: "sched_ok s"
  shows "distinct (sleeping_tasks s)"
    and "t \<in> set (sleeping_tasks s) \<longleftrightarrow> t < MAX_NUM_TASKS \<and> t_state (tasks s t) = STATE_SLEEPING"
proof -
  have inv: "aq_inv MAX_NUM_TASKS (sleep_q s)"
    and l: "locs_ok MAX_NUM_TASKS (aq_elems (sleep_q s)) (aq_val (sleep_q s)) (sleep_locs s)"
    using ok by (auto simp: sched_ok_def)
  have "inj_on (aq_val (sleep_q s)) (set (aq_elems (sleep_q s)))"
    by (rule inj_on_inverseI [where g = "\<lambda>x. the (sleep_locs s x)"]) (simp add: locs_okD(2) [OF l])
  then show "distinct (sleeping_tasks s)"
    using aq.elems_distinct [OF inv] by (simp add: sleeping_tasks_def distinct_map)
  show "t \<in> set (sleeping_tasks s) \<longleftrightarrow> t < MAX_NUM_TASKS \<and> t_state (tasks s t) = STATE_SLEEPING"
  proof
    assume "t \<in> set (sleeping_tasks s)"
    then have "t < MAX_NUM_TASKS" and "sleep_locs s t \<noteq> None"
      using locs_okD(1,2) [OF l] by (auto simp: sleeping_tasks_def)
    then show "t < MAX_NUM_TASKS \<and> t_state (tasks s t) = STATE_SLEEPING"
      using sched_ok_task [OF ok, of t] by (auto simp: task_ok_def sleep_locs_def)
  next
    assume t: "t < MAX_NUM_TASKS \<and> t_state (tasks s t) = STATE_SLEEPING"
    then obtain p where "sleep_locs s t = Some p"
      using sched_ok_task [OF ok, of t] by (auto simp: task_ok_def sleep_locs_def)
    with t show "t \<in> set (sleeping_tasks s)"
      using locs_okD(3,4) [OF l, of t p] by (force simp: sleeping_tasks_def)
  qed
qed

text \<open>The queue discipline as the rest of the system sees it.\<close>

definition discipline :: "('f, 'b, 'w) sched \<Rightarrow> bool" where
  "discipline s \<longleftrightarrow>
     distinct (ready_tasks s @ sleeping_tasks s) \<and> length (ready_tasks s) \<le> MAX_NUM_TASKS \<and>
     set (ready_tasks s) \<subseteq> {t. t < MAX_NUM_TASKS \<and> t_state (tasks s t) = STATE_ACTIVE} \<and>
     set (sleeping_tasks s) = {t. t < MAX_NUM_TASKS \<and> t_state (tasks s t) = STATE_SLEEPING} \<and>
     sorted (map (\<lambda>t. t_wake_time (tasks s t)) (sleeping_tasks s))"

lemma sched_ok_discipline: "sched_ok s \<Longrightarrow> discipline s"
  unfolding discipline_def
  using sched_ok_ready [of s] sched_ok_sleeping [of s] aq.elems_bound [of MAX_NUM_TASKS "ready_q s"]
  by (auto simp: sched_ok_def sleep_times_tasks ready_tasks_def)

section \<open>Boot and the step relation\<close>

text \<open>The static data at boot: zeroed tasks, and two empty queues over zeroed pools.\<close>

definition boot_queue :: "nat \<Rightarrow> nat aqueue" where
  "boot_queue this =
     aq_init this (\<lambda>d. \<lparr>d_owner = 0, d_allocated = False,
                        d_obj = \<lparr>nd_prev = None, nd_next = None, nd_data = 0\<rparr>\<rparr>)
       (\<lambda>a. \<lparr>nd_prev = None, nd_next = None, nd_data = 0\<rparr>) MAX_NUM_TASKS"

definition sched_boot :: "'f \<Rightarrow> 'b \<Rightarrow> 'w \<Rightarrow> ('f, 'b, 'w) sched" where
  "sched_boot f b w =
     \<lparr>sched_dispatched = int MAX_NUM_TASKS,
      tasks = (\<lambda>t. \<lparr>t_state = STATE_UNALLOCATED, t_func = f, t_arg = b, t_tid = 0, t_wake_time = 0,
                   t_ready_loc = None, t_sleep_loc = None\<rparr>),
      ready_q = boot_queue 1, sleep_q = boot_queue 2, get_time = dummy_time, world = w\<rparr>"

lemma boot_queue_inv:
  assumes "this \<noteq> 0"
  shows "aq_inv MAX_NUM_TASKS (boot_queue this)" and "aq_elems (boot_queue this) = []"
  unfolding boot_queue_def by (rule aq_init_inv; use assms in \<open>simp add: MAX_NUM_TASKS_def\<close>)+

lemma sched_boot_ok: "sched_ok (sched_boot f b w)"
  and sched_boot_tasks: "ready_tasks (sched_boot f b w) = []" "sleeping_tasks (sched_boot f b w) = []"
  using boot_queue_inv [of 1] boot_queue_inv [of 2]
  by (simp_all add: sched_ok_def sched_boot_def locs_ok_def ready_locs_def sleep_locs_def task_ok_def
      sleep_times_def ready_tasks_def sleeping_tasks_def)

text \<open>
  The operations of sched.h as data, to describe what a task or an interrupt calls in which order;
  \<open>OpTick\<close> is anything that changes the world outside the scheduler, the clock for instance.
\<close>

datatype ('f, 'b, 'w) sched_op =
    OpInit "'w \<Rightarrow> u32 \<times> 'w"
  | OpStart 'f 'b
  | OpWake nat
  | OpBlock nat
  | OpSleep nat u32
  | OpTick 'w

fun do_op :: "('f, 'b, 'w) sched_op \<Rightarrow> ('f, 'b, 'w) sched \<Rightarrow> ('f, 'b, 'w) sched option" where
  "do_op (OpInit g) s = Some (snd (sched_init (Some g) s))"
| "do_op (OpStart f b) s = Some (snd (sched_start f b s))"
| "do_op (OpWake t) s = sched_wake t s"
| "do_op (OpBlock t) s = sched_block t s"
| "do_op (OpSleep t time) s = sched_sleep t time s"
| "do_op (OpTick w) s = Some (s\<lparr>world := w\<rparr>)"

fun do_ops :: "('f, 'b, 'w) sched_op list \<Rightarrow> ('f, 'b, 'w) sched \<Rightarrow> ('f, 'b, 'w) sched option" where
  "do_ops [] s = Some s"
| "do_ops (x # xs) s = (case do_op x s of None \<Rightarrow> None | Some s' \<Rightarrow> do_ops xs s')"

text \<open>
  What a caller has to keep to: the task exists, a sleep wakes before or after all other sleeping
  tasks, and the task that is running is not woken after it has put itself to sleep or blocked
  itself.  Without the last two the discipline is lost: see \<open>sleep_queue_misorders\<close> for the sleep
  in between, and the task that is queued twice below for the wake-up.
\<close>

fun op_fits :: "('f, 'b, 'w) sched_op \<Rightarrow> ('f, 'b, 'w) sched \<Rightarrow> bool" where
  "op_fits (OpWake t) s \<longleftrightarrow>
     t < MAX_NUM_TASKS \<and> (sched_dispatched s = int t \<longrightarrow> t_state (tasks s t) = STATE_ACTIVE)"
| "op_fits (OpBlock t) s \<longleftrightarrow> t < MAX_NUM_TASKS \<and> t_state (tasks s t) \<noteq> STATE_UNALLOCATED"
| "op_fits (OpSleep t time) s \<longleftrightarrow>
     t < MAX_NUM_TASKS \<and> t_state (tasks s t) \<noteq> STATE_UNALLOCATED \<and>
     sleep_fits t (fst (sched_time s) + time) s"
| "op_fits _ s \<longleftrightarrow> True"

fun ops_fit :: "('f, 'b, 'w) sched_op list \<Rightarrow> ('f, 'b, 'w) sched \<Rightarrow> bool" where
  "ops_fit [] s \<longleftrightarrow> True"
| "ops_fit (x # xs) s \<longleftrightarrow> op_fits x s \<and> (case do_op x s of None \<Rightarrow> True | Some s' \<Rightarrow> ops_fit xs s')"

text \<open>
  Task code that calls the scheduler: from its function, its argument and the state it finds, it
  decides which operations it calls and what it returns.  It has no result here if a call does not
  fit, or if it ends with an error while it is asleep.
\<close>

definition sched_script ::
  "('f \<Rightarrow> 'b \<Rightarrow> ('f, 'b, 'w) sched \<Rightarrow> ('f, 'b, 'w) sched_op list \<times> ret_type) \<Rightarrow>
   'f \<Rightarrow> 'b \<Rightarrow> ('f, 'b, 'w) sched \<Rightarrow> (ret_type \<times> ('f, 'b, 'w) sched) option" where
  "sched_script code f b s =
     (case code f b s of
        (ops, ret) \<Rightarrow>
          (if ops_fit ops s
           then (case do_ops ops s of
                   None \<Rightarrow> None
                 | Some s' \<Rightarrow>
                     (if ret = RET_ERROR \<and> t_state (tasks s' (nat (sched_dispatched s))) = STATE_SLEEPING
                      then None else Some (ret, s')))
           else None))"

inductive sched_step ::
  "('f \<Rightarrow> 'b \<Rightarrow> ('f, 'b, 'w) sched \<Rightarrow> (ret_type \<times> ('f, 'b, 'w) sched) option) \<Rightarrow>
   ('f, 'b, 'w) sched \<Rightarrow> ('f, 'b, 'w) sched \<Rightarrow> bool" for run where
  op: "op_fits x s \<Longrightarrow> do_op x s = Some s' \<Longrightarrow> sched_step run s s'"
| dispatch: "sched_dispatch run s = Some s' \<Longrightarrow> sched_step run s s'"

inductive sched_reach ::
  "('f \<Rightarrow> 'b \<Rightarrow> ('f, 'b, 'w) sched \<Rightarrow> (ret_type \<times> ('f, 'b, 'w) sched) option) \<Rightarrow>
   ('f, 'b, 'w) sched \<Rightarrow> bool" for run where
  boot: "sched_reach run (sched_boot f b w)"
| step: "sched_reach run s \<Longrightarrow> sched_step run s s' \<Longrightarrow> sched_reach run s'"

text \<open>Every operation that fits returns, keeps the invariant, and leaves a running task off the
  ready queue.\<close>

definition running :: "nat \<Rightarrow> ('f, 'b, 'w) sched \<Rightarrow> bool" where
  "running t s \<longleftrightarrow> t < MAX_NUM_TASKS \<and> sched_dispatched s = int t \<and> t_ready_loc (tasks s t) = None \<and>
     t_state (tasks s t) \<noteq> STATE_UNALLOCATED"

lemma do_op_dispatched: "do_op x s = Some s' \<Longrightarrow> sched_dispatched s' = sched_dispatched s"
  by (cases x) (auto simp: sched_init_def sched_start_def push_ready_def sched_wake_def sched_block_def
      sched_sleep_def read_time_eq Let_def split: option.splits prod.splits if_splits)

lemma do_op_ok:
  assumes ok: "sched_ok s" and fit: "op_fits x s"
  shows "\<exists>s'. do_op x s = Some s' \<and> sched_ok s' \<and> (\<forall>t. running t s \<longrightarrow> running t s')"
proof (cases x)
  case (OpInit g)
  then show ?thesis
    using ok by (auto simp: sched_init_def sched_ok_iff queues_ok_def ready_locs_def sleep_locs_def
        sleep_times_def running_def)
next
  case (OpStart f b)
  show ?thesis
  proof (cases "find (\<lambda>i. t_state (tasks s i) = STATE_UNALLOCATED) [0..<MAX_NUM_TASKS]")
    case None
    then show ?thesis
      using ok OpStart by (simp add: sched_start_def)
  next
    case (Some u)
    note fu = find_unallocated [OF Some]
    obtain s' where s': "sched_start f b s = (int u, s')" "sched_ok s'" "\<forall>v. v \<noteq> u \<longrightarrow> tasks s' v = tasks s v"
      using sched_start_Some [OF ok, of u f b] fu by blast
    have "do_op x s = Some s'"
      using s'(1) OpStart by simp
    moreover have "running t s'" if "running t s" for t
      using that s'(3) fu do_op_dispatched [OF calculation] by (cases "t = u") (auto simp: running_def)
    ultimately show ?thesis
      using s'(2) by blast
  qed
next
  case (OpWake u)
  show ?thesis
  proof (cases "t_state (tasks s u) = STATE_BLOCKED \<or> t_state (tasks s u) = STATE_SLEEPING")
    case False
    then show ?thesis
      using ok OpWake sched_wake_noop [of s u] by auto
  next
    case True
    obtain s' where s': "sched_wake u s = Some s'" "sched_ok s'" "\<forall>v. v \<noteq> u \<longrightarrow> tasks s' v = tasks s v"
      using sched_wake_ok [OF ok _ True] fit OpWake by auto
    have d: "do_op x s = Some s'"
      using s'(1) OpWake by simp
    have "running t s'" if "running t s" for t
    proof -
      have "t \<noteq> u"
        using that fit True OpWake by (auto simp: running_def)
      with that s'(3) do_op_dispatched [OF d] show ?thesis
        by (simp add: running_def)
    qed
    with d s'(2) show ?thesis
      by blast
  qed
next
  case (OpBlock u)
  obtain s' where s': "sched_block u s = Some s'" "sched_ok s'" "t_state (tasks s' u) = STATE_BLOCKED"
      "\<forall>v. v \<noteq> u \<longrightarrow> tasks s' v = tasks s v"
    using sched_block_ok [OF ok] fit OpBlock by auto
  have d: "do_op x s = Some s'"
    using s'(1) OpBlock by simp
  have "t_ready_loc (tasks s' u) = None" if "u < MAX_NUM_TASKS"
    using sched_ok_task [OF s'(2) that] s'(3) by (auto simp: task_ok_def)
  then have "running t s'" if "running t s" for t
    using that s'(3,4) do_op_dispatched [OF d] by (cases "t = u") (auto simp: running_def)
  with d s'(2) show ?thesis
    by blast
next
  case (OpSleep u time)
  obtain s' where s': "sched_sleep u time s = Some s'" "sched_ok s'" "t_state (tasks s' u) = STATE_SLEEPING"
      "t_ready_loc (tasks s' u) = None" "\<forall>v. v \<noteq> u \<longrightarrow> tasks s' v = tasks s v"
    using sched_sleep_ok [OF ok _ _ refl] fit OpSleep by (fastforce simp: sched_time_def read_time_eq)
  have d: "do_op x s = Some s'"
    using s'(1) OpSleep by simp
  have "running t s'" if "running t s" for t
    using that s'(3-5) do_op_dispatched [OF d] by (cases "t = u") (auto simp: running_def)
  with d s'(2) show ?thesis
    by blast
next
  case (OpTick w)
  then show ?thesis
    using ok by (simp add: running_def)
qed

lemma do_ops_ok:
  "sched_ok s \<Longrightarrow> ops_fit xs s \<Longrightarrow>
   \<exists>s'. do_ops xs s = Some s' \<and> sched_ok s' \<and> (\<forall>t. running t s \<longrightarrow> running t s')"
proof (induction xs arbitrary: s)
  case Nil
  then show ?case by simp
next
  case (Cons x xs)
  obtain s1 where s1: "do_op x s = Some s1" "sched_ok s1" "\<forall>t. running t s \<longrightarrow> running t s1"
    using do_op_ok [OF Cons.prems(1), of x] Cons.prems(2) by auto
  have "ops_fit xs s1"
    using Cons.prems(2) s1(1) by simp
  from Cons.IH [OF s1(2) this] s1 show ?case
    by auto
qed

lemma script_code_ok: "task_code_ok (sched_script code)"
  unfolding task_code_ok_def
proof (intro allI impI, elim conjE)
  fix f b and s :: "('a, 'b, 'c) sched" and ret s' t
  assume s: "sched_ok s" "t < MAX_NUM_TASKS" "sched_dispatched s = int t"
      "t_ready_loc (tasks s t) = None" "t_state (tasks s t) = STATE_ACTIVE"
    and r: "sched_script code f b s = Some (ret, s')"
  obtain ops where ops: "code f b s = (ops, ret)" "ops_fit ops s" "do_ops ops s = Some s'"
      "ret = RET_ERROR \<longrightarrow> t_state (tasks s' t) \<noteq> STATE_SLEEPING"
    using r s(3) by (auto simp: sched_script_def split: prod.splits if_splits option.splits)
  have "running t s"
    using s by (simp add: running_def)
  with do_ops_ok [OF s(1) ops(2)] ops(3) have "sched_ok s'" "running t s'"
    by auto
  with ops(4) show "sched_ok s' \<and> t_ready_loc (tasks s' t) = None \<and>
      (ret = RET_ERROR \<longrightarrow> t_state (tasks s' t) \<noteq> STATE_SLEEPING)"
    by (simp add: running_def)
qed

lemma sched_step_ok:
  assumes "sched_step run s s'" and ok: "sched_ok s" and run: "task_code_ok run"
  shows "sched_ok s'"
  using assms(1)
proof (cases rule: sched_step.cases)
  case (op x)
  then show ?thesis
    using do_op_ok [OF ok op(1)] by auto
next
  case dispatch
  then show ?thesis
    using sched_dispatch_ok [OF ok run] by blast
qed

lemma sched_reach_ok: "sched_reach run s \<Longrightarrow> task_code_ok run \<Longrightarrow> sched_ok s"
  by (induction rule: sched_reach.induct) (auto intro: sched_boot_ok sched_step_ok)

lemma sched_reach_op: "sched_reach run s \<Longrightarrow> op_fits x s \<Longrightarrow> do_op x s = Some s' \<Longrightarrow> sched_reach run s'"
  by (rule sched_reach.step [OF _ sched_step.op])

lemma sched_reach_dispatch: "sched_reach run s \<Longrightarrow> sched_dispatch run s = Some s' \<Longrightarrow> sched_reach run s'"
  by (rule sched_reach.step [OF _ sched_step.dispatch])

text \<open>A one task system, for the examples.\<close>

definition one_task :: "('f, 'b, 'w) sched \<Rightarrow> bool" where
  "one_task s \<longleftrightarrow> sched_ok s \<and> sleeping_tasks s = [] \<and> ready_tasks s = [0]"

lemma one_task_ex: "one_task (snd (sched_start f b (sched_boot f b w)))"
  using sched_start_Some [OF sched_boot_ok, of 0 f b w f b]
  by (auto simp: one_task_def sched_boot_tasks) (auto simp: sched_boot_def MAX_NUM_TASKS_def sched_boot_tasks)

lemma start_get_time [simp]: "get_time (snd (sched_start f b s)) = get_time s"
  by (simp add: sched_start_def push_ready_def Let_def split: option.split prod.split)

lemma start_reach: "sched_reach run (snd (sched_start f b (sched_boot g c w)))"
  by (rule sched_reach_op [OF sched_reach.boot, of "OpStart f b"]) simp_all

section \<open>One dispatch\<close>

lemma takeWhile_sorted_filter:
  fixes f :: "'a \<Rightarrow> 'b::linorder"
  shows "sorted (map f xs) \<Longrightarrow> takeWhile (\<lambda>x. f x \<le> c) xs = filter (\<lambda>x. f x \<le> c) xs"
proof (induction xs)
  case Nil
  then show ?case by simp
next
  case (Cons x xs)
  have "filter (\<lambda>x. f x \<le> c) xs = []" if "\<not> f x \<le> c"
    using Cons.prems that by (auto simp: filter_empty_conv)
  then show ?case
    using Cons by auto
qed

lemma dropWhile_sorted_filter:
  fixes f :: "'a \<Rightarrow> 'b::linorder"
  shows "sorted (map f xs) \<Longrightarrow> dropWhile (\<lambda>x. f x \<le> c) xs = filter (\<lambda>x. \<not> f x \<le> c) xs"
proof (induction xs)
  case Nil
  then show ?case by simp
next
  case (Cons x xs)
  have "filter (\<lambda>x. \<not> f x \<le> c) xs = xs" if "\<not> f x \<le> c"
    using Cons.prems that by (auto simp: filter_id_conv)
  then show ?case
    using Cons by auto
qed

definition due_tasks :: "('f, 'b, 'w) sched \<Rightarrow> nat list" where
  "due_tasks s = filter (\<lambda>t. t_wake_time (tasks s t) \<le> fst (sched_time s)) (sleeping_tasks s)"

definition waiting_tasks :: "('f, 'b, 'w) sched \<Rightarrow> nat list" where
  "waiting_tasks s = filter (\<lambda>t. \<not> t_wake_time (tasks s t) \<le> fst (sched_time s)) (sleeping_tasks s)"

lemma wakeup_due:
  assumes ok: "sched_ok s" and clk: "steady_clock s"
  shows "\<exists>s1. sched_wakeup_tasks s = Some s1 \<and> sched_ok s1 \<and>
    ready_tasks s1 = ready_tasks s @ due_tasks s \<and> sleeping_tasks s1 = waiting_tasks s \<and>
    get_time s1 = get_time s \<and> sched_dispatched s1 = sched_dispatched s \<and> same_code s s1 \<and>
    fst (sched_time s1) = fst (sched_time s)"
proof -
  let ?P = "\<lambda>t. t_wake_time (tasks s t) \<le> fst (sched_time s)" and ?xs = "sleeping_tasks s"
  obtain s1 k where s1: "sched_wakeup_tasks s = Some s1" "sched_ok s1"
      "ready_tasks s1 = ready_tasks s @ take k ?xs" "sleeping_tasks s1 = drop k ?xs"
      "get_time s1 = get_time s" "sched_dispatched s1 = sched_dispatched s"
      "k = length (takeWhile ?P ?xs)" "fst (sched_time s1) = fst (sched_time s)"
    using wakeup_tasks_ok [OF ok] clk by blast
  have srt: "sorted (map (\<lambda>t. t_wake_time (tasks s t)) ?xs)"
    using ok by (simp add: sched_ok_iff sleep_times_tasks)
  show ?thesis
    using s1(1-6,8) wakeup_same_code [OF s1(1)] takeWhile_eq_take [of ?P ?xs, folded s1(7)]
      dropWhile_eq_drop [of ?P ?xs, folded s1(7)] takeWhile_sorted_filter [OF srt] dropWhile_sorted_filter [OF srt]
    unfolding due_tasks_def waiting_tasks_def by metis
qed

lemma dispatch_next:
  assumes ok: "sched_ok s" and clk: "steady_clock s" and rd: "ready_tasks s @ due_tasks s = t # ts"
  shows "\<exists>s4. sched_dispatch run s =
      map_option (\<lambda>(ret, s5). dispatch_finish t ret s5)
        (run (t_func (tasks s t)) (t_arg (tasks s t)) s4) \<and>
    sched_ok s4 \<and> t < MAX_NUM_TASKS \<and> sched_dispatched s4 = int t \<and>
    ready_tasks s4 = ts \<and> sleeping_tasks s4 = waiting_tasks s \<and>
    t_state (tasks s4 t) = STATE_ACTIVE \<and> t_ready_loc (tasks s4 t) = None \<and> same_code s s4 \<and>
    get_time s4 = get_time s \<and> fst (sched_time s4) = fst (sched_time s)"
proof -
  obtain s1 where s1: "sched_wakeup_tasks s = Some s1" "sched_ok s1"
      "ready_tasks s1 = t # ts" "sleeping_tasks s1 = waiting_tasks s" "get_time s1 = get_time s"
      "same_code s s1" "fst (sched_time s1) = fst (sched_time s)"
    using wakeup_due [OF ok clk] rd by auto
  obtain s4 where s4: "sched_dispatch run s =
      map_option (\<lambda>(ret, s5). dispatch_finish t ret s5)
        (run (t_func (tasks s1 t)) (t_arg (tasks s1 t)) s4)"
    "sched_ok s4" "t < MAX_NUM_TASKS" "sched_dispatched s4 = int t" "ready_tasks s4 = ts"
    "tasks s4 = (tasks s1)(t := (tasks s1 t)\<lparr>t_ready_loc := None\<rparr>)" "sleep_q s4 = sleep_q s1"
    "get_time s4 = get_time s1" "world s4 = world s1" "t_state (tasks s4 t) = STATE_ACTIVE"
    using dispatch_runs_head [OF ok s1(1,2,3)] by metis
  have "same_code s s4"
    using s1(6) s4(6) by (simp add: same_code_def)
  moreover have "t_func (tasks s1 t) = t_func (tasks s t)" "t_arg (tasks s1 t) = t_arg (tasks s t)"
    using s1(6) by (simp_all add: same_code_def)
  moreover have "fst (sched_time s4) = fst (sched_time s)"
    using s1(7) s4(8,9) by (simp add: sched_time_fst)
  ultimately show ?thesis
    using s1 s4 by (intro exI [of _ s4]) (simp add: sleeping_tasks_def)
qed

text \<open>C2: A dispatch moves exactly the sleeping tasks that are due to the end of the ready queue
  and runs the task at its head, and only that one, with the function and argument of the task
  table: the task code sees its own identifier in \<open>sched_dispatched\<close>, is active and off the queue,
  no task has got another function, argument, identifier or wake time, and the dispatcher then only
  files the task according to its return value and state.  Conditions: the scheduler is in a state of
  the invariant (as all reachable ones are), some task is ready or due, and
  the clock is steady: reading it again within the dispatch gives the same time.\<close>

theorem dispatch_runs_next:
  assumes "sched_ok s" and "steady_clock s" and "ready_tasks s @ due_tasks s = t # ts"
  shows "\<exists>s4. sched_dispatch run s =
      map_option (\<lambda>(ret, s5). dispatch_finish t ret s5)
        (run (t_func (tasks s t)) (t_arg (tasks s t)) s4) \<and>
    sched_ok s4 \<and> t < MAX_NUM_TASKS \<and> sched_dispatched s4 = int t \<and>
    ready_tasks s4 = ts \<and> sleeping_tasks s4 = waiting_tasks s \<and>
    t_state (tasks s4 t) = STATE_ACTIVE \<and> t_ready_loc (tasks s4 t) = None \<and> same_code s s4"
  using dispatch_next [OF assms, of run] by blast

section \<open>Round robin\<close>

text \<open>Task code that does not touch the scheduler and never ends with an error.\<close>

definition pure_code ::
  "('f \<Rightarrow> 'b \<Rightarrow> ('f, 'b, 'w) sched \<Rightarrow> (ret_type \<times> ('f, 'b, 'w) sched) option) \<Rightarrow> bool" where
  "pure_code run \<longleftrightarrow> (\<forall>f b s. \<exists>ret w. run f b s = Some (ret, s\<lparr>world := w\<rparr>) \<and> ret \<noteq> RET_ERROR)"

fun dispatches ::
  "('f \<Rightarrow> 'b \<Rightarrow> ('f, 'b, 'w) sched \<Rightarrow> (ret_type \<times> ('f, 'b, 'w) sched) option) \<Rightarrow> nat \<Rightarrow>
   ('f, 'b, 'w) sched \<Rightarrow> ('f, 'b, 'w) sched option" where
  "dispatches run 0 s = Some s"
| "dispatches run (Suc n) s = (case sched_dispatch run s of None \<Rightarrow> None | Some s' \<Rightarrow> dispatches run n s')"

lemma sched_tasks_fields [simp]:
  "ready_tasks (s\<lparr>world := w\<rparr>) = ready_tasks s" "sleeping_tasks (s\<lparr>world := w\<rparr>) = sleeping_tasks s"
  "ready_tasks (s\<lparr>sched_dispatched := d\<rparr>) = ready_tasks s"
  "sleeping_tasks (s\<lparr>sched_dispatched := d\<rparr>) = sleeping_tasks s"
  by (simp_all add: ready_tasks_def sleeping_tasks_def)

lemma wakeup_none_sleeping: "sched_ok s \<Longrightarrow> sleeping_tasks s = [] \<Longrightarrow> sched_wakeup_tasks s = Some s"
  by (subst sched_wakeup_tasks.simps) (auto simp: sleeping_tasks_def sq_shared sched_ok_def aq.peek_law)

lemma dispatch_rotates:
  assumes ok: "sched_ok s" and run: "pure_code run" and nosl: "sleeping_tasks s = []"
  shows "\<exists>s'. sched_dispatch run s = Some s' \<and> sched_ok s' \<and> sleeping_tasks s' = [] \<and>
    ready_tasks s' = rotate1 (ready_tasks s)"
proof -
  note wk = wakeup_none_sleeping [OF ok nosl]
  show ?thesis
  proof (cases "ready_tasks s")
    case Nil
    then show ?thesis
      using dispatch_idle [OF ok wk ok Nil, of run] ok nosl by simp
  next
    case (Cons t ts)
    obtain s4 where s4: "sched_dispatch run s =
        map_option (\<lambda>(ret, s5). dispatch_finish t ret s5)
          (run (t_func (tasks s t)) (t_arg (tasks s t)) s4)"
      "sched_ok s4" "t < MAX_NUM_TASKS" "ready_tasks s4 = ts"
      "tasks s4 = (tasks s)(t := (tasks s t)\<lparr>t_ready_loc := None\<rparr>)" "sleep_q s4 = sleep_q s"
      "t_state (tasks s4 t) = STATE_ACTIVE"
      using dispatch_runs_head [OF ok wk ok Cons] by metis
    obtain ret w where r: "run (t_func (tasks s t)) (t_arg (tasks s t)) s4 = Some (ret, s4\<lparr>world := w\<rparr>)"
        "ret \<noteq> RET_ERROR"
      using run unfolding pure_code_def by blast
    let ?s5 = "s4\<lparr>world := w\<rparr>"
    have s5: "sched_ok ?s5" "t_ready_loc (tasks ?s5 t) = None" "t_state (tasks ?s5 t) = STATE_ACTIVE"
      using s4 by simp_all
    note fin = dispatch_finish_ok [OF s5(1) s4(3) s5(2), of ret]
    have "sched_dispatch run s = Some (dispatch_finish t ret ?s5)"
      using s4(1) r by simp
    moreover have "sleeping_tasks ?s5 = []"
      using s4(6) nosl by (simp add: sleeping_tasks_def)
    ultimately show ?thesis
      using fin r(2) s5(3) s4(4) Cons by simp
  qed
qed

lemma dispatches_rotate:
  "sched_ok s \<Longrightarrow> pure_code run \<Longrightarrow> sleeping_tasks s = [] \<Longrightarrow>
   \<exists>s'. dispatches run n s = Some s' \<and> sched_ok s' \<and> sleeping_tasks s' = [] \<and>
     ready_tasks s' = rotate n (ready_tasks s)"
proof (induction n arbitrary: s)
  case 0
  then show ?case by simp
next
  case (Suc n)
  obtain s1 where s1: "sched_dispatch run s = Some s1" "sched_ok s1" "sleeping_tasks s1 = []"
      "ready_tasks s1 = rotate1 (ready_tasks s)"
    using dispatch_rotates [OF Suc.prems] by blast
  from Suc.IH [OF this(2) Suc.prems(2) this(3)] s1 show ?case
    by (auto simp: rotate_add [of n 1, simplified, symmetric] rotate_Suc rotate1_rotate_swap)
qed

section \<open>Where the discipline breaks\<close>

text \<open>Task code that blocks itself and is woken, by an interrupt say, before it returns.\<close>

definition block_then_woken :: "'f \<Rightarrow> 'b \<Rightarrow> ('f, 'b, 'w) sched \<Rightarrow> (ret_type \<times> ('f, 'b, 'w) sched) option" where
  "block_then_woken f b s =
     (case sched_block (nat (sched_dispatched s)) s of
        None \<Rightarrow> None
      | Some s1 \<Rightarrow> map_option (\<lambda>s2. (RET_BLOCKED, s2)) (sched_wake (nat (sched_dispatched s)) s1))"

lemma block_off_queues:
  "t_ready_loc (tasks s t) = None \<Longrightarrow> t_sleep_loc (tasks s t) = None \<Longrightarrow>
   sched_block t s = Some (upd_task t (\<lambda>x. x\<lparr>t_state := STATE_BLOCKED\<rparr>) s)"
  by (simp add: sched_block_def)

lemma push_ready_again:
  assumes "sched_ok s" and "length (ready_tasks s) < MAX_NUM_TASKS"
  shows "ready_tasks (push_ready t s) = ready_tasks s @ [t]"
proof -
  have inv: "aq_inv MAX_NUM_TASKS (ready_q s)"
    using assms(1) by (auto simp: sched_ok_def)
  have "length (aq_elems (ready_q s)) < MAX_NUM_TASKS"
    using assms(2) by (simp add: ready_tasks_def)
  from aq.contents_push [OF inv this, of t] show ?thesis
    by (auto simp: push_ready_def ready_tasks_def aq.contents_def)
qed

lemma block_then_woken_requeues:
  assumes ok: "sched_ok s" and nosl: "sleeping_tasks s = []" and rd: "ready_tasks s = t # ts"
    and room: "length (t # ts) < MAX_NUM_TASKS"
  shows "\<exists>s'. sched_dispatch block_then_woken s = Some s' \<and> ready_tasks s' = ts @ [t, t]"
proof -
  obtain s4 where s4: "sched_dispatch block_then_woken s =
      map_option (\<lambda>(ret, s5). dispatch_finish t ret s5)
        (block_then_woken (t_func (tasks s t)) (t_arg (tasks s t)) s4)"
    "sched_ok s4" "t < MAX_NUM_TASKS" "sched_dispatched s4 = int t" "ready_tasks s4 = ts"
    "tasks s4 = (tasks s)(t := (tasks s t)\<lparr>t_ready_loc := None\<rparr>)" "t_state (tasks s4 t) = STATE_ACTIVE"
    using dispatch_runs_head [OF ok wakeup_none_sleeping [OF ok nosl] ok rd] by metis
  have locs: "t_ready_loc (tasks s4 t) = None" "t_sleep_loc (tasks s4 t) = None"
    using s4(6,7) sched_ok_task [OF s4(2,3)] by (auto simp: task_ok_def)
  let ?s5 = "upd_task t (\<lambda>x. x\<lparr>t_state := STATE_BLOCKED\<rparr>) s4"
  note blk = block_off_queues [OF locs]
  have ok5: "sched_ok ?s5"
    using sched_block_ok [OF s4(2,3)] s4(7) blk by auto
  have rd5: "ready_tasks ?s5 = ts"
    using s4(5) by (simp add: ready_tasks_def)
  obtain s6 where s6: "sched_wake t ?s5 = Some s6" "sched_ok s6" "ready_tasks s6 = ts @ [t]"
      "t_state (tasks s6 t) = STATE_ACTIVE"
    using sched_wake_ok [OF ok5 s4(3)] rd5 by auto
  have "sched_dispatch block_then_woken s = Some (dispatch_finish t RET_BLOCKED s6)"
    using s4(1,4) blk s6(1) by (simp add: block_then_woken_def)
  moreover have "ready_tasks (dispatch_finish t RET_BLOCKED s6) = ts @ [t, t]"
    using push_ready_again [OF s6(2), of t] room s6(3,4) by (simp add: dispatch_finish_def)
  ultimately show ?thesis
    by blast
qed

section \<open>Properties\<close>

lemma sleep_fits_one_other:
  assumes "sched_ok s" and "t < MAX_NUM_TASKS" and "t_state (tasks s t) \<noteq> STATE_UNALLOCATED" and "set (sleeping_tasks s) \<subseteq> {t, u}"
  shows "op_fits (OpSleep t time) s"
proof -
  have "v = u" if "v < MAX_NUM_TASKS" "v \<noteq> t" "t_state (tasks s v) = STATE_SLEEPING" for v
    using that assms(4) sched_ok_discipline [OF assms(1)] by (auto simp: discipline_def)
  then have "sleep_fits t w s" for w
    unfolding sleep_fits_def by (metis leI)
  then show ?thesis
    using assms(2,3) by simp
qed

text \<open>C1: In every state reachable from boot by the public operations of sched.h, called from
  outside or by the code of the task that is dispatched, no task is queued twice or on both queues,
  the ready queue holds active tasks only, the sleep queue holds exactly the sleeping tasks, and it
  is in the order of their wake times; and every call that fits returns (no null pointer is
  followed) and keeps this.  The task code is any choice of calls; what every call has to keep to is
  \<open>op_fits\<close>: the task exists, a task that goes to sleep wakes before or after all others that sleep,
  a running task is not woken after it has blocked itself (it would be queued twice), and a task does
  not end with an error while it is asleep.  The condition on sleeping is a real limit of the code: a wake
  time between two others breaks the order and the forward links of the queue, see \<open>sleep_queue_misorders\<close>.
  It is met by every sleep, whatever its time, while at most one other task is asleep.\<close>

theorem sched_reach_discipline:
  assumes "sched_reach (sched_script code) s"
  shows "discipline s \<and> (\<forall>x. op_fits x s \<longrightarrow> (\<exists>s'. do_op x s = Some s' \<and> discipline s')) \<and>
    (\<forall>t time u. t < MAX_NUM_TASKS \<and> t_state (tasks s t) \<noteq> STATE_UNALLOCATED \<and> set (sleeping_tasks s) \<subseteq> {t, u} \<longrightarrow>
       op_fits (OpSleep t time) s)"
  using sched_reach_ok [OF assms script_code_ok] do_op_ok [of s] sched_ok_discipline sleep_fits_one_other by blast

definition idle_code :: "'f \<Rightarrow> 'b \<Rightarrow> ('f, 'b, 'w) sched \<Rightarrow> (ret_type \<times> ('f, 'b, 'w) sched) option" where
  "idle_code f b s = Some (RET_SUCCESS, s)"

lemma idle_code_ok: "task_code_ok idle_code" "pure_code (idle_code :: 'f \<Rightarrow> 'b \<Rightarrow> ('f, 'b, 'w) sched \<Rightarrow> _)"
proof -
  have "\<exists>w. s = s\<lparr>world := w\<rparr>" for s :: "('f, 'b, 'w) sched"
    by (rule exI [of _ "world s"]) simp
  then show "task_code_ok idle_code" and "pure_code (idle_code :: 'f \<Rightarrow> 'b \<Rightarrow> ('f, 'b, 'w) sched \<Rightarrow> _)"
    by (auto simp: task_code_ok_def pure_code_def idle_code_def)
qed

text \<open>Task code that puts itself to sleep; its function is the number of ticks.\<close>

definition sleep_code ::
  "nat \<Rightarrow> 'b \<Rightarrow> (nat, 'b, 'w) sched \<Rightarrow> (nat, 'b, 'w) sched_op list \<times> ret_type" where
  "sleep_code f b s = ([OpSleep (nat (sched_dispatched s)) (of_nat f)], RET_SLEEP)"

lemma sched_sleep_frame:
  "sched_sleep t d s = Some s' \<Longrightarrow> t_ready_loc (tasks s t) = None \<Longrightarrow> t_sleep_loc (tasks s t) = None \<Longrightarrow>
   ready_q s' = ready_q s \<and> get_time s' = get_time s \<and> world s' = snd (get_time s (world s)) \<and>
   t_func (tasks s' t) = t_func (tasks s t)"
  by (auto simp: sched_sleep_def read_time_eq Let_def split: option.splits)

lemma sleep_code_dispatch:
  assumes ok: "sched_ok s" and clk: "steady_clock s" and rd: "ready_tasks s @ due_tasks s = t # ts"
    and fits: "\<forall>u\<in>set (waiting_tasks s). t_wake_time (tasks s u) < fst (sched_time s) + of_nat (t_func (tasks s t))"
  shows "\<exists>s'. sched_dispatch (sched_script sleep_code) s = Some s' \<and> sched_ok s' \<and>
    ready_tasks s' = ts \<and> set (sleeping_tasks s') = insert t (set (waiting_tasks s)) \<and>
    t_wake_time (tasks s' t) = fst (sched_time s) + of_nat (t_func (tasks s t)) \<and>
    (\<forall>u. u \<noteq> t \<longrightarrow> t_wake_time (tasks s' u) = t_wake_time (tasks s u)) \<and>
    (\<forall>u. t_func (tasks s' u) = t_func (tasks s u)) \<and>
    get_time s' = get_time s \<and> fst (sched_time s') = fst (sched_time s)"
proof -
  let ?d = "of_nat (t_func (tasks s t)) :: u32"
  obtain s4 where d: "sched_dispatch (sched_script sleep_code) s =
      map_option (\<lambda>(ret, s5). dispatch_finish t ret s5)
        (sched_script sleep_code (t_func (tasks s t)) (t_arg (tasks s t)) s4)"
    and s4: "sched_ok s4" "t < MAX_NUM_TASKS" "sched_dispatched s4 = int t" "ready_tasks s4 = ts"
      "sleeping_tasks s4 = waiting_tasks s" "t_state (tasks s4 t) = STATE_ACTIVE"
      "t_ready_loc (tasks s4 t) = None" "same_code s s4" "get_time s4 = get_time s"
      "fst (sched_time s4) = fst (sched_time s)"
    using dispatch_next [OF ok clk rd, of "sched_script sleep_code"] by (elim exE conjE)
  have al: "t_state (tasks s4 t) \<noteq> STATE_UNALLOCATED"
    using s4(6) by simp
  have sl: "t_sleep_loc (tasks s4 t) = None"
    using sched_ok_task [OF s4(1,2)] s4(6) by (auto simp: task_ok_def)
  have "\<forall>u\<in>set (sleeping_tasks s4). t_wake_time (tasks s4 u) < fst (sched_time s4) + ?d"
    using fits s4(5,8,10) by (simp add: same_code_def)
  then have fit: "sleep_fits t (fst (get_time s4 (world s4)) + ?d) s4"
    using sched_ok_sleeping(2) [OF s4(1)] by (auto simp: sleep_fits_def sched_time_fst)
  obtain s5 where s5: "sched_sleep t ?d s4 = Some s5" "sched_ok s5" "t_state (tasks s5 t) = STATE_SLEEPING"
      "t_wake_time (tasks s5 t) = fst (sched_time s4) + ?d" "\<forall>u. u \<noteq> t \<longrightarrow> tasks s5 u = tasks s4 u"
    using sched_sleep_ok [OF s4(1,2) al refl fit] by (auto simp: sched_time_fst)
  note fr = sched_sleep_frame [OF s5(1) s4(7) sl]
  have "sched_script sleep_code (t_func (tasks s t)) (t_arg (tasks s t)) s4 = Some (RET_SLEEP, s5)"
    using s4(2,3) al fit s5(1) by (simp add: sched_script_def sleep_code_def sched_time_fst)
  then have r: "sched_dispatch (sched_script sleep_code) s = Some (s5\<lparr>sched_dispatched := int MAX_NUM_TASKS\<rparr>)"
    using d s5(3) by (simp add: dispatch_finish_def)
  let ?s' = "s5\<lparr>sched_dispatched := int MAX_NUM_TASKS\<rparr>"
  have st: "t_state (tasks s5 u) = (if u = t then STATE_SLEEPING else t_state (tasks s4 u))" for u
    using s5(3,5) by simp
  have sl5: "set (sleeping_tasks s5) = insert t (set (waiting_tasks s))"
  proof (rule set_eqI)
    fix u
    show "u \<in> set (sleeping_tasks s5) \<longleftrightarrow> u \<in> insert t (set (waiting_tasks s))"
      using sched_ok_sleeping(2) [OF s5(2), of u] sched_ok_sleeping(2) [OF s4(1), of u] st [of u] s4(2,5) by auto
  qed
  have rd5: "ready_tasks s5 = ts"
    using s4(4) fr by (simp add: ready_tasks_def)
  have gt: "get_time s5 = get_time s" "fst (sched_time s5) = fst (sched_time s)"
    using fr s4(9,10) steady_clock_time [OF clk] by (simp_all add: sched_time_fst)
  have fn: "\<forall>u. t_func (tasks s5 u) = t_func (tasks s u)"
  proof
    fix u
    show "t_func (tasks s5 u) = t_func (tasks s u)"
      using fr s5(5) s4(8) by (cases "u = t") (simp_all add: same_code_def)
  qed
  have wt: "\<forall>u. u \<noteq> t \<longrightarrow> t_wake_time (tasks s5 u) = t_wake_time (tasks s u)"
    using s5(5) s4(8) by (simp add: same_code_def)
  show ?thesis
    using r s5(2,4) sl5 rd5 gt fn wt s4(10) by (intro exI [of _ ?s']) (simp add: sched_time_fst)
qed

text \<open>Two such tasks under a clock that shows the world.\<close>

definition two_tasks :: "nat \<Rightarrow> nat \<Rightarrow> (nat, unit, u32) sched" where
  "two_tasks f g =
     snd (sched_start g () (snd (sched_start f () (snd (sched_init (Some (\<lambda>w. (w, w))) (sched_boot 0 () 0))))))"

lemma two_tasks_reach: "sched_reach run (two_tasks f g)"
proof -
  have "sched_reach run (snd (sched_init (Some (\<lambda>w. (w, w))) (sched_boot 0 () 0)))"
    by (rule sched_reach_op [OF sched_reach.boot [of run 0 "()" 0], of "OpInit (\<lambda>w. (w, w))"]) simp_all
  from sched_reach_op [OF this, of "OpStart f ()", OF _ do_op.simps(2)]
  have "sched_reach run (snd (sched_start f () (snd (sched_init (Some (\<lambda>w. (w, w))) (sched_boot 0 () 0)))))"
    by simp
  from sched_reach_op [OF this, of "OpStart g ()", OF _ do_op.simps(2)] show ?thesis
    by (simp add: two_tasks_def)
qed

lemma start_world [simp]: "world (snd (sched_start f b s)) = world s"
  by (simp add: sched_start_def push_ready_def Let_def split: option.split prod.split)

lemma two_tasks_ex:
  "sched_ok (two_tasks f g)" "ready_tasks (two_tasks f g) = [0, 1]" "sleeping_tasks (two_tasks f g) = []"
  "t_func (tasks (two_tasks f g) 0) = f" "t_func (tasks (two_tasks f g) 1) = g"
  "get_time (two_tasks f g) = (\<lambda>w. (w, w))" "world (two_tasks f g) = 0"
proof -
  let ?s0 = "snd (sched_init (Some (\<lambda>w. (w, w))) (sched_boot (0 :: nat) () (0 :: u32)))"
  let ?s1 = "snd (sched_start f () ?s0)"
  have un: "t_state (tasks ?s0 u) = STATE_UNALLOCATED" for u
    by (simp add: sched_boot_def sched_init_def)
  have s0: "sched_ok ?s0" "ready_tasks ?s0 = []" "sleeping_tasks ?s0 = []"
    using do_op_ok [OF sched_boot_ok [of "0 :: nat" "()" "0 :: u32"], of "OpInit (\<lambda>w. (w, w))"]
    by (simp_all add: sched_init_def sched_boot_tasks [unfolded ready_tasks_def sleeping_tasks_def]
        ready_tasks_def sleeping_tasks_def)
  have s1: "sched_ok ?s1" "ready_tasks ?s1 = [0]" "sleeping_tasks ?s1 = []"
      "t_func (tasks ?s1 0) = f" "t_state (tasks ?s1 0) = STATE_ACTIVE" "\<forall>u. u \<noteq> 0 \<longrightarrow> tasks ?s1 u = tasks ?s0 u"
    using sched_start_Some [OF s0(1), of 0 f "()"] un s0 by (auto simp: MAX_NUM_TASKS_def)
  have lt: "t_state (tasks ?s1 1) = STATE_UNALLOCATED" "1 < MAX_NUM_TASKS"
    using s1(6) un by (simp_all add: MAX_NUM_TASKS_def)
  have "\<forall>u<1. t_state (tasks ?s1 u) \<noteq> STATE_UNALLOCATED"
    using s1(5) by simp
  from sched_start_Some [OF s1(1) lt(2,1) this, of g "()"]
  have s2: "sched_ok (two_tasks f g) \<and> ready_tasks (two_tasks f g) = ready_tasks ?s1 @ [1] \<and>
      sleeping_tasks (two_tasks f g) = sleeping_tasks ?s1 \<and>
      t_func (tasks (two_tasks f g) 1) = g \<and> (\<forall>u. u \<noteq> 1 \<longrightarrow> tasks (two_tasks f g) u = tasks ?s1 u)"
    by (auto simp: two_tasks_def)
  show "sched_ok (two_tasks f g)" "ready_tasks (two_tasks f g) = [0, 1]"
      "sleeping_tasks (two_tasks f g) = []"
      "t_func (tasks (two_tasks f g) 0) = f" "t_func (tasks (two_tasks f g) 1) = g"
    using s1 s2 by simp_all
  show "get_time (two_tasks f g) = (\<lambda>w. (w, w))" "world (two_tasks f g) = 0"
    by (simp_all add: two_tasks_def) (simp_all add: sched_init_def sched_boot_def)
qed

text \<open>One after the other the two go to sleep.\<close>

lemma both_sleep:
  assumes "(of_nat f :: u32) < of_nat g"
  shows "\<exists>s1 s2. sched_dispatch (sched_script sleep_code) (two_tasks f g) = Some s1 \<and>
    sched_ok s1 \<and> steady_clock s1 \<and> ready_tasks s1 = [1] \<and> sleeping_tasks s1 = [0] \<and>
    t_func (tasks s1 1) = g \<and> t_wake_time (tasks s1 0) = of_nat f \<and> fst (sched_time s1) = 0 \<and>
    (f \<noteq> 0 \<and> f < 2 ^ 32 \<longrightarrow> sched_dispatch (sched_script sleep_code) s1 = Some s2 \<and>
       sched_ok s2 \<and> ready_tasks s2 = [] \<and> set (sleeping_tasks s2) = {0, 1} \<and>
       t_wake_time (tasks s2 0) = of_nat f \<and> t_wake_time (tasks s2 1) = of_nat g)"
proof -
  let ?s = "two_tasks f g"
  note two = two_tasks_ex [of f g]
  have clk: "steady_clock ?s" and now: "fst (sched_time ?s) = 0"
    by (simp_all add: steady_clock_def two sched_time_fst)
  have "ready_tasks ?s @ due_tasks ?s = 0 # [1]" and w: "waiting_tasks ?s = []"
    by (simp_all add: two due_tasks_def waiting_tasks_def)
  from sleep_code_dispatch [OF two(1) clk this(1)] obtain s1 where
    s1: "sched_dispatch (sched_script sleep_code) ?s = Some s1" "sched_ok s1" "ready_tasks s1 = [1]"
      "set (sleeping_tasks s1) = {0}" "t_wake_time (tasks s1 0) = of_nat f"
      "\<forall>u. t_func (tasks s1 u) = t_func (tasks ?s u)" "get_time s1 = get_time ?s"
      "fst (sched_time s1) = 0"
    using w now two(4) by auto
  have "length (sleeping_tasks s1) = 1"
    using distinct_card [OF sched_ok_sleeping(1) [OF s1(2)]] s1(4) by simp
  then have sl1: "sleeping_tasks s1 = [0]"
    using s1(4) by (cases "sleeping_tasks s1") auto
  have clk1: "steady_clock s1"
    using clk s1(7) by (simp add: steady_clock_def)
  have f1: "t_func (tasks s1 1) = g"
    using s1(6) two(5) by simp
  have "\<exists>s2. f \<noteq> 0 \<and> f < 2 ^ 32 \<longrightarrow> sched_dispatch (sched_script sleep_code) s1 = Some s2 \<and>
       sched_ok s2 \<and> ready_tasks s2 = [] \<and> set (sleeping_tasks s2) = {0, 1} \<and>
       t_wake_time (tasks s2 0) = of_nat f \<and> t_wake_time (tasks s2 1) = of_nat g"
  proof (cases "f \<noteq> 0 \<and> f < 2 ^ 32")
    case True
    have "(of_nat f :: u32) \<noteq> 0"
      using True by (simp add: word_of_nat_eq_0_iff) (use True in \<open>auto dest: dvd_imp_le\<close>)
    then have nd: "due_tasks s1 = []" "waiting_tasks s1 = [0]"
      by (simp_all add: due_tasks_def waiting_tasks_def sl1 s1(5,8))
    have "ready_tasks s1 @ due_tasks s1 = 1 # []"
      by (simp add: nd s1(3))
    from sleep_code_dispatch [OF s1(2) clk1 this] obtain s2 where
      "sched_dispatch (sched_script sleep_code) s1 = Some s2" "sched_ok s2" "ready_tasks s2 = []"
      "set (sleeping_tasks s2) = {1, 0}" "t_wake_time (tasks s2 1) = of_nat g"
      "t_wake_time (tasks s2 0) = of_nat f"
      using nd assms s1(5,8) f1 by auto
    then show ?thesis
      by (intro exI [of _ s2]) auto
  next
    case False
    then show ?thesis by blast
  qed
  then show ?thesis
    using s1(1-3,5,8) sl1 clk1 f1 by blast
qed

text \<open>The function of the second task runs while the first sleeps; the first is due at once, so it
  is next.\<close>

definition mark_code :: "nat \<Rightarrow> 'b \<Rightarrow> (nat, 'b, u32) sched \<Rightarrow> (ret_type \<times> (nat, 'b, u32) sched) option" where
  "mark_code f b s = Some (RET_SUCCESS, s\<lparr>world := of_nat f\<rparr>)"

theorem dispatch_runs_next_witness:
  "\<exists>s s4. sleeping_tasks (s :: (nat, unit, u32) sched) = [0] \<and> ready_tasks s = [1] \<and>
    sched_dispatch mark_code s = Some (dispatch_finish 1 RET_SUCCESS (s4\<lparr>world := 8\<rparr>)) \<and>
    ready_tasks s4 = [0] \<and> sleeping_tasks s4 = []"
proof -
  obtain s :: "(nat, unit, u32) sched" where
    s: "sched_ok s" "steady_clock s" "ready_tasks s = [1]" "sleeping_tasks s = [0]" "t_func (tasks s 1) = 8" "t_wake_time (tasks s 0) = 0" "fst (sched_time s) = 0"
    using both_sleep [of 0 8] by auto
  have "ready_tasks s @ due_tasks s = 1 # [0]" and "waiting_tasks s = []"
    using s by (simp_all add: due_tasks_def waiting_tasks_def)
  with dispatch_runs_next [OF s(1,2) this(1), of mark_code] s(5) obtain s4 where
    "sched_dispatch mark_code s = Some (dispatch_finish 1 RET_SUCCESS (s4\<lparr>world := 8\<rparr>))"
    "ready_tasks s4 = [0]" "sleeping_tasks s4 = []"
    by (auto simp: mark_code_def)
  with s(3,4) show ?thesis
    by (intro exI [of _ s] exI [of _ s4] conjI)
qed

theorem sched_reach_discipline_witness:
  "\<exists>s. ready_tasks s = [] \<and> set (sleeping_tasks s) = {0, 1} \<and> t_wake_time (tasks s 0) = 5 \<and>
     t_wake_time (tasks s 1) = 9 \<and> discipline (s :: (nat, unit, u32) sched)"
proof -
  obtain s1 s2 where s: "sched_dispatch (sched_script sleep_code) (two_tasks 5 9) = Some s1"
      "sched_dispatch (sched_script sleep_code) s1 = Some s2"
      "ready_tasks s2 = []" "set (sleeping_tasks s2) = {0, 1}" "t_wake_time (tasks s2 0) = 5"
      "t_wake_time (tasks s2 1) = 9"
    using both_sleep [of 5 9] by auto
  have "sched_reach (sched_script sleep_code) s2"
    by (rule sched_reach_dispatch [OF sched_reach_dispatch [OF two_tasks_reach s(1)] s(2)])
  from sched_reach_discipline [OF this] s(3-6) show ?thesis
    by blast
qed

text \<open>In a reachable state, waking and blocking an allocated task return (no null pointer is
  followed while a task is unlinked from its queue), a woken task is the last of the ready queue and
  a blocked task is on no queue; no other task is touched.\<close>

theorem sched_wake_block_return:
  assumes "sched_reach run s" and "task_code_ok run" and "t < MAX_NUM_TASKS"
    and "t_state (tasks s t) = STATE_SLEEPING \<or> t_state (tasks s t) = STATE_BLOCKED"
  shows "(\<exists>s'. sched_wake t s = Some s' \<and> ready_tasks s' = ready_tasks s @ [t] \<and>
      t_state (tasks s' t) = STATE_ACTIVE \<and> (\<forall>u. u \<noteq> t \<longrightarrow> tasks s' u = tasks s u)) \<and>
    (\<exists>s'. sched_block t s = Some s' \<and> t \<notin> set (ready_tasks s') \<and> t \<notin> set (sleeping_tasks s') \<and>
      t_state (tasks s' t) = STATE_BLOCKED \<and> (\<forall>u. u \<noteq> t \<longrightarrow> tasks s' u = tasks s u))"
proof -
  have ok: "sched_ok s"
    using sched_reach_ok [OF assms(1,2)] .
  show ?thesis
    using sched_wake_ok [OF ok assms(3)] sched_block_ok [OF ok assms(3)] assms(4) by fastforce
qed

lemma one_task_blocked:
  "\<exists>s'. sched_block 0 (snd (sched_start f b (sched_boot f b w))) = Some s' \<and>
     t_state (tasks s' 0) = STATE_BLOCKED \<and>
     t_state (tasks (snd (sched_start f b (sched_boot f b w))) 0) = STATE_ACTIVE"
proof -
  let ?s = "snd (sched_start f b (sched_boot f b w))"
  have one: "sched_ok ?s" "ready_tasks ?s = [0]"
    using one_task_ex [of f b w] by (auto simp: one_task_def)
  then have "t_state (tasks ?s 0) = STATE_ACTIVE" and lt: "0 < MAX_NUM_TASKS"
    using sched_ok_ready(3) [of ?s 0] by (simp_all add: MAX_NUM_TASKS_def)
  then show ?thesis
    using sched_block_ok [OF one(1) lt] by auto
qed

theorem sched_wake_block_return_witness:
  "\<exists>s s'. t_state (tasks s 0) = STATE_BLOCKED \<and> sched_wake 0 (s :: (nat, unit, unit) sched) = Some s' \<and>
     ready_tasks s' = ready_tasks s @ [0]"
proof -
  let ?s = "snd (sched_start (0 :: nat) () (sched_boot 0 () ()))"
  obtain s where s: "sched_block 0 ?s = Some s" "t_state (tasks s 0) = STATE_BLOCKED"
      "t_state (tasks ?s 0) = STATE_ACTIVE"
    using one_task_blocked [of "0 :: nat" "()" "()"] by blast
  have r: "sched_reach idle_code ?s"
    by (rule start_reach)
  have "sched_reach idle_code s"
    by (rule sched_reach_op [OF r, of "OpBlock 0"]) (use s in \<open>simp_all add: MAX_NUM_TASKS_def\<close>)
  from sched_wake_block_return [OF this idle_code_ok(1), of 0] s(2) show ?thesis
    by (auto simp: MAX_NUM_TASKS_def)
qed

text \<open>A task is started in the first free slot of the task table: it gets that slot's identifier,
  the function and argument passed, and the last place of the ready queue; when no slot is free
  the result is -1 and nothing changes.\<close>

theorem sched_start_result:
  assumes "sched_ok s"
  shows "case sched_start f b s of (i, s') \<Rightarrow>
    (i = -1 \<and> s' = s \<and> (\<forall>t<MAX_NUM_TASKS. t_state (tasks s t) \<noteq> STATE_UNALLOCATED)) \<or>
    (\<exists>t<MAX_NUM_TASKS. i = int t \<and> t_state (tasks s t) = STATE_UNALLOCATED \<and>
       (\<forall>u<t. t_state (tasks s u) \<noteq> STATE_UNALLOCATED) \<and> ready_tasks s' = ready_tasks s @ [t] \<and>
       t_state (tasks s' t) = STATE_ACTIVE \<and> t_func (tasks s' t) = f \<and> t_arg (tasks s' t) = b \<and>
       (\<forall>u. u \<noteq> t \<longrightarrow> tasks s' u = tasks s u))"
proof (cases "find (\<lambda>i. t_state (tasks s i) = STATE_UNALLOCATED) [0..<MAX_NUM_TASKS]")
  case None
  then have "\<forall>t<MAX_NUM_TASKS. t_state (tasks s t) \<noteq> STATE_UNALLOCATED"
    by (auto simp: find_None_iff)
  then show ?thesis
    using sched_start_None by fastforce
next
  case (Some t)
  note fu = find_unallocated [OF Some]
  then show ?thesis
    using sched_start_Some [OF assms, of t f b] by fastforce
qed

theorem sched_start_result_witness:
  "\<exists>s'. sched_start (7 :: nat) True (sched_boot 0 False ()) = (0, s') \<and> t_func (tasks s' 0) = 7"
proof -
  have un: "t_state (tasks (sched_boot (0 :: nat) False ()) t) = STATE_UNALLOCATED" for t
    by (simp add: sched_boot_def)
  obtain i s' where r: "sched_start 7 True (sched_boot (0 :: nat) False ()) = (i, s')"
    by fastforce
  have "0 < MAX_NUM_TASKS"
    by (simp add: MAX_NUM_TASKS_def)
  with sched_start_result [where f = 7 and b = True, OF sched_boot_ok [of "0 :: nat" False "()"]] r un
  obtain t where "i = int t" "\<forall>u<t. t_state (tasks (sched_boot (0 :: nat) False ()) u) \<noteq> STATE_UNALLOCATED"
      "t_func (tasks s' t) = 7"
    by fastforce
  then have "i = 0 \<and> t_func (tasks s' 0) = 7"
    using un by (cases t) auto
  with r show ?thesis
    by simp
qed

text \<open>C3: Round robin: while no task sleeps and the task code neither fails nor touches the
  scheduler, \<open>n\<close> dispatches return and rotate the ready queue by \<open>n\<close>, so that every ready task
  runs once in each round.\<close>

theorem dispatch_round_robin:
  assumes "sched_ok s" and "pure_code run" and "sleeping_tasks s = []"
  shows "\<exists>s'. dispatches run n s = Some s' \<and> ready_tasks s' = rotate n (ready_tasks s)"
  using dispatches_rotate [OF assms] by blast

theorem dispatch_round_robin_witness:
  "\<exists>s'. dispatches idle_code 5 (snd (sched_start (0 :: nat) () (sched_boot 0 () ()))) = Some s' \<and>
     ready_tasks s' = [0]"
proof -
  let ?s = "snd (sched_start (0 :: nat) () (sched_boot 0 () ()))"
  have "sched_ok ?s" "sleeping_tasks ?s = []" "ready_tasks ?s = [0]"
    using one_task_ex [of "0 :: nat" "()" "()"] by (auto simp: one_task_def)
  from dispatch_round_robin [OF this(1) idle_code_ok(2) this(2), of 5] this(3) show ?thesis
    by simp
qed

text \<open>C29: The discipline does not survive a task that blocks itself and is woken (by an interrupt)
  before its code returns: the wake-up and the dispatcher both put it on the ready queue, and it is
  there twice.\<close>

theorem woken_while_running_queued_twice:
  assumes "sched_ok s" and "sleeping_tasks s = []" and "ready_tasks s = t # ts"
    and "length (t # ts) < MAX_NUM_TASKS"
  shows "\<exists>s'. sched_dispatch block_then_woken s = Some s' \<and> ready_tasks s' = ts @ [t, t]"
  using block_then_woken_requeues [OF assms] .

theorem woken_while_running_queued_twice_witness:
  "\<exists>s'. sched_dispatch block_then_woken (snd (sched_start (0 :: nat) () (sched_boot 0 () ()))) = Some s' \<and>
     ready_tasks s' = [0, 0]"
proof -
  let ?s = "snd (sched_start (0 :: nat) () (sched_boot 0 () ()))"
  have "sched_ok ?s" "sleeping_tasks ?s = []" "ready_tasks ?s = [0]"
    using one_task_ex [of "0 :: nat" "()" "()"] by (auto simp: one_task_def)
  from woken_while_running_queued_twice [OF this] show ?thesis
    by (simp add: MAX_NUM_TASKS_def)
qed

lemmas pop_all_numeral = pop_all.simps(2) [of "pred_numeral k" for k, folded numeral_eq_Suc]

text \<open>The sleep queue is not kept in wake order in general: four tasks that go to sleep with wake
  times 10, 5, 7 and 8, in this order, leave the sorted queue in the order 5, 8, 7, 10 (the forward
  link into a node inserted in the middle is never set).\<close>

theorem sleep_queue_misorders:
  "map_option (\<lambda>(h, q). map (\<lambda>t. [10, 5, 7, 8 :: u32] ! t) (pop_all 4 h q))
     (sorted_push_all
        (sleep_sort (\<lambda>t. \<lparr>t_state = STATE_SLEEPING, t_func = (), t_arg = (), t_tid = int t,
           t_wake_time = [10, 5, 7, 8] ! t, t_ready_loc = None, t_sleep_loc = None\<rparr>))
        [0, 1, 2, 3] (example_heap [0, 1, 2, 3]) empty_queue)
   = Some [5, 8, 7, 10]"
  by (simp add: pop_all_numeral sorted_push_node_def find_pos.simps empty_queue_def pop_node_def
      set_prev_def set_next_def example_heap_def sleep_sort_def)

section \<open>Starting several tasks\<close>

definition free_slots :: "('f, 'b, 'w) sched \<Rightarrow> nat set" where
  "free_slots s = {t. t < MAX_NUM_TASKS \<and> t_state (tasks s t) = STATE_UNALLOCATED}"

definition start_all :: "('f \<times> 'b) list \<Rightarrow> ('f, 'b, 'w) sched \<Rightarrow> ('f, 'b, 'w) sched" where
  "start_all = fold (\<lambda>(f, b) s. snd (sched_start f b s))"

lemma start_all_simps [simp]:
  "start_all [] s = s" "start_all (x # xs) s = start_all xs (snd (sched_start (fst x) (snd x) s))"
  by (simp_all add: start_all_def split_beta)

lemma start_one:
  assumes ok: "sched_ok s" and free: "free_slots s \<noteq> {}"
  shows "\<exists>t s'. sched_start f b s = (int t, s') \<and> sched_ok s' \<and> t \<in> free_slots s \<and> ready_tasks s' = ready_tasks s @ [t] \<and>
    sleeping_tasks s' = sleeping_tasks s \<and>
    t_state (tasks s' t) = STATE_ACTIVE \<and> t_func (tasks s' t) = f \<and> t_arg (tasks s' t) = b \<and>
    (\<forall>u. u \<noteq> t \<longrightarrow> tasks s' u = tasks s u) \<and> free_slots s' = free_slots s - {t}"
proof -
  obtain t0 where "t0 \<in> free_slots s"
    using free by blast
  then obtain t where t: "t \<in> free_slots s" and l: "\<And>u. u \<in> free_slots s \<Longrightarrow> t \<le> u"
    using LeastI [of "\<lambda>t. t \<in> free_slots s"] Least_le [of "\<lambda>t. t \<in> free_slots s"] by blast
  have t': "t < MAX_NUM_TASKS" "t_state (tasks s t) = STATE_UNALLOCATED"
    using t unfolding free_slots_def by blast+
  have least: "\<forall>u<t. t_state (tasks s u) \<noteq> STATE_UNALLOCATED"
  proof (intro allI impI notI)
    fix u assume "u < t" "t_state (tasks s u) = STATE_UNALLOCATED"
    then have "u \<in> free_slots s"
      using t'(1) by (simp add: free_slots_def)
    with l \<open>u < t\<close> show False by fastforce
  qed
  obtain s' where s': "sched_start f b s = (int t, s')" "sched_ok s'" "ready_tasks s' = ready_tasks s @ [t]"
      "sleeping_tasks s' = sleeping_tasks s"
      "t_state (tasks s' t) = STATE_ACTIVE" "t_func (tasks s' t) = f" "t_arg (tasks s' t) = b"
      "\<forall>u. u \<noteq> t \<longrightarrow> tasks s' u = tasks s u"
    using sched_start_Some [OF ok t' least, of f b] by (elim exE conjE)
  have "free_slots s' = free_slots s - {t}"
  proof (rule set_eqI)
    fix u show "u \<in> free_slots s' \<longleftrightarrow> u \<in> free_slots s - {t}"
      using s'(5) s'(8) [rule_format, of u] by (cases "u = t") (simp_all add: free_slots_def)
  qed
  then show ?thesis
    using s' t by (intro exI [of _ t] exI [of _ s'] conjI)
qed

text \<open>With enough free slots every task of a list gets its own, in order behind the ready ones.\<close>

lemma start_all_ready:
  "sched_ok s \<Longrightarrow> length fs \<le> card (free_slots s) \<Longrightarrow>
   \<exists>ts. sched_ok (start_all fs s) \<and> ready_tasks (start_all fs s) = ready_tasks s @ ts \<and>
     map (\<lambda>t. (t_func (tasks (start_all fs s) t), t_arg (tasks (start_all fs s) t))) ts = fs \<and>
     set ts \<subseteq> free_slots s \<and> distinct ts \<and> (\<forall>u. u \<notin> set ts \<longrightarrow> tasks (start_all fs s) u = tasks s u)"
proof (induction fs arbitrary: s)
  case Nil
  then show ?case by simp
next
  case (Cons x xs)
  have fin: "finite (free_slots s)"
    by (simp add: free_slots_def)
  have "free_slots s \<noteq> {}"
    using Cons.prems(2) by auto
  from start_one [OF Cons.prems(1) this, of "fst x" "snd x"] obtain t s' where t: "sched_start (fst x) (snd x) s = (int t, s')" "sched_ok s'"
      "t \<in> free_slots s" "ready_tasks s' = ready_tasks s @ [t]" "t_func (tasks s' t) = fst x" "t_arg (tasks s' t) = snd x"
      "\<forall>u. u \<noteq> t \<longrightarrow> tasks s' u = tasks s u" "free_slots s' = free_slots s - {t}"
    by (elim exE conjE)
  have "length xs \<le> card (free_slots s')"
    using Cons.prems(2) t(3,8) fin by (simp add: card_Diff_singleton)
  from Cons.IH [OF t(2) this] obtain ts where ts: "sched_ok (start_all xs s')" "ready_tasks (start_all xs s') = ready_tasks s' @ ts"
      "map (\<lambda>t. (t_func (tasks (start_all xs s') t), t_arg (tasks (start_all xs s') t))) ts = xs"
      "set ts \<subseteq> free_slots s'" "distinct ts" "\<forall>u. u \<notin> set ts \<longrightarrow> tasks (start_all xs s') u = tasks s' u"
    by (elim exE conjE)
  have "t \<notin> set ts"
    using ts(4) t(8) by blast
  then have "tasks (start_all xs s') t = tasks s' t"
    using ts(6) by blast
  with ts t \<open>t \<notin> set ts\<close> show ?case
    by (intro exI [of _ "t # ts"]) auto
qed

end
