(* ===== verification/RingBufferModel.thy ===== *)
theory RingBufferModel
  imports Prelude
begin

text \<open>
  The byte ring buffer of src/ringbuffer/RingBuffer.h.  The members keep their 32 bit arithmetic;
  \<open>rb_buff\<close> is the storage.  \<open>rb_content\<close> reads the stored bytes from the head, and
  the laws of the byte queue are stated over it.
\<close>

section \<open>State and operations\<close>

record ringbuffer =
  rb_head :: size_t
  rb_tail :: size_t
  rb_len :: size_t
  rb_size :: size_t
  rb_buff :: "u8 list"
  rb_overwrite :: bool

definition rb_init :: "u8 list \<Rightarrow> size_t \<Rightarrow> bool \<Rightarrow> ringbuffer" where
  "rb_init buff n overwrite =
     \<lparr>rb_head = 0, rb_tail = 0, rb_len = 0, rb_size = n, rb_buff = buff, rb_overwrite = overwrite\<rparr>"

text \<open>The copy loop of \<open>push\<close>: the next \<open>k\<close> bytes from position \<open>i\<close> of the source.\<close>

fun rb_put :: "u8 list \<Rightarrow> nat \<Rightarrow> nat \<Rightarrow> ringbuffer \<Rightarrow> ringbuffer" where
  "rb_put buff i 0 b = b"
| "rb_put buff i (Suc k) b =
     rb_put buff (Suc i) k
       (b\<lparr>rb_buff := (rb_buff b)[unat (rb_tail b) := buff ! i],
          rb_tail := (rb_tail b + 1) mod rb_size b\<rparr>)"

definition rb_push :: "u8 list \<Rightarrow> size_t \<Rightarrow> ringbuffer \<Rightarrow> size_t \<times> ringbuffer" where
  "rb_push buff len b =
     (let (len', b') =
        (if rb_len b + len > rb_size b then
           (if rb_overwrite b
            then (len, b\<lparr>rb_head := (len + rb_tail b) mod rb_size b\<rparr>)
            else (let len' = rb_size b - rb_len b in (len', b\<lparr>rb_len := rb_len b + len'\<rparr>)))
         else (len, b\<lparr>rb_len := rb_len b + len\<rparr>))
      in (len', rb_put buff 0 (unat len') b'))"

text \<open>The template overload: an object is its bytes.\<close>

definition rb_push_obj :: "u8 list \<Rightarrow> ringbuffer \<Rightarrow> ret_type \<times> ringbuffer" where
  "rb_push_obj obj b =
     (case rb_push obj (of_nat (length obj)) b of
        (n, b') \<Rightarrow> (if of_nat (length obj) \<noteq> n then RET_ERROR else RET_SUCCESS, b'))"

fun rb_get :: "nat \<Rightarrow> ringbuffer \<Rightarrow> u8 list \<times> ringbuffer" where
  "rb_get 0 b = ([], b)"
| "rb_get (Suc k) b =
     (let x = rb_buff b ! unat (rb_head b);
          b1 = b\<lparr>rb_head := (rb_head b + 1) mod rb_size b\<rparr>
      in if rb_head b1 = rb_tail b1 then ([x], b1)
         else (case rb_get k b1 of (xs, b2) \<Rightarrow> (x # xs, b2)))"

definition rb_pop :: "size_t \<Rightarrow> ringbuffer \<Rightarrow> u8 list \<times> ringbuffer" where
  "rb_pop len b =
     (case rb_get (unat len) b of
        (xs, b') \<Rightarrow> (xs, b'\<lparr>rb_len := rb_len b' - of_nat (length xs)\<rparr>))"

definition rb_pop_obj :: "nat \<Rightarrow> ringbuffer \<Rightarrow> ret_type \<times> u8 list \<times> ringbuffer" where
  "rb_pop_obj n b =
     (case rb_pop (of_nat n) b of
        (xs, b') \<Rightarrow> (if n \<noteq> length xs then RET_ERROR else RET_SUCCESS, xs, b'))"

definition rb_count :: "ringbuffer \<Rightarrow> size_t" where
  "rb_count b = rb_len b"

definition rb_capacity :: "ringbuffer \<Rightarrow> size_t" where
  "rb_capacity b = rb_size b"

section \<open>Invariant and contents\<close>

definition rb_inv :: "ringbuffer \<Rightarrow> bool" where
  "rb_inv b \<longleftrightarrow>
     0 < unat (rb_size b) \<and> length (rb_buff b) = unat (rb_size b) \<and>
     unat (rb_head b) < unat (rb_size b) \<and> unat (rb_len b) \<le> unat (rb_size b) \<and>
     unat (rb_tail b) = (unat (rb_head b) + unat (rb_len b)) mod unat (rb_size b)"

definition rb_at :: "ringbuffer \<Rightarrow> nat \<Rightarrow> u8" where
  "rb_at b i = rb_buff b ! ((unat (rb_head b) + i) mod unat (rb_size b))"

definition rb_content :: "ringbuffer \<Rightarrow> u8 list" where
  "rb_content b = map (rb_at b) [0..<unat (rb_len b)]"

lemma rb_content_length [simp]: "length (rb_content b) = unat (rb_len b)"
  by (simp add: rb_content_def)

lemma unat_next_mod:
  fixes w n :: "32 word"
  assumes "unat w < unat n"
  shows "unat ((w + 1) mod n) = (unat w + 1) mod unat n"
proof -
  have "unat w + 1 < 2 ^ 32"
    using assms unsigned_less [of n, where 'a = nat] by simp
  then have "unat (w + 1) = unat w + 1"
    by (simp add: unat_word_ariths)
  then show ?thesis
    by (simp add: unat_mod_distrib)
qed

lemma mod_shift_inj:
  fixes h i j s :: nat
  assumes "i < s" and "j < s" and "(h + i) mod s = (h + j) mod s"
  shows "i = j"
proof (cases "i \<le> j")
  case True
  then have "s dvd j - i"
    using assms(3) mod_eq_dvd_iff_nat [of "h + i" "h + j" s] by simp
  moreover have "j - i < s"
    using assms by simp
  ultimately have "j - i = 0"
    using nat_dvd_not_less by blast
  then show ?thesis
    using True by simp
next
  case False
  then have "s dvd i - j"
    using assms(3) mod_eq_dvd_iff_nat [of "h + j" "h + i" s] by simp
  moreover have "i - j < s"
    using assms by simp
  ultimately have "i - j = 0"
    using nat_dvd_not_less by blast
  then show ?thesis
    using False by simp
qed

text \<open>One byte in, one byte out.\<close>

lemma rb_put_one:
  assumes inv: "rb_inv b" and room: "unat (rb_len b) < unat (rb_size b)"
    and b': "b' = b\<lparr>rb_buff := (rb_buff b)[unat (rb_tail b) := x],
                  rb_tail := (rb_tail b + 1) mod rb_size b, rb_len := rb_len b + 1\<rparr>"
  shows "rb_inv b'" and "rb_content b' = rb_content b @ [x]" and "unat (rb_len b') = unat (rb_len b) + 1"
proof -
  let ?s = "unat (rb_size b)" and ?h = "unat (rb_head b)" and ?n = "unat (rb_len b)"
  have t: "unat (rb_tail b) = (?h + ?n) mod ?s" "unat (rb_tail b) < ?s" and s: "0 < ?s"
    using inv by (auto simp: rb_inv_def)
  have "?n + 1 < 2 ^ 32"
    using room unsigned_less [of "rb_size b", where 'a = nat] by simp
  then show len: "unat (rb_len b') = ?n + 1"
    by (simp add: b' unat_word_ariths)
  show "rb_inv b'"
    using inv room len t(1) unat_next_mod [OF t(2)] by (simp add: rb_inv_def b' mod_Suc_eq)
  have "rb_at b' i = rb_at b i" if "i < ?n" for i
  proof -
    have "(?h + i) mod ?s \<noteq> unat (rb_tail b)"
      using that mod_shift_inj [of i ?s ?n ?h] room t by auto
    then show ?thesis
      by (simp add: rb_at_def b')
  qed
  moreover have "rb_at b' ?n = x"
    using inv t by (simp add: rb_at_def b' rb_inv_def)
  ultimately show "rb_content b' = rb_content b @ [x]"
    by (simp add: rb_content_def len)
qed

lemma rb_get_one:
  assumes inv: "rb_inv b" and ne: "0 < unat (rb_len b)"
    and b': "b' = b\<lparr>rb_head := (rb_head b + 1) mod rb_size b, rb_len := rb_len b - 1\<rparr>"
  shows "rb_inv b'" and "rb_content b = rb_buff b ! unat (rb_head b) # rb_content b'"
    and "unat (rb_len b') = unat (rb_len b) - 1" and "rb_head b' = rb_tail b' \<longleftrightarrow> rb_len b' = 0"
proof -
  let ?s = "unat (rb_size b)" and ?h = "unat (rb_head b)" and ?n = "unat (rb_len b)"
  have h: "?h < ?s" and n: "?n \<le> ?s" and t: "unat (rb_tail b) = (?h + ?n) mod ?s"
    using inv by (auto simp: rb_inv_def)
  show len: "unat (rb_len b') = ?n - 1"
    using ne unat_minus_one [of "rb_len b"] by (auto simp: b' unat_gt_0)
  have hd': "unat (rb_head b') = Suc ?h mod ?s"
    using unat_next_mod [OF h] by (simp add: b')
  have tl': "unat (rb_tail b') = (Suc ?h mod ?s + (?n - 1)) mod ?s"
    using t ne by (cases ?n) (simp_all add: b' mod_simps)
  show inv': "rb_inv b'"
    using inv len hd' tl' h by (simp add: rb_inv_def b' le_diff_conv)
  have "(Suc ?h mod ?s + i) mod ?s = (?h + Suc i) mod ?s" for i
    by (simp add: mod_add_left_eq)
  then have at: "rb_at b' i = rb_at b (Suc i)" for i
    unfolding rb_at_def hd' by (simp add: b')
  have "[0..<?n] = 0 # map Suc [0..<?n - 1]"
    using ne by (simp add: map_Suc_upt upt_conv_Cons)
  then have "rb_content b = rb_at b 0 # map (rb_at b \<circ> Suc) [0..<?n - 1]"
    by (simp add: rb_content_def)
  moreover have "rb_at b 0 = rb_buff b ! unat (rb_head b)"
    using h by (simp add: rb_at_def)
  ultimately show "rb_content b = rb_buff b ! unat (rb_head b) # rb_content b'"
    by (simp add: rb_content_def len at comp_def)
  have s': "rb_size b' = rb_size b"
    by (simp add: b')
  have "rb_head b' = rb_tail b' \<longleftrightarrow> unat (rb_head b') + 0 = unat (rb_tail b')"
    by (simp add: word_unat_eq_iff)
  also have "\<dots> \<longleftrightarrow> (unat (rb_head b') + 0) mod ?s = (unat (rb_head b') + (?n - 1)) mod ?s"
    using tl' hd' h by (simp add: mod_simps)
  also have "\<dots> \<longleftrightarrow> ?n - 1 = 0"
  proof -
    define m where "m = ?n - 1"
    have "m < ?s"
      using n ne unfolding m_def by linarith
    then show ?thesis
      unfolding m_def [symmetric] using mod_shift_inj [of 0 ?s m "unat (rb_head b')"] h by auto
  qed
  finally show "rb_head b' = rb_tail b' \<longleftrightarrow> rb_len b' = 0"
    using len by (simp add: word_unat_eq_iff)
qed

lemma rb_init_inv: "0 < n \<Longrightarrow> length buff = unat n \<Longrightarrow> rb_inv (rb_init buff n ov)"
  and rb_init_content: "rb_content (rb_init buff n ov) = []"
  by (auto simp: rb_inv_def rb_init_def rb_content_def word_less_nat_alt)

text \<open>The loops: \<open>k\<close> bytes.  The length is adjusted before the first and after the second.\<close>

lemma rb_len_out [simp]:
  "rb_buff_update f (rb_len_update g b) = rb_len_update g (rb_buff_update f b)"
  "rb_tail_update h (rb_len_update g b) = rb_len_update g (rb_tail_update h b)"
  "rb_head_update h (rb_len_update g b) = rb_len_update g (rb_head_update h b)"
  by simp_all

lemma rb_put_len: "rb_put buff i k (b\<lparr>rb_len := l\<rparr>) = (rb_put buff i k b)\<lparr>rb_len := l\<rparr>"
  by (induction k arbitrary: i b) simp_all

lemma rb_put_fields [simp]:
  "rb_len (rb_put buff i k b) = rb_len b" "rb_size (rb_put buff i k b) = rb_size b"
  "rb_head (rb_put buff i k b) = rb_head b" "rb_overwrite (rb_put buff i k b) = rb_overwrite b"
  by (induction buff i k b rule: rb_put.induct) simp_all

lemma rb_put_content:
  "rb_inv b \<Longrightarrow> unat (rb_len b) + k \<le> unat (rb_size b) \<Longrightarrow>
   rb_inv (rb_put buff i k (b\<lparr>rb_len := rb_len b + of_nat k\<rparr>)) \<and>
   rb_content (rb_put buff i k (b\<lparr>rb_len := rb_len b + of_nat k\<rparr>)) = rb_content b @ map ((!) buff) [i..<i + k]"
proof (induction k arbitrary: i b)
  case 0
  then show ?case by simp
next
  case (Suc k)
  define b' where "b' = b\<lparr>rb_buff := (rb_buff b)[unat (rb_tail b) := buff ! i],
                  rb_tail := (rb_tail b + 1) mod rb_size b, rb_len := rb_len b + 1\<rparr>"
  have room: "unat (rb_len b) < unat (rb_size b)"
    using Suc.prems by simp
  note one = rb_put_one [OF Suc.prems(1) room b'_def]
  have e: "rb_put buff i (Suc k) (b\<lparr>rb_len := rb_len b + of_nat (Suc k)\<rparr>) =
      rb_put buff (Suc i) k (b'\<lparr>rb_len := rb_len b' + of_nat k\<rparr>)"
    by (simp add: b'_def ac_simps)
  have u: "[i..<i + Suc k] = i # [Suc i..<Suc i + k]"
    by (simp add: upt_conv_Cons)
  have "unat (rb_len b') + k \<le> unat (rb_size b')"
    using one(3) Suc.prems(2) by (simp add: b'_def)
  from Suc.IH [OF one(1) this, of "Suc i"] show ?case
    unfolding e u using one(2) by simp
qed

lemma rb_get_len:
  "rb_get k (b\<lparr>rb_len := l\<rparr>) = (case rb_get k b of (xs, b') \<Rightarrow> (xs, b'\<lparr>rb_len := l\<rparr>))"
  by (induction k arbitrary: b) (simp_all add: Let_def split: prod.split)

lemma rb_get_content:
  "rb_inv b \<Longrightarrow> 0 < unat (rb_len b) \<Longrightarrow> rb_get k b = (xs, b') \<Longrightarrow>
   xs = take k (rb_content b) \<and> rb_inv (b'\<lparr>rb_len := rb_len b - of_nat (length xs)\<rparr>) \<and>
   rb_content (b'\<lparr>rb_len := rb_len b - of_nat (length xs)\<rparr>) = drop k (rb_content b) \<and> rb_len b' = rb_len b"
proof (induction k arbitrary: b xs b')
  case 0
  then show ?case by simp
next
  case (Suc k)
  define b1 where "b1 = b\<lparr>rb_head := (rb_head b + 1) mod rb_size b, rb_len := rb_len b - 1\<rparr>"
  note one = rb_get_one [OF Suc.prems(1,2) b1_def]
  have e: "b\<lparr>rb_head := (rb_head b + 1) mod rb_size b\<rparr> = b1\<lparr>rb_len := rb_len b\<rparr>"
    by (simp add: b1_def)
  show ?case
  proof (cases "rb_len b1 = 0")
    case True
    then have "xs = [rb_buff b ! unat (rb_head b)]" "b' = b1\<lparr>rb_len := rb_len b\<rparr>"
      using Suc.prems(3) one(4) by (auto simp: Let_def e)
    moreover have "rb_content b1 = []"
      using True by (simp add: rb_content_def)
    ultimately show ?thesis
      using one(1,2) True by (simp add: b1_def)
  next
    case False
    obtain ys b2 where g: "rb_get k b1 = (ys, b2)"
      by fastforce
    have xs: "xs = rb_buff b ! unat (rb_head b) # ys" and b': "b' = b2\<lparr>rb_len := rb_len b\<rparr>"
      using Suc.prems(3) one(4) False by (auto simp: Let_def e rb_get_len g)
    from Suc.IH [OF one(1) _ g] False have ih: "ys = take k (rb_content b1)"
        "rb_inv (b2\<lparr>rb_len := rb_len b1 - of_nat (length ys)\<rparr>)"
        "rb_content (b2\<lparr>rb_len := rb_len b1 - of_nat (length ys)\<rparr>) = drop k (rb_content b1)"
      unfolding unat_gt_0 by blast+
    have fin: "b'\<lparr>rb_len := rb_len b - of_nat (length xs)\<rparr> = b2\<lparr>rb_len := rb_len b1 - of_nat (length ys)\<rparr>"
      unfolding b' xs by (simp add: b1_def)
    show ?thesis
      unfolding fin using ih one(2) xs b' by simp
  qed
qed

section \<open>The byte queue\<close>

lemma map_nth_upt_take: "n \<le> length xs \<Longrightarrow> map ((!) xs) [0..<n] = take n xs"
  by (simp add: list_eq_iff_nth_eq)

text \<open>Pushing without overwriting stores as many bytes as fit.\<close>

lemma rb_push_content:
  assumes inv: "rb_inv b" and no: "\<not> rb_overwrite b \<or> unat (rb_len b) + unat len \<le> unat (rb_size b)"
    and fits: "unat (rb_len b) + unat len < 2 ^ 32" and src: "unat len \<le> length buff"
    and r: "rb_push buff len b = (n, b')"
  shows "unat n = min (unat len) (unat (rb_size b) - unat (rb_len b))" and "rb_inv b'"
    and "rb_content b' = rb_content b @ take (unat n) buff" and "rb_overwrite b' = rb_overwrite b"
    and "rb_size b' = rb_size b"
proof -
  have le: "unat (rb_len b) \<le> unat (rb_size b)"
    using inv by (simp add: rb_inv_def)
  have sum: "unat (rb_len b + len) = unat (rb_len b) + unat len"
    using fits by (simp add: unat_word_ariths)
  then have cmp: "rb_len b + len > rb_size b \<longleftrightarrow> unat (rb_size b) < unat (rb_len b) + unat len"
    by (simp add: word_less_nat_alt)
  have diff: "unat (rb_size b - rb_len b) = unat (rb_size b) - unat (rb_len b)"
    using le by (simp add: unat_sub word_le_nat_alt)
  let ?n = "if rb_len b + len > rb_size b then rb_size b - rb_len b else len"
  have e: "n = ?n" "b' = rb_put buff 0 (unat ?n) (b\<lparr>rb_len := rb_len b + ?n\<rparr>)"
    using r no cmp by (auto simp: rb_push_def Let_def split: if_splits)
  show n: "unat n = min (unat len) (unat (rb_size b) - unat (rb_len b))"
    using e(1) cmp diff by auto
  have "unat (rb_len b) + unat n \<le> unat (rb_size b)"
    using n le by auto
  from rb_put_content [OF inv this, of buff 0] e(2) [folded e(1)]
  have "rb_inv b' \<and> rb_content b' = rb_content b @ map ((!) buff) [0..<unat n]"
    by simp
  moreover have "map ((!) buff) [0..<unat n] = take (unat n) buff"
    by (rule map_nth_upt_take) (use n src in simp)
  ultimately show "rb_inv b'" and "rb_content b' = rb_content b @ take (unat n) buff"
    by simp_all
  show "rb_overwrite b' = rb_overwrite b" and "rb_size b' = rb_size b"
    using e(2) by simp_all
qed

lemma rb_pop_content:
  assumes inv: "rb_inv b" and ne: "rb_content b \<noteq> []" and r: "rb_pop len b = (xs, b')"
  shows "xs = take (unat len) (rb_content b)" and "rb_inv b'" and "rb_content b' = drop (unat len) (rb_content b)"
proof -
  obtain b1 where g: "rb_get (unat len) b = (xs, b1)" and b': "b' = b1\<lparr>rb_len := rb_len b1 - of_nat (length xs)\<rparr>"
    using r by (auto simp: rb_pop_def split: prod.splits)
  have "0 < unat (rb_len b)"
    using ne by (simp add: rb_content_def)
  from rb_get_content [OF inv this g] b'
  show "xs = take (unat len) (rb_content b)" and "rb_inv b'" and "rb_content b' = drop (unat len) (rb_content b)"
    by auto
qed

section \<open>Properties\<close>

text \<open>An empty buffer is popped as if it were full, and its count wraps around: the head has to
  come round to the tail once.\<close>

lemma rb_pop_empty:
  assumes inv: "rb_inv b" and e: "rb_content b = []" and r: "rb_pop m b = (xs, b')"
  shows "xs = take (unat m) (rb_content (b\<lparr>rb_len := rb_size b\<rparr>))"
    and "length xs = min (unat m) (unat (rb_size b))" and "rb_len b' = - of_nat (length xs)"
proof -
  let ?b = "b\<lparr>rb_len := rb_size b\<rparr>"
  have z: "rb_len b = 0"
    using e by (simp add: rb_content_def unat_eq_0)
  have full: "rb_inv ?b" "0 < unat (rb_len ?b)"
    using inv z by (auto simp: rb_inv_def)
  obtain b1 where g: "rb_get (unat m) b = (xs, b1)" and b': "b' = b1\<lparr>rb_len := rb_len b1 - of_nat (length xs)\<rparr>"
    using r by (auto simp: rb_pop_def split: prod.splits)
  have "rb_get (unat m) ?b = (xs, b1\<lparr>rb_len := rb_size b\<rparr>)"
    by (simp add: rb_get_len g)
  from rb_get_content [OF full this] show xs: "xs = take (unat m) (rb_content ?b)"
    by simp
  then show "length xs = min (unat m) (unat (rb_size b))"
    by (simp add: min.commute)
  have "rb_get (unat m) (b\<lparr>rb_len := 0\<rparr>) = (xs, b1\<lparr>rb_len := 0\<rparr>)"
    by (simp only: rb_get_len g prod.case)
  moreover have "b\<lparr>rb_len := 0\<rparr> = b"
    using z by (cases b) simp
  ultimately have "b1 = b1\<lparr>rb_len := 0\<rparr>"
    using g by simp
  then have "rb_len b1 = 0"
    by (cases b1) simp
  then show "rb_len b' = - of_nat (length xs)"
    by (simp add: b')
qed

text \<open>C13: A ring buffer that does not overwrite is a bounded byte queue: a push stores exactly the
  bytes that fit, behind those stored, and reports their number.  If something is stored, a pop
  returns the oldest bytes first, at most as many as asked for, and leaves the rest, and the
  invariant is kept.  A pop of an empty buffer does not return less, as its comment says: it returns
  the bytes of the storage as if it were full, and the count wraps around below zero.  (The sum of
  the lengths is below \<open>2 ^ 32\<close>, as two arrays in a 32 bit memory are.)\<close>

theorem ringbuffer_fifo:
  assumes "rb_inv b" and "\<not> rb_overwrite b" and "unat (rb_len b) + unat len < 2 ^ 32"
    and "unat len \<le> length buff" and "rb_push buff len b = (n, b1)" and "rb_pop m b1 = (xs, b2)"
  shows "unat n = min (unat len) (unat (rb_capacity b) - unat (rb_count b)) \<and> rb_inv b1 \<and>
    rb_content b1 = rb_content b @ take (unat n) buff \<and>
    (if rb_content b1 \<noteq> []
     then xs = take (unat m) (rb_content b1) \<and> rb_content b2 = drop (unat m) (rb_content b1) \<and> rb_inv b2
     else xs = take (unat m) (rb_content (b1\<lparr>rb_len := rb_size b1\<rparr>)) \<and>
       length xs = min (unat m) (unat (rb_capacity b1)) \<and> rb_count b2 = - of_nat (length xs))"
proof -
  have no: "\<not> rb_overwrite b \<or> unat (rb_len b) + unat len \<le> unat (rb_size b)"
    using assms(2) by simp
  note pu = rb_push_content [OF assms(1) no assms(3,4,5)]
  show ?thesis
  proof (cases "rb_content b1 = []")
    case True
    from rb_pop_empty [OF pu(2) True assms(6)] pu(1-3) True show ?thesis
      by (simp add: rb_capacity_def rb_count_def)
  next
    case False
    from rb_pop_content [OF pu(2) False assms(6)] pu(1-3) False show ?thesis
      by (simp add: rb_capacity_def rb_count_def)
  qed
qed

lemma rb_example:
  "rb_push [1, 2, 3, 4, 5] 5 (rb_init [0, 0, 0, 0] 4 False) =
    (4, \<lparr>rb_head = 0, rb_tail = 0, rb_len = 4, rb_size = 4, rb_buff = [1, 2, 3, 4], rb_overwrite = False\<rparr>)"
  "rb_pop 3 \<lparr>rb_head = 0, rb_tail = 0, rb_len = 4, rb_size = 4, rb_buff = [1, 2, 3, 4], rb_overwrite = False\<rparr> =
    ([1, 2, 3], \<lparr>rb_head = 3, rb_tail = 0, rb_len = 1, rb_size = 4, rb_buff = [1, 2, 3, 4], rb_overwrite = False\<rparr>)"
  "rb_push [] 0 (rb_init [7, 8] 2 False) =
    (0, \<lparr>rb_head = 0, rb_tail = 0, rb_len = 0, rb_size = 2, rb_buff = [7, 8], rb_overwrite = False\<rparr>)"
  "rb_pop 1 \<lparr>rb_head = 0, rb_tail = 0, rb_len = 0, rb_size = 2, rb_buff = [7, 8], rb_overwrite = False\<rparr> =
    ([7], \<lparr>rb_head = 1, rb_tail = 0, rb_len = 4294967295, rb_size = 2, rb_buff = [7, 8], rb_overwrite = False\<rparr>)"
  by code_simp+

theorem ringbuffer_fifo_witness:
  "rb_content \<lparr>rb_head = 3, rb_tail = 0, rb_len = 1, rb_size = 4, rb_buff = [1, 2, 3, 4], rb_overwrite = False\<rparr> = [4] \<and>
   rb_count \<lparr>rb_head = 1, rb_tail = 0, rb_len = 4294967295, rb_size = 2, rb_buff = [7, 8], rb_overwrite = False\<rparr> = - 1"
proof
  have "rb_inv (rb_init [0, 0, 0, 0] 4 False)"
    by (rule rb_init_inv) simp_all
  from ringbuffer_fifo [OF this _ _ _ rb_example(1,2)]
  show "rb_content \<lparr>rb_head = 3, rb_tail = 0, rb_len = 1, rb_size = 4, rb_buff = [1, 2, 3, 4], rb_overwrite = False\<rparr> = [4]"
    by (simp add: rb_init_def rb_content_def)
  have "rb_inv (rb_init [7, 8] 2 False)"
    by (rule rb_init_inv) simp_all
  from ringbuffer_fifo [OF this _ _ _ rb_example(3,4)]
  show "rb_count \<lparr>rb_head = 1, rb_tail = 0, rb_len = 4294967295, rb_size = 2, rb_buff = [7, 8], rb_overwrite = False\<rparr> = - 1"
    by (simp add: rb_init_def rb_content_def)
qed

text \<open>A buffer that overwrites loses count: after three bytes and then two more are pushed into a
  buffer of four, four bytes are stored but the size still reads three, and popping them all makes
  the size wrap around to 4294967295.\<close>

theorem ringbuffer_overwrite_loses_count:
  "(let b = snd (rb_push [4, 5] 2 (snd (rb_push [1, 2, 3] 3 (rb_init [0, 0, 0, 0] 4 True))))
    in (rb_count b, fst (rb_pop 4 b), rb_count (snd (rb_pop 4 b))))
   = (3, [2, 3, 4, 5], 4294967295)"
  by code_simp

text \<open>Popping an empty buffer does not pop less: it returns bytes that were never pushed and makes
  the size wrap around.\<close>

theorem ringbuffer_pop_empty:
  "(case rb_pop 2 (rb_init [7, 8, 9, 10] 4 ov) of (xs, b) \<Rightarrow> (xs, rb_count b)) = ([7, 8], 4294967294)"
  by (cases ov) code_simp+

end
