(* ===== verification/VectorModel.thy ===== *)
theory VectorModel
  imports Prelude
begin

text \<open>
  The fixed size vector of src/vector/vector.h.  \<open>v_elements\<close> is the storage; an operation
  that makes room returns the index of the new element, to be written through \<open>vec_put\<close>.
\<close>

section \<open>State and operations\<close>

record 'a vector =
  v_elements :: "'a list"
  v_capacity :: size_t
  v_len :: size_t

definition vec_init :: "'a list \<Rightarrow> size_t \<Rightarrow> 'a vector" where
  "vec_init objs n = \<lparr>v_elements = objs, v_capacity = n, v_len = 0\<rparr>"

text \<open>The loop of \<open>rshift\<close>: \<open>k\<close> more rounds from position \<open>i\<close>.\<close>

fun vec_shr :: "nat \<Rightarrow> nat \<Rightarrow> 'a \<Rightarrow> 'a list \<Rightarrow> 'a list" where
  "vec_shr 0 i lst es = es"
| "vec_shr (Suc k) i lst es = vec_shr k (Suc i) (es ! i) (es[i := lst])"

definition vec_rshift :: "size_t \<Rightarrow> 'a vector \<Rightarrow> 'a vector" where
  "vec_rshift index v =
     (let v1 = v\<lparr>v_len := v_len v + 1\<rparr>;
          i = unat index
      in v1\<lparr>v_elements := vec_shr (unat (v_len v1) - (i + 1)) (i + 1) (v_elements v1 ! i) (v_elements v1)\<rparr>)"

fun vec_shl :: "nat \<Rightarrow> nat \<Rightarrow> 'a list \<Rightarrow> 'a list" where
  "vec_shl 0 i es = es"
| "vec_shl (Suc k) i es = vec_shl k (Suc i) (es[i := es ! Suc i])"

definition vec_lshift :: "size_t \<Rightarrow> 'a vector \<Rightarrow> 'a vector" where
  "vec_lshift index v =
     (let v1 = v\<lparr>v_len := v_len v - 1\<rparr>
      in v1\<lparr>v_elements := vec_shl (unat (v_len v1) - unat index) (unat index) (v_elements v1)\<rparr>)"

definition vec_insert :: "size_t \<Rightarrow> 'a vector \<Rightarrow> nat option \<times> 'a vector" where
  "vec_insert index v =
     (if index > v_len v \<or> v_len v = v_capacity v then (None, v)
      else (Some (unat index), vec_rshift index v))"

definition vec_remove :: "size_t \<Rightarrow> 'a vector \<Rightarrow> ret_type \<times> 'a vector" where
  "vec_remove index v =
     (if index \<ge> v_len v then (RET_ERROR, v) else (RET_SUCCESS, vec_lshift index v))"

definition vec_push_back :: "'a vector \<Rightarrow> nat option \<times> 'a vector" where
  "vec_push_back v = vec_insert (v_len v) v"

definition vec_pop_back :: "'a vector \<Rightarrow> ret_type \<times> 'a vector" where
  "vec_pop_back v = vec_remove (v_len v - 1) v"

definition vec_push_front :: "'a vector \<Rightarrow> nat option \<times> 'a vector" where
  "vec_push_front v = vec_insert 0 v"

definition vec_pop_front :: "'a vector \<Rightarrow> ret_type \<times> 'a vector" where
  "vec_pop_front v = vec_remove 0 v"

definition vec_full :: "'a vector \<Rightarrow> bool" where
  "vec_full v = (v_len v = v_capacity v)"

definition vec_size :: "'a vector \<Rightarrow> size_t" where
  "vec_size v = v_len v"

definition vec_cap :: "'a vector \<Rightarrow> size_t" where
  "vec_cap v = v_capacity v"

definition vec_at :: "size_t \<Rightarrow> 'a vector \<Rightarrow> nat option" where
  "vec_at index v = (if index < v_len v then Some (unat index) else None)"

text \<open>Writing through a returned pointer.\<close>

definition vec_put :: "nat \<Rightarrow> 'a \<Rightarrow> 'a vector \<Rightarrow> 'a vector" where
  "vec_put i x v = v\<lparr>v_elements := (v_elements v)[i := x]\<rparr>"

section \<open>Invariant and contents\<close>

definition vec_inv :: "'a vector \<Rightarrow> bool" where
  "vec_inv v \<longleftrightarrow> v_len v \<le> v_capacity v \<and> length (v_elements v) = unat (v_capacity v)"

definition vec_list :: "'a vector \<Rightarrow> 'a list" where
  "vec_list v = take (unat (v_len v)) (v_elements v)"

lemma vec_inv_bounds: "vec_inv v \<Longrightarrow> unat (v_len v) \<le> length (v_elements v)"
  by (simp add: vec_inv_def word_le_nat_alt)

lemma vec_list_length [simp]: "vec_inv v \<Longrightarrow> length (vec_list v) = unat (v_len v)"
  by (simp add: vec_list_def vec_inv_bounds)

lemma vec_shr_eq:
  "i + k \<le> length es \<Longrightarrow>
   vec_shr k i lst es = take i es @ take k (lst # drop i es) @ drop (i + k) es"
proof (induction k arbitrary: i lst es)
  case 0
  then show ?case by simp
next
  case (Suc k)
  then have i: "i < length es" by simp
  then have "take (Suc i) (es[i := lst]) = take i es @ [lst]"
    by (simp add: take_Suc_conv_app_nth)
  moreover have "drop (Suc i) (es[i := lst]) = drop (Suc i) es" "drop i es = es ! i # drop (Suc i) es"
    using i by (simp_all add: Cons_nth_drop_Suc)
  ultimately show ?case
    using Suc by (simp add: drop_update_cancel)
qed

lemma vec_shl_eq:
  "i + k < length es \<Longrightarrow> vec_shl k i es = take i es @ take k (drop (Suc i) es) @ drop (i + k) es"
proof (induction k arbitrary: i es)
  case 0
  then show ?case by simp
next
  case (Suc k)
  then have i: "Suc i < length es" by simp
  then have "take (Suc i) (es[i := es ! Suc i]) = take i es @ [es ! Suc i]"
    by (simp add: take_Suc_conv_app_nth)
  moreover have "drop (Suc i) es = es ! Suc i # drop (Suc (Suc i)) es"
    using i by (simp add: Cons_nth_drop_Suc)
  ultimately show ?case
    using Suc by (simp add: drop_update_cancel)
qed

definition insert_at :: "nat \<Rightarrow> 'a \<Rightarrow> 'a list \<Rightarrow> 'a list" where
  "insert_at i x xs = take i xs @ x # drop i xs"

definition remove_at :: "nat \<Rightarrow> 'a list \<Rightarrow> 'a list" where
  "remove_at i xs = take i xs @ drop (Suc i) xs"

lemma vec_insert_ok:
  assumes inv: "vec_inv v" and i: "index \<le> v_len v" and room: "v_len v \<noteq> v_capacity v"
  shows "\<exists>v'. vec_insert index v = (Some (unat index), v') \<and> vec_inv (vec_put (unat index) x v') \<and>
    vec_list (vec_put (unat index) x v') = insert_at (unat index) x (vec_list v)"
proof -
  let ?n = "unat (v_len v)" and ?i = "unat index" and ?es = "v_elements v"
  have lt: "?n < length ?es" and le: "?i \<le> ?n" and cap: "length ?es = unat (v_capacity v)"
    using inv i room by (auto simp: vec_inv_def word_le_nat_alt word_unat_eq_iff)
  have n1: "unat (v_len v + 1) = ?n + 1"
    using lt cap unsigned_less [of "v_capacity v", where 'a = nat] by (simp add: unat_word_ariths)
  let ?v' = "vec_rshift index v"
  have len': "v_len ?v' = v_len v + 1" "v_capacity ?v' = v_capacity v"
    by (simp_all add: vec_rshift_def Let_def)
  have es: "v_elements ?v' = take (?i + 1) ?es @ take (?n - ?i) (?es ! ?i # drop (?i + 1) ?es) @ drop (?n + 1) ?es"
    using lt le n1 vec_shr_eq [of "?i + 1" "?n - ?i" ?es "?es ! ?i"] by (simp add: vec_rshift_def Let_def)
  have l: "length (v_elements ?v') = length ?es"
    using lt le by (simp add: es)
  have "?es ! ?i # drop (?i + 1) ?es = drop ?i ?es"
    using lt le by (simp add: Cons_nth_drop_Suc)
  then have "(v_elements ?v')[?i := x] = take ?i ?es @ x # take (?n - ?i) (drop ?i ?es) @ drop (?n + 1) ?es"
    unfolding es using lt le by (simp add: take_Suc_conv_app_nth list_update_append)
  then have "take (?n + 1) ((v_elements ?v')[?i := x]) = insert_at ?i x (take ?n ?es)"
    using lt le by (simp add: insert_at_def drop_take Suc_diff_le)
  moreover have "vec_insert index v = (Some ?i, ?v')"
    using i room by (simp add: vec_insert_def not_less)
  moreover have "v_len v + 1 \<le> v_capacity v"
    using n1 lt cap by (simp add: word_le_nat_alt)
  ultimately show ?thesis
    using l inv by (simp add: vec_list_def vec_put_def vec_inv_def len' n1)
qed

lemma vec_remove_ok:
  assumes inv: "vec_inv v" and i: "index < v_len v"
  shows "\<exists>v'. vec_remove index v = (RET_SUCCESS, v') \<and> vec_inv v' \<and>
    vec_list v' = remove_at (unat index) (vec_list v)"
proof -
  let ?n = "unat (v_len v)" and ?i = "unat index" and ?es = "v_elements v"
  have le: "?n \<le> length ?es" and lt: "?i < ?n"
    using inv i by (auto simp: vec_inv_def word_le_nat_alt word_less_nat_alt)
  have n1: "unat (v_len v - 1) = ?n - 1"
  proof -
    have "v_len v \<noteq> 0"
      using lt by (intro notI) simp
    then show ?thesis
      using unat_minus_one [of "v_len v"] by simp
  qed
  let ?v' = "vec_lshift index v"
  have len': "v_len ?v' = v_len v - 1" "v_capacity ?v' = v_capacity v"
    by (simp_all add: vec_lshift_def Let_def)
  have es: "v_elements ?v' = take ?i ?es @ take (?n - 1 - ?i) (drop (Suc ?i) ?es) @ drop (?n - 1) ?es"
    using le lt n1 vec_shl_eq [of ?i "?n - 1 - ?i" ?es] by (simp add: vec_lshift_def Let_def)
  have "take (?n - 1) (v_elements ?v') = remove_at ?i (take ?n ?es)"
    using le lt by (simp add: es remove_at_def drop_take)
  moreover have "vec_remove index v = (RET_SUCCESS, ?v')"
    using i by (simp add: vec_remove_def not_le)
  moreover have "length (v_elements ?v') = length ?es"
    using le lt by (simp add: es min_def) linarith
  moreover have "unat (v_len v - 1) \<le> unat (v_capacity v)"
    using n1 le inv by (simp add: vec_inv_def le_diff_conv)
  then have "v_len v - 1 \<le> v_capacity v"
    by (simp add: word_le_nat_alt)
  ultimately show ?thesis
    using inv by (simp add: vec_list_def vec_inv_def len' n1)
qed

section \<open>Properties\<close>

lemma vec_insert_refused:
  "index > v_len v \<or> v_len v = v_capacity v \<Longrightarrow> vec_insert index v = (None, v)"
  by (auto simp: vec_insert_def)

text \<open>Insertion into a vector at any index up to its size, followed by the write through the
  returned pointer, inserts the element there and shifts the rest; past the end or into a full
  vector it is refused without an effect.\<close>

theorem vector_insert:
  assumes "vec_inv v"
  shows "case vec_insert index v of
      (None, v') \<Rightarrow> v' = v \<and> (index > vec_size v \<or> vec_full v)
    | (Some p, v') \<Rightarrow> p = unat index \<and> index \<le> vec_size v \<and> \<not> vec_full v \<and>
        vec_inv (vec_put p x v') \<and> vec_list (vec_put p x v') = insert_at (unat index) x (vec_list v)"
proof (cases "index > v_len v \<or> v_len v = v_capacity v")
  case True
  then show ?thesis
    by (simp add: vec_insert_refused vec_size_def vec_full_def)
next
  case False
  with vec_insert_ok [OF assms, of index x] show ?thesis
    by (auto simp: vec_size_def vec_full_def)
qed

lemma vec_example: "vec_inv (vec_init [0 :: nat, 0, 0] 3)"
  by (simp add: vec_inv_def vec_init_def)

theorem vector_insert_witness:
  "vec_list (vec_put 0 7 (snd (vec_insert 0 (vec_init [0 :: nat, 0, 0] 3)))) = [7]"
  using vector_insert [OF vec_example, of 0 7]
  by (simp add: vec_insert_def vec_init_def insert_at_def vec_list_def)

text \<open>The vector as a double ended queue: popping at the front or the back of a vector removes
  that end and keeps the rest in order; on an empty vector both report an error (the index wraps
  around and is refused) and change nothing.\<close>

theorem vector_pop_ends:
  assumes "vec_inv v"
  shows "if vec_list v = [] then vec_pop_front v = (RET_ERROR, v) \<and> vec_pop_back v = (RET_ERROR, v)
    else fst (vec_pop_front v) = RET_SUCCESS \<and> vec_list (snd (vec_pop_front v)) = tl (vec_list v) \<and>
         fst (vec_pop_back v) = RET_SUCCESS \<and> vec_list (snd (vec_pop_back v)) = butlast (vec_list v)"
proof -
  have len: "length (vec_list v) = unat (v_len v)"
    using assms by simp
  show ?thesis
  proof (cases "vec_list v = []")
    case True
    then have "v_len v = 0"
      using len by (simp add: unat_eq_0)
    then show ?thesis
      using True by (simp add: vec_pop_front_def vec_pop_back_def vec_remove_def)
  next
    case False
    then have nz: "v_len v \<noteq> 0"
      using len by auto
    then have pos: "0 < v_len v" "v_len v - 1 < v_len v" and m: "unat (v_len v - 1) = unat (v_len v) - 1"
      by (simp_all add: word_gt_0 unat_minus_one word_less_nat_alt unat_gt_0)
    from vec_remove_ok [OF assms pos(1)] vec_remove_ok [OF assms pos(2)] False show ?thesis
      by (auto simp: vec_pop_front_def vec_pop_back_def remove_at_def m len butlast_conv_take drop_Suc)
  qed
qed

theorem vector_pop_ends_witness:
  "vec_list (snd (vec_pop_front \<lparr>v_elements = [1 :: nat, 2, 3], v_capacity = 3, v_len = 2\<rparr>)) = [2] \<and>
   vec_list (snd (vec_pop_back \<lparr>v_elements = [1 :: nat, 2, 3], v_capacity = 3, v_len = 2\<rparr>)) = [1]"
  using vector_pop_ends [of "\<lparr>v_elements = [1 :: nat, 2, 3], v_capacity = 3, v_len = 2\<rparr>"]
  by (simp add: vec_inv_def vec_list_def)

end
