(* ===== verification/HashMapModel.thy ===== *)
theory HashMapModel
  imports Prelude
begin

text \<open>
  The hashes of src/hash/hash.h, the Bloom filter of src/bloom_filter/bloom_filter.h and the
  bucketed hash map of src/hashmap/hashmap.h.  An object to be hashed is the memory from its
  address on; a pointer to a value of the map is the index of its entry.
\<close>

section \<open>Hashes\<close>

text \<open>Reading a little-endian word of \<open>size_t\<close>.\<close>

definition load32 :: "(nat \<Rightarrow> u8) \<Rightarrow> nat \<Rightarrow> size_t" where
  "load32 m a =
     ucast (m a) OR push_bit 8 (ucast (m (a + 1))) OR push_bit 16 (ucast (m (a + 2))) OR
     push_bit 24 (ucast (m (a + 3)))"

text \<open>\<open>XORHash<T>::hash\<close> for an object of \<open>n\<close> bytes; \<open>&obj + start\<close> counts in objects.\<close>

definition xor_hash :: "nat \<Rightarrow> (nat \<Rightarrow> u8) \<Rightarrow> size_t" where
  "xor_hash n m =
     (let start = n mod 4;
          h = fold (\<lambda>i h. h XOR ucast (m i)) [0..<start] 0
      in fold (\<lambda>i h. h XOR load32 m (start * n + 4 * i)) [0..<n div 4] h)"

text \<open>\<open>StringHash::hash\<close>; \<open>None\<close>: the loop does not end.\<close>

partial_function (option) string_hash_loop ::
  "(nat \<Rightarrow> u8) \<Rightarrow> size_t \<Rightarrow> nat \<Rightarrow> nat \<Rightarrow> size_t option" where
  "string_hash_loop m hash i ii =
     (if m i \<noteq> 0
      then string_hash_loop m (hash XOR push_bit (ii * 8) (ucast (m i))) ((i + 1) mod 4) (ii + 1)
      else Some hash)"

definition string_hash :: "(nat \<Rightarrow> u8) \<Rightarrow> size_t option" where
  "string_hash m = string_hash_loop m 0 0 0"

lemma string_hash_loop_diverges:
  assumes "string_hash_loop m h i ii = Some r"
  shows "i < 4 \<longrightarrow> \<not> (\<forall>j<4. m j \<noteq> 0)"
  using assms
proof (induction m h i ii r rule: string_hash_loop.raw_induct)
  case (1 loop m h i ii r)
  show ?case
  proof (cases "m i = 0")
    case False
    let ?h = "h XOR push_bit (ii * 8) (ucast (m i))"
    have "loop m ?h ((i + 1) mod 4) (ii + 1) = Some r"
      using 1(2) False by simp
    moreover have "string_hash_loop m ?h ((i + 1) mod 4) (ii + 1) = Some r"
      using 1(3) False by (subst (asm) string_hash_loop.simps) simp
    ultimately show ?thesis
      using 1(1) by fastforce
  qed auto
qed (rule assms)

lemma fold_xor_cong:
  "(\<And>i. i \<in> set xs \<Longrightarrow> f i = g i) \<Longrightarrow> fold (\<lambda>i h. h XOR f i) xs (z :: size_t) = fold (\<lambda>i h. h XOR g i) xs z"
  by (rule fold_cong) auto

lemma xor_hash_object:
  assumes "n mod 4 = 0 \<or> n < 4" and "\<And>i. i < n \<Longrightarrow> m i = m' i"
  shows "xor_hash n m = xor_hash n m'"
proof (cases "n mod 4 = 0")
  case True
  then obtain q where q: "n = 4 * q" by auto
  have "load32 m (4 * i) = load32 m' (4 * i)" if "i < q" for i
    using assms(2) [of "4 * i"] assms(2) [of "4 * i + 1"] assms(2) [of "4 * i + 2"]
      assms(2) [of "4 * i + 3"] that q by (simp add: load32_def)
  then have "fold (\<lambda>i h. h XOR load32 m (4 * i)) [0..<q] (0 :: size_t) = fold (\<lambda>i h. h XOR load32 m' (4 * i)) [0..<q] 0"
    by (intro fold_xor_cong) simp
  then show ?thesis
    by (simp add: xor_hash_def q Let_def)
next
  case False
  then have "n < 4" using assms(1) by simp
  then have "fold (\<lambda>i h. h XOR ucast (m i)) [0..<n] (0 :: size_t) = fold (\<lambda>i h. h XOR ucast (m' i)) [0..<n] 0"
    by (intro fold_xor_cong) (simp add: assms(2))
  then show ?thesis
    using \<open>n < 4\<close> by (simp add: xor_hash_def Let_def)
qed

section \<open>Bloom filter\<close>

text \<open>The filter is its word; \<open>hash\<close> is the hash object it was instantiated with.\<close>

definition bloom_init :: size_t where
  "bloom_init = 0"

definition bloom_encode :: "('a \<Rightarrow> size_t) \<Rightarrow> 'a \<Rightarrow> size_t \<Rightarrow> size_t" where
  "bloom_encode hash x d = d OR hash x"

definition bloom_present :: "('a \<Rightarrow> size_t) \<Rightarrow> 'a \<Rightarrow> size_t \<Rightarrow> bool" where
  "bloom_present hash x d \<longleftrightarrow> NOT d AND hash x = 0"

lemma bloom_present_bits: "bloom_present hash x d \<longleftrightarrow> (\<forall>n. bit (hash x) n \<longrightarrow> bit d n)"
proof
  assume a: "bloom_present hash x d"
  show "\<forall>n. bit (hash x) n \<longrightarrow> bit d n"
  proof (intro allI impI)
    fix n assume n: "bit (hash x) n"
    have "\<not> bit (NOT d AND hash x) n"
      using a by (simp add: bloom_present_def)
    then show "bit d n"
      using n bit_imp_le_length [OF n] by (simp add: bit_simps)
  qed
qed (auto simp: bloom_present_def bit_eq_iff bit_simps)

lemma bloom_encode_mono: "bloom_present hash y d \<Longrightarrow> bloom_present hash y (bloom_encode hash x d)"
  by (simp add: bloom_present_bits bloom_encode_def bit_simps)

lemma bloom_encode_self: "bloom_present hash x (bloom_encode hash x d)"
  by (simp add: bloom_present_bits bloom_encode_def bit_simps)

lemma bloom_encode_all: "bloom_present hash y d \<or> y \<in> set xs \<Longrightarrow> bloom_present hash y (fold (bloom_encode hash) xs d)"
  by (induction xs arbitrary: d) (auto intro: bloom_encode_mono bloom_encode_self)

section \<open>Hash map\<close>

record ('k, 'v) hashmap =
  hm_buckets :: size_t
  hm_bsize :: size_t
  hm_entries :: "('k \<times> 'v) list"
  hm_used :: "bool list"

definition hm_init :: "size_t \<Rightarrow> size_t \<Rightarrow> ('k \<times> 'v) list \<Rightarrow> ('k, 'v) hashmap" where
  "hm_init nb bs es =
     \<lparr>hm_buckets = nb, hm_bsize = bs, hm_entries = es, hm_used = replicate (unat nb * unat bs) False\<rparr>"

definition hm_index :: "('k \<Rightarrow> size_t) \<Rightarrow> 'k \<Rightarrow> ('k, 'v) hashmap \<Rightarrow> size_t" where
  "hm_index hash k m = (hash k mod hm_buckets m) * hm_bsize m"

definition hm_range :: "('k \<Rightarrow> size_t) \<Rightarrow> 'k \<Rightarrow> ('k, 'v) hashmap \<Rightarrow> nat list" where
  "hm_range hash k m = [unat (hm_index hash k m)..<unat (hm_index hash k m) + unat (hm_bsize m)]"

definition hm_add :: "('k \<Rightarrow> size_t) \<Rightarrow> 'k \<Rightarrow> ('k, 'v) hashmap \<Rightarrow> nat option \<times> ('k, 'v) hashmap" where
  "hm_add hash k m =
     (case find (\<lambda>i. \<not> hm_used m ! i) (hm_range hash k m) of
        None \<Rightarrow> (None, m)
      | Some i \<Rightarrow> (Some i, m\<lparr>hm_entries := (hm_entries m)[i := (k, snd (hm_entries m ! i))],
                            hm_used := (hm_used m)[i := True]\<rparr>))"

definition hm_get :: "('k \<Rightarrow> size_t) \<Rightarrow> 'k \<Rightarrow> ('k, 'v) hashmap \<Rightarrow> nat option" where
  "hm_get hash k m = find (\<lambda>i. hm_used m ! i \<and> fst (hm_entries m ! i) = k) (hm_range hash k m)"

definition hm_remove :: "('k \<Rightarrow> size_t) \<Rightarrow> 'k \<Rightarrow> ('k, 'v) hashmap \<Rightarrow> bool \<times> ('k, 'v) hashmap" where
  "hm_remove hash k m =
     (case find (\<lambda>i. hm_used m ! i \<and> fst (hm_entries m ! i) = k) (hm_range hash k m) of
        None \<Rightarrow> (False, m)
      | Some i \<Rightarrow> (True, m\<lparr>hm_used := (hm_used m)[i := False]\<rparr>))"

text \<open>Reading and writing through a pointer to a value.\<close>

definition hm_val :: "('k, 'v) hashmap \<Rightarrow> nat \<Rightarrow> 'v" where
  "hm_val m i = snd (hm_entries m ! i)"

definition hm_put :: "nat \<Rightarrow> 'v \<Rightarrow> ('k, 'v) hashmap \<Rightarrow> ('k, 'v) hashmap" where
  "hm_put i v m = m\<lparr>hm_entries := (hm_entries m)[i := (fst (hm_entries m ! i), v)]\<rparr>"

text \<open>The two idioms of the callers: look a key up, and add a key and copy the value in.\<close>

definition hm_lookup :: "('k \<Rightarrow> size_t) \<Rightarrow> 'k \<Rightarrow> ('k, 'v) hashmap \<Rightarrow> 'v option" where
  "hm_lookup hash k m = map_option (hm_val m) (hm_get hash k m)"

definition hm_insert :: "('k \<Rightarrow> size_t) \<Rightarrow> 'k \<Rightarrow> 'v \<Rightarrow> ('k, 'v) hashmap \<Rightarrow> ('k, 'v) hashmap option" where
  "hm_insert hash k v m =
     (case hm_add hash k m of (None, m') \<Rightarrow> None | (Some i, m') \<Rightarrow> Some (hm_put i v m'))"

section \<open>Invariant\<close>

text \<open>Sizes fit, and no key occupies two entries of its bucket.\<close>

definition hm_inv :: "('k \<Rightarrow> size_t) \<Rightarrow> ('k, 'v) hashmap \<Rightarrow> bool" where
  "hm_inv hash m \<longleftrightarrow>
     0 < unat (hm_buckets m) \<and> unat (hm_buckets m) * unat (hm_bsize m) < 2 ^ 32 \<and>
     length (hm_entries m) = unat (hm_buckets m) * unat (hm_bsize m) \<and>
     length (hm_used m) = unat (hm_buckets m) * unat (hm_bsize m) \<and>
     (\<forall>i j k. i \<in> set (hm_range hash k m) \<and> j \<in> set (hm_range hash k m) \<and> hm_used m ! i \<and> hm_used m ! j \<and>
        fst (hm_entries m ! i) = k \<and> fst (hm_entries m ! j) = k \<longrightarrow> i = j)"

lemma hm_range_bound:
  assumes "hm_inv hash m" and "i \<in> set (hm_range hash k m)"
  shows "i < unat (hm_buckets m) * unat (hm_bsize m)"
proof -
  let ?h = "unat (hash k) mod unat (hm_buckets m)" and ?b = "unat (hm_bsize m)"
  have lt: "?h < unat (hm_buckets m)" and sz: "unat (hm_buckets m) * ?b < 2 ^ 32"
    using assms(1) by (auto simp: hm_inv_def)
  have le: "?h * ?b + ?b \<le> unat (hm_buckets m) * ?b"
    using mult_le_mono1 [of "Suc ?h" "unat (hm_buckets m)" ?b] lt by simp
  then have "?h * ?b < 2 ^ 32"
    using sz by linarith
  moreover have "?h < 2 ^ 32"
    using lt unsigned_less [of "hm_buckets m", where 'a = nat] by simp
  ultimately have "unat (hm_index hash k m) = ?h * ?b"
    by (simp add: hm_index_def unat_word_ariths unat_mod_distrib)
  then show ?thesis
    using assms(2) le by (auto simp: hm_range_def)
qed

lemma find_range_Some:
  assumes "find P xs = Some i"
  shows "P i" and "i \<in> set xs"
  using assms by (induction xs) (auto split: if_splits)

lemma find_range_None: "find P xs = None \<longleftrightarrow> (\<forall>i\<in>set xs. \<not> P i)"
  by (auto simp: find_None_iff)

text \<open>With unique keys, a lookup is the entry that holds the key.\<close>

lemma hm_get_iff:
  assumes "hm_inv hash m"
  shows "hm_get hash k m = Some i \<longleftrightarrow>
    i \<in> set (hm_range hash k m) \<and> hm_used m ! i \<and> fst (hm_entries m ! i) = k"
proof
  assume "hm_get hash k m = Some i"
  then show "i \<in> set (hm_range hash k m) \<and> hm_used m ! i \<and> fst (hm_entries m ! i) = k"
    unfolding hm_get_def by (auto dest: find_range_Some)
next
  assume i: "i \<in> set (hm_range hash k m) \<and> hm_used m ! i \<and> fst (hm_entries m ! i) = k"
  then obtain j where j: "hm_get hash k m = Some j"
    by (cases "hm_get hash k m") (auto simp: hm_get_def find_range_None)
  then have "j \<in> set (hm_range hash k m) \<and> hm_used m ! j \<and> fst (hm_entries m ! j) = k"
    unfolding hm_get_def by (auto dest: find_range_Some)
  then show "hm_get hash k m = Some i"
    using i j assms unfolding hm_inv_def by metis
qed

lemma hm_get_cong:
  assumes "hm_inv hash m" and "hm_inv hash m'" and "hm_buckets m' = hm_buckets m" "hm_bsize m' = hm_bsize m"
    and "\<And>i. i \<in> set (hm_range hash k m) \<Longrightarrow>
      (hm_used m' ! i \<and> fst (hm_entries m' ! i) = k) = (hm_used m ! i \<and> fst (hm_entries m ! i) = k)"
    and "\<And>i. hm_used m ! i \<Longrightarrow> fst (hm_entries m ! i) = k \<Longrightarrow> i \<in> set (hm_range hash k m) \<Longrightarrow>
      snd (hm_entries m' ! i) = snd (hm_entries m ! i)"
  shows "hm_lookup hash k m' = hm_lookup hash k m"
proof -
  have r: "hm_range hash k m' = hm_range hash k m"
    using assms(3,4) by (simp add: hm_range_def hm_index_def)
  have "hm_get hash k m' = hm_get hash k m"
    unfolding hm_get_def r by (rule find_cong) (use assms(5) in auto)
  then show ?thesis
    using assms(6) hm_get_iff [OF assms(1), of k]
    by (cases "hm_get hash k m") (simp add: hm_lookup_def, force simp: hm_lookup_def hm_val_def)
qed

section \<open>The map interface\<close>

text \<open>What the users of a map rely on: adding a key that is not there, and removing one.\<close>

locale key_store =
  fixes lookup :: "'k \<Rightarrow> 'm \<Rightarrow> 'v option"
    and insert :: "'k \<Rightarrow> 'v \<Rightarrow> 'm \<Rightarrow> 'm option"
    and delete :: "'k \<Rightarrow> 'm \<Rightarrow> bool \<times> 'm"
    and inv :: "'m \<Rightarrow> bool"
  assumes insert_law: "inv m \<Longrightarrow> lookup k m = None \<Longrightarrow> insert k v m = Some m' \<Longrightarrow>
        inv m' \<and> lookup k m' = Some v \<and> (\<forall>k'. k' \<noteq> k \<longrightarrow> lookup k' m' = lookup k' m)"
    and delete_law: "inv m \<Longrightarrow> delete k m = (b, m') \<Longrightarrow>
        inv m' \<and> b = (lookup k m \<noteq> None) \<and> lookup k m' = None \<and>
        (\<forall>k'. k' \<noteq> k \<longrightarrow> lookup k' m' = lookup k' m)"
begin

lemma delete_insert:
  assumes "inv m" and "lookup k m = None" and "insert k v m = Some m'" and "delete k m' = (b, m'')"
  shows "b \<and> (\<forall>k'. lookup k' m'' = lookup k' m)"
  using insert_law [OF assms(1-3)] delete_law [OF _ assms(4)] assms(2) by (metis option.distinct(1))

text \<open>Filling the store from a list of bindings.\<close>

fun insert_list :: "('k \<times> 'v) list \<Rightarrow> 'm \<Rightarrow> 'm option" where
  "insert_list [] m = Some m"
| "insert_list ((k, v) # kvs) m = (case insert k v m of None \<Rightarrow> None | Some m' \<Rightarrow> insert_list kvs m')"

lemma insert_list_lookup:
  "inv m \<Longrightarrow> distinct (map fst kvs) \<Longrightarrow> \<forall>k\<in>set (map fst kvs). lookup k m = None \<Longrightarrow>
   insert_list kvs m = Some m' \<Longrightarrow>
   inv m' \<and> lookup x m' = (case map_of kvs x of None \<Rightarrow> lookup x m | Some v \<Rightarrow> Some v)"
proof (induction kvs m arbitrary: x rule: insert_list.induct)
  case (1 m)
  then show ?case by simp
next
  case (2 k v kvs m)
  then obtain m1 where m1: "insert k v m = Some m1" "insert_list kvs m1 = Some m'"
    by (auto split: option.splits)
  have new: "lookup k m = None"
    using "2.prems" by simp
  note l = insert_law [OF "2.prems"(1) new m1(1)]
  have fresh: "\<forall>k\<in>set (map fst kvs). lookup k m1 = None"
  proof
    fix c assume c: "c \<in> set (map fst kvs)"
    then have "c \<noteq> k" and "lookup c m = None"
      using "2.prems"(2,3) by auto
    then show "lookup c m1 = None"
      using l by simp
  qed
  note ih = "2.IH" [OF m1(1) _ _ fresh m1(2)]
  have "map_of kvs k = None"
    using "2.prems"(2) by (simp add: map_of_eq_None_iff)
  then show ?case
    using ih l "2.prems"(2) by (auto split: option.splits)
qed

end

lemma hm_insert_law:
  assumes inv: "hm_inv hash m" and new: "hm_lookup hash k m = None" and ins: "hm_insert hash k v m = Some m'"
  shows "hm_inv hash m' \<and> hm_lookup hash k m' = Some v \<and> (\<forall>k'. k' \<noteq> k \<longrightarrow> hm_lookup hash k' m' = hm_lookup hash k' m)"
proof -
  obtain i where f: "find (\<lambda>i. \<not> hm_used m ! i) (hm_range hash k m) = Some i"
    and m': "m' = m\<lparr>hm_entries := (hm_entries m)[i := (k, v)], hm_used := (hm_used m)[i := True]\<rparr>"
    using ins inv hm_range_bound [OF inv] find_range_Some(2)
    by (force simp: hm_insert_def hm_add_def hm_put_def hm_inv_def split: option.splits)
  have i: "\<not> hm_used m ! i" "i \<in> set (hm_range hash k m)"
    using find_range_Some [OF f] by auto
  have bound: "i < length (hm_entries m)" "i < length (hm_used m)"
    using hm_range_bound [OF inv i(2)] inv by (simp_all add: hm_inv_def)
  have bk: "hm_buckets m' = hm_buckets m" "hm_bsize m' = hm_bsize m"
    by (simp_all add: m')
  have r: "hm_range hash k' m' = hm_range hash k' m" for k'
    by (simp add: m' hm_range_def hm_index_def)
  have nok: "\<not> (j \<in> set (hm_range hash k m) \<and> hm_used m ! j \<and> fst (hm_entries m ! j) = k)" for j
    using new hm_get_iff [OF inv, of k j] by (auto simp: hm_lookup_def)
  have us: "hm_used m' ! j = (j = i \<or> hm_used m ! j)" and
    en: "hm_entries m' ! j = (if j = i then (k, v) else hm_entries m ! j)" for j
    using bound by (auto simp: m' nth_list_update)
  have inv': "hm_inv hash m'"
    unfolding hm_inv_def
  proof (intro conjI)
    show "\<forall>i j k. i \<in> set (hm_range hash k m') \<and> j \<in> set (hm_range hash k m') \<and> hm_used m' ! i \<and>
        hm_used m' ! j \<and> fst (hm_entries m' ! i) = k \<and> fst (hm_entries m' ! j) = k \<longrightarrow> i = j"
      unfolding r us en using inv nok unfolding hm_inv_def by (auto split: if_splits)
  qed (use inv in \<open>auto simp: hm_inv_def m'\<close>)
  have "hm_get hash k m' = Some i"
    unfolding hm_get_iff [OF inv'] r us en using i by simp
  then have "hm_lookup hash k m' = Some v"
    by (simp add: hm_lookup_def hm_val_def en)
  moreover have "hm_lookup hash k' m' = hm_lookup hash k' m" if "k' \<noteq> k" for k'
    by (rule hm_get_cong [OF inv inv']) (use that i in \<open>auto simp: us en bk\<close>)
  ultimately show ?thesis
    using inv' by blast
qed

lemma hm_delete_law:
  assumes inv: "hm_inv hash m" and del: "hm_remove hash k m = (b, m')"
  shows "hm_inv hash m' \<and> b = (hm_lookup hash k m \<noteq> None) \<and> hm_lookup hash k m' = None \<and>
    (\<forall>k'. k' \<noteq> k \<longrightarrow> hm_lookup hash k' m' = hm_lookup hash k' m)"
proof (cases "hm_get hash k m")
  case None
  then show ?thesis
    using del inv by (simp add: hm_remove_def hm_get_def hm_lookup_def)
next
  case (Some i)
  then have i: "i \<in> set (hm_range hash k m)" "hm_used m ! i" "fst (hm_entries m ! i) = k"
    using hm_get_iff [OF inv] by auto
  have m': "m' = m\<lparr>hm_used := (hm_used m)[i := False]\<rparr>" and b
    using del Some by (simp_all add: hm_remove_def hm_get_def)
  have bound: "i < length (hm_used m)"
    using hm_range_bound [OF inv i(1)] inv by (simp add: hm_inv_def)
  have bk: "hm_buckets m' = hm_buckets m" "hm_bsize m' = hm_bsize m"
    by (simp_all add: m')
  have r: "hm_range hash k' m' = hm_range hash k' m" for k'
    by (simp add: m' hm_range_def hm_index_def)
  have us: "hm_used m' ! j = (j \<noteq> i \<and> hm_used m ! j)" and en: "hm_entries m' = hm_entries m" for j
    using bound by (auto simp: m' nth_list_update)
  have inv': "hm_inv hash m'"
    unfolding hm_inv_def r us en
    by (intro conjI) (use inv in \<open>auto simp: hm_inv_def m'\<close>)
  have "hm_get hash k m' = None"
  proof (rule ccontr)
    assume "hm_get hash k m' \<noteq> None"
    then obtain j where "hm_get hash k m' = Some j" by auto
    then have "j \<noteq> i" "hm_get hash k m = Some j"
      unfolding hm_get_iff [OF inv'] hm_get_iff [OF inv] r us en by auto
    then show False
      using Some by simp
  qed
  moreover have "hm_lookup hash k' m' = hm_lookup hash k' m" if "k' \<noteq> k" for k'
    by (rule hm_get_cong [OF inv inv']) (use that i in \<open>auto simp: us en bk\<close>)
  ultimately show ?thesis
    using inv' \<open>b\<close> Some by (simp add: hm_lookup_def)
qed

interpretation hm: key_store "hm_lookup hash" "hm_insert hash" "hm_remove hash" "hm_inv hash" for hash
  by unfold_locales (rule hm_insert_law hm_delete_law; assumption)+

lemma hm_init_inv:
  assumes "0 < nb" and "unat nb * unat bs < 2 ^ 32" and "length es = unat nb * unat bs"
  shows "hm_inv hash (hm_init nb bs es)" and "hm_lookup hash k (hm_init nb bs es) = None"
proof -
  have pos: "0 < unat nb"
    using assms(1) by (simp add: unat_gt_0 word_gt_0)
  have bnd: "unat (hm_index hash k' (hm_init nb bs es)) + unat bs \<le> unat nb * unat bs" for k'
  proof -
    let ?h = "unat (hash k') mod unat nb"
    have le: "?h * unat bs + unat bs \<le> unat nb * unat bs"
      using mult_le_mono1 [of "Suc ?h" "unat nb" "unat bs"] pos by (simp add: Suc_leI)
    moreover have "?h < 2 ^ 32"
      using order_less_trans [OF mod_less_divisor [OF pos] unsigned_less [of nb, where 'a = nat]] by simp
    ultimately show ?thesis
      using assms(2) by (simp add: hm_index_def hm_init_def unat_word_ariths unat_mod_distrib)
  qed
  have un: "\<not> hm_used (hm_init nb bs es) ! i" if "i \<in> set (hm_range hash k' (hm_init nb bs es))" for i k'
    using that bnd [of k'] by (auto simp: hm_range_def hm_init_def)
  show "hm_inv hash (hm_init nb bs es)"
    unfolding hm_inv_def using un pos assms by (auto simp: hm_init_def)
  show "hm_lookup hash k (hm_init nb bs es) = None"
    using un by (auto simp: hm_lookup_def hm_get_def find_range_None)
qed

section \<open>Properties\<close>

text \<open>C14: The map laws of the hash map, for any hash function: after a successful add of a key that
  is not in the map, followed by the write through the returned pointer, the key maps to the value;
  after a remove it maps to nothing, and the result says if it was there; every other key keeps its
  value, hash collisions included.\<close>

theorem hashmap_laws:
  assumes "hm_inv hash m" and "hm_lookup hash k m = None" and "hm_insert hash k v m = Some m1"
    and "hm_remove hash k' m1 = (b, m2)"
  shows "hm_inv hash m2 \<and> b = (hm_lookup hash k' m1 \<noteq> None) \<and> hm_lookup hash k m1 = Some v \<and>
    hm_lookup hash j m2 = (if j = k' then None else if j = k then Some v else hm_lookup hash j m)"
  using hm.insert_law [OF assms(1-3)] hm.delete_law [OF _ assms(4)] by auto

lemma hm_example:
  "hm_insert (\<lambda>k :: nat. 0) 5 9 (hm_init 1 2 [(0, 0), (0, 0 :: nat)]) =
     Some \<lparr>hm_buckets = 1, hm_bsize = 2, hm_entries = [(5, 9), (0, 0)], hm_used = [True, False]\<rparr>"
  by code_simp

theorem hashmap_laws_witness:
  "\<exists>m2. hm_remove (\<lambda>k. 0) 7 \<lparr>hm_buckets = 1, hm_bsize = 2, hm_entries = [(5, 9), (0, 0)],
      hm_used = [True, False]\<rparr> = (False, m2) \<and> hm_lookup (\<lambda>k. 0) (5 :: nat) m2 = Some (9 :: nat)"
proof -
  let ?m1 = "\<lparr>hm_buckets = 1, hm_bsize = 2, hm_entries = [(5, 9), (0, 0)], hm_used = [True, False]\<rparr>
      :: (nat, nat) hashmap"
  have i: "hm_inv (\<lambda>k. 0) (hm_init 1 2 [(0, 0), (0, 0 :: nat)])"
      "hm_lookup (\<lambda>k. 0) 5 (hm_init 1 2 [(0, 0), (0, 0 :: nat)]) = None"
    by (rule hm_init_inv; simp)+
  have "hm_remove (\<lambda>k. 0) 7 ?m1 = (False, ?m1)"
    by code_simp
  from hashmap_laws [OF i hm_example this, of 5] this show ?thesis
    by simp
qed

text \<open>Adding a key twice does not keep the first binding in front, as the header promises: with two
  colliding keys, adding 1 and 2, removing 1 and adding 2 again makes a lookup of 2 find the new
  binding although the first one was never removed.\<close>

theorem hashmap_first_binding_lost:
  "(case hm_insert (\<lambda>k :: nat. 0) 1 10 (hm_init 1 2 [(0, 0), (0, 0 :: nat)]) of None \<Rightarrow> None | Some m1 \<Rightarrow>
   (case hm_insert (\<lambda>k. 0) 2 20 m1 of None \<Rightarrow> None | Some m2 \<Rightarrow>
   (case hm_insert (\<lambda>k. 0) 2 30 (snd (hm_remove (\<lambda>k. 0) 1 m2)) of None \<Rightarrow> None | Some m3 \<Rightarrow>
      Some (hm_lookup (\<lambda>k. 0) 2 m2, hm_lookup (\<lambda>k. 0) 2 m3)))) = Some (Some 20, Some 30)"
  by code_simp

text \<open>The Bloom filter has no false negatives: whatever was encoded before or after, an encoded
  object is reported as possibly present.\<close>

theorem bloom_no_false_negative:
  assumes "x \<in> set xs"
  shows "bloom_present hash x (fold (bloom_encode hash) xs bloom_init)"
  using assms by (simp add: bloom_encode_all)

theorem bloom_no_false_negative_witness:
  "bloom_present id 5 (fold (bloom_encode id) [1, 5, 8] bloom_init)"
  using bloom_no_false_negative [of "5 :: size_t" "[1, 5, 8]" id] by simp

text \<open>The XOR hash of an object whose size is not a multiple of the word size is not a function of
  the object: for 6 byte objects it reads memory at offset 12, so that two copies of the same object
  have different hashes.\<close>

theorem xor_hash_reads_past_object:
  "\<exists>m m'. map m [0..<6] = map m' [0..<6] \<and> xor_hash 6 m \<noteq> xor_hash 6 m'"
proof (intro exI conjI)
  show "map (\<lambda>_. 0) [0..<6] = map (\<lambda>i. if i = 12 then 1 else 0 :: u8) [0..<6]"
    by (simp add: upt_rec)
  show "xor_hash 6 (\<lambda>_. 0) \<noteq> xor_hash 6 (\<lambda>i. if i = 12 then 1 else 0)"
    by (simp add: xor_hash_def load32_def upt_rec)
qed

text \<open>The hash of a C string does not terminate on any string of four characters or more: the
  reading position wraps around to the start of the string.\<close>

theorem string_hash_diverges:
  assumes "\<forall>j<4. m j \<noteq> 0"
  shows "string_hash m = None"
  using string_hash_loop_diverges [of m 0 0 0] assms
  by (cases "string_hash m") (auto simp: string_hash_def)

theorem string_hash_diverges_witness: "string_hash (\<lambda>i. if i < 4 then 65 else 0) = None"
  by (rule string_hash_diverges) simp

end
