(* ===== verification/NetBytes.thy ===== *)
theory NetBytes
  imports Prelude
begin

text \<open>
  Byte order and struct access for the network code: the conversions of src/net/common.h and the
  reading and writing of little-endian integers at a byte offset of a buffer, which is how the
  code accesses header structs through pointers into a packet.
\<close>

section \<open>Integers in memory\<close>

definition load16 :: "u8 list \<Rightarrow> nat \<Rightarrow> u16" where
  "load16 bs i = ucast (bs ! i) OR push_bit 8 (ucast (bs ! (i + 1)))"

definition le32 :: "u8 list \<Rightarrow> nat \<Rightarrow> u32" where
  "le32 bs i =
     ucast (bs ! i) OR push_bit 8 (ucast (bs ! (i + 1))) OR push_bit 16 (ucast (bs ! (i + 2))) OR
     push_bit 24 (ucast (bs ! (i + 3)))"

definition le64 :: "u8 list \<Rightarrow> nat \<Rightarrow> u64" where
  "le64 bs i = ucast (le32 bs i) OR push_bit 32 (ucast (le32 bs (i + 4)))"

definition byte_of :: "nat \<Rightarrow> 'w::len word \<Rightarrow> u8" where
  "byte_of k w = ucast (drop_bit (8 * k) w)"

definition store16 :: "u16 \<Rightarrow> nat \<Rightarrow> u8 list \<Rightarrow> u8 list" where
  "store16 w i bs = bs[i := byte_of 0 w, i + 1 := byte_of 1 w]"

definition store32 :: "u32 \<Rightarrow> nat \<Rightarrow> u8 list \<Rightarrow> u8 list" where
  "store32 w i bs = bs[i := byte_of 0 w, i + 1 := byte_of 1 w, i + 2 := byte_of 2 w, i + 3 := byte_of 3 w]"

lemma bit_byte_of: "bit (byte_of k w) n \<longleftrightarrow> n < 8 \<and> bit w (8 * k + n)"
  by (auto simp: byte_of_def bit_simps ac_simps dest: bit_imp_le_length)

lemma store_length [simp]: "length (store16 w i bs) = length bs" "length (store32 v i bs) = length bs"
  by (simp_all add: store16_def store32_def)

lemma glue_bytes16: "ucast (byte_of 0 w) OR push_bit 8 (ucast (byte_of 1 w)) = (w :: u16)"
  (is "?l = w")
proof (rule bit_word_eqI)
  fix n assume n: "n < LENGTH(16)"
  show "bit ?l n = bit w n"
  proof (cases "n < 8")
    case True
    then show ?thesis by (simp add: bit_simps bit_byte_of)
  next
    case False
    then have "n = 8 + (n - 8)" "n - 8 < 8" using n by simp_all
    then show ?thesis using False n by (simp add: bit_simps bit_byte_of)
  qed
qed

lemma glue_bytes32:
  "ucast (byte_of 0 w) OR push_bit 8 (ucast (byte_of 1 w)) OR push_bit 16 (ucast (byte_of 2 w)) OR
   push_bit 24 (ucast (byte_of 3 w)) = (w :: u32)" (is "?l = w")
proof (rule bit_word_eqI)
  fix n assume n: "n < LENGTH(32)"
  show "bit ?l n = bit w n"
  proof (cases "n < 8")
    case True
    then show ?thesis by (simp add: bit_simps bit_byte_of)
  next
    case a: False
    show ?thesis
    proof (cases "n < 16")
      case True
      then have "n - 8 < 8" using a by simp
      then show ?thesis using True a by (simp add: bit_simps bit_byte_of)
    next
      case b: False
      show ?thesis
      proof (cases "n < 24")
        case True
        then have "n - 16 < 8" using b by simp
        then show ?thesis using True a b by (auto simp: bit_simps bit_byte_of)
      next
        case False
        then have "n - 24 < 8" using n by simp
        then show ?thesis using False a b n by (auto simp: bit_simps bit_byte_of)
      qed
    qed
  qed
qed

lemma load_store16: "i + 1 < length bs \<Longrightarrow> load16 (store16 w i bs) i = w"
  using glue_bytes16 [of w] by (simp add: load16_def store16_def)

lemma load_store32: "i + 3 < length bs \<Longrightarrow> le32 (store32 w i bs) i = w"
  using glue_bytes32 [of w] by (simp add: le32_def store32_def)

lemma nth_store:
  "j \<noteq> i \<Longrightarrow> j \<noteq> Suc i \<Longrightarrow> store16 w i bs ! j = bs ! j"
  "j \<noteq> i \<Longrightarrow> j \<noteq> i + 1 \<Longrightarrow> j \<noteq> i + 2 \<Longrightarrow> j \<noteq> i + 3 \<Longrightarrow> store32 v i bs ! j = bs ! j"
  by (simp_all add: store16_def store32_def)

section \<open>Byte order conversion\<close>

text \<open>
  The loop of the \<open>hton\<close> functions: the array of \<open>k\<close> bytes it fills from the last one down.
  The result is the array read as an integer of the (little-endian) host.
\<close>

fun hton_loop :: "nat \<Rightarrow> 'w::len word \<Rightarrow> u8 list" where
  "hton_loop 0 n = []"
| "hton_loop (Suc k) n = hton_loop k (drop_bit 8 n) @ [ucast n]"

definition hton16 :: "u16 \<Rightarrow> u16" where
  "hton16 n = load16 (hton_loop 2 n) 0"

definition hton32 :: "u32 \<Rightarrow> u32" where
  "hton32 n = le32 (hton_loop 4 n) 0"

definition hton64 :: "u64 \<Rightarrow> u64" where
  "hton64 n = le64 (hton_loop 8 n) 0"

definition ntoh16 :: "u16 \<Rightarrow> u16" where
  "ntoh16 n = hton16 n"

definition ntoh32 :: "u32 \<Rightarrow> u32" where
  "ntoh32 n = hton32 n"

definition ntoh64 :: "u64 \<Rightarrow> u64" where
  "ntoh64 n = hton64 n"

text \<open>On a big-endian host the functions return their argument, but the result type of the 32 bit
  ones has 16 bits.\<close>

definition hton16_be :: "u16 \<Rightarrow> u16" where
  "hton16_be n = n"

definition hton32_be :: "u32 \<Rightarrow> u16" where
  "hton32_be n = ucast n"

definition ntoh16_be :: "u16 \<Rightarrow> u16" where
  "ntoh16_be n = n"

definition ntoh32_be :: "u32 \<Rightarrow> u16" where
  "ntoh32_be n = ucast n"

lemma hton_loop_bytes: "hton_loop k n = rev (map (\<lambda>i. byte_of i n) [0..<k])"
proof (induction k arbitrary: n)
  case 0
  then show ?case by simp
next
  case (Suc k)
  have "map (\<lambda>i. byte_of i (drop_bit 8 n)) [0..<k] = map (\<lambda>i. byte_of i n) (map Suc [0..<k])"
    by (simp add: byte_of_def add.commute)
  moreover have "[0..<Suc k] = 0 # map Suc [0..<k]"
    by (simp add: map_Suc_upt upt_conv_Cons)
  ultimately show ?case
    by (simp add: Suc byte_of_def del: upt_Suc)
qed

lemma byte_of_load16:
  "byte_of 0 (load16 bs i) = bs ! i" "byte_of 1 (load16 bs i) = bs ! (i + 1)"
  by (rule bit_word_eqI; auto simp: bit_byte_of load16_def bit_simps dest: bit_imp_le_length)+

lemma byte_of_le32:
  "byte_of 0 (le32 bs i) = bs ! i" "byte_of 1 (le32 bs i) = bs ! (i + 1)"
  "byte_of 2 (le32 bs i) = bs ! (i + 2)" "byte_of 3 (le32 bs i) = bs ! (i + 3)"
  by (rule bit_word_eqI; auto simp: bit_byte_of le32_def bit_simps dest: bit_imp_le_length)+

lemma hton16_bytes: "byte_of 0 (hton16 n) = byte_of 1 n" "byte_of 1 (hton16 n) = byte_of 0 n"
  by (simp_all add: hton16_def byte_of_load16 hton_loop_bytes numeral_2_eq_2 del: One_nat_def) simp_all

lemma upt_4: "[0..<4] = [0, 1, 2, 3 :: nat]"
  by (simp add: upt_rec)

lemma hton32_bytes:
  "byte_of 0 (hton32 n) = byte_of 3 n" "byte_of 1 (hton32 n) = byte_of 2 n"
  "byte_of 2 (hton32 n) = byte_of 1 n" "byte_of 3 (hton32 n) = byte_of 0 n"
  by (simp_all add: hton32_def byte_of_le32 hton_loop_bytes upt_4 del: One_nat_def)

lemma word16_eqI: "byte_of 0 (a :: u16) = byte_of 0 b \<Longrightarrow> byte_of 1 a = byte_of 1 b \<Longrightarrow> a = b"
  by (metis glue_bytes16)

lemma word32_eqI:
  "byte_of 0 (a :: u32) = byte_of 0 b \<Longrightarrow> byte_of 1 a = byte_of 1 b \<Longrightarrow> byte_of 2 a = byte_of 2 b \<Longrightarrow>
   byte_of 3 a = byte_of 3 b \<Longrightarrow> a = b"
  by (metis glue_bytes32)

lemma hton16_inv [simp]: "hton16 (hton16 n) = n"
  by (rule word16_eqI) (simp_all add: hton16_bytes del: One_nat_def)

lemma hton32_inv [simp]: "hton32 (hton32 n) = n"
  by (rule word32_eqI) (simp_all add: hton32_bytes del: One_nat_def)

lemma ntoh_hton [simp]:
  "ntoh16 (hton16 n) = n" "ntoh32 (hton32 m) = m" "hton16 (ntoh16 n) = n" "hton32 (ntoh32 m) = m"
  by (simp_all add: ntoh16_def ntoh32_def)

end
