(* ===== verification/PacketModel.thy ===== *)
theory PacketModel
  imports NetBytes
begin

text \<open>
  The packet buffer of src/net/packet/Packet.h: one array with space for headers in front of the
  payload, and write, read and header positions.  A pointer into the packet is an offset into the
  array.  \<open>None\<close> as the result of a copy means that it leaves the array.
\<close>

section \<open>State and operations\<close>

record packet =
  pk_buff :: "u8 list"
  pk_size :: size_t
  pk_hsize :: size_t
  pk_wpos :: size_t
  pk_rpos :: size_t
  pk_hpos :: size_t

definition pk_init :: "u8 list \<Rightarrow> size_t \<Rightarrow> size_t \<Rightarrow> packet" where
  "pk_init buff n hsize =
     \<lparr>pk_buff = buff, pk_size = n + hsize, pk_hsize = hsize, pk_wpos = hsize, pk_rpos = hsize,
      pk_hpos = hsize\<rparr>"

text \<open>Copying into and out of the array.\<close>

definition mem_write :: "nat \<Rightarrow> u8 list \<Rightarrow> u8 list \<Rightarrow> u8 list option" where
  "mem_write off data bs =
     (if off + length data \<le> length bs then Some (take off bs @ data @ drop (off + length data) bs) else None)"

definition mem_read :: "nat \<Rightarrow> nat \<Rightarrow> u8 list \<Rightarrow> u8 list option" where
  "mem_read off n bs = (if off + n \<le> length bs then Some (take n (drop off bs)) else None)"

definition pk_push :: "u8 list \<Rightarrow> packet \<Rightarrow> (ret_type \<times> packet) option" where
  "pk_push data p =
     (let len = of_nat (length data) :: size_t
      in if len + pk_wpos p > pk_size p then Some (RET_ERROR, p)
         else map_option (\<lambda>bs. (RET_SUCCESS, p\<lparr>pk_buff := bs, pk_wpos := pk_wpos p + len\<rparr>))
                (mem_write (unat (pk_wpos p)) data (pk_buff p)))"

definition pk_read :: "size_t \<Rightarrow> packet \<Rightarrow> (ret_type \<times> u8 list \<times> packet) option" where
  "pk_read len p =
     (if len + pk_rpos p > pk_wpos p then Some (RET_ERROR, [], p)
      else map_option (\<lambda>xs. (RET_SUCCESS, xs, p\<lparr>pk_rpos := pk_rpos p + len\<rparr>))
             (mem_read (unat (pk_rpos p)) (unat len) (pk_buff p)))"

text \<open>Typed pointers, for an object of \<open>n\<close> bytes.\<close>

definition pk_write_ptr :: "size_t \<Rightarrow> packet \<Rightarrow> nat option" where
  "pk_write_ptr n p = (if pk_wpos p + n > pk_size p then None else Some (unat (pk_wpos p)))"

definition pk_read_ptr :: "size_t \<Rightarrow> packet \<Rightarrow> nat option" where
  "pk_read_ptr n p = (if pk_rpos p + n > pk_wpos p then None else Some (unat (pk_rpos p)))"

definition pk_skip_read :: "size_t \<Rightarrow> packet \<Rightarrow> ret_type \<times> packet" where
  "pk_skip_read len p =
     (if pk_rpos p + len > pk_wpos p then (RET_ERROR, p)
      else (RET_SUCCESS, p\<lparr>pk_rpos := pk_rpos p + len\<rparr>))"

definition pk_skip_write :: "size_t \<Rightarrow> packet \<Rightarrow> ret_type \<times> packet" where
  "pk_skip_write len p =
     (if len + pk_wpos p > pk_size p then (RET_ERROR, p)
      else (RET_SUCCESS, p\<lparr>pk_wpos := pk_wpos p + len\<rparr>))"

definition pk_erase :: "size_t \<Rightarrow> packet \<Rightarrow> (ret_type \<times> packet) option" where
  "pk_erase len p =
     (if pk_wpos p - len < pk_hsize p then Some (RET_ERROR, p)
      else
        (let p1 = p\<lparr>pk_wpos := pk_wpos p - len\<rparr>
         in map_option (\<lambda>bs. (RET_SUCCESS, p1\<lparr>pk_buff := bs\<rparr>))
              (mem_write (unat (pk_wpos p1)) (replicate (unat len) 0) (pk_buff p1))))"

definition pk_available :: "packet \<Rightarrow> size_t" where
  "pk_available p = pk_wpos p - pk_rpos p"

definition pk_truncate :: "size_t \<Rightarrow> packet \<Rightarrow> ret_type \<times> packet" where
  "pk_truncate n p =
     (if n > pk_available p then (RET_ERROR, p)
      else (RET_SUCCESS, p\<lparr>pk_wpos := pk_wpos p - (pk_available p - n)\<rparr>))"

definition pk_allocate_header :: "size_t \<Rightarrow> packet \<Rightarrow> nat option \<times> packet" where
  "pk_allocate_header n p =
     (if n > pk_hpos p then (None, p)
      else (let p1 = p\<lparr>pk_hpos := pk_hpos p - n\<rparr> in (Some (unat (pk_hpos p1)), p1)))"

definition pk_header_ptr :: "size_t \<Rightarrow> packet \<Rightarrow> nat option" where
  "pk_header_ptr n p = (if n > pk_hsize p then None else Some (unat (pk_hpos p)))"

definition pk_seek_read :: "bool \<Rightarrow> packet \<Rightarrow> packet" where
  "pk_seek_read headers p = (if headers then p\<lparr>pk_rpos := pk_hpos p\<rparr> else p\<lparr>pk_rpos := pk_hsize p\<rparr>)"

definition pk_seek_header :: "packet \<Rightarrow> packet" where
  "pk_seek_header p = p\<lparr>pk_hpos := pk_hsize p\<rparr>"

definition pk_seek_write :: "packet \<Rightarrow> packet" where
  "pk_seek_write p = p\<lparr>pk_wpos := pk_hsize p\<rparr>"

definition pk_clear :: "packet \<Rightarrow> packet" where
  "pk_clear p = p\<lparr>pk_wpos := pk_hsize p, pk_rpos := pk_hsize p, pk_hpos := pk_hsize p\<rparr>"

definition pk_payload_size :: "packet \<Rightarrow> size_t" where
  "pk_payload_size p = pk_wpos p - pk_hsize p"

definition pk_header_size :: "packet \<Rightarrow> size_t" where
  "pk_header_size p = pk_hsize p - pk_hpos p"

definition pk_capacity :: "packet \<Rightarrow> size_t" where
  "pk_capacity p = pk_size p - pk_hsize p"

definition pk_raw :: "packet \<Rightarrow> nat" where
  "pk_raw p = unat (pk_hpos p)"

section \<open>Invariant\<close>

definition pk_inv :: "packet \<Rightarrow> bool" where
  "pk_inv p \<longleftrightarrow>
     length (pk_buff p) = unat (pk_size p) \<and> pk_hpos p \<le> pk_hsize p \<and> pk_hsize p \<le> pk_size p \<and>
     pk_wpos p \<le> pk_size p \<and> pk_rpos p \<le> pk_wpos p"

definition pk_unread :: "packet \<Rightarrow> u8 list" where
  "pk_unread p = take (unat (pk_wpos p) - unat (pk_rpos p)) (drop (unat (pk_rpos p)) (pk_buff p))"

lemma pk_unread_length: "pk_inv p \<Longrightarrow> length (pk_unread p) = unat (pk_wpos p) - unat (pk_rpos p)"
  by (auto simp: pk_unread_def pk_inv_def word_le_nat_alt min_def)

lemma pk_available_unat: "pk_inv p \<Longrightarrow> unat (pk_available p) = length (pk_unread p)"
  by (simp add: pk_unread_length) (simp add: pk_available_def pk_inv_def unat_sub)

lemma pk_init_inv:
  "unat n + unat h < 2 ^ 32 \<Longrightarrow> length buff = unat n + unat h \<Longrightarrow> pk_inv (pk_init buff n h)"
  by (simp add: pk_inv_def pk_init_def word_le_nat_alt unat_word_ariths)

lemma word_add_noover: "unat a + unat b < 2 ^ 32 \<Longrightarrow> unat (a + b :: 32 word) = unat a + unat b"
  by (simp add: unat_word_ariths)

lemma pk_push_ok:
  assumes inv: "pk_inv p" and small: "length data + unat (pk_size p) < 2 ^ 32"
  shows "if length data + unat (pk_wpos p) > unat (pk_size p) then pk_push data p = Some (RET_ERROR, p)
    else \<exists>p'. pk_push data p = Some (RET_SUCCESS, p') \<and> pk_inv p' \<and> pk_unread p' = pk_unread p @ data \<and>
      pk_hpos p' = pk_hpos p \<and> pk_rpos p' = pk_rpos p \<and> pk_hsize p' = pk_hsize p \<and> pk_size p' = pk_size p \<and>
      pk_wpos p' = pk_wpos p + of_nat (length data) \<and>
      pk_buff p' = take (unat (pk_wpos p)) (pk_buff p) @ data @ drop (unat (pk_wpos p) + length data) (pk_buff p)"
proof -
  let ?w = "unat (pk_wpos p)" and ?r = "unat (pk_rpos p)" and ?n = "length data"
  have bounds: "?w \<le> unat (pk_size p)" "?r \<le> ?w" "length (pk_buff p) = unat (pk_size p)"
    using inv by (auto simp: pk_inv_def word_le_nat_alt)
  have n: "unat (of_nat ?n :: size_t) = ?n"
    using small by simp
  have sum: "unat (of_nat ?n + pk_wpos p) = ?n + ?w" "unat (pk_wpos p + of_nat ?n) = ?w + ?n"
    using word_add_noover [of "of_nat ?n" "pk_wpos p"] bounds small n by (simp_all add: ac_simps)
  show ?thesis
  proof (cases "?n + ?w > unat (pk_size p)")
    case True
    then show ?thesis
      using sum by (simp add: pk_push_def Let_def word_less_nat_alt)
  next
    case False
    let ?b = "take ?w (pk_buff p) @ data @ drop (?w + ?n) (pk_buff p)"
    let ?p' = "p\<lparr>pk_buff := ?b, pk_wpos := pk_wpos p + of_nat ?n\<rparr>"
    have "pk_push data p = Some (RET_SUCCESS, ?p')"
      using False sum bounds by (simp add: pk_push_def Let_def word_less_nat_alt mem_write_def)
    moreover have "pk_inv ?p'"
      using inv False sum bounds by (simp add: pk_inv_def word_le_nat_alt)
    moreover have "pk_unread ?p' = pk_unread p @ data"
      using bounds False sum by (simp add: pk_unread_def drop_take)
    ultimately show ?thesis
      using False by simp
  qed
qed

lemma pk_read_ok:
  assumes inv: "pk_inv p" and small: "unat len + unat (pk_size p) < 2 ^ 32"
  shows "if unat len > length (pk_unread p) then pk_read len p = Some (RET_ERROR, [], p)
    else \<exists>p'. pk_read len p = Some (RET_SUCCESS, take (unat len) (pk_unread p), p') \<and> pk_inv p' \<and>
      pk_unread p' = drop (unat len) (pk_unread p)"
proof -
  let ?w = "unat (pk_wpos p)" and ?r = "unat (pk_rpos p)" and ?n = "unat len"
  have bounds: "?w \<le> unat (pk_size p)" "?r \<le> ?w" "length (pk_buff p) = unat (pk_size p)"
    using inv by (auto simp: pk_inv_def word_le_nat_alt)
  have sum: "unat (len + pk_rpos p) = ?n + ?r" "unat (pk_rpos p + len) = ?r + ?n"
    using word_add_noover [of len "pk_rpos p"] bounds small by (simp_all add: ac_simps)
  show ?thesis
  proof (cases "?n > length (pk_unread p)")
    case True
    then show ?thesis
      using sum bounds by (simp add: pk_read_def word_less_nat_alt pk_unread_length [OF inv])
  next
    case False
    then have le: "?r + ?n \<le> ?w"
      using bounds by (simp add: pk_unread_length [OF inv])
    let ?p' = "p\<lparr>pk_rpos := pk_rpos p + len\<rparr>"
    have "pk_read len p = Some (RET_SUCCESS, take ?n (pk_unread p), ?p')"
      using le sum bounds
      by (simp add: pk_read_def word_less_nat_alt mem_read_def pk_unread_def ac_simps)
    moreover have "pk_inv ?p'"
      using inv le sum by (simp add: pk_inv_def word_le_nat_alt)
    moreover have "pk_unread ?p' = drop ?n (pk_unread p)"
      using bounds sum by (simp add: pk_unread_def drop_take ac_simps)
    ultimately show ?thesis
      using False by simp
  qed
qed

lemma pk_skip_read_ok:
  assumes inv: "pk_inv p" and small: "unat len + unat (pk_size p) < 2 ^ 32"
  shows "if unat len > length (pk_unread p) then pk_skip_read len p = (RET_ERROR, p)
    else \<exists>p'. pk_skip_read len p = (RET_SUCCESS, p') \<and> pk_inv p' \<and>
      p' = p\<lparr>pk_rpos := pk_rpos p + len\<rparr> \<and> unat (pk_rpos p') = unat (pk_rpos p) + unat len \<and>
      pk_unread p' = drop (unat len) (pk_unread p)"
proof -
  let ?w = "unat (pk_wpos p)" and ?r = "unat (pk_rpos p)" and ?n = "unat len"
  have bounds: "?w \<le> unat (pk_size p)" "?r \<le> ?w" "length (pk_buff p) = unat (pk_size p)"
    using inv by (auto simp: pk_inv_def word_le_nat_alt)
  have sum: "unat (pk_rpos p + len) = ?r + ?n"
    using word_add_noover [of "pk_rpos p" len] bounds small by (simp add: ac_simps)
  show ?thesis
  proof (cases "?n > length (pk_unread p)")
    case True
    then show ?thesis
      using sum bounds by (simp add: pk_skip_read_def word_less_nat_alt pk_unread_length [OF inv])
  next
    case False
    then have le: "?r + ?n \<le> ?w"
      using bounds by (simp add: pk_unread_length [OF inv])
    let ?p' = "p\<lparr>pk_rpos := pk_rpos p + len\<rparr>"
    have "pk_skip_read len p = (RET_SUCCESS, ?p')"
      using le sum by (simp add: pk_skip_read_def word_less_nat_alt)
    moreover have "pk_inv ?p'"
      using inv le sum by (simp add: pk_inv_def word_le_nat_alt)
    moreover have "pk_unread ?p' = drop ?n (pk_unread p)"
      using bounds sum by (simp add: pk_unread_def drop_take ac_simps)
    ultimately show ?thesis
      using False sum by simp
  qed
qed

lemma pk_truncate_ok:
  assumes inv: "pk_inv p"
  shows "if unat n > length (pk_unread p) then pk_truncate n p = (RET_ERROR, p)
    else \<exists>p'. pk_truncate n p = (RET_SUCCESS, p') \<and> pk_inv p' \<and>
      p' = p\<lparr>pk_wpos := pk_wpos p'\<rparr> \<and> unat (pk_wpos p') = unat (pk_rpos p) + unat n \<and>
      pk_unread p' = take (unat n) (pk_unread p)"
proof (cases "unat n > length (pk_unread p)")
  case True
  then show ?thesis
    using pk_available_unat [OF inv] by (simp add: pk_truncate_def word_less_nat_alt)
next
  case False
  let ?w = "unat (pk_wpos p)" and ?r = "unat (pk_rpos p)"
  have bounds: "?w \<le> unat (pk_size p)" "?r \<le> ?w" "length (pk_buff p) = unat (pk_size p)"
    using inv by (auto simp: pk_inv_def word_le_nat_alt)
  have av: "unat (pk_available p) = ?w - ?r"
    using pk_available_unat [OF inv] pk_unread_length [OF inv] by simp
  have le: "unat n \<le> ?w - ?r"
    using False pk_unread_length [OF inv] by simp
  then have d: "unat (pk_available p - n) = ?w - ?r - unat n"
    using av by (simp add: unat_sub word_le_nat_alt)
  then have w': "unat (pk_wpos p - (pk_available p - n)) = ?r + unat n"
    using bounds le by (simp add: unat_sub word_le_nat_alt)
  let ?p' = "p\<lparr>pk_wpos := pk_wpos p - (pk_available p - n)\<rparr>"
  have "pk_truncate n p = (RET_SUCCESS, ?p')"
    using le av by (simp add: pk_truncate_def word_less_nat_alt)
  moreover have "pk_inv ?p'"
    using inv w' le bounds by (simp add: pk_inv_def word_le_nat_alt)
  moreover have "pk_unread ?p' = take (unat n) (pk_unread p)"
    using w' le bounds by (simp add: pk_unread_def min_def)
  ultimately show ?thesis
    using False w' by simp
qed

lemma pk_allocate_header_ok:
  assumes inv: "pk_inv p" and n: "n \<le> pk_hpos p"
  shows "\<exists>p'. pk_allocate_header n p = (Some (unat (pk_hpos p) - unat n), p') \<and> pk_inv p' \<and>
    p' = p\<lparr>pk_hpos := pk_hpos p - n\<rparr> \<and> unat (pk_hpos p') = unat (pk_hpos p) - unat n"
proof -
  have u: "unat (pk_hpos p - n) = unat (pk_hpos p) - unat n"
    using n by (simp add: unat_sub)
  then have "pk_inv (p\<lparr>pk_hpos := pk_hpos p - n\<rparr>)"
    using inv n by (auto simp: pk_inv_def word_le_nat_alt)
  then show ?thesis
    using n u by (simp add: pk_allocate_header_def Let_def)
qed

lemma pk_allocate_header_full: "pk_hpos p < n \<Longrightarrow> pk_allocate_header n p = (None, p)"
  by (simp add: pk_allocate_header_def)

lemma pk_seek_ok:
  "pk_inv p \<Longrightarrow> pk_inv (pk_seek_header p)"
  "pk_inv p \<Longrightarrow> pk_hpos p \<le> pk_wpos p \<Longrightarrow> pk_inv (pk_seek_read True p)"
  "pk_inv p \<Longrightarrow> pk_hsize p \<le> pk_wpos p \<Longrightarrow> pk_inv (pk_seek_read False p)"
  "pk_inv p \<Longrightarrow> pk_inv (pk_clear p)"
  by (simp_all add: pk_inv_def pk_seek_header_def pk_seek_read_def pk_clear_def)

text \<open>The headers and the payload of a packet.\<close>

definition pk_frame :: "packet \<Rightarrow> u8 list" where
  "pk_frame p = take (unat (pk_wpos p) - unat (pk_hpos p)) (drop (unat (pk_hpos p)) (pk_buff p))"

lemma frame_seek: "pk_unread (pk_seek_read True p) = pk_frame p"
  by (simp add: pk_unread_def pk_frame_def pk_seek_read_def)

text \<open>The effect of a successful push.\<close>

definition pk_wrote :: "u8 list \<Rightarrow> packet \<Rightarrow> packet" where
  "pk_wrote data p =
     p\<lparr>pk_buff := take (unat (pk_wpos p)) (pk_buff p) @ data @ drop (unat (pk_wpos p) + length data) (pk_buff p),
       pk_wpos := pk_wpos p + of_nat (length data)\<rparr>"

lemma pk_push_wrote:
  assumes "pk_inv p" and "length data + unat (pk_size p) < 2 ^ 32"
    and "unat (pk_wpos p) + length data \<le> unat (pk_size p)"
  shows "pk_push data p = Some (RET_SUCCESS, pk_wrote data p)" and "pk_inv (pk_wrote data p)"
    and "unat (pk_wpos (pk_wrote data p)) = unat (pk_wpos p) + length data"
proof -
  obtain p' where p': "pk_push data p = Some (RET_SUCCESS, p')" "pk_inv p'"
    using pk_push_ok [OF assms(1,2)] assms(3) by (auto split: if_splits)
  have "p' = pk_wrote data p"
    using p'(1) by (auto simp: pk_push_def mem_write_def pk_wrote_def Let_def split: if_splits)
  with p' show "pk_push data p = Some (RET_SUCCESS, pk_wrote data p)" and "pk_inv (pk_wrote data p)"
    by simp_all
  show "unat (pk_wpos (pk_wrote data p)) = unat (pk_wpos p) + length data"
    using word_add_noover [of "pk_wpos p" "of_nat (length data)"] assms(2,3) by (simp add: pk_wrote_def)
qed

lemma pk_wrote_fields [simp]:
  "pk_hpos (pk_wrote d p) = pk_hpos p" "pk_hsize (pk_wrote d p) = pk_hsize p" "pk_rpos (pk_wrote d p) = pk_rpos p"
  "pk_size (pk_wrote d p) = pk_size p"
  by (simp_all add: pk_wrote_def)

lemma pk_wrote_frame:
  assumes "pk_inv p" and "length data + unat (pk_size p) < 2 ^ 32"
    and "unat (pk_wpos p) + length data \<le> unat (pk_size p)" and "pk_hpos p \<le> pk_wpos p"
  shows "pk_frame (pk_wrote data p) = pk_frame p @ data"
proof -
  have "length (pk_buff p) = unat (pk_size p)" "unat (pk_hpos p) \<le> unat (pk_wpos p)"
      "unat (pk_wpos p) \<le> unat (pk_size p)"
    using assms(1,4) by (auto simp: pk_inv_def word_le_nat_alt)
  then show ?thesis
    using pk_push_wrote(3) [OF assms(1-3)] assms(3)
    by (simp add: pk_frame_def) (simp add: pk_wrote_def drop_take)
qed

section \<open>Properties\<close>

text \<open>Any sequence of pushes and reads, with their results, and the same on a queue of bytes that
  has room for so many more: the room is not given back when bytes are read.\<close>

datatype pk_op = PkPush "u8 list" | PkRead size_t

fun pk_run :: "pk_op list \<Rightarrow> packet \<Rightarrow> ((ret_type \<times> u8 list) list \<times> packet) option" where
  "pk_run [] p = Some ([], p)"
| "pk_run (PkPush data # ops) p =
     (case pk_push data p of
        None \<Rightarrow> None
      | Some (r, p1) \<Rightarrow> map_option (\<lambda>(rs, p2). ((r, []) # rs, p2)) (pk_run ops p1))"
| "pk_run (PkRead n # ops) p =
     (case pk_read n p of
        None \<Rightarrow> None
      | Some (r, xs, p1) \<Rightarrow> map_option (\<lambda>(rs, p2). ((r, xs) # rs, p2)) (pk_run ops p1))"

fun byte_queue :: "pk_op list \<Rightarrow> nat \<Rightarrow> u8 list \<Rightarrow> (ret_type \<times> u8 list) list \<times> nat \<times> u8 list" where
  "byte_queue [] room q = ([], room, q)"
| "byte_queue (PkPush data # ops) room q =
     (let ok = length data \<le> room;
          (rs, r) = byte_queue ops (if ok then room - length data else room) (if ok then q @ data else q)
      in ((if ok then RET_SUCCESS else RET_ERROR, []) # rs, r))"
| "byte_queue (PkRead n # ops) room q =
     (let ok = unat n \<le> length q;
          (rs, r) = byte_queue ops room (if ok then drop (unat n) q else q)
      in ((if ok then RET_SUCCESS else RET_ERROR, if ok then take (unat n) q else []) # rs, r))"

definition pk_op_size :: "pk_op \<Rightarrow> nat" where
  "pk_op_size x = (case x of PkPush data \<Rightarrow> length data | PkRead n \<Rightarrow> unat n)"

definition pk_room :: "packet \<Rightarrow> nat" where
  "pk_room p = unat (pk_size p) - unat (pk_wpos p)"

text \<open>What pushes and reads leave alone: the bytes in front of the write position and the header.\<close>

definition pk_kept :: "packet \<Rightarrow> packet \<Rightarrow> bool" where
  "pk_kept p p' \<longleftrightarrow>
     pk_hpos p' = pk_hpos p \<and> pk_hsize p' = pk_hsize p \<and> pk_size p' = pk_size p \<and>
     pk_wpos p \<le> pk_wpos p' \<and> take (unat (pk_wpos p)) (pk_buff p') = take (unat (pk_wpos p)) (pk_buff p)"

lemma pk_kept_refl [simp]: "pk_kept p p"
  by (simp add: pk_kept_def)

lemma pk_kept_trans: "pk_kept p p1 \<Longrightarrow> pk_kept p1 p2 \<Longrightarrow> pk_kept p p2"
proof -
  assume a: "pk_kept p p1" "pk_kept p1 p2"
  have "take (unat (pk_wpos p)) (take (unat (pk_wpos p1)) (pk_buff p2)) =
      take (unat (pk_wpos p)) (take (unat (pk_wpos p1)) (pk_buff p1))"
    using a(2) by (simp add: pk_kept_def)
  then show ?thesis
    using a by (simp add: pk_kept_def min_absorb1 word_le_nat_alt)
qed

lemma pk_read_frame:
  "pk_read n p = Some (r, xs, p') \<Longrightarrow> pk_kept p p' \<and> pk_room p' = pk_room p"
  by (auto simp: pk_read_def pk_kept_def pk_room_def split: if_splits)

lemma pk_push_frame:
  assumes inv: "pk_inv p" and small: "length data + unat (pk_size p) < 2 ^ 32"
    and r: "pk_push data p = Some (r, p')"
  shows "pk_kept p p' \<and> pk_room p' = (if r = RET_SUCCESS then pk_room p - length data else pk_room p) \<and>
    (r = RET_SUCCESS \<longleftrightarrow> length data \<le> pk_room p)"
proof (cases "length data + unat (pk_wpos p) > unat (pk_size p)")
  case True
  have "unat (pk_wpos p) \<le> unat (pk_size p)"
    using inv by (simp add: pk_inv_def word_le_nat_alt)
  with True show ?thesis
    using pk_push_ok [OF inv small] r by (auto simp: pk_room_def)
next
  case False
  have w: "unat (pk_wpos p) \<le> unat (pk_size p)" "length (pk_buff p) = unat (pk_size p)"
    using inv by (auto simp: pk_inv_def word_le_nat_alt)
  have sum: "unat (pk_wpos p + of_nat (length data)) = unat (pk_wpos p) + length data"
    using word_add_noover [of "pk_wpos p" "of_nat (length data)"] w small by simp
  show ?thesis
    using pk_push_ok [OF inv small] r False w sum
    by (auto simp: pk_kept_def pk_room_def word_le_nat_alt)
qed

lemma pk_run_queue:
  "pk_inv p \<Longrightarrow> \<forall>x\<in>set ops. pk_op_size x + unat (pk_size p) < 2 ^ 32 \<Longrightarrow>
   byte_queue ops (pk_room p) (pk_unread p) = (rs, room, q) \<Longrightarrow>
   \<exists>p'. pk_run ops p = Some (rs, p') \<and> pk_inv p' \<and> pk_room p' = room \<and> pk_unread p' = q \<and> pk_kept p p'"
proof (induction ops arbitrary: p rs)
  case Nil
  then show ?case by simp
next
  case (Cons x ops)
  show ?case
  proof (cases x)
    case (PkPush data)
    then have small: "length data + unat (pk_size p) < 2 ^ 32"
      using Cons.prems(2) by (simp add: pk_op_size_def)
    obtain r p1 where p1: "pk_push data p = Some (r, p1)"
        "pk_inv p1" "pk_unread p1 = (if r = RET_SUCCESS then pk_unread p @ data else pk_unread p)"
        "r = RET_SUCCESS \<or> r = RET_ERROR"
      using pk_push_ok [OF Cons.prems(1) small] Cons.prems(1)
      by (cases "length data + unat (pk_wpos p) > unat (pk_size p)") auto
    note fr = pk_push_frame [OF Cons.prems(1) small p1(1)]
    obtain rs' where rs': "rs = (r, []) # rs'" "byte_queue ops (pk_room p1) (pk_unread p1) = (rs', room, q)"
      using Cons.prems(3) PkPush fr p1(3,4) by (auto simp: Let_def split: prod.splits if_splits)
    have "\<forall>x\<in>set ops. pk_op_size x + unat (pk_size p1) < 2 ^ 32"
      using Cons.prems(2) fr by (simp add: pk_kept_def)
    from Cons.IH [OF p1(2) this rs'(2)] obtain p' where
      "pk_run ops p1 = Some (rs', p')" "pk_inv p'" "pk_room p' = room" "pk_unread p' = q" "pk_kept p1 p'"
      by blast
    then show ?thesis
      using PkPush p1(1) rs'(1) pk_kept_trans [of p p1 p'] fr by simp
  next
    case (PkRead n)
    then have small: "unat n + unat (pk_size p) < 2 ^ 32"
      using Cons.prems(2) by (simp add: pk_op_size_def)
    obtain r xs p1 where p1: "pk_read n p = Some (r, xs, p1)" "pk_inv p1"
        "if unat n \<le> length (pk_unread p)
         then r = RET_SUCCESS \<and> xs = take (unat n) (pk_unread p) \<and> pk_unread p1 = drop (unat n) (pk_unread p)
         else r = RET_ERROR \<and> xs = [] \<and> p1 = p"
      using pk_read_ok [OF Cons.prems(1) small] Cons.prems(1)
      by (cases "unat n > length (pk_unread p)") auto
    note fr = pk_read_frame [OF p1(1)]
    obtain rs' where rs': "rs = (r, xs) # rs'" "byte_queue ops (pk_room p1) (pk_unread p1) = (rs', room, q)"
      using Cons.prems(3) PkRead fr p1(3) by (auto simp: Let_def split: prod.splits if_splits)
    have "\<forall>x\<in>set ops. pk_op_size x + unat (pk_size p1) < 2 ^ 32"
      using Cons.prems(2) fr by (simp add: pk_kept_def)
    from Cons.IH [OF p1(2) this rs'(2)] obtain p' where
      "pk_run ops p1 = Some (rs', p')" "pk_inv p'" "pk_room p' = room" "pk_unread p' = q" "pk_kept p1 p'"
      by blast
    then show ?thesis
      using PkRead p1(1) rs'(1) pk_kept_trans [of p p1 p'] fr by simp
  qed
qed

text \<open>C16: A packet is a byte queue: any sequence of pushes and reads, in any order, has exactly the
  results that it has on a queue of bytes with the room that is left behind the write position (a
  push that fits appends, a read of no more than is there returns the oldest bytes in order, all
  others report an error and change nothing), none of them leaves the array, and afterwards the
  invariant holds, the unread bytes are the queue, and the headers, the sizes and all bytes in front
  of the old write position are as before.  (No length, added to the size of the packet, exceeds 32
  bits.)\<close>

theorem packet_push_read:
  assumes "pk_inv p" and "\<forall>x\<in>set ops. pk_op_size x + unat (pk_size p) < 2 ^ 32"
    and "byte_queue ops (pk_room p) (pk_unread p) = (rs, room, q)"
  shows "\<exists>p'. pk_run ops p = Some (rs, p') \<and> pk_inv p' \<and> pk_room p' = room \<and> pk_unread p' = q \<and>
    pk_kept p p'"
  using pk_run_queue [OF assms] .

text \<open>Three bytes are pushed into a packet of four, two more do not fit, and two reads get two and
  one of the three; a third finds nothing.\<close>

theorem packet_push_read_witness:
  "\<exists>p'. pk_run [PkPush [1, 2, 3], PkPush [4, 5], PkRead 2, PkRead 1, PkRead 1] (pk_init [0, 0, 0, 0, 0, 0] 4 2) =
     Some ([(RET_SUCCESS, []), (RET_ERROR, []), (RET_SUCCESS, [1, 2]), (RET_SUCCESS, [3]), (RET_ERROR, [])], p') \<and>
     pk_unread p' = [] \<and> pk_room p' = 1"
proof -
  have inv: "pk_inv (pk_init [0, 0, 0, 0, 0, 0] 4 2)"
    by (rule pk_init_inv) simp_all
  have "byte_queue [PkPush [1, 2, 3], PkPush [4, 5], PkRead 2, PkRead 1, PkRead 1]
      (pk_room (pk_init [0, 0, 0, 0, 0, 0] 4 2)) (pk_unread (pk_init [0, 0, 0, 0, 0, 0] 4 2)) =
    ([(RET_SUCCESS, []), (RET_ERROR, []), (RET_SUCCESS, [1, 2]), (RET_SUCCESS, [3]), (RET_ERROR, [])], 1, [])"
    by code_simp
  from packet_push_read [OF inv _ this] show ?thesis
    by (auto simp: pk_op_size_def pk_init_def)
qed

text \<open>Erasing more bytes than were written is not refused: the write position wraps around to a huge
  value that passes the check against the header size, and the packet is then cleared outside of its
  array (\<open>None\<close>); erasing written payload is refused only when it would reach the headers.\<close>

theorem packet_erase_underflow:
  "pk_erase 4 \<lparr>pk_buff = [0, 0, 7, 0], pk_size = 4, pk_hsize = 2, pk_wpos = 3, pk_rpos = 2, pk_hpos = 2\<rparr> = None \<and>
   pk_erase 2 \<lparr>pk_buff = [0, 0, 7, 0], pk_size = 4, pk_hsize = 2, pk_wpos = 3, pk_rpos = 2, pk_hpos = 2\<rparr> =
     Some (RET_ERROR, \<lparr>pk_buff = [0, 0, 7, 0], pk_size = 4, pk_hsize = 2, pk_wpos = 3, pk_rpos = 2, pk_hpos = 2\<rparr>)"
  by (simp add: pk_erase_def mem_write_def Let_def unsigned_minus_1_eq_mask mask_eq_exp_minus_1)

end
