(* ===== verification/IPv4Model.thy ===== *)
theory IPv4Model
  imports PacketModel HashMapModel AllocQueueModel
begin

text \<open>
  IPv4 of src/net/ipv4 (ipv4.h, IPv4Router.h) on the interface of
  src/net/network_layer/NetworkLayer.h.  A layer is a value of a type \<open>'l\<close>.  Every call that a
  layer makes to the next one is the last thing its handler does, so a handler returns what it
  decided: an \<open>outcome\<close> that is either its return code or the layer and operation to call with
  the packet.  \<open>None\<close> stands for a null pointer that is followed or a loop that does not end.
\<close>

section \<open>The layer interface\<close>

record netaddr =
  na_mac :: "u8 list"
  na_ipv4 :: u32
  na_port :: u16

record netinfo =
  ni_src :: netaddr
  ni_dst :: netaddr
  ni_ignore :: bool

datatype 'l outcome = Done ret_type | Receive 'l | Transmit 'l | Transmit2 'l

definition set_src_ip :: "u32 \<Rightarrow> netinfo \<Rightarrow> netinfo" where
  "set_src_ip a i = i\<lparr>ni_src := (ni_src i)\<lparr>na_ipv4 := a\<rparr>\<rparr>"

definition set_dst_ip :: "u32 \<Rightarrow> netinfo \<Rightarrow> netinfo" where
  "set_dst_ip a i = i\<lparr>ni_dst := (ni_dst i)\<lparr>na_ipv4 := a\<rparr>\<rparr>"

definition set_src_port :: "u16 \<Rightarrow> netinfo \<Rightarrow> netinfo" where
  "set_src_port p i = i\<lparr>ni_src := (ni_src i)\<lparr>na_port := p\<rparr>\<rparr>"

lemma info_simps [simp]:
  "na_ipv4 (ni_src (set_src_ip a i)) = a" "na_ipv4 (ni_dst (set_src_ip a i)) = na_ipv4 (ni_dst i)"
  "na_ipv4 (ni_dst (set_dst_ip a i)) = a" "na_ipv4 (ni_src (set_dst_ip a i)) = na_ipv4 (ni_src i)"
  "ni_ignore (set_src_ip a i) = ni_ignore i" "ni_ignore (set_dst_ip a i) = ni_ignore i"
  "na_port (ni_dst (set_src_ip a i)) = na_port (ni_dst i)" "na_port (ni_dst (set_dst_ip a i)) = na_port (ni_dst i)"
  "na_port (ni_src (set_src_ip a i)) = na_port (ni_src i)" "na_port (ni_src (set_dst_ip a i)) = na_port (ni_src i)"
  "na_port (ni_src (set_src_port p i)) = p" "na_port (ni_dst (set_src_port p i)) = na_port (ni_dst i)"
  "na_ipv4 (ni_src (set_src_port p i)) = na_ipv4 (ni_src i)" "na_ipv4 (ni_dst (set_src_port p i)) = na_ipv4 (ni_dst i)"
  "ni_ignore (set_src_port p i) = ni_ignore i"
  by (simp_all add: set_src_ip_def set_dst_ip_def set_src_port_def)

section \<open>Addresses and checksum\<close>

definition DEFAULT_VERSION_IHL :: u8 where
  "DEFAULT_VERSION_IHL = 0x45"

definition DEFAULT_TTL :: u8 where
  "DEFAULT_TTL = 255"

definition UDP_PROTO :: u8 where
  "UDP_PROTO = 0x11"

definition ipv4_address :: "u8 \<Rightarrow> u8 \<Rightarrow> u8 \<Rightarrow> u8 \<Rightarrow> u32" where
  "ipv4_address a b c d =
     (((ucast d OR push_bit 8 (ucast c)) OR push_bit 16 (ucast b)) OR push_bit 24 (ucast a))"

definition is_multicast :: "u32 \<Rightarrow> bool" where
  "is_multicast addr = (if addr < 0xE0000000 \<or> addr > 0xEFFFFFFF then False else True)"

definition is_broadcast :: "u32 \<Rightarrow> bool" where
  "is_broadcast addr = (addr = 0xFFFFFFFF)"

text \<open>The checksum over the \<open>len\<close> bytes from \<open>off\<close>: a sum in 16 bits, so carries are lost.\<close>

definition ip_checksum :: "u8 list \<Rightarrow> nat \<Rightarrow> u16 \<Rightarrow> u16" where
  "ip_checksum bs off len = NOT (fold (\<lambda>i s. s + load16 bs (off + 2 * i)) [0..<unat len div 2] 0)"

section \<open>Subnets and routes\<close>

record 'l route =
  r_addr :: u32
  r_subnet :: u32
  r_next :: 'l

text \<open>The loops of \<open>valid_subnet\<close> and \<open>subnet_len\<close>, with the remaining bit positions.\<close>

fun valid_subnet_loop :: "nat list \<Rightarrow> bool \<Rightarrow> u32 \<Rightarrow> bool" where
  "valid_subnet_loop [] ones s = True"
| "valid_subnet_loop (i # is) ones s =
     (if ones then (if s AND push_bit i 1 = 0 then False else valid_subnet_loop is ones s)
      else (if s AND push_bit i 1 \<noteq> 0 then valid_subnet_loop is True s else valid_subnet_loop is ones s))"

definition valid_subnet :: "u32 \<Rightarrow> bool" where
  "valid_subnet s = valid_subnet_loop [0..<32] False s"

definition subnet_len :: "u32 \<Rightarrow> nat" where
  "subnet_len s = (case find (\<lambda>i. s AND push_bit i 1 \<noteq> 0) [0..<32] of None \<Rightarrow> 0 | Some i \<Rightarrow> 32 - i)"

definition route_sort :: "'l route \<Rightarrow> 'l route \<Rightarrow> bool" where
  "route_sort f s = (subnet_len (r_subnet f) > subnet_len (r_subnet s))"

section \<open>The router\<close>

definition IP_SIZE :: nat where
  "IP_SIZE = 25"

definition hash_u8 :: "u8 \<Rightarrow> size_t" where
  "hash_u8 b = xor_hash 1 (\<lambda>i. b)"

definition hash_u16 :: "u16 \<Rightarrow> size_t" where
  "hash_u16 w = xor_hash 2 (\<lambda>i. byte_of i w)"

definition hash_u32 :: "u32 \<Rightarrow> size_t" where
  "hash_u32 w = xor_hash 4 (\<lambda>i. byte_of i w)"

record 'l ip_router =
  rt_table :: "'l route aqueue"
  rt_incoming :: "(u32, 'l) hashmap"
  rt_prot :: "(u8, 'l) hashmap"
  rt_protnum :: "('l, u8) hashmap"
  rt_route :: "ptr option"
  rt_out :: u32
  rt_in :: u32
  rt_drop_out :: u32
  rt_drop_in :: u32

text \<open>Searching a queue with its iterator.  \<open>None\<close>: the links form a cycle without a match.\<close>

partial_function (option) it_search :: "(ptr \<Rightarrow> bool) \<Rightarrow> 'a heap \<Rightarrow> ptr option \<Rightarrow> ptr option option" where
  "it_search P h it =
     (case it_deref it of
        None \<Rightarrow> Some None
      | Some c \<Rightarrow> if P c then Some (Some c) else it_search P h (fst (it_step h it)))"

definition ip_add_outgoing_route ::
  "u32 \<Rightarrow> u32 \<Rightarrow> 'l \<Rightarrow> 'l ip_router \<Rightarrow> (ret_type \<times> 'l ip_router) option" where
  "ip_add_outgoing_route addr subnet layer r =
     (if \<not> valid_subnet subnet then Some (RET_ERROR, r)
      else
        (case sq_push route_sort \<lparr>r_addr = addr, r_subnet = subnet, r_next = layer\<rparr> (rt_table r) of
           None \<Rightarrow> None
         | Some (None, q) \<Rightarrow> Some (RET_ERROR, r\<lparr>rt_table := q\<rparr>)
         | Some (Some p, q) \<Rightarrow> Some (RET_SUCCESS, r\<lparr>rt_table := q\<rparr>)))"

definition ip_remove_outgoing_route ::
  "u32 \<Rightarrow> u32 \<Rightarrow> 'l ip_router \<Rightarrow> (ret_type \<times> 'l ip_router) option" where
  "ip_remove_outgoing_route addr subnet r =
     (case it_search (\<lambda>c. r_addr (aq_val (rt_table r) c) = addr \<and> r_subnet (aq_val (rt_table r) c) = subnet)
             (aq_heap (rt_table r)) (sq_iterator (rt_table r)) of
        None \<Rightarrow> None
      | Some None \<Rightarrow> Some (RET_SUCCESS, r)
      | Some (Some c) \<Rightarrow>
          map_option (\<lambda>q. (RET_SUCCESS, r\<lparr>rt_table := q\<rparr>)) (sq_remove c (rt_table r)))"

definition ip_add_incoming_route :: "u32 \<Rightarrow> 'l \<Rightarrow> 'l ip_router \<Rightarrow> ret_type \<times> 'l ip_router" where
  "ip_add_incoming_route addr layer r =
     (case hm_get hash_u32 addr (rt_incoming r) of
        Some i \<Rightarrow> (RET_ERROR, r)
      | None \<Rightarrow>
          (case hm_add hash_u32 addr (rt_incoming r) of
             (None, m) \<Rightarrow> (RET_ERROR, r\<lparr>rt_incoming := m\<rparr>)
           | (Some i, m) \<Rightarrow> (RET_SUCCESS, r\<lparr>rt_incoming := hm_put i layer m\<rparr>)))"

definition ip_remove_incoming_route :: "u32 \<Rightarrow> 'l ip_router \<Rightarrow> 'l ip_router" where
  "ip_remove_incoming_route addr r = r\<lparr>rt_incoming := snd (hm_remove hash_u32 addr (rt_incoming r))\<rparr>"

text \<open>\<open>lh\<close> is the hash of a layer pointer.\<close>

definition ip_add_protocol ::
  "('l \<Rightarrow> size_t) \<Rightarrow> u8 \<Rightarrow> 'l \<Rightarrow> 'l ip_router \<Rightarrow> (ret_type \<times> 'l ip_router) option" where
  "ip_add_protocol lh protocol layer r =
     (case hm_get hash_u8 protocol (rt_prot r) of
        Some i \<Rightarrow> Some (RET_ERROR, r)
      | None \<Rightarrow>
          (case hm_add hash_u8 protocol (rt_prot r) of
             (None, m) \<Rightarrow> Some (RET_ERROR, r\<lparr>rt_prot := m\<rparr>)
           | (Some i, m) \<Rightarrow>
               (case hm_add lh layer (rt_protnum r) of
                  (None, n) \<Rightarrow> None
                | (Some j, n) \<Rightarrow>
                    Some (RET_SUCCESS, r\<lparr>rt_prot := hm_put i layer m, rt_protnum := hm_put j protocol n\<rparr>))))"

definition ip_remove_protocol :: "('l \<Rightarrow> size_t) \<Rightarrow> u8 \<Rightarrow> 'l ip_router \<Rightarrow> 'l ip_router" where
  "ip_remove_protocol lh protocol r =
     (case hm_get hash_u8 protocol (rt_prot r) of
        None \<Rightarrow> r
      | Some i \<Rightarrow>
          r\<lparr>rt_protnum := snd (hm_remove lh (hm_val (rt_prot r) i) (rt_protnum r)),
            rt_prot := snd (hm_remove hash_u8 protocol (rt_prot r))\<rparr>)"

section \<open>Receiving and transmitting\<close>

definition IP_HDR :: size_t where
  "IP_HDR = 20"

text \<open>The test for fragments, on the flags field as loaded by the host.\<close>

definition ip_fragment_test :: "u16 \<Rightarrow> bool" where
  "ip_fragment_test flags_frag \<longleftrightarrow> flags_frag AND 0x3F \<noteq> 0"

definition drop_in :: "'l ip_router \<Rightarrow> 'l ip_router" where
  "drop_in r = r\<lparr>rt_drop_in := rt_drop_in r + 1\<rparr>"

definition drop_out :: "'l ip_router \<Rightarrow> 'l ip_router" where
  "drop_out r = r\<lparr>rt_drop_out := rt_drop_out r + 1\<rparr>"

text \<open>The second half of \<open>receive\<close>: the header is at offset \<open>o\<close> and the packet has been cut to its
  payload.\<close>

definition ip_deliver ::
  "nat \<Rightarrow> u8 \<Rightarrow> packet \<Rightarrow> netinfo \<Rightarrow> 'l \<Rightarrow> 'l ip_router \<Rightarrow> 'l outcome \<times> packet \<times> netinfo \<times> 'l ip_router" where
  "ip_deliver off header_len p info caller r =
     (let bs = pk_buff p; addr = ntoh32 (le32 bs (off + 16)) in
      (case hm_get hash_u32 addr (rt_incoming r) of
         None \<Rightarrow> (Done RET_ERROR, p, info, drop_in r)
       | Some i \<Rightarrow>
           if hm_val (rt_incoming r) i \<noteq> caller then (Done RET_ERROR, p, info, drop_in r)
           else
             (case hm_get hash_u8 (bs ! (off + 9)) (rt_prot r) of
                None \<Rightarrow> (Done RET_ERROR, p, info, drop_in r)
              | Some j \<Rightarrow>
                  (let next = hm_val (rt_prot r) j;
                       check = load16 bs (off + 10);
                       p1 = (if ni_ignore info then p else p\<lparr>pk_buff := store16 0 (off + 10) bs\<rparr>)
                   in if \<not> ni_ignore info \<and> check \<noteq> ip_checksum (pk_buff p1) off (ucast header_len)
                      then (Done RET_ERROR, p1, info, drop_in r)
                      else (Receive next, p1,
                            set_dst_ip addr (set_src_ip (ntoh32 (le32 (pk_buff p1) (off + 12))) info),
                            r\<lparr>rt_in := rt_in r + 1\<rparr>)))))"

definition ip_receive ::
  "packet \<Rightarrow> netinfo \<Rightarrow> 'l \<Rightarrow> 'l ip_router \<Rightarrow> 'l outcome \<times> packet \<times> netinfo \<times> 'l ip_router" where
  "ip_receive p info caller r =
     (case pk_read_ptr IP_HDR p of
        None \<Rightarrow> (Done RET_ERROR, p, info, drop_in r)
      | Some off \<Rightarrow>
          (let bs = pk_buff p in
           if drop_bit 4 ((bs ! off) AND 0xF0) \<noteq> 4 then (Done RET_ERROR, p, info, drop_in r)
           else if ip_fragment_test (load16 bs (off + 6)) then (Done RET_ERROR, p, info, drop_in r)
           else
             (let header_len = ((bs ! off) AND 0x0F) * 4 :: u8;
                  total_len = ntoh16 (load16 bs (off + 2));
                  payload_len = total_len - ucast header_len :: u16
              in (case pk_skip_read (ucast header_len) p of
                    (ret, p1) \<Rightarrow>
                      if ret \<noteq> RET_SUCCESS then (Done RET_ERROR, p1, info, drop_in r)
                      else if pk_available p1 < ucast payload_len then (Done RET_ERROR, p1, info, drop_in r)
                      else ip_deliver off header_len (snd (pk_truncate (ucast payload_len) p1)) info caller r))))"

text \<open>The header as \<open>transmit\<close> writes it at offset \<open>off\<close>, in the order of the assignments.\<close>

definition ip_fill_header :: "nat \<Rightarrow> u16 \<Rightarrow> u8 \<Rightarrow> u32 \<Rightarrow> u32 \<Rightarrow> u8 list \<Rightarrow> u8 list" where
  "ip_fill_header off tot proto dst src bs =
     (let b1 = bs[off := DEFAULT_VERSION_IHL, off + 1 := 0];
          b2 = store16 (hton16 tot) (off + 2) b1;
          b3 = store16 0 (off + 4) b2;
          b4 = store16 0 (off + 6) b3;
          b5 = b4[off + 8 := DEFAULT_TTL, off + 9 := proto];
          b6 = store16 0 (off + 10) b5;
          b7 = store32 (hton32 dst) (off + 16) b6
      in store32 (hton32 src) (off + 12) b7)"

definition ip_write_header :: "nat \<Rightarrow> u16 \<Rightarrow> u8 \<Rightarrow> u32 \<Rightarrow> u32 \<Rightarrow> u8 list \<Rightarrow> u8 list" where
  "ip_write_header off tot proto dst src bs =
     (let b = ip_fill_header off tot proto dst src bs
      in store16 (ip_checksum b off 20) (off + 10) b)"

text \<open>The search of \<open>transmit\<close> for a route.\<close>

definition ip_route_match :: "u32 \<Rightarrow> 'l route \<Rightarrow> bool" where
  "ip_route_match dst r \<longleftrightarrow> r_addr r AND r_subnet r = dst AND r_subnet r"

definition ip_find_route :: "u32 \<Rightarrow> 'l ip_router \<Rightarrow> ptr option option" where
  "ip_find_route dst r =
     it_search (\<lambda>c. ip_route_match dst (aq_val (rt_table r) c)) (aq_heap (rt_table r)) (sq_iterator (rt_table r))"

definition ip_transmit ::
  "('l \<Rightarrow> size_t) \<Rightarrow> packet \<Rightarrow> netinfo \<Rightarrow> 'l \<Rightarrow> 'l ip_router \<Rightarrow>
   ('l outcome \<times> packet \<times> netinfo \<times> 'l ip_router) option" where
  "ip_transmit lh p info caller r =
     (case ip_find_route (na_ipv4 (ni_dst info)) r of
        None \<Rightarrow> None
      | Some None \<Rightarrow> Some (Done RET_ERROR, p, info, drop_out (r\<lparr>rt_route := None\<rparr>))
      | Some (Some c) \<Rightarrow>
          (let r1 = r\<lparr>rt_route := Some c\<rparr>; route = aq_val (rt_table r1) c in
           (case hm_get lh caller (rt_protnum r1) of
              None \<Rightarrow> Some (Done RET_ERROR, p, info, r1)
            | Some i \<Rightarrow>
                (let proto = hm_val (rt_protnum r1) i in
                 (case pk_allocate_header IP_HDR p of
                    (None, p1) \<Rightarrow> Some (Done RET_ERROR, p1, info, drop_out r1)
                  | (Some off, p1) \<Rightarrow>
                      (let bs = ip_write_header off (ucast (pk_payload_size p1 + pk_header_size p1)) proto
                                  (na_ipv4 (ni_dst info)) (r_addr route) (pk_buff p1);
                           info1 = set_src_ip (le32 bs (off + 12)) (set_dst_ip (le32 bs (off + 16)) info)
                       in Some (Transmit (r_next route), p1\<lparr>pk_buff := bs\<rparr>, info1, r1)))))))"

definition ip_transmit2 ::
  "packet \<Rightarrow> netinfo \<Rightarrow> 'l \<Rightarrow> 'l ip_router \<Rightarrow> ('l outcome \<times> packet \<times> netinfo \<times> 'l ip_router) option" where
  "ip_transmit2 p info caller r =
     (case pk_allocate_header IP_HDR p of
        (None, p1) \<Rightarrow> Some (Done RET_ERROR, p1, info, drop_out r)
      | (Some off, p1) \<Rightarrow>
          (let r1 = r\<lparr>rt_out := rt_out r + 1\<rparr> in
           (case rt_route r1 of
              None \<Rightarrow> None
            | Some c \<Rightarrow> Some (Transmit2 (r_next (aq_val (rt_table r1) c)), p1, info, r1))))"

section \<open>Headers\<close>

lemma ip_write_header_length [simp]: "length (ip_write_header off tot proto dst src bs) = length bs"
  by (simp add: ip_write_header_def ip_fill_header_def Let_def)

text \<open>A buffer holds the header of a packet at an offset.\<close>

definition ip_header_at :: "nat \<Rightarrow> u16 \<Rightarrow> u8 \<Rightarrow> u32 \<Rightarrow> u32 \<Rightarrow> u8 list \<Rightarrow> bool" where
  "ip_header_at off tot proto dst src bs \<longleftrightarrow>
     bs ! off = DEFAULT_VERSION_IHL \<and> load16 bs (off + 2) = hton16 tot \<and> load16 bs (off + 6) = 0 \<and>
     bs ! (off + 9) = proto \<and> le32 bs (off + 12) = hton32 src \<and> le32 bs (off + 16) = hton32 dst"

lemma nth_upds:
  "j < off \<or> off + 20 \<le> j \<Longrightarrow> ip_write_header off tot proto dst src bs ! j = bs ! j"
  by (elim disjE; simp add: ip_write_header_def ip_fill_header_def Let_def store16_def store32_def)

lemma ip_write_header_at:
  assumes "off + 20 \<le> length bs"
  shows "ip_header_at off tot proto dst src (ip_write_header off tot proto dst src bs)"
proof -
  have l: "off < length bs" "off + 9 < length bs" "off + 2 + 1 < length bs" "off + 6 + 1 < length bs"
      "off + 12 + 3 < length bs" "off + 16 + 3 < length bs"
    using assms by auto
  show ?thesis
    unfolding ip_header_at_def
    using l
    by (simp add: ip_write_header_def ip_fill_header_def Let_def store16_def store32_def load16_def le32_def
        glue_bytes16 [unfolded One_nat_def] glue_bytes32 [unfolded One_nat_def])
qed

text \<open>Clearing the checksum field gives the header that the checksum was computed over.\<close>

lemma ip_fill_header_check0:
  assumes "off + 20 \<le> length bs"
  shows "ip_fill_header off tot proto dst src bs ! (off + 10) = 0"
    and "ip_fill_header off tot proto dst src bs ! (off + 11) = 0"
  using assms by (simp_all add: ip_fill_header_def Let_def store16_def store32_def byte_of_def nth_list_update)

lemma ip_check_cleared:
  assumes "off + 20 \<le> length bs"
  shows "store16 0 (off + 10) (ip_write_header off tot proto dst src bs) = ip_fill_header off tot proto dst src bs"
proof -
  let ?b = "ip_fill_header off tot proto dst src bs"
  have "store16 0 (off + 10) (ip_write_header off tot proto dst src bs) = ?b[off + 10 := 0, off + 11 := 0]"
    by (simp add: ip_write_header_def Let_def store16_def byte_of_def list_update_swap add.commute)
  also have "\<dots> = ?b"
    using ip_fill_header_check0 [OF assms, of tot proto dst src] by (metis list_update_id)
  finally show ?thesis .
qed

lemma ip_check_stored:
  assumes "off + 20 \<le> length bs"
  shows "load16 (ip_write_header off tot proto dst src bs) (off + 10) =
    ip_checksum (ip_fill_header off tot proto dst src bs) off 20"
  using assms by (simp add: ip_write_header_def Let_def load_store16 ip_fill_header_def)

lemma ip_src_cleared: "le32 (store16 0 (off + 10) bs) (off + 12) = le32 bs (off + 12)"
  by (simp add: le32_def nth_store)

text \<open>
  What \<open>receive\<close> does with a packet whose read position is at a header that \<open>transmit\<close> wrote: it
  is delivered to the layer of its protocol, if it comes from the layer of its address.
\<close>

lemma ip_receive_ok:
  assumes inv: "pk_inv p" and small: "unat (pk_size p) + 60 < 2 ^ 32"
    and off: "unat (pk_rpos p) = off" and len: "20 \<le> length (pk_unread p)"
    and hdr: "ip_header_at off tot proto dst src (pk_buff p)"
    and tot: "unat tot \<le> length (pk_unread p)" "20 \<le> unat tot"
    and inc: "hm_lookup hash_u32 dst (rt_incoming r) = Some caller"
    and prot: "hm_lookup hash_u8 proto (rt_prot r) = Some nxt"
    and chk: "ni_ignore info \<or>
      load16 (pk_buff p) (off + 10) = ip_checksum (store16 0 (off + 10) (pk_buff p)) off 20"
  shows "\<exists>p'. ip_receive p info caller r =
      (Receive nxt, p', set_dst_ip dst (set_src_ip src info), r\<lparr>rt_in := rt_in r + 1\<rparr>) \<and>
    pk_inv p' \<and> unat (pk_rpos p') = off + 20 \<and> unat (pk_wpos p') = off + unat tot \<and>
    pk_hsize p' = pk_hsize p \<and> pk_hpos p' = pk_hpos p \<and> pk_size p' = pk_size p \<and>
    pk_buff p' = (if ni_ignore info then pk_buff p else store16 0 (off + 10) (pk_buff p))"
proof -
  let ?bs = "pk_buff p"
  have bounds: "unat (pk_wpos p) \<le> unat (pk_size p)" "unat (pk_rpos p) \<le> unat (pk_wpos p)"
      "length ?bs = unat (pk_size p)"
    using inv by (auto simp: pk_inv_def word_le_nat_alt)
  have ul: "length (pk_unread p) = unat (pk_wpos p) - off"
    using pk_unread_length [OF inv] off by simp
  have rp: "pk_read_ptr IP_HDR p = Some off"
  proof -
    have "unat (pk_rpos p + IP_HDR) = off + 20"
      using word_add_noover [of "pk_rpos p" IP_HDR] small bounds off by (simp add: IP_HDR_def)
    then show ?thesis
      using len ul off bounds by (simp add: pk_read_ptr_def word_less_nat_alt)
  qed
  have h: "?bs ! off = 0x45" "load16 ?bs (off + 2) = hton16 tot" "load16 ?bs (off + 6) = 0"
      "?bs ! (off + 9) = proto" "le32 ?bs (off + 12) = hton32 src" "le32 ?bs (off + 16) = hton32 dst"
    using hdr by (simp_all add: ip_header_at_def DEFAULT_VERSION_IHL_def)
  have hl: "((0x45 :: u8) AND 0x0F) * 4 = 20" and ver: "drop_bit 4 ((0x45 :: u8) AND 0xF0) = 4"
    by (simp_all add: drop_bit_eq_div)
  have sk: "unat (20 :: size_t) + unat (pk_size p) < 2 ^ 32" "\<not> unat (20 :: size_t) > length (pk_unread p)"
    using small len by simp_all
  obtain p1 where p1: "pk_skip_read 20 p = (RET_SUCCESS, p1)" "pk_inv p1" "p1 = p\<lparr>pk_rpos := pk_rpos p + 20\<rparr>"
      "unat (pk_rpos p1) = off + 20" "pk_unread p1 = drop 20 (pk_unread p)"
    using pk_skip_read_ok [OF inv sk(1)] sk(2) off by auto
  have pl: "unat (ucast (tot - 20) :: size_t) = unat tot - 20"
  proof -
    have "unat (tot - 20 :: u16) = unat tot - 20"
      using tot by (simp add: unat_sub word_le_nat_alt)
    then show ?thesis
      by (simp add: unat_ucast_up)
  qed
  have av: "\<not> pk_available p1 < ucast (tot - 20)"
    using pk_available_unat [OF p1(2)] p1(5) tot pl by (simp add: word_less_nat_alt)
  have nt: "\<not> unat (ucast (tot - 20) :: size_t) > length (pk_unread p1)"
    using pl p1(5) tot by simp
  obtain p2 where p2: "pk_truncate (ucast (tot - 20)) p1 = (RET_SUCCESS, p2)" "pk_inv p2"
      "p2 = p1\<lparr>pk_wpos := pk_wpos p2\<rparr>" "unat (pk_wpos p2) = off + unat tot"
    using pk_truncate_ok [OF p1(2), of "ucast (tot - 20)"] nt pl p1(4) tot by auto
  have same: "pk_buff p2 = ?bs" "pk_hsize p2 = pk_hsize p" "pk_hpos p2 = pk_hpos p" "pk_size p2 = pk_size p"
      "pk_rpos p2 = pk_rpos p1"
    using p2(3) p1(3) by (metis packet.select_convs packet.surjective packet.update_convs)+
  obtain i where i: "hm_get hash_u32 dst (rt_incoming r) = Some i" "hm_val (rt_incoming r) i = caller"
    using inc by (auto simp: hm_lookup_def)
  obtain j where j: "hm_get hash_u8 proto (rt_prot r) = Some j" "hm_val (rt_prot r) j = nxt"
    using prot by (auto simp: hm_lookup_def)
  let ?p3 = "if ni_ignore info then p2 else p2\<lparr>pk_buff := store16 0 (off + 10) ?bs\<rparr>"
  have "ip_receive p info caller r = ip_deliver off 20 p2 info caller r"
    using rp h hl ver p1(1) av p2(1) by (simp add: ip_receive_def ip_fragment_test_def Let_def ntoh16_def)
  also have "\<dots> = (Receive nxt, ?p3, set_dst_ip dst (set_src_ip src info), r\<lparr>rt_in := rt_in r + 1\<rparr>)"
    using chk i j h same ip_src_cleared [of off ?bs]
    by (auto simp: ip_deliver_def Let_def ntoh32_def)
  finally have "ip_receive p info caller r =
      (Receive nxt, ?p3, set_dst_ip dst (set_src_ip src info), r\<lparr>rt_in := rt_in r + 1\<rparr>)" .
  moreover have "pk_inv ?p3"
    using p2(2) same by (simp add: pk_inv_def)
  ultimately show ?thesis
    using p2(4) same p1(4) by (intro exI [of _ ?p3]) simp
qed

end
