(* ===== verification/IPv4Props.thy ===== *)
theory IPv4Props
  imports IPv4Model
begin

text \<open>
  What the IPv4 model shows: which subnet masks are accepted and their length, which route a packet
  takes, that a header written by \<open>transmit\<close> is accepted by \<open>receive\<close>, and three divergences: the
  routing order, the checksum and the fragment test.
\<close>

section \<open>Subnet masks\<close>

lemma and_bit_iff: "s AND push_bit i 1 \<noteq> 0 \<longleftrightarrow> bit (s :: u32) i"
  by (simp add: bit_iff_and_push_bit_not_eq_0)

lemma valid_subnet_loop_True: "valid_subnet_loop is True s \<longleftrightarrow> (\<forall>i\<in>set is. bit s i)"
  by (induction "is") (auto simp: and_bit_iff bit_iff_and_push_bit_not_eq_0)

lemma valid_subnet_loop_False:
  "k \<le> n \<Longrightarrow> valid_subnet_loop [k..<n] False s \<longleftrightarrow>
     (\<exists>m. k \<le> m \<and> m \<le> n \<and> (\<forall>i. k \<le> i \<and> i < n \<longrightarrow> (bit s i \<longleftrightarrow> m \<le> i)))"
proof (induction "n - k" arbitrary: k)
  case 0
  then show ?case by auto
next
  case (Suc d)
  then have e: "[k..<n] = k # [Suc k..<n]"
    by (simp add: upt_conv_Cons)
  show ?case
  proof (cases "bit s k")
    case True
    have "valid_subnet_loop [k..<n] False s \<longleftrightarrow> (\<forall>i\<in>{Suc k..<n}. bit s i)"
      using True by (simp add: e valid_subnet_loop_True and_exp_eq_0_iff_not_bit)
    also have "\<dots> \<longleftrightarrow> (\<exists>m. k \<le> m \<and> m \<le> n \<and> (\<forall>i. k \<le> i \<and> i < n \<longrightarrow> (bit s i \<longleftrightarrow> m \<le> i)))"
      (is "?a \<longleftrightarrow> ?b")
    proof
      assume ?a
      then show ?b
        using True Suc.hyps(2) by (intro exI [of _ k]) (auto simp: Suc_le_eq order.order_iff_strict)
    next
      assume ?b
      then obtain m where "k \<le> m" "m \<le> n" "\<forall>i. k \<le> i \<and> i < n \<longrightarrow> (bit s i \<longleftrightarrow> m \<le> i)"
        by blast
      moreover from this have "m = k"
        using True Suc.hyps(2) by (metis diff_is_0_eq' le_antisym nat.distinct(1) not_le order_refl)
      ultimately show ?a
        by auto
    qed
    finally show ?thesis .
  next
    case False
    have "valid_subnet_loop [k..<n] False s \<longleftrightarrow> valid_subnet_loop [Suc k..<n] False s"
      using False by (simp add: e and_exp_eq_0_iff_not_bit)
    also have "\<dots> \<longleftrightarrow> (\<exists>m. Suc k \<le> m \<and> m \<le> n \<and> (\<forall>i. Suc k \<le> i \<and> i < n \<longrightarrow> (bit s i \<longleftrightarrow> m \<le> i)))"
      using Suc.hyps by (intro Suc.hyps(1)) simp_all
    also have "\<dots> \<longleftrightarrow> (\<exists>m. k \<le> m \<and> m \<le> n \<and> (\<forall>i. k \<le> i \<and> i < n \<longrightarrow> (bit s i \<longleftrightarrow> m \<le> i)))"
      (is "?a \<longleftrightarrow> ?b")
    proof
      assume ?a
      then obtain m where m: "Suc k \<le> m" "m \<le> n" "\<forall>i. Suc k \<le> i \<and> i < n \<longrightarrow> (bit s i \<longleftrightarrow> m \<le> i)"
        by blast
      have "bit s i \<longleftrightarrow> m \<le> i" if "k \<le> i" "i < n" for i
        using that m False by (cases "i = k") auto
      then show ?b
        using m by (intro exI [of _ m]) auto
    next
      assume ?b
      then obtain m where m: "k \<le> m" "m \<le> n" "\<forall>i. k \<le> i \<and> i < n \<longrightarrow> (bit s i \<longleftrightarrow> m \<le> i)"
        by blast
      then have "m \<noteq> k"
        using False Suc.hyps(2) by (metis diff_is_0_eq' nat.distinct(1) not_le order_refl)
      then show ?a
        using m by (intro exI [of _ m]) auto
    qed
    finally show ?thesis .
  qed
qed

lemma bits_mask_iff:
  assumes "m \<le> 32"
  shows "(\<forall>i<32. bit s i \<longleftrightarrow> m \<le> i) \<longleftrightarrow> s = NOT (mask m :: u32)"
proof
  assume a: "\<forall>i<32. bit s i \<longleftrightarrow> m \<le> i"
  show "s = NOT (mask m)"
    by (rule bit_word_eqI) (use a in \<open>auto simp: bit_simps\<close>)
qed (auto simp: bit_simps)

lemma valid_subnet_iff: "valid_subnet s \<longleftrightarrow> (\<exists>m\<le>32. s = NOT (mask m))"
  using valid_subnet_loop_False [of 0 32 s] bits_mask_iff by (auto simp: valid_subnet_def)

lemma subnet_len_mask: "m \<le> 32 \<Longrightarrow> subnet_len (NOT (mask m)) = 32 - m"
proof -
  assume m: "m \<le> 32"
  have P: "(\<lambda>i. NOT (mask m) AND push_bit i 1 \<noteq> (0 :: u32)) = (\<lambda>i. i < 32 \<and> m \<le> i)"
    by (auto simp: fun_eq_iff and_exp_eq_0_iff_not_bit bit_simps dest: bit_imp_le_length)
  show ?thesis
  proof (cases "m = 32")
    case True
    then have "find (\<lambda>i. i < 32 \<and> m \<le> i) [0..<32] = None"
      by (auto simp: find_None_iff)
    then show ?thesis
      using True unfolding subnet_len_def P by simp
  next
    case False
    then have "find (\<lambda>i. i < 32 \<and> m \<le> i) [0..<32] = Some m"
      unfolding find_Some_iff using m by (intro exI [of _ m] conjI allI impI) auto
    then show ?thesis
      unfolding subnet_len_def P by simp
  qed
qed

text \<open>The subnet test accepts exactly the 33 prefix masks, ones followed by zeros from the top.\<close>

theorem valid_subnet_masks: "valid_subnet s \<longleftrightarrow> s \<in> (\<lambda>m. NOT (mask m)) ` {..32}"
  by (auto simp: valid_subnet_iff)

section \<open>Routing\<close>

lemma it_search_seg:
  "seg (nexts h) it xs None \<Longrightarrow> it_search P h it = Some (find P xs)"
proof (induction xs arbitrary: it)
  case Nil
  then show ?case
    by (subst it_search.simps) (simp add: it_deref_def)
next
  case (Cons x xs)
  then show ?case
    by (subst it_search.simps) (simp add: it_deref_def it_step_def nexts_def)
qed

lemma ip_find_route_wf:
  "aq_wf n (rt_table r) xs \<Longrightarrow>
   ip_find_route dst r = Some (find (\<lambda>c. ip_route_match dst (aq_val (rt_table r) c)) xs)"
  by (simp add: ip_find_route_def sq_iterator_def head_node_def it_search_seg aq_wf_def wf_queue_def)

text \<open>The subnet lengths of the table from its head on.\<close>

definition rt_lens :: "'l ip_router \<Rightarrow> ptr list \<Rightarrow> nat list" where
  "rt_lens r xs = map (\<lambda>c. subnet_len (r_subnet (aq_val (rt_table r) c))) xs"

lemma find_first:
  "find P xs = Some x \<Longrightarrow> \<exists>as bs. xs = as @ x # bs \<and> P x \<and> (\<forall>a\<in>set as. \<not> P a)"
proof (induction xs)
  case Nil
  then show ?case by simp
next
  case (Cons a xs)
  show ?case
  proof (cases "P a")
    case True
    then show ?thesis
      using Cons.prems by (intro exI [of _ "[]"] exI [of _ xs]) simp
  next
    case False
    then obtain as bs where "xs = as @ x # bs" "P x" "\<forall>a\<in>set as. \<not> P a"
      using Cons by auto
    then show ?thesis
      using False by (intro exI [of _ "a # as"] exI [of _ bs]) simp
  qed
qed

text \<open>Adding a route whose prefix is at least as long as all that are there, or shorter than all.\<close>

abbreviation route_len :: "'l route \<Rightarrow> nat" where
  "route_len x \<equiv> subnet_len (r_subnet x)"

definition rt_routes :: "'l ip_router \<Rightarrow> ptr list \<Rightarrow> 'l route list" where
  "rt_routes r xs = map (aq_val (rt_table r)) xs"

lemma rt_lens_routes: "rt_lens r xs = map route_len (rt_routes r xs)"
  by (simp add: rt_lens_def rt_routes_def)

lemma add_route_end:
  assumes w: "aq_wf n (rt_table r) xs" and room: "length xs < n" and s: "valid_subnet (r_subnet x)"
    and srt: "sorted (rt_lens r xs)"
    and ends: "(\<forall>m\<in>set (rt_lens r xs). m \<le> route_len x) \<or> (\<forall>m\<in>set (rt_lens r xs). route_len x < m)"
  shows "\<exists>ys r'. ip_add_outgoing_route (r_addr x) (r_subnet x) (r_next x) r = Some (RET_SUCCESS, r') \<and>
    aq_wf n (rt_table r') ys \<and> length ys = Suc (length xs) \<and> sorted (rt_lens r' ys) \<and>
    set (rt_routes r' ys) = insert x (set (rt_routes r xs))"
proof -
  define P where "P = (\<lambda>d. \<not> route_sort (aq_val (rt_table r) d) x)"
  have P: "P d \<longleftrightarrow> route_len (aq_val (rt_table r) d) \<le> route_len x" for d
    by (simp add: P_def route_sort_def not_less)
  have x: "\<lparr>r_addr = r_addr x, r_subnet = r_subnet x, r_next = r_next x\<rparr> = x"
    by simp
  from sq_push_wf [where srt = route_sort and x = x, OF w room P_def] obtain d q where
    q: "sq_push route_sort x (rt_table r) = Some (Some d, q)" "d \<notin> set xs"
      "takeWhile P xs = [] \<or> dropWhile P xs = [] \<longrightarrow> aq_wf n q (insert_by P d xs)"
      "aq_val q = (aq_val (rt_table r))(d := x)"
    by blast
  let ?r = "r\<lparr>rt_table := q\<rparr>" and ?ys = "insert_by P d xs"
  have add: "ip_add_outgoing_route (r_addr x) (r_subnet x) (r_next x) r = Some (RET_SUCCESS, ?r)"
    using s q(1) unfolding ip_add_outgoing_route_def x by simp
  have old: "rt_routes ?r xs = rt_routes r xs"
    using q(2,4) by (auto simp: rt_routes_def)
  have new: "rt_routes ?r [d] = [x]"
    by (simp add: rt_routes_def q(4))
  have split: "rt_routes ?r (as @ bs) = rt_routes ?r as @ rt_routes ?r bs" for as bs
    by (simp add: rt_routes_def)
  have res: "aq_wf n q ?ys \<and> sorted (rt_lens ?r ?ys) \<and> set (rt_routes ?r ?ys) = insert x (set (rt_routes r xs))"
    using ends
  proof
    assume le: "\<forall>m\<in>set (rt_lens r xs). m \<le> route_len x"
    then have "takeWhile P xs = xs" and "dropWhile P xs = []"
      by (simp_all add: P rt_lens_def takeWhile_eq_all_conv dropWhile_eq_Nil_conv)
    then have "?ys = xs @ [d]" and "aq_wf n q ?ys"
      using q(3) by (simp_all add: insert_by_def)
    then show ?thesis
      using srt le by (simp add: rt_lens_routes split old new sorted_append)
  next
    assume less: "\<forall>m\<in>set (rt_lens r xs). route_len x < m"
    then have "takeWhile P xs = []" and "dropWhile P xs = xs"
      by (cases xs; force simp: P rt_lens_def)+
    then have ys: "?ys = [d] @ xs" and "aq_wf n q ?ys"
      using q(3) by (simp_all add: insert_by_def)
    moreover have "sorted (rt_lens ?r ?ys) \<and> set (rt_routes ?r ?ys) = insert x (set (rt_routes r xs))"
      using srt less unfolding ys rt_lens_routes split old new by (auto simp: less_imp_le)
    ultimately show ?thesis
      by blast
  qed
  show ?thesis
    by (intro exI [of _ ?ys] exI [of _ ?r]) (use add res in simp)
qed

text \<open>Adding a list of routes to a table, with the results, and lists whose routes all go to an end of
  the table.\<close>

fun ip_add_routes :: "'l route list \<Rightarrow> 'l ip_router \<Rightarrow> (ret_type list \<times> 'l ip_router) option" where
  "ip_add_routes [] r = Some ([], r)"
| "ip_add_routes (x # xs) r =
     (case ip_add_outgoing_route (r_addr x) (r_subnet x) (r_next x) r of
        None \<Rightarrow> None
      | Some (ret, r1) \<Rightarrow> map_option (\<lambda>(rets, r2). (ret # rets, r2)) (ip_add_routes xs r1))"

fun at_ends :: "nat set \<Rightarrow> nat list \<Rightarrow> bool" where
  "at_ends M [] = True"
| "at_ends M (l # ls) = (((\<forall>m\<in>M. m \<le> l) \<or> (\<forall>m\<in>M. l < m)) \<and> at_ends (insert l M) ls)"

lemma add_routes_table:
  "aq_wf n (rt_table r) xs \<Longrightarrow> length xs + length rts \<le> n \<Longrightarrow> sorted (rt_lens r xs) \<Longrightarrow>
   \<forall>x\<in>set rts. valid_subnet (r_subnet x) \<Longrightarrow> at_ends (set (rt_lens r xs)) (map route_len rts) \<Longrightarrow>
   \<exists>ys r'. ip_add_routes rts r = Some (replicate (length rts) RET_SUCCESS, r') \<and>
     aq_wf n (rt_table r') ys \<and> sorted (rt_lens r' ys) \<and> set (rt_routes r' ys) = set rts \<union> set (rt_routes r xs)"
proof (induction rts arbitrary: r xs)
  case Nil
  then show ?case by auto
next
  case (Cons x rts)
  have "length xs < n" and "valid_subnet (r_subnet x)"
      and "(\<forall>m\<in>set (rt_lens r xs). m \<le> route_len x) \<or> (\<forall>m\<in>set (rt_lens r xs). route_len x < m)"
    using Cons.prems by simp_all
  from add_route_end [OF Cons.prems(1) this(1,2) Cons.prems(3) this(3)] obtain ys r1 where
    r1: "ip_add_outgoing_route (r_addr x) (r_subnet x) (r_next x) r = Some (RET_SUCCESS, r1)"
      "aq_wf n (rt_table r1) ys" "length ys = Suc (length xs)" "sorted (rt_lens r1 ys)"
      "set (rt_routes r1 ys) = insert x (set (rt_routes r xs))"
    by (elim exE conjE)
  have "set (rt_lens r1 ys) = insert (route_len x) (set (rt_lens r xs))"
    using r1(5) by (simp add: rt_lens_routes)
  then have "at_ends (set (rt_lens r1 ys)) (map route_len rts)"
    using Cons.prems(5) by simp
  moreover have "length ys + length rts \<le> n" and "\<forall>x\<in>set rts. valid_subnet (r_subnet x)"
    using r1(3) Cons.prems by simp_all
  ultimately obtain zs r' where "ip_add_routes rts r1 = Some (replicate (length rts) RET_SUCCESS, r')"
      "aq_wf n (rt_table r') zs" "sorted (rt_lens r' zs)" "set (rt_routes r' zs) = set rts \<union> set (rt_routes r1 ys)"
    using Cons.IH [OF r1(2) _ r1(4)] by blast
  then show ?case
    using r1(1,5) by (intro exI [of _ zs] exI [of _ r']) simp
qed

lemma find_route_shortest:
  assumes w: "aq_wf n (rt_table r) xs" and srt: "sorted (rt_lens r xs)" and R: "set (rt_routes r xs) = R"
  shows "case ip_find_route dst r of
      None \<Rightarrow> False
    | Some None \<Rightarrow> (\<forall>x\<in>R. \<not> ip_route_match dst x)
    | Some (Some c) \<Rightarrow> aq_val (rt_table r) c \<in> R \<and> ip_route_match dst (aq_val (rt_table r) c) \<and>
        (\<forall>x\<in>R. ip_route_match dst x \<longrightarrow> route_len (aq_val (rt_table r) c) \<le> route_len x)"
proof (cases "find (\<lambda>c. ip_route_match dst (aq_val (rt_table r) c)) xs")
  case None
  then have "\<forall>x\<in>R. \<not> ip_route_match dst x"
    unfolding R [symmetric] by (auto simp: find_None_iff rt_routes_def)
  then show ?thesis
    using ip_find_route_wf [OF w, of dst] None by simp
next
  case (Some c)
  then obtain as bs where xs: "xs = as @ c # bs" "ip_route_match dst (aq_val (rt_table r) c)"
      "\<forall>a\<in>set as. \<not> ip_route_match dst (aq_val (rt_table r) a)"
    using find_first by metis
  have "route_len (aq_val (rt_table r) c) \<le> route_len (aq_val (rt_table r) d)"
    if "d \<in> set (c # bs)" for d
    using srt that by (auto simp: rt_lens_def xs(1) sorted_append)
  then have "\<forall>x\<in>R. ip_route_match dst x \<longrightarrow> route_len (aq_val (rt_table r) c) \<le> route_len x"
    unfolding R [symmetric] using xs by (auto simp: rt_routes_def)
  moreover have "aq_val (rt_table r) c \<in> R"
    unfolding R [symmetric] by (simp add: rt_routes_def xs(1))
  ultimately show ?thesis
    using ip_find_route_wf [OF w, of dst] Some xs by auto
qed

text \<open>C22: Routes with valid masks that are added one after the other to an empty table with room for
  them are all accepted; the search of \<open>transmit\<close> then returns, finds a route exactly when one of
  them matches, and, since \<open>route_sort\<close> puts the shorter prefixes at the head of the table, where
  the search starts, the route it takes is one of the \<^emph>\<open>shortest\<close> matching prefix, not of the longest
  as the comment in \<open>transmit\<close> has it.  Every route is at least as long as all earlier ones or
  shorter than all of them; the links of the table are incomplete after one in between, which the
  search then does not see (\<open>sorted_push_all_iteration\<close>).\<close>

theorem route_shortest_prefix:
  assumes "aq_wf n (rt_table r) []" and "length rts \<le> n" and "\<forall>x\<in>set rts. valid_subnet (r_subnet x)"
    and "at_ends {} (map route_len rts)"
  shows "\<exists>r'. ip_add_routes rts r = Some (replicate (length rts) RET_SUCCESS, r') \<and>
    (\<forall>dst. case ip_find_route dst r' of
       None \<Rightarrow> False
     | Some None \<Rightarrow> (\<forall>x\<in>set rts. \<not> ip_route_match dst x)
     | Some (Some c) \<Rightarrow> aq_val (rt_table r') c \<in> set rts \<and> ip_route_match dst (aq_val (rt_table r') c) \<and>
         (\<forall>x\<in>set rts. ip_route_match dst x \<longrightarrow> route_len (aq_val (rt_table r') c) \<le> route_len x))"
proof -
  obtain ys r' where r': "ip_add_routes rts r = Some (replicate (length rts) RET_SUCCESS, r')"
      "aq_wf n (rt_table r') ys" "sorted (rt_lens r' ys)" "set (rt_routes r' ys) = set rts"
    using add_routes_table [OF assms(1), of rts] assms(2-4) by (auto simp: rt_lens_def rt_routes_def)
  show ?thesis
    by (intro exI [of _ r'] conjI r'(1) allI find_route_shortest [OF r'(2-4)])
qed

text \<open>A router with two routes: everything to layer 1, 10.0.0.0/8 to layer 2.\<close>

definition rt_boot :: "nat \<Rightarrow> nat ip_router" where
  "rt_boot n =
     \<lparr>rt_table = boot_aqueue \<lparr>r_addr = 0, r_subnet = 0, r_next = 0\<rparr> n,
      rt_incoming = hm_init 25 25 (replicate 625 (0, 0)), rt_prot = hm_init 25 25 (replicate 625 (0, 0)),
      rt_protnum = hm_init 25 25 (replicate 625 (0, 0)), rt_route = None, rt_out = 0, rt_in = 0,
      rt_drop_out = 0, rt_drop_in = 0\<rparr>"

lemma rt_boot_wf: "n < 2 ^ 32 \<Longrightarrow> aq_wf n (rt_table (rt_boot n)) []"
  unfolding rt_boot_def boot_aqueue_def by simp (rule aq_init_wf; simp)

lemma add_route_empty:
  assumes w: "aq_wf n (rt_table r) []" and n: "0 < n" and s: "valid_subnet s"
  shows "\<exists>c r'. ip_add_outgoing_route a s l r = Some (RET_SUCCESS, r') \<and> aq_wf n (rt_table r') [c] \<and>
    aq_val (rt_table r') c = \<lparr>r_addr = a, r_subnet = s, r_next = l\<rparr>"
proof -
  have room: "length [] < n"
    using n by simp
  from sq_push_wf [where srt = route_sort and x = "\<lparr>r_addr = a, r_subnet = s, r_next = l\<rparr>", OF w room refl] s
  show ?thesis
    by (auto simp: ip_add_outgoing_route_def insert_by_def)
qed

lemma add_route_one:
  assumes w: "aq_wf n (rt_table r) [c]" and n: "1 < n" and s: "valid_subnet s"
    and len: "subnet_len (r_subnet (aq_val (rt_table r) c)) \<le> subnet_len s"
  shows "\<exists>d r'. ip_add_outgoing_route a s l r = Some (RET_SUCCESS, r') \<and> aq_wf n (rt_table r') [c, d] \<and>
    c \<noteq> d \<and> aq_val (rt_table r') = (aq_val (rt_table r))(d := \<lparr>r_addr = a, r_subnet = s, r_next = l\<rparr>)"
proof -
  have room: "length [c] < n"
    using n by simp
  let ?x = "\<lparr>r_addr = a, r_subnet = s, r_next = l\<rparr>"
  have P: "takeWhile (\<lambda>d. \<not> route_sort (aq_val (rt_table r) d) ?x) [c] = [c]"
      "dropWhile (\<lambda>d. \<not> route_sort (aq_val (rt_table r) d) ?x) [c] = []"
    using len by (simp_all add: route_sort_def)
  from sq_push_wf [where srt = route_sort and x = ?x, OF w room refl] P s show ?thesis
    by (auto simp: ip_add_outgoing_route_def insert_by_def)
qed

lemma ex_masks: "valid_subnet 0" "valid_subnet 0xFF000000" "subnet_len 0 = 0" "subnet_len 0xFF000000 = 8"
proof -
  have "NOT (mask 32 :: u32) = 0" "NOT (mask 24 :: u32) = 0xFF000000"
    by code_simp+
  then show "valid_subnet 0" "valid_subnet 0xFF000000" "subnet_len 0 = 0" "subnet_len 0xFF000000 = 8"
    using subnet_len_mask [of 32] subnet_len_mask [of 24] unfolding valid_subnet_iff
    by (auto intro: exI [of _ 32] exI [of _ 24])
qed

lemma two_routes:
  "\<exists>r c d. aq_wf 25 (rt_table (r :: nat ip_router)) [c, d] \<and> rt_lens r [c, d] = [0, 8] \<and>
    aq_val (rt_table r) c = \<lparr>r_addr = 0, r_subnet = 0, r_next = 1\<rparr> \<and>
    aq_val (rt_table r) d = \<lparr>r_addr = 0x0A000000, r_subnet = 0xFF000000, r_next = 2\<rparr>"
proof -
  note s = ex_masks
  have w: "aq_wf 25 (rt_table (rt_boot 25)) []"
    by (rule rt_boot_wf) simp
  have lt: "0 < (25 :: nat)" "1 < (25 :: nat)"
    by simp_all
  from add_route_empty [OF w lt(1) s(1), of 0 1] obtain c r1 where 1: "aq_wf 25 (rt_table (r1 :: nat ip_router)) [c]"
      "aq_val (rt_table r1) c = \<lparr>r_addr = 0, r_subnet = 0, r_next = 1 :: nat\<rparr>"
    by blast
  have len: "subnet_len (r_subnet (aq_val (rt_table r1) c)) \<le> subnet_len 0xFF000000"
    using 1 s by simp
  from add_route_one [where a = "0x0A000000" and l = 2, OF 1(1) lt(2) s(2) len] obtain d r2 where 2: "aq_wf 25 (rt_table (r2 :: nat ip_router)) [c, d]" "c \<noteq> d"
      "aq_val (rt_table r2) = (aq_val (rt_table r1))(d := \<lparr>r_addr = 0x0A000000, r_subnet = 0xFF000000, r_next = 2\<rparr>)"
    by blast
  show ?thesis
    using 1 2 s by (intro exI [of _ r2] exI [of _ c] exI [of _ d]) (simp add: rt_lens_def)
qed

text \<open>The network 10.0.0.0/8 is added first and the default route after it; a packet to 10.0.0.1 takes
  the default route.\<close>

theorem route_shortest_prefix_witness:
  "\<exists>r c. ip_add_routes [\<lparr>r_addr = 0x0A000000, r_subnet = 0xFF000000, r_next = 2\<rparr>,
       \<lparr>r_addr = 0, r_subnet = 0, r_next = 1\<rparr>] (rt_boot 25) = Some ([RET_SUCCESS, RET_SUCCESS], r) \<and>
     ip_find_route 0x0A000001 r = Some (Some c) \<and> r_next (aq_val (rt_table r) c) = 1"
proof -
  let ?d = "\<lparr>r_addr = 0, r_subnet = 0, r_next = 1 :: nat\<rparr>"
  let ?n = "\<lparr>r_addr = 0x0A000000, r_subnet = 0xFF000000, r_next = 2 :: nat\<rparr>"
  have w: "aq_wf 25 (rt_table (rt_boot 25)) []"
    by (rule rt_boot_wf) simp
  have h: "length [?n, ?d] \<le> 25" "\<forall>x\<in>set [?n, ?d]. valid_subnet (r_subnet x)"
      "at_ends {} (map route_len [?n, ?d])"
    by (simp_all add: ex_masks)
  from route_shortest_prefix [OF w h] obtain r where
    r: "ip_add_routes [?n, ?d] (rt_boot 25) = Some (replicate (length [?n, ?d]) RET_SUCCESS, r)"
    and f: "case ip_find_route 0x0A000001 r of
       None \<Rightarrow> False
     | Some None \<Rightarrow> (\<forall>x\<in>set [?n, ?d]. \<not> ip_route_match 0x0A000001 x)
     | Some (Some c) \<Rightarrow> aq_val (rt_table r) c \<in> set [?n, ?d] \<and> ip_route_match 0x0A000001 (aq_val (rt_table r) c) \<and>
         (\<forall>x\<in>set [?n, ?d]. ip_route_match 0x0A000001 x \<longrightarrow> route_len (aq_val (rt_table r) c) \<le> route_len x)"
    by blast
  have m: "ip_route_match 0x0A000001 ?d"
    by (simp add: ip_route_match_def)
  obtain c where c: "ip_find_route 0x0A000001 r = Some (Some c)" "aq_val (rt_table r) c \<in> set [?n, ?d]"
      "route_len (aq_val (rt_table r) c) \<le> route_len ?d"
    using f m by (auto split: option.splits)
  have "aq_val (rt_table r) c \<noteq> ?n"
    using c(3) ex_masks(3,4) by auto
  then have "aq_val (rt_table r) c = ?d"
    using c(2) by simp
  then show ?thesis
    using r c(1) by (intro exI [of _ r] exI [of _ c]) simp
qed

section \<open>Transmit and receive\<close>

lemma frame_cong:
  assumes "length bs = length (pk_buff p)" and "\<And>j. unat (pk_hpos p) \<le> j \<Longrightarrow> bs ! j = pk_buff p ! j"
  shows "take n (drop (unat (pk_hpos p)) bs) = take n (drop (unat (pk_hpos p)) (pk_buff p))"
  by (rule nth_equalityI) (use assms in auto)

text \<open>The size of the packet for the length field of the header.\<close>

lemma ip_total_len:
  assumes inv: "pk_inv p" and pay: "pk_hsize p \<le> pk_wpos p"
    and small: "unat (pk_wpos p) - unat (pk_hpos p) < 2 ^ 16"
  shows "unat (ucast (pk_payload_size p + pk_header_size p) :: u16) = unat (pk_wpos p) - unat (pk_hpos p)"
proof -
  have le: "pk_hpos p \<le> pk_hsize p" "unat (pk_hpos p) \<le> unat (pk_wpos p)"
    using inv pay by (auto simp: pk_inv_def word_le_nat_alt)
  have "pk_payload_size p + pk_header_size p = pk_wpos p - pk_hpos p"
    by (simp add: pk_payload_size_def pk_header_size_def)
  moreover have "unat (pk_wpos p - pk_hpos p) = unat (pk_wpos p) - unat (pk_hpos p)"
    using le by (simp add: unat_sub word_le_nat_alt)
  ultimately show ?thesis
    using small by (simp add: unsigned_ucast_eq take_bit_nat_eq_self)
qed

text \<open>A packet as the router sends it, seen by the reader: the header with its checksum, then the payload.\<close>

lemma ip_transmit_packet:
  fixes r :: "'a ip_router"
  defines "off \<equiv> \<lambda>p. unat (pk_hpos p) - 20"
  assumes "pk_inv p" and "pk_hsize p \<le> pk_wpos p" and "20 \<le> pk_hpos p"
    and "unat (pk_wpos p) - unat (pk_hpos p) + 20 < 2 ^ 16"
    and "ip_find_route (na_ipv4 (ni_dst info)) r = Some (Some c)" and "hm_lookup lh caller (rt_protnum r) = Some proto"
  obtains p1 info1 r1 tot where
    "ip_transmit lh p info caller r = Some (Transmit (r_next (aq_val (rt_table r) c)), p1, info1, r1)"
    "pk_inv (pk_seek_read True p1)" "unat (pk_rpos (pk_seek_read True p1)) = off p" "pk_wpos (pk_seek_read True p1) = pk_wpos p"
    "pk_size (pk_seek_read True p1) = pk_size p" "unat tot = unat (pk_wpos p) - off p"
    "ip_header_at (off p) tot proto (na_ipv4 (ni_dst info)) (r_addr (aq_val (rt_table r) c)) (pk_buff (pk_seek_read True p1))"
    "load16 (pk_buff (pk_seek_read True p1)) (off p + 10) =
       ip_checksum (store16 0 (off p + 10) (pk_buff (pk_seek_read True p1))) (off p) 20"
    "length (pk_buff (pk_seek_read True p1)) = length (pk_buff p)"
    "\<And>j. unat (pk_hpos p) \<le> j \<Longrightarrow> pk_buff (pk_seek_read True p1) ! j = pk_buff p ! j"
proof -
  let ?dst = "na_ipv4 (ni_dst info)" and ?route = "aq_val (rt_table r) c" and ?off = "unat (pk_hpos p) - 20"
  have bounds: "unat (pk_hpos p) \<le> unat (pk_wpos p)" "unat (pk_wpos p) \<le> unat (pk_size p)"
      "length (pk_buff p) = unat (pk_size p)" "20 \<le> unat (pk_hpos p)"
    using assms(2-4) by (auto simp: pk_inv_def word_le_nat_alt)
  obtain i where i: "hm_get lh caller (rt_protnum r) = Some i" "hm_val (rt_protnum r) i = proto"
    using assms(7) by (auto simp: hm_lookup_def)
  obtain pa where pa: "pk_allocate_header IP_HDR p = (Some ?off, pa)" "pk_inv pa"
      "pa = p\<lparr>pk_hpos := pk_hpos p - IP_HDR\<rparr>" "unat (pk_hpos pa) = ?off"
    using pk_allocate_header_ok [OF assms(2), of IP_HDR] assms(4) by (auto simp: IP_HDR_def)
  define tot :: u16 where "tot = ucast (pk_payload_size pa + pk_header_size pa)"
  have tot: "unat tot = unat (pk_wpos p) - ?off"
    unfolding tot_def using ip_total_len [OF pa(2)] assms(3,5) pa(3,4) bounds by simp
  define bs where "bs = ip_write_header ?off tot proto ?dst (r_addr ?route) (pk_buff p)"
  let ?p1 = "pa\<lparr>pk_buff := bs\<rparr>" and ?ps = "pk_seek_read True (pa\<lparr>pk_buff := bs\<rparr>)"
  have room: "?off + 20 \<le> length (pk_buff p)" and lb: "length bs = length (pk_buff p)"
    using bounds by (simp_all add: bs_def)
  have tr: "\<exists>info1. ip_transmit lh p info caller r =
      Some (Transmit (r_next ?route), ?p1, info1, r\<lparr>rt_route := Some c\<rparr>)"
    using assms(6) i pa(1,3) by (simp add: ip_transmit_def Let_def bs_def tot_def)
  moreover have "unat (pk_hpos p - IP_HDR) = ?off"
    using pa(3,4) by simp
  then have "pk_inv ?ps"
    using pa(2,3) lb bounds by (simp add: pk_inv_def pk_seek_read_def word_le_nat_alt)
  moreover have f: "pk_buff ?ps = bs" "unat (pk_rpos ?ps) = ?off" "pk_wpos ?ps = pk_wpos p" "pk_size ?ps = pk_size p"
    using pa(3,4) by (simp_all add: pk_seek_read_def)
  moreover have "ip_header_at ?off tot proto ?dst (r_addr ?route) bs"
    unfolding bs_def by (rule ip_write_header_at [OF room])
  moreover have "load16 bs (?off + 10) = ip_checksum (store16 0 (?off + 10) bs) ?off 20"
    unfolding bs_def ip_check_cleared [OF room] by (simp add: ip_check_stored [OF room])
  moreover have "bs ! j = pk_buff p ! j" if "unat (pk_hpos p) \<le> j" for j
    using that bounds by (simp add: bs_def nth_upds nth_store)
  ultimately show ?thesis
    using that [of ?p1 _ _ tot] tot lb unfolding off_def by metis
qed

text \<open>C7: A packet that one router transmits is accepted by the \<open>receive\<close> of any router that has its
  destination and protocol configured, with or without the check of the checksum: it is passed on
  to the layer of the protocol, with the source and destination addresses in host order, and what
  is left to read are the bytes that were in the packet before the header was added.\<close>

theorem ip_transmit_receive:
  assumes "pk_inv p" and "pk_hsize p \<le> pk_wpos p" and "20 \<le> pk_hpos p"
    and "unat (pk_size p) + 60 < 2 ^ 32" and "unat (pk_wpos p) - unat (pk_hpos p) + 20 < 2 ^ 16"
    and "ip_find_route (na_ipv4 (ni_dst info)) r = Some (Some c)"
    and "hm_lookup lh caller (rt_protnum r) = Some proto"
    and "hm_lookup hash_u32 (na_ipv4 (ni_dst info)) (rt_incoming r') = Some below"
    and "hm_lookup hash_u8 proto (rt_prot r') = Some up"
  shows "\<exists>p1 info1 r1 p2. ip_transmit lh p info caller r =
      Some (Transmit (r_next (aq_val (rt_table r) c)), p1, info1, r1) \<and>
    ip_receive (pk_seek_read True p1) info' below r' =
      (Receive up, p2, set_dst_ip (na_ipv4 (ni_dst info))
         (set_src_ip (r_addr (aq_val (rt_table r) c)) info'), r'\<lparr>rt_in := rt_in r' + 1\<rparr>) \<and>
    pk_inv p2 \<and> pk_unread p2 = pk_frame p"
proof -
  let ?dst = "na_ipv4 (ni_dst info)" and ?route = "aq_val (rt_table r) c"
  let ?off = "unat (pk_hpos p) - 20"
  have bounds: "unat (pk_hpos p) \<le> unat (pk_wpos p)" "unat (pk_wpos p) \<le> unat (pk_size p)"
      "length (pk_buff p) = unat (pk_size p)" "20 \<le> unat (pk_hpos p)"
    using assms(1-3) by (auto simp: pk_inv_def word_le_nat_alt)
  obtain p1 info1 r1 tot where tr: "ip_transmit lh p info caller r = Some (Transmit (r_next ?route), p1, info1, r1)"
    and inv: "pk_inv (pk_seek_read True p1)" and f: "unat (pk_rpos (pk_seek_read True p1)) = ?off"
      "pk_wpos (pk_seek_read True p1) = pk_wpos p" "pk_size (pk_seek_read True p1) = pk_size p"
    and tot: "unat (tot :: u16) = unat (pk_wpos p) - ?off"
    and hdr: "ip_header_at ?off tot proto ?dst (r_addr ?route) (pk_buff (pk_seek_read True p1))"
    and chk: "load16 (pk_buff (pk_seek_read True p1)) (?off + 10) =
       ip_checksum (store16 0 (?off + 10) (pk_buff (pk_seek_read True p1))) ?off 20"
    and lb: "length (pk_buff (pk_seek_read True p1)) = length (pk_buff p)"
    and bs: "\<And>j. unat (pk_hpos p) \<le> j \<Longrightarrow> pk_buff (pk_seek_read True p1) ! j = pk_buff p ! j"
    by (rule ip_transmit_packet [OF assms(1-3,5-7)]) (assumption | simp)+
  let ?ps = "pk_seek_read True p1"
  have "length (pk_unread ?ps) = unat (pk_wpos p) - ?off"
    using pk_unread_length [OF inv] f by simp
  then have l20: "20 \<le> length (pk_unread ?ps)" and tl: "unat tot \<le> length (pk_unread ?ps)" "20 \<le> unat tot"
    using tot bounds by auto
  have sm: "unat (pk_size ?ps) + 60 < 2 ^ 32"
    using f assms(4) by simp
  obtain p2 where p2: "ip_receive ?ps info' below r' =
      (Receive up, p2, set_dst_ip ?dst (set_src_ip (r_addr ?route) info'), r'\<lparr>rt_in := rt_in r' + 1\<rparr>)"
      "pk_inv p2" "unat (pk_rpos p2) = ?off + 20" "unat (pk_wpos p2) = ?off + unat tot"
      "pk_buff p2 = (if ni_ignore info' then pk_buff ?ps else store16 0 (?off + 10) (pk_buff ?ps))"
    using ip_receive_ok [OF inv sm f(1) l20 hdr tl assms(8,9) disjI2 [OF chk]] by blast
  have "pk_buff p2 ! j = pk_buff p ! j" if "unat (pk_hpos p) \<le> j" for j
    using that bounds p2(5) bs [OF that] lb by (simp add: nth_upds nth_store)
  moreover have "length (pk_buff p2) = length (pk_buff p)"
    using p2(5) lb by simp
  ultimately have "pk_unread p2 = pk_frame p"
    using frame_cong [of "pk_buff p2" p] p2(3,4) tot bounds by (simp add: pk_unread_def pk_frame_def)
  then show ?thesis
    using tr p2(1,2) by blast
qed

definition ex_info :: "u32 \<Rightarrow> u16 \<Rightarrow> netinfo" where
  "ex_info dst port =
     \<lparr>ni_src = \<lparr>na_mac = replicate 6 0, na_ipv4 = 0, na_port = 0\<rparr>,
      ni_dst = \<lparr>na_mac = replicate 6 0, na_ipv4 = dst, na_port = port\<rparr>, ni_ignore = False\<rparr>"

lemma one_entry_lookup:
  "hm_lookup h k \<lparr>hm_buckets = 1, hm_bsize = 1, hm_entries = [(k, v)], hm_used = [True]\<rparr> = Some v"
  by (simp add: hm_lookup_def hm_get_def hm_range_def hm_index_def hm_val_def)

lemma ip_find_route_cong: "rt_table r' = rt_table r \<Longrightarrow> ip_find_route dst r' = ip_find_route dst r"
  by (simp add: ip_find_route_def)

theorem ip_transmit_receive_witness:
  "\<exists>(r :: nat ip_router) (r' :: nat ip_router) p1 info1 r1 p2 i2 r2.
     ip_transmit (\<lambda>_. 0) (pk_init (replicate 40 0) 10 30) (ex_info 0x0A000001 5) 7 r =
       Some (Transmit 1, p1, info1, r1) \<and>
     ip_receive (pk_seek_read True p1) (ex_info 0 0) 3 r' = (Receive 9, p2, i2, r2)"
proof -
  obtain r c d where r: "aq_wf 25 (rt_table (r :: nat ip_router)) [c, d]"
      "aq_val (rt_table r) c = \<lparr>r_addr = 0, r_subnet = 0, r_next = 1\<rparr>"
    using two_routes by blast
  let ?r = "r\<lparr>rt_protnum := \<lparr>hm_buckets = 1, hm_bsize = 1, hm_entries = [(7, 0x11)], hm_used = [True]\<rparr>\<rparr>"
  let ?r' = "r\<lparr>rt_incoming := \<lparr>hm_buckets = 1, hm_bsize = 1, hm_entries = [(0x0A000001, 3)], hm_used = [True]\<rparr>,
               rt_prot := \<lparr>hm_buckets = 1, hm_bsize = 1, hm_entries = [(0x11, 9)], hm_used = [True]\<rparr>\<rparr>"
  let ?p = "pk_init (replicate 40 0) 10 30" and ?info = "ex_info 0x0A000001 5"
  have "ip_find_route (na_ipv4 (ni_dst ?info)) r = Some (Some c)"
    using ip_find_route_wf [OF r(1)] r(2) by (simp add: ex_info_def ip_route_match_def)
  then have f: "ip_find_route (na_ipv4 (ni_dst ?info)) ?r = Some (Some c)"
    by (subst ip_find_route_cong [of _ r]) simp_all
  have inv: "pk_inv ?p"
    by (rule pk_init_inv) simp_all
  have p: "pk_hsize ?p \<le> pk_wpos ?p" "20 \<le> pk_hpos ?p" "unat (pk_size ?p) + 60 < 2 ^ 32"
      "unat (pk_wpos ?p) - unat (pk_hpos ?p) + 20 < 2 ^ 16"
    by (simp_all add: pk_init_def)
  have l: "hm_lookup (\<lambda>_. 0) 7 (rt_protnum ?r) = Some 0x11"
      "hm_lookup hash_u32 (na_ipv4 (ni_dst ?info)) (rt_incoming ?r') = Some 3"
      "hm_lookup hash_u8 0x11 (rt_prot ?r') = Some 9"
    using one_entry_lookup by (simp_all add: ex_info_def)
  have nx: "r_next (aq_val (rt_table ?r) c) = 1"
    using r(2) by simp
  from ip_transmit_receive [OF inv p f l, of "ex_info 0 0"] show ?thesis
    unfolding nx by blast
qed

section \<open>Divergences\<close>

text \<open>The checksum of RFC 791 and 1071: a one's complement sum, carries added back in.\<close>

fun ones_complement_sum :: "u16 list \<Rightarrow> nat" where
  "ones_complement_sum [] = 0"
| "ones_complement_sum (w # ws) =
     (let s = unat w + ones_complement_sum ws in if s < 65536 then s else s - 65535)"

definition internet_checksum :: "u16 list \<Rightarrow> u16" where
  "internet_checksum ws = NOT (of_nat (ones_complement_sum ws))"

text \<open>The checksum that the router computes and checks is not the IPv4 checksum: carries out of 16
  bits are dropped instead of being added back, so that already on two words the two differ and
  headers of other implementations are refused.\<close>

theorem checksum_not_internet_checksum:
  "ip_checksum [0xFF, 0xFF, 1, 0] 0 4 = 0xFFFF \<and>
   internet_checksum (map (\<lambda>i. load16 [0xFF, 0xFF, 1, 0] (2 * i)) [0..<2]) = 0xFFFE"
  by (simp add: ip_checksum_def internet_checksum_def load16_def upt_rec)

text \<open>The test for fragments misses fragments: it looks at the first byte of the field only, and a last
  fragment with an offset below 256 units of 8 bytes (185 for the second fragment on Ethernet) is
  taken for a whole packet.\<close>

theorem fragment_test_misses:
  "\<not> ip_fragment_test (hton16 185) \<and> ntoh16 (hton16 185) AND 0x1FFF = 185"
  by code_simp

end
