(* ===== verification/EthModel.thy ===== *)
theory EthModel
  imports IPv4Model
begin

text \<open>
  Ethernet of src/net/eth: the CRC table (crctable.c), the frame check sequence (eth.h) and the layer
  that adds and checks headers (EthLayer.h).  Offsets in a header: destination 0, source 6,
  type 12; the header has 14 bytes.
\<close>

section \<open>Frame check sequence\<close>

definition crctable :: "u32 list" where
  "crctable =
     [0x00000000, 0x77073096, 0xEE0E612C, 0x990951BA, 0x076DC419, 0x706AF48F, 0xE963A535, 0x9E6495A3,
      0x0EDB8832, 0x79DCB8A4, 0xE0D5E91E, 0x97D2D988, 0x09B64C2B, 0x7EB17CBD, 0xE7B82D07, 0x90BF1D91,
      0x1DB71064, 0x6AB020F2, 0xF3B97148, 0x84BE41DE, 0x1ADAD47D, 0x6DDDE4EB, 0xF4D4B551, 0x83D385C7,
      0x136C9856, 0x646BA8C0, 0xFD62F97A, 0x8A65C9EC, 0x14015C4F, 0x63066CD9, 0xFA0F3D63, 0x8D080DF5,
      0x3B6E20C8, 0x4C69105E, 0xD56041E4, 0xA2677172, 0x3C03E4D1, 0x4B04D447, 0xD20D85FD, 0xA50AB56B,
      0x35B5A8FA, 0x42B2986C, 0xDBBBC9D6, 0xACBCF940, 0x32D86CE3, 0x45DF5C75, 0xDCD60DCF, 0xABD13D59,
      0x26D930AC, 0x51DE003A, 0xC8D75180, 0xBFD06116, 0x21B4F4B5, 0x56B3C423, 0xCFBA9599, 0xB8BDA50F,
      0x2802B89E, 0x5F058808, 0xC60CD9B2, 0xB10BE924, 0x2F6F7C87, 0x58684C11, 0xC1611DAB, 0xB6662D3D,
      0x76DC4190, 0x01DB7106, 0x98D220BC, 0xEFD5102A, 0x71B18589, 0x06B6B51F, 0x9FBFE4A5, 0xE8B8D433,
      0x7807C9A2, 0x0F00F934, 0x9609A88E, 0xE10E9818, 0x7F6A0DBB, 0x086D3D2D, 0x91646C97, 0xE6635C01,
      0x6B6B51F4, 0x1C6C6162, 0x856530D8, 0xF262004E, 0x6C0695ED, 0x1B01A57B, 0x8208F4C1, 0xF50FC457,
      0x65B0D9C6, 0x12B7E950, 0x8BBEB8EA, 0xFCB9887C, 0x62DD1DDF, 0x15DA2D49, 0x8CD37CF3, 0xFBD44C65,
      0x4DB26158, 0x3AB551CE, 0xA3BC0074, 0xD4BB30E2, 0x4ADFA541, 0x3DD895D7, 0xA4D1C46D, 0xD3D6F4FB,
      0x4369E96A, 0x346ED9FC, 0xAD678846, 0xDA60B8D0, 0x44042D73, 0x33031DE5, 0xAA0A4C5F, 0xDD0D7CC9,
      0x5005713C, 0x270241AA, 0xBE0B1010, 0xC90C2086, 0x5768B525, 0x206F85B3, 0xB966D409, 0xCE61E49F,
      0x5EDEF90E, 0x29D9C998, 0xB0D09822, 0xC7D7A8B4, 0x59B33D17, 0x2EB40D81, 0xB7BD5C3B, 0xC0BA6CAD,
      0xEDB88320, 0x9ABFB3B6, 0x03B6E20C, 0x74B1D29A, 0xEAD54739, 0x9DD277AF, 0x04DB2615, 0x73DC1683,
      0xE3630B12, 0x94643B84, 0x0D6D6A3E, 0x7A6A5AA8, 0xE40ECF0B, 0x9309FF9D, 0x0A00AE27, 0x7D079EB1,
      0xF00F9344, 0x8708A3D2, 0x1E01F268, 0x6906C2FE, 0xF762575D, 0x806567CB, 0x196C3671, 0x6E6B06E7,
      0xFED41B76, 0x89D32BE0, 0x10DA7A5A, 0x67DD4ACC, 0xF9B9DF6F, 0x8EBEEFF9, 0x17B7BE43, 0x60B08ED5,
      0xD6D6A3E8, 0xA1D1937E, 0x38D8C2C4, 0x4FDFF252, 0xD1BB67F1, 0xA6BC5767, 0x3FB506DD, 0x48B2364B,
      0xD80D2BDA, 0xAF0A1B4C, 0x36034AF6, 0x41047A60, 0xDF60EFC3, 0xA867DF55, 0x316E8EEF, 0x4669BE79,
      0xCB61B38C, 0xBC66831A, 0x256FD2A0, 0x5268E236, 0xCC0C7795, 0xBB0B4703, 0x220216B9, 0x5505262F,
      0xC5BA3BBE, 0xB2BD0B28, 0x2BB45A92, 0x5CB36A04, 0xC2D7FFA7, 0xB5D0CF31, 0x2CD99E8B, 0x5BDEAE1D,
      0x9B64C2B0, 0xEC63F226, 0x756AA39C, 0x026D930A, 0x9C0906A9, 0xEB0E363F, 0x72076785, 0x05005713,
      0x95BF4A82, 0xE2B87A14, 0x7BB12BAE, 0x0CB61B38, 0x92D28E9B, 0xE5D5BE0D, 0x7CDCEFB7, 0x0BDBDF21,
      0x86D3D2D4, 0xF1D4E242, 0x68DDB3F8, 0x1FDA836E, 0x81BE16CD, 0xF6B9265B, 0x6FB077E1, 0x18B74777,
      0x88085AE6, 0xFF0F6A70, 0x66063BCA, 0x11010B5C, 0x8F659EFF, 0xF862AE69, 0x616BFFD3, 0x166CCF45,
      0xA00AE278, 0xD70DD2EE, 0x4E048354, 0x3903B3C2, 0xA7672661, 0xD06016F7, 0x4969474D, 0x3E6E77DB,
      0xAED16A4A, 0xD9D65ADC, 0x40DF0B66, 0x37D83BF0, 0xA9BCAE53, 0xDEBB9EC5, 0x47B2CF7F, 0x30B5FFE9,
      0xBDBDF21C, 0xCABAC28A, 0x53B39330, 0x24B4A3A6, 0xBAD03605, 0xCDD70693, 0x54DE5729, 0x23D967BF,
      0xB3667A2E, 0xC4614AB8, 0x5D681B02, 0x2A6F2B94, 0xB40BBE37, 0xC30C8EA1, 0x5A05DF1B, 0x2D02EF8D]"

definition MIN_PAYLOAD_SIZE :: size_t where
  "MIN_PAYLOAD_SIZE = 46"

definition ETH_HDR :: size_t where
  "ETH_HDR = 14"

definition fcs_step :: "u8 \<Rightarrow> u32 \<Rightarrow> u32" where
  "fcs_step d crc = crctable ! unat ((crc XOR ucast d) AND 0xFF) XOR drop_bit 8 crc"

definition calculate_fcs :: "u8 list \<Rightarrow> u32" where
  "calculate_fcs data = hton32 (fold fcs_step data 0xFFFFFFFF XOR 0xFFFFFFFF)"

text \<open>The reflected CRC-32 by single bits, polynomial 0x04C11DB7.\<close>

definition crc_bit :: "u32 \<Rightarrow> u32" where
  "crc_bit c = (if c AND 1 = 1 then drop_bit 1 c XOR 0xEDB88320 else drop_bit 1 c)"

definition crc_byte :: "u8 \<Rightarrow> u32 \<Rightarrow> u32" where
  "crc_byte d c = (crc_bit ^^ 8) (c XOR ucast d)"

lemma crctable_length: "length crctable = 256"
  by (simp add: crctable_def)

lemma crc_bits8: "(crc_bit ^^ 8) c = crc_bit (crc_bit (crc_bit (crc_bit (crc_bit (crc_bit (crc_bit (crc_bit c)))))))"
  by (simp add: eval_nat_numeral)

lemma crc_row0:
  "map (crc_bit ^^ 8) [0, 1, 2, 3, 4, 5, 6, 7, 8, 9, 10, 11, 12, 13, 14, 15,
      16, 17, 18, 19, 20, 21, 22, 23, 24, 25, 26, 27, 28, 29, 30, 31] =
     [0x00000000, 0x77073096, 0xEE0E612C, 0x990951BA, 0x076DC419, 0x706AF48F, 0xE963A535, 0x9E6495A3,
      0x0EDB8832, 0x79DCB8A4, 0xE0D5E91E, 0x97D2D988, 0x09B64C2B, 0x7EB17CBD, 0xE7B82D07, 0x90BF1D91,
      0x1DB71064, 0x6AB020F2, 0xF3B97148, 0x84BE41DE, 0x1ADAD47D, 0x6DDDE4EB, 0xF4D4B551, 0x83D385C7,
      0x136C9856, 0x646BA8C0, 0xFD62F97A, 0x8A65C9EC, 0x14015C4F, 0x63066CD9, 0xFA0F3D63, 0x8D080DF5]"
  by (simp add: crc_bits8 crc_bit_def)

lemma crc_row1:
  "map (crc_bit ^^ 8) [32, 33, 34, 35, 36, 37, 38, 39, 40, 41, 42, 43, 44, 45, 46, 47,
      48, 49, 50, 51, 52, 53, 54, 55, 56, 57, 58, 59, 60, 61, 62, 63] =
     [0x3B6E20C8, 0x4C69105E, 0xD56041E4, 0xA2677172, 0x3C03E4D1, 0x4B04D447, 0xD20D85FD, 0xA50AB56B,
      0x35B5A8FA, 0x42B2986C, 0xDBBBC9D6, 0xACBCF940, 0x32D86CE3, 0x45DF5C75, 0xDCD60DCF, 0xABD13D59,
      0x26D930AC, 0x51DE003A, 0xC8D75180, 0xBFD06116, 0x21B4F4B5, 0x56B3C423, 0xCFBA9599, 0xB8BDA50F,
      0x2802B89E, 0x5F058808, 0xC60CD9B2, 0xB10BE924, 0x2F6F7C87, 0x58684C11, 0xC1611DAB, 0xB6662D3D]"
  by (simp add: crc_bits8 crc_bit_def)

lemma crc_row2:
  "map (crc_bit ^^ 8) [64, 65, 66, 67, 68, 69, 70, 71, 72, 73, 74, 75, 76, 77, 78, 79,
      80, 81, 82, 83, 84, 85, 86, 87, 88, 89, 90, 91, 92, 93, 94, 95] =
     [0x76DC4190, 0x01DB7106, 0x98D220BC, 0xEFD5102A, 0x71B18589, 0x06B6B51F, 0x9FBFE4A5, 0xE8B8D433,
      0x7807C9A2, 0x0F00F934, 0x9609A88E, 0xE10E9818, 0x7F6A0DBB, 0x086D3D2D, 0x91646C97, 0xE6635C01,
      0x6B6B51F4, 0x1C6C6162, 0x856530D8, 0xF262004E, 0x6C0695ED, 0x1B01A57B, 0x8208F4C1, 0xF50FC457,
      0x65B0D9C6, 0x12B7E950, 0x8BBEB8EA, 0xFCB9887C, 0x62DD1DDF, 0x15DA2D49, 0x8CD37CF3, 0xFBD44C65]"
  by (simp add: crc_bits8 crc_bit_def)

lemma crc_row3:
  "map (crc_bit ^^ 8) [96, 97, 98, 99, 100, 101, 102, 103, 104, 105, 106, 107, 108, 109, 110, 111,
      112, 113, 114, 115, 116, 117, 118, 119, 120, 121, 122, 123, 124, 125, 126, 127] =
     [0x4DB26158, 0x3AB551CE, 0xA3BC0074, 0xD4BB30E2, 0x4ADFA541, 0x3DD895D7, 0xA4D1C46D, 0xD3D6F4FB,
      0x4369E96A, 0x346ED9FC, 0xAD678846, 0xDA60B8D0, 0x44042D73, 0x33031DE5, 0xAA0A4C5F, 0xDD0D7CC9,
      0x5005713C, 0x270241AA, 0xBE0B1010, 0xC90C2086, 0x5768B525, 0x206F85B3, 0xB966D409, 0xCE61E49F,
      0x5EDEF90E, 0x29D9C998, 0xB0D09822, 0xC7D7A8B4, 0x59B33D17, 0x2EB40D81, 0xB7BD5C3B, 0xC0BA6CAD]"
  by (simp add: crc_bits8 crc_bit_def)

lemma crc_row4:
  "map (crc_bit ^^ 8) [128, 129, 130, 131, 132, 133, 134, 135, 136, 137, 138, 139, 140, 141, 142, 143,
      144, 145, 146, 147, 148, 149, 150, 151, 152, 153, 154, 155, 156, 157, 158, 159] =
     [0xEDB88320, 0x9ABFB3B6, 0x03B6E20C, 0x74B1D29A, 0xEAD54739, 0x9DD277AF, 0x04DB2615, 0x73DC1683,
      0xE3630B12, 0x94643B84, 0x0D6D6A3E, 0x7A6A5AA8, 0xE40ECF0B, 0x9309FF9D, 0x0A00AE27, 0x7D079EB1,
      0xF00F9344, 0x8708A3D2, 0x1E01F268, 0x6906C2FE, 0xF762575D, 0x806567CB, 0x196C3671, 0x6E6B06E7,
      0xFED41B76, 0x89D32BE0, 0x10DA7A5A, 0x67DD4ACC, 0xF9B9DF6F, 0x8EBEEFF9, 0x17B7BE43, 0x60B08ED5]"
  by (simp add: crc_bits8 crc_bit_def)

lemma crc_row5:
  "map (crc_bit ^^ 8) [160, 161, 162, 163, 164, 165, 166, 167, 168, 169, 170, 171, 172, 173, 174, 175,
      176, 177, 178, 179, 180, 181, 182, 183, 184, 185, 186, 187, 188, 189, 190, 191] =
     [0xD6D6A3E8, 0xA1D1937E, 0x38D8C2C4, 0x4FDFF252, 0xD1BB67F1, 0xA6BC5767, 0x3FB506DD, 0x48B2364B,
      0xD80D2BDA, 0xAF0A1B4C, 0x36034AF6, 0x41047A60, 0xDF60EFC3, 0xA867DF55, 0x316E8EEF, 0x4669BE79,
      0xCB61B38C, 0xBC66831A, 0x256FD2A0, 0x5268E236, 0xCC0C7795, 0xBB0B4703, 0x220216B9, 0x5505262F,
      0xC5BA3BBE, 0xB2BD0B28, 0x2BB45A92, 0x5CB36A04, 0xC2D7FFA7, 0xB5D0CF31, 0x2CD99E8B, 0x5BDEAE1D]"
  by (simp add: crc_bits8 crc_bit_def)

lemma crc_row6:
  "map (crc_bit ^^ 8) [192, 193, 194, 195, 196, 197, 198, 199, 200, 201, 202, 203, 204, 205, 206, 207,
      208, 209, 210, 211, 212, 213, 214, 215, 216, 217, 218, 219, 220, 221, 222, 223] =
     [0x9B64C2B0, 0xEC63F226, 0x756AA39C, 0x026D930A, 0x9C0906A9, 0xEB0E363F, 0x72076785, 0x05005713,
      0x95BF4A82, 0xE2B87A14, 0x7BB12BAE, 0x0CB61B38, 0x92D28E9B, 0xE5D5BE0D, 0x7CDCEFB7, 0x0BDBDF21,
      0x86D3D2D4, 0xF1D4E242, 0x68DDB3F8, 0x1FDA836E, 0x81BE16CD, 0xF6B9265B, 0x6FB077E1, 0x18B74777,
      0x88085AE6, 0xFF0F6A70, 0x66063BCA, 0x11010B5C, 0x8F659EFF, 0xF862AE69, 0x616BFFD3, 0x166CCF45]"
  by (simp add: crc_bits8 crc_bit_def)

lemma crc_row7:
  "map (crc_bit ^^ 8) [224, 225, 226, 227, 228, 229, 230, 231, 232, 233, 234, 235, 236, 237, 238, 239,
      240, 241, 242, 243, 244, 245, 246, 247, 248, 249, 250, 251, 252, 253, 254, 255] =
     [0xA00AE278, 0xD70DD2EE, 0x4E048354, 0x3903B3C2, 0xA7672661, 0xD06016F7, 0x4969474D, 0x3E6E77DB,
      0xAED16A4A, 0xD9D65ADC, 0x40DF0B66, 0x37D83BF0, 0xA9BCAE53, 0xDEBB9EC5, 0x47B2CF7F, 0x30B5FFE9,
      0xBDBDF21C, 0xCABAC28A, 0x53B39330, 0x24B4A3A6, 0xBAD03605, 0xCDD70693, 0x54DE5729, 0x23D967BF,
      0xB3667A2E, 0xC4614AB8, 0x5D681B02, 0x2A6F2B94, 0xB40BBE37, 0xC30C8EA1, 0x5A05DF1B, 0x2D02EF8D]"
  by (simp add: crc_bits8 crc_bit_def)

lemma crctable_bits: "map (\<lambda>c. (crc_bit ^^ 8) c) (map of_nat [0..<256]) = crctable"
proof -
  have e: "map of_nat [0..<256] =
      ([0, 1, 2, 3, 4, 5, 6, 7, 8, 9, 10, 11, 12, 13, 14, 15,
      16, 17, 18, 19, 20, 21, 22, 23, 24, 25, 26, 27, 28, 29, 30, 31,
      32, 33, 34, 35, 36, 37, 38, 39, 40, 41, 42, 43, 44, 45, 46, 47,
      48, 49, 50, 51, 52, 53, 54, 55, 56, 57, 58, 59, 60, 61, 62, 63,
      64, 65, 66, 67, 68, 69, 70, 71, 72, 73, 74, 75, 76, 77, 78, 79,
      80, 81, 82, 83, 84, 85, 86, 87, 88, 89, 90, 91, 92, 93, 94, 95,
      96, 97, 98, 99, 100, 101, 102, 103, 104, 105, 106, 107, 108, 109, 110, 111,
      112, 113, 114, 115, 116, 117, 118, 119, 120, 121, 122, 123, 124, 125, 126, 127,
      128, 129, 130, 131, 132, 133, 134, 135, 136, 137, 138, 139, 140, 141, 142, 143,
      144, 145, 146, 147, 148, 149, 150, 151, 152, 153, 154, 155, 156, 157, 158, 159,
      160, 161, 162, 163, 164, 165, 166, 167, 168, 169, 170, 171, 172, 173, 174, 175,
      176, 177, 178, 179, 180, 181, 182, 183, 184, 185, 186, 187, 188, 189, 190, 191,
      192, 193, 194, 195, 196, 197, 198, 199, 200, 201, 202, 203, 204, 205, 206, 207,
      208, 209, 210, 211, 212, 213, 214, 215, 216, 217, 218, 219, 220, 221, 222, 223,
      224, 225, 226, 227, 228, 229, 230, 231, 232, 233, 234, 235, 236, 237, 238, 239,
      240, 241, 242, 243, 244, 245, 246, 247, 248, 249, 250, 251, 252, 253, 254, 255] :: u32 list)"
    by (simp add: upt_rec)
  show ?thesis
    unfolding e crctable_def using crc_row0 crc_row1 crc_row2 crc_row3 crc_row4 crc_row5 crc_row6 crc_row7
    by simp
qed

lemma crctable_nth: "i < 256 \<Longrightarrow> crctable ! i = (crc_bit ^^ 8) (of_nat i)"
  unfolding crctable_bits [symmetric] by simp

lemma and_one: "(c :: u32) AND 1 = 1 \<longleftrightarrow> bit c 0"
  by (simp add: and_one_eq bit_0 odd_iff_mod_2_eq_one)

lemma crc_bit_xor: "crc_bit (a XOR b) = crc_bit a XOR crc_bit b"
  by (rule bit_word_eqI) (auto simp: crc_bit_def and_one bit_simps)

lemma crc_bits_xor: "(crc_bit ^^ n) (a XOR b) = (crc_bit ^^ n) a XOR (crc_bit ^^ n) b"
  by (induction n) (simp_all add: crc_bit_xor)

lemma crc_bits_shift:
  "(\<And>i. i < n \<Longrightarrow> \<not> bit c i) \<Longrightarrow> (crc_bit ^^ n) c = drop_bit n c"
proof (induction n arbitrary: c)
  case 0
  then show ?case by simp
next
  case (Suc n)
  have "crc_bit c = drop_bit 1 c"
    using Suc.prems [of 0] by (simp add: crc_bit_def and_one)
  moreover have "(crc_bit ^^ n) (drop_bit 1 c) = drop_bit n (drop_bit 1 c)"
    using Suc.prems by (intro Suc.IH) (simp add: bit_drop_bit_eq)
  ultimately show ?case
    by (simp add: funpow_Suc_right del: funpow.simps)
qed

lemma fcs_step_bits: "fcs_step d crc = crc_byte d crc"
proof -
  let ?x = "crc XOR ucast d :: u32"
  define M :: u32 where "M = 0xFF"
  have m: "bit M n \<longleftrightarrow> n < 8" for n
  proof -
    have "M = mask 8"
      by (simp add: M_def mask_eq_exp_minus_1)
    then show ?thesis
      by (simp only: bit_mask_iff) auto
  qed
  have "unat (?x AND M) \<le> unat M"
    using word_and_le1 [of ?x M] by (simp add: word_le_nat_alt)
  then have lo: "unat (?x AND M) < 256"
    by (simp add: M_def)
  have split: "?x = (?x AND M) XOR (?x AND NOT M)"
    by (rule bit_word_eqI) (auto simp: bit_simps m)
  have "(crc_bit ^^ 8) (?x AND NOT M) = drop_bit 8 (?x AND NOT M)"
    by (rule crc_bits_shift) (auto simp: bit_simps m)
  also have "\<dots> = drop_bit 8 crc"
    by (rule bit_word_eqI) (auto simp: bit_simps m dest: bit_imp_le_length)
  finally have "(crc_bit ^^ 8) ?x = (crc_bit ^^ 8) (?x AND M) XOR drop_bit 8 crc"
    using crc_bits_xor [of 8 "?x AND M" "?x AND NOT M"] split by simp
  then show ?thesis
    using crctable_nth [OF lo] by (simp add: fcs_step_def crc_byte_def M_def)
qed

text \<open>C10: The table driven frame check sequence is the CRC-32 of Ethernet: on every byte string the
  table of 256 entries computes what shifting and conditionally adding the polynomial bit by bit
  computes, and the result is its complement in network byte order.\<close>

theorem calculate_fcs_is_crc32:
  "calculate_fcs data = hton32 (NOT (fold crc_byte data 0xFFFFFFFF))"
proof -
  have "fold fcs_step data c = fold crc_byte data c" for c
    by (rule fold_cong) (simp_all add: fcs_step_bits fun_eq_iff)
  moreover have "c XOR 0xFFFFFFFF = NOT c" for c :: u32
  proof -
    have "(0xFFFFFFFF :: u32) = NOT 0"
      by simp
    then show ?thesis
      by (simp only:) (rule bit_word_eqI, simp add: bit_simps)
  qed
  ultimately show ?thesis
    by (simp add: calculate_fcs_def)
qed

section \<open>The Ethernet layer\<close>

record 'l eth_layer =
  em_mac :: "u8 list"
  em_lower :: 'l
  em_upper :: 'l
  em_proto :: u16
  em_fcs :: bool

definition eth_init :: "u8 list \<Rightarrow> 'l \<Rightarrow> 'l \<Rightarrow> u16 \<Rightarrow> bool \<Rightarrow> 'l eth_layer" where
  "eth_init mac lower upper protocol add_fcs =
     \<lparr>em_mac = mac, em_lower = lower, em_upper = upper, em_proto = hton16 protocol, em_fcs = add_fcs\<rparr>"

definition eth_match :: "u8 list \<Rightarrow> nat \<Rightarrow> u8 list \<Rightarrow> bool" where
  "eth_match bs off mac =
     (if (bs ! off) AND 1 = 0
      then fold (\<lambda>i m. if bs ! (off + i) \<noteq> mac ! i then False else m) [0..<6] True else True)"

definition set_src_mac :: "u8 list \<Rightarrow> netinfo \<Rightarrow> netinfo" where
  "set_src_mac mac i = i\<lparr>ni_src := (ni_src i)\<lparr>na_mac := mac\<rparr>\<rparr>"

definition eth_receive :: "packet \<Rightarrow> netinfo \<Rightarrow> 'l eth_layer \<Rightarrow> 'l outcome \<times> packet \<times> netinfo" where
  "eth_receive p info s =
     (case pk_read_ptr ETH_HDR p of
        None \<Rightarrow> (Done RET_ERROR, p, info)
      | Some off \<Rightarrow>
          (let bs = pk_buff p in
           if \<not> eth_match bs off (em_mac s) then (Done RET_ERROR, p, info)
           else
             (let calc_fcs = calculate_fcs (take (unat (pk_payload_size p + pk_header_size p - 4)) (drop (pk_raw p) bs));
                  fcs = le32 bs (pk_raw p + unat (pk_available p - 4))
              in if calc_fcs \<noteq> fcs then (Done RET_ERROR, p, info)
                 else
                   (let p1 = snd (pk_truncate (pk_available p - 4) p);
                        info1 = set_src_mac (map (\<lambda>i. bs ! (off + 6 + i)) [0..<6]) info
                    in (case pk_skip_read ETH_HDR p1 of
                          (ret, p2) \<Rightarrow>
                            if ret \<noteq> RET_SUCCESS then (Done RET_ERROR, p2, info1)
                            else (Receive (em_upper s), p2, info1))))))"

text \<open>The header that \<open>transmit\<close> writes.\<close>

definition eth_write_header :: "nat \<Rightarrow> u8 list \<Rightarrow> u8 list \<Rightarrow> u16 \<Rightarrow> u8 list \<Rightarrow> u8 list" where
  "eth_write_header off mac dst proto bs =
     store16 proto (off + 12) (fold (\<lambda>i b. b[off + 6 + i := mac ! i, off + i := dst ! i]) [0..<6] bs)"

definition eth_transmit :: "packet \<Rightarrow> netinfo \<Rightarrow> 'l eth_layer \<Rightarrow> 'l outcome \<times> packet \<times> netinfo" where
  "eth_transmit p info s =
     (case pk_allocate_header ETH_HDR p of
        (None, p1) \<Rightarrow> (Done RET_ERROR, p1, info)
      | (Some off, p1) \<Rightarrow>
          (Transmit (em_lower s),
           p1\<lparr>pk_buff := eth_write_header off (em_mac s) (na_mac (ni_dst info)) (em_proto s) (pk_buff p1)\<rparr>, info))"

fun eth_pad :: "nat \<Rightarrow> packet \<Rightarrow> packet option" where
  "eth_pad 0 p = Some p"
| "eth_pad (Suc n) p = (case pk_push [0] p of None \<Rightarrow> None | Some (ret, p') \<Rightarrow> eth_pad n p')"

definition eth_pad_len :: "packet \<Rightarrow> nat" where
  "eth_pad_len p =
     (let diff = sint ((pk_payload_size p + pk_header_size p - ETH_HDR) - MIN_PAYLOAD_SIZE)
      in if diff < 0 then nat (- diff) else 0)"

definition eth_transmit2 ::
  "packet \<Rightarrow> netinfo \<Rightarrow> 'l eth_layer \<Rightarrow> ('l outcome \<times> packet \<times> netinfo) option" where
  "eth_transmit2 p info s =
     (case pk_allocate_header ETH_HDR p of
        (None, p1) \<Rightarrow> Some (Done RET_ERROR, p1, info)
      | (Some off, p1) \<Rightarrow>
          (case eth_pad (eth_pad_len p1) p1 of
             None \<Rightarrow> None
           | Some p2 \<Rightarrow>
               if \<not> em_fcs s then Some (Transmit2 (em_lower s), p2, info)
               else
                 (let fcs = calculate_fcs (take (unat (pk_payload_size p2 + pk_header_size p2))
                                             (drop (pk_raw p2) (pk_buff p2)))
                  in (case pk_push (map (\<lambda>i. byte_of i fcs) [0..<4]) p2 of
                        None \<Rightarrow> None
                      | Some (ret, p3) \<Rightarrow>
                          if ret \<noteq> RET_SUCCESS then Some (Done RET_ERROR, p3, info)
                          else Some (Transmit2 (em_lower s), p3, info)))))"

section \<open>The address resolution layer of src/net/simple_arp\<close>

definition FIXED_MAC_1 :: u8 where
  "FIXED_MAC_1 = 0x6c"

definition FIXED_MAC_2 :: u8 where
  "FIXED_MAC_2 = 0x69"

definition set_dst_mac :: "u8 list \<Rightarrow> netinfo \<Rightarrow> netinfo" where
  "set_dst_mac mac i = i\<lparr>ni_dst := (ni_dst i)\<lparr>na_mac := mac\<rparr>\<rparr>"

definition arp_transmit :: "'l \<Rightarrow> packet \<Rightarrow> netinfo \<Rightarrow> 'l outcome \<times> packet \<times> netinfo" where
  "arp_transmit lower p info =
     (let ip = na_ipv4 (ni_dst info); big = hton32 ip
      in if is_multicast big \<or> is_broadcast big
         then (Transmit lower, p, set_dst_mac (replicate 6 0xFF) info)
         else (Transmit lower, p,
               set_dst_mac [FIXED_MAC_1, FIXED_MAC_2, ucast ip, ucast (drop_bit 8 ip), ucast (drop_bit 16 ip),
                            ucast (drop_bit 24 ip)] info))"

definition arp_transmit2 :: "'l \<Rightarrow> packet \<Rightarrow> netinfo \<Rightarrow> 'l outcome \<times> packet \<times> netinfo" where
  "arp_transmit2 lower p info = (Transmit2 lower, p, info)"

definition arp_receive :: "packet \<Rightarrow> netinfo \<Rightarrow> 'l outcome \<times> packet \<times> netinfo" where
  "arp_receive p info = (Done RET_ERROR, p, info)"

section \<open>Frames\<close>

lemma fold_all: "fold (\<lambda>i m. if P i then False else m) xs b \<longleftrightarrow> b \<and> (\<forall>i\<in>set xs. \<not> P i)"
  by (induction xs arbitrary: b) auto

lemma eth_match_iff:
  "eth_match bs off mac \<longleftrightarrow> (bs ! off) AND 1 \<noteq> 0 \<or> (\<forall>i<6. bs ! (off + i) = mac ! i)"
  by (simp add: eth_match_def fold_all) auto

lemma unread_nth:
  "pk_inv q \<Longrightarrow> i < length (pk_unread q) \<Longrightarrow> pk_unread q ! i = pk_buff q ! (unat (pk_rpos q) + i)"
  by (simp add: pk_unread_def pk_inv_def word_le_nat_alt)

lemma le32_of_bytes: "length bs = 4 \<Longrightarrow> bs = map (\<lambda>i. byte_of i w) [0..<4] \<Longrightarrow> le32 bs 0 = (w :: u32)"
  using glue_bytes32 [of w] by (simp add: le32_def upt_4)

lemma eth_write_header_nth:
  assumes "length mac = 6" and "length dst = 6" and "off + 14 \<le> length bs"
  shows "i < 6 \<Longrightarrow> eth_write_header off mac dst proto bs ! (off + i) = dst ! i"
    and "i < 6 \<Longrightarrow> eth_write_header off mac dst proto bs ! (off + 6 + i) = mac ! i"
    and "j < off \<or> off + 14 \<le> j \<Longrightarrow> eth_write_header off mac dst proto bs ! j = bs ! j"
    and "length (eth_write_header off mac dst proto bs) = length bs"
proof -
  have u: "[0..<6] = [0, 1, 2, 3, 4, 5 :: nat]"
    by (simp add: upt_rec)
  have c: "i < 6 \<Longrightarrow> i = 0 \<or> i = 1 \<or> i = 2 \<or> i = 3 \<or> i = 4 \<or> i = (5 :: nat)"
    by linarith
  show "eth_write_header off mac dst proto bs ! (off + i) = dst ! i" if "i < 6"
    using c [OF that] assms by (elim disjE; simp add: eth_write_header_def u store16_def nth_list_update)
  show "eth_write_header off mac dst proto bs ! (off + 6 + i) = mac ! i" if "i < 6"
    using c [OF that] assms by (elim disjE; simp add: eth_write_header_def u store16_def nth_list_update)
  show "j < off \<or> off + 14 \<le> j \<Longrightarrow> eth_write_header off mac dst proto bs ! j = bs ! j"
    by (elim disjE; simp add: eth_write_header_def u store16_def)
  show "length (eth_write_header off mac dst proto bs) = length bs"
    by (simp add: eth_write_header_def u)
qed

lemma payload_header_size: "pk_payload_size p + pk_header_size p = pk_wpos p - pk_hpos p"
  by (simp add: pk_payload_size_def pk_header_size_def)

text \<open>A frame with the right checksum that is addressed to the layer is passed on without it.\<close>

lemma eth_receive_frame:
  assumes inv: "pk_inv q" and small: "unat (pk_size q) + 14 < 2 ^ 32" and rp: "pk_rpos q = pk_hpos q"
    and fr: "pk_unread q = F @ map (\<lambda>i. byte_of i (calculate_fcs F)) [0..<4]" and len: "14 \<le> length F"
    and dst: "F ! 0 AND 1 \<noteq> 0 \<or> take 6 F = em_mac s"
  shows "\<exists>q'. eth_receive q info s = (Receive (em_upper s), q', set_src_mac (take 6 (drop 6 F)) info) \<and>
    pk_inv q' \<and> pk_unread q' = drop 14 F"
proof -
  let ?r = "unat (pk_rpos q)" and ?bs = "pk_buff q" and ?n = "length F"
  have ul: "length (pk_unread q) = ?n + 4"
    by (simp add: fr)
  have w: "unat (pk_wpos q) = ?r + (?n + 4)"
    using pk_unread_length [OF inv] ul len by simp
  have nth: "F ! i = ?bs ! (?r + i)" if "i < ?n" for i
    using unread_nth [OF inv, of i] that ul by (simp add: fr nth_append)
  have av: "unat (pk_available q) = ?n + 4"
    using pk_available_unat [OF inv] ul by simp
  have av4: "unat (pk_available q - 4) = ?n"
    using av by (simp add: unat_sub word_le_nat_alt)
  have ph: "unat (pk_payload_size q + pk_header_size q - 4) = ?n"
    using av4 by (simp add: payload_header_size pk_available_def rp)
  have raw: "pk_raw q = ?r"
    by (simp add: pk_raw_def rp)
  have sz: "unat (pk_wpos q) \<le> unat (pk_size q)"
    using inv by (simp add: pk_inv_def word_le_nat_alt)
  have "unat (pk_rpos q + ETH_HDR) = ?r + 14"
    using word_add_noover [of "pk_rpos q" ETH_HDR] small w sz len by (simp add: ETH_HDR_def)
  then have ptr: "pk_read_ptr ETH_HDR q = Some ?r"
    using w len by (simp add: pk_read_ptr_def word_less_nat_alt)
  have "take ?n (pk_unread q) = F"
    by (simp add: fr)
  then have body: "take ?n (drop ?r ?bs) = F"
    using w by (simp add: pk_unread_def)
  have "drop ?n (pk_unread q) = map (\<lambda>i. byte_of i (calculate_fcs F)) [0..<4]"
    by (simp add: fr)
  then have tail: "?bs ! (?r + ?n + k) = byte_of k (calculate_fcs F)" if "k < 4" for k
    using that unread_nth [OF inv, of "?n + k"] ul by (simp add: fr nth_append add.assoc)
  have fcs: "le32 ?bs (?r + ?n) = calculate_fcs F"
    using tail [of 0] tail [of 1] tail [of 2] tail [of 3] glue_bytes32 [of "calculate_fcs F"]
    by (simp add: le32_def add.assoc)
  have match: "eth_match ?bs ?r (em_mac s)"
    unfolding eth_match_iff
  proof (rule disjE [OF dst])
    assume "F ! 0 AND 1 \<noteq> 0"
    then show "?bs ! ?r AND 1 \<noteq> 0 \<or> (\<forall>i<6. ?bs ! (?r + i) = em_mac s ! i)"
      using nth [of 0] len by (cases F) auto
  next
    assume t: "take 6 F = em_mac s"
    have "?bs ! (?r + i) = em_mac s ! i" if "i < 6" for i
      using that nth [of i] len by (simp add: t [symmetric])
    then show "?bs ! ?r AND 1 \<noteq> 0 \<or> (\<forall>i<6. ?bs ! (?r + i) = em_mac s ! i)"
      by blast
  qed
  have "\<not> unat (pk_available q - 4) > length (pk_unread q)"
    using av4 ul by simp
  then obtain q1 where q1: "pk_truncate (pk_available q - 4) q = (RET_SUCCESS, q1)" "pk_inv q1"
      "q1 = q\<lparr>pk_wpos := pk_wpos q1\<rparr>" "pk_unread q1 = F"
    using pk_truncate_ok [OF inv, of "pk_available q - 4"] av4 by (auto simp: fr)
  have "pk_size q1 = pk_size q"
    using q1(3) by (metis packet.select_convs packet.surjective packet.update_convs)
  then have "unat ETH_HDR + unat (pk_size q1) < 2 ^ 32" "\<not> unat ETH_HDR > length (pk_unread q1)"
    using small len q1(4) by (simp_all add: ETH_HDR_def)
  then obtain q2 where q2: "pk_skip_read ETH_HDR q1 = (RET_SUCCESS, q2)" "pk_inv q2" "pk_unread q2 = drop 14 F"
    using pk_skip_read_ok [OF q1(2), of ETH_HDR] q1(4) by (auto simp: ETH_HDR_def)
  have mac: "map (\<lambda>i. ?bs ! (?r + 6 + i)) [0..<6] = take 6 (drop 6 F)"
    by (rule nth_equalityI) (use len nth in \<open>auto simp: add.assoc\<close>)
  have "eth_receive q info s = (Receive (em_upper s), q2, set_src_mac (take 6 (drop 6 F)) info)"
    using ptr match ph av4 raw body fcs q1(1) q2(1) mac by (simp add: eth_receive_def Let_def)
  then show ?thesis
    using q2 by blast
qed

lemma eth_pad_wrote:
  "pk_inv p \<Longrightarrow> n + unat (pk_size p) + 1 < 2 ^ 32 \<Longrightarrow> unat (pk_wpos p) + n \<le> unat (pk_size p) \<Longrightarrow>
   pk_hpos p \<le> pk_wpos p \<Longrightarrow>
   \<exists>p'. eth_pad n p = Some p' \<and> pk_inv p' \<and> pk_frame p' = pk_frame p @ replicate n 0 \<and>
     unat (pk_wpos p') = unat (pk_wpos p) + n \<and> pk_hpos p' = pk_hpos p \<and> pk_hsize p' = pk_hsize p \<and>
     pk_size p' = pk_size p"
proof (induction n arbitrary: p)
  case 0
  then show ?case by simp
next
  case (Suc n)
  have s: "length [0 :: u8] + unat (pk_size p) < 2 ^ 32" "unat (pk_wpos p) + length [0 :: u8] \<le> unat (pk_size p)"
    using Suc.prems by simp_all
  note w = pk_push_wrote [OF Suc.prems(1) s] and f = pk_wrote_frame [OF Suc.prems(1) s Suc.prems(4)]
  have "pk_hpos p \<le> pk_wpos (pk_wrote [0] p)"
    using w(3) Suc.prems(4) by (simp add: word_le_nat_alt)
  then obtain p' where "eth_pad n (pk_wrote [0] p) = Some p'" "pk_inv p'"
      "pk_frame p' = pk_frame (pk_wrote [0] p) @ replicate n 0"
      "unat (pk_wpos p') = unat (pk_wpos (pk_wrote [0] p)) + n" "pk_hpos p' = pk_hpos p"
      "pk_hsize p' = pk_hsize p" "pk_size p' = pk_size p"
    using Suc.IH [OF w(2)] Suc.prems w(3) by auto
  then show ?case
    using w f by (simp add: replicate_append_same)
qed

lemma take_frame:
  "pk_inv p \<Longrightarrow> pk_hpos p \<le> pk_wpos p \<Longrightarrow>
   take (unat (pk_payload_size p + pk_header_size p)) (drop (pk_raw p) (pk_buff p)) = pk_frame p"
  by (simp add: payload_header_size pk_frame_def pk_raw_def unat_sub)

lemma sint_small: "- (2 ^ 31) \<le> k \<Longrightarrow> k < 2 ^ 31 \<Longrightarrow> sint (word_of_int k :: 32 word) = k"
  by (simp add: signed_of_int signed_take_bit_int_eq_self)

lemma eth_pad_len_eq:
  assumes "pk_hpos p \<le> pk_wpos p" and "14 \<le> unat (pk_wpos p) - unat (pk_hpos p)"
    and "unat (pk_wpos p) < 2 ^ 31"
  shows "eth_pad_len p = 60 - (unat (pk_wpos p) - unat (pk_hpos p))"
proof -
  let ?d = "unat (pk_wpos p) - unat (pk_hpos p)"
  have e: "(pk_payload_size p + pk_header_size p - ETH_HDR) - MIN_PAYLOAD_SIZE = word_of_int (int ?d - 60)"
  proof -
    have "pk_wpos p - pk_hpos p = word_of_int (int (unat (pk_wpos p)) - int (unat (pk_hpos p)))"
      by simp
    also have "int (unat (pk_wpos p)) - int (unat (pk_hpos p)) = int ?d"
      using assms(1) by (simp add: word_le_nat_alt of_nat_diff)
    finally have "pk_wpos p - pk_hpos p - 14 - 46 = word_of_int (int ?d) - 60"
      by simp
    then show ?thesis
      by (simp add: payload_header_size ETH_HDR_def MIN_PAYLOAD_SIZE_def)
  qed
  have "sint (word_of_int (int ?d - 60) :: size_t) = int ?d - 60"
  proof (rule sint_small)
    have "?d < 2 ^ 31"
      using assms(3) by simp
    then have "int ?d < 2 ^ 31"
      by simp
    then show "- (2 ^ 31) \<le> int ?d - 60" "int ?d - 60 < 2 ^ 31"
      by simp_all
  qed
  moreover have "(if int d - 60 < 0 then nat (- (int d - 60)) else 0) = 60 - d" for d
    by (cases "d < 60") (simp_all add: nat_diff_distrib)
  ultimately show ?thesis
    unfolding eth_pad_len_def e Let_def by (simp only:)
qed

text \<open>The header in front of the frame.\<close>

lemma eth_transmit_frame:
  assumes "pk_inv p" and "14 \<le> pk_hpos p" and "pk_hsize p \<le> pk_wpos p"
    and "length (em_mac s) = 6" and "length (na_mac (ni_dst info)) = 6"
  obtains p1 H where "eth_transmit p info s = (Transmit (em_lower s), p1, info)" "pk_inv p1" "pk_hpos p1 \<le> pk_wpos p1"
    "pk_allocate_header ETH_HDR (p1\<lparr>pk_hpos := pk_hpos p\<rparr>) = (Some (unat (pk_hpos p) - 14), p1)"
    "pk_frame p1 = H @ pk_frame p" "length H = 14" "take 6 H = na_mac (ni_dst info)" "take 6 (drop 6 H) = em_mac s"
    "pk_wpos p1 = pk_wpos p" "pk_size p1 = pk_size p" "unat (pk_hpos p1) = unat (pk_hpos p) - 14"
proof -
  let ?off = "unat (pk_hpos p) - 14" and ?dst = "na_mac (ni_dst info)"
  have b: "unat (pk_hpos p) \<le> unat (pk_wpos p)" "unat (pk_wpos p) \<le> unat (pk_size p)" "14 \<le> unat (pk_hpos p)"
      "length (pk_buff p) = unat (pk_size p)" "unat (pk_hpos p) \<le> unat (pk_hsize p)"
    using assms(1-3) by (auto simp: pk_inv_def word_le_nat_alt)
  obtain pa where pa: "pk_allocate_header ETH_HDR p = (Some ?off, pa)" "pk_inv pa"
      "pa = p\<lparr>pk_hpos := pk_hpos p - ETH_HDR\<rparr>" "unat (pk_hpos pa) = ?off"
    using pk_allocate_header_ok [OF assms(1), of ETH_HDR] assms(2) by (auto simp: ETH_HDR_def)
  define bs where "bs = eth_write_header ?off (em_mac s) ?dst (em_proto s) (pk_buff p)"
  have room: "?off + 14 \<le> length (pk_buff p)"
    using b by simp
  note hn = eth_write_header_nth [OF assms(4,5) room, where proto = "em_proto s", folded bs_def]
  let ?p1 = "pa\<lparr>pk_buff := bs\<rparr>" and ?H = "take 14 (drop ?off bs)"
  have e: "unat (pk_wpos p) - ?off = 14 + (unat (pk_wpos p) - unat (pk_hpos p))"
    using b by simp
  have "drop (unat (pk_hpos p)) bs = drop (unat (pk_hpos p)) (pk_buff p)"
    by (rule nth_equalityI) (use hn(3,4) b in auto)
  moreover have "drop 14 (drop ?off bs) = drop (unat (pk_hpos p)) bs"
    using b by simp
  moreover have "pk_frame ?p1 = take (unat (pk_wpos p) - ?off) (drop ?off bs)"
    using pa(4) by (simp add: pk_frame_def) (simp add: pa(3))
  ultimately have frame: "pk_frame ?p1 = ?H @ pk_frame p"
    unfolding e take_add by (simp add: pk_frame_def)
  have "take 6 ?H = ?dst" "take 6 (drop 6 ?H) = em_mac s"
    by (rule nth_equalityI; use assms(4,5) hn(1,2,4) b in \<open>auto simp: add.assoc\<close>)+
  moreover have "pk_inv ?p1" "pk_hpos ?p1 \<le> pk_wpos ?p1"
    using pa hn(4) b by (simp_all add: pk_inv_def word_le_nat_alt)
  moreover have "pk_allocate_header ETH_HDR (?p1\<lparr>pk_hpos := pk_hpos p\<rparr>) = (Some ?off, ?p1)"
    using pa(1,3) by (auto simp: pk_allocate_header_def Let_def split: if_splits)
  moreover have "eth_transmit p info s = (Transmit (em_lower s), ?p1, info)"
    using pa(1,3) by (simp add: eth_transmit_def bs_def)
  moreover have "length ?H = 14"
    using hn(4) b by simp
  ultimately show ?thesis
    using that [of ?p1 ?H] frame pa(3,4) by simp
qed

text \<open>The padding and the sum behind it, seen by the reader of the packet.\<close>

lemma eth_transmit2_frame:
  assumes al: "pk_allocate_header ETH_HDR p0 = (Some off, p1)" and inv: "pk_inv p1" "pk_hpos p1 \<le> pk_wpos p1"
    and fcs: "em_fcs s" and n: "n = eth_pad_len p1" "n + unat (pk_size p1) + 4 < 2 ^ 32" "unat (pk_wpos p1) + n + 4 \<le> unat (pk_size p1)"
  obtains p3 where "eth_transmit2 p0 info s = Some (Transmit2 (em_lower s), p3, info)" "pk_inv (pk_seek_read True p3)"
    "pk_unread (pk_seek_read True p3) =
       (pk_frame p1 @ replicate n 0) @ map (\<lambda>i. byte_of i (calculate_fcs (pk_frame p1 @ replicate n 0))) [0..<4]"
    "pk_size (pk_seek_read True p3) = pk_size p1"
proof -
  obtain p2 where p2: "eth_pad n p1 = Some p2" "pk_inv p2" "pk_frame p2 = pk_frame p1 @ replicate n 0"
      "unat (pk_wpos p2) = unat (pk_wpos p1) + n" "pk_hpos p2 = pk_hpos p1" "pk_size p2 = pk_size p1"
    using eth_pad_wrote [OF inv(1) _ _ inv(2), of n] n(2,3) by auto
  let ?fb = "map (\<lambda>i. byte_of i (calculate_fcs (pk_frame p2))) [0..<4]"
  have o2: "pk_hpos p2 \<le> pk_wpos p2"
    using inv(2) p2(4,5) by (simp add: word_le_nat_alt)
  have s2: "length ?fb + unat (pk_size p2) < 2 ^ 32" "unat (pk_wpos p2) + length ?fb \<le> unat (pk_size p2)"
    using p2(4,6) n by auto
  note w = pk_push_wrote [OF p2(2) s2] and f = pk_wrote_frame [OF p2(2) s2 o2]
  have "eth_transmit2 p0 info s = Some (Transmit2 (em_lower s), pk_wrote ?fb p2, info)"
    using al p2(1) fcs w(1) take_frame [OF p2(2) o2] n(1) by (simp add: eth_transmit2_def Let_def)
  moreover have "pk_inv (pk_seek_read True (pk_wrote ?fb p2))"
    using w(2,3) o2 by (intro pk_seek_ok(2)) (simp_all add: word_le_nat_alt)
  moreover have "pk_unread (pk_seek_read True (pk_wrote ?fb p2)) = pk_frame p2 @ ?fb"
    using f by (simp add: frame_seek)
  moreover have "pk_size (pk_seek_read True (pk_wrote ?fb p2)) = pk_size p1"
    using p2(6) by (simp add: pk_seek_read_def)
  ultimately show ?thesis
    using that p2(3) by simp
qed

text \<open>C9: A packet that goes down through an Ethernet layer (the header is added in the first pass; padding
  and frame check sequence in the second, after the layers above have restored the header position)
  is accepted by the \<open>receive\<close> of the layer with the destination address, or of any layer if the
  address is a multicast or broadcast one: the layer above gets the packet as it was sent, padded
  with zeros to the minimum size, and learns the sender's address.\<close>

theorem eth_roundtrip:
  assumes "pk_inv p" and "14 \<le> pk_hpos p" and "pk_hsize p \<le> pk_wpos p"
    and "unat (pk_wpos p) + 64 \<le> unat (pk_size p)" and "unat (pk_size p) + 64 < 2 ^ 31"
    and "length (em_mac s) = 6" and "length (na_mac (ni_dst info)) = 6" and "em_fcs s"
    and "na_mac (ni_dst info) = em_mac s' \<or> na_mac (ni_dst info) ! 0 AND 1 \<noteq> 0"
  shows "\<exists>p1 p3 p4. eth_transmit p info s = (Transmit (em_lower s), p1, info) \<and>
    eth_transmit2 (p1\<lparr>pk_hpos := pk_hpos p\<rparr>) info s = Some (Transmit2 (em_lower s), p3, info) \<and>
    eth_receive (pk_seek_read True p3) info' s' = (Receive (em_upper s'), p4, set_src_mac (em_mac s) info') \<and>
    pk_inv p4 \<and> pk_unread p4 = pk_frame p @ replicate (46 - length (pk_frame p)) 0"
proof -
  obtain p1 H where p1: "eth_transmit p info s = (Transmit (em_lower s), p1, info)" "pk_inv p1" "pk_hpos p1 \<le> pk_wpos p1"
    "pk_allocate_header ETH_HDR (p1\<lparr>pk_hpos := pk_hpos p\<rparr>) = (Some (unat (pk_hpos p) - 14), p1)"
    "pk_frame p1 = H @ pk_frame p" "length H = 14" "take 6 H = na_mac (ni_dst info)" "take 6 (drop 6 H) = em_mac s"
    "pk_wpos p1 = pk_wpos p" "pk_size p1 = pk_size p" "unat (pk_hpos p1) = unat (pk_hpos p) - 14"
    by (rule eth_transmit_frame [OF assms(1-3,6,7)])
  have b: "unat (pk_hpos p) \<le> unat (pk_wpos p)" "unat (pk_wpos p) \<le> length (pk_buff p)" "14 \<le> unat (pk_hpos p)"
    using assms(1-3) by (auto simp: pk_inv_def word_le_nat_alt)
  have n: "eth_pad_len p1 = 46 - length (pk_frame p)"
    using eth_pad_len_eq [OF p1(3)] p1(9-11) b assms(4,5) by (simp add: pk_frame_def)
  let ?n = "46 - length (pk_frame p)" and ?F = "pk_frame p1 @ replicate (46 - length (pk_frame p)) 0"
  have "?n + unat (pk_size p1) + 4 < 2 ^ 32" "unat (pk_wpos p1) + ?n + 4 \<le> unat (pk_size p1)"
    using assms(4,5) p1(9,10) by simp_all
  then obtain p3 where p3: "eth_transmit2 (p1\<lparr>pk_hpos := pk_hpos p\<rparr>) info s = Some (Transmit2 (em_lower s), p3, info)"
    "pk_inv (pk_seek_read True p3)"
    "pk_unread (pk_seek_read True p3) = ?F @ map (\<lambda>i. byte_of i (calculate_fcs ?F)) [0..<4]"
    "pk_size (pk_seek_read True p3) = pk_size p1"
    by (rule eth_transmit2_frame [OF p1(4,2,3) assms(8) n [symmetric]])
  have F: "take 6 ?F = na_mac (ni_dst info)" "take 6 (drop 6 ?F) = em_mac s"
    using p1(5-8) by simp_all
  moreover have "?F ! 0 = na_mac (ni_dst info) ! 0"
    using F(1) by (metis nth_take zero_less_numeral)
  ultimately have "?F ! 0 AND 1 \<noteq> 0 \<or> take 6 ?F = em_mac s'" "14 \<le> length ?F"
      "unat (pk_size (pk_seek_read True p3)) + 14 < 2 ^ 32" "pk_rpos (pk_seek_read True p3) = pk_hpos (pk_seek_read True p3)"
    using assms(5,9) p1(5,6,10) p3(4) by (auto simp: pk_seek_read_def)
  then obtain p4 where "eth_receive (pk_seek_read True p3) info' s' =
      (Receive (em_upper s'), p4, set_src_mac (take 6 (drop 6 ?F)) info')" "pk_inv p4" "pk_unread p4 = drop 14 ?F"
    using eth_receive_frame [OF p3(2) _ _ p3(3)] by blast
  then show ?thesis
    using p1(1,5,6) p3(1) F(2) by (intro exI [of _ p1] exI [of _ p3] exI [of _ p4]) simp
qed

theorem eth_roundtrip_witness:
  "\<exists>info p1 p3 p4. eth_transmit (pk_init (replicate 152 0) 110 42) info (eth_init [2, 0, 0, 0, 0, 8] 0 1 0x0800 True) =
       (Transmit (0 :: nat), p1, info) \<and>
     eth_receive (pk_seek_read True p3) info (eth_init [2, 0, 0, 0, 0, 9] 0 7 0x0800 True) =
       (Receive (7 :: nat), p4, set_src_mac [2, 0, 0, 0, 0, 8] info) \<and> pk_unread p4 = replicate 46 0"
proof -
  let ?p = "pk_init (replicate 152 0) 110 42"
  let ?s = "eth_init [2, 0, 0, 0, 0, 8] (0 :: nat) 1 0x0800 True"
  let ?s' = "eth_init [2, 0, 0, 0, 0, 9] (0 :: nat) 7 0x0800 True"
  define info where "info = \<lparr>ni_src = \<lparr>na_mac = [], na_ipv4 = 0, na_port = 0\<rparr>,
      ni_dst = \<lparr>na_mac = [2, 0, 0, 0, 0, 9], na_ipv4 = 0, na_port = 0\<rparr>, ni_ignore = False\<rparr>"
  have inv: "pk_inv ?p"
    by (rule pk_init_inv) simp_all
  have p: "14 \<le> pk_hpos ?p" "pk_hsize ?p \<le> pk_wpos ?p" "unat (pk_wpos ?p) + 64 \<le> unat (pk_size ?p)"
      "unat (pk_size ?p) + 64 < 2 ^ 31"
    by (simp_all add: pk_init_def)
  have m: "length (em_mac ?s) = 6" "length (na_mac (ni_dst info)) = 6" "em_fcs ?s"
      "na_mac (ni_dst info) = em_mac ?s' \<or> na_mac (ni_dst info) ! 0 AND 1 \<noteq> 0"
    by (simp_all add: eth_init_def info_def)
  have f: "pk_frame ?p = []" "em_lower ?s = 0" "em_upper ?s' = 7" "em_mac ?s = [2, 0, 0, 0, 0, 8]"
    by (simp_all add: pk_frame_def pk_init_def eth_init_def)
  from eth_roundtrip [OF inv p m, of info] show ?thesis
    unfolding f by fastforce
qed

end
