(* ===== verification/UdpModel.thy ===== *)
theory UdpModel
  imports IPv4Props
begin

text \<open>
  UDP of src/net/udp (udp.h, UDPRouter.h).
  Offsets in a UDP header: source port 0, destination port 2, length 4, checksum 6; it has 8 bytes.
  The tables hold layer pointers, which can be null: values of type \<open>'l option\<close>.
\<close>

section \<open>Checksum\<close>

text \<open>The loops of \<open>checksum\<close>: bytes at even positions are high bytes.\<close>

definition udp_sum_bytes :: "u8 list \<Rightarrow> u32 \<Rightarrow> u32" where
  "udp_sum_bytes xs s =
     fold (\<lambda>i s. if odd i then s + ucast (xs ! i) else s + push_bit 8 (ucast (xs ! i))) [0..<length xs] s"

function udp_fold :: "u32 \<Rightarrow> u32" where
  "udp_fold s = (if drop_bit 16 s = 0 then s else udp_fold ((s AND 0xFFFF) + drop_bit 16 s))"
  by auto

lemma udp_fold_less:
  assumes "drop_bit 16 (s :: u32) \<noteq> 0"
  shows "unat ((s AND 0xFFFF) + drop_bit 16 s) < unat s"
proof -
  have m: "(s AND 0xFFFF) = take_bit 16 s"
    by (simp add: take_bit_eq_mask mask_eq_exp_minus_1)
  have lo: "unat (take_bit 16 s) = unat s mod 65536" and hi: "unat (drop_bit 16 s) = unat s div 65536"
    by (simp_all add: take_bit_eq_mod drop_bit_eq_div unat_mod_distrib unat_div_distrib)
  have s: "unat s = 65536 * (unat s div 65536) + unat s mod 65536"
    by simp
  have pos: "0 < unat s div 65536"
    using assms hi by (metis gr0I unat_eq_0)
  have "unat (s AND 0xFFFF) + unat (drop_bit 16 s) < unat s"
    unfolding m lo hi using s pos by linarith
  moreover have "unat s < 2 ^ 32"
    using unsigned_less [of s, where 'a = nat] by simp
  ultimately show ?thesis
    by (simp add: unat_word_ariths)
qed

termination udp_fold
  by (relation "measure unat") (simp_all add: udp_fold_less)

declare udp_fold.simps [simp del]

text \<open>The checksum; \<open>hdr\<close> are the bytes of the header.\<close>

definition udp_checksum :: "u8 list \<Rightarrow> u8 list \<Rightarrow> u8 list \<Rightarrow> u8 list \<Rightarrow> u16" where
  "udp_checksum hdr src_ip dst_ip payload =
     (let s1 = udp_sum_bytes payload 0;
          s2 = udp_sum_bytes src_ip s1;
          s3 = udp_sum_bytes dst_ip s2;
          s4 = udp_sum_bytes hdr s3;
          s5 = s4 + ucast UDP_PROTO;
          s6 = s5 + ucast (ntoh16 (load16 hdr 4))
      in hton16 (ucast (NOT (udp_fold s6))))"

section \<open>The router\<close>

definition UDP_HDR :: size_t where
  "UDP_HDR = 8"

record 'l udp_router =
  ur_ports :: "(u16, 'l option) hashmap"
  ur_layers :: "('l option, u16) hashmap"
  ur_lower :: 'l

definition udp_subscribe ::
  "('l option \<Rightarrow> size_t) \<Rightarrow> 'l \<Rightarrow> u16 \<Rightarrow> 'l udp_router \<Rightarrow> ret_type \<times> 'l udp_router" where
  "udp_subscribe lh layer port r =
     (case hm_add hash_u16 port (ur_ports r) of
        (None, m) \<Rightarrow> (RET_ERROR, r\<lparr>ur_ports := m\<rparr>)
      | (Some i, m) \<Rightarrow>
          (case hm_add lh (Some layer) (ur_layers r) of
             (None, n) \<Rightarrow> (RET_ERROR, r\<lparr>ur_ports := m, ur_layers := n\<rparr>)
           | (Some j, n) \<Rightarrow>
               (RET_SUCCESS, r\<lparr>ur_ports := hm_put i (Some layer) m, ur_layers := hm_put j port n\<rparr>)))"

definition udp_unsubscribe ::
  "('l option \<Rightarrow> size_t) \<Rightarrow> u16 \<Rightarrow> 'l udp_router \<Rightarrow> (ret_type \<times> 'l udp_router) option" where
  "udp_unsubscribe lh port r =
     (case hm_get hash_u16 port (ur_ports r) of
        None \<Rightarrow> None
      | Some i \<Rightarrow>
          (case hm_remove lh (hm_val (ur_ports r) i) (ur_layers r) of
             (device_success, n) \<Rightarrow>
               (case hm_remove hash_u16 port (ur_ports r) of
                  (protocol_success, m) \<Rightarrow>
                    Some (if device_success \<and> protocol_success then RET_SUCCESS else RET_ERROR,
                          r\<lparr>ur_layers := n, ur_ports := m\<rparr>))))"

text \<open>The four bytes of an address as they lie in memory.\<close>

definition addr_bytes :: "u32 \<Rightarrow> u8 list" where
  "addr_bytes a = map (\<lambda>i. byte_of i a) [0..<4]"

definition hdr_bytes :: "nat \<Rightarrow> u8 list \<Rightarrow> u8 list" where
  "hdr_bytes off bs = take 8 (drop off bs)"

definition udp_receive ::
  "packet \<Rightarrow> netinfo \<Rightarrow> 'l udp_router \<Rightarrow> ('l outcome \<times> packet \<times> netinfo) option" where
  "udp_receive p info r =
     (case pk_read_ptr UDP_HDR p of
        None \<Rightarrow> None
      | Some off \<Rightarrow>
          (let info1 = set_src_port (ntoh16 (load16 (pk_buff p) off)) info;
               p1 = snd (pk_skip_read UDP_HDR p);
               original = load16 (pk_buff p1) (off + 6);
               p2 = (if ni_ignore info1 then p1 else p1\<lparr>pk_buff := store16 0 (off + 6) (pk_buff p1)\<rparr>)
           in if \<not> ni_ignore info1 \<and>
                 original \<noteq> udp_checksum (hdr_bytes off (pk_buff p2)) (addr_bytes (ntoh32 (na_ipv4 (ni_src info1))))
                              (addr_bytes (ntoh32 (na_ipv4 (ni_dst info1)))) (pk_unread p2)
              then Some (Done RET_ERROR, p2, info1)
              else
                (case hm_get hash_u16 (ntoh16 (load16 (pk_buff p2) (off + 2))) (ur_ports r) of
                   None \<Rightarrow> Some (Done RET_ERROR, p2, info1)
                 | Some i \<Rightarrow>
                     (case hm_val (ur_ports r) i of
                        None \<Rightarrow> Some (Done RET_ERROR, p2, info1)
                      | Some next \<Rightarrow> Some (Receive next, p2, info1)))))"

definition udp_write_header :: "nat \<Rightarrow> u16 \<Rightarrow> u16 \<Rightarrow> u16 \<Rightarrow> u8 list \<Rightarrow> u8 list" where
  "udp_write_header off src dst len bs =
     store16 (hton16 len) (off + 4) (store16 0 (off + 6) (store16 (hton16 dst) (off + 2) (store16 (hton16 src) off bs)))"

definition udp_transmit ::
  "('l option \<Rightarrow> size_t) \<Rightarrow> packet \<Rightarrow> netinfo \<Rightarrow> 'l \<Rightarrow> 'l udp_router \<Rightarrow> 'l outcome \<times> packet \<times> netinfo" where
  "udp_transmit lh p info caller r =
     (case pk_allocate_header UDP_HDR p of
        (None, p1) \<Rightarrow> (Done RET_ERROR, p1, info)
      | (Some off, p1) \<Rightarrow>
          (case hm_get lh (Some caller) (ur_layers r) of
             None \<Rightarrow> (Done RET_ERROR, p1, info)
           | Some i \<Rightarrow>
               (Transmit (ur_lower r),
                p1\<lparr>pk_buff := udp_write_header off (hm_val (ur_layers r) i) (na_port (ni_dst info))
                                (ucast (UDP_HDR + pk_payload_size p1)) (pk_buff p1)\<rparr>, info)))"

definition udp_transmit2 :: "packet \<Rightarrow> netinfo \<Rightarrow> 'l udp_router \<Rightarrow> 'l outcome \<times> packet \<times> netinfo" where
  "udp_transmit2 p info r =
     (case pk_allocate_header UDP_HDR p of
        (None, p1) \<Rightarrow> (Done RET_ERROR, p1, info)
      | (Some off, p1) \<Rightarrow>
          (Transmit2 (ur_lower r),
           p1\<lparr>pk_buff := store16 (udp_checksum (hdr_bytes off (pk_buff p1)) (addr_bytes (na_ipv4 (ni_src info)))
                                    (addr_bytes (na_ipv4 (ni_dst info))) (pk_unread p1)) (off + 6) (pk_buff p1)\<rparr>, info))"

section \<open>Datagrams\<close>

definition udp_hdr :: "u16 \<Rightarrow> u16 \<Rightarrow> u16 \<Rightarrow> u8 list" where
  "udp_hdr src dst len =
     [byte_of 0 (hton16 src), byte_of 1 (hton16 src), byte_of 0 (hton16 dst), byte_of 1 (hton16 dst),
      byte_of 0 (hton16 len), byte_of 1 (hton16 len), 0, 0]"

lemma nth8I:
  assumes "length xs = 8" and "length ys = 8"
    and "xs ! 0 = ys ! 0" "xs ! 1 = ys ! 1" "xs ! 2 = ys ! 2" "xs ! 3 = ys ! 3"
      "xs ! 4 = ys ! 4" "xs ! 5 = ys ! 5" "xs ! 6 = ys ! 6" "xs ! 7 = ys ! 7"
  shows "xs = ys"
proof (rule nth_equalityI)
  fix i assume "i < length xs"
  then have "i = 0 \<or> i = 1 \<or> i = 2 \<or> i = 3 \<or> i = 4 \<or> i = 5 \<or> i = 6 \<or> i = 7"
    using assms(1) by linarith
  then show "xs ! i = ys ! i"
    using assms(3-10) by blast
qed (simp add: assms(1,2))

lemma udp_write_header_bytes:
  assumes "off + 8 \<le> length bs"
  shows "hdr_bytes off (udp_write_header off src dst len bs) = udp_hdr src dst len"
  by (rule nth8I)
    (use assms in \<open>simp_all add: hdr_bytes_def udp_write_header_def udp_hdr_def store16_def nth_list_update byte_of_def\<close>)

lemma udp_write_header_nth:
  "j < off \<or> off + 8 \<le> j \<Longrightarrow> udp_write_header off src dst len bs ! j = bs ! j"
  "length (udp_write_header off src dst len bs) = length bs"
  by (elim disjE; simp add: udp_write_header_def store16_def) (simp add: udp_write_header_def)

lemma hdr_bytes_store:
  "off + 8 \<le> length bs \<Longrightarrow> hdr_bytes off (store16 c (off + 6) bs) = store16 c 6 (hdr_bytes off bs)"
  by (rule nth8I) (simp_all add: hdr_bytes_def store16_def nth_list_update)

lemma udp_hdr_store: "store16 0 6 (store16 c 6 (udp_hdr src dst len)) = udp_hdr src dst len"
  by (simp add: udp_hdr_def store16_def byte_of_def)

lemma udp_hdr_load:
  "load16 (store16 c 6 (udp_hdr src dst len)) 0 = hton16 src"
  "load16 (store16 c 6 (udp_hdr src dst len)) 2 = hton16 dst"
  "load16 (store16 c 6 (udp_hdr src dst len)) 6 = c"
  using glue_bytes16 by (simp_all add: udp_hdr_def store16_def load16_def)

lemma load16_unread:
  assumes "pk_inv q" and "i + 1 < length (pk_unread q)"
  shows "load16 (pk_buff q) (unat (pk_rpos q) + i) = load16 (pk_unread q) i"
proof -
  have "pk_unread q ! j = pk_buff q ! (unat (pk_rpos q) + j)" if "j < length (pk_unread q)" for j
    using assms(1) that by (simp add: pk_unread_def pk_inv_def word_le_nat_alt)
  from this [of i] this [of "i + 1"] assms(2) show ?thesis
    by (simp add: load16_def)
qed

text \<open>A datagram as the two transmit passes leave it is delivered to the layer of its port.\<close>

lemma udp_receive_datagram:
  assumes inv: "pk_inv q" and small: "unat (pk_size q) + 8 < 2 ^ 32"
    and dg: "pk_unread q = store16 c 6 (udp_hdr src dst len) @ payload"
    and chk: "ni_ignore info \<or> c = udp_checksum (udp_hdr src dst len)
        (addr_bytes (ntoh32 (na_ipv4 (ni_src info)))) (addr_bytes (ntoh32 (na_ipv4 (ni_dst info)))) payload"
    and port: "hm_lookup hash_u16 dst (ur_ports r) = Some (Some l)"
  shows "\<exists>q'. udp_receive q info r = Some (Receive l, q', set_src_port src info) \<and> pk_inv q' \<and>
    pk_unread q' = payload"
proof -
  let ?r = "unat (pk_rpos q)"
  have lh: "length (udp_hdr src dst len) = 8"
    by (simp add: udp_hdr_def)
  have ul: "length (pk_unread q) = 8 + length payload"
    using lh by (simp add: dg)
  have b: "length (pk_buff q) = unat (pk_size q)" "?r \<le> unat (pk_wpos q)" "unat (pk_wpos q) \<le> unat (pk_size q)"
    using inv by (auto simp: pk_inv_def word_le_nat_alt)
  have w: "unat (pk_wpos q) = ?r + (8 + length payload)"
    using pk_unread_length [OF inv] ul b by simp
  have ptr: "pk_read_ptr UDP_HDR q = Some ?r"
    using word_add_noover [of "pk_rpos q" UDP_HDR] small w b
    by (simp add: pk_read_ptr_def word_less_nat_alt UDP_HDR_def)
  have ld: "load16 (pk_buff q) ?r = hton16 src" "load16 (pk_buff q) (?r + 2) = hton16 dst"
      "load16 (pk_buff q) (?r + 6) = c"
  proof -
    have *: "load16 (pk_unread q) i = load16 (store16 c 6 (udp_hdr src dst len)) i" if "i + 1 < 8" for i
      using that lh by (simp add: dg load16_def nth_append)
    show "load16 (pk_buff q) ?r = hton16 src" "load16 (pk_buff q) (?r + 2) = hton16 dst"
      "load16 (pk_buff q) (?r + 6) = c"
      using load16_unread [OF inv, of 0] load16_unread [OF inv, of 2] load16_unread [OF inv, of 6]
        * [of 0] * [of 2] * [of 6] ul udp_hdr_load by simp_all
  qed
  have "unat UDP_HDR + unat (pk_size q) < 2 ^ 32" "\<not> unat UDP_HDR > length (pk_unread q)"
    using small ul by (simp_all add: UDP_HDR_def)
  then obtain q1 where q1: "pk_skip_read UDP_HDR q = (RET_SUCCESS, q1)" "pk_inv q1"
      "q1 = q\<lparr>pk_rpos := pk_rpos q + UDP_HDR\<rparr>" "unat (pk_rpos q1) = ?r + 8" "pk_unread q1 = drop 8 (pk_unread q)"
    using pk_skip_read_ok [OF inv, of UDP_HDR] by (auto simp: UDP_HDR_def)
  have pl: "pk_unread q1 = payload"
    using q1(5) lh by (simp add: dg)
  define q2 where "q2 = (if ni_ignore info then q1 else q1\<lparr>pk_buff := store16 0 (?r + 6) (pk_buff q1)\<rparr>)"
  have "drop (?r + 8) (store16 0 (?r + 6) (pk_buff q)) = drop (?r + 8) (pk_buff q)"
    by (simp add: store16_def)
  then have u2: "pk_unread q2 = payload"
    using pl q1(4) by (auto simp: q2_def pk_unread_def) (simp add: q1(3))
  have i2: "pk_inv q2"
    using q1(2) by (simp add: q2_def pk_inv_def)
  have "hdr_bytes ?r (pk_buff q) = store16 c 6 (udp_hdr src dst len)"
  proof -
    have "take 8 (pk_unread q) = take 8 (drop ?r (pk_buff q))"
      using w by (simp add: pk_unread_def min_def)
    then show ?thesis
      using lh by (simp add: hdr_bytes_def dg)
  qed
  then have h2: "hdr_bytes ?r (store16 0 (?r + 6) (pk_buff q)) = udp_hdr src dst len"
    using hdr_bytes_store [of ?r "pk_buff q" 0] b w udp_hdr_store by simp
  obtain i where i: "hm_get hash_u16 dst (ur_ports r) = Some i" "hm_val (ur_ports r) i = Some l"
    using port by (auto simp: hm_lookup_def)
  have ld2: "load16 (pk_buff q2) (?r + 2) = hton16 dst"
    using ld(2) by (simp add: q2_def q1(3) load16_def nth_store)
  have bq: "pk_buff q1 = pk_buff q"
    by (simp add: q1(3))
  have "udp_receive q info r = Some (Receive l, q2, set_src_port src info)"
    using chk ld ld2 i h2 u2
    by (auto simp: udp_receive_def ptr q1(1) bq Let_def ntoh16_def q2_def split: if_splits)
  then show ?thesis
    using i2 u2 by blast
qed

lemma frame_header:
  assumes "pk_inv p" and "unat (pk_hpos p) + 8 \<le> unat (pk_wpos p)"
  shows "pk_frame p = hdr_bytes (unat (pk_hpos p)) (pk_buff p) @
    take (unat (pk_wpos p) - (unat (pk_hpos p) + 8)) (drop (unat (pk_hpos p) + 8) (pk_buff p))"
proof -
  have e: "unat (pk_wpos p) - unat (pk_hpos p) = 8 + (unat (pk_wpos p) - (unat (pk_hpos p) + 8))"
    using assms(2) by simp
  show ?thesis
    unfolding pk_frame_def e take_add hdr_bytes_def by (simp add: add.commute)
qed

text \<open>The first pass: the header, with a zero checksum, in front of the payload.\<close>

lemma udp_transmit_ok:
  assumes inv: "pk_inv p" and room: "8 \<le> pk_hpos p" and rp: "pk_rpos p = pk_hpos p"
    and port: "hm_lookup lh (Some caller) (ur_layers r) = Some sp"
  shows "\<exists>p1. udp_transmit lh p info caller r = (Transmit (ur_lower r), p1, info) \<and> pk_inv p1 \<and>
    p1 = p\<lparr>pk_hpos := pk_hpos p - 8, pk_buff := pk_buff p1\<rparr> \<and> unat (pk_hpos p1) = unat (pk_hpos p) - 8 \<and>
    hdr_bytes (unat (pk_hpos p) - 8) (pk_buff p1) =
      udp_hdr sp (na_port (ni_dst info)) (ucast (UDP_HDR + pk_payload_size p1)) \<and>
    length (pk_buff p1) = length (pk_buff p) \<and>
    (\<forall>j. unat (pk_hpos p) \<le> j \<longrightarrow> pk_buff p1 ! j = pk_buff p ! j)"
proof -
  let ?off = "unat (pk_hpos p) - 8"
  have b: "length (pk_buff p) = unat (pk_size p)" "unat (pk_hpos p) \<le> unat (pk_size p)" "8 \<le> unat (pk_hpos p)"
    using inv room by (auto simp: pk_inv_def word_le_nat_alt)
  obtain pa where pa: "pk_allocate_header UDP_HDR p = (Some ?off, pa)" "pk_inv pa"
      "pa = p\<lparr>pk_hpos := pk_hpos p - UDP_HDR\<rparr>" "unat (pk_hpos pa) = ?off"
    using pk_allocate_header_ok [OF inv, of UDP_HDR] room by (auto simp: UDP_HDR_def)
  obtain i where i: "hm_get lh (Some caller) (ur_layers r) = Some i" "hm_val (ur_layers r) i = sp"
    using port by (auto simp: hm_lookup_def)
  let ?bs = "udp_write_header ?off sp (na_port (ni_dst info)) (ucast (UDP_HDR + pk_payload_size pa)) (pk_buff p)"
  let ?p1 = "pa\<lparr>pk_buff := ?bs\<rparr>"
  have "udp_transmit lh p info caller r = (Transmit (ur_lower r), ?p1, info)"
    using pa(1,3) i by (simp add: udp_transmit_def)
  moreover have "pk_inv ?p1"
    using pa(2,3) udp_write_header_nth(2) by (simp add: pk_inv_def)
  moreover have "pk_payload_size ?p1 = pk_payload_size pa"
    by (simp add: pk_payload_size_def)
  ultimately show ?thesis
    using pa(3,4) b udp_write_header_bytes [of ?off "pk_buff p"] udp_write_header_nth
    by (intro exI [of _ ?p1]) (simp add: UDP_HDR_def)
qed

text \<open>The second pass, on a packet that still has the header: the checksum is filled in.\<close>

lemma udp_transmit2_ok:
  assumes inv: "pk_inv p" and room: "8 \<le> pk_hpos p" and rp: "pk_rpos p = pk_hpos p"
    and hdr: "hdr_bytes (unat (pk_hpos p) - 8) (pk_buff p) = udp_hdr sp dp len"
  shows "\<exists>p1. udp_transmit2 p info r = (Transmit2 (ur_lower r), p1, info) \<and> pk_inv p1 \<and>
    p1 = p\<lparr>pk_hpos := pk_hpos p - 8, pk_buff := pk_buff p1\<rparr> \<and> unat (pk_hpos p1) = unat (pk_hpos p) - 8 \<and>
    pk_frame p1 = store16 (udp_checksum (udp_hdr sp dp len) (addr_bytes (na_ipv4 (ni_src info)))
        (addr_bytes (na_ipv4 (ni_dst info))) (pk_unread p)) 6 (udp_hdr sp dp len) @ pk_unread p \<and>
    length (pk_buff p1) = length (pk_buff p) \<and>
    (\<forall>j. j < unat (pk_hpos p) - 8 \<longrightarrow> pk_buff p1 ! j = pk_buff p ! j)"
proof -
  let ?off = "unat (pk_hpos p) - 8"
  have b: "length (pk_buff p) = unat (pk_size p)" "unat (pk_hpos p) \<le> unat (pk_size p)" "8 \<le> unat (pk_hpos p)"
      "unat (pk_hpos p) \<le> unat (pk_wpos p)"
    using inv room rp by (auto simp: pk_inv_def word_le_nat_alt)
  obtain pa where pa: "pk_allocate_header UDP_HDR p = (Some ?off, pa)" "pk_inv pa"
      "pa = p\<lparr>pk_hpos := pk_hpos p - UDP_HDR\<rparr>" "unat (pk_hpos pa) = ?off"
    using pk_allocate_header_ok [OF inv, of UDP_HDR] room by (auto simp: UDP_HDR_def)
  define c where "c = udp_checksum (udp_hdr sp dp len) (addr_bytes (na_ipv4 (ni_src info)))
      (addr_bytes (na_ipv4 (ni_dst info))) (pk_unread p)"
  have un: "pk_unread pa = pk_unread p"
    by (simp add: pa(3) pk_unread_def)
  let ?bs = "store16 c (?off + 6) (pk_buff p)"
  let ?p1 = "pa\<lparr>pk_buff := ?bs\<rparr>"
  have t: "udp_transmit2 p info r = (Transmit2 (ur_lower r), ?p1, info)"
    using pa(1,3) hdr un by (simp add: udp_transmit2_def c_def)
  have i1: "pk_inv ?p1"
    using pa(2,3) by (simp add: pk_inv_def)
  have o1: "unat (pk_hpos ?p1) = ?off" "pk_wpos ?p1 = pk_wpos p"
    using pa(3,4) by simp_all
  have "hdr_bytes ?off ?bs = store16 c 6 (udp_hdr sp dp len)"
    using hdr_bytes_store [of ?off "pk_buff p" c] b hdr by simp
  moreover have "drop (?off + 8) ?bs = drop (?off + 8) (pk_buff p)"
    by (simp add: store16_def)
  moreover have "take (unat (pk_wpos p) - (?off + 8)) (drop (?off + 8) (pk_buff p)) = pk_unread p"
    using b rp by (simp add: pk_unread_def)
  ultimately have f: "pk_frame ?p1 = store16 c 6 (udp_hdr sp dp len) @ pk_unread p"
    using frame_header [OF i1] o1 b by simp
  show ?thesis
    using t i1 f o1 pa(3) unfolding c_def
    by (intro exI [of _ ?p1]) (simp add: UDP_HDR_def c_def nth_store)
qed

text \<open>C8: A datagram that goes down through the UDP layer in the two passes is accepted, checksum included,
  by the \<open>receive\<close> of a UDP layer that has its port bound, if it is told the same addresses: the
  bound layer gets exactly the payload, and the source port is the one the sender is bound to.\<close>

theorem udp_roundtrip:
  assumes "pk_inv p" and "8 \<le> pk_hpos p" and "pk_rpos p = pk_hpos p" and "unat (pk_size p) + 8 < 2 ^ 32"
    and "hm_lookup lh (Some caller) (ur_layers r) = Some sp"
    and "hm_lookup hash_u16 (na_port (ni_dst info)) (ur_ports r') = Some (Some l)"
    and "na_ipv4 (ni_src info3) = ntoh32 (na_ipv4 (ni_src info2))"
    and "na_ipv4 (ni_dst info3) = ntoh32 (na_ipv4 (ni_dst info2))"
  shows "\<exists>p1 p2 p3. udp_transmit lh p info caller r = (Transmit (ur_lower r), p1, info) \<and>
    udp_transmit2 (p1\<lparr>pk_hpos := pk_hpos p\<rparr>) info2 r = (Transmit2 (ur_lower r), p2, info2) \<and>
    udp_receive (pk_seek_read True p2) info3 r' = Some (Receive l, p3, set_src_port sp info3) \<and>
    pk_unread p3 = pk_unread p"
proof -
  let ?off = "unat (pk_hpos p) - 8"
  obtain p1 where p1: "udp_transmit lh p info caller r = (Transmit (ur_lower r), p1, info)" "pk_inv p1"
      "p1 = p\<lparr>pk_hpos := pk_hpos p - 8, pk_buff := pk_buff p1\<rparr>"
      "hdr_bytes ?off (pk_buff p1) = udp_hdr sp (na_port (ni_dst info)) (ucast (UDP_HDR + pk_payload_size p1))"
      "length (pk_buff p1) = length (pk_buff p)" "\<forall>j. unat (pk_hpos p) \<le> j \<longrightarrow> pk_buff p1 ! j = pk_buff p ! j"
    using udp_transmit_ok [OF assms(1-3,5), of info] by (elim exE conjE)
  define pb where "pb = p1\<lparr>pk_hpos := pk_hpos p\<rparr>"
  have pb': "pb = p\<lparr>pk_buff := pk_buff p1\<rparr>"
    unfolding pb_def by (subst p1(3)) simp
  have fb: "pk_inv pb" "8 \<le> pk_hpos pb" "pk_rpos pb = pk_hpos pb" "pk_hpos pb = pk_hpos p"
      "pk_buff pb = pk_buff p1" "pk_size pb = pk_size p"
    using assms(1-3) p1(5) by (simp_all add: pb' pk_inv_def)
  have ub: "pk_unread pb = pk_unread p"
    using frame_cong [of "pk_buff p1" p] p1(5,6) assms(3) by (simp add: pk_unread_def pb')
  let ?len = "ucast (UDP_HDR + pk_payload_size p1)"
  let ?h = "udp_hdr sp (na_port (ni_dst info)) ?len"
  define c where "c = udp_checksum ?h (addr_bytes (na_ipv4 (ni_src info2))) (addr_bytes (na_ipv4 (ni_dst info2)))
    (pk_unread pb)"
  have hb: "hdr_bytes (unat (pk_hpos pb) - 8) (pk_buff pb) = ?h"
    using p1(4) fb(4,5) by simp
  obtain p2 where p2: "udp_transmit2 pb info2 r = (Transmit2 (ur_lower r), p2, info2)" "pk_inv p2"
      "p2 = pb\<lparr>pk_hpos := pk_hpos pb - 8, pk_buff := pk_buff p2\<rparr>" "unat (pk_hpos p2) = unat (pk_hpos pb) - 8"
      "pk_frame p2 = store16 c 6 ?h @ pk_unread pb"
    using udp_transmit2_ok [OF fb(1-3) hb, of info2 r] unfolding c_def by (elim exE conjE)
  have w2: "pk_wpos p2 = pk_wpos p" "pk_size p2 = pk_size p"
    by (subst p2(3), simp add: pb', subst p2(3), simp add: pb')
  have "pk_hpos p2 \<le> pk_wpos p2"
    using p2(4) fb(4) w2 assms(1,3) by (auto simp: word_le_nat_alt pk_inv_def)
  from pk_seek_ok(2) [OF p2(2) this] have i2: "pk_inv (pk_seek_read True p2)" .
  have s2: "unat (pk_size (pk_seek_read True p2)) + 8 < 2 ^ 32"
    using w2 assms(4) by (simp add: pk_seek_read_def)
  have g2: "pk_unread (pk_seek_read True p2) = store16 c 6 ?h @ pk_unread p"
    by (simp only: frame_seek p2(5) ub)
  have k2: "ni_ignore info3 \<or> c = udp_checksum ?h (addr_bytes (ntoh32 (na_ipv4 (ni_src info3))))
      (addr_bytes (ntoh32 (na_ipv4 (ni_dst info3)))) (pk_unread p)"
    by (simp add: assms(7,8) c_def ub ntoh32_def)
  from udp_receive_datagram [OF i2 s2 g2 k2 assms(6)] obtain p3 where
    "udp_receive (pk_seek_read True p2) info3 r' = Some (Receive l, p3, set_src_port sp info3)" "pk_unread p3 = pk_unread p"
    by blast
  with p1(1) p2(1) show ?thesis
    unfolding pb_def by blast
qed

definition ex_udp :: "nat udp_router" where
  "ex_udp =
     \<lparr>ur_ports = \<lparr>hm_buckets = 1, hm_bsize = 1, hm_entries = [(8000, Some 7)], hm_used = [True]\<rparr>,
      ur_layers = \<lparr>hm_buckets = 1, hm_bsize = 1, hm_entries = [(Some 7, 9000)], hm_used = [True]\<rparr>, ur_lower = 1\<rparr>"

theorem udp_roundtrip_witness:
  "\<exists>p1 p2 p3. udp_transmit (\<lambda>_. 0) (pk_wrote [1, 2, 3] (pk_init (replicate 40 0) 10 30)) (ex_info 0 8000) 7 ex_udp =
      (Transmit 1, p1, ex_info 0 8000) \<and>
    udp_receive (pk_seek_read True p2) (ex_info 0 0) ex_udp = Some (Receive 7, p3, set_src_port 9000 (ex_info 0 0)) \<and>
    pk_unread p3 = [1, 2, 3]"
proof -
  let ?b = "pk_init (replicate 40 0) 10 30" and ?p = "pk_wrote [1, 2, 3] (pk_init (replicate 40 0) 10 30)"
  have i0: "pk_inv ?b"
    by (rule pk_init_inv) simp_all
  have inv: "pk_inv ?p"
    by (rule pk_push_wrote(2) [OF i0]) (simp_all add: pk_init_def)
  have a: "8 \<le> pk_hpos ?p" "pk_rpos ?p = pk_hpos ?p" "unat (pk_size ?p) + 8 < 2 ^ 32"
    by (simp_all add: pk_init_def)
  have l: "hm_lookup (\<lambda>_. 0) (Some 7) (ur_layers ex_udp) = Some 9000"
    by (simp add: ex_udp_def one_entry_lookup)
  have m: "hm_lookup hash_u16 (na_port (ni_dst (ex_info 0 8000))) (ur_ports ex_udp) = Some (Some 7)"
    by (simp add: ex_udp_def ex_info_def one_entry_lookup)
  have z: "na_ipv4 (ni_src (ex_info 0 0)) = ntoh32 (na_ipv4 (ni_src (ex_info 0 0)))"
      "na_ipv4 (ni_dst (ex_info 0 0)) = ntoh32 (na_ipv4 (ni_dst (ex_info 0 0)))"
    by (simp_all add: ex_info_def) code_simp+
  have u: "pk_unread ?p = [1, 2, 3]" "ur_lower ex_udp = 1"
    by (simp_all add: pk_unread_def pk_wrote_def pk_init_def ex_udp_def)
  from udp_roundtrip [OF inv a l m z] show ?thesis
    unfolding u by blast
qed

section \<open>Defects\<close>

text \<open>Two null pointers are followed in the UDP layer: \<open>receive\<close> reads the source port of the header
  before it checks that the packet holds one, so that every packet with fewer than eight unread
  bytes makes it fail; and releasing a port that is not bound reads the binding it did not find.\<close>

theorem udp_null_pointers:
  "udp_receive (pk_init [0, 0] 0 2) (ex_info 0 0) ex_udp = None \<and>
   udp_unsubscribe (\<lambda>_. 0) 80 ex_udp = None"
  by (simp add: udp_receive_def pk_read_ptr_def pk_init_def UDP_HDR_def udp_unsubscribe_def ex_udp_def
      hm_get_def hm_range_def hm_index_def)

end
