(* ===== verification/SyncModel.thy ===== *)
theory SyncModel
  imports SchedReach
begin

text \<open>
  The coroutine macros of src/sched/macros (resume.h, reset.h, block.h, sleep.h, yield.h, wake.h,
  call.h), the two semaphores of src/sync and the triple buffer of
  src/triple_buffer/TripleBuffer.h.  The labels that a function stores for its tasks are the
  values of a type \<open>'p\<close>, one value per place where the function can continue.
\<close>

section \<open>Coroutine macros\<close>

record 'p labels =
  lb_init :: bool
  lb_current :: "int \<Rightarrow> 'p"

text \<open>\<open>RESUME\<close>: the place to continue at for the dispatched task.\<close>

definition mac_resume :: "'p \<Rightarrow> int \<Rightarrow> 'p labels \<Rightarrow> 'p \<times> 'p labels" where
  "mac_resume start tid l =
     (let l1 = (if lb_init l then l
                else \<lparr>lb_init = True,
                      lb_current = (\<lambda>i. if 0 \<le> i \<and> i < int MAX_NUM_TASKS + 1 then start else lb_current l i)\<rparr>)
      in (lb_current l1 tid, l1))"

definition set_label :: "int \<Rightarrow> 'p \<Rightarrow> 'p labels \<Rightarrow> 'p labels" where
  "set_label tid p l = l\<lparr>lb_current := (lb_current l)(tid := p)\<rparr>"

definition mac_reset :: "'p \<Rightarrow> int \<Rightarrow> 'p labels \<Rightarrow> 'p labels" where
  "mac_reset start tid l = set_label tid start l"

text \<open>The scheduler does not look whether a number is one of a task: outside of the array of tasks is \<open>None\<close>.\<close>

definition task_index :: "int \<Rightarrow> nat option" where
  "task_index tid = (if 0 \<le> tid \<and> tid < int MAX_NUM_TASKS then Some (nat tid) else None)"

lemma task_index_task [simp]: "t < MAX_NUM_TASKS \<Longrightarrow> task_index (int t) = Some t"
  by (simp add: task_index_def)

definition mac_block ::
  "'p \<Rightarrow> ('f, 'b, 'w) sched \<Rightarrow> 'p labels \<Rightarrow> (ret_type \<times> ('f, 'b, 'w) sched \<times> 'p labels) option" where
  "mac_block place s l =
     map_option (\<lambda>s'. (RET_BLOCKED, s', set_label (sched_dispatched s) place l))
       (Option.bind (task_index (sched_dispatched s)) (\<lambda>t. sched_block t s))"

definition mac_sleep ::
  "'p \<Rightarrow> u32 \<Rightarrow> ('f, 'b, 'w) sched \<Rightarrow> 'p labels \<Rightarrow> (ret_type \<times> ('f, 'b, 'w) sched \<times> 'p labels) option" where
  "mac_sleep place n s l =
     map_option (\<lambda>s'. (RET_SLEEP, s', set_label (sched_dispatched s) place l))
       (Option.bind (task_index (sched_dispatched s)) (\<lambda>t. sched_sleep t n s))"

definition mac_yield :: "'p \<Rightarrow> int \<Rightarrow> 'p labels \<Rightarrow> ret_type \<times> 'p labels" where
  "mac_yield place tid l = (RET_YIELD, set_label tid place l)"

definition mac_wake :: "int \<Rightarrow> ('f, 'b, 'w) sched \<Rightarrow> ('f, 'b, 'w) sched option" where
  "mac_wake tid s = Option.bind (task_index tid) (\<lambda>t. sched_wake t s)"

text \<open>\<open>CALL\<close>: \<open>True\<close> when the caller must return at once with the code.\<close>

definition mac_call :: "'p \<Rightarrow> int \<Rightarrow> ret_type \<Rightarrow> 'p labels \<Rightarrow> bool \<times> 'p labels" where
  "mac_call place tid ret l =
     (ret = RET_SLEEP \<or> ret = RET_BLOCKED \<or> ret = RET_YIELD, set_label tid place l)"

lemma resume_after_set:
  "lb_init l \<Longrightarrow> mac_resume start tid (set_label tid p l) = (p, set_label tid p l)"
  by (simp add: mac_resume_def set_label_def)

lemma resume_init: "lb_init (snd (mac_resume start tid l))"
  by (simp add: mac_resume_def Let_def)

lemma resume_first:
  "\<not> lb_init l \<Longrightarrow> 0 \<le> tid \<Longrightarrow> tid \<le> int MAX_NUM_TASKS \<Longrightarrow> fst (mac_resume start tid l) = start"
  by (simp add: mac_resume_def)

lemma set_label_simps [simp]:
  "lb_init (set_label tid p l) = lb_init l" "lb_current (set_label tid p l) = (lb_current l)(tid := p)"
  by (simp_all add: set_label_def)

section \<open>Spin lock semaphore\<close>

text \<open>\<open>acquire\<close> when nothing else runs: the compare and exchange succeeds, and a loop on zero
  does not end (\<open>None\<close>).\<close>

partial_function (option) sem_acquire :: "u32 \<Rightarrow> u32 option" where
  "sem_acquire v = (if v \<noteq> 0 then Some (v - 1) else sem_acquire v)"

definition sem_release :: "u32 \<Rightarrow> u32" where
  "sem_release v = v + 1"

lemma sem_acquire_free: "v \<noteq> 0 \<Longrightarrow> sem_acquire v = Some (v - 1)"
  by (subst sem_acquire.simps) simp

lemma sem_acquire_Some:
  assumes "sem_acquire v = Some r"
  shows "v \<noteq> 0"
  using assms
proof (induction v r rule: sem_acquire.raw_induct)
  case (1 acq v r)
  then show ?case
    by (cases "v = 0") auto
qed (rule assms)

lemma sem_acquire_spins: "sem_acquire 0 = None"
  using sem_acquire_Some [of 0] by (cases "sem_acquire 0") auto

text \<open>
  Threads (tasks and interrupt handlers) that interleave: each step is one access to the shared
  counter.  The increment of \<open>release\<close> is a load and a store.
\<close>

datatype sem_pc = SemIdle | SemSpin | SemLoaded u32 | SemRelease u32

record sem =
  sem_val :: u32
  sem_pcs :: "nat \<Rightarrow> sem_pc"
  sem_acquired :: nat
  sem_released :: nat

definition sem_goto :: "nat \<Rightarrow> sem_pc \<Rightarrow> sem \<Rightarrow> sem" where
  "sem_goto t pc s = s\<lparr>sem_pcs := (sem_pcs s)(t := pc)\<rparr>"

inductive sem_step :: "sem \<Rightarrow> sem \<Rightarrow> bool" where
  acquire: "sem_pcs s t = SemIdle \<Longrightarrow> sem_step s (sem_goto t SemSpin s)"
| load: "sem_pcs s t = SemSpin \<Longrightarrow> sem_step s (sem_goto t (SemLoaded (sem_val s)) s)"
| zero: "sem_pcs s t = SemLoaded 0 \<Longrightarrow> sem_step s (sem_goto t SemSpin s)"
| cas: "sem_pcs s t = SemLoaded e \<Longrightarrow> e \<noteq> 0 \<Longrightarrow> sem_val s = e \<Longrightarrow>
    sem_step s (sem_goto t SemIdle (s\<lparr>sem_val := e - 1, sem_acquired := Suc (sem_acquired s)\<rparr>))"
| retry: "sem_pcs s t = SemLoaded e \<Longrightarrow> e \<noteq> 0 \<Longrightarrow> sem_val s \<noteq> e \<Longrightarrow> sem_step s (sem_goto t SemSpin s)"
| release: "sem_pcs s t = SemIdle \<Longrightarrow> sem_step s (sem_goto t (SemRelease (sem_val s)) s)"
| store: "sem_pcs s t = SemRelease v \<Longrightarrow>
    sem_step s (sem_goto t SemIdle (s\<lparr>sem_val := v + 1, sem_released := Suc (sem_released s)\<rparr>))"

definition sem_init :: "u32 \<Rightarrow> sem" where
  "sem_init v = \<lparr>sem_val = v, sem_pcs = (\<lambda>t. SemIdle), sem_acquired = 0, sem_released = 0\<rparr>"

lemma sem_goto_simps [simp]:
  "sem_val (sem_goto t pc s) = sem_val s" "sem_acquired (sem_goto t pc s) = sem_acquired s"
  "sem_released (sem_goto t pc s) = sem_released s" "sem_pcs (sem_goto t pc s) = (sem_pcs s)(t := pc)"
  by (simp_all add: sem_goto_def)

text \<open>Runs in which releases are not interrupted.\<close>

inductive sem_calm :: "sem \<Rightarrow> sem \<Rightarrow> bool" where
  calm_refl: "sem_calm s s"
| step: "sem_calm s s1 \<Longrightarrow> sem_step s1 s2 \<Longrightarrow> sem_released s2 = sem_released s1 \<Longrightarrow> sem_calm s s2"
| release: "sem_calm s s1 \<Longrightarrow>
    sem_calm s (s1\<lparr>sem_val := sem_release (sem_val s1), sem_released := Suc (sem_released s1)\<rparr>)"

inductive_cases sem_stepE: "sem_step s s'"

lemma sem_calm_balance:
  "sem_calm s0 s \<Longrightarrow> sem_val s + of_nat (sem_acquired s) + of_nat (sem_released s0) =
     sem_val s0 + of_nat (sem_acquired s0) + of_nat (sem_released s)"
proof (induction rule: sem_calm.induct)
  case (step s s1 s2)
  from step.hyps(2) have "sem_val s2 + of_nat (sem_acquired s2) = sem_val s1 + of_nat (sem_acquired s1)"
    by (rule sem_stepE) (use step.hyps(3) in \<open>auto simp: algebra_simps\<close>)
  then show ?case
    using step.IH step.hyps(3) by (simp add: algebra_simps)
qed (simp_all add: sem_release_def algebra_simps)

lemma Suc_unat_minus_one: "w \<noteq> 0 \<Longrightarrow> Suc (unat (w - 1 :: 'a::len word)) = unat w"
  using unat_minus_one [of w] unat_gt_0 [of w] by linarith

lemma sem_step_permits:
  assumes "sem_step s s'" and "sem_released s' = sem_released s"
  shows "unat (sem_val s') + sem_acquired s' = unat (sem_val s) + sem_acquired s"
proof -
  have "sem_val s' = sem_val s \<and> sem_acquired s' = sem_acquired s \<or>
      sem_val s \<noteq> 0 \<and> sem_val s' = sem_val s - 1 \<and> sem_acquired s' = Suc (sem_acquired s)"
    using assms(1)
    by (rule sem_stepE; use assms(2) in simp)
  then show ?thesis
    using Suc_unat_minus_one [of "sem_val s"] by (elim disjE conjE) simp_all
qed

lemma sem_calm_permits:
  assumes "sem_calm s0 s"
    and "unat (sem_val s0) + sem_acquired s0 + sem_released s < 2 ^ 32 + sem_released s0"
  shows "unat (sem_val s) + sem_acquired s + sem_released s0 = unat (sem_val s0) + sem_acquired s0 + sem_released s"
  using assms
proof (induction rule: sem_calm.induct)
  case (step s0 s1 s2)
  have "unat (sem_val s1) + sem_acquired s1 + sem_released s0 =
      unat (sem_val s0) + sem_acquired s0 + sem_released s1"
    using step.IH step.prems step.hyps(3) by linarith
  then show ?case
    using sem_step_permits [OF step.hyps(2,3)] step.hyps(3) by linarith
next
  case (release s0 s1)
  let ?s2 = "s1\<lparr>sem_val := sem_release (sem_val s1), sem_released := Suc (sem_released s1)\<rparr>"
  have r: "sem_released ?s2 = Suc (sem_released s1)" "sem_acquired ?s2 = sem_acquired s1"
      "sem_val ?s2 = sem_release (sem_val s1)"
    by simp_all
  have ih: "unat (sem_val s1) + sem_acquired s1 + sem_released s0 =
      unat (sem_val s0) + sem_acquired s0 + sem_released s1"
    using release.IH release.prems unfolding r by linarith
  then have "unat (sem_val s1) + 1 < 2 ^ 32"
    using release.prems unfolding r by linarith
  then have "unat (sem_release (sem_val s1)) = unat (sem_val s1) + 1"
    by (simp add: sem_release_def unat_word_ariths)
  then show ?case
    using ih unfolding r by linarith
qed simp

text \<open>C17: Permits are conserved when threads interleave at the semaphore, as long as no release is
  interrupted: the counter and the permits taken always add up to the initial value and the permits
  returned, so that no more permits are taken than there are.\<close>

theorem sem_permits_conserved:
  assumes "sem_calm (sem_init v) s" and "unat v + sem_released s < 2 ^ 32"
  shows "unat (sem_val s) + sem_acquired s = unat v + sem_released s"
  using sem_calm_permits [OF assms(1)] assms(2) by (simp add: sem_init_def)

lemma sem_one_acquire:
  "sem_calm (sem_init 2) (sem_goto 7 SemIdle (sem_goto 7 (SemLoaded 2) (sem_goto 7 SemSpin (sem_init 2))
     \<lparr>sem_val := 1, sem_acquired := 1\<rparr>))"
proof -
  let ?a = "sem_goto 7 SemSpin (sem_init 2)" and ?b = "sem_goto 7 (SemLoaded 2) (sem_goto 7 SemSpin (sem_init 2))"
  have 1: "sem_step (sem_init 2) ?a"
    by (rule sem_step.acquire) (simp add: sem_init_def)
  have 2: "sem_step ?a ?b"
    using sem_step.load [of ?a 7] by (simp add: sem_init_def)
  have 3: "sem_step ?b (sem_goto 7 SemIdle (?b\<lparr>sem_val := 2 - 1, sem_acquired := Suc (sem_acquired ?b)\<rparr>))"
    by (rule sem_step.cas) (simp_all add: sem_init_def)
  have "sem_goto 7 SemIdle (?b\<lparr>sem_val := 2 - 1, sem_acquired := Suc (sem_acquired ?b)\<rparr>) =
      sem_goto 7 SemIdle (?b\<lparr>sem_val := 1, sem_acquired := 1\<rparr>)"
    by (simp add: sem_init_def)
  with 1 2 3 show ?thesis
    by (metis (no_types, lifting) sem_calm.calm_refl sem_calm.step sem_goto_simps(3) sem.select_convs(4) sem.update_convs(1,3)
        sem.surjective)
qed

theorem sem_permits_conserved_witness:
  "\<exists>s. sem_calm (sem_init 2) s \<and> sem_acquired s = 1 \<and> unat (sem_val s) + sem_acquired s = 2"
  using sem_permits_conserved [OF sem_one_acquire] sem_one_acquire by (fastforce simp: sem_init_def)

text \<open>An increment in \<open>release\<close> that is interrupted creates a permit: it loads the counter, another
  thread takes a permit with its compare and exchange, and the store then overwrites the decrement.
  From two permits, of which one was taken and returned and one is still held, two are left.\<close>

theorem sem_release_not_atomic:
  "\<exists>s. sem_step\<^sup>*\<^sup>* (sem_init 2) s \<and> sem_pcs s = (\<lambda>t. SemIdle) \<and> sem_acquired s = 2 \<and> sem_released s = 1 \<and>
     sem_val s = 2"
proof -
  let ?i = "sem_init 2"
  let ?a = "sem_goto 0 SemIdle (sem_goto 0 (SemLoaded 2) (sem_goto 0 SemSpin ?i)\<lparr>sem_val := 1, sem_acquired := 1\<rparr>)"
  let ?b = "sem_goto 0 (SemRelease 1) (sem_goto 1 (SemLoaded 1) (sem_goto 1 SemSpin ?a))"
  let ?c = "sem_goto 1 SemIdle (?b\<lparr>sem_val := 0, sem_acquired := 2\<rparr>)"
  let ?d = "sem_goto 0 SemIdle (?c\<lparr>sem_val := 2, sem_released := 1\<rparr>)"
  have a: "sem_step ?i (sem_goto 0 SemSpin ?i)"
      "sem_step (sem_goto 0 SemSpin ?i) (sem_goto 0 (SemLoaded 2) (sem_goto 0 SemSpin ?i))"
      "sem_step (sem_goto 0 (SemLoaded 2) (sem_goto 0 SemSpin ?i)) ?a"
    using sem_step.acquire [of ?i 0] sem_step.load [of "sem_goto 0 SemSpin ?i" 0]
      sem_step.cas [of "sem_goto 0 (SemLoaded 2) (sem_goto 0 SemSpin ?i)" 0 2] by (simp_all add: sem_init_def)
  have b: "sem_step ?a (sem_goto 1 SemSpin ?a)"
      "sem_step (sem_goto 1 SemSpin ?a) (sem_goto 1 (SemLoaded 1) (sem_goto 1 SemSpin ?a))"
      "sem_step (sem_goto 1 (SemLoaded 1) (sem_goto 1 SemSpin ?a)) ?b"
    using sem_step.acquire [of ?a 1] sem_step.load [of "sem_goto 1 SemSpin ?a" 1]
      sem_step.release [of "sem_goto 1 (SemLoaded 1) (sem_goto 1 SemSpin ?a)" 0] by (simp_all add: sem_init_def)
  have c: "sem_step ?b ?c" "sem_step ?c ?d"
    using sem_step.cas [of ?b 1 1] sem_step.store [of ?c 0 1] by (simp_all add: sem_init_def numeral_2_eq_2)
  have "sem_step\<^sup>*\<^sup>* ?i ?d"
    using a b c by (meson converse_rtranclp_into_rtranclp rtranclp.rtrancl_refl)
  moreover have "sem_pcs ?d = (\<lambda>t. SemIdle)"
    by (auto simp: sem_init_def)
  ultimately show ?thesis
    by (intro exI [of _ ?d]) simp
qed

section \<open>Blocking semaphore\<close>

datatype bsem_place = BsStart | BsBlocked

record bsem =
  bs_queue :: "int aqueue"
  bs_lock :: u32
  bs_count :: "32 word"

definition bsem_init :: "int aqueue \<Rightarrow> 32 word \<Rightarrow> bsem" where
  "bsem_init q count = \<lparr>bs_queue = q, bs_lock = 1, bs_count = count\<rparr>"

definition bsem_release ::
  "bsem \<Rightarrow> ('f, 'b, 'w) sched \<Rightarrow> (ret_type \<times> bsem \<times> ('f, 'b, 'w) sched) option" where
  "bsem_release b s =
     (case sem_acquire (bs_lock b) of
        None \<Rightarrow> None
      | Some lock \<Rightarrow>
          (let b1 = b\<lparr>bs_lock := lock, bs_count := bs_count b + 1\<rparr> in
           (case aq_peek (bs_queue b1) of
              None \<Rightarrow> Some (RET_SUCCESS, b1\<lparr>bs_lock := sem_release (bs_lock b1)\<rparr>, s)
            | Some waiting \<Rightarrow>
                (let b2 = b1\<lparr>bs_queue := aq_pop (bs_queue b1)\<rparr> in
                 map_option (\<lambda>s'. (RET_SUCCESS, b2\<lparr>bs_lock := sem_release (bs_lock b2)\<rparr>, s'))
                   (mac_wake (aq_val (bs_queue b2) waiting) s)))))"

text \<open>Both labels of \<open>acquire\<close> lead to the top of its loop, and one round of the loop returns.\<close>

definition bsem_acquire ::
  "bsem \<Rightarrow> ('f, 'b, 'w) sched \<Rightarrow> bsem_place labels \<Rightarrow>
   (ret_type \<times> bsem \<times> ('f, 'b, 'w) sched \<times> bsem_place labels) option" where
  "bsem_acquire b s l =
     (let l1 = snd (mac_resume BsStart (sched_dispatched s) l) in
      (case sem_acquire (bs_lock b) of
         None \<Rightarrow> None
       | Some lock \<Rightarrow>
           (let b1 = b\<lparr>bs_lock := lock\<rparr> in
            if bs_count b1 = 0 then
              (case aq_push (sched_dispatched s) (bs_queue b1) of
                 (None, q) \<Rightarrow> Some (RET_ERROR, b1\<lparr>bs_queue := q\<rparr>, s, l1)
               | (Some p, q) \<Rightarrow>
                   map_option (\<lambda>(r, s', l'). (r, b1\<lparr>bs_queue := q, bs_lock := sem_release (bs_lock b1)\<rparr>, s', l'))
                     (mac_block BsBlocked s l1))
            else
              (let b2 = b1\<lparr>bs_count := bs_count b1 - 1\<rparr> in
               Some (RET_SUCCESS, b2\<lparr>bs_lock := sem_release (bs_lock b2)\<rparr>, s,
                     mac_reset BsStart (sched_dispatched s) l1)))))"

definition bs_waiters :: "bsem \<Rightarrow> int list" where
  "bs_waiters b = map (aq_val (bs_queue b)) (aq_elems (bs_queue b))"

definition bs_ok :: "bsem \<Rightarrow> bool" where
  "bs_ok b \<longleftrightarrow> bs_lock b = 1 \<and> aq_inv MAX_NUM_TASKS (bs_queue b)"

lemma sem_one [simp]: "sem_acquire 1 = Some 0" "sem_release 0 = 1"
  by (simp_all add: sem_acquire_free sem_release_def)

lemma bsem_acquire_free:
  "bs_ok b \<Longrightarrow> bs_count b \<noteq> 0 \<Longrightarrow> \<exists>l'. bsem_acquire b s l = Some (RET_SUCCESS, b\<lparr>bs_count := bs_count b - 1\<rparr>, s, l')"
  by (cases b) (simp add: bsem_acquire_def bs_ok_def Let_def)

lemma bsem_acquire_block:
  assumes ok: "bs_ok b" and cnt: "bs_count b = 0" and room: "length (bs_waiters b) < MAX_NUM_TASKS"
    and s: "sched_ok s" "sched_dispatched s = int t" "t < MAX_NUM_TASKS" "t_state (tasks s t) \<noteq> STATE_UNALLOCATED"
  shows "\<exists>b' s' l'. bsem_acquire b s l = Some (RET_BLOCKED, b', s', l') \<and> bs_ok b' \<and>
    bs_waiters b' = bs_waiters b @ [int t] \<and> bs_count b' = 0 \<and> sched_ok s' \<and>
    t_state (tasks s' t) = STATE_BLOCKED \<and> t \<notin> set (ready_tasks s')"
proof -
  have inv: "aq_inv MAX_NUM_TASKS (bs_queue b)"
    using ok by (simp add: bs_ok_def)
  have len: "length (aq_elems (bs_queue b)) < MAX_NUM_TASKS"
    using room by (simp add: bs_waiters_def)
  obtain p q where q: "aq_push (int t) (bs_queue b) = (Some p, q)" "aq_inv MAX_NUM_TASKS q"
      "p \<notin> set (aq_elems (bs_queue b))" "aq_elems q = aq_elems (bs_queue b) @ [p]"
      "aq_val q = (aq_val (bs_queue b))(p := int t)"
    using aq_law_push [OF inv len, of "int t"] by blast
  obtain s' where s': "sched_block t s = Some s'" "sched_ok s'" "t_state (tasks s' t) = STATE_BLOCKED"
      "t \<notin> set (ready_tasks s')"
    using sched_block_ok [OF s(1,3,4)] by blast
  show ?thesis
    using ok cnt q s' s(2,3)
    by (auto simp: bsem_acquire_def bs_ok_def bs_waiters_def Let_def mac_block_def)
qed

lemma bsem_release_empty:
  "bs_ok b \<Longrightarrow> bs_waiters b = [] \<Longrightarrow> bsem_release b s = Some (RET_SUCCESS, b\<lparr>bs_count := bs_count b + 1\<rparr>, s)"
  using aq_law_peek [of MAX_NUM_TASKS "bs_queue b"]
  by (cases b) (simp add: bsem_release_def bs_ok_def bs_waiters_def)

lemma bsem_release_wakes:
  assumes ok: "bs_ok b" and w: "bs_waiters b = int t # ws"
    and s: "sched_ok s" "t < MAX_NUM_TASKS" "t_state (tasks s t) = STATE_BLOCKED"
  shows "\<exists>b' s'. bsem_release b s = Some (RET_SUCCESS, b', s') \<and> bs_ok b' \<and> bs_waiters b' = ws \<and>
    bs_count b' = bs_count b + 1 \<and> sched_ok s' \<and> ready_tasks s' = ready_tasks s @ [t] \<and>
    t_state (tasks s' t) = STATE_ACTIVE"
proof -
  have inv: "aq_inv MAX_NUM_TASKS (bs_queue b)" and lock: "bs_lock b = 1"
    using ok by (simp_all add: bs_ok_def)
  obtain e es where e: "aq_elems (bs_queue b) = e # es" "aq_val (bs_queue b) e = int t"
      "map (aq_val (bs_queue b)) es = ws"
    using w by (auto simp: bs_waiters_def)
  have q: "aq_peek (bs_queue b) = Some e" "aq_inv MAX_NUM_TASKS (aq_pop (bs_queue b))"
      "aq_elems (aq_pop (bs_queue b)) = es" "aq_val (aq_pop (bs_queue b)) = aq_val (bs_queue b)"
    using aq_law_peek [OF inv] aq_law_pop [OF inv] e by simp_all
  obtain s' where s': "sched_wake t s = Some s'" "sched_ok s'" "ready_tasks s' = ready_tasks s @ [t]"
      "t_state (tasks s' t) = STATE_ACTIVE"
    using sched_wake_ok [OF s(1,2)] s(3) by blast
  show ?thesis
    using q s' e lock s(2) by (auto simp: bsem_release_def bs_ok_def bs_waiters_def Let_def mac_wake_def)
qed

text \<open>C18: A task that acquires the blocking semaphore at zero is blocked and waits; the next release makes
  it ready, and when it runs again its acquire succeeds.  The internal lock is free after each call,
  and the count is zero again at the end.\<close>

theorem bsem_handover:
  assumes "bs_ok b" and "bs_count b = 0" and "bs_waiters b = []" and "sched_ok s"
    and "sched_dispatched s = int t" and "t < MAX_NUM_TASKS" and "t_state (tasks s t) \<noteq> STATE_UNALLOCATED"
  shows "\<exists>b1 s1 l1 b2 s2 b3 l3. bsem_acquire b s l = Some (RET_BLOCKED, b1, s1, l1) \<and>
      t_state (tasks s1 t) = STATE_BLOCKED \<and> t \<notin> set (ready_tasks s1) \<and> bs_waiters b1 = [int t] \<and>
    bsem_release b1 s1 = Some (RET_SUCCESS, b2, s2) \<and> ready_tasks s2 = ready_tasks s1 @ [t] \<and>
    bsem_acquire b2 (s2\<lparr>sched_dispatched := int t\<rparr>) l1 =
      Some (RET_SUCCESS, b3, s2\<lparr>sched_dispatched := int t\<rparr>, l3) \<and>
    bs_count b3 = 0 \<and> bs_waiters b3 = [] \<and> bs_lock b3 = 1"
proof -
  have "length (bs_waiters b) < MAX_NUM_TASKS"
    using assms(3) by (simp add: MAX_NUM_TASKS_def)
  from bsem_acquire_block [OF assms(1,2) this assms(4-7), of l] obtain b1 s1 l1 where
    1: "bsem_acquire b s l = Some (RET_BLOCKED, b1, s1, l1)" "bs_ok b1" "bs_waiters b1 = [int t]" "bs_count b1 = 0"
      "sched_ok s1" "t_state (tasks s1 t) = STATE_BLOCKED" "t \<notin> set (ready_tasks s1)"
    using assms(3) by auto
  obtain b2 s2 where 2: "bsem_release b1 s1 = Some (RET_SUCCESS, b2, s2)" "bs_ok b2" "bs_waiters b2 = []"
      "bs_count b2 = 1" "ready_tasks s2 = ready_tasks s1 @ [t]"
    using bsem_release_wakes [OF 1(2,3,5) assms(6) 1(6)] 1(4) by auto
  obtain l3 where 3: "bsem_acquire b2 (s2\<lparr>sched_dispatched := int t\<rparr>) l1 =
      Some (RET_SUCCESS, b2\<lparr>bs_count := bs_count b2 - 1\<rparr>, s2\<lparr>sched_dispatched := int t\<rparr>, l3)"
    using bsem_acquire_free [OF 2(2)] 2(4) by fastforce
  let ?b3 = "b2\<lparr>bs_count := bs_count b2 - 1\<rparr>"
  have "bs_count ?b3 = 0" "bs_waiters ?b3 = []" "bs_lock ?b3 = 1"
    using 2(2-4) by (simp_all add: bs_waiters_def bs_ok_def)
  with 1 2 3 show ?thesis
    by blast
qed

lemma boot_bsem:
  "bs_ok (bsem_init (boot_aqueue 0 MAX_NUM_TASKS) c)" "bs_waiters (bsem_init (boot_aqueue 0 MAX_NUM_TASKS) c) = []"
  "bs_count (bsem_init q c) = c"
  using boot_aqueue_inv [of MAX_NUM_TASKS "0 :: int"] boot_aqueue_elems [of MAX_NUM_TASKS "0 :: int"]
  by (simp_all add: bs_ok_def bs_waiters_def bsem_init_def MAX_NUM_TASKS_def)

definition ex_labels :: "bsem_place labels" where
  "ex_labels = \<lparr>lb_init = False, lb_current = (\<lambda>i. BsStart)\<rparr>"

theorem bsem_handover_witness:
  "\<exists>b1 s1 l1. bsem_acquire (bsem_init (boot_aqueue 0 MAX_NUM_TASKS) 0)
      (snd (sched_start (0 :: nat) () (sched_boot 0 () ()))\<lparr>sched_dispatched := 0\<rparr>) ex_labels =
      Some (RET_BLOCKED, b1, s1, l1) \<and> bs_waiters b1 = [0]"
proof -
  let ?s = "snd (sched_start (0 :: nat) () (sched_boot 0 () ()))"
  have ok: "sched_ok ?s"
    using one_task_ex [of "0 :: nat" "()" "()"] by (auto simp: one_task_def)
  have s: "sched_ok (?s\<lparr>sched_dispatched := 0\<rparr>)" "sched_dispatched (?s\<lparr>sched_dispatched := 0\<rparr>) = int 0"
      "0 < MAX_NUM_TASKS" "t_state (tasks (?s\<lparr>sched_dispatched := 0\<rparr>) 0) \<noteq> STATE_UNALLOCATED"
    using ok one_task_blocked [of "0 :: nat" "()" "()"] by (auto simp: MAX_NUM_TASKS_def)
  from bsem_handover [OF boot_bsem(1,3,2) s, of ex_labels] show ?thesis
    by auto
qed

text \<open>When the wait queue of a blocking semaphore is full, acquire returns its error code with the
  internal lock still taken: from then on neither acquire nor release of that semaphore returns.\<close>

theorem bsem_full_keeps_lock:
  assumes "bs_ok b" and "bs_count b = 0" and "length (bs_waiters b) = MAX_NUM_TASKS"
  shows "\<exists>b' l'. bsem_acquire b s l = Some (RET_ERROR, b', s, l') \<and>
    bsem_acquire b' s2 l2 = None \<and> bsem_release b' s2 = None"
proof -
  have "aq_push x (bs_queue b) = (None, bs_queue b)" for x
    using assms by (intro aq_law_full [of MAX_NUM_TASKS]) (simp_all add: bs_ok_def bs_waiters_def)
  then show ?thesis
    using assms(1,2)
    by (simp add: bsem_acquire_def bsem_release_def bs_ok_def Let_def sem_acquire_spins)
qed

theorem bsem_full_keeps_lock_witness:
  "\<exists>b' l'. bsem_acquire (bsem_init (aq_push_all (replicate 64 0) (boot_aqueue 0 64)) 0)
      (sched_boot (0 :: nat) () ()) ex_labels = Some (RET_ERROR, b', sched_boot 0 () (), l') \<and>
    bsem_release b' (sched_boot (0 :: nat) () ()) = None"
proof -
  let ?q = "aq_push_all (replicate 64 0) (boot_aqueue (0 :: int) 64)"
  have "aq_inv 64 ?q \<and> length (aq_elems ?q) = 64"
    unfolding aq_push_all_eq
    using aq.push_list_contents [of 64 "boot_aqueue (0 :: int) 64" "replicate 64 0"]
      boot_aqueue_inv [of 64 "0 :: int"] boot_aqueue_elems [of 64 "0 :: int"] by simp
  then have "bs_ok (bsem_init ?q 0)" "bs_count (bsem_init ?q 0) = 0" "length (bs_waiters (bsem_init ?q 0)) = MAX_NUM_TASKS"
    by (simp_all add: bs_ok_def bs_waiters_def bsem_init_def MAX_NUM_TASKS_def)
  from bsem_full_keeps_lock [OF this] show ?thesis
    by blast
qed

section \<open>Triple buffer\<close>

text \<open>The compare and swap loops end at once when nothing else runs between load and swap, and each
  loop takes effect as a whole; \<open>ctl\<close> in the source is read as the member \<open>m_ctl\<close>.\<close>

definition DIRTY_INDEX :: "u8 \<Rightarrow> nat" where
  "DIRTY_INDEX ctl = (if (ctl AND 0x30) > 4 then 1 else 0)"

definition SNAP_INDEX :: "u8 \<Rightarrow> nat" where
  "SNAP_INDEX ctl = unat (ctl AND 3)"

definition tb_init :: u8 where
  "tb_init = 6"

definition tb_read :: "u8 \<Rightarrow> nat option \<times> u8" where
  "tb_read ctl =
     (if ctl AND 0x40 = 0 then (None, ctl)
      else (let c = (ctl AND 0x30) OR push_bit 2 (ctl AND 3) OR drop_bit 2 (ctl AND 0xC)
            in (Some (SNAP_INDEX c), c)))"

definition tb_write :: "u8 \<Rightarrow> nat \<times> u8" where
  "tb_write ctl =
     (let c = 0x40 OR push_bit 2 (ctl AND 0xC) OR drop_bit 2 (ctl AND 0x30) OR (ctl AND 3)
      in (DIRTY_INDEX c, c))"

datatype tb_op = TbRead | TbWrite

fun tb_run :: "tb_op list \<Rightarrow> u8 \<Rightarrow> u8" where
  "tb_run [] c = c"
| "tb_run (TbRead # ops) c = tb_run ops (snd (tb_read c))"
| "tb_run (TbWrite # ops) c = tb_run ops (snd (tb_write c))"

text \<open>The three roles in the control byte.\<close>

definition tb_roles :: "u8 \<Rightarrow> nat list" where
  "tb_roles c = [unat (drop_bit 4 (c AND 0x30)), unat (drop_bit 2 (c AND 0xC)), unat (c AND 3)]"

definition tb_states :: "u8 list" where
  "tb_states = [6, 0x46, 0x52, 0x49, 0x61, 0x58, 0x64, 0x18, 0x12, 0x21, 0x24, 0x09]"

lemma tb_states_closed:
  "map (\<lambda>c. snd (tb_read c) \<in> set tb_states \<and> snd (tb_write c) \<in> set tb_states) tb_states = replicate 12 True"
  by code_simp

lemma tb_run_states: "c \<in> set tb_states \<Longrightarrow> tb_run ops c \<in> set tb_states"
proof (induction ops c rule: tb_run.induct)
  case (2 ops c)
  then show ?case
    using tb_states_closed by (auto simp: list_eq_iff_nth_eq in_set_conv_nth)
next
  case (3 ops c)
  then show ?case
    using tb_states_closed by (auto simp: list_eq_iff_nth_eq in_set_conv_nth)
qed simp

text \<open>C26: After any sequence of reads and writes the control byte of the triple buffer gives the three
  roles to three different buffers.  The index macro of the writer does not decode it: it compares
  where it should shift.  After a write and a read, the next write is therefore handed buffer 1 while the
  dirty one is 2, and the read that follows hands out the same buffer 1 to the reader.\<close>

theorem triple_buffer_roles_and_sharing:
  "tb_roles (tb_run ops tb_init) \<in> {[0, 1, 2], [0, 2, 1], [1, 0, 2], [1, 2, 0], [2, 0, 1], [2, 1, 0]} \<and>
   tb_roles (tb_run [TbWrite, TbRead, TbWrite] tb_init) = [2, 1, 0] \<and>
   fst (tb_write (tb_run [TbWrite, TbRead] tb_init)) = 1 \<and> fst (tb_read (tb_run [TbWrite, TbRead, TbWrite] tb_init)) = Some 1"
proof (intro conjI)
  have all: "list_all (\<lambda>c. tb_roles c \<in> {[0, 1, 2], [0, 2, 1], [1, 0, 2], [1, 2, 0], [2, 0, 1], [2, 1, 0]}) tb_states"
    by code_simp
  have "tb_init \<in> set tb_states"
    by (simp add: tb_init_def tb_states_def)
  then have "tb_run ops tb_init \<in> set tb_states"
    by (rule tb_run_states)
  with all show "tb_roles (tb_run ops tb_init) \<in> {[0, 1, 2], [0, 2, 1], [1, 0, 2], [1, 2, 0], [2, 0, 1], [2, 1, 0]}"
    unfolding list_all_iff by (rule bspec)
  show "tb_roles (tb_run [TbWrite, TbRead, TbWrite] tb_init) = [2, 1, 0]"
    by code_simp
  show "fst (tb_write (tb_run [TbWrite, TbRead] tb_init)) = 1"
    by code_simp
  show "fst (tb_read (tb_run [TbWrite, TbRead, TbWrite] tb_init)) = Some 1"
    by code_simp
qed

end
