(* ===== verification/SocketModel.thy ===== *)
theory SocketModel
  imports EthModel UdpModel SyncModel
begin

text \<open>
  The socket of src/net/stack/IPv4UDP/IPv4UDPSocket.h: a layer with a queue of pointers to packet
  buffers of a pool.  Code that blocks and wakes tasks works on the state of the scheduler.  \<open>None\<close>
  stands for a null pointer that is followed.
\<close>

section \<open>State\<close>

definition MTU_NO_HEADERS :: size_t where
  "MTU_NO_HEADERS = 1518"

definition HEADERS_SIZE :: size_t where
  "HEADERS_SIZE = ETH_HDR + IP_HDR + UDP_HDR"

definition MTU :: size_t where
  "MTU = MTU_NO_HEADERS - HEADERS_SIZE - 4"

record sock_addr =
  sa_ip :: "u8 list"
  sa_port :: u16

record sock_packet =
  sp_buff :: "u8 list"
  sp_len :: size_t
  sp_ip :: "u8 list"
  sp_port :: u16

record socket =
  so_rx :: "ptr aqueue"
  so_pool :: "sock_packet pool"
  so_addr :: sock_addr
  so_blocked :: int

definition sock_init :: "ptr aqueue \<Rightarrow> sock_packet pool \<Rightarrow> socket" where
  "sock_init rx pool =
     \<lparr>so_rx = rx, so_pool = pool, so_addr = \<lparr>sa_ip = [0, 0, 0, 0], sa_port = 0\<rparr>, so_blocked = -1\<rparr>"

section \<open>Operations\<close>

text \<open>Binding and unbinding, with the UDP layer the socket was given; \<open>this\<close> is the socket's layer.\<close>

definition sock_bind ::
  "('l option \<Rightarrow> size_t) \<Rightarrow> 'l \<Rightarrow> sock_addr \<Rightarrow> socket \<Rightarrow> 'l udp_router \<Rightarrow> ret_type \<times> socket \<times> 'l udp_router" where
  "sock_bind lh this addr s u =
     (case udp_subscribe lh this (sa_port addr) u of (r, u') \<Rightarrow> (r, s\<lparr>so_addr := addr\<rparr>, u'))"

definition sock_unbind ::
  "('l option \<Rightarrow> size_t) \<Rightarrow> socket \<Rightarrow> 'l udp_router \<Rightarrow> (ret_type \<times> 'l udp_router) option" where
  "sock_unbind lh s u =
     (if sa_port (so_addr s) \<noteq> 0 then udp_unsubscribe lh (sa_port (so_addr s)) u else Some (RET_SUCCESS, u))"

definition sock_mtu :: size_t where
  "sock_mtu = MTU"

definition sock_available :: "socket \<Rightarrow> size_t" where
  "sock_available s = aq_size (so_rx s)"

text \<open>The buffer for a received packet: the pool's, or the one of the oldest packet, which is dropped.\<close>

definition sock_buffer :: "socket \<Rightarrow> (ptr \<times> socket) option" where
  "sock_buffer s =
     (case pool_alloc (so_pool s) of
        (Some b, pool) \<Rightarrow> Some (b, s\<lparr>so_pool := pool\<rparr>)
      | (None, pool) \<Rightarrow>
          (case aq_peek (so_rx s) of
             None \<Rightarrow> None
           | Some oldest \<Rightarrow>
               (let rx = aq_pop (so_rx s); pool1 = snd (pool_free (aq_val rx oldest) pool)
                in (case pool_alloc pool1 of
                      (None, pool2) \<Rightarrow> None
                    | (Some b, pool2) \<Rightarrow> Some (b, s\<lparr>so_pool := pool2, so_rx := rx\<rparr>)))))"

text \<open>Writing an object of the pool through a pointer.\<close>

definition put_buffer :: "ptr \<Rightarrow> (sock_packet \<Rightarrow> sock_packet) \<Rightarrow> socket \<Rightarrow> socket" where
  "put_buffer b f s =
     s\<lparr>so_pool := pool_put ((pool_obj (so_pool s))(b := f (pool_obj (so_pool s) b))) (so_pool s)\<rparr>"

definition sock_accepts :: "netinfo \<Rightarrow> socket \<Rightarrow> bool" where
  "sock_accepts info s =
     (let ip = sa_ip (so_addr s)
      in if (ip ! 0 OR ip ! 1 OR ip ! 2 OR ip ! 3) \<noteq> 0
         then ipv4_address (ip ! 0) (ip ! 1) (ip ! 2) (ip ! 3) = na_ipv4 (ni_dst info) else True)"

definition sock_receive ::
  "packet \<Rightarrow> netinfo \<Rightarrow> socket \<Rightarrow> ('f, 'b, 'w) sched \<Rightarrow>
   (ret_type \<times> packet \<times> socket \<times> ('f, 'b, 'w) sched) option" where
  "sock_receive p info s sc =
     (let n = pk_available p in
      if n > MTU then Some (RET_ERROR, p, s, sc)
      else if \<not> sock_accepts info s then Some (RET_ERROR, p, s, sc)
      else
        (case sock_buffer s of
           None \<Rightarrow> None
         | Some (b, s1) \<Rightarrow>
             (let s2 = s1\<lparr>so_rx := snd (aq_push b (so_rx s1))\<rparr>
              in (case pk_read n p of
                    None \<Rightarrow> None
                  | Some (r, xs, p1) \<Rightarrow>
                      if r \<noteq> RET_SUCCESS then Some (RET_ERROR, p1, s2, sc)
                      else
                        (let src = na_ipv4 (ni_src info);
                             s3 = put_buffer b (\<lambda>x. x\<lparr>sp_buff := xs @ drop (length xs) (sp_buff x), sp_len := n,
                                    sp_port := na_port (ni_src info),
                                    sp_ip := [ucast (push_bit 24 src), ucast (push_bit 16 src),
                                              ucast (push_bit 8 src), ucast src]\<rparr>) s2
                         in if so_blocked s3 \<noteq> -1
                            then map_option (\<lambda>sc1. (RET_SUCCESS, p1, s3, sc1)) (mac_wake (so_blocked s3) sc)
                            else Some (RET_SUCCESS, p1, s3, sc))))))"

text \<open>\<open>recv\<close>: the end of it, once a packet is at the front of the queue, with the element \<open>e\<close>.  The
  result holds the bytes copied, the length and the source.\<close>

datatype recv_place = RvStart | RvBlocked

definition sock_take :: "size_t \<Rightarrow> ptr \<Rightarrow> socket \<Rightarrow> (u8 list \<times> size_t \<times> sock_addr) option \<times> socket" where
  "sock_take len e s =
     (let pkt = aq_val (so_rx s) e;
          s1 = s\<lparr>so_rx := aq_pop (so_rx s)\<rparr>
      in (case pool_free pkt (so_pool s1) of
            (False, pool) \<Rightarrow> (None, s1\<lparr>so_pool := pool\<rparr>)
          | (True, pool) \<Rightarrow>
              (let x = pool_obj pool pkt;
                   n = (if len < sp_len x then len else sp_len x)
               in (Some (take (unat n) (sp_buff x), sp_len x, \<lparr>sa_ip = sp_ip x, sa_port = sp_port x\<rparr>),
                   s1\<lparr>so_pool := pool\<rparr>))))"

definition sock_finish ::
  "size_t \<Rightarrow> ptr \<Rightarrow> socket \<Rightarrow> ('f, 'b, 'w) sched \<Rightarrow> recv_place labels \<Rightarrow>
   ret_type \<times> (u8 list \<times> size_t \<times> sock_addr) option \<times> socket \<times> ('f, 'b, 'w) sched \<times> recv_place labels" where
  "sock_finish len e s sc l =
     (case sock_take len e s of
        (None, s1) \<Rightarrow> (RET_ERROR, None, s1, sc, mac_reset RvStart (sched_dispatched sc) l)
      | (Some r, s1) \<Rightarrow> (RET_SUCCESS, Some r, s1, sc, mac_reset RvStart (sched_dispatched sc) l))"

definition sock_recv ::
  "size_t \<Rightarrow> socket \<Rightarrow> ('f, 'b, 'w) sched \<Rightarrow> recv_place labels \<Rightarrow>
   (ret_type \<times> (u8 list \<times> size_t \<times> sock_addr) option \<times> socket \<times> ('f, 'b, 'w) sched \<times> recv_place labels) option" where
  "sock_recv len s sc l =
     (case mac_resume RvStart (sched_dispatched sc) l of
        (place, l1) \<Rightarrow>
          (case aq_peek (so_rx s) of
             Some e \<Rightarrow> Some (sock_finish len e s sc l1)
           | None \<Rightarrow>
               if place = RvBlocked then None
               else if so_blocked s \<noteq> -1 then Some (RET_ERROR, None, s, sc, l1)
               else
                 (let s1 = s\<lparr>so_blocked := sched_dispatched sc\<rparr>
                  in map_option (\<lambda>(r, sc1, l2). (r, None, s1, sc1, l2)) (mac_block RvBlocked sc l1))))"

text \<open>The packet and the information that \<open>send\<close> starts with; \<open>mem\<close> and \<open>info\<close> are what is on the stack.\<close>

definition sock_packet_for :: "u8 list \<Rightarrow> u8 list \<Rightarrow> (ret_type \<times> packet) option" where
  "sock_packet_for mem buff = pk_push buff (pk_init mem (MTU_NO_HEADERS - HEADERS_SIZE) HEADERS_SIZE)"

definition sock_info_for :: "sock_addr \<Rightarrow> netinfo \<Rightarrow> netinfo" where
  "sock_info_for dst info =
     info\<lparr>ni_ignore := False,
          ni_dst := (ni_dst info)\<lparr>na_port := sa_port dst,
            na_ipv4 := ipv4_address (sa_ip dst ! 0) (sa_ip dst ! 1) (sa_ip dst ! 2) (sa_ip dst ! 3)\<rparr>\<rparr>"

definition sock_transmit :: "packet \<Rightarrow> netinfo \<Rightarrow> 'l outcome \<times> packet \<times> netinfo" where
  "sock_transmit p info = (Done RET_ERROR, p, info)"

section \<open>Invariant\<close>

text \<open>
  The packets that wait in a socket, oldest first, as a caller of \<open>recv\<close> sees them, and the
  invariant: the queue holds exactly the buffers in use, each once.
\<close>

definition so_bufs :: "socket \<Rightarrow> ptr list" where
  "so_bufs s = map (aq_val (so_rx s)) (aq_elems (so_rx s))"

definition so_view :: "sock_packet \<Rightarrow> u8 list \<times> u8 list \<times> u16" where
  "so_view x = (take (unat (sp_len x)) (sp_buff x), sp_ip x, sp_port x)"

definition so_pending :: "socket \<Rightarrow> (u8 list \<times> u8 list \<times> u16) list" where
  "so_pending s = map (\<lambda>b. so_view (pool_obj (so_pool s) b)) (so_bufs s)"

definition so_inv :: "nat \<Rightarrow> socket \<Rightarrow> bool" where
  "so_inv n s \<longleftrightarrow>
     0 < n \<and> aq_inv n (so_rx s) \<and> pool_inv n (so_pool s) \<and> distinct (so_bufs s) \<and>
     set (so_bufs s) = pool_live n (so_pool s) \<and>
     (\<forall>b. length (sp_buff (pool_obj (so_pool s) b)) = unat MTU) \<and>
     (\<forall>b\<in>set (so_bufs s). sp_len (pool_obj (so_pool s) b) \<le> MTU)"

lemma so_bufs_length: "so_inv n s \<Longrightarrow> length (so_bufs s) = card (pool_live n (so_pool s))"
  by (simp add: so_inv_def) (metis distinct_card)

lemma distinct_tail_set: "distinct xs \<Longrightarrow> xs = x # ys \<Longrightarrow> set ys = set xs - {x}"
  by auto

text \<open>A buffer is found, and if the oldest packet had to go, it is gone.\<close>

lemma sock_buffer_ok:
  assumes inv: "so_inv n s"
  shows "\<exists>b s'. sock_buffer s = Some (b, s') \<and> aq_inv n (so_rx s') \<and> pool_inv n (so_pool s') \<and>
    pool_live n (so_pool s') = insert b (set (so_bufs s')) \<and> b \<notin> set (so_bufs s') \<and> distinct (so_bufs s') \<and>
    length (so_bufs s') < n \<and> so_bufs s' = (if length (so_bufs s) = n then tl (so_bufs s) else so_bufs s) \<and>
    pool_obj (so_pool s') = pool_obj (so_pool s) \<and> so_addr s' = so_addr s \<and> so_blocked s' = so_blocked s"
proof -
  have i: "0 < n" "aq_inv n (so_rx s)" "pool_inv n (so_pool s)" "distinct (so_bufs s)"
      "set (so_bufs s) = pool_live n (so_pool s)"
    using inv by (simp_all add: so_inv_def)
  have len: "length (so_bufs s) = card (pool_live n (so_pool s))"
    by (rule so_bufs_length [OF inv])
  show ?thesis
  proof (cases "length (so_bufs s) = n")
    case False
    then have "card (pool_live n (so_pool s)) < n"
      using len mp.live_card [OF i(3)] by simp
    then obtain b pool where a: "pool_alloc (so_pool s) = (Some b, pool)"
      using pool_alloc_room [OF i(3)] by blast
    note p = pool_alloc_Some [OF i(3) a]
    show ?thesis
      using a p i False len mp.live_card [OF i(3)]
      by (intro exI [of _ b] exI [of _ "s\<lparr>so_pool := pool\<rparr>"])
        (simp add: sock_buffer_def so_bufs_def)
  next
    case True
    then have full: "pool_alloc (so_pool s) = (None, so_pool s)"
      using pool_alloc_full [OF i(3)] len by simp
    obtain e es where e: "aq_elems (so_rx s) = e # es"
      using True i(1) by (cases "aq_elems (so_rx s)") (auto simp: so_bufs_def)
    let ?o = "aq_val (so_rx s) e"
    have q: "aq_peek (so_rx s) = Some e" "aq_inv n (aq_pop (so_rx s))" "aq_elems (aq_pop (so_rx s)) = es"
        "aq_val (aq_pop (so_rx s)) = aq_val (so_rx s)"
      using aq_law_peek [OF i(2)] aq_law_pop [OF i(2)] e by simp_all
    have ol: "?o \<in> pool_live n (so_pool s)" "so_bufs s = ?o # map (aq_val (so_rx s)) es"
      using i(5) e by (auto simp: so_bufs_def)
    obtain pool1 where f: "pool_free ?o (so_pool s) = (True, pool1)" "pool_inv n pool1"
        "pool_live n pool1 = pool_live n (so_pool s) - {?o}" "pool_obj pool1 = pool_obj (so_pool s)"
      using pool_free_live' [OF i(3) ol(1)] by blast
    have "card (pool_live n pool1) < n"
      using f(3) ol(1) len True mp.live_finite [OF i(3)] i(1) by simp
    then obtain b pool2 where a: "pool_alloc pool1 = (Some b, pool2)"
      using pool_alloc_room [OF f(2)] by blast
    note p = pool_alloc_Some [OF f(2) a]
    have l1: "pool_live n pool1 = set (map (aq_val (so_rx s)) es)"
      using f(3) distinct_tail_set [OF i(4) ol(2)] i(5) by simp
    let ?s' = "s\<lparr>so_pool := pool2, so_rx := aq_pop (so_rx s)\<rparr>"
    have bs: "so_bufs ?s' = map (aq_val (so_rx s)) es"
      using q by (simp add: so_bufs_def)
    have len': "length (map (aq_val (so_rx s)) es) < n"
      using True ol(2) by simp
    have "sock_buffer s = Some (b, ?s')"
      using full q(1,4) f(1) a by (simp add: sock_buffer_def Let_def)
    moreover have "aq_inv n (so_rx ?s')" "pool_inv n (so_pool ?s')" "pool_obj (so_pool ?s') = pool_obj (so_pool s)"
      using q p f by simp_all
    moreover have "pool_live n (so_pool ?s') = insert b (set (so_bufs ?s'))" "b \<notin> set (so_bufs ?s')"
      unfolding bs using p l1 by simp_all
    moreover have "distinct (so_bufs ?s')" "length (so_bufs ?s') < n" "so_bufs ?s' = tl (so_bufs s)"
      unfolding bs using i(4) ol(2) len' by simp_all
    ultimately show ?thesis
      using True by (intro exI [of _ b] exI [of _ ?s']) simp
  qed
qed

lemma MTU_value: "MTU = 1472" "unat MTU = 1472"
  by (simp_all add: MTU_def MTU_NO_HEADERS_def HEADERS_SIZE_def ETH_HDR_def IP_HDR_def UDP_HDR_def)

lemma sock_receive_store:
  assumes inv: "so_inv n s" and pk: "pk_inv p" "unat (pk_size p) + 1472 < 2 ^ 32"
    and small: "length (pk_unread p) \<le> 1472" and acc: "sock_accepts info s"
  shows "\<exists>p' s'. sock_receive p info s sc =
      (if so_blocked s \<noteq> -1 then map_option (\<lambda>sc1. (RET_SUCCESS, p', s', sc1)) (mac_wake (so_blocked s) sc)
       else Some (RET_SUCCESS, p', s', sc)) \<and> so_inv n s' \<and>
    so_pending s' = (if length (so_pending s) = n then tl (so_pending s) else so_pending s) @
      [(pk_unread p, [0, 0, 0, ucast (na_ipv4 (ni_src info))], na_port (ni_src info))] \<and>
    so_blocked s' = so_blocked s \<and> so_addr s' = so_addr s \<and> pk_unread p' = []"
proof -
  have av: "unat (pk_available p) = length (pk_unread p)"
    by (rule pk_available_unat [OF pk(1)])
  have le: "\<not> pk_available p > MTU"
    using av small by (simp add: word_less_nat_alt MTU_value)
  obtain b s1 where b: "sock_buffer s = Some (b, s1)" "aq_inv n (so_rx s1)" "pool_inv n (so_pool s1)"
      "pool_live n (so_pool s1) = insert b (set (so_bufs s1))" "b \<notin> set (so_bufs s1)" "distinct (so_bufs s1)"
      "length (so_bufs s1) < n" "so_bufs s1 = (if length (so_bufs s) = n then tl (so_bufs s) else so_bufs s)"
      "pool_obj (so_pool s1) = pool_obj (so_pool s)" "so_addr s1 = so_addr s" "so_blocked s1 = so_blocked s"
    using sock_buffer_ok [OF inv] by blast
  have "length (aq_elems (so_rx s1)) < n"
    using b(7) by (simp add: so_bufs_def)
  from aq_law_push [OF b(2) this, of b] obtain e q where q: "aq_push b (so_rx s1) = (Some e, q)" "aq_inv n q"
      "e \<notin> set (aq_elems (so_rx s1))" "aq_elems q = aq_elems (so_rx s1) @ [e]" "aq_val q = (aq_val (so_rx s1))(e := b)"
    by blast
  have "unat (pk_available p) + unat (pk_size p) < 2 ^ 32"
    using av small pk(2) by simp
  from pk_read_ok [OF pk(1) this] av obtain p' where p': "pk_read (pk_available p) p = Some (RET_SUCCESS, pk_unread p, p')"
      "pk_unread p' = []"
    by auto
  define x where "x = pool_obj (so_pool s1) b"
  define y where "y = x\<lparr>sp_buff := pk_unread p @ drop (length (pk_unread p)) (sp_buff x), sp_len := pk_available p,
      sp_port := na_port (ni_src info),
      sp_ip := [ucast (push_bit 24 (na_ipv4 (ni_src info))), ucast (push_bit 16 (na_ipv4 (ni_src info))),
                ucast (push_bit 8 (na_ipv4 (ni_src info))), ucast (na_ipv4 (ni_src info))]\<rparr>"
  let ?s' = "s1\<lparr>so_rx := q, so_pool := pool_put ((pool_obj (so_pool s1))(b := y)) (so_pool s1)\<rparr>"
  have r: "sock_receive p info s sc =
      (if so_blocked s \<noteq> -1 then map_option (\<lambda>sc1. (RET_SUCCESS, p', ?s', sc1)) (mac_wake (so_blocked s) sc)
       else Some (RET_SUCCESS, p', ?s', sc))"
    using le acc b(1,11) q(1) p'(1)
    by (simp add: sock_receive_def Let_def put_buffer_def x_def y_def)
  have bufs: "so_bufs ?s' = so_bufs s1 @ [b]"
    using q(3-5) by (auto simp: so_bufs_def)
  have view: "so_view y = (pk_unread p, [0, 0, 0, ucast (na_ipv4 (ni_src info))], na_port (ni_src info))"
  proof -
    have "ucast (push_bit 24 a) = (0 :: u8)" "ucast (push_bit 16 a) = (0 :: u8)" "ucast (push_bit 8 a) = (0 :: u8)" for a :: u32
      by (rule bit_word_eqI; simp add: bit_simps)+
    then show ?thesis
      using av by (simp add: so_view_def y_def)
  qed
  have "length (sp_buff x) = unat MTU"
    using inv b(9) by (simp add: so_inv_def x_def)
  moreover have "sp_len y \<le> MTU"
    using le by (simp add: y_def)
  moreover have "sp_len (pool_obj (so_pool s1) c) \<le> MTU" if "c \<in> set (so_bufs s1)" for c
  proof -
    have "c \<in> set (so_bufs s)"
      using that b(8) by (cases "so_bufs s") (auto split: if_splits)
    then show ?thesis
      using inv b(9) by (simp add: so_inv_def)
  qed
  moreover have "length (sp_buff y) = unat MTU" if "length (sp_buff x) = unat MTU"
    using that small by (simp add: y_def MTU_value)
  ultimately have i': "so_inv n ?s'"
    using b q inv bufs by (simp add: so_inv_def pool_put_laws)
  have "map (\<lambda>c. so_view (pool_obj (so_pool ?s') c)) (so_bufs s1) = map (\<lambda>c. so_view (pool_obj (so_pool s) c)) (so_bufs s1)"
    using b(5,9) by (auto simp: pool_put_laws)
  then have "so_pending ?s' = (if length (so_pending s) = n then tl (so_pending s) else so_pending s) @ [so_view y]"
    using arg_cong [OF b(8), of "map (\<lambda>c. so_view (pool_obj (so_pool s) c))"]
    unfolding so_pending_def bufs by (simp add: pool_put_laws map_tl)
  then show ?thesis
    using r i' view p'(2) b(10,11) by (intro exI [of _ p'] exI [of _ ?s']) simp
qed

lemma sock_receive_ok:
  assumes "so_inv n s" and "pk_inv p" and "unat (pk_size p) + 1472 < 2 ^ 32"
    and "length (pk_unread p) \<le> 1472" and "sock_accepts info s" and "so_blocked s = -1"
  shows "\<exists>p' s'. sock_receive p info s sc = Some (RET_SUCCESS, p', s', sc) \<and> so_inv n s' \<and>
    so_pending s' = (if length (so_pending s) = n then tl (so_pending s) else so_pending s) @
      [(pk_unread p, [0, 0, 0, ucast (na_ipv4 (ni_src info))], na_port (ni_src info))] \<and>
    so_blocked s' = -1 \<and> so_addr s' = so_addr s \<and> pk_unread p' = []"
  using sock_receive_store [OF assms(1-5), of sc] assms(6) by simp

lemma sock_take_ok:
  assumes inv: "so_inv n s" and e: "aq_peek (so_rx s) = Some e"
  shows "\<exists>x s'. sock_take len e s = (Some (take (unat (min len (sp_len x))) (sp_buff x), sp_len x,
      \<lparr>sa_ip = sp_ip x, sa_port = sp_port x\<rparr>), s') \<and> so_inv n s' \<and> so_pending s = so_view x # so_pending s' \<and>
    length (sp_buff x) = 1472 \<and> sp_len x \<le> 1472 \<and> so_blocked s' = so_blocked s \<and> so_addr s' = so_addr s"
proof -
  have i: "0 < n" "aq_inv n (so_rx s)" "pool_inv n (so_pool s)" "distinct (so_bufs s)"
      "set (so_bufs s) = pool_live n (so_pool s)" "\<forall>b. length (sp_buff (pool_obj (so_pool s) b)) = unat MTU"
    using inv by (simp_all add: so_inv_def)
  obtain es where es: "aq_elems (so_rx s) = e # es"
    using e aq_law_peek [OF i(2)] by (cases "aq_elems (so_rx s)") auto
  have q: "aq_inv n (aq_pop (so_rx s))" "aq_elems (aq_pop (so_rx s)) = es" "aq_val (aq_pop (so_rx s)) = aq_val (so_rx s)"
    using aq_law_pop [OF i(2)] es by simp_all
  let ?b = "aq_val (so_rx s) e"
  have bl: "so_bufs s = ?b # map (aq_val (so_rx s)) es" "?b \<in> pool_live n (so_pool s)"
    using es i(5) by (auto simp: so_bufs_def)
  obtain pool where f: "pool_free ?b (so_pool s) = (True, pool)" "pool_inv n pool"
      "pool_live n pool = pool_live n (so_pool s) - {?b}" "pool_obj pool = pool_obj (so_pool s)"
    using pool_free_live' [OF i(3) bl(2)] by blast
  let ?s' = "s\<lparr>so_rx := aq_pop (so_rx s), so_pool := pool\<rparr>"
  have bufs: "so_bufs ?s' = map (aq_val (so_rx s)) es"
    using q by (simp add: so_bufs_def)
  have lens: "\<forall>b\<in>set (map (aq_val (so_rx s)) es). sp_len (pool_obj pool b) \<le> MTU"
    using inv bl(1) f(4) by (simp add: so_inv_def)
  have "so_inv n ?s'"
    unfolding so_inv_def bufs using i q f bl distinct_tail_set [OF i(4) bl(1)] lens by simp
  moreover have "so_pending s = so_view (pool_obj (so_pool s) ?b) # so_pending ?s'"
    unfolding so_pending_def bufs using bl(1) f(4) by simp
  moreover have "length (sp_buff (pool_obj (so_pool s) ?b)) = 1472" "sp_len (pool_obj (so_pool s) ?b) \<le> 1472"
    using inv bl(1) by (simp_all add: so_inv_def MTU_value)
  ultimately show ?thesis
    using f by (intro exI [of _ "pool_obj (so_pool s) ?b"] exI [of _ ?s']) (simp add: sock_take_def min_def Let_def)
qed

text \<open>Receiving a list of datagrams.\<close>

fun sock_receive_all ::
  "(packet \<times> netinfo) list \<Rightarrow> socket \<Rightarrow> ('f, 'b, 'w) sched \<Rightarrow> (socket \<times> ('f, 'b, 'w) sched) option" where
  "sock_receive_all [] s sc = Some (s, sc)"
| "sock_receive_all ((p, info) # ds) s sc =
     (case sock_receive p info s sc of
        None \<Rightarrow> None | Some (r, p', s', sc') \<Rightarrow> sock_receive_all ds s' sc')"

definition dgram_ok :: "socket \<Rightarrow> packet \<times> netinfo \<Rightarrow> bool" where
  "dgram_ok s d \<longleftrightarrow>
     pk_inv (fst d) \<and> unat (pk_size (fst d)) + 1472 < 2 ^ 32 \<and> length (pk_unread (fst d)) \<le> 1472 \<and>
     sock_accepts (snd d) s"

definition dgram_view :: "packet \<times> netinfo \<Rightarrow> u8 list \<times> u8 list \<times> u16" where
  "dgram_view d =
     (pk_unread (fst d), [0, 0, 0, ucast (na_ipv4 (ni_src (snd d)))], na_port (ni_src (snd d)))"

lemma so_pending_bound: "so_inv n s \<Longrightarrow> length (so_pending s) \<le> n"
  using so_bufs_length [of n s] mp.live_card [of n "so_pool s"] by (simp add: so_pending_def so_inv_def)

lemma sock_accepts_cong: "so_addr s' = so_addr s \<Longrightarrow> sock_accepts info s' = sock_accepts info s"
  by (simp add: sock_accepts_def Let_def)

lemma take_last_step:
  "length xs \<le> n \<Longrightarrow> 0 < n \<Longrightarrow>
   (if length xs = n then tl xs else xs) @ [x] = drop (length xs + 1 - n) (xs @ [x])"
  by (cases xs) auto

text \<open>C11: A socket buffers datagrams in order and drops the oldest ones: after any list of acceptable
  datagrams, the packets that wait are the last \<open>n\<close> of those that waited before followed by the
  datagrams, payload and source port unchanged.  Of the source address only the last byte arrives,
  behind three zeros: the three others are shifted out to the left instead of down.\<close>

theorem socket_keeps_latest:
  assumes "so_inv n s" and "so_blocked s = -1" and "\<forall>d\<in>set ds. dgram_ok s d"
  shows "\<exists>s'. sock_receive_all ds s sc = Some (s', sc) \<and> so_inv n s' \<and>
    so_pending s' = drop (length (so_pending s) + length ds - n) (so_pending s @ map dgram_view ds)"
  using assms
proof (induction ds arbitrary: s)
  case Nil
  then show ?case
    using so_pending_bound [of n s] by simp
next
  case (Cons d ds)
  obtain p info where d: "d = (p, info)"
    by fastforce
  have ok: "pk_inv p" "unat (pk_size p) + 1472 < 2 ^ 32" "length (pk_unread p) \<le> 1472" "sock_accepts info s"
    using Cons.prems(3) by (simp_all add: d dgram_ok_def)
  obtain p' s1 where 1: "sock_receive p info s sc = Some (RET_SUCCESS, p', s1, sc)" "so_inv n s1"
      "so_pending s1 = (if length (so_pending s) = n then tl (so_pending s) else so_pending s) @ [dgram_view d]"
      "so_blocked s1 = -1" "so_addr s1 = so_addr s"
    using sock_receive_ok [OF Cons.prems(1) ok Cons.prems(2), of sc] by (auto simp: d dgram_view_def)
  have "\<forall>d\<in>set ds. dgram_ok s1 d"
    using Cons.prems(3) sock_accepts_cong [OF 1(5)] by (simp add: dgram_ok_def)
  from Cons.IH [OF 1(2,4) this] obtain s' where 2: "sock_receive_all ds s1 sc = Some (s', sc)" "so_inv n s'"
      "so_pending s' = drop (length (so_pending s1) + length ds - n) (so_pending s1 @ map dgram_view ds)"
    by blast
  have n: "0 < n"
    using Cons.prems(1) by (simp add: so_inv_def)
  have p1: "so_pending s1 = drop (length (so_pending s) + 1 - n) (so_pending s @ [dgram_view d])"
    using 1(3) take_last_step [OF so_pending_bound [OF Cons.prems(1)] n] by simp
  have "so_pending s' = drop (length (so_pending s) + length (d # ds) - n) (so_pending s @ map dgram_view (d # ds))"
  proof (cases "length (so_pending s) = n")
    case True
    then show ?thesis
      using 2(3) p1 n by (cases "so_pending s") auto
  next
    case False
    then have "length (so_pending s) + 1 - n = 0"
      using so_pending_bound [OF Cons.prems(1)] by simp
    then show ?thesis
      using 2(3) p1 by simp
  qed
  then show ?case
    using 1(1) 2(1,2) by (simp add: d)
qed

text \<open>C12: \<open>recv\<close> hands out the oldest packet that waits: at most the requested number of its bytes, its
  full length and its source, without blocking, and the packets behind it stay.\<close>

theorem socket_recv_oldest:
  assumes "so_inv n s" and "so_pending s = (data, ip, port) # rest"
  shows "\<exists>k s' l'. sock_recv len s sc l =
      Some (RET_SUCCESS, Some (take (unat len) data, k, \<lparr>sa_ip = ip, sa_port = port\<rparr>), s', sc, l') \<and>
    unat k = length data \<and> so_inv n s' \<and> so_pending s' = rest"
proof -
  have i: "aq_inv n (so_rx s)"
    using assms(1) by (simp add: so_inv_def)
  have "aq_elems (so_rx s) \<noteq> []"
    using assms(2) by (auto simp: so_pending_def so_bufs_def)
  then obtain e where e: "aq_peek (so_rx s) = Some e"
    using aq_law_peek [OF i] by auto
  obtain x s' where x: "sock_take len e s = (Some (take (unat (min len (sp_len x))) (sp_buff x), sp_len x,
      \<lparr>sa_ip = sp_ip x, sa_port = sp_port x\<rparr>), s')" "so_inv n s'" "so_pending s = so_view x # so_pending s'"
      "length (sp_buff x) = 1472" "sp_len x \<le> 1472"
    using sock_take_ok [OF assms(1) e] by blast
  have v: "data = take (unat (sp_len x)) (sp_buff x)" "sp_ip x = ip" "sp_port x = port" "so_pending s' = rest"
    using x(3) assms(2) by (simp_all add: so_view_def)
  have k: "unat (sp_len x) = length data"
    using x(4,5) v(1) by (simp add: word_le_nat_alt)
  have "take (unat (min len (sp_len x))) (sp_buff x) = take (unat len) data"
    unfolding v(1) by (simp add: min_def word_le_nat_alt)
  moreover obtain place l1 where "mac_resume RvStart (sched_dispatched sc) l = (place, l1)"
    by fastforce
  ultimately show ?thesis
    using x(1,2) e k v(2-4) by (intro exI [of _ "sp_len x"] exI [of _ s']) (simp add: sock_recv_def sock_finish_def)
qed

definition ex_socket :: socket where
  "ex_socket = sock_init (boot_aqueue 0 1)
     (pool_boot \<lparr>sp_buff = replicate 1472 0, sp_len = 0, sp_ip = [0, 0, 0, 0], sp_port = 0\<rparr> 1)"

lemma pool_obj_init_step: "pool_obj (pool_init_step i p) = pool_obj p"
  by (auto simp: pool_init_step_def pool_obj_def set_desc_def Let_def fun_eq_iff split: prod.splits)

lemma pool_obj_boot: "pool_obj (pool_boot x n) = (\<lambda>d. x)"
proof -
  have "pool_obj (fold pool_init_step is p) = pool_obj p" for "is" and p :: "'a pool"
    by (induction "is" arbitrary: p) (simp_all add: pool_obj_init_step)
  then show ?thesis
    by (simp add: pool_boot_def pool_init_def) (simp add: pool_obj_def)
qed

lemma ex_socket_inv: "so_inv 1 ex_socket" and ex_socket_pending: "so_pending ex_socket = []"
  and ex_socket_blocked: "so_blocked ex_socket = -1" and ex_socket_accepts: "sock_accepts info ex_socket"
  using boot_aqueue_inv [of 1 "0 :: ptr"] boot_aqueue_elems [of 1 "0 :: ptr"]
  by (simp_all add: so_inv_def ex_socket_def sock_init_def pool_boot_inv pool_boot_live so_bufs_def so_pending_def
      pool_obj_boot MTU_value sock_accepts_def)

definition ex_dgram :: "u8 \<Rightarrow> packet \<times> netinfo" where
  "ex_dgram b = (pk_wrote [b] (pk_init (replicate 4 0) 2 2), ex_info 0 0)"

lemma ex_dgram_ok: "dgram_ok ex_socket (ex_dgram b)"
  and ex_dgram_view: "dgram_view (ex_dgram b) = ([b], [0, 0, 0, 0], 0)"
proof -
  have i0: "pk_inv (pk_init (replicate 4 0) 2 2)"
    by (rule pk_init_inv) simp_all
  have inv: "pk_inv (pk_wrote [b] (pk_init (replicate 4 0) 2 2))"
    by (rule pk_push_wrote(2) [OF i0]) (simp_all add: pk_init_def)
  have un: "pk_unread (pk_wrote [b] (pk_init (replicate 4 0) 2 2)) = [b]"
    by (simp add: pk_unread_def pk_wrote_def pk_init_def)
  show "dgram_ok ex_socket (ex_dgram b)"
    using inv un by (simp add: dgram_ok_def ex_dgram_def ex_socket_accepts) (simp add: pk_init_def)
  show "dgram_view (ex_dgram b) = ([b], [0, 0, 0, 0], 0)"
    by (simp add: dgram_view_def ex_dgram_def un) (simp add: ex_info_def)
qed

theorem socket_keeps_latest_witness:
  "\<exists>s'. sock_receive_all [ex_dgram 7, ex_dgram 9] ex_socket (sched_boot (0 :: nat) () ()) =
      Some (s', sched_boot 0 () ()) \<and> so_pending s' = [([9], [0, 0, 0, 0], 0)]"
proof -
  have "\<forall>d\<in>set [ex_dgram 7, ex_dgram 9]. dgram_ok ex_socket d"
    by (simp add: ex_dgram_ok)
  from socket_keeps_latest [OF ex_socket_inv ex_socket_blocked this] show ?thesis
    by (fastforce simp: ex_socket_pending ex_dgram_view)
qed

definition ex_recv_labels :: "recv_place labels" where
  "ex_recv_labels = \<lparr>lb_init = False, lb_current = (\<lambda>i. RvStart)\<rparr>"

lemma ex_socket_one:
  "\<exists>s'. sock_receive_all [ex_dgram b] ex_socket sc = Some (s', sc) \<and> so_inv 1 s' \<and>
     so_pending s' = [([b], [0, 0, 0, 0], 0)]"
proof -
  have k: "dgram_ok ex_socket (fst (ex_dgram b), snd (ex_dgram b))"
    using ex_dgram_ok by simp
  then have "pk_inv (fst (ex_dgram b))" "unat (pk_size (fst (ex_dgram b))) + 1472 < 2 ^ 32"
      "length (pk_unread (fst (ex_dgram b))) \<le> 1472" "sock_accepts (snd (ex_dgram b)) ex_socket"
    by (simp_all add: dgram_ok_def)
  from sock_receive_ok [OF ex_socket_inv this ex_socket_blocked, of sc] show ?thesis
    using ex_dgram_view [of b]
    by (cases "ex_dgram b") (auto simp: ex_socket_pending dgram_view_def)
qed

theorem socket_recv_oldest_witness:
  "\<exists>s k s' l'. sock_recv 4 s (sched_boot (0 :: nat) () ()) ex_recv_labels =
      Some (RET_SUCCESS, Some ([7], k, \<lparr>sa_ip = [0, 0, 0, 0], sa_port = 0\<rparr>), s', sched_boot 0 () (), l') \<and>
    unat k = 1 \<and> so_pending s' = []"
proof -
  obtain s where s: "so_inv 1 s" "so_pending s = [([7], [0, 0, 0, 0], 0)]"
    using ex_socket_one [of 7 "sched_boot (0 :: nat) () ()"] by blast
  from socket_recv_oldest [OF s, of 4 "sched_boot (0 :: nat) () ()" ex_recv_labels] show ?thesis
    by fastforce
qed

text \<open>A socket blocks a reader once only.  A task that reads from an empty socket is blocked, the next
  datagram makes it ready, and it gets the datagram; but the socket still has it down as blocked, so
  that its next read from the then empty socket is refused with an error, where it should block.\<close>

theorem socket_blocks_once:
  assumes "so_inv n s" and "so_pending s = []" and "so_blocked s = -1" and "sched_ok sc"
    and "sched_dispatched sc = int t" and "t < MAX_NUM_TASKS" and "t_state (tasks sc t) \<noteq> STATE_UNALLOCATED"
    and "dgram_ok s d" and "\<not> lb_init l"
  shows "\<exists>s1 sc1 l1 p s2 sc2 k s3 l3 l4. sock_recv len s sc l = Some (RET_BLOCKED, None, s1, sc1, l1) \<and>
      t_state (tasks sc1 t) = STATE_BLOCKED \<and>
    sock_receive (fst d) (snd d) s1 sc1 = Some (RET_SUCCESS, p, s2, sc2) \<and> ready_tasks sc2 = ready_tasks sc1 @ [t] \<and>
    sock_recv len s2 (sc2\<lparr>sched_dispatched := int t\<rparr>) l1 =
      Some (RET_SUCCESS, Some (take (unat len) (pk_unread (fst d)), k,
        \<lparr>sa_ip = fst (snd (dgram_view d)), sa_port = snd (snd (dgram_view d))\<rparr>), s3,
        sc2\<lparr>sched_dispatched := int t\<rparr>, l3) \<and>
    so_pending s3 = [] \<and>
    sock_recv len s3 (sc2\<lparr>sched_dispatched := int t\<rparr>) l3 =
      Some (RET_ERROR, None, s3, sc2\<lparr>sched_dispatched := int t\<rparr>, l4)"
proof -
  have i: "aq_inv n (so_rx s)" "0 < n"
    using assms(1) by (simp_all add: so_inv_def)
  have pk: "aq_peek (so_rx s) = None"
    using assms(2) aq_law_peek [OF i(1)] by (simp add: so_pending_def so_bufs_def)
  obtain sc1 where b: "sched_block t sc = Some sc1" "sched_ok sc1" "t_state (tasks sc1 t) = STATE_BLOCKED"
    using sched_block_ok [OF assms(4,6,7)] by blast
  let ?s1 = "s\<lparr>so_blocked := int t\<rparr>"
  obtain l0 where l0: "mac_resume RvStart (int t) l = (RvStart, l0)" "lb_init l0"
    using resume_first [OF assms(9), of "int t" RvStart] resume_init [of RvStart "int t" l] assms(6)
    by (cases "mac_resume RvStart (int t) l") simp
  let ?l1 = "set_label (int t) RvBlocked l0"
  have r1: "sock_recv len s sc l = Some (RET_BLOCKED, None, ?s1, sc1, ?l1)"
    using pk l0 assms(3,5,6) b(1) by (simp add: sock_recv_def mac_block_def)
  have s1: "so_inv n ?s1" "so_pending ?s1 = []" "sock_accepts (snd d) ?s1"
    using assms(1,2,8) by (simp_all add: so_inv_def so_pending_def so_bufs_def dgram_ok_def sock_accepts_def)
  have d: "pk_inv (fst d)" "unat (pk_size (fst d)) + 1472 < 2 ^ 32" "length (pk_unread (fst d)) \<le> 1472"
    using assms(8) by (simp_all add: dgram_ok_def)
  obtain sc2 where w: "sched_wake t sc1 = Some sc2" "ready_tasks sc2 = ready_tasks sc1 @ [t]"
    using sched_wake_ok [OF b(2) assms(6)] b(3) by blast
  have bl: "so_blocked ?s1 = int t"
    by simp
  obtain p s2 where r2: "sock_receive (fst d) (snd d) ?s1 sc1 = Some (RET_SUCCESS, p, s2, sc2)" "so_inv n s2"
      "so_pending s2 = [dgram_view d]" "so_blocked s2 = int t"
    using sock_receive_store [OF s1(1) d s1(3), of sc1] s1(2) w(1) i(2) assms(6)
    unfolding bl by (auto simp: mac_wake_def dgram_view_def)
  let ?sc = "sc2\<lparr>sched_dispatched := int t\<rparr>"
  have s2: "so_pending s2 = (pk_unread (fst d), fst (snd (dgram_view d)), snd (snd (dgram_view d))) # []"
    using r2(3) by (simp add: dgram_view_def)
  obtain e where e: "aq_peek (so_rx s2) = Some e"
    using r2(2,3) aq_law_peek [of n "so_rx s2"] by (auto simp: so_inv_def so_pending_def so_bufs_def)
  obtain x s3 where x: "sock_take len e s2 = (Some (take (unat (min len (sp_len x))) (sp_buff x), sp_len x,
      \<lparr>sa_ip = sp_ip x, sa_port = sp_port x\<rparr>), s3)" "so_inv n s3" "so_pending s2 = so_view x # so_pending s3"
      "so_blocked s3 = so_blocked s2"
    using sock_take_ok [OF r2(2) e] by blast
  have v: "pk_unread (fst d) = take (unat (sp_len x)) (sp_buff x)" "sp_ip x = fst (snd (dgram_view d))"
      "sp_port x = snd (snd (dgram_view d))" "so_pending s3 = []"
    using x(3) s2 by (simp_all add: so_view_def)
  have m: "mac_resume RvStart (int t) ?l1 = (RvBlocked, ?l1)"
    by (rule resume_after_set [OF l0(2)])
  let ?l3 = "set_label (int t) RvStart ?l1"
  have tk: "take (unat (min len (sp_len x))) (sp_buff x) = take (unat len) (pk_unread (fst d))"
    unfolding v(1) by (simp add: min_def word_le_nat_alt)
  have r3: "sock_recv len s2 ?sc ?l1 = Some (RET_SUCCESS, Some (take (unat len) (pk_unread (fst d)), sp_len x,
      \<lparr>sa_ip = fst (snd (dgram_view d)), sa_port = snd (snd (dgram_view d))\<rparr>), s3, ?sc, ?l3)"
    using m e x(1) v(2,3) tk by (simp add: sock_recv_def sock_finish_def mac_reset_def)
  have "aq_peek (so_rx s3) = None"
    using x(2) v(4) aq_law_peek [of n "so_rx s3"] by (simp add: so_inv_def so_pending_def so_bufs_def)
  moreover have "mac_resume RvStart (int t) ?l3 = (RvStart, ?l3)"
    by (rule resume_after_set) (simp add: l0(2))
  ultimately have r4: "sock_recv len s3 ?sc ?l3 = Some (RET_ERROR, None, s3, ?sc, ?l3)"
    using x(4) r2(4) by (simp add: sock_recv_def)
  show ?thesis
    using r1 b(3) r2(1) w(2) r3 v(4) r4 by blast
qed

theorem socket_blocks_once_witness:
  "\<exists>s1 sc1 l1. sock_recv 4 ex_socket (snd (sched_start (0 :: nat) () (sched_boot 0 () ()))\<lparr>sched_dispatched := 0\<rparr>)
      ex_recv_labels = Some (RET_BLOCKED, None, s1, sc1, l1) \<and> t_state (tasks sc1 0) = STATE_BLOCKED"
proof -
  let ?s = "snd (sched_start (0 :: nat) () (sched_boot 0 () ()))\<lparr>sched_dispatched := 0\<rparr>"
  have "sched_ok (snd (sched_start (0 :: nat) () (sched_boot 0 () ())))"
    using one_task_ex [of "0 :: nat" "()" "()"] by (auto simp: one_task_def)
  then have s: "sched_ok ?s" "sched_dispatched ?s = int 0" "0 < MAX_NUM_TASKS"
      "t_state (tasks ?s 0) \<noteq> STATE_UNALLOCATED"
    using one_task_blocked [of "0 :: nat" "()" "()"] by (auto simp: MAX_NUM_TASKS_def)
  have l: "\<not> lb_init ex_recv_labels"
    by (simp add: ex_recv_labels_def)
  from socket_blocks_once [OF ex_socket_inv ex_socket_pending ex_socket_blocked s ex_dgram_ok l, of 4] show ?thesis
    by blast
qed

end
