(* ===== verification/StackModel.thy ===== *)
theory StackModel
  imports SocketModel
begin

text \<open>
  The network stack of src/net/stack/IPv4UDP/IPv4UDPStack.h: its layers as values of a type, a
  driver that follows the calls from layer to layer, and the way of a datagram through it.
\<close>

section \<open>Loopback\<close>

text \<open>
  The layer of src/net/loopback/Loopback.h.  \<open>transmit2\<close> returns from inside of \<open>CALL\<close> and has no
  \<open>RESET\<close>: its label stays at the call, so the next packet of the same task is handed up as it is,
  without the steps in front of the call.
\<close>

datatype lo_place = LoStart | LoCall

definition lo_transmit :: "packet \<Rightarrow> netinfo \<Rightarrow> 'l outcome \<times> packet \<times> netinfo" where
  "lo_transmit p info = (Done RET_SUCCESS, p, info)"

definition lo_transmit2 ::
  "packet \<Rightarrow> netinfo \<Rightarrow> 'l \<Rightarrow> int \<Rightarrow> lo_place labels \<Rightarrow> 'l outcome \<times> packet \<times> netinfo \<times> lo_place labels" where
  "lo_transmit2 p info caller tid l =
     (let (place, l1) = mac_resume LoStart tid l
      in if place = LoCall then (Receive caller, p, info, set_label tid LoCall l1)
         else
           (case pk_header_ptr IP_HDR p of
              None \<Rightarrow> (Done RET_ERROR, p, info, l1)
            | Some off \<Rightarrow>
                (let p1 = p\<lparr>pk_buff := store32 (hton32 (ipv4_address 127 0 0 1)) (off + 16) (pk_buff p)\<rparr>;
                     info1 = info\<lparr>ni_ignore := True\<rparr>
                 in (Receive caller, pk_seek_read True p1, info1, set_label tid LoCall l1))))"

definition lo_receive :: "packet \<Rightarrow> netinfo \<Rightarrow> 'l outcome \<times> packet \<times> netinfo" where
  "lo_receive p info = (Done RET_ERROR, p, info)"

section \<open>State\<close>

datatype layer = L_udp | L_ip | L_lo | L_arp | L_eth | L_dev | L_sock nat

record stack =
  st_udp :: "layer udp_router"
  st_ip :: "layer ip_router"
  st_lo :: "lo_place labels"
  st_eth :: "layer eth_layer"
  st_socks :: "socket pool"
  st_ipAddr :: u32
  st_ipSubnet :: u32

definition IPV4_PROTO :: u16 where
  "IPV4_PROTO = 0x0800"

definition stack_new ::
  "layer udp_router \<Rightarrow> layer ip_router \<Rightarrow> socket pool \<Rightarrow> u8 \<Rightarrow> u8 \<Rightarrow> u8 \<Rightarrow> u8 \<Rightarrow> u8 \<Rightarrow> u8 \<Rightarrow> u8 \<Rightarrow> u8 \<Rightarrow> stack" where
  "stack_new udp ip socks a b c d e f g h =
     \<lparr>st_udp = udp\<lparr>ur_lower := L_ip\<rparr>, st_ip = ip, st_lo = \<lparr>lb_init = False, lb_current = (\<lambda>i. LoStart)\<rparr>,
      st_eth = eth_init [FIXED_MAC_1, FIXED_MAC_2, a, b, c, d] L_dev L_ip IPV4_PROTO True,
      st_socks = socks, st_ipAddr = ipv4_address a b c d, st_ipSubnet = ipv4_address e f g h\<rparr>"

section \<open>Operations\<close>

text \<open>\<open>lp\<close> is the hash of a layer pointer.  Each step of \<open>init\<close> ends it when it fails.\<close>

definition stack_init :: "(layer option \<Rightarrow> size_t) \<Rightarrow> stack \<Rightarrow> (ret_type \<times> stack) option" where
  "stack_init lp st =
     (let lo = ipv4_address 127 0 0 1 in
      (case ip_add_outgoing_route lo (ipv4_address 255 0 0 0) L_lo (st_ip st) of
         None \<Rightarrow> None
       | Some (r1, ip1) \<Rightarrow>
           if r1 \<noteq> RET_SUCCESS then Some (r1, st\<lparr>st_ip := ip1\<rparr>)
           else
             (case ip_add_incoming_route lo L_lo ip1 of
                (r2, ip2) \<Rightarrow>
                  if r2 \<noteq> RET_SUCCESS then Some (r2, st\<lparr>st_ip := ip2\<rparr>)
                  else
                    (case ip_add_outgoing_route (st_ipAddr st) (st_ipSubnet st) L_arp ip2 of
                       None \<Rightarrow> None
                     | Some (r3, ip3) \<Rightarrow>
                         if r3 \<noteq> RET_SUCCESS then Some (r3, st\<lparr>st_ip := ip3\<rparr>)
                         else
                           (case ip_add_incoming_route (st_ipAddr st) L_eth ip3 of
                              (r4, ip4) \<Rightarrow>
                                if r4 \<noteq> RET_SUCCESS then Some (r4, st\<lparr>st_ip := ip4\<rparr>)
                                else map_option (\<lambda>(r5, ip5). (r5, st\<lparr>st_ip := ip5\<rparr>))
                                       (ip_add_protocol (\<lambda>l. lp (Some l)) UDP_PROTO L_udp ip4))))))"

definition stack_get_socket :: "stack \<Rightarrow> nat option \<times> stack" where
  "stack_get_socket st =
     (case pool_alloc (st_socks st) of (sock, pool) \<Rightarrow> (sock, st\<lparr>st_socks := pool\<rparr>))"

definition stack_sock :: "stack \<Rightarrow> nat \<Rightarrow> socket" where
  "stack_sock st i = pool_obj (st_socks st) i"

definition stack_put_sock :: "nat \<Rightarrow> socket \<Rightarrow> stack \<Rightarrow> stack" where
  "stack_put_sock i s st = st\<lparr>st_socks := pool_put ((pool_obj (st_socks st))(i := s)) (st_socks st)\<rparr>"

definition stack_free_socket :: "(layer option \<Rightarrow> size_t) \<Rightarrow> nat \<Rightarrow> stack \<Rightarrow> stack option" where
  "stack_free_socket lp i st =
     map_option (\<lambda>(r, udp). st\<lparr>st_udp := udp, st_socks := snd (pool_free i (st_socks st))\<rparr>)
       (sock_unbind lp (stack_sock st i) (st_udp st))"

definition stack_add_multicast :: "u32 \<Rightarrow> stack \<Rightarrow> (ret_type \<times> stack) option" where
  "stack_add_multicast addr st =
     (if \<not> is_multicast addr then Some (RET_ERROR, st)
      else
        (case ip_add_outgoing_route addr 0xFFFFFFFF L_arp (st_ip st) of
           None \<Rightarrow> None
         | Some (r, ip1) \<Rightarrow>
             if r \<noteq> RET_SUCCESS then Some (r, st\<lparr>st_ip := ip1\<rparr>)
             else (case ip_add_incoming_route addr L_eth ip1 of (r2, ip2) \<Rightarrow> Some (r2, st\<lparr>st_ip := ip2\<rparr>))))"

definition stack_remove_multicast :: "u32 \<Rightarrow> stack \<Rightarrow> (ret_type \<times> stack) option" where
  "stack_remove_multicast addr st =
     map_option (\<lambda>(r, ip). (r, st\<lparr>st_ip := ip\<rparr>))
       (ip_remove_outgoing_route addr 0xFFFFFFFF (ip_remove_incoming_route addr (st_ip st)))"

section \<open>Calls between the layers\<close>

text \<open>The layer that a call goes to.\<close>

fun callee :: "layer outcome \<Rightarrow> layer option" where
  "callee (Done r) = None"
| "callee (Receive l) = Some l"
| "callee (Transmit l) = Some l"
| "callee (Transmit2 l) = Some l"

text \<open>One call.  The physical device is external code, \<open>dev\<close>.\<close>

type_synonym dev_fun = "layer outcome \<Rightarrow> packet \<Rightarrow> netinfo \<Rightarrow> ret_type \<times> packet \<times> netinfo"

definition net_call ::
  "dev_fun \<Rightarrow> (layer option \<Rightarrow> size_t) \<Rightarrow> layer outcome \<Rightarrow> layer \<Rightarrow> packet \<Rightarrow> netinfo \<Rightarrow> stack \<Rightarrow> ('f, 'b, 'w) sched \<Rightarrow>
   (layer outcome \<times> packet \<times> netinfo \<times> stack \<times> ('f, 'b, 'w) sched) option" where
  "net_call dev lp call caller p info st sc =
     (case call of
        Receive L_eth \<Rightarrow> (case eth_receive p info (st_eth st) of (out, p', i') \<Rightarrow> Some (out, p', i', st, sc))
      | Transmit L_eth \<Rightarrow> (case eth_transmit p info (st_eth st) of (out, p', i') \<Rightarrow> Some (out, p', i', st, sc))
      | Transmit2 L_eth \<Rightarrow>
          map_option (\<lambda>(out, p', i'). (out, p', i', st, sc)) (eth_transmit2 p info (st_eth st))
      | Receive L_arp \<Rightarrow> (case arp_receive p info of (out, p', i') \<Rightarrow> Some (out, p', i', st, sc))
      | Transmit L_arp \<Rightarrow> (case arp_transmit L_eth p info of (out, p', i') \<Rightarrow> Some (out, p', i', st, sc))
      | Transmit2 L_arp \<Rightarrow> (case arp_transmit2 L_eth p info of (out, p', i') \<Rightarrow> Some (out, p', i', st, sc))
      | Receive L_lo \<Rightarrow> (case lo_receive p info of (out, p', i') \<Rightarrow> Some (out, p', i', st, sc))
      | Transmit L_lo \<Rightarrow> (case lo_transmit p info of (out, p', i') \<Rightarrow> Some (out, p', i', st, sc))
      | Transmit2 L_lo \<Rightarrow>
          (case lo_transmit2 p info caller (sched_dispatched sc) (st_lo st) of
             (out, p', i', l) \<Rightarrow> Some (out, p', i', st\<lparr>st_lo := l\<rparr>, sc))
      | Receive L_ip \<Rightarrow>
          (case ip_receive p info caller (st_ip st) of (out, p', i', ip) \<Rightarrow> Some (out, p', i', st\<lparr>st_ip := ip\<rparr>, sc))
      | Transmit L_ip \<Rightarrow>
          map_option (\<lambda>(out, p', i', ip). (out, p', i', st\<lparr>st_ip := ip\<rparr>, sc))
            (ip_transmit (\<lambda>l. lp (Some l)) p info caller (st_ip st))
      | Transmit2 L_ip \<Rightarrow>
          map_option (\<lambda>(out, p', i', ip). (out, p', i', st\<lparr>st_ip := ip\<rparr>, sc)) (ip_transmit2 p info caller (st_ip st))
      | Receive L_udp \<Rightarrow> map_option (\<lambda>(out, p', i'). (out, p', i', st, sc)) (udp_receive p info (st_udp st))
      | Transmit L_udp \<Rightarrow>
          (case udp_transmit lp p info caller (st_udp st) of (out, p', i') \<Rightarrow> Some (out, p', i', st, sc))
      | Transmit2 L_udp \<Rightarrow> (case udp_transmit2 p info (st_udp st) of (out, p', i') \<Rightarrow> Some (out, p', i', st, sc))
      | Receive (L_sock i) \<Rightarrow>
          map_option (\<lambda>(r, p', s', sc'). (Done r, p', info, stack_put_sock i s' st, sc'))
            (sock_receive p info (stack_sock st i) sc)
      | Transmit (L_sock i) \<Rightarrow> (case sock_transmit p info of (out, p', i') \<Rightarrow> Some (out, p', i', st, sc))
      | Transmit2 (L_sock i) \<Rightarrow> (case sock_transmit p info of (out, p', i') \<Rightarrow> Some (out, p', i', st, sc))
      | Done r \<Rightarrow> Some (Done r, p, info, st, sc)
      | _ \<Rightarrow> (case dev call p info of (r, p', i') \<Rightarrow> Some (Done r, p', i', st, sc)))"

text \<open>Following calls until a layer returns, for at most \<open>n\<close> of them.\<close>

fun net_run ::
  "dev_fun \<Rightarrow> (layer option \<Rightarrow> size_t) \<Rightarrow> nat \<Rightarrow> layer outcome \<Rightarrow> layer \<Rightarrow> packet \<Rightarrow> netinfo \<Rightarrow> stack \<Rightarrow> ('f, 'b, 'w) sched \<Rightarrow>
   (ret_type \<times> packet \<times> netinfo \<times> stack \<times> ('f, 'b, 'w) sched) option" where
  "net_run dev lp 0 call caller p info st sc = None"
| "net_run dev lp (Suc n) call caller p info st sc =
     (case net_call dev lp call caller p info st sc of
        None \<Rightarrow> None
      | Some (Done r, p', i', st', sc') \<Rightarrow> Some (r, p', i', st', sc')
      | Some (call', p', i', st', sc') \<Rightarrow>
          (case callee call of None \<Rightarrow> None | Some l \<Rightarrow> net_run dev lp n call' l p' i' st' sc'))"

text \<open>\<open>send\<close> of the socket at index \<open>i\<close>: the two passes, with at most \<open>n\<close> calls each.\<close>

definition stack_send ::
  "dev_fun \<Rightarrow> (layer option \<Rightarrow> size_t) \<Rightarrow> nat \<Rightarrow> nat \<Rightarrow> u8 list \<Rightarrow> netinfo \<Rightarrow> u8 list \<Rightarrow> sock_addr \<Rightarrow> stack \<Rightarrow>
   ('f, 'b, 'w) sched \<Rightarrow> (ret_type \<times> stack \<times> ('f, 'b, 'w) sched) option" where
  "stack_send dev lp n i mem info0 buff dst st sc =
     (case sock_packet_for mem buff of
        None \<Rightarrow> None
      | Some (r, p) \<Rightarrow>
          if r \<noteq> RET_SUCCESS then Some (r, st, sc)
          else
            (case net_run dev lp n (Transmit L_udp) (L_sock i) p (sock_info_for dst info0) st sc of
               None \<Rightarrow> None
             | Some (r1, p1, info1, st1, sc1) \<Rightarrow>
                 if r1 \<noteq> RET_SUCCESS then Some (r1, st1, sc1)
                 else map_option (\<lambda>(r2, p2, info2, st2, sc2). (r2, st2, sc2))
                        (net_run dev lp n (Transmit2 L_udp) (L_sock i) (pk_seek_header p1) info1 st1 sc1)))"

text \<open>
  The same with the labels of \<open>send\<close>, for the task that is dispatched throughout.  Continuing at a label jumps
  over the construction of the packet, which is a local object: such an activation is undefined.
\<close>

datatype send_place = SnStart | SnTransmit | SnTransmit2

definition stack_send_labels ::
  "dev_fun \<Rightarrow> (layer option \<Rightarrow> size_t) \<Rightarrow> nat \<Rightarrow> nat \<Rightarrow> u8 list \<Rightarrow> netinfo \<Rightarrow> u8 list \<Rightarrow> sock_addr \<Rightarrow> stack \<Rightarrow>
   ('f, 'b, 'w) sched \<Rightarrow> send_place labels \<Rightarrow> (ret_type \<times> stack \<times> ('f, 'b, 'w) sched \<times> send_place labels) option" where
  "stack_send_labels dev lp n i mem info0 buff dst st sc l =
     (let tid = sched_dispatched sc; (place, l1) = mac_resume SnStart tid l
      in if place \<noteq> SnStart then None
         else
           (case sock_packet_for mem buff of
              None \<Rightarrow> None
            | Some (r, p) \<Rightarrow>
                if r \<noteq> RET_SUCCESS then Some (r, st, sc, mac_reset SnStart tid l1)
                else
                  (case net_run dev lp n (Transmit L_udp) (L_sock i) p (sock_info_for dst info0) st sc of
                     None \<Rightarrow> None
                   | Some (r1, p1, info1, st1, sc1) \<Rightarrow>
                       (let (waits, l2) = mac_call SnTransmit tid r1 l1
                        in if waits then Some (r1, st1, sc1, l2)
                           else if r1 \<noteq> RET_SUCCESS then Some (r1, st1, sc1, mac_reset SnStart tid l2)
                           else
                             (case net_run dev lp n (Transmit2 L_udp) (L_sock i) (pk_seek_header p1) info1 st1 sc1 of
                                None \<Rightarrow> None
                              | Some (r2, p2, info2, st2, sc2) \<Rightarrow>
                                  (let (waits, l3) = mac_call SnTransmit2 tid r2 l2
                                   in if waits then Some (r2, st2, sc2, l3)
                                      else Some (r2, st2, sc2, mac_reset SnStart tid l3)))))))"

section \<open>A datagram on its way\<close>

text \<open>What the stack is set up to do with datagrams from one socket to a port of the host itself.\<close>

definition loop_ready :: "(layer option \<Rightarrow> size_t) \<Rightarrow> u32 \<Rightarrow> stack \<Rightarrow> ptr \<Rightarrow> bool" where
  "loop_ready lp dst st c \<longleftrightarrow>
     ip_find_route dst (st_ip st) = Some (Some c) \<and> r_next (aq_val (rt_table (st_ip st)) c) = L_lo \<and>
     hm_lookup (\<lambda>l. lp (Some l)) L_udp (rt_protnum (st_ip st)) = Some UDP_PROTO \<and>
     hm_lookup hash_u32 (ipv4_address 127 0 0 1) (rt_incoming (st_ip st)) = Some L_lo \<and>
     hm_lookup hash_u8 UDP_PROTO (rt_prot (st_ip st)) = Some L_udp \<and> ur_lower (st_udp st) = L_ip"



text \<open>The packet a socket starts with.\<close>

lemma sock_packet_ok:
  assumes "length mem = 1518" and "length buff \<le> 1472"
  shows "\<exists>p. sock_packet_for mem buff = Some (RET_SUCCESS, p) \<and> pk_inv p \<and> pk_size p = 1518 \<and> pk_hsize p = 42 \<and>
    pk_hpos p = 42 \<and> pk_rpos p = 42 \<and> unat (pk_wpos p) = 42 + length buff \<and> pk_unread p = buff"
proof -
  let ?p = "pk_init mem 1476 42"
  have k: "MTU_NO_HEADERS = 1518" "HEADERS_SIZE = 42"
    by (simp_all add: MTU_NO_HEADERS_def HEADERS_SIZE_def ETH_HDR_def IP_HDR_def UDP_HDR_def)
  have i: "pk_inv ?p"
    by (rule pk_init_inv) (simp_all add: assms(1))
  have s: "length buff + unat (pk_size ?p) < 2 ^ 32" "unat (pk_wpos ?p) + length buff \<le> unat (pk_size ?p)"
    using assms(2) by (simp_all add: pk_init_def)
  note w = pk_push_wrote [OF i s]
  have f: "pk_size (pk_wrote buff ?p) = 1518" "pk_hsize (pk_wrote buff ?p) = 42" "pk_hpos (pk_wrote buff ?p) = 42"
      "pk_rpos (pk_wrote buff ?p) = 42" "pk_hpos ?p \<le> pk_wpos ?p" "pk_frame ?p = []"
      "unat (pk_wpos ?p) = 42"
    by (simp_all add: pk_init_def pk_frame_def)
  have "pk_frame (pk_wrote buff ?p) = buff"
    using pk_wrote_frame [OF i s f(5)] f(6) by simp
  then have "pk_unread (pk_wrote buff ?p) = buff"
    using f by (simp add: pk_frame_def pk_unread_def)
  then show ?thesis
    using w f unfolding sock_packet_for_def k by (intro exI [of _ "pk_wrote buff ?p"] conjI) simp_all
qed


lemma net_run_Suc:
  "net_call dev lp call caller p info st sc = Some (call', p', i', st', sc') \<Longrightarrow> callee call = Some l \<Longrightarrow>
   net_run dev lp (Suc n) call caller p info st sc =
     (case call' of Done r \<Rightarrow> Some (r, p', i', st', sc') | _ \<Rightarrow> net_run dev lp n call' l p' i' st' sc')"
  by (cases call') simp_all




section \<open>Initialisation\<close>

lemma hm_add_two:
  assumes "hm_inv h m" and "hm_lookup h k m = None" and "2 \<le> unat (hm_bsize m)" and "\<forall>i. \<not> hm_used m ! i \<or> length (hm_used m) \<le> i"
  shows "\<exists>i m1. hm_add h k m = (Some i, m1) \<and> (\<forall>k'. \<exists>j m2. hm_add h k' (hm_put i v m1) = (Some j, m2))"
proof -
  have free: "\<not> hm_used m ! i" if "i \<in> set (hm_range h k' m)" for i k'
    using hm_range_bound [OF assms(1) that] assms(1,4) by (auto simp: hm_inv_def)
  obtain i where i: "find (\<lambda>i. \<not> hm_used m ! i) (hm_range h k m) = Some i"
  proof (cases "find (\<lambda>i. \<not> hm_used m ! i) (hm_range h k m)")
    case None
    moreover have "unat (hm_index h k m) \<in> set (hm_range h k m)"
      using assms(3) by (simp add: hm_range_def)
    ultimately show ?thesis
      using free by (auto simp: find_None_iff)
  qed
  let ?m1 = "m\<lparr>hm_entries := (hm_entries m)[i := (k, snd (hm_entries m ! i))], hm_used := (hm_used m)[i := True]\<rparr>"
  have a: "hm_add h k m = (Some i, ?m1)"
    using i by (simp add: hm_add_def)
  have "\<exists>j m2. hm_add h k' (hm_put i v ?m1) = (Some j, m2)" for k'
  proof -
    have r: "hm_range h k' (hm_put i v ?m1) = hm_range h k' m"
      by (simp add: hm_range_def hm_index_def hm_put_def)
    let ?s = "unat (hm_index h k' m)"
    define j where "j = (if ?s = i then ?s + 1 else ?s)"
    have j: "j \<in> set (hm_range h k' m)" "j \<noteq> i"
      using assms(3) by (auto simp: j_def hm_range_def)
    have "\<not> (hm_used (hm_put i v ?m1)) ! j"
      using free [OF j(1)] j(2) by (simp add: hm_put_def)
    then have "find (\<lambda>i'. \<not> hm_used (hm_put i v ?m1) ! i') (hm_range h k' (hm_put i v ?m1)) \<noteq> None"
      unfolding r find_None_iff using j(1) by blast
    then show ?thesis
      by (auto simp: hm_add_def)
  qed
  with a show ?thesis
    by blast
qed

lemma hm_put_lookup:
  assumes "hm_inv h m" and "hm_lookup h k m = None" and "hm_add h k m = (Some i, m1)"
  shows "hm_inv h (hm_put i v m1) \<and> hm_lookup h k (hm_put i v m1) = Some v \<and>
    (\<forall>k'. k' \<noteq> k \<longrightarrow> hm_lookup h k' (hm_put i v m1) = hm_lookup h k' m)"
  using hm.insert_law [OF assms(1,2), of v "hm_put i v m1"] assms(3) by (simp add: hm_insert_def)

lemma hm_lookup_None: "hm_lookup h k m = None \<Longrightarrow> hm_get h k m = None"
  by (simp add: hm_lookup_def)

text \<open>A stack whose tables are empty, as the constructors leave them.\<close>

definition stack_fresh :: "nat \<Rightarrow> (layer option \<Rightarrow> size_t) \<Rightarrow> stack \<Rightarrow> bool" where
  "stack_fresh n lp st \<longleftrightarrow>
     aq_wf n (rt_table (st_ip st)) [] \<and> 1 < n \<and>
     (\<exists>es. rt_incoming (st_ip st) = hm_init 25 25 es \<and> length es = 625) \<and>
     (\<exists>es. rt_prot (st_ip st) = hm_init 25 25 es \<and> length es = 625) \<and>
     (\<exists>es. rt_protnum (st_ip st) = hm_init 25 25 es \<and> length es = 625) \<and> ur_lower (st_udp st) = L_ip"

lemma fresh_map:
  assumes "length es = 625"
  shows "hm_inv h (hm_init 25 25 es)" and "hm_lookup h k (hm_init 25 25 es) = None"
    and "\<exists>i m1. hm_add h k (hm_init 25 25 es) = (Some i, m1) \<and> (\<forall>k'. \<exists>j m2. hm_add h k' (hm_put i v m1) = (Some j, m2))"
proof -
  show i: "hm_inv h (hm_init 25 25 es)" and l: "hm_lookup h k (hm_init 25 25 es) = None"
    by (rule hm_init_inv; simp add: assms)+
  have "2 \<le> unat (hm_bsize (hm_init 25 25 es))" "\<forall>i. \<not> hm_used (hm_init 25 25 es) ! i \<or> length (hm_used (hm_init 25 25 es)) \<le> i"
    by (simp_all add: hm_init_def) (metis not_less nth_replicate)
  from hm_add_two [OF i l this] show "\<exists>i m1. hm_add h k (hm_init 25 25 es) = (Some i, m1) \<and>
      (\<forall>k'. \<exists>j m2. hm_add h k' (hm_put i v m1) = (Some j, m2))" .
qed

lemma local_masks: "valid_subnet (ipv4_address 255 0 0 0)" "subnet_len (ipv4_address 255 0 0 0) = 8"
proof -
  have "ipv4_address 255 0 0 0 = NOT (mask 24)"
    by code_simp
  then show "valid_subnet (ipv4_address 255 0 0 0)" "subnet_len (ipv4_address 255 0 0 0) = 8"
    using subnet_len_mask [of 24] unfolding valid_subnet_iff by (auto intro: exI [of _ 24])
qed

lemma add_route_frame:
  "ip_add_outgoing_route a s l r = Some (RET_SUCCESS, r') \<Longrightarrow>
   rt_incoming r' = rt_incoming r \<and> rt_prot r' = rt_prot r \<and> rt_protnum r' = rt_protnum r"
  by (auto simp: ip_add_outgoing_route_def split: if_splits option.splits prod.splits)

lemma stack_init_ready:
  assumes fresh: "stack_fresh n lp st" and mask: "valid_subnet (st_ipSubnet st)" "8 \<le> subnet_len (st_ipSubnet st)"
    and addr: "st_ipAddr st \<noteq> ipv4_address 127 0 0 1"
  shows "\<exists>ip c. stack_init lp st = Some (RET_SUCCESS, st\<lparr>st_ip := ip\<rparr>) \<and>
    (\<forall>dst. ip_route_match dst \<lparr>r_addr = ipv4_address 127 0 0 1, r_subnet = ipv4_address 255 0 0 0, r_next = L_lo\<rparr> \<longrightarrow>
       loop_ready lp dst (st\<lparr>st_ip := ip\<rparr>) c) \<and>
    r_addr (aq_val (rt_table ip) c) = ipv4_address 127 0 0 1 \<and>
    hm_lookup hash_u32 (st_ipAddr st) (rt_incoming ip) = Some L_eth"
proof -
  let ?lo = "ipv4_address 127 0 0 1" and ?m = "ipv4_address 255 0 0 0" and ?lh = "\<lambda>l. lp (Some l)"
  let ?lr = "\<lparr>r_addr = ?lo, r_subnet = ?m, r_next = L_lo\<rparr>"
  have w: "aq_wf n (rt_table (st_ip st)) []" "1 < n" "0 < n"
    using fresh by (simp_all add: stack_fresh_def)
  obtain es1 es2 es3 where e: "rt_incoming (st_ip st) = hm_init 25 25 es1" "length es1 = 625"
      "rt_prot (st_ip st) = hm_init 25 25 es2" "length es2 = 625"
      "rt_protnum (st_ip st) = hm_init 25 25 es3" "length es3 = 625"
    using fresh by (auto simp: stack_fresh_def)
  obtain c ip1 where 1: "ip_add_outgoing_route ?lo ?m L_lo (st_ip st) = Some (RET_SUCCESS, ip1)"
      "aq_wf n (rt_table ip1) [c]" "aq_val (rt_table ip1) c = ?lr"
    using add_route_empty [OF w(1,3) local_masks(1)] by blast
  note f1 = add_route_frame [OF 1(1)]
  obtain i m1 where a: "hm_add hash_u32 ?lo (hm_init 25 25 es1) = (Some i, m1)"
      "\<forall>k'. \<exists>j m2. hm_add hash_u32 k' (hm_put i L_lo m1) = (Some j, m2)"
    using fresh_map(3) [OF e(2)] by blast
  note la = hm_put_lookup [OF fresh_map(1,2) [OF e(2)] a(1), of L_lo]
  let ?ip2 = "ip1\<lparr>rt_incoming := hm_put i L_lo m1\<rparr>"
  have 2: "ip_add_incoming_route ?lo L_lo ip1 = (RET_SUCCESS, ?ip2)"
    using hm_lookup_None [OF fresh_map(2) [OF e(2), of hash_u32 ?lo]] f1 e(1) a(1) by (simp add: ip_add_incoming_route_def)
  have w2: "aq_wf n (rt_table ?ip2) [c]" "subnet_len (r_subnet (aq_val (rt_table ?ip2) c)) \<le> subnet_len (st_ipSubnet st)"
    using 1 local_masks(2) mask(2) by simp_all
  obtain d ip3 where 3: "ip_add_outgoing_route (st_ipAddr st) (st_ipSubnet st) L_arp ?ip2 = Some (RET_SUCCESS, ip3)"
      "aq_wf n (rt_table ip3) [c, d]" "c \<noteq> d" "aq_val (rt_table ip3) =
        (aq_val (rt_table ?ip2))(d := \<lparr>r_addr = st_ipAddr st, r_subnet = st_ipSubnet st, r_next = L_arp\<rparr>)"
    using add_route_one [OF w2(1) w(2) mask(1) w2(2)] by blast
  note f3 = add_route_frame [OF 3(1)]
  have n4: "hm_lookup hash_u32 (st_ipAddr st) (hm_put i L_lo m1) = None"
    using la addr fresh_map(2) [OF e(2)] by simp
  obtain j m2 where b: "hm_add hash_u32 (st_ipAddr st) (hm_put i L_lo m1) = (Some j, m2)"
    using a(2) by blast
  have il: "hm_inv hash_u32 (hm_put i L_lo m1)"
    using la by blast
  note lb = hm_put_lookup [OF il n4 b, of L_eth]
  let ?ip4 = "ip3\<lparr>rt_incoming := hm_put j L_eth m2\<rparr>"
  have 4: "ip_add_incoming_route (st_ipAddr st) L_eth ip3 = (RET_SUCCESS, ?ip4)"
    using hm_lookup_None [OF n4] f3 b by (simp add: ip_add_incoming_route_def)
  obtain k m3 where g: "hm_add hash_u8 UDP_PROTO (hm_init 25 25 es2) = (Some k, m3)"
    using fresh_map(3) [OF e(4)] by blast
  obtain o' m4 where h: "hm_add ?lh L_udp (hm_init 25 25 es3) = (Some o', m4)"
    using fresh_map(3) [OF e(6)] by blast
  note lg = hm_put_lookup [OF fresh_map(1,2) [OF e(4)] g, of L_udp]
  note lh = hm_put_lookup [OF fresh_map(1,2) [OF e(6)] h, of UDP_PROTO]
  let ?ip5 = "?ip4\<lparr>rt_prot := hm_put k L_udp m3, rt_protnum := hm_put o' UDP_PROTO m4\<rparr>"
  have 5: "ip_add_protocol ?lh UDP_PROTO L_udp ?ip4 = Some (RET_SUCCESS, ?ip5)"
    using hm_lookup_None [OF fresh_map(2) [OF e(4), of hash_u8 UDP_PROTO]] f1 f3 e g h
    by (simp add: ip_add_protocol_def)
  have run: "stack_init lp st = Some (RET_SUCCESS, st\<lparr>st_ip := ?ip5\<rparr>)"
    using 1(1) 2 3(1) 4 5 by (simp add: stack_init_def Let_def)
  have v: "aq_val (rt_table ?ip5) c = ?lr"
    using 1(3) 3(3,4) by simp
  have "loop_ready lp dst (st\<lparr>st_ip := ?ip5\<rparr>) c" if "ip_route_match dst ?lr" for dst
  proof -
    have "aq_wf n (rt_table ?ip5) [c, d]"
      using 3(2) by simp
    then have "ip_find_route dst ?ip5 = Some (Some c)"
      using ip_find_route_wf [of n ?ip5 "[c, d]" dst] v that by simp
    then show ?thesis
      using v la lb lg lh addr fresh by (simp add: loop_ready_def stack_fresh_def)
  qed
  then show ?thesis
    using run v lb by (intro exI [of _ ?ip5] exI [of _ c]) simp
qed

text \<open>With its own address set to the loopback address.\<close>

lemma stack_init_own_address:
  assumes fresh: "stack_fresh n lp st" and mask: "valid_subnet (st_ipSubnet st)" "8 \<le> subnet_len (st_ipSubnet st)"
    and addr: "st_ipAddr st = ipv4_address 127 0 0 1"
  shows "\<exists>ip. stack_init lp st = Some (RET_ERROR, st\<lparr>st_ip := ip\<rparr>)"
proof -
  let ?lo = "ipv4_address 127 0 0 1" and ?m = "ipv4_address 255 0 0 0"
  have w: "aq_wf n (rt_table (st_ip st)) []" "1 < n" "0 < n"
    using fresh by (simp_all add: stack_fresh_def)
  obtain es where e: "rt_incoming (st_ip st) = hm_init 25 25 es" "length es = 625"
    using fresh by (auto simp: stack_fresh_def)
  obtain c ip1 where 1: "ip_add_outgoing_route ?lo ?m L_lo (st_ip st) = Some (RET_SUCCESS, ip1)"
      "aq_wf n (rt_table ip1) [c]" "aq_val (rt_table ip1) c = \<lparr>r_addr = ?lo, r_subnet = ?m, r_next = L_lo\<rparr>"
    using add_route_empty [OF w(1,3) local_masks(1)] by blast
  note f1 = add_route_frame [OF 1(1)]
  obtain i m1 where a: "hm_add hash_u32 ?lo (hm_init 25 25 es) = (Some i, m1)"
    using fresh_map(3) [OF e(2)] by blast
  note la = hm_put_lookup [OF fresh_map(1,2) [OF e(2)] a, of L_lo]
  let ?ip2 = "ip1\<lparr>rt_incoming := hm_put i L_lo m1\<rparr>"
  have 2: "ip_add_incoming_route ?lo L_lo ip1 = (RET_SUCCESS, ?ip2)"
    using hm_lookup_None [OF fresh_map(2) [OF e(2), of hash_u32 ?lo]] f1 e(1) a by (simp add: ip_add_incoming_route_def)
  have w2: "aq_wf n (rt_table ?ip2) [c]" "subnet_len (r_subnet (aq_val (rt_table ?ip2) c)) \<le> subnet_len (st_ipSubnet st)"
    using 1 local_masks(2) mask(2) by simp_all
  obtain ip3 where 3: "ip_add_outgoing_route (st_ipAddr st) (st_ipSubnet st) L_arp ?ip2 = Some (RET_SUCCESS, ip3)"
    using add_route_one [OF w2(1) w(2) mask(1) w2(2)] by blast
  have "hm_lookup hash_u32 ?lo (rt_incoming ip3) = Some L_lo"
    using add_route_frame [OF 3] la by simp
  then have "ip_add_incoming_route (st_ipAddr st) L_eth ip3 = (RET_ERROR, ip3)"
    by (auto simp: addr hm_lookup_def ip_add_incoming_route_def)
  then have "stack_init lp st = Some (RET_ERROR, st\<lparr>st_ip := ip3\<rparr>)"
    using 1(1) 2 3 by (simp add: stack_init_def Let_def)
  then show ?thesis
    by blast
qed

text \<open>C23: Initialising a stack with empty tables succeeds for every subnet mask of at least 8 bits and
  every device address but 127.0.0.1, and leaves a stack in which packets to 127.0.0.0/8 are routed to
  the loopback layer, UDP is registered in both directions, and packets from the Ethernet layer to the
  device address are accepted.  With the device address 127.0.0.1 it fails, as the route in is taken by
  the loopback layer already.\<close>

theorem stack_init_loopback:
  assumes "stack_fresh n lp st" and "valid_subnet (st_ipSubnet st)" and "8 \<le> subnet_len (st_ipSubnet st)"
  shows "if st_ipAddr st = ipv4_address 127 0 0 1
    then (\<exists>ip. stack_init lp st = Some (RET_ERROR, st\<lparr>st_ip := ip\<rparr>))
    else (\<exists>ip c. stack_init lp st = Some (RET_SUCCESS, st\<lparr>st_ip := ip\<rparr>) \<and>
      (\<forall>dst. ip_route_match dst \<lparr>r_addr = ipv4_address 127 0 0 1, r_subnet = ipv4_address 255 0 0 0, r_next = L_lo\<rparr> \<longrightarrow>
         loop_ready lp dst (st\<lparr>st_ip := ip\<rparr>) c) \<and>
      r_addr (aq_val (rt_table ip) c) = ipv4_address 127 0 0 1 \<and>
      hm_lookup hash_u32 (st_ipAddr st) (rt_incoming ip) = Some L_eth)"
proof (cases "st_ipAddr st = ipv4_address 127 0 0 1")
  case True
  then show ?thesis
    using stack_init_own_address [OF assms True] by simp
next
  case False
  then show ?thesis
    using stack_init_ready [OF assms False] by simp
qed

definition ex_stack :: stack where
  "ex_stack =
     stack_new
       \<lparr>ur_ports = \<lparr>hm_buckets = 1, hm_bsize = 1, hm_entries = [(8000, Some (L_sock 0))], hm_used = [True]\<rparr>,
        ur_layers = \<lparr>hm_buckets = 1, hm_bsize = 1, hm_entries = [(Some (L_sock 1), 9000)], hm_used = [True]\<rparr>,
        ur_lower = L_ip\<rparr>
       \<lparr>rt_table = boot_aqueue \<lparr>r_addr = 0, r_subnet = 0, r_next = L_ip\<rparr> 25,
        rt_incoming = hm_init 25 25 (replicate 625 (0, L_ip)), rt_prot = hm_init 25 25 (replicate 625 (0, L_ip)),
        rt_protnum = hm_init 25 25 (replicate 625 (L_ip, 0)), rt_route = None, rt_out = 0, rt_in = 0,
        rt_drop_out = 0, rt_drop_in = 0\<rparr>
       (pool_boot ex_socket 2) 10 0 0 1 255 255 0 0"

lemma ex_stack_fresh: "stack_fresh 25 lp ex_stack"
proof -
  have "aq_wf 25 (boot_aqueue \<lparr>r_addr = 0, r_subnet = 0, r_next = L_ip\<rparr> 25) []"
    unfolding boot_aqueue_def by (rule aq_init_wf; simp)
  then show ?thesis
    by (auto simp: stack_fresh_def ex_stack_def stack_new_def)
qed

lemma ex_stack_mask:
  "valid_subnet (st_ipSubnet ex_stack)" "8 \<le> subnet_len (st_ipSubnet ex_stack)"
  "st_ipAddr ex_stack \<noteq> ipv4_address 127 0 0 1"
proof -
  have "ipv4_address 255 255 0 0 = NOT (mask 16)"
    by code_simp
  then have m: "st_ipSubnet ex_stack = NOT (mask 16)"
    by (simp add: ex_stack_def stack_new_def)
  show "valid_subnet (st_ipSubnet ex_stack)" "8 \<le> subnet_len (st_ipSubnet ex_stack)"
    using subnet_len_mask [of 16] unfolding m valid_subnet_iff by (auto intro: exI [of _ 16])
  have "ipv4_address 10 0 0 1 \<noteq> ipv4_address 127 0 0 1"
    by code_simp
  then show "st_ipAddr ex_stack \<noteq> ipv4_address 127 0 0 1"
    by (simp add: ex_stack_def stack_new_def)
qed

theorem stack_init_loopback_witness:
  "\<exists>st'. stack_init (\<lambda>_. 0) ex_stack = Some (RET_SUCCESS, st')"
  using stack_init_loopback [OF ex_stack_fresh ex_stack_mask(1,2), of "\<lambda>_. 0"] ex_stack_mask(3) by auto


section \<open>A send that waits\<close>

lemma call_waits_mac: "fst (mac_call place tid r l) = call_waits r" "snd (mac_call place tid r l) = set_label tid place l"
  by (auto simp: mac_call_def call_waits_def)

lemma sock_packet_for_code: "sock_packet_for mem buff = Some (r, p) \<Longrightarrow> \<not> call_waits r"
  by (auto simp: sock_packet_for_def pk_push_def call_waits_def Let_def split: option.splits if_splits prod.splits)

text \<open>
  A send from its start is the send without labels.  When it returns a code that does not wait, the task is
  at the start again; when a layer made it wait, the send can not be continued: the next activation of the
  task, whatever the state is by then, uses a packet that was never constructed.
\<close>
theorem waiting_send_lost:
  fixes sc :: "('f, 'b, 'w) sched"
  assumes "stack_send dev lp n i mem info buff dst st sc = Some (r, st', sc')"
    and "fst (mac_resume SnStart (sched_dispatched sc) l) = SnStart"
  shows "\<exists>l'. stack_send_labels dev lp n i mem info buff dst st sc l = Some (r, st', sc', l') \<and>
    (if call_waits r
     then \<forall>st2 (sc2 :: ('f, 'b, 'w) sched). sched_dispatched sc2 = sched_dispatched sc \<longrightarrow> stack_send_labels dev lp n i mem info buff dst st2 sc2 l' = None
     else fst (mac_resume SnStart (sched_dispatched sc) l') = SnStart)"
proof -
  let ?t = "sched_dispatched sc"
  obtain l1 where l1: "mac_resume SnStart ?t l = (SnStart, l1)" "lb_init l1"
    using assms(2) resume_init [of SnStart ?t l] by (metis prod.collapse snd_conv)
  have lbl: "mac_reset SnStart ?t k = set_label ?t SnStart k" for k
    by (simp add: mac_reset_def)
  have ok: "\<not> call_waits RET_SUCCESS"
    by (simp add: call_waits_def)
  have act: "stack_send_labels dev lp n i mem info buff dst st sc l =
      (case sock_packet_for mem buff of None \<Rightarrow> None
       | Some (r, p) \<Rightarrow>
           if r \<noteq> RET_SUCCESS then Some (r, st, sc, set_label ?t SnStart l1)
           else (case net_run dev lp n (Transmit L_udp) (L_sock i) p (sock_info_for dst info) st sc of None \<Rightarrow> None
             | Some (r1, p1, info1, st1, sc1) \<Rightarrow>
                 if call_waits r1 then Some (r1, st1, sc1, set_label ?t SnTransmit l1)
                 else if r1 \<noteq> RET_SUCCESS then Some (r1, st1, sc1, set_label ?t SnStart (set_label ?t SnTransmit l1))
                 else (case net_run dev lp n (Transmit2 L_udp) (L_sock i) (pk_seek_header p1) info1 st1 sc1 of None \<Rightarrow> None
                   | Some (r2, p2, info2, st2, sc2) \<Rightarrow>
                       if call_waits r2 then Some (r2, st2, sc2, set_label ?t SnTransmit2 (set_label ?t SnTransmit l1))
                       else Some (r2, st2, sc2, set_label ?t SnStart (set_label ?t SnTransmit2 (set_label ?t SnTransmit l1))))))"
    unfolding stack_send_labels_def using l1
    by (simp add: Let_def call_waits_mac lbl prod.case_eq_if split: option.splits)
  obtain r0 p0 where p0: "sock_packet_for mem buff = Some (r0, p0)"
    using assms(1) by (auto simp: stack_send_def split: option.splits)
  have "\<exists>p k. lb_init k \<and> (call_waits r \<longrightarrow> p \<noteq> SnStart) \<and> (\<not> call_waits r \<longrightarrow> p = SnStart) \<and>
      stack_send_labels dev lp n i mem info buff dst st sc l = Some (r, st', sc', set_label ?t p k)"
  proof (cases "r0 = RET_SUCCESS")
    case False
    then show ?thesis
      using assms(1) act l1(2) p0 sock_packet_for_code [OF p0] by (intro exI [where x = SnStart] exI [where x = l1]) (simp add: stack_send_def)
  next
    case True
    obtain r1 p1 i1 st1 sc1 where r1: "net_run dev lp n (Transmit L_udp) (L_sock i) p0 (sock_info_for dst info) st sc = Some (r1, p1, i1, st1, sc1)"
      using assms(1) True p0 by (auto simp: stack_send_def split: option.splits)
    note act = act [unfolded p0 option.case prod.case r1]
    show ?thesis
    proof (cases "r1 = RET_SUCCESS")
      case False
      then have "r = r1" "st' = st1" "sc' = sc1" using assms(1) True p0 r1 by (auto simp: stack_send_def)
      with act True False l1(2) show ?thesis
        by (intro exI [where x = "if call_waits r1 then SnTransmit else SnStart"]
            exI [where x = "if call_waits r1 then l1 else set_label ?t SnTransmit l1"]) simp
    next
      case ok1: True
      then obtain r2 p2 i2 where r2: "net_run dev lp n (Transmit2 L_udp) (L_sock i) (pk_seek_header p1) i1 st1 sc1 = Some (r2, p2, i2, st', sc')" "r2 = r"
        using assms(1) True p0 r1 by (auto simp: stack_send_def)
      with act True ok1 ok l1(2) show ?thesis
        by (intro exI [where x = "if call_waits r then SnTransmit2 else SnStart"]
            exI [where x = "if call_waits r then set_label ?t SnTransmit l1 else set_label ?t SnTransmit2 (set_label ?t SnTransmit l1)"]) simp
    qed
  qed
  then obtain p k where k: "lb_init k" "call_waits r \<longrightarrow> p \<noteq> SnStart" "\<not> call_waits r \<longrightarrow> p = SnStart"
      "stack_send_labels dev lp n i mem info buff dst st sc l = Some (r, st', sc', set_label ?t p k)"
    by blast
  have "stack_send_labels dev lp n i mem info buff dst st2 sc2 (set_label ?t p k) = None"
    if "call_waits r" "sched_dispatched sc2 = ?t" for st2 and sc2 :: "('f, 'b, 'w) sched"
    using that k(1,2) by (simp add: stack_send_labels_def resume_after_set)
  then show ?thesis
    using k resume_after_set [OF k(1), of SnStart ?t p] by auto
qed

text \<open>A stack whose UDP layer stands on a device that blocks.\<close>

theorem waiting_send_lost_witness:
  "\<exists>st st' l'. stack_send_labels (\<lambda>call p info. (RET_BLOCKED, p, info)) (\<lambda>_. 0) 6 1 (replicate 1518 0) (ex_info 0 0) [1, 2, 3]
       \<lparr>sa_ip = [127, 0, 0, 1], sa_port = 8000\<rparr> st (sched_boot (0 :: nat) () ()) \<lparr>lb_init = True, lb_current = (\<lambda>_. SnStart)\<rparr> =
       Some (RET_BLOCKED, st', sched_boot 0 () (), l') \<and>
     stack_send_labels (\<lambda>call p info. (RET_BLOCKED, p, info)) (\<lambda>_. 0) 6 1 (replicate 1518 0) (ex_info 0 0) [1, 2, 3]
       \<lparr>sa_ip = [127, 0, 0, 1], sa_port = 8000\<rparr> st' (sched_boot (0 :: nat) () ()) l' = None"
proof -
  let ?sc = "sched_boot (0 :: nat) () ()" and ?l = "\<lparr>lb_init = True, lb_current = (\<lambda>_. SnStart)\<rparr>"
    and ?dev = "\<lambda>(call :: layer outcome) (p :: packet) (info :: netinfo). (RET_BLOCKED, p, info)"
    and ?lp = "\<lambda>_ :: layer option. 0 :: size_t" and ?dst = "\<lparr>sa_ip = [127, 0, 0, 1], sa_port = 8000\<rparr>"
  let ?st = "ex_stack\<lparr>st_udp := (st_udp ex_stack)\<lparr>ur_lower := L_dev\<rparr>\<rparr>"
  obtain p where p: "sock_packet_for (replicate 1518 0) [1, 2, 3] = Some (RET_SUCCESS, p)" "pk_inv p" "pk_hpos p = 42"
    using sock_packet_ok [of "replicate 1518 0" "[1, 2, 3]"] by auto
  obtain off p1 where a: "pk_allocate_header UDP_HDR p = (Some off, p1)"
    using p(3) by (auto simp: pk_allocate_header_def UDP_HDR_def Let_def split: if_splits)
  have "hm_lookup ?lp (Some (L_sock 1)) (ur_layers (st_udp ?st)) = Some 9000"
    by (simp add: ex_stack_def stack_new_def one_entry_lookup)
  then obtain e where e: "hm_get ?lp (Some (L_sock 1)) (ur_layers (st_udp ?st)) = Some e"
    by (auto simp: hm_lookup_def)
  have six: "6 = Suc (Suc 4)"
    by simp
  obtain p2 where "net_call ?dev ?lp (Transmit L_udp) (L_sock 1) p (sock_info_for ?dst (ex_info 0 0)) ?st ?sc =
      Some (Transmit L_dev, p2, sock_info_for ?dst (ex_info 0 0), ?st, ?sc)"
    using a e by (simp add: net_call_def udp_transmit_def)
  moreover have "net_call ?dev ?lp (Transmit L_dev) L_udp p2 (sock_info_for ?dst (ex_info 0 0)) ?st ?sc =
      Some (Done RET_BLOCKED, p2, sock_info_for ?dst (ex_info 0 0), ?st, ?sc)"
    by (simp add: net_call_def)
  ultimately have "\<exists>p'. net_run ?dev ?lp 6 (Transmit L_udp) (L_sock 1) p (sock_info_for ?dst (ex_info 0 0)) ?st ?sc =
      Some (RET_BLOCKED, p', sock_info_for ?dst (ex_info 0 0), ?st, ?sc)"
    unfolding six by (simp only: net_run_Suc callee.simps outcome.case option.case prod.case) simp
  then have "stack_send ?dev ?lp 6 1 (replicate 1518 0) (ex_info 0 0) [1, 2, 3] ?dst ?st ?sc = Some (RET_BLOCKED, ?st, ?sc)"
    using p(1) by (auto simp: stack_send_def)
  from waiting_send_lost [OF this, of ?l] obtain l' where
      "stack_send_labels ?dev ?lp 6 1 (replicate 1518 0) (ex_info 0 0) [1, 2, 3] ?dst ?st ?sc ?l = Some (RET_BLOCKED, ?st, ?sc, l')"
      "stack_send_labels ?dev ?lp 6 1 (replicate 1518 0) (ex_info 0 0) [1, 2, 3] ?dst ?st ?sc l' = None"
    by (auto simp: mac_resume_def call_waits_def)
  then show ?thesis
    by blast
qed

end
