(* ===== verification/SlipModel.thy ===== *)
theory SlipModel
  imports PacketModel
begin

text \<open>
  The serial framings: SLIP (src/net/slip/slip.h) and KISS (src/net/kiss/kiss.h).  A write outside
  of a buffer is \<open>None\<close>.
\<close>

section \<open>SLIP\<close>

definition SLIP_END :: u8 where "SLIP_END = 0xC0"
definition SLIP_ESC :: u8 where "SLIP_ESC = 0xDB"
definition SLIP_ESC_END :: u8 where "SLIP_ESC_END = 0xDC"
definition SLIP_ESC_ESC :: u8 where "SLIP_ESC_ESC = 0xDD"

lemmas slip_codes = SLIP_END_def SLIP_ESC_def SLIP_ESC_END_def SLIP_ESC_ESC_def

definition arr_set :: "nat \<Rightarrow> 'a \<Rightarrow> 'a list \<Rightarrow> 'a list option" where
  "arr_set i x xs = (if i < length xs then Some (xs[i := x]) else None)"

definition arr_set2 :: "nat \<Rightarrow> 'a \<Rightarrow> 'a \<Rightarrow> 'a list \<Rightarrow> 'a list option" where
  "arr_set2 i x y xs = (case arr_set i x xs of None \<Rightarrow> None | Some ys \<Rightarrow> arr_set (i + 1) y ys)"

record slip_enc =
  se_data :: "u8 list"
  se_len :: size_t
  se_size :: size_t

definition slip_enc_init :: "u8 list \<Rightarrow> size_t \<Rightarrow> slip_enc" where
  "slip_enc_init buffer n = \<lparr>se_data = buffer, se_len = n, se_size = n\<rparr>"

text \<open>The copy loop: the data that is left, the index into the frame and the frame.\<close>

fun slip_enc_loop :: "size_t \<Rightarrow> u8 list \<Rightarrow> nat \<Rightarrow> u8 list \<Rightarrow> (u8 list \<times> nat \<times> u8 list) option" where
  "slip_enc_loop m [] i buf = Some ([], i, buf)"
| "slip_enc_loop m (x # xs) i buf =
     (if i < unat (m - 1) then
        (if x = SLIP_END then
           (case arr_set2 i SLIP_ESC SLIP_ESC_END buf of
              None \<Rightarrow> None | Some buf' \<Rightarrow> slip_enc_loop m xs (i + 2) buf')
         else if x = SLIP_ESC then
           (case arr_set2 i SLIP_ESC SLIP_ESC_ESC buf of
              None \<Rightarrow> None | Some buf' \<Rightarrow> slip_enc_loop m xs (i + 2) buf')
         else
           (case arr_set i x buf of None \<Rightarrow> None | Some buf' \<Rightarrow> slip_enc_loop m xs (i + 1) buf'))
      else Some (x # xs, i, buf))"

text \<open>The result is the frame, or \<open>None\<close> for the null pointer.\<close>

definition slip_encode :: "u8 list \<Rightarrow> slip_enc \<Rightarrow> (u8 list option \<times> slip_enc) option" where
  "slip_encode data e =
     (case arr_set 0 SLIP_END (se_data e) of
        None \<Rightarrow> None
      | Some b0 \<Rightarrow>
          (case slip_enc_loop (se_size e) data 1 b0 of
             None \<Rightarrow> None
           | Some (rest, i, b) \<Rightarrow>
               if rest \<noteq> [] then Some (None, e\<lparr>se_data := b\<rparr>)
               else if i > 1 \<and> i = unat (se_size e - 1) \<and> b ! (i - 1) = SLIP_ESC then Some (None, e\<lparr>se_data := b\<rparr>)
               else
                 (case arr_set i SLIP_END b of
                    None \<Rightarrow> None
                  | Some b' \<Rightarrow> Some (Some (take (i + 1) b'), e\<lparr>se_data := b', se_len := of_nat (i + 1)\<rparr>))))"

record slip_dec =
  sd_data :: "u8 list"
  sd_len :: size_t
  sd_size :: size_t
  sd_parsing :: bool
  sd_escape :: bool

definition slip_dec_init :: "u8 list \<Rightarrow> size_t \<Rightarrow> slip_dec" where
  "slip_dec_init buffer n =
     \<lparr>sd_data = buffer, sd_len = 0, sd_size = n, sd_parsing = False, sd_escape = False\<rparr>"

text \<open>
  One byte.  The switch also computes a local variable with the byte that an escape stands for, but
  the byte that is stored is the one received.
\<close>

definition slip_push :: "u8 \<Rightarrow> slip_dec \<Rightarrow> (u8 list option \<times> slip_dec) option" where
  "slip_push byte d =
     (if \<not> sd_parsing d \<and> byte = SLIP_END then
        Some (None, d\<lparr>sd_escape := False, sd_parsing := True, sd_len := 0\<rparr>)
      else if byte = SLIP_END then
        Some (Some (take (unat (sd_len d)) (sd_data d)), d\<lparr>sd_parsing := False\<rparr>)
      else if byte = SLIP_ESC then Some (None, d\<lparr>sd_escape := True\<rparr>)
      else
        (let d1 = d\<lparr>sd_escape := False\<rparr>
         in if sd_len d1 = sd_size d1 then Some (None, d1\<lparr>sd_parsing := False\<rparr>)
            else map_option (\<lambda>b. (None, d1\<lparr>sd_data := b, sd_len := sd_len d1 + 1\<rparr>))
                   (arr_set (unat (sd_len d1)) byte (sd_data d1))))"

text \<open>Feeding bytes: the payloads that are completed, in order.\<close>

fun slip_feed :: "u8 list \<Rightarrow> slip_dec \<Rightarrow> (u8 list list \<times> slip_dec) option" where
  "slip_feed [] d = Some ([], d)"
| "slip_feed (b # bs) d =
     (case slip_push b d of
        None \<Rightarrow> None
      | Some (r, d1) \<Rightarrow>
          map_option (\<lambda>(out, d2). (case r of None \<Rightarrow> out | Some x \<Rightarrow> x # out, d2)) (slip_feed bs d1))"

section \<open>Encoding\<close>

definition slip_esc :: "u8 \<Rightarrow> u8 list" where
  "slip_esc x = (if x = SLIP_END then [SLIP_ESC, SLIP_ESC_END]
                 else if x = SLIP_ESC then [SLIP_ESC, SLIP_ESC_ESC] else [x])"

definition slip_body :: "u8 list \<Rightarrow> u8 list" where
  "slip_body data = concat (map slip_esc data)"

lemma slip_body_simps [simp]: "slip_body [] = []" "slip_body (x # xs) = slip_esc x @ slip_body xs"
  by (simp_all add: slip_body_def)

lemma slip_esc_length: "length (slip_esc x) = (if x = SLIP_END \<or> x = SLIP_ESC then 2 else 1)"
  by (simp add: slip_esc_def)

lemma slip_body_length: "length data \<le> length (slip_body data)"
  by (induction data) (auto simp: slip_esc_length)

text \<open>When the loop takes all of the data, it has appended the escaped bytes.\<close>

lemma slip_enc_loop_done:
  "slip_enc_loop m data i buf = Some ([], k, buf') \<Longrightarrow> i \<le> length buf \<Longrightarrow>
   k = i + length (slip_body data) \<and> length buf' = length buf \<and> take k buf' = take i buf @ slip_body data \<and>
   k \<le> length buf"
proof (induction m data i buf rule: slip_enc_loop.induct)
  case (1 m i buf)
  then show ?case by simp
next
  case (2 m x xs i buf)
  then have lt: "i < unat (m - 1)"
    by (auto split: if_splits)
  consider (stop) "x = SLIP_END" | (esc) "x \<noteq> SLIP_END" "x = SLIP_ESC" | (plain) "x \<noteq> SLIP_END" "x \<noteq> SLIP_ESC"
    by blast
  then show ?case
  proof cases
    case stop
    then obtain b where b: "arr_set2 i SLIP_ESC SLIP_ESC_END buf = Some b" "slip_enc_loop m xs (i + 2) b = Some ([], k, buf')"
      using 2(4) lt by (auto split: option.splits)
    then have w: "i + 1 < length buf" "b = buf[i := SLIP_ESC, i + 1 := SLIP_ESC_END]"
      by (auto simp: arr_set2_def arr_set_def split: option.splits if_splits)
    have "take (i + 2) b = take i buf @ [SLIP_ESC, SLIP_ESC_END]"
      using w by (simp add: take_Suc_conv_app_nth)
    then show ?thesis
      using 2(1) [OF lt stop b(1) b(2)] w stop by (auto simp: slip_esc_def)
  next
    case esc
    then obtain b where b: "arr_set2 i SLIP_ESC SLIP_ESC_ESC buf = Some b" "slip_enc_loop m xs (i + 2) b = Some ([], k, buf')"
      using 2(4) lt by (auto split: option.splits)
    then have w: "i + 1 < length buf" "b = buf[i := SLIP_ESC, i + 1 := SLIP_ESC_ESC]"
      by (auto simp: arr_set2_def arr_set_def split: option.splits if_splits)
    have "take (i + 2) b = take i buf @ [SLIP_ESC, SLIP_ESC_ESC]"
      using w by (simp add: take_Suc_conv_app_nth)
    then show ?thesis
      using 2(2) [OF lt esc b(1) b(2)] w esc by (auto simp: slip_esc_def)
  next
    case plain
    then obtain b where b: "arr_set i x buf = Some b" "slip_enc_loop m xs (i + 1) b = Some ([], k, buf')"
      using 2(4) lt by (auto split: option.splits)
    then have w: "i < length buf" "b = buf[i := x]"
      by (auto simp: arr_set_def split: option.splits if_splits)
    have "take (i + 1) b = take i buf @ [x]"
      using w by (simp add: take_Suc_conv_app_nth)
    then show ?thesis
      using 2(3) [OF lt plain b(1) b(2)] w plain by (auto simp: slip_esc_def)
  qed
qed

text \<open>When the frame has room for the escaped data and both ends, the loop takes all of it.\<close>

lemma slip_enc_loop_room:
  "i + length (slip_body data) \<le> unat (m - 1) \<Longrightarrow> unat (m - 1) < length buf \<Longrightarrow>
   \<exists>buf'. slip_enc_loop m data i buf = Some ([], i + length (slip_body data), buf')"
proof (induction m data i buf rule: slip_enc_loop.induct)
  case (1 m i buf)
  then show ?case by simp
next
  case (2 m x xs i buf)
  have lt: "i < unat (m - 1)"
    using 2(4) by (auto simp: slip_esc_length split: if_splits)
  consider (stop) "x = SLIP_END" | (esc) "x \<noteq> SLIP_END" "x = SLIP_ESC" | (plain) "x \<noteq> SLIP_END" "x \<noteq> SLIP_ESC"
    by blast
  then show ?case
  proof cases
    case stop
    then have "arr_set2 i SLIP_ESC SLIP_ESC_END buf = Some (buf[i := SLIP_ESC, i + 1 := SLIP_ESC_END])"
      using 2(4,5) by (auto simp: arr_set2_def arr_set_def slip_esc_length)
    from 2(1) [OF lt stop this] show ?thesis
      using 2(4,5) lt stop \<open>arr_set2 _ _ _ _ = _\<close> by (auto simp: slip_esc_length)
  next
    case esc
    then have "arr_set2 i SLIP_ESC SLIP_ESC_ESC buf = Some (buf[i := SLIP_ESC, i + 1 := SLIP_ESC_ESC])"
      using 2(4,5) by (auto simp: arr_set2_def arr_set_def slip_esc_length)
    from 2(2) [OF lt esc this] show ?thesis
      using 2(4,5) lt esc \<open>arr_set2 _ _ _ _ = _\<close> by (auto simp: slip_esc_length)
  next
    case plain
    then have "arr_set i x buf = Some (buf[i := x])"
      using lt 2(5) by (auto simp: arr_set_def)
    from 2(3) [OF lt plain this] show ?thesis
      using 2(4,5) lt plain \<open>arr_set _ _ _ = _\<close> by (auto simp: slip_esc_length)
  qed
qed

lemma arr_set_append: "arr_set i x xs = Some ys \<Longrightarrow> take (i + 1) ys = take i xs @ [x] \<and> length ys = length xs"
  by (auto simp: arr_set_def take_Suc_conv_app_nth split: if_splits)

lemma slip_encode_frame:
  assumes "slip_encode data e = Some (Some frame, e')"
  shows "frame = SLIP_END # slip_body data @ [SLIP_END]"
proof -
  obtain b0 where b0: "arr_set 0 SLIP_END (se_data e) = Some b0"
    using assms by (auto simp: slip_encode_def split: option.splits)
  then obtain i b b' where b: "slip_enc_loop (se_size e) data 1 b0 = Some ([], i, b)" "arr_set i SLIP_END b = Some b'"
      "frame = take (i + 1) b'"
    using assms by (auto simp: slip_encode_def split: option.splits if_splits)
  have "1 \<le> length b0"
    using b0 by (auto simp: arr_set_def Suc_le_eq split: if_splits)
  from slip_enc_loop_done [OF b(1) this] arr_set_append [OF b(2)] arr_set_append [OF b0] b(3) show ?thesis
    by auto
qed

lemma slip_body_last:
  "data \<noteq> [] \<Longrightarrow> \<exists>ys y. slip_body data = ys @ [y] \<and> y \<noteq> SLIP_ESC"
proof (induction data)
  case Nil
  then show ?case by simp
next
  case (Cons x xs)
  show ?case
  proof (cases "xs = []")
    case True
    then show ?thesis
      by (auto simp: slip_esc_def slip_codes)
  next
    case False
    then obtain ys y where "slip_body xs = ys @ [y]" "y \<noteq> SLIP_ESC"
      using Cons.IH by blast
    then show ?thesis
      by (intro exI [of _ "slip_esc x @ ys"] exI [of _ y]) simp
  qed
qed

text \<open>An encoder whose frame is large enough encodes; the test for a frame that was filled up to the
  last byte never fires.\<close>

lemma slip_encode_room:
  assumes len: "length (se_data e) = unat (se_size e)" and room: "length (slip_body data) + 2 \<le> unat (se_size e)"
  shows "\<exists>frame e'. slip_encode data e = Some (Some frame, e')"
proof -
  have m: "unat (se_size e - 1) = unat (se_size e) - 1"
    using room by (intro unat_minus_one) auto
  have b0: "arr_set 0 SLIP_END (se_data e) = Some ((se_data e)[0 := SLIP_END])"
    using len room by (auto simp: arr_set_def)
  let ?b0 = "(se_data e)[0 := SLIP_END]" and ?k = "1 + length (slip_body data)"
  obtain b where b: "slip_enc_loop (se_size e) data 1 ?b0 = Some ([], ?k, b)"
  proof -
    have "1 + length (slip_body data) \<le> unat (se_size e - 1)" "unat (se_size e - 1) < length ?b0"
      using m len room by auto
    from slip_enc_loop_room [OF this] that show thesis
      by blast
  qed
  have d: "length b = unat (se_size e)" "take ?k b = take 1 ?b0 @ slip_body data"
    using slip_enc_loop_done [OF b] len room by auto
  have "\<not> (?k > 1 \<and> b ! (?k - 1) = SLIP_ESC)"
  proof
    assume a: "?k > 1 \<and> b ! (?k - 1) = SLIP_ESC"
    then have "data \<noteq> []"
      by auto
    then obtain ys y where y: "slip_body data = ys @ [y]" "y \<noteq> SLIP_ESC"
      using slip_body_last by blast
    have "b ! (?k - 1) = take ?k b ! (?k - 1)"
      using a by simp
    also have "\<dots> = y"
      using d y room len by (simp add: nth_append min_def)
    finally show False
      using a y by simp
  qed
  moreover have "arr_set ?k SLIP_END b = Some (b[?k := SLIP_END])"
    using d(1) room by (simp add: arr_set_def)
  ultimately show ?thesis
    using b0 b by (auto simp: slip_encode_def)
qed

lemma slip_encode_fits:
  assumes "length (slip_body data) + 2 \<le> unat (se_size e)" and "length (se_data e) = unat (se_size e)"
  shows "\<exists>frame e'. slip_encode data e = Some (Some frame, e') \<and> length frame = length (slip_body data) + 2"
proof -
  obtain frame e' where "slip_encode data e = Some (Some frame, e')"
    using slip_encode_room [OF assms(2,1)] by blast
  with slip_encode_frame [OF this] show ?thesis
    by simp
qed

section \<open>Decoding\<close>

definition sd_inv :: "slip_dec \<Rightarrow> bool" where
  "sd_inv d \<longleftrightarrow> length (sd_data d) = unat (sd_size d) \<and> sd_len d \<le> sd_size d"

definition sd_got :: "slip_dec \<Rightarrow> u8 list" where
  "sd_got d = take (unat (sd_len d)) (sd_data d)"

lemma slip_feed_append:
  "slip_feed xs d = Some (out, d1) \<Longrightarrow>
   slip_feed (xs @ ys) d = map_option (\<lambda>(o2, d2). (out @ o2, d2)) (slip_feed ys d1)"
proof (induction xs arbitrary: d out)
  case Nil
  then show ?case
    by (cases "slip_feed ys d1") auto
next
  case (Cons x xs)
  obtain r da where r: "slip_push x d = Some (r, da)"
    using Cons.prems by (auto split: option.splits)
  obtain o1 where o1: "slip_feed xs da = Some (o1, d1)" "out = (case r of None \<Rightarrow> o1 | Some x \<Rightarrow> x # o1)"
    using Cons.prems r by auto
  show ?case
    using Cons.IH [OF o1(1)] r o1(2) by (cases "slip_feed ys d1") (auto split: option.splits)
qed

text \<open>A byte that is stored.\<close>

lemma slip_push_plain:
  assumes "sd_inv d" and "sd_len d < sd_size d" and "x \<noteq> SLIP_END" and "x \<noteq> SLIP_ESC"
  shows "\<exists>d'. slip_push x d = Some (None, d') \<and> sd_inv d' \<and> sd_got d' = sd_got d @ [x] \<and>
    unat (sd_len d') = unat (sd_len d) + 1 \<and> sd_size d' = sd_size d \<and> sd_parsing d' = sd_parsing d"
proof -
  have b: "unat (sd_len d) < length (sd_data d)" "unat (sd_len d) < unat (sd_size d)"
    using assms(1,2) by (simp_all add: sd_inv_def word_less_nat_alt)
  have u: "unat (sd_len d + 1) = unat (sd_len d) + 1"
    using b(2) unsigned_less [of "sd_size d", where 'a = nat] by (simp add: unat_word_ariths)
  let ?d = "d\<lparr>sd_escape := False, sd_data := (sd_data d)[unat (sd_len d) := x], sd_len := sd_len d + 1\<rparr>"
  have "slip_push x d = Some (None, ?d)"
    using assms(2-4) b by (auto simp: slip_push_def Let_def arr_set_def)
  moreover have "sd_inv ?d"
    using assms(1) b u by (simp add: sd_inv_def word_le_nat_alt)
  moreover have "sd_got ?d = sd_got d @ [x]"
    using b u by (simp add: sd_got_def take_Suc_conv_app_nth)
  ultimately show ?thesis
    using u by (intro exI [of _ ?d]) simp
qed

text \<open>What the decoder stores for a byte of the payload: escapes are not undone.\<close>

definition slip_wire :: "u8 \<Rightarrow> u8" where
  "slip_wire x = (if x = SLIP_END then SLIP_ESC_END else if x = SLIP_ESC then SLIP_ESC_ESC else x)"

lemma slip_feed_esc:
  assumes "sd_inv d" and "sd_len d < sd_size d"
  shows "\<exists>d'. slip_feed (slip_esc x) d = Some ([], d') \<and> sd_inv d' \<and> sd_got d' = sd_got d @ [slip_wire x] \<and>
    unat (sd_len d') = unat (sd_len d) + 1 \<and> sd_size d' = sd_size d \<and> sd_parsing d' = sd_parsing d"
proof -
  have esc: "slip_push SLIP_ESC d = Some (None, d\<lparr>sd_escape := True\<rparr>)"
    by (simp add: slip_push_def slip_codes)
  have i: "sd_inv (d\<lparr>sd_escape := True\<rparr>)" "sd_len (d\<lparr>sd_escape := True\<rparr>) < sd_size (d\<lparr>sd_escape := True\<rparr>)"
      "sd_got (d\<lparr>sd_escape := True\<rparr>) = sd_got d"
    using assms by (simp_all add: sd_inv_def sd_got_def)
  have n: "SLIP_ESC_END \<noteq> SLIP_END" "SLIP_ESC_END \<noteq> SLIP_ESC" "SLIP_ESC_ESC \<noteq> SLIP_END" "SLIP_ESC_ESC \<noteq> SLIP_ESC"
    by (simp_all add: slip_codes)
  show ?thesis
    using slip_push_plain [OF assms, of x] slip_push_plain [OF i(1,2) n(1,2)] slip_push_plain [OF i(1,2) n(3,4)] esc i(3)
    by (auto simp: slip_esc_def slip_wire_def)
qed

lemma slip_feed_body:
  "sd_inv d \<Longrightarrow> unat (sd_len d) + length data \<le> unat (sd_size d) \<Longrightarrow>
   \<exists>d'. slip_feed (slip_body data) d = Some ([], d') \<and> sd_inv d' \<and> sd_got d' = sd_got d @ map slip_wire data \<and>
     sd_parsing d' = sd_parsing d"
proof (induction data arbitrary: d)
  case Nil
  then show ?case by simp
next
  case (Cons x xs)
  have "sd_len d < sd_size d"
    using Cons.prems(2) by (simp add: word_less_nat_alt)
  from slip_feed_esc [OF Cons.prems(1) this, of x] obtain d1 where d1: "slip_feed (slip_esc x) d = Some ([], d1)"
      "sd_inv d1" "sd_got d1 = sd_got d @ [slip_wire x]" "unat (sd_len d1) = unat (sd_len d) + 1"
      "sd_size d1 = sd_size d" "sd_parsing d1 = sd_parsing d"
    by blast
  from Cons.IH [OF d1(2)] d1(4,5) Cons.prems(2) obtain d2 where "slip_feed (slip_body xs) d1 = Some ([], d2)" "sd_inv d2"
      "sd_got d2 = sd_got d1 @ map slip_wire xs" "sd_parsing d2 = sd_parsing d1"
    by auto
  then show ?case
    using slip_feed_append [OF d1(1), of "slip_body xs"] d1(3,6) by simp
qed

text \<open>C15: What the decoder makes of an encoded frame: every frame the encoder returns makes a waiting
  decoder with enough room return exactly one payload, with its end byte, and it is the data that was
  encoded except that the two special bytes come out as the codes of their escapes.  Data without
  special bytes comes out as it went in; other data does not.\<close>

theorem slip_roundtrip:
  assumes "slip_encode data e = Some (Some frame, e')" and "sd_inv d" and "\<not> sd_parsing d"
    and "length data \<le> unat (sd_size d)"
  shows "\<exists>d'. slip_feed frame d = Some ([map slip_wire data], d') \<and> sd_inv d' \<and> \<not> sd_parsing d' \<and>
    (map slip_wire data = data \<longleftrightarrow> SLIP_END \<notin> set data \<and> SLIP_ESC \<notin> set data)"
proof -
  let ?d = "d\<lparr>sd_escape := False, sd_parsing := True, sd_len := 0\<rparr>"
  have f: "frame = SLIP_END # slip_body data @ [SLIP_END]"
    by (rule slip_encode_frame [OF assms(1)])
  have d: "slip_push SLIP_END d = Some (None, ?d)" "sd_inv ?d" "sd_got ?d = []" "sd_parsing ?d"
      "unat (sd_len ?d) + length data \<le> unat (sd_size ?d)"
    using assms(2-4) by (simp_all add: slip_push_def sd_inv_def sd_got_def)
  obtain d1 where d1: "slip_feed (slip_body data) ?d = Some ([], d1)" "sd_inv d1" "sd_got d1 = map slip_wire data"
      "sd_parsing d1"
    using slip_feed_body [OF d(2,5)] d(3,4) by auto
  have "slip_push SLIP_END d1 = Some (Some (map slip_wire data), d1\<lparr>sd_parsing := False\<rparr>)"
    using d1(3,4) by (simp add: slip_push_def sd_got_def)
  then have "slip_feed frame d = Some ([map slip_wire data], d1\<lparr>sd_parsing := False\<rparr>)"
    using slip_feed_append [OF d1(1), of "[SLIP_END]"] d(1) f by simp
  moreover have "map slip_wire data = data \<longleftrightarrow> SLIP_END \<notin> set data \<and> SLIP_ESC \<notin> set data"
    by (auto simp: map_idI slip_wire_def slip_codes map_eq_conv [of _ _ "\<lambda>x. x", simplified] split: if_splits)
  ultimately show ?thesis
    using d1(2) by (auto simp: sd_inv_def)
qed

theorem slip_roundtrip_witness:
  "\<exists>frame e' d'. slip_encode [1, 0xC0, 2] (slip_enc_init (replicate 8 0) 8) = Some (Some frame, e') \<and>
     slip_feed frame (slip_dec_init (replicate 4 0) 4) = Some ([[1, 0xDC, 2]], d')"
proof -
  let ?e = "slip_enc_init (replicate 8 0) 8" and ?d = "slip_dec_init (replicate 4 0) 4"
  have "length (se_data ?e) = unat (se_size ?e)" "length (slip_body [1, 0xC0, 2]) + 2 \<le> unat (se_size ?e)"
    by (simp_all add: slip_enc_init_def slip_esc_def slip_codes)
  from slip_encode_room [OF this] obtain frame e' where e: "slip_encode [1, 0xC0, 2] ?e = Some (Some frame, e')"
    by blast
  have "sd_inv ?d" "\<not> sd_parsing ?d" "length [1, 0xC0, 2 :: u8] \<le> unat (sd_size ?d)"
    by (simp_all add: slip_dec_init_def sd_inv_def)
  from slip_roundtrip [OF e this] have "\<exists>d'. slip_feed frame ?d = Some ([map slip_wire [1, 0xC0, 2]], d')"
    by blast
  moreover have "map slip_wire [1, 0xC0, 2] = [1, 0xDC, 2]"
    by (simp add: slip_wire_def slip_codes)
  ultimately show ?thesis
    using e by fastforce
qed

text \<open>The encoder stays inside its buffer when the escaped data and the two ends fit, and the frame
  then has exactly their length.  When the last byte of the data is escaped into the last two bytes of
  the buffer, the end byte is written behind the buffer: the test meant for that case looks for an
  escape byte that is never last.\<close>

theorem slip_encode_bounds:
  "(length (slip_body data) + 2 \<le> unat (se_size e) \<and> length (se_data e) = unat (se_size e) \<longrightarrow>
     (\<exists>frame e'. slip_encode data e = Some (Some frame, e') \<and> length frame = length (slip_body data) + 2)) \<and>
   slip_encode [0xC0] (slip_enc_init [0, 0, 0] 3) = None"
proof -
  have "slip_encode [0xC0] (slip_enc_init [0, 0, 0] 3) = None"
    by (simp add: slip_encode_def slip_enc_init_def arr_set_def arr_set2_def slip_codes)
  then show ?thesis
    using slip_encode_fits by blast
qed

theorem slip_encode_bounds_witness:
  "\<exists>frame e'. slip_encode [1, 0xDB] (slip_enc_init (replicate 8 0) 8) = Some (Some frame, e') \<and> length frame = 5"
proof -
  have "length (slip_body [1, 0xDB]) = 3"
    by (simp add: slip_esc_def slip_codes)
  moreover have "se_size (slip_enc_init (replicate 8 0) 8) = 8" "length (se_data (slip_enc_init (replicate 8 0) 8)) = 8"
    by (simp_all add: slip_enc_init_def)
  ultimately show ?thesis
    using slip_encode_bounds [of "[1, 0xDB]" "slip_enc_init (replicate 8 0) 8"] by simp
qed

end
