(* ===== verification/KissModel.thy ===== *)
theory KissModel
  imports PacketModel
begin

text \<open>
  KISS frames of src/net/kiss/kiss.h: a packet with a header of two bytes and an end byte.  The
  array of a frame has \<open>PACKET_SIZE\<close> bytes, while the packet takes it to be two bytes longer.
\<close>

section \<open>Frames\<close>

definition FRAME_END :: u8 where "FRAME_END = 0xC0"
definition FRAME_ESC :: u8 where "FRAME_ESC = 0xDB"
definition TRANS_FRAME_END :: u8 where "TRANS_FRAME_END = 0xDC"
definition TRANS_FRAME_ESC :: u8 where "TRANS_FRAME_ESC = 0xDD"

lemmas kiss_codes = FRAME_END_def FRAME_ESC_def TRANS_FRAME_END_def TRANS_FRAME_ESC_def

definition KISS_HDR :: size_t where
  "KISS_HDR = 2"

definition kiss_init :: "u8 list \<Rightarrow> packet option" where
  "kiss_init buff =
     (case pk_allocate_header KISS_HDR (pk_init buff (of_nat (length buff)) KISS_HDR) of
        (None, p) \<Rightarrow> None
      | (Some off, p) \<Rightarrow>
          map_option snd (pk_push [FRAME_END] (p\<lparr>pk_buff := (pk_buff p)[off := FRAME_END, off + 1 := 0]\<rparr>)))"

text \<open>The byte in front of the write position; a full packet has no write pointer.\<close>

definition kiss_erase_frame_end :: "packet \<Rightarrow> (ret_type \<times> packet) option" where
  "kiss_erase_frame_end p =
     (case pk_write_ptr 1 p of
        None \<Rightarrow> None
      | Some off \<Rightarrow> if pk_buff p ! (off - 1) = FRAME_END then pk_erase 1 p else Some (RET_SUCCESS, p))"

definition kiss_put :: "u8 \<Rightarrow> packet \<Rightarrow> (ret_type \<times> packet) option" where
  "kiss_put b p = map_option (\<lambda>(r, p'). (if r \<noteq> RET_SUCCESS then RET_ERROR else r, p')) (pk_push [b] p)"

definition kiss_put2 :: "u8 \<Rightarrow> u8 \<Rightarrow> packet \<Rightarrow> (ret_type \<times> packet) option" where
  "kiss_put2 a b p =
     (case kiss_put a p of
        None \<Rightarrow> None
      | Some (r, p1) \<Rightarrow> if r \<noteq> RET_SUCCESS then Some (RET_ERROR, p1) else kiss_put b p1)"

text \<open>The loop over the indexes; in front of the data there is nothing to read (\<open>None\<close>).\<close>

fun kiss_loop :: "u8 list \<Rightarrow> nat list \<Rightarrow> packet \<Rightarrow> (ret_type \<times> packet) option" where
  "kiss_loop buff [] p = Some (RET_SUCCESS, p)"
| "kiss_loop buff (i # is) p =
     (case (if buff ! i = FRAME_END then kiss_put2 FRAME_ESC (buff ! i) p
            else if buff ! i = TRANS_FRAME_END then kiss_put2 TRANS_FRAME_ESC (buff ! i) p
            else if buff ! i = TRANS_FRAME_ESC \<and> i = 0 then None
            else if buff ! i = TRANS_FRAME_ESC \<and> buff ! (i - 1) = TRANS_FRAME_ESC then Some (RET_ERROR, p)
            else kiss_put (buff ! i) p) of
        None \<Rightarrow> None
      | Some (r, p1) \<Rightarrow> if r \<noteq> RET_SUCCESS then Some (RET_ERROR, p1) else kiss_loop buff is p1)"

definition kiss_push_data :: "u8 list \<Rightarrow> packet \<Rightarrow> (ret_type \<times> packet) option" where
  "kiss_push_data buff p =
     (case kiss_erase_frame_end p of
        None \<Rightarrow> None
      | Some (r, p1) \<Rightarrow>
          if r \<noteq> RET_SUCCESS then Some (RET_ERROR, p1)
          else if of_nat (length buff) > pk_capacity p1 then Some (RET_ERROR, p1)
          else
            (case kiss_loop buff [0..<length buff] p1 of
               None \<Rightarrow> None
             | Some (r2, p2) \<Rightarrow> if r2 \<noteq> RET_SUCCESS then Some (RET_ERROR, p2) else pk_push [FRAME_END] p2))"

text \<open>The header is at the start of the array.\<close>

definition kiss_set_port :: "u8 \<Rightarrow> packet \<Rightarrow> packet" where
  "kiss_set_port port p = p\<lparr>pk_buff := (pk_buff p)[1 := (pk_buff p ! 1) OR push_bit 4 port]\<rparr>"

definition kiss_set_command :: "u8 \<Rightarrow> packet \<Rightarrow> packet" where
  "kiss_set_command command p = p\<lparr>pk_buff := (pk_buff p)[1 := (pk_buff p ! 1) OR command]\<rparr>"

definition kiss_set_port_and_command :: "u8 \<Rightarrow> u8 \<Rightarrow> packet \<Rightarrow> packet" where
  "kiss_set_port_and_command port command p = p\<lparr>pk_buff := (pk_buff p)[1 := push_bit 4 port OR command]\<rparr>"

section \<open>Contents\<close>

definition kiss_esc :: "u8 \<Rightarrow> u8 list" where
  "kiss_esc b = (if b = FRAME_END then [FRAME_ESC, FRAME_END]
                 else if b = TRANS_FRAME_END then [TRANS_FRAME_ESC, TRANS_FRAME_END] else [b])"

text \<open>\<open>kiss_ok n w p\<close>: the first bytes of a packet over an array of \<open>n\<close> bytes are \<open>w\<close>.\<close>

definition kiss_ok :: "nat \<Rightarrow> u8 list \<Rightarrow> packet \<Rightarrow> bool" where
  "kiss_ok n w p \<longleftrightarrow>
     length (pk_buff p) = n \<and> unat (pk_size p) = n + 2 \<and> pk_hsize p = 2 \<and> pk_hpos p = 0 \<and> n + 4 < 2 ^ 32 \<and>
     unat (pk_wpos p) = length w \<and> length w \<le> n \<and> take (length w) (pk_buff p) = w"

lemma kiss_ok_frame: "kiss_ok n w p \<Longrightarrow> pk_frame p = w"
  by (simp add: kiss_ok_def pk_frame_def)

lemma kiss_push_byte:
  assumes "kiss_ok n w p" and "length w < n"
  shows "\<exists>p'. pk_push [b] p = Some (RET_SUCCESS, p') \<and> kiss_ok n (w @ [b]) p'"
proof -
  have k: "length (pk_buff p) = n" "unat (pk_size p) = n + 2" "pk_hsize p = 2" "pk_hpos p = 0" "n + 4 < 2 ^ 32"
      "unat (pk_wpos p) = length w" "take (length w) (pk_buff p) = w"
    using assms(1) by (simp_all add: kiss_ok_def)
  have sum: "unat (1 + pk_wpos p) = 1 + length w" "unat (pk_wpos p + 1) = length w + 1"
    using word_add_noover [of 1 "pk_wpos p"] word_add_noover [of "pk_wpos p" 1] k assms(2) by simp_all
  let ?b = "take (length w) (pk_buff p) @ [b] @ drop (length w + 1) (pk_buff p)"
  let ?p = "p\<lparr>pk_buff := ?b, pk_wpos := pk_wpos p + 1\<rparr>"
  have "pk_push [b] p = Some (RET_SUCCESS, ?p)"
    using k sum assms(2) by (simp add: pk_push_def mem_write_def word_less_nat_alt Let_def)
  moreover have "kiss_ok n (w @ [b]) ?p"
    using k sum assms(2) by (simp add: kiss_ok_def)
  ultimately show ?thesis
    by blast
qed

lemma kiss_put_ok:
  assumes "kiss_ok n w p" and "length w < n"
  shows "\<exists>p'. kiss_put b p = Some (RET_SUCCESS, p') \<and> kiss_ok n (w @ [b]) p'"
  using kiss_push_byte [OF assms, of b] by (auto simp: kiss_put_def)

lemma kiss_put2_ok:
  assumes "kiss_ok n w p" and "length w + 1 < n"
  shows "\<exists>p'. kiss_put2 a b p = Some (RET_SUCCESS, p') \<and> kiss_ok n (w @ [a, b]) p'"
proof -
  obtain p1 where "kiss_put a p = Some (RET_SUCCESS, p1)" "kiss_ok n (w @ [a]) p1"
    using kiss_put_ok [OF assms(1)] assms(2) by fastforce
  then show ?thesis
    using kiss_put_ok [of n "w @ [a]" p1 b] assms(2) by (auto simp: kiss_put2_def)
qed

lemma kiss_loop_ok:
  "kiss_ok n w p \<Longrightarrow> length w + length (concat (map (\<lambda>i. kiss_esc (buff ! i)) is)) \<le> n \<Longrightarrow>
   \<forall>i\<in>set is. buff ! i \<noteq> TRANS_FRAME_ESC \<Longrightarrow>
   \<exists>p'. kiss_loop buff is p = Some (RET_SUCCESS, p') \<and> kiss_ok n (w @ concat (map (\<lambda>i. kiss_esc (buff ! i)) is)) p'"
proof (induction buff "is" p arbitrary: w rule: kiss_loop.induct)
  case (1 buff p)
  then show ?case by simp
next
  case (2 buff i "is" p)
  let ?step = "if buff ! i = FRAME_END then kiss_put2 FRAME_ESC (buff ! i) p
            else if buff ! i = TRANS_FRAME_END then kiss_put2 TRANS_FRAME_ESC (buff ! i) p
            else if buff ! i = TRANS_FRAME_ESC \<and> i = 0 then None
            else if buff ! i = TRANS_FRAME_ESC \<and> buff ! (i - 1) = TRANS_FRAME_ESC then Some (RET_ERROR, p)
            else kiss_put (buff ! i) p"
  have "\<exists>p1. ?step = Some (RET_SUCCESS, p1) \<and> kiss_ok n (w @ kiss_esc (buff ! i)) p1"
    using 2(2-4) kiss_put2_ok [OF 2(2)] kiss_put_ok [OF 2(2)]
    by (simp add: kiss_esc_def kiss_codes split: if_splits)
  then obtain p1 where p1: "?step = Some (RET_SUCCESS, p1)" "kiss_ok n (w @ kiss_esc (buff ! i)) p1"
    by blast
  have len: "length (w @ kiss_esc (buff ! i)) + length (concat (map (\<lambda>i. kiss_esc (buff ! i)) is)) \<le> n"
    using 2(3) by simp
  have no: "\<forall>i\<in>set is. buff ! i \<noteq> TRANS_FRAME_ESC"
    using 2(4) by simp
  obtain p2 where "kiss_loop buff is p1 = Some (RET_SUCCESS, p2)"
      "kiss_ok n (w @ kiss_esc (buff ! i) @ concat (map (\<lambda>i. kiss_esc (buff ! i)) is)) p2"
    using 2(1) [OF p1(1) refl _ p1(2) len no] by auto
  then show ?case
    using p1(1) by simp
qed

lemma kiss_init_ok:
  assumes "3 \<le> length buff" and "length buff + 4 < 2 ^ 32"
  shows "\<exists>p. kiss_init buff = Some p \<and> kiss_ok (length buff) [FRAME_END, 0, FRAME_END] p"
proof -
  let ?b = "buff[0 := FRAME_END, 1 := 0]"
  let ?p = "(pk_init buff (of_nat (length buff)) KISS_HDR)\<lparr>pk_hpos := 0, pk_buff := ?b\<rparr>"
  have tk: "take (Suc (Suc 0)) ?b = [FRAME_END, 0]"
  proof -
    obtain a b c where "buff = a # b # c"
      using assms(1) by (auto simp: numeral_3_eq_3 Suc_le_length_iff)
    then show ?thesis
      by simp
  qed
  have "kiss_ok (length buff) [FRAME_END, 0] ?p"
    using tk assms word_add_noover [of "of_nat (length buff)" 2]
    by (simp add: kiss_ok_def pk_init_def KISS_HDR_def)
  from kiss_push_byte [OF this, of FRAME_END] assms(1) obtain p' where
    "pk_push [FRAME_END] ?p = Some (RET_SUCCESS, p')" "kiss_ok (length buff) [FRAME_END, 0, FRAME_END] p'"
    by auto
  then show ?thesis
    by (simp add: kiss_init_def pk_allocate_header_def pk_init_def KISS_HDR_def Let_def)
qed

lemma kiss_erase_ok:
  assumes "kiss_ok n (w @ [FRAME_END]) p" and "2 \<le> length w"
  shows "\<exists>p'. kiss_erase_frame_end p = Some (RET_SUCCESS, p') \<and> kiss_ok n w p'"
proof -
  have k: "length (pk_buff p) = n" "unat (pk_size p) = n + 2" "pk_hsize p = 2" "pk_hpos p = 0" "n + 4 < 2 ^ 32"
      "unat (pk_wpos p) = length w + 1" "take (length w + 1) (pk_buff p) = w @ [FRAME_END]" "length w + 1 \<le> n"
    using assms(1) by (simp_all add: kiss_ok_def)
  have wp: "unat (pk_wpos p + 1) = length w + 2"
    using word_add_noover [of "pk_wpos p" 1] k by simp
  have wm: "unat (pk_wpos p - 1) = length w"
    using k(6) unat_minus_one [of "pk_wpos p"] by fastforce
  have last: "pk_buff p ! length w = FRAME_END"
    using k(7,8) by (metis Suc_eq_plus1 less_add_same_cancel1 nth_append_length nth_take zero_less_one)
  have tk: "take (length w) (pk_buff p) = w"
    using arg_cong [OF k(7), of "take (length w)"] by simp
  let ?b = "take (length w) (pk_buff p) @ [0] @ drop (length w + 1) (pk_buff p)"
  let ?p = "p\<lparr>pk_wpos := pk_wpos p - 1, pk_buff := ?b\<rparr>"
  have "kiss_erase_frame_end p = Some (RET_SUCCESS, ?p)"
    using k wp wm last assms(2)
    by (simp add: kiss_erase_frame_end_def pk_write_ptr_def pk_erase_def mem_write_def word_less_nat_alt Let_def)
  moreover have "kiss_ok n w ?p"
    using k wm tk by (simp add: kiss_ok_def)
  ultimately show ?thesis
    by blast
qed

text \<open>What is on the wire after data was added to a fresh KISS frame: the end byte, an empty command
  byte, the data with the two bytes FRAME_END and TRANS_FRAME_END each behind an escape byte, and the end
  byte, provided the array has room for all of it and the data has no TRANS_FRAME_ESC.  An escaped
  FRAME_END is sent as itself, so a receiver sees the end of a frame inside of the data.\<close>

theorem kiss_frame_contents:
  assumes "length (concat (map kiss_esc data)) + 3 \<le> length buff" and "length buff + 4 < 2 ^ 32"
    and "TRANS_FRAME_ESC \<notin> set data"
  shows "\<exists>p p'. kiss_init buff = Some p \<and> kiss_push_data data p = Some (RET_SUCCESS, p') \<and>
    pk_frame p' = [FRAME_END, 0] @ concat (map kiss_esc data) @ [FRAME_END] \<and>
    (FRAME_END \<in> set data \<longrightarrow> FRAME_END \<in> set (concat (map kiss_esc data)))"
proof -
  have b3: "3 \<le> length buff"
    using assms(1) by simp
  obtain p where p: "kiss_init buff = Some p" "kiss_ok (length buff) ([FRAME_END, 0] @ [FRAME_END]) p"
    using kiss_init_ok [OF b3 assms(2)] by auto
  obtain p1 where p1: "kiss_erase_frame_end p = Some (RET_SUCCESS, p1)" "kiss_ok (length buff) [FRAME_END, 0] p1"
    using kiss_erase_ok [OF p(2)] by auto
  have eq: "concat (map (\<lambda>i. kiss_esc (data ! i)) [0..<length data]) = concat (map kiss_esc data)"
    using map_nth [of data] by (metis (no_types, lifting) map_map comp_def map_eq_conv)
  have fit: "length data \<le> length (concat (map kiss_esc data))"
    by (induction data) (auto simp: kiss_esc_def)
  have cap: "\<not> of_nat (length data) > pk_capacity p1"
  proof -
    have "unat (pk_capacity p1) = length buff"
      using p1(2) by (simp add: pk_capacity_def kiss_ok_def unat_sub word_le_nat_alt)
    moreover have "length data < 2 ^ 32" "length data \<le> length buff"
      using fit assms(1,2) by simp_all
    ultimately show ?thesis
      by (simp add: word_less_nat_alt)
  qed
  have len: "length [FRAME_END, 0] + length (concat (map (\<lambda>i. kiss_esc (data ! i)) [0..<length data])) \<le> length buff"
    unfolding eq using assms(1) by simp
  have no: "\<forall>i\<in>set [0..<length data]. data ! i \<noteq> TRANS_FRAME_ESC"
    using assms(3) by (auto simp: in_set_conv_nth)
  obtain p2 where p2: "kiss_loop data [0..<length data] p1 = Some (RET_SUCCESS, p2)"
      "kiss_ok (length buff) ([FRAME_END, 0] @ concat (map kiss_esc data)) p2"
    using kiss_loop_ok [OF p1(2) len no] unfolding eq by blast
  obtain p3 where p3: "pk_push [FRAME_END] p2 = Some (RET_SUCCESS, p3)"
      "kiss_ok (length buff) (([FRAME_END, 0] @ concat (map kiss_esc data)) @ [FRAME_END]) p3"
    using kiss_push_byte [OF p2(2), of FRAME_END] assms(1) by auto
  have "kiss_push_data data p = Some (RET_SUCCESS, p3)"
    using p1(1) cap p2(1) p3(1) by (simp add: kiss_push_data_def)
  then show ?thesis
    using p(1) kiss_ok_frame [OF p3(2)] by (fastforce simp: kiss_esc_def)
qed

theorem kiss_frame_contents_witness:
  "\<exists>p p'. kiss_init (replicate 8 0) = Some p \<and> kiss_push_data [1, 0xC0] p = Some (RET_SUCCESS, p') \<and>
     pk_frame p' = [0xC0, 0, 1, 0xDB, 0xC0, 0xC0]"
proof -
  have "concat (map kiss_esc [1, 0xC0]) = [1, 0xDB, 0xC0]"
    by (simp add: kiss_esc_def kiss_codes)
  then show ?thesis
    using kiss_frame_contents [of "[1, 0xC0]" "replicate 8 0"] by (simp add: kiss_codes)
qed

text \<open>The array of a KISS frame is two bytes shorter than the packet assumes, because the header is
  counted twice: a frame of four bytes reports room for four bytes of data, but already the end byte
  behind two bytes of data is written outside of the array.\<close>

theorem kiss_frame_overflow:
  "map_option pk_capacity (kiss_init [0, 0, 0, 0]) = Some 4 \<and>
   (case kiss_init [0, 0, 0, 0] of None \<Rightarrow> False | Some p \<Rightarrow> kiss_push_data [1, 2] p = None)"
  by code_simp

end
