(* ===== verification/RingDevModel.thy ===== *)
theory RingDevModel
  imports SlipModel IPv4Model SyncModel
begin

text \<open>
  The network device of src/net/slip/SLIPRingDevice.h: frames with a time to live travel a ring of
  serial lines.  The serial device is external code: \<open>ser_read\<close> and \<open>ser_write\<close> act on its state
  \<open>'s\<close>.  A null pointer that is followed is \<open>None\<close>.
\<close>

section \<open>State and operations\<close>

record 'l ring_dev =
  rg_size :: size_t
  rg_net :: 'l
  rg_packet :: packet
  rg_enc :: slip_enc
  rg_dec :: slip_dec

definition RING_HDR :: nat where
  "RING_HDR = 4"

text \<open>The end of \<open>poll\<close>: what is behind the header of the frame goes up.\<close>

definition ring_pass_up :: "u8 list \<Rightarrow> 'l ring_dev \<Rightarrow> ('l outcome \<times> 'l ring_dev) option" where
  "ring_pass_up frame d =
     (case pk_push (drop RING_HDR frame) (pk_clear (rg_packet d)) of
        None \<Rightarrow> None
      | Some (ret, p) \<Rightarrow>
          (let d1 = d\<lparr>rg_packet := p\<rparr>
           in Some (if ret \<noteq> RET_SUCCESS then (Done RET_ERROR, d1) else (Receive (rg_net d1), d1))))"

text \<open>
  \<open>poll\<close> from the place where the decoder has returned a frame.  With the outcome comes the label that
  is left: there is no \<open>RESET\<close>, so it is the one of the last call.
\<close>

datatype ring_place = RpStart | RpRead | RpWrite | RpReceive

fun ring_left :: "ring_place \<Rightarrow> 'l outcome \<Rightarrow> ring_place" where
  "ring_left place (Receive l) = RpReceive"
| "ring_left place _ = place"

definition ring_frame ::
  "(u8 list \<Rightarrow> 's \<Rightarrow> ret_type \<times> 's) \<Rightarrow> u8 list \<Rightarrow> 'l ring_dev \<Rightarrow> 's \<Rightarrow>
   ('l outcome \<times> ring_place \<times> 'l ring_dev \<times> 's) option" where
  "ring_frame ser_write buff d s =
     (if length buff \<le> RING_HDR then Some (Done RET_SUCCESS, RpRead, d, s)
      else
        (let ttl = le32 buff 0 - 1;
             frame = store32 ttl 0 buff;
             d1 = d\<lparr>rg_dec := (rg_dec d)\<lparr>sd_data := store32 ttl 0 (sd_data (rg_dec d))\<rparr>\<rparr>
         in if ttl > 0 then
              (case slip_encode frame (rg_enc d1) of
                 None \<Rightarrow> None
               | Some (None, enc) \<Rightarrow> None
               | Some (Some out, enc) \<Rightarrow>
                   (case ser_write out s of
                      (ret, s1) \<Rightarrow>
                        if call_waits ret then Some (Done ret, RpWrite, d1\<lparr>rg_enc := enc\<rparr>, s1)
                        else map_option (\<lambda>(r, d2). (r, ring_left RpWrite r, d2, s1))
                               (ring_pass_up out (d1\<lparr>rg_enc := enc\<rparr>))))
            else map_option (\<lambda>(r, d2). (r, ring_left RpRead r, d2, s)) (ring_pass_up frame d1)))"

definition ring_poll ::
  "('s \<Rightarrow> ret_type \<times> u8 \<times> 's) \<Rightarrow> (u8 list \<Rightarrow> 's \<Rightarrow> ret_type \<times> 's) \<Rightarrow> 'l ring_dev \<Rightarrow> 's \<Rightarrow>
   ('l outcome \<times> ring_place \<times> 'l ring_dev \<times> 's) option" where
  "ring_poll ser_read ser_write d s =
     (case ser_read s of
        (ret, dat, s1) \<Rightarrow>
          if call_waits ret then Some (Done ret, RpRead, d, s1)
          else if ret \<noteq> RET_SUCCESS then Some (Done RET_ERROR, RpRead, d, s1)
          else
            (case slip_push dat (rg_dec d) of
               None \<Rightarrow> None
             | Some (None, dec) \<Rightarrow> Some (Done RET_SUCCESS, RpRead, d\<lparr>rg_dec := dec\<rparr>, s1)
             | Some (Some buff, dec) \<Rightarrow> ring_frame ser_write buff (d\<lparr>rg_dec := dec\<rparr>) s1))"

text \<open>
  An activation of \<open>poll\<close> by the task \<open>tid\<close>: at the start and at the read it is the above; at the
  write it uses a pointer that was never set; at the last call the packet of the device goes up again.
\<close>

definition ring_poll_task ::
  "('s \<Rightarrow> ret_type \<times> u8 \<times> 's) \<Rightarrow> (u8 list \<Rightarrow> 's \<Rightarrow> ret_type \<times> 's) \<Rightarrow> int \<Rightarrow> ring_place labels \<Rightarrow> 'l ring_dev \<Rightarrow> 's \<Rightarrow>
   ('l outcome \<times> ring_place labels \<times> 'l ring_dev \<times> 's) option" where
  "ring_poll_task ser_read ser_write tid l d s =
     (let (place, l1) = mac_resume RpStart tid l
      in case place of
           RpWrite \<Rightarrow> None
         | RpReceive \<Rightarrow> Some (Receive (rg_net d), set_label tid RpReceive l1, d, s)
         | _ \<Rightarrow> map_option (\<lambda>(r, place', d', s'). (r, set_label tid place' l1, d', s'))
                  (ring_poll ser_read ser_write d s))"

text \<open>The first pass allocates its header in the device's own packet, not in the one it is given.\<close>

definition ring_transmit :: "packet \<Rightarrow> 'l ring_dev \<Rightarrow> ret_type \<times> packet \<times> 'l ring_dev" where
  "ring_transmit p d =
     (case pk_allocate_header (of_nat RING_HDR) (rg_packet d) of
        (None, q) \<Rightarrow> (RET_ERROR, p, d\<lparr>rg_packet := q\<rparr>)
      | (Some off, q) \<Rightarrow>
          (RET_SUCCESS, p, d\<lparr>rg_packet := q\<lparr>pk_buff := store32 (rg_size d - 1) off (pk_buff q)\<rparr>\<rparr>))"

text \<open>The second pass; the flag says that the write was called.\<close>

definition ring_transmit2 ::
  "(u8 list \<Rightarrow> 's \<Rightarrow> ret_type \<times> 's) \<Rightarrow> packet \<Rightarrow> 'l ring_dev \<Rightarrow> 's \<Rightarrow>
   (ret_type \<times> bool \<times> packet \<times> 'l ring_dev \<times> 's) option" where
  "ring_transmit2 ser_write p d s =
     (let p1 = pk_seek_read True p
      in case pk_read_ptr 1 p1 of
           None \<Rightarrow> Some (RET_ERROR, False, p1, d, s)
         | Some off \<Rightarrow>
             (case slip_encode (take (unat (pk_available p1)) (drop off (pk_buff p1))) (rg_enc d) of
                None \<Rightarrow> None
              | Some (None, enc) \<Rightarrow> Some (RET_ERROR, False, p1, d\<lparr>rg_enc := enc\<rparr>, s)
              | Some (Some out, enc) \<Rightarrow>
                  (case ser_write out s of (ret, s1) \<Rightarrow> Some (ret, True, p1, d\<lparr>rg_enc := enc\<rparr>, s1))))"

text \<open>The same as an activation: continued at the write, it uses a pointer that was never set.\<close>

datatype ring_tx_place = RtStart | RtWrite

definition ring_transmit2_task ::
  "(u8 list \<Rightarrow> 's \<Rightarrow> ret_type \<times> 's) \<Rightarrow> int \<Rightarrow> ring_tx_place labels \<Rightarrow> packet \<Rightarrow> 'l ring_dev \<Rightarrow> 's \<Rightarrow>
   (ret_type \<times> ring_tx_place labels \<times> packet \<times> 'l ring_dev \<times> 's) option" where
  "ring_transmit2_task ser_write tid l p d s =
     (let (place, l1) = mac_resume RtStart tid l
      in case place of
           RtWrite \<Rightarrow> None
         | RtStart \<Rightarrow>
             map_option (\<lambda>(r, sent, p', d', s'). (r, if sent then set_label tid RtWrite l1 else l1, p', d', s'))
               (ring_transmit2 ser_write p d s))"

definition ring_receive :: "packet \<Rightarrow> 'l ring_dev \<Rightarrow> 'l outcome \<times> packet \<times> 'l ring_dev" where
  "ring_receive p d = (Done RET_ERROR, p, d)"

text \<open>The preallocated device: both SLIP buffers have \<open>(SIZE + 1) * 2\<close> bytes, the packet has no room for headers.\<close>

definition ring_alloc :: "nat \<Rightarrow> size_t \<Rightarrow> 'l \<Rightarrow> u8 list \<Rightarrow> u8 list \<Rightarrow> u8 list \<Rightarrow> 'l ring_dev" where
  "ring_alloc SIZE n net ebuf dbuf pbuf =
     \<lparr>rg_size = n, rg_net = net, rg_packet = pk_init pbuf (of_nat SIZE) 0,
      rg_enc = slip_enc_init ebuf (of_nat ((SIZE + 1) * 2)), rg_dec = slip_dec_init dbuf (of_nat ((SIZE + 1) * 2))\<rparr>"

section \<open>What the device does with a frame\<close>

lemma pk_clear_ok:
  "pk_inv p \<Longrightarrow> pk_inv (pk_clear p)"
  "pk_unread (pk_clear p) = []" "pk_size (pk_clear p) = pk_size p" "pk_wpos (pk_clear p) = pk_hsize p"
  "pk_hsize (pk_clear p) = pk_hsize p"
  by (simp_all add: pk_clear_def pk_unread_def pk_inv_def)

lemma ring_pass_up_ok:
  assumes "pk_inv (rg_packet d)" and "length frame + unat (pk_size (rg_packet d)) < 2 ^ 32"
    and "length frame - RING_HDR + unat (pk_hsize (rg_packet d)) \<le> unat (pk_size (rg_packet d))"
  shows "\<exists>p. ring_pass_up frame d = Some (Receive (rg_net d), d\<lparr>rg_packet := p\<rparr>) \<and> pk_inv p \<and>
    pk_unread p = drop RING_HDR frame"
proof -
  let ?c = "pk_clear (rg_packet d)"
  have small: "length (drop RING_HDR frame) + unat (pk_size ?c) < 2 ^ 32"
    using assms(2) by (simp add: pk_clear_ok RING_HDR_def)
  have fits: "\<not> length (drop RING_HDR frame) + unat (pk_wpos ?c) > unat (pk_size ?c)"
    using assms(3) by (simp add: pk_clear_ok)
  obtain p where "pk_push (drop RING_HDR frame) ?c = Some (RET_SUCCESS, p)" "pk_inv p"
      "pk_unread p = pk_unread ?c @ drop RING_HDR frame"
    using pk_push_ok [OF pk_clear_ok(1) [OF assms(1)] small] fits by auto
  then show ?thesis
    by (auto simp: ring_pass_up_def pk_clear_ok)
qed

lemma store32_0: "drop 4 (store32 w 0 bs) = drop 4 bs"
  by (simp add: store32_def drop_update_cancel)

lemma ring_poll_end:
  assumes "ser_read s = (RET_SUCCESS, SLIP_END, s1)" and "sd_parsing (rg_dec d)"
  shows "ring_poll ser_read ser_write d s =
    ring_frame ser_write (sd_got (rg_dec d)) (d\<lparr>rg_dec := (rg_dec d)\<lparr>sd_parsing := False\<rparr>\<rparr>) s1"
  using assms by (simp add: ring_poll_def call_waits_def slip_push_def sd_got_def)

lemma ring_frame_last:
  assumes "RING_HDR < length frame" and "le32 frame 0 = 1" and "pk_inv (rg_packet d)"
    and "length frame + unat (pk_size (rg_packet d)) < 2 ^ 32"
    and "length frame - RING_HDR + unat (pk_hsize (rg_packet d)) \<le> unat (pk_size (rg_packet d))"
  shows "\<exists>d'. ring_frame ser_write frame d s = Some (Receive (rg_net d), RpReceive, d', s) \<and> pk_inv (rg_packet d') \<and>
    pk_unread (rg_packet d') = drop RING_HDR frame \<and> rg_net d' = rg_net d"
proof -
  let ?d = "d\<lparr>rg_dec := (rg_dec d)\<lparr>sd_data := store32 0 0 (sd_data (rg_dec d))\<rparr>\<rparr>"
  obtain p where "ring_pass_up (store32 0 0 frame) ?d = Some (Receive (rg_net d), ?d\<lparr>rg_packet := p\<rparr>)" "pk_inv p"
      "pk_unread p = drop RING_HDR (store32 0 0 frame)"
    using ring_pass_up_ok [of ?d "store32 0 0 frame"] assms(3-5) by auto
  then show ?thesis
    using assms(1,2) by (simp add: ring_frame_def RING_HDR_def store32_0)
qed

lemma ring_frame_again:
  assumes len: "RING_HDR < length frame" and ttl: "le32 frame 0 \<noteq> 1" and inv: "pk_inv (rg_packet d)"
    and room: "length (se_data (rg_enc d)) = unat (se_size (rg_enc d))"
      "length (slip_body (store32 (le32 frame 0 - 1) 0 frame)) + 2 \<le> unat (se_size (rg_enc d))"
    and fits: "length out + unat (pk_size (rg_packet d)) < 2 ^ 32"
      "length out - RING_HDR + unat (pk_hsize (rg_packet d)) \<le> unat (pk_size (rg_packet d))"
    and w: "\<not> call_waits (fst (ser_write out s))"
    and out: "out = SLIP_END # slip_body (store32 (le32 frame 0 - 1) 0 frame) @ [SLIP_END]"
  shows "\<exists>d'. ring_frame ser_write frame d s = Some (Receive (rg_net d), RpReceive, d', snd (ser_write out s)) \<and>
    pk_unread (rg_packet d') = drop RING_HDR out \<and> rg_net d' = rg_net d"
proof -
  let ?t = "le32 frame 0 - 1"
  let ?d = "d\<lparr>rg_dec := (rg_dec d)\<lparr>sd_data := store32 ?t 0 (sd_data (rg_dec d))\<rparr>\<rparr>"
  obtain enc where e: "slip_encode (store32 ?t 0 frame) (rg_enc ?d) = Some (Some out, enc)"
    using slip_encode_room [OF room] slip_encode_frame out by (metis ring_dev.select_convs(4) ring_dev.surjective ring_dev.update_convs(5))
  obtain p where p: "ring_pass_up out (?d\<lparr>rg_enc := enc\<rparr>) = Some (Receive (rg_net d), ?d\<lparr>rg_enc := enc, rg_packet := p\<rparr>)"
      "pk_unread p = drop RING_HDR out"
    using ring_pass_up_ok [of "?d\<lparr>rg_enc := enc\<rparr>" out] inv fits by auto
  have "?t > 0"
    using ttl by (simp add: word_gt_0)
  then show ?thesis
    using len e p w by (auto simp: ring_frame_def Let_def split: prod.split)
qed

text \<open>The last device of a ring passes a frame up: when the end byte of a frame with time to live 1
  arrives, nothing is sent on, and the layer above gets a packet with exactly the bytes behind the
  header.  A device before the last sends the frame on, encoded with a time to live that is one lower,
  but then passes up what it has sent, without its first four bytes, in place of what it received.
  Either way the task polls no more: \<open>poll\<close> does not reset its label, and every later activation by the
  same task passes the packet up again without reading from the line.\<close>

theorem ring_frame_hops:
  assumes "ser_read s = (RET_SUCCESS, SLIP_END, s1)" and "sd_parsing (rg_dec d)" and "frame = sd_got (rg_dec d)"
    and "RING_HDR < length frame" and "pk_inv (rg_packet d)"
    and "length (se_data (rg_enc d)) = unat (se_size (rg_enc d))"
    and "length (slip_body (store32 (le32 frame 0 - 1) 0 frame)) + 2 \<le> unat (se_size (rg_enc d))"
    and "length out + unat (pk_size (rg_packet d)) < 2 ^ 32"
    and "length out - RING_HDR + unat (pk_hsize (rg_packet d)) \<le> unat (pk_size (rg_packet d))"
    and "\<not> call_waits (fst (ser_write out s1))"
    and "out = SLIP_END # slip_body (store32 (le32 frame 0 - 1) 0 frame) @ [SLIP_END]"
    and "fst (mac_resume RpStart tid l) \<in> {RpStart, RpRead}"
  shows "\<exists>d' l'. ring_poll_task ser_read ser_write tid l d s =
      Some (Receive (rg_net d), l', d', if le32 frame 0 = 1 then s1 else snd (ser_write out s1)) \<and>
    pk_unread (rg_packet d') = drop RING_HDR (if le32 frame 0 = 1 then frame else out) \<and>
    (\<forall>s2. ring_poll_task ser_read ser_write tid l' d' s2 = Some (Receive (rg_net d), l', d', s2))"
proof -
  let ?d = "d\<lparr>rg_dec := (rg_dec d)\<lparr>sd_parsing := False\<rparr>\<rparr>"
  have "length frame \<le> length out"
    using slip_body_length [of "store32 (le32 frame 0 - 1) 0 frame"] assms(11) by simp
  then have "length frame + unat (pk_size (rg_packet ?d)) < 2 ^ 32"
      "length frame - RING_HDR + unat (pk_hsize (rg_packet ?d)) \<le> unat (pk_size (rg_packet ?d))"
    using assms(8,9) by simp_all
  then obtain d' where d': "ring_poll ser_read ser_write d s =
      Some (Receive (rg_net d), RpReceive, d', if le32 frame 0 = 1 then s1 else snd (ser_write out s1))"
      "pk_unread (rg_packet d') = drop RING_HDR (if le32 frame 0 = 1 then frame else out)" "rg_net d' = rg_net d"
    using ring_frame_last [where ser_write = ser_write and s = s1 and d = ?d, OF assms(4)]
      ring_frame_again [where ser_write = ser_write and s = s1 and d = ?d and out = out, OF assms(4)] assms(5-11)
      ring_poll_end [where ser_read = ser_read and s = s and ser_write = ser_write, OF assms(1,2)] assms(3)
    by (cases "le32 frame 0 = 1") auto
  let ?l = "set_label tid RpReceive (snd (mac_resume RpStart tid l))"
  have "ring_poll_task ser_read ser_write tid l d s =
      Some (Receive (rg_net d), ?l, d', if le32 frame 0 = 1 then s1 else snd (ser_write out s1))"
    using d'(1) assms(12) by (auto simp: ring_poll_task_def split_beta)
  moreover have "ring_poll_task ser_read ser_write tid ?l d' s2 = Some (Receive (rg_net d), ?l, d', s2)" for s2
  proof -
    have "set_label tid RpReceive ?l = ?l"
      by (simp add: set_label_def)
    then show ?thesis
      by (simp only: ring_poll_task_def resume_after_set [OF resume_init] Let_def prod.case ring_place.case d'(3))
  qed
  ultimately show ?thesis
    using d'(2) by (intro exI [of _ d'] exI [of _ ?l]) simp
qed

text \<open>A ring of three devices: the middle one gets a frame with time to live 2 and payload 7, 8.\<close>

definition ex_ring :: "nat ring_dev" where
  "ex_ring = (ring_alloc 8 3 5 (replicate 18 0) [2, 0, 0, 0, 7, 8, 0, 0] (replicate 8 0))
     \<lparr>rg_dec := \<lparr>sd_data = [2, 0, 0, 0, 7, 8, 0, 0], sd_len = 6, sd_size = 8, sd_parsing = True, sd_escape = False\<rparr>\<rparr>"

theorem ring_frame_hops_witness:
  "\<exists>d' l'. ring_poll_task (\<lambda>s. (RET_SUCCESS, SLIP_END, s)) (\<lambda>out s. (RET_SUCCESS, s @ out)) 0
      \<lparr>lb_init = False, lb_current = (\<lambda>i. RpStart)\<rparr> ex_ring [] =
      Some (Receive 5, l', d', [0xC0, 1, 0, 0, 0, 7, 8, 0xC0]) \<and>
    pk_unread (rg_packet d') = [0, 7, 8, 0xC0]"
proof -
  let ?f = "[2, 0, 0, 0, 7, 8] :: u8 list" and ?o = "[0xC0, 1, 0, 0, 0, 7, 8, 0xC0] :: u8 list"
  let ?l = "\<lparr>lb_init = False, lb_current = (\<lambda>i. RpStart)\<rparr>"
  let ?rd = "\<lambda>s. (RET_SUCCESS, SLIP_END, s)" and ?wr = "\<lambda>out s. (RET_SUCCESS, s @ out)"
  have b: "le32 ?f 0 = 2" "store32 (le32 ?f 0 - 1) 0 ?f = [1, 0, 0, 0, 7, 8]"
    by code_simp+
  have body: "slip_body [1, 0, 0, 0, 7, 8] = [1, 0, 0, 0, 7, 8]"
    by (simp add: slip_esc_def slip_codes)
  have "\<exists>d' l'. ring_poll_task ?rd ?wr 0 ?l ex_ring [] =
      Some (Receive (rg_net ex_ring), l', d', if le32 ?f 0 = 1 then [] else snd (RET_SUCCESS, [] @ ?o)) \<and>
    pk_unread (rg_packet d') = drop RING_HDR (if le32 ?f 0 = 1 then ?f else ?o) \<and>
    (\<forall>s2. ring_poll_task ?rd ?wr 0 l' d' s2 = Some (Receive (rg_net ex_ring), l', d', s2))"
    by (rule ring_frame_hops)
      (use b body in \<open>simp_all add: ex_ring_def ring_alloc_def slip_enc_init_def pk_init_def pk_inv_def sd_got_def RING_HDR_def
        slip_codes call_waits_def mac_resume_def\<close>)
  then show ?thesis
    using b by (auto simp: ex_ring_def ring_alloc_def RING_HDR_def)
qed

text \<open>The preallocated device cannot send: the packet in which the header is allocated has no room for one.\<close>

theorem ring_alloc_cannot_send:
  "fst (ring_transmit p (ring_alloc SIZE n net ebuf dbuf pbuf)) = RET_ERROR"
  by (simp add: ring_transmit_def ring_alloc_def pk_allocate_header_def pk_init_def RING_HDR_def)

end
