(* ===== verification/StringModel.thy ===== *)
theory StringModel
  imports Prelude
begin

text \<open>
  The strings of src/string/string.h: a character buffer with a length and a size.  Characters are
  bytes, 0 is the terminator.  Lengths and indices are of the type \<open>int\<close> in the code and integers
  here; they stay within the size of a buffer.  An access outside of the buffer is \<open>None\<close>.
\<close>

section \<open>State and operations\<close>

record str =
  st_string :: "u8 list"
  st_strlen :: int
  st_size :: int

definition st_init :: "u8 list \<Rightarrow> int \<Rightarrow> str" where
  "st_init buffer n = \<lparr>st_string = buffer, st_strlen = 0, st_size = n\<rparr>"

definition char_at :: "int \<Rightarrow> u8 list \<Rightarrow> u8 option" where
  "char_at i m = (if 0 \<le> i \<and> i < int (length m) then Some (m ! nat i) else None)"

definition set_char :: "int \<Rightarrow> u8 \<Rightarrow> u8 list \<Rightarrow> u8 list option" where
  "set_char i c m = (if 0 \<le> i \<and> i < int (length m) then Some (m[nat i := c]) else None)"

definition st_len :: "str \<Rightarrow> int" where
  "st_len s = st_strlen s"

definition st_front :: "str \<Rightarrow> u8 option" where
  "st_front s = char_at 0 (st_string s)"

definition st_back :: "str \<Rightarrow> u8 option" where
  "st_back s = char_at (st_strlen s) (st_string s)"

definition st_at :: "int \<Rightarrow> str \<Rightarrow> u8 option" where
  "st_at i s = (if i > st_strlen s \<or> i < 0 then Some 0 else char_at i (st_string s))"

definition st_at_ptr :: "int \<Rightarrow> str \<Rightarrow> int option" where
  "st_at_ptr i s = (if i > st_strlen s \<or> i < 0 then None else Some i)"

text \<open>The loop of \<open>substr\<close>: the characters that are copied.\<close>

function sub_loop :: "int \<Rightarrow> int \<Rightarrow> u8 list \<Rightarrow> u8 list option" where
  "sub_loop i e m =
     (if i < e then
        (case char_at i m of None \<Rightarrow> None | Some c \<Rightarrow> map_option (\<lambda>cs. c # cs) (sub_loop (i + 1) e m))
      else Some [])"
  by pat_completeness auto
termination by (relation "measure (\<lambda>(i, e, m). nat (e - i))") auto

text \<open>\<open>substr\<close> writes into a buffer of the caller: the outer option is the access, \<open>None\<close> inside that
  nothing is written.\<close>

definition st_substr :: "int \<Rightarrow> int \<Rightarrow> str \<Rightarrow> u8 list option option" where
  "st_substr start e s =
     (if st_strlen s < start \<or> e < start \<or> st_strlen s < e then Some None
      else map_option (\<lambda>cs. Some (cs @ [0])) (sub_loop start e (st_string s)))"


text \<open>The two loops of the other \<open>replace\<close>; the second one counts the characters behind the old end.\<close>

function rep_loop :: "int \<Rightarrow> int \<Rightarrow> u8 list \<Rightarrow> u8 list \<Rightarrow> (u8 list \<times> u8 list) option" where
  "rep_loop i e src m =
     (if i < e then
        (case src of
           [] \<Rightarrow> None
         | c # cs \<Rightarrow> (case set_char i c m of None \<Rightarrow> None | Some m' \<Rightarrow> rep_loop (i + 1) e cs m'))
      else Some (src, m))"
  by pat_completeness auto
termination by (relation "measure (\<lambda>(i, e, src, m). nat (e - i))") auto


function ins_loop :: "int \<Rightarrow> int \<Rightarrow> u8 list \<Rightarrow> u8 list option" where
  "ins_loop i pos m =
     (if i > pos - 1 then
        (case char_at (i - 1) m of
           None \<Rightarrow> None
         | Some c \<Rightarrow> (case set_char i c m of None \<Rightarrow> None | Some m' \<Rightarrow> ins_loop (i - 1) pos m'))
      else Some m)"
  by pat_completeness auto
termination by (relation "measure (\<lambda>(i, pos, m). nat (i + 1 - pos))") auto

definition st_insert :: "int \<Rightarrow> u8 \<Rightarrow> str \<Rightarrow> str option" where
  "st_insert pos c s =
     (if pos > st_strlen s \<or> st_strlen s + 1 \<ge> st_size s then Some s
      else
        (case ins_loop (st_strlen s + 2) pos (st_string s) of
           None \<Rightarrow> None
         | Some m \<Rightarrow> map_option (\<lambda>m'. s\<lparr>st_string := m', st_strlen := st_strlen s + 1\<rparr>) (set_char pos c m)))"

function rem_loop :: "int \<Rightarrow> int \<Rightarrow> u8 list \<Rightarrow> u8 list option" where
  "rem_loop i n m =
     (if i < n then
        (case char_at (i + 1) m of
           None \<Rightarrow> None
         | Some c \<Rightarrow> (case set_char i c m of None \<Rightarrow> None | Some m' \<Rightarrow> rem_loop (i + 1) n m'))
      else Some m)"
  by pat_completeness auto
termination by (relation "measure (\<lambda>(i, n, m). nat (n - i))") auto

definition st_remove :: "int \<Rightarrow> str \<Rightarrow> str option" where
  "st_remove pos s =
     (if pos > st_strlen s then Some s
      else map_option (\<lambda>m. s\<lparr>st_string := m, st_strlen := st_strlen s - 1\<rparr>)
             (rem_loop pos (st_strlen s + 1) (st_string s)))"

function clr_loop :: "int \<Rightarrow> int \<Rightarrow> u8 list \<Rightarrow> (int \<times> u8 list) option" where
  "clr_loop i n m =
     (if n > 0 then (case set_char i 0 m of None \<Rightarrow> None | Some m' \<Rightarrow> clr_loop (i + 1) (n - 1) m') else Some (n, m))"
  by pat_completeness auto
termination by (relation "measure (\<lambda>(i, n, m). nat n)") auto


text \<open>The counting loop looks at the characters from the second one on.\<close>

function cnt_loop :: "int \<Rightarrow> u8 list \<Rightarrow> int option" where
  "cnt_loop n m =
     (case char_at (n + 1) m of
        None \<Rightarrow> None
      | Some c \<Rightarrow> if c \<noteq> 0 then cnt_loop (n + 1) m else Some (n + 1))"
  by pat_completeness auto
termination
  by (relation "measure (\<lambda>(n, m). nat (int (length m) - n))") (auto simp: char_at_def split: if_splits)

definition st_recount :: "str \<Rightarrow> (int \<times> str) option" where
  "st_recount s =
     map_option (\<lambda>n. if n \<noteq> st_strlen s then (n, s\<lparr>st_strlen := n\<rparr>) else (- 1, s)) (cnt_loop 0 (st_string s))"

definition st_empty :: "str \<Rightarrow> bool" where
  "st_empty s \<longleftrightarrow> st_strlen s = 0"

definition st_full :: "str \<Rightarrow> bool" where
  "st_full s \<longleftrightarrow> st_strlen s \<ge> st_size s"



text \<open>\<open>strcmp\<close> on the two buffers, as far as the first terminator.\<close>

definition c_string :: "u8 list \<Rightarrow> u8 list" where
  "c_string m = takeWhile (\<lambda>c. c \<noteq> 0) m"

definition st_equals :: "str \<Rightarrow> str \<Rightarrow> bool" where
  "st_equals s t \<longleftrightarrow> c_string (st_string s) = c_string (st_string t)"

definition st_get_end :: "str \<Rightarrow> int" where
  "st_get_end s = st_len s"

text \<open>\<open>strncpy\<close>: the characters before the terminator, at most \<open>n\<close>, padded with zeros to \<open>n\<close>.\<close>

definition c_strncpy :: "nat \<Rightarrow> u8 list \<Rightarrow> u8 list" where
  "c_strncpy n src = take n (c_string src @ replicate n 0)"

definition st_assign :: "u8 list \<Rightarrow> str \<Rightarrow> str option" where
  "st_assign src s =
     (let m = c_strncpy (nat (st_size s)) src @ drop (nat (st_size s)) (st_string s)
      in case set_char (st_size s - 1) 0 m of
           None \<Rightarrow> None
         | Some m' \<Rightarrow> map_option snd (st_recount (s\<lparr>st_string := m'\<rparr>)))"

section \<open>Loops\<close>

declare sub_loop.simps [simp del] rep_loop.simps [simp del] ins_loop.simps [simp del]
  rem_loop.simps [simp del] clr_loop.simps [simp del] cnt_loop.simps [simp del]

lemma ins_loop_shift:
  "1 \<le> p \<Longrightarrow> p - 1 \<le> i \<Longrightarrow> i < int (length m) \<Longrightarrow>
   \<exists>m'. ins_loop i p m = Some m' \<and> length m' = length m \<and>
     (\<forall>k < length m. m' ! k = (if p \<le> int k \<and> int k \<le> i then m ! (k - 1) else m ! k))"
proof (induction i p m rule: ins_loop.induct)
  case (1 i p m)
  show ?case
  proof (cases "p \<le> i")
    case True
    let ?m = "m[nat i := m ! nat (i - 1)]"
    have step: "ins_loop i p m = ins_loop (i - 1) p ?m"
      using True 1(2,4) by (simp add: ins_loop.simps [of i p m] char_at_def set_char_def)
    obtain m' where m': "ins_loop (i - 1) p ?m = Some m'" "length m' = length ?m"
        "\<forall>k < length ?m. m' ! k = (if p \<le> int k \<and> int k \<le> i - 1 then ?m ! (k - 1) else ?m ! k)"
      using 1(1) [of "m ! nat (i - 1)" ?m] True 1(2,4) by (auto simp: char_at_def set_char_def)
    have "m' ! k = (if p \<le> int k \<and> int k \<le> i then m ! (k - 1) else m ! k)" if "k < length m" for k
    proof (cases "int k = i")
      case True
      then have "nat i = k" "nat (i - 1) = k - 1" by auto
      then show ?thesis using m'(3) that True \<open>p \<le> i\<close> by simp
    next
      case False
      moreover have "nat i \<noteq> k" "k > 0 \<Longrightarrow> int k \<le> i - 1 \<Longrightarrow> nat i \<noteq> k - 1"
        using False 1(2) \<open>p \<le> i\<close> by auto
      ultimately show ?thesis using m'(3) that 1(2) by auto
    qed
    then show ?thesis using step m'(1,2) by auto
  next
    case False
    then show ?thesis by (intro exI [of _ m]) (auto simp: ins_loop.simps [of i p m])
  qed
qed

lemma rem_loop_shift:
  "0 \<le> i \<Longrightarrow> i \<le> n \<Longrightarrow> n < int (length m) \<Longrightarrow>
   \<exists>m'. rem_loop i n m = Some m' \<and> length m' = length m \<and>
     (\<forall>k < length m. m' ! k = (if i \<le> int k \<and> int k < n then m ! (k + 1) else m ! k))"
proof (induction i n m rule: rem_loop.induct)
  case (1 i n m)
  show ?case
  proof (cases "i < n")
    case True
    let ?m = "m[nat i := m ! nat (i + 1)]"
    have step: "rem_loop i n m = rem_loop (i + 1) n ?m"
      using True 1(2,4) by (simp add: rem_loop.simps [of i n m] char_at_def set_char_def)
    obtain m' where m': "rem_loop (i + 1) n ?m = Some m'" "length m' = length ?m"
        "\<forall>k < length ?m. m' ! k = (if i + 1 \<le> int k \<and> int k < n then ?m ! (k + 1) else ?m ! k)"
      using 1(1) [of "m ! nat (i + 1)" ?m] True 1(2,4) by (auto simp: char_at_def set_char_def)
    have "m' ! k = (if i \<le> int k \<and> int k < n then m ! (k + 1) else m ! k)" if "k < length m" for k
    proof (cases "int k = i")
      case True
      then have "nat i = k" "nat (i + 1) = k + 1" by auto
      then show ?thesis using m'(3) that True \<open>i < n\<close> by simp
    next
      case False
      moreover have "nat i \<noteq> k" "i + 1 \<le> int k \<Longrightarrow> nat i \<noteq> k + 1"
        using False 1(2) by auto
      ultimately show ?thesis using m'(3) that by auto
    qed
    then show ?thesis using step m'(1,2) by auto
  next
    case False
    then show ?thesis by (intro exI [of _ m]) (auto simp: rem_loop.simps [of i n m])
  qed
qed

lemma cnt_loop_end:
  "0 \<le> n \<Longrightarrow> n < int k \<Longrightarrow> k < length m \<Longrightarrow> m ! k = 0 \<Longrightarrow> (\<forall>i. n < int i \<and> i < k \<longrightarrow> m ! i \<noteq> 0) \<Longrightarrow>
   cnt_loop n m = Some (int k)"
proof (induction n m rule: cnt_loop.induct)
  case (1 n m)
  have c: "char_at (n + 1) m = Some (m ! nat (n + 1))"
    using 1(2-4) by (simp add: char_at_def)
  show ?case
  proof (cases "int k = n + 1")
    case True
    then have "nat (n + 1) = k" by simp
    then show ?thesis using c True 1(5) by (simp add: cnt_loop.simps [of n m])
  next
    case False
    then have nz: "m ! nat (n + 1) \<noteq> 0"
      using 1(2,3,6) by simp
    then have "cnt_loop (n + 1) m = Some (int k)"
      using 1(1) [OF c nz] 1(2-6) False by auto
    then show ?thesis using c nz by (simp add: cnt_loop.simps [of n m])
  qed
qed

section \<open>Strings that are intact\<close>

definition st_ok :: "str \<Rightarrow> bool" where
  "st_ok s \<longleftrightarrow>
     int (length (st_string s)) = st_size s \<and> 0 \<le> st_strlen s \<and> st_strlen s < st_size s \<and>
     (\<forall>i < nat (st_strlen s). st_string s ! i \<noteq> 0) \<and> st_string s ! nat (st_strlen s) = 0"

definition st_text :: "str \<Rightarrow> u8 list" where
  "st_text s = take (nat (st_strlen s)) (st_string s)"

lemma st_text_c_string: "st_ok s \<Longrightarrow> c_string (st_string s) = st_text s"
  unfolding c_string_def st_text_def
  by (rule takeWhile_eq_take_P_nth) (auto simp: st_ok_def)

lemma st_text_length: "st_ok s \<Longrightarrow> length (st_text s) = nat (st_strlen s)"
  by (auto simp: st_text_def st_ok_def)

lemma st_insert_ok:
  assumes ok: "st_ok s" and p: "0 < p" "p \<le> st_strlen s" and room: "st_strlen s + 2 < st_size s" and c: "c \<noteq> 0"
  shows "\<exists>s'. st_insert p c s = Some s' \<and> st_ok s' \<and> st_size s' = st_size s \<and> st_strlen s' = st_strlen s + 1 \<and>
    st_text s' = take (nat p) (st_text s) @ c # drop (nat p) (st_text s)"
proof -
  let ?n = "st_strlen s" and ?m = "st_string s"
  have len: "int (length ?m) = st_size s" and n: "0 \<le> ?n" and nz: "\<And>i. i < nat ?n \<Longrightarrow> ?m ! i \<noteq> 0"
      and z: "?m ! nat ?n = 0"
    using ok by (auto simp: st_ok_def)
  obtain m where m: "ins_loop (?n + 2) p ?m = Some m" "length m = length ?m"
      "\<And>k. k < length ?m \<Longrightarrow> m ! k = (if p \<le> int k \<and> int k \<le> ?n + 2 then ?m ! (k - 1) else ?m ! k)"
    using ins_loop_shift [of p "?n + 2" ?m] p room len by auto
  let ?s = "s\<lparr>st_string := m[nat p := c], st_strlen := ?n + 1\<rparr>"
  have "st_insert p c s = Some ?s"
    using m(1,2) p room len by (simp add: st_insert_def set_char_def)
  moreover have "st_ok ?s"
  proof -
    have "m[nat p := c] ! i \<noteq> 0" if "i < nat (?n + 1)" for i
    proof (cases "i = nat p")
      case True
      then have "nat p < length m" using m(2) that len room by linarith
      then show ?thesis using c True by simp
    next
      case False
      then have "nth m i = (if p \<le> int i then ?m ! (i - 1) else ?m ! i)" "i < length m"
        using m that len room by auto
      moreover have "i - 1 < nat ?n" "int i < p \<Longrightarrow> i < nat ?n"
        using that n p False by auto
      ultimately show ?thesis using nz False by (auto simp: nth_list_update)
    qed
    moreover have "m[nat p := c] ! nat (?n + 1) = 0"
      using m(3) [of "nat (?n + 1)"] z p n len room by (auto simp: nth_list_update nat_add_distrib)
    ultimately show ?thesis
      using m(2) n room len by (simp add: st_ok_def)
  qed
  moreover have "st_text ?s = take (nat p) (st_text s) @ c # drop (nat p) (st_text s)"
  proof (rule nth_equalityI)
    show "length (st_text ?s) = length (take (nat p) (st_text s) @ c # drop (nat p) (st_text s))"
      using st_text_length [OF ok] st_text_length [OF \<open>st_ok ?s\<close>] p n by simp
  next
    fix i assume i: "i < length (st_text ?s)"
    then have i': "i < nat (?n + 1)" "i < length ?m"
      using st_text_length [OF \<open>st_ok ?s\<close>] room len by auto
    show "st_text ?s ! i = (take (nat p) (st_text s) @ c # drop (nat p) (st_text s)) ! i"
      using i' m p n len room
      by (auto simp: st_text_def nth_append nth_Cons' nth_list_update min_def)
  qed
  ultimately show ?thesis by (intro exI [of _ ?s]) simp
qed

lemma st_remove_ok:
  assumes ok: "st_ok s" and p: "0 \<le> p" "p < st_strlen s" and room: "st_strlen s + 1 < st_size s"
  shows "\<exists>s'. st_remove p s = Some s' \<and> st_ok s' \<and> st_size s' = st_size s \<and> st_strlen s' = st_strlen s - 1 \<and>
    st_text s' = take (nat p) (st_text s) @ drop (nat p + 1) (st_text s)"
proof -
  let ?n = "st_strlen s" and ?m = "st_string s"
  have len: "int (length ?m) = st_size s" and n: "0 \<le> ?n" and nz: "\<And>i. i < nat ?n \<Longrightarrow> ?m ! i \<noteq> 0"
      and z: "?m ! nat ?n = 0"
    using ok by (auto simp: st_ok_def)
  obtain m where m: "rem_loop p (?n + 1) ?m = Some m" "length m = length ?m"
      "\<And>k. k < length ?m \<Longrightarrow> m ! k = (if p \<le> int k \<and> int k < ?n + 1 then ?m ! (k + 1) else ?m ! k)"
    using rem_loop_shift [of p "?n + 1" ?m] p room len by auto
  let ?s = "s\<lparr>st_string := m, st_strlen := ?n - 1\<rparr>"
  have "st_remove p s = Some ?s"
    using m(1) p by (simp add: st_remove_def)
  moreover have sok: "st_ok ?s"
  proof -
    have "m ! i \<noteq> 0" if "i < nat (?n - 1)" for i
      using m(3) [of i] nz [of i] nz [of "i + 1"] that room len by auto
    moreover have "m ! nat (?n - 1) = 0"
      using m(3) [of "nat (?n - 1)"] z p room len by (auto simp: Suc_nat_eq_nat_zadd1)
    ultimately show ?thesis
      using m(2) p room len by (simp add: st_ok_def)
  qed
  moreover have "st_text ?s = take (nat p) (st_text s) @ drop (nat p + 1) (st_text s)"
  proof (rule nth_equalityI)
    show "length (st_text ?s) = length (take (nat p) (st_text s) @ drop (nat p + 1) (st_text s))"
      using st_text_length [OF ok] st_text_length [OF sok] p by simp
  next
    fix i assume i: "i < length (st_text ?s)"
    then have i': "i < nat (?n - 1)" "i < length ?m"
      using st_text_length [OF sok] room len by auto
    obtain k N where kN: "p = int k" "?n = int N"
      using p n by (metis nonneg_int_cases)
    moreover from kN i' have "i \<le> N"
      by simp
    ultimately have "st_text ?s ! i = (if k \<le> i then ?m ! (i + 1) else ?m ! i)"
      using i' m(3) [OF i'(2)] by (simp add: st_text_def)
    moreover have "length (st_text s) = N" "k < N" "i + 1 < N"
      using kN st_text_length [OF ok] p i'(1) by simp_all
    moreover have "(take k (st_text s) @ drop (k + 1) (st_text s)) ! i = st_text s ! (if k \<le> i then i + 1 else i)"
      using calculation(2-4) by (simp add: nth_append)
    ultimately show "st_text ?s ! i = (take (nat p) (st_text s) @ drop (nat p + 1) (st_text s)) ! i"
      using kN by (simp add: st_text_def)
  qed
  ultimately show ?thesis by (intro exI [of _ ?s]) simp
qed

text \<open>Inserting a character inside of a string and removing characters act on the text as they
  should, keep the terminator behind it, and undo each other, as long as two characters of the buffer
  stay free.\<close>

theorem string_insert_remove:
  assumes "st_ok s" and "0 < p" and "p \<le> st_strlen s" and "st_strlen s + 2 < st_size s" and "c \<noteq> 0"
  shows "\<exists>s' s''. st_insert p c s = Some s' \<and> st_ok s' \<and>
    st_text s' = take (nat p) (st_text s) @ c # drop (nat p) (st_text s) \<and>
    st_remove p s' = Some s'' \<and> st_ok s'' \<and> st_text s'' = st_text s"
proof -
  obtain s' where s': "st_insert p c s = Some s'" "st_ok s'" "st_size s' = st_size s" "st_strlen s' = st_strlen s + 1"
      "st_text s' = take (nat p) (st_text s) @ c # drop (nat p) (st_text s)"
    using st_insert_ok [OF assms] by blast
  have "0 \<le> p" "p < st_strlen s'" "st_strlen s' + 1 < st_size s'"
    using s'(3,4) assms by simp_all
  from st_remove_ok [OF s'(2) this] obtain s'' where "st_remove p s' = Some s''" "st_ok s''"
      "st_text s'' = take (nat p) (st_text s') @ drop (nat p + 1) (st_text s')"
    by blast
  moreover have "nat p \<le> length (st_text s)"
    using assms(1,3) by (simp add: st_text_length)
  ultimately show ?thesis
    using s' by (intro exI [of _ s'] exI [of _ s'']) (simp add: min_def)
qed

theorem string_insert_remove_witness:
  "\<exists>s'. st_insert 1 98 \<lparr>st_string = [97, 99, 0, 0, 0], st_strlen = 2, st_size = 5\<rparr> = Some s' \<and> st_text s' = [97, 98, 99]"
proof -
  let ?s = "\<lparr>st_string = [97, 99, 0, 0, 0], st_strlen = 2, st_size = 5\<rparr>"
  have "st_ok ?s"
    by code_simp
  then have "\<exists>s' s''. st_insert 1 98 ?s = Some s' \<and> st_ok s' \<and>
      st_text s' = take (nat 1) (st_text ?s) @ 98 # drop (nat 1) (st_text ?s) \<and>
      st_remove 1 s' = Some s'' \<and> st_ok s'' \<and> st_text s'' = st_text ?s"
    by (rule string_insert_remove) simp_all
  then show ?thesis
    by (auto simp: st_text_def)
qed

text \<open>What happens at the edges of the buffer: an insertion at the front reads before the buffer, one
  into the last free place writes behind it, and so does a removal from a full string.\<close>

lemma string_edges_1: "st_insert 0 98 \<lparr>st_string = [97, 99, 0, 0, 0], st_strlen = 2, st_size = 5\<rparr> = None"
  by code_simp

lemma string_edges_2: "st_insert 1 98 \<lparr>st_string = [97, 99, 0, 0], st_strlen = 2, st_size = 4\<rparr> = None"
  by code_simp

lemma string_edges_3: "st_remove 0 \<lparr>st_string = [97, 99, 0], st_strlen = 2, st_size = 3\<rparr> = None"
  by code_simp

lemma string_edges_4: "st_back \<lparr>st_string = [97, 99, 0], st_strlen = 2, st_size = 3\<rparr> = Some 0"
  by code_simp

theorem string_edges:
  "st_insert 0 98 \<lparr>st_string = [97, 99, 0, 0, 0], st_strlen = 2, st_size = 5\<rparr> = None"
  "st_insert 1 98 \<lparr>st_string = [97, 99, 0, 0], st_strlen = 2, st_size = 4\<rparr> = None"
  "st_remove 0 \<lparr>st_string = [97, 99, 0], st_strlen = 2, st_size = 3\<rparr> = None"
  "st_back \<lparr>st_string = [97, 99, 0], st_strlen = 2, st_size = 3\<rparr> = Some 0"
  by (rule string_edges_1 string_edges_2 string_edges_3 string_edges_4)+

lemma c_strncpy_length [simp]: "length (c_strncpy n src) = n"
  by (simp add: c_strncpy_def)

lemma c_strncpy_nth:
  "i < n \<Longrightarrow> c_strncpy n src ! i = (if i < length (c_string src) then c_string src ! i else 0)"
  by (auto simp: c_strncpy_def nth_append)

lemma c_string_nonzero: "i < length (c_string src) \<Longrightarrow> c_string src ! i \<noteq> 0"
proof -
  assume "i < length (c_string src)"
  then have "c_string src ! i \<in> set (takeWhile (\<lambda>c. c \<noteq> 0) src)"
    unfolding c_string_def by (rule nth_mem)
  then show ?thesis
    by (auto dest: set_takeWhileD)
qed

text \<open>Assigning a non-empty text to a string copies as much of it as fits and leaves an intact
  string, with the terminator behind the text, and \<open>equals\<close> holds for it and another intact string
  exactly when the texts are the same.\<close>

theorem string_assign:
  assumes "int (length (st_string s)) = st_size s" and "1 < st_size s" and "c_string src \<noteq> []"
  shows "\<exists>s'. st_assign src s = Some s' \<and> st_ok s' \<and> st_text s' = take (nat (st_size s) - 1) (c_string src) \<and>
    (\<forall>t. st_ok t \<longrightarrow> (st_equals s' t \<longleftrightarrow> st_text s' = st_text t))"
proof -
  let ?n = "nat (st_size s)"
  let ?m = "(c_strncpy ?n src)[?n - 1 := 0]"
  obtain k where k: "k = min (?n - 1) (length (c_string src))" by simp
  have n: "1 < ?n" "length (st_string s) = ?n" "nat (st_size s - 1) = ?n - 1"
    using assms by simp_all
  have kn: "0 < k" "k < ?n"
    using n assms(3) min.cobounded1 [of "?n - 1" "length (c_string src)"] unfolding k [symmetric] by (auto simp: k)
  have nth: "?m ! i = (if i < k then c_string src ! i else 0)" if "i < ?n" for i
    using that k by (auto simp: c_strncpy_nth nth_list_update)
  have nz: "?m ! i \<noteq> 0" if "i < k" for i
    using nth [of i] that kn k c_string_nonzero [of i src] by simp
  have z: "?m ! k = 0"
    using nth [OF kn(2)] by simp
  have cnt: "cnt_loop 0 ?m = Some (int k)"
    by (rule cnt_loop_end) (simp, use kn in simp, use kn in simp, rule z, use nz in blast)
  let ?s = "s\<lparr>st_string := ?m, st_strlen := int k\<rparr>"
  have "set_char (st_size s - 1) 0 (c_strncpy ?n src @ drop ?n (st_string s)) = Some ?m"
    using n assms(2) by (simp add: set_char_def)
  then have a: "st_assign src s = Some ?s"
    using cnt by (auto simp: st_assign_def st_recount_def)
  have ok: "st_ok ?s"
    using kn nz z assms(1,2) by (simp add: st_ok_def)
  have "st_text ?s = take k ?m"
    by (simp add: st_text_def)
  also have "\<dots> = take (?n - 1) (c_string src)"
  proof (rule nth_equalityI)
    show "length (take k ?m) = length (take (?n - 1) (c_string src))"
      using kn k by (simp add: min.commute)
  next
    fix i assume "i < length (take k ?m)"
    then have "i < k" "i < ?n" by simp_all
    then show "take k ?m ! i = take (?n - 1) (c_string src) ! i"
      using nth [of i] k by simp
  qed
  finally have t: "st_text ?s = take (?n - 1) (c_string src)" .
  have "st_equals ?s t \<longleftrightarrow> st_text ?s = st_text t" if "st_ok t" for t
    by (simp only: st_equals_def st_text_c_string [OF ok] st_text_c_string [OF that])
  then show ?thesis
    using a ok t by blast
qed

theorem string_assign_witness:
  "\<exists>s'. st_assign [97, 98, 99, 0] (st_init [0, 0, 0] 3) = Some s' \<and> st_text s' = [97, 98]"
proof -
  have c: "c_string [97, 98, 99, 0] = [97, 98, 99]"
    by (simp add: c_string_def)
  have "\<exists>s'. st_assign [97, 98, 99, 0] (st_init [0, 0, 0] 3) = Some s' \<and> st_ok s' \<and>
      st_text s' = take (nat (st_size (st_init [0, 0, 0] 3)) - 1) (c_string [97, 98, 99, 0]) \<and>
      (\<forall>t. st_ok t \<longrightarrow> (st_equals s' t \<longleftrightarrow> st_text s' = st_text t))"
    by (rule string_assign) (simp_all add: st_init_def c)
  then show ?thesis
    by (auto simp: c st_init_def)
qed

section \<open>All sequences of calls\<close>

























end
