(* ===== verification/EventModel.thy ===== *)
theory EventModel
  imports SchedReach "HOL-Library.Signed_Division"
begin

text \<open>
  The flight events of src/event (Event.h, BoostEvent.h, ApogeeEvent.h, LandingEvent.h): detectors that
  look at one sample of the sensors per call and start tasks when they detect their event.  A derived
  class is an extension of the record of its base.  Samples are 16 bit integers of the code; their
  averages stay within 16 bits, so they are integers here, divided as in C.
\<close>

section \<open>Events\<close>

record ('f, 'b) event =
  ev_callbacks :: "'f list"
  ev_args :: "'b list"
  ev_num :: nat
  ev_detected :: bool

definition NUM_HOOKS :: nat where
  "NUM_HOOKS = 5"

definition DETECT_COUNT :: u8 where
  "DETECT_COUNT = 5"

definition register_callback :: "'f \<Rightarrow> ('f, 'b, 'z) event_scheme \<Rightarrow> bool \<times> ('f, 'b, 'z) event_scheme" where
  "register_callback hook e =
     (if ev_num e \<ge> NUM_HOOKS then (False, e)
      else (True, e\<lparr>ev_callbacks := (ev_callbacks e)[ev_num e := hook], ev_num := ev_num e + 1\<rparr>))"

definition call_hooks ::
  "('f, 'b, 'z) event_scheme \<Rightarrow> ('f, 'b, 'w) sched \<Rightarrow> ('f, 'b, 'w) sched" where
  "call_hooks e s =
     fold (\<lambda>i s. snd (sched_start (ev_callbacks e ! i) (ev_args e ! i) s)) [0..<ev_num e] s"

section \<open>The detectors\<close>

record ('f, 'b) boost_event = "('f, 'b) event" +
  bo_avg_accel :: int
  bo_avg_altitude :: int
  bo_count :: u8

definition boost_calculate ::
  "int \<times> int \<Rightarrow> ('f, 'b) boost_event \<times> ('f, 'b, 'w) sched \<Rightarrow> ('f, 'b) boost_event \<times> ('f, 'b, 'w) sched" where
  "boost_calculate sample es =
     (let (accel, altitude) = sample; (e, s) = es in
      if accel > bo_avg_accel e \<and> altitude > bo_avg_altitude e then
        (let e1 = e\<lparr>bo_avg_accel := (bo_avg_accel e + accel) sdiv 2,
                     bo_avg_altitude := (bo_avg_altitude e + altitude) sdiv 2, bo_count := bo_count e + 1\<rparr>
         in if bo_count e1 \<ge> DETECT_COUNT then
              (let e2 = e1\<lparr>ev_detected := True\<rparr> in (e2, call_hooks e2 s))
            else (e1, s))
      else (e\<lparr>bo_count := 0\<rparr>, s))"

record ('f, 'b) apogee_event = "('f, 'b) event" +
  ap_highest :: u16
  ap_count :: u8

definition apogee_calculate ::
  "u16 \<Rightarrow> ('f, 'b) apogee_event \<times> ('f, 'b, 'w) sched \<Rightarrow> ('f, 'b) apogee_event \<times> ('f, 'b, 'w) sched" where
  "apogee_calculate altitude es =
     (let (e, s) = es in
      if altitude > ap_highest e then (e\<lparr>ap_highest := altitude, ap_count := ap_count e + 1\<rparr>, s)
      else if altitude < ap_highest e then
        (let e1 = e\<lparr>ap_count := ap_count e + 1\<rparr>
         in if ap_count e1 \<ge> DETECT_COUNT then
              (let e2 = e1\<lparr>ev_detected := True\<rparr> in (e2, call_hooks e2 s))
            else (e1, s))
      else (e\<lparr>ap_count := 0\<rparr>, s))"

record ('f, 'b) landing_event = "('f, 'b) event" +
  la_avg_altitude :: int
  la_count :: u8

text \<open>The limit \<open>9.81 * 3\<close> is truncated to an integer.\<close>

definition THREE_G_ACCEL :: int where
  "THREE_G_ACCEL = 29"

definition is_accel_in_range :: "int \<Rightarrow> bool" where
  "is_accel_in_range accel \<longleftrightarrow> accel < THREE_G_ACCEL"

definition is_altitude_in_range :: "int \<Rightarrow> ('f, 'b) landing_event \<Rightarrow> bool" where
  "is_altitude_in_range altitude e \<longleftrightarrow> sint (word_of_int (altitude - la_avg_altitude e) :: 16 word) < 50"

definition landing_calculate ::
  "bool \<times> int \<times> int \<Rightarrow> ('f, 'b) landing_event \<times> ('f, 'b, 'w) sched \<Rightarrow>
   ('f, 'b) landing_event \<times> ('f, 'b, 'w) sched" where
  "landing_calculate sample es =
     (let (past, accel, altitude) = sample; (e, s) = es in
      if past \<and> is_accel_in_range accel \<and> is_altitude_in_range altitude e then
        (let e1 = e\<lparr>la_count := la_count e + 1, la_avg_altitude := (la_avg_altitude e + altitude) sdiv 2\<rparr>
         in if la_count e1 \<ge> DETECT_COUNT then
              (let e2 = e1\<lparr>ev_detected := True\<rparr> in (e2, call_hooks e2 s))
            else (e1, s))
      else (e\<lparr>la_count := 0\<rparr>, s))"

section \<open>Detection by a streak\<close>

text \<open>What a run of samples looks like to a detector: for every sample, whether it counts.\<close>

primrec hits :: "('i \<Rightarrow> 'x \<Rightarrow> bool) \<Rightarrow> ('i \<Rightarrow> 'x \<Rightarrow> 'x) \<Rightarrow> 'i list \<Rightarrow> 'x \<Rightarrow> bool list" where
  "hits hit step [] x = []"
| "hits hit step (i # is) x = hit i x # hits hit step is (step i x)"

fun streak :: "nat \<Rightarrow> bool list \<Rightarrow> bool" where
  "streak k [] = False"
| "streak k (True # bs) = (k \<ge> 4 \<or> streak (k + 1) bs)"
| "streak k (False # bs) = streak 0 bs"

lemma streak_iff:
  "k < 5 \<Longrightarrow> streak k bs \<longleftrightarrow>
     (\<exists>zs. bs = replicate (5 - k) True @ zs) \<or> (\<exists>ys zs. bs = ys @ replicate 5 True @ zs)"
proof (induction k bs rule: streak.induct)
  case (1 k)
  then show ?case by simp
next
  case (2 k bs)
  have cons: "(\<exists>ys zs. True # bs = ys @ replicate 5 True @ zs) \<longleftrightarrow>
      (\<exists>zs. bs = replicate 4 True @ zs) \<or> (\<exists>ys zs. bs = ys @ replicate 5 True @ zs)"
    by (simp add: Cons_eq_append_conv numeral_eq_Suc ex_disj_distrib) blast
  show ?case
  proof (cases "k = 4")
    case True
    then show ?thesis by simp
  next
    case False
    then have k: "5 - k = Suc (5 - (k + 1))" "k + 1 < 5" using 2(2) by simp_all
    have "replicate 4 True = replicate (5 - (k + 1)) True @ replicate k True"
      using k(2) by (simp flip: replicate_add)
    then show ?thesis
      using 2(1) [OF k(2)] k False unfolding cons by (auto simp: k(1))
  qed
next
  case (3 k bs)
  have "(\<exists>ys zs. False # bs = ys @ replicate 5 True @ zs) \<longleftrightarrow> (\<exists>ys zs. bs = ys @ replicate 5 True @ zs)"
    by (simp add: Cons_eq_append_conv numeral_eq_Suc ex_disj_distrib) blast
  moreover have "(\<exists>zs. bs = replicate 5 True @ zs) \<Longrightarrow> (\<exists>ys zs. bs = ys @ replicate 5 True @ zs)"
    by (metis append_Nil)
  moreover have "5 - k = Suc (4 - k)"
    using 3(2) by simp
  ultimately show ?case
    using 3(1) by auto
qed

lemma streak_0: "streak 0 bs \<longleftrightarrow> (\<exists>ys zs. bs = ys @ replicate 5 True @ zs)"
  using streak_iff [of 0 bs] by (metis append_Nil diff_zero zero_less_numeral)

text \<open>The contract of a detector: a sample that counts increments the counter and reports the event from the
  fifth on, any other one clears the counter.\<close>

locale streak_detector =
  fixes step :: "'i \<Rightarrow> 'x \<Rightarrow> 'x" and hit :: "'i \<Rightarrow> 'x \<Rightarrow> bool" and cnt :: "'x \<Rightarrow> u8" and det :: "'x \<Rightarrow> bool"
  assumes step_hit: "hit i x \<Longrightarrow> cnt (step i x) = cnt x + 1 \<and> det (step i x) = (det x \<or> DETECT_COUNT \<le> cnt x + 1)"
    and step_miss: "\<not> hit i x \<Longrightarrow> cnt (step i x) = 0 \<and> det (step i x) = det x"
begin

lemma detects_from: "det x \<or> cnt x < 5 \<Longrightarrow> det (fold step is x) \<longleftrightarrow> det x \<or> streak (unat (cnt x)) (hits hit step is x)"
proof (induction "is" arbitrary: x)
  case Nil
  then show ?case by simp
next
  case (Cons i "is")
  show ?case
  proof (cases "hit i x")
    case True
    show ?thesis
    proof (cases "det x")
      case True
      then show ?thesis using Cons.IH [of "step i x"] step_hit [OF \<open>hit i x\<close>] by simp
    next
      case False
      then have lt: "unat (cnt x) < 5" using Cons.prems by (simp add: word_less_nat_alt)
      then have u: "unat (cnt x + 1) = unat (cnt x) + 1"
        by (simp add: unat_word_ariths)
      have d: "det (step i x) = (4 \<le> unat (cnt x))" "cnt (step i x) = cnt x + 1"
        using step_hit [OF True] False u by (simp_all add: DETECT_COUNT_def word_le_nat_alt)
      have "det (step i x) \<or> cnt (step i x) < 5"
        using d u lt by (auto simp: word_less_nat_alt)
      then show ?thesis
        using Cons.IH [of "step i x"] d u True False by simp
    qed
  next
    case False
    then show ?thesis using Cons.IH [of "step i x"] step_miss [OF False] by simp
  qed
qed

lemma detects: "cnt x = 0 \<Longrightarrow> det (fold step is x) \<longleftrightarrow>
    det x \<or> (\<exists>ys zs. hits hit step is x = ys @ replicate 5 True @ zs)"
  using detects_from [of x "is"] by (simp add: streak_0)

end

definition boost_hit :: "int \<times> int \<Rightarrow> ('f, 'b) boost_event \<times> ('f, 'b, 'w) sched \<Rightarrow> bool" where
  "boost_hit sample es \<longleftrightarrow> fst sample > bo_avg_accel (fst es) \<and> snd sample > bo_avg_altitude (fst es)"

definition landing_hit :: "bool \<times> int \<times> int \<Rightarrow> ('f, 'b) landing_event \<times> ('f, 'b, 'w) sched \<Rightarrow> bool" where
  "landing_hit sample es \<longleftrightarrow>
     fst sample \<and> is_accel_in_range (fst (snd sample)) \<and> is_altitude_in_range (snd (snd sample)) (fst es)"

interpretation boost: streak_detector boost_calculate boost_hit "\<lambda>es. bo_count (fst es)" "\<lambda>es. ev_detected (fst es)"
  by unfold_locales
    (auto simp: boost_calculate_def boost_hit_def Let_def split: prod.splits)

interpretation landing: streak_detector landing_calculate landing_hit "\<lambda>es. la_count (fst es)" "\<lambda>es. ev_detected (fst es)"
  by unfold_locales
    (auto simp: landing_calculate_def landing_hit_def Let_def split: prod.splits)

text \<open>C35: The boost detector reports a boost exactly when five samples in a row were above the moving
  averages of acceleration and altitude, no matter what came before them.\<close>

theorem boost_detects_streak:
  assumes "bo_count e = 0" and "\<not> ev_detected e"
  shows "ev_detected (fst (fold boost_calculate samples (e, s))) \<longleftrightarrow>
    (\<exists>before after. hits boost_hit boost_calculate samples (e, s) = before @ replicate 5 True @ after)"
  using boost.detects [of "(e, s)" samples] assms by simp

definition ex_boost :: "(nat, unit) boost_event" where
  "ex_boost = \<lparr>ev_callbacks = [7, 0, 0, 0, 0], ev_args = [(), (), (), (), ()], ev_num = 1, ev_detected = False,
     bo_avg_accel = 0, bo_avg_altitude = 0, bo_count = 0\<rparr>"

theorem boost_detects_streak_witness:
  "ev_detected (fst (fold boost_calculate [(10, 10), (20, 20), (30, 30), (40, 40), (50, 50)]
     (ex_boost, sched_boot 0 () ())))"
proof -
  have h: "hits boost_hit boost_calculate [(10, 10), (20, 20), (30, 30), (40, 40), (50, 50)]
      (ex_boost, sched_boot 0 () ()) = [] @ [True, True, True, True, True] @ []"
    by (simp add: boost_hit_def boost_calculate_def ex_boost_def DETECT_COUNT_def Let_def)
  have r: "replicate 5 True = [True, True, True, True, True]"
    by (simp add: numeral_eq_Suc)
  have "bo_count ex_boost = 0" "\<not> ev_detected ex_boost"
    by (simp_all add: ex_boost_def)
  from boost_detects_streak [OF this] show ?thesis
    using h unfolding r by blast
qed

text \<open>The landing detector reports a landing exactly when five samples in a row came after the
  event it waits for, with an acceleration below 3 g and less than 50 above the moving average of the
  altitude.\<close>

theorem landing_detects_streak:
  assumes "la_count e = 0" and "\<not> ev_detected e"
  shows "ev_detected (fst (fold landing_calculate samples (e, s))) \<longleftrightarrow>
    (\<exists>before after. hits landing_hit landing_calculate samples (e, s) = before @ replicate 5 True @ after)"
  using landing.detects [of "(e, s)" samples] assms by simp

definition ex_landing :: "(nat, unit) landing_event" where
  "ex_landing = \<lparr>ev_callbacks = [7, 0, 0, 0, 0], ev_args = [(), (), (), (), ()], ev_num = 1, ev_detected = False,
     la_avg_altitude = 30000, la_count = 0\<rparr>"

text \<open>The altitude is not bounded from below: a rocket that falls 1000 per sample is reported as landed.\<close>

theorem landing_detects_streak_witness:
  "ev_detected (fst (fold landing_calculate
     [(True, 0, 20000), (True, 0, 19000), (True, 0, 18000), (True, 0, 17000), (True, 0, 16000)]
     (ex_landing, sched_boot 0 () ())))"
proof -
  have h: "hits landing_hit landing_calculate
      [(True, 0, 20000), (True, 0, 19000), (True, 0, 18000), (True, 0, 17000), (True, 0, 16000)]
      (ex_landing, sched_boot 0 () ()) = [] @ [True, True, True, True, True] @ []"
    by (simp add: landing_hit_def landing_calculate_def ex_landing_def DETECT_COUNT_def Let_def is_accel_in_range_def
        is_altitude_in_range_def THREE_G_ACCEL_def)
  have r: "replicate 5 True = [True, True, True, True, True]"
    by (simp add: numeral_eq_Suc)
  have "la_count ex_landing = 0" "\<not> ev_detected ex_landing"
    by (simp_all add: ex_landing_def)
  from landing_detects_streak [OF this] show ?thesis
    using h unfolding r by blast
qed

text \<open>The apogee detector counts samples above the highest altitude, too: after four of them the first
  sample below is reported as apogee.\<close>

theorem apogee_first_drop:
  assumes "ap_count e = 0" and "ap_highest e < a" and "a < b" and "b < c" and "c < d" and "x < d"
  shows "ev_detected (fst (fold apogee_calculate [a, b, c, d, x] (e, s)))"
proof -
  have 1: "apogee_calculate a (e, s) = (e\<lparr>ap_highest := a, ap_count := 1\<rparr>, s)"
    using assms(1,2) by (simp add: apogee_calculate_def)
  have up: "apogee_calculate v (e\<lparr>ap_highest := u, ap_count := n\<rparr>, s) = (e\<lparr>ap_highest := v, ap_count := n + 1\<rparr>, s)"
    if "u < v" for u v n
    using that by (simp add: apogee_calculate_def)
  have down: "ev_detected (fst (apogee_calculate x (e\<lparr>ap_highest := d, ap_count := 4\<rparr>, s)))"
    using assms(6) by (auto simp: apogee_calculate_def DETECT_COUNT_def Let_def dest: order.asym)
  show ?thesis
    using 1 up [OF assms(3)] up [OF assms(4)] up [OF assms(5)] down by simp
qed

lemma call_hooks_start_all:
  "ev_num e \<le> length (ev_callbacks e) \<Longrightarrow> ev_num e \<le> length (ev_args e) \<Longrightarrow>
   call_hooks e s = start_all (take (ev_num e) (zip (ev_callbacks e) (ev_args e))) s"
proof -
  assume len: "ev_num e \<le> length (ev_callbacks e)" "ev_num e \<le> length (ev_args e)"
  have "take (ev_num e) (zip (ev_callbacks e) (ev_args e)) = map (\<lambda>i. (ev_callbacks e ! i, ev_args e ! i)) [0..<ev_num e]"
    by (rule nth_equalityI) (use len in simp_all)
  then show ?thesis
    by (simp add: call_hooks_def start_all_def fold_map comp_def)
qed

text \<open>When a detector fires, every hook that was registered becomes a task of its own, ready behind the
  tasks that were ready before and in the order of registration, provided there are enough free slots.\<close>

theorem hooks_become_tasks:
  assumes "sched_ok s" and "ev_num e \<le> card (free_slots s)" and "ev_num e \<le> length (ev_callbacks e)"
    and "ev_num e \<le> length (ev_args e)"
  shows "\<exists>ts. ready_tasks (call_hooks e s) = ready_tasks s @ ts \<and> set ts \<subseteq> free_slots s \<and> distinct ts \<and>
    map (\<lambda>t. t_func (tasks (call_hooks e s) t)) ts = take (ev_num e) (ev_callbacks e)"
proof -
  let ?fs = "take (ev_num e) (zip (ev_callbacks e) (ev_args e))"
  have "length ?fs \<le> card (free_slots s)"
    using assms(2) by simp
  from start_all_ready [OF assms(1) this] obtain ts where ts: "ready_tasks (start_all ?fs s) = ready_tasks s @ ts"
      "map (\<lambda>t. (t_func (tasks (start_all ?fs s) t), t_arg (tasks (start_all ?fs s) t))) ts = ?fs"
      "set ts \<subseteq> free_slots s" "distinct ts"
    by blast
  have "map (\<lambda>t. t_func (tasks (start_all ?fs s) t)) ts =
      map fst (map (\<lambda>t. (t_func (tasks (start_all ?fs s) t), t_arg (tasks (start_all ?fs s) t))) ts)"
    by simp
  also have "\<dots> = take (ev_num e) (map fst (zip (ev_callbacks e) (ev_args e)))"
    unfolding ts(2) by (rule take_map [symmetric])
  also have "\<dots> = take (ev_num e) (ev_callbacks e)"
    using assms(3,4) by (simp add: map_fst_zip_take)
  finally show ?thesis
    unfolding call_hooks_start_all [OF assms(3,4)] using ts(1,3,4) by blast
qed

theorem hooks_become_tasks_witness:
  "\<exists>ts. ready_tasks (call_hooks ex_boost (sched_boot 0 () ())) = ts \<and>
     map (\<lambda>t. t_func (tasks (call_hooks ex_boost (sched_boot 0 () ())) t)) ts = [7]"
proof -
  have "free_slots (sched_boot (0 :: nat) () ()) = {..<MAX_NUM_TASKS}"
    by (auto simp: free_slots_def sched_boot_def)
  then have "\<exists>ts. ready_tasks (call_hooks ex_boost (sched_boot 0 () ())) = ready_tasks (sched_boot (0 :: nat) () ()) @ ts \<and>
      set ts \<subseteq> free_slots (sched_boot (0 :: nat) () ()) \<and> distinct ts \<and>
      map (\<lambda>t. t_func (tasks (call_hooks ex_boost (sched_boot 0 () ())) t)) ts =
        take (ev_num ex_boost) (ev_callbacks ex_boost)"
    by (intro hooks_become_tasks sched_boot_ok) (simp_all add: ex_boost_def MAX_NUM_TASKS_def)
  then show ?thesis
    by (simp add: sched_boot_tasks) (simp add: ex_boost_def)
qed

end
