(* ===== verification/DeviceModel.thy ===== *)
theory DeviceModel
  imports SchedReach
begin

text \<open>
  The device framework: the identifiers of src/device/Device.h, the map of src/device/DeviceMap.h and
  the init task of src/init/init.h.  A device is a value of a type \<open>'d\<close>; its \<open>init\<close> and \<open>poll\<close> are
  external code that acts on a state \<open>'x\<close>.  Names are C strings without their terminator.
\<close>

section \<open>Devices and the device map\<close>

record device =
  dev_uid :: u16
  dev_name :: string

definition device_new :: "string \<Rightarrow> u16 \<Rightarrow> device \<times> u16" where
  "device_new name uid_counter = (\<lparr>dev_uid = uid_counter, dev_name = name\<rparr>, uid_counter + 1)"

record 'd device_map =
  dm_name :: string
  dm_names :: "string list"
  dm_devices :: "'d list"
  dm_size :: nat
  dm_count :: nat
  dm_i :: nat

definition dm_init :: "string \<Rightarrow> string list \<Rightarrow> 'd list \<Rightarrow> nat \<Rightarrow> 'd device_map" where
  "dm_init name names devices n =
     \<lparr>dm_name = name, dm_names = names, dm_devices = devices, dm_size = n, dm_count = 0, dm_i = 0\<rparr>"

definition name_eq :: "string \<Rightarrow> string \<Rightarrow> bool" where
  "name_eq a b \<longleftrightarrow> take 64 a = take 64 b"

definition dm_get :: "string \<Rightarrow> 'd device_map \<Rightarrow> 'd option" where
  "dm_get name m =
     map_option (\<lambda>i. dm_devices m ! i) (find (\<lambda>i. name_eq name (dm_names m ! i)) [0..<dm_count m])"

definition dm_next :: "'d device_map \<Rightarrow> 'd option \<times> 'd device_map" where
  "dm_next m =
     (if dm_i m = dm_count m then (None, m\<lparr>dm_i := 0\<rparr>)
      else (Some (dm_devices m ! dm_i m), m\<lparr>dm_i := dm_i m + 1\<rparr>))"

definition dm_add :: "string \<Rightarrow> 'd \<Rightarrow> 'd device_map \<Rightarrow> ret_type \<times> 'd device_map" where
  "dm_add name dev m =
     (if dm_count m \<ge> dm_size m then (RET_ERROR, m)
      else (RET_SUCCESS, m\<lparr>dm_names := (dm_names m)[dm_count m := name],
                           dm_devices := (dm_devices m)[dm_count m := dev], dm_count := dm_count m + 1\<rparr>))"

section \<open>The tasks of init.h\<close>

definition poll_device :: "('d \<Rightarrow> 'x \<Rightarrow> ret_type \<times> 'x) \<Rightarrow> 'd \<Rightarrow> 'x \<Rightarrow> ret_type \<times> 'x" where
  "poll_device poll dev x =
     (case poll dev x of
        (ret, x') \<Rightarrow> if call_waits ret then (ret, x') else if ret = RET_ERROR then (RET_SUCCESS, x') else (ret, x'))"

text \<open>
  The loop over the devices, up to the return of a device that waits: then the code of that device is
  returned.  \<open>poll\<close> and \<open>arg\<close> make the task that polls a device.
\<close>

partial_function (option) init_devices ::
  "('d \<Rightarrow> 'x \<Rightarrow> ret_type \<times> 'x) \<Rightarrow> 'f \<Rightarrow> ('d \<Rightarrow> 'b) \<Rightarrow> 'd device_map \<Rightarrow> 'x \<Rightarrow> ('f, 'b, 'w) sched \<Rightarrow>
   (ret_type option \<times> 'd device_map \<times> 'x \<times> ('f, 'b, 'w) sched) option" where
  "init_devices dev_init poll arg m x s =
     (case dm_next m of
        (None, m1) \<Rightarrow> Some (None, m1, x, s)
      | (Some dev, m1) \<Rightarrow>
          (case dev_init dev x of
             (ret, x1) \<Rightarrow>
               if call_waits ret then Some (Some ret, m1, x1, s)
               else init_devices dev_init poll arg m1 x1
                      (if ret = RET_SUCCESS then snd (sched_start poll (arg dev) s) else s)))"

definition init_task ::
  "('d \<Rightarrow> 'x \<Rightarrow> ret_type \<times> 'x) \<Rightarrow> 'f \<Rightarrow> ('d \<Rightarrow> 'b) \<Rightarrow> 'f list \<Rightarrow> 'b list \<Rightarrow> 'd device_map \<Rightarrow> 'x \<Rightarrow>
   ('f, 'b, 'w) sched \<Rightarrow> (ret_type \<times> 'd device_map \<times> 'x \<times> ('f, 'b, 'w) sched) option" where
  "init_task dev_init poll arg fs args m x s =
     (case init_devices dev_init poll arg m x s of
        None \<Rightarrow> None
      | Some (Some ret, m1, x1, s1) \<Rightarrow> Some (ret, m1, x1, s1)
      | Some (None, m1, x1, s1) \<Rightarrow>
          Some (RET_YIELD, m1, x1, fold (\<lambda>i s. snd (sched_start (fs ! i) (args ! i) s)) [0..<length fs] s1))"

section \<open>What the init task does\<close>

text \<open>Initialising a list of devices one after the other: the results, and the state at the end.\<close>

fun init_all :: "('d \<Rightarrow> 'x \<Rightarrow> ret_type \<times> 'x) \<Rightarrow> 'd list \<Rightarrow> 'x \<Rightarrow> ('d \<times> ret_type) list \<times> 'x" where
  "init_all f [] x = ([], x)"
| "init_all f (d # ds) x =
     (case f d x of (ret, x1) \<Rightarrow> (case init_all f ds x1 of (rs, x2) \<Rightarrow> ((d, ret) # rs, x2)))"

definition polled :: "('d \<times> ret_type) list \<Rightarrow> 'd list" where
  "polled rs = map fst (filter (\<lambda>(d, ret). ret = RET_SUCCESS) rs)"

lemma init_devices_run:
  "dm_i m \<le> dm_count m \<Longrightarrow> dm_count m \<le> length (dm_devices m) \<Longrightarrow>
   init_all dev_init (drop (dm_i m) (take (dm_count m) (dm_devices m))) x = (rs, x') \<Longrightarrow>
   (\<forall>(d, ret) \<in> set rs. \<not> call_waits ret) \<Longrightarrow>
   init_devices dev_init poll arg m x s =
     Some (None, m\<lparr>dm_i := 0\<rparr>, x', start_all (map (\<lambda>d. (poll, arg d)) (polled rs)) s)"
proof (induction "dm_count m - dm_i m" arbitrary: m x s rs)
  case 0
  then have "dm_i m = dm_count m" by simp
  then show ?case
    using 0 by (subst init_devices.simps) (simp add: dm_next_def polled_def)
next
  case (Suc n)
  let ?d = "dm_devices m ! dm_i m" and ?m = "m\<lparr>dm_i := dm_i m + 1\<rparr>"
  have lt: "dm_i m < dm_count m" using Suc.hyps(2) by simp
  then have d: "drop (dm_i m) (take (dm_count m) (dm_devices m)) =
      ?d # drop (dm_i ?m) (take (dm_count ?m) (dm_devices ?m))"
    using Suc.prems(2) by (simp add: Cons_nth_drop_Suc [symmetric])
  obtain ret x1 rs1 where r: "dev_init ?d x = (ret, x1)" "rs = (?d, ret) # rs1"
      "init_all dev_init (drop (dm_i ?m) (take (dm_count ?m) (dm_devices ?m))) x1 = (rs1, x')"
    using Suc.prems(3) unfolding d by (auto split: prod.splits)
  let ?s = "if ret = RET_SUCCESS then snd (sched_start poll (arg ?d) s) else s"
  have "init_devices dev_init poll arg ?m x1 ?s =
      Some (None, ?m\<lparr>dm_i := 0\<rparr>, x', start_all (map (\<lambda>d. (poll, arg d)) (polled rs1)) ?s)"
    using Suc.hyps(1) [of ?m x1 rs1 ?s] Suc.hyps(2) Suc.prems r lt by auto
  moreover have "\<not> call_waits ret"
    using Suc.prems(4) r(2) by simp
  ultimately show ?case
    using r lt by (subst init_devices.simps) (simp add: dm_next_def polled_def)
qed

text \<open>C34: The init task initialises the devices of the map in order and starts one polling task for each
  that succeeded, and behind these the user's tasks, and then yields; devices that fail get no task.
  The scheduler runs all of them, when there are enough free slots and no device waits in its
  initialisation.\<close>

theorem init_starts_tasks:
  assumes "sched_ok s" and "dm_i m = 0" and "dm_count m \<le> length (dm_devices m)"
    and "init_all dev_init (take (dm_count m) (dm_devices m)) x = (rs, x')" and "\<forall>(d, ret) \<in> set rs. \<not> call_waits ret"
    and "length fs \<le> length args" and "length (polled rs) + length fs \<le> card (free_slots s)"
  shows "\<exists>s' ts. init_task dev_init poll arg fs args m x s = Some (RET_YIELD, m, x', s') \<and> sched_ok s' \<and>
    ready_tasks s' = ready_tasks s @ ts \<and> distinct ts \<and> set ts \<subseteq> free_slots s \<and>
    map (\<lambda>t. (t_func (tasks s' t), t_arg (tasks s' t))) ts = map (\<lambda>d. (poll, arg d)) (polled rs) @ zip fs args"
proof -
  let ?l = "map (\<lambda>d. (poll, arg d)) (polled rs)"
  have m: "m\<lparr>dm_i := 0\<rparr> = m"
    using assms(2) by simp
  have "init_devices dev_init poll arg m x s = Some (None, m\<lparr>dm_i := 0\<rparr>, x', start_all ?l s)"
    by (rule init_devices_run) (use assms in simp_all)
  moreover have "map (\<lambda>i. (fs ! i, args ! i)) [0..<length fs] = zip fs args"
    by (rule nth_equalityI) (use assms(6) in simp_all)
  then have "fold (\<lambda>i s. snd (sched_start (fs ! i) (args ! i) s)) [0..<length fs] s1 = start_all (zip fs args) s1" for s1
    unfolding start_all_def by (simp flip: \<open>_ = zip fs args\<close> add: fold_map comp_def)
  ultimately have "init_task dev_init poll arg fs args m x s =
      Some (RET_YIELD, m, x', start_all (?l @ zip fs args) s)"
    by (simp add: init_task_def m start_all_def)
  moreover have "length (?l @ zip fs args) \<le> card (free_slots s)"
    using assms(6,7) by simp
  ultimately show ?thesis
    using start_all_ready [OF assms(1), of "?l @ zip fs args"] by blast
qed

theorem init_starts_tasks_witness:
  "\<exists>s' ts. init_task (\<lambda>d x. (if d = (2 :: nat) then RET_ERROR else RET_SUCCESS, x)) (7 :: nat) id [8] [9]
       \<lparr>dm_name = [], dm_names = [[], []], dm_devices = [1, 2], dm_size = 2, dm_count = 2, dm_i = 0\<rparr> () (sched_boot 0 0 ()) =
       Some (RET_YIELD, \<lparr>dm_name = [], dm_names = [[], []], dm_devices = [1, 2], dm_size = 2, dm_count = 2, dm_i = 0\<rparr>, (), s') \<and>
     map (\<lambda>t. (t_func (tasks s' t), t_arg (tasks s' t))) ts = [(7, 1), (8, 9)]"
proof -
  let ?f = "\<lambda>d x :: unit. (if d = (2 :: nat) then RET_ERROR else RET_SUCCESS, x)"
  let ?m = "\<lparr>dm_name = [], dm_names = [[], []], dm_devices = [1, 2], dm_size = 2, dm_count = 2, dm_i = 0\<rparr> :: nat device_map"
  let ?rs = "[(1 :: nat, RET_SUCCESS), (2, RET_ERROR)]"
  have "free_slots (sched_boot (0 :: nat) (0 :: nat) ()) = {..<MAX_NUM_TASKS}"
    by (auto simp: free_slots_def sched_boot_def)
  then have "\<exists>s' ts. init_task ?f (7 :: nat) id [8] [9] ?m () (sched_boot 0 0 ()) = Some (RET_YIELD, ?m, (), s') \<and>
      sched_ok s' \<and> ready_tasks s' = ready_tasks (sched_boot (0 :: nat) (0 :: nat) ()) @ ts \<and> distinct ts \<and>
      set ts \<subseteq> free_slots (sched_boot (0 :: nat) (0 :: nat) ()) \<and>
      map (\<lambda>t. (t_func (tasks s' t), t_arg (tasks s' t))) ts = map (\<lambda>d. (7, id d)) (polled ?rs) @ zip [8] [9]"
    by (intro init_starts_tasks sched_boot_ok) (simp_all add: polled_def call_waits_def MAX_NUM_TASKS_def)
  then show ?thesis
    by (elim exE conjE) (intro exI conjI, assumption, simp add: polled_def)
qed

text \<open>A polling task is never taken off the scheduler: whatever the device returns, the task does not
  return the error code.\<close>

lemma poll_device_not_error: "fst (poll_device poll dev x) \<noteq> RET_ERROR"
  by (auto simp: poll_device_def call_waits_def split: prod.splits)

text \<open>The map finds the device that was added first among those with the given name, comparing 64
  characters, and an addition to a full map is refused.\<close>

theorem device_map_get_add:
  assumes "dm_count m \<le> length (dm_names m)" and "length (dm_names m) = length (dm_devices m)"
    and "dm_size m = length (dm_names m)"
  shows "case dm_add name dev m of (ret, m') \<Rightarrow>
    ret = (if dm_count m < dm_size m then RET_SUCCESS else RET_ERROR) \<and>
    (\<forall>n. dm_get n m' = (case dm_get n m of Some d \<Rightarrow> Some d
       | None \<Rightarrow> if ret = RET_SUCCESS \<and> name_eq n name then Some dev else None))"
proof (cases "dm_count m < dm_size m")
  case True
  let ?k = "dm_count m"
  have f: "find (\<lambda>i. name_eq n ((dm_names m)[?k := name] ! i)) [0..<?k] = find (\<lambda>i. name_eq n (dm_names m ! i)) [0..<?k]" for n
    by (rule find_cong) auto
  have app: "find P (xs @ [y]) = (case find P xs of Some z \<Rightarrow> Some z | None \<Rightarrow> if P y then Some y else None)" for P y and xs :: "nat list"
    by (induction xs) auto
  have "i < ?k" if "find (\<lambda>i. name_eq n (dm_names m ! i)) [0..<?k] = Some i" for n i
    using that by (auto simp: find_Some_iff)
  then show ?thesis
    using True assms by (fastforce simp: dm_add_def dm_get_def app f split: option.splits)
next
  case False
  then show ?thesis by (simp add: dm_add_def split: option.splits)
qed

theorem device_map_get_add_witness:
  "dm_get ''imu'' (snd (dm_add ''imu'' (5 :: nat) (dm_init ''board'' [[], []] [0, 0] 2))) = Some 5"
proof -
  have "case dm_add ''imu'' (5 :: nat) (dm_init ''board'' [[], []] [0, 0] 2) of (ret, m') \<Rightarrow>
      ret = (if dm_count (dm_init ''board'' [[], []] [0 :: nat, 0] 2) < dm_size (dm_init ''board'' [[], []] [0 :: nat, 0] 2)
             then RET_SUCCESS else RET_ERROR) \<and>
      (\<forall>n. dm_get n m' = (case dm_get n (dm_init ''board'' [[], []] [0, 0] 2) of Some d \<Rightarrow> Some d
         | None \<Rightarrow> if ret = RET_SUCCESS \<and> name_eq n ''imu'' then Some 5 else None))"
    by (rule device_map_get_add) (simp_all add: dm_init_def)
  then have "dm_get ''imu'' (snd (dm_add ''imu'' (5 :: nat) (dm_init ''board'' [[], []] [0, 0] 2))) =
      (case dm_get ''imu'' (dm_init ''board'' [[], []] [0 :: nat, 0] 2) of Some d \<Rightarrow> Some d
       | None \<Rightarrow> if name_eq ''imu'' ''imu'' then Some 5 else None)"
    by (simp add: dm_init_def split_beta)
  then show ?thesis
    by (simp add: dm_init_def dm_get_def name_eq_def)
qed

end
