(* ===== verification/BlockDevModel.thy ===== *)
theory BlockDevModel
  imports SyncModel PacketModel
begin

text \<open>
  The block device of src/device/platforms/linux/LinuxBlockDevice.h: a mapped file, in which a
  task that reads or writes waits until the next \<open>poll\<close>.  The mapping is the list \<open>lb_data\<close>; the outcomes
  of the calls to the operating system are arguments of \<open>init\<close> and \<open>poll\<close>.  The static
  labels of the three functions are part of the state.
\<close>

section \<open>State and operations\<close>

datatype lb_place = LbStart | LbWait

record lblock =
  lb_block_size :: size_t
  lb_num_blocks :: size_t
  lb_data :: "u8 list"
  lb_queue :: "int aqueue"
  lb_task_labels :: "lb_place labels"
  lb_read_labels :: "lb_place labels"
  lb_write_labels :: "lb_place labels"

text \<open>The file can be opened, be given its size, and is then mapped to memory or not.\<close>

definition lb_init_device :: "bool \<Rightarrow> bool \<Rightarrow> u8 list option \<Rightarrow> lblock \<Rightarrow> ret_type \<times> lblock" where
  "lb_init_device opened truncated mapped d =
     (if \<not> opened then (RET_ERROR, d)
      else if \<not> truncated then (RET_ERROR, d)
      else (case mapped of
              None \<Rightarrow> (RET_ERROR, d\<lparr>lb_data := []\<rparr>)
            | Some m \<Rightarrow> (RET_SUCCESS, d\<lparr>lb_data := m\<rparr>)))"

definition lb_obtain :: ret_type where "lb_obtain = RET_SUCCESS"
definition lb_release :: ret_type where "lb_release = RET_SUCCESS"

definition lb_block_task ::
  "lblock \<Rightarrow> ('f, 'b, 'w) sched \<Rightarrow> (ret_type \<times> lblock \<times> ('f, 'b, 'w) sched) option" where
  "lb_block_task d s =
     (case mac_resume LbStart (sched_dispatched s) (lb_task_labels d) of
        (LbStart, l) \<Rightarrow>
          (case aq_push (sched_dispatched s) (lb_queue d) of
             (None, q) \<Rightarrow> Some (RET_ERROR, d\<lparr>lb_task_labels := l, lb_queue := q\<rparr>, s)
           | (Some p, q) \<Rightarrow>
               map_option (\<lambda>(r, s', l'). (r, d\<lparr>lb_task_labels := l', lb_queue := q\<rparr>, s')) (mac_block LbWait s l))
      | (LbWait, l) \<Rightarrow>
          Some (RET_SUCCESS, d\<lparr>lb_task_labels := mac_reset LbStart (sched_dispatched s) l\<rparr>, s))"

text \<open>The offset of a block in the mapping; a copy outside of the mapping is \<open>None\<close>.\<close>

definition lb_offset :: "size_t \<Rightarrow> lblock \<Rightarrow> nat" where
  "lb_offset block d = unat (block * lb_block_size d)"

definition lb_write ::
  "size_t \<Rightarrow> u8 list \<Rightarrow> lblock \<Rightarrow> ('f, 'b, 'w) sched \<Rightarrow> (ret_type \<times> lblock \<times> ('f, 'b, 'w) sched) option" where
  "lb_write block data d s =
     (let (place, l) = mac_resume LbStart (sched_dispatched s) (lb_write_labels d) in
      if place = LbStart \<and> block \<ge> lb_num_blocks d then Some (RET_ERROR, d\<lparr>lb_write_labels := l\<rparr>, s)
      else
        (case (if place = LbStart then mem_write (lb_offset block d) (take (unat (lb_block_size d)) data) (lb_data d)
               else Some (lb_data d)) of
           None \<Rightarrow> None
         | Some m \<Rightarrow>
             (let d1 = d\<lparr>lb_data := m, lb_write_labels := set_label (sched_dispatched s) LbWait l\<rparr>
              in case lb_block_task d1 s of
                   None \<Rightarrow> None
                 | Some (ret, d2, s2) \<Rightarrow>
                     if call_waits ret then Some (ret, d2, s2)
                     else Some (ret, d2\<lparr>lb_write_labels := mac_reset LbStart (sched_dispatched s) (lb_write_labels d2)\<rparr>, s2))))"

text \<open>The second component of the result is what was copied to the caller's buffer, if anything.\<close>

definition lb_read ::
  "size_t \<Rightarrow> lblock \<Rightarrow> ('f, 'b, 'w) sched \<Rightarrow> (ret_type \<times> u8 list option \<times> lblock \<times> ('f, 'b, 'w) sched) option" where
  "lb_read block d s =
     (let (place, l) = mac_resume LbStart (sched_dispatched s) (lb_read_labels d) in
      if place = LbStart \<and> block \<ge> lb_num_blocks d then Some (RET_ERROR, None, d\<lparr>lb_read_labels := l\<rparr>, s)
      else
        (case lb_block_task (d\<lparr>lb_read_labels := set_label (sched_dispatched s) LbWait l\<rparr>) s of
           None \<Rightarrow> None
         | Some (ret, d2, s2) \<Rightarrow>
             if call_waits ret then Some (ret, None, d2, s2)
             else
               map_option (\<lambda>buff. (ret, Some buff,
                   d2\<lparr>lb_read_labels := mac_reset LbStart (sched_dispatched s) (lb_read_labels d2)\<rparr>, s2))
                 (mem_read (lb_offset block d2) (unat (lb_block_size d2)) (lb_data d2))))"

partial_function (option) lb_wake_all ::
  "int aqueue \<Rightarrow> ('f, 'b, 'w) sched \<Rightarrow> (int aqueue \<times> ('f, 'b, 'w) sched) option" where
  "lb_wake_all q s =
     (case aq_peek q of
        None \<Rightarrow> Some (q, s)
      | Some task \<Rightarrow>
          (let q1 = aq_pop q
           in case mac_wake (aq_val q1 task) s of None \<Rightarrow> None | Some s1 \<Rightarrow> lb_wake_all q1 s1))"

definition lb_poll :: "bool \<Rightarrow> lblock \<Rightarrow> ('f, 'b, 'w) sched \<Rightarrow> (ret_type \<times> lblock \<times> ('f, 'b, 'w) sched) option" where
  "lb_poll synced d s =
     (if \<not> synced then Some (RET_ERROR, d, s)
      else map_option (\<lambda>(q, s'). (RET_SUCCESS, d\<lparr>lb_queue := q\<rparr>, s')) (lb_wake_all (lb_queue d) s))"

definition lb_get_block_size :: "lblock \<Rightarrow> size_t" where
  "lb_get_block_size d = lb_block_size d"

definition lb_get_num_blocks :: "lblock \<Rightarrow> size_t" where
  "lb_get_num_blocks d = lb_num_blocks d"

section \<open>Waiting and waking\<close>

definition lb_waiters :: "lblock \<Rightarrow> int list" where
  "lb_waiters d = map (aq_val (lb_queue d)) (aq_elems (lb_queue d))"

definition lb_ok :: "lblock \<Rightarrow> bool" where
  "lb_ok d \<longleftrightarrow> aq_inv MAX_NUM_TASKS (lb_queue d) \<and>
     length (lb_data d) = unat (lb_num_blocks d) * unat (lb_block_size d) \<and> length (lb_data d) < 2 ^ 32"

text \<open>A mapping of the size that is asked for makes a device of it, when the product of the two sizes fits.\<close>

lemma lb_init_device_ok:
  assumes "lb_init_device opened truncated mapped d = (RET_SUCCESS, d')" and "aq_inv MAX_NUM_TASKS (lb_queue d)"
    and "\<And>m. mapped = Some m \<Longrightarrow> length m = unat (lb_block_size d * lb_num_blocks d)"
    and "unat (lb_block_size d) * unat (lb_num_blocks d) < 2 ^ 32"
  shows "lb_ok d'"
proof -
  obtain m where m: "mapped = Some m" "d' = d\<lparr>lb_data := m\<rparr>"
    using assms(1) by (auto simp: lb_init_device_def split: if_splits option.splits)
  have "unat (lb_block_size d * lb_num_blocks d) = unat (lb_block_size d) * unat (lb_num_blocks d)"
    using assms(4) iffD1 [OF unat_mult_lem, of "lb_block_size d" "lb_num_blocks d"] by simp
  then show ?thesis
    using assms(2-4) m by (simp add: lb_ok_def mult.commute)
qed

lemma lb_wake_all_ready:
  "aq_inv MAX_NUM_TASKS q \<Longrightarrow> map (aq_val q) (aq_elems q) = map int ts \<Longrightarrow> distinct ts \<Longrightarrow> sched_ok s \<Longrightarrow>
   (\<forall>t \<in> set ts. t < MAX_NUM_TASKS \<and> t_state (tasks s t) = STATE_BLOCKED) \<Longrightarrow>
   \<exists>q' s'. lb_wake_all q s = Some (q', s') \<and> aq_inv MAX_NUM_TASKS q' \<and> aq_elems q' = [] \<and> sched_ok s' \<and>
     ready_tasks s' = ready_tasks s @ ts \<and> (\<forall>t \<in> set ts. t_state (tasks s' t) = STATE_ACTIVE) \<and>
     (\<forall>u. u \<notin> set ts \<longrightarrow> tasks s' u = tasks s u)"
proof (induction ts arbitrary: q s)
  case Nil
  then have "aq_peek q = None"
    using aq_law_peek [of MAX_NUM_TASKS q] by simp
  then show ?case
    using Nil by (subst lb_wake_all.simps) simp
next
  case (Cons t ts)
  obtain e es where e: "aq_elems q = e # es" "aq_val q e = int t" "map (aq_val q) es = map int ts"
    using Cons.prems(2) by (auto simp: Cons_eq_map_conv)
  have q: "aq_peek q = Some e" "aq_inv MAX_NUM_TASKS (aq_pop q)" "aq_elems (aq_pop q) = es" "aq_val (aq_pop q) = aq_val q"
    using aq_law_peek [OF Cons.prems(1)] aq_law_pop [OF Cons.prems(1)] e by simp_all
  have t: "t < MAX_NUM_TASKS" "t_state (tasks s t) = STATE_BLOCKED"
    using Cons.prems(5) by simp_all
  obtain s1 where s1: "sched_wake t s = Some s1" "sched_ok s1" "ready_tasks s1 = ready_tasks s @ [t]"
      "t_state (tasks s1 t) = STATE_ACTIVE" "\<forall>u. u \<noteq> t \<longrightarrow> tasks s1 u = tasks s u"
    using sched_wake_ok [OF Cons.prems(4) t(1)] t(2) by blast
  have nt: "t \<notin> set ts" using Cons.prems(3) by simp
  have pre: "map (aq_val (aq_pop q)) (aq_elems (aq_pop q)) = map int ts" "distinct ts"
      "\<forall>u \<in> set ts. u < MAX_NUM_TASKS \<and> t_state (tasks s1 u) = STATE_BLOCKED"
    using q e Cons.prems(3,5) s1(5) nt by auto
  obtain q' s' where r: "lb_wake_all (aq_pop q) s1 = Some (q', s')" "aq_inv MAX_NUM_TASKS q'" "aq_elems q' = []"
      "sched_ok s'" "ready_tasks s' = ready_tasks s1 @ ts" "\<forall>t \<in> set ts. t_state (tasks s' t) = STATE_ACTIVE"
      "\<forall>u. u \<notin> set ts \<longrightarrow> tasks s' u = tasks s1 u"
    using Cons.IH [OF q(2) pre(1,2) s1(2) pre(3)] by (elim exE conjE)
  have "lb_wake_all q s = Some (q', s')"
    using q s1(1) e(2) r(1) t(1) by (subst lb_wake_all.simps) (simp add: mac_wake_def)
  moreover have "tasks s' t = tasks s1 t"
    using r(7) nt by blast
  ultimately show ?case
    using r s1 by (intro exI [of _ q'] exI [of _ s']) auto
qed

text \<open>\<open>poll\<close> wakes every task that waits for the device, in the order in which they began to wait, and
  leaves none behind; it returns for every number of them.\<close>

theorem block_poll_wakes_all:
  assumes "lb_ok d" and "lb_waiters d = map int ts" and "distinct ts" and "sched_ok s"
    and "\<forall>t \<in> set ts. t < MAX_NUM_TASKS \<and> t_state (tasks s t) = STATE_BLOCKED"
  shows "\<exists>d' s'. lb_poll True d s = Some (RET_SUCCESS, d', s') \<and> lb_ok d' \<and> lb_waiters d' = [] \<and> sched_ok s' \<and>
    ready_tasks s' = ready_tasks s @ ts \<and> (\<forall>t \<in> set ts. t_state (tasks s' t) = STATE_ACTIVE) \<and>
    lb_data d' = lb_data d"
proof -
  have "aq_inv MAX_NUM_TASKS (lb_queue d)" "map (aq_val (lb_queue d)) (aq_elems (lb_queue d)) = map int ts"
    using assms(1,2) by (simp_all add: lb_ok_def lb_waiters_def)
  from lb_wake_all_ready [OF this assms(3-5)] obtain q' s' where "lb_wake_all (lb_queue d) s = Some (q', s')"
      "aq_inv MAX_NUM_TASKS q'" "aq_elems q' = []" "sched_ok s'" "ready_tasks s' = ready_tasks s @ ts"
      "\<forall>t \<in> set ts. t_state (tasks s' t) = STATE_ACTIVE"
    by blast
  then show ?thesis
    using assms(1) by (intro exI [of _ "d\<lparr>lb_queue := q'\<rparr>"] exI [of _ s']) (simp add: lb_poll_def lb_ok_def lb_waiters_def)
qed

section \<open>Writing and reading\<close>

definition lb_block :: "nat \<Rightarrow> lblock \<Rightarrow> u8 list" where
  "lb_block b d = take (unat (lb_block_size d)) (drop (b * unat (lb_block_size d)) (lb_data d))"

text \<open>Task \<open>t\<close> starts the function with these labels afresh.\<close>

definition lb_fresh :: "nat \<Rightarrow> lb_place labels \<Rightarrow> bool" where
  "lb_fresh t l \<longleftrightarrow> fst (mac_resume LbStart (int t) l) = LbStart"

lemma lb_resume_init: "lb_init (snd (mac_resume start tid l))"
  by (simp add: mac_resume_def Let_def)

lemma resume_label [simp]:
  "mac_resume start tid (set_label tid p (snd (mac_resume start tid l))) = (p, set_label tid p (snd (mac_resume start tid l)))"
  by (rule resume_after_set [OF lb_resume_init])

lemma lb_block_task_waits:
  assumes ok: "lb_ok d" and room: "length (lb_waiters d) < MAX_NUM_TASKS" and fresh: "lb_fresh t (lb_task_labels d)"
    and s: "sched_ok s" "sched_dispatched s = int t" "t < MAX_NUM_TASKS" "t_state (tasks s t) \<noteq> STATE_UNALLOCATED"
  shows "\<exists>q s'. lb_block_task d s = Some (RET_BLOCKED,
      d\<lparr>lb_task_labels := set_label (int t) LbWait (snd (mac_resume LbStart (int t) (lb_task_labels d))), lb_queue := q\<rparr>, s') \<and>
    lb_ok (d\<lparr>lb_queue := q\<rparr>) \<and> lb_waiters (d\<lparr>lb_queue := q\<rparr>) = lb_waiters d @ [int t] \<and> sched_ok s' \<and>
    t_state (tasks s' t) = STATE_BLOCKED \<and> t \<notin> set (ready_tasks s') \<and> (\<forall>u. u \<noteq> t \<longrightarrow> tasks s' u = tasks s u)"
proof -
  have inv: "aq_inv MAX_NUM_TASKS (lb_queue d)" and len: "length (aq_elems (lb_queue d)) < MAX_NUM_TASKS"
    using ok room by (simp_all add: lb_ok_def lb_waiters_def)
  obtain p q where q: "aq_push (int t) (lb_queue d) = (Some p, q)" "aq_inv MAX_NUM_TASKS q"
      "p \<notin> set (aq_elems (lb_queue d))" "aq_elems q = aq_elems (lb_queue d) @ [p]"
      "aq_val q = (aq_val (lb_queue d))(p := int t)"
    using aq_law_push [OF inv len, of "int t"] by blast
  obtain s' where s': "sched_block t s = Some s'" "sched_ok s'" "t_state (tasks s' t) = STATE_BLOCKED"
      "t \<notin> set (ready_tasks s')" "\<forall>u. u \<noteq> t \<longrightarrow> tasks s' u = tasks s u"
    using sched_block_ok [OF s(1,3,4)] by blast
  obtain l where l: "mac_resume LbStart (int t) (lb_task_labels d) = (LbStart, l)"
    using fresh by (cases "mac_resume LbStart (int t) (lb_task_labels d)") (simp add: lb_fresh_def)
  have "lb_waiters (d\<lparr>lb_queue := q\<rparr>) = lb_waiters d @ [int t]"
    using q(3-5) by (simp add: lb_waiters_def)
  then show ?thesis
    using ok q s' s(2,3) l by (intro exI [of _ q] exI [of _ s']) (simp add: lb_block_task_def lb_ok_def mac_block_def)
qed

lemma lb_block_task_resumed:
  assumes "lb_task_labels d = set_label (int t) LbWait l" and "lb_init l" and "sched_dispatched s = int t"
  shows "lb_block_task d s = Some (RET_SUCCESS, d\<lparr>lb_task_labels := mac_reset LbStart (int t) (lb_task_labels d)\<rparr>, s)"
  using assms by (simp add: lb_block_task_def resume_after_set)

lemma lb_poll_one:
  assumes "lb_ok d" and "lb_waiters d = [int t]" and "sched_ok s" and "t < MAX_NUM_TASKS"
    and "t_state (tasks s t) = STATE_BLOCKED"
  shows "\<exists>q s'. lb_poll True d s = Some (RET_SUCCESS, d\<lparr>lb_queue := q\<rparr>, s') \<and> sched_ok s' \<and>
    lb_ok (d\<lparr>lb_queue := q\<rparr>) \<and> lb_waiters (d\<lparr>lb_queue := q\<rparr>) = [] \<and> ready_tasks s' = ready_tasks s @ [t]"
proof -
  have "aq_inv MAX_NUM_TASKS (lb_queue d)" "map (aq_val (lb_queue d)) (aq_elems (lb_queue d)) = map int [t]"
    using assms(1,2) by (simp_all add: lb_ok_def lb_waiters_def)
  from lb_wake_all_ready [OF this, of s] assms(3-5) obtain q s' where "lb_wake_all (lb_queue d) s = Some (q, s')"
      "aq_inv MAX_NUM_TASKS q" "aq_elems q = []" "sched_ok s'" "ready_tasks s' = ready_tasks s @ [t]"
    by auto
  then show ?thesis
    using assms(1) by (intro exI [of _ q] exI [of _ s']) (simp add: lb_poll_def lb_ok_def lb_waiters_def)
qed

text \<open>The arithmetic of the offsets.\<close>

lemma lb_offset_nat:
  assumes "lb_ok d" and "block < lb_num_blocks d"
  shows "lb_offset block d = unat block * unat (lb_block_size d)"
    and "unat block * unat (lb_block_size d) + unat (lb_block_size d) \<le> length (lb_data d)"
proof -
  have "(unat block + 1) * unat (lb_block_size d) \<le> unat (lb_num_blocks d) * unat (lb_block_size d)"
    using assms(2) by (intro mult_le_mono1) (simp add: word_less_nat_alt)
  then show le: "unat block * unat (lb_block_size d) + unat (lb_block_size d) \<le> length (lb_data d)"
    using assms(1) by (simp add: lb_ok_def algebra_simps)
  then have "unat block * unat (lb_block_size d) < 2 ^ 32"
    using assms(1) by (simp add: lb_ok_def)
  then show "lb_offset block d = unat block * unat (lb_block_size d)"
    by (simp add: lb_offset_def unat_mult_lem [THEN iffD1])
qed

lemma mem_write_blocks:
  fixes n b c :: nat
  assumes "length x = n" and "b * n + n \<le> length m"
  shows "\<exists>m'. mem_write (b * n) x m = Some m' \<and> length m' = length m \<and> take n (drop (b * n) m') = x \<and>
    (\<forall>c. c \<noteq> b \<longrightarrow> take n (drop (c * n) m') = take n (drop (c * n) m))"
proof -
  let ?m = "take (b * n) m @ x @ drop (b * n + n) m"
  have "take n (drop (c * n) ?m) = take n (drop (c * n) m)" if "c \<noteq> b" for c
  proof (cases "c < b")
    case True
    then have "(c + 1) * n \<le> b * n"
      by (intro mult_le_mono1) simp
    then have "c * n + n \<le> b * n" by simp
    then have le: "c * n \<le> b * n" "n \<le> b * n - c * n"
      by linarith+
    then have "drop (c * n) ?m = take (b * n - c * n) (drop (c * n) m) @ x @ drop (b * n + n) m"
      using assms by (simp add: drop_take)
    moreover have "length (take (b * n - c * n) (drop (c * n) m)) = b * n - c * n"
      using le assms by simp
    ultimately show ?thesis
      using le by simp
  next
    case False
    then have "b * n + n \<le> c * n"
      using that mult_le_mono1 [of "b + 1" c n] by simp
    moreover from this have "b * n \<le> c * n" "n \<le> c * n - b * n"
      by linarith+
    then have "drop (c * n) ?m = drop (c * n - (b * n + n)) (drop (b * n + n) m)"
      using assms by simp
    ultimately show ?thesis by simp
  qed
  then show ?thesis
    using assms by (intro exI [of _ ?m]) (simp add: mem_write_def)
qed

text \<open>C32: A task that writes a block is blocked until the next poll, its write then returns success, and the
  block holds the data while all other blocks are as before.\<close>

theorem block_write_read:
  assumes ok: "lb_ok d" "lb_waiters d = []" and labels: "lb_fresh t (lb_task_labels d)" "lb_fresh t (lb_write_labels d)"
    and block: "block < lb_num_blocks d" "length data = unat (lb_block_size d)"
    and s: "sched_ok s" "sched_dispatched s = int t" "t < MAX_NUM_TASKS" "t_state (tasks s t) \<noteq> STATE_UNALLOCATED"
  shows "\<exists>d1 s1 d2 s2 d3. lb_write block data d s = Some (RET_BLOCKED, d1, s1) \<and> t \<notin> set (ready_tasks s1) \<and>
    lb_poll True d1 s1 = Some (RET_SUCCESS, d2, s2) \<and> ready_tasks s2 = ready_tasks s1 @ [t] \<and>
    lb_write block data d2 (s2\<lparr>sched_dispatched := int t\<rparr>) = Some (RET_SUCCESS, d3, s2\<lparr>sched_dispatched := int t\<rparr>) \<and>
    lb_ok d3 \<and> lb_waiters d3 = [] \<and> lb_block (unat block) d3 = data \<and>
    (\<forall>b. b \<noteq> unat block \<longrightarrow> lb_block b d3 = lb_block b d)"
proof -
  note off = lb_offset_nat [OF ok(1) block(1)]
  obtain m where m: "mem_write (unat block * unat (lb_block_size d)) data (lb_data d) = Some m"
      "length m = length (lb_data d)"
      "take (unat (lb_block_size d)) (drop (unat block * unat (lb_block_size d)) m) = data"
      "\<forall>c. c \<noteq> unat block \<longrightarrow> take (unat (lb_block_size d)) (drop (c * unat (lb_block_size d)) m) =
         take (unat (lb_block_size d)) (drop (c * unat (lb_block_size d)) (lb_data d))"
    using mem_write_blocks [OF block(2) off(2)] by blast
  obtain l where l: "mac_resume LbStart (int t) (lb_write_labels d) = (LbStart, l)" "lb_init l"
    using labels(2) lb_resume_init [of LbStart "int t" "lb_write_labels d"]
    by (cases "mac_resume LbStart (int t) (lb_write_labels d)") (simp add: lb_fresh_def)
  let ?l = "set_label (int t) LbWait l" and ?lt = "snd (mac_resume LbStart (int t) (lb_task_labels d))"
  let ?d0 = "d\<lparr>lb_data := m, lb_write_labels := ?l\<rparr>"
  have d0: "lb_ok ?d0" "lb_waiters ?d0 = []" "lb_fresh t (lb_task_labels ?d0)"
    using ok labels(1) m(2) by (simp_all add: lb_ok_def lb_waiters_def)
  have "length (lb_waiters ?d0) < MAX_NUM_TASKS"
    using d0(2) by (simp add: MAX_NUM_TASKS_def)
  from lb_block_task_waits [OF d0(1) this d0(3) s] obtain q s1 where
    w: "lb_block_task ?d0 s = Some (RET_BLOCKED, ?d0\<lparr>lb_task_labels := set_label (int t) LbWait ?lt, lb_queue := q\<rparr>, s1)"
      "lb_ok (?d0\<lparr>lb_queue := q\<rparr>)" "lb_waiters (?d0\<lparr>lb_queue := q\<rparr>) = [int t]" "sched_ok s1"
      "t_state (tasks s1 t) = STATE_BLOCKED" "t \<notin> set (ready_tasks s1)"
    using d0(2) by auto
  let ?d1 = "?d0\<lparr>lb_task_labels := set_label (int t) LbWait ?lt, lb_queue := q\<rparr>"
  have d1: "lb_ok ?d1" "lb_waiters ?d1 = [int t]"
    using w(2,3) by (simp_all add: lb_ok_def lb_waiters_def)
  obtain q2 s2 where p: "lb_poll True ?d1 s1 = Some (RET_SUCCESS, ?d1\<lparr>lb_queue := q2\<rparr>, s2)" "sched_ok s2"
      "lb_ok (?d1\<lparr>lb_queue := q2\<rparr>)" "lb_waiters (?d1\<lparr>lb_queue := q2\<rparr>) = []" "ready_tasks s2 = ready_tasks s1 @ [t]"
    using lb_poll_one [OF d1 w(4) s(3) w(5)] by blast
  let ?d2 = "?d1\<lparr>lb_queue := q2\<rparr>" and ?s2 = "s2\<lparr>sched_dispatched := int t\<rparr>"
  let ?e = "?d2\<lparr>lb_data := lb_data ?d2, lb_write_labels := set_label (int t) LbWait ?l\<rparr>"
  let ?d3 = "?e\<lparr>lb_task_labels := mac_reset LbStart (int t) (lb_task_labels ?e),
                lb_write_labels := mac_reset LbStart (int t) (lb_write_labels ?e)\<rparr>"
  have "lb_write block data d s = Some (RET_BLOCKED, ?d1, s1)"
    using l(1) w(1) m(1) off(1) block s(2) by (simp add: lb_write_def call_waits_def not_le)
  moreover have "lb_block_task ?e ?s2 =
      Some (RET_SUCCESS, ?e\<lparr>lb_task_labels := mac_reset LbStart (int t) (lb_task_labels ?e)\<rparr>, ?s2)"
    by (rule lb_block_task_resumed [of _ _ ?lt]) (simp_all add: lb_resume_init)
  then have "lb_write block data ?d2 ?s2 = Some (RET_SUCCESS, ?d3, ?s2)"
    using resume_after_set [OF l(2), of LbStart "int t" LbWait] by (simp add: lb_write_def call_waits_def)
  moreover have "lb_ok ?d3" "lb_waiters ?d3 = []" "lb_block (unat block) ?d3 = data"
      "\<forall>b. b \<noteq> unat block \<longrightarrow> lb_block b ?d3 = lb_block b d"
    using p(3,4) m(3,4) by (simp_all add: lb_ok_def lb_waiters_def lb_block_def)
  ultimately show ?thesis
    using w(6) p(1,5) by blast
qed

text \<open>A task that reads a block is blocked until the next poll and then gets what the block holds, and the
  device is as before.\<close>

theorem block_read_waits:
  assumes ok: "lb_ok d" "lb_waiters d = []" and labels: "lb_fresh t (lb_task_labels d)" "lb_fresh t (lb_read_labels d)"
    and block: "block < lb_num_blocks d"
    and s: "sched_ok s" "sched_dispatched s = int t" "t < MAX_NUM_TASKS" "t_state (tasks s t) \<noteq> STATE_UNALLOCATED"
  shows "\<exists>d1 s1 d2 s2 d3. lb_read block d s = Some (RET_BLOCKED, None, d1, s1) \<and> t \<notin> set (ready_tasks s1) \<and>
    lb_poll True d1 s1 = Some (RET_SUCCESS, d2, s2) \<and> ready_tasks s2 = ready_tasks s1 @ [t] \<and>
    lb_read block d2 (s2\<lparr>sched_dispatched := int t\<rparr>) =
      Some (RET_SUCCESS, Some (lb_block (unat block) d), d3, s2\<lparr>sched_dispatched := int t\<rparr>) \<and>
    lb_ok d3 \<and> lb_waiters d3 = [] \<and> lb_data d3 = lb_data d"
proof -
  note off = lb_offset_nat [OF ok(1) block]
  obtain l where l: "mac_resume LbStart (int t) (lb_read_labels d) = (LbStart, l)" "lb_init l"
    using labels(2) lb_resume_init [of LbStart "int t" "lb_read_labels d"]
    by (cases "mac_resume LbStart (int t) (lb_read_labels d)") (simp add: lb_fresh_def)
  let ?l = "set_label (int t) LbWait l" and ?lt = "snd (mac_resume LbStart (int t) (lb_task_labels d))"
  let ?d0 = "d\<lparr>lb_read_labels := ?l\<rparr>"
  have d0: "lb_ok ?d0" "lb_waiters ?d0 = []" "lb_fresh t (lb_task_labels ?d0)"
    using ok labels(1) by (simp_all add: lb_ok_def lb_waiters_def)
  have "length (lb_waiters ?d0) < MAX_NUM_TASKS"
    using d0(2) by (simp add: MAX_NUM_TASKS_def)
  from lb_block_task_waits [OF d0(1) this d0(3) s] obtain q s1 where
    w: "lb_block_task ?d0 s = Some (RET_BLOCKED, ?d0\<lparr>lb_task_labels := set_label (int t) LbWait ?lt, lb_queue := q\<rparr>, s1)"
      "lb_ok (?d0\<lparr>lb_queue := q\<rparr>)" "lb_waiters (?d0\<lparr>lb_queue := q\<rparr>) = [int t]" "sched_ok s1"
      "t_state (tasks s1 t) = STATE_BLOCKED" "t \<notin> set (ready_tasks s1)"
    using d0(2) by auto
  let ?d1 = "?d0\<lparr>lb_task_labels := set_label (int t) LbWait ?lt, lb_queue := q\<rparr>"
  have d1: "lb_ok ?d1" "lb_waiters ?d1 = [int t]"
    using w(2,3) by (simp_all add: lb_ok_def lb_waiters_def)
  obtain q2 s2 where p: "lb_poll True ?d1 s1 = Some (RET_SUCCESS, ?d1\<lparr>lb_queue := q2\<rparr>, s2)" "sched_ok s2"
      "lb_ok (?d1\<lparr>lb_queue := q2\<rparr>)" "lb_waiters (?d1\<lparr>lb_queue := q2\<rparr>) = []" "ready_tasks s2 = ready_tasks s1 @ [t]"
    using lb_poll_one [OF d1 w(4) s(3) w(5)] by blast
  let ?d2 = "?d1\<lparr>lb_queue := q2\<rparr>" and ?s2 = "s2\<lparr>sched_dispatched := int t\<rparr>"
  let ?e = "?d2\<lparr>lb_read_labels := set_label (int t) LbWait ?l\<rparr>"
  let ?d3 = "?e\<lparr>lb_task_labels := mac_reset LbStart (int t) (lb_task_labels ?e),
                lb_read_labels := mac_reset LbStart (int t) (lb_read_labels ?e)\<rparr>"
  have "lb_read block d s = Some (RET_BLOCKED, None, ?d1, s1)"
    using l(1) w(1) block s(2) by (simp add: lb_read_def call_waits_def not_le)
  moreover have "lb_block_task ?e ?s2 =
      Some (RET_SUCCESS, ?e\<lparr>lb_task_labels := mac_reset LbStart (int t) (lb_task_labels ?e)\<rparr>, ?s2)"
    by (rule lb_block_task_resumed [of _ _ ?lt]) (simp_all add: lb_resume_init)
  then have "lb_read block ?d2 ?s2 = Some (RET_SUCCESS, Some (lb_block (unat block) d), ?d3, ?s2)"
    using resume_after_set [OF l(2), of LbStart "int t" LbWait] off
    by (simp add: lb_read_def call_waits_def mem_read_def lb_block_def lb_offset_def)
  moreover have "lb_ok ?d3" "lb_waiters ?d3 = []" "lb_data ?d3 = lb_data d"
    using p(3,4) by (simp_all add: lb_ok_def lb_waiters_def)
  ultimately show ?thesis
    using w(6) p(1,5) by blast
qed

text \<open>Two blocks of two bytes, and a task that runs.\<close>

definition ex_lblock :: lblock where
  "ex_lblock = (let l = \<lparr>lb_init = False, lb_current = (\<lambda>i. LbStart)\<rparr> in
     \<lparr>lb_block_size = 2, lb_num_blocks = 2, lb_data = [1, 2, 3, 4], lb_queue = boot_aqueue 0 MAX_NUM_TASKS,
      lb_task_labels = l, lb_read_labels = l, lb_write_labels = l\<rparr>)"

lemma ex_lblock_ok:
  "lb_ok ex_lblock" "lb_waiters ex_lblock = []" "lb_fresh 0 (lb_task_labels ex_lblock)"
  "lb_fresh 0 (lb_read_labels ex_lblock)" "lb_fresh 0 (lb_write_labels ex_lblock)"
  "lb_num_blocks ex_lblock = 2" "lb_block_size ex_lblock = 2" "lb_data ex_lblock = [1, 2, 3, 4]"
  using boot_aqueue_inv [of MAX_NUM_TASKS "0 :: int"] boot_aqueue_elems [of MAX_NUM_TASKS "0 :: int"]
  by (simp_all add: ex_lblock_def Let_def lb_ok_def lb_waiters_def lb_fresh_def mac_resume_def MAX_NUM_TASKS_def)

lemma running_task:
  defines "s \<equiv> snd (sched_start (0 :: nat) () (sched_boot 0 () ()))\<lparr>sched_dispatched := 0\<rparr>"
  shows "sched_ok s" "sched_dispatched s = int 0" "0 < MAX_NUM_TASKS" "t_state (tasks s 0) \<noteq> STATE_UNALLOCATED"
  using one_task_ex [of "0 :: nat" "()" "()"] one_task_blocked [of "0 :: nat" "()" "()"]
  by (auto simp: s_def one_task_def MAX_NUM_TASKS_def)

theorem block_write_read_witness:
  "\<exists>d1 s1. lb_write 1 [7, 8] ex_lblock (snd (sched_start (0 :: nat) () (sched_boot 0 () ()))\<lparr>sched_dispatched := 0\<rparr>) =
     Some (RET_BLOCKED, d1, s1)"
proof -
  have b: "1 < lb_num_blocks ex_lblock" "length [7, 8 :: u8] = unat (lb_block_size ex_lblock)"
    by (simp_all add: ex_lblock_ok)
  from block_write_read [OF ex_lblock_ok(1,2,3,5) b running_task] show ?thesis
    by blast
qed

theorem block_read_waits_witness:
  "\<exists>d2 s2 d3. lb_read 1 d2 s2 = Some (RET_SUCCESS, Some [3, 4], d3, s2 :: (nat, unit, unit) sched)"
proof -
  have "1 < lb_num_blocks ex_lblock"
    by (simp add: ex_lblock_ok)
  moreover have "lb_block (unat (1 :: size_t)) ex_lblock = [3, 4]"
    by (simp add: lb_block_def ex_lblock_ok)
  ultimately show ?thesis
    using block_read_waits [OF ex_lblock_ok(1-4) _ running_task, of 1] by (metis (lifting))
qed

theorem block_poll_wakes_all_witness:
  "\<exists>d'. lb_poll True ex_lblock (sched_boot (0 :: nat) () ()) = Some (RET_SUCCESS, d', sched_boot 0 () ())"
proof -
  have "lb_waiters ex_lblock = map int []"
    by (simp add: ex_lblock_ok)
  from block_poll_wakes_all [OF ex_lblock_ok(1) this _ sched_boot_ok [of "0 :: nat" "()" "()"]]
  have "\<exists>d' s'. lb_poll True ex_lblock (sched_boot (0 :: nat) () ()) = Some (RET_SUCCESS, d', s')"
    by auto
  moreover have "aq_peek (lb_queue ex_lblock) = None"
    using aq_law_peek [of MAX_NUM_TASKS "lb_queue ex_lblock"] ex_lblock_ok(1,2) by (simp add: lb_ok_def lb_waiters_def)
  then have "lb_wake_all (lb_queue ex_lblock) (sched_boot (0 :: nat) () ()) = Some (lb_queue ex_lblock, sched_boot 0 () ())"
    by (subst lb_wake_all.simps) simp
  ultimately show ?thesis
    by (auto simp: lb_poll_def)
qed

end
