(* ===== verification/ChainFSModel.thy ===== *)
theory ChainFSModel
  imports BlockDevModel
begin

text \<open>
  The chain file system of src/filesystem/ChainFS (ChainFS.h, descriptors.h): descriptors in blocks of
  a device, linked by block numbers from block 0 on.  The device is a parameter: \<open>rd\<close> and \<open>wr\<close> are its
  completed calls.  What the file system relies on is the locale \<open>block_store\<close>, interpreted on the
  block device of \<open>BlockDevModel\<close>.  Offsets in a descriptor: type 0, next block 4; in a free one also
  start 8, length 12.  A copy that leaves the buffer of one block, or a loop that does not end, is
  \<open>None\<close>.  \<open>open\<close> uses variables that are declared nowhere and is not modelled; the operations on open
  files are stubs.
\<close>

section \<open>State\<close>

definition MAX_BLOCK_SIZE :: nat where
  "MAX_BLOCK_SIZE = 2048"

definition MAX_OPEN_FILES :: nat where
  "MAX_OPEN_FILES = 16"

definition NAME_DESCRIPTOR :: u32 where
  "NAME_DESCRIPTOR = 1"

definition DATA_DESCRIPTOR :: u32 where
  "DATA_DESCRIPTOR = 2"

definition FREE_DESCRIPTOR :: u32 where
  "FREE_DESCRIPTOR = 3"

text \<open>The size of the union of the descriptors, and the block number that ends a chain.\<close>

definition DESC_SIZE :: size_t where
  "DESC_SIZE = 28"

definition NO_BLOCK :: u32 where
  "NO_BLOCK = 0xFFFFFFFF"

record cf_file =
  fl_open :: bool
  fl_rdata :: "u8 list"
  fl_wdata :: "u8 list"
  fl_rdesc :: "u8 list"
  fl_wdesc :: "u8 list"
  fl_rdesc_block :: u32
  fl_wdesc_block :: u32
  fl_read_block :: u32
  fl_read_offset :: u32
  fl_write_block :: u32
  fl_write_offset :: u32
  fl_name_block :: u32

definition file_zero :: cf_file where
  "file_zero = (let z = replicate MAX_BLOCK_SIZE 0 in
     \<lparr>fl_open = False, fl_rdata = z, fl_wdata = z, fl_rdesc = z, fl_wdesc = z, fl_rdesc_block = 0, fl_wdesc_block = 0,
      fl_read_block = 0, fl_read_offset = 0, fl_write_block = 0, fl_write_offset = 0, fl_name_block = 0\<rparr>)"

record 'd chainfs =
  cf_dev :: 'd
  cf_block :: "u8 list"
  cf_block_size :: size_t
  cf_num_blocks :: size_t
  cf_last :: u32
  cf_free :: u32
  cf_queue :: "int aqueue"
  cf_files :: "cf_file list"

definition cf_new :: "'d \<Rightarrow> size_t \<Rightarrow> size_t \<Rightarrow> u8 list \<Rightarrow> int aqueue \<Rightarrow> cf_file list \<Rightarrow> 'd chainfs" where
  "cf_new dev bsize num block q files =
     \<lparr>cf_dev = dev, cf_block = block, cf_block_size = bsize, cf_num_blocks = num, cf_last = NO_BLOCK, cf_free = NO_BLOCK,
      cf_queue = q, cf_files = files\<rparr>"

section \<open>Operations\<close>

type_synonym 'd block_read = "u32 \<Rightarrow> 'd \<Rightarrow> ret_type \<times> u8 list \<times> 'd"
type_synonym 'd block_write = "u32 \<Rightarrow> u8 list \<Rightarrow> 'd \<Rightarrow> ret_type \<times> 'd"

text \<open>Reading a block into the buffer, and writing the buffer to a block.\<close>

definition cf_read :: "'d block_read \<Rightarrow> u32 \<Rightarrow> 'd chainfs \<Rightarrow> (ret_type \<times> 'd chainfs) option" where
  "cf_read rd b s =
     (case rd b (cf_dev s) of
        (ret, data, dev) \<Rightarrow> map_option (\<lambda>m. (ret, s\<lparr>cf_dev := dev, cf_block := m\<rparr>)) (mem_write 0 data (cf_block s)))"

definition cf_write :: "'d block_write \<Rightarrow> u32 \<Rightarrow> 'd chainfs \<Rightarrow> ret_type \<times> 'd chainfs" where
  "cf_write wr b s =
     (case wr b (take (unat (cf_block_size s)) (cf_block s)) (cf_dev s) of (ret, dev) \<Rightarrow> (ret, s\<lparr>cf_dev := dev\<rparr>))"

fun cf_push_fds :: "nat list \<Rightarrow> 'd chainfs \<Rightarrow> bool \<times> 'd chainfs" where
  "cf_push_fds [] s = (True, s)"
| "cf_push_fds (i # is) s =
     (case aq_push (int i) (cf_queue s) of
        (None, q) \<Rightarrow> (False, s\<lparr>cf_queue := q\<rparr>)
      | (Some p, q) \<Rightarrow> cf_push_fds is (s\<lparr>cf_queue := q, cf_files := (cf_files s)[i := file_zero]\<rparr>))"

text \<open>The loop along the chain: the block to look at and the one before it.\<close>

partial_function (option) cf_scan ::
  "'d block_read \<Rightarrow> u32 \<Rightarrow> u32 \<Rightarrow> 'd chainfs \<Rightarrow> (ret_type \<times> u32 \<times> 'd chainfs) option" where
  "cf_scan rd b prev s =
     (if b = NO_BLOCK then Some (RET_SUCCESS, prev, s)
      else
        (case cf_read rd b s of
           None \<Rightarrow> None
         | Some (ret, s1) \<Rightarrow>
             if ret \<noteq> RET_SUCCESS then Some (ret, prev, s1)
             else cf_scan rd (le32 (cf_block s1) 4) b
                    (if le32 (cf_block s1) 0 = FREE_DESCRIPTOR then s1\<lparr>cf_free := b\<rparr> else s1)))"

definition cf_init :: "'d block_read \<Rightarrow> 'd chainfs \<Rightarrow> (ret_type \<times> 'd chainfs) option" where
  "cf_init rd s =
     (if cf_block_size s < DESC_SIZE then Some (RET_ERROR, s)
      else
        (case cf_push_fds [0..<MAX_OPEN_FILES] s of
           (False, s1) \<Rightarrow> Some (RET_ERROR, s1)
         | (True, s1) \<Rightarrow>
             (case cf_scan rd 0 0 s1 of
                None \<Rightarrow> None
              | Some (ret, prev, s2) \<Rightarrow>
                  Some (if ret \<noteq> RET_SUCCESS then (ret, s2) else (RET_SUCCESS, s2\<lparr>cf_last := prev\<rparr>)))))"

definition cf_format :: "'d block_write \<Rightarrow> 'd chainfs \<Rightarrow> ret_type \<times> 'd chainfs" where
  "cf_format wr s =
     (if unat (cf_block_size s) > MAX_BLOCK_SIZE then (RET_ERROR, s)
      else if cf_block_size s < DESC_SIZE then (RET_ERROR, s)
      else cf_write wr 0
             (s\<lparr>cf_block := store32 (cf_num_blocks s - 1) 12 (store32 1 8 (store32 NO_BLOCK 4 (store32 FREE_DESCRIPTOR 0 (cf_block s))))\<rparr>))"

text \<open>The search for a free descriptor with \<open>num\<close> blocks: the block in which it is, or \<open>NO_BLOCK\<close>.\<close>

partial_function (option) cf_find_free ::
  "'d block_read \<Rightarrow> u32 \<Rightarrow> u32 \<Rightarrow> 'd chainfs \<Rightarrow> (ret_type \<times> u32 \<times> 'd chainfs) option" where
  "cf_find_free rd num b s =
     (case cf_read rd b s of
        None \<Rightarrow> None
      | Some (ret, s1) \<Rightarrow>
          if ret \<noteq> RET_SUCCESS then Some (ret, b, s1)
          else if le32 (cf_block s1) 0 = FREE_DESCRIPTOR \<and> le32 (cf_block s1) 12 \<ge> num then Some (RET_SUCCESS, b, s1)
          else
            (let b1 = le32 (cf_block s1) 4; b2 = (if b1 = NO_BLOCK then 0 else b1)
             in if b2 = cf_free s1 then Some (RET_SUCCESS, NO_BLOCK, s1) else cf_find_free rd num b2 s1))"

definition cf_get_free_blocks ::
  "'d block_read \<Rightarrow> 'd block_write \<Rightarrow> u32 \<Rightarrow> 'd chainfs \<Rightarrow> (ret_type \<times> u32 option \<times> 'd chainfs) option" where
  "cf_get_free_blocks rd wr num s =
     (if cf_free s = NO_BLOCK then Some (RET_ERROR, None, s)
      else
        (case cf_find_free rd num (cf_free s) s of
           None \<Rightarrow> None
         | Some (ret, b, s1) \<Rightarrow>
             if ret \<noteq> RET_SUCCESS then Some (ret, None, s1)
             else if b = NO_BLOCK then Some (RET_ERROR, None, s1)
             else
               (let start = le32 (cf_block s1) 8;
                    m = store32 (le32 (cf_block s1) 12 - num) 12 (store32 (start + num) 8 (cf_block s1))
                in case cf_write wr (cf_free s1) (s1\<lparr>cf_block := m\<rparr>) of (ret, s2) \<Rightarrow> Some (ret, Some start, s2))))"

definition cf_add_descriptor ::
  "'d block_read \<Rightarrow> 'd block_write \<Rightarrow> u8 list \<Rightarrow> u32 \<Rightarrow> u32 \<Rightarrow> nat \<Rightarrow> 'd chainfs \<Rightarrow> (ret_type \<times> 'd chainfs) option" where
  "cf_add_descriptor rd wr desc block type n s =
     (case cf_read rd (cf_last s) s of
        None \<Rightarrow> None
      | Some (ret, s1) \<Rightarrow>
          if ret \<noteq> RET_SUCCESS then Some (ret, s1)
          else
            (case cf_write wr (cf_last s1) (s1\<lparr>cf_block := store32 block 4 (cf_block s1)\<rparr>) of
               (ret, s2) \<Rightarrow>
                 if ret \<noteq> RET_SUCCESS then Some (ret, s2)
                 else
                   (case mem_write 0 (take n (store32 NO_BLOCK 4 (store32 type 0 desc))) (cf_block s2) of
                      None \<Rightarrow> None
                    | Some m \<Rightarrow>
                        (case cf_write wr block (s2\<lparr>cf_block := m\<rparr>) of
                           (ret, s3) \<Rightarrow>
                             Some (if ret \<noteq> RET_SUCCESS then (ret, s3) else (RET_SUCCESS, s3\<lparr>cf_last := block\<rparr>))))))"

section \<open>Access to descriptors\<close>

lemma le32_append: "i + 3 < length xs \<Longrightarrow> le32 (xs @ ys) i = le32 xs i"
  by (simp add: le32_def nth_append)

lemma le32_take: "i + 3 < n \<Longrightarrow> le32 (take n xs) i = le32 xs i"
  by (simp add: le32_def)

lemma le32_store32_other: "j + 3 < i \<or> i + 3 < j \<Longrightarrow> le32 (store32 w i xs) j = le32 xs j"
  by (auto simp: le32_def nth_store)

text \<open>A chain of descriptors: the blocks \<open>bs\<close> in the order of their links, from block \<open>b\<close> on.\<close>

fun cf_chain :: "(u32 \<Rightarrow> u8 list) \<Rightarrow> u32 \<Rightarrow> u32 list \<Rightarrow> bool" where
  "cf_chain blk b [] \<longleftrightarrow> b = NO_BLOCK"
| "cf_chain blk b (x # xs) \<longleftrightarrow> b = x \<and> x \<noteq> NO_BLOCK \<and> cf_chain blk (le32 (blk x) 4) xs"

text \<open>The last block of a list that holds a free descriptor, if there is one.\<close>

fun last_free :: "(u32 \<Rightarrow> u8 list) \<Rightarrow> u32 \<Rightarrow> u32 list \<Rightarrow> u32" where
  "last_free blk f [] = f"
| "last_free blk f (x # xs) = last_free blk (if le32 (blk x) 0 = FREE_DESCRIPTOR then x else f) xs"

lemma cf_chain_cong: "(\<forall>c \<in> set bs. blk' c = blk c) \<Longrightarrow> cf_chain blk' b bs = cf_chain blk b bs"
  by (induction bs arbitrary: b) auto

lemma cf_chain_snoc:
  "cf_chain blk b bs \<Longrightarrow> bs \<noteq> [] \<Longrightarrow> distinct bs \<Longrightarrow> x \<notin> set bs \<Longrightarrow> x \<noteq> NO_BLOCK \<Longrightarrow>
   (\<forall>c. c \<noteq> last bs \<and> c \<noteq> x \<longrightarrow> blk' c = blk c) \<Longrightarrow> le32 (blk' (last bs)) 4 = x \<Longrightarrow> le32 (blk' x) 4 = NO_BLOCK \<Longrightarrow>
   cf_chain blk' b (bs @ [x])"
proof (induction bs arbitrary: b)
  case Nil
  then show ?case by simp
next
  case (Cons y ys)
  show ?case
  proof (cases ys)
    case Nil
    then show ?thesis using Cons.prems by simp
  next
    case (Cons z zs)
    then have "last ys \<in> set ys"
      by (intro last_in_set) simp
    then have "y \<noteq> last ys" "y \<noteq> x"
      using Cons.prems(3,4) by auto
    then have "blk' y = blk y"
      using Cons.prems(6) Cons by simp
    then show ?thesis
      using Cons.IH [of "le32 (blk y) 4"] Cons.prems Cons by auto
  qed
qed

section \<open>The file system over a device that keeps blocks\<close>

text \<open>What the file system relies on: reads return the contents of a block and change nothing, writes change
  one block.\<close>

locale block_store =
  fixes rd :: "'d block_read" and wr :: "'d block_write" and blk :: "u32 \<Rightarrow> 'd \<Rightarrow> u8 list"
    and ok :: "'d \<Rightarrow> bool" and bsize :: nat and count :: nat
  assumes blk_length: "ok d \<Longrightarrow> unat b < count \<Longrightarrow> length (blk b d) = bsize"
    and rd_ok: "ok d \<Longrightarrow> unat b < count \<Longrightarrow> rd b d = (RET_SUCCESS, blk b d, d)"
    and wr_ok: "ok d \<Longrightarrow> unat b < count \<Longrightarrow> length x = bsize \<Longrightarrow>
      \<exists>d'. wr b x d = (RET_SUCCESS, d') \<and> ok d' \<and> blk b d' = x \<and> (\<forall>c. c \<noteq> b \<longrightarrow> blk c d' = blk c d)"
begin

lemma read_ok:
  assumes "ok (cf_dev s)" and "unat b < count" and "bsize \<le> length (cf_block s)"
  shows "cf_read rd b s = Some (RET_SUCCESS, s\<lparr>cf_block := blk b (cf_dev s) @ drop bsize (cf_block s)\<rparr>)"
  using assms blk_length [OF assms(1,2)] by (simp add: cf_read_def rd_ok mem_write_def)

lemma write_ok:
  assumes "ok (cf_dev s)" and "unat b < count" and "bsize \<le> length (cf_block s)" and "unat (cf_block_size s) = bsize"
  shows "\<exists>d. cf_write wr b s = (RET_SUCCESS, s\<lparr>cf_dev := d\<rparr>) \<and> ok d \<and> blk b d = take bsize (cf_block s) \<and>
    (\<forall>c. c \<noteq> b \<longrightarrow> blk c d = blk c (cf_dev s))"
  using wr_ok [OF assms(1,2), of "take bsize (cf_block s)"] assms(3,4) by (auto simp: cf_write_def)

lemma scan_ok:
  "cf_chain (\<lambda>c. blk c (cf_dev s)) b bs \<Longrightarrow> ok (cf_dev s) \<Longrightarrow> (\<forall>c \<in> set bs. unat c < count) \<Longrightarrow>
   bsize \<le> length (cf_block s) \<Longrightarrow> 28 \<le> bsize \<Longrightarrow>
   \<exists>m. cf_scan rd b prev s = Some (RET_SUCCESS, last (prev # bs),
         s\<lparr>cf_block := m, cf_free := last_free (\<lambda>c. blk c (cf_dev s)) (cf_free s) bs\<rparr>) \<and> bsize \<le> length m"
proof (induction bs arbitrary: b prev s)
  case Nil
  then show ?case
    by (subst cf_scan.simps) (auto intro: exI [of _ "cf_block s"])
next
  case (Cons x xs)
  let ?m = "blk x (cf_dev s) @ drop bsize (cf_block s)"
  let ?s = "if le32 ?m 0 = FREE_DESCRIPTOR then s\<lparr>cf_block := ?m, cf_free := x\<rparr> else s\<lparr>cf_block := ?m\<rparr>"
  have x: "b = x" "x \<noteq> NO_BLOCK" "unat x < count"
    using Cons.prems(1,3) by simp_all
  have len: "length (blk x (cf_dev s)) = bsize"
    by (rule blk_length [OF Cons.prems(2) x(3)])
  have le: "le32 ?m 0 = le32 (blk x (cf_dev s)) 0" "le32 ?m 4 = le32 (blk x (cf_dev s)) 4"
    using len Cons.prems(5) by (simp_all add: le32_append)
  have "cf_read rd b s = Some (RET_SUCCESS, s\<lparr>cf_block := ?m\<rparr>)"
    unfolding x(1) by (rule read_ok [OF Cons.prems(2) x(3) Cons.prems(4)])
  then have "cf_scan rd b prev s = cf_scan rd (le32 (blk x (cf_dev s)) 4) x ?s"
    using x le by (subst cf_scan.simps) simp
  moreover have "\<exists>m. cf_scan rd (le32 (blk x (cf_dev s)) 4) x ?s = Some (RET_SUCCESS, last (x # xs),
      ?s\<lparr>cf_block := m, cf_free := last_free (\<lambda>c. blk c (cf_dev ?s)) (cf_free ?s) xs\<rparr>) \<and> bsize \<le> length m"
    by (rule Cons.IH) (use Cons.prems len in auto)
  ultimately show ?case
    using le by (auto split: if_splits)
qed

lemma add_ok:
  assumes ok: "ok (cf_dev s)" "bsize \<le> length (cf_block s)" "unat (cf_block_size s) = bsize" "28 \<le> bsize"
    and chain: "cf_chain (\<lambda>c. blk c (cf_dev s)) b bs" "bs \<noteq> []" "distinct bs" "last bs = cf_last s"
    and new: "block \<notin> set bs" "block \<noteq> NO_BLOCK" "unat block < count" "unat (cf_last s) < count"
    and desc: "8 \<le> n" "n \<le> length desc" "n \<le> bsize"
  shows "\<exists>s'. cf_add_descriptor rd wr desc block type n s = Some (RET_SUCCESS, s') \<and> ok (cf_dev s') \<and> cf_last s' = block \<and>
    cf_chain (\<lambda>c. blk c (cf_dev s')) b (bs @ [block]) \<and> le32 (blk block (cf_dev s')) 0 = type \<and>
    (\<forall>i. 8 \<le> i \<and> i < n \<longrightarrow> blk block (cf_dev s') ! i = desc ! i) \<and>
    (\<forall>c. c \<noteq> cf_last s \<and> c \<noteq> block \<longrightarrow> blk c (cf_dev s') = blk c (cf_dev s)) \<and>
    cf_free s' = cf_free s \<and> cf_files s' = cf_files s"
proof -
  let ?m1 = "blk (cf_last s) (cf_dev s) @ drop bsize (cf_block s)"
  let ?s1 = "s\<lparr>cf_block := ?m1\<rparr>"
  let ?m2 = "store32 block 4 ?m1"
  have len1: "length (blk (cf_last s) (cf_dev s)) = bsize" "bsize \<le> length ?m1"
    using blk_length [OF ok(1) new(4)] by simp_all
  have r: "cf_read rd (cf_last s) s = Some (RET_SUCCESS, ?s1)"
    by (rule read_ok [OF ok(1) new(4) ok(2)])
  obtain d2 where w2: "cf_write wr (cf_last s) (?s1\<lparr>cf_block := ?m2\<rparr>) = (RET_SUCCESS, ?s1\<lparr>cf_block := ?m2, cf_dev := d2\<rparr>)"
      "ok d2" "blk (cf_last s) d2 = take bsize ?m2" "\<forall>c. c \<noteq> cf_last s \<longrightarrow> blk c d2 = blk c (cf_dev s)"
    using write_ok [of "?s1\<lparr>cf_block := ?m2\<rparr>" "cf_last s"] ok len1 new(4) by auto
  let ?x = "take n (store32 NO_BLOCK 4 (store32 type 0 desc))"
  let ?m3 = "?x @ drop n ?m2"
  have lx: "length ?x = n"
    using desc(2) by simp
  have mw: "mem_write 0 ?x ?m2 = Some ?m3"
    using lx desc(3) len1(2) by (simp add: mem_write_def)
  let ?s2 = "?s1\<lparr>cf_block := ?m2, cf_dev := d2\<rparr>\<lparr>cf_block := ?m3\<rparr>"
  obtain d3 where w3: "cf_write wr block ?s2 = (RET_SUCCESS, ?s2\<lparr>cf_dev := d3\<rparr>)"
      "ok d3" "blk block d3 = take bsize ?m3" "\<forall>c. c \<noteq> block \<longrightarrow> blk c d3 = blk c d2"
    using write_ok [of ?s2 block] ok(3) w2(2) new(3) lx desc(3) len1(2) by auto
  have "le32 ?x 0 = type" "le32 ?x 4 = NO_BLOCK"
    using desc by (simp_all add: le32_take le32_store32_other load_store32)
  then have b: "le32 (blk block d3) 0 = type" "le32 (blk block d3) 4 = NO_BLOCK"
    using lx desc unfolding w3(3) by (simp_all add: le32_take le32_append)
  have cl: "cf_last s \<noteq> block"
    using new(1) chain(2,4) last_in_set [OF chain(2)] by auto
  have "le32 (blk (cf_last s) d3) 4 = block"
    using w3(4) cl w2(3) len1 ok(4) by (simp add: le32_take load_store32)
  then have "cf_chain (\<lambda>c. blk c d3) b (bs @ [block])"
    using cf_chain_snoc [OF chain(1-3) new(1,2), of "\<lambda>c. blk c d3"] b(2) w2(4) w3(4) chain(4) by simp
  moreover have "blk block d3 ! i = desc ! i" if "8 \<le> i" "i < n" for i
    using that desc lx unfolding w3(3) by (simp add: nth_append nth_store)
  moreover have "cf_add_descriptor rd wr desc block type n s = Some (RET_SUCCESS, ?s2\<lparr>cf_dev := d3, cf_last := block\<rparr>)"
    using r w2(1) w3(1) mw by (simp add: cf_add_descriptor_def)
  ultimately show ?thesis
    using w2(4) w3(2,4) b(1) by (intro exI [of _ "?s2\<lparr>cf_dev := d3, cf_last := block\<rparr>"]) simp
qed

lemma get_ok:
  assumes ok: "ok (cf_dev s)" "bsize \<le> length (cf_block s)" "unat (cf_block_size s) = bsize" "28 \<le> bsize"
    and f: "cf_free s \<noteq> NO_BLOCK" "unat (cf_free s) < count"
    and free: "le32 (blk (cf_free s) (cf_dev s)) 0 = FREE_DESCRIPTOR" "num \<le> le32 (blk (cf_free s) (cf_dev s)) 12"
  shows "\<exists>s'. cf_get_free_blocks rd wr num s = Some (RET_SUCCESS, Some (le32 (blk (cf_free s) (cf_dev s)) 8), s') \<and>
    ok (cf_dev s') \<and> bsize \<le> length (cf_block s') \<and> cf_block_size s' = cf_block_size s \<and> cf_free s' = cf_free s \<and>
    cf_last s' = cf_last s \<and>
    le32 (blk (cf_free s) (cf_dev s')) 0 = FREE_DESCRIPTOR \<and>
    le32 (blk (cf_free s) (cf_dev s')) 4 = le32 (blk (cf_free s) (cf_dev s)) 4 \<and>
    le32 (blk (cf_free s) (cf_dev s')) 8 = le32 (blk (cf_free s) (cf_dev s)) 8 + num \<and>
    le32 (blk (cf_free s) (cf_dev s')) 12 = le32 (blk (cf_free s) (cf_dev s)) 12 - num \<and>
    (\<forall>c. c \<noteq> cf_free s \<longrightarrow> blk c (cf_dev s') = blk c (cf_dev s))"
proof -
  let ?b = "blk (cf_free s) (cf_dev s)"
  let ?m = "?b @ drop bsize (cf_block s)"
  have len: "length ?b = bsize" "bsize \<le> length ?m"
    using blk_length [OF ok(1) f(2)] by simp_all
  have le: "le32 ?m 0 = le32 ?b 0" "le32 ?m 4 = le32 ?b 4" "le32 ?m 8 = le32 ?b 8" "le32 ?m 12 = le32 ?b 12"
    using len(1) ok(4) by (simp_all add: le32_append)
  have r: "cf_read rd (cf_free s) s = Some (RET_SUCCESS, s\<lparr>cf_block := ?m\<rparr>)"
    by (rule read_ok [OF ok(1) f(2) ok(2)])
  have find: "cf_find_free rd num (cf_free s) s = Some (RET_SUCCESS, cf_free s, s\<lparr>cf_block := ?m\<rparr>)"
    using r le free by (subst cf_find_free.simps) simp
  let ?m2 = "store32 (le32 ?b 12 - num) 12 (store32 (le32 ?b 8 + num) 8 ?m)"
  let ?s2 = "s\<lparr>cf_block := ?m\<rparr>\<lparr>cf_block := ?m2\<rparr>"
  obtain d where w: "cf_write wr (cf_free s) ?s2 = (RET_SUCCESS, ?s2\<lparr>cf_dev := d\<rparr>)" "ok d"
      "blk (cf_free s) d = take bsize ?m2" "\<forall>c. c \<noteq> cf_free s \<longrightarrow> blk c d = blk c (cf_dev s)"
    using write_ok [of ?s2 "cf_free s"] ok f(2) len by auto
  have "le32 ?m2 0 = le32 ?b 0" "le32 ?m2 4 = le32 ?b 4" "le32 ?m2 8 = le32 ?b 8 + num" "le32 ?m2 12 = le32 ?b 12 - num"
    using len ok(4) le by (simp_all add: le32_store32_other load_store32)
  then have "le32 (blk (cf_free s) d) 0 = FREE_DESCRIPTOR" "le32 (blk (cf_free s) d) 4 = le32 ?b 4"
      "le32 (blk (cf_free s) d) 8 = le32 ?b 8 + num" "le32 (blk (cf_free s) d) 12 = le32 ?b 12 - num"
    using ok(4) free(1) unfolding w(3) by (simp_all add: le32_take)
  moreover have "cf_get_free_blocks rd wr num s = Some (RET_SUCCESS, Some (le32 ?b 8), ?s2\<lparr>cf_dev := d\<rparr>)"
    unfolding cf_get_free_blocks_def find using f(1) w(1) by (simp add: le Let_def)
  ultimately show ?thesis
    using w(2,4) len(2) by (intro exI [of _ "?s2\<lparr>cf_dev := d\<rparr>"]) simp
qed

lemma format_ok:
  assumes ok: "ok (cf_dev s)" "length (cf_block s) = MAX_BLOCK_SIZE" "unat (cf_block_size s) = bsize" "28 \<le> bsize"
    "bsize \<le> MAX_BLOCK_SIZE" and c: "0 < count"
  shows "\<exists>d m. cf_format wr s = (RET_SUCCESS, s\<lparr>cf_block := m, cf_dev := d\<rparr>) \<and> ok d \<and> length m = MAX_BLOCK_SIZE \<and>
    cf_chain (\<lambda>c. blk c d) 0 [0] \<and> le32 (blk 0 d) 0 = FREE_DESCRIPTOR \<and> le32 (blk 0 d) 8 = 1 \<and>
    le32 (blk 0 d) 12 = cf_num_blocks s - 1"
proof -
  let ?m = "store32 (cf_num_blocks s - 1) 12 (store32 1 8 (store32 NO_BLOCK 4 (store32 FREE_DESCRIPTOR 0 (cf_block s))))"
  obtain d where w: "cf_write wr 0 (s\<lparr>cf_block := ?m\<rparr>) = (RET_SUCCESS, s\<lparr>cf_block := ?m, cf_dev := d\<rparr>)" "ok d"
      "blk 0 d = take bsize ?m"
    using write_ok [of "s\<lparr>cf_block := ?m\<rparr>" 0] ok c by auto
  have "le32 (take bsize ?m) 0 = FREE_DESCRIPTOR" "le32 (take bsize ?m) 4 = NO_BLOCK" "le32 (take bsize ?m) 8 = 1"
      "le32 (take bsize ?m) 12 = cf_num_blocks s - 1"
    using ok(2,4) by (simp_all add: le32_take le32_store32_other load_store32 MAX_BLOCK_SIZE_def)
  moreover have "\<not> cf_block_size s < DESC_SIZE"
    using ok(3,4) by (simp add: DESC_SIZE_def word_less_nat_alt)
  ultimately show ?thesis
    using w ok(2,3,5) by (intro exI [of _ d] exI [of _ ?m]) (simp add: cf_format_def NO_BLOCK_def)
qed

end

section \<open>The file system on the block device\<close>

text \<open>Completed calls of the device: what \<open>lb_read\<close> and \<open>lb_write\<close> return and leave once they are resumed.\<close>

definition lb_load :: "u32 \<Rightarrow> lblock \<Rightarrow> ret_type \<times> u8 list \<times> lblock" where
  "lb_load b d =
     (if b \<ge> lb_num_blocks d then (RET_ERROR, [], d)
      else (RET_SUCCESS, take (unat (lb_block_size d)) (drop (lb_offset b d) (lb_data d)), d))"

definition lb_store :: "u32 \<Rightarrow> u8 list \<Rightarrow> lblock \<Rightarrow> ret_type \<times> lblock" where
  "lb_store b x d =
     (if b \<ge> lb_num_blocks d then (RET_ERROR, d)
      else
        (case mem_write (lb_offset b d) x (lb_data d) of
           None \<Rightarrow> (RET_ERROR, d)
         | Some m \<Rightarrow> (RET_SUCCESS, d\<lparr>lb_data := m\<rparr>)))"

definition lb_dev :: "nat \<Rightarrow> nat \<Rightarrow> lblock \<Rightarrow> bool" where
  "lb_dev n count d \<longleftrightarrow> lb_ok d \<and> unat (lb_block_size d) = n \<and> unat (lb_num_blocks d) = count"

interpretation lbs: block_store lb_load lb_store "\<lambda>b. lb_block (unat b)" "lb_dev n count" n count for n count
proof unfold_locales
  fix d and b :: u32 and x :: "u8 list"
  assume d: "lb_dev n count d" and b: "unat b < count"
  have lt: "b < lb_num_blocks d" "\<not> lb_num_blocks d \<le> b" "lb_ok d" and n: "unat (lb_block_size d) = n"
    using d b by (simp_all add: lb_dev_def word_less_nat_alt word_le_nat_alt)
  note off = lb_offset_nat [OF lt(3,1)]
  show "length (lb_block (unat b) d) = n"
    using off(2) n by (simp add: lb_block_def)
  show "lb_load b d = (RET_SUCCESS, lb_block (unat b) d, d)"
    using off lt by (simp add: lb_load_def lb_block_def)
  assume x: "length x = n"
  have "unat b * n + n \<le> length (lb_data d)"
    using off(2) n by simp
  from mem_write_blocks [OF x this] obtain m where "mem_write (unat b * n) x (lb_data d) = Some m"
      "length m = length (lb_data d)" "take n (drop (unat b * n) m) = x"
      "\<forall>c. c \<noteq> unat b \<longrightarrow> take n (drop (c * n) m) = take n (drop (c * n) (lb_data d))"
    by blast
  then show "\<exists>d'. lb_store b x d = (RET_SUCCESS, d') \<and> lb_dev n count d' \<and> lb_block (unat b) d' = x \<and>
      (\<forall>c. c \<noteq> b \<longrightarrow> lb_block (unat c) d' = lb_block (unat c) d)"
    using off(1) lt n d
    by (intro exI [of _ "d\<lparr>lb_data := m\<rparr>"]) (simp add: lb_store_def lb_block_def lb_dev_def lb_ok_def word_unat_eq_iff)
qed

definition cf_ok :: "nat \<Rightarrow> nat \<Rightarrow> lblock chainfs \<Rightarrow> bool" where
  "cf_ok n count s \<longleftrightarrow> lb_dev n count (cf_dev s) \<and> length (cf_block s) = MAX_BLOCK_SIZE \<and> unat (cf_block_size s) = n \<and>
     28 \<le> n \<and> n \<le> MAX_BLOCK_SIZE"

definition cf_links :: "lblock chainfs \<Rightarrow> u32 list \<Rightarrow> bool" where
  "cf_links s bs \<longleftrightarrow> cf_chain (\<lambda>b. lb_block (unat b) (cf_dev s)) 0 bs"

lemma cf_push_fds_ok:
  "aq_inv MAX_OPEN_FILES (cf_queue s) \<Longrightarrow> length (aq_elems (cf_queue s)) + length is \<le> MAX_OPEN_FILES \<Longrightarrow>
   \<exists>q fs. cf_push_fds is s = (True, s\<lparr>cf_queue := q, cf_files := fs\<rparr>) \<and> aq_inv MAX_OPEN_FILES q \<and>
     map (aq_val q) (aq_elems q) = map (aq_val (cf_queue s)) (aq_elems (cf_queue s)) @ map int is"
proof (induction "is" arbitrary: s)
  case Nil
  then show ?case
    by (intro exI [of _ "cf_queue s"] exI [of _ "cf_files s"]) simp
next
  case (Cons i "is")
  have room: "length (aq_elems (cf_queue s)) < MAX_OPEN_FILES"
    using Cons.prems(2) by simp
  obtain p q where q: "aq_push (int i) (cf_queue s) = (Some p, q)" "aq_inv MAX_OPEN_FILES q"
      "p \<notin> set (aq_elems (cf_queue s))" "aq_elems q = aq_elems (cf_queue s) @ [p]"
      "aq_val q = (aq_val (cf_queue s))(p := int i)"
    using aq_law_push [OF Cons.prems(1) room, of "int i"] by blast
  let ?s = "s\<lparr>cf_queue := q, cf_files := (cf_files s)[i := file_zero]\<rparr>"
  obtain q2 fs where "cf_push_fds is ?s = (True, ?s\<lparr>cf_queue := q2, cf_files := fs\<rparr>)" "aq_inv MAX_OPEN_FILES q2"
      "map (aq_val q2) (aq_elems q2) = map (aq_val (cf_queue ?s)) (aq_elems (cf_queue ?s)) @ map int is"
    using Cons.IH [of ?s] q(2,4) Cons.prems(2) by auto
  moreover have "map (aq_val q) (aq_elems q) = map (aq_val (cf_queue s)) (aq_elems (cf_queue s)) @ [int i]"
    using q(3-5) by simp
  ultimately show ?case
    using q(1) by (intro exI [of _ q2] exI [of _ fs]) simp
qed

lemma cf_init_ok:
  assumes ok: "cf_ok n count s" "aq_inv MAX_OPEN_FILES (cf_queue s)" "aq_elems (cf_queue s) = []"
    and chain: "cf_links s bs" "\<forall>b \<in> set bs. unat b < count"
  shows "\<exists>s'. cf_init lb_load s = Some (RET_SUCCESS, s') \<and> cf_last s' = last (0 # bs) \<and>
    cf_free s' = last_free (\<lambda>b. lb_block (unat b) (cf_dev s)) (cf_free s) bs \<and> cf_dev s' = cf_dev s \<and>
    map (aq_val (cf_queue s')) (aq_elems (cf_queue s')) = map int [0..<MAX_OPEN_FILES] \<and>
    cf_block_size s' = cf_block_size s \<and> n \<le> length (cf_block s')"
proof -
  have "length (aq_elems (cf_queue s)) + length [0..<MAX_OPEN_FILES] \<le> MAX_OPEN_FILES"
    using ok(3) by simp
  from cf_push_fds_ok [OF ok(2) this] obtain q fs where
    p: "cf_push_fds [0..<MAX_OPEN_FILES] s = (True, s\<lparr>cf_queue := q, cf_files := fs\<rparr>)"
      "map (aq_val q) (aq_elems q) = map int [0..<MAX_OPEN_FILES]"
    using ok(3) by auto
  let ?s = "s\<lparr>cf_queue := q, cf_files := fs\<rparr>"
  have pre: "cf_chain (\<lambda>c. lb_block (unat c) (cf_dev ?s)) 0 bs" "lb_dev n count (cf_dev ?s)" "n \<le> length (cf_block ?s)" "28 \<le> n"
    using ok(1) chain(1) by (simp_all add: cf_ok_def cf_links_def)
  obtain m where m: "cf_scan lb_load 0 0 ?s = Some (RET_SUCCESS, last (0 # bs), ?s\<lparr>cf_block := m,
      cf_free := last_free (\<lambda>c. lb_block (unat c) (cf_dev ?s)) (cf_free ?s) bs\<rparr>)" "n \<le> length m"
    using lbs.scan_ok [OF pre(1,2) chain(2) pre(3,4), of 0] by blast
  have "\<not> cf_block_size s < DESC_SIZE"
    using ok(1) by (simp add: cf_ok_def DESC_SIZE_def word_less_nat_alt)
  then show ?thesis
    using p m by (simp add: cf_init_def)
qed

text \<open>Initialising the file system follows the chain of descriptors from block 0 to its end: the last
  descriptor becomes the place where the next one is added, the last free descriptor the one from which
  blocks are taken, and all sixteen file descriptors are available; the device is only read.\<close>

theorem chainfs_init:
  assumes "cf_ok n count s" and "aq_inv MAX_OPEN_FILES (cf_queue s)" and "aq_elems (cf_queue s) = []"
    and "cf_links s bs" and "\<forall>b \<in> set bs. unat b < count"
  shows "\<exists>s'. cf_init lb_load s = Some (RET_SUCCESS, s') \<and> cf_last s' = last (0 # bs) \<and>
    cf_free s' = last_free (\<lambda>b. lb_block (unat b) (cf_dev s)) (cf_free s) bs \<and> cf_dev s' = cf_dev s \<and>
    map (aq_val (cf_queue s')) (aq_elems (cf_queue s')) = map int [0..<MAX_OPEN_FILES]"
  using cf_init_ok [OF assms] by blast

text \<open>C31: Adding a descriptor appends its block to the chain: afterwards the chain has the old blocks in the
  old order and then the new one, which holds the type and the contents given; all blocks but the new
  one and the one before it are as they were.\<close>

theorem chainfs_add_descriptor:
  assumes "cf_ok n count s" and "cf_links s bs" and "bs \<noteq> []" and "distinct bs" and "last bs = cf_last s"
    and "block \<notin> set bs" and "block \<noteq> NO_BLOCK" and "unat block < count" and "unat (cf_last s) < count"
    and "8 \<le> k" and "k \<le> length desc" and "k \<le> n"
  shows "\<exists>s'. cf_add_descriptor lb_load lb_store desc block type k s = Some (RET_SUCCESS, s') \<and>
    cf_links s' (bs @ [block]) \<and> cf_last s' = block \<and> cf_free s' = cf_free s \<and>
    le32 (lb_block (unat block) (cf_dev s')) 0 = type \<and>
    (\<forall>i. 8 \<le> i \<and> i < k \<longrightarrow> lb_block (unat block) (cf_dev s') ! i = desc ! i) \<and>
    (\<forall>c. c \<noteq> cf_last s \<and> c \<noteq> block \<longrightarrow> lb_block (unat c) (cf_dev s') = lb_block (unat c) (cf_dev s))"
proof -
  have ok: "lb_dev n count (cf_dev s)" "n \<le> length (cf_block s)" "unat (cf_block_size s) = n" "28 \<le> n"
    using assms(1) by (simp_all add: cf_ok_def)
  show ?thesis
    using lbs.add_ok [OF ok assms(2) [unfolded cf_links_def] assms(3-12), of type] unfolding cf_links_def by blast
qed

text \<open>C30: A formatted device is a file system with one free region: after \<open>format\<close> and \<open>init\<close> the first two
  allocations return consecutive, disjoint ranges of blocks behind block 0, and what is left is free.\<close>

theorem chainfs_format_alloc:
  assumes "cf_ok n count s" and "aq_inv MAX_OPEN_FILES (cf_queue s)" and "aq_elems (cf_queue s) = []"
    and "0 < count" and "unat (cf_num_blocks s) = count" and "unat a + unat b < count"
  shows "\<exists>s1 s2 s3 s4. cf_format lb_store s = (RET_SUCCESS, s1) \<and> cf_init lb_load s1 = Some (RET_SUCCESS, s2) \<and>
    cf_get_free_blocks lb_load lb_store a s2 = Some (RET_SUCCESS, Some 1, s3) \<and>
    cf_get_free_blocks lb_load lb_store b s3 = Some (RET_SUCCESS, Some (1 + a), s4) \<and>
    le32 (lb_block 0 (cf_dev s4)) 8 = 1 + a + b \<and> le32 (lb_block 0 (cf_dev s4)) 12 = cf_num_blocks s - 1 - a - b"
proof -
  have ok: "lb_dev n count (cf_dev s)" "length (cf_block s) = MAX_BLOCK_SIZE" "unat (cf_block_size s) = n" "28 \<le> n"
      "n \<le> MAX_BLOCK_SIZE"
    using assms(1) by (simp_all add: cf_ok_def)
  obtain d m where f: "cf_format lb_store s = (RET_SUCCESS, s\<lparr>cf_block := m, cf_dev := d\<rparr>)" "lb_dev n count d"
      "length m = MAX_BLOCK_SIZE" "cf_chain (\<lambda>c. lb_block (unat c) d) 0 [0]"
      "le32 (lb_block (unat (0 :: u32)) d) 0 = FREE_DESCRIPTOR" "le32 (lb_block (unat (0 :: u32)) d) 8 = 1"
      "le32 (lb_block (unat (0 :: u32)) d) 12 = cf_num_blocks s - 1"
    using lbs.format_ok [OF ok assms(4)] by blast
  let ?s1 = "s\<lparr>cf_block := m, cf_dev := d\<rparr>"
  have s1: "cf_ok n count ?s1" "aq_inv MAX_OPEN_FILES (cf_queue ?s1)" "aq_elems (cf_queue ?s1) = []" "cf_links ?s1 [0]"
      "\<forall>b \<in> set [0 :: u32]. unat b < count"
    using assms f ok by (simp_all add: cf_ok_def cf_links_def)
  from cf_init_ok [OF s1] obtain s2 where i: "cf_init lb_load ?s1 = Some (RET_SUCCESS, s2)" "cf_dev s2 = d"
      "cf_free s2 = 0" "cf_block_size s2 = cf_block_size s" "n \<le> length (cf_block s2)"
    using f(5) by auto
  have nb: "unat (cf_num_blocks s - 1) = count - 1"
    using assms(4,5) by (metis One_nat_def neq0_conv unat_0 unat_minus_one)
  have a: "a \<le> cf_num_blocks s - 1"
    using assms(6) by (simp add: word_le_nat_alt nb)
  have b: "b \<le> cf_num_blocks s - 1 - a"
    using assms(6) a by (simp add: word_le_nat_alt unat_sub nb)
  have p2: "lb_dev n count (cf_dev s2)" "n \<le> length (cf_block s2)" "unat (cf_block_size s2) = n" "28 \<le> n"
      "cf_free s2 \<noteq> NO_BLOCK" "unat (cf_free s2) < count"
      "le32 (lb_block (unat (cf_free s2)) (cf_dev s2)) 0 = FREE_DESCRIPTOR"
      "a \<le> le32 (lb_block (unat (cf_free s2)) (cf_dev s2)) 12"
    using i f ok assms(4) a by (simp_all add: NO_BLOCK_def)
  from lbs.get_ok [OF p2] obtain s3 where g: "cf_get_free_blocks lb_load lb_store a s2 = Some (RET_SUCCESS, Some 1, s3)"
      "lb_dev n count (cf_dev s3)" "n \<le> length (cf_block s3)" "cf_block_size s3 = cf_block_size s" "cf_free s3 = 0"
      "le32 (lb_block 0 (cf_dev s3)) 0 = FREE_DESCRIPTOR" "le32 (lb_block 0 (cf_dev s3)) 8 = 1 + a"
      "le32 (lb_block 0 (cf_dev s3)) 12 = cf_num_blocks s - 1 - a"
    using i f by auto
  have p3: "lb_dev n count (cf_dev s3)" "n \<le> length (cf_block s3)" "unat (cf_block_size s3) = n" "28 \<le> n"
      "cf_free s3 \<noteq> NO_BLOCK" "unat (cf_free s3) < count"
      "le32 (lb_block (unat (cf_free s3)) (cf_dev s3)) 0 = FREE_DESCRIPTOR"
      "b \<le> le32 (lb_block (unat (cf_free s3)) (cf_dev s3)) 12"
    using g ok assms(4) b by (simp_all add: NO_BLOCK_def)
  from lbs.get_ok [OF p3] obtain s4 where "cf_get_free_blocks lb_load lb_store b s3 = Some (RET_SUCCESS, Some (1 + a), s4)"
      "le32 (lb_block 0 (cf_dev s4)) 8 = 1 + a + b" "le32 (lb_block 0 (cf_dev s4)) 12 = cf_num_blocks s - 1 - a - b"
    using g by auto
  with f(1) i(1) g(1) show ?thesis
    by blast
qed

text \<open>Four blocks of 32 bytes; block 0 is a free descriptor at the end of the chain.\<close>

definition ex_chainfs :: "lblock chainfs" where
  "ex_chainfs =
     cf_new (ex_lblock\<lparr>lb_block_size := 32, lb_num_blocks := 4,
               lb_data := store32 NO_BLOCK 4 (store32 FREE_DESCRIPTOR 0 (replicate 128 0))\<rparr>)
       32 4 (replicate MAX_BLOCK_SIZE 0) (boot_aqueue 0 MAX_OPEN_FILES) (replicate MAX_OPEN_FILES file_zero)"

lemma ex_chainfs_ok:
  "cf_ok 32 4 ex_chainfs" "aq_inv MAX_OPEN_FILES (cf_queue ex_chainfs)" "aq_elems (cf_queue ex_chainfs) = []"
  "cf_links ex_chainfs [0]" "unat (cf_num_blocks ex_chainfs) = 4"
  "le32 (lb_block 0 (cf_dev ex_chainfs)) 0 = FREE_DESCRIPTOR"
proof -
  have "aq_inv MAX_NUM_TASKS (lb_queue ex_lblock)"
    using ex_lblock_ok(1) by (simp add: lb_ok_def)
  then show "cf_ok 32 4 ex_chainfs"
    by (simp add: cf_ok_def ex_chainfs_def cf_new_def lb_dev_def lb_ok_def MAX_BLOCK_SIZE_def)
  show "aq_inv MAX_OPEN_FILES (cf_queue ex_chainfs)" "aq_elems (cf_queue ex_chainfs) = []"
    using boot_aqueue_inv [of MAX_OPEN_FILES "0 :: int"] boot_aqueue_elems [of MAX_OPEN_FILES "0 :: int"]
    by (simp_all add: ex_chainfs_def cf_new_def MAX_OPEN_FILES_def)
  show "unat (cf_num_blocks ex_chainfs) = 4"
    by (simp add: ex_chainfs_def cf_new_def)
  have b: "lb_block 0 (cf_dev ex_chainfs) = take 32 (store32 NO_BLOCK 4 (store32 FREE_DESCRIPTOR 0 (replicate 128 0)))"
    by (simp add: ex_chainfs_def cf_new_def lb_block_def)
  show "le32 (lb_block 0 (cf_dev ex_chainfs)) 0 = FREE_DESCRIPTOR"
    by (simp add: b le32_take le32_store32_other load_store32)
  show "cf_links ex_chainfs [0]"
    by (simp add: cf_links_def b le32_take load_store32) (simp add: NO_BLOCK_def)
qed

theorem chainfs_init_witness:
  "\<exists>s'. cf_init lb_load ex_chainfs = Some (RET_SUCCESS, s') \<and> cf_last s' = 0 \<and> cf_free s' = 0"
  using chainfs_init [OF ex_chainfs_ok(1-4)] ex_chainfs_ok(6) by auto

theorem chainfs_add_descriptor_witness:
  "\<exists>s'. cf_add_descriptor lb_load lb_store (replicate 28 5) 2 NAME_DESCRIPTOR 28 (ex_chainfs\<lparr>cf_last := 0\<rparr>) =
     Some (RET_SUCCESS, s') \<and> cf_links s' [0, 2]"
proof -
  have "cf_ok 32 4 (ex_chainfs\<lparr>cf_last := 0\<rparr>)" "cf_links (ex_chainfs\<lparr>cf_last := 0\<rparr>) [0]"
    using ex_chainfs_ok(1,4) by (simp_all add: cf_ok_def cf_links_def)
  then have "\<exists>s'. cf_add_descriptor lb_load lb_store (replicate 28 5) 2 NAME_DESCRIPTOR 28 (ex_chainfs\<lparr>cf_last := 0\<rparr>) =
      Some (RET_SUCCESS, s') \<and> cf_links s' ([0] @ [2]) \<and> cf_last s' = 2 \<and> cf_free s' = cf_free (ex_chainfs\<lparr>cf_last := 0\<rparr>) \<and>
      le32 (lb_block (unat (2 :: u32)) (cf_dev s')) 0 = NAME_DESCRIPTOR \<and>
      (\<forall>i. 8 \<le> i \<and> i < 28 \<longrightarrow> lb_block (unat (2 :: u32)) (cf_dev s') ! i = replicate 28 5 ! i) \<and>
      (\<forall>c. c \<noteq> cf_last (ex_chainfs\<lparr>cf_last := 0\<rparr>) \<and> c \<noteq> 2 \<longrightarrow>
         lb_block (unat c) (cf_dev s') = lb_block (unat c) (cf_dev (ex_chainfs\<lparr>cf_last := 0\<rparr>)))"
    by (rule chainfs_add_descriptor) (simp_all add: NO_BLOCK_def)
  then show ?thesis
    by auto
qed

theorem chainfs_format_alloc_witness:
  "\<exists>s1 s2 s3. cf_format lb_store ex_chainfs = (RET_SUCCESS, s1) \<and> cf_init lb_load s1 = Some (RET_SUCCESS, s2) \<and>
     cf_get_free_blocks lb_load lb_store 2 s2 = Some (RET_SUCCESS, Some 1, s3)"
  using chainfs_format_alloc [OF ex_chainfs_ok(1-3) _ ex_chainfs_ok(5), of 2 1] by auto

section \<open>Open files\<close>

text \<open>
  What there is of the operations on open files: write and flush do nothing and say that they succeeded, read looks
  whether the file is open.
\<close>

definition cf_write_file :: "int \<Rightarrow> u8 list \<Rightarrow> 'd chainfs \<Rightarrow> ret_type \<times> 'd chainfs" where
  "cf_write_file fd buff s = (RET_SUCCESS, s)"

definition cf_flush_file :: "int \<Rightarrow> 'd chainfs \<Rightarrow> ret_type \<times> 'd chainfs" where
  "cf_flush_file fd s = (RET_SUCCESS, s)"

definition cf_read_file :: "int \<Rightarrow> 'd chainfs \<Rightarrow> ret_type option" where
  "cf_read_file fd s =
     (if fd < 0 \<or> int MAX_OPEN_FILES \<le> fd then None
      else Some (if fl_open (cf_files s ! nat fd) then RET_SUCCESS else RET_ERROR))"

lemma cf_scan_files:
  assumes "cf_scan rd b prev s = Some r"
  shows "cf_files (snd (snd r)) = cf_files s"
proof (rule cf_scan.raw_induct [where P = "\<lambda>rd b prev s r. cf_files (snd (snd r)) = cf_files s", OF _ assms])
  fix scan rd b prev s r
  assume IH: "\<And>rd b prev s r. scan rd b prev s = Some r \<Longrightarrow> cf_files (snd (snd r)) = cf_files s"
    and step: "(if b = NO_BLOCK then Some (RET_SUCCESS, prev, s)
      else case cf_read rd b s of None \<Rightarrow> None
        | Some (ret, s1) \<Rightarrow> if ret \<noteq> RET_SUCCESS then Some (ret, prev, s1)
            else scan rd (le32 (cf_block s1) 4) b (if le32 (cf_block s1) 0 = FREE_DESCRIPTOR then s1\<lparr>cf_free := b\<rparr> else s1)) = Some r"
  have "cf_files s1 = cf_files s" if "cf_read rd b s = Some (ret, s1)" for ret s1
    using that by (auto simp: cf_read_def split: prod.splits)
  then show "cf_files (snd (snd r)) = cf_files s"
    using step by (auto dest!: IH split: if_splits option.splits)
qed

lemma cf_push_fds_files:
  "cf_push_fds is s = (True, s') \<Longrightarrow>
   cf_files s' = fold (\<lambda>i fs. fs[i := file_zero]) is (cf_files s)"
  by (induction "is" arbitrary: s) (auto split: option.splits prod.splits)

lemma fold_zero_nth:
  "i \<in> set is \<Longrightarrow> i < length fs \<Longrightarrow> fold (\<lambda>i fs. fs[i := x]) is fs ! i = x"
proof (induction "is" arbitrary: fs rule: rev_induct)
  case (snoc j js)
  have len: "length (fold (\<lambda>i fs. fs[i := x]) js fs) = length fs" for fs
    by (induction js arbitrary: fs) auto
  show ?case
    using snoc by (cases "i = j") (auto simp: len nth_list_update)
qed simp

text \<open>No file is open after the initialisation, so that every read of a file reports an error.\<close>

theorem chainfs_no_file_open:
  assumes "cf_init rd s = Some (RET_SUCCESS, s')" and "length (cf_files s) = MAX_OPEN_FILES"
    and "0 \<le> fd" and "fd < int MAX_OPEN_FILES"
  shows "cf_read_file fd s' = Some RET_ERROR"
proof -
  obtain s1 prev s2 where 1: "cf_push_fds [0..<MAX_OPEN_FILES] s = (True, s1)" "cf_scan rd 0 0 s1 = Some (RET_SUCCESS, prev, s2)"
      "s' = s2\<lparr>cf_last := prev\<rparr>"
    using assms(1) by (auto simp: cf_init_def split: if_splits prod.splits option.splits bool.splits)
  have "cf_files s' = fold (\<lambda>i fs. fs[i := file_zero]) [0..<MAX_OPEN_FILES] (cf_files s)"
    using cf_push_fds_files [OF 1(1)] cf_scan_files [OF 1(2)] 1(3) by simp
  moreover have "nat fd \<in> set [0..<MAX_OPEN_FILES]" "nat fd < length (cf_files s)"
    using assms(2-4) by auto
  ultimately have "cf_files s' ! nat fd = file_zero"
    by (simp only: fold_zero_nth)
  then show ?thesis
    using assms(3,4) by (simp add: cf_read_file_def file_zero_def Let_def)
qed

theorem chainfs_no_file_open_witness:
  "\<exists>s'. cf_init lb_load ex_chainfs = Some (RET_SUCCESS, s') \<and> cf_read_file 3 s' = Some RET_ERROR"
proof -
  obtain s' where "cf_init lb_load ex_chainfs = Some (RET_SUCCESS, s')"
    using cf_init_ok [OF ex_chainfs_ok(1-4)] ex_chainfs_ok(5) by auto
  moreover have "length (cf_files ex_chainfs) = MAX_OPEN_FILES"
    by (simp add: ex_chainfs_def cf_new_def)
  ultimately show ?thesis
    using chainfs_no_file_open [of lb_load ex_chainfs s' 3] by (simp add: MAX_OPEN_FILES_def)
qed

end
