(* ===== verification/DriverBase.thy ===== *)
theory DriverBase
  imports Complex_Main Prelude "HOL-Library.State_Monad"
begin

text \<open>
  What the models of the peripheral drivers share.  The devices a driver talks to are interfaces
  (src/device: I2CDevice.h, SPIDevice.h, GPIODevice.h, StreamDevice.h) with platform code behind them:
  one function \<open>bus\<close> stands for all of them and answers an event, a call of an interface function,
  with a return code and the bytes that were read.  A driver function is a state transformer on the
  driver's members and the state of the bus, and stands for the whole call, up to its final return:
  the times at which it is blocked and resumed on the way do not show.  Where a driver itself sleeps,
  blocks or wakes a task, that is an event, too.
\<close>

section \<open>Buses\<close>

datatype bus_event =
    I2cTransmit u16 "u8 list" | I2cReceive u16 nat | I2cTransmitReceive u16 "u8 list" nat
  | I2cWrite u16 u16 "u8 list" | I2cRead u16 u16 nat
  | SpiWrite "u8 list" | SpiRead nat | SpiWriteRead "u8 list"
  | PinSet nat u32 | PinGet nat
  | StreamWrite "u8 list" | StreamRead nat
  | SleepFor u32 | BlockTask int | WakeTask int | YieldTask

type_synonym 'x bus = "bus_event \<Rightarrow> 'x \<Rightarrow> ret_type \<times> u8 list \<times> 'x"

type_synonym ('d, 'x) drv = "('d \<times> 'x, ret_type) state"

definition bus_call :: "'x bus \<Rightarrow> bus_event \<Rightarrow> ('d \<times> 'x, ret_type \<times> u8 list) state" where
  "bus_call bus ev = State (\<lambda>(d, x). case bus ev x of (ret, data, x') \<Rightarrow> ((ret, data), (d, x')))"

definition bus_do :: "'x bus \<Rightarrow> bus_event \<Rightarrow> ('d, 'x) drv" where
  "bus_do bus ev = do {(ret, data) \<leftarrow> bus_call bus ev; State_Monad.return ret}"

definition get_dev :: "('d \<times> 'x, 'd) state" where
  "get_dev = State (\<lambda>(d, x). (d, (d, x)))"

definition mod_dev :: "('d \<Rightarrow> 'd) \<Rightarrow> ('d \<times> 'x, unit) state" where
  "mod_dev f = State (\<lambda>(d, x). ((), (f d, x)))"

text \<open>\<open>CALL\<close> followed by a return of any code but success.\<close>

definition on_success :: "('d, 'x) drv \<Rightarrow> ('d, 'x) drv \<Rightarrow> ('d, 'x) drv" where
  "on_success m k = do {ret \<leftarrow> m; if ret \<noteq> RET_SUCCESS then State_Monad.return ret else k}"

text \<open>\<open>CHECK_CALL\<close> and \<open>ERROR_CHECK\<close>: any code but success becomes the error code, once the call is over.\<close>

definition check_call :: "('d, 'x) drv \<Rightarrow> ('d, 'x) drv \<Rightarrow> ('d, 'x) drv" where
  "check_call m k = do {
     ret \<leftarrow> m;
     if call_waits ret then State_Monad.return ret
     else if ret \<noteq> RET_SUCCESS then State_Monad.return RET_ERROR
     else k}"

text \<open>\<open>CALL\<close> whose value the code goes on with.\<close>

definition call_then :: "('d, 'x) drv \<Rightarrow> (ret_type \<Rightarrow> ('d, 'x) drv) \<Rightarrow> ('d, 'x) drv" where
  "call_then m k = do {ret \<leftarrow> m; if call_waits ret then State_Monad.return ret else k ret}"

text \<open>\<open>SLEEP\<close>: the task sleeps, and goes on when it is resumed.\<close>

definition drv_sleep :: "'x bus \<Rightarrow> u32 \<Rightarrow> ('d, 'x) drv \<Rightarrow> ('d, 'x) drv" where
  "drv_sleep bus ms k = do {_ \<leftarrow> bus_do bus (SleepFor ms); k}"

text \<open>Bytes read into a buffer.\<close>

definition fill :: "u8 list \<Rightarrow> u8 list \<Rightarrow> u8 list" where
  "fill data buf = data @ drop (length data) buf"

lemma fill_whole [simp]: "length data = length buf \<Longrightarrow> fill data buf = data"
  by (simp add: fill_def)

text \<open>A bus on which every call succeeds, answers as \<open>f\<close> says from the calls so far, and that keeps a log.\<close>

definition ok_bus :: "(bus_event \<Rightarrow> bus_event list \<Rightarrow> u8 list) \<Rightarrow> bus_event list bus" where
  "ok_bus f ev evs = (RET_SUCCESS, f ev evs, evs @ [ev])"

lemma run_bind [simp]:
  "run_state (State_Monad.bind m f) s = (case run_state m s of (a, s') \<Rightarrow> run_state (f a) s')"
  by (simp add: State_Monad.bind_def)

lemma run_return [simp]: "run_state (State_Monad.return a) s = (a, s)"
  by (simp add: State_Monad.return_def)

lemma run_if [simp]: "run_state (if b then m else k) s = (if b then run_state m s else run_state k s)"
  by simp

lemma run_prims [simp]:
  "run_state (bus_call bus ev) (d, x) = (case bus ev x of (ret, data, x') \<Rightarrow> ((ret, data), (d, x')))"
  "run_state (bus_do bus ev) (d, x) = (case bus ev x of (ret, data, x') \<Rightarrow> (ret, (d, x')))"
  "run_state get_dev (d, x) = (d, (d, x))" "run_state (mod_dev f) (d, x) = ((), (f d, x))"
  by (simp_all add: bus_call_def bus_do_def get_dev_def mod_dev_def split: prod.split)

lemma run_on_success [simp]:
  "run_state (on_success m k) s = (case run_state m s of (ret, s') \<Rightarrow> if ret = RET_SUCCESS then run_state k s' else (ret, s'))"
  "run_state (check_call m k) s =
     (case run_state m s of (ret, s') \<Rightarrow>
        if ret = RET_SUCCESS then run_state k s' else (if call_waits ret then ret else RET_ERROR, s'))"
  by (auto simp: on_success_def check_call_def call_waits_def split: prod.split)

lemma run_call_then [simp]:
  "run_state (call_then m k) s =
     (case run_state m s of (ret, s') \<Rightarrow> if call_waits ret then (ret, s') else run_state (k ret) s')"
  "run_state (drv_sleep bus ms m) (d, x) = (case bus (SleepFor ms) x of (ret, data, x') \<Rightarrow> run_state m (d, x'))"
  by (auto simp: call_then_def drv_sleep_def split: prod.split)

lemma waits_success [simp]: "\<not> call_waits RET_SUCCESS"
  by (simp add: call_waits_def)

lemma ok_bus_eq [simp]: "ok_bus f ev evs = (RET_SUCCESS, f ev evs, evs @ [ev])"
  by (simp add: ok_bus_def)

text \<open>A word of two bytes, the high one first, and its bytes.\<close>

definition be16 :: "u8 \<Rightarrow> u8 \<Rightarrow> u16" where
  "be16 hi lo = push_bit 8 (ucast hi) OR ucast lo"

definition hi8 :: "u16 \<Rightarrow> u8" where
  "hi8 w = ucast (drop_bit 8 w)"

definition lo8 :: "u16 \<Rightarrow> u8" where
  "lo8 w = ucast (w AND 0xFF)"

lemma lo8_ucast: "lo8 w = ucast w"
proof -
  have m: "(0xFF :: u16) = mask 8"
    by (simp add: mask_eq_exp_minus_1)
  show ?thesis
    unfolding lo8_def m by (intro bit_word_eqI) (auto simp: bit_simps)
qed

lemma be16_hi_lo [simp]: "be16 (hi8 w) (lo8 w) = w"
proof (rule bit_word_eqI)
  fix n assume n: "n < LENGTH(16)"
  show "bit (be16 (hi8 w) (lo8 w)) n = bit w n"
    using n by (cases "n < 8") (auto simp: be16_def hi8_def lo8_ucast bit_simps bit_word_ucast_iff)
qed

lemma hi_lo_be16 [simp]: "hi8 (be16 h l) = h" "lo8 (be16 h l) = l"
proof -
  show "hi8 (be16 h l) = h"
  proof (rule bit_word_eqI)
    fix n assume "n < LENGTH(8)"
    then show "bit (hi8 (be16 h l)) n = bit h n"
      by (auto simp: be16_def hi8_def bit_simps dest: bit_imp_le_length)
  qed
  show "lo8 (be16 h l) = l"
  proof (rule bit_word_eqI)
    fix n assume "n < LENGTH(8)"
    then show "bit (lo8 (be16 h l)) n = bit l n"
      by (auto simp: be16_def lo8_ucast bit_simps)
  qed
qed

section \<open>Functions that leave the members alone\<close>

definition keeps_dev :: "('d \<times> 'x, 'a) state \<Rightarrow> bool" where
  "keeps_dev m \<longleftrightarrow> (\<forall>s. fst (snd (run_state m s)) = fst s)"

named_theorems keeps

lemma keeps_devD: "keeps_dev m \<Longrightarrow> run_state m (d, x) = (a, d', x') \<Longrightarrow> d' = d"
  unfolding keeps_dev_def by (metis fst_conv snd_conv)

lemma keeps_prims [keeps]:
  "keeps_dev (State_Monad.return a)" "keeps_dev get_dev" "keeps_dev (bus_call bus ev)" "keeps_dev (bus_do bus ev)"
  by (auto simp: keeps_dev_def split: prod.split)

lemma keeps_bind [keeps]: "keeps_dev m \<Longrightarrow> (\<And>a. keeps_dev (f a)) \<Longrightarrow> keeps_dev (State_Monad.bind m f)"
  by (simp add: keeps_dev_def split: prod.split) (metis fst_conv snd_conv)

lemma keeps_if [keeps]: "keeps_dev m \<Longrightarrow> keeps_dev k \<Longrightarrow> keeps_dev (if b then m else k)"
  by simp

lemma keeps_prod [keeps]: "(\<And>a b. keeps_dev (f a b)) \<Longrightarrow> keeps_dev (case p of (a, b) \<Rightarrow> f a b)"
  by (simp split: prod.split)

lemma keeps_calls [keeps]:
  "keeps_dev m \<Longrightarrow> keeps_dev k \<Longrightarrow> keeps_dev (on_success m k)" "keeps_dev m \<Longrightarrow> keeps_dev k \<Longrightarrow> keeps_dev (check_call m k)"
  "keeps_dev m \<Longrightarrow> (\<And>ret. keeps_dev (g ret)) \<Longrightarrow> keeps_dev (call_then m g)" "keeps_dev k \<Longrightarrow> keeps_dev (drv_sleep bus ms k)"
  unfolding on_success_def check_call_def call_then_def drv_sleep_def by (intro keeps; assumption)+

section \<open>Devices with registers\<close>

text \<open>
  What the data sheet of an I2C device with registers of 16 bits says of the bus: writing two bytes sets a
  register and no other one, reading two bytes returns it.  \<open>regs\<close> reads the registers off the state.
\<close>

definition word_registers :: "'x bus \<Rightarrow> u16 \<Rightarrow> ('x \<Rightarrow> u16 \<Rightarrow> u16) \<Rightarrow> bool" where
  "word_registers bus dev regs \<longleftrightarrow>
     (\<forall>x reg hi lo. \<exists>x'. bus (I2cWrite dev reg [hi, lo]) x = (RET_SUCCESS, [], x') \<and> regs x' = (regs x)(reg := be16 hi lo)) \<and>
     (\<forall>x reg. bus (I2cRead dev reg 2) x = (RET_SUCCESS, [hi8 (regs x reg), lo8 (regs x reg)], x))"

lemma word_registersE:
  assumes "word_registers bus dev regs"
  obtains x' where "bus (I2cWrite dev reg [hi, lo]) x = (RET_SUCCESS, [], x')" "regs x' = (regs x)(reg := be16 hi lo)"
  using assms unfolding word_registers_def by meson

lemma word_registers_read:
  "word_registers bus dev regs \<Longrightarrow> bus (I2cRead dev reg 2) x = (RET_SUCCESS, [hi8 (regs x reg), lo8 (regs x reg)], x)"
  by (simp add: word_registers_def)

text \<open>Such a device, alone on its bus.\<close>

fun word_bus :: "(u16 \<Rightarrow> u16) bus" where
  "word_bus (I2cWrite dev reg [hi, lo]) x = (RET_SUCCESS, [], x(reg := be16 hi lo))"
| "word_bus (I2cRead dev reg n) x = (RET_SUCCESS, take n [hi8 (x reg), lo8 (x reg)], x)"
| "word_bus ev x = (RET_ERROR, [], x)"

lemma word_bus_registers: "word_registers word_bus dev (\<lambda>x. x)"
  by (auto simp: word_registers_def)

section \<open>Numbers\<close>

text \<open>
  A \<open>float\<close> is the rational number it stands for.  Where the code rounds, a function \<open>fl\<close> (the nearest
  \<open>float\<close>) or \<open>db\<close> (the nearest \<open>double\<close>) is a parameter.
\<close>

text \<open>The signed value of two bytes, the high one first: \<open>static_cast<int16_t>(hi << 8) | lo\<close>.\<close>

definition s16 :: "u8 list \<Rightarrow> int" where
  "s16 b = sint (be16 (b ! 0) (b ! 1))"

definition trunc_int :: "rat \<Rightarrow> int" where
  "trunc_int x = (if x < 0 then \<lceil>x\<rceil> else \<lfloor>x\<rfloor>)"

text \<open>Conversion of a \<open>float\<close> to \<open>int16_t\<close>: towards zero, and undefined out of range.\<close>

definition to_int16 :: "rat \<Rightarrow> int option" where
  "to_int16 x =
     (let n = trunc_int x
      in if - (2 ^ 15) \<le> n \<and> n < 2 ^ 15 then Some n else None)"

lemma to_int16_bounds: "to_int16 x = Some n \<Longrightarrow> - (2 ^ 15) \<le> n \<and> n < 2 ^ 15"
  by (auto simp: to_int16_def Let_def split: if_splits)

lemma s16_bytes:
  assumes "- (2 ^ 15) \<le> n" "n < 2 ^ 15"
  shows "s16 [hi8 (word_of_int n), lo8 (word_of_int n)] = n"
  using assms unfolding s16_def by (simp add: sint_sbintrunc' signed_take_bit_int_eq_self)

end
