(* ===== verification/FlashModel.thy ===== *)
theory FlashModel
  imports DriverBase
begin

unbundle bit_operations_syntax

text \<open>
  The flash memory driver of src/device/peripherals/W25Q/W25Q.h.  The chip select pin is pin 0.  The
  buffer \<open>wq_buff\<close> is the memory behind the pointers into which a function of the driver reads; \<open>tid\<close> is
  the dispatched task.  A function that finds the chip busy blocks the task and returns \<open>RET_BLOCKED\<close>;
  the functions are modelled from their start up to such a return.
\<close>

section \<open>State and operations\<close>

record w25q =
  wq_blocked :: int
  wq_dev_id :: u32
  wq_page_size :: size_t
  wq_page_count :: size_t
  wq_erase :: u8
  wq_buff :: "u8 list"

definition W25Q128JV_JEDEC_ID :: u32 where
  "W25Q128JV_JEDEC_ID = 0x00EF4018"

definition TID_UNBLOCKED :: int where
  "TID_UNBLOCKED = - 1"

datatype read_status_t = READ_ONE | READ_TWO | READ_THREE
datatype erase_command_t = SECTOR_ERASE | BLOCK_32_ERASE | BLOCK_64_ERASE | CHIP_ERASE | SUSPEND_ERASE | RESUME_ERASE
datatype write_set_t = WRITE_ENABLE | WRITE_ENABLE_VOLTATILE | WRITE_DISABLE
datatype write_status_t = WRITE_ONE | WRITE_TWO | WRITE_THREE

fun read_status_code :: "read_status_t \<Rightarrow> u8" where
  "read_status_code READ_ONE = 0x05"
| "read_status_code READ_TWO = 0x35"
| "read_status_code READ_THREE = 0x15"

fun erase_code :: "erase_command_t \<Rightarrow> u8" where
  "erase_code SECTOR_ERASE = 0x20"
| "erase_code BLOCK_32_ERASE = 0x52"
| "erase_code BLOCK_64_ERASE = 0xD8"
| "erase_code CHIP_ERASE = 0xC7"
| "erase_code SUSPEND_ERASE = 0x75"
| "erase_code RESUME_ERASE = 0x7A"

fun write_set_code :: "write_set_t \<Rightarrow> u8" where
  "write_set_code WRITE_ENABLE = 0x06"
| "write_set_code WRITE_ENABLE_VOLTATILE = 0x50"
| "write_set_code WRITE_DISABLE = 0x04"

fun write_status_code :: "write_status_t \<Rightarrow> u8" where
  "write_status_code WRITE_ONE = 0x01"
| "write_status_code WRITE_TWO = 0x31"
| "write_status_code WRITE_THREE = 0x11"

definition READ_DATA :: u8 where
  "READ_DATA = 0x03"

definition PAGE_PROGRAM :: u8 where
  "PAGE_PROGRAM = 0x02"

definition S_BUSY :: u8 where
  "S_BUSY = 1"

definition addr_to_24 :: "u32 \<Rightarrow> u8 list" where
  "addr_to_24 addr =
     [ucast (drop_bit 16 (addr AND 0x00FF0000)), ucast (drop_bit 8 (addr AND 0x0000FF00)), ucast (addr AND 0x000000FF)]"

definition m_spi_w :: "'x bus \<Rightarrow> u8 list \<Rightarrow> (w25q, 'x) drv" where
  "m_spi_w bus buf =
     check_call (bus_do bus (PinSet 0 0)) (
     check_call (bus_do bus (SpiWrite buf)) (
     check_call (bus_do bus (PinSet 0 1)) (
     State_Monad.return RET_SUCCESS)))"

definition m_spi_ww :: "'x bus \<Rightarrow> u8 list \<Rightarrow> u8 list \<Rightarrow> (w25q, 'x) drv" where
  "m_spi_ww bus buf1 buf2 =
     check_call (bus_do bus (PinSet 0 0)) (
     check_call (bus_do bus (SpiWrite buf1)) (
     check_call (bus_do bus (SpiWrite buf2)) (
     check_call (bus_do bus (PinSet 0 1)) (
     State_Monad.return RET_SUCCESS))))"

text \<open>Reading into the buffer.\<close>

definition spi_read_into :: "'x bus \<Rightarrow> nat \<Rightarrow> (w25q, 'x) drv" where
  "spi_read_into bus n = do {
     (ret, data) \<leftarrow> bus_call bus (SpiRead n);
     mod_dev (\<lambda>d. d\<lparr>wq_buff := data\<rparr>);
     State_Monad.return ret}"

definition m_spi_wr :: "'x bus \<Rightarrow> u8 list \<Rightarrow> nat \<Rightarrow> (w25q, 'x) drv" where
  "m_spi_wr bus buf1 len2 =
     check_call (bus_do bus (PinSet 0 0)) (
     check_call (bus_do bus (SpiWrite buf1)) (
     check_call (spi_read_into bus len2) (
     check_call (bus_do bus (PinSet 0 1)) (
     State_Monad.return RET_SUCCESS))))"

definition wq_read_id :: "'x bus \<Rightarrow> (w25q, 'x) drv" where
  "wq_read_id bus = check_call (m_spi_wr bus [0x9F] 3) (State_Monad.return RET_SUCCESS)"

text \<open>The identifier that \<open>read_id\<close> makes of the bytes read.\<close>

definition id_of :: "u8 list \<Rightarrow> u32" where
  "id_of b = push_bit 16 (ucast (b ! 0)) + push_bit 8 (ucast (b ! 1)) + ucast (b ! 2)"

definition wq_read_status :: "'x bus \<Rightarrow> read_status_t \<Rightarrow> (w25q, 'x) drv" where
  "wq_read_status bus cmd = check_call (m_spi_wr bus [read_status_code cmd] 1) (State_Monad.return RET_SUCCESS)"

definition wq_write_enable_set :: "'x bus \<Rightarrow> write_set_t \<Rightarrow> (w25q, 'x) drv" where
  "wq_write_enable_set bus mode = check_call (m_spi_w bus [write_set_code mode]) (State_Monad.return RET_SUCCESS)"

definition wq_write_status :: "'x bus \<Rightarrow> write_status_t \<Rightarrow> u8 \<Rightarrow> (w25q, 'x) drv" where
  "wq_write_status bus cmd src =
     check_call (wq_write_enable_set bus WRITE_ENABLE) (
     check_call (m_spi_w bus [write_status_code cmd, src]) (
     State_Monad.return RET_SUCCESS))"

definition wq_block_if_busy :: "'x bus \<Rightarrow> int \<Rightarrow> (w25q, 'x) drv" where
  "wq_block_if_busy bus tid = do {
     d \<leftarrow> get_dev;
     if wq_blocked d \<noteq> TID_UNBLOCKED then State_Monad.return RET_ERROR
     else check_call (wq_read_status bus READ_ONE) (do {
       d \<leftarrow> get_dev;
       if wq_buff d ! 0 AND S_BUSY \<noteq> 0 then do {
         mod_dev (\<lambda>d. d\<lparr>wq_blocked := tid\<rparr>);
         _ \<leftarrow> bus_do bus (BlockTask tid);
         State_Monad.return RET_BLOCKED}
       else State_Monad.return RET_SUCCESS})}"

definition wq_mem_read :: "'x bus \<Rightarrow> int \<Rightarrow> u32 \<Rightarrow> nat \<Rightarrow> (w25q, 'x) drv" where
  "wq_mem_read bus tid addr len =
     check_call (wq_block_if_busy bus tid) (
     check_call (m_spi_wr bus (READ_DATA # addr_to_24 addr) len) (
     State_Monad.return RET_SUCCESS))"

definition wq_mem_program :: "'x bus \<Rightarrow> int \<Rightarrow> u8 \<Rightarrow> u32 \<Rightarrow> u8 list \<Rightarrow> (w25q, 'x) drv" where
  "wq_mem_program bus tid cmd addr src =
     check_call (wq_block_if_busy bus tid) (
     check_call (wq_write_enable_set bus WRITE_ENABLE) (
     check_call (m_spi_ww bus (cmd # addr_to_24 addr) src) (
     State_Monad.return RET_SUCCESS)))"

definition wq_erase_cmd :: "'x bus \<Rightarrow> int \<Rightarrow> erase_command_t \<Rightarrow> u32 \<Rightarrow> (w25q, 'x) drv" where
  "wq_erase_cmd bus tid cmd addr =
     check_call (wq_block_if_busy bus tid) (
     check_call (wq_write_enable_set bus WRITE_ENABLE) (
     check_call (m_spi_w bus (take (if cmd = CHIP_ERASE then 1 else 4) (erase_code cmd # addr_to_24 addr))) (
     State_Monad.return RET_SUCCESS)))"

definition wq_init :: "'x bus \<Rightarrow> (w25q, 'x) drv" where
  "wq_init bus =
     check_call (wq_read_id bus) (do {
       d \<leftarrow> get_dev;
       if id_of (wq_buff d) \<noteq> W25Q128JV_JEDEC_ID then State_Monad.return RET_ERROR
       else do {
         mod_dev (\<lambda>d. d\<lparr>wq_dev_id := id_of (wq_buff d), wq_page_size := 0xFF, wq_page_count := 0xFFFF\<rparr>);
         State_Monad.return RET_SUCCESS}})"

definition wq_write :: "'x bus \<Rightarrow> int \<Rightarrow> size_t \<Rightarrow> u8 list \<Rightarrow> (w25q, 'x) drv" where
  "wq_write bus tid block buff = do {
     d \<leftarrow> get_dev;
     if block > wq_page_count d then State_Monad.return RET_ERROR
     else check_call (wq_mem_program bus tid PAGE_PROGRAM (push_bit 8 block) (take (unat (wq_page_size d)) buff)) (
       State_Monad.return RET_SUCCESS)}"

definition wq_read :: "'x bus \<Rightarrow> int \<Rightarrow> size_t \<Rightarrow> (w25q, 'x) drv" where
  "wq_read bus tid block = do {
     d \<leftarrow> get_dev;
     if block > wq_page_count d then State_Monad.return RET_ERROR
     else check_call (wq_mem_read bus tid (push_bit 8 block) (unat (wq_page_size d))) (
       State_Monad.return RET_SUCCESS)}"

text \<open>\<open>poll\<close> clears the blocked task before it wakes it.\<close>

definition wq_poll :: "'x bus \<Rightarrow> (w25q, 'x) drv" where
  "wq_poll bus = do {
     d \<leftarrow> get_dev;
     if wq_blocked d \<noteq> TID_UNBLOCKED then
       check_call (wq_read_status bus READ_ONE) (do {
         d \<leftarrow> get_dev;
         if wq_buff d ! 0 AND S_BUSY = 0 then do {
           mod_dev (\<lambda>d. d\<lparr>wq_blocked := TID_UNBLOCKED\<rparr>);
           d \<leftarrow> get_dev;
           _ \<leftarrow> bus_do bus (WakeTask (wq_blocked d));
           State_Monad.return RET_SUCCESS}
         else State_Monad.return RET_SUCCESS})
     else State_Monad.return RET_SUCCESS}"

lemmas flash_defs = m_spi_w_def m_spi_ww_def m_spi_wr_def spi_read_into_def wq_read_id_def wq_read_status_def
  wq_write_enable_set_def wq_write_status_def wq_block_if_busy_def wq_mem_read_def wq_mem_program_def
  wq_erase_cmd_def wq_init_def wq_write_def wq_read_def wq_poll_def

section \<open>The traffic of the commands\<close>

text \<open>A chip that is not busy answers a status read with a byte whose busy bit is clear.\<close>

definition status_traffic :: "bus_event list" where
  "status_traffic = [PinSet 0 0, SpiWrite [0x05], SpiRead 1, PinSet 0 1]"

lemma read_status_run:
  "run_state (wq_read_status (ok_bus f) READ_ONE) (d, evs) =
     (RET_SUCCESS, d\<lparr>wq_buff := f (SpiRead 1) (evs @ [PinSet 0 0, SpiWrite [0x05]])\<rparr>, evs @ status_traffic)"
  by (simp add: flash_defs ok_bus_def status_traffic_def)

lemma block_if_busy_run:
  assumes "wq_blocked d = TID_UNBLOCKED"
    and "f (SpiRead 1) (evs @ [PinSet 0 0, SpiWrite [0x05]]) = [s]"
  shows "run_state (wq_block_if_busy (ok_bus f) tid) (d, evs) =
    (if s AND S_BUSY \<noteq> 0 then (RET_BLOCKED, d\<lparr>wq_buff := [s], wq_blocked := tid\<rparr>, evs @ status_traffic @ [BlockTask tid])
     else (RET_SUCCESS, d\<lparr>wq_buff := [s]\<rparr>, evs @ status_traffic))"
  unfolding wq_block_if_busy_def using assms by (simp add: read_status_run ok_bus_def)

text \<open>C39: 
  The first activation of a task that writes a block of the flash, on a bus whose calls succeed.  A number
  above the count of pages, or a task that is recorded as blocked already, is an error without any traffic.
  Otherwise the status is read.  When the chip is busy, this is the whole traffic of the activation: the caller is
  recorded and blocked (the activation that follows is the property about a resumed write).  When it is not, a write
  enable and the page program command with the three address bytes of the block's page and the block's bytes
  are sent, each command in its own frame of the chip select.
\<close>
theorem flash_write_traffic:
  assumes "f (SpiRead 1) (evs @ [PinSet 0 0, SpiWrite [0x05]]) = [s]"
  shows "run_state (wq_write (ok_bus f) tid block buff) (d, evs) =
    (if wq_page_count d < block \<or> wq_blocked d \<noteq> TID_UNBLOCKED then (RET_ERROR, d, evs)
     else if s AND S_BUSY \<noteq> 0 then (RET_BLOCKED, d\<lparr>wq_buff := [s], wq_blocked := tid\<rparr>, evs @ status_traffic @ [BlockTask tid])
     else (RET_SUCCESS, d\<lparr>wq_buff := [s]\<rparr>, evs @ status_traffic
       @ [PinSet 0 0, SpiWrite [0x06], PinSet 0 1,
          PinSet 0 0, SpiWrite (PAGE_PROGRAM # addr_to_24 (push_bit 8 block)),
          SpiWrite (take (unat (wq_page_size d)) buff), PinSet 0 1]))"
proof (cases "wq_blocked d = TID_UNBLOCKED")
  case True
  show ?thesis
    unfolding wq_write_def wq_mem_program_def wq_write_enable_set_def m_spi_w_def m_spi_ww_def
    using assms True by (simp add: block_if_busy_run ok_bus_def call_waits_def)
next
  case False
  then show ?thesis
    by (simp add: wq_write_def wq_mem_program_def wq_block_if_busy_def call_waits_def)
qed

theorem flash_write_traffic_witness:
  "run_state (wq_write (ok_bus (\<lambda>ev evs. [0])) 3 0x102 [7, 8, 9])
     (\<lparr>wq_blocked = - 1, wq_dev_id = 0, wq_page_size = 0xFF, wq_page_count = 0xFFFF, wq_erase = 0, wq_buff = []\<rparr>, []) =
   (RET_SUCCESS, \<lparr>wq_blocked = - 1, wq_dev_id = 0, wq_page_size = 0xFF, wq_page_count = 0xFFFF, wq_erase = 0, wq_buff = [0]\<rparr>,
    [PinSet 0 0, SpiWrite [5], SpiRead 1, PinSet 0 1, PinSet 0 0, SpiWrite [6], PinSet 0 1,
     PinSet 0 0, SpiWrite [2, 1, 2, 0], SpiWrite [7, 8, 9], PinSet 0 1])"
  using flash_write_traffic [where d = "\<lparr>wq_blocked = - 1, wq_dev_id = 0, wq_page_size = 0xFF, wq_page_count = 0xFFFF, wq_erase = 0, wq_buff = []\<rparr>"
      and block = "0x102" and f = "\<lambda>ev evs. [0]" and evs = "[]" and s = 0 and tid = 3 and buff = "[7, 8, 9]"]
  by (simp add: TID_UNBLOCKED_def S_BUSY_def status_traffic_def PAGE_PROGRAM_def addr_to_24_def drop_bit_eq_div push_bit_eq_mult)

text \<open>
  Polling the flash while a task is blocked on it: the status is read, and once the chip is no longer busy
  the record of the blocked task is cleared first, so that it is the task number -1, and not the blocked
  task, that is woken.
\<close>
theorem flash_poll_wakes_nobody:
  assumes "wq_blocked d \<noteq> TID_UNBLOCKED"
    and "f (SpiRead 1) (evs @ [PinSet 0 0, SpiWrite [0x05]]) = [s]"
  shows "run_state (wq_poll (ok_bus f)) (d, evs) =
    (RET_SUCCESS,
     if s AND S_BUSY = 0 then (d\<lparr>wq_buff := [s], wq_blocked := TID_UNBLOCKED\<rparr>, evs @ status_traffic @ [WakeTask (- 1)])
     else (d\<lparr>wq_buff := [s]\<rparr>, evs @ status_traffic))"
  unfolding wq_poll_def using assms by (simp add: read_status_run ok_bus_def TID_UNBLOCKED_def)

theorem flash_poll_wakes_nobody_witness:
  "run_state (wq_poll (ok_bus (\<lambda>ev evs. [0])))
     (\<lparr>wq_blocked = 3, wq_dev_id = 0, wq_page_size = 0xFF, wq_page_count = 0xFFFF, wq_erase = 0, wq_buff = []\<rparr>, []) =
   (RET_SUCCESS, \<lparr>wq_blocked = - 1, wq_dev_id = 0, wq_page_size = 0xFF, wq_page_count = 0xFFFF, wq_erase = 0, wq_buff = [0]\<rparr>,
    [PinSet 0 0, SpiWrite [5], SpiRead 1, PinSet 0 1, WakeTask (- 1)])"
  using flash_poll_wakes_nobody [where d = "\<lparr>wq_blocked = 3, wq_dev_id = 0, wq_page_size = 0xFF, wq_page_count = 0xFFFF, wq_erase = 0, wq_buff = []\<rparr>"
      and f = "\<lambda>ev evs. [0]" and evs = "[]" and s = 0]
  by (simp add: TID_UNBLOCKED_def S_BUSY_def status_traffic_def)

end
