(* ===== verification/LedModel.thy ===== *)
theory LedModel
  imports DriverBase
begin

text \<open>
  The light drivers of src/device/peripherals/LED: LED.h with one pin (pin 0), RGB.h with a pin for
  every colour (pins 0, 1 and 2 for red, green and blue).
\<close>

section \<open>One light\<close>

datatype led_state = LED_OFF | LED_ON

record led =
  led_st :: led_state
  led_on_time :: u32
  led_period :: u32

fun led_level :: "led_state \<Rightarrow> u32" where
  "led_level LED_OFF = 0"
| "led_level LED_ON = 1"

definition led_set_state :: "'x bus \<Rightarrow> led_state \<Rightarrow> (led, 'x) drv" where
  "led_set_state bus st = do {
     mod_dev (\<lambda>d. d\<lparr>led_st := st\<rparr>);
     d \<leftarrow> get_dev;
     bus_do bus (PinSet 0 (led_level (led_st d)))}"

definition led_init :: "'x bus \<Rightarrow> (led, 'x) drv" where
  "led_init bus = do {
     d \<leftarrow> get_dev;
     bus_do bus (PinSet 0 (led_level (led_st d)))}"

definition led_toggle :: "'x bus \<Rightarrow> (led, 'x) drv" where
  "led_toggle bus = do {
     mod_dev (\<lambda>d. d\<lparr>led_st := (case led_st d of LED_OFF \<Rightarrow> LED_ON | LED_ON \<Rightarrow> LED_OFF)\<rparr>);
     d \<leftarrow> get_dev;
     led_set_state bus (led_st d)}"

definition led_set_flash :: "u32 \<Rightarrow> u32 \<Rightarrow> led \<Rightarrow> ret_type \<times> led" where
  "led_set_flash on_time period d =
     (if period < on_time then (RET_ERROR, d)
      else
        (let d1 = (if on_time \<noteq> 0 then d\<lparr>led_on_time := on_time\<rparr> else d);
             d2 = (if period \<noteq> 0 then d1\<lparr>led_period := period\<rparr> else d1)
         in (RET_SUCCESS, d2)))"

definition led_flash :: "'x bus \<Rightarrow> (led, 'x) drv" where
  "led_flash bus = do {
     d \<leftarrow> get_dev;
     case led_st d of
       LED_OFF \<Rightarrow> call_then (led_set_state bus LED_ON) (\<lambda>ret. drv_sleep bus (led_on_time d) (State_Monad.return ret))
     | LED_ON \<Rightarrow> call_then (led_set_state bus LED_OFF) (\<lambda>ret. drv_sleep bus (led_period d - led_on_time d) (State_Monad.return ret))}"

section \<open>A light of three colours\<close>

datatype rgb_color = RED | ORANGE | YELLOW | GREEN | BLUE | INDIGO | VIOLET | WHITE | BLACK

record rgb =
  rgb_red :: u8
  rgb_green :: u8
  rgb_blue :: u8

definition rgb_update :: "'x bus \<Rightarrow> (rgb, 'x) drv" where
  "rgb_update bus = do {
     d \<leftarrow> get_dev;
     on_success (bus_do bus (PinSet 0 (ucast (rgb_red d)))) (
     on_success (bus_do bus (PinSet 1 (ucast (rgb_green d)))) (
     on_success (bus_do bus (PinSet 2 (ucast (rgb_blue d)))) (
     State_Monad.return RET_SUCCESS)))}"

definition rgb_turn_off :: "'x bus \<Rightarrow> (rgb, 'x) drv" where
  "rgb_turn_off bus =
     on_success (bus_do bus (PinSet 0 0)) (
     on_success (bus_do bus (PinSet 2 0)) (
     on_success (bus_do bus (PinSet 1 0)) (
     State_Monad.return RET_SUCCESS)))"

definition rgb_set_values :: "'x bus \<Rightarrow> u8 \<Rightarrow> u8 \<Rightarrow> u8 \<Rightarrow> (rgb, 'x) drv" where
  "rgb_set_values bus r g b = do {
     mod_dev (\<lambda>d. d\<lparr>rgb_red := r, rgb_green := g, rgb_blue := b\<rparr>);
     on_success (rgb_update bus) (State_Monad.return RET_SUCCESS)}"

definition rgb_init :: "'x bus \<Rightarrow> (rgb, 'x) drv" where
  "rgb_init bus = do {
     d \<leftarrow> get_dev;
     on_success (rgb_set_values bus (rgb_red d) (rgb_green d) (rgb_blue d)) (State_Monad.return RET_SUCCESS)}"

text \<open>A pin that is read as not zero turns the light off; \<open>k\<close> is what follows when it is zero.\<close>

definition rgb_check :: "'x bus \<Rightarrow> nat \<Rightarrow> (rgb, 'x) drv \<Rightarrow> (rgb, 'x) drv" where
  "rgb_check bus pin k = do {
     (ret, data) \<leftarrow> bus_call bus (PinGet pin);
     if ret \<noteq> RET_SUCCESS then State_Monad.return ret
     else if \<exists>b \<in> set data. b \<noteq> 0 then rgb_turn_off bus
     else k}"

definition rgb_toggle :: "'x bus \<Rightarrow> (rgb, 'x) drv" where
  "rgb_toggle bus =
     rgb_check bus 0 (rgb_check bus 1 (rgb_check bus 2 (
     on_success (rgb_update bus) (State_Monad.return RET_SUCCESS))))"

fun rgb_value :: "rgb_color \<Rightarrow> u8 \<times> u8 \<times> u8" where
  "rgb_value RED = (255, 0, 0)"
| "rgb_value ORANGE = (255, 0, 0)"
| "rgb_value YELLOW = (255, 255, 0)"
| "rgb_value GREEN = (0, 255, 0)"
| "rgb_value BLUE = (0, 0, 255)"
| "rgb_value INDIGO = (75, 0, 130)"
| "rgb_value VIOLET = (148, 0, 211)"
| "rgb_value BLACK = (0, 0, 0)"
| "rgb_value WHITE = (255, 255, 255)"

definition rgb_set_color :: "'x bus \<Rightarrow> rgb_color \<Rightarrow> (rgb, 'x) drv" where
  "rgb_set_color bus color =
     (case rgb_value color of
        (r, g, b) \<Rightarrow> do {
          ret \<leftarrow> rgb_set_values bus r g b;
          State_Monad.return (if ret \<noteq> RET_SUCCESS then RET_ERROR else ret)})"

lemmas led_defs = led_set_state_def led_init_def led_toggle_def led_flash_def
lemmas rgb_defs = rgb_update_def rgb_turn_off_def rgb_set_values_def rgb_init_def rgb_check_def rgb_toggle_def rgb_set_color_def

section \<open>Flashing\<close>

text \<open>Calls of \<open>flash\<close> one after the other, as a task makes them.\<close>

primrec led_flashes :: "nat \<Rightarrow> 'x bus \<Rightarrow> led \<times> 'x \<Rightarrow> led \<times> 'x" where
  "led_flashes 0 bus s = s"
| "led_flashes (Suc n) bus s = led_flashes n bus (snd (run_state (led_flash bus) s))"

lemma flash_pair:
  assumes "led_st d = LED_OFF"
  shows "led_flashes 2 (ok_bus f) (d, evs) =
    (d, evs @ [PinSet 0 1, SleepFor (led_on_time d), PinSet 0 0, SleepFor (led_period d - led_on_time d)])"
  using assms by (cases d) (simp add: numeral_2_eq_2 led_defs)

lemma flashes_add: "led_flashes (m + n) bus s = led_flashes n bus (led_flashes m bus s)"
  by (induction m arbitrary: s) simp_all

text \<open>
  A light that is off and is configured with an on time and a period that is not shorter: every two
  calls of \<open>flash\<close> turn it on for the on time and off for the rest of the period, and it is back where
  it was.
\<close>
theorem led_flash_period:
  assumes off: "led_st d = LED_OFF" and on: "on_time \<noteq> 0" and le: "on_time \<le> period"
  shows "\<exists>d'. led_set_flash on_time period d = (RET_SUCCESS, d') \<and>
    led_flashes (2 * n) (ok_bus f) (d', evs) =
      (d', evs @ concat (replicate n [PinSet 0 1, SleepFor on_time, PinSet 0 0, SleepFor (period - on_time)]))"
proof -
  let ?d = "d\<lparr>led_on_time := on_time, led_period := period\<rparr>"
  have "period \<noteq> 0"
    using on le by (metis word_le_0_iff)
  then have set: "led_set_flash on_time period d = (RET_SUCCESS, ?d)"
    using on le by (simp add: led_set_flash_def Let_def not_less)
  have "led_flashes (2 * n) (ok_bus f) (?d, evs) =
      (?d, evs @ concat (replicate n [PinSet 0 1, SleepFor on_time, PinSet 0 0, SleepFor (period - on_time)]))"
  proof (induction n arbitrary: evs)
    case (Suc n)
    have "2 * Suc n = 2 + 2 * n"
      by simp
    moreover have "led_st ?d = LED_OFF"
      using off by simp
    ultimately show ?case
      by (simp only: flashes_add flash_pair Suc.IH) simp
  qed simp
  then show ?thesis
    using set by blast
qed

theorem led_flash_period_witness:
  "\<exists>d'. led_set_flash 200 1000 \<lparr>led_st = LED_OFF, led_on_time = 0, led_period = 0\<rparr> = (RET_SUCCESS, d') \<and>
     led_flashes (2 * 2) (ok_bus (\<lambda>ev evs. [])) (d', []) =
     (d', [] @ concat (replicate 2 [PinSet 0 1, SleepFor 200, PinSet 0 0, SleepFor (1000 - 200)]))"
  by (rule led_flash_period) simp_all

text \<open>A period shorter than the on time is refused.\<close>

lemma led_set_flash_refuses: "period < on_time \<Longrightarrow> led_set_flash on_time period d = (RET_ERROR, d)"
  by (simp add: led_set_flash_def)

text \<open>
  Setting a colour drives the three pins with the colour's values and returns success; orange gets the
  values of red.
\<close>
theorem rgb_set_color_pins:
  "run_state (rgb_set_color (ok_bus f) c) (d, evs) =
     (case rgb_value c of (r, g, b) \<Rightarrow>
       (RET_SUCCESS, d\<lparr>rgb_red := r, rgb_green := g, rgb_blue := b\<rparr>,
        evs @ [PinSet 0 (ucast r), PinSet 1 (ucast g), PinSet 2 (ucast b)]))"
  "run_state (rgb_set_color (ok_bus f) ORANGE) (d, evs) = run_state (rgb_set_color (ok_bus f) RED) (d, evs)"
  by (simp_all add: rgb_defs split: prod.split)

end
