(* ===== verification/TempSensorModel.thy ===== *)
theory TempSensorModel
  imports DriverBase
begin

text \<open>
  The temperature sensors of src/device/peripherals: TMP117/TMP117.h and SHTC3/SHTC3.h.  Products with
  and quotients by powers of two are exact.
\<close>

section \<open>TMP117\<close>

record tmp117 =
  tm_dev_addr :: u16
  tm_mem_addr :: u16
  tm_tx :: "u8 list"
  tm_rx :: "u8 list"

datatype tmp117_register =
    TMP117_TEMP_RESULT | TMP117_CONFIGURATION | TMP117_T_HIGH_LIMIT | TMP117_T_LOW_LIMIT | TMP117_EEPROM_UL
  | TMP117_EEPROM1 | TMP117_EEPROM2 | TMP117_TEMP_OFFSET | TMP117_EEPROM3 | TMP117_DEVICE_ID

fun tmp117_reg :: "tmp117_register \<Rightarrow> u16" where
  "tmp117_reg TMP117_TEMP_RESULT = 0x00"
| "tmp117_reg TMP117_CONFIGURATION = 0x01"
| "tmp117_reg TMP117_T_HIGH_LIMIT = 0x02"
| "tmp117_reg TMP117_T_LOW_LIMIT = 0x03"
| "tmp117_reg TMP117_EEPROM_UL = 0x04"
| "tmp117_reg TMP117_EEPROM1 = 0x05"
| "tmp117_reg TMP117_EEPROM2 = 0x06"
| "tmp117_reg TMP117_TEMP_OFFSET = 0x07"
| "tmp117_reg TMP117_EEPROM3 = 0x08"
| "tmp117_reg TMP117_DEVICE_ID = 0x0F"

datatype tmp117_limit = TMP117_HI_REG | TMP117_LO_REG

fun tmp117_limit_reg :: "tmp117_limit \<Rightarrow> u16" where
  "tmp117_limit_reg TMP117_HI_REG = 0x02"
| "tmp117_limit_reg TMP117_LO_REG = 0x03"

definition DEVICE_ID_VALUE :: u16 where
  "DEVICE_ID_VALUE = 0x0117"

definition TMP117_RESOLUTION :: rat where
  "TMP117_RESOLUTION = 1 / 128"

definition tmp117_new :: "u16 \<Rightarrow> tmp117" where
  "tmp117_new address = \<lparr>tm_dev_addr = push_bit 1 address, tm_mem_addr = 0, tm_tx = [0, 0], tm_rx = [0, 0]\<rparr>"

definition tmp_read_register :: "'x bus \<Rightarrow> u16 \<Rightarrow> nat \<Rightarrow> (tmp117, 'x) drv" where
  "tmp_read_register bus reg len = do {
     mod_dev (\<lambda>d. d\<lparr>tm_mem_addr := reg\<rparr>);
     d \<leftarrow> get_dev;
     (ret, data) \<leftarrow> bus_call bus (I2cRead (tm_dev_addr d) (tm_mem_addr d) len);
     mod_dev (\<lambda>d. d\<lparr>tm_rx := fill data (tm_rx d)\<rparr>);
     State_Monad.return ret}"

definition tmp_write_register :: "'x bus \<Rightarrow> u16 \<Rightarrow> (tmp117, 'x) drv" where
  "tmp_write_register bus reg = do {
     mod_dev (\<lambda>d. d\<lparr>tm_mem_addr := reg\<rparr>);
     d \<leftarrow> get_dev;
     bus_do bus (I2cWrite (tm_dev_addr d) (tm_mem_addr d) (tm_tx d))}"

definition tmp_check_id :: "'x bus \<Rightarrow> (tmp117, 'x) drv" where
  "tmp_check_id bus =
     call_then (tmp_read_register bus (tmp117_reg TMP117_DEVICE_ID) 2) (\<lambda>ret. do {
       d \<leftarrow> get_dev;
       State_Monad.return
         (if ret = RET_SUCCESS \<and> DEVICE_ID_VALUE \<noteq> be16 (tm_rx d ! 0) (tm_rx d ! 1) then RET_ERROR else ret)})"

definition tmp_soft_reset :: "'x bus \<Rightarrow> (tmp117, 'x) drv" where
  "tmp_soft_reset bus =
     call_then (tmp_read_register bus (tmp117_reg TMP117_CONFIGURATION) 2) (\<lambda>ret.
       if ret = RET_SUCCESS then do {
         mod_dev (\<lambda>d. let r = be16 (tm_rx d ! 0) (tm_rx d ! 1) OR push_bit 1 1 in d\<lparr>tm_tx := [hi8 r, lo8 r]\<rparr>);
         tmp_write_register bus (tmp117_reg TMP117_CONFIGURATION)}
       else State_Monad.return ret)"

definition tmp_init :: "'x bus \<Rightarrow> (tmp117, 'x) drv" where
  "tmp_init bus =
     call_then (tmp_check_id bus) (\<lambda>ret. if ret = RET_SUCCESS then tmp_soft_reset bus else State_Monad.return ret)"

text \<open>The getters: the value is there when the call succeeds.\<close>

definition tmp_get :: "'x bus \<Rightarrow> u16 \<Rightarrow> (u8 list \<Rightarrow> 'v) \<Rightarrow> (tmp117 \<times> 'x, ret_type \<times> 'v option) state" where
  "tmp_get bus reg conv = do {
     ret \<leftarrow> tmp_read_register bus reg 2;
     d \<leftarrow> get_dev;
     State_Monad.return (ret, if ret = RET_SUCCESS then Some (conv (tm_rx d)) else None)}"

definition read_temp_celsius :: "'x bus \<Rightarrow> (tmp117 \<times> 'x, ret_type \<times> rat option) state" where
  "read_temp_celsius bus = tmp_get bus (tmp117_reg TMP117_TEMP_RESULT) (\<lambda>b. of_int (s16 b) * TMP117_RESOLUTION)"

text \<open>\<open>celsius_to_fahrenheit\<close> computes with doubles; its result is stored as a \<open>float\<close>.\<close>

definition celsius_to_fahrenheit :: "(rat \<Rightarrow> rat) \<Rightarrow> rat \<Rightarrow> rat" where
  "celsius_to_fahrenheit db x = db (db (x * db (9 / 5)) + 32)"

definition read_temp_fahrenheit :: "(rat \<Rightarrow> rat) \<Rightarrow> (rat \<Rightarrow> rat) \<Rightarrow> 'x bus \<Rightarrow> (tmp117 \<times> 'x, ret_type \<times> rat option) state" where
  "read_temp_fahrenheit fl db bus = do {
     (ret, t) \<leftarrow> read_temp_celsius bus;
     State_Monad.return (ret, map_option (\<lambda>x. fl (celsius_to_fahrenheit db x)) t)}"

definition get_temp_offset :: "'x bus \<Rightarrow> (tmp117 \<times> 'x, ret_type \<times> rat option) state" where
  "get_temp_offset bus = tmp_get bus (tmp117_reg TMP117_TEMP_OFFSET) (\<lambda>b. of_int (s16 b) * TMP117_RESOLUTION)"

definition get_limit :: "'x bus \<Rightarrow> tmp117_limit \<Rightarrow> (tmp117 \<times> 'x, ret_type \<times> int option) state" where
  "get_limit bus hilo = tmp_get bus (tmp117_limit_reg hilo) s16"

definition get_config_register :: "'x bus \<Rightarrow> (tmp117 \<times> 'x, ret_type \<times> u16 option) state" where
  "get_config_register bus = tmp_get bus (tmp117_reg TMP117_CONFIGURATION) (\<lambda>b. be16 (b ! 0) (b ! 1))"

text \<open>The setters; \<open>None\<close> when the conversion of the value to 16 bits is undefined.\<close>

definition tmp_put :: "'x bus \<Rightarrow> u16 \<Rightarrow> int \<Rightarrow> (tmp117, 'x) drv" where
  "tmp_put bus reg n = do {
     mod_dev (\<lambda>d. d\<lparr>tm_tx := [hi8 (word_of_int n), lo8 (word_of_int n)]\<rparr>);
     tmp_write_register bus reg}"

definition set_temp_offset :: "'x bus \<Rightarrow> rat \<Rightarrow> (tmp117, 'x) drv option" where
  "set_temp_offset bus offset =
     map_option (tmp_put bus (tmp117_reg TMP117_TEMP_OFFSET)) (to_int16 (offset / TMP117_RESOLUTION))"

definition set_limit :: "'x bus \<Rightarrow> rat \<Rightarrow> tmp117_limit \<Rightarrow> (tmp117, 'x) drv option" where
  "set_limit bus limit hilo = map_option (tmp_put bus (tmp117_limit_reg hilo)) (to_int16 (limit / TMP117_RESOLUTION))"

lemmas tmp_defs = tmp_read_register_def tmp_write_register_def tmp_check_id_def tmp_soft_reset_def tmp_init_def
  tmp_get_def read_temp_celsius_def read_temp_fahrenheit_def get_temp_offset_def get_limit_def get_config_register_def
  tmp_put_def

section \<open>SHTC3\<close>

record shtc3 =
  sh_dev_addr :: u16
  sh_low_power :: bool
  sh_buff :: "u8 list"

datatype shtc3_cmd =
    SLEEP_CMD | WAKEUP_CMD | RESET_CMD | READ_ID_CMD | NORMAL_POW_MEAS_TEMP | LOW_POW_MEAS_TEMP
  | NORMAL_POW_MEAS_HUM | LOW_POW_MEAS_HUM | NORMAL_POW_MEAS_TEMP_STRETCH | LOW_POW_MEAS_TEMP_STRETCH
  | NORMAL_POW_MEAS_HUM_STRETCH | LOW_POW_MEAS_HUM_STRETCH

fun shtc3_code :: "shtc3_cmd \<Rightarrow> u16" where
  "shtc3_code SLEEP_CMD = 0xB098"
| "shtc3_code WAKEUP_CMD = 0x3517"
| "shtc3_code RESET_CMD = 0x805D"
| "shtc3_code READ_ID_CMD = 0xEFC8"
| "shtc3_code NORMAL_POW_MEAS_TEMP = 0x7866"
| "shtc3_code LOW_POW_MEAS_TEMP = 0x609C"
| "shtc3_code NORMAL_POW_MEAS_HUM = 0x58E0"
| "shtc3_code LOW_POW_MEAS_HUM = 0x401A"
| "shtc3_code NORMAL_POW_MEAS_TEMP_STRETCH = 0x7CA2"
| "shtc3_code LOW_POW_MEAS_TEMP_STRETCH = 0x6458"
| "shtc3_code NORMAL_POW_MEAS_HUM_STRETCH = 0x5C24"
| "shtc3_code LOW_POW_MEAS_HUM_STRETCH = 0x44DE"

definition SHTC3_I2C_ADDR :: u16 where
  "SHTC3_I2C_ADDR = 0x70"

definition sh_write_command :: "'x bus \<Rightarrow> shtc3_cmd \<Rightarrow> (shtc3, 'x) drv" where
  "sh_write_command bus cmd = do {
     mod_dev (\<lambda>d. d\<lparr>sh_dev_addr := push_bit 1 SHTC3_I2C_ADDR,
                     sh_buff := (sh_buff d)[0 := hi8 (shtc3_code cmd), 1 := lo8 (shtc3_code cmd)]\<rparr>);
     d \<leftarrow> get_dev;
     bus_do bus (I2cTransmit (sh_dev_addr d) (take 2 (sh_buff d)))}"

text \<open>The command is sent from its place in memory, the low byte first.\<close>

definition sh_read_command :: "'x bus \<Rightarrow> shtc3_cmd \<Rightarrow> nat \<Rightarrow> (shtc3, 'x) drv" where
  "sh_read_command bus cmd n = do {
     mod_dev (\<lambda>d. d\<lparr>sh_dev_addr := push_bit 1 SHTC3_I2C_ADDR\<rparr>);
     d \<leftarrow> get_dev;
     check_call (bus_do bus (I2cTransmit (sh_dev_addr d) [lo8 (shtc3_code cmd), hi8 (shtc3_code cmd)])) (do {
       mod_dev (\<lambda>d. d\<lparr>sh_dev_addr := push_bit 1 SHTC3_I2C_ADDR OR 1\<rparr>);
       d \<leftarrow> get_dev;
       (ret, data) \<leftarrow> bus_call bus (I2cReceive (sh_dev_addr d) n);
       mod_dev (\<lambda>d. d\<lparr>sh_buff := fill data (sh_buff d)\<rparr>);
       State_Monad.return ret})}"

definition sh_check_id :: "'x bus \<Rightarrow> (shtc3, 'x) drv" where
  "sh_check_id bus =
     check_call (sh_read_command bus READ_ID_CMD 2) (do {
       d \<leftarrow> get_dev;
       State_Monad.return
         (if be16 (sh_buff d ! 0) (sh_buff d ! 1) AND 0x083F \<noteq> 0x807 then RET_ERROR else RET_SUCCESS)})"

definition sh_toggle_sleep :: "'x bus \<Rightarrow> bool \<Rightarrow> (shtc3, 'x) drv" where
  "sh_toggle_sleep bus set_sleep =
     (if set_sleep then sh_write_command bus SLEEP_CMD
      else call_then (sh_write_command bus WAKEUP_CMD) (\<lambda>ret. drv_sleep bus 1 (State_Monad.return ret)))"

definition sh_reset :: "'x bus \<Rightarrow> (shtc3, 'x) drv" where
  "sh_reset bus = call_then (sh_write_command bus RESET_CMD) (\<lambda>ret. drv_sleep bus 100 (State_Monad.return ret))"

definition sh_init :: "'x bus \<Rightarrow> (shtc3, 'x) drv" where
  "sh_init bus =
     check_call (sh_toggle_sleep bus False) (
     check_call (sh_reset bus) (
     check_call (sh_check_id bus) (do {
       d \<leftarrow> get_dev;
       call_then (sh_write_command bus (if sh_low_power d then LOW_POW_MEAS_TEMP else NORMAL_POW_MEAS_TEMP))
         (\<lambda>ret. drv_sleep bus 1000 (State_Monad.return ret))})))"

text \<open>Both conversions are exact: their numerators stay below \<open>2 ^ 24\<close>.\<close>

definition calc_temp :: "u16 \<Rightarrow> rat" where
  "calc_temp raw = 175 * of_nat (unat raw) / 65536 - 45"

definition calc_humidity :: "u16 \<Rightarrow> rat" where
  "calc_humidity raw = 100 * of_nat (unat raw) / 65536"

text \<open>The result is the code, the temperature and the humidity, each of which is there when its command succeeded.\<close>

definition get_humidity_and_temp :: "'x bus \<Rightarrow> (shtc3 \<times> 'x, ret_type \<times> rat option \<times> rat option) state" where
  "get_humidity_and_temp bus = do {
     ret \<leftarrow> sh_read_command bus NORMAL_POW_MEAS_HUM_STRETCH 2;
     if call_waits ret then State_Monad.return (ret, None, None)
     else do {
       d \<leftarrow> get_dev;
       let hum = (if ret = RET_SUCCESS then Some (calc_humidity (be16 (sh_buff d ! 0) (sh_buff d ! 1))) else None);
       ret \<leftarrow> sh_read_command bus NORMAL_POW_MEAS_TEMP_STRETCH 2;
       if call_waits ret then State_Monad.return (ret, None, hum)
       else do {
         d \<leftarrow> get_dev;
         let temp = (if ret = RET_SUCCESS then Some (calc_temp (be16 (sh_buff d ! 0) (sh_buff d ! 1))) else None);
         State_Monad.return (RET_SUCCESS, temp, hum)}}}"

primrec crc8_bits :: "nat \<Rightarrow> u8 \<Rightarrow> u8" where
  "crc8_bits 0 crc = crc"
| "crc8_bits (Suc j) crc = crc8_bits j (if crc AND 0x80 \<noteq> 0 then push_bit 1 crc XOR 0x31 else push_bit 1 crc)"

definition crc8 :: "u8 list \<Rightarrow> u8" where
  "crc8 data = fold (\<lambda>b crc. crc8_bits 8 (crc XOR b)) data 0xFF"

lemmas sh_defs = sh_write_command_def sh_read_command_def sh_check_id_def sh_toggle_sleep_def sh_reset_def sh_init_def

section \<open>What is written is read\<close>

lemma tmp_put_run:
  assumes "word_registers bus (tm_dev_addr d) regs"
  obtains x' where "run_state (tmp_put bus reg n) (d, x) =
      (RET_SUCCESS, d\<lparr>tm_tx := [hi8 (word_of_int n), lo8 (word_of_int n)], tm_mem_addr := reg\<rparr>, x')"
    "regs x' = (regs x)(reg := word_of_int n)"
proof -
  obtain x' where "bus (I2cWrite (tm_dev_addr d) reg [hi8 (word_of_int n), lo8 (word_of_int n)]) x = (RET_SUCCESS, [], x')"
      "regs x' = (regs x)(reg := word_of_int n)"
    using word_registersE [OF assms, of reg "hi8 (word_of_int n)" "lo8 (word_of_int n)" x] by auto
  then show ?thesis
    using that by (simp add: tmp_put_def tmp_write_register_def)
qed

lemma tmp_get_run:
  assumes "word_registers bus (tm_dev_addr d) regs" and "length (tm_rx d) = 2"
  shows "fst (run_state (tmp_get bus reg conv) (d, x)) = (RET_SUCCESS, Some (conv [hi8 (regs x reg), lo8 (regs x reg)]))"
  using assms by (simp add: tmp_get_def tmp_read_register_def word_registers_read)

text \<open>
  On a bus on which the sensor keeps what is written to its registers: setting an alert limit of any value
  whose multiple of 128 fits 16 bits succeeds, changes that limit's register alone, and reading the limit
  back gives the value in units of 1/128 degree, rounded towards zero; a temperature offset that is a
  multiple of 1/128 degree is read back as it was set.
\<close>
theorem tmp117_set_get:
  assumes bus: "word_registers bus (tm_dev_addr d) regs" and len: "length (tm_rx d) = 2"
    and n: "to_int16 (limit * 128) = Some n" and k: "to_int16 (offset * 128) = Some k" and exact: "offset = of_int k / 128"
  shows "\<exists>m1 d1 x1 m2 d2 x2. set_limit bus limit hilo = Some m1 \<and> run_state m1 (d, x) = (RET_SUCCESS, d1, x1) \<and>
    fst (run_state (get_limit bus hilo) (d1, x1)) = (RET_SUCCESS, Some n) \<and>
    (\<forall>reg. reg \<noteq> tmp117_limit_reg hilo \<longrightarrow> regs x1 reg = regs x reg) \<and>
    set_temp_offset bus offset = Some m2 \<and> run_state m2 (d1, x1) = (RET_SUCCESS, d2, x2) \<and>
    fst (run_state (get_temp_offset bus) (d2, x2)) = (RET_SUCCESS, Some offset) \<and>
    fst (run_state (get_limit bus hilo) (d2, x2)) = (RET_SUCCESS, Some n)"
proof -
  let ?r = "tmp117_limit_reg hilo"
  obtain x1 where x1: "run_state (tmp_put bus ?r n) (d, x) =
      (RET_SUCCESS, d\<lparr>tm_tx := [hi8 (word_of_int n), lo8 (word_of_int n)], tm_mem_addr := ?r\<rparr>, x1)"
      "regs x1 = (regs x)(?r := word_of_int n)"
    by (rule tmp_put_run [OF bus])
  let ?d1 = "d\<lparr>tm_tx := [hi8 (word_of_int n), lo8 (word_of_int n)], tm_mem_addr := ?r\<rparr>"
  have bus1: "word_registers bus (tm_dev_addr ?d1) regs" and len1: "length (tm_rx ?d1) = 2"
    using bus len by simp_all
  obtain x2 where x2: "run_state (tmp_put bus 7 k) (?d1, x1) =
      (RET_SUCCESS, ?d1\<lparr>tm_tx := [hi8 (word_of_int k), lo8 (word_of_int k)], tm_mem_addr := 7\<rparr>, x2)"
      "regs x2 = (regs x1)(7 := word_of_int k)"
    by (rule tmp_put_run [OF bus1])
  let ?d2 = "?d1\<lparr>tm_tx := [hi8 (word_of_int k), lo8 (word_of_int k)], tm_mem_addr := 7\<rparr>"
  have bus2: "word_registers bus (tm_dev_addr ?d2) regs" and len2: "length (tm_rx ?d2) = 2"
    using bus len by simp_all
  have r: "?r \<noteq> 7"
    by (cases hilo) simp_all
  have "set_limit bus limit hilo = Some (tmp_put bus ?r n)" "set_temp_offset bus offset = Some (tmp_put bus 7 k)"
    using n k by (simp_all add: set_limit_def set_temp_offset_def TMP117_RESOLUTION_def)
  moreover have "fst (run_state (get_limit bus hilo) (?d1, x1)) = (RET_SUCCESS, Some n)"
    unfolding get_limit_def tmp_get_run [OF bus1 len1] using x1(2) s16_bytes to_int16_bounds [OF n] by simp
  moreover have "fst (run_state (get_limit bus hilo) (?d2, x2)) = (RET_SUCCESS, Some n)"
    unfolding get_limit_def tmp_get_run [OF bus2 len2] using x1(2) x2(2) r s16_bytes to_int16_bounds [OF n] by simp
  moreover have "fst (run_state (get_temp_offset bus) (?d2, x2)) = (RET_SUCCESS, Some offset)"
    unfolding get_temp_offset_def tmp117_reg.simps tmp_get_run [OF bus2 len2]
    using x2(2) s16_bytes to_int16_bounds [OF k] exact by (simp add: TMP117_RESOLUTION_def)
  ultimately show ?thesis
    using x1 x2 by auto
qed

theorem tmp117_set_get_witness:
  "\<exists>m1 d1 x1 m2 d2 x2. set_limit word_bus (- 25 / 2) TMP117_LO_REG = Some m1 \<and>
    run_state m1 (tmp117_new 0x48, \<lambda>_. 0) = (RET_SUCCESS, d1, x1) \<and>
    fst (run_state (get_limit word_bus TMP117_LO_REG) (d1, x1)) = (RET_SUCCESS, Some (- 1600)) \<and>
    (\<forall>reg. reg \<noteq> tmp117_limit_reg TMP117_LO_REG \<longrightarrow> x1 reg = 0) \<and>
    set_temp_offset word_bus (1 / 2) = Some m2 \<and> run_state m2 (d1, x1) = (RET_SUCCESS, d2, x2) \<and>
    fst (run_state (get_temp_offset word_bus) (d2, x2)) = (RET_SUCCESS, Some (1 / 2)) \<and>
    fst (run_state (get_limit word_bus TMP117_LO_REG) (d2, x2)) = (RET_SUCCESS, Some (- 1600))"
  by (rule tmp117_set_get [where regs = "\<lambda>x. x" and k = 64]) (simp_all add: word_bus_registers to_int16_def trunc_int_def tmp117_new_def)

text \<open>A soft reset sets the reset bit of the configuration and leaves its other bits.\<close>

lemma soft_reset_bit:
  assumes bus: "word_registers bus (tm_dev_addr d) regs" and len: "length (tm_rx d) = 2"
  shows "\<exists>d' x'. run_state (tmp_soft_reset bus) (d, x) = (RET_SUCCESS, d', x') \<and> regs x' = (regs x)(1 := regs x 1 OR 2)"
proof -
  let ?v = "regs x 1 OR 2"
  obtain x' where "bus (I2cWrite (tm_dev_addr d) 1 [hi8 ?v, lo8 ?v]) x = (RET_SUCCESS, [], x')" "regs x' = (regs x)(1 := ?v)"
    using word_registersE [OF bus, of 1 "hi8 ?v" "lo8 ?v" x] by auto
  then show ?thesis
    using len by (simp add: tmp_soft_reset_def tmp_read_register_def tmp_write_register_def word_registers_read [OF bus] Let_def)
qed

section \<open>Checksum and commands\<close>

lemma crc8_bits_0: "crc8_bits n 0 = 0"
  by (induction n) simp_all

text \<open>
  The checksum of the SHTC3 detects nothing in data that ends with its own checksum: it is then zero, as the
  sensor's data sheet asks for.
\<close>
theorem crc8_self_check: "crc8 (data @ [crc8 data]) = 0"
  by (simp add: crc8_def crc8_bits_0 del: crc8_bits.simps)

text \<open>
  A command that is written goes out with its high byte first; a command whose answer is read goes out with
  its low byte first.
\<close>
theorem shtc3_command_order:
  assumes "2 \<le> length (sh_buff d)"
  shows "snd (snd (run_state (sh_write_command (ok_bus f) cmd) (d, evs))) =
      evs @ [I2cTransmit 0xE0 [hi8 (shtc3_code cmd), lo8 (shtc3_code cmd)]]"
    and "snd (snd (run_state (sh_read_command (ok_bus f) cmd n) (d, evs))) =
      evs @ [I2cTransmit 0xE0 [lo8 (shtc3_code cmd), hi8 (shtc3_code cmd)], I2cReceive 0xE1 n]"
proof -
  obtain a b r where "sh_buff d = a # b # r"
    using assms by (cases "sh_buff d"; cases "tl (sh_buff d)") auto
  then show "snd (snd (run_state (sh_write_command (ok_bus f) cmd) (d, evs))) =
      evs @ [I2cTransmit 0xE0 [hi8 (shtc3_code cmd), lo8 (shtc3_code cmd)]]"
    by (simp add: sh_write_command_def SHTC3_I2C_ADDR_def)
  show "snd (snd (run_state (sh_read_command (ok_bus f) cmd n) (d, evs))) =
      evs @ [I2cTransmit 0xE0 [lo8 (shtc3_code cmd), hi8 (shtc3_code cmd)], I2cReceive 0xE1 n]"
    by (simp add: sh_read_command_def SHTC3_I2C_ADDR_def)
qed

end
