(* ===== verification/AccelModel.thy ===== *)
theory AccelModel
  imports DriverBase
begin

unbundle bit_operations_syntax

text \<open>
  The accelerometers of src/device/peripherals: MMA8451Q/MMA8451Q.h and ADXL375/ADXL375.h.  A value that a
  function stores through a pointer is part of its result.
\<close>

section \<open>MMA8451Q\<close>

datatype mma8451_reg = X_MSB_REG | Y_MSB_REG | Z_MSB_REG | CTRL_REG_1 | DEVICE_ID_REG

fun mma8451_code :: "mma8451_reg \<Rightarrow> u8" where
  "mma8451_code X_MSB_REG = 0x01"
| "mma8451_code Y_MSB_REG = 0x03"
| "mma8451_code Z_MSB_REG = 0x05"
| "mma8451_code CTRL_REG_1 = 0x2A"
| "mma8451_code DEVICE_ID_REG = 0x0D"

definition MMA8451_I2C_ADDRESS :: u16 where
  "MMA8451_I2C_ADDRESS = push_bit 1 0x1D"

definition UINT14_MAX :: int where
  "UINT14_MAX = 16383"

record mma8451 =
  mm_dev_addr :: u16
  mm_mem_addr :: u16

definition mma_write_reg :: "'x bus \<Rightarrow> u8 list \<Rightarrow> (mma8451, 'x) drv" where
  "mma_write_reg bus data = do {
     d \<leftarrow> get_dev;
     on_success (bus_do bus (I2cWrite (mm_dev_addr d) (mm_mem_addr d) data)) (State_Monad.return RET_SUCCESS)}"

definition mma_init :: "'x bus \<Rightarrow> (mma8451, 'x) drv" where
  "mma_init bus = do {
     mod_dev (\<lambda>d. \<lparr>mm_dev_addr = MMA8451_I2C_ADDRESS, mm_mem_addr = 0\<rparr>);
     d \<leftarrow> get_dev;
     on_success (bus_do bus (I2cWrite (mm_dev_addr d) (mm_mem_addr d) [mma8451_code CTRL_REG_1, 0x01])) (
       State_Monad.return RET_SUCCESS)}"

definition mma_read_reg :: "'x bus \<Rightarrow> mma8451_reg \<Rightarrow> nat \<Rightarrow> (mma8451 \<times> 'x, ret_type \<times> u8 list) state" where
  "mma_read_reg bus reg len = do {
     d \<leftarrow> get_dev;
     (ret, _) \<leftarrow> bus_call bus (I2cWrite (mm_dev_addr d) (mm_mem_addr d) [mma8451_code reg]);
     if ret \<noteq> RET_SUCCESS then State_Monad.return (ret, [])
     else bus_call bus (I2cRead (mm_dev_addr d) (mm_mem_addr d) len)}"

text \<open>The conversion of the two bytes of an axis.\<close>

definition mma_axis_value :: "u8 list \<Rightarrow> int" where
  "mma_axis_value b =
     (let r = uint ((push_bit 6 (ucast (b ! 0)) OR drop_bit 2 (ucast (b ! 1))) :: u16)
      in if r > UINT14_MAX div 2 then r - UINT14_MAX else r)"

definition get_axis_accel :: "'x bus \<Rightarrow> mma8451_reg \<Rightarrow> (mma8451 \<times> 'x, ret_type \<times> int option) state" where
  "get_axis_accel bus reg = do {
     (ret, b) \<leftarrow> mma_read_reg bus reg 2;
     State_Monad.return (if ret \<noteq> RET_SUCCESS then (ret, None) else (RET_SUCCESS, Some (mma_axis_value b)))}"

definition get_x_accel :: "'x bus \<Rightarrow> (mma8451 \<times> 'x, ret_type \<times> int option) state" where
  "get_x_accel bus = get_axis_accel bus X_MSB_REG"

definition get_y_accel :: "'x bus \<Rightarrow> (mma8451 \<times> 'x, ret_type \<times> int option) state" where
  "get_y_accel bus = get_axis_accel bus Y_MSB_REG"

definition get_z_accel :: "'x bus \<Rightarrow> (mma8451 \<times> 'x, ret_type \<times> int option) state" where
  "get_z_accel bus = get_axis_accel bus Z_MSB_REG"

text \<open>All three values are read with \<open>getXAccel\<close>.\<close>

definition get_all_accel :: "'x bus \<Rightarrow> (mma8451 \<times> 'x, ret_type \<times> int option list) state" where
  "get_all_accel bus = do {
     (ret, a) \<leftarrow> get_x_accel bus;
     if ret \<noteq> RET_SUCCESS then State_Monad.return (ret, [a])
     else do {
       (ret, b) \<leftarrow> get_x_accel bus;
       if ret \<noteq> RET_SUCCESS then State_Monad.return (ret, [a, b])
       else do {
         (ret, c) \<leftarrow> get_x_accel bus;
         State_Monad.return (ret, [a, b, c])}}}"

definition mma_get_device_id :: "'x bus \<Rightarrow> (mma8451 \<times> 'x, ret_type \<times> u8 list) state" where
  "mma_get_device_id bus = mma_read_reg bus DEVICE_ID_REG 1"

lemmas mma_defs = mma_write_reg_def mma_init_def mma_read_reg_def get_axis_accel_def get_x_accel_def get_y_accel_def
  get_z_accel_def get_all_accel_def mma_get_device_id_def

section \<open>ADXL375\<close>

record adxl375 =
  ad_dev_addr :: u16
  ad_mem_addr :: u16
  ad_buff :: "u8 list"

datatype adxl375_reg =
    xLSBDataReg | xMSBDataReg | yLSBDataReg | yMSBDataReg | zLSBDataReg | zMSBDataReg
  | offsetXReg | offsetYReg | offsetZReg | deviceID

fun adxl375_code :: "adxl375_reg \<Rightarrow> u16" where
  "adxl375_code xLSBDataReg = 0x32"
| "adxl375_code xMSBDataReg = 0x33"
| "adxl375_code yLSBDataReg = 0x34"
| "adxl375_code yMSBDataReg = 0x35"
| "adxl375_code zLSBDataReg = 0x36"
| "adxl375_code zMSBDataReg = 0x37"
| "adxl375_code offsetXReg = 0x1E"
| "adxl375_code offsetYReg = 0x1F"
| "adxl375_code offsetZReg = 0x20"
| "adxl375_code deviceID = 0x00"

datatype adxl375_op_mode = ADXL375_MEASURING_MODE | ADXL375_SLEEP_MODE | ADXL375_AUTOSLEEP_MODE

fun adxl375_mode_code :: "adxl375_op_mode \<Rightarrow> u8" where
  "adxl375_mode_code ADXL375_MEASURING_MODE = 0x08"
| "adxl375_mode_code ADXL375_SLEEP_MODE = 0x04"
| "adxl375_mode_code ADXL375_AUTOSLEEP_MODE = 0x10"

datatype adxl375_data_rate =
    ADXL375_DR_3200HZ | ADXL375_DR_1600HZ | ADXL375_DR_800HZ | ADXL375_DR_400HZ
  | ADXL375_DR_200HZ | ADXL375_DR_100HZ | ADXL375_DR_50HZ | ADXL375_DR_25HZ
  | ADXL375_DR_12HZ5 | ADXL375_DR_6HZ25

fun adxl375_rate_code :: "adxl375_data_rate \<Rightarrow> u8" where
  "adxl375_rate_code ADXL375_DR_3200HZ = 0x0F"
| "adxl375_rate_code ADXL375_DR_1600HZ = 0x0E"
| "adxl375_rate_code ADXL375_DR_800HZ = 0x0D"
| "adxl375_rate_code ADXL375_DR_400HZ = 0x0C"
| "adxl375_rate_code ADXL375_DR_200HZ = 0x0B"
| "adxl375_rate_code ADXL375_DR_100HZ = 0x0A"
| "adxl375_rate_code ADXL375_DR_50HZ = 0x09"
| "adxl375_rate_code ADXL375_DR_25HZ = 0x08"
| "adxl375_rate_code ADXL375_DR_12HZ5 = 0x07"
| "adxl375_rate_code ADXL375_DR_6HZ25 = 0x06"

definition ADXL375_REG_BW_RATE :: u16 where
  "ADXL375_REG_BW_RATE = 0x2C"

definition ADXL375_POWER_CTL :: u16 where
  "ADXL375_POWER_CTL = 0x2D"

definition ADXL375_REG_DATA_FORMAT :: u16 where
  "ADXL375_REG_DATA_FORMAT = 0x31"

definition adxl_new :: "u16 \<Rightarrow> u8 list \<Rightarrow> adxl375" where
  "adxl_new address buff = \<lparr>ad_dev_addr = push_bit 1 address, ad_mem_addr = 0, ad_buff = buff\<rparr>"

definition adxl_read_reg :: "'x bus \<Rightarrow> u16 \<Rightarrow> nat \<Rightarrow> (adxl375, 'x) drv" where
  "adxl_read_reg bus command len = do {
     mod_dev (\<lambda>d. d\<lparr>ad_mem_addr := command\<rparr>);
     d \<leftarrow> get_dev;
     (ret, data) \<leftarrow> bus_call bus (I2cRead (ad_dev_addr d) (ad_mem_addr d) len);
     mod_dev (\<lambda>d. d\<lparr>ad_buff := fill data (ad_buff d)\<rparr>);
     State_Monad.return ret}"

definition adxl_write_reg :: "'x bus \<Rightarrow> u16 \<Rightarrow> u8 list \<Rightarrow> (adxl375, 'x) drv" where
  "adxl_write_reg bus command value = do {
     mod_dev (\<lambda>d. d\<lparr>ad_mem_addr := command\<rparr>);
     d \<leftarrow> get_dev;
     bus_do bus (I2cWrite (ad_dev_addr d) (ad_mem_addr d) value)}"

definition adxl_check_id :: "'x bus \<Rightarrow> (adxl375, 'x) drv" where
  "adxl_check_id bus =
     call_then (adxl_read_reg bus 0x00 1) (\<lambda>ret. do {
       d \<leftarrow> get_dev;
       State_Monad.return (if ad_buff d ! 0 \<noteq> 0xE5 then RET_ERROR else ret)})"

definition set_data_rate_and_low_power :: "'x bus \<Rightarrow> adxl375_data_rate \<Rightarrow> bool \<Rightarrow> (adxl375, 'x) drv" where
  "set_data_rate_and_low_power bus rate low = do {
     mod_dev (\<lambda>d. d\<lparr>ad_buff := (ad_buff d)[0 := (if low then adxl375_rate_code rate OR 0x8 else adxl375_rate_code rate)]\<rparr>);
     d \<leftarrow> get_dev;
     adxl_write_reg bus ADXL375_REG_BW_RATE (take 1 (ad_buff d))}"

definition set_operating_mode :: "'x bus \<Rightarrow> adxl375_op_mode \<Rightarrow> (adxl375, 'x) drv" where
  "set_operating_mode bus mode = do {
     mod_dev (\<lambda>d. d\<lparr>ad_buff := (ad_buff d)[0 := adxl375_mode_code mode]\<rparr>);
     d \<leftarrow> get_dev;
     adxl_write_reg bus ADXL375_POWER_CTL (take 1 (ad_buff d))}"

definition adxl_wakeup :: "'x bus \<Rightarrow> (adxl375, 'x) drv" where
  "adxl_wakeup bus = do {
     mod_dev (\<lambda>d. d\<lparr>ad_buff := (ad_buff d)[0 := 0x08]\<rparr>);
     d \<leftarrow> get_dev;
     adxl_write_reg bus ADXL375_POWER_CTL (take 1 (ad_buff d))}"

definition adxl_set_range :: "'x bus \<Rightarrow> u8 \<Rightarrow> (adxl375, 'x) drv" where
  "adxl_set_range bus rng = adxl_write_reg bus ADXL375_REG_DATA_FORMAT [rng]"

definition adxl_set_offset :: "'x bus \<Rightarrow> int \<Rightarrow> int \<Rightarrow> int \<Rightarrow> (adxl375, 'x) drv" where
  "adxl_set_offset bus xo yo zo = do {
     mod_dev (\<lambda>d. d\<lparr>ad_buff := fill [lo8 (word_of_int xo), hi8 (word_of_int xo), lo8 (word_of_int yo), hi8 (word_of_int yo),
                                      lo8 (word_of_int zo), hi8 (word_of_int zo)] (ad_buff d)\<rparr>);
     d \<leftarrow> get_dev;
     adxl_write_reg bus (adxl375_code offsetXReg) (take 6 (ad_buff d))}"

definition adxl_init :: "'x bus \<Rightarrow> (adxl375, 'x) drv" where
  "adxl_init bus =
     check_call (adxl_check_id bus) (
     check_call (set_data_rate_and_low_power bus ADXL375_DR_100HZ False) (
     check_call (adxl_set_range bus 0x0B) (
     check_call (set_operating_mode bus ADXL375_MEASURING_MODE) (
     adxl_wakeup bus))))"

text \<open>The factor and the scaled values; a scaled value is less than half of the 16 bits it comes from.\<close>

definition adxl_scale :: "(rat \<Rightarrow> rat) \<Rightarrow> (rat \<Rightarrow> rat) \<Rightarrow> rat" where
  "adxl_scale fl db = fl (fl (db (49 / 1000)) * fl (980665 / 100000))"

definition adxl_scaled :: "(rat \<Rightarrow> rat) \<Rightarrow> (rat \<Rightarrow> rat) \<Rightarrow> u8 \<Rightarrow> u8 \<Rightarrow> int" where
  "adxl_scaled fl db lo hi = trunc_int (fl (of_int (sint (be16 hi lo)) * adxl_scale fl db))"

definition adxl_read_xyz ::
  "(rat \<Rightarrow> rat) \<Rightarrow> (rat \<Rightarrow> rat) \<Rightarrow> 'x bus \<Rightarrow> (adxl375 \<times> 'x, ret_type \<times> (int \<times> int \<times> int) option) state" where
  "adxl_read_xyz fl db bus = do {
     ret \<leftarrow> adxl_read_reg bus (adxl375_code xLSBDataReg) 6;
     if call_waits ret then State_Monad.return (ret, None)
     else if ret \<noteq> RET_SUCCESS then State_Monad.return (RET_ERROR, None)
     else do {
       d \<leftarrow> get_dev;
       let x = adxl_scaled fl db (ad_buff d ! 0) (ad_buff d ! 1);
       let y = adxl_scaled fl db (ad_buff d ! 2) (ad_buff d ! 3);
       let z = adxl_scaled fl db (ad_buff d ! 4) (ad_buff d ! 5);
       State_Monad.return (if 500 < \<bar>x\<bar> \<or> 500 < \<bar>y\<bar> \<or> 500 < \<bar>z\<bar> then RET_ERROR else ret, Some (x, y, z))}}"

text \<open>One axis: the value is negated as an \<open>int\<close> and cut to 16 bits, also after an error.\<close>

definition adxl_read_axis :: "'x bus \<Rightarrow> adxl375_reg \<Rightarrow> (adxl375 \<times> 'x, ret_type \<times> int option) state" where
  "adxl_read_axis bus reg = do {
     ret \<leftarrow> adxl_read_reg bus (adxl375_code reg) 2;
     if call_waits ret then State_Monad.return (ret, None)
     else do {
       d \<leftarrow> get_dev;
       State_Monad.return (ret, Some (sint (word_of_int (uint (be16 (ad_buff d ! 1) (ad_buff d ! 0)) * - 1) :: u16)))}}"

lemmas adxl_defs = adxl_read_reg_def adxl_write_reg_def adxl_check_id_def set_data_rate_and_low_power_def
  set_operating_mode_def adxl_wakeup_def adxl_set_range_def adxl_set_offset_def adxl_init_def adxl_read_xyz_def adxl_read_axis_def

section \<open>Values\<close>

lemma axis_bits: "(push_bit 6 (ucast h) OR drop_bit 2 (ucast l) :: u16) = drop_bit 2 (be16 h l)"
proof (rule bit_word_eqI)
  fix n assume "n < LENGTH(16)"
  then show "bit (push_bit 6 (ucast h) OR drop_bit 2 (ucast l) :: u16) n = bit (drop_bit 2 (be16 h l)) n"
    by (auto simp: be16_def bit_simps not_le dest: bit_imp_le_length)
qed

lemma get_all_accel_run:
  "f (I2cRead dev 0 2) = b \<Longrightarrow>
   run_state (get_all_accel (ok_bus (\<lambda>ev evs. f ev))) (\<lparr>mm_dev_addr = dev, mm_mem_addr = 0\<rparr>, evs) =
     ((RET_SUCCESS, replicate 3 (Some (mma_axis_value b))), \<lparr>mm_dev_addr = dev, mm_mem_addr = 0\<rparr>,
      evs @ concat (replicate 3 [I2cWrite dev 0 [0x01], I2cRead dev 0 2]))"
  by (simp add: mma_defs numeral_3_eq_3)

text \<open>
  The sensor delivers an acceleration as 14 bits in two's complement, left justified in two bytes: the
  driver reads values that are not negative right and each negative value one too high, so that -1 is
  read as 0; the function that reads all three axes reads the X axis three times.
\<close>
theorem mma_axis_off_by_one:
  assumes "- (2 ^ 13) \<le> v" and "v < 2 ^ 13"
  shows "mma_axis_value [hi8 (word_of_int (4 * v)), lo8 (word_of_int (4 * v))] = (if v < 0 then v + 1 else v)"
    and "f (I2cRead dev 0 2) = [hi8 (word_of_int (4 * v)), lo8 (word_of_int (4 * v))] \<Longrightarrow>
      run_state (get_all_accel (ok_bus (\<lambda>ev evs. f ev))) (\<lparr>mm_dev_addr = dev, mm_mem_addr = 0\<rparr>, evs) =
        ((RET_SUCCESS, replicate 3 (Some (if v < 0 then v + 1 else v))), \<lparr>mm_dev_addr = dev, mm_mem_addr = 0\<rparr>,
         evs @ concat (replicate 3 [I2cWrite dev 0 [0x01], I2cRead dev 0 2]))"
proof -
  have m: "(4 * v) mod 65536 = (if v < 0 then 4 * v + 65536 else 4 * v)"
  proof (cases "v < 0")
    case True
    have "(4 * v) mod 65536 = (4 * v + 65536) mod 65536"
      by simp
    also have "\<dots> = 4 * v + 65536"
      using assms True by (intro mod_pos_pos_trivial) simp_all
    finally show ?thesis
      using True by simp
  qed (use assms in simp)
  have "uint (drop_bit 2 (word_of_int (4 * v) :: u16)) = (4 * v) mod 65536 div 4"
    unfolding unsigned_drop_bit_eq by (simp only: uint_word_of_int) (simp add: drop_bit_eq_div take_bit_eq_mod)
  also have "\<dots> = (if v < 0 then v + 16384 else v)"
    by (simp add: m)
  finally show val: "mma_axis_value [hi8 (word_of_int (4 * v)), lo8 (word_of_int (4 * v))] = (if v < 0 then v + 1 else v)"
    using assms by (simp add: mma_axis_value_def axis_bits Let_def UINT14_MAX_def)
  show "f (I2cRead dev 0 2) = [hi8 (word_of_int (4 * v)), lo8 (word_of_int (4 * v))] \<Longrightarrow>
      run_state (get_all_accel (ok_bus (\<lambda>ev evs. f ev))) (\<lparr>mm_dev_addr = dev, mm_mem_addr = 0\<rparr>, evs) =
        ((RET_SUCCESS, replicate 3 (Some (if v < 0 then v + 1 else v))), \<lparr>mm_dev_addr = dev, mm_mem_addr = 0\<rparr>,
         evs @ concat (replicate 3 [I2cWrite dev 0 [0x01], I2cRead dev 0 2]))"
    unfolding val [symmetric] by (rule get_all_accel_run)
qed

theorem mma_axis_off_by_one_witness:
  "mma_axis_value [hi8 (word_of_int (4 * - 1)), lo8 (word_of_int (4 * - 1))] = 0"
  "run_state (get_all_accel (ok_bus (\<lambda>ev evs. [hi8 (word_of_int (4 * - 1)), lo8 (word_of_int (4 * - 1))])))
     (\<lparr>mm_dev_addr = 0x3A, mm_mem_addr = 0\<rparr>, []) =
     ((RET_SUCCESS, [Some 0, Some 0, Some 0]), \<lparr>mm_dev_addr = 0x3A, mm_mem_addr = 0\<rparr>,
      [I2cWrite 0x3A 0 [1], I2cRead 0x3A 0 2, I2cWrite 0x3A 0 [1], I2cRead 0x3A 0 2, I2cWrite 0x3A 0 [1], I2cRead 0x3A 0 2])"
  using mma_axis_off_by_one(1) [of "- 1"]
    mma_axis_off_by_one(2) [of "- 1" "\<lambda>ev. [hi8 (word_of_int (4 * - 1)), lo8 (word_of_int (4 * - 1))]" "0x3A" "[]"]
  by (simp_all add: numeral_3_eq_3)

text \<open>
  Initialising the ADXL375 on a bus whose calls succeed: a device that answers with its identifier gets its
  rate, range and mode, and is woken; any other one is refused and nothing is written to it.
\<close>
theorem adxl_init_traffic:
  assumes "f (I2cRead (ad_dev_addr d) 0 1) = [i]" and "length (ad_buff d) = 6"
  shows "\<exists>d'. run_state (adxl_init (ok_bus (\<lambda>ev evs. f ev))) (d, evs) =
    (if i = 0xE5 then RET_SUCCESS else RET_ERROR, d',
     evs @ I2cRead (ad_dev_addr d) 0 1 #
       (if i = 0xE5 then [I2cWrite (ad_dev_addr d) 0x2C [0x0A], I2cWrite (ad_dev_addr d) 0x31 [0x0B],
                          I2cWrite (ad_dev_addr d) 0x2D [0x08], I2cWrite (ad_dev_addr d) 0x2D [0x08]] else []))"
proof -
  obtain a r where "ad_buff d = a # r"
    using assms(2) by (cases "ad_buff d") auto
  then show ?thesis
    using assms(1) by (simp add: adxl_defs fill_def call_waits_def ADXL375_REG_BW_RATE_def
        ADXL375_POWER_CTL_def ADXL375_REG_DATA_FORMAT_def)
qed

text \<open>The function that reads one axis negates the value, the one that reads all three does not.\<close>

lemma adxl_axis_sign:
  assumes "f (I2cRead (ad_dev_addr d) 0x32 2) = [lo, hi]"
  shows "fst (run_state (adxl_read_axis (ok_bus (\<lambda>ev evs. f ev)) xLSBDataReg) (d, evs)) =
    (RET_SUCCESS, Some (sint (- be16 hi lo)))"
  using assms by (simp add: adxl_defs fill_def)

text \<open>The offsets of the three axes are registers of one byte each; six bytes are written from the first one on.\<close>

lemma adxl_offset_bytes:
  assumes "length (ad_buff d) = 6"
  shows "snd (snd (run_state (adxl_set_offset (ok_bus f) xo yo zo) (d, evs))) =
    evs @ [I2cWrite (ad_dev_addr d) 0x1E [lo8 (word_of_int xo), hi8 (word_of_int xo), lo8 (word_of_int yo), hi8 (word_of_int yo),
                                          lo8 (word_of_int zo), hi8 (word_of_int zo)]]"
  using assms by (simp add: adxl_defs)

end
