(* ===== verification/RadioModel.thy ===== *)
theory RadioModel
  imports DriverBase
begin

unbundle bit_operations_syntax

text \<open>
  The LoRa radio of src/device/peripherals/RFM9XW/RFM9XW.h.  Pin 0 is the chip select, pin 1 the reset.
  As a network layer the radio refuses packets in both directions, with constants.
\<close>

section \<open>State and operations\<close>

datatype rfm_register =
    RFM9XW_REG_FIFO_ACCESS | RFM9XW_REG_OP_MODE | RFM9XW_REG_FR_MSB | RFM9XW_REG_FR_MID
  | RFM9XW_REG_FR_LSB | RFM9XW_REG_PA_CONFIG | RFM9XW_REG_LNA | RFM9XW_REG_FIFO_ADDR_PTR
  | RFM9XW_REG_FIFO_TX_BASE_ADDR | RFM9XW_REG_FIFO_RX_BASE_ADDR | RFM9XW_REG_IRQ_FLAGS
  | RFM9XW_REG_FIFO_RX_BYTES_NB | RFM9XW_REG_PACKET_SNR | RFM9XW_REG_MODEM_CONFIG_1
  | RFM9XW_REG_MODEM_CONFIG_2 | RFM9XW_REG_SYMB_TIMEOUT_LSB | RFM9XW_REG_PREAMBLE_MSB
  | RFM9XW_REG_PREAMBLE_LSB | RFM9XW_REG_PAYLOAD_LENGTH | RFM9XW_REG_MAX_PAYLOAD_LENGTH
  | RFM9XW_REG_MODEM_CONFIG_3 | RFM9XW_REG_DETECTION_OPTIMIZE | RFM9XW_REG_INVERT_IQ_1
  | RFM9XW_REG_DETECTION_THRESHOLD | RFM9XW_REG_SYNC_WORD | RFM9XW_REG_INVERT_IQ_2
  | RFM9XW_REG_DIO_MAPPING_1 | RFM9XW_REG_VERSION | RFM9XW_REG_PA_DAC

fun rfm_reg :: "rfm_register \<Rightarrow> u8" where
  "rfm_reg RFM9XW_REG_FIFO_ACCESS = 0x00"
| "rfm_reg RFM9XW_REG_OP_MODE = 0x01"
| "rfm_reg RFM9XW_REG_FR_MSB = 0x06"
| "rfm_reg RFM9XW_REG_FR_MID = 0x07"
| "rfm_reg RFM9XW_REG_FR_LSB = 0x08"
| "rfm_reg RFM9XW_REG_PA_CONFIG = 0x09"
| "rfm_reg RFM9XW_REG_LNA = 0x0C"
| "rfm_reg RFM9XW_REG_FIFO_ADDR_PTR = 0x0D"
| "rfm_reg RFM9XW_REG_FIFO_TX_BASE_ADDR = 0x0E"
| "rfm_reg RFM9XW_REG_FIFO_RX_BASE_ADDR = 0x0F"
| "rfm_reg RFM9XW_REG_IRQ_FLAGS = 0x12"
| "rfm_reg RFM9XW_REG_FIFO_RX_BYTES_NB = 0x13"
| "rfm_reg RFM9XW_REG_PACKET_SNR = 0x19"
| "rfm_reg RFM9XW_REG_MODEM_CONFIG_1 = 0x1D"
| "rfm_reg RFM9XW_REG_MODEM_CONFIG_2 = 0x1E"
| "rfm_reg RFM9XW_REG_SYMB_TIMEOUT_LSB = 0x1F"
| "rfm_reg RFM9XW_REG_PREAMBLE_MSB = 0x20"
| "rfm_reg RFM9XW_REG_PREAMBLE_LSB = 0x21"
| "rfm_reg RFM9XW_REG_PAYLOAD_LENGTH = 0x22"
| "rfm_reg RFM9XW_REG_MAX_PAYLOAD_LENGTH = 0x23"
| "rfm_reg RFM9XW_REG_MODEM_CONFIG_3 = 0x26"
| "rfm_reg RFM9XW_REG_DETECTION_OPTIMIZE = 0x31"
| "rfm_reg RFM9XW_REG_INVERT_IQ_1 = 0x33"
| "rfm_reg RFM9XW_REG_DETECTION_THRESHOLD = 0x37"
| "rfm_reg RFM9XW_REG_SYNC_WORD = 0x39"
| "rfm_reg RFM9XW_REG_INVERT_IQ_2 = 0x3B"
| "rfm_reg RFM9XW_REG_DIO_MAPPING_1 = 0x40"
| "rfm_reg RFM9XW_REG_VERSION = 0x42"
| "rfm_reg RFM9XW_REG_PA_DAC = 0x4D"

datatype rfm_mode =
    RFM9XW_SLEEP_MODE_SLEEP | RFM9XW_SLEEP_MODE_LORA_SLEEP | RFM9XW_SLEEP_MODE_STANDBY | RFM9XW_SLEEP_MODE_TX
  | RFM9XW_SLEEP_MODE_RX_SINGLE

fun rfm_mode_code :: "rfm_mode \<Rightarrow> u8" where
  "rfm_mode_code RFM9XW_SLEEP_MODE_SLEEP = 0x00"
| "rfm_mode_code RFM9XW_SLEEP_MODE_LORA_SLEEP = 0x80"
| "rfm_mode_code RFM9XW_SLEEP_MODE_STANDBY = 0x81"
| "rfm_mode_code RFM9XW_SLEEP_MODE_TX = 0x83"
| "rfm_mode_code RFM9XW_SLEEP_MODE_RX_SINGLE = 0x86"

definition RFM9XW_VERSION :: u8 where
  "RFM9XW_VERSION = 0x12"

definition DAC_LOW_POWER_MODE :: u8 where
  "DAC_LOW_POWER_MODE = 0x84"

definition DAC_HIGH_POWER_MODE :: u8 where
  "DAC_HIGH_POWER_MODE = 0x87"

text \<open>The members, and the static variables of \<open>set_power\<close>.\<close>

record rfm9xw =
  rf_channel_frequencies :: "u32 list"
  rf_channel_mask :: u16
  rf_output_power :: u8
  rf_dac_config :: u8

text \<open>The code and the bytes read; a failed transfer leaves what the buffer had.\<close>

definition rfm_read_reg :: "'x bus \<Rightarrow> u8 \<Rightarrow> nat \<Rightarrow> (rfm9xw \<times> 'x, ret_type \<times> u8 list) state" where
  "rfm_read_reg bus reg len = do {
     ret \<leftarrow> bus_do bus (PinSet 0 0);
     if call_waits ret then State_Monad.return (ret, [])
     else do {
       let buff = (replicate len 0)[0 := reg AND 0x7F];
       (ret, data) \<leftarrow> bus_call bus (SpiWriteRead buff);
       if call_waits ret then State_Monad.return (ret, [])
       else do {
         ret \<leftarrow> bus_do bus (PinSet 0 1);
         State_Monad.return (if call_waits ret then (ret, []) else (RET_SUCCESS, fill data buff))}}}"

text \<open>The second byte of the buffer is the register, too.\<close>

definition rfm_write_reg :: "'x bus \<Rightarrow> u8 \<Rightarrow> u8 \<Rightarrow> (rfm9xw, 'x) drv" where
  "rfm_write_reg bus reg val =
     (let buff = [reg OR 0x80, reg]
      in call_then (bus_do bus (PinSet 0 0)) (\<lambda>_.
         call_then (bus_do bus (SpiWrite buff)) (\<lambda>_.
         call_then (bus_do bus (PinSet 0 1)) (\<lambda>_. State_Monad.return RET_SUCCESS))))"

definition rfm_set_mode :: "'x bus \<Rightarrow> rfm_mode \<Rightarrow> (rfm9xw, 'x) drv" where
  "rfm_set_mode bus mode = rfm_write_reg bus (rfm_reg RFM9XW_REG_OP_MODE) (rfm_mode_code mode)"

definition rfm_frf :: "u32 \<Rightarrow> u64" where
  "rfm_frf freq = push_bit 19 (ucast freq) div 32000000"

definition rfm_set_frequency :: "'x bus \<Rightarrow> u32 \<Rightarrow> (rfm9xw, 'x) drv" where
  "rfm_set_frequency bus freq =
     on_success (rfm_write_reg bus (rfm_reg RFM9XW_REG_FR_MSB) (ucast (drop_bit 16 (rfm_frf freq)))) (
     on_success (rfm_write_reg bus (rfm_reg RFM9XW_REG_FR_MID) (ucast (drop_bit 8 (rfm_frf freq)))) (
     rfm_write_reg bus (rfm_reg RFM9XW_REG_FR_LSB) (ucast (rfm_frf freq))))"

text \<open>A channel above 31 shifts by too much: \<open>None\<close>; so does one without a frequency.\<close>

definition rfm_set_channel :: "'x bus \<Rightarrow> u8 \<Rightarrow> rfm9xw \<times> 'x \<Rightarrow> (ret_type \<times> rfm9xw \<times> 'x) option" where
  "rfm_set_channel bus channel dx =
     (let c = unat channel; d = fst dx
      in if c > 31 then None
         else if \<not> (c < 16 \<and> bit (rf_channel_mask d) c) then Some (RET_ERROR, dx)
         else if c \<ge> length (rf_channel_frequencies d) then None
         else Some (run_state (rfm_set_frequency bus (rf_channel_frequencies d ! c)) dx))"

text \<open>The configuration byte: the output power in the low bits, the constants 7 and 1 above it.\<close>

definition rfm_set_power :: "'x bus \<Rightarrow> int \<Rightarrow> (rfm9xw, 'x) drv" where
  "rfm_set_power bus pw =
     (let go = (do {
        d \<leftarrow> get_dev;
        on_success (rfm_write_reg bus (rfm_reg RFM9XW_REG_PA_CONFIG) (rf_output_power d OR 0xF0)) (
          rfm_write_reg bus (rfm_reg RFM9XW_REG_PA_DAC) (rf_dac_config d))})
      in if pw \<ge> 2 \<and> pw \<le> 17 then do {
           mod_dev (\<lambda>d. d\<lparr>rf_output_power := word_of_int (pw - 2), rf_dac_config := DAC_LOW_POWER_MODE\<rparr>); go}
         else if pw = 20 then do {
           mod_dev (\<lambda>d. d\<lparr>rf_output_power := 15, rf_dac_config := DAC_HIGH_POWER_MODE\<rparr>); go}
         else State_Monad.return RET_ERROR)"

definition rfm_set_payload_len :: "'x bus \<Rightarrow> size_t \<Rightarrow> (rfm9xw, 'x) drv" where
  "rfm_set_payload_len bus len = rfm_write_reg bus (rfm_reg RFM9XW_REG_PAYLOAD_LENGTH) (ucast len)"

definition rfm_set_preamble :: "'x bus \<Rightarrow> u8 \<Rightarrow> u8 \<Rightarrow> (rfm9xw, 'x) drv" where
  "rfm_set_preamble bus msb lsb =
     on_success (rfm_write_reg bus (rfm_reg RFM9XW_REG_PREAMBLE_MSB) msb) (
     rfm_write_reg bus (rfm_reg RFM9XW_REG_PREAMBLE_LSB) lsb)"

definition rfm_set_lna :: "'x bus \<Rightarrow> u8 \<Rightarrow> (rfm9xw, 'x) drv" where
  "rfm_set_lna bus val = rfm_write_reg bus (rfm_reg RFM9XW_REG_LNA) val"

definition rfm_reset :: "'x bus \<Rightarrow> (rfm9xw, 'x) drv" where
  "rfm_reset bus =
     call_then (bus_do bus (PinSet 1 0)) (\<lambda>_.
     drv_sleep bus 50 (
     call_then (bus_do bus (PinSet 1 1)) (\<lambda>_. State_Monad.return RET_SUCCESS)))"

definition rfm_init :: "'x bus \<Rightarrow> (rfm9xw, 'x) drv" where
  "rfm_init bus = do {
     (ret, tmp) \<leftarrow> rfm_read_reg bus (rfm_reg RFM9XW_REG_VERSION) 1;
     if ret \<noteq> RET_SUCCESS then State_Monad.return ret
     else if tmp ! 0 \<noteq> RFM9XW_VERSION then State_Monad.return RET_ERROR
     else
       on_success (rfm_set_mode bus RFM9XW_SLEEP_MODE_SLEEP) (
       on_success (rfm_set_mode bus RFM9XW_SLEEP_MODE_LORA_SLEEP) (
       on_success (rfm_set_power bus 20) (
       on_success (rfm_set_payload_len bus 128) (
       on_success (rfm_set_preamble bus 0x0 0x8) (
       on_success (rfm_set_lna bus 0x40) (
       rfm_set_mode bus RFM9XW_SLEEP_MODE_LORA_SLEEP))))))}"

section \<open>What is sent\<close>

text \<open>
  The frequency setting is the frequency in steps of 32 MHz / 2 ^ 19, rounded down, and fits the three
  registers for every frequency below 1024 MHz.
\<close>
theorem rfm_frf_steps:
  "unat (rfm_frf freq) = unat freq * 2 ^ 19 div 32000000"
  "unat freq < 1024000000 \<Longrightarrow> unat (rfm_frf freq) < 2 ^ 24"
proof -
  have "unat freq < 2 ^ 32"
    using unsigned_less [of freq] by simp
  then have "unat (push_bit 19 (ucast freq :: u64)) = unat freq * 2 ^ 19"
    by (simp add: push_bit_eq_mult unat_word_ariths unat_ucast_up)
  then show frf: "unat (rfm_frf freq) = unat freq * 2 ^ 19 div 32000000"
    by (simp add: rfm_frf_def unat_div_distrib)
  show "unat freq < 1024000000 \<Longrightarrow> unat (rfm_frf freq) < 2 ^ 24"
    unfolding frf by (simp add: div_less_iff_less_mult)
qed

theorem rfm_frf_steps_witness: "unat (rfm_frf 915000000) < 2 ^ 24"
  by (rule rfm_frf_steps(2)) simp

lemma write_reg_success:
  assumes "\<And>ev x. \<not> call_waits (fst (bus ev x))"
  shows "fst (run_state (rfm_write_reg bus reg val) (d, x)) = RET_SUCCESS"
proof -
  obtain r1 a1 x1 where 1: "bus (PinSet 0 0) x = (r1, a1, x1)"
    by (metis surj_pair)
  obtain r2 a2 x2 where 2: "bus (SpiWrite [reg OR 0x80, reg]) x1 = (r2, a2, x2)"
    by (metis surj_pair)
  obtain r3 a3 x3 where 3: "bus (PinSet 0 1) x2 = (r3, a3, x3)"
    by (metis surj_pair)
  show ?thesis
    using 1 2 3 assms [of "PinSet 0 0" x] assms [of "SpiWrite [reg OR 0x80, reg]" x1] assms [of "PinSet 0 1" x2]
    by (simp add: rfm_write_reg_def Let_def)
qed

lemma on_success_continues:
  "fst (run_state m s) = RET_SUCCESS \<Longrightarrow> run_state (on_success m k) s = run_state k (snd (run_state m s))"
  by (cases "run_state m s") simp

text \<open>
  The value of a register is never sent: on every bus a write does the same for all values, so that
  setting any two frequencies is the same.  On a bus on which no call has to wait no error of the bus is
  reported by a write.
\<close>
theorem rfm_values_not_sent:
  "run_state (rfm_write_reg bus reg val) s = run_state (rfm_write_reg bus reg val') s"
  "run_state (rfm_set_frequency bus freq) s = run_state (rfm_set_frequency bus freq') s"
  "(\<And>ev x. \<not> call_waits (fst (bus ev x))) \<Longrightarrow> fst (run_state (rfm_set_frequency bus freq) s) = RET_SUCCESS"
proof -
  show "run_state (rfm_write_reg bus reg val) s = run_state (rfm_write_reg bus reg val') s"
    "run_state (rfm_set_frequency bus freq) s = run_state (rfm_set_frequency bus freq') s"
    by (simp_all add: rfm_write_reg_def rfm_set_frequency_def)
  assume w: "\<And>ev x. \<not> call_waits (fst (bus ev x))"
  obtain d x where "s = (d, x)"
    by fastforce
  then show "fst (run_state (rfm_set_frequency bus freq) s) = RET_SUCCESS"
    unfolding rfm_set_frequency_def
    by (metis on_success_continues surj_pair write_reg_success [of bus, OF w])
qed

end
