(* ===== verification/GpsModel.thy ===== *)
theory GpsModel
  imports DriverBase
begin

text \<open>
  The GPS receiver of src/device/peripherals/MAXM10S/MAXM10S.h.  Pin 0 is the reset pin, pin 1 the
  interrupt pin.  A register number is cast to a pointer where a command is sent; \<open>mem\<close> is the memory
  at these addresses.
\<close>

section \<open>State and operations\<close>

record maxm10s =
  gp_dev_addr :: u16
  gp_mem_addr :: u16
  gp_buff :: "u8 list"

datatype maxm10s_reg = BYTE_COUNT_HIGH | BYTE_COUNT_LOW | DATA_STREAM

fun maxm10s_code :: "maxm10s_reg \<Rightarrow> u16" where
  "maxm10s_code BYTE_COUNT_HIGH = 0xFD"
| "maxm10s_code BYTE_COUNT_LOW = 0xFE"
| "maxm10s_code DATA_STREAM = 0xFF"

definition gps_new :: "u8 list \<Rightarrow> maxm10s" where
  "gps_new buff = \<lparr>gp_dev_addr = 0x84, gp_mem_addr = 0, gp_buff = buff\<rparr>"

definition gps_reset :: "'x bus \<Rightarrow> (maxm10s, 'x) drv" where
  "gps_reset bus =
     call_then (bus_do bus (PinSet 0 0)) (\<lambda>_.
     drv_sleep bus 10 (
     call_then (bus_do bus (PinSet 0 1)) (\<lambda>_. State_Monad.return RET_SUCCESS)))"

definition gps_init :: "'x bus \<Rightarrow> (maxm10s, 'x) drv" where
  "gps_init bus =
     call_then (gps_reset bus) (\<lambda>ret. if ret = RET_SUCCESS then bus_do bus (PinSet 1 0) else State_Monad.return ret)"

text \<open>The code and the bytes read.\<close>

definition gps_read_reg :: "(u16 \<Rightarrow> u8) \<Rightarrow> 'x bus \<Rightarrow> maxm10s_reg \<Rightarrow> nat \<Rightarrow> (maxm10s \<times> 'x, ret_type \<times> u8 list) state" where
  "gps_read_reg mem bus reg n = do {
     mod_dev (\<lambda>d. d\<lparr>gp_mem_addr := 0\<rparr>);
     d \<leftarrow> get_dev;
     ret \<leftarrow> bus_do bus (I2cTransmit (gp_dev_addr d) [mem (maxm10s_code reg)]);
     if ret \<noteq> RET_SUCCESS then State_Monad.return (ret, [])
     else do {
       mod_dev (\<lambda>d. d\<lparr>gp_mem_addr := maxm10s_code reg\<rparr>);
       d \<leftarrow> get_dev;
       bus_call bus (I2cRead (gp_dev_addr d) (gp_mem_addr d) n)}}"

definition gps_get_amt_data :: "(u16 \<Rightarrow> u8) \<Rightarrow> 'x bus \<Rightarrow> (maxm10s \<times> 'x, ret_type \<times> nat) state" where
  "gps_get_amt_data mem bus = do {
     (ret, data) \<leftarrow> gps_read_reg mem bus BYTE_COUNT_HIGH 2;
     mod_dev (\<lambda>d. d\<lparr>gp_buff := fill data (gp_buff d)\<rparr>);
     d \<leftarrow> get_dev;
     State_Monad.return (ret, unat (be16 (gp_buff d ! 0) (gp_buff d ! 1)))}"

text \<open>The code, the amount that is available, and the bytes read, if any were.\<close>

definition gps_read_rand ::
  "(u16 \<Rightarrow> u8) \<Rightarrow> 'x bus \<Rightarrow> nat \<Rightarrow> (maxm10s \<times> 'x, ret_type \<times> nat \<times> u8 list) state" where
  "gps_read_rand mem bus buff_len = do {
     (ret, amt) \<leftarrow> gps_get_amt_data mem bus;
     if call_waits ret then State_Monad.return (ret, amt, [])
     else if amt = 0 \<or> amt > buff_len then State_Monad.return (RET_ERROR, amt, [])
     else do {
       (ret, data) \<leftarrow> gps_read_reg mem bus DATA_STREAM amt;
       State_Monad.return (ret, amt, data)}}"

text \<open>
  The loop that reads the stream byte by byte: \<open>acc\<close> are the bytes stored so far, \<open>before\<close> is the byte in
  front of the caller's buffer.
\<close>

partial_function (option) gps_read_loop ::
  "'x bus \<Rightarrow> u16 \<Rightarrow> u8 \<Rightarrow> u8 list \<Rightarrow> 'x \<Rightarrow> (ret_type \<times> u8 list \<times> 'x) option" where
  "gps_read_loop bus dev before acc x =
     (case bus (I2cRead dev 0xFF 1) x of
        (ret, data, x1) \<Rightarrow>
          if call_waits ret then Some (ret, acc, x1)
          else
            (let acc1 = (if ret = RET_SUCCESS then acc @ data else acc)
             in if ret \<noteq> RET_ERROR \<or> last (before # acc1) \<noteq> 0xFF then gps_read_loop bus dev before acc1 x1
                else Some (ret, acc1, x1)))"

definition gps_read_curr :: "'x bus \<Rightarrow> u8 \<Rightarrow> maxm10s \<Rightarrow> 'x \<Rightarrow> (ret_type \<times> u8 list \<times> maxm10s \<times> 'x) option" where
  "gps_read_curr bus before d x =
     map_option (\<lambda>(ret, acc, x1). (ret, acc, d\<lparr>gp_mem_addr := maxm10s_code DATA_STREAM\<rparr>, x1))
       (gps_read_loop bus (gp_dev_addr d) before [] x)"

definition posllh :: "u8 list" where
  "posllh = [0xB5, 0x62, 0x01, 0x21, 0x00, 0x00, 0x22, 0x67]"

definition posllh_stream_read :: "'x bus \<Rightarrow> (maxm10s \<times> 'x, ret_type \<times> u8 list) state" where
  "posllh_stream_read bus = do {
     ret \<leftarrow> bus_do bus (StreamWrite posllh);
     if ret = RET_SUCCESS then bus_call bus (StreamRead 28) else State_Monad.return (ret, [])}"

section \<open>Reading the stream\<close>

text \<open>A receiver that holds some bytes: it delivers them one at a time and fails when it has none left.\<close>

fun held_bytes :: "u8 list bus" where
  "held_bytes (I2cRead dev mem n) [] = (RET_ERROR, [], [])"
| "held_bytes (I2cRead dev mem n) (b # bs) = (RET_SUCCESS, [b], bs)"
| "held_bytes ev bs = (RET_SUCCESS, [], bs)"

lemma gps_read_loop_stuck_aux:
  assumes "gps_read_loop bus dev before acc x = Some r"
  shows "bus = held_bytes \<longrightarrow> x = [] \<longrightarrow> last (before # acc) = 0xFF"
  by (rule gps_read_loop.raw_induct [where P = "\<lambda>bus dev before acc x r. bus = held_bytes \<longrightarrow> x = [] \<longrightarrow> last (before # acc) = 0xFF"
        and xa = "((((bus, dev), before), acc), x)", unfolded prod.case, OF _ assms])
    (fastforce simp: call_waits_def Let_def simp del: last.simps split: prod.splits if_splits)

lemma gps_read_loop_stuck: "gps_read_loop held_bytes dev before acc [] = Some r \<Longrightarrow> last (before # acc) = 0xFF"
  using gps_read_loop_stuck_aux by blast

lemma gps_read_loop_held:
  "gps_read_loop held_bytes dev before acc bs =
     (if last (before # acc @ bs) = 0xFF then Some (RET_ERROR, acc @ bs, []) else None)"
proof (induction bs arbitrary: acc)
  case Nil
  show ?case
    using gps_read_loop_stuck [of dev before acc]
    by (cases "gps_read_loop held_bytes dev before acc []"; subst gps_read_loop.simps) (auto simp: call_waits_def)
next
  case (Cons b bs)
  show ?case
    by (subst gps_read_loop.simps) (simp add: Cons.IH)
qed

text \<open>
  Reading the stream returns only when a read fails just after the byte 0xFF: from a receiver that holds
  some bytes it returns all of them when the last one is 0xFF, and never returns otherwise; the code is
  the error either way.
\<close>
theorem gps_stream_ends:
  "gps_read_curr held_bytes before d bs =
     (if last (before # bs) = 0xFF
      then Some (RET_ERROR, bs, d\<lparr>gp_mem_addr := 0xFF\<rparr>, []) else None)"
  by (simp add: gps_read_curr_def gps_read_loop_held)

end
