(* ===== verification/BaroModel.thy ===== *)
theory BaroModel
  imports DriverBase "HOL-Library.Signed_Division"
begin

unbundle bit_operations_syntax

text \<open>
  The altimeter of src/device/peripherals/MS5607/MS5607.h.  Signed arithmetic has 32 bits and is undefined
  when it overflows: \<open>s32\<close> is \<open>None\<close> then.  Arithmetic with a \<open>uint32_t\<close> is unsigned and wraps around.
  \<open>sq\<close> stands for \<open>pow(x, 2)\<close>.
\<close>

section \<open>State and commands\<close>

record ms5607 =
  ms_dev_addr :: u16
  ms_d1 :: u8
  ms_d2 :: u8
  ms_delay :: u16
  ms_sens :: u16
  ms_offset :: u16
  ms_sens_tc :: u16
  ms_offset_tc :: u16
  ms_temp_ref :: u16
  ms_temp_sens :: u16
  ms_coefficients :: "u16 list"
  ms_prom_i :: nat
  ms_prom_buff :: "u8 list"

definition ms_new :: "u8 \<Rightarrow> ms5607" where
  "ms_new address =
     \<lparr>ms_dev_addr = ucast (push_bit 1 address), ms_d1 = 0x40, ms_d2 = 0x50, ms_delay = 0, ms_sens = 0, ms_offset = 0,
      ms_sens_tc = 0, ms_offset_tc = 0, ms_temp_ref = 0, ms_temp_sens = 0, ms_coefficients = replicate 6 0,
      ms_prom_i = 0, ms_prom_buff = replicate 8 0\<rparr>"

datatype ms5607_osr = MS5607_OSR_256 | MS5607_OSR_512 | MS5607_OSR_1024 | MS5607_OSR_2048 | MS5607_OSR_4096

definition RESET_COMMAND :: u8 where
  "RESET_COMMAND = 0x1E"

definition ADC_READ :: u8 where
  "ADC_READ = 0x00"

definition PROM_READ :: u8 where
  "PROM_READ = 0xA0"

fun ms_set_conv :: "ms5607_osr \<Rightarrow> ms5607 \<Rightarrow> ms5607" where
  "ms_set_conv MS5607_OSR_256 d = d\<lparr>ms_d1 := 0x40, ms_d2 := 0x50, ms_delay := 1\<rparr>"
| "ms_set_conv MS5607_OSR_512 d = d\<lparr>ms_d1 := 0x42, ms_d2 := 0x52, ms_delay := 3\<rparr>"
| "ms_set_conv MS5607_OSR_1024 d = d\<lparr>ms_d1 := 0x44, ms_d2 := 0x54, ms_delay := 4\<rparr>"
| "ms_set_conv MS5607_OSR_2048 d = d\<lparr>ms_d1 := 0x46, ms_d2 := 0x56, ms_delay := 6\<rparr>"
| "ms_set_conv MS5607_OSR_4096 d = d\<lparr>ms_d1 := 0x48, ms_d2 := 0x58, ms_delay := 10\<rparr>"

definition ms_reset :: "'x bus \<Rightarrow> (ms5607, 'x) drv" where
  "ms_reset bus = do {
     d \<leftarrow> get_dev;
     on_success (bus_do bus (I2cTransmit (ms_dev_addr d) [RESET_COMMAND])) (State_Monad.return RET_SUCCESS)}"

definition ms_read16 :: "'x bus \<Rightarrow> u16 \<Rightarrow> (ms5607 \<times> 'x, u16) state" where
  "ms_read16 bus command = do {
     d \<leftarrow> get_dev;
     (_, data) \<leftarrow> bus_call bus (I2cRead (ms_dev_addr d) command 2);
     State_Monad.return (be16 (data ! 0) (data ! 1))}"

definition ms_read_calibration :: "'x bus \<Rightarrow> (ms5607, 'x) drv" where
  "ms_read_calibration bus = do {
     c \<leftarrow> ms_read16 bus 0xA2;
     mod_dev (\<lambda>d. d\<lparr>ms_sens := c\<rparr>);
     c \<leftarrow> ms_read16 bus 0xA4;
     mod_dev (\<lambda>d. d\<lparr>ms_offset := c\<rparr>);
     c \<leftarrow> ms_read16 bus 0xA6;
     mod_dev (\<lambda>d. d\<lparr>ms_sens_tc := c\<rparr>);
     c \<leftarrow> ms_read16 bus 0xA8;
     mod_dev (\<lambda>d. d\<lparr>ms_offset_tc := c\<rparr>);
     c \<leftarrow> ms_read16 bus 0xAA;
     mod_dev (\<lambda>d. d\<lparr>ms_temp_ref := c\<rparr>);
     c \<leftarrow> ms_read16 bus 0xAC;
     mod_dev (\<lambda>d. d\<lparr>ms_temp_sens := c\<rparr>);
     State_Monad.return RET_SUCCESS}"

definition ms_init :: "'x bus \<Rightarrow> (ms5607, 'x) drv" where
  "ms_init bus =
     on_success (ms_reset bus) (
     drv_sleep bus 5000 (
     on_success (ms_read_calibration bus) (do {
       mod_dev (ms_set_conv MS5607_OSR_256);
       State_Monad.return RET_SUCCESS})))"

text \<open>The members from \<open>d1Conversion\<close> on, as they lie in memory.\<close>

definition ms_image :: "ms5607 \<Rightarrow> u8 list" where
  "ms_image d = [ms_d1 d, ms_d2 d] @
     concat (map (\<lambda>w. [lo8 w, hi8 w])
       ([ms_delay d, ms_sens d, ms_offset d, ms_sens_tc d, ms_offset_tc d, ms_temp_ref d, ms_temp_sens d] @ ms_coefficients d))"

text \<open>The delay is passed as the number of bytes to transmit, from the conversion command on.\<close>

definition ms_conversion :: "'x bus \<Rightarrow> bool \<Rightarrow> (ms5607, 'x) drv" where
  "ms_conversion bus is_d1 = do {
     d \<leftarrow> get_dev;
     on_success (bus_do bus (I2cTransmit (ms_dev_addr d)
         (take (unat (ms_delay d) + 5) (if is_d1 then ms_image d else drop 1 (ms_image d))))) (
       State_Monad.return RET_SUCCESS)}"

definition be24 :: "u8 list \<Rightarrow> u32" where
  "be24 b = push_bit 16 (ucast (b ! 0)) OR push_bit 8 (ucast (b ! 1)) OR ucast (b ! 2)"

text \<open>The code and the value read.\<close>

definition ms_start_meas :: "'x bus \<Rightarrow> u8 \<Rightarrow> (ms5607 \<times> 'x, ret_type \<times> u32) state" where
  "ms_start_meas bus command = do {
     d \<leftarrow> get_dev;
     (ret, data) \<leftarrow> bus_call bus (I2cTransmitReceive (ms_dev_addr d) [command] 3);
     State_Monad.return (ret, be24 data)}"

text \<open>
  The rest of the commands.  startMeasurement transmits the byte at the address \<open>ADC_READ\<close>, which is a parameter; the
  three bytes of getDigitalVal go into the low end of the caller's word.  \<open>pw\<close> is the function pow.
\<close>

definition ms_read_prom_word :: "'x bus \<Rightarrow> u8 \<Rightarrow> (ms5607 \<times> 'x, ret_type \<times> u8 list) state" where
  "ms_read_prom_word bus offset = do {
     d \<leftarrow> get_dev;
     bus_call bus (I2cTransmitReceive (ms_dev_addr d) [PROM_READ + offset] 2)}"

definition ms_start_measurement :: "'x bus \<Rightarrow> u8 \<Rightarrow> (ms5607, 'x) drv" where
  "ms_start_measurement bus byte_at_adc_read = do {
     d \<leftarrow> get_dev;
     bus_do bus (I2cTransmit (ms_dev_addr d) [byte_at_adc_read])}"

definition ms_get_digital_val :: "'x bus \<Rightarrow> u32 \<Rightarrow> (ms5607 \<times> 'x, ret_type \<times> u32) state" where
  "ms_get_digital_val bus old = do {
     d \<leftarrow> get_dev;
     (ret, data) \<leftarrow> bus_call bus (I2cReceive (ms_dev_addr d) 3);
     let b = fill data [ucast old, ucast (drop_bit 8 old), ucast (drop_bit 16 old)];
     State_Monad.return (ret, (old AND 0xFF000000) OR be24 [b ! 2, b ! 1, b ! 0])}"

definition ms_get_altitude :: "(rat \<Rightarrow> rat) \<Rightarrow> (rat \<Rightarrow> rat) \<Rightarrow> (rat \<Rightarrow> rat \<Rightarrow> rat) \<Rightarrow> rat \<Rightarrow> rat \<Rightarrow> rat" where
  "ms_get_altitude fl db pw pressure temp =
     fl (db (db (db (15384615 / 100000) * fl (pw (fl (pressure / fl (101325 / 100))) (fl (1903 / 10000)) - 1)) *
             db (temp + db (27315 / 100))))"

text \<open>The reference pressure is at height 0, whatever the temperature.\<close>

lemma ms_altitude_reference:
  assumes "\<And>y. pw 1 y = 1" "fl 1 = 1" "fl 0 = 0" "db 0 = 0" "fl (101325 / 100) = 101325 / 100"
  shows "ms_get_altitude fl db pw (101325 / 100) temp = 0"
proof -
  have "fl ((101325 / 100) / fl (101325 / 100)) = 1" unfolding assms(5) by (simp add: assms(2))
  then show ?thesis by (simp only: ms_get_altitude_def assms(1)) (simp add: assms(3,4))
qed

definition ms_read_digital_vals :: "'x bus \<Rightarrow> (ms5607 \<times> 'x, ret_type \<times> u32 option \<times> u32 option) state" where
  "ms_read_digital_vals bus = do {
     ret \<leftarrow> ms_conversion bus True;
     if ret \<noteq> RET_SUCCESS then State_Monad.return (ret, None, None)
     else do {
       (ret, p) \<leftarrow> ms_start_meas bus ADC_READ;
       if ret \<noteq> RET_SUCCESS then State_Monad.return (ret, None, None)
       else do {
         ret \<leftarrow> ms_conversion bus False;
         if ret \<noteq> RET_SUCCESS then State_Monad.return (ret, Some p, None)
         else do {
           (ret, t) \<leftarrow> ms_start_meas bus ADC_READ;
           State_Monad.return (ret, Some p, if ret \<noteq> RET_SUCCESS then None else Some t)}}}}"

definition ms_adc_read :: "'x bus \<Rightarrow> (ms5607 \<times> 'x, ret_type \<times> u32 option \<times> u32 option) state" where
  "ms_adc_read bus = do {
     d \<leftarrow> get_dev;
     (ret, p) \<leftarrow> ms_start_meas bus (ADC_READ + ms_d1 d);
     if ret \<noteq> RET_SUCCESS then State_Monad.return (ret, None, None)
     else do {
       _ \<leftarrow> bus_do bus (SleepFor (ucast (ms_delay d)));
       (ret, t) \<leftarrow> ms_start_meas bus (ADC_READ + ms_d2 d);
       if ret \<noteq> RET_SUCCESS then State_Monad.return (ret, Some p, None)
       else do {
         _ \<leftarrow> bus_do bus (SleepFor (ucast (ms_delay d)));
         State_Monad.return (ret, Some p, Some t)}}}"

text \<open>Reading the memory word by word: the counter is static, and a word is cut to a byte of the buffer.\<close>

fun ms_prom_words :: "nat \<Rightarrow> 'x bus \<Rightarrow> (ms5607, 'x) drv" where
  "ms_prom_words 0 bus = State_Monad.return RET_SUCCESS"
| "ms_prom_words (Suc n) bus = do {
     d \<leftarrow> get_dev;
     (ret, data) \<leftarrow> bus_call bus (I2cTransmitReceive (ms_dev_addr d) [PROM_READ + of_nat (ms_prom_i d * 2)] 2);
     if ret \<noteq> RET_SUCCESS then State_Monad.return ret
     else do {
       mod_dev (\<lambda>d. d\<lparr>ms_prom_buff := (ms_prom_buff d)[ms_prom_i d := lo8 (be16 (data ! 0) (data ! 1))],
                       ms_prom_i := ms_prom_i d + 1\<rparr>);
       ms_prom_words n bus}}"

definition ms_read_prom :: "'x bus \<Rightarrow> (ms5607, 'x) drv" where
  "ms_read_prom bus =
     on_success (ms_reset bus) (
     drv_sleep bus 300 (do {
       d \<leftarrow> get_dev;
       on_success (ms_prom_words (8 - ms_prom_i d) bus) (do {
         mod_dev (\<lambda>d. let b = ms_prom_buff d in
           d\<lparr>ms_prom_i := 0, ms_sens := be16 (b ! 0) (b ! 1), ms_offset := be16 (b ! 2) (b ! 3),
             ms_sens_tc := be16 (b ! 4) (b ! 5), ms_offset_tc := be16 (b ! 6) (b ! 7)\<rparr>);
         State_Monad.return RET_SUCCESS})}))"

section \<open>The calculations\<close>

definition s32 :: "int \<Rightarrow> int option" where
  "s32 n = (if - (2 ^ 31) \<le> n \<and> n < 2 ^ 31 then Some n else None)"

text \<open>The temperature, in hundredths of a degree, and the difference \<open>dT\<close>.\<close>

definition ms_calc_temp :: "u32 \<Rightarrow> ms5607 \<Rightarrow> (int \<times> int) option" where
  "ms_calc_temp digital d =
     (let dT = sint (digital - ucast (ms_temp_ref d) * 256)
      in case s32 (dT * uint (ms_temp_sens d)) of
           None \<Rightarrow> None
         | Some m \<Rightarrow> Some (2000 + m sdiv 8388608, dT))"

definition ms_calc_pressure :: "u32 \<Rightarrow> int \<Rightarrow> ms5607 \<Rightarrow> int option" where
  "ms_calc_pressure digital dT d =
     Option.bind (s32 (uint (ms_offset d) * 131072)) (\<lambda>o1.
     Option.bind (s32 (uint (ms_offset_tc d) * dT)) (\<lambda>o2.
     Option.bind (s32 (o1 + o2 sdiv 64)) (\<lambda>off.
     Option.bind (s32 (uint (ms_sens d) * 65536)) (\<lambda>s1.
     Option.bind (s32 (uint (ms_sens_tc d) * dT)) (\<lambda>s2.
     Option.bind (s32 (s1 + s2 sdiv 128)) (\<lambda>sens.
       Some (sint ((digital * word_of_int sens div 2097152 - word_of_int off) div 32768 :: u32))))))))"

definition trunc32 :: "rat \<Rightarrow> int option" where
  "trunc32 x = s32 (trunc_int x)"

definition ms_compensation :: "(rat \<Rightarrow> rat) \<Rightarrow> (int \<Rightarrow> rat) \<Rightarrow> int \<Rightarrow> int \<Rightarrow> (int \<times> int) option" where
  "ms_compensation db sq t p =
     (let (t2, off2, sens2) =
        (if t < 20 then
           (let t2 = db (sq p / 2 ^ 31); off2 = db (db (61 * sq (t - 2000)) / 16); sens2 = db (2 * sq (t - 2000))
            in if t < - 15 then (t2, db (off2 + db (15 * sq (t + 1500))), db (sens2 + db (8 * sq (t + 1500))))
               else (t2, off2, sens2))
         else (0, 0, 0))
      in Option.bind (trunc32 (db (of_int t - t2))) (\<lambda>t'.
         Option.bind (trunc32 (db (of_int p - off2))) (\<lambda>p1.
         map_option (\<lambda>p'. (t', p')) (trunc32 (db (of_int p1 - sens2))))))"

text \<open>
  The outer option is the defined arithmetic; the result is the code, the pressure and the temperature,
  the device and the bus.
\<close>

definition ms_get_pressure_temp ::
  "(rat \<Rightarrow> rat) \<Rightarrow> (rat \<Rightarrow> rat) \<Rightarrow> (int \<Rightarrow> rat) \<Rightarrow> 'x bus \<Rightarrow> ms5607 \<times> 'x \<Rightarrow> (ret_type \<times> (rat \<times> rat) option \<times> ms5607 \<times> 'x) option" where
  "ms_get_pressure_temp fl db sq bus s =
     (case run_state (ms_read_digital_vals bus) s of
        ((ret, pv, tv), d, x) \<Rightarrow>
          if ret \<noteq> RET_SUCCESS then Some (ret, None, d, x)
          else
            Option.bind (ms_calc_temp (the tv) d) (\<lambda>(t, dT).
            Option.bind (ms_calc_pressure (the pv) dT d) (\<lambda>p.
            Option.bind (ms_compensation db sq t p) (\<lambda>(t', p').
              Some (RET_SUCCESS, Some (fl (fl (of_int p') / 100), fl (fl (of_int t') / 100)), d, x)))))"

lemmas ms_defs = ms_reset_def ms_read16_def ms_read_calibration_def ms_init_def ms_conversion_def ms_start_meas_def
  ms_read_digital_vals_def ms_adc_read_def ms_read_prom_def

section \<open>Which measurements have a value\<close>

lemma s32_Some: "s32 n = Some m \<longleftrightarrow> m = n \<and> - (2 ^ 31) \<le> n \<and> n < 2 ^ 31"
  by (auto simp: s32_def)

lemma sdiv_bounds:
  assumes "- (2 ^ 31) \<le> (n :: int)" "n < 2 ^ 31"
  shows "- 256 \<le> n sdiv 8388608 \<and> n sdiv 8388608 < 256"
proof (cases "n < 0")
  case True
  have "n sdiv 8388608 = - (- n div 8388608)"
    using True by (simp add: signed_divide_int_def)
  moreover have "0 \<le> - n div 8388608" "- n div 8388608 \<le> 2 ^ 31 div 8388608"
    using True assms by (simp_all add: pos_imp_zdiv_nonneg_iff zdiv_mono1 del: power_numeral)
  ultimately show ?thesis
    by simp
next
  case False
  have "n sdiv 8388608 = n div 8388608"
    using False by (cases "n = 0") (simp_all add: signed_divide_int_def)
  moreover have "0 \<le> n div 8388608" "n div 8388608 \<le> (2 ^ 31 - 1) div 8388608"
    using False assms by (simp_all add: pos_imp_zdiv_nonneg_iff zdiv_mono1 del: power_numeral)
  ultimately show ?thesis
    by simp
qed

text \<open>C24: 
  The temperature is only ever calculated in a window around the reference temperature: a defined result
  lies within 2.56 degrees of 20 degrees, so that the compensation for low temperatures never has an
  effect, and inside the window it is the formula of the data sheet, \<open>2000 + dT * C6 / 2^23\<close> with
  \<open>dT = D2 - C5 * 2^8\<close>.
\<close>
theorem ms5607_temp_window:
  assumes "ms_calc_temp digital d = Some (t, dT)" and "unat digital < 2 ^ 24"
    and db: "\<And>n. \<bar>n\<bar> \<le> 2 ^ 31 \<Longrightarrow> db (of_int n) = of_int n" and p: "- (2 ^ 31) \<le> p" "p < 2 ^ 31"
  shows "dT = int (unat digital) - int (unat (ms_temp_ref d)) * 2 ^ 8 \<and>
    t = 2000 + (dT * int (unat (ms_temp_sens d))) sdiv 2 ^ 23 \<and>
    1744 \<le> t \<and> t < 2256 \<and> ms_compensation db sq t p = Some (t, p)"
proof -
  let ?c = "ucast (ms_temp_ref d) * 256 :: u32"
  have ref: "unat (ms_temp_ref d) < 2 ^ LENGTH(16)"
    by (rule unsigned_less)
  then have c: "unat ?c = unat (ms_temp_ref d) * 256" "unat (ms_temp_ref d) < 65536"
    using ref by (simp_all add: unat_word_ariths unat_ucast_up)
  have dT: "dT = sint (digital - ?c)"
    and m: "s32 (dT * uint (ms_temp_sens d)) = Some (dT * uint (ms_temp_sens d))"
      "t = 2000 + (dT * uint (ms_temp_sens d)) sdiv 8388608"
    using assms(1) by (auto simp: ms_calc_temp_def Let_def s32_Some split: option.splits)
  have "digital - ?c = word_of_int (int (unat digital) - int (unat ?c))"
    by simp
  then have "dT = signed_take_bit 31 (int (unat digital) - int (unat ?c))"
    unfolding dT by (simp only: sint_sbintrunc') simp
  moreover have "- (2 ^ 31) \<le> int m - int n \<and> int m - int n < 2 ^ 31" if "m < 2 ^ 24" "n < 65536 * 256" for m n :: nat
    using that by simp
  then have "- (2 ^ 31) \<le> int (unat digital) - int (unat ?c)" "int (unat digital) - int (unat ?c) < 2 ^ 31"
    using assms(2) c by (metis mult_less_mono1 zero_less_numeral)+
  ultimately have "dT = int (unat digital) - int (unat ?c)"
    by (simp only: signed_take_bit_int_eq_self)
  then have ref: "dT = int (unat digital) - int (unat (ms_temp_ref d)) * 2 ^ 8"
    unfolding c by simp
  have "- 256 \<le> dT * uint (ms_temp_sens d) sdiv 8388608 \<and> dT * uint (ms_temp_sens d) sdiv 8388608 < 256"
    using m(1) by (intro sdiv_bounds) (simp_all only: s32_Some)
  then have t: "1744 \<le> t" "t < 2256"
    using m(2) by simp_all
  then have "s32 t = Some t" "s32 p = Some p"
    using p by (simp_all add: s32_Some)
  moreover have "trunc_int (of_int n) = n" for n
    by (simp add: trunc_int_def)
  ultimately have "ms_compensation db sq t p = Some (t, p)"
    using db [of t] db [of p] t p by (simp add: ms_compensation_def trunc32_def)
  then show ?thesis
    using ref m(2) t by simp
qed

text \<open>The example of the data sheet.\<close>

definition ex_ms5607 :: ms5607 where
  "ex_ms5607 = (ms_new 0x76)
     \<lparr>ms_sens := 46372, ms_offset := 43981, ms_sens_tc := 29059, ms_offset_tc := 27842, ms_temp_ref := 31553, ms_temp_sens := 28165\<rparr>"

theorem ms5607_temp_window_witness:
  "ms_calc_temp 8077636 ex_ms5607 = Some (2000, 68) \<and> (68 :: int) = 8077636 - 31553 * 2 ^ 8 \<and>
   ms_compensation (\<lambda>x. x) (\<lambda>n. of_int (n * n)) 2000 110002 = Some (2000, 110002)"
proof -
  have c: "ms_calc_temp 8077636 ex_ms5607 = Some (2000, 68)"
    by code_simp
  show ?thesis
    using ms5607_temp_window [OF c, where db = "\<lambda>x. x" and sq = "\<lambda>n. of_int (n * n)" and p = 110002] c by simp
qed

lemma conversion_keeps [keeps]: "keeps_dev (ms_conversion bus is_d1)"
  unfolding ms_conversion_def by (intro keeps)

lemma start_meas_keeps [keeps]: "keeps_dev (ms_start_meas bus command)"
  unfolding ms_start_meas_def by (intro keeps)

lemma read_digital_vals_keeps: "keeps_dev (ms_read_digital_vals bus)"
  unfolding ms_read_digital_vals_def by (intro keeps)

lemma pressure_overflow:
  assumes "16384 \<le> unat (ms_offset e)"
  shows "ms_calc_pressure digital dT e = None"
proof -
  have "int 16384 \<le> int (unat (ms_offset e))"
    using assms by (simp only: of_nat_le_iff)
  then have "s32 (uint (ms_offset e) * 131072) = None"
    by (simp add: s32_def)
  then show ?thesis
    by (simp only: ms_calc_pressure_def Option.bind.simps)
qed

text \<open>
  With a pressure offset (the coefficient \<open>C2\<close>) of 16384 or more no measurement has a defined pressure:
  it reports an error of the bus, or its arithmetic overflows.
\<close>
theorem ms5607_pressure_overflow:
  assumes "16384 \<le> unat (ms_offset d)" and "ms_get_pressure_temp fl db sq bus (d, x) = Some (ret, v, d', x')"
  shows "ret \<noteq> RET_SUCCESS \<and> v = None"
proof -
  obtain ret1 pv tv d1 x1 where r: "run_state (ms_read_digital_vals bus) (d, x) = ((ret1, pv, tv), d1, x1)"
    by (metis surj_pair)
  then have "d1 = d"
    using keeps_devD [OF read_digital_vals_keeps] by metis
  then show ?thesis
    using r assms(2) pressure_overflow [OF assms(1)]
    by (auto simp: ms_get_pressure_temp_def bind_eq_Some_conv split: if_splits)
qed

theorem ms5607_pressure_overflow_witness:
  "\<exists>ret v d' x'. ms_get_pressure_temp (\<lambda>x. x) (\<lambda>x. x) (\<lambda>n. of_int (n * n)) (\<lambda>ev x. (RET_ERROR, [], x)) (ex_ms5607, ()) =
     Some (ret, v, d', x') \<and> ret \<noteq> RET_SUCCESS \<and> v = None"
proof -
  have o: "16384 \<le> unat (ms_offset ex_ms5607)"
    by (simp add: ex_ms5607_def)
  obtain ret v d' x' where r: "ms_get_pressure_temp (\<lambda>x. x) (\<lambda>x. x) (\<lambda>n. of_int (n * n)) (\<lambda>ev x. (RET_ERROR, [], x)) (ex_ms5607, ()) =
      Some (ret, v, d', x')"
    by (simp add: ms_get_pressure_temp_def ms_read_digital_vals_def ms_conversion_def)
  show ?thesis
    using r ms5607_pressure_overflow [OF o r] by blast
qed

end
