(* ===== verification/WiznetRegs.thy ===== *)
theory WiznetRegs
  imports DriverBase
begin

unbundle bit_operations_syntax

text \<open>
  Register access of the W5500 Ethernet controller (src/device/peripherals/wiznet: wiznet.h and the
  addresses of wiznet_defs.h).  Pin 0 is the chip select.  The first argument \<open>'d\<close> of the driver
  type stays open: these functions touch no member.  A getter returns the code and what it stores
  through its pointer, \<open>None\<close> when it stores nothing.
\<close>

section \<open>Frames\<close>

definition wiz_creg :: "u32 \<Rightarrow> u32" where
  "wiz_creg off = push_bit 8 off + push_bit 3 0"

definition wiz_sreg :: "u32 \<Rightarrow> nat \<Rightarrow> u32" where
  "wiz_sreg off n = push_bit 8 off + push_bit 3 (of_nat (1 + 4 * n))"

definition WIZCHIP_TXBUF_BLOCK :: "nat \<Rightarrow> u32" where
  "WIZCHIP_TXBUF_BLOCK n = of_nat (2 + 4 * n)"

definition WIZCHIP_RXBUF_BLOCK :: "nat \<Rightarrow> u32" where
  "WIZCHIP_RXBUF_BLOCK n = of_nat (3 + 4 * n)"

definition WIZCHIP_OFFSET_INC :: "u32 \<Rightarrow> u32 \<Rightarrow> u32" where
  "WIZCHIP_OFFSET_INC addr n = addr + push_bit 8 n"

definition W5500_SPI_READ :: u32 where
  "W5500_SPI_READ = push_bit 2 0"

definition W5500_SPI_WRITE :: u32 where
  "W5500_SPI_WRITE = push_bit 2 1"

definition SPI_VDM_OP :: u32 where
  "SPI_VDM_OP = 0x00"

text \<open>The three bytes at the start of a frame.\<close>

definition wiz_head :: "u32 \<Rightarrow> u8 list" where
  "wiz_head a =
     [ucast (drop_bit 16 (a AND 0x00FF0000)), ucast (drop_bit 8 (a AND 0x0000FF00)), ucast (a AND 0x000000FF)]"

definition wiz_read_buf :: "'x bus \<Rightarrow> u32 \<Rightarrow> nat \<Rightarrow> ('d \<times> 'x, ret_type \<times> u8 list) state" where
  "wiz_read_buf bus addr len = do {
     ret \<leftarrow> bus_do bus (PinSet 0 0);
     if call_waits ret then State_Monad.return (ret, [])
     else do {
       ret \<leftarrow> bus_do bus (SpiWrite (wiz_head (addr OR (W5500_SPI_READ OR SPI_VDM_OP))));
       if call_waits ret then State_Monad.return (ret, [])
       else if ret \<noteq> RET_SUCCESS then State_Monad.return (RET_ERROR, [])
       else do {
         (ret, data) \<leftarrow> bus_call bus (SpiRead len);
         if call_waits ret then State_Monad.return (ret, data)
         else do {
           ret' \<leftarrow> bus_do bus (PinSet 0 1);
           State_Monad.return (if call_waits ret' then ret' else ret, data)}}}}"

definition wiz_read :: "'x bus \<Rightarrow> u32 \<Rightarrow> ('d \<times> 'x, ret_type \<times> u8 list) state" where
  "wiz_read bus addr = do {
     ret \<leftarrow> bus_do bus (PinSet 0 0);
     if call_waits ret then State_Monad.return (ret, [])
     else do {
       ret \<leftarrow> bus_do bus (SpiWrite (wiz_head (addr OR (W5500_SPI_READ OR SPI_VDM_OP))));
       if call_waits ret then State_Monad.return (ret, [])
       else if ret \<noteq> RET_SUCCESS then State_Monad.return (RET_ERROR, [])
       else do {
         (ret, data) \<leftarrow> bus_call bus (SpiRead 1);
         if call_waits ret then State_Monad.return (ret, data)
         else do {
           ret' \<leftarrow> bus_do bus (PinSet 0 1);
           State_Monad.return (if call_waits ret' then ret' else ret, data)}}}}"

definition wiz_write :: "'x bus \<Rightarrow> u32 \<Rightarrow> u8 \<Rightarrow> ('d, 'x) drv" where
  "wiz_write bus addr wb =
     call_then (bus_do bus (PinSet 0 0)) (\<lambda>_.
     call_then (bus_do bus (SpiWrite (wiz_head (addr OR (W5500_SPI_WRITE OR SPI_VDM_OP)) @ [wb]))) (\<lambda>ret.
     call_then (bus_do bus (PinSet 0 1)) (\<lambda>_.
     State_Monad.return ret)))"

definition wiz_write_buf :: "'x bus \<Rightarrow> u32 \<Rightarrow> u8 list \<Rightarrow> ('d, 'x) drv" where
  "wiz_write_buf bus addr buff =
     call_then (bus_do bus (PinSet 0 0)) (\<lambda>_.
     check_call (bus_do bus (SpiWrite (wiz_head (addr OR (W5500_SPI_WRITE OR SPI_VDM_OP))))) (
     call_then (bus_do bus (SpiWrite buff)) (\<lambda>ret.
     call_then (bus_do bus (PinSet 0 1)) (\<lambda>_.
     State_Monad.return ret))))"

section \<open>Addresses\<close>

definition C_MR :: u32 where
  "C_MR = wiz_creg 0x0000"

definition C_GAR :: u32 where
  "C_GAR = wiz_creg 0x0001"

definition C_SUBR :: u32 where
  "C_SUBR = wiz_creg 0x0005"

definition C_SHAR :: u32 where
  "C_SHAR = wiz_creg 0x0009"

definition C_SIPR :: u32 where
  "C_SIPR = wiz_creg 0x000F"

definition C_INTLEVEL :: u32 where
  "C_INTLEVEL = wiz_creg 0x0013"

definition C_IR :: u32 where
  "C_IR = wiz_creg 0x0015"

definition C_IMR :: u32 where
  "C_IMR = wiz_creg 0x0016"

definition C_SIR :: u32 where
  "C_SIR = wiz_creg 0x0017"

definition C_SIMR :: u32 where
  "C_SIMR = wiz_creg 0x0018"

definition C_RTR :: u32 where
  "C_RTR = wiz_creg 0x0019"

definition C_RCR :: u32 where
  "C_RCR = wiz_creg 0x001B"

definition C_PTIMER :: u32 where
  "C_PTIMER = wiz_creg 0x001C"

definition C_PMAGIC :: u32 where
  "C_PMAGIC = wiz_creg 0x001D"

definition C_PHAR :: u32 where
  "C_PHAR = wiz_creg 0x001E"

definition C_PSID :: u32 where
  "C_PSID = wiz_creg 0x0024"

definition C_PMRU :: u32 where
  "C_PMRU = wiz_creg 0x0026"

definition C_UIPR :: u32 where
  "C_UIPR = wiz_creg 0x0028"

definition C_UPORTR :: u32 where
  "C_UPORTR = wiz_creg 0x002C"

definition C_PHYCFGR :: u32 where
  "C_PHYCFGR = wiz_creg 0x002E"

definition C_VERSIONR :: u32 where
  "C_VERSIONR = wiz_creg 0x0039"

definition Sn_MR :: "nat \<Rightarrow> u32" where
  "Sn_MR n = wiz_sreg 0x0000 n"

definition Sn_CR :: "nat \<Rightarrow> u32" where
  "Sn_CR n = wiz_sreg 0x0001 n"

definition Sn_IR :: "nat \<Rightarrow> u32" where
  "Sn_IR n = wiz_sreg 0x0002 n"

definition Sn_SR :: "nat \<Rightarrow> u32" where
  "Sn_SR n = wiz_sreg 0x0003 n"

definition Sn_PORT :: "nat \<Rightarrow> u32" where
  "Sn_PORT n = wiz_sreg 0x0004 n"

definition Sn_DHAR :: "nat \<Rightarrow> u32" where
  "Sn_DHAR n = wiz_sreg 0x0006 n"

definition Sn_DIPR :: "nat \<Rightarrow> u32" where
  "Sn_DIPR n = wiz_sreg 0x000C n"

definition Sn_DPORT :: "nat \<Rightarrow> u32" where
  "Sn_DPORT n = wiz_sreg 0x0010 n"

definition Sn_MSSR :: "nat \<Rightarrow> u32" where
  "Sn_MSSR n = wiz_sreg 0x0012 n"

definition Sn_TOS :: "nat \<Rightarrow> u32" where
  "Sn_TOS n = wiz_sreg 0x0015 n"

definition Sn_TTL :: "nat \<Rightarrow> u32" where
  "Sn_TTL n = wiz_sreg 0x0016 n"

definition Sn_RXBUF_SIZE :: "nat \<Rightarrow> u32" where
  "Sn_RXBUF_SIZE n = wiz_sreg 0x001E n"

definition Sn_TXBUF_SIZE :: "nat \<Rightarrow> u32" where
  "Sn_TXBUF_SIZE n = wiz_sreg 0x001F n"

definition Sn_TX_FSR :: "nat \<Rightarrow> u32" where
  "Sn_TX_FSR n = wiz_sreg 0x0020 n"

definition Sn_TX_RD :: "nat \<Rightarrow> u32" where
  "Sn_TX_RD n = wiz_sreg 0x0022 n"

definition Sn_TX_WR :: "nat \<Rightarrow> u32" where
  "Sn_TX_WR n = wiz_sreg 0x0024 n"

definition Sn_RX_RSR :: "nat \<Rightarrow> u32" where
  "Sn_RX_RSR n = wiz_sreg 0x0026 n"

definition Sn_RX_RD :: "nat \<Rightarrow> u32" where
  "Sn_RX_RD n = wiz_sreg 0x0028 n"

definition Sn_RX_WR :: "nat \<Rightarrow> u32" where
  "Sn_RX_WR n = wiz_sreg 0x002A n"

definition Sn_IMR :: "nat \<Rightarrow> u32" where
  "Sn_IMR n = wiz_sreg 0x002C n"

definition Sn_FRAG :: "nat \<Rightarrow> u32" where
  "Sn_FRAG n = wiz_sreg 0x002D n"

definition Sn_KPALVTR :: "nat \<Rightarrow> u32" where
  "Sn_KPALVTR n = wiz_sreg 0x002F n"

section \<open>Accessors\<close>

definition stored :: "u8 list \<Rightarrow> u8 option" where
  "stored data = (case data of [] \<Rightarrow> None | b # _ \<Rightarrow> Some b)"

definition wiz_get8 :: "'x bus \<Rightarrow> u32 \<Rightarrow> ('d \<times> 'x, ret_type \<times> u8 option) state" where
  "wiz_get8 bus addr = do {(ret, data) \<leftarrow> wiz_read bus addr; State_Monad.return (ret, stored data)}"

definition wiz_get8_masked :: "'x bus \<Rightarrow> u32 \<Rightarrow> u8 \<Rightarrow> ('d \<times> 'x, ret_type \<times> u8 option) state" where
  "wiz_get8_masked bus addr m = do {
     (ret, data) \<leftarrow> wiz_read bus addr;
     State_Monad.return (ret, map_option (\<lambda>b. b AND m) (stored data))}"

definition wiz_set16 :: "'x bus \<Rightarrow> u32 \<Rightarrow> u16 \<Rightarrow> ('d, 'x) drv" where
  "wiz_set16 bus addr v =
     check_call (wiz_write bus addr (hi8 v)) (wiz_write bus (WIZCHIP_OFFSET_INC addr 1) (lo8 v))"

definition wiz_set16_code :: "'x bus \<Rightarrow> u32 \<Rightarrow> u16 \<Rightarrow> ('d, 'x) drv" where
  "wiz_set16_code bus addr v =
     on_success (wiz_write bus addr (hi8 v)) (wiz_write bus (WIZCHIP_OFFSET_INC addr 1) (lo8 v))"

text \<open>
  Two reads through one static byte, which keeps the high byte when the second read fails: the functions
  differ in whether they check the codes of the reads.
\<close>

definition wiz_get16 :: "'x bus \<Rightarrow> u32 \<Rightarrow> ('d \<times> 'x, ret_type \<times> u16 option) state" where
  "wiz_get16 bus addr = do {
     (ret, hi) \<leftarrow> wiz_read bus addr;
     if call_waits ret then State_Monad.return (ret, None)
     else if ret \<noteq> RET_SUCCESS then State_Monad.return (RET_ERROR, None)
     else do {
       let h = (case stored hi of Some b \<Rightarrow> b | None \<Rightarrow> 0);
       (ret, lo) \<leftarrow> wiz_read bus (WIZCHIP_OFFSET_INC addr 1);
       let l = (if call_waits ret then 0 else case stored lo of Some b \<Rightarrow> b | None \<Rightarrow> h);
       State_Monad.return (ret, Some (push_bit 8 (ucast h) + ucast l))}}"

definition wiz_get16_checked :: "'x bus \<Rightarrow> u32 \<Rightarrow> ('d \<times> 'x, ret_type \<times> u16 option) state" where
  "wiz_get16_checked bus addr = do {
     (ret, hi) \<leftarrow> wiz_read bus addr;
     if call_waits ret then State_Monad.return (ret, None)
     else if ret \<noteq> RET_SUCCESS then State_Monad.return (RET_ERROR, None)
     else do {
       let h = (case stored hi of Some b \<Rightarrow> b | None \<Rightarrow> 0);
       (ret, lo) \<leftarrow> wiz_read bus (WIZCHIP_OFFSET_INC addr 1);
       if call_waits ret then State_Monad.return (ret, Some (push_bit 8 (ucast h)))
       else if ret \<noteq> RET_SUCCESS then State_Monad.return (RET_ERROR, Some (push_bit 8 (ucast h)))
       else do {
         let l = (case stored lo of Some b \<Rightarrow> b | None \<Rightarrow> h);
         State_Monad.return (ret, Some (push_bit 8 (ucast h) + ucast l))}}}"

text \<open>Without a check of the first code; \<open>old\<close> is what the static byte had before.\<close>

definition wiz_get16_unchecked :: "u8 \<Rightarrow> 'x bus \<Rightarrow> u32 \<Rightarrow> ('d \<times> 'x, ret_type \<times> u16 option) state" where
  "wiz_get16_unchecked old bus addr = do {
     (ret, hi) \<leftarrow> wiz_read bus addr;
     if call_waits ret then State_Monad.return (ret, None)
     else do {
       let h = (case stored hi of Some b \<Rightarrow> b | None \<Rightarrow> old);
       (ret, lo) \<leftarrow> wiz_read bus (WIZCHIP_OFFSET_INC addr 1);
       let l = (if call_waits ret then 0 else case stored lo of Some b \<Rightarrow> b | None \<Rightarrow> h);
       State_Monad.return (ret, Some (push_bit 8 (ucast h) + ucast l))}}"

definition setMR :: "'x bus \<Rightarrow> u8 \<Rightarrow> ('d, 'x) drv" where
  "setMR bus v = wiz_write bus C_MR v"

definition getMR :: "'x bus \<Rightarrow> ('d \<times> 'x, ret_type \<times> u8 option) state" where
  "getMR bus = wiz_get8 bus C_MR"

definition setGAR :: "'x bus \<Rightarrow> u8 list \<Rightarrow> ('d, 'x) drv" where
  "setGAR bus v = wiz_write_buf bus C_GAR (take 4 v)"

definition getGAR :: "'x bus \<Rightarrow> ('d \<times> 'x, ret_type \<times> u8 list) state" where
  "getGAR bus = wiz_read_buf bus C_GAR 4"

definition setSUBR :: "'x bus \<Rightarrow> u8 list \<Rightarrow> ('d, 'x) drv" where
  "setSUBR bus v = wiz_write_buf bus C_SUBR (take 4 v)"

definition getSUBR :: "'x bus \<Rightarrow> ('d \<times> 'x, ret_type \<times> u8 list) state" where
  "getSUBR bus = wiz_read_buf bus C_SUBR 4"

definition setSHAR :: "'x bus \<Rightarrow> u8 list \<Rightarrow> ('d, 'x) drv" where
  "setSHAR bus v = wiz_write_buf bus C_SHAR (take 6 v)"

definition getSHAR :: "'x bus \<Rightarrow> ('d \<times> 'x, ret_type \<times> u8 list) state" where
  "getSHAR bus = wiz_read_buf bus C_SHAR 6"

definition setSIPR :: "'x bus \<Rightarrow> u8 list \<Rightarrow> ('d, 'x) drv" where
  "setSIPR bus v = wiz_write_buf bus C_SIPR (take 4 v)"

definition getSIPR :: "'x bus \<Rightarrow> ('d \<times> 'x, ret_type \<times> u8 list) state" where
  "getSIPR bus = wiz_read_buf bus C_SIPR 4"

definition setINTLEVEL :: "'x bus \<Rightarrow> u16 \<Rightarrow> ('d, 'x) drv" where
  "setINTLEVEL bus v = wiz_set16 bus C_INTLEVEL v"

definition getINTLEVEL :: "'x bus \<Rightarrow> ('d \<times> 'x, ret_type \<times> u16 option) state" where
  "getINTLEVEL bus = wiz_get16 bus C_INTLEVEL"

definition setIR :: "'x bus \<Rightarrow> u8 \<Rightarrow> ('d, 'x) drv" where
  "setIR bus v = wiz_write bus C_IR (v AND 0xF0)"

definition getIR :: "'x bus \<Rightarrow> ('d \<times> 'x, ret_type \<times> u8 option) state" where
  "getIR bus = wiz_get8_masked bus C_IR 0xF0"

definition setIMR :: "'x bus \<Rightarrow> u8 \<Rightarrow> ('d, 'x) drv" where
  "setIMR bus v = wiz_write bus C_IMR v"

definition getIMR :: "'x bus \<Rightarrow> ('d \<times> 'x, ret_type \<times> u8 option) state" where
  "getIMR bus = wiz_get8 bus C_IMR"

definition setSIR :: "'x bus \<Rightarrow> u8 \<Rightarrow> ('d, 'x) drv" where
  "setSIR bus v = wiz_write bus C_SIR v"

definition getSIR :: "'x bus \<Rightarrow> ('d \<times> 'x, ret_type \<times> u8 option) state" where
  "getSIR bus = wiz_get8 bus C_SIR"

definition setSIMR :: "'x bus \<Rightarrow> u8 \<Rightarrow> ('d, 'x) drv" where
  "setSIMR bus v = wiz_write bus C_SIMR v"

definition getSIMR :: "'x bus \<Rightarrow> ('d \<times> 'x, ret_type \<times> u8 option) state" where
  "getSIMR bus = wiz_get8 bus C_SIMR"

definition setRTR :: "'x bus \<Rightarrow> u16 \<Rightarrow> ('d, 'x) drv" where
  "setRTR bus v = wiz_set16 bus C_RTR v"

definition getRTR :: "'x bus \<Rightarrow> ('d \<times> 'x, ret_type \<times> u16 option) state" where
  "getRTR bus = wiz_get16 bus C_RTR"

definition setRCR :: "'x bus \<Rightarrow> u8 \<Rightarrow> ('d, 'x) drv" where
  "setRCR bus v = wiz_write bus C_RCR v"

definition getRCR :: "'x bus \<Rightarrow> ('d \<times> 'x, ret_type \<times> u8 option) state" where
  "getRCR bus = wiz_get8 bus C_RCR"

definition setPTIMER :: "'x bus \<Rightarrow> u8 \<Rightarrow> ('d, 'x) drv" where
  "setPTIMER bus v = wiz_write bus C_PTIMER v"

definition getPTIMER :: "'x bus \<Rightarrow> ('d \<times> 'x, ret_type \<times> u8 option) state" where
  "getPTIMER bus = wiz_get8 bus C_PTIMER"

definition setPMAGIC :: "'x bus \<Rightarrow> u8 \<Rightarrow> ('d, 'x) drv" where
  "setPMAGIC bus v = wiz_write bus C_PMAGIC v"

definition getPMAGIC :: "'x bus \<Rightarrow> ('d \<times> 'x, ret_type \<times> u8 option) state" where
  "getPMAGIC bus = wiz_get8 bus C_PMAGIC"

definition setPHAR :: "'x bus \<Rightarrow> u8 list \<Rightarrow> ('d, 'x) drv" where
  "setPHAR bus v = wiz_write_buf bus C_PHAR (take 6 v)"

definition getPHAR :: "'x bus \<Rightarrow> ('d \<times> 'x, ret_type \<times> u8 list) state" where
  "getPHAR bus = wiz_read_buf bus C_PHAR 6"

definition setPSID :: "'x bus \<Rightarrow> u16 \<Rightarrow> ('d, 'x) drv" where
  "setPSID bus v = wiz_set16 bus C_PSID v"

text \<open>The value is added to a copy of the argument and lost.\<close>

definition getPSID :: "'x bus \<Rightarrow> ('d, 'x) drv" where
  "getPSID bus = do {(ret, _) \<leftarrow> wiz_get16 bus C_PSID; State_Monad.return ret}"

definition setPMRU :: "'x bus \<Rightarrow> u16 \<Rightarrow> ('d, 'x) drv" where
  "setPMRU bus v = wiz_set16 bus C_PMRU v"

definition getPMRU :: "u8 \<Rightarrow> 'x bus \<Rightarrow> ('d \<times> 'x, ret_type \<times> u16 option) state" where
  "getPMRU old bus = wiz_get16_unchecked old bus C_PMRU"

definition getUIPR :: "'x bus \<Rightarrow> ('d \<times> 'x, ret_type \<times> u8 list) state" where
  "getUIPR bus = wiz_read_buf bus C_UIPR 4"

definition getUPORTR :: "'x bus \<Rightarrow> ('d \<times> 'x, ret_type \<times> u16 option) state" where
  "getUPORTR bus = wiz_get16 bus C_UPORTR"

definition setPHYCFGR :: "'x bus \<Rightarrow> u8 \<Rightarrow> ('d, 'x) drv" where
  "setPHYCFGR bus v = wiz_write bus C_PHYCFGR v"

definition getPHYCFGR :: "'x bus \<Rightarrow> ('d \<times> 'x, ret_type \<times> u8 option) state" where
  "getPHYCFGR bus = wiz_get8 bus C_PHYCFGR"

definition getVERSIONR :: "'x bus \<Rightarrow> ('d \<times> 'x, ret_type \<times> u8 option) state" where
  "getVERSIONR bus = wiz_get8 bus C_VERSIONR"

definition setSn_MR :: "'x bus \<Rightarrow> u8 \<Rightarrow> u8 \<Rightarrow> ('d, 'x) drv" where
  "setSn_MR bus sn v = wiz_write bus (Sn_MR (unat sn)) v"

definition getSn_MR :: "'x bus \<Rightarrow> u8 \<Rightarrow> ('d \<times> 'x, ret_type \<times> u8 option) state" where
  "getSn_MR bus sn = wiz_get8 bus (Sn_MR (unat sn))"

definition setSn_CR :: "'x bus \<Rightarrow> u8 \<Rightarrow> u8 \<Rightarrow> ('d, 'x) drv" where
  "setSn_CR bus sn v = wiz_write bus (Sn_CR (unat sn)) v"

definition getSn_CR :: "'x bus \<Rightarrow> u8 \<Rightarrow> ('d \<times> 'x, ret_type \<times> u8 option) state" where
  "getSn_CR bus sn = wiz_get8 bus (Sn_CR (unat sn))"

definition setSn_IR :: "'x bus \<Rightarrow> u8 \<Rightarrow> u8 \<Rightarrow> ('d, 'x) drv" where
  "setSn_IR bus sn v = wiz_write bus (Sn_IR (unat sn)) (v AND 0x1F)"

definition getSn_IR :: "'x bus \<Rightarrow> u8 \<Rightarrow> ('d \<times> 'x, ret_type \<times> u8 option) state" where
  "getSn_IR bus sn = wiz_get8_masked bus (Sn_IR (unat sn)) 0x1F"

definition setSn_IMR :: "'x bus \<Rightarrow> u8 \<Rightarrow> u8 \<Rightarrow> ('d, 'x) drv" where
  "setSn_IMR bus sn v = wiz_write bus (Sn_IMR (unat sn)) (v AND 0x1F)"

definition getSn_IMR :: "'x bus \<Rightarrow> u8 \<Rightarrow> ('d \<times> 'x, ret_type \<times> u8 option) state" where
  "getSn_IMR bus sn = wiz_get8_masked bus (Sn_IMR (unat sn)) 0x1F"

definition getSn_SR :: "'x bus \<Rightarrow> u8 \<Rightarrow> ('d \<times> 'x, ret_type \<times> u8 option) state" where
  "getSn_SR bus sn = wiz_get8 bus (Sn_SR (unat sn))"

definition setSn_PORT :: "'x bus \<Rightarrow> u8 \<Rightarrow> u8 \<Rightarrow> ('d, 'x) drv" where
  "setSn_PORT bus sn v = wiz_set16 bus (Sn_PORT (unat sn)) (ucast v)"

definition getSn_PORT :: "'x bus \<Rightarrow> u8 \<Rightarrow> ('d \<times> 'x, ret_type \<times> u16 option) state" where
  "getSn_PORT bus sn = wiz_get16 bus (Sn_PORT (unat sn))"

definition setSn_DHAR :: "'x bus \<Rightarrow> u8 \<Rightarrow> u8 list \<Rightarrow> ('d, 'x) drv" where
  "setSn_DHAR bus sn v = wiz_write_buf bus (Sn_DHAR (unat sn)) (take 6 v)"

definition getSn_DHAR :: "'x bus \<Rightarrow> u8 \<Rightarrow> ('d \<times> 'x, ret_type \<times> u8 list) state" where
  "getSn_DHAR bus sn = wiz_read_buf bus (Sn_DHAR (unat sn)) 6"

definition setSn_DIPR :: "'x bus \<Rightarrow> u8 \<Rightarrow> u8 list \<Rightarrow> ('d, 'x) drv" where
  "setSn_DIPR bus sn v = wiz_write_buf bus (Sn_DIPR (unat sn)) (take 4 v)"

definition getSn_DIPR :: "'x bus \<Rightarrow> u8 \<Rightarrow> ('d \<times> 'x, ret_type \<times> u8 list) state" where
  "getSn_DIPR bus sn = wiz_read_buf bus (Sn_DIPR (unat sn)) 4"

definition setSn_DPORT :: "'x bus \<Rightarrow> u8 \<Rightarrow> u16 \<Rightarrow> ('d, 'x) drv" where
  "setSn_DPORT bus sn v = wiz_set16 bus (Sn_DPORT (unat sn)) v"

definition getSn_DPORT :: "'x bus \<Rightarrow> u8 \<Rightarrow> ('d \<times> 'x, ret_type \<times> u16 option) state" where
  "getSn_DPORT bus sn = wiz_get16 bus (Sn_DPORT (unat sn))"

definition setSn_MSSR :: "'x bus \<Rightarrow> u8 \<Rightarrow> u16 \<Rightarrow> ('d, 'x) drv" where
  "setSn_MSSR bus sn v = wiz_set16_code bus (Sn_MSSR (unat sn)) v"

definition getSn_MSSR :: "'x bus \<Rightarrow> u8 \<Rightarrow> ('d \<times> 'x, ret_type \<times> u16 option) state" where
  "getSn_MSSR bus sn = wiz_get16 bus (Sn_MSSR (unat sn))"

definition setSn_TOS :: "'x bus \<Rightarrow> u8 \<Rightarrow> u8 \<Rightarrow> ('d, 'x) drv" where
  "setSn_TOS bus sn v = wiz_write bus (Sn_TOS (unat sn)) v"

definition getSn_TOS :: "'x bus \<Rightarrow> u8 \<Rightarrow> ('d \<times> 'x, ret_type \<times> u8 option) state" where
  "getSn_TOS bus sn = wiz_get8 bus (Sn_TOS (unat sn))"

definition setSn_TTL :: "'x bus \<Rightarrow> u8 \<Rightarrow> u8 \<Rightarrow> ('d, 'x) drv" where
  "setSn_TTL bus sn v = wiz_write bus (Sn_TTL (unat sn)) v"

definition getSn_TTL :: "'x bus \<Rightarrow> u8 \<Rightarrow> ('d \<times> 'x, ret_type \<times> u8 option) state" where
  "getSn_TTL bus sn = wiz_get8 bus (Sn_TTL (unat sn))"

definition setSn_RXBUF_SIZE :: "'x bus \<Rightarrow> u8 \<Rightarrow> u8 \<Rightarrow> ('d, 'x) drv" where
  "setSn_RXBUF_SIZE bus sn v = wiz_write bus (Sn_RXBUF_SIZE (unat sn)) v"

definition getSn_RXBUF_SIZE :: "'x bus \<Rightarrow> u8 \<Rightarrow> ('d \<times> 'x, ret_type \<times> u8 option) state" where
  "getSn_RXBUF_SIZE bus sn = wiz_get8 bus (Sn_RXBUF_SIZE (unat sn))"

definition setSn_TXBUF_SIZE :: "'x bus \<Rightarrow> u8 \<Rightarrow> u8 \<Rightarrow> ('d, 'x) drv" where
  "setSn_TXBUF_SIZE bus sn v = wiz_write bus (Sn_TXBUF_SIZE (unat sn)) v"

definition getSn_TXBUF_SIZE :: "'x bus \<Rightarrow> u8 \<Rightarrow> ('d \<times> 'x, ret_type \<times> u8 option) state" where
  "getSn_TXBUF_SIZE bus sn = wiz_get8 bus (Sn_TXBUF_SIZE (unat sn))"

definition getSn_TX_RD :: "'x bus \<Rightarrow> u8 \<Rightarrow> ('d \<times> 'x, ret_type \<times> u16 option) state" where
  "getSn_TX_RD bus sn = wiz_get16_checked bus (Sn_TX_RD (unat sn))"

definition setSn_TX_WR :: "'x bus \<Rightarrow> u16 \<Rightarrow> u16 \<Rightarrow> ('d, 'x) drv" where
  "setSn_TX_WR bus sn v = wiz_set16 bus (Sn_TX_WR (unat sn)) v"

definition getSn_TX_WR :: "'x bus \<Rightarrow> u8 \<Rightarrow> ('d \<times> 'x, ret_type \<times> u16 option) state" where
  "getSn_TX_WR bus sn = wiz_get16_checked bus (Sn_TX_WR (unat sn))"

definition setSn_RX_RD :: "'x bus \<Rightarrow> u8 \<Rightarrow> u16 \<Rightarrow> ('d, 'x) drv" where
  "setSn_RX_RD bus sn v = wiz_set16 bus (Sn_RX_RD (unat sn)) v"

definition getSn_RX_RD :: "'x bus \<Rightarrow> u8 \<Rightarrow> ('d \<times> 'x, ret_type \<times> u16 option) state" where
  "getSn_RX_RD bus sn = wiz_get16_checked bus (Sn_RX_RD (unat sn))"

definition getSn_RX_WR :: "'x bus \<Rightarrow> u8 \<Rightarrow> ('d \<times> 'x, ret_type \<times> u16 option) state" where
  "getSn_RX_WR bus sn = wiz_get16_checked bus (Sn_RX_WR (unat sn))"

definition setSn_FRAG :: "'x bus \<Rightarrow> u8 \<Rightarrow> u16 \<Rightarrow> ('d, 'x) drv" where
  "setSn_FRAG bus sn v = wiz_set16 bus (Sn_FRAG (unat sn)) v"

definition getSn_FRAG :: "'x bus \<Rightarrow> u8 \<Rightarrow> ('d \<times> 'x, ret_type \<times> u16 option) state" where
  "getSn_FRAG bus sn = wiz_get16_checked bus (Sn_FRAG (unat sn))"

definition setSn_KPALVTR :: "'x bus \<Rightarrow> u8 \<Rightarrow> u8 \<Rightarrow> ('d, 'x) drv" where
  "setSn_KPALVTR bus sn v = wiz_write bus (Sn_KPALVTR (unat sn)) v"

definition getSn_KPALVTR :: "'x bus \<Rightarrow> u8 \<Rightarrow> ('d \<times> 'x, ret_type \<times> u8 option) state" where
  "getSn_KPALVTR bus sn = wiz_get8 bus (Sn_KPALVTR (unat sn))"

definition getSn_RxMAX :: "u8 \<Rightarrow> 'x bus \<Rightarrow> u8 \<Rightarrow> ('d \<times> 'x, ret_type \<times> u16 option) state" where
  "getSn_RxMAX old bus sn = do {
     (ret, v) \<leftarrow> getSn_RXBUF_SIZE bus sn;
     State_Monad.return (ret, if call_waits ret then None else Some (push_bit 10 (ucast (case v of Some b \<Rightarrow> b | None \<Rightarrow> old))))}"

definition getSn_TxMAX :: "u8 \<Rightarrow> 'x bus \<Rightarrow> u8 \<Rightarrow> ('d \<times> 'x, ret_type \<times> u16 option) state" where
  "getSn_TxMAX old bus sn = do {
     (ret, v) \<leftarrow> getSn_TXBUF_SIZE bus sn;
     State_Monad.return (ret, if call_waits ret then None else Some (push_bit 10 (ucast (case v of Some b \<Rightarrow> b | None \<Rightarrow> old))))}"

section \<open>The controller as a memory\<close>

text \<open>
  What the data sheet and the comments of wiznet_defs.h say of frames: a frame starts when the chip select
  goes low, its first three bytes are an address of 16 bits and a control byte with the number of a block
  and the direction, and what follows is stored from this address on when the select goes high, or read
  from there.  \<open>frm\<close> is the frame so far, \<open>mem\<close> the cells by blocks.

  A buffer of a socket has the size in its register (1, 2, 4, 8 or 16 KB), and addresses in it are taken
  modulo this size.
\<close>

type_synonym wiz_mem = "u8 \<Rightarrow> u16 \<Rightarrow> u8"

definition wiz_bytes :: "wiz_mem \<Rightarrow> u8 \<Rightarrow> nat" where
  "wiz_bytes m blk =
     (if blk AND 3 = 2 then 1024 * unat (m (blk - 1) 0x1F)
      else if blk AND 3 = 3 then 1024 * unat (m (blk - 2) 0x1E)
      else 2 ^ 16)"

definition wiz_cell :: "wiz_mem \<Rightarrow> u8 \<Rightarrow> u16 \<Rightarrow> u16" where
  "wiz_cell m blk a = of_nat (unat a mod wiz_bytes m blk)"

fun wiz_store :: "u8 \<Rightarrow> u16 \<Rightarrow> u8 list \<Rightarrow> wiz_mem \<Rightarrow> wiz_mem" where
  "wiz_store blk a [] m = m"
| "wiz_store blk a (b # bs) m = wiz_store blk (a + 1) bs (m(blk := (m blk)(wiz_cell m blk a := b)))"

definition wiz_load :: "u8 \<Rightarrow> u16 \<Rightarrow> nat \<Rightarrow> wiz_mem \<Rightarrow> u8 list" where
  "wiz_load blk a n m = map (\<lambda>i. m blk (wiz_cell m blk (a + of_nat i))) [0..<n]"

text \<open>
  The registers that the controller changes itself: the reset bit, interrupts, the state of the link and the
  version in the common block; command, interrupts, status, the address that was asked for, the free size, the
  read pointer of the transmit buffer, the received size and the write pointer of the receive buffer in the
  block of a socket.  Nothing is said of their value after a write.
\<close>

definition wiz_volatile :: "u8 \<Rightarrow> u16 \<Rightarrow> bool" where
  "wiz_volatile blk a \<longleftrightarrow>
     (if blk = 0 then a = 0 \<or> a = 0x15 \<or> a = 0x17 \<or> 0x28 \<le> a \<and> a \<le> 0x2E \<or> a = 0x39
      else blk AND 3 = 1 \<and>
        (1 \<le> a \<and> a \<le> 3 \<or> 6 \<le> a \<and> a \<le> 0xB \<or> 0x20 \<le> a \<and> a \<le> 0x23 \<or> 0x26 \<le> a \<and> a \<le> 0x27 \<or> 0x2A \<le> a \<and> a \<le> 0x2B))"

text \<open>
  The writes that change more than their cell: a reset, every command other than SEND and RECV, and the size
  of a buffer.  Nothing is said of the controller after these.
\<close>

definition wiz_wide :: "u8 \<Rightarrow> u16 \<Rightarrow> u8 \<Rightarrow> bool" where
  "wiz_wide blk a b \<longleftrightarrow>
     (if blk = 0 then a = 0 \<and> bit b 7
      else blk AND 3 = 1 \<and> (a = 1 \<and> b \<noteq> 0x20 \<and> b \<noteq> 0x40 \<or> a = 0x1E \<or> a = 0x1F))"

definition wiz_same :: "wiz_mem \<Rightarrow> wiz_mem \<Rightarrow> bool" where
  "wiz_same m m' \<longleftrightarrow> (\<forall>blk a. \<not> wiz_volatile blk a \<longrightarrow> m' blk a = m blk a)"

fun wiz_effect :: "u8 list \<Rightarrow> wiz_mem \<Rightarrow> wiz_mem \<Rightarrow> bool" where
  "wiz_effect (a # b # c # bs) m m' =
     (if bit c 2
      then (\<exists>i < length bs. wiz_wide (drop_bit 3 c) (be16 a b + of_nat i) (bs ! i)) \<or>
        wiz_same (wiz_store (drop_bit 3 c) (be16 a b) bs m) m'
      else m' = m)"
| "wiz_effect bs m m' = (m' = m)"

text \<open>
  A bus on which the chip select, the clocking of frames, the other pins and the clock never wait or fail,
  with such a controller on it; nothing arrives from the network while the calls of a theorem run.
\<close>

definition wiz_chip :: "'x bus \<Rightarrow> ('x \<Rightarrow> u8 list option) \<Rightarrow> ('x \<Rightarrow> wiz_mem) \<Rightarrow> bool" where
  "wiz_chip bus frm mem \<longleftrightarrow>
     (\<forall>x. \<exists>x'. bus (PinSet 0 0) x = (RET_SUCCESS, [], x') \<and> frm x' = Some [] \<and> mem x' = mem x) \<and>
     (\<forall>x. \<exists>x'. bus (PinSet 0 1) x = (RET_SUCCESS, [], x') \<and> frm x' = None \<and>
        (case frm x of None \<Rightarrow> mem x' = mem x | Some f \<Rightarrow> wiz_effect f (mem x) (mem x'))) \<and>
     (\<forall>x f bs. frm x = Some f \<longrightarrow>
        (\<exists>x'. bus (SpiWrite bs) x = (RET_SUCCESS, [], x') \<and> frm x' = Some (f @ bs) \<and> mem x' = mem x)) \<and>
     (\<forall>x a b c n. frm x = Some [a, b, c] \<and> \<not> bit c 2 \<longrightarrow>
        (\<exists>x'. bus (SpiRead n) x = (RET_SUCCESS, wiz_load (drop_bit 3 c) (be16 a b) n (mem x), x') \<and>
              frm x' = frm x \<and> mem x' = mem x))"

lemma wiz_chipD:
  assumes "wiz_chip bus frm mem"
  shows "\<exists>x'. bus (PinSet 0 0) x = (RET_SUCCESS, [], x') \<and> frm x' = Some [] \<and> mem x' = mem x"
    and "frm x = Some f \<Longrightarrow> \<exists>x'. bus (PinSet 0 1) x = (RET_SUCCESS, [], x') \<and> wiz_effect f (mem x) (mem x')"
    and "frm x = Some f \<Longrightarrow> \<exists>x'. bus (SpiWrite bs) x = (RET_SUCCESS, [], x') \<and> frm x' = Some (f @ bs) \<and> mem x' = mem x"
    and "frm x = Some [a, b, c] \<Longrightarrow> \<not> bit c 2 \<Longrightarrow>
      \<exists>x'. bus (SpiRead n) x = (RET_SUCCESS, wiz_load (drop_bit 3 c) (be16 a b) n (mem x), x') \<and> frm x' = frm x \<and> mem x' = mem x"
proof -
  show "\<exists>x'. bus (PinSet 0 0) x = (RET_SUCCESS, [], x') \<and> frm x' = Some [] \<and> mem x' = mem x"
    using assms unfolding wiz_chip_def by blast
  have "\<forall>x. \<exists>x'. bus (PinSet 0 1) x = (RET_SUCCESS, [], x') \<and> frm x' = None \<and>
        (case frm x of None \<Rightarrow> mem x' = mem x | Some f \<Rightarrow> wiz_effect f (mem x) (mem x'))"
    using assms unfolding wiz_chip_def by blast
  then obtain x' where "bus (PinSet 0 1) x = (RET_SUCCESS, [], x')"
      "case frm x of None \<Rightarrow> mem x' = mem x | Some f \<Rightarrow> wiz_effect f (mem x) (mem x')"
    by blast
  then show "frm x = Some f \<Longrightarrow> \<exists>x'. bus (PinSet 0 1) x = (RET_SUCCESS, [], x') \<and> wiz_effect f (mem x) (mem x')"
    by auto
  show "frm x = Some f \<Longrightarrow> \<exists>x'. bus (SpiWrite bs) x = (RET_SUCCESS, [], x') \<and> frm x' = Some (f @ bs) \<and> mem x' = mem x"
    using assms unfolding wiz_chip_def by blast
  show "frm x = Some [a, b, c] \<Longrightarrow> \<not> bit c 2 \<Longrightarrow>
      \<exists>x'. bus (SpiRead n) x = (RET_SUCCESS, wiz_load (drop_bit 3 c) (be16 a b) n (mem x), x') \<and> frm x' = frm x \<and> mem x' = mem x"
    using assms unfolding wiz_chip_def by blast
qed

text \<open>A controller of this kind, alone on its bus: it stores every frame and changes nothing else.\<close>

fun wiz_frame :: "u8 list \<Rightarrow> wiz_mem \<Rightarrow> wiz_mem" where
  "wiz_frame (a # b # c # bs) m = (if bit c 2 then wiz_store (drop_bit 3 c) (be16 a b) bs m else m)"
| "wiz_frame bs m = m"

fun wiz_bus :: "(u8 list option \<times> wiz_mem) bus" where
  "wiz_bus (PinSet p v) (f, m) =
     (RET_SUCCESS, [],
      if p \<noteq> 0 then (f, m) else if v = 0 then (Some [], m)
      else (None, case f of None \<Rightarrow> m | Some bs \<Rightarrow> wiz_frame bs m))"
| "wiz_bus (SpiWrite bs) (f, m) = (RET_SUCCESS, [], map_option (\<lambda>g. g @ bs) f, m)"
| "wiz_bus (SpiRead n) (f, m) =
     (RET_SUCCESS, case f of Some [a, b, c] \<Rightarrow> wiz_load (drop_bit 3 c) (be16 a b) n m | _ \<Rightarrow> [], f, m)"
| "wiz_bus ev x = (RET_SUCCESS, [], x)"

lemma wiz_frame_effect: "wiz_effect f m (wiz_frame f m)"
  by (cases "(f, m)" rule: wiz_frame.cases) (simp_all add: wiz_same_def)

lemma wiz_bus_chip: "wiz_chip wiz_bus fst snd"
  by (auto simp: wiz_chip_def wiz_frame_effect split: option.split)

text \<open>The cells of a register block are its addresses.\<close>

lemma wiz_cell_reg [simp]: "blk AND 3 \<noteq> 2 \<Longrightarrow> blk AND 3 \<noteq> 3 \<Longrightarrow> wiz_cell m blk a = a"
proof -
  assume "blk AND 3 \<noteq> 2" and "blk AND 3 \<noteq> 3"
  moreover have "unat a < 2 ^ 16"
    by (rule order_less_le_trans [OF unsigned_less]) simp
  ultimately show ?thesis
    by (simp add: wiz_cell_def wiz_bytes_def)
qed

lemma wiz_bytes_upd [simp]: "wiz_bytes (m(blk := f)) blk = wiz_bytes m blk"
  by (simp add: wiz_bytes_def)

lemma wiz_cell_upd [simp]: "wiz_cell (m(blk := f)) blk a = wiz_cell m blk a"
  by (simp add: wiz_cell_def)

lemma wiz_sameD: "wiz_same m m' \<Longrightarrow> \<not> wiz_volatile blk a \<Longrightarrow> m' blk a = m blk a"
  by (simp add: wiz_same_def)

text \<open>The block and the offset in an address.\<close>

definition wiz_block :: "u32 \<Rightarrow> u8" where
  "wiz_block a = drop_bit 3 (ucast a)"

definition wiz_off :: "u32 \<Rightarrow> u16" where
  "wiz_off a = ucast (drop_bit 8 a)"

lemma head_bytes:
  assumes "\<not> bit a 2"
  shows "\<exists>h l c. wiz_head (a OR (W5500_SPI_READ OR SPI_VDM_OP)) = [h, l, c] \<and> be16 h l = wiz_off a \<and> drop_bit 3 c = wiz_block a \<and> \<not> bit c 2"
    and "\<exists>h l c. wiz_head (a OR (W5500_SPI_WRITE OR SPI_VDM_OP)) = [h, l, c] \<and> be16 h l = wiz_off a \<and> drop_bit 3 c = wiz_block a \<and> bit c 2"
proof -
  have m: "(0x00FF0000 :: u32) = push_bit 16 (mask 8)" "(0x0000FF00 :: u32) = push_bit 8 (mask 8)" "(0xFF :: u32) = mask 8"
    by (simp_all add: mask_eq_exp_minus_1 push_bit_eq_mult)
  have "(4 :: u32) = 2 ^ 2"
    by simp
  then have four: "bit (4 :: u32) n \<longleftrightarrow> n = 2" for n
    by (simp only: bit_exp_iff possible_bit_word) auto
  have off: "be16 (ucast (drop_bit 16 (b AND 0x00FF0000))) (ucast (drop_bit 8 (b AND 0x0000FF00))) = wiz_off a"
    if "\<And>n. 8 \<le> n \<Longrightarrow> bit b n = bit a n" for b :: u32
    unfolding m by (intro bit_word_eqI) (use that in \<open>auto simp: be16_def wiz_off_def bit_simps bit_mask_iff bit_word_ucast_iff\<close>)
  have blk: "drop_bit 3 (ucast (b AND 0xFF) :: u8) = wiz_block a" if "\<And>n. 3 \<le> n \<Longrightarrow> bit b n = bit a n" for b :: u32
    unfolding m by (intro bit_word_eqI) (use that in \<open>auto simp: wiz_block_def bit_simps bit_mask_iff\<close>)
  have two: "bit (ucast (b AND 0xFF) :: u8) 2 = bit b 2" for b :: u32
    unfolding m by (simp add: bit_simps bit_mask_iff)
  have r: "a OR (W5500_SPI_READ OR SPI_VDM_OP) = a" "a OR (W5500_SPI_WRITE OR SPI_VDM_OP) = a OR 4"
    by (simp_all add: W5500_SPI_READ_def W5500_SPI_WRITE_def SPI_VDM_OP_def push_bit_eq_mult)
  have w: "bit (a OR 4) n = bit a n" if "3 \<le> n" for n
    using that unfolding bit_or_iff four by linarith
  have b4: "bit (a OR 4) 2"
    unfolding bit_or_iff four by blast
  show "\<exists>h l c. wiz_head (a OR (W5500_SPI_READ OR SPI_VDM_OP)) = [h, l, c] \<and> be16 h l = wiz_off a \<and> drop_bit 3 c = wiz_block a \<and> \<not> bit c 2"
    unfolding r wiz_head_def using off [of a] blk [of a] two [of a] assms by blast
  show "\<exists>h l c. wiz_head (a OR (W5500_SPI_WRITE OR SPI_VDM_OP)) = [h, l, c] \<and> be16 h l = wiz_off a \<and> drop_bit 3 c = wiz_block a \<and> bit c 2"
    unfolding r wiz_head_def using off [of "a OR 4"] blk [of "a OR 4"] two [of "a OR 4"] w b4 by auto
qed

text \<open>What an access does to the memory; a read leaves it as it was.\<close>

lemma wiz_read_buf_ok:
  assumes chip: "wiz_chip bus frm mem" and a: "\<not> bit a 2"
  obtains x' where "run_state (wiz_read_buf bus a n) (d, x) = ((RET_SUCCESS, wiz_load (wiz_block a) (wiz_off a) n (mem x)), d, x')"
    "mem x' = mem x"
proof -
  note D = wiz_chipD [OF chip]
  obtain h l c where hd: "wiz_head (a OR (W5500_SPI_READ OR SPI_VDM_OP)) = [h, l, c]" "be16 h l = wiz_off a"
      "drop_bit 3 c = wiz_block a" "\<not> bit c 2"
    using head_bytes(1) [OF a] by blast
  obtain x1 where 1: "bus (PinSet 0 0) x = (RET_SUCCESS, [], x1)" "frm x1 = Some []" "mem x1 = mem x"
    using D(1) by blast
  obtain x2 where 2: "bus (SpiWrite [h, l, c]) x1 = (RET_SUCCESS, [], x2)" "frm x2 = Some [h, l, c]" "mem x2 = mem x1"
    using D(3) [OF 1(2)] by fastforce
  obtain x3 where 3: "bus (SpiRead n) x2 = (RET_SUCCESS, wiz_load (drop_bit 3 c) (be16 h l) n (mem x2), x3)"
      "frm x3 = frm x2" "mem x3 = mem x2"
    using D(4) [OF 2(2) hd(4)] by blast
  obtain x4 where 4: "bus (PinSet 0 1) x3 = (RET_SUCCESS, [], x4)" "wiz_effect [h, l, c] (mem x3) (mem x4)"
    using D(2) [OF 3(2) [unfolded 2(2)]] by blast
  show thesis
    by (rule that [of x4]) (use 1 2 3 4 hd in \<open>simp_all add: wiz_read_buf_def\<close>)
qed

lemma wiz_read_is_buf: "wiz_read bus a = wiz_read_buf bus a 1"
  by (simp only: wiz_read_def wiz_read_buf_def)

lemma wiz_load_1 [simp]: "wiz_load blk a (Suc 0) m = [m blk (wiz_cell m blk a)]"
  by (simp add: wiz_load_def)

lemma wiz_read_ok:
  assumes chip: "wiz_chip bus frm mem" and a: "\<not> bit a 2"
  obtains x' where "run_state (wiz_read bus a) (d, x) =
      ((RET_SUCCESS, [mem x (wiz_block a) (wiz_cell (mem x) (wiz_block a) (wiz_off a))]), d, x')" "mem x' = mem x"
  unfolding wiz_read_is_buf using wiz_read_buf_ok [OF assms, of 1 d x thesis] by simp

lemma wiz_write_ok:
  assumes chip: "wiz_chip bus frm mem" and a: "\<not> bit a 2" and w: "\<not> wiz_wide (wiz_block a) (wiz_off a) v"
  obtains x' where "run_state (wiz_write bus a v) (d, x) = (RET_SUCCESS, d, x')"
    "wiz_same (wiz_store (wiz_block a) (wiz_off a) [v] (mem x)) (mem x')"
proof -
  note D = wiz_chipD [OF chip]
  obtain h l c where hd: "wiz_head (a OR (W5500_SPI_WRITE OR SPI_VDM_OP)) = [h, l, c]" "be16 h l = wiz_off a"
      "drop_bit 3 c = wiz_block a" "bit c 2"
    using head_bytes(2) [OF a] by blast
  obtain x1 where 1: "bus (PinSet 0 0) x = (RET_SUCCESS, [], x1)" "frm x1 = Some []" "mem x1 = mem x"
    using D(1) by blast
  obtain x2 where 2: "bus (SpiWrite [h, l, c, v]) x1 = (RET_SUCCESS, [], x2)" "frm x2 = Some [h, l, c, v]" "mem x2 = mem x1"
    using D(3) [OF 1(2)] by fastforce
  obtain x3 where 3: "bus (PinSet 0 1) x2 = (RET_SUCCESS, [], x3)" "wiz_effect [h, l, c, v] (mem x2) (mem x3)"
    using D(2) [OF 2(2)] by blast
  show thesis
    by (rule that [of x3]) (use 1 2 3 hd w in \<open>simp_all add: wiz_write_def\<close>)
qed

lemma wiz_write_buf_ok:
  assumes chip: "wiz_chip bus frm mem" and a: "\<not> bit a 2"
    and w: "\<And>i. i < length bs \<Longrightarrow> \<not> wiz_wide (wiz_block a) (wiz_off a + of_nat i) (bs ! i)"
  obtains x' where "run_state (wiz_write_buf bus a bs) (d, x) = (RET_SUCCESS, d, x')"
    "wiz_same (wiz_store (wiz_block a) (wiz_off a) bs (mem x)) (mem x')"
proof -
  note D = wiz_chipD [OF chip]
  obtain h l c where hd: "wiz_head (a OR (W5500_SPI_WRITE OR SPI_VDM_OP)) = [h, l, c]" "be16 h l = wiz_off a"
      "drop_bit 3 c = wiz_block a" "bit c 2"
    using head_bytes(2) [OF a] by blast
  obtain x1 where 1: "bus (PinSet 0 0) x = (RET_SUCCESS, [], x1)" "frm x1 = Some []" "mem x1 = mem x"
    using D(1) by blast
  obtain x2 where 2: "bus (SpiWrite [h, l, c]) x1 = (RET_SUCCESS, [], x2)" "frm x2 = Some [h, l, c]" "mem x2 = mem x1"
    using D(3) [OF 1(2)] by fastforce
  obtain x3 where 3: "bus (SpiWrite bs) x2 = (RET_SUCCESS, [], x3)" "frm x3 = Some ([h, l, c] @ bs)" "mem x3 = mem x2"
    using D(3) [OF 2(2)] by blast
  obtain x4 where 4: "bus (PinSet 0 1) x3 = (RET_SUCCESS, [], x4)" "wiz_effect ([h, l, c] @ bs) (mem x3) (mem x4)"
    using D(2) [OF 3(2)] by blast
  have "wiz_same (wiz_store (wiz_block a) (wiz_off a) bs (mem x)) (mem x4)"
    using 4(2) w 1(3) 2(3) 3(3) hd by auto
  then show thesis
    by (intro that [of x4]) (use 1 2 3 4 hd in \<open>simp_all add: wiz_write_buf_def\<close>)
qed

text \<open>Addresses that are an offset and a block.\<close>

lemma addr_split:
  assumes "b < 32"
  shows "wiz_block (push_bit 8 off + push_bit 3 b) = ucast b" "wiz_off (push_bit 8 off + push_bit 3 b) = ucast off"
    "\<not> bit (push_bit 8 off + push_bit 3 b) 2"
proof -
  have small: "\<not> bit b n" if "5 \<le> n" for n
  proof -
    have "b = take_bit 5 b"
      using assms by (simp add: take_bit_eq_mod mod_word_less)
    then show ?thesis
      using that by (metis bit_take_bit_iff not_le)
  qed
  then have low: "bit b n \<Longrightarrow> n < 5" for n
    by (meson not_le)
  have or: "push_bit 8 off + push_bit 3 b = push_bit 8 off OR push_bit 3 b"
    by (rule disjunctive_add) (auto simp: bit_simps dest: low)
  show "wiz_block (push_bit 8 off + push_bit 3 b) = ucast b"
    unfolding or wiz_block_def by (rule bit_word_eqI) (auto simp: bit_simps dest: low)
  show "wiz_off (push_bit 8 off + push_bit 3 b) = ucast off"
    unfolding or wiz_off_def by (rule bit_word_eqI) (auto simp: bit_simps dest: low)
  show "\<not> bit (push_bit 8 off + push_bit 3 b) 2"
    unfolding or by (simp add: bit_simps)
qed

text \<open>An address whose successor is the next one of its block.\<close>

definition wiz_ok_addr :: "u32 \<Rightarrow> bool" where
  "wiz_ok_addr a \<longleftrightarrow> \<not> bit a 2 \<and> \<not> bit (WIZCHIP_OFFSET_INC a 1) 2 \<and>
     wiz_block (WIZCHIP_OFFSET_INC a 1) = wiz_block a \<and> wiz_off (WIZCHIP_OFFSET_INC a 1) = wiz_off a + 1"

lemma ok_addr_split: "b < 32 \<Longrightarrow> wiz_ok_addr (push_bit 8 off + push_bit 3 b)"
proof -
  assume b: "b < 32"
  have i: "WIZCHIP_OFFSET_INC (push_bit 8 off + push_bit 3 b) 1 = push_bit 8 (off + 1) + push_bit 3 b"
    by (simp add: WIZCHIP_OFFSET_INC_def push_bit_add)
  have "(ucast (off + 1) :: u16) = ucast off + 1"
  proof transfer
    fix x :: int
    have d: "(2 ^ 16 :: int) dvd 2 ^ 32"
      by simp
    have "(x mod 2 ^ 32 + 1) mod 2 ^ 16 = (x + 1) mod 2 ^ 16"
      by (metis d mod_add_left_eq mod_mod_cancel)
    moreover have "(x + 1) mod 2 ^ 32 mod 2 ^ 16 = (x + 1) mod 2 ^ 16"
      by (rule mod_mod_cancel [OF d])
    ultimately show "take_bit LENGTH(16) (take_bit LENGTH(32) (x + 1)) = take_bit LENGTH(16) (take_bit LENGTH(32) x + 1)"
      by (simp add: take_bit_eq_mod)
  qed
  then show ?thesis
    unfolding wiz_ok_addr_def i using addr_split [OF b] by simp
qed

lemma block_number: "n < 8 \<Longrightarrow> k < 4 \<Longrightarrow> (of_nat (k + 4 * n) :: u32) < 32"
  by (simp only: word_less_nat_alt) (simp add: unat_of_nat32 del: of_nat_add of_nat_mult)

lemma block_ucast: "n < 8 \<Longrightarrow> k < 4 \<Longrightarrow> ucast (of_nat (k + 4 * n) :: u32) = (of_nat (k + 4 * n) :: u8)"
  by (simp only: word_eq_iff_unsigned unsigned_ucast_eq unsigned_of_nat) (simp add: take_bit_eq_mod)

lemma creg_addr [simp]:
  "wiz_ok_addr (wiz_creg off)" "wiz_block (wiz_creg off) = 0" "wiz_off (wiz_creg off) = ucast off" "\<not> bit (wiz_creg off) 2"
  using ok_addr_split [of 0 off] addr_split [of 0 off] by (simp_all add: wiz_creg_def)

lemma sreg_addr [simp]:
  assumes "n < 8"
  shows "wiz_ok_addr (wiz_sreg off n)" "wiz_block (wiz_sreg off n) = of_nat (1 + 4 * n)" "wiz_off (wiz_sreg off n) = ucast off"
    "\<not> bit (wiz_sreg off n) 2"
  using ok_addr_split [OF block_number [OF assms, of 1], of off] addr_split [OF block_number [OF assms, of 1], of off] assms
    block_ucast [OF assms, of 1]
  unfolding wiz_sreg_def by (simp_all del: of_nat_add of_nat_mult)

text \<open>Registers of 16 bits.\<close>

definition wiz_word :: "u8 \<Rightarrow> u16 \<Rightarrow> wiz_mem \<Rightarrow> u16" where
  "wiz_word blk a m = be16 (m blk a) (m blk (a + 1))"

lemma be16_plus: "push_bit 8 (ucast h) + ucast l = be16 h l"
  unfolding be16_def by (rule disjunctive_add) (auto simp: bit_simps dest: bit_imp_le_length)

text \<open>An address in a block of registers.\<close>

definition wiz_reg_addr :: "u32 \<Rightarrow> bool" where
  "wiz_reg_addr a \<longleftrightarrow> wiz_ok_addr a \<and> wiz_block a AND 3 \<noteq> 2 \<and> wiz_block a AND 3 \<noteq> 3"

lemma wiz_get16_ok:
  assumes chip: "wiz_chip bus frm mem" and a: "wiz_reg_addr a"
  obtains x' where "run_state (wiz_get16 bus a) (d, x) = ((RET_SUCCESS, Some (wiz_word (wiz_block a) (wiz_off a) (mem x))), d, x')"
    "run_state (wiz_get16_checked bus a) (d, x) = ((RET_SUCCESS, Some (wiz_word (wiz_block a) (wiz_off a) (mem x))), d, x')"
    "mem x' = mem x"
proof -
  have b: "\<not> bit a 2" "\<not> bit (WIZCHIP_OFFSET_INC a 1) 2" and i: "wiz_block (WIZCHIP_OFFSET_INC a 1) = wiz_block a"
      "wiz_off (WIZCHIP_OFFSET_INC a 1) = wiz_off a + 1" and r: "wiz_block a AND 3 \<noteq> 2" "wiz_block a AND 3 \<noteq> 3"
    using a by (simp_all add: wiz_ok_addr_def wiz_reg_addr_def)
  obtain x1 where 1: "run_state (wiz_read bus a) (d, x) = ((RET_SUCCESS, [mem x (wiz_block a) (wiz_off a)]), d, x1)" "mem x1 = mem x"
    by (rule wiz_read_ok [OF chip b(1), of d x, unfolded wiz_cell_reg [OF r]])
  obtain x2 where 2: "run_state (wiz_read bus (WIZCHIP_OFFSET_INC a 1)) (d, x1) =
      ((RET_SUCCESS, [mem x1 (wiz_block a) (wiz_off a + 1)]), d, x2)" "mem x2 = mem x1"
    by (rule wiz_read_ok [OF chip b(2), of d x1, unfolded i wiz_cell_reg [OF r]])
  show thesis
    by (rule that [of x2])
      (use 1 2 in \<open>simp_all add: wiz_get16_def wiz_get16_checked_def stored_def wiz_word_def be16_plus Let_def\<close>)
qed

lemma wiz_set16_ok:
  assumes chip: "wiz_chip bus frm mem" and a: "wiz_reg_addr a"
    and w: "\<And>b. \<not> wiz_wide (wiz_block a) (wiz_off a) b" "\<And>b. \<not> wiz_wide (wiz_block a) (wiz_off a + 1) b"
    and nv: "\<not> wiz_volatile (wiz_block a) (wiz_off a)"
  obtains x' where "run_state (wiz_set16 bus a v) (d, x) = (RET_SUCCESS, d, x')"
    "run_state (wiz_set16_code bus a v) (d, x) = (RET_SUCCESS, d, x')"
    "wiz_same (wiz_store (wiz_block a) (wiz_off a) [hi8 v, lo8 v] (mem x)) (mem x')"
proof -
  have b: "\<not> bit a 2" "\<not> bit (WIZCHIP_OFFSET_INC a 1) 2" and i: "wiz_block (WIZCHIP_OFFSET_INC a 1) = wiz_block a"
      "wiz_off (WIZCHIP_OFFSET_INC a 1) = wiz_off a + 1" and r: "wiz_block a AND 3 \<noteq> 2" "wiz_block a AND 3 \<noteq> 3"
    using a by (simp_all add: wiz_ok_addr_def wiz_reg_addr_def)
  obtain x1 where 1: "run_state (wiz_write bus a (hi8 v)) (d, x) = (RET_SUCCESS, d, x1)"
      "wiz_same (wiz_store (wiz_block a) (wiz_off a) [hi8 v] (mem x)) (mem x1)"
    by (rule wiz_write_ok [OF chip b(1) w(1)])
  obtain x2 where 2: "run_state (wiz_write bus (WIZCHIP_OFFSET_INC a 1) (lo8 v)) (d, x1) = (RET_SUCCESS, d, x2)"
      "wiz_same (wiz_store (wiz_block a) (wiz_off a + 1) [lo8 v] (mem x1)) (mem x2)"
    by (rule wiz_write_ok [OF chip b(2), of _ d x1, unfolded i, OF w(2)])
  have "wiz_same (wiz_store (wiz_block a) (wiz_off a) [hi8 v, lo8 v] (mem x)) (mem x2)"
    unfolding wiz_same_def
  proof (intro allI impI)
    fix blk c
    assume v: "\<not> wiz_volatile blk c"
    then show "mem x2 blk c = wiz_store (wiz_block a) (wiz_off a) [hi8 v, lo8 v] (mem x) blk c"
      using wiz_sameD [OF 2(2) v] wiz_sameD [OF 1(2) v] by (auto simp: r)
  qed
  then show thesis
    by (intro that [of x2]) (use 1 2 in \<open>simp_all add: wiz_set16_def wiz_set16_code_def\<close>)
qed

lemma wiz_word_store [simp]:
  "blk AND 3 \<noteq> 2 \<Longrightarrow> blk AND 3 \<noteq> 3 \<Longrightarrow> wiz_word blk a (wiz_store blk a [hi8 v, lo8 v] m) = v"
  by (simp add: wiz_word_def)

lemma wiz_word_same:
  "wiz_same m m' \<Longrightarrow> \<not> wiz_volatile blk a \<Longrightarrow> \<not> wiz_volatile blk (a + 1) \<Longrightarrow> wiz_word blk a m' = wiz_word blk a m"
  by (simp add: wiz_word_def wiz_sameD)

lemma wiz_store_other:
  "blk' \<noteq> blk \<Longrightarrow> wiz_store blk a bs m blk' = m blk'"
  "(\<forall>i < length bs. a' \<noteq> wiz_cell m blk (a + of_nat i)) \<Longrightarrow> wiz_store blk a bs m blk a' = m blk a'"
proof -
  show "blk' \<noteq> blk \<Longrightarrow> wiz_store blk a bs m blk' = m blk'"
    by (induction bs arbitrary: a m) simp_all
  show "(\<forall>i < length bs. a' \<noteq> wiz_cell m blk (a + of_nat i)) \<Longrightarrow> wiz_store blk a bs m blk a' = m blk a'"
  proof (induction bs arbitrary: a m)
    case (Cons b bs)
    have "a' \<noteq> wiz_cell m blk a" "\<forall>i < length bs. a' \<noteq> wiz_cell m blk (a + 1 + of_nat i)"
      using Cons.prems by (force, metis Suc_less_eq add.assoc length_Cons of_nat_Suc)
    then have "wiz_store blk (a + 1) bs (m(blk := (m blk)(wiz_cell m blk a := b))) blk a' =
        (m(blk := (m blk)(wiz_cell m blk a := b))) blk a'"
      by (intro Cons.IH) (auto simp only: wiz_cell_upd)
    then show ?case
      using \<open>a' \<noteq> wiz_cell m blk a\<close> by simp
  qed simp
qed

lemma wiz_bytes_store [simp]: "wiz_bytes (wiz_store blk a bs m) blk = wiz_bytes m blk"
  by (simp add: wiz_bytes_def wiz_store_other(1))

text \<open>Addresses that are less than a size apart have different cells, when the sizes divide the 2 ^ 16 addresses.\<close>

lemma wiz_cell_distinct:
  assumes "wiz_bytes m blk dvd 2 ^ 16" and "0 < k" and "k < wiz_bytes m blk"
  shows "wiz_cell m blk a \<noteq> wiz_cell m blk (a + of_nat k)"
proof
  let ?s = "wiz_bytes m blk"
  have s: "0 < ?s" "?s \<le> 2 ^ 16"
    using assms(1) by (auto intro: dvd_imp_le Nat.gr0I)
  then have lt: "n mod ?s < 2 ^ 16" for n
    by (meson less_le_trans mod_less_divisor)
  have "unat (of_nat (n mod ?s) :: u16) = n mod ?s" for n
    using lt [of n] by (simp add: unsigned_of_nat take_bit_nat_eq_self)
  moreover assume "wiz_cell m blk a = wiz_cell m blk (a + of_nat k)"
  ultimately have "unat a mod ?s = unat (a + of_nat k) mod ?s"
    unfolding wiz_cell_def by metis
  also have "unat (a + of_nat k) = (unat a + k) mod 2 ^ 16"
    by (simp add: unat_word_ariths unsigned_of_nat take_bit_eq_mod mod_simps)
  also have "(unat a + k) mod 2 ^ 16 mod ?s = (unat a + k) mod ?s"
    by (rule mod_mod_cancel [OF assms(1)])
  finally have "?s dvd k"
    by (metis add_diff_cancel_left' mod_eq_dvd_iff_nat le_add1)
  then show False
    using assms(2,3) by (auto dest: dvd_imp_le)
qed

lemma wiz_load_store:
  assumes "wiz_bytes m blk dvd 2 ^ 16" and "length bs \<le> wiz_bytes m blk"
  shows "wiz_load blk a (length bs) (wiz_store blk a bs m) = bs"
  using assms
proof (induction bs arbitrary: a m)
  case (Cons b bs)
  have "wiz_cell m blk a \<noteq> wiz_cell m blk (a + 1 + of_nat i)" if "i < length bs" for i
    using wiz_cell_distinct [OF Cons.prems(1), of "Suc i" a] that Cons.prems(2) by (simp add: add.assoc)
  then have "wiz_store blk (a + 1) bs (m(blk := (m blk)(wiz_cell m blk a := b))) blk (wiz_cell m blk a) = b"
    by (subst wiz_store_other(2)) simp_all
  moreover have "wiz_load blk a (length (b # bs)) m' = m' blk (wiz_cell m' blk a) # wiz_load blk (a + 1) (length bs) m'" for m'
    by (simp add: wiz_load_def upt_rec [of 0] map_Suc_upt [symmetric] add.assoc del: upt_Suc)
  moreover have "wiz_cell (wiz_store blk (a + 1) bs (m(blk := (m blk)(wiz_cell m blk a := b)))) blk a = wiz_cell m blk a"
    unfolding wiz_cell_def by simp
  moreover have "wiz_load blk (a + 1) (length bs) (wiz_store blk (a + 1) bs (m(blk := (m blk)(wiz_cell m blk a := b)))) = bs"
    by (rule Cons.IH) (use Cons.prems in \<open>simp_all only: wiz_bytes_upd length_Cons Suc_le_eq less_imp_le\<close>)
  ultimately show ?case
    by simp
qed (simp add: wiz_load_def)

lemma wiz_low_byte: "(ucast (ucast (v :: u16) :: u8) :: u16) = v AND 0xFF"
proof -
  have m: "(0xFF :: u16) = mask 8"
    by (simp add: mask_eq_exp_minus_1)
  show ?thesis
    unfolding m by (rule bit_word_eqI) (auto simp: bit_simps)
qed

lemma sreg_and_3: "n < 8 \<Longrightarrow> (of_nat (1 + 4 * n) :: u8) AND 3 = 1" "n < 8 \<Longrightarrow> (of_nat (1 + 4 * n) :: u8) \<noteq> 0"
proof -
  assume "n < 8"
  then consider "n = 0" | "n = 1" | "n = 2" | "n = 3" | "n = 4" | "n = 5" | "n = 6" | "n = 7"
    by linarith
  then show "(of_nat (1 + 4 * n) :: u8) AND 3 = 1" "(of_nat (1 + 4 * n) :: u8) \<noteq> 0"
    by (cases; simp)+
qed

lemma sreg_reg [simp]: "n < 8 \<Longrightarrow> wiz_reg_addr (wiz_sreg off n)"
  unfolding wiz_reg_addr_def by (simp only: sreg_addr(1,2) sreg_and_3(1)) simp

text \<open>
  On a controller that keeps what is written: a destination port that is set is read back, the hardware
  address that is set is read back, and the source port that is read back is the one that was set
  without its high byte.
\<close>
theorem wiz_set_get:
  assumes chip: "wiz_chip bus frm mem" and sn: "unat sn < 8" and mac: "length mac = 6"
  shows "\<exists>x1 x2 x3. run_state (setSn_DPORT bus sn v) (d, x) = (RET_SUCCESS, d, x1) \<and>
      fst (run_state (getSn_DPORT bus sn) (d, x1)) = (RET_SUCCESS, Some v) \<and>
      run_state (setSHAR bus mac) (d, x1) = (RET_SUCCESS, d, x2) \<and>
      fst (run_state (getSHAR bus) (d, x2)) = (RET_SUCCESS, mac) \<and>
      fst (run_state (getSn_DPORT bus sn) (d, x2)) = (RET_SUCCESS, Some v) \<and>
      run_state (setSn_PORT bus sn (ucast v)) (d, x2) = (RET_SUCCESS, d, x3) \<and>
      fst (run_state (getSn_PORT bus sn) (d, x3)) = (RET_SUCCESS, Some (v AND 0xFF))"
proof -
  let ?b = "of_nat (1 + 4 * unat sn) :: u8"
  have b: "?b AND 3 = 1" "?b \<noteq> 0"
    using sreg_and_3 [OF sn] .
  have dp: "wiz_reg_addr (Sn_DPORT (unat sn))" "wiz_block (Sn_DPORT (unat sn)) = ?b" "wiz_off (Sn_DPORT (unat sn)) = 0x10"
    and sp: "wiz_reg_addr (Sn_PORT (unat sn))" "wiz_block (Sn_PORT (unat sn)) = ?b" "wiz_off (Sn_PORT (unat sn)) = 4"
    using sn by (simp_all add: Sn_DPORT_def Sn_PORT_def del: of_nat_add of_nat_mult of_nat_Suc)
  have nv: "\<not> wiz_volatile ?b 0x10" "\<not> wiz_volatile ?b (0x10 + 1)" "\<not> wiz_volatile ?b 4" "\<not> wiz_volatile ?b (4 + 1)"
    "\<not> wiz_wide ?b 0x10 v8" "\<not> wiz_wide ?b (0x10 + 1) v8" "\<not> wiz_wide ?b 4 v8" "\<not> wiz_wide ?b (4 + 1) v8" for v8
    by (simp_all add: wiz_volatile_def wiz_wide_def b del: of_nat_add of_nat_mult of_nat_Suc)
  have six: "i < 6 \<Longrightarrow> i = 0 \<or> i = 1 \<or> i = 2 \<or> i = 3 \<or> i = 4 \<or> i = 5" for i :: nat
    by linarith
  have shar: "\<not> wiz_wide 0 (9 + of_nat i) v8" "\<not> wiz_volatile 0 (9 + of_nat i)" if "i < 6" for i v8
    using six [OF that] by (auto simp: wiz_wide_def wiz_volatile_def)
  obtain x1 where 1: "run_state (setSn_DPORT bus sn v) (d, x) = (RET_SUCCESS, d, x1)"
      "wiz_same (wiz_store ?b 0x10 [hi8 v, lo8 v] (mem x)) (mem x1)"
    unfolding setSn_DPORT_def by (rule wiz_set16_ok [OF chip dp(1), unfolded dp(2,3), OF nv(5,6,1)])
  obtain x2 where 2: "run_state (setSHAR bus mac) (d, x1) = (RET_SUCCESS, d, x2)" "wiz_same (wiz_store 0 9 mac (mem x1)) (mem x2)"
    using wiz_write_buf_ok [OF chip, of C_SHAR mac d x1] mac shar by (auto simp: setSHAR_def C_SHAR_def)
  obtain x3 where 3: "run_state (setSn_PORT bus sn (ucast v)) (d, x2) = (RET_SUCCESS, d, x3)"
      "wiz_same (wiz_store ?b 4 [hi8 (ucast (ucast v :: u8)), lo8 (ucast (ucast v :: u8))] (mem x2)) (mem x3)"
    unfolding setSn_PORT_def by (rule wiz_set16_ok [OF chip sp(1), unfolded sp(2,3), OF nv(7,8,3)])
  have g: "fst (run_state (getSn_DPORT bus sn) (d, y)) = (RET_SUCCESS, Some (wiz_word ?b 0x10 (mem y)))" for y
    unfolding getSn_DPORT_def using wiz_get16_ok [OF chip dp(1), of d y] dp(2,3) by (metis fst_conv)
  have p: "fst (run_state (getSn_PORT bus sn) (d, y)) = (RET_SUCCESS, Some (wiz_word ?b 4 (mem y)))" for y
    unfolding getSn_PORT_def using wiz_get16_ok [OF chip sp(1), of d y] sp(2,3) by (metis fst_conv)
  obtain y where "run_state (getSHAR bus) (d, x2) = ((RET_SUCCESS, wiz_load 0 9 6 (mem x2)), d, y)"
    using wiz_read_buf_ok [OF chip, of C_SHAR 6 d x2] by (auto simp: getSHAR_def C_SHAR_def)
  moreover have "wiz_load 0 9 6 (mem x2) = wiz_load 0 9 6 (wiz_store 0 9 mac (mem x1))"
    unfolding wiz_load_def by (rule map_cong) (use wiz_sameD [OF 2(2)] shar(2) in auto)
  then have "wiz_load 0 9 6 (mem x2) = mac"
    using wiz_load_store [of "mem x1" 0 mac 9] mac by (simp add: wiz_bytes_def)
  moreover have "wiz_word ?b 0x10 (mem x1) = v"
    unfolding wiz_word_same [OF 1(2) nv(1,2)] by (rule wiz_word_store) (simp_all only: b(1), simp_all)
  moreover have "wiz_word ?b 0x10 (mem x2) = wiz_word ?b 0x10 (mem x1)"
    unfolding wiz_word_same [OF 2(2) nv(1,2)] unfolding wiz_word_def wiz_store_other(1) [OF b(2)] by (rule refl)
  moreover have "wiz_word ?b 4 (mem x3) = v AND 0xFF"
    unfolding wiz_word_same [OF 3(2) nv(3,4)] wiz_low_byte [symmetric]
    by (rule wiz_word_store) (simp_all only: b(1), simp_all)
  ultimately show ?thesis
    using 1(1) 2(1) 3(1) g p by (metis fst_conv)
qed

theorem wiz_set_get_witness:
  "\<exists>x1 x2 x3. run_state (setSn_DPORT wiz_bus 1 0x1234) ((), None, \<lambda>_ _. 0) = (RET_SUCCESS, (), x1) \<and>
      fst (run_state (getSn_DPORT wiz_bus 1) ((), x1)) = (RET_SUCCESS, Some 0x1234) \<and>
      run_state (setSHAR wiz_bus [2, 0, 0, 0, 0, 8]) ((), x1) = (RET_SUCCESS, (), x2) \<and>
      fst (run_state (getSHAR wiz_bus) ((), x2)) = (RET_SUCCESS, [2, 0, 0, 0, 0, 8]) \<and>
      fst (run_state (getSn_DPORT wiz_bus 1) ((), x2)) = (RET_SUCCESS, Some 0x1234) \<and>
      run_state (setSn_PORT wiz_bus 1 (ucast (0x1234 :: u16))) ((), x2) = (RET_SUCCESS, (), x3) \<and>
      fst (run_state (getSn_PORT wiz_bus 1) ((), x3)) = (RET_SUCCESS, Some (0x1234 AND 0xFF))"
  by (rule wiz_set_get [OF wiz_bus_chip]) simp_all

end
