(* ===== verification/WiznetModel.thy ===== *)
theory WiznetModel
  imports WiznetRegs IPv4Model
begin

unbundle bit_operations_syntax

text \<open>
  The W5500 as a device and network layer (src/device/peripherals/wiznet/wiznet.h).  Pin 1 is the
  reset pin.  Static variables of the functions are members.  The upper layer is a parameter \<open>up\<close>,
  its \<open>receive\<close> with the world that follows it.  Loops that wait for the chip are partial functions;
  a null pointer that is followed, or a write behind a buffer, is \<open>None\<close>, too.
\<close>

section \<open>State and constants\<close>

record 'l wiznet =
  wz_upper :: "'l option"
  wz_packet :: packet
  wz_rsr :: u16
  wz_len :: u16
  wz_tmp :: u8
  wz_ip :: "u8 list option"
  wz_info :: netinfo
  wz_remaining :: u16
  wz_io_mode :: u16

definition DEFAULT_SOCKET_NUM :: u8 where
  "DEFAULT_SOCKET_NUM = 0"

definition Sn_MR_MACRAW :: u8 where "Sn_MR_MACRAW = 0x04"
definition Sn_CR_OPEN :: u8 where "Sn_CR_OPEN = 0x01"
definition Sn_CR_SEND :: u8 where "Sn_CR_SEND = 0x20"
definition Sn_CR_RECV :: u8 where "Sn_CR_RECV = 0x40"
definition Sn_IR_SENDOK :: u8 where "Sn_IR_SENDOK = 0x10"
definition Sn_IR_TIMEOUT :: u8 where "Sn_IR_TIMEOUT = 0x08"
definition SOCK_CLOSED :: u8 where "SOCK_CLOSED = 0x00"
definition MR_RST :: u8 where "MR_RST = 0x80"

section \<open>Buffers of a socket\<close>

definition wiz_buf_addr :: "u16 \<Rightarrow> u32 \<Rightarrow> u32" where
  "wiz_buf_addr p blk = push_bit 8 (ucast p) + push_bit 3 blk"

text \<open>\<open>data\<close> is the memory from the pointer on, of which \<open>len\<close> bytes are written.\<close>

definition wiz_send_data :: "'x bus \<Rightarrow> u8 \<Rightarrow> u8 list \<Rightarrow> u16 \<Rightarrow> ('d, 'x) drv" where
  "wiz_send_data bus sn data len =
     (if len = 0 then State_Monad.return RET_ERROR
      else do {
        (ret, p) \<leftarrow> getSn_TX_WR bus sn;
        if call_waits ret then State_Monad.return ret
        else if ret \<noteq> RET_SUCCESS then State_Monad.return RET_ERROR
        else
          check_call (wiz_write_buf bus (wiz_buf_addr (the p) (WIZCHIP_TXBUF_BLOCK (unat sn))) (take (unat len) data))
            (setSn_TX_WR bus (ucast sn) (the p + len))})"

text \<open>For a length of 0 the code returns a variable that was never set; its value is the parameter \<open>unset\<close>.\<close>

definition wiz_recv_data :: "ret_type \<Rightarrow> 'x bus \<Rightarrow> u8 \<Rightarrow> u16 \<Rightarrow> ('d \<times> 'x, ret_type \<times> u8 list) state" where
  "wiz_recv_data unset bus sn len =
     (if len = 0 then State_Monad.return (unset, [])
      else do {
        (ret, p) \<leftarrow> getSn_RX_RD bus sn;
        if call_waits ret then State_Monad.return (ret, [])
        else if ret \<noteq> RET_SUCCESS then State_Monad.return (RET_ERROR, [])
        else do {
          (ret, data) \<leftarrow> wiz_read_buf bus (wiz_buf_addr (the p) (WIZCHIP_RXBUF_BLOCK (unat sn))) (unat len);
          if call_waits ret then State_Monad.return (ret, data)
          else if ret \<noteq> RET_SUCCESS then State_Monad.return (RET_ERROR, data)
          else do {
            ret \<leftarrow> setSn_RX_RD bus sn (the p + len);
            State_Monad.return (if call_waits ret \<or> ret = RET_SUCCESS then ret else RET_ERROR, data)}}})"

definition wiz_recv_ignore :: "'x bus \<Rightarrow> u8 \<Rightarrow> u16 \<Rightarrow> ('d, 'x) drv" where
  "wiz_recv_ignore bus sn len = do {
     (ret, p) \<leftarrow> getSn_RX_RD bus sn;
     if call_waits ret then State_Monad.return ret
     else if ret \<noteq> RET_SUCCESS then State_Monad.return RET_ERROR
     else setSn_RX_RD bus sn (the p + len)}"

text \<open>
  The received size is read until two readings agree; a reading of zero goes on to the test with the value
  of the last call.  The result is the code, what is stored through the pointer, and the static value.
\<close>

definition wiz_pair :: "'x bus \<Rightarrow> u32 \<Rightarrow> 'x \<Rightarrow> (ret_type \<times> u8 list \<times> u8 list) \<times> 'x" where
  "wiz_pair bus addr x =
     (case run_state (wiz_read bus addr) ((), x) of
        ((ret, hi), _, x1) \<Rightarrow>
          if call_waits ret then ((ret, hi, []), x1)
          else if ret \<noteq> RET_SUCCESS then ((RET_ERROR, hi, []), x1)
          else
            (case run_state (wiz_read bus (WIZCHIP_OFFSET_INC addr 1)) ((), x1) of
               ((ret, lo), _, x2) \<Rightarrow> ((if call_waits ret \<or> ret = RET_SUCCESS then ret else RET_ERROR, hi, lo), x2)))"

partial_function (option) wiz_rsr_loop ::
  "'x bus \<Rightarrow> u8 \<Rightarrow> u16 \<Rightarrow> 'x \<Rightarrow> (ret_type \<times> u16 option \<times> u16 \<times> 'x) option" where
  "wiz_rsr_loop bus sn val x =
     (case wiz_pair bus (Sn_RX_RSR (unat sn)) x of
        ((ret, hi, lo), x1) \<Rightarrow>
          if ret \<noteq> RET_SUCCESS then Some (ret, None, val, x1)
          else
            (let val1 = be16 (hd hi) (hd lo)
             in if val1 = 0 then
                  (if val \<noteq> val1 then wiz_rsr_loop bus sn val x1 else Some (ret, Some val, val, x1))
                else
                  (case wiz_pair bus (Sn_RX_RSR (unat sn)) x1 of
                     ((ret, hi, lo), x2) \<Rightarrow>
                       if ret \<noteq> RET_SUCCESS
                       then Some (ret, None, case hi of [] \<Rightarrow> val | h # _ \<Rightarrow> (val AND 0xFF00) OR ucast h, x2)
                       else
                         (let v = be16 (hd hi) (hd lo)
                          in if v \<noteq> val1 then wiz_rsr_loop bus sn v x2 else Some (ret, Some v, v, x2)))))"

text \<open>The free size: the second reading keeps its high byte only, as a low byte.\<close>

partial_function (option) wiz_fsr_loop ::
  "'x bus \<Rightarrow> u8 \<Rightarrow> u16 \<Rightarrow> 'x \<Rightarrow> (ret_type \<times> u16 option \<times> 'x) option" where
  "wiz_fsr_loop bus sn val x =
     (case wiz_pair bus (Sn_TX_FSR (unat sn)) x of
        ((ret, hi, lo), x1) \<Rightarrow>
          if ret \<noteq> RET_SUCCESS then Some (ret, None, x1)
          else
            (let val1 = be16 (hd hi) (hd lo)
             in if val1 \<noteq> 0 then
                  (case wiz_pair bus (Sn_TX_FSR (unat sn)) x1 of
                     ((ret, hi, lo), x2) \<Rightarrow>
                       if ret \<noteq> RET_SUCCESS then Some (ret, None, x2)
                       else
                         (let v = ucast (hd hi)
                          in if v \<noteq> val1 then wiz_fsr_loop bus sn v x2 else Some (ret, Some v, x2)))
                else if val \<noteq> val1 then wiz_fsr_loop bus sn val x1
                else Some (ret, Some val, x1)))"

definition getSn_RX_RSR :: "'x bus \<Rightarrow> u8 \<Rightarrow> 'l wiznet \<times> 'x \<Rightarrow> ((ret_type \<times> u16 option) \<times> 'l wiznet \<times> 'x) option" where
  "getSn_RX_RSR bus sn dx =
     map_option (\<lambda>(ret, r, v, x). ((ret, r), (fst dx)\<lparr>wz_rsr := v\<rparr>, x)) (wiz_rsr_loop bus sn (wz_rsr (fst dx)) (snd dx))"

definition getSn_TX_FSR :: "'x bus \<Rightarrow> u8 \<Rightarrow> 'x \<Rightarrow> (ret_type \<times> u16 option \<times> 'x) option" where
  "getSn_TX_FSR bus sn x = wiz_fsr_loop bus sn 0 x"

section \<open>The device\<close>

definition wiz_hw_reset :: "'x bus \<Rightarrow> ('d, 'x) drv" where
  "wiz_hw_reset bus =
     call_then (bus_do bus (PinSet 1 0)) (\<lambda>_.
     drv_sleep bus 50 (
     call_then (bus_do bus (PinSet 1 1)) (\<lambda>_.
     drv_sleep bus 50 (State_Monad.return RET_SUCCESS))))"

text \<open>A getter whose value goes to the static byte, and is not checked.\<close>

definition wiz_into_tmp :: "('l wiznet \<times> 'x, ret_type \<times> u8 option) state \<Rightarrow> ('l wiznet, 'x) drv" where
  "wiz_into_tmp m = do {
     (ret, v) \<leftarrow> m;
     mod_dev (\<lambda>d. case v of None \<Rightarrow> d | Some b \<Rightarrow> d\<lparr>wz_tmp := b\<rparr>);
     State_Monad.return ret}"

definition wiz_init :: "'x bus \<Rightarrow> ('l wiznet, 'x) drv" where
  "wiz_init bus = do {
     d \<leftarrow> get_dev;
     if wz_upper d = None then State_Monad.return RET_ERROR
     else
       call_then (wiz_hw_reset bus) (\<lambda>_.
       call_then (wiz_into_tmp (getVERSIONR bus)) (\<lambda>_. do {
         d \<leftarrow> get_dev;
         if wz_tmp d \<noteq> 4 then State_Monad.return RET_ERROR
         else
           check_call (setMR bus MR_RST) (
           check_call (setSHAR bus [0, 0, 0, 0, 0, 0]) (
           check_call (setPHYCFGR bus 0xB8) (
           drv_sleep bus 30 (
           check_call (setPHYCFGR bus 0xD8) (
           check_call (setMR bus 0x40) (
           check_call (setSn_RXBUF_SIZE bus DEFAULT_SOCKET_NUM 16) (
           check_call (setSn_TXBUF_SIZE bus DEFAULT_SOCKET_NUM 16) (
           check_call (setSn_MR bus DEFAULT_SOCKET_NUM Sn_MR_MACRAW) (
           check_call (setSn_CR bus DEFAULT_SOCKET_NUM Sn_CR_OPEN) (
           call_then (wiz_into_tmp (getSn_CR bus DEFAULT_SOCKET_NUM)) (\<lambda>_.
           call_then (wiz_into_tmp (getPHYCFGR bus)) (\<lambda>_.
           check_call (setSn_IMR bus DEFAULT_SOCKET_NUM 0x01) (
           State_Monad.return RET_SUCCESS)))))))))))))}))}"

definition wiz_check_interrupts :: "'x bus \<Rightarrow> u8 \<Rightarrow> ('d \<times> 'x, ret_type \<times> u8 option) state" where
  "wiz_check_interrupts bus sn = getSn_IR bus sn"

definition wiz_set_upper :: "'l option \<Rightarrow> 'l wiznet \<Rightarrow> 'l wiznet" where
  "wiz_set_upper upper d = d\<lparr>wz_upper := upper\<rparr>"

type_synonym ('l, 'x) wiz_up = "'l \<Rightarrow> packet \<Rightarrow> netinfo \<Rightarrow> 'x \<Rightarrow> ret_type \<times> packet \<times> netinfo \<times> 'x"

text \<open>The last part of \<open>poll\<close>: the frame is in the packet's array and goes up.\<close>

definition wiz_pass_up :: "('l, 'x) wiz_up \<Rightarrow> u16 \<Rightarrow> 'l wiznet \<times> 'x \<Rightarrow> (ret_type \<times> 'l wiznet \<times> 'x) option" where
  "wiz_pass_up up n dx =
     (case dx of (d, x) \<Rightarrow>
        (let p = pk_seek_read True (snd (pk_skip_write (ucast n) (wz_packet d)))
         in case wz_upper d of
              None \<Rightarrow> None
            | Some u \<Rightarrow>
                (case up u p (wz_info d) x of
                   (ret, p', info, x') \<Rightarrow>
                     Some (if call_waits ret then (ret, d\<lparr>wz_packet := p', wz_info := info\<rparr>, x')
                           else (RET_SUCCESS, d\<lparr>wz_packet := pk_clear p', wz_info := info\<rparr>, x')))))"

definition wiz_take_frame :: "ret_type \<Rightarrow> 'x bus \<Rightarrow> ('l, 'x) wiz_up \<Rightarrow> u16 \<Rightarrow> 'l wiznet \<times> 'x \<Rightarrow> (ret_type \<times> 'l wiznet \<times> 'x) option" where
  "wiz_take_frame unset bus up data_len dx =
     (case run_state (wiz_recv_data unset bus DEFAULT_SOCKET_NUM data_len) dx of
        ((ret, data), d, x) \<Rightarrow>
          (case mem_write (pk_raw (wz_packet d)) data (pk_buff (wz_packet d)) of
             None \<Rightarrow> None
           | Some m \<Rightarrow>
               (let d1 = d\<lparr>wz_packet := (wz_packet d)\<lparr>pk_buff := m\<rparr>\<rparr>
                in if call_waits ret then Some (ret, d1, x)
                   else if ret \<noteq> RET_SUCCESS then Some (RET_ERROR, d1, x)
                   else
                     (case run_state (setSn_CR bus DEFAULT_SOCKET_NUM Sn_CR_RECV) (d1, x) of
                        (ret, d2, x2) \<Rightarrow>
                          if call_waits ret then Some (ret, d2, x2)
                          else if ret = RET_SUCCESS then wiz_pass_up up data_len (d2, x2)
                          else Some (RET_SUCCESS, d2, x2)))))"

definition wiz_poll :: "ret_type \<Rightarrow> 'x bus \<Rightarrow> ('l, 'x) wiz_up \<Rightarrow> 'l wiznet \<times> 'x \<Rightarrow> (ret_type \<times> 'l wiznet \<times> 'x) option" where
  "wiz_poll unset bus up dx =
     (case getSn_RX_RSR bus DEFAULT_SOCKET_NUM dx of
        None \<Rightarrow> None
      | Some ((ret, n), d, x) \<Rightarrow>
          (let d1 = (case n of None \<Rightarrow> d | Some v \<Rightarrow> d\<lparr>wz_len := v\<rparr>)
           in if call_waits ret then Some (ret, d1, x)
              else if wz_len d1 = 0 then Some (RET_SUCCESS, d1, x)
              else
                (case run_state (wiz_recv_data unset bus DEFAULT_SOCKET_NUM 2) (d1, x) of
                   ((ret, head), d2, x2) \<Rightarrow>
                     if call_waits ret then Some (ret, d2, x2)
                     else if ret \<noteq> RET_SUCCESS then Some (RET_ERROR, d2, x2)
                     else
                       (case run_state (setSn_CR bus DEFAULT_SOCKET_NUM Sn_CR_RECV) (d2, x2) of
                          (ret, d3, x3) \<Rightarrow>
                            if call_waits ret then Some (ret, d3, x3)
                            else if ret \<noteq> RET_SUCCESS then Some (RET_ERROR, d3, x3)
                            else
                              (let data_len = be16 (head ! 0) (head ! 1) - 2
                               in if ucast data_len > pk_capacity (wz_packet d3)
                                  then Some (run_state
                                         (check_call (wiz_recv_ignore bus DEFAULT_SOCKET_NUM data_len)
                                           (call_then (setSn_CR bus DEFAULT_SOCKET_NUM Sn_CR_RECV)
                                             (\<lambda>_. State_Monad.return RET_ERROR))) (d3, x3))
                                  else wiz_take_frame unset bus up data_len (d3, x3))))))"

section \<open>Waiting for a datagram\<close>

text \<open>
  \<open>recv_data\<close> waits until something was received, takes the head, waits for the end of the command, and
  copies to where the packet is read.  The packet is passed by value but shares its array with the caller's.
\<close>

partial_function (option) wiz_wait_frame :: "'x bus \<Rightarrow> 'l wiznet \<times> 'x \<Rightarrow> (ret_type \<times> 'l wiznet \<times> 'x) option" where
  "wiz_wait_frame bus dx =
     (case getSn_RX_RSR bus DEFAULT_SOCKET_NUM dx of
        None \<Rightarrow> None
      | Some ((ret, n), dx1) \<Rightarrow>
          if ret \<noteq> RET_SUCCESS then Some (ret, dx1)
          else
            (case run_state (getSn_SR bus DEFAULT_SOCKET_NUM) dx1 of
               ((ret, t), dx2) \<Rightarrow>
                 if ret \<noteq> RET_SUCCESS then Some (ret, dx2)
                 else if the t = SOCK_CLOSED then Some (RET_ERROR, dx2)
                 else if wz_io_mode (fst dx2) AND 1 \<noteq> 0 \<and> n = Some 0 then Some (RET_ERROR, dx2)
                 else if n \<noteq> Some 0 then Some (RET_SUCCESS, dx2)
                 else wiz_wait_frame bus (snd (run_state (bus_do bus YieldTask) dx2))))"

partial_function (option) wiz_wait_command :: "'x bus \<Rightarrow> u8 \<Rightarrow> 'l wiznet \<times> 'x \<Rightarrow> (ret_type \<times> 'l wiznet \<times> 'x) option" where
  "wiz_wait_command bus cr dx =
     (if cr = 0 then Some (RET_SUCCESS, dx)
      else
        (case run_state (getSn_CR bus DEFAULT_SOCKET_NUM) (snd (run_state (bus_do bus YieldTask) dx)) of
           ((ret, v), dx1) \<Rightarrow>
             if call_waits ret then Some (ret, dx1)
             else wiz_wait_command bus (case v of None \<Rightarrow> cr | Some c \<Rightarrow> c) dx1))"

definition wiz_recv_head :: "ret_type \<Rightarrow> 'x bus \<Rightarrow> 'l wiznet \<times> 'x \<Rightarrow> (ret_type \<times> u8 list \<times> 'l wiznet \<times> 'x) option" where
  "wiz_recv_head unset bus dx =
     (case run_state (wiz_recv_data unset bus DEFAULT_SOCKET_NUM 2) dx of
        ((ret, head), dx1) \<Rightarrow>
          if ret \<noteq> RET_SUCCESS then Some (ret, head, dx1)
          else
            (case run_state (setSn_CR bus DEFAULT_SOCKET_NUM Sn_CR_RECV) dx1 of
               (ret, dx2) \<Rightarrow>
                 if ret \<noteq> RET_SUCCESS then Some (ret, head, dx2)
                 else
                   (case run_state (getSn_CR bus DEFAULT_SOCKET_NUM) dx2 of
                      ((ret, v), dx3) \<Rightarrow>
                        if ret \<noteq> RET_SUCCESS then Some (ret, head, dx3)
                        else map_option (\<lambda>(ret, dx4). (ret, head, dx4)) (wiz_wait_command bus (the v) dx3))))"

definition wiz_copy_payload :: "ret_type \<Rightarrow> 'x bus \<Rightarrow> packet \<Rightarrow> 'l wiznet \<times> 'x \<Rightarrow> (ret_type \<times> packet \<times> 'l wiznet \<times> 'x) option" where
  "wiz_copy_payload unset bus p dx =
     (let rest = wz_remaining (fst dx);
          len = (if pk_available p < ucast rest then ucast (pk_available p) else rest)
      in case run_state (wiz_recv_data unset bus DEFAULT_SOCKET_NUM len) dx of
           ((ret, data), dx1) \<Rightarrow>
             if data = [] then Some (ret, p, dx1)
             else
               (case pk_read_ptr 1 p of
                  None \<Rightarrow> None
                | Some off \<Rightarrow> map_option (\<lambda>m. (ret, p\<lparr>pk_buff := m\<rparr>, dx1)) (mem_write off data (pk_buff p))))"

definition wiz_recv_packet :: "ret_type \<Rightarrow> 'x bus \<Rightarrow> packet \<Rightarrow> 'l wiznet \<times> 'x \<Rightarrow> (ret_type \<times> packet \<times> 'l wiznet \<times> 'x) option" where
  "wiz_recv_packet unset bus p dx =
     (case run_state (getSn_MR bus DEFAULT_SOCKET_NUM) dx of
        ((ret, mr), dx1) \<Rightarrow>
          if ret \<noteq> RET_SUCCESS then Some (ret, p, dx1)
          else
            (case (if wz_remaining (fst dx1) = 0 then wiz_wait_frame bus dx1 else Some (ret, dx1)) of
               None \<Rightarrow> None
             | Some (ret, dx2) \<Rightarrow>
                 if ret \<noteq> RET_SUCCESS then Some (ret, p, dx2)
                 else
                   (case wiz_recv_head unset bus dx2 of
                      None \<Rightarrow> None
                    | Some (ret, head, d3, x3) \<Rightarrow>
                        if ret \<noteq> RET_SUCCESS then Some (ret, p, d3, x3)
                        else
                          (let rest = be16 (head ! 0) (head ! 1) - 2; d4 = d3\<lparr>wz_remaining := rest\<rparr>
                           in if rest > 1514 then Some (RET_ERROR, p, d4, x3) else wiz_copy_payload unset bus p (d4, x3)))))"

section \<open>The network layer\<close>

definition wiz_receive :: ret_type where
  "wiz_receive = RET_ERROR"

definition wiz_transmit :: ret_type where
  "wiz_transmit = RET_SUCCESS"

text \<open>The octets of the destination as the code computes them, once and for all calls.\<close>

definition wiz_ip_of :: "u32 \<Rightarrow> u8 list" where
  "wiz_ip_of a =
     [ucast (drop_bit 24 (a AND 0x00FF0000)), ucast (drop_bit 16 (a AND 0x0000FF00)), ucast (drop_bit 8 (a AND 0x000000FF)),
      ucast (a AND 0x000000FF)]"

partial_function (option) wiz_wait_sent :: "'x bus \<Rightarrow> 'l wiznet \<times> 'x \<Rightarrow> (ret_type \<times> 'l wiznet \<times> 'x) option" where
  "wiz_wait_sent bus dx =
     (case run_state (getSn_IR bus DEFAULT_SOCKET_NUM) dx of
        ((ret, v), dx1) \<Rightarrow>
          if call_waits ret then Some (ret, dx1)
          else if ret \<noteq> RET_SUCCESS then Some (RET_ERROR, dx1)
          else if the v AND Sn_IR_SENDOK \<noteq> 0 then Some (run_state (setSn_IR bus DEFAULT_SOCKET_NUM Sn_IR_SENDOK) dx1)
          else if the v AND Sn_IR_TIMEOUT \<noteq> 0
          then Some (run_state (call_then (setSn_IR bus DEFAULT_SOCKET_NUM Sn_IR_TIMEOUT) (\<lambda>_. State_Monad.return RET_ERROR)) dx1)
          else wiz_wait_sent bus (snd (run_state (bus_do bus YieldTask) dx1)))"

definition wiz_transmit2 :: "'x bus \<Rightarrow> packet \<Rightarrow> netinfo \<Rightarrow> 'l wiznet \<times> 'x \<Rightarrow> (ret_type \<times> 'l wiznet \<times> 'x) option" where
  "wiz_transmit2 bus p info dx =
     (case dx of (d, x) \<Rightarrow>
        (let len = (ucast (pk_header_size p + pk_payload_size p) :: u16);
             ip = (case wz_ip d of None \<Rightarrow> wiz_ip_of (na_ipv4 (ni_dst info)) | Some a \<Rightarrow> a)
         in if pk_raw p + unat len > length (pk_buff p) then None
            else case run_state
                (check_call (setSn_DIPR bus DEFAULT_SOCKET_NUM ip) (
                 check_call (setSn_DPORT bus DEFAULT_SOCKET_NUM (na_port (ni_dst info))) (
                 check_call (wiz_send_data bus DEFAULT_SOCKET_NUM (drop (pk_raw p) (pk_buff p)) len) (
                 check_call (setSn_CR bus DEFAULT_SOCKET_NUM Sn_CR_SEND) (State_Monad.return RET_SUCCESS)))))
                (d\<lparr>wz_ip := Some ip\<rparr>, x) of
              (ret, dx1) \<Rightarrow> if ret \<noteq> RET_SUCCESS then Some (ret, dx1) else wiz_wait_sent bus dx1))"

section \<open>Sending and receiving through the buffers\<close>

text \<open>The blocks of a socket: registers, and the two buffers.\<close>

definition wiz_S :: "u8 \<Rightarrow> u8" where "wiz_S sn = of_nat (1 + 4 * unat sn)"
definition wiz_T :: "u8 \<Rightarrow> u8" where "wiz_T sn = of_nat (2 + 4 * unat sn)"
definition wiz_R :: "u8 \<Rightarrow> u8" where "wiz_R sn = of_nat (3 + 4 * unat sn)"

lemma blocks_distinct:
  assumes "unat sn < 8"
  shows "wiz_S sn \<noteq> wiz_T sn" "wiz_S sn \<noteq> wiz_R sn" "wiz_T sn \<noteq> wiz_R sn"
proof -
  have v: "unat (of_nat (k + 4 * unat sn) :: u8) = k + 4 * unat sn" if "k < 4" for k
    using assms that by (simp only: unsigned_of_nat) (simp add: take_bit_nat_eq_self)
  show "wiz_S sn \<noteq> wiz_T sn" "wiz_S sn \<noteq> wiz_R sn" "wiz_T sn \<noteq> wiz_R sn"
    unfolding wiz_S_def wiz_T_def wiz_R_def using v [of 1] v [of 2] v [of 3] by auto
qed

lemma buf_addr [simp]:
  assumes "unat sn < 8"
  shows "wiz_block (wiz_buf_addr p (WIZCHIP_TXBUF_BLOCK (unat sn))) = wiz_T sn"
    "wiz_off (wiz_buf_addr p (WIZCHIP_TXBUF_BLOCK (unat sn))) = p"
    "\<not> bit (wiz_buf_addr p (WIZCHIP_TXBUF_BLOCK (unat sn))) 2"
    "wiz_block (wiz_buf_addr p (WIZCHIP_RXBUF_BLOCK (unat sn))) = wiz_R sn"
    "wiz_off (wiz_buf_addr p (WIZCHIP_RXBUF_BLOCK (unat sn))) = p"
    "\<not> bit (wiz_buf_addr p (WIZCHIP_RXBUF_BLOCK (unat sn))) 2"
proof -
  have u: "(ucast (ucast p :: u32) :: u16) = p"
    by (simp add: word_eq_iff_unsigned unsigned_ucast_eq take_bit_word_eq_self)
  show "wiz_block (wiz_buf_addr p (WIZCHIP_TXBUF_BLOCK (unat sn))) = wiz_T sn"
    "wiz_off (wiz_buf_addr p (WIZCHIP_TXBUF_BLOCK (unat sn))) = p"
    "\<not> bit (wiz_buf_addr p (WIZCHIP_TXBUF_BLOCK (unat sn))) 2"
    unfolding wiz_buf_addr_def WIZCHIP_TXBUF_BLOCK_def wiz_T_def
    using addr_split [OF block_number [OF assms, of 2], of "ucast p"] block_ucast [OF assms, of 2] u
    by (simp_all del: of_nat_add of_nat_mult)
  show "wiz_block (wiz_buf_addr p (WIZCHIP_RXBUF_BLOCK (unat sn))) = wiz_R sn"
    "wiz_off (wiz_buf_addr p (WIZCHIP_RXBUF_BLOCK (unat sn))) = p"
    "\<not> bit (wiz_buf_addr p (WIZCHIP_RXBUF_BLOCK (unat sn))) 2"
    unfolding wiz_buf_addr_def WIZCHIP_RXBUF_BLOCK_def wiz_R_def
    using addr_split [OF block_number [OF assms, of 3], of "ucast p"] block_ucast [OF assms, of 3] u
    by (simp_all del: of_nat_add of_nat_mult)
qed

lemma sreg_block:
  assumes "unat sn < 8"
  shows "wiz_block (wiz_sreg off (unat sn)) = wiz_S sn"
  using sreg_addr(2) [OF assms] by (simp add: wiz_S_def)

text \<open>The blocks of a socket: which they are, and the size of its buffers.\<close>

lemma block_parts:
  assumes "unat sn < 8"
  shows "wiz_S sn AND 3 = 1" "wiz_S sn \<noteq> 0" "wiz_T sn AND 3 = 2" "wiz_R sn AND 3 = 3" "wiz_T sn \<noteq> 0" "wiz_R sn \<noteq> 0"
    "wiz_T sn - 1 = wiz_S sn" "wiz_R sn - 2 = wiz_S sn"
proof -
  consider "unat sn = 0" | "unat sn = 1" | "unat sn = 2" | "unat sn = 3" | "unat sn = 4" | "unat sn = 5" | "unat sn = 6" | "unat sn = 7"
    using assms by linarith
  then show "wiz_S sn AND 3 = 1" "wiz_S sn \<noteq> 0" "wiz_T sn AND 3 = 2" "wiz_R sn AND 3 = 3" "wiz_T sn \<noteq> 0" "wiz_R sn \<noteq> 0"
    "wiz_T sn - 1 = wiz_S sn" "wiz_R sn - 2 = wiz_S sn"
    unfolding wiz_S_def wiz_T_def wiz_R_def by (cases; simp)+
qed

lemma buf_not_volatile [simp]:
  assumes "unat sn < 8"
  shows "\<not> wiz_volatile (wiz_T sn) a" "\<not> wiz_volatile (wiz_R sn) a" "\<not> wiz_wide (wiz_T sn) a b"
  by (simp_all add: wiz_volatile_def wiz_wide_def block_parts [OF assms])

lemma sreg_kept [simp]:
  assumes "unat sn < 8"
  shows "\<not> wiz_volatile (wiz_S sn) 0x1E" "\<not> wiz_volatile (wiz_S sn) 0x1F"
    "\<not> wiz_volatile (wiz_S sn) 0x24" "\<not> wiz_volatile (wiz_S sn) (0x24 + 1)"
    "\<not> wiz_volatile (wiz_S sn) 0x28" "\<not> wiz_volatile (wiz_S sn) (0x28 + 1)"
    "\<not> wiz_wide (wiz_S sn) 0x24 b" "\<not> wiz_wide (wiz_S sn) (0x24 + 1) b"
    "\<not> wiz_wide (wiz_S sn) 0x28 b" "\<not> wiz_wide (wiz_S sn) (0x28 + 1) b"
  by (simp_all add: wiz_volatile_def wiz_wide_def block_parts [OF assms])

text \<open>Memories in which a socket's buffers have the same sizes and contents.\<close>

lemma wiz_load_cong:
  "m blk = m' blk \<Longrightarrow> wiz_bytes m blk = wiz_bytes m' blk \<Longrightarrow> wiz_load blk a n m = wiz_load blk a n m'"
  by (simp add: wiz_load_def wiz_cell_def)

lemma buf_same:
  assumes sn: "unat sn < 8" and s: "wiz_same m m'" and r: "m (wiz_S sn) 0x1E = k (wiz_S sn) 0x1E" "m (wiz_S sn) 0x1F = k (wiz_S sn) 0x1F"
  shows "m' (wiz_T sn) = m (wiz_T sn)" "m' (wiz_R sn) = m (wiz_R sn)"
    "wiz_bytes m' (wiz_T sn) = wiz_bytes k (wiz_T sn)" "wiz_bytes m' (wiz_R sn) = wiz_bytes k (wiz_R sn)"
  using wiz_sameD [OF s sreg_kept(1) [OF sn]] wiz_sameD [OF s sreg_kept(2) [OF sn]] r
  by (auto simp: wiz_bytes_def block_parts [OF sn] fun_eq_iff wiz_sameD [OF s] sn)

text \<open>The two writes of a sending: the data, then the write pointer.\<close>

lemma wiz_send_data_run:
  assumes chip: "wiz_chip bus frm mem" and sn: "unat sn < 8" and len: "len \<noteq> 0" and p: "p = wiz_word (wiz_S sn) 0x24 (mem x)"
  obtains m x' where "run_state (wiz_send_data bus sn data len) (d, x) = (RET_SUCCESS, d, x')"
    "wiz_same (wiz_store (wiz_T sn) p (take (unat len) data) (mem x)) m"
    "wiz_same (wiz_store (wiz_S sn) 0x24 [hi8 (p + len), lo8 (p + len)] m) (mem x')"
proof -
  have wr: "wiz_reg_addr (Sn_TX_WR (unat sn))" "wiz_block (Sn_TX_WR (unat sn)) = wiz_S sn" "wiz_off (Sn_TX_WR (unat sn)) = 0x24"
    using sn sreg_block [OF sn] unfolding Sn_TX_WR_def by (simp_all add: sreg_addr(3))
  obtain x1 where 1: "run_state (getSn_TX_WR bus sn) (d, x) = ((RET_SUCCESS, Some p), d, x1)" "mem x1 = mem x"
    unfolding getSn_TX_WR_def p using wiz_get16_ok [OF chip wr(1), of d x, unfolded wr(2,3)] by blast
  let ?a = "wiz_buf_addr p (WIZCHIP_TXBUF_BLOCK (unat sn))"
  obtain x2 where 2: "run_state (wiz_write_buf bus ?a (take (unat len) data)) (d, x1) = (RET_SUCCESS, d, x2)"
      "wiz_same (wiz_store (wiz_T sn) p (take (unat len) data) (mem x)) (mem x2)"
    using wiz_write_buf_ok [OF chip, of ?a "take (unat len) data" d x1] buf_addr [OF sn] buf_not_volatile(3) [OF sn] 1(2) by metis
  have s: "unat (ucast sn :: u16) = unat sn"
    by (simp add: unat_ucast_up)
  obtain x3 where 3: "run_state (setSn_TX_WR bus (ucast sn) (p + len)) (d, x2) = (RET_SUCCESS, d, x3)"
      "wiz_same (wiz_store (wiz_S sn) 0x24 [hi8 (p + len), lo8 (p + len)] (mem x2)) (mem x3)"
    unfolding setSn_TX_WR_def s by (rule wiz_set16_ok [OF chip wr(1), unfolded wr(2,3), OF sreg_kept(7,8,3) [OF sn]])
  show thesis
    by (rule that [of x3 "mem x2"]) (use 1 2 3 len in \<open>simp_all add: wiz_send_data_def del: wiz_store.simps\<close>)
qed

lemma wiz_sent:
  assumes sn: "unat sn < 8" and s: "wiz_same (wiz_store (wiz_T sn) p bs k) m" "wiz_same (wiz_store (wiz_S sn) 0x24 [hi8 q, lo8 q] m) m'"
  shows "m' (wiz_T sn) = wiz_store (wiz_T sn) p bs k (wiz_T sn)" "wiz_bytes m' (wiz_T sn) = wiz_bytes k (wiz_T sn)"
    "wiz_word (wiz_S sn) 0x24 m' = q"
    "\<And>blk a. blk \<noteq> wiz_S sn \<Longrightarrow> blk \<noteq> wiz_T sn \<Longrightarrow> \<not> wiz_volatile blk a \<Longrightarrow> m' blk a = k blk a"
proof -
  note B = blocks_distinct [OF sn] block_parts [OF sn]
  let ?m = "wiz_store (wiz_T sn) p bs k" and ?m2 = "wiz_store (wiz_S sn) 0x24 [hi8 q, lo8 q] m"
  have r: "?m (wiz_S sn) 0x1E = k (wiz_S sn) 0x1E" "?m (wiz_S sn) 0x1F = k (wiz_S sn) 0x1F"
    by (simp_all only: wiz_store_other(1) [OF B(1)])
  have r2: "?m2 (wiz_S sn) 0x1E = k (wiz_S sn) 0x1E" "?m2 (wiz_S sn) 0x1F = k (wiz_S sn) 0x1F"
    using wiz_sameD [OF s(1) sreg_kept(1) [OF sn]] wiz_sameD [OF s(1) sreg_kept(2) [OF sn]] r by (simp_all add: B)
  have "m' (wiz_T sn) = m (wiz_T sn)"
    using buf_same(1) [where k = k, OF sn s(2) r2] B(1) by (simp only: wiz_store_other(1) [OF B(1) [symmetric]])
  also have "\<dots> = ?m (wiz_T sn)"
    by (rule buf_same(1) [where k = k, OF sn s(1) r])
  finally show "m' (wiz_T sn) = ?m (wiz_T sn)" .
  show "wiz_bytes m' (wiz_T sn) = wiz_bytes k (wiz_T sn)"
    by (rule buf_same(3) [where k = k, OF sn s(2) r2])
  show "wiz_word (wiz_S sn) 0x24 m' = q"
    unfolding wiz_word_same [OF s(2) sreg_kept(3,4) [OF sn]] by (rule wiz_word_store) (simp_all add: B)
  show "m' blk a = k blk a" if "blk \<noteq> wiz_S sn" "blk \<noteq> wiz_T sn" "\<not> wiz_volatile blk a" for blk a
    using that wiz_sameD [OF s(2), of blk a] wiz_sameD [OF s(1), of blk a] by (simp add: wiz_store_other(1) del: wiz_store.simps)
qed

text \<open>C28: 
  Sending \<open>len\<close> bytes on a socket of a controller with cells that keep what is written, whose transmit
  buffer has one of the sizes of 1, 2, 4, 8 and 16 KB, no less than \<open>len\<close>: the bytes are found in the buffer
  from the write pointer on, around the end of the buffer; the write pointer is \<open>len\<close> further; the other
  cells of the buffer, and the other blocks but for the registers the controller changes itself, are as they
  were.  A length of 0 is an error without any traffic.  The bus does not wait or fail.  The free size is not
  asked for, so that what was not sent yet is only kept where the bytes do not go.
\<close>
theorem wiz_send_puts:
  assumes chip: "wiz_chip bus frm mem" and sn: "unat sn < 8"
    and size: "wiz_bytes (mem x) (wiz_T sn) = 1024 * k" "k \<in> {1, 2, 4, 8, 16}"
    and len: "len \<noteq> 0" "unat len \<le> wiz_bytes (mem x) (wiz_T sn)" "unat len \<le> length data"
    and p: "p = wiz_word (wiz_S sn) 0x24 (mem x)"
  shows "run_state (wiz_send_data bus sn data 0) (d, x) = (RET_ERROR, d, x) \<and>
    (\<exists>x'. run_state (wiz_send_data bus sn data len) (d, x) = (RET_SUCCESS, d, x') \<and>
      wiz_load (wiz_T sn) p (unat len) (mem x') = take (unat len) data \<and>
      wiz_word (wiz_S sn) 0x24 (mem x') = p + len \<and>
      (\<forall>a. (\<forall>i < unat len. a \<noteq> wiz_cell (mem x) (wiz_T sn) (p + of_nat i)) \<longrightarrow> mem x' (wiz_T sn) a = mem x (wiz_T sn) a) \<and>
      (\<forall>blk a. blk \<noteq> wiz_S sn \<and> blk \<noteq> wiz_T sn \<and> \<not> wiz_volatile blk a \<longrightarrow> mem x' blk a = mem x blk a))"
proof -
  obtain m x' where run: "run_state (wiz_send_data bus sn data len) (d, x) = (RET_SUCCESS, d, x')"
      "wiz_same (wiz_store (wiz_T sn) p (take (unat len) data) (mem x)) m"
      "wiz_same (wiz_store (wiz_S sn) 0x24 [hi8 (p + len), lo8 (p + len)] m) (mem x')"
    by (rule wiz_send_data_run [OF chip sn len(1) p])
  note sent = wiz_sent [OF sn run(2,3)]
  have "wiz_load (wiz_T sn) p (unat len) (mem x') = wiz_load (wiz_T sn) p (unat len) (wiz_store (wiz_T sn) p (take (unat len) data) (mem x))"
    using sent(1,2) by (intro wiz_load_cong) simp_all
  moreover have "wiz_bytes (mem x) (wiz_T sn) dvd 2 ^ 16"
    using size by auto
  then have "wiz_load (wiz_T sn) p (unat len) (wiz_store (wiz_T sn) p (take (unat len) data) (mem x)) = take (unat len) data"
    using wiz_load_store [of "mem x" "wiz_T sn" "take (unat len) data" p] len by simp
  moreover have "mem x' (wiz_T sn) a = mem x (wiz_T sn) a" if "\<forall>i < unat len. a \<noteq> wiz_cell (mem x) (wiz_T sn) (p + of_nat i)" for a
    unfolding sent(1) using that by (intro wiz_store_other(2)) simp
  moreover have "run_state (wiz_send_data bus sn data 0) (d, x) = (RET_ERROR, d, x)"
    by (simp add: wiz_send_data_def)
  ultimately show ?thesis
    using run(1) sent(3,4) by metis
qed

text \<open>Three bytes at the end of a buffer of 16 KB.\<close>

definition wiz_full_mem :: wiz_mem where
  "wiz_full_mem = (\<lambda>_ a. if a = 0x1F then 16 else 0xFF)"

theorem wiz_send_puts_witness:
  "run_state (wiz_send_data wiz_bus 0 [1, 2, 3, 4] 0) ((), None, wiz_full_mem) = (RET_ERROR, (), None, wiz_full_mem) \<and>
   (\<exists>x'. run_state (wiz_send_data wiz_bus 0 [1, 2, 3, 4] 3) ((), None, wiz_full_mem) = (RET_SUCCESS, (), x') \<and>
    wiz_load (wiz_T 0) 0xFFFF (unat (3 :: u16)) (snd x') = take (unat (3 :: u16)) [1, 2, 3, 4] \<and>
    wiz_word (wiz_S 0) 0x24 (snd x') = 0xFFFF + 3 \<and>
    (\<forall>a. (\<forall>i < unat (3 :: u16). a \<noteq> wiz_cell wiz_full_mem (wiz_T 0) (0xFFFF + of_nat i)) \<longrightarrow>
      snd x' (wiz_T 0) a = wiz_full_mem (wiz_T 0) a) \<and>
    (\<forall>blk a. blk \<noteq> wiz_S 0 \<and> blk \<noteq> wiz_T 0 \<and> \<not> wiz_volatile blk a \<longrightarrow> snd x' blk a = wiz_full_mem blk a))"
proof -
  have b: "wiz_bytes wiz_full_mem (wiz_T 0) = 1024 * 16"
    by (simp add: wiz_bytes_def wiz_T_def wiz_full_mem_def)
  have w: "0xFFFF = wiz_word (wiz_S 0) 0x24 wiz_full_mem"
    by (simp add: wiz_word_def be16_def push_bit_eq_mult wiz_full_mem_def)
  show ?thesis
    using wiz_send_puts [OF wiz_bus_chip, of 0 "(None, wiz_full_mem)" 16 3 "[1, 2, 3, 4]" "0xFFFF" "()"] b w by simp
qed

lemma wiz_recv_data_ok:
  assumes chip: "wiz_chip bus frm mem" and sn: "unat sn < 8" and len: "len \<noteq> 0" and p: "p = wiz_word (wiz_S sn) 0x28 (mem x)"
  obtains x' where "run_state (wiz_recv_data unset bus sn len) (d, x) = ((RET_SUCCESS, wiz_load (wiz_R sn) p (unat len) (mem x)), d, x')"
    "wiz_same (wiz_store (wiz_S sn) 0x28 [hi8 (p + len), lo8 (p + len)] (mem x)) (mem x')"
proof -
  have rd: "wiz_reg_addr (Sn_RX_RD (unat sn))" "wiz_block (Sn_RX_RD (unat sn)) = wiz_S sn" "wiz_off (Sn_RX_RD (unat sn)) = 0x28"
    using sn sreg_block [OF sn] unfolding Sn_RX_RD_def by (simp_all add: sreg_addr(3))
  obtain x1 where 1: "run_state (getSn_RX_RD bus sn) (d, x) = ((RET_SUCCESS, Some p), d, x1)" "mem x1 = mem x"
    unfolding getSn_RX_RD_def p using wiz_get16_ok [OF chip rd(1), of d x, unfolded rd(2,3)] by blast
  let ?a = "wiz_buf_addr p (WIZCHIP_RXBUF_BLOCK (unat sn))"
  obtain x2 where 2: "run_state (wiz_read_buf bus ?a (unat len)) (d, x1) = ((RET_SUCCESS, wiz_load (wiz_R sn) p (unat len) (mem x1)), d, x2)"
      "mem x2 = mem x1"
    using wiz_read_buf_ok [OF chip, of ?a "unat len" d x1] buf_addr [OF sn] by metis
  obtain x3 where 3: "run_state (setSn_RX_RD bus sn (p + len)) (d, x2) = (RET_SUCCESS, d, x3)"
      "wiz_same (wiz_store (wiz_S sn) 0x28 [hi8 (p + len), lo8 (p + len)] (mem x2)) (mem x3)"
    unfolding setSn_RX_RD_def by (rule wiz_set16_ok [OF chip rd(1), unfolded rd(2,3), OF sreg_kept(9,10,5) [OF sn]])
  show thesis
    by (rule that [of x3]) (use 1 2 3 len in \<open>simp_all add: wiz_recv_data_def del: wiz_store.simps\<close>)
qed

section \<open>The received size\<close>

lemma wiz_pair_ok:
  assumes chip: "wiz_chip bus frm mem" and a: "wiz_reg_addr a"
  obtains x' where "wiz_pair bus a x =
      ((RET_SUCCESS, [mem x (wiz_block a) (wiz_off a)], [mem x (wiz_block a) (wiz_off a + 1)]), x')" "mem x' = mem x"
proof -
  have b: "\<not> bit a 2" "\<not> bit (WIZCHIP_OFFSET_INC a 1) 2" and i: "wiz_block (WIZCHIP_OFFSET_INC a 1) = wiz_block a"
      "wiz_off (WIZCHIP_OFFSET_INC a 1) = wiz_off a + 1" and r: "wiz_block a AND 3 \<noteq> 2" "wiz_block a AND 3 \<noteq> 3"
    using a by (simp_all add: wiz_ok_addr_def wiz_reg_addr_def)
  obtain x1 where 1: "run_state (wiz_read bus a) ((), x) = ((RET_SUCCESS, [mem x (wiz_block a) (wiz_off a)]), (), x1)" "mem x1 = mem x"
    by (rule wiz_read_ok [OF chip b(1), of "()" x, unfolded wiz_cell_reg [OF r]])
  obtain x2 where 2: "run_state (wiz_read bus (WIZCHIP_OFFSET_INC a 1)) ((), x1) =
      ((RET_SUCCESS, [mem x1 (wiz_block a) (wiz_off a + 1)]), (), x2)" "mem x2 = mem x1"
    by (rule wiz_read_ok [OF chip b(2), of "()" x1, unfolded i wiz_cell_reg [OF r]])
  show thesis
    by (rule that [of x2]) (use 1 2 in \<open>simp_all add: wiz_pair_def\<close>)
qed

lemma rsr_addr:
  assumes "unat sn < 8"
  shows "wiz_reg_addr (Sn_RX_RSR (unat sn))" "wiz_block (Sn_RX_RSR (unat sn)) = wiz_S sn" "wiz_off (Sn_RX_RSR (unat sn)) = 0x26"
  using assms sreg_block [OF assms] unfolding Sn_RX_RSR_def by (simp_all add: sreg_addr(3))

lemma wiz_rsr_pair:
  assumes "wiz_chip bus frm mem" and sn: "unat sn < 8"
  obtains hi lo x' where "wiz_pair bus (Sn_RX_RSR (unat sn)) x = ((RET_SUCCESS, [hi], [lo]), x')" "mem x' = mem x"
    "be16 hi lo = wiz_word (wiz_S sn) 0x26 (mem x)"
  using wiz_pair_ok [OF assms(1) rsr_addr(1) [OF sn], of x thesis] rsr_addr(2,3) [OF sn]
  by (simp add: wiz_word_def)

lemma wiz_rsr_hangs:
  assumes r: "wiz_rsr_loop bus sn val x = Some y"
  shows "wiz_chip bus frm mem \<longrightarrow> unat sn < 8 \<longrightarrow> val \<noteq> 0 \<longrightarrow> wiz_word (wiz_S sn) 0x26 (mem x) \<noteq> 0"
proof (rule wiz_rsr_loop.raw_induct [where P = "\<lambda>b s v x y.
      wiz_chip b frm mem \<longrightarrow> unat s < 8 \<longrightarrow> v \<noteq> 0 \<longrightarrow> wiz_word (wiz_S s) 0x26 (mem x) \<noteq> 0"
    and xa = "(((bus, sn), val), x)", unfolded prod.case, OF _ r], intro impI notI, goal_cases)
  case (1 loop b s v x y)
  obtain hi lo x' where p: "wiz_pair b (Sn_RX_RSR (unat s)) x = ((RET_SUCCESS, [hi], [lo]), x')" "mem x' = mem x"
      "be16 hi lo = wiz_word (wiz_S s) 0x26 (mem x)"
    by (rule wiz_rsr_pair [OF 1(3,4), of x])
  then have "loop b s v x' = Some y"
    using 1(2,5,6) by simp
  from 1(1) [OF this] show ?case
    using 1(3-6) p(2) by simp
qed

lemma wiz_rsr_ok:
  assumes chip: "wiz_chip bus frm mem" and sn: "unat sn < 8"
    and v: "v = wiz_word (wiz_S sn) 0x26 (mem x)" "v \<noteq> 0 \<or> val = 0"
  obtains x' where "wiz_rsr_loop bus sn val x = Some (RET_SUCCESS, Some v, v, x')" "mem x' = mem x"
proof -
  obtain hi lo x1 where 1: "wiz_pair bus (Sn_RX_RSR (unat sn)) x = ((RET_SUCCESS, [hi], [lo]), x1)" "mem x1 = mem x"
      "be16 hi lo = wiz_word (wiz_S sn) 0x26 (mem x)"
    by (rule wiz_rsr_pair [OF chip sn])
  obtain hi' lo' x2 where 2: "wiz_pair bus (Sn_RX_RSR (unat sn)) x1 = ((RET_SUCCESS, [hi'], [lo']), x2)" "mem x2 = mem x1"
      "be16 hi' lo' = wiz_word (wiz_S sn) 0x26 (mem x1)"
    by (rule wiz_rsr_pair [OF chip sn])
  show thesis
  proof (cases "v = 0")
    case True
    then have "wiz_rsr_loop bus sn val x = Some (RET_SUCCESS, Some v, v, x1)"
      by (subst wiz_rsr_loop.simps) (use 1 v in simp)
    then show thesis
      using 1(2) by (rule that)
  next
    case False
    then have "wiz_rsr_loop bus sn val x = Some (RET_SUCCESS, Some v, v, x2)"
      by (subst wiz_rsr_loop.simps) (use 1 2 v in \<open>simp add: Let_def\<close>)
    then show thesis
      using 1(2) 2(2) that by metis
  qed
qed

text \<open>
  The size of what was received, on a controller whose register does not change meanwhile.  A size other
  than 0 is returned and kept in the static variable.  Once it is kept, a size of 0 is compared with it for
  ever: the call does not return before the next frame has come.
\<close>
theorem wiz_rsr_cases:
  assumes "wiz_chip bus frm mem" and "unat sn < 8" and "v = wiz_word (wiz_S sn) 0x26 (mem x)"
  shows "if v = 0 \<and> wz_rsr d \<noteq> 0 then getSn_RX_RSR bus sn (d, x) = None
    else \<exists>x'. getSn_RX_RSR bus sn (d, x) = Some ((RET_SUCCESS, Some v), d\<lparr>wz_rsr := v\<rparr>, x') \<and> mem x' = mem x"
proof (cases "v = 0 \<and> wz_rsr d \<noteq> 0")
  case True
  then show ?thesis
    using wiz_rsr_hangs [of bus sn "wz_rsr d" x _ frm mem] assms
    by (cases "wiz_rsr_loop bus sn (wz_rsr d) x") (auto simp: getSn_RX_RSR_def)
next
  case False
  then obtain x' where "wiz_rsr_loop bus sn (wz_rsr d) x = Some (RET_SUCCESS, Some v, v, x')" "mem x' = mem x"
    using wiz_rsr_ok [OF assms, of "wz_rsr d" thesis] by blast
  then show ?thesis
    using False by (auto simp: getSn_RX_RSR_def)
qed

definition wiz_empty_mem :: wiz_mem where
  "wiz_empty_mem = (\<lambda>_ _. 0)"

definition wiz_idle :: "unit wiznet" where
  "wiz_idle = \<lparr>wz_upper = Some (), wz_packet = pk_init (replicate 8 0) 8 0, wz_rsr = 5, wz_len = 0, wz_tmp = 0,
     wz_ip = None, wz_info = \<lparr>ni_src = \<lparr>na_mac = [], na_ipv4 = 0, na_port = 0\<rparr>,
       ni_dst = \<lparr>na_mac = [], na_ipv4 = 0, na_port = 0\<rparr>, ni_ignore = False\<rparr>, wz_remaining = 0, wz_io_mode = 0\<rparr>"

theorem wiz_rsr_cases_witness:
  "getSn_RX_RSR wiz_bus 0 (wiz_idle, None, wiz_empty_mem) = None"
  using wiz_rsr_cases [OF wiz_bus_chip, of 0 0 "(None, wiz_empty_mem)" wiz_idle]
  by (simp add: wiz_idle_def wiz_empty_mem_def wiz_word_def be16_def)

text \<open>So an interface that has received a frame does not return from \<open>poll\<close> until the next one.\<close>
theorem wiz_poll_stuck:
  assumes "wiz_chip bus frm mem" and "wiz_word (wiz_S DEFAULT_SOCKET_NUM) 0x26 (mem x) = 0" and "wz_rsr d \<noteq> 0"
  shows "wiz_poll unset bus up (d, x) = None"
  using wiz_rsr_cases [OF assms(1), of DEFAULT_SOCKET_NUM 0 x d] assms(2,3)
  by (simp add: wiz_poll_def DEFAULT_SOCKET_NUM_def)

theorem wiz_poll_stuck_witness:
  "wiz_poll RET_SUCCESS wiz_bus (\<lambda>_ p i x. (RET_SUCCESS, p, i, x)) (wiz_idle, None, wiz_empty_mem) = None"
  by (rule wiz_poll_stuck [OF wiz_bus_chip]) (simp_all add: wiz_idle_def wiz_empty_mem_def wiz_word_def be16_def)

text \<open>
  The free size of a transmit buffer: the high byte of the second reading is compared with the size, so the
  call returns only when the size is 0.
\<close>

lemma wiz_fsr_pair:
  assumes chip: "wiz_chip bus frm mem" and sn: "unat sn < 8"
  obtains hi lo x' where "wiz_pair bus (Sn_TX_FSR (unat sn)) x = ((RET_SUCCESS, [hi], [lo]), x')" "mem x' = mem x"
    "be16 hi lo = wiz_word (wiz_S sn) 0x20 (mem x)"
proof -
  have "wiz_reg_addr (Sn_TX_FSR (unat sn))" "wiz_block (Sn_TX_FSR (unat sn)) = wiz_S sn" "wiz_off (Sn_TX_FSR (unat sn)) = 0x20"
    using sn sreg_block [OF sn] unfolding Sn_TX_FSR_def by (simp_all add: sreg_addr(3))
  then show thesis
    using wiz_pair_ok [OF chip, of "Sn_TX_FSR (unat sn)" x thesis] that by (simp add: wiz_word_def)
qed

lemma high_byte_differs: "be16 hi lo \<noteq> 0 \<Longrightarrow> ucast hi \<noteq> be16 hi lo"
proof
  assume nz: "be16 hi lo \<noteq> 0" and eq: "ucast hi = be16 hi lo"
  have "hi8 (ucast hi) = 0" "lo8 (ucast hi) = hi"
    unfolding hi8_def lo8_ucast by (rule bit_word_eqI; auto simp: bit_simps dest: bit_imp_le_length)+
  then have "hi = 0" "lo = hi"
    unfolding eq by simp_all
  then show False
    using nz by (simp add: be16_def)
qed

lemma wiz_fsr_hangs:
  assumes r: "wiz_fsr_loop bus sn val x = Some y"
  shows "wiz_chip bus frm mem \<longrightarrow> unat sn < 8 \<longrightarrow> wiz_word (wiz_S sn) 0x20 (mem x) = 0"
proof (rule wiz_fsr_loop.raw_induct [where P = "\<lambda>b s v x y.
      wiz_chip b frm mem \<longrightarrow> unat s < 8 \<longrightarrow> wiz_word (wiz_S s) 0x20 (mem x) = 0"
    and xa = "(((bus, sn), val), x)", unfolded prod.case, OF _ r], intro impI, rule ccontr, goal_cases)
  case (1 loop b s v x y)
  obtain hi lo x1 where p: "wiz_pair b (Sn_TX_FSR (unat s)) x = ((RET_SUCCESS, [hi], [lo]), x1)" "mem x1 = mem x"
      "be16 hi lo = wiz_word (wiz_S s) 0x20 (mem x)"
    by (rule wiz_fsr_pair [OF 1(3,4), of x])
  obtain hi' lo' x2 where q: "wiz_pair b (Sn_TX_FSR (unat s)) x1 = ((RET_SUCCESS, [hi'], [lo']), x2)" "mem x2 = mem x1"
      "be16 hi' lo' = wiz_word (wiz_S s) 0x20 (mem x1)"
    by (rule wiz_fsr_pair [OF 1(3,4), of x1])
  have "ucast hi' \<noteq> be16 hi lo"
    using high_byte_differs [of hi' lo'] p(2,3) q(3) 1(5) by simp
  then have "loop b s (ucast hi') x2 = Some y"
    using 1(2,5) p(1,3) q(1) by (simp add: Let_def)
  from 1(1) [OF this] show ?case
    using 1(3-5) p(2) q(2) by simp
qed

theorem wiz_fsr_returns_only_zero:
  assumes "wiz_chip bus frm mem" and "unat sn < 8" and "getSn_TX_FSR bus sn x = Some (ret, v, x')"
  shows "wiz_word (wiz_S sn) 0x20 (mem x) = 0"
  using wiz_fsr_hangs [OF assms(3) [unfolded getSn_TX_FSR_def], of frm mem] assms(1,2) by blast

theorem wiz_fsr_returns_only_zero_witness:
  "\<exists>x'. getSn_TX_FSR wiz_bus 0 (None, \<lambda>_ _. 0) = Some (RET_SUCCESS, Some 0, x') \<and> wiz_word (wiz_S 0) 0x20 (\<lambda>_ _. 0) = 0"
proof -
  obtain hi lo x' where p: "wiz_pair wiz_bus (Sn_TX_FSR (unat (0 :: u8))) (None, \<lambda>_ _. 0) = ((RET_SUCCESS, [hi], [lo]), x')"
      "be16 hi lo = wiz_word (wiz_S 0) 0x20 (snd (None :: u8 list option, \<lambda>_ _. 0))"
    by (rule wiz_fsr_pair [OF wiz_bus_chip, of 0 "(None, \<lambda>_ _. 0)"]) auto
  then have r: "getSn_TX_FSR wiz_bus 0 (None, \<lambda>_ _. 0) = Some (RET_SUCCESS, Some 0, x')"
    unfolding getSn_TX_FSR_def by (subst wiz_fsr_loop.simps) (simp add: wiz_word_def be16_def)
  then show ?thesis
    using wiz_fsr_returns_only_zero [OF wiz_bus_chip _ r] by simp
qed

section \<open>A frame goes up\<close>

lemma setSn_CR_ok:
  assumes chip: "wiz_chip bus frm mem" and sn: "unat sn < 8" and v: "v = Sn_CR_SEND \<or> v = Sn_CR_RECV"
  obtains x' where "run_state (setSn_CR bus sn v) (d, x) = (RET_SUCCESS, d, x')"
    "wiz_same (wiz_store (wiz_S sn) 1 [v] (mem x)) (mem x')"
proof -
  have "wiz_block (Sn_CR (unat sn)) = wiz_S sn" "wiz_off (Sn_CR (unat sn)) = 1" "\<not> bit (Sn_CR (unat sn)) 2"
    using sn sreg_block [OF sn] unfolding Sn_CR_def by (simp_all add: sreg_addr(3,4))
  moreover have "\<not> wiz_wide (wiz_S sn) 1 v"
    using v by (auto simp: wiz_wide_def block_parts [OF sn] Sn_CR_SEND_def Sn_CR_RECV_def)
  ultimately show thesis
    using wiz_write_ok [OF chip, of "Sn_CR (unat sn)" v d x thesis] that by (simp add: setSn_CR_def del: wiz_store.simps)
qed

lemma pk_fill:
  assumes inv: "pk_inv p" and clear: "pk_wpos p = pk_hsize p" "pk_hpos p = pk_hsize p"
    and n: "ucast (n :: u16) \<le> pk_capacity p" "length data = unat n"
  obtains m where "mem_write (pk_raw p) data (pk_buff p) = Some m"
    "pk_unread (pk_seek_read True (snd (pk_skip_write (ucast n) (p\<lparr>pk_buff := m\<rparr>)))) = data"
    "pk_inv (pk_seek_read True (snd (pk_skip_write (ucast n) (p\<lparr>pk_buff := m\<rparr>))))"
proof -
  have u: "unat (ucast n :: u32) = unat n"
    by (simp add: unat_ucast_up)
  have le: "unat n + unat (pk_hsize p) \<le> unat (pk_size p)" and len: "length (pk_buff p) = unat (pk_size p)"
    using inv n(1) by (auto simp: pk_inv_def pk_capacity_def word_le_nat_alt u unat_sub)
  have lt: "unat (pk_size p) < 2 ^ 32"
    by (rule order_less_le_trans [OF unsigned_less]) simp
  from le have s: "unat (ucast n + pk_wpos p) = unat n + unat (pk_hsize p)"
    using lt word_add_noover [of "ucast n" "pk_wpos p"] by (simp add: u clear)
  let ?m = "take (unat (pk_hsize p)) (pk_buff p) @ data @ drop (unat (pk_hsize p) + length data) (pk_buff p)"
  have "mem_write (pk_raw p) data (pk_buff p) = Some ?m"
    using le len n(2) by (simp add: mem_write_def pk_raw_def clear)
  moreover have q: "pk_seek_read True (snd (pk_skip_write (ucast n) (p\<lparr>pk_buff := ?m\<rparr>))) =
      p\<lparr>pk_buff := ?m, pk_wpos := pk_wpos p + ucast n, pk_rpos := pk_hpos p\<rparr>"
    using le s by (simp add: pk_seek_read_def pk_skip_write_def word_less_nat_alt)
  ultimately show thesis
    using le len s n(2) inv by (intro that [of ?m]; simp only: q) (auto simp: pk_unread_def pk_inv_def clear add.commute word_le_nat_alt)
qed

text \<open>The state of the receive buffer after \<open>n\<close> bytes were taken and the command to receive was given.\<close>

lemma wiz_taken:
  assumes sn: "unat sn < 8" and s: "wiz_same (wiz_store (wiz_S sn) 0x28 [hi8 q, lo8 q] m) m1" "wiz_same (wiz_store (wiz_S sn) 1 [c] m1) m2"
  shows "wiz_word (wiz_S sn) 0x28 m2 = q" "wiz_load (wiz_R sn) a n m2 = wiz_load (wiz_R sn) a n m"
proof -
  note B = block_parts [OF sn] and K = sreg_kept [OF sn]
  let ?m = "wiz_store (wiz_S sn) 0x28 [hi8 q, lo8 q] m" and ?m1 = "wiz_store (wiz_S sn) 1 [c] m1"
  have "wiz_word (wiz_S sn) 0x28 m2 = wiz_word (wiz_S sn) 0x28 ?m1"
    by (rule wiz_word_same [OF s(2) K(5,6)])
  also have "\<dots> = wiz_word (wiz_S sn) 0x28 m1"
    unfolding wiz_word_def by (simp add: B)
  also have "\<dots> = q"
    unfolding wiz_word_same [OF s(1) K(5,6)] by (rule wiz_word_store) (simp_all add: B)
  finally show "wiz_word (wiz_S sn) 0x28 m2 = q" .
  have r: "?m (wiz_S sn) 0x1E = m (wiz_S sn) 0x1E" "?m (wiz_S sn) 0x1F = m (wiz_S sn) 0x1F"
    by (simp_all add: B)
  have r1: "?m1 (wiz_S sn) 0x1E = m (wiz_S sn) 0x1E" "?m1 (wiz_S sn) 0x1F = m (wiz_S sn) 0x1F"
    using wiz_sameD [OF s(1) K(1)] wiz_sameD [OF s(1) K(2)] by (simp_all add: B)
  have "m2 (wiz_R sn) = m1 (wiz_R sn)"
    using buf_same(2) [where k = m, OF sn s(2) r1] blocks_distinct(2) [OF sn] by (simp add: wiz_store_other(1))
  also have "\<dots> = m (wiz_R sn)"
    using buf_same(2) [where k = m, OF sn s(1) r] blocks_distinct(2) [OF sn] by (simp add: wiz_store_other(1))
  finally show "wiz_load (wiz_R sn) a n m2 = wiz_load (wiz_R sn) a n m"
    using buf_same(4) [where k = m, OF sn s(2) r1] by (intro wiz_load_cong) simp_all
qed

lemma wiz_recv_and_command:
  assumes chip: "wiz_chip bus frm mem" and sn: "unat sn < 8" and len: "len \<noteq> 0" and p: "p = wiz_word (wiz_S sn) 0x28 (mem x)"
  obtains x1 x2 where
    "run_state (wiz_recv_data unset bus sn len) (d, x) = ((RET_SUCCESS, wiz_load (wiz_R sn) p (unat len) (mem x)), d, x1)"
    "run_state (setSn_CR bus sn Sn_CR_RECV) (d', x1) = (RET_SUCCESS, d', x2)"
    "wiz_word (wiz_S sn) 0x28 (mem x2) = p + len" "\<And>a n. wiz_load (wiz_R sn) a n (mem x2) = wiz_load (wiz_R sn) a n (mem x)"
proof -
  obtain x1 where 1: "run_state (wiz_recv_data unset bus sn len) (d, x) = ((RET_SUCCESS, wiz_load (wiz_R sn) p (unat len) (mem x)), d, x1)"
    "wiz_same (wiz_store (wiz_S sn) 0x28 [hi8 (p + len), lo8 (p + len)] (mem x)) (mem x1)"
    by (rule wiz_recv_data_ok [OF assms])
  obtain x2 where 2: "run_state (setSn_CR bus sn Sn_CR_RECV) (d', x1) = (RET_SUCCESS, d', x2)"
    "wiz_same (wiz_store (wiz_S sn) 1 [Sn_CR_RECV] (mem x1)) (mem x2)"
    by (rule setSn_CR_ok [OF chip sn disjI2 [OF refl]])
  show thesis
    by (rule that [of x1 x2]) (rule 1, rule 2, rule wiz_taken(1) [OF sn 1(2) 2(2)], rule wiz_taken(2) [OF sn 1(2) 2(2)])
qed

lemma wiz_take_frame_delivers:
  assumes chip: "wiz_chip bus frm mem" and p: "p = wiz_word (wiz_S 0) 0x28 (mem x)"
    and n: "n \<noteq> 0" "ucast n \<le> pk_capacity (wz_packet d)"
    and packet: "pk_inv (wz_packet d)" "pk_wpos (wz_packet d) = pk_hsize (wz_packet d)" "pk_hpos (wz_packet d) = pk_hsize (wz_packet d)"
    and up: "wz_upper d = Some u"
  shows "\<exists>x' q. pk_inv q \<and> pk_unread q = wiz_load (wiz_R 0) p (unat n) (mem x) \<and> wiz_word (wiz_S 0) 0x28 (mem x') = p + n \<and>
    (case up u q (wz_info d) x' of
       (ret, q', info, y) \<Rightarrow>
         wiz_take_frame unset bus up n (d, x) =
           Some (if call_waits ret then (ret, d\<lparr>wz_packet := q', wz_info := info\<rparr>, y)
                 else (RET_SUCCESS, d\<lparr>wz_packet := pk_clear q', wz_info := info\<rparr>, y)))"
proof -
  let ?data = "wiz_load (wiz_R 0) p (unat n) (mem x)"
  have len: "length ?data = unat n"
    by (simp add: wiz_load_def)
  obtain m where m: "mem_write (pk_raw (wz_packet d)) ?data (pk_buff (wz_packet d)) = Some m"
      "pk_unread (pk_seek_read True (snd (pk_skip_write (ucast n) ((wz_packet d)\<lparr>pk_buff := m\<rparr>)))) = ?data"
      "pk_inv (pk_seek_read True (snd (pk_skip_write (ucast n) ((wz_packet d)\<lparr>pk_buff := m\<rparr>))))"
    by (rule pk_fill [OF packet n(2) len])
  let ?d2 = "d\<lparr>wz_packet := (wz_packet d)\<lparr>pk_buff := m\<rparr>\<rparr>"
  let ?q = "pk_seek_read True (snd (pk_skip_write (ucast n) ((wz_packet d)\<lparr>pk_buff := m\<rparr>)))"
  obtain x4 x5 where 3: "run_state (wiz_recv_data unset bus 0 n) (d, x) = ((RET_SUCCESS, ?data), d, x4)"
      "run_state (setSn_CR bus 0 Sn_CR_RECV) (?d2, x4) = (RET_SUCCESS, ?d2, x5)"
      "wiz_word (wiz_S 0) 0x28 (mem x5) = p + n"
    by (rule wiz_recv_and_command [OF chip _ n(1) p, where d = d and d' = ?d2]) simp_all
  obtain ret q' info y where u: "up u ?q (wz_info d) x5 = (ret, q', info, y)"
    by (metis prod_cases4)
  have "wiz_pass_up up n (?d2, x5) =
      Some (if call_waits ret then (ret, d\<lparr>wz_packet := q', wz_info := info\<rparr>, y)
            else (RET_SUCCESS, d\<lparr>wz_packet := pk_clear q', wz_info := info\<rparr>, y))"
    using u up by (simp add: wiz_pass_up_def Let_def)
  then have "wiz_take_frame unset bus up n (d, x) =
      Some (if call_waits ret then (ret, d\<lparr>wz_packet := q', wz_info := info\<rparr>, y)
            else (RET_SUCCESS, d\<lparr>wz_packet := pk_clear q', wz_info := info\<rparr>, y))"
    using 3 m(1) by (simp add: wiz_take_frame_def DEFAULT_SOCKET_NUM_def)
  then show ?thesis
    using m(2,3) 3(3) u by (intro exI [of _ x5] exI [of _ ?q]) simp
qed

text \<open>C40: 
  A frame of \<open>n > 0\<close> bytes in the receive buffer, behind its length, that fits the empty packet, on a
  controller with cells that keep what is written and a received size that is not 0: \<open>poll\<close> gives the upper
  layer a packet with exactly these bytes to read, and the read pointer is behind the frame when it does.
  When the upper layer answers with a code that waits, \<open>poll\<close> leaves with this code and the packet as the
  layer left it; after every other answer the packet is emptied and the result is success.  The bus does not
  wait or fail, and no other frame arrives meanwhile.
\<close>
theorem wiz_poll_delivers:
  assumes chip: "wiz_chip bus frm mem" and size: "v = wiz_word (wiz_S 0) 0x26 (mem x)" "v \<noteq> 0"
    and p: "p = wiz_word (wiz_S 0) 0x28 (mem x)"
    and n: "wiz_load (wiz_R 0) p 2 (mem x) = [h, l]" "be16 h l = n + 2" "n \<noteq> 0" "ucast n \<le> pk_capacity (wz_packet d)"
    and packet: "pk_inv (wz_packet d)" "pk_wpos (wz_packet d) = pk_hsize (wz_packet d)" "pk_hpos (wz_packet d) = pk_hsize (wz_packet d)"
    and up: "wz_upper d = Some u"
  shows "\<exists>x' q. pk_inv q \<and> pk_unread q = wiz_load (wiz_R 0) (p + 2) (unat n) (mem x) \<and>
    wiz_word (wiz_S 0) 0x28 (mem x') = p + 2 + n \<and>
    (case up u q (wz_info d) x' of
       (ret, q', info, y) \<Rightarrow>
         wiz_poll unset bus up (d, x) =
           Some (if call_waits ret then (ret, d\<lparr>wz_rsr := v, wz_len := v, wz_packet := q', wz_info := info\<rparr>, y)
                 else (RET_SUCCESS, d\<lparr>wz_rsr := v, wz_len := v, wz_packet := pk_clear q', wz_info := info\<rparr>, y)))"
proof -
  have s0: "unat (0 :: u8) < 8" and two: "unat (2 :: u16) = 2"
    by simp_all
  obtain x1 where 1: "getSn_RX_RSR bus 0 (d, x) = Some ((RET_SUCCESS, Some v), d\<lparr>wz_rsr := v\<rparr>, x1)" "mem x1 = mem x"
    using wiz_rsr_cases [OF chip s0 size(1), of d] size(2) by auto
  let ?d = "d\<lparr>wz_rsr := v, wz_len := v\<rparr>"
  obtain x2 x3 where 2: "run_state (wiz_recv_data unset bus 0 2) (?d, x1) = ((RET_SUCCESS, wiz_load (wiz_R 0) p (unat (2 :: u16)) (mem x1)), ?d, x2)"
      "run_state (setSn_CR bus 0 Sn_CR_RECV) (?d, x2) = (RET_SUCCESS, ?d, x3)"
      "wiz_word (wiz_S 0) 0x28 (mem x3) = p + 2" "\<And>a n. wiz_load (wiz_R 0) a n (mem x3) = wiz_load (wiz_R 0) a n (mem x1)"
    by (rule wiz_recv_and_command [OF chip s0, where unset = unset and d = ?d and d' = ?d and len = 2 and p = p and x = x1]) (simp_all add: p 1(2))
  have head: "wiz_load (wiz_R 0) p (unat (2 :: u16)) (mem x1) = [h, l]"
    unfolding two 1(2) by (rule n(1))
  have load: "wiz_load (wiz_R 0) (p + 2) (unat n) (mem x3) = wiz_load (wiz_R 0) (p + 2) (unat n) (mem x)"
    using 2(4) 1(2) by simp
  have fits: "\<not> pk_capacity (wz_packet d) < ucast n"
    using n(4) by (rule leD)
  have "wiz_poll unset bus up (d, x) = wiz_take_frame unset bus up n (?d, x3)"
    using 1(1) 2(1,2) head n(2) fits size(2) by (simp add: wiz_poll_def DEFAULT_SOCKET_NUM_def Let_def)
  then show ?thesis
    using wiz_take_frame_delivers [OF chip 2(3) [symmetric] n(3), of ?d u unset up, unfolded load] n(4) packet up by simp
qed

text \<open>A frame of one byte at the end of a buffer of 16 KB.\<close>

definition wiz_one_frame :: wiz_mem where
  "wiz_one_frame = wiz_empty_mem(wiz_S 0 := (\<lambda>_. 0)(0x1E := 16, 0x27 := 3, 0x28 := 0x3F, 0x29 := 0xFE), wiz_R 0 := (\<lambda>_. 0)(0x3FFF := 3, 0 := 0xAB))"

theorem wiz_poll_delivers_witness:
  "\<exists>x' q. pk_inv q \<and> pk_unread q = [0xAB] \<and> wiz_word (wiz_S 0) 0x28 (snd x') = 0x4001 \<and>
    wiz_poll RET_ERROR wiz_bus (\<lambda>_ p i x. (RET_SUCCESS, p, i, x)) (wiz_idle, None, wiz_one_frame) =
      Some (RET_SUCCESS, wiz_idle\<lparr>wz_rsr := 3, wz_len := 3, wz_packet := pk_clear q\<rparr>, x')"
proof -
  have c: "wiz_cell wiz_one_frame (wiz_R 0) a = of_nat (unat a mod 16384)" for a
    by (simp add: wiz_cell_def wiz_bytes_def wiz_one_frame_def wiz_S_def wiz_R_def)
  have w: "wiz_word (wiz_S 0) 0x26 wiz_one_frame = 3" "wiz_word (wiz_S 0) 0x28 wiz_one_frame = 0x3FFE"
    by (simp_all add: wiz_one_frame_def wiz_empty_mem_def wiz_word_def be16_def wiz_S_def wiz_R_def push_bit_eq_mult)
  have l: "wiz_load (wiz_R 0) 0x3FFE 2 wiz_one_frame = [0, 3]" "wiz_load (wiz_R 0) (0x3FFE + 2) 1 wiz_one_frame = [0xAB]"
    by (simp_all add: wiz_load_def c upt_rec) (simp_all add: wiz_one_frame_def wiz_S_def wiz_R_def)
  have p: "pk_inv (wz_packet wiz_idle)"
    unfolding wiz_idle_def by (simp add: pk_init_inv)
  show ?thesis
    using wiz_poll_delivers [OF wiz_bus_chip, where v = 3 and x = "(None, wiz_one_frame)" and p = "0x3FFE" and h = 0 and l = 3 and n = 1 and
        d = wiz_idle and u = "()" and unset = RET_ERROR and up = "\<lambda>_ p i x. (RET_SUCCESS, p, i, x)"] w p l
    by (simp add: be16_def call_waits_def) (simp add: wiz_idle_def pk_init_def pk_capacity_def)
qed

end
