(* ===== verification/ByteRegs.thy ===== *)
theory ByteRegs
  imports DriverBase
begin

unbundle bit_operations_syntax

text \<open>
  I2C devices with registers of 8 bits, for the drivers of the inertial and magnetic sensors and of the
  BMP3XX.  The contract is what their data sheets say of the bus, and a driver function is described by what
  it does to the registers of a device that keeps the contract.
\<close>

section \<open>The contract of the bus\<close>

text \<open>Writing a byte sets its register and no other one; a read returns consecutive registers.\<close>

definition byte_registers :: "'x bus \<Rightarrow> u16 \<Rightarrow> ('x \<Rightarrow> u16 \<Rightarrow> u8) \<Rightarrow> bool" where
  "byte_registers bus dev regs \<longleftrightarrow>
     (\<forall>x reg v. \<exists>x'. bus (I2cWrite dev reg [v]) x = (RET_SUCCESS, [], x') \<and> regs x' = (regs x)(reg := v)) \<and>
     (\<forall>x reg n. \<exists>x'. bus (I2cRead dev reg n) x = (RET_SUCCESS, map (\<lambda>i. regs x (reg + of_nat i)) [0..<n], x') \<and>
        regs x' = regs x)"

lemma byte_registers_write:
  assumes "byte_registers bus dev regs"
  obtains x' where "bus (I2cWrite dev reg [v]) x = (RET_SUCCESS, [], x')" "regs x' = (regs x)(reg := v)"
  using assms unfolding byte_registers_def by blast

lemma byte_registers_read:
  assumes "byte_registers bus dev regs"
  obtains x' where "bus (I2cRead dev reg n) x = (RET_SUCCESS, map (\<lambda>i. regs x (reg + of_nat i)) [0..<n], x')" "regs x' = regs x"
  using assms unfolding byte_registers_def by blast

lemma byte_registers_read1:
  assumes "byte_registers bus dev regs"
  obtains x' where "bus (I2cRead dev reg 1) x = (RET_SUCCESS, [regs x reg], x')" "regs x' = regs x"
  using byte_registers_read [OF assms, of reg 1 x thesis] by simp

text \<open>Such a device, alone on its bus.\<close>

fun byte_bus :: "(u16 \<Rightarrow> u8) bus" where
  "byte_bus (I2cWrite dev reg [v]) x = (RET_SUCCESS, [], x(reg := v))"
| "byte_bus (I2cRead dev reg n) x = (RET_SUCCESS, map (\<lambda>i. x (reg + of_nat i)) [0..<n], x)"
| "byte_bus ev x = (RET_SUCCESS, [], x)"

lemma byte_bus_registers: "byte_registers byte_bus dev (\<lambda>x. x)"
  by (auto simp: byte_registers_def)

section \<open>Calls that may be undefined\<close>

text \<open>\<open>None\<close> stands for what C++ leaves undefined; \<open>check_opt\<close> is \<open>ERROR_CHECK\<close> after such a call.\<close>

definition defined :: "('d, 'x) drv \<Rightarrow> ('d \<times> 'x, ret_type option) state" where
  "defined m = do {ret \<leftarrow> m; State_Monad.return (Some ret)}"

definition check_opt :: "('d \<times> 'x, ret_type option) state \<Rightarrow> ('d \<times> 'x, ret_type option) state \<Rightarrow> ('d \<times> 'x, ret_type option) state" where
  "check_opt m k = do {
     r \<leftarrow> m;
     case r of
       None \<Rightarrow> State_Monad.return None
     | Some ret \<Rightarrow>
         if call_waits ret then State_Monad.return r
         else if ret \<noteq> RET_SUCCESS then State_Monad.return (Some RET_ERROR)
         else k}"

lemma run_defined [simp]: "run_state (defined m) s = (case run_state m s of (ret, s') \<Rightarrow> (Some ret, s'))"
  by (simp add: defined_def)

lemma run_check_opt [simp]:
  "run_state (check_opt m k) s =
     (case run_state m s of (r, s') \<Rightarrow>
        case r of
          None \<Rightarrow> (None, s')
        | Some ret \<Rightarrow> if ret = RET_SUCCESS then run_state k s' else (Some (if call_waits ret then ret else RET_ERROR), s'))"
  by (auto simp: check_opt_def call_waits_def split: prod.split option.split)

section \<open>Effects on the registers\<close>

text \<open>
  From every state in which the members satisfy \<open>ok\<close>, \<open>m\<close> returns \<open>r\<close>, keeps \<open>ok\<close>, and changes the
  registers as \<open>f\<close> says.
\<close>

definition effect :: "('x \<Rightarrow> 'r) \<Rightarrow> ('d \<Rightarrow> bool) \<Rightarrow> ('d \<times> 'x, 'a) state \<Rightarrow> 'a \<Rightarrow> ('r \<Rightarrow> 'r) \<Rightarrow> bool" where
  "effect regs ok m r f \<longleftrightarrow>
     (\<forall>d x. ok d \<longrightarrow> (\<exists>d' x'. run_state m (d, x) = (r, d', x') \<and> ok d' \<and> regs x' = f (regs x)))"

named_theorems effects

lemma effectI:
  assumes "\<And>d x. ok d \<Longrightarrow> \<exists>d' x'. run_state m (d, x) = (r, d', x') \<and> ok d' \<and> regs x' = f (regs x)"
  shows "effect regs ok m r f"
  using assms by (simp add: effect_def)

lemma effectE:
  assumes "effect regs ok m r f" and "ok d"
  obtains d' x' where "run_state m (d, x) = (r, d', x')" "ok d'" "regs x' = f (regs x)"
  using assms unfolding effect_def by blast

lemma effect_return [effects]: "effect regs ok (State_Monad.return r) r (\<lambda>g. g)"
  by (rule effectI) simp

lemma effect_seq:
  assumes step: "\<And>d d'. run_state m d = (s, d') \<Longrightarrow> run_state c d = run_state k d'"
    and m: "effect regs ok m s f" and k: "effect regs ok k r h"
  shows "effect regs ok c r (\<lambda>g. h (f g))"
proof (rule effectI)
  fix d x assume "ok d"
  then obtain d1 x1 where 1: "run_state m (d, x) = (s, d1, x1)" "ok d1" "regs x1 = f (regs x)"
    by (rule effectE [OF m])
  obtain d2 x2 where "run_state k (d1, x1) = (r, d2, x2)" "ok d2" "regs x2 = h (regs x1)"
    by (rule effectE [OF k 1(2)])
  with 1 step [OF 1(1)] show "\<exists>d' x'. run_state c (d, x) = (r, d', x') \<and> ok d' \<and> regs x' = h (f (regs x))"
    by simp
qed

lemma effect_calls [effects]:
  assumes "effect regs ok m RET_SUCCESS f"
  shows "effect regs ok k r h \<Longrightarrow> effect regs ok (check_call m k) r (\<lambda>g. h (f g))"
    and "effect regs ok k r h \<Longrightarrow> effect regs ok (on_success m k) r (\<lambda>g. h (f g))"
    and "effect regs ok (k' RET_SUCCESS) r h \<Longrightarrow> effect regs ok (call_then m k') r (\<lambda>g. h (f g))"
  by (rule effect_seq [OF _ assms]; simp)+

lemma effect_check_opt [effects]:
  "effect regs ok m (Some RET_SUCCESS) f \<Longrightarrow> effect regs ok k r h \<Longrightarrow> effect regs ok (check_opt m k) r (\<lambda>g. h (f g))"
  by (rule effect_seq [where s = "Some RET_SUCCESS"]; simp)

lemma effect_defined [effects]: "effect regs ok m r f \<Longrightarrow> effect regs ok (defined m) (Some r) f"
  unfolding effect_def by (simp split: prod.split) (metis prod.inject)

lemma effect_mod_dev:
  assumes "\<And>d. ok d \<Longrightarrow> ok (u d)" and "effect regs ok m r f"
  shows "effect regs ok (State_Monad.bind (mod_dev u) (\<lambda>_. m)) r f"
  using assms by (simp add: effect_def)

lemma effect_cong: "effect regs ok m r f \<Longrightarrow> (\<And>g. f g = f' g) \<Longrightarrow> effect regs ok m r f'"
  by (simp add: effect_def)

lemma effect_run:
  assumes "effect regs ok m r f" and "ok d"
  shows "\<exists>d' x'. run_state m (d, x) = (r, d', x') \<and> regs x' = f (regs x)"
  using assms unfolding effect_def by blast

text \<open>Bits of a register that are replaced.\<close>

definition put_bits :: "u8 \<Rightarrow> u8 \<Rightarrow> u8 \<Rightarrow> u8" where
  "put_bits m val old = (old AND NOT m) OR val"

lemma put_bits_bit: "bit (put_bits m val old) n \<longleftrightarrow> n < 8 \<and> (bit old n \<and> \<not> bit m n \<or> bit val n)"
  by (auto simp: put_bits_def bit_simps dest: bit_imp_le_length)

lemma put_bits_put_bits: "put_bits m v (put_bits k w old) = put_bits (m OR k) (v OR (w AND NOT m)) old"
  by (rule bit_word_eqI) (auto simp: put_bits_bit bit_simps)

lemma put_bits_get: "val AND NOT m = 0 \<Longrightarrow> put_bits m val old AND m = val"
  by (rule bit_word_eqI) (auto simp: put_bits_bit bit_simps bit_eq_iff)

text \<open>A field of a struct of bits, the first one lowest: the value is cut to its width.\<close>

definition set_field :: "nat \<Rightarrow> nat \<Rightarrow> u8 \<Rightarrow> u8 \<Rightarrow> u8" where
  "set_field pos width v old = put_bits (push_bit pos (mask width)) (push_bit pos (take_bit width v)) old"

definition get_field :: "nat \<Rightarrow> nat \<Rightarrow> u8 \<Rightarrow> u8" where
  "get_field pos width r = take_bit width (drop_bit pos r)"

lemma get_set_field: "pos + width \<le> 8 \<Longrightarrow> get_field pos width (set_field pos width v old) = take_bit width v"
  by (rule bit_word_eqI) (auto simp: get_field_def set_field_def bit_simps put_bits_bit)

lemma get_field_other:
  "pos' + width' \<le> pos \<or> pos + width \<le> pos' \<Longrightarrow> get_field pos' width' (set_field pos width v old) = get_field pos' width' old"
  by (rule bit_word_eqI) (auto simp: get_field_def set_field_def bit_simps put_bits_bit dest: bit_imp_le_length)

section \<open>What a call keeps of the members\<close>

definition preserves :: "('d \<Rightarrow> bool) \<Rightarrow> ('d \<times> 'x, 'a) state \<Rightarrow> bool" where
  "preserves P m \<longleftrightarrow> (\<forall>d x. P d \<longrightarrow> P (fst (snd (run_state m (d, x)))))"

named_theorems preserving

lemma preservesD: "preserves P m \<Longrightarrow> P d \<Longrightarrow> run_state m (d, x) = (a, d', x') \<Longrightarrow> P d'"
  unfolding preserves_def by (metis fst_conv snd_conv)

lemma preserves_prims [preserving]:
  "preserves P (State_Monad.return a)" "preserves P get_dev" "preserves P (bus_call bus ev)" "preserves P (bus_do bus ev)"
  by (auto simp: preserves_def split: prod.split)

lemma preserves_mod [preserving]: "(\<And>d. P d \<Longrightarrow> P (f d)) \<Longrightarrow> preserves P (mod_dev f)"
  by (simp add: preserves_def)

lemma preserves_bind [preserving]: "preserves P m \<Longrightarrow> (\<And>a. preserves P (f a)) \<Longrightarrow> preserves P (State_Monad.bind m f)"
  by (simp add: preserves_def split: prod.split) (metis fst_conv snd_conv)

lemma preserves_cases [preserving]:
  "preserves P m \<Longrightarrow> preserves P k \<Longrightarrow> preserves P (if b then m else k)"
  "(\<And>a b. preserves P (g a b)) \<Longrightarrow> preserves P (case p of (a, b) \<Rightarrow> g a b)"
  "preserves P m \<Longrightarrow> (\<And>a. preserves P (h a)) \<Longrightarrow> preserves P (case r of None \<Rightarrow> m | Some a \<Rightarrow> h a)"
  by (simp_all split: prod.split option.split)

lemma preserves_calls [preserving]:
  "preserves P m \<Longrightarrow> preserves P k \<Longrightarrow> preserves P (on_success m k)" "preserves P m \<Longrightarrow> preserves P k \<Longrightarrow> preserves P (check_call m k)"
  "preserves P m \<Longrightarrow> (\<And>ret. preserves P (h ret)) \<Longrightarrow> preserves P (call_then m h)" "preserves P k \<Longrightarrow> preserves P (drv_sleep bus ms k)"
  unfolding on_success_def check_call_def call_then_def drv_sleep_def by (intro preserving; assumption)+

end
