(* ===== verification/LsmModel.thy ===== *)
theory LsmModel
  imports ByteRegs
begin

unbundle bit_operations_syntax

text \<open>
  The inertial unit LSM6DSL (src/device/peripherals/LSM6DSL/LSM6DSL.h).  A function that may do what C++
  leaves undefined returns an option: \<open>None\<close> stands for a write behind a variable.  The variable that
  is used before it has a value is a parameter: \<open>junk\<close> gives the byte it is taken for, from the state of
  the world at this moment.  The prefix LSM6DSL_ACC_GYRO of the constants is LSM here.
\<close>

section \<open>Registers and their fields\<close>

definition LSM_WHO_AM_I :: u8 where "LSM_WHO_AM_I = 0x6A"
definition LSM_FIFO_CTRL5 :: u8 where "LSM_FIFO_CTRL5 = 0x0A"
definition LSM_WHO_AM_I_REG :: u8 where "LSM_WHO_AM_I_REG = 0x0F"
definition LSM_CTRL1_XL :: u8 where "LSM_CTRL1_XL = 0x10"
definition LSM_CTRL2_G :: u8 where "LSM_CTRL2_G = 0x11"
definition LSM_CTRL3_C :: u8 where "LSM_CTRL3_C = 0x12"
definition LSM_CTRL10_C :: u8 where "LSM_CTRL10_C = 0x19"
definition LSM_OUTX_L_G :: u8 where "LSM_OUTX_L_G = 0x22"
definition LSM_OUTX_L_XL :: u8 where "LSM_OUTX_L_XL = 0x28"
definition LSM_TAP_CFG1 :: u8 where "LSM_TAP_CFG1 = 0x58"
definition LSM_TAP_THS_6D :: u8 where "LSM_TAP_THS_6D = 0x59"
definition LSM_WAKE_UP_DUR :: u8 where "LSM_WAKE_UP_DUR = 0x5C"
definition LSM_FREE_FALL :: u8 where "LSM_FREE_FALL = 0x5D"
definition LSM_MD1_CFG :: u8 where "LSM_MD1_CFG = 0x5E"
definition LSM_MD2_CFG :: u8 where "LSM_MD2_CFG = 0x5F"
definition LSM_WHO_AM_I_BIT_MASK :: u8 where "LSM_WHO_AM_I_BIT_MASK = 0xFF"
definition LSM_BDU_BLOCK_UPDATE :: u8 where "LSM_BDU_BLOCK_UPDATE = 0x40"
definition LSM_BDU_MASK :: u8 where "LSM_BDU_MASK = 0x40"
definition LSM_FS_XL_2g :: u8 where "LSM_FS_XL_2g = 0x00"
definition LSM_FS_XL_16g :: u8 where "LSM_FS_XL_16g = 0x04"
definition LSM_FS_XL_4g :: u8 where "LSM_FS_XL_4g = 0x08"
definition LSM_FS_XL_8g :: u8 where "LSM_FS_XL_8g = 0x0C"
definition LSM_FS_XL_MASK :: u8 where "LSM_FS_XL_MASK = 0x0C"
definition LSM_ODR_XL_104Hz :: u8 where "LSM_ODR_XL_104Hz = 0x40"
definition LSM_ODR_XL_416Hz :: u8 where "LSM_ODR_XL_416Hz = 0x60"
definition LSM_ODR_XL_MASK :: u8 where "LSM_ODR_XL_MASK = 0xF0"
definition LSM_FS_G_125dps :: u8 where "LSM_FS_G_125dps = 0xFF"
definition LSM_FS_G_245dps :: u8 where "LSM_FS_G_245dps = 0x00"
definition LSM_FS_G_500dps :: u8 where "LSM_FS_G_500dps = 0x04"
definition LSM_FS_G_1000dps :: u8 where "LSM_FS_G_1000dps = 0x08"
definition LSM_FS_G_2000dps :: u8 where "LSM_FS_G_2000dps = 0x0C"
definition LSM_FS_G_MASK :: u8 where "LSM_FS_G_MASK = 0x0C"
definition LSM_ODR_G_26Hz :: u8 where "LSM_ODR_G_26Hz = 0x20"
definition LSM_ODR_G_104Hz :: u8 where "LSM_ODR_G_104Hz = 0x40"
definition LSM_ODR_G_MASK :: u8 where "LSM_ODR_G_MASK = 0xF0"
definition LSM_FS_125_DISABLED :: u8 where "LSM_FS_125_DISABLED = 0x00"
definition LSM_FS_125_ENABLED :: u8 where "LSM_FS_125_ENABLED = 0x02"
definition LSM_FS_125_MASK :: u8 where "LSM_FS_125_MASK = 0x02"
definition LSM_FIFO_MODE_BYPASS :: u8 where "LSM_FIFO_MODE_BYPASS = 0x00"
definition LSM_FIFO_MODE_MASK :: u8 where "LSM_FIFO_MODE_MASK = 0x07"
definition LSM_IF_INC_ENABLED :: u8 where "LSM_IF_INC_ENABLED = 0x04"
definition LSM_IF_INC_MASK :: u8 where "LSM_IF_INC_MASK = 0x04"
definition LSM_FUNC_EN_DISABLED :: u8 where "LSM_FUNC_EN_DISABLED = 0x00"
definition LSM_FUNC_EN_ENABLED :: u8 where "LSM_FUNC_EN_ENABLED = 0x04"
definition LSM_FUNC_EN_MASK :: u8 where "LSM_FUNC_EN_MASK = 0x04"
definition LSM_TILT_DISABLED :: u8 where "LSM_TILT_DISABLED = 0x00"
definition LSM_TILT_ENABLED :: u8 where "LSM_TILT_ENABLED = 0x08"
definition LSM_TILT_MASK :: u8 where "LSM_TILT_MASK = 0x08"
definition LSM_BASIC_INT_DISABLED :: u8 where "LSM_BASIC_INT_DISABLED = 0x00"
definition LSM_BASIC_INT_ENABLED :: u8 where "LSM_BASIC_INT_ENABLED = 0x80"
definition LSM_INT_EN_MASK :: u8 where "LSM_INT_EN_MASK = 0x80"
definition LSM_SIXD_THS_80_degree :: u8 where "LSM_SIXD_THS_80_degree = 0x00"
definition LSM_SIXD_THS_60_degree :: u8 where "LSM_SIXD_THS_60_degree = 0x40"
definition LSM_SIXD_THS_MASK :: u8 where "LSM_SIXD_THS_MASK = 0x60"
definition LSM_SLEEP_DUR_MASK :: u8 where "LSM_SLEEP_DUR_MASK = 0x0F"
definition LSM_SLEEP_DUR_POSITION :: nat where "LSM_SLEEP_DUR_POSITION = 0"
definition LSM_TIMER_HR_6_4ms :: u8 where "LSM_TIMER_HR_6_4ms = 0x00"
definition LSM_TIMER_HR_MASK :: u8 where "LSM_TIMER_HR_MASK = 0x10"
definition LSM_WAKE_DUR_MASK :: u8 where "LSM_WAKE_DUR_MASK = 0x60"
definition LSM_WAKE_DUR_POSITION :: nat where "LSM_WAKE_DUR_POSITION = 5"
definition LSM_FF_FREE_FALL_DUR_MASK :: u8 where "LSM_FF_FREE_FALL_DUR_MASK = 0xF8"
definition LSM_FF_FREE_FALL_DUR_POSITION :: nat where "LSM_FF_FREE_FALL_DUR_POSITION = 3"
definition LSM_FF_WAKE_UP_DUR_MASK :: u8 where "LSM_FF_WAKE_UP_DUR_MASK = 0x80"
definition LSM_FF_WAKE_UP_DUR_POSITION :: nat where "LSM_FF_WAKE_UP_DUR_POSITION = 7"
definition LSM_FF_THS_156mg :: u8 where "LSM_FF_THS_156mg = 0x00"
definition LSM_FF_THS_312mg :: u8 where "LSM_FF_THS_312mg = 0x03"
definition LSM_FF_THS_MASK :: u8 where "LSM_FF_THS_MASK = 0x07"
definition LSM_INT1_TILT_DISABLED :: u8 where "LSM_INT1_TILT_DISABLED = 0x00"
definition LSM_INT1_TILT_ENABLED :: u8 where "LSM_INT1_TILT_ENABLED = 0x02"
definition LSM_INT1_TILT_MASK :: u8 where "LSM_INT1_TILT_MASK = 0x02"
definition LSM_INT1_6D_DISABLED :: u8 where "LSM_INT1_6D_DISABLED = 0x00"
definition LSM_INT1_6D_ENABLED :: u8 where "LSM_INT1_6D_ENABLED = 0x04"
definition LSM_INT1_6D_MASK :: u8 where "LSM_INT1_6D_MASK = 0x04"
definition LSM_INT1_FF_DISABLED :: u8 where "LSM_INT1_FF_DISABLED = 0x00"
definition LSM_INT1_FF_ENABLED :: u8 where "LSM_INT1_FF_ENABLED = 0x10"
definition LSM_INT1_FF_MASK :: u8 where "LSM_INT1_FF_MASK = 0x10"
definition LSM_INT2_TILT_DISABLED :: u8 where "LSM_INT2_TILT_DISABLED = 0x00"
definition LSM_INT2_TILT_ENABLED :: u8 where "LSM_INT2_TILT_ENABLED = 0x02"
definition LSM_INT2_TILT_MASK :: u8 where "LSM_INT2_TILT_MASK = 0x02"
definition LSM_INT2_6D_DISABLED :: u8 where "LSM_INT2_6D_DISABLED = 0x00"
definition LSM_INT2_6D_ENABLED :: u8 where "LSM_INT2_6D_ENABLED = 0x04"
definition LSM_INT2_6D_MASK :: u8 where "LSM_INT2_6D_MASK = 0x04"
definition LSM_INT2_FF_MASK :: u8 where "LSM_INT2_FF_MASK = 0x10"

lemmas lsm_constants =
  LSM_WHO_AM_I_def LSM_FIFO_CTRL5_def LSM_WHO_AM_I_REG_def LSM_CTRL1_XL_def LSM_CTRL2_G_def LSM_CTRL3_C_def
  LSM_CTRL10_C_def LSM_OUTX_L_G_def LSM_OUTX_L_XL_def LSM_TAP_CFG1_def LSM_TAP_THS_6D_def LSM_WAKE_UP_DUR_def
  LSM_FREE_FALL_def LSM_MD1_CFG_def LSM_MD2_CFG_def LSM_WHO_AM_I_BIT_MASK_def LSM_BDU_BLOCK_UPDATE_def
  LSM_BDU_MASK_def LSM_FS_XL_2g_def LSM_FS_XL_16g_def LSM_FS_XL_4g_def LSM_FS_XL_8g_def LSM_FS_XL_MASK_def
  LSM_ODR_XL_104Hz_def LSM_ODR_XL_416Hz_def LSM_ODR_XL_MASK_def LSM_FS_G_125dps_def LSM_FS_G_245dps_def
  LSM_FS_G_500dps_def LSM_FS_G_1000dps_def LSM_FS_G_2000dps_def LSM_FS_G_MASK_def LSM_ODR_G_26Hz_def
  LSM_ODR_G_104Hz_def LSM_ODR_G_MASK_def LSM_FS_125_DISABLED_def LSM_FS_125_ENABLED_def LSM_FS_125_MASK_def
  LSM_FIFO_MODE_BYPASS_def LSM_FIFO_MODE_MASK_def LSM_IF_INC_ENABLED_def LSM_IF_INC_MASK_def
  LSM_FUNC_EN_DISABLED_def LSM_FUNC_EN_ENABLED_def LSM_FUNC_EN_MASK_def LSM_TILT_DISABLED_def
  LSM_TILT_ENABLED_def LSM_TILT_MASK_def LSM_BASIC_INT_DISABLED_def LSM_BASIC_INT_ENABLED_def
  LSM_INT_EN_MASK_def LSM_SIXD_THS_80_degree_def LSM_SIXD_THS_60_degree_def LSM_SIXD_THS_MASK_def
  LSM_SLEEP_DUR_MASK_def LSM_SLEEP_DUR_POSITION_def LSM_TIMER_HR_6_4ms_def LSM_TIMER_HR_MASK_def
  LSM_WAKE_DUR_MASK_def LSM_WAKE_DUR_POSITION_def LSM_FF_FREE_FALL_DUR_MASK_def
  LSM_FF_FREE_FALL_DUR_POSITION_def LSM_FF_WAKE_UP_DUR_MASK_def LSM_FF_WAKE_UP_DUR_POSITION_def
  LSM_FF_THS_156mg_def LSM_FF_THS_312mg_def LSM_FF_THS_MASK_def LSM_INT1_TILT_DISABLED_def
  LSM_INT1_TILT_ENABLED_def LSM_INT1_TILT_MASK_def LSM_INT1_6D_DISABLED_def LSM_INT1_6D_ENABLED_def
  LSM_INT1_6D_MASK_def LSM_INT1_FF_DISABLED_def LSM_INT1_FF_ENABLED_def LSM_INT1_FF_MASK_def
  LSM_INT2_TILT_DISABLED_def LSM_INT2_TILT_ENABLED_def LSM_INT2_TILT_MASK_def LSM_INT2_6D_DISABLED_def
  LSM_INT2_6D_ENABLED_def LSM_INT2_6D_MASK_def LSM_INT2_FF_MASK_def

section \<open>State\<close>

record lsm =
  ls_dev_addr :: u16
  ls_mem_addr :: u16
  ls_buff :: "u8 list"
  ls_sens :: u8
  ls_samples :: u8
  ls_errs :: u8
  ls_calib :: "int list"
  ls_accel_bias :: "int list"
  ls_gyro_bias :: "int list"

datatype lsm_pin = LSM6DSL_INT1_PIN | LSM6DSL_INT2_PIN

definition LSM6DSL_I2C_ADDR_SECONDARY :: u16 where
  "LSM6DSL_I2C_ADDR_SECONDARY = 0x6B"

definition NUM_CALIBRATION_SAMPLES :: int where
  "NUM_CALIBRATION_SAMPLES = 50"

definition lsm_new :: "u16 \<Rightarrow> lsm" where
  "lsm_new address =
     \<lparr>ls_dev_addr = push_bit 1 address, ls_mem_addr = 0, ls_buff = replicate 12 0, ls_sens = 0, ls_samples = 0, ls_errs = 0,
      ls_calib = replicate 6 0, ls_accel_bias = replicate 3 0, ls_gyro_bias = replicate 3 0\<rparr>"

section \<open>Access to registers\<close>

text \<open>A read returns its code and what was read, which the caller puts where the code's pointer leads.\<close>

definition lsm_read :: "'x bus \<Rightarrow> u8 \<Rightarrow> nat \<Rightarrow> (lsm \<times> 'x, ret_type \<times> u8 list) state" where
  "lsm_read bus reg len = do {
     mod_dev (\<lambda>d. d\<lparr>ls_mem_addr := ucast reg\<rparr>);
     d \<leftarrow> get_dev;
     bus_call bus (I2cRead (ls_dev_addr d) (ls_mem_addr d) len)}"

definition lsm_read_buff :: "'x bus \<Rightarrow> u8 \<Rightarrow> nat \<Rightarrow> (lsm, 'x) drv" where
  "lsm_read_buff bus reg len = do {
     (ret, data) \<leftarrow> lsm_read bus reg len;
     mod_dev (\<lambda>d. d\<lparr>ls_buff := fill data (ls_buff d)\<rparr>);
     State_Monad.return ret}"

text \<open>The masked reads: of the identification into the buffer, and of one byte into the sensitivity.\<close>

definition lsm_read_masked :: "'x bus \<Rightarrow> u8 \<Rightarrow> u8 \<Rightarrow> (lsm, 'x) drv" where
  "lsm_read_masked bus reg m =
     call_then (lsm_read_buff bus reg 1) (\<lambda>ret. do {
       mod_dev (\<lambda>d. d\<lparr>ls_buff := (ls_buff d)[0 := ls_buff d ! 0 AND m]\<rparr>);
       State_Monad.return ret})"

definition lsm_read_sens :: "'x bus \<Rightarrow> u8 \<Rightarrow> u8 \<Rightarrow> (lsm, 'x) drv" where
  "lsm_read_sens bus reg m = do {
     (ret, data) \<leftarrow> lsm_read bus reg 1;
     mod_dev (\<lambda>d. d\<lparr>ls_sens := (case data of [] \<Rightarrow> ls_sens d | b # _ \<Rightarrow> b)\<rparr>);
     if call_waits ret then State_Monad.return ret
     else do {mod_dev (\<lambda>d. d\<lparr>ls_sens := ls_sens d AND m\<rparr>); State_Monad.return ret}}"

definition lsm_write :: "'x bus \<Rightarrow> u8 \<Rightarrow> u8 \<Rightarrow> u8 \<Rightarrow> (lsm, 'x) drv" where
  "lsm_write bus reg val m =
     call_then (lsm_read_buff bus reg 1) (\<lambda>ret.
       if ret = RET_SUCCESS then do {
         mod_dev (\<lambda>d. d\<lparr>ls_buff := (ls_buff d)[0 := put_bits m val (ls_buff d ! 0)]\<rparr>);
         d \<leftarrow> get_dev;
         bus_do bus (I2cWrite (ls_dev_addr d) (ls_mem_addr d) [ls_buff d ! 0])}
       else State_Monad.return ret)"

definition lsm_check_chip_id :: "'x bus \<Rightarrow> (lsm, 'x) drv" where
  "lsm_check_chip_id bus =
     call_then (lsm_read_masked bus LSM_WHO_AM_I_REG LSM_WHO_AM_I_BIT_MASK) (\<lambda>ret. do {
       d \<leftarrow> get_dev;
       State_Monad.return (if ret = RET_SUCCESS \<and> LSM_WHO_AM_I \<noteq> ls_buff d ! 0 then RET_ERROR else ret)})"

section \<open>Settings\<close>

definition lsm_set_accel_full_scale :: "'x bus \<Rightarrow> u8 \<Rightarrow> (lsm, 'x) drv" where
  "lsm_set_accel_full_scale bus fullScale = do {
     mod_dev (\<lambda>d. d\<lparr>ls_buff := (ls_buff d)[0 := fullScale]\<rparr>);
     lsm_write bus LSM_CTRL1_XL fullScale LSM_FS_XL_MASK}"

definition lsm_set_accel_odr :: "'x bus \<Rightarrow> u8 \<Rightarrow> (lsm, 'x) drv" where
  "lsm_set_accel_odr bus odr = do {
     mod_dev (\<lambda>d. d\<lparr>ls_buff := (ls_buff d)[0 := odr]\<rparr>);
     lsm_write bus LSM_CTRL1_XL odr LSM_ODR_XL_MASK}"

definition lsm_set_gyro_full_scale :: "'x bus \<Rightarrow> u8 \<Rightarrow> (lsm, 'x) drv" where
  "lsm_set_gyro_full_scale bus fullScale =
     (if LSM_FS_G_125dps = fullScale then lsm_write bus LSM_CTRL2_G LSM_FS_125_ENABLED LSM_FS_125_MASK
      else
        call_then (lsm_write bus LSM_CTRL2_G LSM_FS_125_DISABLED LSM_FS_125_MASK) (\<lambda>ret.
          if ret = RET_SUCCESS then lsm_write bus LSM_CTRL2_G fullScale LSM_FS_G_MASK else State_Monad.return ret))"

definition lsm_set_gyro_odr :: "'x bus \<Rightarrow> u8 \<Rightarrow> (lsm, 'x) drv" where
  "lsm_set_gyro_odr bus odr = do {
     mod_dev (\<lambda>d. d\<lparr>ls_buff := (ls_buff d)[0 := odr]\<rparr>);
     lsm_write bus LSM_CTRL2_G odr LSM_ODR_G_MASK}"

text \<open>The two parts of the duration of a free fall.\<close>

definition ff_low :: "u8 \<Rightarrow> u8" where
  "ff_low duration = push_bit LSM_FF_FREE_FALL_DUR_POSITION (duration AND 0x1F) AND LSM_FF_FREE_FALL_DUR_MASK"

definition ff_high :: "u8 \<Rightarrow> u8" where
  "ff_high duration = push_bit LSM_FF_WAKE_UP_DUR_POSITION (drop_bit 5 duration AND 0x1) AND LSM_FF_WAKE_UP_DUR_MASK"

text \<open>The cases of the last part of \<open>enableFreeFallDetection\<close> fall through to the default.\<close>

definition lsm_free_fall_pins :: "'x bus \<Rightarrow> lsm_pin \<Rightarrow> (lsm, 'x) drv" where
  "lsm_free_fall_pins bus pin =
     (let int2 = on_success (lsm_write bus LSM_MD2_CFG LSM_INT1_FF_ENABLED LSM_INT2_FF_MASK) (State_Monad.return RET_ERROR)
      in case pin of
           LSM6DSL_INT1_PIN \<Rightarrow> on_success (lsm_write bus LSM_MD1_CFG LSM_INT1_FF_ENABLED LSM_INT1_FF_MASK) int2
         | LSM6DSL_INT2_PIN \<Rightarrow> int2)"

definition lsm_enable_free_fall :: "'x bus \<Rightarrow> lsm_pin \<Rightarrow> (lsm, 'x) drv" where
  "lsm_enable_free_fall bus pin =
     check_call (lsm_set_accel_odr bus LSM_ODR_XL_416Hz) (
     check_call (lsm_write bus LSM_CTRL1_XL LSM_FS_XL_2g LSM_FS_XL_MASK) (
     check_call (lsm_write bus LSM_FREE_FALL (ff_low 0x06) LSM_FF_FREE_FALL_DUR_MASK) (
     check_call (lsm_write bus LSM_WAKE_UP_DUR (ff_high 0x06) LSM_FS_XL_MASK) (
     check_call (lsm_write bus LSM_WAKE_UP_DUR (push_bit LSM_WAKE_DUR_POSITION 0 AND LSM_WAKE_DUR_MASK) LSM_WAKE_DUR_MASK) (
     check_call (lsm_write bus LSM_WAKE_UP_DUR LSM_TIMER_HR_6_4ms LSM_TIMER_HR_MASK) (
     check_call (lsm_write bus LSM_WAKE_UP_DUR (push_bit LSM_SLEEP_DUR_POSITION 0 AND LSM_SLEEP_DUR_MASK) LSM_SLEEP_DUR_MASK) (
     check_call (lsm_write bus LSM_CTRL1_XL LSM_FF_THS_312mg LSM_FF_THS_MASK) (
     check_call (lsm_write bus LSM_TAP_CFG1 LSM_BASIC_INT_ENABLED LSM_INT_EN_MASK) (
     lsm_free_fall_pins bus pin)))))))))"

definition lsm_disable_free_fall :: "'x bus \<Rightarrow> (lsm, 'x) drv" where
  "lsm_disable_free_fall bus =
     check_call (lsm_write bus LSM_MD1_CFG LSM_INT1_FF_DISABLED LSM_INT1_FF_MASK) (
     check_call (lsm_write bus LSM_MD2_CFG LSM_INT1_FF_DISABLED LSM_INT2_FF_MASK) (
     check_call (lsm_write bus LSM_TAP_CFG1 LSM_BASIC_INT_DISABLED LSM_INT_EN_MASK) (
     check_call (lsm_write bus LSM_FREE_FALL (ff_low 0x00) LSM_FF_FREE_FALL_DUR_MASK) (
     check_call (lsm_write bus LSM_WAKE_UP_DUR (ff_high 0x00) LSM_FS_XL_MASK) (
     lsm_write bus LSM_CTRL1_XL LSM_FF_THS_156mg LSM_FF_THS_MASK)))))"

definition lsm_set_free_fall_threshold :: "'x bus \<Rightarrow> u8 \<Rightarrow> (lsm, 'x) drv" where
  "lsm_set_free_fall_threshold bus threshold = lsm_write bus LSM_FREE_FALL threshold LSM_FF_THS_MASK"

definition lsm_enable_tilt :: "'x bus \<Rightarrow> lsm_pin \<Rightarrow> (lsm, 'x) drv" where
  "lsm_enable_tilt bus pin =
     check_call (lsm_set_gyro_odr bus LSM_ODR_G_26Hz) (
     check_call (lsm_set_gyro_full_scale bus LSM_FS_G_125dps) (
     check_call (lsm_write bus LSM_CTRL10_C LSM_FUNC_EN_ENABLED LSM_FUNC_EN_MASK) (
     check_call (lsm_write bus LSM_CTRL10_C LSM_TILT_ENABLED LSM_TILT_MASK) (
     case pin of
       LSM6DSL_INT1_PIN \<Rightarrow> lsm_write bus LSM_MD1_CFG LSM_INT1_TILT_ENABLED LSM_INT1_TILT_MASK
     | LSM6DSL_INT2_PIN \<Rightarrow> lsm_write bus LSM_MD2_CFG LSM_INT2_TILT_ENABLED LSM_INT2_TILT_MASK))))"

definition lsm_disable_tilt :: "'x bus \<Rightarrow> (lsm, 'x) drv" where
  "lsm_disable_tilt bus =
     check_call (lsm_write bus LSM_MD1_CFG LSM_INT1_TILT_DISABLED LSM_INT1_TILT_MASK) (
     check_call (lsm_write bus LSM_MD2_CFG LSM_INT2_TILT_DISABLED LSM_INT2_TILT_MASK) (
     check_call (lsm_write bus LSM_CTRL10_C LSM_TILT_DISABLED LSM_TILT_MASK) (
     lsm_write bus LSM_CTRL10_C LSM_FUNC_EN_DISABLED LSM_FUNC_EN_MASK)))"

definition lsm_enable_6d :: "'x bus \<Rightarrow> lsm_pin \<Rightarrow> (lsm, 'x) drv" where
  "lsm_enable_6d bus pin =
     check_call (lsm_set_accel_odr bus LSM_ODR_XL_416Hz) (
     check_call (lsm_set_accel_full_scale bus LSM_FS_XL_2g) (
     check_call (lsm_write bus LSM_TAP_THS_6D LSM_SIXD_THS_60_degree LSM_SIXD_THS_MASK) (
     check_call (lsm_write bus LSM_TAP_CFG1 LSM_BASIC_INT_ENABLED LSM_INT_EN_MASK) (
     case pin of
       LSM6DSL_INT1_PIN \<Rightarrow> lsm_write bus LSM_MD1_CFG LSM_INT1_6D_ENABLED LSM_INT1_6D_MASK
     | LSM6DSL_INT2_PIN \<Rightarrow> lsm_write bus LSM_MD2_CFG LSM_INT2_6D_ENABLED LSM_INT2_6D_MASK))))"

definition lsm_disable_6d :: "'x bus \<Rightarrow> (lsm, 'x) drv" where
  "lsm_disable_6d bus =
     check_call (lsm_write bus LSM_MD1_CFG LSM_INT1_6D_DISABLED LSM_INT1_6D_MASK) (
     check_call (lsm_write bus LSM_MD2_CFG LSM_INT2_6D_DISABLED LSM_INT2_6D_MASK) (
     check_call (lsm_write bus LSM_TAP_CFG1 LSM_BASIC_INT_DISABLED LSM_INT_EN_MASK) (
     lsm_write bus LSM_TAP_THS_6D LSM_SIXD_THS_80_degree LSM_SIXD_THS_MASK)))"

section \<open>Measurements\<close>

definition GRAVITY :: "(rat \<Rightarrow> rat) \<Rightarrow> rat" where
  "GRAVITY fl = fl (980665 / 100000)"

definition determine_accel_sens :: "(rat \<Rightarrow> rat) \<Rightarrow> u8 \<Rightarrow> rat" where
  "determine_accel_sens fl v =
     (if v = LSM_FS_XL_2g then fl (61 / 1000)
      else if v = LSM_FS_XL_4g then fl (122 / 1000)
      else if v = LSM_FS_XL_8g then fl (244 / 1000)
      else if v = LSM_FS_XL_16g then fl (488 / 1000)
      else fl (61 / 1000))"

definition determine_gyro_sens :: "u8 \<Rightarrow> rat" where
  "determine_gyro_sens v =
     (if v = LSM_FS_G_245dps then 35 / 4
      else if v = LSM_FS_G_500dps then 35 / 2
      else if v = LSM_FS_G_1000dps then 35
      else if v = LSM_FS_G_2000dps then 70
      else 35 / 8)"

definition lsm_axes_raw :: "'x bus \<Rightarrow> (lsm, 'x) drv" where
  "lsm_axes_raw bus = lsm_read_buff bus LSM_OUTX_L_G 12"

definition lsm_accel_axes_raw :: "'x bus \<Rightarrow> (lsm, 'x) drv" where
  "lsm_accel_axes_raw bus = lsm_read_buff bus LSM_OUTX_L_XL 6"

definition lsm_gyro_axes_raw :: "'x bus \<Rightarrow> (lsm, 'x) drv" where
  "lsm_gyro_axes_raw bus = lsm_read_buff bus LSM_OUTX_L_G 6"

text \<open>The mask stands where the number of bytes is meant: what is read goes behind the one byte.\<close>

definition lsm_get_accel_sens :: "'x bus \<Rightarrow> (lsm \<times> 'x, ret_type option) state" where
  "lsm_get_accel_sens bus = do {
     (ret, data) \<leftarrow> lsm_read bus LSM_CTRL1_XL (unat LSM_FS_XL_MASK);
     if length data > 1 then State_Monad.return None
     else do {
       mod_dev (\<lambda>d. d\<lparr>ls_sens := (case data of [] \<Rightarrow> ls_sens d | b # _ \<Rightarrow> b)\<rparr>);
       State_Monad.return (Some ret)}}"

definition lsm_get_gyro_sens :: "'x bus \<Rightarrow> (lsm, 'x) drv" where
  "lsm_get_gyro_sens bus =
     call_then (lsm_read_sens bus LSM_CTRL2_G LSM_FS_125_MASK) (\<lambda>ret. do {
       d \<leftarrow> get_dev;
       if ret = RET_SUCCESS \<and> LSM_FS_125_ENABLED \<noteq> ls_sens d then lsm_read_sens bus LSM_CTRL2_G LSM_FS_G_MASK
       else do {mod_dev (\<lambda>d. d\<lparr>ls_sens := 0xFF\<rparr>); State_Monad.return ret}})"

text \<open>A value in mg becomes one in m/s^2.\<close>

definition accel_value :: "(rat \<Rightarrow> rat) \<Rightarrow> rat \<Rightarrow> int \<Rightarrow> int" where
  "accel_value fl sens raw =
     (let mg = trunc_int (fl (of_int raw * sens)) in trunc_int (fl (fl (fl (of_int mg) * GRAVITY fl) / 1000)))"

definition lsm_calculate_accel ::
  "(rat \<Rightarrow> rat) \<Rightarrow> 'x bus \<Rightarrow> u8 list \<Rightarrow> (lsm \<times> 'x, (ret_type \<times> int list option) option) state" where
  "lsm_calculate_accel fl bus b = do {
     r \<leftarrow> lsm_get_accel_sens bus;
     d \<leftarrow> get_dev;
     State_Monad.return (case r of
         None \<Rightarrow> None
       | Some ret \<Rightarrow>
           Some (ret,
             if ret = RET_SUCCESS
             then (let sens = determine_accel_sens fl (ls_sens d)
                   in Some (map (accel_value fl sens) [s16 [b ! 1, b ! 0], s16 [b ! 3, b ! 2], s16 [b ! 5, b ! 4]]))
             else None))}"

text \<open>The sensitivity is looked up by itself, before it has a value.\<close>

definition lsm_calculate_gyro ::
  "(rat \<Rightarrow> rat) \<Rightarrow> ('x \<Rightarrow> u8) \<Rightarrow> 'x bus \<Rightarrow> u8 list \<Rightarrow> (lsm \<times> 'x, (ret_type \<times> int list option)) state" where
  "lsm_calculate_gyro fl junk bus b = do {
     ret \<leftarrow> lsm_get_gyro_sens bus;
     x \<leftarrow> State (\<lambda>(d, x). (x, d, x));
     State_Monad.return (ret,
       if ret = RET_SUCCESS
       then (let sens = determine_gyro_sens (junk x)
             in Some (map (\<lambda>raw. trunc_int (fl (of_int raw * sens))) [s16 [b ! 1, b ! 0], s16 [b ! 3, b ! 2], s16 [b ! 5, b ! 4]]))
       else None)}"

definition lsm_get_accel_axes :: "(rat \<Rightarrow> rat) \<Rightarrow> 'x bus \<Rightarrow> (lsm \<times> 'x, (ret_type \<times> int list option) option) state" where
  "lsm_get_accel_axes fl bus = do {
     ret \<leftarrow> lsm_accel_axes_raw bus;
     d \<leftarrow> get_dev;
     if ret = RET_SUCCESS then lsm_calculate_accel fl bus (ls_buff d) else State_Monad.return (Some (ret, None))}"

definition lsm_get_gyro_axes :: "(rat \<Rightarrow> rat) \<Rightarrow> ('x \<Rightarrow> u8) \<Rightarrow> 'x bus \<Rightarrow> (lsm \<times> 'x, ret_type \<times> int list option) state" where
  "lsm_get_gyro_axes fl junk bus = do {
     ret \<leftarrow> lsm_gyro_axes_raw bus;
     d \<leftarrow> get_dev;
     if ret = RET_SUCCESS then lsm_calculate_gyro fl junk bus (ls_buff d) else State_Monad.return (ret, None)}"

text \<open>
  All six values, the accelerations first.  The gyroscope's are stored before the others are computed: what
  was stored is a list of options.
\<close>

definition lsm_get_six ::
  "(rat \<Rightarrow> rat) \<Rightarrow> ('x \<Rightarrow> u8) \<Rightarrow> 'x bus \<Rightarrow> (lsm \<times> 'x, (ret_type \<times> int list option \<times> int list option) option) state" where
  "lsm_get_six fl junk bus = do {
     ret \<leftarrow> lsm_axes_raw bus;
     if ret \<noteq> RET_SUCCESS then State_Monad.return (Some (if call_waits ret then ret else RET_ERROR, None, None))
     else do {
       d \<leftarrow> get_dev;
       (ret, gv) \<leftarrow> lsm_calculate_gyro fl junk bus (ls_buff d);
       if ret \<noteq> RET_SUCCESS then State_Monad.return (Some (if call_waits ret then ret else RET_ERROR, None, gv))
       else do {
         d \<leftarrow> get_dev;
         a \<leftarrow> lsm_calculate_accel fl bus (drop 6 (ls_buff d));
         State_Monad.return (map_option (\<lambda>(ret, av). (ret, av, gv)) a)}}}"

definition minus_lists :: "int list \<Rightarrow> int list \<Rightarrow> int list" where
  "minus_lists xs ys = map2 (\<lambda>x y. x - y) xs ys"

text \<open>\<open>getData\<close> on a data structure: the biases are taken off whatever the outcome.\<close>

definition lsm_get_data ::
  "(rat \<Rightarrow> rat) \<Rightarrow> ('x \<Rightarrow> u8) \<Rightarrow> 'x bus \<Rightarrow> int list \<times> int list \<Rightarrow> (lsm \<times> 'x, (ret_type \<times> int list \<times> int list) option) state" where
  "lsm_get_data fl junk bus old = do {
     r \<leftarrow> lsm_get_six fl junk bus;
     d \<leftarrow> get_dev;
     State_Monad.return (case r of
         None \<Rightarrow> None
       | Some (ret, av, gv) \<Rightarrow>
           (let a = (case av of None \<Rightarrow> fst old | Some v \<Rightarrow> v); g = (case gv of None \<Rightarrow> snd old | Some v \<Rightarrow> v)
            in Some (if call_waits ret then (ret, a, g)
                     else (ret, minus_lists a (ls_accel_bias d), minus_lists g (ls_gyro_bias d)))))}"

section \<open>Calibration and start-up\<close>

definition quot_int :: "int \<Rightarrow> int \<Rightarrow> int" where
  "quot_int a b = (if a < 0 then - (- a div b) else a div b)"

definition lsm_add_sample :: "int list option \<Rightarrow> int list option \<Rightarrow> lsm \<Rightarrow> lsm" where
  "lsm_add_sample av gv d =
     (let calib = (case av of None \<Rightarrow> take 3 (ls_calib d) | Some v \<Rightarrow> v) @ (case gv of None \<Rightarrow> drop 3 (ls_calib d) | Some v \<Rightarrow> v)
      in d\<lparr>ls_calib := calib, ls_accel_bias := map2 (+) (ls_accel_bias d) (take 3 calib),
           ls_gyro_bias := map2 (+) (ls_gyro_bias d) (drop 3 calib)\<rparr>)"

text \<open>The two counters are arguments of the loop, which keeps the members up to date.\<close>

function lsm_calib_loop :: "(rat \<Rightarrow> rat) \<Rightarrow> ('x \<Rightarrow> u8) \<Rightarrow> 'x bus \<Rightarrow> u8 \<Rightarrow> u8 \<Rightarrow> lsm \<times> 'x \<Rightarrow> ret_type option \<times> lsm \<times> 'x" where
  "lsm_calib_loop fl junk bus n e dx =
     (if unat n < 50 then
        (case run_state (lsm_get_six fl junk bus) dx of
           (None, dx1) \<Rightarrow> (None, dx1)
         | (Some (ret, av, gv), d, x) \<Rightarrow>
             if call_waits ret then (Some ret, d, x)
             else if ret = RET_SUCCESS then
               lsm_calib_loop fl junk bus (n + 1) e ((lsm_add_sample av gv d)\<lparr>ls_samples := n + 1\<rparr>, x)
             else if 3 \<le> unat (e + 1) then (Some RET_ERROR, d\<lparr>ls_errs := e + 1\<rparr>, x)
             else lsm_calib_loop fl junk bus n (e + 1) (d\<lparr>ls_errs := e + 1\<rparr>, x))
      else
        (case dx of (d, x) \<Rightarrow>
           (Some RET_SUCCESS,
            d\<lparr>ls_accel_bias := map (\<lambda>v. quot_int v NUM_CALIBRATION_SAMPLES) (ls_accel_bias d),
              ls_gyro_bias := map (\<lambda>v. quot_int v NUM_CALIBRATION_SAMPLES) (ls_gyro_bias d)\<rparr>, x)))"
  by pat_completeness auto

definition calib_measure :: "u8 \<Rightarrow> u8 \<Rightarrow> nat" where
  "calib_measure n e = (50 - unat n) + (if unat e < 3 then 3 - unat e else 300 - unat e)"

lemma unat_succ8: "unat (e + 1 :: u8) = (if unat e = 255 then 0 else unat e + 1)"
proof -
  have "unat e < 256"
    by (rule order_less_le_trans [OF unsigned_less]) simp
  moreover have "unat (e + 1) = Suc (unat e) mod 256"
    by (simp add: unat_word_ariths)
  ultimately show ?thesis
    by (auto simp: mod_Suc)
qed

lemma calib_measure_sample: "unat n < 50 \<Longrightarrow> calib_measure (n + 1) e < calib_measure n e"
  by (simp add: calib_measure_def unat_succ8)

lemma calib_measure_error: "\<not> 3 \<le> unat (e + 1) \<Longrightarrow> calib_measure n (e + 1) < calib_measure n e"
  by (auto simp: calib_measure_def unat_succ8 split: if_splits)

termination lsm_calib_loop
  by (relation "measure (\<lambda>(fl, junk, bus, n, e, dx). calib_measure n e)")
    (auto intro: calib_measure_sample calib_measure_error simp del: not_le)

declare lsm_calib_loop.simps [simp del]

definition lsm_calibrate :: "(rat \<Rightarrow> rat) \<Rightarrow> ('x \<Rightarrow> u8) \<Rightarrow> 'x bus \<Rightarrow> (lsm \<times> 'x, ret_type option) state" where
  "lsm_calibrate fl junk bus = State (\<lambda>dx. lsm_calib_loop fl junk bus (ls_samples (fst dx)) (ls_errs (fst dx)) dx)"

definition lsm_setup :: "'x bus \<Rightarrow> (lsm, 'x) drv" where
  "lsm_setup bus =
     check_call (lsm_check_chip_id bus) (
     check_call (lsm_write bus LSM_CTRL3_C LSM_IF_INC_ENABLED LSM_IF_INC_MASK) (
     check_call (lsm_write bus LSM_CTRL3_C LSM_BDU_BLOCK_UPDATE LSM_BDU_MASK) (
     check_call (lsm_write bus LSM_FIFO_CTRL5 LSM_FIFO_MODE_BYPASS LSM_FIFO_MODE_MASK) (
     check_call (lsm_write bus LSM_CTRL2_G LSM_ODR_G_104Hz LSM_ODR_G_MASK) (
     check_call (lsm_write bus LSM_CTRL1_XL LSM_ODR_XL_104Hz LSM_ODR_XL_MASK) (
     check_call (lsm_set_accel_full_scale bus LSM_FS_XL_16g) (
     check_call (lsm_set_gyro_full_scale bus LSM_FS_G_2000dps) (State_Monad.return RET_SUCCESS))))))))"

definition lsm_init :: "(rat \<Rightarrow> rat) \<Rightarrow> ('x \<Rightarrow> u8) \<Rightarrow> 'x bus \<Rightarrow> (lsm \<times> 'x, ret_type option) state" where
  "lsm_init fl junk bus = do {
     mod_dev (\<lambda>d. d\<lparr>ls_mem_addr := ucast LSM_WHO_AM_I_REG\<rparr>);
     ret \<leftarrow> lsm_setup bus;
     if ret = RET_SUCCESS then lsm_calibrate fl junk bus else State_Monad.return (Some ret)}"

text \<open>\<open>poll\<close>, \<open>obtain\<close> and \<open>release\<close>.\<close>

definition lsm_poll :: ret_type where "lsm_poll = RET_SUCCESS"
definition lsm_obtain :: ret_type where "lsm_obtain = RET_SUCCESS"
definition lsm_release :: ret_type where "lsm_release = RET_SUCCESS"

section \<open>The registers after a call\<close>

text \<open>The members that matter: the address and the size of the buffer.\<close>

definition lsm_ok :: "u16 \<Rightarrow> lsm \<Rightarrow> bool" where
  "lsm_ok dev d \<longleftrightarrow> ls_dev_addr d = dev \<and> length (ls_buff d) = 12"

lemma lsm_write_effect:
  assumes "byte_registers bus dev regs"
  shows "effect regs (lsm_ok dev) (lsm_write bus reg val m) RET_SUCCESS (\<lambda>g. g(ucast reg := put_bits m val (g (ucast reg))))"
proof (rule effectI)
  fix d x assume ok: "lsm_ok dev d"
  obtain x1 where 1: "bus (I2cRead dev (ucast reg) 1) x = (RET_SUCCESS, [regs x (ucast reg)], x1)" "regs x1 = regs x"
    by (rule byte_registers_read1 [OF assms])
  obtain x2 where 2: "bus (I2cWrite dev (ucast reg) [put_bits m val (regs x (ucast reg))]) x1 = (RET_SUCCESS, [], x2)"
      "regs x2 = (regs x1)(ucast reg := put_bits m val (regs x (ucast reg)))"
    by (rule byte_registers_write [OF assms])
  show "\<exists>d' x'. run_state (lsm_write bus reg val m) (d, x) = (RET_SUCCESS, d', x') \<and> lsm_ok dev d' \<and>
      regs x' = (regs x)(ucast reg := put_bits m val (regs x (ucast reg)))"
    using ok 1 2 by (auto simp: lsm_write_def lsm_read_buff_def lsm_read_def lsm_ok_def fill_def nth_append)
qed

section \<open>Properties\<close>

lemma lsm_set_effects:
  assumes "byte_registers bus dev regs"
  shows "effect regs (lsm_ok dev) (lsm_set_accel_full_scale bus v) RET_SUCCESS (\<lambda>g. g(0x10 := put_bits 0x0C v (g 0x10)))"
    and "effect regs (lsm_ok dev) (lsm_set_accel_odr bus v) RET_SUCCESS (\<lambda>g. g(0x10 := put_bits 0xF0 v (g 0x10)))"
    and "effect regs (lsm_ok dev) (lsm_set_gyro_odr bus v) RET_SUCCESS (\<lambda>g. g(0x11 := put_bits 0xF0 v (g 0x11)))"
  unfolding lsm_set_accel_full_scale_def lsm_set_accel_odr_def lsm_set_gyro_odr_def
  using lsm_write_effect [OF assms, of LSM_CTRL1_XL v LSM_FS_XL_MASK] lsm_write_effect [OF assms, of LSM_CTRL1_XL v LSM_ODR_XL_MASK]
    lsm_write_effect [OF assms, of LSM_CTRL2_G v LSM_ODR_G_MASK]
  by (auto intro!: effect_mod_dev simp: lsm_constants lsm_ok_def)

lemma lsm_set_gyro_full_scale_effect:
  assumes "byte_registers bus dev regs"
  shows "effect regs (lsm_ok dev) (lsm_set_gyro_full_scale bus v) RET_SUCCESS
    (\<lambda>g. g(0x11 := if v = 0xFF then put_bits 0x02 0x02 (g 0x11) else put_bits 0x0E v (g 0x11)))"
proof (cases "v = 0xFF")
  case True
  then show ?thesis
    using lsm_write_effect [OF assms, of LSM_CTRL2_G LSM_FS_125_ENABLED LSM_FS_125_MASK]
    by (simp add: lsm_set_gyro_full_scale_def lsm_constants)
next
  case False
  note w = lsm_write_effect [OF assms]
  from False have eq: "lsm_set_gyro_full_scale bus v =
      call_then (lsm_write bus LSM_CTRL2_G LSM_FS_125_DISABLED LSM_FS_125_MASK) (\<lambda>ret.
        if ret = RET_SUCCESS then lsm_write bus LSM_CTRL2_G v LSM_FS_G_MASK else State_Monad.return ret)"
    by (simp add: lsm_set_gyro_full_scale_def LSM_FS_G_125dps_def)
  show ?thesis
    unfolding eq
    by (rule effect_cong, rule effect_calls(3), rule w, simp, rule w)
      (use False in \<open>simp add: fun_eq_iff lsm_constants put_bits_put_bits\<close>)
qed

text \<open>C33: 
  Free fall, on a device whose registers keep what is written to them, over a bus that never waits or fails:
  which bits of which registers are set, and that no other bit changes.  The accelerometer runs at 416 Hz and
  2 g; the threshold goes to the two low bits of the register of the accelerometer's rate and not to the
  register of the free fall; of the duration only the low bits are stored; for the first pin both interrupts
  are enabled, as the cases fall through; and the error code is returned although every write succeeded.
\<close>
theorem lsm_free_fall_registers:
  assumes "byte_registers bus dev regs" and "lsm_ok dev d"
  shows "\<exists>d' x'. run_state (lsm_enable_free_fall bus pin) (d, x) = (RET_ERROR, d', x') \<and>
    regs x' = (regs x)
      (0x10 := put_bits 0xFF 0x63 (regs x 0x10), 0x58 := put_bits 0x80 0x80 (regs x 0x58),
       0x5C := put_bits 0x7F 0x00 (regs x 0x5C), 0x5D := put_bits 0xF8 0x30 (regs x 0x5D),
       0x5E := if pin = LSM6DSL_INT1_PIN then put_bits 0x10 0x10 (regs x 0x5E) else regs x 0x5E,
       0x5F := put_bits 0x10 0x10 (regs x 0x5F))"
proof -
  note w = lsm_write_effect [OF assms(1)] and s = lsm_set_effects [OF assms(1)]
  have int2: "effect regs (lsm_ok dev)
      (on_success (lsm_write bus LSM_MD2_CFG LSM_INT1_FF_ENABLED LSM_INT2_FF_MASK) (State_Monad.return RET_ERROR)) RET_ERROR
      (\<lambda>g. g(0x5F := put_bits 0x10 0x10 (g 0x5F)))"
    by (rule effect_cong, (rule effects w)+) (simp add: fun_eq_iff lsm_constants)
  have pins: "effect regs (lsm_ok dev) (lsm_free_fall_pins bus pin) RET_ERROR
      (\<lambda>g. (if pin = LSM6DSL_INT1_PIN then g(0x5E := put_bits 0x10 0x10 (g 0x5E)) else g)(0x5F := put_bits 0x10 0x10 (g 0x5F)))"
  proof (cases pin)
    case LSM6DSL_INT1_PIN
    then show ?thesis
      unfolding lsm_free_fall_pins_def Let_def
      by (simp, intro effect_cong [OF effect_calls(2) [OF w int2]]) (simp add: fun_eq_iff lsm_constants)
  qed (use int2 in \<open>simp add: lsm_free_fall_pins_def\<close>)
  have "effect regs (lsm_ok dev) (lsm_enable_free_fall bus pin) RET_ERROR
    (\<lambda>g. g(0x10 := put_bits 0xFF 0x63 (g 0x10), 0x58 := put_bits 0x80 0x80 (g 0x58),
       0x5C := put_bits 0x7F 0x00 (g 0x5C), 0x5D := put_bits 0xF8 0x30 (g 0x5D),
       0x5E := if pin = LSM6DSL_INT1_PIN then put_bits 0x10 0x10 (g 0x5E) else g 0x5E,
       0x5F := put_bits 0x10 0x10 (g 0x5F)))"
    unfolding lsm_enable_free_fall_def
    by (rule effect_cong, (rule effects w s pins)+)
      (simp add: fun_eq_iff lsm_constants put_bits_put_bits ff_low_def ff_high_def push_bit_eq_mult)
  from effect_run [OF this assms(2)] show ?thesis
    by simp
qed

theorem lsm_free_fall_registers_witness:
  "\<exists>d' x'. run_state (lsm_enable_free_fall byte_bus LSM6DSL_INT2_PIN) (lsm_new 0x6B, \<lambda>_. 0) = (RET_ERROR, d', x') \<and>
    x' 0x10 = 0x63 \<and> x' 0x5D = 0x30 \<and> x' 0x5E = 0 \<and> x' 0x5F = 0x10"
proof -
  have "lsm_ok 0xD6 (lsm_new 0x6B)"
    by (simp add: lsm_ok_def lsm_new_def push_bit_eq_mult)
  from lsm_free_fall_registers [OF byte_bus_registers this, of LSM6DSL_INT2_PIN "\<lambda>_. 0"] show ?thesis
    by (auto simp: put_bits_def)
qed

text \<open>So \<open>enableFreeFallDetection\<close> does not return success on any bus.\<close>

lemma lsm_free_fall_never_succeeds: "fst (run_state (lsm_enable_free_fall bus pin) s) \<noteq> RET_SUCCESS"
proof -
  have pins: "fst (run_state (lsm_free_fall_pins bus pin) s) \<noteq> RET_SUCCESS" for s
    by (cases pin) (auto simp: lsm_free_fall_pins_def Let_def split: prod.split)
  have check: "fst (run_state (check_call m k) s) \<noteq> RET_SUCCESS" if "\<And>s. fst (run_state k s) \<noteq> RET_SUCCESS"
    for s and m k :: "(lsm, 'b) drv"
    using that by (auto split: prod.split)
  show ?thesis
    unfolding lsm_enable_free_fall_def by (intro check pins)
qed

text \<open>
  Start-up: the identification is checked, then addresses advance by themselves, the outputs are updated in
  blocks, the queue is off, both units run at 104 Hz, at 16 g and 2000 degrees per second.
\<close>
theorem lsm_setup_registers:
  assumes "byte_registers bus dev regs" and "lsm_ok dev d" and "regs x 0x0F = LSM_WHO_AM_I"
  shows "\<exists>d' x'. run_state (lsm_setup bus) (d, x) = (RET_SUCCESS, d', x') \<and>
    regs x' = (regs x)
      (0x12 := put_bits 0x44 0x44 (regs x 0x12), 0x0A := put_bits 0x07 0x00 (regs x 0x0A),
       0x11 := put_bits 0xFE 0x4C (regs x 0x11), 0x10 := put_bits 0xFC 0x44 (regs x 0x10))"
proof -
  note w = lsm_write_effect [OF assms(1)] and s = lsm_set_effects [OF assms(1)] and g = lsm_set_gyro_full_scale_effect [OF assms(1)]
  obtain x1 where 1: "bus (I2cRead dev 0x0F 1) x = (RET_SUCCESS, [regs x 0x0F], x1)" "regs x1 = regs x"
    by (rule byte_registers_read1 [OF assms(1)])
  obtain d1 where id: "run_state (lsm_check_chip_id bus) (d, x) = (RET_SUCCESS, d1, x1)" "lsm_ok dev d1"
    using assms(2,3) 1
    by (simp add: lsm_check_chip_id_def lsm_read_masked_def lsm_read_buff_def lsm_read_def lsm_ok_def fill_def lsm_constants)
  let ?rest = "check_call (lsm_write bus LSM_CTRL3_C LSM_IF_INC_ENABLED LSM_IF_INC_MASK) (
     check_call (lsm_write bus LSM_CTRL3_C LSM_BDU_BLOCK_UPDATE LSM_BDU_MASK) (
     check_call (lsm_write bus LSM_FIFO_CTRL5 LSM_FIFO_MODE_BYPASS LSM_FIFO_MODE_MASK) (
     check_call (lsm_write bus LSM_CTRL2_G LSM_ODR_G_104Hz LSM_ODR_G_MASK) (
     check_call (lsm_write bus LSM_CTRL1_XL LSM_ODR_XL_104Hz LSM_ODR_XL_MASK) (
     check_call (lsm_set_accel_full_scale bus LSM_FS_XL_16g) (
     check_call (lsm_set_gyro_full_scale bus LSM_FS_G_2000dps) (State_Monad.return RET_SUCCESS)))))))"
  have "effect regs (lsm_ok dev) ?rest RET_SUCCESS
    (\<lambda>r. r(0x12 := put_bits 0x44 0x44 (r 0x12), 0x0A := put_bits 0x07 0x00 (r 0x0A),
       0x11 := put_bits 0xFE 0x4C (r 0x11), 0x10 := put_bits 0xFC 0x44 (r 0x10)))"
    by (rule effect_cong, (rule effects w s g)+) (simp add: fun_eq_iff lsm_constants put_bits_put_bits)
  from effect_run [OF this id(2), of x1] show ?thesis
    using id(1) 1(2) by (fastforce simp: lsm_setup_def)
qed

text \<open>Tilt and orientation.\<close>

theorem lsm_enable_registers:
  assumes "byte_registers bus dev regs" and "lsm_ok dev d"
  shows "\<exists>d' x'. run_state (lsm_enable_6d bus pin) (d, x) = (RET_SUCCESS, d', x') \<and>
      regs x' = (regs x)
        (0x10 := put_bits 0xFC 0x60 (regs x 0x10), 0x59 := put_bits 0x60 0x40 (regs x 0x59), 0x58 := put_bits 0x80 0x80 (regs x 0x58),
         (case pin of LSM6DSL_INT1_PIN \<Rightarrow> 0x5E | LSM6DSL_INT2_PIN \<Rightarrow> 0x5F) :=
           put_bits 0x04 0x04 (regs x (case pin of LSM6DSL_INT1_PIN \<Rightarrow> 0x5E | LSM6DSL_INT2_PIN \<Rightarrow> 0x5F)))" (is ?sixd)
    and "\<exists>d' x'. run_state (lsm_enable_tilt bus pin) (d, x) = (RET_SUCCESS, d', x') \<and>
      regs x' = (regs x)
        (0x11 := put_bits 0xF2 0x22 (regs x 0x11), 0x19 := put_bits 0x0C 0x0C (regs x 0x19),
         (case pin of LSM6DSL_INT1_PIN \<Rightarrow> 0x5E | LSM6DSL_INT2_PIN \<Rightarrow> 0x5F) :=
           put_bits 0x02 0x02 (regs x (case pin of LSM6DSL_INT1_PIN \<Rightarrow> 0x5E | LSM6DSL_INT2_PIN \<Rightarrow> 0x5F)))" (is ?tilt)
proof -
  note w = lsm_write_effect [OF assms(1)] and s = lsm_set_effects [OF assms(1)] and g = lsm_set_gyro_full_scale_effect [OF assms(1)]
  have "effect regs (lsm_ok dev) (lsm_enable_6d bus pin) RET_SUCCESS
    (\<lambda>r. r(0x10 := put_bits 0xFC 0x60 (r 0x10), 0x59 := put_bits 0x60 0x40 (r 0x59), 0x58 := put_bits 0x80 0x80 (r 0x58),
       (case pin of LSM6DSL_INT1_PIN \<Rightarrow> 0x5E | LSM6DSL_INT2_PIN \<Rightarrow> 0x5F) :=
         put_bits 0x04 0x04 (r (case pin of LSM6DSL_INT1_PIN \<Rightarrow> 0x5E | LSM6DSL_INT2_PIN \<Rightarrow> 0x5F))))"
    unfolding lsm_enable_6d_def
    by (cases pin; simp only: lsm_pin.case; rule effect_cong, (rule effects w s)+)
      (simp_all add: fun_eq_iff lsm_constants put_bits_put_bits)
  from effect_run [OF this assms(2)] show ?sixd
    by simp
  have "effect regs (lsm_ok dev) (lsm_enable_tilt bus pin) RET_SUCCESS
    (\<lambda>r. r(0x11 := put_bits 0xF2 0x22 (r 0x11), 0x19 := put_bits 0x0C 0x0C (r 0x19),
       (case pin of LSM6DSL_INT1_PIN \<Rightarrow> 0x5E | LSM6DSL_INT2_PIN \<Rightarrow> 0x5F) :=
         put_bits 0x02 0x02 (r (case pin of LSM6DSL_INT1_PIN \<Rightarrow> 0x5E | LSM6DSL_INT2_PIN \<Rightarrow> 0x5F))))"
    unfolding lsm_enable_tilt_def
    by (cases pin; simp only: lsm_pin.case; rule effect_cong, (rule effects w s g)+)
      (simp_all add: fun_eq_iff lsm_constants put_bits_put_bits)
  from effect_run [OF this assms(2)] show ?tilt
    by simp
qed

theorem lsm_setup_registers_witness:
  "\<exists>d' x'. run_state (lsm_setup byte_bus) (lsm_new 0x6B, \<lambda>_. 0x6A) = (RET_SUCCESS, d', x') \<and>
    x' 0x11 = 0x4C \<and> x' 0x10 = 0x46 \<and> x' 0x0F = 0x6A"
proof -
  have "lsm_ok 0xD6 (lsm_new 0x6B)"
    by (simp add: lsm_ok_def lsm_new_def push_bit_eq_mult)
  from lsm_setup_registers [OF byte_bus_registers this, of "\<lambda>_. 0x6A"] show ?thesis
    by (auto simp: put_bits_def LSM_WHO_AM_I_def)
qed

theorem lsm_enable_registers_witness:
  "\<exists>d' x'. run_state (lsm_enable_6d byte_bus LSM6DSL_INT1_PIN) (lsm_new 0x6B, \<lambda>_. 0) = (RET_SUCCESS, d', x') \<and>
    x' 0x10 = 0x60 \<and> x' 0x59 = 0x40 \<and> x' 0x58 = 0x80 \<and> x' 0x5E = 0x04"
proof -
  have "lsm_ok 0xD6 (lsm_new 0x6B)"
    by (simp add: lsm_ok_def lsm_new_def push_bit_eq_mult)
  from lsm_enable_registers(1) [OF byte_bus_registers this, of LSM6DSL_INT1_PIN "\<lambda>_. 0"] show ?thesis
    by (auto simp: put_bits_def)
qed

text \<open>
  Values of the gyroscope on a device that answers: the full scale is read, but the value that has no meaning
  decides on the sensitivity.
\<close>

lemma lsm_read_sens_ok:
  assumes "byte_registers bus dev regs" and "lsm_ok dev d"
  obtains d' x' where "run_state (lsm_read_sens bus reg m) (d, x) = (RET_SUCCESS, d', x')" "lsm_ok dev d'" "regs x' = regs x"
proof -
  obtain x1 where "bus (I2cRead dev (ucast reg) 1) x = (RET_SUCCESS, [regs x (ucast reg)], x1)" "regs x1 = regs x"
    by (rule byte_registers_read1 [OF assms(1)])
  with assms(2) show thesis
    by (intro that [of "d\<lparr>ls_mem_addr := ucast reg, ls_sens := regs x (ucast reg) AND m\<rparr>" x1])
      (auto simp: lsm_read_sens_def lsm_read_def lsm_ok_def)
qed

lemma lsm_get_gyro_sens_ok:
  assumes "byte_registers bus dev regs" and "lsm_ok dev d"
  obtains d' x' where "run_state (lsm_get_gyro_sens bus) (d, x) = (RET_SUCCESS, d', x')" "lsm_ok dev d'" "regs x' = regs x"
proof -
  obtain d2 x2 where s: "run_state (lsm_read_sens bus LSM_CTRL2_G LSM_FS_125_MASK) (d, x) = (RET_SUCCESS, d2, x2)"
      "lsm_ok dev d2" "regs x2 = regs x"
    by (rule lsm_read_sens_ok [OF assms])
  obtain d3 x3 where t: "run_state (lsm_read_sens bus LSM_CTRL2_G LSM_FS_G_MASK) (d2, x2) = (RET_SUCCESS, d3, x3)"
      "lsm_ok dev d3" "regs x3 = regs x2"
    by (rule lsm_read_sens_ok [OF assms(1) s(2)])
  show thesis
  proof (cases "LSM_FS_125_ENABLED = ls_sens d2")
    case True
    then show thesis
      using s by (intro that [of "d2\<lparr>ls_sens := 0xFF\<rparr>" x2]) (auto simp: lsm_get_gyro_sens_def lsm_ok_def)
  next
    case False
    then show thesis
      using s t by (intro that [of d3 x3]) (auto simp: lsm_get_gyro_sens_def)
  qed
qed

theorem lsm_gyro_scale_unused:
  assumes "byte_registers bus dev regs" and "lsm_ok dev d"
  shows "\<exists>d' x'. run_state (lsm_calculate_gyro fl junk bus [xl, xh, yl, yh, zl, zh]) (d, x) =
      ((RET_SUCCESS, Some (map (\<lambda>raw. trunc_int (fl (of_int raw * determine_gyro_sens (junk x')))) [s16 [xh, xl], s16 [yh, yl], s16 [zh, zl]])),
       d', x') \<and> regs x' = regs x"
proof -
  obtain d' x' where "run_state (lsm_get_gyro_sens bus) (d, x) = (RET_SUCCESS, d', x')" "regs x' = regs x"
    by (rule lsm_get_gyro_sens_ok [OF assms])
  then show ?thesis
    by (intro exI [of _ d'] exI [of _ x']) (simp add: lsm_calculate_gyro_def Let_def numeral_nat)
qed

theorem lsm_gyro_scale_unused_witness:
  "\<exists>d' x'. run_state (lsm_calculate_gyro (\<lambda>v. v) (\<lambda>_. 0) byte_bus [100, 0, 0, 0, 0, 0]) (lsm_new 0x6B, \<lambda>_. 0x0C) =
      ((RET_SUCCESS, Some [875, 0, 0]), d', x') \<and> x' = (\<lambda>_. 0x0C)"
proof -
  have ok: "lsm_ok 0xD6 (lsm_new 0x6B)"
    by (simp add: lsm_ok_def lsm_new_def push_bit_eq_mult)
  have be: "be16 0 100 = 100" "be16 0 0 = 0"
    by (simp_all add: be16_def)
  show ?thesis
    using lsm_gyro_scale_unused [OF byte_bus_registers ok, of "\<lambda>v. v" "\<lambda>_. 0" 100 0 0 0 0 0 "\<lambda>_. 0x0C"]
    by (simp add: be determine_gyro_sens_def LSM_FS_G_245dps_def s16_def trunc_int_def)
qed

text \<open>A measurement of all values writes behind the byte for the sensitivity of the accelerometer.\<close>
theorem lsm_get_data_undefined:
  assumes "byte_registers bus dev regs" and "lsm_ok dev d"
  shows "fst (run_state (lsm_get_data fl junk bus old) (d, x)) = None"
proof -
  obtain x1 where 1: "bus (I2cRead dev 0x22 12) x = (RET_SUCCESS, map (\<lambda>i. regs x (0x22 + of_nat i)) [0..<12], x1)" "regs x1 = regs x"
    by (rule byte_registers_read [OF assms(1)])
  obtain d1 where raw: "run_state (lsm_axes_raw bus) (d, x) = (RET_SUCCESS, d1, x1)" "lsm_ok dev d1"
    using assms(2) 1 by (simp add: lsm_axes_raw_def lsm_read_buff_def lsm_read_def lsm_ok_def fill_def lsm_constants)
  obtain d2 x2 where g: "run_state (lsm_get_gyro_sens bus) (d1, x1) = (RET_SUCCESS, d2, x2)" "lsm_ok dev d2"
    by (rule lsm_get_gyro_sens_ok [OF assms(1) raw(2)])
  obtain x3 where a: "bus (I2cRead dev 0x10 12) x2 = (RET_SUCCESS, map (\<lambda>i. regs x2 (0x10 + of_nat i)) [0..<12], x3)"
    by (rule byte_registers_read [OF assms(1)])
  have "fst (run_state (lsm_get_accel_sens bus) (d2, x2)) = None"
    using a g(2) by (simp add: lsm_get_accel_sens_def lsm_read_def lsm_ok_def lsm_constants)
  then have "fst (run_state (lsm_get_six fl junk bus) (d, x)) = None"
    using raw(1) g(1) by (auto simp: lsm_get_six_def lsm_calculate_gyro_def lsm_calculate_accel_def split: prod.split)
  then show ?thesis
    by (auto simp: lsm_get_data_def split: prod.split)
qed

theorem lsm_get_data_undefined_witness:
  "fst (run_state (lsm_get_data (\<lambda>x. x) (\<lambda>_. 0) byte_bus ([0, 0, 0], [0, 0, 0])) (lsm_new 0x6B, \<lambda>_. 0)) = None"
  by (rule lsm_get_data_undefined [OF byte_bus_registers, where dev = "0xD6"]) (simp add: lsm_ok_def lsm_new_def push_bit_eq_mult)

end
