(* ===== verification/LisModel.thy ===== *)
theory LisModel
  imports ByteRegs
begin

unbundle bit_operations_syntax

text \<open>
  The magnetometer LIS3MDL (src/device/peripherals/LIS3MDL/LIS3MDL.h).  The structs of bits of its control
  registers (lis3mdl_reg.h) are bytes with fields, as on a little endian machine.  \<open>fl\<close> rounds to a float.
\<close>

section \<open>State and constants\<close>

record lis =
  li_dev_addr :: u16
  li_mem_addr :: u16
  li_buff :: "u8 list"
  li_reg1 :: u8
  li_reg2 :: u8
  li_reg3 :: u8
  li_reg4 :: u8
  li_reg5 :: u8

definition LIS3MDL_ID :: u8 where "LIS3MDL_ID = 0x3D"
definition LIS3MDL_WHO_AM_I :: u8 where "LIS3MDL_WHO_AM_I = 0x0F"
definition LIS3MDL_CTRL_REG1 :: u8 where "LIS3MDL_CTRL_REG1 = 0x20"
definition LIS3MDL_CTRL_REG2 :: u8 where "LIS3MDL_CTRL_REG2 = 0x21"
definition LIS3MDL_CTRL_REG3 :: u8 where "LIS3MDL_CTRL_REG3 = 0x22"
definition LIS3MDL_CTRL_REG4 :: u8 where "LIS3MDL_CTRL_REG4 = 0x23"
definition LIS3MDL_CTRL_REG5 :: u8 where "LIS3MDL_CTRL_REG5 = 0x24"
definition LIS3MDL_STATUS_REG :: u8 where "LIS3MDL_STATUS_REG = 0x27"
definition LIS3MDL_OUT_X_L :: u8 where "LIS3MDL_OUT_X_L = 0x28"
definition LIS3MDL_TEMP_OUT_L :: u8 where "LIS3MDL_TEMP_OUT_L = 0x2E"
definition LIS3MDL_INT_CFG :: u8 where "LIS3MDL_INT_CFG = 0x30"
definition LIS3MDL_INT_SRC :: u8 where "LIS3MDL_INT_SRC = 0x31"
definition LIS3MDL_HP_80Hz :: u8 where "LIS3MDL_HP_80Hz = 0x2E"
definition LIS3MDL_16_GAUSS :: u8 where "LIS3MDL_16_GAUSS = 3"
definition LIS3MDL_CONTINUOUS_MODE :: u8 where "LIS3MDL_CONTINUOUS_MODE = 0"
definition PROPERTY_ENABLE :: u8 where "PROPERTY_ENABLE = 1"
definition LIS3MDL_INT_PULSED :: u8 where "LIS3MDL_INT_PULSED = 0"
definition LIS3MDL_INT_LATCHED :: u8 where "LIS3MDL_INT_LATCHED = 1"
definition LIS3MDL_ACTIVE_HIGH :: u8 where "LIS3MDL_ACTIVE_HIGH = 0"
definition LIS3MDL_ACTIVE_LOW :: u8 where "LIS3MDL_ACTIVE_LOW = 1"

lemmas lis_constants =
  LIS3MDL_ID_def LIS3MDL_WHO_AM_I_def LIS3MDL_CTRL_REG1_def LIS3MDL_CTRL_REG2_def LIS3MDL_CTRL_REG3_def
  LIS3MDL_CTRL_REG4_def LIS3MDL_CTRL_REG5_def LIS3MDL_STATUS_REG_def LIS3MDL_OUT_X_L_def LIS3MDL_TEMP_OUT_L_def
  LIS3MDL_INT_CFG_def LIS3MDL_INT_SRC_def LIS3MDL_HP_80Hz_def LIS3MDL_16_GAUSS_def LIS3MDL_CONTINUOUS_MODE_def
  PROPERTY_ENABLE_def LIS3MDL_INT_PULSED_def LIS3MDL_INT_LATCHED_def LIS3MDL_ACTIVE_HIGH_def LIS3MDL_ACTIVE_LOW_def

text \<open>The fields of the control registers that the driver sets.\<close>

definition set_om :: "u8 \<Rightarrow> u8 \<Rightarrow> u8" where "set_om = set_field 1 6"
definition set_temp_en :: "u8 \<Rightarrow> u8 \<Rightarrow> u8" where "set_temp_en = set_field 7 1"
definition set_fs :: "u8 \<Rightarrow> u8 \<Rightarrow> u8" where "set_fs = set_field 5 2"
definition set_md :: "u8 \<Rightarrow> u8 \<Rightarrow> u8" where "set_md = set_field 0 2"
definition set_lp :: "u8 \<Rightarrow> u8 \<Rightarrow> u8" where "set_lp = set_field 5 1"
definition set_omz :: "u8 \<Rightarrow> u8 \<Rightarrow> u8" where "set_omz = set_field 2 2"
definition get_ble :: "u8 \<Rightarrow> u8" where "get_ble = get_field 1 1"
definition set_bdu :: "u8 \<Rightarrow> u8 \<Rightarrow> u8" where "set_bdu = set_field 6 1"

definition lis_new :: "u16 \<Rightarrow> lis" where
  "lis_new address =
     \<lparr>li_dev_addr = push_bit 1 address, li_mem_addr = 0, li_buff = replicate 10 0, li_reg1 = 0, li_reg2 = 0, li_reg3 = 0,
      li_reg4 = 0, li_reg5 = 0\<rparr>"

section \<open>Access to registers\<close>

definition lis_read :: "'x bus \<Rightarrow> u8 \<Rightarrow> nat \<Rightarrow> (lis \<times> 'x, ret_type \<times> u8 list) state" where
  "lis_read bus reg len = do {
     mod_dev (\<lambda>d. d\<lparr>li_mem_addr := ucast reg\<rparr>);
     d \<leftarrow> get_dev;
     bus_call bus (I2cRead (li_dev_addr d) (li_mem_addr d) len)}"

definition lis_write :: "'x bus \<Rightarrow> u8 \<Rightarrow> u8 list \<Rightarrow> (lis, 'x) drv" where
  "lis_write bus reg data = do {
     mod_dev (\<lambda>d. d\<lparr>li_mem_addr := ucast reg\<rparr>);
     d \<leftarrow> get_dev;
     bus_do bus (I2cWrite (li_dev_addr d) (li_mem_addr d) data)}"

definition lis_read_buff :: "'x bus \<Rightarrow> u8 \<Rightarrow> nat \<Rightarrow> (lis, 'x) drv" where
  "lis_read_buff bus reg len = do {
     (ret, data) \<leftarrow> lis_read bus reg len;
     mod_dev (\<lambda>d. d\<lparr>li_buff := fill data (li_buff d)\<rparr>);
     State_Monad.return ret}"

text \<open>A register read into a member, given by its update.\<close>

definition lis_load :: "'x bus \<Rightarrow> u8 \<Rightarrow> (u8 \<Rightarrow> lis \<Rightarrow> lis) \<Rightarrow> (lis, 'x) drv" where
  "lis_load bus reg upd = do {
     (ret, data) \<leftarrow> lis_read bus reg 1;
     mod_dev (\<lambda>d. case data of [] \<Rightarrow> d | b # _ \<Rightarrow> upd b d);
     State_Monad.return ret}"

definition lis_store :: "'x bus \<Rightarrow> u8 \<Rightarrow> (lis \<Rightarrow> u8) \<Rightarrow> (lis, 'x) drv" where
  "lis_store bus reg sel = do {d \<leftarrow> get_dev; lis_write bus reg [sel d]}"

abbreviation set_reg1 :: "u8 \<Rightarrow> lis \<Rightarrow> lis" where "set_reg1 b d \<equiv> d\<lparr>li_reg1 := b\<rparr>"
abbreviation set_reg2 :: "u8 \<Rightarrow> lis \<Rightarrow> lis" where "set_reg2 b d \<equiv> d\<lparr>li_reg2 := b\<rparr>"
abbreviation set_reg3 :: "u8 \<Rightarrow> lis \<Rightarrow> lis" where "set_reg3 b d \<equiv> d\<lparr>li_reg3 := b\<rparr>"
abbreviation set_reg4 :: "u8 \<Rightarrow> lis \<Rightarrow> lis" where "set_reg4 b d \<equiv> d\<lparr>li_reg4 := b\<rparr>"
abbreviation set_reg5 :: "u8 \<Rightarrow> lis \<Rightarrow> lis" where "set_reg5 b d \<equiv> d\<lparr>li_reg5 := b\<rparr>"

section \<open>Settings\<close>

definition lis_set_data_rate :: "'x bus \<Rightarrow> u8 \<Rightarrow> (lis, 'x) drv" where
  "lis_set_data_rate bus val =
     check_call (lis_load bus LIS3MDL_CTRL_REG1 set_reg1) (do {
     mod_dev (\<lambda>d. d\<lparr>li_reg1 := set_om val (li_reg1 d)\<rparr>);
     check_call (lis_load bus LIS3MDL_CTRL_REG4 set_reg4) (
     check_call (lis_store bus LIS3MDL_CTRL_REG1 li_reg1) (do {
     mod_dev (\<lambda>d. d\<lparr>li_reg4 := set_omz val (li_reg4 d)\<rparr>);
     lis_store bus LIS3MDL_CTRL_REG4 li_reg4}))})"

definition lis_set_temp_meas :: "'x bus \<Rightarrow> u8 \<Rightarrow> (lis, 'x) drv" where
  "lis_set_temp_meas bus val =
     check_call (lis_load bus LIS3MDL_CTRL_REG1 set_reg1) (do {
     mod_dev (\<lambda>d. d\<lparr>li_reg1 := set_temp_en val (li_reg1 d)\<rparr>);
     lis_store bus LIS3MDL_CTRL_REG1 li_reg1})"

definition lis_set_full_scale :: "'x bus \<Rightarrow> u8 \<Rightarrow> (lis, 'x) drv" where
  "lis_set_full_scale bus val =
     check_call (lis_load bus LIS3MDL_CTRL_REG2 set_reg2) (do {
     mod_dev (\<lambda>d. d\<lparr>li_reg2 := set_fs val (li_reg2 d)\<rparr>);
     lis_store bus LIS3MDL_CTRL_REG2 li_reg2})"

definition lis_set_operating_mode :: "'x bus \<Rightarrow> u8 \<Rightarrow> (lis, 'x) drv" where
  "lis_set_operating_mode bus val =
     on_success (lis_load bus LIS3MDL_CTRL_REG3 set_reg3) (do {
     mod_dev (\<lambda>d. d\<lparr>li_reg3 := set_md val (li_reg3 d)\<rparr>);
     lis_store bus LIS3MDL_CTRL_REG3 li_reg3})"

definition lis_set_power_mode :: "'x bus \<Rightarrow> u8 \<Rightarrow> (lis, 'x) drv" where
  "lis_set_power_mode bus val =
     on_success (lis_load bus LIS3MDL_CTRL_REG3 set_reg3) (do {
     mod_dev (\<lambda>d. d\<lparr>li_reg3 := set_lp val (li_reg3 d)\<rparr>);
     lis_store bus LIS3MDL_CTRL_REG3 li_reg3})"

text \<open>The block update is a bit of register 5, which is changed in register 4.\<close>

definition lis_set_block_data_update :: "'x bus \<Rightarrow> u8 \<Rightarrow> (lis, 'x) drv" where
  "lis_set_block_data_update bus val =
     on_success (lis_load bus LIS3MDL_CTRL_REG4 set_reg5) (do {
     mod_dev (\<lambda>d. d\<lparr>li_reg5 := set_bdu val (li_reg5 d)\<rparr>);
     lis_store bus LIS3MDL_CTRL_REG4 li_reg5})"

definition lis_set_high_part_cycle :: "'x bus \<Rightarrow> u8 \<Rightarrow> (lis, 'x) drv" where
  "lis_set_high_part_cycle bus val =
     call_then (lis_write bus LIS3MDL_CTRL_REG5 [val]) (\<lambda>ret.
       if val = 0 \<and> ret = RET_SUCCESS then lis_load bus LIS3MDL_CTRL_REG5 set_reg5 else State_Monad.return ret)"

text \<open>\<open>reset\<close>, \<open>reboot\<close> and \<open>setDataEndianness\<close> read, and change nothing on the chip.\<close>

definition lis_reset :: "'x bus \<Rightarrow> (lis, 'x) drv" where
  "lis_reset bus = lis_load bus LIS3MDL_CTRL_REG2 set_reg2"

definition lis_reboot :: "'x bus \<Rightarrow> (lis, 'x) drv" where
  "lis_reboot bus = lis_load bus LIS3MDL_CTRL_REG2 set_reg2"

definition lis_set_data_endianness :: "'x bus \<Rightarrow> u8 \<Rightarrow> (lis, 'x) drv" where
  "lis_set_data_endianness bus val = lis_load bus LIS3MDL_CTRL_REG4 set_reg4"

definition lis_get_data_endianness :: "'x bus \<Rightarrow> (lis \<times> 'x, ret_type \<times> u8 option) state" where
  "lis_get_data_endianness bus = do {
     ret \<leftarrow> lis_load bus LIS3MDL_CTRL_REG4 set_reg4;
     d \<leftarrow> get_dev;
     State_Monad.return (ret, if call_waits ret then None else Some (get_ble (li_reg4 d)))}"

definition lis_set_config :: "'x bus \<Rightarrow> u8 \<Rightarrow> (lis, 'x) drv" where
  "lis_set_config bus val = lis_write bus LIS3MDL_INT_CFG [val]"

definition lis_enable_interrupt :: "'x bus \<Rightarrow> u8 \<Rightarrow> (lis, 'x) drv" where
  "lis_enable_interrupt bus val =
     (if LIS3MDL_ACTIVE_HIGH = val \<or> LIS3MDL_ACTIVE_LOW = val then lis_write bus LIS3MDL_INT_CFG [val]
      else State_Monad.return RET_ERROR)"

definition lis_set_interrupt_notifications :: "'x bus \<Rightarrow> u8 \<Rightarrow> (lis, 'x) drv" where
  "lis_set_interrupt_notifications bus val =
     (if LIS3MDL_INT_LATCHED = val \<or> LIS3MDL_INT_PULSED = val then lis_write bus LIS3MDL_INT_SRC [val]
      else State_Monad.return RET_ERROR)"

definition lis_set_interrupt_polarity :: "'x bus \<Rightarrow> u8 \<Rightarrow> (lis, 'x) drv" where
  "lis_set_interrupt_polarity bus val = lis_write bus LIS3MDL_INT_CFG [val]"

definition lis_get_status :: "'x bus \<Rightarrow> (lis \<times> 'x, ret_type \<times> u8 list) state" where
  "lis_get_status bus = lis_read bus LIS3MDL_STATUS_REG 1"

section \<open>Measurements and start-up\<close>

definition fs4_to_gauss :: "(rat \<Rightarrow> rat) \<Rightarrow> int \<Rightarrow> rat" where "fs4_to_gauss fl lsb = fl (of_int lsb / 6842)"
definition fs8_to_gauss :: "(rat \<Rightarrow> rat) \<Rightarrow> int \<Rightarrow> rat" where "fs8_to_gauss fl lsb = fl (of_int lsb / 3421)"
definition fs12_to_gauss :: "(rat \<Rightarrow> rat) \<Rightarrow> int \<Rightarrow> rat" where "fs12_to_gauss fl lsb = fl (of_int lsb / 2281)"
definition fs16_to_gauss :: "(rat \<Rightarrow> rat) \<Rightarrow> int \<Rightarrow> rat" where "fs16_to_gauss fl lsb = fl (of_int lsb / 1711)"

text \<open>The quotient by 8 and the sum are exact.\<close>

definition lsb_to_celsius :: "int \<Rightarrow> rat" where
  "lsb_to_celsius lsb = of_int lsb / 8 + 25"

definition lis_get_raw_data :: "'x bus \<Rightarrow> (lis, 'x) drv" where
  "lis_get_raw_data bus = lis_read_buff bus LIS3MDL_OUT_X_L 8"

definition lis_get_raw_magnetic :: "'x bus \<Rightarrow> (lis \<times> 'x, ret_type \<times> u8 list) state" where
  "lis_get_raw_magnetic bus = lis_read bus LIS3MDL_OUT_X_L 6"

definition lis_get_raw_temp :: "'x bus \<Rightarrow> (lis \<times> 'x, ret_type \<times> u8 list) state" where
  "lis_get_raw_temp bus = lis_read bus LIS3MDL_TEMP_OUT_L 2"

text \<open>The floats become 16 bit integers, towards zero: whole Gauss and whole degrees.\<close>

definition lis_values :: "(rat \<Rightarrow> rat) \<Rightarrow> u8 list \<Rightarrow> int list" where
  "lis_values fl b =
     map (\<lambda>raw. trunc_int (fs16_to_gauss fl raw)) [s16 [b ! 1, b ! 0], s16 [b ! 3, b ! 2], s16 [b ! 5, b ! 4]] @
     [trunc_int (lsb_to_celsius (s16 [b ! 7, b ! 6]))]"

definition lis_get_data :: "(rat \<Rightarrow> rat) \<Rightarrow> 'x bus \<Rightarrow> (lis \<times> 'x, ret_type \<times> int list option) state" where
  "lis_get_data fl bus = do {
     ret \<leftarrow> lis_get_raw_data bus;
     d \<leftarrow> get_dev;
     State_Monad.return (ret, if ret = RET_SUCCESS then Some (lis_values fl (li_buff d)) else None)}"

definition lis_init_settings :: "'x bus \<Rightarrow> (lis, 'x) drv" where
  "lis_init_settings bus =
     call_then (lis_reset bus) (\<lambda>_.
     check_call (lis_set_block_data_update bus PROPERTY_ENABLE) (
     check_call (lis_set_data_rate bus LIS3MDL_HP_80Hz) (
     check_call (lis_set_full_scale bus LIS3MDL_16_GAUSS) (
     check_call (lis_set_temp_meas bus PROPERTY_ENABLE) (
     lis_set_operating_mode bus LIS3MDL_CONTINUOUS_MODE)))))"

definition lis_init :: "'x bus \<Rightarrow> (lis, 'x) drv" where
  "lis_init bus =
     call_then (lis_read_buff bus LIS3MDL_WHO_AM_I 1) (\<lambda>ret. do {
       d \<leftarrow> get_dev;
       if LIS3MDL_ID \<noteq> li_buff d ! 0 then State_Monad.return RET_ERROR
       else if ret = RET_SUCCESS then lis_init_settings bus
       else State_Monad.return ret})"

section \<open>The registers after a call\<close>

abbreviation lis_ok :: "u16 \<Rightarrow> lis \<Rightarrow> bool" where
  "lis_ok dev d \<equiv> li_dev_addr d = dev \<and> length (li_buff d) = 10"

lemma lis_load_ok:
  assumes "byte_registers bus dev regs" and "lis_ok dev d"
  obtains x' where "run_state (lis_load bus reg upd) (d, x) = (RET_SUCCESS, upd (regs x (ucast reg)) (d\<lparr>li_mem_addr := ucast reg\<rparr>), x')"
    "regs x' = regs x"
proof -
  obtain x1 where "bus (I2cRead dev (ucast reg) 1) x = (RET_SUCCESS, [regs x (ucast reg)], x1)" "regs x1 = regs x"
    by (rule byte_registers_read1 [OF assms(1)])
  with assms(2) show thesis
    by (intro that [of x1]) (auto simp: lis_load_def lis_read_def)
qed

lemma lis_store_ok:
  assumes "byte_registers bus dev regs" and "lis_ok dev d"
  obtains x' where "run_state (lis_store bus reg sel) (d, x) = (RET_SUCCESS, d\<lparr>li_mem_addr := ucast reg\<rparr>, x')"
    "regs x' = (regs x)(ucast reg := sel d)"
proof -
  obtain x1 where "bus (I2cWrite dev (ucast reg) [sel d]) x = (RET_SUCCESS, [], x1)" "regs x1 = (regs x)(ucast reg := sel d)"
    by (rule byte_registers_write [OF assms(1)])
  with assms(2) show thesis
    by (intro that [of x1]) (auto simp: lis_store_def lis_write_def)
qed

lemma lis_modify_effect:
  assumes bus: "byte_registers bus dev regs"
    and keeps: "\<And>b d. lis_ok dev d \<Longrightarrow> lis_ok dev (upd b d)" "\<And>d. lis_ok dev d \<Longrightarrow> lis_ok dev (f d)"
    and val: "\<And>b d. sel (f (upd b d)) = g b"
  shows "effect regs (lis_ok dev) (check_call (lis_load bus reg upd) (do {mod_dev f; lis_store bus reg sel})) RET_SUCCESS
      (\<lambda>r. r(ucast reg := g (r (ucast reg))))" (is ?checked)
    and "effect regs (lis_ok dev) (on_success (lis_load bus reg upd) (do {mod_dev f; lis_store bus reg sel})) RET_SUCCESS
      (\<lambda>r. r(ucast reg := g (r (ucast reg))))" (is ?success)
proof -
  have run: "\<exists>d1 x1 d' x'. run_state (lis_load bus reg upd) (d, x) = (RET_SUCCESS, d1, x1) \<and>
      run_state (lis_store bus reg sel) (f d1, x1) = (RET_SUCCESS, d', x') \<and> lis_ok dev d' \<and>
      regs x' = (regs x)(ucast reg := g (regs x (ucast reg)))" if ok: "lis_ok dev d" for d x
  proof -
    obtain x1 where 1: "run_state (lis_load bus reg upd) (d, x) =
        (RET_SUCCESS, upd (regs x (ucast reg)) (d\<lparr>li_mem_addr := ucast reg\<rparr>), x1)" "regs x1 = regs x"
      by (rule lis_load_ok [OF bus ok])
    let ?d = "f (upd (regs x (ucast reg)) (d\<lparr>li_mem_addr := ucast reg\<rparr>))"
    have ok': "lis_ok dev ?d"
      using ok by (intro keeps) simp
    obtain x2 where "run_state (lis_store bus reg sel) (?d, x1) = (RET_SUCCESS, ?d\<lparr>li_mem_addr := ucast reg\<rparr>, x2)"
        "regs x2 = (regs x1)(ucast reg := sel ?d)"
      by (rule lis_store_ok [OF bus ok'])
    then show ?thesis
      using 1 ok' val by auto
  qed
  show ?checked ?success
    by (rule effectI, drule run, force)+
qed

lemma lis_setter_effects:
  assumes bus: "byte_registers bus dev regs"
  shows "effect regs (lis_ok dev) (lis_set_temp_meas bus v) RET_SUCCESS (\<lambda>r. r(0x20 := set_temp_en v (r 0x20)))"
    and "effect regs (lis_ok dev) (lis_set_full_scale bus v) RET_SUCCESS (\<lambda>r. r(0x21 := set_fs v (r 0x21)))"
    and "effect regs (lis_ok dev) (lis_set_operating_mode bus v) RET_SUCCESS (\<lambda>r. r(0x22 := set_md v (r 0x22)))"
    and "effect regs (lis_ok dev) (lis_set_power_mode bus v) RET_SUCCESS (\<lambda>r. r(0x22 := set_lp v (r 0x22)))"
    and "effect regs (lis_ok dev) (lis_set_block_data_update bus v) RET_SUCCESS (\<lambda>r. r(0x23 := set_bdu v (r 0x23)))"
  unfolding lis_set_temp_meas_def lis_set_full_scale_def lis_set_operating_mode_def lis_set_power_mode_def
    lis_set_block_data_update_def lis_constants
  by (rule effect_cong, rule lis_modify_effect [OF bus], simp, simp, simp, simp)+

lemma lis_reset_effect: "byte_registers bus dev regs \<Longrightarrow> effect regs (lis_ok dev) (lis_reset bus) RET_SUCCESS (\<lambda>r. r)"
  unfolding lis_reset_def
proof (rule effectI)
  fix d x assume bus: "byte_registers bus dev regs" and ok: "lis_ok dev d"
  show "\<exists>d' x'. run_state (lis_load bus LIS3MDL_CTRL_REG2 set_reg2) (d, x) = (RET_SUCCESS, d', x') \<and> lis_ok dev d' \<and> regs x' = regs x"
    by (rule lis_load_ok [OF bus ok, of LIS3MDL_CTRL_REG2 set_reg2 x]) (use ok in auto)
qed

lemma lis_data_rate_effect:
  assumes bus: "byte_registers bus dev regs"
  shows "effect regs (lis_ok dev) (lis_set_data_rate bus v) RET_SUCCESS
    (\<lambda>r. r(0x20 := set_om v (r 0x20), 0x23 := set_omz v (r 0x23)))"
proof (rule effectI)
  fix d x assume ok: "lis_ok dev d"
  obtain x1 where 1: "run_state (lis_load bus LIS3MDL_CTRL_REG1 set_reg1) (d, x) =
      (RET_SUCCESS, d\<lparr>li_mem_addr := 0x20, li_reg1 := regs x 0x20\<rparr>, x1)" "regs x1 = regs x"
    using lis_load_ok [OF bus ok, of LIS3MDL_CTRL_REG1 set_reg1 x thesis] by (simp add: lis_constants)
  let ?d1 = "d\<lparr>li_mem_addr := 0x20, li_reg1 := set_om v (regs x 0x20)\<rparr>"
  have ok1: "lis_ok dev ?d1"
    using ok by simp
  obtain x2 where 2: "run_state (lis_load bus LIS3MDL_CTRL_REG4 set_reg4) (?d1, x1) =
      (RET_SUCCESS, ?d1\<lparr>li_mem_addr := 0x23, li_reg4 := regs x 0x23\<rparr>, x2)" "regs x2 = regs x"
    using lis_load_ok [OF bus ok1, of LIS3MDL_CTRL_REG4 set_reg4 x1 thesis] 1(2) by (simp add: lis_constants)
  let ?d2 = "?d1\<lparr>li_mem_addr := 0x23, li_reg4 := regs x 0x23\<rparr>"
  have ok2: "lis_ok dev ?d2"
    using ok by simp
  obtain x3 where 3: "run_state (lis_store bus LIS3MDL_CTRL_REG1 li_reg1) (?d2, x2) = (RET_SUCCESS, ?d2\<lparr>li_mem_addr := 0x20\<rparr>, x3)"
      "regs x3 = (regs x)(0x20 := set_om v (regs x 0x20))"
    using lis_store_ok [OF bus ok2, of LIS3MDL_CTRL_REG1 li_reg1 x2 thesis] 2(2) by (simp add: lis_constants)
  let ?d3 = "?d2\<lparr>li_mem_addr := 0x20, li_reg4 := set_omz v (regs x 0x23)\<rparr>"
  have ok3: "lis_ok dev ?d3"
    using ok by simp
  obtain x4 where 4: "run_state (lis_store bus LIS3MDL_CTRL_REG4 li_reg4) (?d3, x3) = (RET_SUCCESS, ?d3\<lparr>li_mem_addr := 0x23\<rparr>, x4)"
      "regs x4 = (regs x3)(0x23 := set_omz v (regs x 0x23))"
    using lis_store_ok [OF bus ok3, of LIS3MDL_CTRL_REG4 li_reg4 x3 thesis] by (simp add: lis_constants)
  show "\<exists>d' x'. run_state (lis_set_data_rate bus v) (d, x) = (RET_SUCCESS, d', x') \<and> lis_ok dev d' \<and>
      regs x' = (regs x)(0x20 := set_om v (regs x 0x20), 0x23 := set_omz v (regs x 0x23))"
    using 1 2 3 4 ok by (simp add: lis_set_data_rate_def)
qed

section \<open>Properties\<close>

text \<open>
  The settings made at start-up, on a device with registers of bytes: 80 Hz in the high performance mode of
  all three axes, the temperature, 16 Gauss and continuous measurement.  The block update does not reach
  register 5, which keeps its value, and lands in an unused bit of register 4; nothing is reset.
\<close>
theorem lis_settings_registers:
  assumes "byte_registers bus dev regs" and "lis_ok dev d"
  shows "\<exists>d' x'. run_state (lis_init_settings bus) (d, x) = (RET_SUCCESS, d', x') \<and>
    regs x' = (regs x)
      (0x20 := put_bits 0xFE 0xDC (regs x 0x20), 0x21 := put_bits 0x60 0x60 (regs x 0x21),
       0x22 := put_bits 0x03 0x00 (regs x 0x22), 0x23 := put_bits 0x4C 0x48 (regs x 0x23))"
proof -
  have "effect regs (lis_ok dev) (lis_init_settings bus) RET_SUCCESS
    (\<lambda>r. r(0x20 := put_bits 0xFE 0xDC (r 0x20), 0x21 := put_bits 0x60 0x60 (r 0x21),
       0x22 := put_bits 0x03 0x00 (r 0x22), 0x23 := put_bits 0x4C 0x48 (r 0x23)))"
    unfolding lis_init_settings_def
    by (rule effect_cong, (rule effects lis_setter_effects [OF assms(1)] lis_data_rate_effect [OF assms(1)] lis_reset_effect [OF assms(1)])+)
      (simp add: fun_eq_iff set_om_def set_omz_def set_fs_def set_md_def set_temp_en_def set_bdu_def set_field_def lis_constants
        put_bits_put_bits mask_eq_exp_minus_1 push_bit_eq_mult)
  from effect_run [OF this assms(2)] show ?thesis
    by simp
qed

theorem lis_settings_registers_witness:
  "\<exists>d' x'. run_state (lis_init_settings byte_bus) (lis_new 0x1C, \<lambda>_. 0) = (RET_SUCCESS, d', x') \<and>
    x' 0x20 = 0xDC \<and> x' 0x21 = 0x60 \<and> x' 0x23 = 0x48 \<and> x' 0x24 = 0"
proof -
  have "lis_ok 0x38 (lis_new 0x1C)"
    by (simp add: lis_new_def push_bit_eq_mult)
  from lis_settings_registers [OF byte_bus_registers this, of "\<lambda>_. 0"] show ?thesis
    by (auto simp: put_bits_def)
qed

text \<open>
  The mode of the z axis is cut to the low bits of the rate where the mode is in the bits 4 and 5: the axes
  agree only for some rates.  With 0x1C (40 Hz, medium performance) the z axis gets the lowest mode.
\<close>
lemma lis_mode_mismatch:
  "get_field 2 2 (set_omz 0x1C old) = 0" "take_bit 2 (drop_bit 4 0x1C :: u8) = 1"
  "get_field 2 2 (set_omz LIS3MDL_HP_80Hz old) = take_bit 2 (drop_bit 4 LIS3MDL_HP_80Hz)"
  unfolding set_omz_def by (simp_all add: get_set_field LIS3MDL_HP_80Hz_def)

text \<open>
  A measurement on such a device: every axis is the pair of its registers, low byte first, read as a signed
  number, and the values are whole Gauss.
\<close>
theorem lis_get_data_values:
  assumes "byte_registers bus dev regs" and "lis_ok dev d"
  shows "fst (run_state (lis_get_data fl bus) (d, x)) =
    (RET_SUCCESS, Some (
      map (\<lambda>a. trunc_int (fs16_to_gauss fl (s16 [regs x (a + 1), regs x a]))) [0x28, 0x2A, 0x2C] @
      [trunc_int (lsb_to_celsius (s16 [regs x 0x2F, regs x 0x2E]))]))"
proof -
  obtain x1 where "bus (I2cRead dev 0x28 8) x = (RET_SUCCESS, map (\<lambda>i. regs x (0x28 + of_nat i)) [0..<8], x1)" "regs x1 = regs x"
    by (rule byte_registers_read [OF assms(1)])
  moreover have "map (\<lambda>i. regs x (0x28 + of_nat i)) [0..<8] =
      [regs x 0x28, regs x 0x29, regs x 0x2A, regs x 0x2B, regs x 0x2C, regs x 0x2D, regs x 0x2E, regs x 0x2F]"
    by (simp add: upt_rec)
  ultimately show ?thesis
    using assms(2)
    by (simp add: lis_get_data_def lis_get_raw_data_def lis_read_buff_def lis_read_def lis_values_def fill_def lis_constants)
qed

theorem lis_get_data_values_witness:
  "fst (run_state (lis_get_data (\<lambda>x. x) byte_bus) (lis_new 0x1C, \<lambda>a. if a = 0x29 then 0x80 else if a = 0x2B then 0x7F else 0)) =
    (RET_SUCCESS, Some [- 19, 19, 0, 25])"
proof -
  have "lis_ok 0x38 (lis_new 0x1C)"
    by (simp add: lis_new_def push_bit_eq_mult)
  from lis_get_data_values [OF byte_bus_registers this, of "\<lambda>x. x" "\<lambda>a. if a = 0x29 then 0x80 else if a = 0x2B then 0x7F else 0"] show ?thesis
    by (simp add: s16_def be16_def push_bit_eq_mult fs16_to_gauss_def lsb_to_celsius_def trunc_int_def)
      (simp add: floor_eq_iff ceiling_eq_iff)
qed

end
