(* ===== verification/BmpModel.thy ===== *)
theory BmpModel
  imports ByteRegs
begin

unbundle bit_operations_syntax

text \<open>
  The barometers BMP388 and BMP390 (src/device/peripherals/BMP3XX/BMP3XX.h and the constants it uses of
  bmp3_defs.h).  \<open>fl\<close> and \<open>db\<close> round to a float and to a double; the calibration values are numbers of at most
  16 bits divided by powers of two, which doubles hold exactly.  \<open>None\<close> stands for a result that C++ leaves
  undefined, by the use of a variable that has no value or of an entry behind a table.
\<close>

section \<open>Constants\<close>

definition BMP3_ADDR_I2C_PRIM :: u16 where "BMP3_ADDR_I2C_PRIM = 0x76"
definition BMP3_CHIP_ID :: u8 where "BMP3_CHIP_ID = 0x50"
definition BMP390_CHIP_ID :: u8 where "BMP390_CHIP_ID = 0x60"
definition BMP3_SETTLE_TIME_PRESS :: nat where "BMP3_SETTLE_TIME_PRESS = 392"
definition BMP3_SETTLE_TIME_TEMP :: nat where "BMP3_SETTLE_TIME_TEMP = 313"
definition BMP3_ADC_CONV_TIME :: nat where "BMP3_ADC_CONV_TIME = 2000"
definition BMP3_REG_CHIP_ID :: u8 where "BMP3_REG_CHIP_ID = 0x00"
definition BMP3_REG_ERR :: u8 where "BMP3_REG_ERR = 0x02"
definition BMP3_REG_SENS_STATUS :: u8 where "BMP3_REG_SENS_STATUS = 0x03"
definition BMP3_REG_DATA :: u8 where "BMP3_REG_DATA = 0x04"
definition BMP3_REG_EVENT :: u8 where "BMP3_REG_EVENT = 0x10"
definition BMP3_REG_INT_STATUS :: u8 where "BMP3_REG_INT_STATUS = 0x11"
definition BMP3_REG_INT_CTRL :: u8 where "BMP3_REG_INT_CTRL = 0x19"
definition BMP3_REG_IF_CONF :: u8 where "BMP3_REG_IF_CONF = 0x1A"
definition BMP3_REG_PWR_CTRL :: u8 where "BMP3_REG_PWR_CTRL = 0x1B"
definition BMP3_REG_OSR :: u8 where "BMP3_REG_OSR = 0x1C"
definition BMP3_REG_ODR :: u8 where "BMP3_REG_ODR = 0x1D"
definition BMP3_REG_CONFIG :: u8 where "BMP3_REG_CONFIG = 0x1F"
definition BMP3_REG_CALIB_DATA :: u8 where "BMP3_REG_CALIB_DATA = 0x31"
definition BMP3_REG_CMD :: u8 where "BMP3_REG_CMD = 0x7E"
definition BMP3_ERR_CMD :: u8 where "BMP3_ERR_CMD = 0x02"
definition BMP3_CMD_RDY :: u8 where "BMP3_CMD_RDY = 0x10"
definition BMP3_MODE_SLEEP :: u8 where "BMP3_MODE_SLEEP = 0x00"
definition BMP3_MODE_FORCED :: u8 where "BMP3_MODE_FORCED = 0x01"
definition BMP3_MODE_NORMAL :: u8 where "BMP3_MODE_NORMAL = 0x03"
definition BMP3_ENABLE :: u8 where "BMP3_ENABLE = 0x01"
definition BMP3_DISABLE :: u8 where "BMP3_DISABLE = 0x00"
definition BMP3_INT_PIN_PUSH_PULL :: u8 where "BMP3_INT_PIN_PUSH_PULL = 0x00"
definition BMP3_INT_PIN_ACTIVE_LOW :: u8 where "BMP3_INT_PIN_ACTIVE_LOW = 0x00"
definition BMP3_INT_PIN_NON_LATCH :: u8 where "BMP3_INT_PIN_NON_LATCH = 0x00"
definition BMP3_OVERSAMPLING_2X :: u8 where "BMP3_OVERSAMPLING_2X = 0x01"
definition BMP3_IIR_FILTER_DISABLE :: u8 where "BMP3_IIR_FILTER_DISABLE = 0x00"
definition BMP3_ODR_100_HZ :: u8 where "BMP3_ODR_100_HZ = 0x01"
definition BMP3_ODR_0_001_HZ :: u8 where "BMP3_ODR_0_001_HZ = 0x11"
definition BMP3_SOFT_RESET :: u8 where "BMP3_SOFT_RESET = 0xB6"
definition BMP3_SEL_PRESS_EN :: u32 where "BMP3_SEL_PRESS_EN = 0x0002"
definition BMP3_SEL_TEMP_EN :: u32 where "BMP3_SEL_TEMP_EN = 0x0004"
definition BMP3_SEL_DRDY_EN :: u32 where "BMP3_SEL_DRDY_EN = 0x0008"
definition BMP3_SEL_PRESS_OS :: u32 where "BMP3_SEL_PRESS_OS = 0x0010"
definition BMP3_SEL_TEMP_OS :: u32 where "BMP3_SEL_TEMP_OS = 0x0020"
definition BMP3_SEL_IIR_FILTER :: u32 where "BMP3_SEL_IIR_FILTER = 0x0040"
definition BMP3_SEL_ODR :: u32 where "BMP3_SEL_ODR = 0x0080"
definition BMP3_SEL_OUTPUT_MODE :: u32 where "BMP3_SEL_OUTPUT_MODE = 0x0100"
definition BMP3_SEL_LEVEL :: u32 where "BMP3_SEL_LEVEL = 0x0200"
definition BMP3_SEL_LATCH :: u32 where "BMP3_SEL_LATCH = 0x0400"
definition BMP3_SEL_I2C_WDT_EN :: u32 where "BMP3_SEL_I2C_WDT_EN = 0x0800"
definition BMP3_SEL_I2C_WDT :: u32 where "BMP3_SEL_I2C_WDT = 0x1000"
definition BMP3_ERR_FATAL_MSK :: u8 where "BMP3_ERR_FATAL_MSK = 0x01"
definition BMP3_ERR_CMD_MSK :: u8 where "BMP3_ERR_CMD_MSK = 0x02"
definition BMP3_ERR_CMD_POS :: nat where "BMP3_ERR_CMD_POS = 1"
definition BMP3_ERR_CONF_MSK :: u8 where "BMP3_ERR_CONF_MSK = 0x04"
definition BMP3_ERR_CONF_POS :: nat where "BMP3_ERR_CONF_POS = 2"
definition BMP3_STATUS_CMD_RDY_MSK :: u8 where "BMP3_STATUS_CMD_RDY_MSK = 0x10"
definition BMP3_STATUS_CMD_RDY_POS :: nat where "BMP3_STATUS_CMD_RDY_POS = 4"
definition BMP3_STATUS_DRDY_PRESS_MSK :: u8 where "BMP3_STATUS_DRDY_PRESS_MSK = 0x20"
definition BMP3_STATUS_DRDY_PRESS_POS :: nat where "BMP3_STATUS_DRDY_PRESS_POS = 5"
definition BMP3_STATUS_DRDY_TEMP_MSK :: u8 where "BMP3_STATUS_DRDY_TEMP_MSK = 0x40"
definition BMP3_STATUS_DRDY_TEMP_POS :: nat where "BMP3_STATUS_DRDY_TEMP_POS = 6"
definition BMP3_OP_MODE_MSK :: u8 where "BMP3_OP_MODE_MSK = 0x30"
definition BMP3_OP_MODE_POS :: nat where "BMP3_OP_MODE_POS = 4"
definition BMP3_PRESS_EN_MSK :: u8 where "BMP3_PRESS_EN_MSK = 0x01"
definition BMP3_TEMP_EN_MSK :: u8 where "BMP3_TEMP_EN_MSK = 0x02"
definition BMP3_TEMP_EN_POS :: nat where "BMP3_TEMP_EN_POS = 1"
definition BMP3_IIR_FILTER_MSK :: u8 where "BMP3_IIR_FILTER_MSK = 0x0E"
definition BMP3_IIR_FILTER_POS :: nat where "BMP3_IIR_FILTER_POS = 1"
definition BMP3_ODR_MSK :: u8 where "BMP3_ODR_MSK = 0x1F"
definition BMP3_PRESS_OS_MSK :: u8 where "BMP3_PRESS_OS_MSK = 0x07"
definition BMP3_TEMP_OS_MSK :: u8 where "BMP3_TEMP_OS_MSK = 0x38"
definition BMP3_TEMP_OS_POS :: nat where "BMP3_TEMP_OS_POS = 3"
definition BMP3_INT_OUTPUT_MODE_MSK :: u8 where "BMP3_INT_OUTPUT_MODE_MSK = 0x01"
definition BMP3_INT_LEVEL_MSK :: u8 where "BMP3_INT_LEVEL_MSK = 0x02"
definition BMP3_INT_LEVEL_POS :: nat where "BMP3_INT_LEVEL_POS = 1"
definition BMP3_INT_LATCH_MSK :: u8 where "BMP3_INT_LATCH_MSK = 0x04"
definition BMP3_INT_LATCH_POS :: nat where "BMP3_INT_LATCH_POS = 2"
definition BMP3_INT_DRDY_EN_MSK :: u8 where "BMP3_INT_DRDY_EN_MSK = 0x40"
definition BMP3_INT_DRDY_EN_POS :: nat where "BMP3_INT_DRDY_EN_POS = 6"
definition BMP3_I2C_WDT_EN_MSK :: u8 where "BMP3_I2C_WDT_EN_MSK = 0x02"
definition BMP3_I2C_WDT_EN_POS :: nat where "BMP3_I2C_WDT_EN_POS = 1"
definition BMP3_I2C_WDT_SEL_MSK :: u8 where "BMP3_I2C_WDT_SEL_MSK = 0x04"
definition BMP3_I2C_WDT_SEL_POS :: nat where "BMP3_I2C_WDT_SEL_POS = 2"
definition BMP3_INT_STATUS_FWTM_MSK :: u8 where "BMP3_INT_STATUS_FWTM_MSK = 0x01"
definition BMP3_INT_STATUS_FFULL_MSK :: u8 where "BMP3_INT_STATUS_FFULL_MSK = 0x02"
definition BMP3_INT_STATUS_FFULL_POS :: nat where "BMP3_INT_STATUS_FFULL_POS = 1"
definition BMP3_INT_STATUS_DRDY_MSK :: u8 where "BMP3_INT_STATUS_DRDY_MSK = 0x08"
definition BMP3_INT_STATUS_DRDY_POS :: nat where "BMP3_INT_STATUS_DRDY_POS = 3"
definition BMP3_LEN_CALIB_DATA :: nat where "BMP3_LEN_CALIB_DATA = 21"
definition BMP3_LEN_P_T_DATA :: nat where "BMP3_LEN_P_T_DATA = 6"
definition BMP3_POWER_CNTL :: u32 where "BMP3_POWER_CNTL = 0x0006"
definition BMP3_ODR_FILTER :: u32 where "BMP3_ODR_FILTER = 0x00F0"
definition BMP3_INT_CTRL :: u32 where "BMP3_INT_CTRL = 0x0708"
definition BMP3_ADV_SETT :: u32 where "BMP3_ADV_SETT = 0x1800"

lemmas bmp_constants =
  BMP3_ADDR_I2C_PRIM_def BMP3_CHIP_ID_def BMP390_CHIP_ID_def BMP3_SETTLE_TIME_PRESS_def
  BMP3_SETTLE_TIME_TEMP_def BMP3_ADC_CONV_TIME_def BMP3_REG_CHIP_ID_def BMP3_REG_ERR_def
  BMP3_REG_SENS_STATUS_def BMP3_REG_DATA_def BMP3_REG_EVENT_def BMP3_REG_INT_STATUS_def BMP3_REG_INT_CTRL_def
  BMP3_REG_IF_CONF_def BMP3_REG_PWR_CTRL_def BMP3_REG_OSR_def BMP3_REG_ODR_def BMP3_REG_CONFIG_def
  BMP3_REG_CALIB_DATA_def BMP3_REG_CMD_def BMP3_ERR_CMD_def BMP3_CMD_RDY_def BMP3_MODE_SLEEP_def
  BMP3_MODE_FORCED_def BMP3_MODE_NORMAL_def BMP3_ENABLE_def BMP3_DISABLE_def BMP3_INT_PIN_PUSH_PULL_def
  BMP3_INT_PIN_ACTIVE_LOW_def BMP3_INT_PIN_NON_LATCH_def BMP3_OVERSAMPLING_2X_def BMP3_IIR_FILTER_DISABLE_def
  BMP3_ODR_100_HZ_def BMP3_ODR_0_001_HZ_def BMP3_SOFT_RESET_def BMP3_SEL_PRESS_EN_def BMP3_SEL_TEMP_EN_def
  BMP3_SEL_DRDY_EN_def BMP3_SEL_PRESS_OS_def BMP3_SEL_TEMP_OS_def BMP3_SEL_IIR_FILTER_def BMP3_SEL_ODR_def
  BMP3_SEL_OUTPUT_MODE_def BMP3_SEL_LEVEL_def BMP3_SEL_LATCH_def BMP3_SEL_I2C_WDT_EN_def BMP3_SEL_I2C_WDT_def
  BMP3_ERR_FATAL_MSK_def BMP3_ERR_CMD_MSK_def BMP3_ERR_CMD_POS_def BMP3_ERR_CONF_MSK_def BMP3_ERR_CONF_POS_def
  BMP3_STATUS_CMD_RDY_MSK_def BMP3_STATUS_CMD_RDY_POS_def BMP3_STATUS_DRDY_PRESS_MSK_def
  BMP3_STATUS_DRDY_PRESS_POS_def BMP3_STATUS_DRDY_TEMP_MSK_def BMP3_STATUS_DRDY_TEMP_POS_def
  BMP3_OP_MODE_MSK_def BMP3_OP_MODE_POS_def BMP3_PRESS_EN_MSK_def BMP3_TEMP_EN_MSK_def BMP3_TEMP_EN_POS_def
  BMP3_IIR_FILTER_MSK_def BMP3_IIR_FILTER_POS_def BMP3_ODR_MSK_def BMP3_PRESS_OS_MSK_def BMP3_TEMP_OS_MSK_def
  BMP3_TEMP_OS_POS_def BMP3_INT_OUTPUT_MODE_MSK_def BMP3_INT_LEVEL_MSK_def BMP3_INT_LEVEL_POS_def
  BMP3_INT_LATCH_MSK_def BMP3_INT_LATCH_POS_def BMP3_INT_DRDY_EN_MSK_def BMP3_INT_DRDY_EN_POS_def
  BMP3_I2C_WDT_EN_MSK_def BMP3_I2C_WDT_EN_POS_def BMP3_I2C_WDT_SEL_MSK_def BMP3_I2C_WDT_SEL_POS_def
  BMP3_INT_STATUS_FWTM_MSK_def BMP3_INT_STATUS_FFULL_MSK_def BMP3_INT_STATUS_FFULL_POS_def
  BMP3_INT_STATUS_DRDY_MSK_def BMP3_INT_STATUS_DRDY_POS_def BMP3_LEN_CALIB_DATA_def BMP3_LEN_P_T_DATA_def
  BMP3_POWER_CNTL_def BMP3_ODR_FILTER_def BMP3_INT_CTRL_def BMP3_ADV_SETT_def

definition BMP3_SET_BITS :: "u8 \<Rightarrow> u8 \<Rightarrow> nat \<Rightarrow> u8 \<Rightarrow> u8" where
  "BMP3_SET_BITS reg_data msk pos data = put_bits msk (push_bit pos data AND msk) reg_data"

definition BMP3_SET_BITS_POS_0 :: "u8 \<Rightarrow> u8 \<Rightarrow> u8 \<Rightarrow> u8" where
  "BMP3_SET_BITS_POS_0 reg_data msk data = put_bits msk (data AND msk) reg_data"

definition BMP3_GET_BITS :: "u8 \<Rightarrow> u8 \<Rightarrow> nat \<Rightarrow> u8" where
  "BMP3_GET_BITS reg_data msk pos = drop_bit pos (reg_data AND msk)"

definition BMP3_GET_BITS_POS_0 :: "u8 \<Rightarrow> u8 \<Rightarrow> u8" where
  "BMP3_GET_BITS_POS_0 reg_data msk = reg_data AND msk"

definition BMP3_CONCAT_BYTES :: "u8 \<Rightarrow> u8 \<Rightarrow> u16" where
  "BMP3_CONCAT_BYTES msb lsb = push_bit 8 (ucast msb) OR ucast lsb"

section \<open>State\<close>

record bmp_settings =
  bs_op_mode :: u8
  bs_press_en :: u8
  bs_temp_en :: u8
  bs_press_os :: u8
  bs_temp_os :: u8
  bs_iir_filter :: u8
  bs_odr :: u8
  bs_output_mode :: u8
  bs_level :: u8
  bs_latch :: u8
  bs_drdy_en :: u8
  bs_i2c_wdt_en :: u8
  bs_i2c_wdt_sel :: u8

text \<open>The calibration: the numbers as they are read, and the values computed from them.\<close>

record bmp_raw_calib =
  br_t1 :: int  br_t2 :: int  br_t3 :: int  br_p1 :: int  br_p2 :: int  br_p3 :: int  br_p4 :: int
  br_p5 :: int  br_p6 :: int  br_p7 :: int  br_p8 :: int  br_p9 :: int  br_p10 :: int  br_p11 :: int

record bmp_calib =
  bc_t1 :: rat  bc_t2 :: rat  bc_t3 :: rat  bc_p1 :: rat  bc_p2 :: rat  bc_p3 :: rat  bc_p4 :: rat
  bc_p5 :: rat  bc_p6 :: rat  bc_p7 :: rat  bc_p8 :: rat  bc_p9 :: rat  bc_p10 :: rat  bc_p11 :: rat
  bc_t_lin :: rat

record bmp =
  bm_raw_calib :: bmp_raw_calib
  bm_calib :: bmp_calib
  bm_pressure :: rat
  bm_temperature :: rat
  bm_settings :: bmp_settings
  bm_dev_addr :: u16
  bm_mem_addr :: u16
  bm_buff :: "u8 list"

record bmp_status =
  st_cmd_rdy :: u8
  st_drdy_press :: u8
  st_drdy_temp :: u8
  st_pwr_on_rst :: u8
  st_fifo_wm :: u8
  st_fifo_full :: u8
  st_drdy :: u8
  st_fatal :: u8
  st_cmd :: u8
  st_conf :: u8

definition upd_buff :: "nat \<Rightarrow> u8 \<Rightarrow> bmp \<Rightarrow> bmp" where
  "upd_buff i v d = d\<lparr>bm_buff := (bm_buff d)[i := v]\<rparr>"

section \<open>Access to registers\<close>

definition bmp_get_register :: "'x bus \<Rightarrow> u8 \<Rightarrow> nat \<Rightarrow> (bmp, 'x) drv" where
  "bmp_get_register bus reg len = do {
     mod_dev (\<lambda>d. d\<lparr>bm_mem_addr := ucast reg\<rparr>);
     d \<leftarrow> get_dev;
     (ret, data) \<leftarrow> bus_call bus (I2cRead (bm_dev_addr d) (bm_mem_addr d) len);
     mod_dev (\<lambda>d. d\<lparr>bm_buff := fill data (bm_buff d)\<rparr>);
     State_Monad.return (if call_waits ret \<or> ret = RET_SUCCESS then ret else RET_ERROR)}"

definition bmp_set_register :: "'x bus \<Rightarrow> u8 \<Rightarrow> u8 list \<Rightarrow> (bmp, 'x) drv" where
  "bmp_set_register bus reg data = do {
     mod_dev (\<lambda>d. d\<lparr>bm_mem_addr := ucast reg\<rparr>);
     d \<leftarrow> get_dev;
     check_call (bus_do bus (I2cWrite (bm_dev_addr d) (bm_mem_addr d) data)) (State_Monad.return RET_SUCCESS)}"

text \<open>
  Several registers: the data of the first one, then pairs of an address and its data.  One byte more is sent
  than was put into the buffer; \<open>junk\<close> is its value.
\<close>

fun interleave_reg_addr :: "u8 list \<Rightarrow> u8 list \<Rightarrow> u8 list" where
  "interleave_reg_addr (a # addrs) (v # vs) = a # v # interleave_reg_addr addrs vs"
| "interleave_reg_addr _ _ = []"

definition bmp_set_registers :: "u8 \<Rightarrow> 'x bus \<Rightarrow> u8 list \<Rightarrow> u8 list \<Rightarrow> (bmp \<times> 'x, ret_type option) state" where
  "bmp_set_registers junk bus addrs data =
     (if data = [] then State_Monad.return None
      else defined (bmp_set_register bus (hd addrs)
        (if length data > 1 then hd data # interleave_reg_addr (tl addrs) (tl data) @ [junk] else data)))"

section \<open>Durations\<close>

text \<open>The class has its own power function, on floats.\<close>

primrec bmp_pow_loop :: "(rat \<Rightarrow> rat) \<Rightarrow> rat \<Rightarrow> nat \<Rightarrow> rat \<Rightarrow> rat" where
  "bmp_pow_loop fl base 0 out = out"
| "bmp_pow_loop fl base (Suc n) out = bmp_pow_loop fl base n (fl (fl base * out))"

definition bmp_pow :: "(rat \<Rightarrow> rat) \<Rightarrow> rat \<Rightarrow> u8 \<Rightarrow> rat" where
  "bmp_pow fl base n = bmp_pow_loop fl base (unat n) 1"

text \<open>The conversion of a float to \<open>uint32_t\<close> is undefined out of range.\<close>

definition to_u32 :: "rat \<Rightarrow> u32 option" where
  "to_u32 r = (let n = trunc_int r in if 0 \<le> n \<and> n < 2 ^ 32 then Some (word_of_int n) else None)"

definition press_meas_time :: "(rat \<Rightarrow> rat) \<Rightarrow> bmp_settings \<Rightarrow> u32 option" where
  "press_meas_time fl s =
     to_u32 (fl (of_nat BMP3_SETTLE_TIME_PRESS + fl (bmp_pow fl 2 (bs_press_os s) * of_nat BMP3_ADC_CONV_TIME)))"

definition temp_meas_time :: "(rat \<Rightarrow> rat) \<Rightarrow> bmp_settings \<Rightarrow> u32 option" where
  "temp_meas_time fl s =
     to_u32 (fl (of_nat BMP3_SETTLE_TIME_TEMP + fl (bmp_pow fl 2 (bs_temp_os s) * of_nat BMP3_ADC_CONV_TIME)))"

definition odr_table :: "u32 list" where
  "odr_table =
     [5000, 10000, 20000, 40000, 80000, 160000, 320000, 640000, 1280000, 2560000, 5120000, 10240000, 20480000,
      40960000, 81920000, 163840000, 327680000, 655360000]"

definition validate_osr_odr :: "(rat \<Rightarrow> rat) \<Rightarrow> bmp_settings \<Rightarrow> bool option" where
  "validate_osr_odr fl s =
     (case (if bs_press_en s \<noteq> 0 then press_meas_time fl s else Some 0) of
        None \<Rightarrow> None
      | Some p \<Rightarrow>
          (case (if bs_temp_en s \<noteq> 0 then temp_meas_time fl s else Some 0) of
             None \<Rightarrow> None
           | Some t \<Rightarrow>
               if unat (bs_odr s) < length odr_table then Some (234 + (p + t) < odr_table ! unat (bs_odr s)) else None))"

section \<open>Settings\<close>

definition are_settings_changed :: "u32 \<Rightarrow> u32 \<Rightarrow> bool" where
  "are_settings_changed subSettings desiredSettings = (subSettings AND desiredSettings \<noteq> 0)"

definition parse_odr_filter_settings :: "u8 list \<Rightarrow> bmp_settings \<Rightarrow> bmp_settings" where
  "parse_odr_filter_settings b s =
     s\<lparr>bs_press_os := BMP3_GET_BITS_POS_0 (b ! 0) BMP3_PRESS_OS_MSK,
       bs_temp_os := BMP3_GET_BITS (b ! 0) BMP3_TEMP_OS_MSK BMP3_TEMP_OS_POS,
       bs_odr := BMP3_GET_BITS_POS_0 (b ! 1) BMP3_ODR_MSK,
       bs_iir_filter := BMP3_GET_BITS (b ! 3) BMP3_IIR_FILTER_MSK BMP3_IIR_FILTER_POS\<rparr>"

definition parse_int_ctrl_settings :: "u8 list \<Rightarrow> bmp_settings \<Rightarrow> bmp_settings" where
  "parse_int_ctrl_settings b s =
     s\<lparr>bs_output_mode := BMP3_GET_BITS_POS_0 (b ! 0) BMP3_INT_OUTPUT_MODE_MSK,
       bs_level := BMP3_GET_BITS (b ! 0) BMP3_INT_LEVEL_MSK BMP3_INT_LEVEL_POS,
       bs_latch := BMP3_GET_BITS (b ! 0) BMP3_INT_LATCH_MSK BMP3_INT_LATCH_POS,
       bs_drdy_en := BMP3_GET_BITS (b ! 0) BMP3_INT_DRDY_EN_MSK BMP3_INT_DRDY_EN_POS\<rparr>"

definition parse_advanced_settings :: "u8 list \<Rightarrow> bmp_settings \<Rightarrow> bmp_settings" where
  "parse_advanced_settings b s =
     s\<lparr>bs_i2c_wdt_en := BMP3_GET_BITS (b ! 0) BMP3_I2C_WDT_EN_MSK BMP3_I2C_WDT_EN_POS,
       bs_i2c_wdt_sel := BMP3_GET_BITS (b ! 0) BMP3_I2C_WDT_SEL_MSK BMP3_I2C_WDT_SEL_POS\<rparr>"

definition parse_power_ctrl_settings :: "u8 list \<Rightarrow> bmp_settings \<Rightarrow> bmp_settings" where
  "parse_power_ctrl_settings b s =
     s\<lparr>bs_op_mode := BMP3_GET_BITS (b ! 0) BMP3_OP_MODE_MSK BMP3_OP_MODE_POS,
       bs_press_en := BMP3_GET_BITS_POS_0 (b ! 0) BMP3_PRESS_EN_MSK,
       bs_temp_en := BMP3_GET_BITS (b ! 0) BMP3_TEMP_EN_MSK BMP3_TEMP_EN_POS\<rparr>"

definition parse_settings :: "u8 list \<Rightarrow> bmp_settings \<Rightarrow> bmp_settings" where
  "parse_settings b s =
     parse_odr_filter_settings (drop 3 b)
       (parse_power_ctrl_settings (drop 2 b) (parse_advanced_settings (drop 1 b) (parse_int_ctrl_settings b s)))"

text \<open>
  The three fillers put data from the start of the buffer, addresses from place 5 and the number of both into
  place 4.
\<close>

definition fill_osr_data :: "u32 \<Rightarrow> bmp \<Rightarrow> bmp" where
  "fill_osr_data desired d =
     (if desired AND (BMP3_SEL_PRESS_OS OR BMP3_SEL_TEMP_OS) \<noteq> 0 then
        (let n = unat (bm_buff d ! 4); s = bm_settings d;
             d1 = (if desired AND BMP3_SEL_PRESS_OS \<noteq> 0
                   then upd_buff n (BMP3_SET_BITS_POS_0 (bm_buff d ! 0) BMP3_PRESS_OS_MSK (bs_press_os s)) d else d);
             d2 = (if desired AND BMP3_SEL_TEMP_OS \<noteq> 0
                   then upd_buff n (BMP3_SET_BITS (bm_buff d1 ! 0) BMP3_TEMP_OS_MSK BMP3_TEMP_OS_POS (bs_temp_os s)) d1 else d1)
         in upd_buff 4 (bm_buff d2 ! 4 + 1) (upd_buff (5 + n) BMP3_REG_OSR d2))
      else d)"

definition fill_odr_data :: "bmp \<Rightarrow> bmp" where
  "fill_odr_data d =
     (let n = unat (bm_buff d ! 4);
          s = (if bs_odr (bm_settings d) > BMP3_ODR_0_001_HZ then (bm_settings d)\<lparr>bs_odr := BMP3_ODR_0_001_HZ\<rparr> else bm_settings d);
          d1 = upd_buff n (BMP3_SET_BITS_POS_0 (bm_buff d ! 1) BMP3_ODR_MSK (bs_odr s)) (d\<lparr>bm_settings := s\<rparr>)
      in upd_buff 4 (bm_buff d1 ! 4 + 1) (upd_buff (5 + n) BMP3_REG_ODR d1))"

definition fill_filter_data :: "bmp \<Rightarrow> bmp" where
  "fill_filter_data d =
     (let n = unat (bm_buff d ! 4);
          d1 = upd_buff n (BMP3_SET_BITS (bm_buff d ! 3) BMP3_IIR_FILTER_MSK BMP3_IIR_FILTER_POS (bs_iir_filter (bm_settings d))) d
      in upd_buff 4 (bm_buff d1 ! 4 + 1) (upd_buff (5 + n) BMP3_REG_CONFIG d1))"

definition fill_odr_filter :: "u32 \<Rightarrow> bmp \<Rightarrow> bmp" where
  "fill_odr_filter desired d =
     (let d1 = (if are_settings_changed (BMP3_SEL_PRESS_OS OR BMP3_SEL_TEMP_OS) desired then fill_osr_data desired d else d);
          d2 = (if are_settings_changed BMP3_SEL_ODR desired then fill_odr_data d1 else d1)
      in if are_settings_changed BMP3_SEL_IIR_FILTER desired then fill_filter_data d2 else d2)"

text \<open>The test of a mode is undefined where the table of rates ends.\<close>

definition bmp_check_mode :: "(rat \<Rightarrow> rat) \<Rightarrow> bmp_settings \<Rightarrow> ret_type option" where
  "bmp_check_mode fl s = map_option (\<lambda>ok. if ok then RET_SUCCESS else RET_ERROR) (validate_osr_odr fl s)"

definition bmp_set_odr_filter :: "(rat \<Rightarrow> rat) \<Rightarrow> u8 \<Rightarrow> 'x bus \<Rightarrow> u32 \<Rightarrow> (bmp \<times> 'x, ret_type option) state" where
  "bmp_set_odr_filter fl junk bus desired = do {
     mod_dev (upd_buff 4 0);
     check_opt (defined (bmp_get_register bus BMP3_REG_OSR 4)) (do {
     mod_dev (fill_odr_filter desired);
     d \<leftarrow> get_dev;
     check_opt (State_Monad.return
         (if bs_op_mode (bm_settings d) = BMP3_MODE_NORMAL then bmp_check_mode fl (bm_settings d) else Some RET_SUCCESS)) (
     check_opt
       (bmp_set_registers junk bus (drop 5 (bm_buff d)) (take (unat (bm_buff d ! 4)) (bm_buff d)))
       (State_Monad.return (Some RET_SUCCESS)))})}"

definition bmp_set_power_control :: "'x bus \<Rightarrow> u32 \<Rightarrow> (bmp, 'x) drv" where
  "bmp_set_power_control bus desired =
     check_call (bmp_get_register bus BMP3_REG_PWR_CTRL 1) (do {
     mod_dev (\<lambda>d. if desired AND BMP3_SEL_PRESS_EN \<noteq> 0
       then upd_buff 0 (BMP3_SET_BITS_POS_0 (bm_buff d ! 0) BMP3_PRESS_EN_MSK (bs_press_en (bm_settings d))) d else d);
     mod_dev (\<lambda>d. if desired AND BMP3_SEL_TEMP_EN \<noteq> 0
       then upd_buff 0 (BMP3_SET_BITS (bm_buff d ! 0) BMP3_TEMP_EN_MSK BMP3_TEMP_EN_POS (bs_temp_en (bm_settings d))) d else d);
     d \<leftarrow> get_dev;
     check_call (bmp_set_register bus BMP3_REG_PWR_CTRL [bm_buff d ! 0]) (State_Monad.return RET_SUCCESS)})"

definition bmp_set_int_ctrl :: "'x bus \<Rightarrow> u32 \<Rightarrow> (bmp, 'x) drv" where
  "bmp_set_int_ctrl bus desired =
     check_call (bmp_get_register bus BMP3_REG_INT_CTRL 1) (do {
     mod_dev (\<lambda>d. if desired AND BMP3_SEL_OUTPUT_MODE \<noteq> 0
       then upd_buff 0 (BMP3_SET_BITS_POS_0 (bm_buff d ! 0) BMP3_INT_OUTPUT_MODE_MSK (bs_output_mode (bm_settings d))) d else d);
     mod_dev (\<lambda>d. if desired AND BMP3_SEL_LEVEL \<noteq> 0
       then upd_buff 0 (BMP3_SET_BITS (bm_buff d ! 0) BMP3_INT_LEVEL_MSK BMP3_INT_LEVEL_POS (bs_level (bm_settings d))) d else d);
     mod_dev (\<lambda>d. if desired AND BMP3_SEL_LATCH \<noteq> 0
       then upd_buff 0 (BMP3_SET_BITS (bm_buff d ! 0) BMP3_INT_LATCH_MSK BMP3_INT_LATCH_POS (bs_latch (bm_settings d))) d else d);
     mod_dev (\<lambda>d. if desired AND BMP3_SEL_DRDY_EN \<noteq> 0
       then upd_buff 0 (BMP3_SET_BITS (bm_buff d ! 0) BMP3_INT_DRDY_EN_MSK BMP3_INT_DRDY_EN_POS (bs_drdy_en (bm_settings d))) d else d);
     d \<leftarrow> get_dev;
     bmp_set_register bus BMP3_REG_INT_CTRL [bm_buff d ! 0]})"

definition bmp_set_adv_settings :: "'x bus \<Rightarrow> u32 \<Rightarrow> (bmp, 'x) drv" where
  "bmp_set_adv_settings bus desired =
     check_call (bmp_get_register bus BMP3_REG_IF_CONF 1) (do {
     mod_dev (\<lambda>d. if desired AND BMP3_SEL_I2C_WDT_EN \<noteq> 0
       then upd_buff 0 (BMP3_SET_BITS (bm_buff d ! 0) BMP3_I2C_WDT_EN_MSK BMP3_I2C_WDT_EN_POS (bs_i2c_wdt_en (bm_settings d))) d else d);
     mod_dev (\<lambda>d. if desired AND BMP3_SEL_I2C_WDT \<noteq> 0
       then upd_buff 0 (BMP3_SET_BITS (bm_buff d ! 0) BMP3_I2C_WDT_SEL_MSK BMP3_I2C_WDT_SEL_POS (bs_i2c_wdt_sel (bm_settings d))) d else d);
     d \<leftarrow> get_dev;
     check_call (bmp_set_register bus BMP3_REG_IF_CONF [bm_buff d ! 0]) (State_Monad.return RET_SUCCESS)})"

definition bmp_set_sensor_settings :: "(rat \<Rightarrow> rat) \<Rightarrow> u8 \<Rightarrow> 'x bus \<Rightarrow> u32 \<Rightarrow> (bmp \<times> 'x, ret_type option) state" where
  "bmp_set_sensor_settings fl junk bus desired =
     (let unless = (\<lambda>sub m k. if are_settings_changed sub desired then check_opt m k else k)
      in if are_settings_changed BMP3_POWER_CNTL desired \<or> are_settings_changed BMP3_ODR_FILTER desired \<or>
            are_settings_changed BMP3_INT_CTRL desired \<or> are_settings_changed BMP3_ADV_SETT desired
         then
           unless BMP3_POWER_CNTL (defined (bmp_set_power_control bus desired)) (
           unless BMP3_ODR_FILTER (bmp_set_odr_filter fl junk bus desired) (
           unless BMP3_INT_CTRL (defined (bmp_set_int_ctrl bus desired)) (
           unless BMP3_ADV_SETT (defined (bmp_set_adv_settings bus desired)) (
           State_Monad.return (Some RET_SUCCESS)))))
         else State_Monad.return None)"

definition bmp_get_odr_filter_settings :: "'x bus \<Rightarrow> (bmp, 'x) drv" where
  "bmp_get_odr_filter_settings bus =
     call_then (bmp_get_register bus BMP3_REG_OSR 4) (\<lambda>ret. do {
       mod_dev (\<lambda>d. if ret = RET_SUCCESS then d\<lparr>bm_settings := parse_odr_filter_settings (bm_buff d) (bm_settings d)\<rparr> else d);
       State_Monad.return ret})"

section \<open>Modes\<close>

definition bmp_get_operating_mode :: "'x bus \<Rightarrow> (bmp, 'x) drv" where
  "bmp_get_operating_mode bus =
     check_call (bmp_get_register bus BMP3_REG_PWR_CTRL 1) (do {
     mod_dev (\<lambda>d. upd_buff 0 (BMP3_GET_BITS (bm_buff d ! 0) BMP3_OP_MODE_MSK BMP3_OP_MODE_POS) d);
     State_Monad.return RET_SUCCESS})"

definition bmp_write_power_mode :: "'x bus \<Rightarrow> (bmp, 'x) drv" where
  "bmp_write_power_mode bus =
     check_call (bmp_get_register bus BMP3_REG_PWR_CTRL 1) (do {
     mod_dev (\<lambda>d. upd_buff 0 (BMP3_SET_BITS (bm_buff d ! 0) BMP3_OP_MODE_MSK BMP3_OP_MODE_POS (bs_op_mode (bm_settings d))) d);
     d \<leftarrow> get_dev;
     bmp_set_register bus BMP3_REG_PWR_CTRL [bm_buff d ! 0]})"

definition bmp_sleep :: "'x bus \<Rightarrow> (bmp, 'x) drv" where
  "bmp_sleep bus =
     check_call (bmp_get_register bus BMP3_REG_PWR_CTRL 1) (do {
     mod_dev (\<lambda>d. upd_buff 0 (bm_buff d ! 0 AND NOT BMP3_OP_MODE_MSK) d);
     d \<leftarrow> get_dev;
     bmp_set_register bus BMP3_REG_PWR_CTRL [bm_buff d ! 0]})"

definition bmp_validate_normal_mode_settings :: "(rat \<Rightarrow> rat) \<Rightarrow> 'x bus \<Rightarrow> (bmp \<times> 'x, ret_type option) state" where
  "bmp_validate_normal_mode_settings fl bus =
     check_opt (defined (bmp_get_odr_filter_settings bus)) (do {
     d \<leftarrow> get_dev;
     State_Monad.return (bmp_check_mode fl (bm_settings d))})"

definition bmp_set_normal_mode :: "(rat \<Rightarrow> rat) \<Rightarrow> 'x bus \<Rightarrow> (bmp \<times> 'x, ret_type option) state" where
  "bmp_set_normal_mode fl bus =
     check_opt (bmp_validate_normal_mode_settings fl bus) (
     check_opt (defined (bmp_write_power_mode bus)) (
     check_opt (defined (bmp_get_register bus BMP3_REG_ERR 1)) (do {
     d \<leftarrow> get_dev;
     State_Monad.return (Some (if bm_buff d ! 0 AND BMP3_ERR_CMD \<noteq> 0 then RET_ERROR else RET_SUCCESS))})))"

definition bmp_enter_mode :: "(rat \<Rightarrow> rat) \<Rightarrow> 'x bus \<Rightarrow> (bmp \<times> 'x, ret_type option) state" where
  "bmp_enter_mode fl bus = do {
     d \<leftarrow> get_dev;
     if BMP3_MODE_NORMAL = bs_op_mode (bm_settings d) then bmp_set_normal_mode fl bus
     else if BMP3_MODE_FORCED = bs_op_mode (bm_settings d) then defined (bmp_write_power_mode bus)
     else State_Monad.return (Some RET_SUCCESS)}"

definition bmp_set_operating_mode :: "(rat \<Rightarrow> rat) \<Rightarrow> 'x bus \<Rightarrow> (bmp \<times> 'x, ret_type option) state" where
  "bmp_set_operating_mode fl bus =
     check_opt (defined (bmp_get_operating_mode bus)) (do {
     d \<leftarrow> get_dev;
     if BMP3_MODE_SLEEP \<noteq> bm_buff d ! 0
     then check_opt (defined (bmp_sleep bus)) (do {_ \<leftarrow> bus_do bus (SleepFor 5000); bmp_enter_mode fl bus})
     else bmp_enter_mode fl bus})"

section \<open>Status\<close>

type_synonym ('d, 'x, 'v) getter = "'v \<Rightarrow> ('d \<times> 'x, ret_type \<times> 'v) state"

definition read_into :: "(bmp, 'x) drv \<Rightarrow> (u8 \<Rightarrow> 'v \<Rightarrow> 'v) \<Rightarrow> (bmp, 'x, 'v) getter" where
  "read_into m f v = do {
     ret \<leftarrow> m;
     d \<leftarrow> get_dev;
     State_Monad.return
       (if ret = RET_SUCCESS then (RET_SUCCESS, f (bm_buff d ! 0) v) else (if call_waits ret then ret else RET_ERROR, v))}"

definition then_get :: "(bmp, 'x, 'v) getter \<Rightarrow> (bmp, 'x, 'v) getter \<Rightarrow> (bmp, 'x, 'v) getter" where
  "then_get m k v = do {(ret, v1) \<leftarrow> m v; if ret = RET_SUCCESS then k v1 else State_Monad.return (ret, v1)}"

definition bmp_get_sensor_status :: "'x bus \<Rightarrow> (bmp, 'x, bmp_status) getter" where
  "bmp_get_sensor_status bus =
     then_get
       (read_into (bmp_get_register bus BMP3_REG_SENS_STATUS 1) (\<lambda>b st.
          st\<lparr>st_cmd_rdy := BMP3_GET_BITS b BMP3_STATUS_CMD_RDY_MSK BMP3_STATUS_CMD_RDY_POS,
             st_drdy_press := BMP3_GET_BITS b BMP3_STATUS_DRDY_PRESS_MSK BMP3_STATUS_DRDY_PRESS_POS,
             st_drdy_temp := BMP3_GET_BITS b BMP3_STATUS_DRDY_TEMP_MSK BMP3_STATUS_DRDY_TEMP_POS\<rparr>))
       (read_into (bmp_get_register bus BMP3_REG_EVENT 1) (\<lambda>b st. st\<lparr>st_pwr_on_rst := b AND 0x01\<rparr>))"

definition bmp_get_int_status :: "'x bus \<Rightarrow> (bmp, 'x, bmp_status) getter" where
  "bmp_get_int_status bus =
     read_into (bmp_get_register bus BMP3_REG_INT_STATUS 1) (\<lambda>b st.
       st\<lparr>st_fifo_wm := BMP3_GET_BITS_POS_0 b BMP3_INT_STATUS_FWTM_MSK,
          st_fifo_full := BMP3_GET_BITS b BMP3_INT_STATUS_FFULL_MSK BMP3_INT_STATUS_FFULL_POS,
          st_drdy := BMP3_GET_BITS b BMP3_INT_STATUS_DRDY_MSK BMP3_INT_STATUS_DRDY_POS\<rparr>)"

definition bmp_get_err_status :: "'x bus \<Rightarrow> (bmp, 'x, bmp_status) getter" where
  "bmp_get_err_status bus =
     read_into (bmp_get_register bus BMP3_REG_ERR 1) (\<lambda>b st.
       st\<lparr>st_fatal := BMP3_GET_BITS_POS_0 b BMP3_ERR_FATAL_MSK,
          st_cmd := BMP3_GET_BITS b BMP3_ERR_CMD_MSK BMP3_ERR_CMD_POS,
          st_conf := BMP3_GET_BITS b BMP3_ERR_CONF_MSK BMP3_ERR_CONF_POS\<rparr>)"

definition bmp_get_status :: "'x bus \<Rightarrow> (bmp, 'x, bmp_status) getter" where
  "bmp_get_status bus = then_get (bmp_get_sensor_status bus) (then_get (bmp_get_int_status bus) (bmp_get_err_status bus))"

section \<open>Calibration and compensation\<close>

definition parse_raw_calib :: "u8 list \<Rightarrow> bmp_raw_calib" where
  "parse_raw_calib b =
     (let u = (\<lambda>i. uint (BMP3_CONCAT_BYTES (b ! (i + 1)) (b ! i))); s = (\<lambda>i. sint (BMP3_CONCAT_BYTES (b ! (i + 1)) (b ! i)));
          c = (\<lambda>i. sint (b ! i))
      in \<lparr>br_t1 = u 0, br_t2 = u 2, br_t3 = c 4, br_p1 = s 5, br_p2 = s 7, br_p3 = c 9, br_p4 = c 10, br_p5 = u 11, br_p6 = u 13,
          br_p7 = c 15, br_p8 = c 16, br_p9 = s 17, br_p10 = c 19, br_p11 = c 20\<rparr>)"

definition quantize_calib :: "bmp_raw_calib \<Rightarrow> rat \<Rightarrow> bmp_calib" where
  "quantize_calib r t_lin =
     \<lparr>bc_t1 = of_int (br_t1 r) * 2 ^ 8, bc_t2 = of_int (br_t2 r) / 2 ^ 30, bc_t3 = of_int (br_t3 r) / 2 ^ 48,
      bc_p1 = of_int (br_p1 r - 16384) / 2 ^ 20, bc_p2 = of_int (br_p2 r - 16384) / 2 ^ 29, bc_p3 = of_int (br_p3 r) / 2 ^ 32,
      bc_p4 = of_int (br_p4 r) / 2 ^ 37, bc_p5 = of_int (br_p5 r) * 2 ^ 3, bc_p6 = of_int (br_p6 r) / 2 ^ 6,
      bc_p7 = of_int (br_p7 r) / 2 ^ 8, bc_p8 = of_int (br_p8 r) / 2 ^ 15, bc_p9 = of_int (br_p9 r) / 2 ^ 48,
      bc_p10 = of_int (br_p10 r) / 2 ^ 48, bc_p11 = of_int (br_p11 r) / 2 ^ 65, bc_t_lin = t_lin\<rparr>"

definition parse_calibration_data :: "bmp \<Rightarrow> bmp" where
  "parse_calibration_data d =
     (let r = parse_raw_calib (bm_buff d) in d\<lparr>bm_raw_calib := r, bm_calib := quantize_calib r (bc_t_lin (bm_calib d))\<rparr>)"

definition parse_sensor_data :: "u8 list \<Rightarrow> u32 \<times> u32" where
  "parse_sensor_data b =
     (let w = (\<lambda>i. push_bit 16 (ucast (b ! (i + 2))) OR push_bit 8 (ucast (b ! (i + 1))) OR ucast (b ! i)) in (w 0, w 3))"

definition clamp :: "rat \<Rightarrow> rat \<Rightarrow> rat \<Rightarrow> rat" where
  "clamp lo hi v = (let v1 = (if v < lo then lo else v) in if v1 > hi then hi else v1)"

text \<open>The code of the compensation of the temperature is the error code in every case.\<close>

definition compensate_temperature :: "(rat \<Rightarrow> rat) \<Rightarrow> u32 \<Rightarrow> bmp_calib \<Rightarrow> ret_type \<times> rat \<times> bmp_calib" where
  "compensate_temperature db raw c =
     (let d1 = db (of_nat (unat raw) - bc_t1 c);
          d2 = db (d1 * bc_t2 c);
          t = clamp (- 40) 85 (db (d2 + db (db (d1 * d1) * bc_t3 c)))
      in (RET_ERROR, t, c\<lparr>bc_t_lin := t\<rparr>))"

definition compensate_pressure :: "(rat \<Rightarrow> rat) \<Rightarrow> (rat \<Rightarrow> rat) \<Rightarrow> u32 \<Rightarrow> bmp_calib \<Rightarrow> ret_type \<times> rat" where
  "compensate_pressure fl db raw c =
     (let t = bc_t_lin c; p = of_nat (unat raw);
          a1 = db (bc_p6 c * t); a2 = db (bc_p7 c * bmp_pow fl t 2); a3 = db (bc_p8 c * bmp_pow fl t 3);
          d5 = db (db (db (bc_p5 c + a1) + a2) + a3);
          b1 = db (bc_p2 c * t); b2 = db (bc_p3 c * bmp_pow fl t 2); b3 = db (bc_p4 c * bmp_pow fl t 3);
          d6 = db (p * db (db (db (bc_p1 c + b1) + b2) + b3));
          c1 = bmp_pow fl p 2; c2 = db (bc_p9 c + db (bc_p10 c * t)); c3 = db (c1 * c2);
          d4 = db (c3 + db (bmp_pow fl p 3 * bc_p11 c));
          comp = db (db (d5 + d6) + d4)
      in (if comp < 30000 \<or> comp > 125000 then RET_ERROR else RET_SUCCESS, clamp 30000 125000 comp))"

text \<open>The values are stored; the code is computed from a variable that has no value yet.\<close>

definition compensate_data :: "(rat \<Rightarrow> rat) \<Rightarrow> (rat \<Rightarrow> rat) \<Rightarrow> u32 \<times> u32 \<Rightarrow> bmp \<Rightarrow> ret_type option \<times> bmp" where
  "compensate_data fl db raw d =
     (case compensate_temperature db (snd raw) (bm_calib d) of
        (_, t, c) \<Rightarrow>
          (case compensate_pressure fl db (fst raw) c of
             (_, p) \<Rightarrow> (None, d\<lparr>bm_calib := c, bm_temperature := t, bm_pressure := p\<rparr>)))"

definition bmp_get_pressure_and_temp :: "(rat \<Rightarrow> rat) \<Rightarrow> (rat \<Rightarrow> rat) \<Rightarrow> 'x bus \<Rightarrow> (bmp \<times> 'x, ret_type option) state" where
  "bmp_get_pressure_and_temp fl db bus =
     check_opt (defined (bmp_get_register bus BMP3_REG_DATA BMP3_LEN_P_T_DATA)) (do {
     d \<leftarrow> get_dev;
     (let r = compensate_data fl db (parse_sensor_data (bm_buff d)) d in do {mod_dev (\<lambda>_. snd r); State_Monad.return (fst r)})})"

section \<open>Start-up\<close>

text \<open>The identification is compared whatever the read returned.\<close>

definition bmp_check_chip_id :: "'x bus \<Rightarrow> (bmp, 'x) drv" where
  "bmp_check_chip_id bus = do {
     mod_dev (\<lambda>d. d\<lparr>bm_mem_addr := ucast BMP3_REG_CHIP_ID\<rparr>);
     call_then (bmp_get_register bus BMP3_REG_CHIP_ID 1) (\<lambda>ret. do {
       d \<leftarrow> get_dev;
       State_Monad.return (if BMP3_CHIP_ID \<noteq> bm_buff d ! 0 \<and> BMP390_CHIP_ID \<noteq> bm_buff d ! 0 then RET_ERROR else ret)})}"

text \<open>The error register is tested with the address of the command register.\<close>

definition bmp_soft_reset :: "'x bus \<Rightarrow> (bmp, 'x) drv" where
  "bmp_soft_reset bus =
     check_call (bmp_get_register bus BMP3_REG_SENS_STATUS 1) (do {
     d \<leftarrow> get_dev;
     if bm_buff d ! 0 AND BMP3_CMD_RDY \<noteq> 0 then do {
       mod_dev (upd_buff 0 BMP3_SOFT_RESET);
       check_call (bmp_set_register bus BMP3_REG_CMD [BMP3_SOFT_RESET]) (
       drv_sleep bus 2000 (
       check_call (bmp_get_register bus BMP3_REG_ERR 1) (do {
       d \<leftarrow> get_dev;
       State_Monad.return (if bm_buff d ! 0 AND BMP3_REG_CMD \<noteq> 0 then RET_ERROR else RET_SUCCESS)})))}
     else State_Monad.return RET_SUCCESS})"

definition bmp_get_calibration_data :: "'x bus \<Rightarrow> (bmp, 'x) drv" where
  "bmp_get_calibration_data bus =
     check_call (bmp_get_register bus BMP3_REG_CALIB_DATA BMP3_LEN_CALIB_DATA) (do {
     mod_dev parse_calibration_data;
     State_Monad.return RET_SUCCESS})"

definition bmp_default_settings :: bmp_settings where
  "bmp_default_settings =
     \<lparr>bs_op_mode = BMP3_MODE_NORMAL, bs_press_en = BMP3_ENABLE, bs_temp_en = BMP3_ENABLE, bs_press_os = BMP3_OVERSAMPLING_2X,
      bs_temp_os = BMP3_OVERSAMPLING_2X, bs_iir_filter = BMP3_IIR_FILTER_DISABLE, bs_odr = BMP3_ODR_100_HZ,
      bs_output_mode = BMP3_INT_PIN_PUSH_PULL, bs_level = BMP3_INT_PIN_ACTIVE_LOW, bs_latch = BMP3_INT_PIN_NON_LATCH,
      bs_drdy_en = BMP3_ENABLE, bs_i2c_wdt_en = BMP3_DISABLE, bs_i2c_wdt_sel = BMP3_DISABLE\<rparr>"

definition bmp_init_settings :: "(rat \<Rightarrow> rat) \<Rightarrow> u8 \<Rightarrow> 'x bus \<Rightarrow> (bmp \<times> 'x, ret_type option) state" where
  "bmp_init_settings fl junk bus = do {
     mod_dev (\<lambda>d. d\<lparr>bm_settings := bmp_default_settings\<rparr>);
     check_opt (bmp_set_sensor_settings fl junk bus
         (BMP3_SEL_PRESS_EN OR BMP3_SEL_TEMP_EN OR BMP3_SEL_PRESS_OS OR BMP3_SEL_TEMP_OS OR BMP3_SEL_ODR OR BMP3_SEL_DRDY_EN))
       (bmp_set_operating_mode fl bus)}"

definition bmp_init :: "(rat \<Rightarrow> rat) \<Rightarrow> u8 \<Rightarrow> 'x bus \<Rightarrow> (bmp \<times> 'x, ret_type option) state" where
  "bmp_init fl junk bus =
     check_opt (defined (bmp_check_chip_id bus)) (
     check_opt (defined (bmp_soft_reset bus)) (
     check_opt (defined (bmp_get_calibration_data bus)) (
     check_opt (bmp_init_settings fl junk bus) (State_Monad.return (Some RET_SUCCESS)))))"

definition bmp_new :: "u16 \<Rightarrow> u8 list \<Rightarrow> bmp_settings \<Rightarrow> bmp" where
  "bmp_new address buff settings =
     \<lparr>bm_raw_calib = \<lparr>br_t1 = 0, br_t2 = 0, br_t3 = 0, br_p1 = 0, br_p2 = 0, br_p3 = 0, br_p4 = 0, br_p5 = 0, br_p6 = 0, br_p7 = 0,
        br_p8 = 0, br_p9 = 0, br_p10 = 0, br_p11 = 0\<rparr>,
      bm_calib = \<lparr>bc_t1 = 0, bc_t2 = 0, bc_t3 = 0, bc_p1 = 0, bc_p2 = 0, bc_p3 = 0, bc_p4 = 0, bc_p5 = 0, bc_p6 = 0, bc_p7 = 0,
        bc_p8 = 0, bc_p9 = 0, bc_p10 = 0, bc_p11 = 0, bc_t_lin = 0\<rparr>,
      bm_pressure = 0, bm_temperature = 0, bm_settings = settings, bm_dev_addr = push_bit 1 address, bm_mem_addr = 0, bm_buff = buff\<rparr>"

text \<open>\<open>getData\<close> fills a structure with both values.\<close>

definition bmp_get_data :: "(rat \<Rightarrow> rat) \<Rightarrow> (rat \<Rightarrow> rat) \<Rightarrow> 'x bus \<Rightarrow> (bmp \<times> 'x, ret_type option) state" where
  "bmp_get_data fl db bus = bmp_get_pressure_and_temp fl db bus"

section \<open>The duration of a measurement\<close>

text \<open>What IEEE floats give: whole numbers up to 2 ^ 24 are not rounded.\<close>

definition exact_24 :: "(rat \<Rightarrow> rat) \<Rightarrow> bool" where
  "exact_24 fl \<longleftrightarrow> (\<forall>k :: nat. k \<le> 2 ^ 24 \<longrightarrow> fl (of_nat k) = of_nat k)"

lemma exact_24D: "exact_24 fl \<Longrightarrow> k \<le> 2 ^ 24 \<Longrightarrow> fl (of_nat k) = of_nat k"
  by (simp add: exact_24_def)

lemma bmp_pow_loop_exact:
  assumes "exact_24 fl"
  shows "m * 2 ^ n \<le> 2 ^ 24 \<Longrightarrow> bmp_pow_loop fl 2 n (of_nat m) = of_nat (m * 2 ^ n)"
proof (induction n arbitrary: m)
  case (Suc n)
  have two: "fl 2 = 2"
    using exact_24D [OF assms, of 2] by simp
  have "2 * m \<le> 2 * m * 2 ^ n"
    by simp
  also have "\<dots> \<le> 2 ^ 24"
    using Suc.prems by (simp only: power_Suc mult.commute mult.left_commute)
  finally have "2 * m \<le> 2 ^ 24" .
  then have "fl (2 * of_nat m) = of_nat (2 * m)"
    using exact_24D [OF assms, of "2 * m"] by simp
  then show ?case
    using Suc.IH [of "2 * m"] Suc.prems by (simp add: two mult.assoc mult.left_commute)
qed simp

lemma to_u32_of_nat: "n < 2 ^ 32 \<Longrightarrow> to_u32 (of_nat n) = Some (of_nat n)"
  by (simp add: to_u32_def trunc_int_def Let_def)

lemma meas_time_exact:
  assumes "exact_24 fl" and "unat os \<le> 7" and "c \<le> 1000"
  shows "to_u32 (fl (of_nat c + fl (bmp_pow fl 2 os * of_nat BMP3_ADC_CONV_TIME))) = Some (of_nat (c + 2000 * 2 ^ unat os))"
proof -
  have le: "(2 :: nat) ^ unat os \<le> 128"
    using power_increasing [OF assms(2), of "2 :: nat"] by simp
  have p: "bmp_pow fl 2 os = of_nat (2 ^ unat os)"
    using bmp_pow_loop_exact [OF assms(1), of 1 "unat os"] le by (simp add: bmp_pow_def)
  have "fl (of_nat (2 ^ unat os * 2000)) = of_nat (2 ^ unat os * 2000)"
    using le by (intro exact_24D [OF assms(1)]) simp
  then have m: "fl (bmp_pow fl 2 os * of_nat BMP3_ADC_CONV_TIME) = of_nat (2 ^ unat os * 2000)"
    unfolding p BMP3_ADC_CONV_TIME_def by simp
  have "fl (of_nat (c + 2000 * 2 ^ unat os)) = of_nat (c + 2000 * 2 ^ unat os)"
    using le assms(3) by (intro exact_24D [OF assms(1)]) simp
  then have "fl (of_nat c + of_nat (2 ^ unat os * 2000)) = of_nat (c + 2000 * 2 ^ unat os)"
    by (simp add: mult.commute)
  then show ?thesis
    unfolding m using le assms(3) by (simp only:) (intro to_u32_of_nat; simp)
qed

lemma odr_table_powers: "i < 18 \<Longrightarrow> odr_table ! i = of_nat (5000 * 2 ^ i)"
proof -
  have t: "odr_table = map (\<lambda>i. of_nat (5000 * 2 ^ i)) [0..<18]"
    by (simp add: odr_table_def upt_rec)
  show "i < 18 \<Longrightarrow> odr_table ! i = of_nat (5000 * 2 ^ i)"
    unfolding t by (simp only: nth_map length_upt diff_zero nth_upt add_0)
qed

lemma validate_osr_odr_exact:
  assumes "exact_24 fl" and "unat (bs_press_os s) \<le> 7" and "unat (bs_temp_os s) \<le> 7"
  shows "validate_osr_odr fl s =
    (if unat (bs_odr s) < 18
     then Some (234 + ((if bs_press_en s \<noteq> 0 then 392 + 2000 * 2 ^ unat (bs_press_os s) else 0) +
                       (if bs_temp_en s \<noteq> 0 then 313 + 2000 * 2 ^ unat (bs_temp_os s) else 0))
                < (5000 * 2 ^ unat (bs_odr s) :: nat))
     else None)"
proof -
  let ?p = "if bs_press_en s \<noteq> 0 then 392 + 2000 * 2 ^ unat (bs_press_os s) else 0 :: nat"
  let ?t = "if bs_temp_en s \<noteq> 0 then 313 + 2000 * 2 ^ unat (bs_temp_os s) else 0 :: nat"
  have p: "(if bs_press_en s \<noteq> 0 then press_meas_time fl s else Some 0) = Some (of_nat ?p)"
    using meas_time_exact [OF assms(1,2), of 392] by (simp add: press_meas_time_def BMP3_SETTLE_TIME_PRESS_def)
  have t: "(if bs_temp_en s \<noteq> 0 then temp_meas_time fl s else Some 0) = Some (of_nat ?t)"
    using meas_time_exact [OF assms(1,3), of 313] by (simp add: temp_meas_time_def BMP3_SETTLE_TIME_TEMP_def)
  have le: "(2 :: nat) ^ unat (bs_press_os s) \<le> 128" "(2 :: nat) ^ unat (bs_temp_os s) \<le> 128"
    using power_increasing [OF assms(2), of "2 :: nat"] power_increasing [OF assms(3), of "2 :: nat"] by simp_all
  have len: "length odr_table = 18"
    by (simp add: odr_table_def)
  show ?thesis
  proof (cases "unat (bs_odr s) < 18")
    case True
    then have "(2 :: nat) ^ unat (bs_odr s) \<le> 2 ^ 17"
      by (intro power_increasing) simp_all
    then have "(of_nat (234 + (?p + ?t)) < (of_nat (5000 * 2 ^ unat (bs_odr s)) :: u32)) = (234 + (?p + ?t) < 5000 * 2 ^ unat (bs_odr s))"
      using le by (simp only: word_less_nat_alt) (subst unat_of_nat32, simp, subst unat_of_nat32, simp, simp)
    moreover have "(234 :: u32) + (of_nat ?p + of_nat ?t) = of_nat (234 + (?p + ?t))"
      by simp
    ultimately show ?thesis
      using True unfolding validate_osr_odr_def p t option.case len by (simp only: odr_table_powers if_True)
  next
    case False
    then show ?thesis
      unfolding validate_osr_odr_def p t option.case len by (simp only: if_False)
  qed
qed

lemma exact_24_id: "exact_24 (\<lambda>x. x)"
  by (simp add: exact_24_def)


section \<open>Writing several registers\<close>

text \<open>
  What the data sheet says of a write of several bytes: the first one goes to the addressed register, then
  each address is followed by its data; an address at the end has no effect.
\<close>

fun pairs_store :: "u16 \<Rightarrow> u8 list \<Rightarrow> (u16 \<Rightarrow> u8) \<Rightarrow> u16 \<Rightarrow> u8" where
  "pairs_store a [] g = g"
| "pairs_store a [v] g = g(a := v)"
| "pairs_store a (v # b # vs) g = pairs_store (ucast b) vs (g(a := v))"

definition bmp_chip :: "'x bus \<Rightarrow> u16 \<Rightarrow> ('x \<Rightarrow> u16 \<Rightarrow> u8) \<Rightarrow> bool" where
  "bmp_chip bus dev regs \<longleftrightarrow>
     (\<forall>x reg bs. \<exists>x'. bus (I2cWrite dev reg bs) x = (RET_SUCCESS, [], x') \<and> regs x' = pairs_store reg bs (regs x)) \<and>
     (\<forall>x reg n. \<exists>x'. bus (I2cRead dev reg n) x = (RET_SUCCESS, map (\<lambda>i. regs x (reg + of_nat i)) [0..<n], x') \<and>
        regs x' = regs x)"

lemma bmp_chip_registers: "bmp_chip bus dev regs \<Longrightarrow> byte_registers bus dev regs"
  unfolding bmp_chip_def byte_registers_def by (metis pairs_store.simps(2))

lemma bmp_chip_write:
  assumes "bmp_chip bus dev regs"
  obtains x' where "bus (I2cWrite dev reg bs) x = (RET_SUCCESS, [], x')" "regs x' = pairs_store reg bs (regs x)"
  using assms unfolding bmp_chip_def by blast

fun bmp_bus :: "(u16 \<Rightarrow> u8) bus" where
  "bmp_bus (I2cWrite dev reg bs) x = (RET_SUCCESS, [], pairs_store reg bs x)"
| "bmp_bus (I2cRead dev reg n) x = (RET_SUCCESS, map (\<lambda>i. x (reg + of_nat i)) [0..<n], x)"
| "bmp_bus ev x = (RET_SUCCESS, [], x)"

lemma bmp_bus_chip: "bmp_chip bmp_bus dev (\<lambda>x. x)"
  by (auto simp: bmp_chip_def)

abbreviation bmp_ok :: "u16 \<Rightarrow> bmp \<Rightarrow> bool" where
  "bmp_ok dev d \<equiv> bm_dev_addr d = dev \<and> length (bm_buff d) = 21"

lemma bmp_get_register_ok:
  assumes "byte_registers bus dev regs" and "bmp_ok dev d"
  obtains x' where "run_state (bmp_get_register bus reg n) (d, x) =
      (RET_SUCCESS, d\<lparr>bm_mem_addr := ucast reg, bm_buff := fill (map (\<lambda>i. regs x (ucast reg + of_nat i)) [0..<n]) (bm_buff d)\<rparr>, x')"
    "regs x' = regs x"
proof -
  obtain x1 where "bus (I2cRead dev (ucast reg) n) x = (RET_SUCCESS, map (\<lambda>i. regs x (ucast reg + of_nat i)) [0..<n], x1)" "regs x1 = regs x"
    by (rule byte_registers_read [OF assms(1)])
  with assms(2) show thesis
    by (intro that [of x1]) (auto simp: bmp_get_register_def)
qed

text \<open>The byte that was never written does not reach a register.\<close>

lemma pairs_store_junk: "length addrs = length vs \<Longrightarrow>
    pairs_store a (v # interleave_reg_addr addrs vs @ [junk]) g = pairs_store a (v # interleave_reg_addr addrs vs) g"
  by (induction addrs vs arbitrary: a v g rule: list_induct2) simp_all

lemma odr_filter_filled:
  assumes "bm_buff d = [a, b, c, e, 0, r0, r1, r2] @ r" and "bs_odr (bm_settings d) \<le> 17"
  shows "fill_odr_filter BMP3_ODR_FILTER d =
    d\<lparr>bm_buff :=
        [put_bits 0x3F ((push_bit 3 (bs_temp_os (bm_settings d)) AND 0x38) OR (bs_press_os (bm_settings d) AND 7)) a,
         put_bits 0x1F (bs_odr (bm_settings d) AND 0x1F) b, put_bits 0x0E (push_bit 1 (bs_iir_filter (bm_settings d)) AND 0x0E) e, e, 3,
         0x1C, 0x1D, 0x1F] @ r\<rparr>"
proof -
  have m: "put_bits 0x38 (push_bit 3 t AND 0x38) (put_bits 7 (p AND 7) a) = put_bits 0x3F ((push_bit 3 t AND 0x38) OR (p AND 7)) a"
    for t p :: u8
  proof -
    have "(p AND 7) AND NOT 0x38 = (p AND 7 :: u8)"
      by (simp add: and.assoc)
    then show ?thesis
      by (simp add: put_bits_put_bits)
  qed
  have "\<not> bs_odr (bm_settings d) > BMP3_ODR_0_001_HZ"
    using assms(2) by (simp add: BMP3_ODR_0_001_HZ_def not_less)
  then show ?thesis
    using assms(1)
    by (simp add: fill_odr_filter_def are_settings_changed_def fill_osr_data_def fill_odr_data_def fill_filter_data_def upd_buff_def
        Let_def bmp_constants BMP3_SET_BITS_def BMP3_SET_BITS_POS_0_def m)
qed

lemma list_21:
  assumes "length xs = 21"
  obtains b0 b1 b2 b3 b4 r0 r1 r2 r where "xs = b0 # b1 # b2 # b3 # b4 # r0 # r1 # r2 # r" "length r = 13"
proof -
  obtain b0 x1 where 0: "xs = b0 # x1" "length x1 = 20"
    using assms by (cases xs) auto
  obtain b1 x2 where 1: "x1 = b1 # x2" "length x2 = 19"
    using 0(2) by (cases x1) auto
  obtain b2 x3 where 2: "x2 = b2 # x3" "length x3 = 18"
    using 1(2) by (cases x2) auto
  obtain b3 x4 where 3: "x3 = b3 # x4" "length x4 = 17"
    using 2(2) by (cases x3) auto
  obtain b4 x5 where 4: "x4 = b4 # x5" "length x5 = 16"
    using 3(2) by (cases x4) auto
  obtain r0 x6 where 5: "x5 = r0 # x6" "length x6 = 15"
    using 4(2) by (cases x5) auto
  obtain r1 x7 where 6: "x6 = r1 # x7" "length x7 = 14"
    using 5(2) by (cases x6) auto
  obtain r2 r where 7: "x7 = r2 # r" "length r = 13"
    using 6(2) by (cases x7) auto
  show thesis
    using that 0 1 2 3 4 5 6 7 by simp
qed

definition odr_filter_of :: "bmp_settings \<Rightarrow> (u16 \<Rightarrow> u8) \<Rightarrow> u16 \<Rightarrow> u8" where
  "odr_filter_of s g =
     g(0x1C := put_bits 0x3F (push_bit 3 (bs_temp_os s) AND 0x38 OR bs_press_os s AND 7) (g 0x1C),
       0x1D := put_bits 0x1F (bs_odr s AND 0x1F) (g 0x1D),
       0x1F := put_bits 0x0E (push_bit 1 (bs_iir_filter s) AND 0x0E) (g 0x1F))"

lemma bmp_set_odr_filter_run:
  assumes "run_state (bmp_get_register bus BMP3_REG_OSR 4) (upd_buff 4 0 d, x) = (RET_SUCCESS, d1, x1)"
    and "fill_odr_filter desired d1 = d2"
    and "(if bs_op_mode (bm_settings d2) = BMP3_MODE_NORMAL then bmp_check_mode fl (bm_settings d2) else Some RET_SUCCESS) = Some RET_SUCCESS"
    and "run_state (bmp_set_registers junk bus (drop 5 (bm_buff d2)) (take (unat (bm_buff d2 ! 4)) (bm_buff d2))) (d2, x1) =
      (Some RET_SUCCESS, d3, x2)"
  shows "run_state (bmp_set_odr_filter fl junk bus desired) (d, x) = (Some RET_SUCCESS, d3, x2)"
  using assms by (simp add: bmp_set_odr_filter_def)

lemma bmp_set_odr_filter_ok:
  assumes chip: "bmp_chip bus dev regs" and ok: "bmp_ok dev d" and odr: "bs_odr (bm_settings d) \<le> 17"
    and mode: "bs_op_mode (bm_settings d) = BMP3_MODE_NORMAL \<longrightarrow> validate_osr_odr fl (bm_settings d) = Some True"
  shows "\<exists>d' x'. run_state (bmp_set_odr_filter fl junk bus BMP3_ODR_FILTER) (d, x) = (Some RET_SUCCESS, d', x') \<and>
    bmp_ok dev d' \<and> bm_settings d' = bm_settings d \<and> regs x' = odr_filter_of (bm_settings d) (regs x)"
proof -
  let ?s = "bm_settings d" and ?d0 = "upd_buff 4 0 d"
  have ok0: "bmp_ok dev ?d0"
    using ok by (simp add: upd_buff_def)
  obtain x1 where 1: "run_state (bmp_get_register bus BMP3_REG_OSR 4) (?d0, x) =
      (RET_SUCCESS, ?d0\<lparr>bm_mem_addr := 0x1C, bm_buff := fill (map (\<lambda>i. regs x (0x1C + of_nat i)) [0..<4]) (bm_buff ?d0)\<rparr>, x1)"
      "regs x1 = regs x"
    using bmp_get_register_ok [OF bmp_chip_registers [OF chip] ok0, of BMP3_REG_OSR 4 x thesis] by (simp add: BMP3_REG_OSR_def)
  obtain b0 b1 b2 b3 b4 r0 r1 r2 r where r: "bm_buff d = b0 # b1 # b2 # b3 # b4 # r0 # r1 # r2 # r" "length r = 13"
    using ok list_21 by metis
  have buff: "fill (map (\<lambda>i. regs x (0x1C + of_nat i)) [0..<4]) (bm_buff ?d0) =
      [regs x 0x1C, regs x 0x1D, regs x 0x1E, regs x 0x1F, 0, r0, r1, r2] @ r"
    using r by (simp add: fill_def upd_buff_def upt_rec)
  let ?d1 = "d\<lparr>bm_mem_addr := 0x1C, bm_buff := [regs x 0x1C, regs x 0x1D, regs x 0x1E, regs x 0x1F, 0, r0, r1, r2] @ r\<rparr>"
  let ?A = "put_bits 0x3F (push_bit 3 (bs_temp_os ?s) AND 0x38 OR bs_press_os ?s AND 7) (regs x 0x1C)"
  let ?B = "put_bits 0x1F (bs_odr ?s AND 0x1F) (regs x 0x1D)"
  let ?C = "put_bits 0x0E (push_bit 1 (bs_iir_filter ?s) AND 0x0E) (regs x 0x1F)"
  let ?d2 = "d\<lparr>bm_mem_addr := 0x1C, bm_buff := [?A, ?B, ?C, regs x 0x1F, 3, 0x1C, 0x1D, 0x1F] @ r\<rparr>"
  have filled: "fill_odr_filter BMP3_ODR_FILTER ?d1 = ?d2"
    using odr_filter_filled [of ?d1 "regs x 0x1C" "regs x 0x1D" "regs x 0x1E" "regs x 0x1F" r0 r1 r2 r] odr by simp
  obtain x2 where 2: "bus (I2cWrite dev 0x1C [?A, 0x1D, ?B, 0x1F, ?C, junk]) x1 = (RET_SUCCESS, [], x2)"
      "regs x2 = pairs_store 0x1C [?A, 0x1D, ?B, 0x1F, ?C, junk] (regs x1)"
    by (rule bmp_chip_write [OF chip])
  have "regs x2 = odr_filter_of ?s (regs x)"
    unfolding 2(2) 1(2) odr_filter_of_def by simp
  moreover have "run_state (bmp_set_odr_filter fl junk bus BMP3_ODR_FILTER) (d, x) = (Some RET_SUCCESS, ?d2, x2)"
  proof (rule bmp_set_odr_filter_run [OF _ filled])
    show "run_state (bmp_get_register bus BMP3_REG_OSR 4) (?d0, x) = (RET_SUCCESS, ?d1, x1)"
      using 1(1) unfolding buff by (simp add: upd_buff_def)
    show "run_state (bmp_set_registers junk bus (drop 5 (bm_buff ?d2)) (take (unat (bm_buff ?d2 ! 4)) (bm_buff ?d2))) (?d2, x1) =
        (Some RET_SUCCESS, ?d2, x2)"
      using ok 2(1) by (simp add: bmp_set_registers_def bmp_set_register_def)
  qed (use mode in \<open>simp add: bmp_check_mode_def\<close>)
  ultimately show ?thesis
    using ok r by (intro exI [of _ ?d2] exI [of _ x2]) simp
qed

section \<open>Properties\<close>

lemma small_word: "unat (v :: u8) < 2 ^ n \<Longrightarrow> take_bit n v = v"
  by (subst word_unat_eq_iff) (simp add: unsigned_take_bit_eq take_bit_nat_eq_self)

lemma small_mask: "unat (v :: u8) < 2 ^ n \<Longrightarrow> v AND mask n = v"
  using small_word by (simp add: take_bit_eq_mask)

lemma put_bits_and:
  assumes "k AND NOT m = 0"
  shows "put_bits m v old AND k = v AND k"
proof (rule bit_word_eqI)
  fix n assume "n < LENGTH(8)"
  have "\<not> bit (k AND NOT m) n"
    using assms by simp
  then have "bit k n \<Longrightarrow> bit m n"
    using \<open>n < LENGTH(8)\<close> by (simp add: bit_simps)
  then show "bit (put_bits m v old AND k) n = bit (v AND k) n"
    using \<open>n < LENGTH(8)\<close> by (auto simp: bit_simps put_bits_bit)
qed

lemma field_back: "k + n \<le> 8 \<Longrightarrow> drop_bit k ((push_bit k v AND push_bit k (mask n)) AND push_bit k (mask n)) = (v AND mask n :: u8)"
  by (rule bit_word_eqI) (auto simp: bit_simps)

lemma parse_odr_fields:
  "parse_odr_filter_settings [a, b, c, e] s =
     s\<lparr>bs_press_os := a AND 7, bs_temp_os := drop_bit 3 (a AND 0x38), bs_odr := b AND 0x1F, bs_iir_filter := drop_bit 1 (e AND 0x0E)\<rparr>"
  by (simp add: parse_odr_filter_settings_def bmp_constants BMP3_GET_BITS_def BMP3_GET_BITS_POS_0_def)

lemma fields_apart:
  assumes "unat (p :: u8) < 8" and "unat (t :: u8) < 8"
  shows "(push_bit 3 t AND 0x38 OR p AND 7) AND 7 = p" "drop_bit 3 ((push_bit 3 t AND 0x38 OR p AND 7) AND 0x38) = t"
proof -
  have m: "(7 :: u8) = mask 3" "(0x38 :: u8) = push_bit 3 (mask 3)"
    by (simp_all add: mask_eq_exp_minus_1 push_bit_eq_mult)
  have "take_bit 3 p = p" "take_bit 3 t = t"
    using assms by (auto intro!: small_word)
  then have b: "bit p n \<Longrightarrow> n < 3" "bit t n \<Longrightarrow> n < 3" for n
    by (metis bit_take_bit_iff)+
  show "(push_bit 3 t AND 0x38 OR p AND 7) AND 7 = p" "drop_bit 3 ((push_bit 3 t AND 0x38 OR p AND 7) AND 0x38) = t"
    unfolding m by (rule bit_word_eqI; use b in \<open>force simp: bit_simps\<close>)+
qed

lemma put_bits_beside:
  assumes "v AND NOT m = 0"
  shows "put_bits m v old AND NOT m = old AND NOT m"
proof (rule bit_word_eqI)
  fix n assume "n < LENGTH(8)"
  have "\<not> bit (v AND NOT m) n"
    using assms by simp
  then show "bit (put_bits m v old AND NOT m) n = bit (old AND NOT m) n"
    using \<open>n < LENGTH(8)\<close> by (auto simp: put_bits_bit bit_simps)
qed

lemma masked_beside: "(v AND m) AND NOT m = (0 :: u8)"
  by (simp only: and.assoc bit.conj_cancel_right bit.conj_zero_right)

lemma fields_beside: "((v AND 0x38) OR (w AND 7)) AND NOT 0x3F = (0 :: u8)"
proof -
  have "(0x38 :: u8) AND NOT 0x3F = 0" "(7 :: u8) AND NOT 0x3F = 0"
    by simp_all
  then show ?thesis
    by (simp only: bit.conj_disj_distrib2 and.assoc bit.conj_zero_right or.left_neutral)
qed

text \<open>C36: 
  The rate and filter settings, written to a device and read back, are what they were, for a rate of at most 17
  (BMP3_ODR_0_001_HZ; the code turns the larger ones into 17), over-samplings and a filter of three bits, and, in normal
  mode, a combination that the check of the durations accepts.  In the three registers the bits beside the
  fields keep their value, the other registers are not touched, and the byte that is sent without having been
  written has no effect.  The device keeps what is written to its registers, on a bus that never waits or fails.
\<close>
theorem bmp_odr_roundtrip:
  assumes "bmp_chip bus dev regs" and "bmp_ok dev d" and "bs_odr (bm_settings d) \<le> 17"
    and "bs_op_mode (bm_settings d) = BMP3_MODE_NORMAL \<longrightarrow> validate_osr_odr fl (bm_settings d) = Some True"
    and "unat (bs_press_os (bm_settings d)) < 8" "unat (bs_temp_os (bm_settings d)) < 8" "unat (bs_iir_filter (bm_settings d)) < 8"
  shows "\<exists>d' x'. run_state (bmp_set_odr_filter fl junk bus BMP3_ODR_FILTER) (d, x) = (Some RET_SUCCESS, d', x') \<and>
    bm_settings d' = bm_settings d \<and> (\<forall>r. r \<notin> {0x1C, 0x1D, 0x1F} \<longrightarrow> regs x' r = regs x r) \<and>
    regs x' 0x1C AND NOT 0x3F = regs x 0x1C AND NOT 0x3F \<and> regs x' 0x1D AND NOT 0x1F = regs x 0x1D AND NOT 0x1F \<and>
    regs x' 0x1F AND NOT 0x0E = regs x 0x1F AND NOT 0x0E \<and>
    parse_odr_filter_settings [regs x' 0x1C, regs x' 0x1D, regs x' 0x1E, regs x' 0x1F] (bm_settings d) = bm_settings d"
proof -
  let ?s = "bm_settings d"
  obtain d' x' where w: "run_state (bmp_set_odr_filter fl junk bus BMP3_ODR_FILTER) (d, x) = (Some RET_SUCCESS, d', x')"
      "bm_settings d' = ?s" "regs x' = odr_filter_of ?s (regs x)"
    using bmp_set_odr_filter_ok [OF assms(1-4)] by blast
  have m: "(0x1F :: u8) = mask 5" "(0x0E :: u8) = push_bit 1 (mask 3)"
    by (simp_all add: mask_eq_exp_minus_1 push_bit_eq_mult)
  have odr: "bs_odr ?s AND 0x1F = bs_odr ?s"
    unfolding m using assms(3) by (intro small_mask) (simp add: word_le_nat_alt)
  have iir: "drop_bit 1 ((push_bit 1 (bs_iir_filter ?s) AND 0x0E) AND 0x0E) = bs_iir_filter ?s"
  proof -
    have "drop_bit 1 ((push_bit 1 (bs_iir_filter ?s) AND 0x0E) AND 0x0E) = bs_iir_filter ?s AND mask 3"
      unfolding m by (rule field_back) simp
    then show ?thesis
      using small_mask [of "bs_iir_filter ?s" 3] assms(7) by simp
  qed
  have regs: "regs x' 0x1C = put_bits 0x3F (push_bit 3 (bs_temp_os ?s) AND 0x38 OR bs_press_os ?s AND 7) (regs x 0x1C)"
      "regs x' 0x1D = put_bits 0x1F (bs_odr ?s AND 0x1F) (regs x 0x1D)"
      "regs x' 0x1F = put_bits 0x0E (push_bit 1 (bs_iir_filter ?s) AND 0x0E) (regs x 0x1F)"
    unfolding w(3) odr_filter_of_def by simp_all
  have press: "regs x' 0x1C AND 7 = bs_press_os ?s"
    unfolding regs by (subst put_bits_and) (simp, rule fields_apart [OF assms(5,6)])
  have temp: "drop_bit 3 (regs x' 0x1C AND 0x38) = bs_temp_os ?s"
    unfolding regs by (subst put_bits_and) (simp, rule fields_apart [OF assms(5,6)])
  have rate: "regs x' 0x1D AND 0x1F = bs_odr ?s"
    unfolding regs by (subst put_bits_and) (simp, simp only: odr)
  have filter: "drop_bit 1 (regs x' 0x1F AND 0x0E) = bs_iir_filter ?s"
    unfolding regs by (subst put_bits_and) (simp, rule iir)
  have "parse_odr_filter_settings [regs x' 0x1C, regs x' 0x1D, regs x' 0x1E, regs x' 0x1F] ?s = ?s"
    unfolding parse_odr_fields press temp rate filter by simp
  moreover have "regs x' 0x1C AND NOT 0x3F = regs x 0x1C AND NOT 0x3F"
    unfolding regs by (rule put_bits_beside, rule fields_beside)
  moreover have "regs x' 0x1D AND NOT 0x1F = regs x 0x1D AND NOT 0x1F" "regs x' 0x1F AND NOT 0x0E = regs x 0x1F AND NOT 0x0E"
    unfolding regs by (rule put_bits_beside, rule masked_beside)+
  ultimately show ?thesis
    using w by (intro exI [of _ d'] exI [of _ x']) (simp add: odr_filter_of_def)
qed

definition bmp_example :: bmp where
  "bmp_example = bmp_new 0x76 (replicate 21 0) (bmp_default_settings\<lparr>bs_odr := 4, bs_temp_os := 5\<rparr>)"

theorem bmp_odr_roundtrip_witness:
  "\<exists>d' x'. run_state (bmp_set_odr_filter (\<lambda>x. x) 0x55 bmp_bus BMP3_ODR_FILTER) (bmp_example, \<lambda>_. 0xC0) = (Some RET_SUCCESS, d', x') \<and>
    x' 0x1C AND NOT 0x3F = 0xC0 AND NOT 0x3F \<and>
    parse_odr_filter_settings [x' 0x1C, x' 0x1D, x' 0x1E, x' 0x1F] (bm_settings bmp_example) = bm_settings bmp_example"
proof -
  have ok: "bmp_ok 0xEC bmp_example"
    by (simp add: bmp_example_def bmp_new_def push_bit_eq_mult)
  have "validate_osr_odr (\<lambda>x. x) (bm_settings bmp_example) = Some True"
    by (subst validate_osr_odr_exact [OF exact_24_id]) (simp_all add: bmp_example_def bmp_new_def bmp_default_settings_def bmp_constants)
  then show ?thesis
    using bmp_odr_roundtrip [OF bmp_bus_chip ok, where fl = "\<lambda>x. x" and junk = "0x55" and x = "\<lambda>_. 0xC0"]
    by (auto simp: bmp_example_def bmp_new_def bmp_default_settings_def bmp_constants)
qed

text \<open>
  The compensated temperature is in the range of the sensor, with any rounding, and its code is always the
  error code; a pressure is in range, too, and its code tells whether it was before.
\<close>
theorem compensation_in_range:
  "compensate_temperature db raw c = (ret, t, c') \<longrightarrow> ret = RET_ERROR \<and> - 40 \<le> t \<and> t \<le> 85 \<and> bc_t_lin c' = t"
  "compensate_pressure fl db raw c = (ret, p) \<longrightarrow> 30000 \<le> p \<and> p \<le> 125000"
  by (auto simp: compensate_temperature_def compensate_pressure_def clamp_def Let_def)

lemma compensation_in_range_witness:
  "fst (compensate_temperature (\<lambda>x. x) 0 (bm_calib bmp_example)) = RET_ERROR"
  by (cases "compensate_temperature (\<lambda>x. x) 0 (bm_calib bmp_example)") (use compensation_in_range(1) in fastforce)

text \<open>The code of a measurement is computed from a variable without a value, whenever the sensor could be read.\<close>
theorem bmp_pressure_undefined:
  assumes "byte_registers bus dev regs" and "bmp_ok dev d"
  shows "fst (run_state (bmp_get_pressure_and_temp fl db bus) (d, x)) = None"
proof -
  obtain d1 x1 where "run_state (bmp_get_register bus BMP3_REG_DATA BMP3_LEN_P_T_DATA) (d, x) = (RET_SUCCESS, d1, x1)"
    by (rule bmp_get_register_ok [OF assms])
  then show ?thesis
    by (auto simp: bmp_get_pressure_and_temp_def compensate_data_def Let_def split: prod.split)
qed

theorem bmp_pressure_undefined_witness:
  "fst (run_state (bmp_get_pressure_and_temp (\<lambda>x. x) (\<lambda>x. x) byte_bus) (bmp_example, \<lambda>_. 0)) = None"
  by (rule bmp_pressure_undefined [OF byte_bus_registers, where dev = "0xEC"]) (simp add: bmp_example_def bmp_new_def push_bit_eq_mult)

text \<open>C19: 
  The test of the rate against the oversampling is the comparison of the two durations of the data sheet, for
  every setting that the registers can hold: 234 us, 392 us and 313 us and 2 ms for each sample, against
  5 ms doubled with each step of the rate.  A rate of 18 or more, which five bits can hold too, is looked
  up behind the table.
\<close>
theorem validate_osr_odr_durations:
  assumes "exact_24 fl" and "unat (bs_press_os s) \<le> 7" and "unat (bs_temp_os s) \<le> 7"
  shows "validate_osr_odr fl s =
    (if unat (bs_odr s) < 18
     then Some (234 + ((if bs_press_en s \<noteq> 0 then 392 + 2000 * 2 ^ unat (bs_press_os s) else 0) +
                       (if bs_temp_en s \<noteq> 0 then 313 + 2000 * 2 ^ unat (bs_temp_os s) else 0))
                < (5000 * 2 ^ unat (bs_odr s) :: nat))
     else None)"
  using assms by (rule validate_osr_odr_exact)

theorem validate_osr_odr_durations_witness:
  "validate_osr_odr (\<lambda>x. x) bmp_default_settings = Some True \<and>
   validate_osr_odr (\<lambda>x. x) (bmp_default_settings\<lparr>bs_odr := 0\<rparr>) = Some False \<and>
   validate_osr_odr (\<lambda>x. x) (bmp_default_settings\<lparr>bs_odr := 31\<rparr>) = None"
  using validate_osr_odr_durations [OF exact_24_id, of bmp_default_settings]
    validate_osr_odr_durations [OF exact_24_id, of "bmp_default_settings\<lparr>bs_odr := 0\<rparr>"]
    validate_osr_odr_durations [OF exact_24_id, of "bmp_default_settings\<lparr>bs_odr := 31\<rparr>"]
  by (simp add: bmp_default_settings_def bmp_constants)

end
