(* ===== verification/ConvModel.thy ===== *)
theory ConvModel
  imports DriverBase
begin

unbundle bit_operations_syntax

text \<open>
  The conversions of src/common/utils/conversion.h between integers and arrays of bytes, the highest byte
  first.  Signed numbers are words, shifted arithmetically; \<open>db\<close> rounds to a double.
\<close>

section \<open>Integers to bytes\<close>

definition uint16_to_uint8 :: "u16 \<Rightarrow> u8 list" where
  "uint16_to_uint8 x = [ucast (drop_bit 8 x AND 0xFF), ucast (x AND 0xFF)]"

definition uint32_to_uint8 :: "u32 \<Rightarrow> u8 list" where
  "uint32_to_uint8 x =
     [ucast (drop_bit 24 x AND 0xFF), ucast (drop_bit 16 x AND 0xFF), ucast (drop_bit 8 x AND 0xFF), ucast (x AND 0xFF)]"

definition uint64_to_uint8 :: "64 word \<Rightarrow> u8 list" where
  "uint64_to_uint8 x =
     [ucast (drop_bit 56 x AND 0xFF), ucast (drop_bit 48 x AND 0xFF), ucast (drop_bit 40 x AND 0xFF), ucast (drop_bit 32 x AND 0xFF),
      ucast (drop_bit 24 x AND 0xFF), ucast (drop_bit 16 x AND 0xFF), ucast (drop_bit 8 x AND 0xFF), ucast (x AND 0xFF)]"

definition int16_to_uint8 :: "16 word \<Rightarrow> u8 list" where
  "int16_to_uint8 x = [ucast (signed_drop_bit 8 x AND 0xFF), ucast (x AND 0xFF)]"

definition int32_to_uint8 :: "32 word \<Rightarrow> u8 list" where
  "int32_to_uint8 x =
     [ucast (signed_drop_bit 24 x AND 0xFF), ucast (signed_drop_bit 16 x AND 0xFF), ucast (signed_drop_bit 8 x AND 0xFF),
      ucast (x AND 0xFF)]"

definition int64_to_uint8 :: "64 word \<Rightarrow> u8 list" where
  "int64_to_uint8 x =
     [ucast (signed_drop_bit 56 x AND 0xFF), ucast (signed_drop_bit 48 x AND 0xFF), ucast (signed_drop_bit 40 x AND 0xFF),
      ucast (signed_drop_bit 32 x AND 0xFF), ucast (signed_drop_bit 24 x AND 0xFF), ucast (signed_drop_bit 16 x AND 0xFF),
      ucast (signed_drop_bit 8 x AND 0xFF), ucast (x AND 0xFF)]"

section \<open>Bytes to integers\<close>

text \<open>The expressions for 16 bits are of type \<open>int\<close>, also the one of the signed number.\<close>

definition uint8_to_uint16 :: "u8 list \<Rightarrow> 32 word" where
  "uint8_to_uint16 b = push_bit 8 (ucast (b ! 0)) OR ucast (b ! 1)"

definition uint8_to_uint32 :: "u8 list \<Rightarrow> u32" where
  "uint8_to_uint32 b =
     push_bit 24 (ucast (b ! 0)) OR push_bit 16 (ucast (b ! 1)) OR push_bit 8 (ucast (b ! 2)) OR ucast (b ! 3)"

definition uint8_to_uint64 :: "u8 list \<Rightarrow> 64 word" where
  "uint8_to_uint64 b =
     push_bit 56 (ucast (b ! 0)) OR push_bit 48 (ucast (b ! 1)) OR push_bit 40 (ucast (b ! 2)) OR push_bit 32 (ucast (b ! 3)) OR
     push_bit 24 (ucast (b ! 4)) OR push_bit 16 (ucast (b ! 5)) OR push_bit 8 (ucast (b ! 6)) OR ucast (b ! 7)"

definition uint8_to_int16 :: "u8 list \<Rightarrow> 32 word" where
  "uint8_to_int16 b = push_bit 8 (ucast (b ! 0)) OR ucast (b ! 1)"

text \<open>A first byte from 128 on is shifted into the sign; the bits are those of the negative number.\<close>

definition uint8_to_int32 :: "u8 list \<Rightarrow> 32 word" where
  "uint8_to_int32 b =
     push_bit 24 (ucast (b ! 0)) OR push_bit 16 (ucast (b ! 1)) OR push_bit 8 (ucast (b ! 2)) OR ucast (b ! 3)"

definition uint8_to_int64 :: "u8 list \<Rightarrow> 64 word" where
  "uint8_to_int64 b =
     push_bit 56 (ucast (b ! 0)) OR push_bit 48 (ucast (b ! 1)) OR push_bit 40 (ucast (b ! 2)) OR push_bit 32 (ucast (b ! 3)) OR
     push_bit 24 (ucast (b ! 4)) OR push_bit 16 (ucast (b ! 5)) OR push_bit 8 (ucast (b ! 6)) OR ucast (b ! 7)"

definition fahrenheit_to_celsius :: "(rat \<Rightarrow> rat) \<Rightarrow> rat \<Rightarrow> rat" where
  "fahrenheit_to_celsius db x = db (db (x - 32) / db (9 / 5))"

section \<open>Round trips\<close>

text \<open>The mask of the code keeps what the conversion to a byte keeps.\<close>

lemma low_byte: "(ucast (x AND 0xFF) :: u8) = ucast x" for x :: "'a :: len word"
proof -
  have "(0xFF :: 'a word) = mask 8" by (simp add: mask_eq_exp_minus_1)
  then have "x AND 0xFF = take_bit 8 x" by (simp add: take_bit_eq_mask)
  then show ?thesis by (simp, intro bit_word_eqI) (auto simp: bit_simps)
qed

lemma signed_low_byte: "(ucast (signed_drop_bit n x) :: u8) = ucast (drop_bit n x)" if "n + 8 \<le> LENGTH('a)" for x :: "'a :: len word"
  using that by (intro bit_word_eqI) (auto simp: bit_simps min_def)

text \<open>Shifting a signed number arithmetically gives the same bytes.\<close>

lemma signed_bytes:
  "int16_to_uint8 x16 = uint16_to_uint8 x16" "int32_to_uint8 x32 = uint32_to_uint8 x32" "int64_to_uint8 x64 = uint64_to_uint8 x64"
  by (simp_all add: int16_to_uint8_def uint16_to_uint8_def int32_to_uint8_def uint32_to_uint8_def int64_to_uint8_def
    uint64_to_uint8_def low_byte signed_low_byte)

text \<open>What a byte contributes to the number that is put together.\<close>

lemma bit_byte_at:
  "bit (push_bit k (ucast (ucast (drop_bit k x) :: u8)) :: 'b :: len word) n
     \<longleftrightarrow> n < LENGTH('b) \<and> k \<le> n \<and> n < k + 8 \<and> bit x n" for x :: "'a :: len word"
  by (auto simp: bit_simps dest: bit_imp_le_length)

lemma bit_byte_at_0: "bit (ucast (ucast x :: u8) :: 'b :: len word) n \<longleftrightarrow> n < LENGTH('b) \<and> n < 8 \<and> bit x n" for x :: "'a :: len word"
  by (auto simp: bit_simps dest: bit_imp_le_length)

lemma roundtrip16: "uint8_to_uint16 (uint16_to_uint8 x) = ucast x"
proof (rule bit_word_eqI)
  fix n
  have "n < 16" if "bit x n" using bit_imp_le_length [OF that] by simp
  then show "bit (uint8_to_uint16 (uint16_to_uint8 x)) n = bit (ucast x :: 32 word) n" if "n < LENGTH(32)"
    unfolding uint8_to_uint16_def uint16_to_uint8_def
    by (simp add: low_byte bit_or_iff bit_byte_at bit_byte_at_0 bit_ucast_iff) linarith
qed

lemma roundtrip32: "uint8_to_uint32 (uint32_to_uint8 x) = x"
  unfolding uint8_to_uint32_def uint32_to_uint8_def
  by (rule bit_word_eqI) (simp add: low_byte bit_or_iff bit_byte_at bit_byte_at_0, linarith)

lemma roundtrip64: "uint8_to_uint64 (uint64_to_uint8 x) = x"
  unfolding uint8_to_uint64_def uint64_to_uint8_def
  by (rule bit_word_eqI) (simp add: low_byte bit_or_iff bit_byte_at bit_byte_at_0, linarith)

lemma signed_reads: "uint8_to_int16 = uint8_to_uint16" "uint8_to_int32 = uint8_to_uint32" "uint8_to_int64 = uint8_to_uint64"
  by (simp_all add: fun_eq_iff uint8_to_int16_def uint8_to_uint16_def uint8_to_int32_def uint8_to_uint32_def
    uint8_to_int64_def uint8_to_uint64_def)

text \<open>
  Every number that is written to an array and read back is the same number, unsigned or signed, and the
  bytes of a signed number are those of the unsigned one with its bits.  For 16 bits the expression gives
  it in 32 bits, so that a negative number comes back as \<open>2 ^ 16\<close> more than it is.
\<close>
theorem conversion_roundtrip:
  "uint8_to_uint16 (uint16_to_uint8 x) = ucast x" "uint8_to_uint32 (uint32_to_uint8 x32) = x32"
  "uint8_to_uint64 (uint64_to_uint8 x64) = x64" "sint (uint8_to_int16 (int16_to_uint8 x)) = uint x"
  "uint8_to_int32 (int32_to_uint8 x32) = x32" "uint8_to_int64 (int64_to_uint8 x64) = x64"
proof -
  have "sint (ucast x :: 32 word) = uint x" for x :: "16 word"
    using uint_bounded [of x] by (simp add: sint_uint unsigned_ucast_eq take_bit_int_eq_self)
      (rule signed_take_bit_int_eq_self; simp add: order.trans [of _ 0])
  then show "uint8_to_uint16 (uint16_to_uint8 x) = ucast x" "uint8_to_uint32 (uint32_to_uint8 x32) = x32"
    "uint8_to_uint64 (uint64_to_uint8 x64) = x64" "sint (uint8_to_int16 (int16_to_uint8 x)) = uint x"
    "uint8_to_int32 (int32_to_uint8 x32) = x32" "uint8_to_int64 (int64_to_uint8 x64) = x64"
    by (simp_all add: signed_reads signed_bytes roundtrip16 roundtrip32 roundtrip64)
qed

end
