(* ===== verification/HalModel.thy ===== *)
theory HalModel
  imports SyncModel HashMapModel
begin

text \<open>
  The I2C and SPI controllers on STM32 (src/device/platforms/stm32: HAL_I2CDevice.h, HAL_SPIDevice.h) and the
  registration of devices for interrupts (HAL_I2C_Handlers.cpp, HAL_SPI_Handlers.cpp, HAL_UART_Handlers.cpp).
  A transfer is started by a function of the vendor's HAL and finished by an interrupt: the HAL is the
  parameter \<open>hal\<close>, which answers a call with true for \<open>HAL_OK\<close>, buffers are pointers that are only handed on.
  Interrupts only set a flag, \<open>poll\<close> acts on it; so the handler is an operation of its own, and where it comes
  between two statements of a function makes no difference.  Functions are modelled activation by activation,
  with their static labels; \<open>release\<close> of a blocking semaphore never waits (\<open>bsem_release_code\<close>), so nothing
  continues at the labels of its calls.
\<close>

section \<open>Devices and HAL calls\<close>

type_synonym buf = nat

datatype hal_call =
    HalMasterTransmit u16 buf size_t | HalMemWrite u16 u16 u16 buf size_t
  | HalMasterReceive u16 buf size_t | HalMemRead u16 u16 u16 buf size_t
  | HalSpiTransmit buf size_t | HalSpiReceive buf size_t | HalSpiTransmitReceive buf buf size_t
  | HalUartTransmit buf size_t | HalUartReceive

type_synonym 'h hal = "hal_call \<Rightarrow> 'h \<Rightarrow> bool \<times> 'h"

record i2c_addr =
  dev_addr :: u16
  mem_addr :: u16
  mem_addr_size :: u16

text \<open>The places at which a function continues, and the functions with labels of their own.\<close>

datatype hal_place = HpStart | HpAcquire | HpBlock | HpSleep | HpBlock2 | HpSleep2

datatype hal_fn = FnTransmit | FnWrite | FnReceive | FnRead | FnTransmitReceive | FnWriteRead

record hal_dev =
  hd_blocked :: int
  hd_lock :: bsem
  hd_isr_flag :: u8
  hd_lock_labels :: "bsem_place labels"
  hd_labels :: "hal_fn \<Rightarrow> hal_place labels"

definition hal_new :: "int aqueue \<Rightarrow> bsem_place labels \<Rightarrow> (hal_fn \<Rightarrow> hal_place labels) \<Rightarrow> hal_dev" where
  "hal_new q lock_labels labels =
     \<lparr>hd_blocked = - 1, hd_lock = bsem_init q 1, hd_isr_flag = 0, hd_lock_labels = lock_labels, hd_labels = labels\<rparr>"

definition hal_label :: "hal_fn \<Rightarrow> int \<Rightarrow> hal_place \<Rightarrow> hal_dev \<Rightarrow> hal_dev" where
  "hal_label fn tid p d = d\<lparr>hd_labels := (hd_labels d)(fn := set_label tid p (hd_labels d fn))\<rparr>"

definition hal_resume :: "hal_fn \<Rightarrow> int \<Rightarrow> hal_dev \<Rightarrow> hal_place \<times> hal_dev" where
  "hal_resume fn tid d =
     (case mac_resume HpStart tid (hd_labels d fn) of (p, l) \<Rightarrow> (p, d\<lparr>hd_labels := (hd_labels d)(fn := l)\<rparr>))"

section \<open>Interrupts\<close>

definition hal_callback :: "int \<Rightarrow> hal_dev \<Rightarrow> hal_dev" where
  "hal_callback num d = d\<lparr>hd_isr_flag := 1\<rparr>"

definition hal_poll :: "hal_dev \<Rightarrow> ('f, 'b, 'w) sched \<Rightarrow> (ret_type \<times> hal_dev \<times> ('f, 'b, 'w) sched) option" where
  "hal_poll d s =
     (if hd_isr_flag d \<noteq> 0 then
        (let d1 = d\<lparr>hd_isr_flag := 0\<rparr>
         in if hd_blocked d1 \<noteq> - 1
            then map_option (\<lambda>s'. (RET_SUCCESS, d1\<lparr>hd_blocked := - 1\<rparr>, s')) (mac_wake (hd_blocked d1) s)
            else Some (RET_SUCCESS, d1, s))
      else Some (RET_SUCCESS, d, s))"

section \<open>Parts of a transfer\<close>

type_synonym ('f, 'b, 'w, 'h) hal_step =
  "hal_dev \<Rightarrow> ('f, 'b, 'w) sched \<Rightarrow> 'h \<Rightarrow> (ret_type \<times> hal_dev \<times> ('f, 'b, 'w) sched \<times> 'h) option"

definition hal_release :: "hal_dev \<Rightarrow> ('f, 'b, 'w) sched \<Rightarrow> (ret_type \<times> hal_dev \<times> ('f, 'b, 'w) sched) option" where
  "hal_release d s = map_option (\<lambda>(ret, b, s'). (ret, d\<lparr>hd_lock := b\<rparr>, s')) (bsem_release (hd_lock d) s)"

text \<open>The lock is acquired; \<open>fail\<close> is what follows on an error, \<open>k\<close> what follows on success.\<close>

definition hal_locked ::
  "hal_fn \<Rightarrow> (ret_type \<Rightarrow> ('f, 'b, 'w, 'h) hal_step) \<Rightarrow> ('f, 'b, 'w, 'h) hal_step \<Rightarrow> ('f, 'b, 'w, 'h) hal_step" where
  "hal_locked fn fail k d s h =
     (let d1 = hal_label fn (sched_dispatched s) HpAcquire d
      in case bsem_acquire (hd_lock d1) s (hd_lock_labels d1) of
           None \<Rightarrow> None
         | Some (ret, b, s1, l) \<Rightarrow>
             (let d2 = d1\<lparr>hd_lock := b, hd_lock_labels := l\<rparr>
              in if call_waits ret then Some (ret, d2, s1, h) else if ret \<noteq> RET_SUCCESS then fail ret d2 s1 h else k d2 s1 h))"

definition hal_return :: "hal_fn \<Rightarrow> ret_type \<Rightarrow> ('f, 'b, 'w, 'h) hal_step" where
  "hal_return fn ret d s h = Some (ret, hal_label fn (sched_dispatched s) HpStart d, s, h)"

text \<open>An error after which nobody waits for the device any more: the result of \<open>release\<close> is not looked at.\<close>

definition hal_give_up :: "hal_fn \<Rightarrow> ret_type \<Rightarrow> ('f, 'b, 'w, 'h) hal_step" where
  "hal_give_up fn code d s h =
     (case hal_release (d\<lparr>hd_blocked := - 1\<rparr>) s of None \<Rightarrow> None | Some (_, d1, s1) \<Rightarrow> hal_return fn code d1 s1 h)"

definition hal_wait :: "hal_fn \<Rightarrow> hal_place \<Rightarrow> hal_place \<Rightarrow> u32 \<Rightarrow> ('f, 'b, 'w, 'h) hal_step" where
  "hal_wait fn block_place sleep_place timeout d s h =
     map_option (\<lambda>(ret, s', l). (ret, d\<lparr>hd_labels := (hd_labels d)(fn := l)\<rparr>, s', h))
       (if timeout = 0 then mac_block block_place s (hd_labels d fn) else mac_sleep sleep_place timeout s (hd_labels d fn))"

definition hal_start ::
  "'h hal \<Rightarrow> hal_fn \<Rightarrow> hal_call \<Rightarrow> hal_place \<Rightarrow> hal_place \<Rightarrow> u32 \<Rightarrow> ('f, 'b, 'w, 'h) hal_step" where
  "hal_start hal fn call block_place sleep_place timeout d s h =
     (case hal call h of
        (ok, h1) \<Rightarrow>
          if ok then hal_wait fn block_place sleep_place timeout d s h1 else hal_give_up fn RET_ERROR d s h1)"

text \<open>The task becomes the one that waits, then the transfer is started.\<close>

definition hal_first ::
  "'h hal \<Rightarrow> hal_fn \<Rightarrow> hal_call \<Rightarrow> u32 \<Rightarrow> ('f, 'b, 'w, 'h) hal_step" where
  "hal_first hal fn call timeout d s h =
     hal_start hal fn call HpBlock HpSleep timeout (d\<lparr>hd_blocked := sched_dispatched s\<rparr>) s h"

definition hal_finish :: "hal_fn \<Rightarrow> bool \<Rightarrow> ('f, 'b, 'w, 'h) hal_step" where
  "hal_finish fn timed_out d s h =
     (case hal_release d s of
        None \<Rightarrow> None
      | Some (ret, d1, s1) \<Rightarrow>
          if ret \<noteq> RET_SUCCESS then hal_return fn ret d1 s1 h
          else hal_return fn (if timed_out then RET_ERROR else RET_SUCCESS) d1 s1 h)"

section \<open>I2C\<close>

text \<open>The four transfers of one part; nobody is blocked when \<open>poll\<close> saw the interrupt.\<close>

definition i2c_transfer :: "'h hal \<Rightarrow> hal_fn \<Rightarrow> hal_call \<Rightarrow> u32 \<Rightarrow> ('f, 'b, 'w, 'h) hal_step" where
  "i2c_transfer hal fn call timeout d s h =
     (case hal_resume fn (sched_dispatched s) d of
        (place, d1) \<Rightarrow>
          if place = HpBlock then hal_finish fn False d1 s h
          else if place = HpSleep then hal_finish fn (hd_blocked d1 \<noteq> - 1) d1 s h
          else hal_locked fn (hal_return fn) (hal_first hal fn call timeout) d1 s h)"

definition i2c_transmit :: "'h hal \<Rightarrow> i2c_addr \<Rightarrow> buf \<Rightarrow> size_t \<Rightarrow> u32 \<Rightarrow> ('f, 'b, 'w, 'h) hal_step" where
  "i2c_transmit hal addr buff len timeout =
     i2c_transfer hal FnTransmit (HalMasterTransmit (dev_addr addr) buff len) timeout"

definition i2c_write :: "'h hal \<Rightarrow> i2c_addr \<Rightarrow> buf \<Rightarrow> size_t \<Rightarrow> u32 \<Rightarrow> ('f, 'b, 'w, 'h) hal_step" where
  "i2c_write hal addr buff len timeout =
     i2c_transfer hal FnWrite (HalMemWrite (dev_addr addr) (mem_addr addr) (mem_addr_size addr) buff len) timeout"

definition i2c_receive :: "'h hal \<Rightarrow> i2c_addr \<Rightarrow> buf \<Rightarrow> size_t \<Rightarrow> u32 \<Rightarrow> ('f, 'b, 'w, 'h) hal_step" where
  "i2c_receive hal addr buff len timeout =
     i2c_transfer hal FnReceive (HalMasterReceive (dev_addr addr) buff len) timeout"

definition i2c_read :: "'h hal \<Rightarrow> i2c_addr \<Rightarrow> buf \<Rightarrow> size_t \<Rightarrow> u32 \<Rightarrow> ('f, 'b, 'w, 'h) hal_step" where
  "i2c_read hal addr buff len timeout =
     i2c_transfer hal FnRead (HalMemRead (dev_addr addr) (mem_addr addr) (mem_addr_size addr) buff len) timeout"

text \<open>
  The transfer in two parts.  The address is the caller's and is changed; the task is not marked as waiting
  again for the second part, and the outcome of the first wait is not looked at.
\<close>

definition i2c_second_addr :: "u8 \<Rightarrow> i2c_addr \<Rightarrow> i2c_addr" where
  "i2c_second_addr second addr = (if second \<noteq> 0 then addr\<lparr>dev_addr := ucast second\<rparr> else addr)"

definition i2c_transmit_receive ::
  "'h hal \<Rightarrow> i2c_addr \<Rightarrow> buf \<Rightarrow> size_t \<Rightarrow> size_t \<Rightarrow> u32 \<Rightarrow> u8 \<Rightarrow> hal_dev \<Rightarrow> ('f, 'b, 'w) sched \<Rightarrow> 'h \<Rightarrow>
   (i2c_addr \<times> ret_type \<times> hal_dev \<times> ('f, 'b, 'w) sched \<times> 'h) option" where
  "i2c_transmit_receive hal addr buff in_len out_len timeout second d s h =
     (case hal_resume FnTransmitReceive (sched_dispatched s) d of
        (place, d1) \<Rightarrow>
          if place = HpBlock2 then map_option (Pair addr) (hal_finish FnTransmitReceive False d1 s h)
          else if place = HpSleep2 then map_option (Pair addr) (hal_finish FnTransmitReceive (hd_blocked d1 \<noteq> - 1) d1 s h)
          else if place = HpBlock \<or> place = HpSleep then
            (let addr1 = i2c_second_addr second addr
             in map_option (Pair addr1)
                  (hal_start hal FnTransmitReceive (HalMasterReceive (dev_addr addr1) buff out_len) HpBlock2 HpSleep2 timeout d1 s h))
          else
            map_option (Pair addr)
              (hal_locked FnTransmitReceive (hal_return FnTransmitReceive)
                (hal_first hal FnTransmitReceive (HalMasterTransmit (dev_addr addr) buff in_len) timeout) d1 s h))"

section \<open>SPI\<close>

text \<open>As for I2C, but the device has no waiting task any more once its function continues.\<close>

definition spi_transfer ::
  "'h hal \<Rightarrow> hal_fn \<Rightarrow> (ret_type \<Rightarrow> ('f, 'b, 'w, 'h) hal_step) \<Rightarrow> hal_call \<Rightarrow> u32 \<Rightarrow> ('f, 'b, 'w, 'h) hal_step" where
  "spi_transfer hal fn fail call timeout d s h =
     (case hal_resume fn (sched_dispatched s) d of
        (place, d1) \<Rightarrow>
          if place = HpBlock then hal_finish fn False (d1\<lparr>hd_blocked := - 1\<rparr>) s h
          else if place = HpSleep then hal_finish fn (hd_blocked d1 \<noteq> - 1) (d1\<lparr>hd_blocked := - 1\<rparr>) s h
          else hal_locked fn fail (hal_first hal fn call timeout) d1 s h)"

definition spi_write :: "'h hal \<Rightarrow> buf \<Rightarrow> size_t \<Rightarrow> u32 \<Rightarrow> ('f, 'b, 'w, 'h) hal_step" where
  "spi_write hal buff len timeout = spi_transfer hal FnWrite (hal_return FnWrite) (HalSpiTransmit buff len) timeout"

definition spi_read :: "'h hal \<Rightarrow> buf \<Rightarrow> size_t \<Rightarrow> u32 \<Rightarrow> ('f, 'b, 'w, 'h) hal_step" where
  "spi_read hal buff len timeout = spi_transfer hal FnRead (hal_return FnRead) (HalSpiReceive buff len) timeout"

definition spi_write_read :: "'h hal \<Rightarrow> buf \<Rightarrow> buf \<Rightarrow> size_t \<Rightarrow> u32 \<Rightarrow> ('f, 'b, 'w, 'h) hal_step" where
  "spi_write_read hal write_buff read_buff len timeout =
     spi_transfer hal FnWriteRead (hal_give_up FnWriteRead) (HalSpiTransmitReceive write_buff read_buff len) timeout"

definition hal_obtain :: ret_type where "hal_obtain = RET_SUCCESS"
definition hal_release_dev :: ret_type where "hal_release_dev = RET_SUCCESS"

section \<open>Registration for interrupts\<close>

text \<open>A registered device, as a pointer, with the number it gets back; handles of the HAL are keys.\<close>

record hal_entry =
  he_dev :: nat
  he_num :: int

type_synonym 'k hal_map = "('k, hal_entry) hashmap"

definition MAX_UART_DEVICES :: size_t where "MAX_UART_DEVICES = 5"
definition MAX_I2C_DEVICES :: size_t where "MAX_I2C_DEVICES = 3"
definition MAX_SPI_DEVICES :: size_t where "MAX_SPI_DEVICES = 3"

record 'k handlers =
  hh_i2c_tx :: "'k hal_map"
  hh_i2c_rx :: "'k hal_map"
  hh_spi_tx :: "'k hal_map"
  hh_spi_rx :: "'k hal_map"
  hh_uart_tx :: "'k hal_map"
  hh_uart_rx :: "'k hal_map"

text \<open>The body that the functions share.\<close>

definition hal_register :: "('k \<Rightarrow> size_t) \<Rightarrow> 'k \<Rightarrow> nat \<Rightarrow> int \<Rightarrow> 'k hal_map \<Rightarrow> ret_type \<times> 'k hal_map" where
  "hal_register hash handle dev num m =
     (let (failed, m1) =
        (if hm_get hash handle m \<noteq> None then (case hm_remove hash handle m of (b, m') \<Rightarrow> (\<not> b, m')) else (False, m))
      in if failed then (RET_ERROR, m1)
         else (case hm_add hash handle m1 of
                 (None, m2) \<Rightarrow> (RET_ERROR, m2)
               | (Some p, m2) \<Rightarrow> (RET_SUCCESS, hm_put p \<lparr>he_dev = dev, he_num = num\<rparr> m2)))"

definition register_i2c_tx :: "('k \<Rightarrow> size_t) \<Rightarrow> 'k \<Rightarrow> nat \<Rightarrow> int \<Rightarrow> 'k handlers \<Rightarrow> ret_type \<times> 'k handlers" where
  "register_i2c_tx hash hi2c dev num g = (case hal_register hash hi2c dev num (hh_i2c_tx g) of (r, m) \<Rightarrow> (r, g\<lparr>hh_i2c_tx := m\<rparr>))"

definition register_i2c_rx :: "('k \<Rightarrow> size_t) \<Rightarrow> 'k \<Rightarrow> nat \<Rightarrow> int \<Rightarrow> 'k handlers \<Rightarrow> ret_type \<times> 'k handlers" where
  "register_i2c_rx hash hi2c dev num g = (case hal_register hash hi2c dev num (hh_i2c_rx g) of (r, m) \<Rightarrow> (r, g\<lparr>hh_i2c_rx := m\<rparr>))"

definition register_spi_tx :: "('k \<Rightarrow> size_t) \<Rightarrow> 'k \<Rightarrow> nat \<Rightarrow> int \<Rightarrow> 'k handlers \<Rightarrow> ret_type \<times> 'k handlers" where
  "register_spi_tx hash hspi dev num g = (case hal_register hash hspi dev num (hh_spi_tx g) of (r, m) \<Rightarrow> (r, g\<lparr>hh_spi_tx := m\<rparr>))"

definition register_spi_rx :: "('k \<Rightarrow> size_t) \<Rightarrow> 'k \<Rightarrow> nat \<Rightarrow> int \<Rightarrow> 'k handlers \<Rightarrow> ret_type \<times> 'k handlers" where
  "register_spi_rx hash hspi dev num g = (case hal_register hash hspi dev num (hh_spi_rx g) of (r, m) \<Rightarrow> (r, g\<lparr>hh_spi_rx := m\<rparr>))"

definition register_uart_tx :: "('k \<Rightarrow> size_t) \<Rightarrow> 'k \<Rightarrow> nat \<Rightarrow> int \<Rightarrow> 'k handlers \<Rightarrow> ret_type \<times> 'k handlers" where
  "register_uart_tx hash huart dev num g = (case hal_register hash huart dev num (hh_uart_tx g) of (r, m) \<Rightarrow> (r, g\<lparr>hh_uart_tx := m\<rparr>))"

definition register_uart_rx :: "('k \<Rightarrow> size_t) \<Rightarrow> 'k \<Rightarrow> nat \<Rightarrow> int \<Rightarrow> 'k handlers \<Rightarrow> ret_type \<times> 'k handlers" where
  "register_uart_rx hash huart dev num g = (case hal_register hash huart dev num (hh_uart_rx g) of (r, m) \<Rightarrow> (r, g\<lparr>hh_uart_rx := m\<rparr>))"

text \<open>The functions that the HAL calls: whom they call back, and with which number.\<close>

definition hal_deliver :: "('k \<Rightarrow> size_t) \<Rightarrow> 'k \<Rightarrow> 'k hal_map \<Rightarrow> (nat \<times> int) list" where
  "hal_deliver hash handle m =
     (case hm_get hash handle m of None \<Rightarrow> [] | Some p \<Rightarrow> [(he_dev (hm_val m p), he_num (hm_val m p))])"

definition HAL_I2C_MasterTxCpltCallback :: "('k \<Rightarrow> size_t) \<Rightarrow> 'k \<Rightarrow> 'k handlers \<Rightarrow> (nat \<times> int) list" where
  "HAL_I2C_MasterTxCpltCallback hash hi2c g = hal_deliver hash hi2c (hh_i2c_tx g)"

definition HAL_I2C_MemTxCpltCallback :: "('k \<Rightarrow> size_t) \<Rightarrow> 'k \<Rightarrow> 'k handlers \<Rightarrow> (nat \<times> int) list" where
  "HAL_I2C_MemTxCpltCallback hash hi2c g = hal_deliver hash hi2c (hh_i2c_tx g)"

text \<open>The table for transmissions stands in the handler of receptions, too.\<close>

definition HAL_I2C_MasterRxCpltCallback :: "('k \<Rightarrow> size_t) \<Rightarrow> 'k \<Rightarrow> 'k handlers \<Rightarrow> (nat \<times> int) list" where
  "HAL_I2C_MasterRxCpltCallback hash hi2c g = hal_deliver hash hi2c (hh_i2c_tx g)"

definition HAL_I2C_MemRxCpltCallback :: "('k \<Rightarrow> size_t) \<Rightarrow> 'k \<Rightarrow> 'k handlers \<Rightarrow> (nat \<times> int) list" where
  "HAL_I2C_MemRxCpltCallback hash hi2c g = hal_deliver hash hi2c (hh_i2c_rx g)"

definition HAL_SPI_TxCpltCallback :: "('k \<Rightarrow> size_t) \<Rightarrow> 'k \<Rightarrow> 'k handlers \<Rightarrow> (nat \<times> int) list" where
  "HAL_SPI_TxCpltCallback hash hspi g = hal_deliver hash hspi (hh_spi_tx g)"

definition HAL_SPI_RxCpltCallback :: "('k \<Rightarrow> size_t) \<Rightarrow> 'k \<Rightarrow> 'k handlers \<Rightarrow> (nat \<times> int) list" where
  "HAL_SPI_RxCpltCallback hash hspi g = hal_deliver hash hspi (hh_spi_rx g)"

definition HAL_SPI_TxRxCpltCallback :: "('k \<Rightarrow> size_t) \<Rightarrow> 'k \<Rightarrow> 'k handlers \<Rightarrow> (nat \<times> int) list" where
  "HAL_SPI_TxRxCpltCallback hash hspi g = hal_deliver hash hspi (hh_spi_tx g) @ hal_deliver hash hspi (hh_spi_rx g)"

definition HAL_UART_TxCpltCallback :: "('k \<Rightarrow> size_t) \<Rightarrow> 'k \<Rightarrow> 'k handlers \<Rightarrow> (nat \<times> int) list" where
  "HAL_UART_TxCpltCallback hash huart g = hal_deliver hash huart (hh_uart_tx g)"

definition HAL_UART_RxCpltCallback :: "('k \<Rightarrow> size_t) \<Rightarrow> 'k \<Rightarrow> 'k handlers \<Rightarrow> (nat \<times> int) list" where
  "HAL_UART_RxCpltCallback hash huart g = hal_deliver hash huart (hh_uart_rx g)"

definition TX_NUM :: int where "TX_NUM = 0"
definition RX_NUM :: int where "RX_NUM = 1"

definition i2c_init :: "('k \<Rightarrow> size_t) \<Rightarrow> 'k \<Rightarrow> nat \<Rightarrow> 'k handlers \<Rightarrow> ret_type \<times> 'k handlers" where
  "i2c_init hash hi2c this g =
     (let (ret, g1) = register_i2c_tx hash hi2c this TX_NUM g
      in if ret \<noteq> RET_SUCCESS then (ret, g1)
         else (let (ret, g2) = register_i2c_rx hash hi2c this RX_NUM g1
               in if ret \<noteq> RET_SUCCESS then (ret, g2) else (RET_SUCCESS, g2)))"

definition spi_init :: "('k \<Rightarrow> size_t) \<Rightarrow> 'k \<Rightarrow> nat \<Rightarrow> 'k handlers \<Rightarrow> ret_type \<times> 'k handlers" where
  "spi_init hash hspi this g =
     (let (ret, g1) = register_spi_tx hash hspi this TX_NUM g
      in if ret \<noteq> RET_SUCCESS then (ret, g1)
         else (let (ret, g2) = register_spi_rx hash hspi this RX_NUM g1
               in if ret \<noteq> RET_SUCCESS then (ret, g2) else (RET_SUCCESS, g2)))"

section \<open>Registered devices\<close>

text \<open>Registering replaces what was registered for the handle, and leaves the other handles alone.\<close>

lemma hal_deliver_lookup:
  "hal_deliver hash k m = (case hm_lookup hash k m of None \<Rightarrow> [] | Some e \<Rightarrow> [(he_dev e, he_num e)])"
  by (auto simp: hal_deliver_def hm_lookup_def split: option.split)

lemma hal_register_law:
  assumes inv: "hm_inv hash m" and r: "hal_register hash k dev num m = (RET_SUCCESS, m')"
  shows "hm_inv hash m'" and "hal_deliver hash k m' = [(dev, num)]" and "j \<noteq> k \<Longrightarrow> hal_deliver hash j m' = hal_deliver hash j m"
proof -
  obtain b m1 where m1: "hm_remove hash k m = (b, m1)"
    by fastforce
  let ?m = "if hm_get hash k m \<noteq> None then m1 else m"
  have fresh: "hm_inv hash ?m" "hm_lookup hash k ?m = None" "\<And>j. j \<noteq> k \<Longrightarrow> hm_lookup hash j ?m = hm_lookup hash j m"
    using hm.delete_law [OF inv m1] inv by (auto simp: hm_lookup_def)
  have "hm_insert hash k \<lparr>he_dev = dev, he_num = num\<rparr> ?m = Some m'"
    using r m1 by (auto simp: hal_register_def hm_insert_def split: if_splits prod.splits option.splits)
  from hm.insert_law [OF fresh(1,2) this] fresh(3) show "hm_inv hash m'" "hal_deliver hash k m' = [(dev, num)]"
      "j \<noteq> k \<Longrightarrow> hal_deliver hash j m' = hal_deliver hash j m"
    by (simp_all add: hal_deliver_lookup)
qed

text \<open>
  After \<open>init\<close> of an I2C and an SPI device on handles of their own, every interrupt is delivered to the device
  of its handle, and handles that were not registered deliver nothing new.
\<close>
theorem hal_interrupts_delivered:
  assumes "hm_inv hash (hh_i2c_tx g)" "hm_inv hash (hh_i2c_rx g)" "hm_inv hash (hh_spi_tx g)" "hm_inv hash (hh_spi_rx g)"
    and "i2c_init hash hi2c dev g = (RET_SUCCESS, g1)" and "spi_init hash hspi dev' g1 = (RET_SUCCESS, g2)"
  shows "map fst (HAL_I2C_MasterTxCpltCallback hash hi2c g2) = [dev]" "map fst (HAL_I2C_MemTxCpltCallback hash hi2c g2) = [dev]"
    and "map fst (HAL_I2C_MasterRxCpltCallback hash hi2c g2) = [dev]" "HAL_I2C_MemRxCpltCallback hash hi2c g2 = [(dev, RX_NUM)]"
    and "HAL_SPI_TxCpltCallback hash hspi g2 = [(dev', TX_NUM)]" "HAL_SPI_RxCpltCallback hash hspi g2 = [(dev', RX_NUM)]"
    and "HAL_SPI_TxRxCpltCallback hash hspi g2 = [(dev', TX_NUM), (dev', RX_NUM)]"
    and "k \<noteq> hi2c \<Longrightarrow> HAL_I2C_MemRxCpltCallback hash k g2 = HAL_I2C_MemRxCpltCallback hash k g"
    and "k \<noteq> hspi \<Longrightarrow> HAL_SPI_TxRxCpltCallback hash k g2 = HAL_SPI_TxRxCpltCallback hash k g"
proof -
  obtain tx rx where i: "hal_register hash hi2c dev TX_NUM (hh_i2c_tx g) = (RET_SUCCESS, tx)"
      "hal_register hash hi2c dev RX_NUM (hh_i2c_rx g) = (RET_SUCCESS, rx)" "g1 = g\<lparr>hh_i2c_tx := tx, hh_i2c_rx := rx\<rparr>"
    using assms(5) by (auto simp: i2c_init_def register_i2c_tx_def register_i2c_rx_def split: prod.splits if_splits)
  obtain tx' rx' where s: "hal_register hash hspi dev' TX_NUM (hh_spi_tx g) = (RET_SUCCESS, tx')"
      "hal_register hash hspi dev' RX_NUM (hh_spi_rx g) = (RET_SUCCESS, rx')" "g2 = g1\<lparr>hh_spi_tx := tx', hh_spi_rx := rx'\<rparr>"
    using assms(6) i(3) by (auto simp: spi_init_def register_spi_tx_def register_spi_rx_def split: prod.splits if_splits)
  note law = hal_register_law(2) [OF assms(1) i(1)] hal_register_law(2) [OF assms(2) i(2)]
    hal_register_law(2) [OF assms(3) s(1)] hal_register_law(2) [OF assms(4) s(2)]
    hal_register_law(3) [OF assms(2) i(2)] hal_register_law(3) [OF assms(3) s(1)] hal_register_law(3) [OF assms(4) s(2)]
  show "map fst (HAL_I2C_MasterTxCpltCallback hash hi2c g2) = [dev]" "map fst (HAL_I2C_MemTxCpltCallback hash hi2c g2) = [dev]"
    "map fst (HAL_I2C_MasterRxCpltCallback hash hi2c g2) = [dev]" "HAL_I2C_MemRxCpltCallback hash hi2c g2 = [(dev, RX_NUM)]"
    "HAL_SPI_TxCpltCallback hash hspi g2 = [(dev', TX_NUM)]" "HAL_SPI_RxCpltCallback hash hspi g2 = [(dev', RX_NUM)]"
    "HAL_SPI_TxRxCpltCallback hash hspi g2 = [(dev', TX_NUM), (dev', RX_NUM)]"
    "k \<noteq> hi2c \<Longrightarrow> HAL_I2C_MemRxCpltCallback hash k g2 = HAL_I2C_MemRxCpltCallback hash k g"
    "k \<noteq> hspi \<Longrightarrow> HAL_SPI_TxRxCpltCallback hash k g2 = HAL_SPI_TxRxCpltCallback hash k g"
    unfolding HAL_I2C_MasterTxCpltCallback_def HAL_I2C_MemTxCpltCallback_def HAL_I2C_MasterRxCpltCallback_def
      HAL_I2C_MemRxCpltCallback_def HAL_SPI_TxCpltCallback_def HAL_SPI_RxCpltCallback_def HAL_SPI_TxRxCpltCallback_def
    by (simp_all add: law i(3) s(3))
qed

section \<open>A transfer from its start to its end\<close>

text \<open>A device that nobody uses, and one that is in use by a task, with other tasks in its queue.\<close>

definition hal_idle :: "hal_dev \<Rightarrow> bool" where
  "hal_idle d \<longleftrightarrow> bs_ok (hd_lock d) \<and> bs_count (hd_lock d) = 1 \<and> bs_waiters (hd_lock d) = [] \<and> hd_isr_flag d = 0 \<and>
     hd_blocked d = - 1"

definition hal_at :: "hal_fn \<Rightarrow> nat \<Rightarrow> hal_place \<Rightarrow> hal_dev \<Rightarrow> bool" where
  "hal_at fn t p d \<longleftrightarrow> fst (hal_resume fn (int t) d) = p"

definition hal_busy :: "hal_fn \<Rightarrow> nat \<Rightarrow> hal_place \<Rightarrow> int list \<Rightarrow> hal_dev \<Rightarrow> bool" where
  "hal_busy fn t p ws d \<longleftrightarrow> bs_ok (hd_lock d) \<and> bs_count (hd_lock d) = 0 \<and> bs_waiters (hd_lock d) = ws \<and> hal_at fn t p d"

definition running :: "nat \<Rightarrow> ('f, 'b, 'w) sched \<Rightarrow> bool" where
  "running t s \<longleftrightarrow> sched_ok s \<and> sched_dispatched s = int t \<and> t < MAX_NUM_TASKS \<and> t_state (tasks s t) \<noteq> STATE_UNALLOCATED"

lemma bsem_release_code: "bsem_release b s = Some (ret, b', s') \<Longrightarrow> ret = RET_SUCCESS"
  by (auto simp: bsem_release_def Let_def split: option.splits)

lemma hal_resume_frame:
  "hal_resume fn tid d = (p, d') \<Longrightarrow> hd_lock d' = hd_lock d \<and> hd_blocked d' = hd_blocked d \<and> hd_isr_flag d' = hd_isr_flag d \<and>
     hd_lock_labels d' = hd_lock_labels d \<and> lb_init (hd_labels d' fn)"
  using resume_init [of HpStart tid "hd_labels d fn"] by (auto simp: hal_resume_def split: prod.splits)

lemma hal_label_frame [simp]:
  "hd_lock (hal_label fn tid p d) = hd_lock d" "hd_blocked (hal_label fn tid p d) = hd_blocked d"
  "hd_isr_flag (hal_label fn tid p d) = hd_isr_flag d" "hd_lock_labels (hal_label fn tid p d) = hd_lock_labels d"
  "hd_labels (hal_label fn tid p d) = (hd_labels d)(fn := set_label tid p (hd_labels d fn))"
  by (simp_all add: hal_label_def)

text \<open>A label that is set is the place to continue at, whatever happens to the other members.\<close>

lemma hal_at_label:
  "hd_labels d fn = set_label (int t) p l \<Longrightarrow> lb_init l \<Longrightarrow> hal_at fn t p d"
  by (simp add: hal_at_def hal_resume_def resume_after_set)

lemma hal_at_frame: "hd_labels d' fn = hd_labels d fn \<Longrightarrow> hal_at fn t p d' = hal_at fn t p d"
  by (auto simp: hal_at_def hal_resume_def split: prod.splits)

text \<open>The parts of a transfer, on a free device and on one in use.\<close>

lemma hal_locked_free:
  assumes "bs_ok (hd_lock d)" and "bs_count (hd_lock d) = 1"
  shows "\<exists>l. hal_locked fn fail k d s h =
    k ((hal_label fn (sched_dispatched s) HpAcquire d)\<lparr>hd_lock := (hd_lock d)\<lparr>bs_count := 0\<rparr>, hd_lock_labels := l\<rparr>) s h"
  using bsem_acquire_free [OF assms(1), of s "hd_lock_labels d"] assms(2) by (auto simp: hal_locked_def Let_def call_waits_def)

lemma hal_locked_waits:
  assumes "bs_ok (hd_lock d)" and "bs_count (hd_lock d) = 0" and "length (bs_waiters (hd_lock d)) < MAX_NUM_TASKS" and "running t s"
  shows "\<exists>b s1 l. hal_locked fn fail k d s h =
      Some (RET_BLOCKED, (hal_label fn (int t) HpAcquire d)\<lparr>hd_lock := b, hd_lock_labels := l\<rparr>, s1, h) \<and>
    bs_ok b \<and> bs_count b = 0 \<and> bs_waiters b = bs_waiters (hd_lock d) @ [int t] \<and> sched_ok s1 \<and>
    t_state (tasks s1 t) = STATE_BLOCKED \<and> t \<notin> set (ready_tasks s1)"
proof -
  obtain b s1 l where "bsem_acquire (hd_lock d) s (hd_lock_labels d) = Some (RET_BLOCKED, b, s1, l)" "bs_ok b"
      "bs_waiters b = bs_waiters (hd_lock d) @ [int t]" "bs_count b = 0" "sched_ok s1" "t_state (tasks s1 t) = STATE_BLOCKED"
      "t \<notin> set (ready_tasks s1)"
    using bsem_acquire_block [OF assms(1-3), of s t "hd_lock_labels d"] assms(4) by (auto simp: running_def)
  then show ?thesis
    using assms(4) by (intro exI [of _ b] exI [of _ s1] exI [of _ l]) (simp add: hal_locked_def call_waits_def running_def)
qed

lemma hal_first_blocks:
  assumes "running t s" and "hal call h = (True, h1)" and "lb_init (hd_labels d fn)"
  shows "\<exists>d1 s1. hal_first hal fn call 0 d s h = Some (RET_BLOCKED, d1, s1, h1) \<and> hal_at fn t HpBlock d1 \<and>
    hd_lock d1 = hd_lock d \<and> hd_blocked d1 = int t \<and> hd_isr_flag d1 = hd_isr_flag d \<and> sched_ok s1 \<and>
    t_state (tasks s1 t) = STATE_BLOCKED \<and> t \<notin> set (ready_tasks s1) \<and> (\<forall>u. u \<noteq> t \<longrightarrow> tasks s1 u = tasks s u)"
proof -
  let ?d = "d\<lparr>hd_blocked := int t, hd_labels := (hd_labels d)(fn := set_label (int t) HpBlock (hd_labels d fn))\<rparr>"
  obtain s1 where "sched_block t s = Some s1" "sched_ok s1" "t_state (tasks s1 t) = STATE_BLOCKED" "t \<notin> set (ready_tasks s1)"
      "\<forall>u. u \<noteq> t \<longrightarrow> tasks s1 u = tasks s u"
    using sched_block_ok [of s t] assms(1) by (auto simp: running_def)
  moreover have "hal_at fn t HpBlock ?d"
    by (rule hal_at_label [OF _ assms(3)]) simp
  ultimately show ?thesis
    using assms(1,2)
    by (intro exI [of _ ?d] exI [of _ s1]) (simp add: hal_first_def hal_start_def hal_wait_def mac_block_def running_def)
qed

lemma hal_poll_wakes:
  assumes "hd_isr_flag d \<noteq> 0" and "hd_blocked d = int t" and "sched_ok s" "t < MAX_NUM_TASKS" "t_state (tasks s t) = STATE_BLOCKED"
  shows "\<exists>s1. hal_poll d s = Some (RET_SUCCESS, d\<lparr>hd_isr_flag := 0, hd_blocked := - 1\<rparr>, s1) \<and> sched_ok s1 \<and>
    ready_tasks s1 = ready_tasks s @ [t] \<and> t_state (tasks s1 t) = STATE_ACTIVE \<and> (\<forall>u. u \<noteq> t \<longrightarrow> tasks s1 u = tasks s u)"
  using sched_wake_ok [OF assms(3,4)] assms(1,2,4,5) by (auto simp: hal_poll_def mac_wake_def)

lemma sched_wake_dispatched: "sched_wake t s = Some s' \<Longrightarrow> sched_dispatched s' = sched_dispatched s"
  by (auto simp: sched_wake_def upd_task_def push_ready_def Let_def split: if_splits option.splits prod.splits)

lemma hal_finish_dispatched:
  "hal_finish fn timed_out d s h = Some (ret, d', s', h') \<Longrightarrow> sched_dispatched s' = sched_dispatched s"
  by (auto simp: hal_finish_def hal_release_def hal_return_def bsem_release_def mac_wake_def Let_def
    dest: sched_wake_dispatched split: if_splits option.splits bind_splits)

lemma hal_finish_free:
  assumes "bs_ok (hd_lock d)" and "bs_waiters (hd_lock d) = []"
  shows "hal_finish fn timed_out d s h =
    hal_return fn (if timed_out then RET_ERROR else RET_SUCCESS) (d\<lparr>hd_lock := (hd_lock d)\<lparr>bs_count := bs_count (hd_lock d) + 1\<rparr>\<rparr>) s h"
  using bsem_release_empty [OF assms, of s] by (simp add: hal_finish_def hal_release_def)

lemma hal_finish_hands_over:
  assumes "bs_ok (hd_lock d)" and "bs_waiters (hd_lock d) = int u # ws"
    and "sched_ok s" "u < MAX_NUM_TASKS" "t_state (tasks s u) = STATE_BLOCKED"
  shows "\<exists>b s1. hal_finish fn timed_out d s h = hal_return fn (if timed_out then RET_ERROR else RET_SUCCESS) (d\<lparr>hd_lock := b\<rparr>) s1 h \<and>
    bs_ok b \<and> bs_waiters b = ws \<and> bs_count b = bs_count (hd_lock d) + 1 \<and> sched_ok s1 \<and>
    ready_tasks s1 = ready_tasks s @ [u] \<and> t_state (tasks s1 u) = STATE_ACTIVE"
proof -
  obtain b s1 where "bsem_release (hd_lock d) s = Some (RET_SUCCESS, b, s1)" "bs_ok b" "bs_waiters b = ws"
      "bs_count b = bs_count (hd_lock d) + 1" "sched_ok s1" "ready_tasks s1 = ready_tasks s @ [u]" "t_state (tasks s1 u) = STATE_ACTIVE"
    using bsem_release_wakes [OF assms] by blast
  then show ?thesis
    by (intro exI [of _ b] exI [of _ s1]) (simp add: hal_finish_def hal_release_def)
qed

text \<open>The first activation of a function that finds the device free.\<close>

lemma hal_locked_first:
  assumes d: "bs_ok (hd_lock d)" "bs_count (hd_lock d) = 1" "lb_init (hd_labels d fn)"
    and s: "running t s" and hal: "hal call h = (True, h1)"
  shows "\<exists>d1 s1. hal_locked fn fail (hal_first hal fn call 0) d s h = Some (RET_BLOCKED, d1, s1, h1) \<and>
    hal_busy fn t HpBlock (bs_waiters (hd_lock d)) d1 \<and> hd_blocked d1 = int t \<and> hd_isr_flag d1 = hd_isr_flag d \<and> sched_ok s1 \<and>
    t_state (tasks s1 t) = STATE_BLOCKED \<and> t \<notin> set (ready_tasks s1) \<and> (\<forall>u. u \<noteq> t \<longrightarrow> tasks s1 u = tasks s u)"
proof -
  obtain l where l: "hal_locked fn fail (hal_first hal fn call 0) d s h = hal_first hal fn call 0
      ((hal_label fn (sched_dispatched s) HpAcquire d)\<lparr>hd_lock := (hd_lock d)\<lparr>bs_count := 0\<rparr>, hd_lock_labels := l\<rparr>) s h"
    (is "_ = hal_first hal fn call 0 ?d s h")
    using hal_locked_free [OF d(1,2), of fn fail "hal_first hal fn call 0" s h] by blast
  have "lb_init (hd_labels ?d fn)"
    using d(3) by simp
  from hal_first_blocks [of t s hal call h h1, OF s hal this] show ?thesis
    using d(1) by (fastforce simp: l hal_busy_def bs_ok_def bs_waiters_def)
qed

lemma hal_at_resume: "hal_at fn t p d \<Longrightarrow> \<exists>d'. hal_resume fn (int t) d = (p, d')"
  by (cases "hal_resume fn (int t) d") (simp add: hal_at_def)

lemma hal_at_other:
  assumes "hal_resume fn (int t) d = (p', d0)" and "hd_labels d' = (hd_labels d0)(fn := set_label (int t) q (hd_labels d0 fn))" and "u \<noteq> t"
  shows "hal_at fn' u p d' = hal_at fn' u p d"
  using assms by (auto simp: hal_at_def hal_resume_def mac_resume_def set_label_def Let_def split: prod.splits if_splits)

lemma hal_transfer_starts:
  assumes "bs_ok (hd_lock d)" "bs_count (hd_lock d) = 1" and at: "hal_at fn t p d" "p = HpStart \<or> p = HpAcquire"
    and s: "running t s" and hal: "hal call h = (True, h1)" and f: "f = i2c_transfer hal fn call 0 \<or> f = spi_transfer hal fn fail call 0"
  shows "\<exists>d1 s1. f d s h = Some (RET_BLOCKED, d1, s1, h1) \<and>
    hal_busy fn t HpBlock (bs_waiters (hd_lock d)) d1 \<and> hd_blocked d1 = int t \<and> hd_isr_flag d1 = hd_isr_flag d \<and> sched_ok s1 \<and>
    t_state (tasks s1 t) = STATE_BLOCKED \<and> t \<notin> set (ready_tasks s1) \<and> (\<forall>u. u \<noteq> t \<longrightarrow> tasks s1 u = tasks s u)"
proof -
  obtain d0 where d0: "hal_resume fn (int t) d = (p, d0)"
    using hal_at_resume [OF at(1)] by blast
  note fr = hal_resume_frame [OF d0]
  have "f d s h = hal_locked fn (if f = i2c_transfer hal fn call 0 then hal_return fn else fail) (hal_first hal fn call 0) d0 s h"
    using f d0 at(2) s by (auto simp: i2c_transfer_def spi_transfer_def running_def)
  then show ?thesis
    using hal_locked_first [of d0 fn t s hal call h h1] s hal fr assms(1,2) by metis
qed

text \<open>The last activation of a function whose transfer is complete, with nobody and with somebody in the queue.\<close>

lemma hal_transfer_ends:
  assumes busy: "hal_busy fn t HpBlock [] d" and idle: "hd_blocked d = - 1" "hd_isr_flag d = 0" and tid: "sched_dispatched s = int t"
    and f: "f = i2c_transfer hal fn call 0 \<or> f = spi_transfer hal fn fail call 0"
  shows "\<exists>d1. f d s h = Some (RET_SUCCESS, d1, s, h) \<and> hal_idle d1 \<and> hal_at fn t HpStart d1"
proof -
  obtain d0 where d0: "hal_resume fn (int t) d = (HpBlock, d0)"
    using hal_at_resume [of fn t HpBlock d] busy by (auto simp: hal_busy_def)
  note fr = hal_resume_frame [OF d0]
  have same: "d0\<lparr>hd_blocked := - 1\<rparr> = d0"
    using idle(1) fr by (cases d0) simp
  have e: "f d s h = hal_finish fn False d0 s h"
    using f d0 idle(1) fr tid by (auto simp: i2c_transfer_def spi_transfer_def same)
  have ok: "bs_ok (hd_lock d0)" "bs_waiters (hd_lock d0) = []"
    using busy fr by (simp_all add: hal_busy_def)
  let ?d = "hal_label fn (int t) HpStart (d0\<lparr>hd_lock := (hd_lock d0)\<lparr>bs_count := bs_count (hd_lock d0) + 1\<rparr>\<rparr>)"
  have "hal_at fn t HpStart ?d"
    by (rule hal_at_label [of _ _ _ _ "hd_labels d0 fn"]) (use fr in simp_all)
  moreover have "hal_idle ?d"
    using busy idle fr by (simp add: hal_idle_def hal_busy_def bs_ok_def bs_waiters_def)
  ultimately show ?thesis
    using e hal_finish_free [OF ok, of fn False s h] tid by (simp add: hal_return_def)
qed

lemma hal_transfer_hands_over:
  assumes busy: "hal_busy fn t HpBlock (int u # ws) d" and idle: "hd_blocked d = - 1" and tid: "sched_dispatched s = int t"
    and s: "sched_ok s" "u < MAX_NUM_TASKS" "t_state (tasks s u) = STATE_BLOCKED"
    and f: "f = i2c_transfer hal fn call 0 \<or> f = spi_transfer hal fn fail call 0"
  shows "\<exists>d1 s1. f d s h = Some (RET_SUCCESS, d1, s1, h) \<and> bs_ok (hd_lock d1) \<and> bs_count (hd_lock d1) = 1 \<and>
    bs_waiters (hd_lock d1) = ws \<and> hd_blocked d1 = - 1 \<and> hd_isr_flag d1 = hd_isr_flag d \<and>
    (\<forall>fn' v p. v \<noteq> t \<longrightarrow> hal_at fn' v p d1 = hal_at fn' v p d) \<and>
    sched_ok s1 \<and> ready_tasks s1 = ready_tasks s @ [u] \<and> t_state (tasks s1 u) = STATE_ACTIVE"
proof -
  obtain d0 where d0: "hal_resume fn (int t) d = (HpBlock, d0)"
    using hal_at_resume [of fn t HpBlock d] busy by (auto simp: hal_busy_def)
  note fr = hal_resume_frame [OF d0]
  have same: "d0\<lparr>hd_blocked := - 1\<rparr> = d0"
    using idle(1) fr by (cases d0) simp
  have e: "f d s h = hal_finish fn False d0 s h"
    using f d0 idle(1) fr tid by (auto simp: i2c_transfer_def spi_transfer_def same)
  have ok: "bs_ok (hd_lock d0)" "bs_waiters (hd_lock d0) = int u # ws"
    using busy fr by (simp_all add: hal_busy_def)
  obtain b s1 where r: "hal_finish fn False d0 s h = hal_return fn RET_SUCCESS (d0\<lparr>hd_lock := b\<rparr>) s1 h" "bs_ok b" "bs_waiters b = ws"
      "bs_count b = bs_count (hd_lock d0) + 1" "sched_ok s1" "ready_tasks s1 = ready_tasks s @ [u]" "t_state (tasks s1 u) = STATE_ACTIVE"
    using hal_finish_hands_over [OF ok s, of fn False h] by auto
  let ?d = "hal_label fn (int t) HpStart (d0\<lparr>hd_lock := b\<rparr>)"
  have "hal_at fn' v p ?d = hal_at fn' v p d" if "v \<noteq> t" for fn' v p
    by (rule hal_at_other [OF d0 _ that]) simp
  moreover have "sched_dispatched s1 = int t"
    using tid hal_finish_dispatched [OF r(1) [unfolded hal_return_def]] by simp
  ultimately show ?thesis
    using e fr busy idle r by (intro exI [of _ ?d] exI [of _ s1]) (simp add: hal_return_def hal_busy_def)
qed

section \<open>Properties\<close>

text \<open>C27: 
  A transfer of one part, on I2C and on SPI: the task that starts it on an idle device is blocked; polling
  leaves it so until an interrupt has come, the first poll after the interrupt makes it ready, and when it
  runs again its call returns success and leaves the device idle.
\<close>
theorem hal_transfer_cycle:
  assumes d: "hal_idle d" "hal_at fn t HpStart d" and s: "running t s" and hal: "hal call h = (True, h1)"
    and f: "f = i2c_transfer hal fn call 0 \<or> f = spi_transfer hal fn fail call 0"
  shows "\<exists>d1 s1 d2 s2 d3. f d s h = Some (RET_BLOCKED, d1, s1, h1) \<and> t \<notin> set (ready_tasks s1) \<and>
    hal_poll d1 s1 = Some (RET_SUCCESS, d1, s1) \<and>
    hal_poll (hal_callback num d1) s1 = Some (RET_SUCCESS, d2, s2) \<and> ready_tasks s2 = ready_tasks s1 @ [t] \<and>
    f d2 (s2\<lparr>sched_dispatched := int t\<rparr>) h2 = Some (RET_SUCCESS, d3, s2\<lparr>sched_dispatched := int t\<rparr>, h2) \<and>
    hal_idle d3 \<and> hal_at fn t HpStart d3"
proof -
  have free: "bs_ok (hd_lock d)" "bs_count (hd_lock d) = 1" "bs_waiters (hd_lock d) = []" "hd_isr_flag d = 0"
    using d(1) by (simp_all add: hal_idle_def)
  obtain d1 s1 where 1: "f d s h = Some (RET_BLOCKED, d1, s1, h1)" "hal_busy fn t HpBlock [] d1" "hd_blocked d1 = int t"
      "hd_isr_flag d1 = 0" "sched_ok s1" "t_state (tasks s1 t) = STATE_BLOCKED" "t \<notin> set (ready_tasks s1)"
    using hal_transfer_starts [of d fn t HpStart s hal call h h1 f fail] free d(2) s hal f by auto
  let ?d = "hal_callback num d1" and ?d2 = "d1\<lparr>hd_isr_flag := 0, hd_blocked := - 1\<rparr>"
  have t: "t < MAX_NUM_TASKS"
    using s by (simp add: running_def)
  obtain s2 where 2: "hal_poll ?d s1 = Some (RET_SUCCESS, ?d2, s2)" "ready_tasks s2 = ready_tasks s1 @ [t]"
    using hal_poll_wakes [of ?d t s1] 1(3,5,6) t by (auto simp: hal_callback_def)
  have busy: "hal_busy fn t HpBlock [] ?d2"
    using 1(2) by (simp add: hal_busy_def hal_at_def hal_resume_def split: prod.splits)
  obtain d3 where 3: "f ?d2 (s2\<lparr>sched_dispatched := int t\<rparr>) h2 = Some (RET_SUCCESS, d3, s2\<lparr>sched_dispatched := int t\<rparr>, h2)"
      "hal_idle d3" "hal_at fn t HpStart d3"
    using hal_transfer_ends [OF busy _ _ _ f, of "s2\<lparr>sched_dispatched := int t\<rparr>" h2] by auto
  have "hal_poll d1 s1 = Some (RET_SUCCESS, d1, s1)"
    using 1(4) by (simp add: hal_poll_def)
  with 1 2 3 show ?thesis by blast
qed

text \<open>A device of a program with one task.\<close>

definition ex_hal :: hal_dev where
  "ex_hal = hal_new (boot_aqueue 0 MAX_NUM_TASKS) ex_labels (\<lambda>fn. \<lparr>lb_init = False, lb_current = (\<lambda>i. HpStart)\<rparr>)"

lemma ex_hal_idle: "hal_idle ex_hal" "hal_at fn t HpStart ex_hal"
  by (simp_all add: ex_hal_def hal_new_def hal_idle_def boot_bsem hal_at_def hal_resume_def mac_resume_def)

abbreviation ex_sched :: "(nat, unit, unit) sched" where
  "ex_sched \<equiv> snd (sched_start 0 () (sched_boot 0 () ()))\<lparr>sched_dispatched := 0\<rparr>"

lemma ex_running: "running 0 ex_sched"
  using one_task_ex [of "0 :: nat" "()" "()"] one_task_blocked [of "0 :: nat" "()" "()"]
  by (auto simp: running_def one_task_def MAX_NUM_TASKS_def)

theorem hal_transfer_cycle_witness:
  "\<exists>d1 s1 d2 s2 d3. i2c_write (\<lambda>call h. (True, h @ [call])) \<lparr>dev_addr = 0x1C, mem_addr = 2, mem_addr_size = 1\<rparr> 7 4 0 ex_hal ex_sched [] =
      Some (RET_BLOCKED, d1, s1, [HalMemWrite 0x1C 2 1 7 4]) \<and>
    hal_poll (hal_callback 0 d1) s1 = Some (RET_SUCCESS, d2, s2) \<and>
    i2c_write (\<lambda>call h. (True, h @ [call])) \<lparr>dev_addr = 0x1C, mem_addr = 2, mem_addr_size = 1\<rparr> 7 4 0 d2 (s2\<lparr>sched_dispatched := 0\<rparr>) [] =
      Some (RET_SUCCESS, d3, s2\<lparr>sched_dispatched := 0\<rparr>, []) \<and> hal_idle d3"
proof -
  let ?hal = "\<lambda>call h. (True, h @ [call])" and ?c = "HalMemWrite 0x1C 2 1 7 4"
  show ?thesis
    using hal_transfer_cycle [of ex_hal FnWrite 0 ex_sched ?hal ?c "[]" "[?c]" "i2c_transfer ?hal FnWrite ?c 0" _ 0 "[]"] ex_hal_idle ex_running
    by (simp add: i2c_write_def) blast
qed

text \<open>A second task that asks for a device in use.\<close>

lemma hal_transfer_queues:
  assumes busy: "hal_busy fn t HpBlock ws d" and at: "hal_at fn' u HpStart d" and u: "running u s" "u \<noteq> t"
    and room: "length ws < MAX_NUM_TASKS" and f: "f = i2c_transfer hal fn' call 0 \<or> f = spi_transfer hal fn' fail call 0"
  shows "\<exists>d1 s1. f d s h = Some (RET_BLOCKED, d1, s1, h) \<and> hal_busy fn t HpBlock (ws @ [int u]) d1 \<and>
    hd_blocked d1 = hd_blocked d \<and> hd_isr_flag d1 = hd_isr_flag d \<and> hal_at fn' u HpAcquire d1 \<and>
    sched_ok s1 \<and> t_state (tasks s1 u) = STATE_BLOCKED \<and> u \<notin> set (ready_tasks s1) \<and> (\<forall>v. v \<noteq> u \<longrightarrow> tasks s1 v = tasks s v)"
proof -
  obtain d0 where d0: "hal_resume fn' (int u) d = (HpStart, d0)"
    using hal_at_resume [OF at] by blast
  note fr = hal_resume_frame [OF d0]
  have e: "f d s h = hal_locked fn' (if f = i2c_transfer hal fn' call 0 then hal_return fn' else fail) (hal_first hal fn' call 0) d0 s h"
    using f d0 u(1) by (auto simp: i2c_transfer_def spi_transfer_def running_def)
  have "bs_ok (hd_lock d0)" "bs_count (hd_lock d0) = 0" "length (bs_waiters (hd_lock d0)) < MAX_NUM_TASKS"
    using busy room fr by (simp_all add: hal_busy_def)
  from bsem_acquire_block [OF this, of s u "hd_lock_labels d0"] u(1) obtain b s1 l where
    w: "bsem_acquire (hd_lock d0) s (hd_lock_labels d0) = Some (RET_BLOCKED, b, s1, l)" "bs_ok b" "bs_count b = 0"
      "bs_waiters b = bs_waiters (hd_lock d0) @ [int u]" "sched_ok s1" "t_state (tasks s1 u) = STATE_BLOCKED" "u \<notin> set (ready_tasks s1)"
    by (auto simp: running_def)
  let ?d = "(hal_label fn' (int u) HpAcquire d0)\<lparr>hd_lock := b, hd_lock_labels := l\<rparr>"
  have "hal_at fn' u HpAcquire ?d"
    by (rule hal_at_label [of _ _ _ _ "hd_labels d0 fn'"]) (use fr in simp_all)
  moreover have "hal_at fn t HpBlock ?d"
    using hal_at_other [OF d0, of ?d HpAcquire t fn HpBlock] u(2) busy by (simp add: hal_busy_def)
  moreover have "sched_block u s = Some s1"
    using w(1) u(1) by (auto simp: bsem_acquire_def mac_block_def Let_def running_def split: option.splits if_splits prod.splits)
  then have "\<forall>v. v \<noteq> u \<longrightarrow> tasks s1 v = tasks s v"
    using sched_block_ok [of s u] u(1) by (auto simp: running_def)
  ultimately show ?thesis
    using e w fr busy u(1)
    by (intro exI [of _ ?d] exI [of _ s1]) (simp add: hal_locked_def hal_busy_def call_waits_def running_def)
qed

text \<open>C21: 
  A task that asks for a device in use waits in its queue, and no transfer is started for it.  Once the
  interrupt of the first transfer has been polled and its task has run, the second task is ready, and when
  it runs its transfer is started and it is the one that the device waits for.
\<close>
theorem hal_exclusion:
  assumes busy: "hal_busy fn t HpBlock [] d" "hd_blocked d = int t" "hd_isr_flag d = 0"
    and t: "t < MAX_NUM_TASKS" "t_state (tasks s t) = STATE_BLOCKED" and u: "running u s" "u \<noteq> t" "hal_at fn' u HpStart d"
    and f: "f = i2c_transfer hal fn call 0 \<or> f = spi_transfer hal fn fail call 0"
    and f': "f' = i2c_transfer hal fn' call' 0 \<or> f' = spi_transfer hal fn' fail' call' 0" and hal: "hal call' h = (True, h1)"
  shows "\<exists>d1 s1 d2 s2 d3 s3 d4 s4. f' d s h = Some (RET_BLOCKED, d1, s1, h) \<and> u \<notin> set (ready_tasks s1) \<and>
    hal_poll (hal_callback num d1) s1 = Some (RET_SUCCESS, d2, s2) \<and> ready_tasks s2 = ready_tasks s1 @ [t] \<and>
    f d2 (s2\<lparr>sched_dispatched := int t\<rparr>) h = Some (RET_SUCCESS, d3, s3, h) \<and> ready_tasks s3 = ready_tasks s2 @ [u] \<and>
    f' d3 (s3\<lparr>sched_dispatched := int u\<rparr>) h = Some (RET_BLOCKED, d4, s4, h1) \<and> hd_blocked d4 = int u"
proof -
  obtain d1 s1 where 1: "f' d s h = Some (RET_BLOCKED, d1, s1, h)" "hal_busy fn t HpBlock [int u] d1"
      "hd_blocked d1 = int t" "hd_isr_flag d1 = 0" "hal_at fn' u HpAcquire d1" "sched_ok s1"
      "t_state (tasks s1 u) = STATE_BLOCKED" "u \<notin> set (ready_tasks s1)" "\<forall>v. v \<noteq> u \<longrightarrow> tasks s1 v = tasks s v"
    using hal_transfer_queues [OF busy(1) u(3,1,2) _ f', of h] busy(2,3) by (auto simp: MAX_NUM_TASKS_def)
  have st: "t_state (tasks s1 t) = STATE_BLOCKED"
    using 1(9) t(2) u(2) by simp
  let ?d = "hal_callback num d1" and ?d2 = "d1\<lparr>hd_isr_flag := 0, hd_blocked := - 1\<rparr>"
  obtain s2 where 2: "hal_poll ?d s1 = Some (RET_SUCCESS, ?d2, s2)" "sched_ok s2" "ready_tasks s2 = ready_tasks s1 @ [t]"
      "\<forall>v. v \<noteq> t \<longrightarrow> tasks s2 v = tasks s1 v"
    using hal_poll_wakes [of ?d t s1] 1(3,6) st t(1) by (auto simp: hal_callback_def)
  have busy2: "hal_busy fn t HpBlock (int u # []) ?d2"
    using 1(2) by (simp add: hal_busy_def hal_at_def hal_resume_def split: prod.splits)
  have at2: "hal_at fn' u HpAcquire ?d2"
    using 1(5) hal_at_frame [of ?d2 fn' d1 u HpAcquire] by simp
  have lt: "u < MAX_NUM_TASKS"
    using u(1) by (simp add: running_def)
  obtain d3 s3 where 3: "f ?d2 (s2\<lparr>sched_dispatched := int t\<rparr>) h = Some (RET_SUCCESS, d3, s3, h)" "bs_ok (hd_lock d3)"
      "bs_count (hd_lock d3) = 1" "hal_at fn' u HpAcquire d3" "sched_ok s3" "ready_tasks s3 = ready_tasks s2 @ [u]"
      "t_state (tasks s3 u) = STATE_ACTIVE"
    using hal_transfer_hands_over [OF busy2 _ _ _ lt _ f, of "s2\<lparr>sched_dispatched := int t\<rparr>" h] 2(2,4) 1(7) u(2) at2 by auto
  have "running u (s3\<lparr>sched_dispatched := int u\<rparr>)"
    using 3(5,7) lt by (simp add: running_def)
  from hal_transfer_starts [OF 3(2,3,4) _ this hal f'] obtain d4 s4 where
    "f' d3 (s3\<lparr>sched_dispatched := int u\<rparr>) h = Some (RET_BLOCKED, d4, s4, h1)" "hd_blocked d4 = int u"
    by auto
  with 1(1,8) 2(1,3) 3(1,6) show ?thesis by blast
qed

text \<open>
  An interrupt that comes after its transfer has timed out finishes the next transfer: the task that timed
  out gets the error code, another task starts a transfer, and a poll wakes that task, whose call returns
  success, although its own transfer has not been interrupted for.
\<close>
theorem hal_late_interrupt:
  assumes busy: "hal_busy fn t HpSleep [] d" "hd_blocked d = int t" "hd_isr_flag d = 0" and t: "sched_dispatched s = int t"
    and u: "running u (s\<lparr>sched_dispatched := int u\<rparr>)" "u \<noteq> t" "hal_at fn' u HpStart d"
    and f: "f = i2c_transfer hal fn call timeout \<or> f = spi_transfer hal fn fail call timeout"
    and f': "f' = i2c_transfer hal fn' call' 0 \<or> f' = spi_transfer hal fn' fail' call' 0" and hal: "hal call' h = (True, h1)"
  shows "\<exists>d1 d2 s2 d3 s3 d4. f d s h = Some (RET_ERROR, d1, s, h) \<and>
    f' (hal_callback num d1) (s\<lparr>sched_dispatched := int u\<rparr>) h = Some (RET_BLOCKED, d2, s2, h1) \<and>
    hal_poll d2 s2 = Some (RET_SUCCESS, d3, s3) \<and> ready_tasks s3 = ready_tasks s2 @ [u] \<and>
    f' d3 (s3\<lparr>sched_dispatched := int u\<rparr>) h1 = Some (RET_SUCCESS, d4, s3\<lparr>sched_dispatched := int u\<rparr>, h1) \<and> hal_idle d4"
proof -
  obtain d0 where d0: "hal_resume fn (int t) d = (HpSleep, d0)"
    using hal_at_resume [of fn t HpSleep d] busy(1) by (auto simp: hal_busy_def)
  note fr = hal_resume_frame [OF d0]
  define w where "w = (if f = i2c_transfer hal fn call timeout then int t else - 1)"
  have e: "f d s h = hal_finish fn True (d0\<lparr>hd_blocked := w\<rparr>) s h"
  proof (cases "f = i2c_transfer hal fn call timeout")
    case True
    have same: "d0\<lparr>hd_blocked := int t\<rparr> = d0"
      using busy(2) fr by (cases d0) simp
    show ?thesis
      using True d0 t busy(2) fr by (simp add: w_def i2c_transfer_def same)
  next
    case False
    then show ?thesis
      using f d0 t busy(2) fr by (simp add: w_def spi_transfer_def)
  qed
  let ?d1 = "hal_label fn (int t) HpStart (d0\<lparr>hd_blocked := w, hd_lock := (hd_lock d0)\<lparr>bs_count := 1\<rparr>\<rparr>)"
  have "bs_ok (hd_lock d0)" "bs_waiters (hd_lock d0) = []" "bs_count (hd_lock d0) = 0"
    using busy(1) fr by (simp_all add: hal_busy_def)
  then have 1: "f d s h = Some (RET_ERROR, ?d1, s, h)" and ok: "bs_ok (hd_lock ?d1)" "bs_count (hd_lock ?d1) = 1" "bs_waiters (hd_lock ?d1) = []"
    using e t hal_finish_free [of "d0\<lparr>hd_blocked := w\<rparr>" fn True s h] by (simp_all add: hal_return_def bs_ok_def bs_waiters_def)
  let ?c = "hal_callback num ?d1"
  have "hal_at fn' u HpStart ?d1"
    using hal_at_other [OF d0, of ?d1 HpStart u fn' HpStart] u(2,3) by simp
  then have at: "hal_at fn' u HpStart ?c"
    using hal_at_frame [of ?c fn' ?d1 u HpStart] by (simp add: hal_callback_def)
  have okc: "bs_ok (hd_lock ?c)" "bs_count (hd_lock ?c) = 1" "bs_waiters (hd_lock ?c) = []"
    using ok by (simp_all add: hal_callback_def)
  obtain d2 s2 where 2: "f' ?c (s\<lparr>sched_dispatched := int u\<rparr>) h = Some (RET_BLOCKED, d2, s2, h1)" "hal_busy fn' u HpBlock [] d2"
      "hd_blocked d2 = int u" "hd_isr_flag d2 = 1" "sched_ok s2" "t_state (tasks s2 u) = STATE_BLOCKED"
    using hal_transfer_starts [OF okc(1,2) at _ u(1) hal f'] okc(3) by (auto simp: hal_callback_def)
  let ?d3 = "d2\<lparr>hd_isr_flag := 0, hd_blocked := - 1\<rparr>"
  have lt: "u < MAX_NUM_TASKS"
    using u(1) by (simp add: running_def)
  obtain s3 where 3: "hal_poll d2 s2 = Some (RET_SUCCESS, ?d3, s3)" "ready_tasks s3 = ready_tasks s2 @ [u]"
    using hal_poll_wakes [of d2 u s2] 2(3-6) lt by auto
  have "hal_busy fn' u HpBlock [] ?d3"
    using 2(2) by (simp add: hal_busy_def hal_at_def hal_resume_def split: prod.splits)
  from hal_transfer_ends [OF this _ _ _ f', of "s3\<lparr>sched_dispatched := int u\<rparr>" h1] obtain d4 where
    "f' ?d3 (s3\<lparr>sched_dispatched := int u\<rparr>) h1 = Some (RET_SUCCESS, d4, s3\<lparr>sched_dispatched := int u\<rparr>, h1)" "hal_idle d4"
    by auto
  with 1 2(1) 3 show ?thesis by blast
qed

text \<open>Two tasks, the first one waiting for a transfer.\<close>

lemma ex_two_tasks:
  "\<exists>s :: (nat, unit, unit) sched. t_state (tasks s 0) = STATE_BLOCKED \<and> sched_dispatched s = 0 \<and> running 1 (s\<lparr>sched_dispatched := 1\<rparr>)"
proof -
  have boot: "t_state (tasks (sched_boot (0 :: nat) () ()) t) = STATE_UNALLOCATED" for t
    by (simp add: sched_boot_def)
  obtain s :: "(nat, unit, unit) sched" where one: "sched_ok s" "t_state (tasks s 0) = STATE_ACTIVE"
      "\<forall>u. u \<noteq> 0 \<longrightarrow> tasks s u = tasks (sched_boot (0 :: nat) () ()) u"
    using sched_start_Some [OF sched_boot_ok, of 0 0 "()" "()" 0 "()"] boot by (auto simp: MAX_NUM_TASKS_def)
  have new: "t_state (tasks s 1) = STATE_UNALLOCATED"
    using one(3) boot by simp
  have lt: "\<forall>u<1. t_state (tasks s u) \<noteq> STATE_UNALLOCATED" "1 < MAX_NUM_TASKS" "0 < MAX_NUM_TASKS"
    using one(2) by (simp_all add: MAX_NUM_TASKS_def)
  from sched_start_Some [OF one(1) lt(2) new lt(1), of 0 "()"] obtain s1 :: "(nat, unit, unit) sched" where
    s1: "sched_ok s1" "t_state (tasks s1 1) = STATE_ACTIVE" "\<forall>u. u \<noteq> 1 \<longrightarrow> tasks s1 u = tasks s u"
    by blast
  have "tasks s1 0 = tasks s 0"
    using s1(3) by simp
  then have "t_state (tasks s1 0) \<noteq> STATE_UNALLOCATED"
    using one(2) by simp
  from sched_block_ok [OF s1(1) lt(3) this] obtain s2 :: "(nat, unit, unit) sched" where s2: "sched_ok s2" "t_state (tasks s2 0) = STATE_BLOCKED" "\<forall>u. u \<noteq> 0 \<longrightarrow> tasks s2 u = tasks s1 u"
    by blast
  show ?thesis
    using s2 s1(2) by (intro exI [of _ "s2\<lparr>sched_dispatched := 0\<rparr>"]) (simp add: running_def MAX_NUM_TASKS_def)
qed

definition ex_waiting :: "hal_place \<Rightarrow> hal_dev" where
  "ex_waiting p =
     ex_hal\<lparr>hd_blocked := 0, hd_lock := (hd_lock ex_hal)\<lparr>bs_count := 0\<rparr>,
       hd_labels := (hd_labels ex_hal)(FnWrite := \<lparr>lb_init = True, lb_current = (\<lambda>i. if i = 0 then p else HpStart)\<rparr>)\<rparr>"

lemma ex_waiting_busy:
  "hal_busy FnWrite 0 p [] (ex_waiting p)" "hd_blocked (ex_waiting p) = int 0" "hd_isr_flag (ex_waiting p) = 0"
  "hal_at FnRead 1 HpStart (ex_waiting p)"
  using boot_aqueue_inv [of MAX_NUM_TASKS "0 :: int"] boot_aqueue_elems [of MAX_NUM_TASKS "0 :: int"]
  by (simp_all add: ex_waiting_def ex_hal_def hal_new_def hal_busy_def bs_ok_def bs_waiters_def bsem_init_def hal_at_def
    hal_resume_def mac_resume_def MAX_NUM_TASKS_def)

abbreviation ex_hal_log :: "hal_call list hal" where
  "ex_hal_log \<equiv> (\<lambda>call h. (True, h @ [call]))"

theorem hal_exclusion_witness:
  "\<exists>(s :: (nat, unit, unit) sched) d1 s1. spi_read ex_hal_log 9 2 0 (ex_waiting HpBlock) s [] = Some (RET_BLOCKED, d1, s1, [])"
proof -
  obtain s :: "(nat, unit, unit) sched" where s: "t_state (tasks s 0) = STATE_BLOCKED" "running 1 (s\<lparr>sched_dispatched := 1\<rparr>)"
    using ex_two_tasks by blast
  have "t_state (tasks (s\<lparr>sched_dispatched := 1\<rparr>) 0) = STATE_BLOCKED" "0 < MAX_NUM_TASKS"
    using s(1) by (simp_all add: MAX_NUM_TASKS_def)
  from hal_exclusion [OF ex_waiting_busy(1-3) this(2,1) s(2) _ ex_waiting_busy(4), of
      "spi_transfer ex_hal_log FnWrite (hal_return FnWrite) (HalSpiTransmit 3 4) 0" ex_hal_log "HalSpiTransmit 3 4" "hal_return FnWrite"
      "spi_read ex_hal_log 9 2 0" "HalSpiReceive 9 2" "hal_return FnRead" "[]" "[HalSpiReceive 9 2]"]
  show ?thesis
    by (fastforce simp: spi_read_def fun_eq_iff)
qed

theorem hal_late_interrupt_witness:
  "\<exists>(s :: (nat, unit, unit) sched) d1. i2c_write ex_hal_log \<lparr>dev_addr = 0x1C, mem_addr = 2, mem_addr_size = 1\<rparr> 7 4 10 (ex_waiting HpSleep) s [] =
     Some (RET_ERROR, d1, s, [])"
proof -
  obtain s :: "(nat, unit, unit) sched" where s: "sched_dispatched s = int 0" "running 1 (s\<lparr>sched_dispatched := int 1\<rparr>)"
    using ex_two_tasks by auto
  let ?c = "HalMemWrite 0x1C 2 1 7 4"
  from hal_late_interrupt [OF ex_waiting_busy(1-3) s(1,2) _ ex_waiting_busy(4), of
      "i2c_transfer ex_hal_log FnWrite ?c 10" ex_hal_log ?c 10 "hal_return FnWrite"
      "i2c_transfer ex_hal_log FnRead ?c 0" ?c "hal_return FnRead" "[]" "[?c]"]
  show ?thesis
    by (fastforce simp: i2c_write_def)
qed

text \<open>Interrupts and polls, in any order.\<close>

datatype hal_event = Interrupt int | Poll

fun hal_events :: "hal_event list \<Rightarrow> hal_dev \<Rightarrow> ('f, 'b, 'w) sched \<Rightarrow> (hal_dev \<times> ('f, 'b, 'w) sched) option" where
  "hal_events [] d s = Some (d, s)"
| "hal_events (Interrupt num # evs) d s = hal_events evs (hal_callback num d) s"
| "hal_events (Poll # evs) d s = (case hal_poll d s of None \<Rightarrow> None | Some (_, d', s') \<Rightarrow> hal_events evs d' s')"

lemma hal_events_nobody: "hd_blocked d = - 1 \<Longrightarrow> \<exists>d'. hal_events evs d s = Some (d', s) \<and> hd_blocked d' = - 1"
proof (induction evs d s rule: hal_events.induct)
  case (2 num evs d s)
  then show ?case by (simp add: hal_callback_def)
next
  case (3 evs d s)
  have "hal_poll d s = Some (RET_SUCCESS, d\<lparr>hd_isr_flag := 0\<rparr>, s)"
  proof (cases "hd_isr_flag d = 0")
    case True
    then have "d\<lparr>hd_isr_flag := 0\<rparr> = d" by (cases d) simp
    then show ?thesis using True by (simp only: hal_poll_def) simp
  qed (use 3(2) in \<open>simp add: hal_poll_def\<close>)
  with 3 show ?case by simp
qed simp

text \<open>
  The second part of \<open>transmitReceive\<close>: the poll that ended the first part left no task to wake, and none is
  entered again.  The task starts to receive and blocks, and no sequence of interrupts and polls makes it
  ready.  With a timeout it wakes by itself, and the call returns success although there was no interrupt.
\<close>
theorem i2c_transmit_receive_stuck:
  assumes at: "hal_at FnTransmitReceive t HpBlock d" and nobody: "hd_blocked d = - 1" and s: "running t s"
    and hal: "hal (HalMasterReceive (if second \<noteq> 0 then ucast second else dev_addr addr) buff out_len) h = (True, h1)"
  shows "\<exists>addr1 d1 s1. i2c_transmit_receive hal addr buff in_len out_len 0 second d s h = Some (addr1, RET_BLOCKED, d1, s1, h1) \<and>
      t_state (tasks s1 t) = STATE_BLOCKED \<and> t \<notin> set (ready_tasks s1) \<and> (\<forall>evs. \<exists>d2. hal_events evs d1 s1 = Some (d2, s1))"
    and "hal_busy FnTransmitReceive t HpSleep2 [] e \<Longrightarrow> hd_blocked e = - 1 \<Longrightarrow>
      \<exists>e1. i2c_transmit_receive hal addr buff in_len out_len timeout second e s h = Some (addr, RET_SUCCESS, e1, s, h)"
proof -
  obtain d0 where d0: "hal_resume FnTransmitReceive (int t) d = (HpBlock, d0)"
    using hal_at_resume [OF at] by blast
  note fr = hal_resume_frame [OF d0]
  have tid: "sched_dispatched s = int t" and lt: "t < MAX_NUM_TASKS"
    using s by (simp_all add: running_def)
  obtain s1 where s1: "sched_block t s = Some s1" "t_state (tasks s1 t) = STATE_BLOCKED" "t \<notin> set (ready_tasks s1)"
    using sched_block_ok [of s t] s by (auto simp: running_def)
  let ?a = "i2c_second_addr second addr" and
    ?d = "d0\<lparr>hd_labels := (hd_labels d0)(FnTransmitReceive := set_label (int t) HpBlock2 (hd_labels d0 FnTransmitReceive))\<rparr>"
  have "i2c_transmit_receive hal addr buff in_len out_len 0 second d s h = Some (?a, RET_BLOCKED, ?d, s1, h1)"
    using d0 tid hal s1(1) lt
    by (simp add: i2c_transmit_receive_def i2c_second_addr_def Let_def hal_start_def hal_wait_def mac_block_def split: if_splits)
  moreover have "hd_blocked ?d = - 1"
    using fr nobody by simp
  ultimately show "\<exists>addr1 d1 s1. i2c_transmit_receive hal addr buff in_len out_len 0 second d s h = Some (addr1, RET_BLOCKED, d1, s1, h1) \<and>
      t_state (tasks s1 t) = STATE_BLOCKED \<and> t \<notin> set (ready_tasks s1) \<and> (\<forall>evs. \<exists>d2. hal_events evs d1 s1 = Some (d2, s1))"
    using s1(2,3) hal_events_nobody by blast
  assume e: "hal_busy FnTransmitReceive t HpSleep2 [] e" "hd_blocked e = - 1"
  obtain e0 where e0: "hal_resume FnTransmitReceive (int t) e = (HpSleep2, e0)"
    using hal_at_resume [of FnTransmitReceive t HpSleep2 e] e(1) by (auto simp: hal_busy_def)
  have "hd_blocked e0 = - 1" "bs_ok (hd_lock e0)" "bs_waiters (hd_lock e0) = []"
    using e hal_resume_frame [OF e0] by (simp_all add: hal_busy_def)
  then show "\<exists>e1. i2c_transmit_receive hal addr buff in_len out_len timeout second e s h = Some (addr, RET_SUCCESS, e1, s, h)"
    using e0 tid hal_finish_free [of e0 FnTransmitReceive False s h] by (simp add: i2c_transmit_receive_def hal_return_def)
qed

theorem i2c_transmit_receive_stuck_witness:
  "\<exists>d addr1 d1 s1. i2c_transmit_receive ex_hal_log \<lparr>dev_addr = 0x76, mem_addr = 0, mem_addr_size = 0\<rparr> 5 1 3 0 0 d ex_sched [] =
     Some (addr1, RET_BLOCKED, d1, s1, [HalMasterReceive 0x76 5 3]) \<and> 0 \<notin> set (ready_tasks s1)"
proof -
  let ?d = "hal_label FnTransmitReceive 0 HpBlock (ex_hal\<lparr>hd_labels := \<lambda>fn. \<lparr>lb_init = True, lb_current = (\<lambda>i. HpStart)\<rparr>\<rparr>)"
  have "hal_at FnTransmitReceive 0 HpBlock ?d"
    by (rule hal_at_label [of _ _ _ _ "\<lparr>lb_init = True, lb_current = (\<lambda>i. HpStart)\<rparr>"]) simp_all
  moreover have "hd_blocked ?d = - 1"
    using ex_hal_idle(1) by (simp add: hal_idle_def)
  ultimately show ?thesis
    using i2c_transmit_receive_stuck(1) [OF _ _ ex_running, of ?d ex_hal_log 0 "\<lparr>dev_addr = 0x76, mem_addr = 0, mem_addr_size = 0\<rparr>" 5 3 "[]"
        "[HalMasterReceive 0x76 5 3]" 1] by auto
qed

end
