(* ===== verification/UartModel.thy ===== *)
theory UartModel
  imports HalModel RingBufferModel
begin

text \<open>
  The UART on STM32 (src/device/platforms/stm32/HAL_UARTDevice.h): a stream with a ring buffer for received
  bytes.  The parameter \<open>hal\<close> and the way in which functions are modelled are those of \<open>HalModel\<close>.  A byte is
  received into the member \<open>m_byte\<close> before the interrupt, so it is an argument of the callback.
\<close>

section \<open>State\<close>

datatype uart_place = UpStart | UpAcquire | UpBlock | UpWait | UpYield

record uart =
  ua_buff :: ringbuffer
  ua_lock :: bsem
  ua_blocked :: int
  ua_waiting :: size_t
  ua_byte :: u8
  ua_isr_flag :: u8
  ua_lock_labels :: "bsem_place labels"
  ua_write_labels :: "uart_place labels"
  ua_read_labels :: "uart_place labels"
  ua_wait_labels :: "uart_place labels"

definition uart_new :: "u8 list \<Rightarrow> int aqueue \<Rightarrow> u8 \<Rightarrow> bsem_place labels \<Rightarrow> uart_place labels \<Rightarrow> uart" where
  "uart_new storage q byte lock_labels l =
     \<lparr>ua_buff = rb_init storage 256 True, ua_lock = bsem_init q 1, ua_blocked = - 1, ua_waiting = 0, ua_byte = byte, ua_isr_flag = 0,
      ua_lock_labels = lock_labels, ua_write_labels = l, ua_read_labels = l, ua_wait_labels = l\<rparr>"

definition uart_init ::
  "'h hal \<Rightarrow> ('k \<Rightarrow> size_t) \<Rightarrow> 'k \<Rightarrow> nat \<Rightarrow> 'k handlers \<Rightarrow> 'h \<Rightarrow> ret_type \<times> 'k handlers \<times> 'h" where
  "uart_init hal hash huart this g h =
     (let (ret, g1) = register_uart_tx hash huart this TX_NUM g
      in if ret \<noteq> RET_SUCCESS then (ret, g1, h)
         else (let (ret, g2) = register_uart_rx hash huart this RX_NUM g1
               in if ret \<noteq> RET_SUCCESS then (ret, g2, h)
                  else (case hal HalUartReceive h of (ok, h1) \<Rightarrow> (if ok then RET_SUCCESS else RET_ERROR, g2, h1))))"

section \<open>Interrupts\<close>

text \<open>
  A task is woken only where no task is blocked: \<open>WAKE(-1)\<close> is an access in front of the array of tasks, which
  is \<open>None\<close>.
\<close>

definition uart_callback ::
  "'h hal \<Rightarrow> int \<Rightarrow> u8 \<Rightarrow> uart \<Rightarrow> 'h \<Rightarrow> (uart \<times> 'h) option" where
  "uart_callback hal num byte d h =
     (if num = TX_NUM then Some (d\<lparr>ua_isr_flag := 1\<rparr>, h)
      else
        (let d1 = d\<lparr>ua_byte := byte, ua_buff := snd (rb_push [byte] 1 (ua_buff d))\<rparr>
         in if ua_blocked d1 = - 1 \<and> rb_count (ua_buff d1) \<ge> ua_waiting d1 then None
            else Some (d1, snd (hal HalUartReceive h))))"

definition uart_poll :: "uart \<Rightarrow> ('f, 'b, 'w) sched \<Rightarrow> (ret_type \<times> uart \<times> ('f, 'b, 'w) sched) option" where
  "uart_poll d s =
     (if ua_isr_flag d \<noteq> 0 then
        (let d1 = d\<lparr>ua_isr_flag := 0\<rparr>
         in if ua_blocked d1 \<noteq> - 1
            then map_option (\<lambda>s'. (RET_SUCCESS, d1\<lparr>ua_blocked := - 1\<rparr>, s')) (mac_wake (ua_blocked d1) s)
            else Some (RET_SUCCESS, d1, s))
      else Some (RET_SUCCESS, d, s))"

section \<open>Writing\<close>

definition uart_release :: "uart \<Rightarrow> ('f, 'b, 'w) sched \<Rightarrow> (ret_type \<times> uart \<times> ('f, 'b, 'w) sched) option" where
  "uart_release d s = map_option (\<lambda>(ret, b, s'). (ret, d\<lparr>ua_lock := b\<rparr>, s')) (bsem_release (ua_lock d) s)"

definition uart_acquire :: "uart \<Rightarrow> ('f, 'b, 'w) sched \<Rightarrow> (ret_type \<times> uart \<times> ('f, 'b, 'w) sched) option" where
  "uart_acquire d s =
     map_option (\<lambda>(ret, b, s', l). (ret, d\<lparr>ua_lock := b, ua_lock_labels := l\<rparr>, s')) (bsem_acquire (ua_lock d) s (ua_lock_labels d))"

type_synonym ('f, 'b, 'w, 'h) uart_step =
  "uart \<Rightarrow> ('f, 'b, 'w) sched \<Rightarrow> 'h \<Rightarrow> (ret_type \<times> uart \<times> ('f, 'b, 'w) sched \<times> 'h) option"

abbreviation write_label :: "int \<Rightarrow> uart_place \<Rightarrow> uart \<Rightarrow> uart" where
  "write_label tid p d \<equiv> d\<lparr>ua_write_labels := set_label tid p (ua_write_labels d)\<rparr>"

definition uart_give_up :: "ret_type \<Rightarrow> ('f, 'b, 'w, 'h) uart_step" where
  "uart_give_up code d s h =
     map_option (\<lambda>(_, d1, s1). (code, write_label (sched_dispatched s1) UpStart d1, s1, h)) (uart_release (d\<lparr>ua_blocked := - 1\<rparr>) s)"

definition uart_write_start :: "'h hal \<Rightarrow> buf \<Rightarrow> size_t \<Rightarrow> ('f, 'b, 'w, 'h) uart_step" where
  "uart_write_start hal buff len d s h =
     (let d1 = d\<lparr>ua_blocked := sched_dispatched s\<rparr>
      in case hal (HalUartTransmit buff len) h of
           (ok, h1) \<Rightarrow>
             if \<not> ok then uart_give_up RET_ERROR d1 s h1
             else map_option (\<lambda>(ret, s1, l). (ret, d1\<lparr>ua_write_labels := l\<rparr>, s1, h1)) (mac_block UpBlock s (ua_write_labels d1)))"

definition uart_write_end :: "('f, 'b, 'w, 'h) uart_step" where
  "uart_write_end d s h =
     (case uart_release (d\<lparr>ua_blocked := - 1\<rparr>) s of
        None \<Rightarrow> None
      | Some (ret, d1, s1) \<Rightarrow>
          if ret \<noteq> RET_SUCCESS then uart_give_up ret d1 s1 h
          else Some (RET_SUCCESS, write_label (sched_dispatched s1) UpStart d1, s1, h))"

definition uart_write :: "'h hal \<Rightarrow> buf \<Rightarrow> size_t \<Rightarrow> ('f, 'b, 'w, 'h) uart_step" where
  "uart_write hal buff len d s h =
     (case mac_resume UpStart (sched_dispatched s) (ua_write_labels d) of
        (place, l) \<Rightarrow>
          (let d1 = d\<lparr>ua_write_labels := l\<rparr>
           in if place = UpBlock then uart_write_end d1 s h
              else
                (case uart_acquire (write_label (sched_dispatched s) UpAcquire d1) s of
                   None \<Rightarrow> None
                 | Some (ret, d2, s2) \<Rightarrow>
                     if call_waits ret then Some (ret, d2, s2, h)
                     else if ret \<noteq> RET_SUCCESS then Some (ret, write_label (sched_dispatched s2) UpStart d2, s2, h)
                     else uart_write_start hal buff len d2 s2 h)))"

section \<open>Reading\<close>

definition uart_available :: "uart \<Rightarrow> size_t" where
  "uart_available d = rb_count (ua_buff d)"

text \<open>The task blocks itself in any case, and wakes itself where there are enough bytes already.\<close>

definition uart_wait :: "size_t \<Rightarrow> uart \<Rightarrow> ('f, 'b, 'w) sched \<Rightarrow> (ret_type \<times> uart \<times> ('f, 'b, 'w) sched) option" where
  "uart_wait len d s =
     (let tid = sched_dispatched s; (place, l) = mac_resume UpStart tid (ua_wait_labels d); d1 = d\<lparr>ua_wait_labels := l\<rparr>;
          back = (\<lambda>s'. (RET_SUCCESS, d1\<lparr>ua_wait_labels := mac_reset UpStart tid l\<rparr>, s'))
      in if place = UpYield then Some (back s)
         else
           (let d2 = d1\<lparr>ua_waiting := len, ua_blocked := tid\<rparr>
            in case Option.bind (task_index tid) (\<lambda>t. sched_block t s) of
                 None \<Rightarrow> None
               | Some s1 \<Rightarrow>
                   if rb_count (ua_buff d2) \<ge> len
                   then map_option (\<lambda>s2. (RET_SUCCESS, d2\<lparr>ua_wait_labels := mac_reset UpStart tid l\<rparr>, s2)) (mac_wake tid s1)
                   else (case mac_yield UpYield tid l of (ret, l') \<Rightarrow> Some (ret, d2\<lparr>ua_wait_labels := l'\<rparr>, s1))))"

text \<open>The second component is what was copied into the buffer of the caller.\<close>

type_synonym ('f, 'b, 'w) uart_reader =
  "uart \<Rightarrow> ('f, 'b, 'w) sched \<Rightarrow> (ret_type \<times> u8 list \<times> uart \<times> ('f, 'b, 'w) sched) option"

abbreviation read_label :: "int \<Rightarrow> uart_place \<Rightarrow> uart \<Rightarrow> uart" where
  "read_label tid p d \<equiv> d\<lparr>ua_read_labels := set_label tid p (ua_read_labels d)\<rparr>"

text \<open>The part from the call of \<open>wait\<close> on; the result of \<open>release\<close> takes the place of the one so far.\<close>

definition uart_read_on :: "size_t \<Rightarrow> ('f, 'b, 'w) uart_reader" where
  "uart_read_on len d s =
     (case uart_wait len (read_label (sched_dispatched s) UpWait d) s of
        None \<Rightarrow> None
      | Some (ret, d1, s1) \<Rightarrow>
          if call_waits ret then Some (ret, [], d1, s1)
          else
            (let (xs, b) = (if ret = RET_SUCCESS then rb_pop len (ua_buff d1) else ([], ua_buff d1))
             in map_option (\<lambda>(ret, d2, s2). (ret, xs, read_label (sched_dispatched s2) UpStart d2, s2))
                  (uart_release (d1\<lparr>ua_buff := b\<rparr>) s1)))"

definition uart_read :: "size_t \<Rightarrow> ('f, 'b, 'w) uart_reader" where
  "uart_read len d s =
     (case mac_resume UpStart (sched_dispatched s) (ua_read_labels d) of
        (place, l) \<Rightarrow>
          (let d1 = d\<lparr>ua_read_labels := l\<rparr>
           in if place = UpWait then uart_read_on len d1 s
              else
                (case uart_acquire (read_label (sched_dispatched s) UpAcquire d1) s of
                   None \<Rightarrow> None
                 | Some (ret, d2, s2) \<Rightarrow>
                     if call_waits ret then Some (ret, [], d2, s2)
                     else if ret \<noteq> RET_SUCCESS then Some (ret, [], read_label (sched_dispatched s2) UpStart d2, s2)
                     else uart_read_on len d2 s2)))"

section \<open>Locking\<close>

definition uart_free :: "uart \<Rightarrow> bool" where
  "uart_free d \<longleftrightarrow> bs_ok (ua_lock d) \<and> bs_count (ua_lock d) = 1 \<and> bs_waiters (ua_lock d) = []"

definition uart_taken :: "uart \<Rightarrow> bool" where
  "uart_taken d \<longleftrightarrow> bs_ok (ua_lock d) \<and> bs_count (ua_lock d) = 0 \<and> bs_waiters (ua_lock d) = []"

lemma uart_acquire_free:
  assumes "uart_free d"
  shows "\<exists>l. uart_acquire d s = Some (RET_SUCCESS, d\<lparr>ua_lock := (ua_lock d)\<lparr>bs_count := 0\<rparr>, ua_lock_labels := l\<rparr>, s)"
    and "uart_taken (d\<lparr>ua_lock := (ua_lock d)\<lparr>bs_count := 0\<rparr>, ua_lock_labels := l\<rparr>)"
  using bsem_acquire_free [of "ua_lock d" s "ua_lock_labels d"] assms
  by (auto simp: uart_acquire_def uart_free_def uart_taken_def bs_ok_def bs_waiters_def)

lemma uart_release_taken:
  assumes "uart_taken d"
  shows "uart_release d s = Some (RET_SUCCESS, d\<lparr>ua_lock := (ua_lock d)\<lparr>bs_count := 1\<rparr>\<rparr>, s)"
    and "uart_free (d\<lparr>ua_lock := (ua_lock d)\<lparr>bs_count := 1\<rparr>\<rparr>)"
  using bsem_release_empty [of "ua_lock d" s] assms
  by (simp_all add: uart_release_def uart_free_def uart_taken_def bs_ok_def bs_waiters_def)

text \<open>A task that is at the start of a function, seen from the labels of the function.\<close>

abbreviation at_start :: "nat \<Rightarrow> uart_place labels \<Rightarrow> bool" where
  "at_start t l \<equiv> fst (mac_resume UpStart (int t) l) = UpStart"

lemma at_startE: "at_start t l \<Longrightarrow> (\<And>l'. mac_resume UpStart (int t) l = (UpStart, l') \<Longrightarrow> lb_init l' \<Longrightarrow> P) \<Longrightarrow> P"
  using resume_init [of UpStart "int t" l] by (cases "mac_resume UpStart (int t) l") simp

lemma sched_block_dispatched: "sched_block t s = Some s' \<Longrightarrow> sched_dispatched s' = sched_dispatched s"
  by (auto simp: sched_block_def upd_task_def Let_def split: if_splits option.splits prod.splits)

lemma uart_write_resumed:
  assumes "mac_resume UpStart tid (ua_write_labels d) = (UpBlock, ua_write_labels d)" and "ua_blocked d = - 1" and "uart_taken d"
    and "sched_dispatched s = tid"
  shows "uart_write hal buff len d s h =
    Some (RET_SUCCESS, write_label tid UpStart (d\<lparr>ua_lock := (ua_lock d)\<lparr>bs_count := 1\<rparr>\<rparr>), s, h)"
proof -
  have same: "d\<lparr>ua_blocked := - 1\<rparr> = d"
    using assms(2) by (cases d) simp
  show ?thesis
    using assms(1,4) uart_release_taken(1) [OF assms(3), of s] by (simp add: uart_write_def uart_write_end_def same)
qed

section \<open>Properties\<close>

text \<open>Bytes that are received, and polls.\<close>

datatype uart_event = Received u8 | Polled

fun uart_events ::
  "'h hal \<Rightarrow> uart_event list \<Rightarrow> uart \<Rightarrow> ('f, 'b, 'w) sched \<Rightarrow> 'h \<Rightarrow> (uart \<times> ('f, 'b, 'w) sched \<times> 'h) option" where
  "uart_events hal [] d s h = Some (d, s, h)"
| "uart_events hal (Received byte # evs) d s h =
     (case uart_callback hal RX_NUM byte d h of None \<Rightarrow> None | Some (d', h') \<Rightarrow> uart_events hal evs d' s h')"
| "uart_events hal (Polled # evs) d s h =
     (case uart_poll d s of None \<Rightarrow> None | Some (_, d', s') \<Rightarrow> uart_events hal evs d' s' h)"

lemma uart_events_waiting:
  "ua_blocked d = int t \<Longrightarrow> ua_isr_flag d = 0 \<Longrightarrow> \<exists>d' h'. uart_events hal evs d s h = Some (d', s, h')"
  by (induction hal evs d s h rule: uart_events.induct) (auto simp: uart_callback_def uart_poll_def Let_def TX_NUM_def RX_NUM_def)

text \<open>C25: 
  A task that waits to read more bytes than have been received: it blocks, and however many bytes are
  received and however often the device is polled, no task becomes ready; the callback wakes a task only
  when none is blocked.
\<close>
theorem uart_reader_never_woken:
  assumes d: "uart_free d" "ua_isr_flag d = 0" "rb_count (ua_buff d) < len"
    and at: "at_start t (ua_read_labels d)" "at_start t (ua_wait_labels d)" and s: "running t s"
  shows "\<exists>d1 s1. uart_read len d s = Some (RET_YIELD, [], d1, s1) \<and> t_state (tasks s1 t) = STATE_BLOCKED \<and>
    t \<notin> set (ready_tasks s1) \<and> (\<forall>evs h. \<exists>d2 h2. uart_events hal evs d1 s1 h = Some (d2, s1, h2))"
proof -
  have tid: "sched_dispatched s = int t" and lt: "t < MAX_NUM_TASKS"
    using s by (simp_all add: running_def)
  obtain l where l: "mac_resume UpStart (int t) (ua_read_labels d) = (UpStart, l)"
    by (rule at_startE [OF at(1)])
  obtain w where w: "mac_resume UpStart (int t) (ua_wait_labels d) = (UpStart, w)"
    by (rule at_startE [OF at(2)])
  let ?d = "read_label (int t) UpAcquire (d\<lparr>ua_read_labels := l\<rparr>)"
  have "uart_free ?d"
    using d(1) by (simp add: uart_free_def)
  from uart_acquire_free(1) [OF this, of s] obtain k where
    k: "uart_acquire ?d s = Some (RET_SUCCESS, ?d\<lparr>ua_lock := (ua_lock ?d)\<lparr>bs_count := 0\<rparr>, ua_lock_labels := k\<rparr>, s)" ..
  obtain s1 where s1: "sched_block t s = Some s1" "t_state (tasks s1 t) = STATE_BLOCKED" "t \<notin> set (ready_tasks s1)"
    using sched_block_ok [of s t] s by (auto simp: running_def)
  let ?d1 = "(read_label (int t) UpWait (?d\<lparr>ua_lock := (ua_lock ?d)\<lparr>bs_count := 0\<rparr>, ua_lock_labels := k\<rparr>))
    \<lparr>ua_waiting := len, ua_blocked := int t, ua_wait_labels := set_label (int t) UpYield w\<rparr>"
  have "\<not> len \<le> rb_count (ua_buff d)"
    using d(3) by simp
  then have "uart_read len d s = Some (RET_YIELD, [], ?d1, s1)"
    using tid lt l k w s1(1)
    by (simp add: uart_read_def uart_read_on_def uart_wait_def mac_yield_def Let_def call_waits_def)
  moreover have "\<exists>d2 h2. uart_events hal evs ?d1 s1 h = Some (d2, s1, h2)" for evs h
    by (rule uart_events_waiting [of _ t]) (use d(2) in simp_all)
  ultimately show ?thesis
    using s1(2,3) by blast
qed

text \<open>Where nobody has read yet, every byte that is received makes the callback wake the task -1.\<close>

lemma uart_idle_byte_undefined: "ua_blocked d = - 1 \<Longrightarrow> ua_waiting d = 0 \<Longrightarrow> uart_callback hal RX_NUM byte d h = None"
  by (simp add: uart_callback_def RX_NUM_def TX_NUM_def)

text \<open>
  A read that finds enough bytes returns the oldest ones and keeps the rest, and the device is free again; but
  the task, which is still running, is on the ready queue, and remains the one the device takes to be blocked.
\<close>
theorem uart_read_buffered:
  assumes d: "uart_free d" "rb_inv (ua_buff d)" "len \<noteq> 0" "len \<le> rb_count (ua_buff d)"
    and at: "at_start t (ua_read_labels d)" "at_start t (ua_wait_labels d)" and s: "running t s"
  shows "\<exists>d1 s1. uart_read len d s = Some (RET_SUCCESS, take (unat len) (rb_content (ua_buff d)), d1, s1) \<and>
    rb_content (ua_buff d1) = drop (unat len) (rb_content (ua_buff d)) \<and> uart_free d1 \<and> t \<in> set (ready_tasks s1) \<and> ua_blocked d1 = int t"
proof -
  have tid: "sched_dispatched s = int t" and lt: "t < MAX_NUM_TASKS"
    using s by (simp_all add: running_def)
  obtain l where l: "mac_resume UpStart (int t) (ua_read_labels d) = (UpStart, l)"
    by (rule at_startE [OF at(1)])
  obtain w where w: "mac_resume UpStart (int t) (ua_wait_labels d) = (UpStart, w)"
    by (rule at_startE [OF at(2)])
  let ?d = "read_label (int t) UpAcquire (d\<lparr>ua_read_labels := l\<rparr>)"
  have "uart_free ?d"
    using d(1) by (simp add: uart_free_def)
  from uart_acquire_free(1) [OF this, of s] obtain k where
    k: "uart_acquire ?d s = Some (RET_SUCCESS, ?d\<lparr>ua_lock := (ua_lock ?d)\<lparr>bs_count := 0\<rparr>, ua_lock_labels := k\<rparr>, s)" ..
  obtain s1 where s1: "sched_block t s = Some s1" "sched_ok s1" "t_state (tasks s1 t) = STATE_BLOCKED"
    using sched_block_ok [of s t] s by (auto simp: running_def)
  obtain s2 where s2: "sched_wake t s1 = Some s2" "ready_tasks s2 = ready_tasks s1 @ [t]"
    using sched_wake_ok [OF s1(2) lt] s1(3) by blast
  let ?d1 = "(read_label (int t) UpWait (?d\<lparr>ua_lock := (ua_lock ?d)\<lparr>bs_count := 0\<rparr>, ua_lock_labels := k\<rparr>))
    \<lparr>ua_waiting := len, ua_blocked := int t, ua_wait_labels := mac_reset UpStart (int t) w\<rparr>"
  obtain xs b where p: "rb_pop len (ua_buff d) = (xs, b)"
    by fastforce
  have "rb_content (ua_buff d) \<noteq> []"
    using d(4) unat_gt_0 [of len] d(3) by (auto simp: rb_content_def rb_count_def word_le_nat_alt)
  note c = rb_pop_content [OF d(2) this p]
  have taken: "uart_taken (?d1\<lparr>ua_buff := b\<rparr>)"
    using d(1) by (simp add: uart_taken_def uart_free_def bs_ok_def bs_waiters_def)
  have "sched_dispatched s2 = int t"
    using sched_wake_dispatched [OF s2(1)] sched_block_dispatched [OF s1(1)] tid by simp
  then have "uart_read len d s = Some (RET_SUCCESS, xs, read_label (int t) UpStart (?d1\<lparr>ua_buff := b, ua_lock := (ua_lock ?d1)\<lparr>bs_count := 1\<rparr>\<rparr>), s2)"
    using tid lt l k w s1(1) s2(1) d(4) p uart_release_taken(1) [OF taken, of s2]
    by (simp add: uart_read_def uart_read_on_def uart_wait_def mac_wake_def Let_def call_waits_def)
  moreover have "uart_free (read_label (int t) UpStart (?d1\<lparr>ua_buff := b, ua_lock := (ua_lock ?d1)\<lparr>bs_count := 1\<rparr>\<rparr>))"
    using uart_release_taken(2) [OF taken] by (simp add: uart_free_def)
  ultimately show ?thesis
    using c s2(2) by (intro exI conjI) (assumption | simp)+
qed

text \<open>Writing: the task is blocked until the first poll after the interrupt, then the write returns success.\<close>
theorem uart_write_cycle:
  assumes d: "uart_free d" "ua_isr_flag d = 0" and at: "at_start t (ua_write_labels d)" and s: "running t s"
    and hal: "hal (HalUartTransmit buff len) h = (True, h1)"
  shows "\<exists>d1 s1 d2 s2 d3. uart_write hal buff len d s h = Some (RET_BLOCKED, d1, s1, h1) \<and> t \<notin> set (ready_tasks s1) \<and>
    uart_poll d1 s1 = Some (RET_SUCCESS, d1, s1) \<and>
    (case uart_callback hal TX_NUM byte d1 h1 of None \<Rightarrow> None | Some (d', _) \<Rightarrow> uart_poll d' s1) = Some (RET_SUCCESS, d2, s2) \<and>
    ready_tasks s2 = ready_tasks s1 @ [t] \<and>
    uart_write hal buff len d2 (s2\<lparr>sched_dispatched := int t\<rparr>) h2 = Some (RET_SUCCESS, d3, s2\<lparr>sched_dispatched := int t\<rparr>, h2) \<and>
    uart_free d3 \<and> ua_blocked d3 = - 1"
proof -
  have tid: "sched_dispatched s = int t" and lt: "t < MAX_NUM_TASKS"
    using s by (simp_all add: running_def)
  obtain l where l: "mac_resume UpStart (int t) (ua_write_labels d) = (UpStart, l)" "lb_init l"
    by (rule at_startE [OF at])
  let ?d = "write_label (int t) UpAcquire (d\<lparr>ua_write_labels := l\<rparr>)"
  have "uart_free ?d"
    using d(1) by (simp add: uart_free_def)
  from uart_acquire_free(1) [OF this, of s] obtain k where
    k: "uart_acquire ?d s = Some (RET_SUCCESS, ?d\<lparr>ua_lock := (ua_lock ?d)\<lparr>bs_count := 0\<rparr>, ua_lock_labels := k\<rparr>, s)" ..
  obtain s1 where s1: "sched_block t s = Some s1" "sched_ok s1" "t_state (tasks s1 t) = STATE_BLOCKED" "t \<notin> set (ready_tasks s1)"
    using sched_block_ok [of s t] s by (auto simp: running_def)
  obtain s2 where s2: "sched_wake t s1 = Some s2" "ready_tasks s2 = ready_tasks s1 @ [t]"
    using sched_wake_ok [OF s1(2) lt] s1(3) by blast
  let ?l = "set_label (int t) UpBlock (set_label (int t) UpAcquire l)"
  let ?d1 = "?d\<lparr>ua_lock := (ua_lock ?d)\<lparr>bs_count := 0\<rparr>, ua_lock_labels := k, ua_blocked := int t, ua_write_labels := ?l\<rparr>"
  have 1: "uart_write hal buff len d s h = Some (RET_BLOCKED, ?d1, s1, h1)"
    using tid lt l(1) k s1(1) hal by (simp add: uart_write_def uart_write_start_def Let_def call_waits_def mac_block_def)
  let ?d2 = "?d1\<lparr>ua_isr_flag := 0, ua_blocked := - 1\<rparr>"
  have p: "uart_poll ?d1 s1 = Some (RET_SUCCESS, ?d1, s1)"
      "(case uart_callback hal TX_NUM byte ?d1 h1 of None \<Rightarrow> None | Some (d', _) \<Rightarrow> uart_poll d' s1) = Some (RET_SUCCESS, ?d2, s2)"
    using d(2) s2(1) lt by (simp_all add: uart_poll_def uart_callback_def mac_wake_def)
  have taken: "uart_taken ?d2"
    using d(1) by (simp add: uart_taken_def uart_free_def bs_ok_def bs_waiters_def)
  let ?s = "s2\<lparr>sched_dispatched := int t\<rparr>"
  let ?d3 = "write_label (int t) UpStart (?d2\<lparr>ua_lock := (ua_lock ?d2)\<lparr>bs_count := 1\<rparr>\<rparr>)"
  have "mac_resume UpStart (int t) ?l = (UpBlock, ?l)"
    by (rule resume_after_set) (use l(2) in simp)
  then have "uart_write hal buff len ?d2 ?s h2 = Some (RET_SUCCESS, ?d3, ?s, h2)"
    by (intro uart_write_resumed [OF _ _ taken]) simp_all
  moreover have "uart_free ?d3" "ua_blocked ?d3 = - 1"
    using uart_release_taken(2) [OF taken] by (simp_all add: uart_free_def)
  ultimately show ?thesis
    using 1 p s1(4) s2(2) by blast
qed

section \<open>A new device\<close>

definition ex_uart :: uart where
  "ex_uart = uart_new (replicate 256 0) (boot_aqueue 0 MAX_NUM_TASKS) 0 ex_labels \<lparr>lb_init = False, lb_current = (\<lambda>i. UpStart)\<rparr>"

lemma ex_uart_free:
  "uart_free ex_uart" "ua_isr_flag ex_uart = 0" "at_start t (ua_write_labels ex_uart)" "at_start t (ua_read_labels ex_uart)"
  "at_start t (ua_wait_labels ex_uart)" "ua_buff ex_uart = rb_init (replicate 256 0) 256 True"
  by (simp_all add: ex_uart_def uart_new_def uart_free_def boot_bsem mac_resume_def)

theorem uart_write_cycle_witness:
  "\<exists>d1 s1. uart_write ex_hal_log 7 2 ex_uart ex_sched [] = Some (RET_BLOCKED, d1, s1, [HalUartTransmit 7 2]) \<and> 0 \<notin> set (ready_tasks s1)"
  using uart_write_cycle [OF ex_uart_free(1-3) ex_running, of ex_hal_log 7 2 "[]" "[HalUartTransmit 7 2]" 0 "[]"] by auto

theorem uart_reader_never_woken_witness:
  "\<exists>d1 s1 d2 h2. uart_read 2 ex_uart ex_sched = Some (RET_YIELD, [], d1, s1) \<and>
     uart_events ex_hal_log [Received 1, Received 2, Polled] d1 s1 [] = Some (d2, s1, h2) \<and> 0 \<notin> set (ready_tasks s1)"
proof -
  have "rb_count (ua_buff ex_uart) < 2"
    by (simp add: ex_uart_free(6) rb_count_def rb_init_def)
  from uart_reader_never_woken [OF ex_uart_free(1,2) this ex_uart_free(4,5) ex_running, of ex_hal_log] show ?thesis
    by blast
qed

theorem uart_read_buffered_witness:
  "\<exists>d1 s1. uart_read 2 (ex_uart\<lparr>ua_buff := snd (rb_push [7, 8, 9] 3 (rb_init (replicate 256 0) 256 True))\<rparr>) ex_sched =
     Some (RET_SUCCESS, [7, 8], d1, s1) \<and> 0 \<in> set (ready_tasks s1)"
proof -
  let ?b = "rb_init (replicate 256 0) 256 True" and ?p = "rb_push [7, 8, 9] 3 (rb_init (replicate 256 0) 256 True)"
  have b: "rb_inv ?b" "rb_content ?b = []"
    by (rule rb_init_inv) (simp_all add: rb_content_def rb_init_def)
  have p: "rb_inv (snd ?p)" "rb_content (snd ?p) = [7, 8, 9]"
    using rb_push_content(1-3) [OF b(1), of 3 "[7, 8, 9]" "fst ?p" "snd ?p"] b(2) by (simp_all add: rb_init_def)
  let ?d = "ex_uart\<lparr>ua_buff := snd ?p\<rparr>"
  have "unat (rb_len (snd ?p)) = 3"
    using p(2) rb_content_length [of "snd ?p"] by simp
  then have "2 \<le> rb_count (ua_buff ?d)"
    by (simp add: rb_count_def word_le_nat_alt)
  moreover have "uart_free ?d" "at_start 0 (ua_read_labels ?d)" "at_start 0 (ua_wait_labels ?d)"
    using ex_uart_free(1) ex_uart_free(4,5) [of 0] by (simp_all add: uart_free_def)
  ultimately show ?thesis
    using uart_read_buffered [of ?d 2 0 ex_sched] p ex_running by auto
qed

end
