(* ===== verification/PlatformModel.thy ===== *)
theory PlatformModel
  imports UartModel
begin

text \<open>
  The small platform classes of src/device/platforms: the console and the debug stream of Linux
  (linux/ConsoleDevice.h, linux/DebugDevice.h), and the pins of Linux, the STM32 and the ESP32
  (linux/LinuxGPIODevice.h, stm32/HAL_GPIODevice.h, esp32/ESP_GPIODevice.h).  The calls of the operating
  system and of the vendors are parameters.  A function is one activation, up to its return.
\<close>

section \<open>The console\<close>

datatype console_place = CoStart | CoWait | CoBlock

record console =
  co_rxBuff :: ringbuffer
  co_lock :: bool
  co_blockTid :: int
  co_blockLen :: size_t
  co_read_labels :: "console_place labels"
  co_wait_labels :: "console_place labels"

definition console_new :: "u8 list \<Rightarrow> console_place labels \<Rightarrow> console" where
  "console_new storage l =
     \<lparr>co_rxBuff = rb_init storage 256 True, co_lock = False, co_blockTid = - 1, co_blockLen = 0,
      co_read_labels = l, co_wait_labels = l\<rparr>"

definition console_init :: ret_type where
  "console_init = RET_SUCCESS"

definition console_obtain :: "console \<Rightarrow> ret_type \<times> console" where
  "console_obtain d = (if co_lock d then (RET_ERROR, d) else (RET_SUCCESS, d\<lparr>co_lock := True\<rparr>))"

definition console_release :: "console \<Rightarrow> ret_type \<times> console" where
  "console_release d = (RET_SUCCESS, d\<lparr>co_lock := False\<rparr>)"

text \<open>The character that \<open>select\<close> announces and \<open>getchar\<close> returns, if there is one.\<close>

definition console_poll ::
  "u8 option \<Rightarrow> console \<Rightarrow> ('f, 'b, 'w) sched \<Rightarrow> (ret_type \<times> console \<times> ('f, 'b, 'w) sched) option" where
  "console_poll input d s =
     (case input of
        None \<Rightarrow> Some (RET_SUCCESS, d, s)
      | Some c \<Rightarrow>
          (case rb_push [c] 1 (co_rxBuff d) of
             (n, b) \<Rightarrow>
               (let d1 = d\<lparr>co_rxBuff := b\<rparr>
                in if n \<noteq> 1 then Some (RET_ERROR, d1, s)
                   else if co_blockTid d1 \<noteq> - 1 \<and> rb_count (co_rxBuff d1) \<ge> co_blockLen d1
                        then map_option (\<lambda>s'. (RET_SUCCESS, d1\<lparr>co_blockTid := - 1\<rparr>, s')) (mac_wake (co_blockTid d1) s)
                        else Some (RET_SUCCESS, d1, s))))"

text \<open>\<open>out\<close> is the function \<open>write\<close> of the operating system on the given descriptor.\<close>

definition console_write :: "(int \<Rightarrow> u8 list \<Rightarrow> 'h \<Rightarrow> int \<times> 'h) \<Rightarrow> u8 list \<Rightarrow> 'h \<Rightarrow> ret_type \<times> 'h" where
  "console_write out buff h = (case out 1 buff h of (n, h') \<Rightarrow> (if n = - 1 then RET_ERROR else RET_SUCCESS, h'))"

definition console_available :: "console \<Rightarrow> size_t" where
  "console_available d = rb_count (co_rxBuff d)"

definition console_wait ::
  "size_t \<Rightarrow> console \<Rightarrow> ('f, 'b, 'w) sched \<Rightarrow> (ret_type \<times> console \<times> ('f, 'b, 'w) sched) option" where
  "console_wait len d s =
     (let tid = sched_dispatched s; (place, l) = mac_resume CoStart tid (co_wait_labels d)
      in if place = CoBlock then Some (RET_SUCCESS, d\<lparr>co_wait_labels := mac_reset CoStart tid l\<rparr>, s)
         else map_option (\<lambda>(ret, s', l'). (ret, d\<lparr>co_blockLen := len, co_blockTid := tid, co_wait_labels := l'\<rparr>, s'))
                (mac_block CoBlock s l))"

text \<open>The second component is what was copied into the buffer of the caller.\<close>

definition console_read ::
  "size_t \<Rightarrow> console \<Rightarrow> ('f, 'b, 'w) sched \<Rightarrow> (ret_type \<times> u8 list \<times> console \<times> ('f, 'b, 'w) sched) option" where
  "console_read len d s =
     (let tid = sched_dispatched s; (place, l) = mac_resume CoStart tid (co_read_labels d); d1 = d\<lparr>co_read_labels := l\<rparr>
      in if place = CoStart \<and> rb_count (co_rxBuff d1) \<ge> len then
           (case rb_pop len (co_rxBuff d1) of
              (xs, b) \<Rightarrow> Some (if len \<noteq> of_nat (length xs) then RET_ERROR else RET_SUCCESS, xs, d1\<lparr>co_rxBuff := b\<rparr>, s))
         else
           (case console_wait len (d1\<lparr>co_read_labels := set_label tid CoWait l\<rparr>) s of
              None \<Rightarrow> None
            | Some (ret, d2, s2) \<Rightarrow>
                if call_waits ret then Some (ret, [], d2, s2)
                else Some (ret, [], d2\<lparr>co_read_labels := mac_reset CoStart (sched_dispatched s2) (co_read_labels d2)\<rparr>, s2)))"

section \<open>The debug stream\<close>

text \<open>It has no state: \<open>init\<close>, \<open>obtain\<close>, \<open>release\<close> and \<open>poll\<close> return success, and nothing can be read.\<close>

definition debug_write :: "(int \<Rightarrow> u8 list \<Rightarrow> 'h \<Rightarrow> int \<times> 'h) \<Rightarrow> u8 list \<Rightarrow> 'h \<Rightarrow> ret_type \<times> 'h" where
  "debug_write out buff h = (case out 2 buff h of (n, h') \<Rightarrow> (if n = - 1 then RET_ERROR else RET_SUCCESS, h'))"

definition debug_read :: "size_t \<Rightarrow> ret_type" where
  "debug_read len = (if len > 0 then RET_ERROR else RET_SUCCESS)"

definition debug_available :: size_t where
  "debug_available = 0"

definition debug_wait :: "size_t \<Rightarrow> ret_type" where
  "debug_wait len = RET_ERROR"

section \<open>Pins of microcontrollers\<close>

text \<open>\<open>HAL_GPIO_WritePin\<close> and \<open>gpio_set_level\<close>, with whether the latter reports an invalid argument.\<close>

definition hal_pin_set :: "(u32 \<Rightarrow> 'h \<Rightarrow> 'h) \<Rightarrow> u32 \<Rightarrow> 'h \<Rightarrow> ret_type \<times> 'h" where
  "hal_pin_set writePin val h = (if \<not> (val = 0 \<or> val = 1) then (RET_ERROR, h) else (RET_SUCCESS, writePin val h))"

definition hal_pin_get :: "('h \<Rightarrow> u32 \<times> 'h) \<Rightarrow> 'h \<Rightarrow> ret_type \<times> u32 \<times> 'h" where
  "hal_pin_get readPin h = (case readPin h of (val, h') \<Rightarrow> (RET_SUCCESS, val, h'))"

definition esp_pin_set :: "(u32 \<Rightarrow> 'h \<Rightarrow> bool \<times> 'h) \<Rightarrow> u32 \<Rightarrow> 'h \<Rightarrow> ret_type \<times> 'h" where
  "esp_pin_set set_level val h = (case set_level val h of (invalid, h') \<Rightarrow> (if invalid then RET_ERROR else RET_SUCCESS, h'))"

definition esp_pin_get :: "('h \<Rightarrow> u32 \<times> 'h) \<Rightarrow> 'h \<Rightarrow> ret_type \<times> u32 \<times> 'h" where
  "esp_pin_get get_level h = (case get_level h of (val, h') \<Rightarrow> (RET_SUCCESS, val, h'))"

section \<open>Pins of Linux\<close>

datatype pin_place = PpStart | PpAcquire | PpBlock | PpRelease

datatype pin_call = PinOpen | PinSetValues int u32 | PinGetValues int

text \<open>The result of the call, and the value that a read puts into its argument.\<close>

type_synonym 'h pin_sys = "pin_call \<Rightarrow> 'h \<Rightarrow> int \<times> u32 \<times> 'h"

text \<open>
  \<open>taskLock = sched_dispatched\<close> assigns a temporary semaphore whose count is the number of the task.  The pool of the
  copied queue points into the temporary, which is gone: \<open>lp_stale\<close>.  A task that is to be put on that queue leads
  to \<open>None\<close>; that the queue is empty can still be seen.
\<close>

record linux_pin =
  lp_taskLock :: bsem
  lp_stale :: bool
  lp_currentBlocked :: int
  lp_fd :: int
  lp_lock_labels :: "bsem_place labels"
  lp_set_labels :: "pin_place labels"
  lp_get_labels :: "pin_place labels"

definition linux_pin_new :: "int aqueue \<Rightarrow> bsem_place labels \<Rightarrow> pin_place labels \<Rightarrow> linux_pin" where
  "linux_pin_new q lock_labels l =
     \<lparr>lp_taskLock = bsem_init q 1, lp_stale = False, lp_currentBlocked = - 1, lp_fd = - 1,
      lp_lock_labels = lock_labels, lp_set_labels = l, lp_get_labels = l\<rparr>"

definition linux_pin_init :: "'h pin_sys \<Rightarrow> linux_pin \<Rightarrow> 'h \<Rightarrow> ret_type \<times> linux_pin \<times> 'h" where
  "linux_pin_init sys d h =
     (case sys PinOpen h of (fd, _, h') \<Rightarrow> (if fd = 0 then RET_SUCCESS else RET_ERROR, d\<lparr>lp_fd := fd\<rparr>, h'))"

definition lp_acquire :: "linux_pin \<Rightarrow> ('f, 'b, 'w) sched \<Rightarrow> (ret_type \<times> linux_pin \<times> ('f, 'b, 'w) sched) option" where
  "lp_acquire d s =
     (if lp_stale d \<and> bs_count (lp_taskLock d) = 0 then None
      else map_option (\<lambda>(ret, b, s', l). (ret, d\<lparr>lp_taskLock := b, lp_lock_labels := l\<rparr>, s'))
             (bsem_acquire (lp_taskLock d) s (lp_lock_labels d)))"

definition lp_release :: "linux_pin \<Rightarrow> ('f, 'b, 'w) sched \<Rightarrow> (ret_type \<times> linux_pin \<times> ('f, 'b, 'w) sched) option" where
  "lp_release d s = map_option (\<lambda>(ret, b, s'). (ret, d\<lparr>lp_taskLock := b\<rparr>, s')) (bsem_release (lp_taskLock d) s)"

text \<open>\<open>q\<close> is the queue of the temporary.\<close>

definition lp_assign_lock :: "int aqueue \<Rightarrow> int \<Rightarrow> linux_pin \<Rightarrow> linux_pin" where
  "lp_assign_lock q tid d = d\<lparr>lp_taskLock := bsem_init q (of_int tid), lp_stale := True\<rparr>"

type_synonym ('f, 'b, 'w, 'h) pin_step =
  "linux_pin \<Rightarrow> ('f, 'b, 'w) sched \<Rightarrow> 'h \<Rightarrow> (ret_type \<times> linux_pin \<times> ('f, 'b, 'w) sched \<times> 'h) option"

abbreviation set_place :: "int \<Rightarrow> pin_place \<Rightarrow> linux_pin \<Rightarrow> linux_pin" where
  "set_place tid p d \<equiv> d\<lparr>lp_set_labels := set_label tid p (lp_set_labels d)\<rparr>"

abbreviation get_place :: "int \<Rightarrow> pin_place \<Rightarrow> linux_pin \<Rightarrow> linux_pin" where
  "get_place tid p d \<equiv> d\<lparr>lp_get_labels := set_label tid p (lp_get_labels d)\<rparr>"

text \<open>An \<open>ioctl\<close> returns 0 when it succeeds; the code takes that for the error, and leaves without a \<open>RESET\<close>.\<close>

definition linux_pin_set :: "int aqueue \<Rightarrow> 'h pin_sys \<Rightarrow> u32 \<Rightarrow> ('f, 'b, 'w, 'h) pin_step" where
  "linux_pin_set q sys val d s h =
     (let tid = sched_dispatched s; (place, l) = mac_resume PpStart tid (lp_set_labels d); d1 = d\<lparr>lp_set_labels := l\<rparr>
      in if place = PpBlock \<or> place = PpRelease then
           (case lp_release (set_place tid PpRelease (d1\<lparr>lp_currentBlocked := - 1\<rparr>)) s of
              None \<Rightarrow> None
            | Some (ret, d2, s2) \<Rightarrow> Some (ret, set_place (sched_dispatched s2) PpStart d2, s2, h))
         else
           (case lp_acquire (set_place tid PpAcquire d1) s of
              None \<Rightarrow> None
            | Some (ret, d2, s2) \<Rightarrow>
                if call_waits ret then Some (ret, d2, s2, h)
                else if ret \<noteq> RET_SUCCESS then Some (ret, set_place tid PpStart d2, s2, h)
                else
                  (let d3 = lp_assign_lock q tid d2
                   in if \<not> (val = 0 \<or> val = 1) then Some (RET_ERROR, set_place tid PpStart d3, s2, h)
                      else (case sys (PinSetValues (lp_fd d3) val) h of (r, _, h') \<Rightarrow>
                        if r = 0 then Some (RET_ERROR, d3, s2, h')
                        else map_option (\<lambda>(ret, s', l'). (ret, d3\<lparr>lp_set_labels := l'\<rparr>, s', h'))
                               (mac_block PpBlock s2 (lp_set_labels d3))))))"

text \<open>The value that is read is beside the code.\<close>

definition linux_pin_get ::
  "int aqueue \<Rightarrow> 'h pin_sys \<Rightarrow> u32 \<Rightarrow> linux_pin \<Rightarrow> ('f, 'b, 'w) sched \<Rightarrow> 'h \<Rightarrow>
   (ret_type \<times> u32 \<times> linux_pin \<times> ('f, 'b, 'w) sched \<times> 'h) option" where
  "linux_pin_get q sys old d s h =
     (let tid = sched_dispatched s; (place, l) = mac_resume PpStart tid (lp_get_labels d); d1 = d\<lparr>lp_get_labels := l\<rparr>
      in if place = PpBlock \<or> place = PpRelease then
           (case lp_release (get_place tid PpRelease (d1\<lparr>lp_currentBlocked := - 1\<rparr>)) s of
              None \<Rightarrow> None
            | Some (ret, d2, s2) \<Rightarrow> Some (ret, old, get_place (sched_dispatched s2) PpStart d2, s2, h))
         else
           (case lp_acquire (get_place tid PpAcquire d1) s of
              None \<Rightarrow> None
            | Some (ret, d2, s2) \<Rightarrow>
                if call_waits ret then Some (ret, old, d2, s2, h)
                else if ret \<noteq> RET_SUCCESS then Some (ret, old, get_place tid PpStart d2, s2, h)
                else
                  (let d3 = lp_assign_lock q tid d2
                   in case sys (PinGetValues (lp_fd d3)) h of (r, val, h') \<Rightarrow>
                        if r = 0 then Some (RET_ERROR, val, d3, s2, h')
                        else map_option (\<lambda>(ret, s', l'). (ret, val, d3\<lparr>lp_get_labels := l'\<rparr>, s', h'))
                               (mac_block PpBlock s2 (lp_get_labels d3)))))"

section \<open>Properties\<close>

text \<open>Lines of input, polled one character at a time.\<close>

fun console_polls :: "u8 list \<Rightarrow> console \<Rightarrow> ('f, 'b, 'w) sched \<Rightarrow> (console \<times> ('f, 'b, 'w) sched) option" where
  "console_polls [] d s = Some (d, s)"
| "console_polls (c # cs) d s =
     (case console_poll (Some c) d s of None \<Rightarrow> None | Some (_, d', s') \<Rightarrow> console_polls cs d' s')"

lemma console_push:
  assumes b: "rb_inv (co_rxBuff d)" "unat (rb_len (co_rxBuff d)) < unat (rb_size (co_rxBuff d))"
  obtains b' where "rb_push [c] 1 (co_rxBuff d) = (1, b')" "rb_inv b'"
    "rb_content b' = rb_content (co_rxBuff d) @ [c]" "rb_size b' = rb_size (co_rxBuff d)"
    "unat (rb_len b') = Suc (unat (rb_len (co_rxBuff d)))"
proof -
  obtain n b' where p: "rb_push [c] 1 (co_rxBuff d) = (n, b')"
    by fastforce
  have "unat (rb_size (co_rxBuff d)) < 2 ^ 32"
    using unsigned_less [where 'a = nat and w = "rb_size (co_rxBuff d)"] by simp
  then have c: "unat n = 1" "rb_inv b'" "rb_content b' = rb_content (co_rxBuff d) @ [c]" "rb_size b' = rb_size (co_rxBuff d)"
    using rb_push_content [OF b(1) _ _ _ p] b(2) by (simp_all add: min_def)
  have "n = 1"
    using c(1) by (simp add: word_unat_eq_iff)
  moreover have "unat (rb_len b') = Suc (unat (rb_len (co_rxBuff d)))"
    using c(3) rb_content_length [of b'] rb_content_length [of "co_rxBuff d"] by simp
  ultimately show ?thesis
    using that p c by blast
qed

text \<open>The task is woken with the character that completes what it waits for.\<close>

lemma console_polls_wake:
  assumes s: "sched_ok s" "t < MAX_NUM_TASKS" "t_state (tasks s t) = STATE_BLOCKED"
  shows "rb_inv (co_rxBuff d) \<Longrightarrow> co_blockTid d = int t \<Longrightarrow> cs \<noteq> [] \<Longrightarrow>
     unat (rb_len (co_rxBuff d)) + length cs = unat (co_blockLen d) \<Longrightarrow> unat (co_blockLen d) \<le> unat (rb_size (co_rxBuff d)) \<Longrightarrow>
     \<exists>b s2. console_polls cs d s = Some (d\<lparr>co_rxBuff := b, co_blockTid := - 1\<rparr>, s2) \<and> rb_inv b \<and>
       rb_content b = rb_content (co_rxBuff d) @ cs \<and> ready_tasks s2 = ready_tasks s @ [t]"
proof (induction cs arbitrary: d)
  case (Cons c cs)
  have "unat (rb_len (co_rxBuff d)) < unat (rb_size (co_rxBuff d))"
    using Cons.prems(4,5) by simp
  then obtain b where b: "rb_push [c] 1 (co_rxBuff d) = (1, b)" "rb_inv b" "rb_content b = rb_content (co_rxBuff d) @ [c]"
    "rb_size b = rb_size (co_rxBuff d)" "unat (rb_len b) = Suc (unat (rb_len (co_rxBuff d)))"
    by (rule console_push [OF Cons.prems(1)])
  show ?case
  proof (cases "cs = []")
    case True
    obtain s2 where "sched_wake t s = Some s2" "ready_tasks s2 = ready_tasks s @ [t]"
      using sched_wake_ok [OF s(1,2)] s(3) by blast
    moreover from this True b s(2) Cons.prems(2,4) have
      "console_polls (c # cs) d s = Some (d\<lparr>co_rxBuff := b, co_blockTid := - 1\<rparr>, s2)"
      by (simp add: console_poll_def rb_count_def word_le_nat_alt mac_wake_def)
    ultimately show ?thesis
      using True b(2,3) by blast
  next
    case False
    then have "Suc (unat (rb_len (co_rxBuff d))) < unat (co_blockLen d)"
      using Cons.prems(4) by (cases cs) simp_all
    then have "console_poll (Some c) d s = Some (RET_SUCCESS, d\<lparr>co_rxBuff := b\<rparr>, s)"
      using b(1,5) Cons.prems(2) by (simp add: console_poll_def rb_count_def word_le_nat_alt)
    moreover obtain b2 s2 where "console_polls cs (d\<lparr>co_rxBuff := b\<rparr>) s = Some (d\<lparr>co_rxBuff := b2, co_blockTid := - 1\<rparr>, s2)"
      "rb_inv b2" "rb_content b2 = rb_content b @ cs" "ready_tasks s2 = ready_tasks s @ [t]"
      using Cons.IH [of "d\<lparr>co_rxBuff := b\<rparr>"] Cons.prems False b by auto
    ultimately have "console_polls (c # cs) d s = Some (d\<lparr>co_rxBuff := b2, co_blockTid := - 1\<rparr>, s2) \<and> rb_inv b2 \<and>
        rb_content b2 = rb_content (co_rxBuff d) @ c # cs \<and> ready_tasks s2 = ready_tasks s @ [t]"
      using b(3) by simp
    then show ?thesis
      by blast
  qed
qed simp

text \<open>
  A read of the console that has to wait: the task is blocked until as many characters have been polled as it asked
  for; then the read returns success, but nothing has been copied, and the characters stay in the device.
\<close>
theorem console_blocked_read_empty:
  assumes d: "rb_inv (co_rxBuff d)" "unat (rb_len (co_rxBuff d)) + length cs = unat len" "cs \<noteq> []"
      "unat len \<le> unat (rb_size (co_rxBuff d))"
    and at: "fst (mac_resume CoStart (int t) (co_read_labels d)) = CoStart" "fst (mac_resume CoStart (int t) (co_wait_labels d)) = CoStart"
    and s: "running t s"
  shows "\<exists>d1 s1 d2 s2 d3. console_read len d s = Some (RET_BLOCKED, [], d1, s1) \<and> t \<notin> set (ready_tasks s1) \<and>
    console_polls cs d1 s1 = Some (d2, s2) \<and> ready_tasks s2 = ready_tasks s1 @ [t] \<and>
    console_read len d2 (s2\<lparr>sched_dispatched := int t\<rparr>) = Some (RET_SUCCESS, [], d3, s2\<lparr>sched_dispatched := int t\<rparr>) \<and>
    rb_content (co_rxBuff d3) = rb_content (co_rxBuff d) @ cs"
proof -
  have tid: "sched_dispatched s = int t" and lt: "t < MAX_NUM_TASKS"
    using s by (simp_all add: running_def)
  obtain l where l: "mac_resume CoStart (int t) (co_read_labels d) = (CoStart, l)" "lb_init l"
    using at(1) resume_init [of CoStart "int t" "co_read_labels d"] by (cases "mac_resume CoStart (int t) (co_read_labels d)") simp
  obtain w where w: "mac_resume CoStart (int t) (co_wait_labels d) = (CoStart, w)" "lb_init w"
    using at(2) resume_init [of CoStart "int t" "co_wait_labels d"] by (cases "mac_resume CoStart (int t) (co_wait_labels d)") simp
  obtain s1 where s1: "sched_block t s = Some s1" "sched_ok s1" "t_state (tasks s1 t) = STATE_BLOCKED" "t \<notin> set (ready_tasks s1)"
    using sched_block_ok [of s t] s by (auto simp: running_def)
  let ?d1 = "d\<lparr>co_read_labels := set_label (int t) CoWait l, co_blockLen := len, co_blockTid := int t,
    co_wait_labels := set_label (int t) CoBlock w\<rparr>"
  have "unat (rb_len (co_rxBuff d)) < unat len"
    using d(2,3) by (cases cs) simp_all
  then have "\<not> len \<le> rb_count (co_rxBuff d)"
    by (simp add: rb_count_def word_le_nat_alt)
  then have 1: "console_read len d s = Some (RET_BLOCKED, [], ?d1, s1)"
    using tid lt l(1) w(1) s1(1) by (simp add: console_read_def console_wait_def mac_block_def Let_def call_waits_def)
  obtain b s2 where 2: "console_polls cs ?d1 s1 = Some (?d1\<lparr>co_rxBuff := b, co_blockTid := - 1\<rparr>, s2)"
    "rb_content b = rb_content (co_rxBuff d) @ cs" "ready_tasks s2 = ready_tasks s1 @ [t]"
    using console_polls_wake [OF s1(2) lt s1(3), of ?d1 cs] d by auto
  let ?d2 = "?d1\<lparr>co_rxBuff := b, co_blockTid := - 1\<rparr>" and ?s = "s2\<lparr>sched_dispatched := int t\<rparr>"
  have "console_read len ?d2 ?s = Some (RET_SUCCESS, [], ?d2\<lparr>co_wait_labels := set_label (int t) CoStart (co_wait_labels ?d2),
      co_read_labels := set_label (int t) CoStart (set_label (int t) CoWait (co_read_labels ?d2))\<rparr>, ?s)"
    using resume_after_set [OF l(2)] resume_after_set [OF w(2)]
    by (simp add: console_read_def console_wait_def Let_def call_waits_def mac_reset_def)
  with 1 2 s1(4) show ?thesis
    by (intro exI conjI) (assumption | simp)+
qed

theorem console_blocked_read_empty_witness:
  "\<exists>d1 s1 d2 s2 d3. console_read 2 (console_new (replicate 256 0) \<lparr>lb_init = False, lb_current = (\<lambda>i. CoStart)\<rparr>) ex_sched =
      Some (RET_BLOCKED, [], d1, s1) \<and> console_polls [104, 105] d1 s1 = Some (d2, s2) \<and>
    console_read 2 d2 (s2\<lparr>sched_dispatched := 0\<rparr>) = Some (RET_SUCCESS, [], d3, s2\<lparr>sched_dispatched := 0\<rparr>) \<and>
    rb_content (co_rxBuff d3) = [104, 105]"
proof -
  let ?d = "console_new (replicate 256 0) \<lparr>lb_init = False, lb_current = (\<lambda>i. CoStart)\<rparr>"
  have "rb_inv (co_rxBuff ?d)"
    unfolding console_new_def by (simp, rule rb_init_inv) simp_all
  moreover have "rb_content (co_rxBuff ?d) = []" "unat (rb_len (co_rxBuff ?d)) = 0" "unat (rb_size (co_rxBuff ?d)) = 256"
    by (simp_all add: console_new_def rb_init_def rb_content_def)
  moreover have "fst (mac_resume CoStart (int 0) (co_read_labels ?d)) = CoStart" "fst (mac_resume CoStart (int 0) (co_wait_labels ?d)) = CoStart"
    by (simp_all add: console_new_def mac_resume_def)
  ultimately show ?thesis
    using console_blocked_read_empty [of ?d "[104, 105]" 2 0 ex_sched] ex_running by auto
qed

text \<open>
  Setting a pin of Linux never returns success at once: where the system has set the line the code returns the
  error, and where the system refuses, the task blocks, and nothing in the class wakes it.  In both cases the
  lock has as many permits as the number of the task says.
\<close>
theorem linux_pin_set_outcomes:
  assumes d: "bs_ok (lp_taskLock d)" "bs_count (lp_taskLock d) \<noteq> 0"
    and at: "fst (mac_resume PpStart (int t) (lp_set_labels d)) = PpStart" and s: "running t s"
    and val: "val = 0 \<or> val = 1" and sys: "sys (PinSetValues (lp_fd d) val) h = (r, v, h1)"
  shows "\<exists>d1 s1. linux_pin_set q sys val d s h = Some (if r = 0 then RET_ERROR else RET_BLOCKED, d1, s1, h1) \<and>
    (r \<noteq> 0 \<longrightarrow> t_state (tasks s1 t) = STATE_BLOCKED \<and> t \<notin> set (ready_tasks s1)) \<and>
    bs_count (lp_taskLock d1) = of_nat t \<and> lp_stale d1"
proof -
  have tid: "sched_dispatched s = int t" and lt: "t < MAX_NUM_TASKS"
    using s by (simp_all add: running_def)
  obtain l where l: "mac_resume PpStart (int t) (lp_set_labels d) = (PpStart, l)"
    using at by (cases "mac_resume PpStart (int t) (lp_set_labels d)") simp
  let ?d = "set_place (int t) PpAcquire (d\<lparr>lp_set_labels := l\<rparr>)"
  obtain k where "bsem_acquire (lp_taskLock ?d) s (lp_lock_labels ?d) =
      Some (RET_SUCCESS, (lp_taskLock d)\<lparr>bs_count := bs_count (lp_taskLock d) - 1\<rparr>, s, k)"
    using bsem_acquire_free [of "lp_taskLock ?d" s "lp_lock_labels ?d"] d by auto
  then have a: "lp_acquire ?d s = Some (RET_SUCCESS, ?d\<lparr>lp_taskLock := (lp_taskLock d)\<lparr>bs_count := bs_count (lp_taskLock d) - 1\<rparr>,
      lp_lock_labels := k\<rparr>, s)"
    using d(2) by (simp add: lp_acquire_def)
  obtain s1 where s1: "sched_block t s = Some s1" "t_state (tasks s1 t) = STATE_BLOCKED" "t \<notin> set (ready_tasks s1)"
    using sched_block_ok [of s t] s by (auto simp: running_def)
  show ?thesis
    using tid lt l a val sys s1
    by (auto simp: linux_pin_set_def Let_def call_waits_def lp_assign_lock_def mac_block_def bsem_init_def)
qed

theorem linux_pin_set_outcomes_witness:
  "\<exists>d1 s1. linux_pin_set (boot_aqueue 0 MAX_NUM_TASKS) (\<lambda>call h. (0, 0, h @ [call])) 1
      ((linux_pin_new (boot_aqueue 0 MAX_NUM_TASKS) ex_labels \<lparr>lb_init = False, lb_current = (\<lambda>i. PpStart)\<rparr>)\<lparr>lp_fd := 3\<rparr>)
      ex_sched [] = Some (RET_ERROR, d1, s1, [PinSetValues 3 1]) \<and> bs_count (lp_taskLock d1) = 0"
proof -
  let ?d = "(linux_pin_new (boot_aqueue 0 MAX_NUM_TASKS) ex_labels \<lparr>lb_init = False, lb_current = (\<lambda>i. PpStart)\<rparr>)\<lparr>lp_fd := 3\<rparr>"
  have "bs_ok (lp_taskLock ?d)" "bs_count (lp_taskLock ?d) \<noteq> 0" "fst (mac_resume PpStart (int 0) (lp_set_labels ?d)) = PpStart" "lp_fd ?d = 3"
    by (simp_all add: linux_pin_new_def boot_bsem mac_resume_def)
  from linux_pin_set_outcomes [OF this(1-3) ex_running, of 1 "\<lambda>call h. (0, 0, h @ [call])" "[]" 0 0 _ "boot_aqueue 0 MAX_NUM_TASKS"] this(4) show ?thesis
    by auto
qed

text \<open>After task 0 has set a pin, the next call that takes the lock reaches into the temporary.\<close>

lemma linux_pin_second_set:
  assumes "lp_stale d" "bs_count (lp_taskLock d) = 0"
    and "fst (mac_resume PpStart (sched_dispatched s) (lp_set_labels d)) \<in> {PpStart, PpAcquire}"
  shows "linux_pin_set q sys val d s h = None"
  using assms by (cases "mac_resume PpStart (sched_dispatched s) (lp_set_labels d)") (auto simp: linux_pin_set_def lp_acquire_def Let_def)

end
