(* ===== verification/VendorRegs.thy ===== *)
theory VendorRegs
  imports ByteRegs
begin

unbundle bit_operations_syntax

text \<open>
  What the register files of the chip vendor share (l3gd20h_reg.c and lis3mdl_reg.c under
  src/device/peripherals): structs of bit fields, the context \<open>stmdev_ctx_t\<close> with the two functions through
  which registers are read and written, and the shapes of the functions that use it.  The contract of such a
  context is the locale \<open>register_device\<close>.
\<close>

section \<open>Structs of bit fields\<close>

text \<open>
  A struct of bit fields is the list of its fields with their widths, the one with the lowest bits first; both
  byte orders of the header give the same bits.
\<close>

type_synonym bit_struct = "(string \<times> nat) list"

fun field_at :: "nat \<Rightarrow> bit_struct \<Rightarrow> string \<Rightarrow> nat \<times> nat" where
  "field_at pos [] f = (pos, 0)"
| "field_at pos ((g, w) # t) f = (if f = g then (pos, w) else field_at (pos + w) t f)"

definition bit_put :: "bit_struct \<Rightarrow> string \<Rightarrow> u8 \<Rightarrow> u8 \<Rightarrow> u8" where
  "bit_put t f v b = (case field_at 0 t f of (pos, w) \<Rightarrow> set_field pos w v b)"

definition bit_get :: "bit_struct \<Rightarrow> string \<Rightarrow> u8 \<Rightarrow> u8" where
  "bit_get t f b = (case field_at 0 t f of (pos, w) \<Rightarrow> get_field pos w b)"

text \<open>Assignments to several fields, in their order.\<close>

definition bit_puts :: "bit_struct \<Rightarrow> (string \<times> u8) list \<Rightarrow> u8 \<Rightarrow> u8" where
  "bit_puts t asgs b = fold (\<lambda>(f, v). bit_put t f v) asgs b"

abbreviation fits :: "bit_struct \<Rightarrow> bool" where
  "fits t \<equiv> sum_list (map snd t) \<le> 8"

lemma field_at_bounds: "field_at pos t f = (p, w) \<Longrightarrow> pos \<le> p \<and> p + w \<le> pos + sum_list (map snd t)"
  by (induction pos t f rule: field_at.induct) (auto split: if_splits)

lemma field_at_disjoint:
  "f \<noteq> g \<Longrightarrow> field_at pos t f = (p, w) \<Longrightarrow> field_at pos t g = (p', w') \<Longrightarrow> p + w \<le> p' \<or> p' + w' \<le> p"
proof (induction pos t f arbitrary: p w rule: field_at.induct)
  case (2 pos h u t f)
  show ?case
  proof (cases "h = f \<or> h = g")
    case True
    then show ?thesis
      using 2(2-4) by (auto split: if_splits dest: field_at_bounds)
  qed (use 2 in auto)
qed simp

lemma bit_get_put [simp]: "fits t \<Longrightarrow> bit_get t f (bit_put t f v b) = take_bit (snd (field_at 0 t f)) v"
  using field_at_bounds [of 0 t f]
  by (cases "field_at 0 t f") (simp add: bit_get_def bit_put_def get_set_field)

lemma bit_get_put_other [simp]: "f \<noteq> g \<Longrightarrow> bit_get t f (bit_put t g v b) = bit_get t f b"
  using field_at_disjoint [of f g 0 t]
  by (cases "field_at 0 t f"; cases "field_at 0 t g") (auto simp: bit_get_def bit_put_def get_field_other)

lemma bit_puts_simps [simp]:
  "bit_puts t [] b = b" "bit_puts t ((f, v) # asgs) b = bit_puts t asgs (bit_put t f v b)"
  by (simp_all add: bit_puts_def)

text \<open>A field of one bit, through a byte.\<close>

lemma one_bit_through_byte [simp]: "ucast ((ucast (b :: 1 word) :: u8) mod 2) = b"
proof (rule word_unat_eq_iff [THEN iffD2])
  have "unat b < 2"
    using unsigned_less [where 'a = nat and w = b] by simp
  then show "unat (ucast ((ucast b :: u8) mod 2) :: 1 word) = unat b"
    by (simp add: unsigned_ucast_eq unat_mod take_bit_nat_eq_self)
qed

lemma set_field_whole: "set_field 0 8 v b = v"
  by (rule bit_word_eqI) (auto simp: set_field_def put_bits_bit bit_simps)

lemma byte_div_256: "(ucast (b :: u8) :: u16) div 256 = 0"
proof (rule word_unat_eq_iff [THEN iffD2])
  show "unat ((ucast b :: u16) div 256) = unat (0 :: u16)"
    using unsigned_less [where 'a = nat and w = b] by (simp add: unat_div unsigned_ucast_eq take_bit_nat_eq_self)
qed

lemma word_low_byte: "(ucast (ucast (v :: u16) :: u8) :: u16) = v AND 0xFF"
proof -
  have m: "(0xFF :: u16) = mask 8"
    by (simp add: mask_eq_exp_minus_1)
  show ?thesis
    unfolding m by (rule bit_word_eqI) (auto simp: bit_simps)
qed

lemma seven_bits: "(ucast (take_bit 7 (ucast (v :: u16) :: u8) AND 0x7F) :: u16) = v AND 0x7F"
proof -
  have m: "(0x7F :: u16) = mask 7" "(0x7F :: u8) = mask 7"
    by (simp_all add: mask_eq_exp_minus_1)
  show ?thesis
    unfolding m by (rule bit_word_eqI) (auto simp: bit_simps)
qed

lemma ucast_diff_256: "ucast ((v :: u16) - ucast (h :: u8) * 256) = (ucast v :: u8)"
proof transfer
  fix v h :: int
  have "(v - take_bit 8 h * 256) mod 2 ^ 16 mod 2 ^ 8 = (v - take_bit 8 h * 256) mod 2 ^ 8"
    by (rule mod_mod_cancel) simp
  also have "\<dots> = v mod 2 ^ 16 mod 2 ^ 8"
    by (simp add: mod_mod_cancel mod_diff_eq [of v _ "take_bit 8 h * 256", symmetric])
  finally show "take_bit LENGTH(8) (take_bit LENGTH(16) (v - take_bit LENGTH(8) h * 256)) = take_bit LENGTH(8) (take_bit LENGTH(16) v)"
    by (simp add: take_bit_eq_mod)
qed

text \<open>A \<open>switch\<close> over the codes of an enumeration, each case giving its own constant.\<close>

definition switch_code :: "('e \<Rightarrow> u8) \<Rightarrow> 'e list \<Rightarrow> 'e \<Rightarrow> u8 \<Rightarrow> 'e" where
  "switch_code code es other c = (case List.find (\<lambda>e. code e = c) es of None \<Rightarrow> other | Some e \<Rightarrow> e)"

section \<open>The context\<close>

text \<open>
  \<open>write_reg\<close> and \<open>read_reg\<close> are the pointers of stmdev_ctx_t with the handle they get; a read takes
  the contents of the buffer and gives the new ones.  \<open>stale ctx reg\<close> is what the local variable that a function
  has for the register \<open>reg\<close> holds before it is set.
\<close>

record 's stm_ctx =
  write_reg :: "u8 \<Rightarrow> u8 list \<Rightarrow> 's \<Rightarrow> int \<times> 's"
  read_reg :: "u8 \<Rightarrow> u8 list \<Rightarrow> 's \<Rightarrow> int \<times> u8 list \<times> 's"
  stale :: "u8 \<Rightarrow> u8"

definition ctx_read :: "'s stm_ctx \<Rightarrow> u8 \<Rightarrow> u8 list \<Rightarrow> ('s, int \<times> u8 list) state" where
  "ctx_read ctx reg buf = State (\<lambda>s. case read_reg ctx reg buf s of (ret, data, s') \<Rightarrow> ((ret, data), s'))"

definition ctx_write :: "'s stm_ctx \<Rightarrow> u8 \<Rightarrow> u8 list \<Rightarrow> ('s, int) state" where
  "ctx_write ctx reg data = State (write_reg ctx reg data)"

text \<open>One register, read into a variable that holds \<open>old\<close>.\<close>

definition ctx_read1 :: "'s stm_ctx \<Rightarrow> u8 \<Rightarrow> u8 \<Rightarrow> ('s, int \<times> u8) state" where
  "ctx_read1 ctx reg old = do {
     (ret, data) \<leftarrow> ctx_read ctx reg [old];
     State_Monad.return (ret, case data of [] \<Rightarrow> old | b # _ \<Rightarrow> b)}"

text \<open>The shapes of the accessors: read, change and write back; read; the same with two registers.\<close>

definition update_reg :: "'s stm_ctx \<Rightarrow> u8 \<Rightarrow> (u8 \<Rightarrow> u8) \<Rightarrow> ('s, int) state" where
  "update_reg ctx reg f = do {
     (ret, b) \<leftarrow> ctx_read1 ctx reg (stale ctx reg);
     if ret = 0 then ctx_write ctx reg [f b] else State_Monad.return ret}"

definition load_reg :: "'s stm_ctx \<Rightarrow> u8 \<Rightarrow> (u8 \<Rightarrow> 'a) \<Rightarrow> ('s, int \<times> 'a) state" where
  "load_reg ctx reg g = do {
     (ret, b) \<leftarrow> ctx_read1 ctx reg (stale ctx reg);
     State_Monad.return (ret, g b)}"

definition update_both :: "('s, int) state \<Rightarrow> ('s, int) state \<Rightarrow> ('s, int) state" where
  "update_both m k = do {ret \<leftarrow> m; if ret = 0 then k else State_Monad.return ret}"

definition load_regs :: "'s stm_ctx \<Rightarrow> u8 \<Rightarrow> u8 \<Rightarrow> (u8 \<Rightarrow> u8 \<Rightarrow> 'a) \<Rightarrow> ('s, int \<times> 'a) state" where
  "load_regs ctx reg1 reg2 g = do {
     (ret, b1) \<leftarrow> ctx_read1 ctx reg1 (stale ctx reg1);
     (ret, b2) \<leftarrow> if ret = 0 then ctx_read1 ctx reg2 (stale ctx reg2) else State_Monad.return (ret, stale ctx reg2);
     State_Monad.return (ret, g b1 b2)}"

text \<open>Two bytes, the low one first, as the code joins them in an \<open>int16_t\<close>.\<close>

definition join16 :: "u8 \<Rightarrow> u8 \<Rightarrow> u16" where
  "join16 hi lo = ucast hi * 256 + ucast lo"

lemma join16_be16: "join16 hi lo = be16 hi lo"
proof -
  have "be16 hi lo = push_bit 8 (ucast hi) + ucast lo"
    unfolding be16_def by (rule disjunctive_add [symmetric]) (auto simp: bit_simps dest: bit_imp_le_length)
  then show ?thesis
    by (simp add: join16_def push_bit_eq_mult)
qed

lemma run_ctx [simp]:
  "run_state (ctx_read ctx reg buf) s = (case read_reg ctx reg buf s of (ret, data, s') \<Rightarrow> ((ret, data), s'))"
  "run_state (ctx_write ctx reg data) s = write_reg ctx reg data s"
  by (simp_all add: ctx_read_def ctx_write_def)

section \<open>The contract of a context\<close>

text \<open>\<open>acts\<close>: from every state that is \<open>ok\<close>, \<open>m\<close> returns \<open>r\<close> of the registers and changes them as \<open>f\<close> says.\<close>

definition acts :: "('s \<Rightarrow> u8 \<Rightarrow> u8) \<Rightarrow> ('s \<Rightarrow> bool) \<Rightarrow> ('s, 'a) state \<Rightarrow> ((u8 \<Rightarrow> u8) \<Rightarrow> 'a) \<Rightarrow> ((u8 \<Rightarrow> u8) \<Rightarrow> u8 \<Rightarrow> u8) \<Rightarrow> bool" where
  "acts regs ok m r f \<longleftrightarrow>
     (\<forall>s. ok s \<longrightarrow> (\<exists>s'. run_state m s = (r (regs s), s') \<and> ok s' \<and> regs s' = f (regs s)))"

lemma actsI:
  assumes "\<And>s. ok s \<Longrightarrow> \<exists>s'. run_state m s = (r (regs s), s') \<and> ok s' \<and> regs s' = f (regs s)"
  shows "acts regs ok m r f"
  using assms by (simp add: acts_def)

lemma actsE:
  assumes "acts regs ok m r f" "ok s"
  obtains s' where "run_state m s = (r (regs s), s')" "ok s'" "regs s' = f (regs s)"
  using assms unfolding acts_def by blast

lemma acts_bind:
  assumes m: "acts regs ok m r f" and k: "\<And>a. acts regs ok (k a) (q a) (h a)"
  shows "acts regs ok (State_Monad.bind m k) (\<lambda>g. q (r g) (f g)) (\<lambda>g. h (r g) (f g))"
proof (rule actsI)
  fix s assume "ok s"
  then obtain s1 where 1: "run_state m s = (r (regs s), s1)" "ok s1" "regs s1 = f (regs s)"
    by (rule actsE [OF m])
  obtain s2 where "run_state (k (r (regs s))) s1 = (q (r (regs s)) (regs s1), s2)" "ok s2" "regs s2 = h (r (regs s)) (regs s1)"
    by (rule actsE [OF k 1(2)])
  with 1 show "\<exists>s'. run_state (State_Monad.bind m k) s = (q (r (regs s)) (f (regs s)), s') \<and> ok s' \<and> regs s' = h (r (regs s)) (f (regs s))"
    by auto
qed

lemma acts_cong: "acts regs ok m r f \<Longrightarrow> (\<And>g. r g = r' g) \<Longrightarrow> (\<And>g. f g = f' g) \<Longrightarrow> acts regs ok m r' f'"
  by (simp add: acts_def)

lemma acts_return: "acts regs ok (State_Monad.return a) (\<lambda>_. a) (\<lambda>g. g)"
  by (rule actsI) simp

lemma acts_update_both:
  assumes m: "acts regs ok m (\<lambda>_. 0) f" and k: "acts regs ok k (\<lambda>_. 0) h"
  shows "acts regs ok (update_both m k) (\<lambda>_. 0) (\<lambda>g. h (f g))"
proof (rule actsI)
  fix s assume "ok s"
  then obtain s1 where 1: "run_state m s = (0, s1)" "ok s1" "regs s1 = f (regs s)"
    by (rule actsE [OF m])
  obtain s2 where "run_state k s1 = (0, s2)" "ok s2" "regs s2 = h (regs s1)"
    by (rule actsE [OF k 1(2)])
  with 1 show "\<exists>s'. run_state (update_both m k) s = (0, s') \<and> ok s' \<and> regs s' = h (f (regs s))"
    by (simp add: update_both_def)
qed

text \<open>
  What the header promises of the two functions (return 0: no error): a read delivers the registers from \<open>reg\<close> on
  and changes none, a write of one byte sets its register.
\<close>

locale register_device =
  fixes ctx :: "'s stm_ctx" and regs :: "'s \<Rightarrow> u8 \<Rightarrow> u8" and ok :: "'s \<Rightarrow> bool"
  assumes device_reads: "ok s \<Longrightarrow> unat reg + length buf \<le> 256 \<Longrightarrow>
      \<exists>s'. read_reg ctx reg buf s = (0, map (\<lambda>i. regs s (reg + of_nat i)) [0..<length buf], s') \<and> ok s' \<and> regs s' = regs s"
    and device_writes: "ok s \<Longrightarrow> \<exists>s'. write_reg ctx reg [v] s = (0, s') \<and> ok s' \<and> regs s' = (regs s)(reg := v)"
begin

lemma acts_read:
  "unat reg + length buf \<le> 256 \<Longrightarrow>
   acts regs ok (ctx_read ctx reg buf) (\<lambda>g. (0, map (\<lambda>i. g (reg + of_nat i)) [0..<length buf])) (\<lambda>g. g)"
  by (rule actsI) (auto dest: device_reads)

lemma acts_write: "acts regs ok (ctx_write ctx reg [v]) (\<lambda>_. 0) (\<lambda>g. g(reg := v))"
  by (rule actsI) (auto dest: device_writes)

lemma acts_read1: "acts regs ok (ctx_read1 ctx reg old) (\<lambda>g. (0, g reg)) (\<lambda>g. g)"
proof (rule actsI)
  fix s assume "ok s"
  then obtain s' where "read_reg ctx reg [old] s = (0, [regs s reg], s')" "ok s'" "regs s' = regs s"
    using device_reads [of s reg "[old]"] unsigned_less [where 'a = nat and w = reg] by auto
  then show "\<exists>s'. run_state (ctx_read1 ctx reg old) s = ((0, regs s reg), s') \<and> ok s' \<and> regs s' = regs s"
    by (simp add: ctx_read1_def)
qed

lemma read1E:
  assumes "ok s"
  obtains s' where "run_state (ctx_read1 ctx reg old) s = ((0, regs s reg), s')" "ok s'" "regs s' = regs s"
  using assms by (rule actsE [OF acts_read1])

lemma acts_update: "acts regs ok (update_reg ctx reg f) (\<lambda>_. 0) (\<lambda>g. g(reg := f (g reg)))"
proof (rule actsI)
  fix s assume "ok s"
  then obtain s1 where 1: "run_state (ctx_read1 ctx reg (stale ctx reg)) s = ((0, regs s reg), s1)" "ok s1" "regs s1 = regs s"
    by (rule read1E)
  obtain s2 where "run_state (ctx_write ctx reg [f (regs s reg)]) s1 = (0, s2)" "ok s2" "regs s2 = (regs s1)(reg := f (regs s reg))"
    by (rule actsE [OF acts_write 1(2)])
  with 1 show "\<exists>s'. run_state (update_reg ctx reg f) s = (0, s') \<and> ok s' \<and> regs s' = (regs s)(reg := f (regs s reg))"
    by (simp add: update_reg_def)
qed

lemma acts_load: "acts regs ok (load_reg ctx reg f) (\<lambda>g. (0, f (g reg))) (\<lambda>g. g)"
proof (rule actsI)
  fix s assume "ok s"
  then obtain s1 where "run_state (ctx_read1 ctx reg (stale ctx reg)) s = ((0, regs s reg), s1)" "ok s1" "regs s1 = regs s"
    by (rule read1E)
  then show "\<exists>s'. run_state (load_reg ctx reg f) s = ((0, f (regs s reg)), s') \<and> ok s' \<and> regs s' = regs s"
    by (simp add: load_reg_def)
qed

lemma acts_loads: "acts regs ok (load_regs ctx reg1 reg2 f) (\<lambda>g. (0, f (g reg1) (g reg2))) (\<lambda>g. g)"
proof (rule actsI)
  fix s assume "ok s"
  then obtain s1 where 1: "run_state (ctx_read1 ctx reg1 (stale ctx reg1)) s = ((0, regs s reg1), s1)" "ok s1" "regs s1 = regs s"
    by (rule read1E)
  obtain s2 where "run_state (ctx_read1 ctx reg2 (stale ctx reg2)) s1 = ((0, regs s1 reg2), s2)" "ok s2" "regs s2 = regs s1"
    by (rule read1E [OF 1(2)])
  with 1 show "\<exists>s'. run_state (load_regs ctx reg1 reg2 f) s = ((0, f (regs s reg1) (regs s reg2)), s') \<and> ok s' \<and> regs s' = regs s"
    by (simp add: load_regs_def)
qed

end

section \<open>Setting, then getting\<close>

definition reads_back :: "('s \<Rightarrow> u8 \<Rightarrow> u8) \<Rightarrow> ('s \<Rightarrow> bool) \<Rightarrow> ('s, int) state \<Rightarrow> ('s, int \<times> 'a) state \<Rightarrow> 'a \<Rightarrow> bool" where
  "reads_back regs ok set_it get_it v \<longleftrightarrow>
     (\<forall>s. ok s \<longrightarrow> (\<exists>s1 s2. run_state set_it s = (0, s1) \<and> ok s1 \<and> run_state get_it s1 = ((0, v), s2) \<and> ok s2 \<and> regs s2 = regs s1))"

lemma reads_backI:
  assumes "acts regs ok m (\<lambda>_. 0) f" "acts regs ok k (\<lambda>g. (0, q g)) (\<lambda>g. g)" "\<And>g. q (f g) = v"
  shows "reads_back regs ok m k v"
  unfolding reads_back_def
proof (intro allI impI)
  fix s assume "ok s"
  then obtain s1 where 1: "run_state m s = (0, s1)" "ok s1" "regs s1 = f (regs s)"
    by (rule actsE [OF assms(1)])
  obtain s2 where "run_state k s1 = ((0, q (regs s1)), s2)" "ok s2" "regs s2 = regs s1"
    by (rule actsE [OF assms(2) 1(2)])
  with 1 assms(3) show "\<exists>s1 s2. run_state m s = (0, s1) \<and> ok s1 \<and> run_state k s1 = ((0, v), s2) \<and> ok s2 \<and> regs s2 = regs s1"
    by auto
qed

context register_device
begin

lemmas reads_back_one = reads_backI [OF acts_update acts_load]

lemmas reads_back_two = reads_backI [OF acts_update_both [OF acts_update acts_update] acts_loads]

end

section \<open>Registers in memory\<close>

definition ram_ctx :: "(u8 \<Rightarrow> u8) stm_ctx" where
  "ram_ctx =
     \<lparr>write_reg = (\<lambda>reg data g. (0, fold (\<lambda>(i, v) g. g(reg + of_nat i := v)) (enumerate 0 data) g)),
      read_reg = (\<lambda>reg buf g. (0, map (\<lambda>i. g (reg + of_nat i)) [0..<length buf], g)),
      stale = (\<lambda>_. 0)\<rparr>"

lemma ram_ctx_device: "register_device ram_ctx (\<lambda>g. g) (\<lambda>_. True)"
  by unfold_locales (simp_all add: ram_ctx_def)

end
