(* ===== verification/L3gdRegs.thy ===== *)
theory L3gdRegs
  imports VendorRegs
begin

unbundle bit_operations_syntax

text \<open>
  The register file of the gyroscope L3GD20H (src/device/peripherals/L3GD20H: l3gd20h_reg.c, l3gd20h_reg.h), one
  definition per function.  An out parameter is returned beside the code; where the code does not set it,
  its old value is an argument.  The functions only go through the context they are given.
\<close>

section \<open>Registers, structs and enumerations\<close>

definition L3GD20H_I2C_ADD_L :: u8 where "L3GD20H_I2C_ADD_L = 0xD5"
definition L3GD20H_I2C_ADD_H :: u8 where "L3GD20H_I2C_ADD_H = 0xD7"
definition L3GD20H_ID :: u8 where "L3GD20H_ID = 0xD7"
definition L3GD20H_WHO_AM_I :: u8 where "L3GD20H_WHO_AM_I = 0x0F"
definition L3GD20H_CTRL1 :: u8 where "L3GD20H_CTRL1 = 0x20"
definition L3GD20H_CTRL2 :: u8 where "L3GD20H_CTRL2 = 0x21"
definition L3GD20H_CTRL3 :: u8 where "L3GD20H_CTRL3 = 0x22"
definition L3GD20H_CTRL4 :: u8 where "L3GD20H_CTRL4 = 0x23"
definition L3GD20H_CTRL5 :: u8 where "L3GD20H_CTRL5 = 0x24"
definition L3GD20H_REFERENCE :: u8 where "L3GD20H_REFERENCE = 0x25"
definition L3GD20H_OUT_TEMP :: u8 where "L3GD20H_OUT_TEMP = 0x26"
definition L3GD20H_STATUS :: u8 where "L3GD20H_STATUS = 0x27"
definition L3GD20H_OUT_X_L :: u8 where "L3GD20H_OUT_X_L = 0x28"
definition L3GD20H_FIFO_CTRL :: u8 where "L3GD20H_FIFO_CTRL = 0x2E"
definition L3GD20H_FIFO_SRC :: u8 where "L3GD20H_FIFO_SRC = 0x2F"
definition L3GD20H_IG_CFG :: u8 where "L3GD20H_IG_CFG = 0x30"
definition L3GD20H_IG_SRC :: u8 where "L3GD20H_IG_SRC = 0x31"
definition L3GD20H_IG_THS_XH :: u8 where "L3GD20H_IG_THS_XH = 0x32"
definition L3GD20H_IG_THS_XL :: u8 where "L3GD20H_IG_THS_XL = 0x33"
definition L3GD20H_IG_THS_YH :: u8 where "L3GD20H_IG_THS_YH = 0x34"
definition L3GD20H_IG_THS_YL :: u8 where "L3GD20H_IG_THS_YL = 0x35"
definition L3GD20H_IG_THS_ZH :: u8 where "L3GD20H_IG_THS_ZH = 0x36"
definition L3GD20H_IG_THS_ZL :: u8 where "L3GD20H_IG_THS_ZL = 0x37"
definition L3GD20H_IG_DURATION :: u8 where "L3GD20H_IG_DURATION = 0x38"
definition L3GD20H_LOW_ODR :: u8 where "L3GD20H_LOW_ODR = 0x39"

lemmas l3_addresses =
  L3GD20H_I2C_ADD_L_def L3GD20H_I2C_ADD_H_def L3GD20H_ID_def L3GD20H_WHO_AM_I_def L3GD20H_CTRL1_def
  L3GD20H_CTRL2_def L3GD20H_CTRL3_def L3GD20H_CTRL4_def L3GD20H_CTRL5_def L3GD20H_REFERENCE_def
  L3GD20H_OUT_TEMP_def L3GD20H_STATUS_def L3GD20H_OUT_X_L_def L3GD20H_FIFO_CTRL_def L3GD20H_FIFO_SRC_def
  L3GD20H_IG_CFG_def L3GD20H_IG_SRC_def L3GD20H_IG_THS_XH_def L3GD20H_IG_THS_XL_def L3GD20H_IG_THS_YH_def
  L3GD20H_IG_THS_YL_def L3GD20H_IG_THS_ZH_def L3GD20H_IG_THS_ZL_def L3GD20H_IG_DURATION_def
  L3GD20H_LOW_ODR_def

definition l3gd20h_ctrl1_t :: bit_struct where
  "l3gd20h_ctrl1_t =
    [(''xen'', 1), (''yen'', 1), (''zen'', 1), (''pd'', 1), (''bw'', 2), (''dr'', 2)]"

definition l3gd20h_ctrl2_t :: bit_struct where
  "l3gd20h_ctrl2_t =
    [(''hpcf'', 4), (''hpm'', 2), (''lvlen'', 1), (''extren'', 1)]"

definition l3gd20h_ctrl3_t :: bit_struct where
  "l3gd20h_ctrl3_t =
    [(''int2_empty'', 1), (''int2_orun'', 1), (''int2_fth'', 1), (''int2_drdy'', 1),
     (''pp_od'', 1), (''h_lactive'', 1), (''int1_boot'', 1), (''int1_ig'', 1)]"

definition l3gd20h_ctrl4_t :: bit_struct where
  "l3gd20h_ctrl4_t =
    [(''sim'', 1), (''st'', 2), (''impen'', 1), (''fs'', 2), (''ble'', 1), (''bdu'', 1)]"

definition l3gd20h_ctrl5_t :: bit_struct where
  "l3gd20h_ctrl5_t =
    [(''out_sel'', 2), (''ig_sel'', 2), (''hpen'', 1),
     (''stoponfth'', 1), (''fifo_en'', 1), (''boot'', 1)]"

definition l3gd20h_status_t :: bit_struct where
  "l3gd20h_status_t =
    [(''xda'', 1), (''yda'', 1), (''zda'', 1), (''zyxda'', 1),
     (''_xor'', 1), (''yor'', 1), (''zor'', 1), (''zyxor'', 1)]"

definition l3gd20h_fifo_ctrl_t :: bit_struct where
  "l3gd20h_fifo_ctrl_t =
    [(''fth'', 5), (''fm'', 3)]"

definition l3gd20h_fifo_src_t :: bit_struct where
  "l3gd20h_fifo_src_t =
    [(''fss'', 5), (''empty'', 1), (''ovrn'', 1), (''fth'', 1)]"

definition l3gd20h_ig_cfg_t :: bit_struct where
  "l3gd20h_ig_cfg_t =
    [(''xlie'', 1), (''xhie'', 1), (''ylie'', 1), (''yhie'', 1),
     (''zlie'', 1), (''zhie'', 1), (''lir'', 1), (''and_or'', 1)]"

definition l3gd20h_ig_src_t :: bit_struct where
  "l3gd20h_ig_src_t =
    [(''xl'', 1), (''xh'', 1), (''yl'', 1), (''yh'', 1),
     (''zl'', 1), (''zh'', 1), (''ia'', 1), (''not_used_01'', 1)]"

definition l3gd20h_ig_ths_xh_t :: bit_struct where
  "l3gd20h_ig_ths_xh_t =
    [(''thsx'', 7), (''dcrm'', 1)]"

definition l3gd20h_ig_ths_xl_t :: bit_struct where
  "l3gd20h_ig_ths_xl_t =
    [(''thsx'', 8)]"

definition l3gd20h_ig_ths_yh_t :: bit_struct where
  "l3gd20h_ig_ths_yh_t =
    [(''thsy'', 7), (''not_used_01'', 1)]"

definition l3gd20h_ig_ths_yl_t :: bit_struct where
  "l3gd20h_ig_ths_yl_t =
    [(''thsy'', 8)]"

definition l3gd20h_ig_ths_zh_t :: bit_struct where
  "l3gd20h_ig_ths_zh_t =
    [(''thsz'', 7), (''not_used_01'', 1)]"

definition l3gd20h_ig_ths_zl_t :: bit_struct where
  "l3gd20h_ig_ths_zl_t =
    [(''thsz'', 8)]"

definition l3gd20h_ig_duration_t :: bit_struct where
  "l3gd20h_ig_duration_t =
    [(''d'', 7), (''wait'', 1)]"

definition l3gd20h_low_odr_t :: bit_struct where
  "l3gd20h_low_odr_t =
    [(''low_odr'', 1), (''not_used_01'', 1), (''sw_res'', 1),
     (''i2c_dis'', 1), (''not_used_02'', 1), (''drdy_hl'', 1), (''not_used_03'', 2)]"

lemmas l3_structs =
  l3gd20h_ctrl1_t_def l3gd20h_ctrl2_t_def l3gd20h_ctrl3_t_def l3gd20h_ctrl4_t_def l3gd20h_ctrl5_t_def
  l3gd20h_status_t_def l3gd20h_fifo_ctrl_t_def l3gd20h_fifo_src_t_def l3gd20h_ig_cfg_t_def
  l3gd20h_ig_src_t_def l3gd20h_ig_ths_xh_t_def l3gd20h_ig_ths_xl_t_def l3gd20h_ig_ths_yh_t_def
  l3gd20h_ig_ths_yl_t_def l3gd20h_ig_ths_zh_t_def l3gd20h_ig_ths_zl_t_def l3gd20h_ig_duration_t_def
  l3gd20h_low_odr_t_def

text \<open>The structs that the functions take and give.\<close>

record l3gd20h_gy_axis_t =
  ax_xen :: "1 word"
  ax_yen :: "1 word"
  ax_zen :: "1 word"

record l3gd20h_status_reg_t =
  sr_xda :: "1 word"
  sr_yda :: "1 word"
  sr_zda :: "1 word"
  sr_zyxda :: "1 word"
  sr_xor :: "1 word"
  sr_yor :: "1 word"
  sr_zor :: "1 word"
  sr_zyxor :: "1 word"

record l3gd20h_pin_int2_rt_t =
  i2_int2_empty :: "1 word"
  i2_int2_orun :: "1 word"
  i2_int2_fth :: "1 word"
  i2_int2_drdy :: "1 word"

record l3gd20h_pin_int1_rt_t =
  i1_int1_boot :: "1 word"
  i1_int1_ig :: "1 word"

record l3gd20h_gy_trshld_en_t =
  en_xlie :: "1 word"
  en_xhie :: "1 word"
  en_ylie :: "1 word"
  en_yhie :: "1 word"
  en_zlie :: "1 word"
  en_zhie :: "1 word"

record l3gd20h_gy_trshld_src_t =
  ts_xl :: "1 word"
  ts_xh :: "1 word"
  ts_yl :: "1 word"
  ts_yh :: "1 word"
  ts_zl :: "1 word"
  ts_zh :: "1 word"
  ts_ia :: "1 word"

record l3gd20h_fifo_srs_t =
  fs_fss :: "1 word"
  fs_empty :: "1 word"
  fs_ovrn :: "1 word"
  fs_fth :: "1 word"

text \<open>The enumerations with their codes.\<close>

datatype l3gd20h_gy_data_rate_t =
    L3GD20H_POWER_DOWN | L3GD20H_12Hz5 | L3GD20H_25Hz | L3GD20H_50Hz | L3GD20H_100Hz | L3GD20H_200Hz
    | L3GD20H_400Hz | L3GD20H_800Hz

primrec l3gd20h_gy_data_rate_code :: "l3gd20h_gy_data_rate_t \<Rightarrow> u8" where
  "l3gd20h_gy_data_rate_code L3GD20H_POWER_DOWN = 0x00"
| "l3gd20h_gy_data_rate_code L3GD20H_12Hz5 = 0x90"
| "l3gd20h_gy_data_rate_code L3GD20H_25Hz = 0x91"
| "l3gd20h_gy_data_rate_code L3GD20H_50Hz = 0x92"
| "l3gd20h_gy_data_rate_code L3GD20H_100Hz = 0x80"
| "l3gd20h_gy_data_rate_code L3GD20H_200Hz = 0x81"
| "l3gd20h_gy_data_rate_code L3GD20H_400Hz = 0x82"
| "l3gd20h_gy_data_rate_code L3GD20H_800Hz = 0x83"

datatype l3gd20h_gy_fs_t =
    L3GD20H_245dps | L3GD20H_500dps | L3GD20H_2000dps

primrec l3gd20h_gy_fs_code :: "l3gd20h_gy_fs_t \<Rightarrow> u8" where
  "l3gd20h_gy_fs_code L3GD20H_245dps = 0x00"
| "l3gd20h_gy_fs_code L3GD20H_500dps = 0x01"
| "l3gd20h_gy_fs_code L3GD20H_2000dps = 0x02"

datatype l3gd20h_ble_t =
    L3GD20H_LSB_LOW_ADDRESS | L3GD20H_MSB_LOW_ADDRESS

primrec l3gd20h_ble_code :: "l3gd20h_ble_t \<Rightarrow> u8" where
  "l3gd20h_ble_code L3GD20H_LSB_LOW_ADDRESS = 0x00"
| "l3gd20h_ble_code L3GD20H_MSB_LOW_ADDRESS = 0x01"

datatype l3gd20h_lpbw_t =
    L3GD20H_16Hz6_USE_ODR_50Hz | L3GD20H_12Hz5_USE_ODR_100Hz | L3GD20H_25Hz_USE_ODR_100Hz
    | L3GD20H_12Hz5_USE_ODR_200Hz | L3GD20H_70Hz_USE_ODR_200Hz | L3GD20H_20Hz_USE_ODR_400Hz
    | L3GD20H_25Hz_USE_ODR_400Hz | L3GD20H_50Hz_USE_ODR_400Hz | L3GD20H_110Hz_USE_ODR_400Hz
    | L3GD20H_30Hz_USE_ODR_800Hz | L3GD20H_35Hz_USE_ODR_800Hz | L3GD20H_100Hz_USE_ODR_800Hz

primrec l3gd20h_lpbw_code :: "l3gd20h_lpbw_t \<Rightarrow> u8" where
  "l3gd20h_lpbw_code L3GD20H_16Hz6_USE_ODR_50Hz = 0xA0"
| "l3gd20h_lpbw_code L3GD20H_12Hz5_USE_ODR_100Hz = 0x00"
| "l3gd20h_lpbw_code L3GD20H_25Hz_USE_ODR_100Hz = 0x01"
| "l3gd20h_lpbw_code L3GD20H_12Hz5_USE_ODR_200Hz = 0x10"
| "l3gd20h_lpbw_code L3GD20H_70Hz_USE_ODR_200Hz = 0x13"
| "l3gd20h_lpbw_code L3GD20H_20Hz_USE_ODR_400Hz = 0x20"
| "l3gd20h_lpbw_code L3GD20H_25Hz_USE_ODR_400Hz = 0x21"
| "l3gd20h_lpbw_code L3GD20H_50Hz_USE_ODR_400Hz = 0x22"
| "l3gd20h_lpbw_code L3GD20H_110Hz_USE_ODR_400Hz = 0x23"
| "l3gd20h_lpbw_code L3GD20H_30Hz_USE_ODR_800Hz = 0x30"
| "l3gd20h_lpbw_code L3GD20H_35Hz_USE_ODR_800Hz = 0x31"
| "l3gd20h_lpbw_code L3GD20H_100Hz_USE_ODR_800Hz = 0x33"

datatype l3gd20h_gy_hp_bw_t =
    L3GD20H_NORMAL_MODE_LIGHT | L3GD20H_NORMAL_MODE_NORMAL | L3GD20H_NORMAL_MODE_STRONG
    | L3GD20H_NORMAL_MODE_EXTREME | L3GD20H_USE_REFERENCE_LIGHT | L3GD20H_USE_REFERENCE_NORMAL
    | L3GD20H_USE_REFERENCE_STRONG | L3GD20H_USE_REFERENCE_EXTREME | L3GD20H_AUTORESET_LIGHT
    | L3GD20H_AUTORESET_NORMAL | L3GD20H_AUTORESET_STRONG | L3GD20H_AUTORESET_EXTREME

primrec l3gd20h_gy_hp_bw_code :: "l3gd20h_gy_hp_bw_t \<Rightarrow> u8" where
  "l3gd20h_gy_hp_bw_code L3GD20H_NORMAL_MODE_LIGHT = 0x00"
| "l3gd20h_gy_hp_bw_code L3GD20H_NORMAL_MODE_NORMAL = 0x01"
| "l3gd20h_gy_hp_bw_code L3GD20H_NORMAL_MODE_STRONG = 0x02"
| "l3gd20h_gy_hp_bw_code L3GD20H_NORMAL_MODE_EXTREME = 0x03"
| "l3gd20h_gy_hp_bw_code L3GD20H_USE_REFERENCE_LIGHT = 0x10"
| "l3gd20h_gy_hp_bw_code L3GD20H_USE_REFERENCE_NORMAL = 0x11"
| "l3gd20h_gy_hp_bw_code L3GD20H_USE_REFERENCE_STRONG = 0x12"
| "l3gd20h_gy_hp_bw_code L3GD20H_USE_REFERENCE_EXTREME = 0x13"
| "l3gd20h_gy_hp_bw_code L3GD20H_AUTORESET_LIGHT = 0x30"
| "l3gd20h_gy_hp_bw_code L3GD20H_AUTORESET_NORMAL = 0x31"
| "l3gd20h_gy_hp_bw_code L3GD20H_AUTORESET_STRONG = 0x32"
| "l3gd20h_gy_hp_bw_code L3GD20H_AUTORESET_EXTREME = 0x33"

datatype l3gd20h_gy_out_path_t =
    L3GD20H_LPF1_OUT | L3GD20H_LPF1_HPF_OUT | L3GD20H_LPF1_LPF2_OUT | L3GD20H_LPF1_HPF_LPF2_OUT

primrec l3gd20h_gy_out_path_code :: "l3gd20h_gy_out_path_t \<Rightarrow> u8" where
  "l3gd20h_gy_out_path_code L3GD20H_LPF1_OUT = 0x00"
| "l3gd20h_gy_out_path_code L3GD20H_LPF1_HPF_OUT = 0x11"
| "l3gd20h_gy_out_path_code L3GD20H_LPF1_LPF2_OUT = 0x02"
| "l3gd20h_gy_out_path_code L3GD20H_LPF1_HPF_LPF2_OUT = 0x12"

datatype l3gd20h_gy_int_path_t =
    L3GD20H_LPF1_INT | L3GD20H_LPF1_HPF_INT | L3GD20H_LPF1_LPF2_INT | L3GD20H_LPF1_HPF_LPF2_INT

primrec l3gd20h_gy_int_path_code :: "l3gd20h_gy_int_path_t \<Rightarrow> u8" where
  "l3gd20h_gy_int_path_code L3GD20H_LPF1_INT = 0x00"
| "l3gd20h_gy_int_path_code L3GD20H_LPF1_HPF_INT = 0x11"
| "l3gd20h_gy_int_path_code L3GD20H_LPF1_LPF2_INT = 0x02"
| "l3gd20h_gy_int_path_code L3GD20H_LPF1_HPF_LPF2_INT = 0x12"

datatype l3gd20h_sim_t =
    L3GD20H_SPI_4_WIRE | L3GD20H_SPI_3_WIRE

primrec l3gd20h_sim_code :: "l3gd20h_sim_t \<Rightarrow> u8" where
  "l3gd20h_sim_code L3GD20H_SPI_4_WIRE = 0x00"
| "l3gd20h_sim_code L3GD20H_SPI_3_WIRE = 0x01"

datatype l3gd20h_i2c_dis_t =
    L3GD20H_I2C_ENABLE | L3GD20H_I2C_DISABLE

primrec l3gd20h_i2c_dis_code :: "l3gd20h_i2c_dis_t \<Rightarrow> u8" where
  "l3gd20h_i2c_dis_code L3GD20H_I2C_ENABLE = 0x00"
| "l3gd20h_i2c_dis_code L3GD20H_I2C_DISABLE = 0x01"

datatype l3gd20h_pp_od_t =
    L3GD20H_PUSH_PULL | L3GD20H_OPEN_DRAIN

primrec l3gd20h_pp_od_code :: "l3gd20h_pp_od_t \<Rightarrow> u8" where
  "l3gd20h_pp_od_code L3GD20H_PUSH_PULL = 0x00"
| "l3gd20h_pp_od_code L3GD20H_OPEN_DRAIN = 0x01"

datatype l3gd20h_pin_pol_t =
    L3GD20H_ACTIVE_HIGH | L3GD20H_ACTIVE_LOW

primrec l3gd20h_pin_pol_code :: "l3gd20h_pin_pol_t \<Rightarrow> u8" where
  "l3gd20h_pin_pol_code L3GD20H_ACTIVE_HIGH = 0x00"
| "l3gd20h_pin_pol_code L3GD20H_ACTIVE_LOW = 0x01"

datatype l3gd20h_lir_t =
    L3GD20H_INT_PULSED | L3GD20H_INT_LATCHED

primrec l3gd20h_lir_code :: "l3gd20h_lir_t \<Rightarrow> u8" where
  "l3gd20h_lir_code L3GD20H_INT_PULSED = 0x00"
| "l3gd20h_lir_code L3GD20H_INT_LATCHED = 0x01"

datatype l3gd20h_pin_logic_t =
    L3GD20H_LOGIC_OR | L3GD20H_LOGIC_AND

primrec l3gd20h_pin_logic_code :: "l3gd20h_pin_logic_t \<Rightarrow> u8" where
  "l3gd20h_pin_logic_code L3GD20H_LOGIC_OR = 0x00"
| "l3gd20h_pin_logic_code L3GD20H_LOGIC_AND = 0x01"

datatype l3gd20h_dcrm_g_t =
    L3GD20H_RESET_MODE | L3GD20H_DECREMENT_MODE

primrec l3gd20h_dcrm_g_code :: "l3gd20h_dcrm_g_t \<Rightarrow> u8" where
  "l3gd20h_dcrm_g_code L3GD20H_RESET_MODE = 0x00"
| "l3gd20h_dcrm_g_code L3GD20H_DECREMENT_MODE = 0x01"

datatype l3gd20h_fifo_m_t =
    L3GD20H_BYPASS_MODE | L3GD20H_FIFO_MODE | L3GD20H_STREAM_MODE | L3GD20H_STREAM_TO_FIFO_MODE
    | L3GD20H_BYPASS_TO_STREAM_MODE | L3GD20H_DYNAMIC_STREAM_MODE | L3GD20H_BYPASS_TO_FIFO_MODE

primrec l3gd20h_fifo_m_code :: "l3gd20h_fifo_m_t \<Rightarrow> u8" where
  "l3gd20h_fifo_m_code L3GD20H_BYPASS_MODE = 0x00"
| "l3gd20h_fifo_m_code L3GD20H_FIFO_MODE = 0x11"
| "l3gd20h_fifo_m_code L3GD20H_STREAM_MODE = 0x12"
| "l3gd20h_fifo_m_code L3GD20H_STREAM_TO_FIFO_MODE = 0x13"
| "l3gd20h_fifo_m_code L3GD20H_BYPASS_TO_STREAM_MODE = 0x14"
| "l3gd20h_fifo_m_code L3GD20H_DYNAMIC_STREAM_MODE = 0x16"
| "l3gd20h_fifo_m_code L3GD20H_BYPASS_TO_FIFO_MODE = 0x17"

datatype l3gd20h_den_md_t =
    L3GD20H_DEN_DISABLE | L3GD20H_DEN_ON_LEVEL_TRIGGER | L3GD20H_DEN_ON_EDGE_TRIGGER
    | L3GD20H_DEN_IMPULSE_TRIGGER

primrec l3gd20h_den_md_code :: "l3gd20h_den_md_t \<Rightarrow> u8" where
  "l3gd20h_den_md_code L3GD20H_DEN_DISABLE = 0x00"
| "l3gd20h_den_md_code L3GD20H_DEN_ON_LEVEL_TRIGGER = 0x04"
| "l3gd20h_den_md_code L3GD20H_DEN_ON_EDGE_TRIGGER = 0x02"
| "l3gd20h_den_md_code L3GD20H_DEN_IMPULSE_TRIGGER = 0x05"

datatype l3gd20h_st_t =
    L3GD20H_ST_DISABLE | L3GD20H_ST_POSITIVE | L3GD20H_ST_NEGATIVE

primrec l3gd20h_st_code :: "l3gd20h_st_t \<Rightarrow> u8" where
  "l3gd20h_st_code L3GD20H_ST_DISABLE = 0x00"
| "l3gd20h_st_code L3GD20H_ST_POSITIVE = 0x01"
| "l3gd20h_st_code L3GD20H_ST_NEGATIVE = 0x03"

section \<open>Conversions\<close>

text \<open>The products and sums of an \<open>int16_t\<close> are exact in a \<open>float\<close>.\<close>

definition l3gd20h_from_fs245_to_mdps :: "u16 \<Rightarrow> rat" where
  "l3gd20h_from_fs245_to_mdps lsb = of_int (sint lsb) * (35 / 4)"

definition l3gd20h_from_fs500_to_mdps :: "u16 \<Rightarrow> rat" where
  "l3gd20h_from_fs500_to_mdps lsb = of_int (sint lsb) * (35 / 2)"

definition l3gd20h_from_fs2000_to_mdps :: "u16 \<Rightarrow> rat" where
  "l3gd20h_from_fs2000_to_mdps lsb = of_int (sint lsb) * 70"

definition l3gd20h_from_lsb_to_celsius :: "u16 \<Rightarrow> rat" where
  "l3gd20h_from_lsb_to_celsius lsb = of_int (sint lsb) + 25"

section \<open>Accessors\<close>

definition l3gd20h_read_reg :: "'s stm_ctx \<Rightarrow> u8 \<Rightarrow> u8 list \<Rightarrow> ('s, int \<times> u8 list) state" where
  "l3gd20h_read_reg ctx reg data = ctx_read ctx reg data"

definition l3gd20h_write_reg :: "'s stm_ctx \<Rightarrow> u8 \<Rightarrow> u8 list \<Rightarrow> ('s, int) state" where
  "l3gd20h_write_reg ctx reg data = ctx_write ctx reg data"

definition l3gd20h_gy_axis_set :: "'s stm_ctx \<Rightarrow> l3gd20h_gy_axis_t \<Rightarrow> ('s, int) state" where
  "l3gd20h_gy_axis_set ctx val =
     update_reg ctx L3GD20H_CTRL1 (\<lambda>ctrl1. bit_puts l3gd20h_ctrl1_t
       [(''xen'', ucast (ax_xen val)), (''yen'', ucast (ax_yen val)),
        (''zen'', ucast (ax_zen val))] ctrl1)"

definition l3gd20h_gy_axis_get :: "'s stm_ctx \<Rightarrow> ('s, int \<times> l3gd20h_gy_axis_t) state" where
  "l3gd20h_gy_axis_get ctx =
     load_reg ctx L3GD20H_CTRL1 (\<lambda>ctrl1.
       \<lparr>ax_xen = ucast (bit_get l3gd20h_ctrl1_t ''xen'' ctrl1),
         ax_yen = ucast (bit_get l3gd20h_ctrl1_t ''yen'' ctrl1),
         ax_zen = ucast (bit_get l3gd20h_ctrl1_t ''zen'' ctrl1)\<rparr>)"

definition l3gd20h_gy_data_rate_set :: "'s stm_ctx \<Rightarrow> l3gd20h_gy_data_rate_t \<Rightarrow> ('s, int) state" where
  "l3gd20h_gy_data_rate_set ctx val =
     update_both
       (update_reg ctx L3GD20H_CTRL1 (\<lambda>ctrl1. bit_puts l3gd20h_ctrl1_t
       [(''pd'', drop_bit 7 (l3gd20h_gy_data_rate_code val AND 0x80)),
        (''dr'', l3gd20h_gy_data_rate_code val AND 0x07)] ctrl1))
       (update_reg ctx L3GD20H_LOW_ODR (\<lambda>low_odr. bit_put l3gd20h_low_odr_t ''low_odr'' (drop_bit 4 (l3gd20h_gy_data_rate_code val AND 0x10)) low_odr))"

definition l3gd20h_gy_data_rate_get :: "'s stm_ctx \<Rightarrow> ('s, int \<times> l3gd20h_gy_data_rate_t) state" where
  "l3gd20h_gy_data_rate_get ctx =
     load_regs ctx L3GD20H_CTRL1 L3GD20H_LOW_ODR (\<lambda>ctrl1 low_odr.
       switch_code l3gd20h_gy_data_rate_code
         [L3GD20H_POWER_DOWN, L3GD20H_12Hz5, L3GD20H_25Hz, L3GD20H_50Hz, L3GD20H_100Hz,
          L3GD20H_200Hz, L3GD20H_400Hz, L3GD20H_800Hz] L3GD20H_POWER_DOWN
         (push_bit 7 (bit_get l3gd20h_ctrl1_t ''pd'' ctrl1) + push_bit 4 (bit_get l3gd20h_low_odr_t ''low_odr'' low_odr) + bit_get l3gd20h_ctrl1_t ''dr'' ctrl1))"

definition l3gd20h_gy_full_scale_set :: "'s stm_ctx \<Rightarrow> l3gd20h_gy_fs_t \<Rightarrow> ('s, int) state" where
  "l3gd20h_gy_full_scale_set ctx val =
     update_reg ctx L3GD20H_CTRL4 (\<lambda>ctrl4. bit_put l3gd20h_ctrl4_t ''fs'' (l3gd20h_gy_fs_code val) ctrl4)"

definition l3gd20h_gy_full_scale_get :: "'s stm_ctx \<Rightarrow> ('s, int \<times> l3gd20h_gy_fs_t) state" where
  "l3gd20h_gy_full_scale_get ctx =
     load_reg ctx L3GD20H_CTRL4 (\<lambda>ctrl4.
       switch_code l3gd20h_gy_fs_code
         [L3GD20H_245dps, L3GD20H_500dps] L3GD20H_245dps
         (bit_get l3gd20h_ctrl4_t ''fs'' ctrl4))"

definition l3gd20h_block_data_update_set :: "'s stm_ctx \<Rightarrow> u8 \<Rightarrow> ('s, int) state" where
  "l3gd20h_block_data_update_set ctx val =
     update_reg ctx L3GD20H_CTRL4 (\<lambda>ctrl4. bit_put l3gd20h_ctrl4_t ''bdu'' val ctrl4)"

definition l3gd20h_block_data_update_get :: "'s stm_ctx \<Rightarrow> ('s, int \<times> u8) state" where
  "l3gd20h_block_data_update_get ctx = load_reg ctx L3GD20H_CTRL4 (\<lambda>ctrl4. bit_get l3gd20h_ctrl4_t ''bdu'' ctrl4)"

definition l3gd20h_gy_flag_data_ready_get :: "'s stm_ctx \<Rightarrow> ('s, int \<times> u8) state" where
  "l3gd20h_gy_flag_data_ready_get ctx = load_reg ctx L3GD20H_STATUS (\<lambda>status. bit_get l3gd20h_status_t ''zyxda'' status)"

definition l3gd20h_dev_data_format_set :: "'s stm_ctx \<Rightarrow> l3gd20h_ble_t \<Rightarrow> ('s, int) state" where
  "l3gd20h_dev_data_format_set ctx val =
     update_reg ctx L3GD20H_CTRL4 (\<lambda>ctrl4. bit_put l3gd20h_ctrl4_t ''ble'' (l3gd20h_ble_code val) ctrl4)"

definition l3gd20h_dev_data_format_get :: "'s stm_ctx \<Rightarrow> ('s, int \<times> l3gd20h_ble_t) state" where
  "l3gd20h_dev_data_format_get ctx =
     load_reg ctx L3GD20H_CTRL4 (\<lambda>ctrl4.
       switch_code l3gd20h_ble_code
         [L3GD20H_LSB_LOW_ADDRESS, L3GD20H_MSB_LOW_ADDRESS] L3GD20H_LSB_LOW_ADDRESS
         (bit_get l3gd20h_ctrl4_t ''ble'' ctrl4))"

definition l3gd20h_dev_boot_set :: "'s stm_ctx \<Rightarrow> u8 \<Rightarrow> ('s, int) state" where
  "l3gd20h_dev_boot_set ctx val =
     update_reg ctx L3GD20H_CTRL5 (\<lambda>ctrl5. bit_put l3gd20h_ctrl5_t ''boot'' val ctrl5)"

definition l3gd20h_dev_boot_get :: "'s stm_ctx \<Rightarrow> ('s, int \<times> u8) state" where
  "l3gd20h_dev_boot_get ctx = load_reg ctx L3GD20H_CTRL5 (\<lambda>ctrl5. bit_get l3gd20h_ctrl5_t ''boot'' ctrl5)"

definition l3gd20h_dev_status_get :: "'s stm_ctx \<Rightarrow> ('s, int \<times> l3gd20h_status_reg_t) state" where
  "l3gd20h_dev_status_get ctx =
     load_reg ctx L3GD20H_STATUS (\<lambda>status.
       \<lparr>sr_xda = ucast (bit_get l3gd20h_status_t ''xda'' status),
         sr_yda = ucast (bit_get l3gd20h_status_t ''yda'' status),
         sr_zda = ucast (bit_get l3gd20h_status_t ''zda'' status),
         sr_zyxda = ucast (bit_get l3gd20h_status_t ''zyxda'' status),
         sr_xor = ucast (bit_get l3gd20h_status_t ''_xor'' status),
         sr_yor = ucast (bit_get l3gd20h_status_t ''yor'' status),
         sr_zor = ucast (bit_get l3gd20h_status_t ''zor'' status),
         sr_zyxor = ucast (bit_get l3gd20h_status_t ''zyxor'' status)\<rparr>)"

definition l3gd20h_dev_reset_set :: "'s stm_ctx \<Rightarrow> u8 \<Rightarrow> ('s, int) state" where
  "l3gd20h_dev_reset_set ctx val =
     update_reg ctx L3GD20H_LOW_ODR (\<lambda>low_odr. bit_put l3gd20h_low_odr_t ''sw_res'' val low_odr)"

definition l3gd20h_dev_reset_get :: "'s stm_ctx \<Rightarrow> ('s, int \<times> u8) state" where
  "l3gd20h_dev_reset_get ctx = load_reg ctx L3GD20H_LOW_ODR (\<lambda>low_odr. bit_get l3gd20h_low_odr_t ''sw_res'' low_odr)"

definition l3gd20h_gy_filter_lp_bandwidth_set :: "'s stm_ctx \<Rightarrow> l3gd20h_lpbw_t \<Rightarrow> ('s, int) state" where
  "l3gd20h_gy_filter_lp_bandwidth_set ctx val =
     update_reg ctx L3GD20H_CTRL1 (\<lambda>ctrl1. bit_put l3gd20h_ctrl1_t ''bw'' (l3gd20h_lpbw_code val) ctrl1)"

definition l3gd20h_gy_filter_lp_bandwidth_get :: "'s stm_ctx \<Rightarrow> ('s, int \<times> l3gd20h_lpbw_t) state" where
  "l3gd20h_gy_filter_lp_bandwidth_get ctx =
     load_regs ctx L3GD20H_CTRL1 L3GD20H_LOW_ODR (\<lambda>ctrl1 low_odr.
       switch_code l3gd20h_lpbw_code
         [L3GD20H_16Hz6_USE_ODR_50Hz, L3GD20H_12Hz5_USE_ODR_100Hz, L3GD20H_25Hz_USE_ODR_100Hz,
          L3GD20H_12Hz5_USE_ODR_200Hz, L3GD20H_70Hz_USE_ODR_200Hz, L3GD20H_20Hz_USE_ODR_400Hz,
          L3GD20H_25Hz_USE_ODR_400Hz, L3GD20H_50Hz_USE_ODR_400Hz, L3GD20H_110Hz_USE_ODR_400Hz,
          L3GD20H_30Hz_USE_ODR_800Hz, L3GD20H_35Hz_USE_ODR_800Hz, L3GD20H_100Hz_USE_ODR_800Hz] L3GD20H_16Hz6_USE_ODR_50Hz
         (push_bit 7 (bit_get l3gd20h_low_odr_t ''low_odr'' low_odr) + push_bit 4 (bit_get l3gd20h_ctrl1_t ''dr'' ctrl1) + bit_get l3gd20h_ctrl1_t ''bw'' ctrl1))"

definition l3gd20h_gy_filter_hp_bandwidth_set :: "'s stm_ctx \<Rightarrow> l3gd20h_gy_hp_bw_t \<Rightarrow> ('s, int) state" where
  "l3gd20h_gy_filter_hp_bandwidth_set ctx val =
     update_reg ctx L3GD20H_CTRL2 (\<lambda>ctrl2. bit_puts l3gd20h_ctrl2_t
       [(''hpcf'', l3gd20h_gy_hp_bw_code val AND 0x03),
        (''hpm'', drop_bit 4 (l3gd20h_gy_hp_bw_code val AND 0x30))] ctrl2)"

definition l3gd20h_gy_filter_out_path_set :: "'s stm_ctx \<Rightarrow> l3gd20h_gy_out_path_t \<Rightarrow> ('s, int) state" where
  "l3gd20h_gy_filter_out_path_set ctx val =
     update_reg ctx L3GD20H_CTRL5 (\<lambda>ctrl5. bit_puts l3gd20h_ctrl5_t
       [(''out_sel'', l3gd20h_gy_out_path_code val AND 0x03),
        (''hpen'', drop_bit 4 (l3gd20h_gy_out_path_code val AND 0x10))] ctrl5)"

definition l3gd20h_gy_filter_out_path_get :: "'s stm_ctx \<Rightarrow> ('s, int \<times> l3gd20h_gy_out_path_t) state" where
  "l3gd20h_gy_filter_out_path_get ctx =
     load_reg ctx L3GD20H_CTRL5 (\<lambda>ctrl5.
       switch_code l3gd20h_gy_out_path_code
         [L3GD20H_LPF1_OUT, L3GD20H_LPF1_HPF_OUT, L3GD20H_LPF1_LPF2_OUT, L3GD20H_LPF1_HPF_LPF2_OUT] L3GD20H_LPF1_OUT
         (push_bit 4 (bit_get l3gd20h_ctrl5_t ''hpen'' ctrl5) + bit_get l3gd20h_ctrl5_t ''out_sel'' ctrl5))"

definition l3gd20h_gy_filter_int_path_set :: "'s stm_ctx \<Rightarrow> l3gd20h_gy_int_path_t \<Rightarrow> ('s, int) state" where
  "l3gd20h_gy_filter_int_path_set ctx val =
     update_reg ctx L3GD20H_CTRL5 (\<lambda>ctrl5. bit_puts l3gd20h_ctrl5_t
       [(''ig_sel'', l3gd20h_gy_int_path_code val AND 0x03),
        (''hpen'', drop_bit 4 (l3gd20h_gy_int_path_code val AND 0x10))] ctrl5)"

definition l3gd20h_gy_filter_int_path_get :: "'s stm_ctx \<Rightarrow> ('s, int \<times> l3gd20h_gy_int_path_t) state" where
  "l3gd20h_gy_filter_int_path_get ctx =
     load_reg ctx L3GD20H_CTRL5 (\<lambda>ctrl5.
       switch_code l3gd20h_gy_int_path_code
         [L3GD20H_LPF1_INT, L3GD20H_LPF1_HPF_INT, L3GD20H_LPF1_LPF2_INT, L3GD20H_LPF1_HPF_LPF2_INT] L3GD20H_LPF1_INT
         (push_bit 4 (bit_get l3gd20h_ctrl5_t ''hpen'' ctrl5) + bit_get l3gd20h_ctrl5_t ''ig_sel'' ctrl5))"

definition l3gd20h_spi_mode_set :: "'s stm_ctx \<Rightarrow> l3gd20h_sim_t \<Rightarrow> ('s, int) state" where
  "l3gd20h_spi_mode_set ctx val =
     update_reg ctx L3GD20H_CTRL4 (\<lambda>ctrl4. bit_put l3gd20h_ctrl4_t ''sim'' (l3gd20h_sim_code val) ctrl4)"

definition l3gd20h_spi_mode_get :: "'s stm_ctx \<Rightarrow> ('s, int \<times> l3gd20h_sim_t) state" where
  "l3gd20h_spi_mode_get ctx =
     load_reg ctx L3GD20H_CTRL4 (\<lambda>ctrl4.
       switch_code l3gd20h_sim_code
         [L3GD20H_SPI_4_WIRE, L3GD20H_SPI_3_WIRE] L3GD20H_SPI_4_WIRE
         (bit_get l3gd20h_ctrl4_t ''sim'' ctrl4))"

definition l3gd20h_i2c_interface_set :: "'s stm_ctx \<Rightarrow> l3gd20h_i2c_dis_t \<Rightarrow> ('s, int) state" where
  "l3gd20h_i2c_interface_set ctx val =
     update_reg ctx L3GD20H_LOW_ODR (\<lambda>low_odr. bit_put l3gd20h_low_odr_t ''i2c_dis'' (l3gd20h_i2c_dis_code val) low_odr)"

definition l3gd20h_i2c_interface_get :: "'s stm_ctx \<Rightarrow> ('s, int \<times> l3gd20h_i2c_dis_t) state" where
  "l3gd20h_i2c_interface_get ctx =
     load_reg ctx L3GD20H_LOW_ODR (\<lambda>low_odr.
       switch_code l3gd20h_i2c_dis_code
         [L3GD20H_I2C_ENABLE, L3GD20H_I2C_DISABLE] L3GD20H_I2C_ENABLE
         (bit_get l3gd20h_low_odr_t ''i2c_dis'' low_odr))"

definition l3gd20h_pin_int2_route_set :: "'s stm_ctx \<Rightarrow> l3gd20h_pin_int2_rt_t \<Rightarrow> ('s, int) state" where
  "l3gd20h_pin_int2_route_set ctx val =
     update_reg ctx L3GD20H_CTRL3 (\<lambda>ctrl3. bit_puts l3gd20h_ctrl3_t
       [(''int2_empty'', ucast (i2_int2_empty val)), (''int2_fth'', ucast (i2_int2_fth val)),
        (''int2_orun'', ucast (i2_int2_orun val)), (''int2_drdy'', ucast (i2_int2_drdy val))] ctrl3)"

definition l3gd20h_pin_int2_route_get :: "'s stm_ctx \<Rightarrow> ('s, int \<times> l3gd20h_pin_int2_rt_t) state" where
  "l3gd20h_pin_int2_route_get ctx =
     load_reg ctx L3GD20H_CTRL3 (\<lambda>ctrl3.
       \<lparr>i2_int2_empty = ucast (bit_get l3gd20h_ctrl3_t ''int2_empty'' ctrl3),
         i2_int2_orun = ucast (bit_get l3gd20h_ctrl3_t ''int2_orun'' ctrl3),
         i2_int2_fth = ucast (bit_get l3gd20h_ctrl3_t ''int2_fth'' ctrl3),
         i2_int2_drdy = ucast (bit_get l3gd20h_ctrl3_t ''int2_drdy'' ctrl3)\<rparr>)"

definition l3gd20h_pin_mode_set :: "'s stm_ctx \<Rightarrow> l3gd20h_pp_od_t \<Rightarrow> ('s, int) state" where
  "l3gd20h_pin_mode_set ctx val =
     update_reg ctx L3GD20H_CTRL3 (\<lambda>ctrl3. bit_put l3gd20h_ctrl3_t ''pp_od'' (l3gd20h_pp_od_code val) ctrl3)"

definition l3gd20h_pin_mode_get :: "'s stm_ctx \<Rightarrow> ('s, int \<times> l3gd20h_pp_od_t) state" where
  "l3gd20h_pin_mode_get ctx =
     load_reg ctx L3GD20H_CTRL3 (\<lambda>ctrl3.
       switch_code l3gd20h_pp_od_code
         [L3GD20H_PUSH_PULL, L3GD20H_OPEN_DRAIN] L3GD20H_PUSH_PULL
         (bit_get l3gd20h_ctrl3_t ''pp_od'' ctrl3))"

definition l3gd20h_pin_polarity_set :: "'s stm_ctx \<Rightarrow> l3gd20h_pin_pol_t \<Rightarrow> ('s, int) state" where
  "l3gd20h_pin_polarity_set ctx val =
     update_both
       (update_reg ctx L3GD20H_LOW_ODR (\<lambda>low_odr. bit_put l3gd20h_low_odr_t ''drdy_hl'' (l3gd20h_pin_pol_code val) low_odr))
       (update_reg ctx L3GD20H_CTRL3 (\<lambda>ctrl3. bit_put l3gd20h_ctrl3_t ''h_lactive'' (l3gd20h_pin_pol_code val) ctrl3))"

definition l3gd20h_pin_polarity_get :: "'s stm_ctx \<Rightarrow> ('s, int \<times> l3gd20h_pin_pol_t) state" where
  "l3gd20h_pin_polarity_get ctx =
     load_reg ctx L3GD20H_CTRL3 (\<lambda>ctrl3.
       switch_code l3gd20h_pin_pol_code
         [L3GD20H_ACTIVE_HIGH, L3GD20H_ACTIVE_LOW] L3GD20H_ACTIVE_HIGH
         (bit_get l3gd20h_ctrl3_t ''h_lactive'' ctrl3))"

definition l3gd20h_pin_int1_route_set :: "'s stm_ctx \<Rightarrow> l3gd20h_pin_int1_rt_t \<Rightarrow> ('s, int) state" where
  "l3gd20h_pin_int1_route_set ctx val =
     update_reg ctx L3GD20H_CTRL3 (\<lambda>ctrl3. bit_puts l3gd20h_ctrl3_t
       [(''int1_boot'', ucast (i1_int1_boot val)), (''int1_ig'', ucast (i1_int1_ig val))] ctrl3)"

definition l3gd20h_pin_int1_route_get :: "'s stm_ctx \<Rightarrow> ('s, int \<times> l3gd20h_pin_int1_rt_t) state" where
  "l3gd20h_pin_int1_route_get ctx =
     load_reg ctx L3GD20H_CTRL3 (\<lambda>ctrl3.
       \<lparr>i1_int1_boot = ucast (bit_get l3gd20h_ctrl3_t ''int1_boot'' ctrl3),
         i1_int1_ig = ucast (bit_get l3gd20h_ctrl3_t ''int1_ig'' ctrl3)\<rparr>)"

definition l3gd20h_pin_notification_set :: "'s stm_ctx \<Rightarrow> l3gd20h_lir_t \<Rightarrow> ('s, int) state" where
  "l3gd20h_pin_notification_set ctx val =
     update_reg ctx L3GD20H_IG_CFG (\<lambda>ig_cfg. bit_put l3gd20h_ig_cfg_t ''lir'' (l3gd20h_lir_code val) ig_cfg)"

definition l3gd20h_pin_notification_get :: "'s stm_ctx \<Rightarrow> ('s, int \<times> l3gd20h_lir_t) state" where
  "l3gd20h_pin_notification_get ctx =
     load_reg ctx L3GD20H_IG_CFG (\<lambda>ig_cfg.
       switch_code l3gd20h_lir_code
         [L3GD20H_INT_PULSED, L3GD20H_INT_LATCHED] L3GD20H_INT_PULSED
         (bit_get l3gd20h_ig_cfg_t ''lir'' ig_cfg))"

definition l3gd20h_pin_logic_set :: "'s stm_ctx \<Rightarrow> l3gd20h_pin_logic_t \<Rightarrow> ('s, int) state" where
  "l3gd20h_pin_logic_set ctx val =
     update_reg ctx L3GD20H_IG_CFG (\<lambda>ig_cfg. bit_put l3gd20h_ig_cfg_t ''and_or'' (l3gd20h_pin_logic_code val) ig_cfg)"

definition l3gd20h_pin_logic_get :: "'s stm_ctx \<Rightarrow> ('s, int \<times> l3gd20h_pin_logic_t) state" where
  "l3gd20h_pin_logic_get ctx =
     load_reg ctx L3GD20H_IG_CFG (\<lambda>ig_cfg.
       switch_code l3gd20h_pin_logic_code
         [L3GD20H_LOGIC_OR, L3GD20H_LOGIC_AND] L3GD20H_LOGIC_OR
         (bit_get l3gd20h_ig_cfg_t ''and_or'' ig_cfg))"

definition l3gd20h_gy_trshld_axis_set :: "'s stm_ctx \<Rightarrow> l3gd20h_gy_trshld_en_t \<Rightarrow> ('s, int) state" where
  "l3gd20h_gy_trshld_axis_set ctx val =
     update_reg ctx L3GD20H_IG_CFG (\<lambda>ig_cfg. bit_puts l3gd20h_ig_cfg_t
       [(''xlie'', ucast (en_xlie val)), (''xhie'', ucast (en_xhie val)),
        (''ylie'', ucast (en_ylie val)), (''yhie'', ucast (en_yhie val)),
        (''zlie'', ucast (en_zlie val)), (''zhie'', ucast (en_zhie val))] ig_cfg)"

definition l3gd20h_gy_trshld_axis_get :: "'s stm_ctx \<Rightarrow> ('s, int \<times> l3gd20h_gy_trshld_en_t) state" where
  "l3gd20h_gy_trshld_axis_get ctx =
     load_reg ctx L3GD20H_IG_CFG (\<lambda>ig_cfg.
       \<lparr>en_xlie = ucast (bit_get l3gd20h_ig_cfg_t ''xlie'' ig_cfg),
         en_xhie = ucast (bit_get l3gd20h_ig_cfg_t ''xhie'' ig_cfg),
         en_ylie = ucast (bit_get l3gd20h_ig_cfg_t ''ylie'' ig_cfg),
         en_yhie = ucast (bit_get l3gd20h_ig_cfg_t ''yhie'' ig_cfg),
         en_zlie = ucast (bit_get l3gd20h_ig_cfg_t ''zlie'' ig_cfg),
         en_zhie = ucast (bit_get l3gd20h_ig_cfg_t ''zhie'' ig_cfg)\<rparr>)"

definition l3gd20h_gy_trshld_src_get :: "'s stm_ctx \<Rightarrow> ('s, int \<times> l3gd20h_gy_trshld_src_t) state" where
  "l3gd20h_gy_trshld_src_get ctx =
     load_reg ctx L3GD20H_IG_SRC (\<lambda>ig_src.
       \<lparr>ts_xl = ucast (bit_get l3gd20h_ig_src_t ''xl'' ig_src),
         ts_xh = ucast (bit_get l3gd20h_ig_src_t ''xh'' ig_src),
         ts_yl = ucast (bit_get l3gd20h_ig_src_t ''yl'' ig_src),
         ts_yh = ucast (bit_get l3gd20h_ig_src_t ''yh'' ig_src),
         ts_zl = ucast (bit_get l3gd20h_ig_src_t ''zl'' ig_src),
         ts_zh = ucast (bit_get l3gd20h_ig_src_t ''zh'' ig_src),
         ts_ia = ucast (bit_get l3gd20h_ig_src_t ''ia'' ig_src)\<rparr>)"

definition l3gd20h_gy_trshld_mode_set :: "'s stm_ctx \<Rightarrow> l3gd20h_dcrm_g_t \<Rightarrow> ('s, int) state" where
  "l3gd20h_gy_trshld_mode_set ctx val =
     update_reg ctx L3GD20H_IG_THS_XH (\<lambda>ig_ths_xh. bit_put l3gd20h_ig_ths_xh_t ''dcrm'' (l3gd20h_dcrm_g_code val) ig_ths_xh)"

definition l3gd20h_gy_trshld_mode_get :: "'s stm_ctx \<Rightarrow> ('s, int \<times> l3gd20h_dcrm_g_t) state" where
  "l3gd20h_gy_trshld_mode_get ctx =
     load_reg ctx L3GD20H_IG_THS_XH (\<lambda>ig_ths_xh.
       switch_code l3gd20h_dcrm_g_code
         [L3GD20H_RESET_MODE, L3GD20H_DECREMENT_MODE] L3GD20H_RESET_MODE
         (bit_get l3gd20h_ig_ths_xh_t ''dcrm'' ig_ths_xh))"

definition l3gd20h_gy_trshld_min_sample_get :: "'s stm_ctx \<Rightarrow> ('s, int \<times> u8) state" where
  "l3gd20h_gy_trshld_min_sample_get ctx = load_reg ctx L3GD20H_IG_DURATION (\<lambda>ig_duration. bit_get l3gd20h_ig_duration_t ''d'' ig_duration)"

definition l3gd20h_fifo_stop_on_wtm_set :: "'s stm_ctx \<Rightarrow> u8 \<Rightarrow> ('s, int) state" where
  "l3gd20h_fifo_stop_on_wtm_set ctx val =
     update_reg ctx L3GD20H_CTRL5 (\<lambda>ctrl5. bit_put l3gd20h_ctrl5_t ''stoponfth'' val ctrl5)"

definition l3gd20h_fifo_stop_on_wtm_get :: "'s stm_ctx \<Rightarrow> ('s, int \<times> u8) state" where
  "l3gd20h_fifo_stop_on_wtm_get ctx = load_reg ctx L3GD20H_CTRL5 (\<lambda>ctrl5. bit_get l3gd20h_ctrl5_t ''stoponfth'' ctrl5)"

definition l3gd20h_fifo_mode_set :: "'s stm_ctx \<Rightarrow> l3gd20h_fifo_m_t \<Rightarrow> ('s, int) state" where
  "l3gd20h_fifo_mode_set ctx val =
     update_both
       (update_reg ctx L3GD20H_FIFO_CTRL (\<lambda>fifo_ctrl. bit_put l3gd20h_fifo_ctrl_t ''fm'' (l3gd20h_fifo_m_code val AND 0x07) fifo_ctrl))
       (update_reg ctx L3GD20H_CTRL5 (\<lambda>ctrl5. bit_put l3gd20h_ctrl5_t ''fifo_en'' (drop_bit 4 (l3gd20h_fifo_m_code val AND 0x10)) ctrl5))"

definition l3gd20h_fifo_mode_get :: "'s stm_ctx \<Rightarrow> ('s, int \<times> l3gd20h_fifo_m_t) state" where
  "l3gd20h_fifo_mode_get ctx =
     load_regs ctx L3GD20H_FIFO_CTRL L3GD20H_CTRL5 (\<lambda>fifo_ctrl ctrl5.
       switch_code l3gd20h_fifo_m_code
         [L3GD20H_BYPASS_MODE, L3GD20H_FIFO_MODE, L3GD20H_STREAM_MODE, L3GD20H_STREAM_TO_FIFO_MODE,
          L3GD20H_BYPASS_TO_STREAM_MODE, L3GD20H_BYPASS_TO_FIFO_MODE] L3GD20H_BYPASS_MODE
         (push_bit 4 (bit_get l3gd20h_ctrl5_t ''fifo_en'' ctrl5) + bit_get l3gd20h_fifo_ctrl_t ''fm'' fifo_ctrl))"

definition l3gd20h_fifo_watermark_set :: "'s stm_ctx \<Rightarrow> u8 \<Rightarrow> ('s, int) state" where
  "l3gd20h_fifo_watermark_set ctx val =
     update_reg ctx L3GD20H_FIFO_CTRL (\<lambda>fifo_ctrl. bit_put l3gd20h_fifo_ctrl_t ''fth'' val fifo_ctrl)"

definition l3gd20h_fifo_watermark_get :: "'s stm_ctx \<Rightarrow> ('s, int \<times> u8) state" where
  "l3gd20h_fifo_watermark_get ctx = load_reg ctx L3GD20H_FIFO_CTRL (\<lambda>fifo_ctrl. bit_get l3gd20h_fifo_ctrl_t ''fth'' fifo_ctrl)"

definition l3gd20h_fifo_src_get :: "'s stm_ctx \<Rightarrow> ('s, int \<times> l3gd20h_fifo_srs_t) state" where
  "l3gd20h_fifo_src_get ctx =
     load_reg ctx L3GD20H_FIFO_SRC (\<lambda>fifo_src.
       \<lparr>fs_fss = ucast (bit_get l3gd20h_fifo_src_t ''fss'' fifo_src),
         fs_empty = ucast (bit_get l3gd20h_fifo_src_t ''empty'' fifo_src),
         fs_ovrn = ucast (bit_get l3gd20h_fifo_src_t ''ovrn'' fifo_src),
         fs_fth = ucast (bit_get l3gd20h_fifo_src_t ''fth'' fifo_src)\<rparr>)"

definition l3gd20h_fifo_data_level_get :: "'s stm_ctx \<Rightarrow> ('s, int \<times> u8) state" where
  "l3gd20h_fifo_data_level_get ctx = load_reg ctx L3GD20H_FIFO_SRC (\<lambda>fifo_src. bit_get l3gd20h_fifo_src_t ''fss'' fifo_src)"

definition l3gd20h_fifo_full_flag_get :: "'s stm_ctx \<Rightarrow> ('s, int \<times> u8) state" where
  "l3gd20h_fifo_full_flag_get ctx = load_reg ctx L3GD20H_FIFO_SRC (\<lambda>fifo_src. bit_get l3gd20h_fifo_src_t ''fss'' fifo_src)"

definition l3gd20h_fifo_wtm_flag_get :: "'s stm_ctx \<Rightarrow> ('s, int \<times> u8) state" where
  "l3gd20h_fifo_wtm_flag_get ctx = load_reg ctx L3GD20H_FIFO_SRC (\<lambda>fifo_src. bit_get l3gd20h_fifo_src_t ''fth'' fifo_src)"

definition l3gd20h_den_mode_set :: "'s stm_ctx \<Rightarrow> l3gd20h_den_md_t \<Rightarrow> ('s, int) state" where
  "l3gd20h_den_mode_set ctx val =
     update_both
       (update_reg ctx L3GD20H_CTRL4 (\<lambda>ctrl4. bit_put l3gd20h_ctrl4_t ''impen'' (l3gd20h_den_md_code val AND 0x01) ctrl4))
       (update_reg ctx L3GD20H_CTRL2 (\<lambda>ctrl2. bit_puts l3gd20h_ctrl2_t
       [(''lvlen'', drop_bit 2 (l3gd20h_den_md_code val AND 0x04)),
        (''extren'', drop_bit 1 (l3gd20h_den_md_code val AND 0x02))] ctrl2))"

definition l3gd20h_den_mode_get :: "'s stm_ctx \<Rightarrow> ('s, int \<times> l3gd20h_den_md_t) state" where
  "l3gd20h_den_mode_get ctx =
     load_regs ctx L3GD20H_CTRL4 L3GD20H_CTRL2 (\<lambda>ctrl4 ctrl2.
       switch_code l3gd20h_den_md_code
         [L3GD20H_DEN_DISABLE, L3GD20H_DEN_ON_LEVEL_TRIGGER, L3GD20H_DEN_ON_EDGE_TRIGGER,
          L3GD20H_DEN_IMPULSE_TRIGGER] L3GD20H_DEN_DISABLE
         (push_bit 2 (bit_get l3gd20h_ctrl2_t ''lvlen'' ctrl2) + push_bit 1 (bit_get l3gd20h_ctrl2_t ''extren'' ctrl2) + bit_get l3gd20h_ctrl4_t ''impen'' ctrl4))"

definition l3gd20h_gy_self_test_set :: "'s stm_ctx \<Rightarrow> l3gd20h_st_t \<Rightarrow> ('s, int) state" where
  "l3gd20h_gy_self_test_set ctx val =
     update_reg ctx L3GD20H_CTRL4 (\<lambda>ctrl4. bit_put l3gd20h_ctrl4_t ''st'' (l3gd20h_st_code val) ctrl4)"

definition l3gd20h_gy_self_test_get :: "'s stm_ctx \<Rightarrow> ('s, int \<times> l3gd20h_st_t) state" where
  "l3gd20h_gy_self_test_get ctx =
     load_reg ctx L3GD20H_CTRL4 (\<lambda>ctrl4.
       switch_code l3gd20h_st_code
         [L3GD20H_ST_DISABLE, L3GD20H_ST_POSITIVE, L3GD20H_ST_NEGATIVE] L3GD20H_ST_DISABLE
         (bit_get l3gd20h_ctrl4_t ''st'' ctrl4))"

section \<open>Accessors of another shape\<close>

definition l3gd20h_temperature_raw_get :: "'s stm_ctx \<Rightarrow> u8 \<Rightarrow> ('s, int \<times> u8) state" where
  "l3gd20h_temperature_raw_get ctx buff = ctx_read1 ctx L3GD20H_OUT_TEMP buff"

definition l3gd20h_dev_id_get :: "'s stm_ctx \<Rightarrow> u8 \<Rightarrow> ('s, int \<times> u8) state" where
  "l3gd20h_dev_id_get ctx buff = ctx_read1 ctx L3GD20H_WHO_AM_I buff"

definition l3gd20h_gy_filter_reference_set :: "'s stm_ctx \<Rightarrow> u8 \<Rightarrow> ('s, int) state" where
  "l3gd20h_gy_filter_reference_set ctx buff = ctx_write ctx L3GD20H_REFERENCE [buff]"

definition l3gd20h_gy_filter_reference_get :: "'s stm_ctx \<Rightarrow> u8 \<Rightarrow> ('s, int \<times> u8) state" where
  "l3gd20h_gy_filter_reference_get ctx buff = ctx_read1 ctx L3GD20H_REFERENCE buff"

text \<open>The three rates, X, Y and Z, as words of an \<open>int16_t\<close>.\<close>

definition l3gd20h_angular_rate_raw_get :: "'s stm_ctx \<Rightarrow> ('s, int \<times> u16 list) state" where
  "l3gd20h_angular_rate_raw_get ctx = do {
     (ret, buff) \<leftarrow> ctx_read ctx L3GD20H_OUT_X_L (map (\<lambda>i. stale ctx (L3GD20H_OUT_X_L + of_nat i)) [0..<6]);
     State_Monad.return (ret, [join16 (buff ! 1) (buff ! 0), join16 (buff ! 3) (buff ! 2), join16 (buff ! 5) (buff ! 4)])}"

text \<open>The register is read twice into the same variable.\<close>

definition l3gd20h_gy_filter_hp_bandwidth_get :: "'s stm_ctx \<Rightarrow> ('s, int \<times> l3gd20h_gy_hp_bw_t) state" where
  "l3gd20h_gy_filter_hp_bandwidth_get ctx = do {
     (ret, ctrl2) \<leftarrow> ctx_read1 ctx L3GD20H_CTRL2 (stale ctx L3GD20H_CTRL2);
     (ret, ctrl2) \<leftarrow> if ret = 0 then ctx_read1 ctx L3GD20H_CTRL2 ctrl2 else State_Monad.return (ret, ctrl2);
     State_Monad.return (ret,
       switch_code l3gd20h_gy_hp_bw_code
         [L3GD20H_NORMAL_MODE_LIGHT, L3GD20H_NORMAL_MODE_NORMAL, L3GD20H_NORMAL_MODE_STRONG,
          L3GD20H_NORMAL_MODE_EXTREME, L3GD20H_USE_REFERENCE_LIGHT, L3GD20H_USE_REFERENCE_NORMAL,
          L3GD20H_USE_REFERENCE_STRONG, L3GD20H_USE_REFERENCE_EXTREME, L3GD20H_AUTORESET_LIGHT,
          L3GD20H_AUTORESET_NORMAL, L3GD20H_AUTORESET_STRONG, L3GD20H_AUTORESET_EXTREME] L3GD20H_NORMAL_MODE_LIGHT
         (push_bit 4 (bit_get l3gd20h_ctrl2_t ''hpm'' ctrl2) + bit_get l3gd20h_ctrl2_t ''hpcf'' ctrl2))}"

text \<open>
  The shape of the functions for the thresholds: the high register is written with seven bits of the value, then
  the low one with what remains.  A failed first read leaves the out parameter alone.
\<close>

definition threshold_set :: "'s stm_ctx \<Rightarrow> u8 \<Rightarrow> u8 \<Rightarrow> bit_struct \<Rightarrow> bit_struct \<Rightarrow> string \<Rightarrow> u16 \<Rightarrow> ('s, int) state" where
  "threshold_set ctx high low th t f val = do {
     (ret, h) \<leftarrow> ctx_read1 ctx high (stale ctx high);
     if ret \<noteq> 0 then State_Monad.return ret
     else do {
       h \<leftarrow> State_Monad.return (bit_put th f (ucast (val div 256) AND 0x7F) h);
       ret \<leftarrow> ctx_write ctx high [h];
       if ret \<noteq> 0 then State_Monad.return ret
       else update_reg ctx low (\<lambda>l. bit_put t f (ucast (val - ucast (bit_get th f h) * 256)) l)}}"

definition threshold_get :: "'s stm_ctx \<Rightarrow> u8 \<Rightarrow> u8 \<Rightarrow> (u8 \<Rightarrow> u8 \<Rightarrow> u16) \<Rightarrow> u16 \<Rightarrow> ('s, int \<times> u16) state" where
  "threshold_get ctx low high f old = do {
     (ret, l) \<leftarrow> ctx_read1 ctx low (stale ctx low);
     if ret \<noteq> 0 then State_Monad.return (ret, old)
     else do {
       (ret, h) \<leftarrow> ctx_read1 ctx high (stale ctx high);
       State_Monad.return (ret, f l h)}}"

definition l3gd20h_gy_trshld_x_set :: "'s stm_ctx \<Rightarrow> u16 \<Rightarrow> ('s, int) state" where
  "l3gd20h_gy_trshld_x_set ctx val =
     threshold_set ctx L3GD20H_IG_THS_XH L3GD20H_IG_THS_XL l3gd20h_ig_ths_xh_t l3gd20h_ig_ths_xl_t ''thsx'' val"

definition l3gd20h_gy_trshld_x_get :: "'s stm_ctx \<Rightarrow> u16 \<Rightarrow> ('s, int \<times> u16) state" where
  "l3gd20h_gy_trshld_x_get ctx old =
     threshold_get ctx L3GD20H_IG_THS_XL L3GD20H_IG_THS_XH
       (\<lambda>l h. ucast (bit_get l3gd20h_ig_ths_xh_t ''thsx'' h) div 256 + ucast (bit_get l3gd20h_ig_ths_xl_t ''thsx'' l)) old"

definition l3gd20h_gy_trshld_y_set :: "'s stm_ctx \<Rightarrow> u16 \<Rightarrow> ('s, int) state" where
  "l3gd20h_gy_trshld_y_set ctx val =
     threshold_set ctx L3GD20H_IG_THS_YH L3GD20H_IG_THS_YL l3gd20h_ig_ths_yh_t l3gd20h_ig_ths_yl_t ''thsy'' val"

definition l3gd20h_gy_trshld_y_get :: "'s stm_ctx \<Rightarrow> u16 \<Rightarrow> ('s, int \<times> u16) state" where
  "l3gd20h_gy_trshld_y_get ctx old =
     threshold_get ctx L3GD20H_IG_THS_YL L3GD20H_IG_THS_YH
       (\<lambda>l h. ucast (bit_get l3gd20h_ig_ths_yh_t ''thsy'' h) div 256 + ucast (bit_get l3gd20h_ig_ths_yl_t ''thsy'' l)) old"

definition l3gd20h_gy_trshld_z_set :: "'s stm_ctx \<Rightarrow> u16 \<Rightarrow> ('s, int) state" where
  "l3gd20h_gy_trshld_z_set ctx val =
     threshold_set ctx L3GD20H_IG_THS_ZH L3GD20H_IG_THS_ZL l3gd20h_ig_ths_zh_t l3gd20h_ig_ths_zl_t ''thsz'' val"

definition l3gd20h_gy_trshld_z_get :: "'s stm_ctx \<Rightarrow> u16 \<Rightarrow> ('s, int \<times> u16) state" where
  "l3gd20h_gy_trshld_z_get ctx old =
     threshold_get ctx L3GD20H_IG_THS_ZL L3GD20H_IG_THS_ZH
       (\<lambda>l h. ucast (bit_get l3gd20h_ig_ths_zh_t ''thsz'' h) div 256 + ucast (bit_get l3gd20h_ig_ths_zh_t ''thsz'' h)) old"

definition l3gd20h_gy_trshld_min_sample_set :: "'s stm_ctx \<Rightarrow> u8 \<Rightarrow> ('s, int) state" where
  "l3gd20h_gy_trshld_min_sample_set ctx val =
     update_reg ctx L3GD20H_IG_DURATION (\<lambda>ig_duration.
       bit_puts l3gd20h_ig_duration_t [(''d'', val), (''wait'', if val \<noteq> 0 then 1 else 0)] ig_duration)"

section \<open>What the accessors do to the registers\<close>

text \<open>The data rate in the name of a bandwidth.\<close>

primrec lpbw_rate :: "l3gd20h_lpbw_t \<Rightarrow> l3gd20h_gy_data_rate_t" where
  "lpbw_rate L3GD20H_16Hz6_USE_ODR_50Hz = L3GD20H_50Hz"
| "lpbw_rate L3GD20H_12Hz5_USE_ODR_100Hz = L3GD20H_100Hz"
| "lpbw_rate L3GD20H_25Hz_USE_ODR_100Hz = L3GD20H_100Hz"
| "lpbw_rate L3GD20H_12Hz5_USE_ODR_200Hz = L3GD20H_200Hz"
| "lpbw_rate L3GD20H_70Hz_USE_ODR_200Hz = L3GD20H_200Hz"
| "lpbw_rate L3GD20H_20Hz_USE_ODR_400Hz = L3GD20H_400Hz"
| "lpbw_rate L3GD20H_25Hz_USE_ODR_400Hz = L3GD20H_400Hz"
| "lpbw_rate L3GD20H_50Hz_USE_ODR_400Hz = L3GD20H_400Hz"
| "lpbw_rate L3GD20H_110Hz_USE_ODR_400Hz = L3GD20H_400Hz"
| "lpbw_rate L3GD20H_30Hz_USE_ODR_800Hz = L3GD20H_800Hz"
| "lpbw_rate L3GD20H_35Hz_USE_ODR_800Hz = L3GD20H_800Hz"
| "lpbw_rate L3GD20H_100Hz_USE_ODR_800Hz = L3GD20H_800Hz"

context register_device
begin

lemma gy_data_rate_reads_back: "reads_back regs ok (l3gd20h_gy_data_rate_set ctx v) (l3gd20h_gy_data_rate_get ctx) v"
  unfolding l3gd20h_gy_data_rate_set_def l3gd20h_gy_data_rate_get_def
  by (rule reads_back_two) (cases v; simp add: l3_structs l3_addresses switch_code_def)

lemma block_data_update_reads_back: "reads_back regs ok (l3gd20h_block_data_update_set ctx v) (l3gd20h_block_data_update_get ctx) (take_bit 1 v)"
  unfolding l3gd20h_block_data_update_set_def l3gd20h_block_data_update_get_def
  by (rule reads_back_one) (simp add: l3_structs)

lemma dev_data_format_reads_back: "reads_back regs ok (l3gd20h_dev_data_format_set ctx v) (l3gd20h_dev_data_format_get ctx) v"
  unfolding l3gd20h_dev_data_format_set_def l3gd20h_dev_data_format_get_def
  by (rule reads_back_one) (cases v; simp add: l3_structs l3_addresses switch_code_def)

lemma dev_boot_reads_back: "reads_back regs ok (l3gd20h_dev_boot_set ctx v) (l3gd20h_dev_boot_get ctx) (take_bit 1 v)"
  unfolding l3gd20h_dev_boot_set_def l3gd20h_dev_boot_get_def
  by (rule reads_back_one) (simp add: l3_structs)

lemma dev_reset_reads_back: "reads_back regs ok (l3gd20h_dev_reset_set ctx v) (l3gd20h_dev_reset_get ctx) (take_bit 1 v)"
  unfolding l3gd20h_dev_reset_set_def l3gd20h_dev_reset_get_def
  by (rule reads_back_one) (simp add: l3_structs)

lemma gy_filter_out_path_reads_back: "reads_back regs ok (l3gd20h_gy_filter_out_path_set ctx v) (l3gd20h_gy_filter_out_path_get ctx) v"
  unfolding l3gd20h_gy_filter_out_path_set_def l3gd20h_gy_filter_out_path_get_def
  by (rule reads_back_one) (cases v; simp add: l3_structs l3_addresses switch_code_def)

lemma gy_filter_int_path_reads_back: "reads_back regs ok (l3gd20h_gy_filter_int_path_set ctx v) (l3gd20h_gy_filter_int_path_get ctx) v"
  unfolding l3gd20h_gy_filter_int_path_set_def l3gd20h_gy_filter_int_path_get_def
  by (rule reads_back_one) (cases v; simp add: l3_structs l3_addresses switch_code_def)

lemma spi_mode_reads_back: "reads_back regs ok (l3gd20h_spi_mode_set ctx v) (l3gd20h_spi_mode_get ctx) v"
  unfolding l3gd20h_spi_mode_set_def l3gd20h_spi_mode_get_def
  by (rule reads_back_one) (cases v; simp add: l3_structs l3_addresses switch_code_def)

lemma i2c_interface_reads_back: "reads_back regs ok (l3gd20h_i2c_interface_set ctx v) (l3gd20h_i2c_interface_get ctx) v"
  unfolding l3gd20h_i2c_interface_set_def l3gd20h_i2c_interface_get_def
  by (rule reads_back_one) (cases v; simp add: l3_structs l3_addresses switch_code_def)

lemma pin_mode_reads_back: "reads_back regs ok (l3gd20h_pin_mode_set ctx v) (l3gd20h_pin_mode_get ctx) v"
  unfolding l3gd20h_pin_mode_set_def l3gd20h_pin_mode_get_def
  by (rule reads_back_one) (cases v; simp add: l3_structs l3_addresses switch_code_def)

lemma pin_notification_reads_back: "reads_back regs ok (l3gd20h_pin_notification_set ctx v) (l3gd20h_pin_notification_get ctx) v"
  unfolding l3gd20h_pin_notification_set_def l3gd20h_pin_notification_get_def
  by (rule reads_back_one) (cases v; simp add: l3_structs l3_addresses switch_code_def)

lemma pin_logic_reads_back: "reads_back regs ok (l3gd20h_pin_logic_set ctx v) (l3gd20h_pin_logic_get ctx) v"
  unfolding l3gd20h_pin_logic_set_def l3gd20h_pin_logic_get_def
  by (rule reads_back_one) (cases v; simp add: l3_structs l3_addresses switch_code_def)

lemma gy_trshld_mode_reads_back: "reads_back regs ok (l3gd20h_gy_trshld_mode_set ctx v) (l3gd20h_gy_trshld_mode_get ctx) v"
  unfolding l3gd20h_gy_trshld_mode_set_def l3gd20h_gy_trshld_mode_get_def
  by (rule reads_back_one) (cases v; simp add: l3_structs l3_addresses switch_code_def)

lemma gy_trshld_min_sample_reads_back: "reads_back regs ok (l3gd20h_gy_trshld_min_sample_set ctx v) (l3gd20h_gy_trshld_min_sample_get ctx) (take_bit 7 v)"
  unfolding l3gd20h_gy_trshld_min_sample_set_def l3gd20h_gy_trshld_min_sample_get_def
  by (rule reads_back_one) (simp add: l3_structs)

lemma fifo_stop_on_wtm_reads_back: "reads_back regs ok (l3gd20h_fifo_stop_on_wtm_set ctx v) (l3gd20h_fifo_stop_on_wtm_get ctx) (take_bit 1 v)"
  unfolding l3gd20h_fifo_stop_on_wtm_set_def l3gd20h_fifo_stop_on_wtm_get_def
  by (rule reads_back_one) (simp add: l3_structs)

lemma fifo_watermark_reads_back: "reads_back regs ok (l3gd20h_fifo_watermark_set ctx v) (l3gd20h_fifo_watermark_get ctx) (take_bit 5 v)"
  unfolding l3gd20h_fifo_watermark_set_def l3gd20h_fifo_watermark_get_def
  by (rule reads_back_one) (simp add: l3_structs)

lemma den_mode_reads_back: "reads_back regs ok (l3gd20h_den_mode_set ctx v) (l3gd20h_den_mode_get ctx) v"
  unfolding l3gd20h_den_mode_set_def l3gd20h_den_mode_get_def
  by (rule reads_back_two) (cases v; simp add: l3_structs l3_addresses switch_code_def)

lemma gy_self_test_reads_back: "reads_back regs ok (l3gd20h_gy_self_test_set ctx v) (l3gd20h_gy_self_test_get ctx) v"
  unfolding l3gd20h_gy_self_test_set_def l3gd20h_gy_self_test_get_def
  by (rule reads_back_one) (cases v; simp add: l3_structs l3_addresses switch_code_def)

lemma gy_axis_reads_back: "reads_back regs ok (l3gd20h_gy_axis_set ctx v) (l3gd20h_gy_axis_get ctx) v"
  unfolding l3gd20h_gy_axis_set_def l3gd20h_gy_axis_get_def
  by (rule reads_back_one) (simp add: l3_structs)

lemma pin_int2_route_reads_back: "reads_back regs ok (l3gd20h_pin_int2_route_set ctx v) (l3gd20h_pin_int2_route_get ctx) v"
  unfolding l3gd20h_pin_int2_route_set_def l3gd20h_pin_int2_route_get_def
  by (rule reads_back_one) (simp add: l3_structs)

lemma pin_int1_route_reads_back: "reads_back regs ok (l3gd20h_pin_int1_route_set ctx v) (l3gd20h_pin_int1_route_get ctx) v"
  unfolding l3gd20h_pin_int1_route_set_def l3gd20h_pin_int1_route_get_def
  by (rule reads_back_one) (simp add: l3_structs)

lemma gy_trshld_axis_reads_back: "reads_back regs ok (l3gd20h_gy_trshld_axis_set ctx v) (l3gd20h_gy_trshld_axis_get ctx) v"
  unfolding l3gd20h_gy_trshld_axis_set_def l3gd20h_gy_trshld_axis_get_def
  by (rule reads_back_one) (simp add: l3_structs)

lemma pin_polarity_reads_back: "reads_back regs ok (l3gd20h_pin_polarity_set ctx v) (l3gd20h_pin_polarity_get ctx) v"
  unfolding l3gd20h_pin_polarity_set_def l3gd20h_pin_polarity_get_def
  by (rule reads_backI [OF acts_update_both [OF acts_update acts_update] acts_load])
    (cases v; simp add: l3_structs l3_addresses switch_code_def)

lemma gy_full_scale_reads_back:
  "reads_back regs ok (l3gd20h_gy_full_scale_set ctx v) (l3gd20h_gy_full_scale_get ctx)
     (if v = L3GD20H_2000dps then L3GD20H_245dps else v)"
  unfolding l3gd20h_gy_full_scale_set_def l3gd20h_gy_full_scale_get_def
  by (rule reads_back_one) (cases v; simp add: l3_structs switch_code_def)

lemma fifo_mode_reads_back:
  "reads_back regs ok (l3gd20h_fifo_mode_set ctx v) (l3gd20h_fifo_mode_get ctx)
     (if v = L3GD20H_DYNAMIC_STREAM_MODE then L3GD20H_BYPASS_MODE else v)"
  unfolding l3gd20h_fifo_mode_set_def l3gd20h_fifo_mode_get_def
  by (rule reads_back_two) (cases v; simp add: l3_structs l3_addresses switch_code_def)

lemma acts_reads:
  "acts regs ok (do {
     (ret, b) \<leftarrow> ctx_read1 ctx reg old;
     (ret, b) \<leftarrow> if ret = 0 then ctx_read1 ctx reg b else State_Monad.return (ret, b);
     State_Monad.return (ret, f b)}) (\<lambda>g. (0, f (g reg))) (\<lambda>g. g)"
proof (rule actsI)
  fix s assume "ok s"
  then obtain s1 where 1: "run_state (ctx_read1 ctx reg old) s = ((0, regs s reg), s1)" "ok s1" "regs s1 = regs s"
    by (rule read1E)
  obtain s2 where "run_state (ctx_read1 ctx reg (regs s reg)) s1 = ((0, regs s1 reg), s2)" "ok s2" "regs s2 = regs s1"
    by (rule read1E [OF 1(2)])
  with 1 show "\<exists>s'. run_state (do {
     (ret, b) \<leftarrow> ctx_read1 ctx reg old;
     (ret, b) \<leftarrow> if ret = 0 then ctx_read1 ctx reg b else State_Monad.return (ret, b);
     State_Monad.return (ret, f b)}) s = ((0, f (regs s reg)), s') \<and> ok s' \<and> regs s' = regs s"
    by simp
qed

lemma gy_filter_hp_bandwidth_reads_back:
  "reads_back regs ok (l3gd20h_gy_filter_hp_bandwidth_set ctx v) (l3gd20h_gy_filter_hp_bandwidth_get ctx) v"
  unfolding l3gd20h_gy_filter_hp_bandwidth_set_def l3gd20h_gy_filter_hp_bandwidth_get_def
  by (rule reads_backI [OF acts_update acts_reads]) (cases v; simp add: l3_structs switch_code_def)

lemma gy_filter_reference_reads_back:
  "reads_back regs ok (l3gd20h_gy_filter_reference_set ctx v) (l3gd20h_gy_filter_reference_get ctx old) v"
  unfolding l3gd20h_gy_filter_reference_set_def l3gd20h_gy_filter_reference_get_def
  by (rule reads_backI [OF acts_write acts_read1]) simp

text \<open>
  The low pass filter: only the two bits of the bandwidth are written, so it is read back right only at the rate of
  its name.  The two paths share the bit that enables the high pass filter: the last one set decides.
\<close>

lemma gy_filter_lp_bandwidth_reads_back:
  "reads_back regs ok
     (update_both (l3gd20h_gy_data_rate_set ctx (lpbw_rate v)) (l3gd20h_gy_filter_lp_bandwidth_set ctx v))
     (l3gd20h_gy_filter_lp_bandwidth_get ctx) v"
  unfolding l3gd20h_gy_data_rate_set_def l3gd20h_gy_filter_lp_bandwidth_set_def l3gd20h_gy_filter_lp_bandwidth_get_def
  by (rule reads_backI [OF acts_update_both [OF acts_update_both [OF acts_update acts_update] acts_update] acts_loads])
    (cases v; simp add: l3_structs l3_addresses switch_code_def)

lemma filter_paths_collide:
  "reads_back regs ok
     (update_both (l3gd20h_gy_filter_out_path_set ctx p) (l3gd20h_gy_filter_int_path_set ctx q))
     (l3gd20h_gy_filter_out_path_get ctx)
     (if p = L3GD20H_LPF1_LPF2_OUT \<or> p = L3GD20H_LPF1_HPF_LPF2_OUT
      then if q = L3GD20H_LPF1_HPF_INT \<or> q = L3GD20H_LPF1_HPF_LPF2_INT
           then L3GD20H_LPF1_HPF_LPF2_OUT else L3GD20H_LPF1_LPF2_OUT
      else if p = L3GD20H_LPF1_HPF_OUT \<and> (q = L3GD20H_LPF1_HPF_INT \<or> q = L3GD20H_LPF1_HPF_LPF2_INT)
           then L3GD20H_LPF1_HPF_OUT else L3GD20H_LPF1_OUT)"
  unfolding l3gd20h_gy_filter_out_path_set_def l3gd20h_gy_filter_int_path_set_def l3gd20h_gy_filter_out_path_get_def
  by (rule reads_backI [OF acts_update_both [OF acts_update acts_update] acts_load])
    (cases p; cases q; simp add: l3_structs switch_code_def)

text \<open>The thresholds: fifteen bits are written, and one byte is read back.\<close>

lemma acts_threshold_set:
  assumes bits: "field_at 0 t f = (0, 8)" "field_at 0 th f = (0, 7)" "fits th"
  shows "acts regs ok (threshold_set ctx high low th t f v) (\<lambda>_. 0)
    (\<lambda>g. (g(high := bit_put th f (ucast (v div 256) AND 0x7F) (g high)))(low := ucast v))"
proof (rule actsI)
  fix s assume "ok s"
  let ?h = "bit_put th f (ucast (v div 256) AND 0x7F) (regs s high)"
  let ?f = "bit_put t f (ucast (v - ucast (bit_get th f ?h) * 256))"
  obtain s1 where 1: "run_state (ctx_read1 ctx high (stale ctx high)) s = ((0, regs s high), s1)" "ok s1" "regs s1 = regs s"
    using \<open>ok s\<close> by (rule read1E)
  obtain s2 where 2: "run_state (ctx_write ctx high [?h]) s1 = (0, s2)" "ok s2" "regs s2 = (regs s1)(high := ?h)"
    by (rule actsE [OF acts_write 1(2)])
  obtain s3 where 3: "run_state (update_reg ctx low ?f) s2 = (0, s3)" "ok s3" "regs s3 = (regs s2)(low := ?f (regs s2 low))"
    by (rule actsE [OF acts_update 2(2)])
  have "ucast (v - ucast (bit_get th f ?h) * 256) = (ucast v :: u8)"
    by (simp add: ucast_diff_256)
  moreover have "bit_put t f w l = w" for w l
    by (simp add: bit_put_def bits set_field_whole)
  ultimately have "?f l = ucast v" for l
    by simp
  with 1 2 3 show "\<exists>s'. run_state (threshold_set ctx high low th t f v) s = (0, s') \<and> ok s' \<and>
      regs s' = ((regs s)(high := ?h))(low := ucast v)"
    by (simp add: threshold_set_def)
qed

lemma acts_threshold_get: "acts regs ok (threshold_get ctx low high f old) (\<lambda>g. (0, f (g low) (g high))) (\<lambda>g. g)"
proof (rule actsI)
  fix s assume "ok s"
  then obtain s1 where 1: "run_state (ctx_read1 ctx low (stale ctx low)) s = ((0, regs s low), s1)" "ok s1" "regs s1 = regs s"
    by (rule read1E)
  obtain s2 where "run_state (ctx_read1 ctx high (stale ctx high)) s1 = ((0, regs s1 high), s2)" "ok s2" "regs s2 = regs s1"
    by (rule read1E [OF 1(2)])
  with 1 show "\<exists>s'. run_state (threshold_get ctx low high f old) s = ((0, f (regs s low) (regs s high)), s') \<and> ok s' \<and> regs s' = regs s"
    by (simp add: threshold_get_def)
qed

lemma byte_field: "bit_get [(f, 8)] f b = b"
  by (rule bit_word_eqI) (auto simp: bit_get_def get_field_def bit_simps)

lemma seven_div_256: "((v :: u16) AND 0x7F) div 256 = 0"
  by (simp only: seven_bits [symmetric] byte_div_256)

lemmas threshold_bits = seven_div_256 byte_field byte_div_256 word_low_byte seven_bits

lemmas threshold_reads_back = reads_backI [OF acts_threshold_set acts_threshold_get]

lemma gy_trshld_x_reads_back:
  "reads_back regs ok (l3gd20h_gy_trshld_x_set ctx v) (l3gd20h_gy_trshld_x_get ctx old) (v AND 0xFF)"
  unfolding l3gd20h_gy_trshld_x_set_def l3gd20h_gy_trshld_x_get_def
  by (rule threshold_reads_back) (simp_all add: l3_structs l3_addresses threshold_bits)

lemma gy_trshld_y_reads_back:
  "reads_back regs ok (l3gd20h_gy_trshld_y_set ctx v) (l3gd20h_gy_trshld_y_get ctx old) (v AND 0xFF)"
  unfolding l3gd20h_gy_trshld_y_set_def l3gd20h_gy_trshld_y_get_def
  by (rule threshold_reads_back) (simp_all add: l3_structs l3_addresses threshold_bits)

lemma gy_trshld_z_reads_back:
  "reads_back regs ok (l3gd20h_gy_trshld_z_set ctx v) (l3gd20h_gy_trshld_z_get ctx old) (v div 256 AND 0x7F)"
  unfolding l3gd20h_gy_trshld_z_set_def l3gd20h_gy_trshld_z_get_def
  by (rule threshold_reads_back) (simp_all add: l3_structs l3_addresses threshold_bits)

end

end
