(* ===== verification/L3gdModel.thy ===== *)
theory L3gdModel
  imports L3gdRegs
begin

unbundle bit_operations_syntax

text \<open>
  The gyroscope L3GD20H: the facade of src/device/peripherals/L3GD20H/L3GD20H.h over the accessors of the
  vendor, and what they do to the registers.  A facade function does not wait: what its static functions return
  in one activation is its result.  \<open>None\<close> is a call whose outcome C++ leaves undefined.
\<close>

section \<open>State and bus functions\<close>

datatype COMM_MODE = SPI | I2C

text \<open>
  The function pointers of the context (\<open>None\<close> until \<open>init\<close>), whether the interface pointers are set, and whether a
  call is still to be resumed in i2cWrite and i2cRead.  A resumed call jumps over the initialisation of the address
  that it uses; \<open>l3_undef\<close> records that this or the use of a null pointer has happened.
\<close>

record l3gd =
  l3_write :: "COMM_MODE option"
  l3_read :: "COMM_MODE option"
  l3_mSPI :: bool
  l3_mI2C :: bool
  l3_write_label :: bool
  l3_read_label :: bool
  l3_undef :: bool

definition l3_new :: "bool \<Rightarrow> bool \<Rightarrow> l3gd" where
  "l3_new spiDev i2cDev =
     \<lparr>l3_write = None, l3_read = None, l3_mSPI = spiDev, l3_mI2C = i2cDev,
      l3_write_label = False, l3_read_label = False, l3_undef = False\<rparr>"

text \<open>\<open>RetType\<close> as the \<open>int32_t\<close> that \<open>CALL\<close> returns from a static function, and the value of a call that is over.\<close>

primrec ret_int :: "ret_type \<Rightarrow> int" where
  "ret_int RET_SUCCESS = 0"
| "ret_int RET_ERROR = 1"
| "ret_int RET_BLOCKED = 2"
| "ret_int RET_SLEEP = 3"
| "ret_int RET_YIELD = 4"

definition call_int :: "ret_type \<Rightarrow> int" where
  "call_int ret = (if call_waits ret then ret_int ret else if ret = RET_SUCCESS then 0 else - 1)"

definition l3_i2cRead :: "'x bus \<Rightarrow> u8 \<Rightarrow> u8 list \<Rightarrow> l3gd \<times> 'x \<Rightarrow> int \<times> u8 list \<times> l3gd \<times> 'x" where
  "l3_i2cRead bus reg data = (\<lambda>(d, x).
     if l3_read_label d \<or> \<not> l3_mI2C d then (- 1, data, d\<lparr>l3_undef := True\<rparr>, x)
     else case bus (I2cRead (ucast L3GD20H_I2C_ADD_L) (ucast reg) (length data)) x of (ret, new, x') \<Rightarrow>
       (call_int ret, fill new data, d\<lparr>l3_read_label := call_waits ret\<rparr>, x'))"

definition l3_i2cWrite :: "'x bus \<Rightarrow> u8 \<Rightarrow> u8 list \<Rightarrow> l3gd \<times> 'x \<Rightarrow> int \<times> l3gd \<times> 'x" where
  "l3_i2cWrite bus reg data = (\<lambda>(d, x).
     if l3_write_label d \<or> \<not> l3_mI2C d then (- 1, d\<lparr>l3_undef := True\<rparr>, x)
     else case bus (I2cWrite (ucast L3GD20H_I2C_ADD_L) (ucast reg) data) x of (ret, _, x') \<Rightarrow>
       (call_int ret, d\<lparr>l3_write_label := call_waits ret\<rparr>, x'))"

text \<open>Both ignore the register.  spiWrite, too, calls \<open>read\<close>; that it overwrites the caller's bytes does not show here.\<close>

definition l3_spiRead :: "'x bus \<Rightarrow> u8 \<Rightarrow> u8 list \<Rightarrow> l3gd \<times> 'x \<Rightarrow> int \<times> u8 list \<times> l3gd \<times> 'x" where
  "l3_spiRead bus reg data = (\<lambda>(d, x).
     if \<not> l3_mSPI d then (- 1, data, d\<lparr>l3_undef := True\<rparr>, x)
     else case bus (SpiRead (length data)) x of (ret, new, x') \<Rightarrow> (call_int ret, fill new data, d, x'))"

definition l3_spiWrite :: "'x bus \<Rightarrow> u8 \<Rightarrow> u8 list \<Rightarrow> l3gd \<times> 'x \<Rightarrow> int \<times> l3gd \<times> 'x" where
  "l3_spiWrite bus reg data = (\<lambda>(d, x).
     if \<not> l3_mSPI d then (- 1, d\<lparr>l3_undef := True\<rparr>, x)
     else case bus (SpiRead (length data)) x of (ret, _, x') \<Rightarrow> (call_int ret, d, x'))"

text \<open>The context that the accessors get.\<close>

definition l3_ctx :: "'x bus \<Rightarrow> (u8 \<Rightarrow> u8) \<Rightarrow> (l3gd \<times> 'x) stm_ctx" where
  "l3_ctx bus st =
     \<lparr>write_reg = (\<lambda>reg data (d, x).
        case l3_write d of
          None \<Rightarrow> (- 1, d\<lparr>l3_undef := True\<rparr>, x)
        | Some SPI \<Rightarrow> l3_spiWrite bus reg data (d, x)
        | Some I2C \<Rightarrow> l3_i2cWrite bus reg data (d, x)),
      read_reg = (\<lambda>reg data (d, x).
        case l3_read d of
          None \<Rightarrow> (- 1, data, d\<lparr>l3_undef := True\<rparr>, x)
        | Some SPI \<Rightarrow> l3_spiRead bus reg data (d, x)
        | Some I2C \<Rightarrow> l3_i2cRead bus reg data (d, x)),
      stale = st\<rparr>"

text \<open>The case of SPI has no \<open>break\<close>.\<close>

definition l3_init :: "COMM_MODE \<Rightarrow> (l3gd, 'x) drv" where
  "l3_init mode = do {
     _ \<leftarrow> mod_dev (\<lambda>d. if mode = SPI then d\<lparr>l3_write := Some SPI, l3_read := Some SPI\<rparr> else d);
     _ \<leftarrow> mod_dev (\<lambda>d. d\<lparr>l3_write := Some I2C, l3_read := Some I2C\<rparr>);
     State_Monad.return RET_SUCCESS}"

section \<open>The facade\<close>

type_synonym 'x l3_setter = "(l3gd \<times> 'x, ret_type option) state"

type_synonym ('x, 'a) l3_getter = "(l3gd \<times> 'x, (ret_type \<times> 'a) option) state"

definition l3_call_set :: "'x bus \<Rightarrow> (u8 \<Rightarrow> u8) \<Rightarrow> ((l3gd \<times> 'x) stm_ctx \<Rightarrow> (l3gd \<times> 'x, int) state) \<Rightarrow> 'x l3_setter" where
  "l3_call_set bus st f = do {
     result \<leftarrow> f (l3_ctx bus st);
     d \<leftarrow> get_dev;
     State_Monad.return (if l3_undef d then None else Some (if result \<noteq> 0 then RET_ERROR else RET_SUCCESS))}"

definition l3_call_get :: "'x bus \<Rightarrow> (u8 \<Rightarrow> u8) \<Rightarrow> ((l3gd \<times> 'x) stm_ctx \<Rightarrow> (l3gd \<times> 'x, int \<times> 'a) state) \<Rightarrow> ('x, 'a) l3_getter" where
  "l3_call_get bus st f = do {
     (result, val) \<leftarrow> f (l3_ctx bus st);
     d \<leftarrow> get_dev;
     State_Monad.return (if l3_undef d then None else Some (if result \<noteq> 0 then RET_ERROR else RET_SUCCESS, val))}"

definition l3_readReg :: "'x bus \<Rightarrow> (u8 \<Rightarrow> u8) \<Rightarrow> u8 \<Rightarrow> u8 list \<Rightarrow> ('x, u8 list) l3_getter" where
  "l3_readReg bus st reg data = l3_call_get bus st (\<lambda>ctx. l3gd20h_read_reg ctx reg data)"

definition l3_writeReg :: "'x bus \<Rightarrow> (u8 \<Rightarrow> u8) \<Rightarrow> u8 \<Rightarrow> u8 list \<Rightarrow> 'x l3_setter" where
  "l3_writeReg bus st reg data = l3_call_set bus st (\<lambda>ctx. l3gd20h_write_reg ctx reg data)"

text \<open>Conversions, with the value they store.\<close>

definition l3_fs245ToMDPS :: "u16 \<Rightarrow> ret_type \<times> rat" where
  "l3_fs245ToMDPS lsb = (RET_SUCCESS, l3gd20h_from_fs245_to_mdps lsb)"

definition l3_fs500ToMDPS :: "u16 \<Rightarrow> ret_type \<times> rat" where
  "l3_fs500ToMDPS lsb = (RET_SUCCESS, l3gd20h_from_fs500_to_mdps lsb)"

definition l3_fs2000ToMDPS :: "u16 \<Rightarrow> ret_type \<times> rat" where
  "l3_fs2000ToMDPS lsb = (RET_SUCCESS, l3gd20h_from_fs2000_to_mdps lsb)"

definition l3_lsbToCelsius :: "u16 \<Rightarrow> ret_type \<times> rat" where
  "l3_lsbToCelsius lsb = (RET_SUCCESS, l3gd20h_from_lsb_to_celsius lsb)"

text \<open>\<open>set\<close> calls nothing: its result is the value of a comma expression.\<close>

definition l3_set :: "u8 \<Rightarrow> ret_type" where
  "l3_set val = (if val \<noteq> 0 then RET_ERROR else RET_SUCCESS)"

definition l3_setGyroAxis :: "'x bus \<Rightarrow> (u8 \<Rightarrow> u8) \<Rightarrow> l3gd20h_gy_axis_t \<Rightarrow> 'x l3_setter" where
  "l3_setGyroAxis bus st val = l3_call_set bus st (\<lambda>ctx. l3gd20h_gy_axis_set ctx val)"

definition l3_getGyroAxis :: "'x bus \<Rightarrow> (u8 \<Rightarrow> u8) \<Rightarrow> ('x, l3gd20h_gy_axis_t) l3_getter" where
  "l3_getGyroAxis bus st = l3_call_get bus st l3gd20h_gy_axis_get"

definition l3_setDataRate :: "'x bus \<Rightarrow> (u8 \<Rightarrow> u8) \<Rightarrow> l3gd20h_gy_data_rate_t \<Rightarrow> 'x l3_setter" where
  "l3_setDataRate bus st val = l3_call_set bus st (\<lambda>ctx. l3gd20h_gy_data_rate_set ctx val)"

definition l3_getDataRate :: "'x bus \<Rightarrow> (u8 \<Rightarrow> u8) \<Rightarrow> ('x, l3gd20h_gy_data_rate_t) l3_getter" where
  "l3_getDataRate bus st = l3_call_get bus st l3gd20h_gy_data_rate_get"

definition l3_setFullScale :: "'x bus \<Rightarrow> (u8 \<Rightarrow> u8) \<Rightarrow> l3gd20h_gy_fs_t \<Rightarrow> 'x l3_setter" where
  "l3_setFullScale bus st val = l3_call_set bus st (\<lambda>ctx. l3gd20h_gy_full_scale_set ctx val)"

definition l3_getFullScale :: "'x bus \<Rightarrow> (u8 \<Rightarrow> u8) \<Rightarrow> ('x, l3gd20h_gy_fs_t) l3_getter" where
  "l3_getFullScale bus st = l3_call_get bus st l3gd20h_gy_full_scale_get"

definition l3_setBlockDataUpdate :: "'x bus \<Rightarrow> (u8 \<Rightarrow> u8) \<Rightarrow> u8 \<Rightarrow> 'x l3_setter" where
  "l3_setBlockDataUpdate bus st val = l3_call_set bus st (\<lambda>ctx. l3gd20h_block_data_update_set ctx val)"

definition l3_getBlockDataUpdate :: "'x bus \<Rightarrow> (u8 \<Rightarrow> u8) \<Rightarrow> ('x, u8) l3_getter" where
  "l3_getBlockDataUpdate bus st = l3_call_get bus st l3gd20h_block_data_update_get"

definition l3_setDataFormat :: "'x bus \<Rightarrow> (u8 \<Rightarrow> u8) \<Rightarrow> l3gd20h_ble_t \<Rightarrow> 'x l3_setter" where
  "l3_setDataFormat bus st val = l3_call_set bus st (\<lambda>ctx. l3gd20h_dev_data_format_set ctx val)"

definition l3_getDataFormat :: "'x bus \<Rightarrow> (u8 \<Rightarrow> u8) \<Rightarrow> ('x, l3gd20h_ble_t) l3_getter" where
  "l3_getDataFormat bus st = l3_call_get bus st l3gd20h_dev_data_format_get"

definition l3_setBoot :: "'x bus \<Rightarrow> (u8 \<Rightarrow> u8) \<Rightarrow> u8 \<Rightarrow> 'x l3_setter" where
  "l3_setBoot bus st val = l3_call_set bus st (\<lambda>ctx. l3gd20h_dev_boot_set ctx val)"

definition l3_getBoot :: "'x bus \<Rightarrow> (u8 \<Rightarrow> u8) \<Rightarrow> ('x, u8) l3_getter" where
  "l3_getBoot bus st = l3_call_get bus st l3gd20h_dev_boot_get"

definition l3_setReset :: "'x bus \<Rightarrow> (u8 \<Rightarrow> u8) \<Rightarrow> u8 \<Rightarrow> 'x l3_setter" where
  "l3_setReset bus st val = l3_call_set bus st (\<lambda>ctx. l3gd20h_dev_reset_set ctx val)"

definition l3_getReset :: "'x bus \<Rightarrow> (u8 \<Rightarrow> u8) \<Rightarrow> ('x, u8) l3_getter" where
  "l3_getReset bus st = l3_call_get bus st l3gd20h_dev_reset_get"

definition l3_setLPFilterBandwith :: "'x bus \<Rightarrow> (u8 \<Rightarrow> u8) \<Rightarrow> l3gd20h_lpbw_t \<Rightarrow> 'x l3_setter" where
  "l3_setLPFilterBandwith bus st val = l3_call_set bus st (\<lambda>ctx. l3gd20h_gy_filter_lp_bandwidth_set ctx val)"

definition l3_getLPFilterBandwith :: "'x bus \<Rightarrow> (u8 \<Rightarrow> u8) \<Rightarrow> ('x, l3gd20h_lpbw_t) l3_getter" where
  "l3_getLPFilterBandwith bus st = l3_call_get bus st l3gd20h_gy_filter_lp_bandwidth_get"

definition l3_setHPFilterBandwith :: "'x bus \<Rightarrow> (u8 \<Rightarrow> u8) \<Rightarrow> l3gd20h_gy_hp_bw_t \<Rightarrow> 'x l3_setter" where
  "l3_setHPFilterBandwith bus st val = l3_call_set bus st (\<lambda>ctx. l3gd20h_gy_filter_hp_bandwidth_set ctx val)"

definition l3_getHPFilterBandwith :: "'x bus \<Rightarrow> (u8 \<Rightarrow> u8) \<Rightarrow> ('x, l3gd20h_gy_hp_bw_t) l3_getter" where
  "l3_getHPFilterBandwith bus st = l3_call_get bus st l3gd20h_gy_filter_hp_bandwidth_get"

definition l3_setFilterOutPath :: "'x bus \<Rightarrow> (u8 \<Rightarrow> u8) \<Rightarrow> l3gd20h_gy_out_path_t \<Rightarrow> 'x l3_setter" where
  "l3_setFilterOutPath bus st val = l3_call_set bus st (\<lambda>ctx. l3gd20h_gy_filter_out_path_set ctx val)"

definition l3_getFilterOutPath :: "'x bus \<Rightarrow> (u8 \<Rightarrow> u8) \<Rightarrow> ('x, l3gd20h_gy_out_path_t) l3_getter" where
  "l3_getFilterOutPath bus st = l3_call_get bus st l3gd20h_gy_filter_out_path_get"

definition l3_setFilterIntPath :: "'x bus \<Rightarrow> (u8 \<Rightarrow> u8) \<Rightarrow> l3gd20h_gy_int_path_t \<Rightarrow> 'x l3_setter" where
  "l3_setFilterIntPath bus st val = l3_call_set bus st (\<lambda>ctx. l3gd20h_gy_filter_int_path_set ctx val)"

definition l3_getFilterIntPath :: "'x bus \<Rightarrow> (u8 \<Rightarrow> u8) \<Rightarrow> ('x, l3gd20h_gy_int_path_t) l3_getter" where
  "l3_getFilterIntPath bus st = l3_call_get bus st l3gd20h_gy_filter_int_path_get"

definition l3_setFilterReference :: "'x bus \<Rightarrow> (u8 \<Rightarrow> u8) \<Rightarrow> u8 \<Rightarrow> 'x l3_setter" where
  "l3_setFilterReference bus st val = l3_call_set bus st (\<lambda>ctx. l3gd20h_gy_filter_reference_set ctx val)"

definition l3_getFilterReference :: "'x bus \<Rightarrow> (u8 \<Rightarrow> u8) \<Rightarrow> u8 \<Rightarrow> ('x, u8) l3_getter" where
  "l3_getFilterReference bus st old = l3_call_get bus st (\<lambda>ctx. l3gd20h_gy_filter_reference_get ctx old)"

definition l3_setSPIMode :: "'x bus \<Rightarrow> (u8 \<Rightarrow> u8) \<Rightarrow> l3gd20h_sim_t \<Rightarrow> 'x l3_setter" where
  "l3_setSPIMode bus st val = l3_call_set bus st (\<lambda>ctx. l3gd20h_spi_mode_set ctx val)"

definition l3_getSPIMode :: "'x bus \<Rightarrow> (u8 \<Rightarrow> u8) \<Rightarrow> ('x, l3gd20h_sim_t) l3_getter" where
  "l3_getSPIMode bus st = l3_call_get bus st l3gd20h_spi_mode_get"

definition l3_setI2CInterface :: "'x bus \<Rightarrow> (u8 \<Rightarrow> u8) \<Rightarrow> l3gd20h_i2c_dis_t \<Rightarrow> 'x l3_setter" where
  "l3_setI2CInterface bus st val = l3_call_set bus st (\<lambda>ctx. l3gd20h_i2c_interface_set ctx val)"

definition l3_getI2CInterface :: "'x bus \<Rightarrow> (u8 \<Rightarrow> u8) \<Rightarrow> ('x, l3gd20h_i2c_dis_t) l3_getter" where
  "l3_getI2CInterface bus st = l3_call_get bus st l3gd20h_i2c_interface_get"

definition l3_setPinInt1Route :: "'x bus \<Rightarrow> (u8 \<Rightarrow> u8) \<Rightarrow> l3gd20h_pin_int1_rt_t \<Rightarrow> 'x l3_setter" where
  "l3_setPinInt1Route bus st val = l3_call_set bus st (\<lambda>ctx. l3gd20h_pin_int1_route_set ctx val)"

definition l3_getPinInt1Route :: "'x bus \<Rightarrow> (u8 \<Rightarrow> u8) \<Rightarrow> ('x, l3gd20h_pin_int1_rt_t) l3_getter" where
  "l3_getPinInt1Route bus st = l3_call_get bus st l3gd20h_pin_int1_route_get"

definition l3_setPinInt2Route :: "'x bus \<Rightarrow> (u8 \<Rightarrow> u8) \<Rightarrow> l3gd20h_pin_int2_rt_t \<Rightarrow> 'x l3_setter" where
  "l3_setPinInt2Route bus st val = l3_call_set bus st (\<lambda>ctx. l3gd20h_pin_int2_route_set ctx val)"

definition l3_getPinInt2Route :: "'x bus \<Rightarrow> (u8 \<Rightarrow> u8) \<Rightarrow> ('x, l3gd20h_pin_int2_rt_t) l3_getter" where
  "l3_getPinInt2Route bus st = l3_call_get bus st l3gd20h_pin_int2_route_get"

definition l3_setPinMode :: "'x bus \<Rightarrow> (u8 \<Rightarrow> u8) \<Rightarrow> l3gd20h_pp_od_t \<Rightarrow> 'x l3_setter" where
  "l3_setPinMode bus st val = l3_call_set bus st (\<lambda>ctx. l3gd20h_pin_mode_set ctx val)"

definition l3_getPinMode :: "'x bus \<Rightarrow> (u8 \<Rightarrow> u8) \<Rightarrow> ('x, l3gd20h_pp_od_t) l3_getter" where
  "l3_getPinMode bus st = l3_call_get bus st l3gd20h_pin_mode_get"

definition l3_setPinPolarity :: "'x bus \<Rightarrow> (u8 \<Rightarrow> u8) \<Rightarrow> l3gd20h_pin_pol_t \<Rightarrow> 'x l3_setter" where
  "l3_setPinPolarity bus st val = l3_call_set bus st (\<lambda>ctx. l3gd20h_pin_polarity_set ctx val)"

definition l3_getPinPolarity :: "'x bus \<Rightarrow> (u8 \<Rightarrow> u8) \<Rightarrow> ('x, l3gd20h_pin_pol_t) l3_getter" where
  "l3_getPinPolarity bus st = l3_call_get bus st l3gd20h_pin_polarity_get"

definition l3_setPinNotification :: "'x bus \<Rightarrow> (u8 \<Rightarrow> u8) \<Rightarrow> l3gd20h_lir_t \<Rightarrow> 'x l3_setter" where
  "l3_setPinNotification bus st val = l3_call_set bus st (\<lambda>ctx. l3gd20h_pin_notification_set ctx val)"

definition l3_getPinNotification :: "'x bus \<Rightarrow> (u8 \<Rightarrow> u8) \<Rightarrow> ('x, l3gd20h_lir_t) l3_getter" where
  "l3_getPinNotification bus st = l3_call_get bus st l3gd20h_pin_notification_get"

definition l3_setPinLogic :: "'x bus \<Rightarrow> (u8 \<Rightarrow> u8) \<Rightarrow> l3gd20h_pin_logic_t \<Rightarrow> 'x l3_setter" where
  "l3_setPinLogic bus st val = l3_call_set bus st (\<lambda>ctx. l3gd20h_pin_logic_set ctx val)"

definition l3_getPinLogic :: "'x bus \<Rightarrow> (u8 \<Rightarrow> u8) \<Rightarrow> ('x, l3gd20h_pin_logic_t) l3_getter" where
  "l3_getPinLogic bus st = l3_call_get bus st l3gd20h_pin_logic_get"

definition l3_setGyroXThreshold :: "'x bus \<Rightarrow> (u8 \<Rightarrow> u8) \<Rightarrow> u16 \<Rightarrow> 'x l3_setter" where
  "l3_setGyroXThreshold bus st val = l3_call_set bus st (\<lambda>ctx. l3gd20h_gy_trshld_x_set ctx val)"

definition l3_getGyroXThreshold :: "'x bus \<Rightarrow> (u8 \<Rightarrow> u8) \<Rightarrow> u16 \<Rightarrow> ('x, u16) l3_getter" where
  "l3_getGyroXThreshold bus st old = l3_call_get bus st (\<lambda>ctx. l3gd20h_gy_trshld_x_get ctx old)"

definition l3_setGyroYThreshold :: "'x bus \<Rightarrow> (u8 \<Rightarrow> u8) \<Rightarrow> u16 \<Rightarrow> 'x l3_setter" where
  "l3_setGyroYThreshold bus st val = l3_call_set bus st (\<lambda>ctx. l3gd20h_gy_trshld_y_set ctx val)"

definition l3_getGyroYThreshold :: "'x bus \<Rightarrow> (u8 \<Rightarrow> u8) \<Rightarrow> u16 \<Rightarrow> ('x, u16) l3_getter" where
  "l3_getGyroYThreshold bus st old = l3_call_get bus st (\<lambda>ctx. l3gd20h_gy_trshld_y_get ctx old)"

definition l3_setGyroZThreshold :: "'x bus \<Rightarrow> (u8 \<Rightarrow> u8) \<Rightarrow> u16 \<Rightarrow> 'x l3_setter" where
  "l3_setGyroZThreshold bus st val = l3_call_set bus st (\<lambda>ctx. l3gd20h_gy_trshld_z_set ctx val)"

definition l3_getGyroZThreshold :: "'x bus \<Rightarrow> (u8 \<Rightarrow> u8) \<Rightarrow> u16 \<Rightarrow> ('x, u16) l3_getter" where
  "l3_getGyroZThreshold bus st old = l3_call_get bus st (\<lambda>ctx. l3gd20h_gy_trshld_z_get ctx old)"

definition l3_setGyroThresholdAxis :: "'x bus \<Rightarrow> (u8 \<Rightarrow> u8) \<Rightarrow> l3gd20h_gy_trshld_en_t \<Rightarrow> 'x l3_setter" where
  "l3_setGyroThresholdAxis bus st val = l3_call_set bus st (\<lambda>ctx. l3gd20h_gy_trshld_axis_set ctx val)"

definition l3_setGyroThresholdAxis_get :: "'x bus \<Rightarrow> (u8 \<Rightarrow> u8) \<Rightarrow> ('x, l3gd20h_gy_trshld_en_t) l3_getter" where
  "l3_setGyroThresholdAxis_get bus st = l3_call_get bus st l3gd20h_gy_trshld_axis_get"

definition l3_setGyroModeThreshold :: "'x bus \<Rightarrow> (u8 \<Rightarrow> u8) \<Rightarrow> l3gd20h_dcrm_g_t \<Rightarrow> 'x l3_setter" where
  "l3_setGyroModeThreshold bus st val = l3_call_set bus st (\<lambda>ctx. l3gd20h_gy_trshld_mode_set ctx val)"

definition l3_getGyroModeThreshold :: "'x bus \<Rightarrow> (u8 \<Rightarrow> u8) \<Rightarrow> ('x, l3gd20h_dcrm_g_t) l3_getter" where
  "l3_getGyroModeThreshold bus st = l3_call_get bus st l3gd20h_gy_trshld_mode_get"

definition l3_setGyroMinSampleThreshold :: "'x bus \<Rightarrow> (u8 \<Rightarrow> u8) \<Rightarrow> u8 \<Rightarrow> 'x l3_setter" where
  "l3_setGyroMinSampleThreshold bus st val = l3_call_set bus st (\<lambda>ctx. l3gd20h_gy_trshld_min_sample_set ctx val)"

definition l3_getGyroMinSampleThreshold :: "'x bus \<Rightarrow> (u8 \<Rightarrow> u8) \<Rightarrow> ('x, u8) l3_getter" where
  "l3_getGyroMinSampleThreshold bus st = l3_call_get bus st l3gd20h_gy_trshld_min_sample_get"

definition l3_setFifoStopWtm :: "'x bus \<Rightarrow> (u8 \<Rightarrow> u8) \<Rightarrow> u8 \<Rightarrow> 'x l3_setter" where
  "l3_setFifoStopWtm bus st val = l3_call_set bus st (\<lambda>ctx. l3gd20h_fifo_stop_on_wtm_set ctx val)"

definition l3_getFifoStopWtm :: "'x bus \<Rightarrow> (u8 \<Rightarrow> u8) \<Rightarrow> ('x, u8) l3_getter" where
  "l3_getFifoStopWtm bus st = l3_call_get bus st l3gd20h_fifo_stop_on_wtm_get"

definition l3_setFifoMode :: "'x bus \<Rightarrow> (u8 \<Rightarrow> u8) \<Rightarrow> l3gd20h_fifo_m_t \<Rightarrow> 'x l3_setter" where
  "l3_setFifoMode bus st val = l3_call_set bus st (\<lambda>ctx. l3gd20h_fifo_mode_set ctx val)"

definition l3_getFifoMode :: "'x bus \<Rightarrow> (u8 \<Rightarrow> u8) \<Rightarrow> ('x, l3gd20h_fifo_m_t) l3_getter" where
  "l3_getFifoMode bus st = l3_call_get bus st l3gd20h_fifo_mode_get"

definition l3_setFifoWatermark :: "'x bus \<Rightarrow> (u8 \<Rightarrow> u8) \<Rightarrow> u8 \<Rightarrow> 'x l3_setter" where
  "l3_setFifoWatermark bus st val = l3_call_set bus st (\<lambda>ctx. l3gd20h_fifo_watermark_set ctx val)"

definition l3_getFifoWatermark :: "'x bus \<Rightarrow> (u8 \<Rightarrow> u8) \<Rightarrow> ('x, u8) l3_getter" where
  "l3_getFifoWatermark bus st = l3_call_get bus st l3gd20h_fifo_watermark_get"

definition l3_setDenMode :: "'x bus \<Rightarrow> (u8 \<Rightarrow> u8) \<Rightarrow> l3gd20h_den_md_t \<Rightarrow> 'x l3_setter" where
  "l3_setDenMode bus st val = l3_call_set bus st (\<lambda>ctx. l3gd20h_den_mode_set ctx val)"

definition l3_getDenMode :: "'x bus \<Rightarrow> (u8 \<Rightarrow> u8) \<Rightarrow> ('x, l3gd20h_den_md_t) l3_getter" where
  "l3_getDenMode bus st = l3_call_get bus st l3gd20h_den_mode_get"

definition l3_setSelfTest :: "'x bus \<Rightarrow> (u8 \<Rightarrow> u8) \<Rightarrow> l3gd20h_st_t \<Rightarrow> 'x l3_setter" where
  "l3_setSelfTest bus st val = l3_call_set bus st (\<lambda>ctx. l3gd20h_gy_self_test_set ctx val)"

definition l3_getSelfTest :: "'x bus \<Rightarrow> (u8 \<Rightarrow> u8) \<Rightarrow> ('x, l3gd20h_st_t) l3_getter" where
  "l3_getSelfTest bus st = l3_call_get bus st l3gd20h_gy_self_test_get"

definition l3_getGyroFlagDataReady :: "'x bus \<Rightarrow> (u8 \<Rightarrow> u8) \<Rightarrow> ('x, u8) l3_getter" where
  "l3_getGyroFlagDataReady bus st = l3_call_get bus st l3gd20h_gy_flag_data_ready_get"

definition l3_getRawTemp :: "'x bus \<Rightarrow> (u8 \<Rightarrow> u8) \<Rightarrow> u8 \<Rightarrow> ('x, u8) l3_getter" where
  "l3_getRawTemp bus st old = l3_call_get bus st (\<lambda>ctx. l3gd20h_temperature_raw_get ctx old)"

definition l3_getRawAngularRate :: "'x bus \<Rightarrow> (u8 \<Rightarrow> u8) \<Rightarrow> ('x, u16 list) l3_getter" where
  "l3_getRawAngularRate bus st = l3_call_get bus st l3gd20h_angular_rate_raw_get"

definition l3_getDeviceID :: "'x bus \<Rightarrow> (u8 \<Rightarrow> u8) \<Rightarrow> u8 \<Rightarrow> ('x, u8) l3_getter" where
  "l3_getDeviceID bus st old = l3_call_get bus st (\<lambda>ctx. l3gd20h_dev_id_get ctx old)"

definition l3_getDeviceStatus :: "'x bus \<Rightarrow> (u8 \<Rightarrow> u8) \<Rightarrow> ('x, l3gd20h_status_reg_t) l3_getter" where
  "l3_getDeviceStatus bus st = l3_call_get bus st l3gd20h_dev_status_get"

definition l3_getGyroscopeThreshold :: "'x bus \<Rightarrow> (u8 \<Rightarrow> u8) \<Rightarrow> ('x, l3gd20h_gy_trshld_src_t) l3_getter" where
  "l3_getGyroscopeThreshold bus st = l3_call_get bus st l3gd20h_gy_trshld_src_get"

definition l3_getFifoSrc :: "'x bus \<Rightarrow> (u8 \<Rightarrow> u8) \<Rightarrow> ('x, l3gd20h_fifo_srs_t) l3_getter" where
  "l3_getFifoSrc bus st = l3_call_get bus st l3gd20h_fifo_src_get"

definition l3_getFifoDataLevel :: "'x bus \<Rightarrow> (u8 \<Rightarrow> u8) \<Rightarrow> ('x, u8) l3_getter" where
  "l3_getFifoDataLevel bus st = l3_call_get bus st l3gd20h_fifo_data_level_get"

definition l3_getFifoFullFlag :: "'x bus \<Rightarrow> (u8 \<Rightarrow> u8) \<Rightarrow> ('x, u8) l3_getter" where
  "l3_getFifoFullFlag bus st = l3_call_get bus st l3gd20h_fifo_full_flag_get"

definition l3_getFifoWtmFlag :: "'x bus \<Rightarrow> (u8 \<Rightarrow> u8) \<Rightarrow> ('x, u8) l3_getter" where
  "l3_getFifoWtmFlag bus st = l3_call_get bus st l3gd20h_fifo_wtm_flag_get"

section \<open>On a device with registers\<close>

text \<open>After \<open>init\<close>, with an I2C interface, and with no call to be resumed.\<close>

definition l3_ok :: "l3gd \<Rightarrow> bool" where
  "l3_ok d \<longleftrightarrow> l3_write d = Some I2C \<and> l3_read d = Some I2C \<and> l3_mI2C d \<and>
     \<not> l3_write_label d \<and> \<not> l3_read_label d \<and> \<not> l3_undef d"

lemma l3_init_ok: "run_state (l3_init mode) (l3_new spiDev True, x) = (RET_SUCCESS, d, x') \<Longrightarrow> l3_ok d \<and> x' = x"
  by (auto simp: l3_init_def l3_new_def l3_ok_def split: if_splits)

abbreviation l3_regs :: "('x \<Rightarrow> u16 \<Rightarrow> u8) \<Rightarrow> l3gd \<times> 'x \<Rightarrow> u8 \<Rightarrow> u8" where
  "l3_regs regs s reg \<equiv> regs (snd s) (ucast reg)"

lemma register_address_eq: "(ucast (a :: u8) :: u16) = ucast b \<longleftrightarrow> a = b"
proof -
  have "ucast (ucast c :: u16) = c" for c :: u8
    by (rule bit_word_eqI) (auto simp: bit_simps)
  then show ?thesis
    by metis
qed

lemma l3_register_device:
  assumes "byte_registers bus (ucast L3GD20H_I2C_ADD_L) regs"
  shows "register_device (l3_ctx bus st) (l3_regs regs) (\<lambda>s. l3_ok (fst s))"
proof
  fix s :: "l3gd \<times> 'a" and reg :: u8 and buf :: "u8 list"
  assume ok: "l3_ok (fst s)" and fit: "unat reg + length buf \<le> 256"
  obtain d x where s: "s = (d, x)"
    by (cases s)
  have addr: "ucast reg + of_nat i = (ucast (reg + of_nat i) :: u16)" if "i < length buf" for i
    using that fit by (intro word_unat_eq_iff [THEN iffD2]) (simp add: unat_word_ariths unsigned_ucast_eq unsigned_of_nat take_bit_nat_eq_self)
  obtain x' where x': "bus (I2cRead (ucast L3GD20H_I2C_ADD_L) (ucast reg) (length buf)) x =
      (RET_SUCCESS, map (\<lambda>i. regs x (ucast reg + of_nat i)) [0..<length buf], x')" "regs x' = regs x"
    by (rule byte_registers_read [OF assms])
  have "d\<lparr>l3_read_label := False\<rparr> = d"
    using ok s by (simp add: l3_ok_def)
  with ok s x' addr show "\<exists>s'. read_reg (l3_ctx bus st) reg buf s =
      (0, map (\<lambda>i. l3_regs regs s (reg + of_nat i)) [0..<length buf], s') \<and> l3_ok (fst s') \<and> l3_regs regs s' = l3_regs regs s"
    by (auto simp: l3_ctx_def l3_ok_def l3_i2cRead_def call_int_def)
next
  fix s :: "l3gd \<times> 'a" and reg v :: u8
  assume ok: "l3_ok (fst s)"
  obtain d x where s: "s = (d, x)"
    by (cases s)
  obtain x' where "bus (I2cWrite (ucast L3GD20H_I2C_ADD_L) (ucast reg) [v]) x = (RET_SUCCESS, [], x')"
    "regs x' = (regs x)(ucast reg := v)"
    by (rule byte_registers_write [OF assms])
  with ok s show "\<exists>s'. write_reg (l3_ctx bus st) reg [v] s = (0, s') \<and> l3_ok (fst s') \<and>
      l3_regs regs s' = (l3_regs regs s)(reg := v)"
    by (auto simp: l3_ctx_def l3_ok_def l3_i2cWrite_def call_int_def register_address_eq fun_eq_iff)
qed

section \<open>Setting, then getting\<close>

text \<open>The facade succeeds in setting, and then gets \<open>v\<close>.\<close>

definition l3_returns :: "'x l3_setter \<Rightarrow> ('x, 'a) l3_getter \<Rightarrow> l3gd \<times> 'x \<Rightarrow> 'a \<Rightarrow> bool" where
  "l3_returns set_it get_it s v \<longleftrightarrow>
     (case run_state set_it s of (r, s1) \<Rightarrow> r = Some RET_SUCCESS \<and> fst (run_state get_it s1) = Some (RET_SUCCESS, v))"

lemma l3_returnsI:
  assumes "reads_back regs (\<lambda>s. l3_ok (fst s)) (f (l3_ctx bus st)) (g (l3_ctx bus st)) v" and "l3_ok (fst s)"
  shows "l3_returns (l3_call_set bus st f) (l3_call_get bus st g) s v"
proof -
  obtain s1 s2 where "run_state (f (l3_ctx bus st)) s = (0, s1)" "l3_ok (fst s1)"
    "run_state (g (l3_ctx bus st)) s1 = ((0, v), s2)" "l3_ok (fst s2)"
    using assms unfolding reads_back_def by blast
  then show ?thesis
    by (cases s1; cases s2) (simp add: l3_returns_def l3_call_set_def l3_call_get_def l3_ok_def)
qed

lemma l3_returns_twoI:
  assumes two: "reads_back regs (\<lambda>s. l3_ok (fst s)) (update_both (e (l3_ctx bus st)) (f (l3_ctx bus st))) (g (l3_ctx bus st)) v"
    and first: "reads_back regs (\<lambda>s. l3_ok (fst s)) (e (l3_ctx bus st)) h w" and ok: "l3_ok (fst s)"
  shows "l3_returns (do {_ \<leftarrow> l3_call_set bus st e; l3_call_set bus st f}) (l3_call_get bus st g) s v"
proof -
  obtain s0 where e: "run_state (e (l3_ctx bus st)) s = (0, s0)" "l3_ok (fst s0)"
    using first ok unfolding reads_back_def by blast
  obtain s1 s2 where "run_state (update_both (e (l3_ctx bus st)) (f (l3_ctx bus st))) s = (0, s1)" "l3_ok (fst s1)"
    "run_state (g (l3_ctx bus st)) s1 = ((0, v), s2)" "l3_ok (fst s2)"
    using two ok unfolding reads_back_def by blast
  with e show ?thesis
    by (cases s0; cases s1; cases s2) (simp add: l3_returns_def l3_call_set_def l3_call_get_def l3_ok_def update_both_def)
qed

interpretation l3_dev: register_device "l3_ctx byte_bus st" "l3_regs (\<lambda>x. x)" "\<lambda>s. l3_ok (fst s)" for st
  by (rule l3_register_device) (rule byte_bus_registers)

lemmas l3_reads_back =
  register_device.gy_data_rate_reads_back register_device.block_data_update_reads_back
  register_device.dev_data_format_reads_back register_device.dev_boot_reads_back
  register_device.dev_reset_reads_back register_device.gy_filter_hp_bandwidth_reads_back
  register_device.gy_filter_out_path_reads_back register_device.gy_filter_int_path_reads_back
  register_device.spi_mode_reads_back register_device.i2c_interface_reads_back
  register_device.pin_int1_route_reads_back register_device.pin_int2_route_reads_back
  register_device.pin_mode_reads_back register_device.pin_polarity_reads_back
  register_device.pin_notification_reads_back register_device.pin_logic_reads_back
  register_device.gy_axis_reads_back register_device.gy_trshld_mode_reads_back
  register_device.gy_trshld_min_sample_reads_back register_device.fifo_stop_on_wtm_reads_back
  register_device.fifo_watermark_reads_back register_device.den_mode_reads_back
  register_device.gy_self_test_reads_back register_device.gy_trshld_axis_reads_back
  register_device.gy_filter_reference_reads_back

lemmas l3_facade_defs =
  l3_setDataRate_def l3_getDataRate_def l3_setBlockDataUpdate_def l3_getBlockDataUpdate_def
  l3_setDataFormat_def l3_getDataFormat_def l3_setBoot_def l3_getBoot_def l3_setReset_def
  l3_getReset_def l3_setHPFilterBandwith_def l3_getHPFilterBandwith_def l3_setFilterOutPath_def
  l3_getFilterOutPath_def l3_setFilterIntPath_def l3_getFilterIntPath_def l3_setSPIMode_def
  l3_getSPIMode_def l3_setI2CInterface_def l3_getI2CInterface_def l3_setPinInt1Route_def
  l3_getPinInt1Route_def l3_setPinInt2Route_def l3_getPinInt2Route_def l3_setPinMode_def
  l3_getPinMode_def l3_setPinPolarity_def l3_getPinPolarity_def l3_setPinNotification_def
  l3_getPinNotification_def l3_setPinLogic_def l3_getPinLogic_def l3_setGyroAxis_def
  l3_getGyroAxis_def l3_setGyroModeThreshold_def l3_getGyroModeThreshold_def
  l3_setGyroMinSampleThreshold_def l3_getGyroMinSampleThreshold_def l3_setFifoStopWtm_def
  l3_getFifoStopWtm_def l3_setFifoWatermark_def l3_getFifoWatermark_def l3_setDenMode_def
  l3_getDenMode_def l3_setSelfTest_def l3_getSelfTest_def l3_setGyroThresholdAxis_def
  l3_setGyroThresholdAxis_get_def l3_setFilterReference_def l3_getFilterReference_def

lemmas l3_misreads =
  register_device.gy_full_scale_reads_back register_device.fifo_mode_reads_back
  register_device.gy_trshld_x_reads_back register_device.gy_trshld_y_reads_back register_device.gy_trshld_z_reads_back

lemmas l3_misread_defs =
  l3_setFullScale_def l3_getFullScale_def l3_setFifoMode_def l3_getFifoMode_def
  l3_setGyroXThreshold_def l3_getGyroXThreshold_def l3_setGyroYThreshold_def l3_getGyroYThreshold_def
  l3_setGyroZThreshold_def l3_getGyroZThreshold_def

text \<open>C37: 
  All settings of the gyroscope that can be set and read back, but for the two bits that the chip clears itself
  (boot and reset): setting one succeeds, and get then answers with the value, cut to the width of its field
  where the parameter is a whole byte, with these exceptions.  For the range of 2000 degrees per second and the
  dynamic stream of the FIFO, get has no case and answers with the default.  Of a threshold of fifteen bits get
  returns the low byte for X and Y, and the high seven bits for Z.  The bandwidth of the low pass filter has
  two bits of its own only, and is read back when the data rate of its name was set before.  Assumed are a bus
  that never waits or fails and registers that keep what is written to them; a bus that blocks is another
  theorem, l3_blocking_bus.
\<close>
theorem l3_set_get:
  assumes bus: "byte_registers bus (ucast L3GD20H_I2C_ADD_L) regs" and ok: "l3_ok (fst s)"
  shows "(\<forall>v. l3_returns (l3_setDataRate bus st v) (l3_getDataRate bus st) s v) \<and>
    (\<forall>v. l3_returns (l3_setBlockDataUpdate bus st v) (l3_getBlockDataUpdate bus st) s (take_bit 1 v)) \<and>
    (\<forall>v. l3_returns (l3_setDataFormat bus st v) (l3_getDataFormat bus st) s v) \<and>
    (\<forall>v. l3_returns (l3_setHPFilterBandwith bus st v) (l3_getHPFilterBandwith bus st) s v) \<and>
    (\<forall>v. l3_returns (l3_setFilterOutPath bus st v) (l3_getFilterOutPath bus st) s v) \<and>
    (\<forall>v. l3_returns (l3_setFilterIntPath bus st v) (l3_getFilterIntPath bus st) s v) \<and>
    (\<forall>v. l3_returns (l3_setSPIMode bus st v) (l3_getSPIMode bus st) s v) \<and>
    (\<forall>v. l3_returns (l3_setI2CInterface bus st v) (l3_getI2CInterface bus st) s v) \<and>
    (\<forall>v. l3_returns (l3_setPinInt1Route bus st v) (l3_getPinInt1Route bus st) s v) \<and>
    (\<forall>v. l3_returns (l3_setPinInt2Route bus st v) (l3_getPinInt2Route bus st) s v) \<and>
    (\<forall>v. l3_returns (l3_setPinMode bus st v) (l3_getPinMode bus st) s v) \<and>
    (\<forall>v. l3_returns (l3_setPinPolarity bus st v) (l3_getPinPolarity bus st) s v) \<and>
    (\<forall>v. l3_returns (l3_setPinNotification bus st v) (l3_getPinNotification bus st) s v) \<and>
    (\<forall>v. l3_returns (l3_setPinLogic bus st v) (l3_getPinLogic bus st) s v) \<and>
    (\<forall>v. l3_returns (l3_setGyroAxis bus st v) (l3_getGyroAxis bus st) s v) \<and>
    (\<forall>v. l3_returns (l3_setGyroModeThreshold bus st v) (l3_getGyroModeThreshold bus st) s v) \<and>
    (\<forall>v. l3_returns (l3_setGyroMinSampleThreshold bus st v) (l3_getGyroMinSampleThreshold bus st) s (take_bit 7 v)) \<and>
    (\<forall>v. l3_returns (l3_setFifoStopWtm bus st v) (l3_getFifoStopWtm bus st) s (take_bit 1 v)) \<and>
    (\<forall>v. l3_returns (l3_setFifoWatermark bus st v) (l3_getFifoWatermark bus st) s (take_bit 5 v)) \<and>
    (\<forall>v. l3_returns (l3_setDenMode bus st v) (l3_getDenMode bus st) s v) \<and>
    (\<forall>v. l3_returns (l3_setSelfTest bus st v) (l3_getSelfTest bus st) s v) \<and>
    (\<forall>v. l3_returns (l3_setGyroThresholdAxis bus st v) (l3_setGyroThresholdAxis_get bus st) s v) \<and>
    (\<forall>v old. l3_returns (l3_setFilterReference bus st v) (l3_getFilterReference bus st old) s v) \<and>
    (\<forall>v. l3_returns (l3_setFullScale bus st v) (l3_getFullScale bus st) s (if v = L3GD20H_2000dps then L3GD20H_245dps else v)) \<and>
    (\<forall>v. l3_returns (l3_setFifoMode bus st v) (l3_getFifoMode bus st) s
       (if v = L3GD20H_DYNAMIC_STREAM_MODE then L3GD20H_BYPASS_MODE else v)) \<and>
    (\<forall>v old. l3_returns (l3_setGyroXThreshold bus st v) (l3_getGyroXThreshold bus st old) s (v AND 0xFF)) \<and>
    (\<forall>v old. l3_returns (l3_setGyroYThreshold bus st v) (l3_getGyroYThreshold bus st old) s (v AND 0xFF)) \<and>
    (\<forall>v old. l3_returns (l3_setGyroZThreshold bus st v) (l3_getGyroZThreshold bus st old) s (v div 256 AND 0x7F)) \<and>
    (\<forall>v. l3_returns (do {_ \<leftarrow> l3_setDataRate bus st (lpbw_rate v); l3_setLPFilterBandwith bus st v})
       (l3_getLPFilterBandwith bus st) s v)"
proof -
  note dev = l3_register_device [OF bus]
  have lp: "\<forall>v. l3_returns (do {_ \<leftarrow> l3_setDataRate bus st (lpbw_rate v); l3_setLPFilterBandwith bus st v})
      (l3_getLPFilterBandwith bus st) s v"
    unfolding l3_setDataRate_def l3_setLPFilterBandwith_def l3_getLPFilterBandwith_def
    by (rule allI, rule l3_returns_twoI, rule register_device.gy_filter_lp_bandwidth_reads_back [OF dev],
        rule register_device.gy_data_rate_reads_back [OF dev], rule ok)
  show ?thesis
    by (intro conjI; (rule lp | unfold l3_facade_defs l3_misread_defs, intro allI, rule l3_returnsI [OF _ ok],
      (rule l3_reads_back [OF dev] | rule l3_misreads [OF dev])))
qed

theorem l3_set_get_witness:
  "\<exists>s. run_state (l3_init I2C) (l3_new False True, \<lambda>_. 0xA5) = (RET_SUCCESS, s) \<and>
     l3_returns (l3_setDataRate byte_bus (\<lambda>_. 0) L3GD20H_25Hz) (l3_getDataRate byte_bus (\<lambda>_. 0)) s L3GD20H_25Hz"
proof -
  let ?s = "(l3_new False True)\<lparr>l3_write := Some I2C, l3_read := Some I2C\<rparr>" and ?x = "\<lambda>_ :: u16. 0xA5 :: u8"
  have 1: "run_state (l3_init I2C) (l3_new False True, ?x) = (RET_SUCCESS, ?s, ?x)"
    by (simp add: l3_init_def)
  have ok: "l3_ok (fst (?s, ?x))"
    by (simp add: l3_new_def l3_ok_def)
  show ?thesis
    using 1 l3_set_get [OF byte_bus_registers ok, of "\<lambda>_. 0", THEN conjunct1] by blast
qed

text \<open>The exceptions by themselves: ranges and FIFO modes without a case, and thresholds put together wrongly.\<close>
theorem l3_modes_misread:
  assumes bus: "byte_registers bus (ucast L3GD20H_I2C_ADD_L) regs" and ok: "l3_ok (fst s)"
  shows "(\<forall>v. l3_returns (l3_setFullScale bus st v) (l3_getFullScale bus st) s
             (if v = L3GD20H_2000dps then L3GD20H_245dps else v)) \<and>
    (\<forall>v. l3_returns (l3_setFifoMode bus st v) (l3_getFifoMode bus st) s
             (if v = L3GD20H_DYNAMIC_STREAM_MODE then L3GD20H_BYPASS_MODE else v))"
  unfolding l3_misread_defs
  by (intro conjI allI; rule l3_returnsI [OF _ ok]; rule l3_misreads [OF l3_register_device [OF bus]])

theorem l3_thresholds_misread:
  assumes bus: "byte_registers bus (ucast L3GD20H_I2C_ADD_L) regs" and ok: "l3_ok (fst s)"
  shows "(\<forall>v old. l3_returns (l3_setGyroXThreshold bus st v) (l3_getGyroXThreshold bus st old) s (v AND 0xFF)) \<and>
    (\<forall>v old. l3_returns (l3_setGyroYThreshold bus st v) (l3_getGyroYThreshold bus st old) s (v AND 0xFF)) \<and>
    (\<forall>v old. l3_returns (l3_setGyroZThreshold bus st v) (l3_getGyroZThreshold bus st old) s (v div 256 AND 0x7F))"
  unfolding l3_misread_defs
  by (intro conjI allI; rule l3_returnsI [OF _ ok]; rule l3_misreads [OF l3_register_device [OF bus]])

section \<open>Buses that block\<close>

text \<open>
  A bus that blocks, as the one of the STM32 does: the facade reports an error at once and leaves i2cRead to be
  resumed; the next call jumps over the initialisation of the address, and its outcome is undefined.
\<close>
theorem l3_blocking_bus:
  assumes "l3_ok d" and "\<And>reg n. call_waits (fst (bus (I2cRead (ucast L3GD20H_I2C_ADD_L) reg n) x))"
  shows "\<exists>s1. run_state (l3_setDataRate bus st v) (d, x) = (Some RET_ERROR, s1) \<and>
     fst (run_state (l3_getDataRate bus st) s1) = None"
proof -
  let ?ev = "I2cRead (ucast L3GD20H_I2C_ADD_L) (ucast L3GD20H_CTRL1) 1"
  obtain ret data x1 where b: "bus ?ev x = (ret, data, x1)" "call_waits ret"
    using assms(2) by (metis prod_cases3 fst_conv)
  then have r: "call_int ret \<noteq> 0"
    by (cases ret) (simp_all add: call_int_def call_waits_def)
  let ?d = "d\<lparr>l3_read_label := True\<rparr>"
  have 1: "run_state (ctx_read1 (l3_ctx bus st) L3GD20H_CTRL1 (st L3GD20H_CTRL1)) (d, x) =
      ((call_int ret, case fill data [st L3GD20H_CTRL1] of [] \<Rightarrow> st L3GD20H_CTRL1 | b # _ \<Rightarrow> b), ?d, x1)"
    using assms(1) b by (simp add: ctx_read1_def l3_ctx_def l3_i2cRead_def l3_ok_def)
  have 2: "run_state (ctx_read1 (l3_ctx bus st) L3GD20H_CTRL1 (st L3GD20H_CTRL1)) (?d, x1) =
      ((- 1, st L3GD20H_CTRL1), ?d\<lparr>l3_undef := True\<rparr>, x1)"
    using assms(1) by (simp add: ctx_read1_def l3_ctx_def l3_i2cRead_def l3_ok_def)
  have st: "stale (l3_ctx bus st) = st"
    by (simp add: l3_ctx_def)
  have "run_state (l3_setDataRate bus st v) (d, x) = (Some RET_ERROR, ?d, x1)"
    using assms(1) r by (simp add: l3_setDataRate_def l3_call_set_def l3gd20h_gy_data_rate_set_def update_both_def
      update_reg_def st 1 l3_ok_def)
  moreover have "fst (run_state (l3_getDataRate bus st) (?d, x1)) = None"
    by (simp add: l3_getDataRate_def l3_call_get_def l3gd20h_gy_data_rate_get_def load_regs_def st 2)
  ultimately show ?thesis
    by blast
qed

theorem l3_blocking_bus_witness:
  "\<exists>s1. run_state (l3_setDataRate (\<lambda>ev x. (RET_BLOCKED, [], x)) (\<lambda>_. 0) L3GD20H_25Hz)
      ((l3_new False True)\<lparr>l3_write := Some I2C, l3_read := Some I2C\<rparr>, ()) = (Some RET_ERROR, s1) \<and>
    fst (run_state (l3_getDataRate (\<lambda>ev x. (RET_BLOCKED, [], x)) (\<lambda>_. 0)) s1) = None"
  by (rule l3_blocking_bus) (simp_all add: l3_new_def l3_ok_def call_waits_def)

text \<open>The case of SPI falls through: a facade that has only an SPI device calls through a null pointer.\<close>
theorem l3_spi_falls_through:
  assumes "run_state (l3_init mode) (l3_new spiDev False, x) = (ret, s)"
  shows "ret = RET_SUCCESS \<and> fst (run_state (l3_setDataRate bus st v) s) = None"
  using assms
  by (auto simp: l3_init_def l3_new_def l3_setDataRate_def l3_call_set_def l3gd20h_gy_data_rate_set_def update_both_def
      update_reg_def ctx_read1_def l3_ctx_def l3_i2cRead_def split: if_splits)

end
