(* ===== verification/LisRegModel.thy ===== *)
theory LisRegModel
  imports VendorRegs LisModel
begin

unbundle bit_operations_syntax

text \<open>
  The vendor's register file of the magnetometer LIS3MDL (src/device/peripherals/LIS3MDL: lis3mdl_reg.c,
  lis3mdl_reg.h), one definition per function, as in \<open>L3gdRegs\<close>.  The driver of \<open>LisModel\<close> does not use
  these functions.  Enumeration constants are without the prefix LIS3MDL.  The addresses
  LIS3MDL_OUT_X_L, LIS3MDL_TEMP_OUT_L and LIS3MDL_INT_CFG, which the file uses without a declaration, are those
  of LIS3MDL.h.
\<close>

section \<open>Structs and enumerations\<close>

definition LIS3MDL_INT_THS_L :: u8 where "LIS3MDL_INT_THS_L = 0x32"

definition lis3mdl_ctrl_reg1_t :: bit_struct where
  "lis3mdl_ctrl_reg1_t =
    [(''st'', 1), (''om'', 6), (''temp_en'', 1)]"

definition lis3mdl_ctrl_reg2_t :: bit_struct where
  "lis3mdl_ctrl_reg2_t =
    [(''not_used_01'', 2), (''soft_rst'', 1), (''reboot'', 1),
     (''not_used_02'', 1), (''fs'', 2), (''not_used_03'', 1)]"

definition lis3mdl_ctrl_reg3_t :: bit_struct where
  "lis3mdl_ctrl_reg3_t =
    [(''md'', 2), (''sim'', 1), (''not_used_01'', 2), (''lp'', 1), (''not_used_02'', 2)]"

definition lis3mdl_ctrl_reg4_t :: bit_struct where
  "lis3mdl_ctrl_reg4_t =
    [(''not_used_01'', 1), (''ble'', 1), (''omz'', 2), (''not_used_02'', 4)]"

definition lis3mdl_ctrl_reg5_t :: bit_struct where
  "lis3mdl_ctrl_reg5_t =
    [(''not_used_01'', 6), (''bdu'', 1), (''fast_read'', 1)]"

definition lis3mdl_status_reg_t :: bit_struct where
  "lis3mdl_status_reg_t =
    [(''xda'', 1), (''yda'', 1), (''zda'', 1), (''zyxda'', 1),
     (''_xor'', 1), (''yor'', 1), (''zor'', 1), (''zyxor'', 1)]"

definition lis3mdl_int_cfg_t :: bit_struct where
  "lis3mdl_int_cfg_t =
    [(''ien'', 1), (''lir'', 1), (''iea'', 1),
     (''not_used_01'', 2), (''zien'', 1), (''yien'', 1), (''xien'', 1)]"

definition lis3mdl_int_src_t :: bit_struct where
  "lis3mdl_int_src_t =
    [(''int_'', 1), (''mroi'', 1), (''nth_z'', 1), (''nth_y'', 1),
     (''nth_x'', 1), (''pth_z'', 1), (''pth_y'', 1), (''pth_x'', 1)]"

lemmas lis_structs =
  lis3mdl_ctrl_reg1_t_def lis3mdl_ctrl_reg2_t_def lis3mdl_ctrl_reg3_t_def lis3mdl_ctrl_reg4_t_def
  lis3mdl_ctrl_reg5_t_def lis3mdl_status_reg_t_def lis3mdl_int_cfg_t_def lis3mdl_int_src_t_def

datatype lis3mdl_om_t =
    LP_Hz625 | LP_1kHz | MP_560Hz | HP_300Hz | UHP_155Hz | LP_1Hz25 | LP_2Hz5 | LP_5Hz | LP_10Hz
    | LP_20Hz | LP_40Hz | LP_80Hz | MP_1Hz25 | MP_2Hz5 | MP_5Hz | MP_10Hz | MP_20Hz | MP_40Hz | MP_80Hz
    | HP_1Hz25 | HP_2Hz5 | HP_5Hz | HP_10Hz | HP_20Hz | HP_40Hz | HP_80Hz | UHP_1Hz25 | UHP_2Hz5
    | UHP_5Hz | UHP_10Hz | UHP_20Hz | UHP_40Hz | UHP_80Hz

primrec lis3mdl_om_code :: "lis3mdl_om_t \<Rightarrow> u8" where
  "lis3mdl_om_code LP_Hz625 = 0x00"
| "lis3mdl_om_code LP_1kHz = 0x01"
| "lis3mdl_om_code MP_560Hz = 0x11"
| "lis3mdl_om_code HP_300Hz = 0x21"
| "lis3mdl_om_code UHP_155Hz = 0x31"
| "lis3mdl_om_code LP_1Hz25 = 0x02"
| "lis3mdl_om_code LP_2Hz5 = 0x04"
| "lis3mdl_om_code LP_5Hz = 0x06"
| "lis3mdl_om_code LP_10Hz = 0x08"
| "lis3mdl_om_code LP_20Hz = 0x0A"
| "lis3mdl_om_code LP_40Hz = 0x0C"
| "lis3mdl_om_code LP_80Hz = 0x0E"
| "lis3mdl_om_code MP_1Hz25 = 0x12"
| "lis3mdl_om_code MP_2Hz5 = 0x14"
| "lis3mdl_om_code MP_5Hz = 0x16"
| "lis3mdl_om_code MP_10Hz = 0x18"
| "lis3mdl_om_code MP_20Hz = 0x1A"
| "lis3mdl_om_code MP_40Hz = 0x1C"
| "lis3mdl_om_code MP_80Hz = 0x1E"
| "lis3mdl_om_code HP_1Hz25 = 0x22"
| "lis3mdl_om_code HP_2Hz5 = 0x24"
| "lis3mdl_om_code HP_5Hz = 0x26"
| "lis3mdl_om_code HP_10Hz = 0x28"
| "lis3mdl_om_code HP_20Hz = 0x2A"
| "lis3mdl_om_code HP_40Hz = 0x2C"
| "lis3mdl_om_code HP_80Hz = 0x2E"
| "lis3mdl_om_code UHP_1Hz25 = 0x32"
| "lis3mdl_om_code UHP_2Hz5 = 0x34"
| "lis3mdl_om_code UHP_5Hz = 0x36"
| "lis3mdl_om_code UHP_10Hz = 0x38"
| "lis3mdl_om_code UHP_20Hz = 0x3A"
| "lis3mdl_om_code UHP_40Hz = 0x3C"
| "lis3mdl_om_code UHP_80Hz = 0x3E"

datatype lis3mdl_fs_t =
    FS_4_GAUSS | FS_8_GAUSS | FS_12_GAUSS | FS_16_GAUSS

primrec lis3mdl_fs_code :: "lis3mdl_fs_t \<Rightarrow> u8" where
  "lis3mdl_fs_code FS_4_GAUSS = 0x00"
| "lis3mdl_fs_code FS_8_GAUSS = 0x01"
| "lis3mdl_fs_code FS_12_GAUSS = 0x02"
| "lis3mdl_fs_code FS_16_GAUSS = 0x03"

datatype lis3mdl_md_t =
    CONTINUOUS_MODE | SINGLE_TRIGGER | POWER_DOWN

primrec lis3mdl_md_code :: "lis3mdl_md_t \<Rightarrow> u8" where
  "lis3mdl_md_code CONTINUOUS_MODE = 0x00"
| "lis3mdl_md_code SINGLE_TRIGGER = 0x01"
| "lis3mdl_md_code POWER_DOWN = 0x02"

datatype lis3mdl_ble_t =
    LSB_AT_LOW_ADD | MSB_AT_LOW_ADD

primrec lis3mdl_ble_code :: "lis3mdl_ble_t \<Rightarrow> u8" where
  "lis3mdl_ble_code LSB_AT_LOW_ADD = 0x00"
| "lis3mdl_ble_code MSB_AT_LOW_ADD = 0x01"

datatype lis3mdl_lir_t =
    INT_PULSED | INT_LATCHED

primrec lis3mdl_lir_code :: "lis3mdl_lir_t \<Rightarrow> u8" where
  "lis3mdl_lir_code INT_PULSED = 0x00"
| "lis3mdl_lir_code INT_LATCHED = 0x01"

datatype lis3mdl_iea_t =
    ACTIVE_HIGH | ACTIVE_LOW

primrec lis3mdl_iea_code :: "lis3mdl_iea_t \<Rightarrow> u8" where
  "lis3mdl_iea_code ACTIVE_HIGH = 0x00"
| "lis3mdl_iea_code ACTIVE_LOW = 0x01"

datatype lis3mdl_sim_t =
    SPI_4_WIRE | SPI_3_WIRE

primrec lis3mdl_sim_code :: "lis3mdl_sim_t \<Rightarrow> u8" where
  "lis3mdl_sim_code SPI_4_WIRE = 0x00"
| "lis3mdl_sim_code SPI_3_WIRE = 0x01"

section \<open>Conversions\<close>

text \<open>\<open>fl\<close> rounds to a float; the temperature is exact.\<close>

definition lis3mdl_from_fs4_to_gauss :: "(rat \<Rightarrow> rat) \<Rightarrow> u16 \<Rightarrow> rat" where
  "lis3mdl_from_fs4_to_gauss fl lsb = fl (of_int (sint lsb) / 6842)"

definition lis3mdl_from_fs8_to_gauss :: "(rat \<Rightarrow> rat) \<Rightarrow> u16 \<Rightarrow> rat" where
  "lis3mdl_from_fs8_to_gauss fl lsb = fl (of_int (sint lsb) / 3421)"

definition lis3mdl_from_fs12_to_gauss :: "(rat \<Rightarrow> rat) \<Rightarrow> u16 \<Rightarrow> rat" where
  "lis3mdl_from_fs12_to_gauss fl lsb = fl (of_int (sint lsb) / 2281)"

definition lis3mdl_from_fs16_to_gauss :: "(rat \<Rightarrow> rat) \<Rightarrow> u16 \<Rightarrow> rat" where
  "lis3mdl_from_fs16_to_gauss fl lsb = fl (of_int (sint lsb) / 1711)"

definition lis3mdl_from_lsb_to_celsius :: "u16 \<Rightarrow> rat" where
  "lis3mdl_from_lsb_to_celsius lsb = of_int (sint lsb) / 8 + 25"

section \<open>Accessors\<close>

definition lis3mdl_read_reg :: "'s stm_ctx \<Rightarrow> u8 \<Rightarrow> u8 list \<Rightarrow> ('s, int \<times> u8 list) state" where
  "lis3mdl_read_reg ctx reg data = ctx_read ctx reg data"

definition lis3mdl_write_reg :: "'s stm_ctx \<Rightarrow> u8 \<Rightarrow> u8 list \<Rightarrow> ('s, int) state" where
  "lis3mdl_write_reg ctx reg data = ctx_write ctx reg data"

definition lis3mdl_data_rate_set :: "'s stm_ctx \<Rightarrow> lis3mdl_om_t \<Rightarrow> ('s, int) state" where
  "lis3mdl_data_rate_set ctx val =
     update_both
       (update_reg ctx LIS3MDL_CTRL_REG1 (\<lambda>ctrl_reg1. bit_put lis3mdl_ctrl_reg1_t ''om'' (lis3mdl_om_code val) ctrl_reg1))
       (update_reg ctx LIS3MDL_CTRL_REG4 (\<lambda>ctrl_reg4. bit_put lis3mdl_ctrl_reg4_t ''omz'' (drop_bit 4 (lis3mdl_om_code val) AND 0x03) ctrl_reg4))"

definition lis3mdl_data_rate_get :: "'s stm_ctx \<Rightarrow> ('s, int \<times> lis3mdl_om_t) state" where
  "lis3mdl_data_rate_get ctx =
     load_reg ctx LIS3MDL_CTRL_REG1 (\<lambda>ctrl_reg1.
       switch_code lis3mdl_om_code
         [LP_Hz625, LP_1kHz, MP_560Hz, HP_300Hz, UHP_155Hz, LP_1Hz25, LP_2Hz5, LP_5Hz, LP_10Hz,
          LP_20Hz, LP_40Hz, LP_80Hz, MP_1Hz25, MP_2Hz5, MP_5Hz, MP_10Hz, MP_20Hz, MP_40Hz, MP_80Hz,
          HP_1Hz25, HP_2Hz5, HP_5Hz, HP_10Hz, HP_20Hz, HP_40Hz, HP_80Hz, UHP_1Hz25, UHP_2Hz5,
          UHP_5Hz, UHP_10Hz, UHP_20Hz, UHP_40Hz, UHP_80Hz] UHP_80Hz
         (bit_get lis3mdl_ctrl_reg1_t ''om'' ctrl_reg1))"

definition lis3mdl_temperature_meas_set :: "'s stm_ctx \<Rightarrow> u8 \<Rightarrow> ('s, int) state" where
  "lis3mdl_temperature_meas_set ctx val =
     update_reg ctx LIS3MDL_CTRL_REG1 (\<lambda>ctrl_reg1. bit_put lis3mdl_ctrl_reg1_t ''temp_en'' val ctrl_reg1)"

definition lis3mdl_temperature_meas_get :: "'s stm_ctx \<Rightarrow> ('s, int \<times> u8) state" where
  "lis3mdl_temperature_meas_get ctx = load_reg ctx LIS3MDL_CTRL_REG1 (\<lambda>ctrl_reg1. bit_get lis3mdl_ctrl_reg1_t ''temp_en'' ctrl_reg1)"

definition lis3mdl_full_scale_set :: "'s stm_ctx \<Rightarrow> lis3mdl_fs_t \<Rightarrow> ('s, int) state" where
  "lis3mdl_full_scale_set ctx val =
     update_reg ctx LIS3MDL_CTRL_REG2 (\<lambda>ctrl_reg2. bit_put lis3mdl_ctrl_reg2_t ''fs'' (lis3mdl_fs_code val) ctrl_reg2)"

definition lis3mdl_full_scale_get :: "'s stm_ctx \<Rightarrow> ('s, int \<times> lis3mdl_fs_t) state" where
  "lis3mdl_full_scale_get ctx =
     load_reg ctx LIS3MDL_CTRL_REG2 (\<lambda>ctrl_reg2.
       switch_code lis3mdl_fs_code
         [FS_4_GAUSS, FS_8_GAUSS, FS_12_GAUSS, FS_16_GAUSS] FS_4_GAUSS
         (bit_get lis3mdl_ctrl_reg2_t ''fs'' ctrl_reg2))"

definition lis3mdl_operating_mode_set :: "'s stm_ctx \<Rightarrow> lis3mdl_md_t \<Rightarrow> ('s, int) state" where
  "lis3mdl_operating_mode_set ctx val =
     update_reg ctx LIS3MDL_CTRL_REG3 (\<lambda>ctrl_reg3. bit_put lis3mdl_ctrl_reg3_t ''md'' (lis3mdl_md_code val) ctrl_reg3)"

definition lis3mdl_operating_mode_get :: "'s stm_ctx \<Rightarrow> ('s, int \<times> lis3mdl_md_t) state" where
  "lis3mdl_operating_mode_get ctx =
     load_reg ctx LIS3MDL_CTRL_REG3 (\<lambda>ctrl_reg3.
       switch_code lis3mdl_md_code
         [CONTINUOUS_MODE, SINGLE_TRIGGER, POWER_DOWN] POWER_DOWN
         (bit_get lis3mdl_ctrl_reg3_t ''md'' ctrl_reg3))"

definition lis3mdl_fast_low_power_set :: "'s stm_ctx \<Rightarrow> u8 \<Rightarrow> ('s, int) state" where
  "lis3mdl_fast_low_power_set ctx val =
     update_reg ctx LIS3MDL_CTRL_REG3 (\<lambda>ctrl_reg3. bit_put lis3mdl_ctrl_reg3_t ''lp'' val ctrl_reg3)"

definition lis3mdl_fast_low_power_get :: "'s stm_ctx \<Rightarrow> ('s, int \<times> u8) state" where
  "lis3mdl_fast_low_power_get ctx = load_reg ctx LIS3MDL_CTRL_REG3 (\<lambda>ctrl_reg3. bit_get lis3mdl_ctrl_reg3_t ''lp'' ctrl_reg3)"

definition lis3mdl_block_data_update_set :: "'s stm_ctx \<Rightarrow> u8 \<Rightarrow> ('s, int) state" where
  "lis3mdl_block_data_update_set ctx val =
     update_reg ctx LIS3MDL_CTRL_REG5 (\<lambda>ctrl_reg5. bit_put lis3mdl_ctrl_reg5_t ''bdu'' val ctrl_reg5)"

definition lis3mdl_block_data_update_get :: "'s stm_ctx \<Rightarrow> ('s, int \<times> u8) state" where
  "lis3mdl_block_data_update_get ctx = load_reg ctx LIS3MDL_CTRL_REG5 (\<lambda>ctrl_reg5. bit_get lis3mdl_ctrl_reg5_t ''bdu'' ctrl_reg5)"

definition lis3mdl_high_part_cycle_set :: "'s stm_ctx \<Rightarrow> u8 \<Rightarrow> ('s, int) state" where
  "lis3mdl_high_part_cycle_set ctx val =
     update_reg ctx LIS3MDL_CTRL_REG5 (\<lambda>ctrl_reg5. bit_put lis3mdl_ctrl_reg5_t ''fast_read'' val ctrl_reg5)"

definition lis3mdl_high_part_cycle_get :: "'s stm_ctx \<Rightarrow> ('s, int \<times> u8) state" where
  "lis3mdl_high_part_cycle_get ctx = load_reg ctx LIS3MDL_CTRL_REG5 (\<lambda>ctrl_reg5. bit_get lis3mdl_ctrl_reg5_t ''fast_read'' ctrl_reg5)"

definition lis3mdl_mag_data_ready_get :: "'s stm_ctx \<Rightarrow> ('s, int \<times> u8) state" where
  "lis3mdl_mag_data_ready_get ctx = load_reg ctx LIS3MDL_STATUS_REG (\<lambda>status_reg. bit_get lis3mdl_status_reg_t ''zyxda'' status_reg)"

definition lis3mdl_mag_data_ovr_get :: "'s stm_ctx \<Rightarrow> ('s, int \<times> u8) state" where
  "lis3mdl_mag_data_ovr_get ctx = load_reg ctx LIS3MDL_STATUS_REG (\<lambda>status_reg. bit_get lis3mdl_status_reg_t ''zyxor'' status_reg)"

definition lis3mdl_self_test_set :: "'s stm_ctx \<Rightarrow> u8 \<Rightarrow> ('s, int) state" where
  "lis3mdl_self_test_set ctx val =
     update_reg ctx LIS3MDL_CTRL_REG1 (\<lambda>ctrl_reg1. bit_put lis3mdl_ctrl_reg1_t ''st'' val ctrl_reg1)"

definition lis3mdl_self_test_get :: "'s stm_ctx \<Rightarrow> ('s, int \<times> u8) state" where
  "lis3mdl_self_test_get ctx = load_reg ctx LIS3MDL_CTRL_REG1 (\<lambda>ctrl_reg1. bit_get lis3mdl_ctrl_reg1_t ''st'' ctrl_reg1)"

definition lis3mdl_reset_set :: "'s stm_ctx \<Rightarrow> u8 \<Rightarrow> ('s, int) state" where
  "lis3mdl_reset_set ctx val =
     update_reg ctx LIS3MDL_CTRL_REG2 (\<lambda>ctrl_reg2. bit_put lis3mdl_ctrl_reg2_t ''soft_rst'' val ctrl_reg2)"

definition lis3mdl_reset_get :: "'s stm_ctx \<Rightarrow> ('s, int \<times> u8) state" where
  "lis3mdl_reset_get ctx = load_reg ctx LIS3MDL_CTRL_REG2 (\<lambda>ctrl_reg2. bit_get lis3mdl_ctrl_reg2_t ''soft_rst'' ctrl_reg2)"

definition lis3mdl_boot_set :: "'s stm_ctx \<Rightarrow> u8 \<Rightarrow> ('s, int) state" where
  "lis3mdl_boot_set ctx val =
     update_reg ctx LIS3MDL_CTRL_REG2 (\<lambda>ctrl_reg2. bit_put lis3mdl_ctrl_reg2_t ''reboot'' val ctrl_reg2)"

definition lis3mdl_boot_get :: "'s stm_ctx \<Rightarrow> ('s, int \<times> u8) state" where
  "lis3mdl_boot_get ctx = load_reg ctx LIS3MDL_CTRL_REG2 (\<lambda>ctrl_reg2. bit_get lis3mdl_ctrl_reg2_t ''reboot'' ctrl_reg2)"

definition lis3mdl_data_format_set :: "'s stm_ctx \<Rightarrow> lis3mdl_ble_t \<Rightarrow> ('s, int) state" where
  "lis3mdl_data_format_set ctx val =
     update_reg ctx LIS3MDL_CTRL_REG4 (\<lambda>ctrl_reg4. bit_put lis3mdl_ctrl_reg4_t ''ble'' (lis3mdl_ble_code val) ctrl_reg4)"

definition lis3mdl_data_format_get :: "'s stm_ctx \<Rightarrow> ('s, int \<times> lis3mdl_ble_t) state" where
  "lis3mdl_data_format_get ctx =
     load_reg ctx LIS3MDL_CTRL_REG4 (\<lambda>ctrl_reg4.
       switch_code lis3mdl_ble_code
         [LSB_AT_LOW_ADD, MSB_AT_LOW_ADD] LSB_AT_LOW_ADD
         (bit_get lis3mdl_ctrl_reg4_t ''ble'' ctrl_reg4))"

definition lis3mdl_int_generation_set :: "'s stm_ctx \<Rightarrow> u8 \<Rightarrow> ('s, int) state" where
  "lis3mdl_int_generation_set ctx val =
     update_reg ctx LIS3MDL_INT_CFG (\<lambda>int_cfg. bit_put lis3mdl_int_cfg_t ''ien'' val int_cfg)"

definition lis3mdl_int_generation_get :: "'s stm_ctx \<Rightarrow> ('s, int \<times> u8) state" where
  "lis3mdl_int_generation_get ctx = load_reg ctx LIS3MDL_INT_CFG (\<lambda>int_cfg. bit_get lis3mdl_int_cfg_t ''ien'' int_cfg)"

definition lis3mdl_int_notification_mode_set :: "'s stm_ctx \<Rightarrow> lis3mdl_lir_t \<Rightarrow> ('s, int) state" where
  "lis3mdl_int_notification_mode_set ctx val =
     update_reg ctx LIS3MDL_INT_CFG (\<lambda>int_cfg. bit_put lis3mdl_int_cfg_t ''lir'' (lis3mdl_lir_code val) int_cfg)"

definition lis3mdl_int_notification_mode_get :: "'s stm_ctx \<Rightarrow> ('s, int \<times> lis3mdl_lir_t) state" where
  "lis3mdl_int_notification_mode_get ctx =
     load_reg ctx LIS3MDL_INT_CFG (\<lambda>int_cfg.
       switch_code lis3mdl_lir_code
         [INT_PULSED, INT_LATCHED] INT_PULSED
         (bit_get lis3mdl_int_cfg_t ''lir'' int_cfg))"

definition lis3mdl_int_polarity_set :: "'s stm_ctx \<Rightarrow> lis3mdl_iea_t \<Rightarrow> ('s, int) state" where
  "lis3mdl_int_polarity_set ctx val =
     update_reg ctx LIS3MDL_INT_CFG (\<lambda>int_cfg. bit_put lis3mdl_int_cfg_t ''iea'' (lis3mdl_iea_code val) int_cfg)"

definition lis3mdl_int_polarity_get :: "'s stm_ctx \<Rightarrow> ('s, int \<times> lis3mdl_iea_t) state" where
  "lis3mdl_int_polarity_get ctx =
     load_reg ctx LIS3MDL_INT_CFG (\<lambda>int_cfg.
       switch_code lis3mdl_iea_code
         [ACTIVE_HIGH, ACTIVE_LOW] ACTIVE_HIGH
         (bit_get lis3mdl_int_cfg_t ''iea'' int_cfg))"

definition lis3mdl_int_on_z_ax_set :: "'s stm_ctx \<Rightarrow> u8 \<Rightarrow> ('s, int) state" where
  "lis3mdl_int_on_z_ax_set ctx val =
     update_reg ctx LIS3MDL_INT_CFG (\<lambda>int_cfg. bit_put lis3mdl_int_cfg_t ''zien'' val int_cfg)"

definition lis3mdl_int_on_z_ax_get :: "'s stm_ctx \<Rightarrow> ('s, int \<times> u8) state" where
  "lis3mdl_int_on_z_ax_get ctx = load_reg ctx LIS3MDL_INT_CFG (\<lambda>int_cfg. bit_get lis3mdl_int_cfg_t ''zien'' int_cfg)"

definition lis3mdl_int_on_y_ax_set :: "'s stm_ctx \<Rightarrow> u8 \<Rightarrow> ('s, int) state" where
  "lis3mdl_int_on_y_ax_set ctx val =
     update_reg ctx LIS3MDL_INT_CFG (\<lambda>int_cfg. bit_put lis3mdl_int_cfg_t ''yien'' val int_cfg)"

definition lis3mdl_int_on_y_ax_get :: "'s stm_ctx \<Rightarrow> ('s, int \<times> u8) state" where
  "lis3mdl_int_on_y_ax_get ctx = load_reg ctx LIS3MDL_INT_CFG (\<lambda>int_cfg. bit_get lis3mdl_int_cfg_t ''yien'' int_cfg)"

definition lis3mdl_int_on_x_ax_set :: "'s stm_ctx \<Rightarrow> u8 \<Rightarrow> ('s, int) state" where
  "lis3mdl_int_on_x_ax_set ctx val =
     update_reg ctx LIS3MDL_INT_CFG (\<lambda>int_cfg. bit_put lis3mdl_int_cfg_t ''xien'' val int_cfg)"

definition lis3mdl_int_on_x_ax_get :: "'s stm_ctx \<Rightarrow> ('s, int \<times> u8) state" where
  "lis3mdl_int_on_x_ax_get ctx = load_reg ctx LIS3MDL_INT_CFG (\<lambda>int_cfg. bit_get lis3mdl_int_cfg_t ''xien'' int_cfg)"

definition lis3mdl_interrupt_event_flag_get :: "'s stm_ctx \<Rightarrow> ('s, int \<times> u8) state" where
  "lis3mdl_interrupt_event_flag_get ctx = load_reg ctx LIS3MDL_INT_SRC (\<lambda>int_src. bit_get lis3mdl_int_src_t ''int_'' int_src)"

definition lis3mdl_int_mag_over_range_flag_get :: "'s stm_ctx \<Rightarrow> ('s, int \<times> u8) state" where
  "lis3mdl_int_mag_over_range_flag_get ctx = load_reg ctx LIS3MDL_INT_SRC (\<lambda>int_src. bit_get lis3mdl_int_src_t ''mroi'' int_src)"

definition lis3mdl_int_neg_z_flag_get :: "'s stm_ctx \<Rightarrow> ('s, int \<times> u8) state" where
  "lis3mdl_int_neg_z_flag_get ctx = load_reg ctx LIS3MDL_INT_SRC (\<lambda>int_src. bit_get lis3mdl_int_src_t ''nth_z'' int_src)"

definition lis3mdl_int_neg_y_flag_get :: "'s stm_ctx \<Rightarrow> ('s, int \<times> u8) state" where
  "lis3mdl_int_neg_y_flag_get ctx = load_reg ctx LIS3MDL_INT_SRC (\<lambda>int_src. bit_get lis3mdl_int_src_t ''nth_y'' int_src)"

definition lis3mdl_int_neg_x_flag_get :: "'s stm_ctx \<Rightarrow> ('s, int \<times> u8) state" where
  "lis3mdl_int_neg_x_flag_get ctx = load_reg ctx LIS3MDL_INT_SRC (\<lambda>int_src. bit_get lis3mdl_int_src_t ''nth_x'' int_src)"

definition lis3mdl_int_pos_z_flag_get :: "'s stm_ctx \<Rightarrow> ('s, int \<times> u8) state" where
  "lis3mdl_int_pos_z_flag_get ctx = load_reg ctx LIS3MDL_INT_SRC (\<lambda>int_src. bit_get lis3mdl_int_src_t ''pth_z'' int_src)"

definition lis3mdl_int_pos_y_flag_get :: "'s stm_ctx \<Rightarrow> ('s, int \<times> u8) state" where
  "lis3mdl_int_pos_y_flag_get ctx = load_reg ctx LIS3MDL_INT_SRC (\<lambda>int_src. bit_get lis3mdl_int_src_t ''pth_y'' int_src)"

definition lis3mdl_int_pos_x_flag_get :: "'s stm_ctx \<Rightarrow> ('s, int \<times> u8) state" where
  "lis3mdl_int_pos_x_flag_get ctx = load_reg ctx LIS3MDL_INT_SRC (\<lambda>int_src. bit_get lis3mdl_int_src_t ''pth_x'' int_src)"

definition lis3mdl_spi_mode_set :: "'s stm_ctx \<Rightarrow> lis3mdl_sim_t \<Rightarrow> ('s, int) state" where
  "lis3mdl_spi_mode_set ctx val =
     update_reg ctx LIS3MDL_CTRL_REG3 (\<lambda>ctrl_reg3. bit_put lis3mdl_ctrl_reg3_t ''sim'' (lis3mdl_sim_code val) ctrl_reg3)"

definition lis3mdl_spi_mode_get :: "'s stm_ctx \<Rightarrow> ('s, int \<times> lis3mdl_sim_t) state" where
  "lis3mdl_spi_mode_get ctx =
     load_reg ctx LIS3MDL_CTRL_REG3 (\<lambda>ctrl_reg3.
       switch_code lis3mdl_sim_code
         [SPI_4_WIRE, SPI_3_WIRE] SPI_4_WIRE
         (bit_get lis3mdl_ctrl_reg3_t ''sim'' ctrl_reg3))"

section \<open>Accessors of another shape\<close>

text \<open>Structs of one byte that are read or written as they are.\<close>

definition lis3mdl_device_id_get :: "'s stm_ctx \<Rightarrow> u8 \<Rightarrow> ('s, int \<times> u8) state" where
  "lis3mdl_device_id_get ctx buff = ctx_read1 ctx LIS3MDL_WHO_AM_I buff"

definition lis3mdl_status_get :: "'s stm_ctx \<Rightarrow> u8 \<Rightarrow> ('s, int \<times> u8) state" where
  "lis3mdl_status_get ctx val = ctx_read1 ctx LIS3MDL_STATUS_REG val"

definition lis3mdl_int_config_set :: "'s stm_ctx \<Rightarrow> u8 \<Rightarrow> ('s, int) state" where
  "lis3mdl_int_config_set ctx val = ctx_write ctx LIS3MDL_INT_CFG [val]"

definition lis3mdl_int_config_get :: "'s stm_ctx \<Rightarrow> u8 \<Rightarrow> ('s, int \<times> u8) state" where
  "lis3mdl_int_config_get ctx val = ctx_read1 ctx LIS3MDL_INT_CFG val"

definition lis3mdl_int_source_get :: "'s stm_ctx \<Rightarrow> u8 \<Rightarrow> ('s, int \<times> u8) state" where
  "lis3mdl_int_source_get ctx val = ctx_read1 ctx LIS3MDL_INT_SRC val"

text \<open>Arrays of bytes, the low one first.\<close>

definition lis3mdl_magnetic_raw_get :: "'s stm_ctx \<Rightarrow> ('s, int \<times> u16 list) state" where
  "lis3mdl_magnetic_raw_get ctx = do {
     (ret, buff) \<leftarrow> ctx_read ctx LIS3MDL_OUT_X_L (map (\<lambda>i. stale ctx (LIS3MDL_OUT_X_L + of_nat i)) [0..<6]);
     State_Monad.return (ret, [join16 (buff ! 1) (buff ! 0), join16 (buff ! 3) (buff ! 2), join16 (buff ! 5) (buff ! 4)])}"

definition lis3mdl_temperature_raw_get :: "'s stm_ctx \<Rightarrow> ('s, int \<times> u16) state" where
  "lis3mdl_temperature_raw_get ctx = do {
     (ret, buff) \<leftarrow> ctx_read ctx LIS3MDL_TEMP_OUT_L (map (\<lambda>i. stale ctx (LIS3MDL_TEMP_OUT_L + of_nat i)) [0..<2]);
     State_Monad.return (ret, join16 (buff ! 1) (buff ! 0))}"

definition lis3mdl_int_threshold_set :: "'s stm_ctx \<Rightarrow> u16 \<Rightarrow> ('s, int) state" where
  "lis3mdl_int_threshold_set ctx val =
     (let high = ucast (val div 256) in ctx_write ctx LIS3MDL_INT_THS_L [ucast (val - ucast (high :: u8) * 256), high])"

definition lis3mdl_int_threshold_get :: "'s stm_ctx \<Rightarrow> ('s, int \<times> u16) state" where
  "lis3mdl_int_threshold_get ctx = do {
     (ret, buff) \<leftarrow> ctx_read ctx LIS3MDL_INT_THS_L (map (\<lambda>i. stale ctx (LIS3MDL_INT_THS_L + of_nat i)) [0..<2]);
     State_Monad.return (ret, join16 (buff ! 1) (buff ! 0))}"

section \<open>What the accessors do to the registers\<close>

context register_device
begin

lemma lis_data_rate_reads_back: "reads_back regs ok (lis3mdl_data_rate_set ctx v) (lis3mdl_data_rate_get ctx) v"
  unfolding lis3mdl_data_rate_set_def lis3mdl_data_rate_get_def
  by (rule reads_backI [OF acts_update_both [OF acts_update acts_update] acts_load]) (cases v; simp add: lis_structs lis_constants switch_code_def)

lemma lis_temperature_meas_reads_back: "reads_back regs ok (lis3mdl_temperature_meas_set ctx v) (lis3mdl_temperature_meas_get ctx) (take_bit 1 v)"
  unfolding lis3mdl_temperature_meas_set_def lis3mdl_temperature_meas_get_def
  by (rule reads_back_one) (simp add: lis_structs)

lemma lis_full_scale_reads_back: "reads_back regs ok (lis3mdl_full_scale_set ctx v) (lis3mdl_full_scale_get ctx) v"
  unfolding lis3mdl_full_scale_set_def lis3mdl_full_scale_get_def
  by (rule reads_back_one) (cases v; simp add: lis_structs lis_constants switch_code_def)

lemma lis_operating_mode_reads_back: "reads_back regs ok (lis3mdl_operating_mode_set ctx v) (lis3mdl_operating_mode_get ctx) v"
  unfolding lis3mdl_operating_mode_set_def lis3mdl_operating_mode_get_def
  by (rule reads_back_one) (cases v; simp add: lis_structs lis_constants switch_code_def)

lemma lis_fast_low_power_reads_back: "reads_back regs ok (lis3mdl_fast_low_power_set ctx v) (lis3mdl_fast_low_power_get ctx) (take_bit 1 v)"
  unfolding lis3mdl_fast_low_power_set_def lis3mdl_fast_low_power_get_def
  by (rule reads_back_one) (simp add: lis_structs)

lemma lis_block_data_update_reads_back: "reads_back regs ok (lis3mdl_block_data_update_set ctx v) (lis3mdl_block_data_update_get ctx) (take_bit 1 v)"
  unfolding lis3mdl_block_data_update_set_def lis3mdl_block_data_update_get_def
  by (rule reads_back_one) (simp add: lis_structs)

lemma lis_high_part_cycle_reads_back: "reads_back regs ok (lis3mdl_high_part_cycle_set ctx v) (lis3mdl_high_part_cycle_get ctx) (take_bit 1 v)"
  unfolding lis3mdl_high_part_cycle_set_def lis3mdl_high_part_cycle_get_def
  by (rule reads_back_one) (simp add: lis_structs)

lemma lis_self_test_reads_back: "reads_back regs ok (lis3mdl_self_test_set ctx v) (lis3mdl_self_test_get ctx) (take_bit 1 v)"
  unfolding lis3mdl_self_test_set_def lis3mdl_self_test_get_def
  by (rule reads_back_one) (simp add: lis_structs)

lemma lis_reset_reads_back: "reads_back regs ok (lis3mdl_reset_set ctx v) (lis3mdl_reset_get ctx) (take_bit 1 v)"
  unfolding lis3mdl_reset_set_def lis3mdl_reset_get_def
  by (rule reads_back_one) (simp add: lis_structs)

lemma lis_boot_reads_back: "reads_back regs ok (lis3mdl_boot_set ctx v) (lis3mdl_boot_get ctx) (take_bit 1 v)"
  unfolding lis3mdl_boot_set_def lis3mdl_boot_get_def
  by (rule reads_back_one) (simp add: lis_structs)

lemma lis_data_format_reads_back: "reads_back regs ok (lis3mdl_data_format_set ctx v) (lis3mdl_data_format_get ctx) v"
  unfolding lis3mdl_data_format_set_def lis3mdl_data_format_get_def
  by (rule reads_back_one) (cases v; simp add: lis_structs lis_constants switch_code_def)

lemma lis_int_generation_reads_back: "reads_back regs ok (lis3mdl_int_generation_set ctx v) (lis3mdl_int_generation_get ctx) (take_bit 1 v)"
  unfolding lis3mdl_int_generation_set_def lis3mdl_int_generation_get_def
  by (rule reads_back_one) (simp add: lis_structs)

lemma lis_int_notification_mode_reads_back: "reads_back regs ok (lis3mdl_int_notification_mode_set ctx v) (lis3mdl_int_notification_mode_get ctx) v"
  unfolding lis3mdl_int_notification_mode_set_def lis3mdl_int_notification_mode_get_def
  by (rule reads_back_one) (cases v; simp add: lis_structs lis_constants switch_code_def)

lemma lis_int_polarity_reads_back: "reads_back regs ok (lis3mdl_int_polarity_set ctx v) (lis3mdl_int_polarity_get ctx) v"
  unfolding lis3mdl_int_polarity_set_def lis3mdl_int_polarity_get_def
  by (rule reads_back_one) (cases v; simp add: lis_structs lis_constants switch_code_def)

lemma lis_int_on_z_ax_reads_back: "reads_back regs ok (lis3mdl_int_on_z_ax_set ctx v) (lis3mdl_int_on_z_ax_get ctx) (take_bit 1 v)"
  unfolding lis3mdl_int_on_z_ax_set_def lis3mdl_int_on_z_ax_get_def
  by (rule reads_back_one) (simp add: lis_structs)

lemma lis_int_on_y_ax_reads_back: "reads_back regs ok (lis3mdl_int_on_y_ax_set ctx v) (lis3mdl_int_on_y_ax_get ctx) (take_bit 1 v)"
  unfolding lis3mdl_int_on_y_ax_set_def lis3mdl_int_on_y_ax_get_def
  by (rule reads_back_one) (simp add: lis_structs)

lemma lis_int_on_x_ax_reads_back: "reads_back regs ok (lis3mdl_int_on_x_ax_set ctx v) (lis3mdl_int_on_x_ax_get ctx) (take_bit 1 v)"
  unfolding lis3mdl_int_on_x_ax_set_def lis3mdl_int_on_x_ax_get_def
  by (rule reads_back_one) (simp add: lis_structs)

lemma lis_spi_mode_reads_back: "reads_back regs ok (lis3mdl_spi_mode_set ctx v) (lis3mdl_spi_mode_get ctx) v"
  unfolding lis3mdl_spi_mode_set_def lis3mdl_spi_mode_get_def
  by (rule reads_back_one) (cases v; simp add: lis_structs lis_constants switch_code_def)

end

lemmas lis_reads_back =
  register_device.lis_data_rate_reads_back register_device.lis_temperature_meas_reads_back
  register_device.lis_full_scale_reads_back register_device.lis_operating_mode_reads_back
  register_device.lis_fast_low_power_reads_back register_device.lis_block_data_update_reads_back
  register_device.lis_high_part_cycle_reads_back register_device.lis_self_test_reads_back
  register_device.lis_reset_reads_back register_device.lis_boot_reads_back
  register_device.lis_data_format_reads_back register_device.lis_int_generation_reads_back
  register_device.lis_int_notification_mode_reads_back register_device.lis_int_polarity_reads_back
  register_device.lis_int_on_z_ax_reads_back register_device.lis_int_on_y_ax_reads_back
  register_device.lis_int_on_x_ax_reads_back register_device.lis_spi_mode_reads_back

text \<open>
  On a device with registers, every setting of the vendor's file succeeds and is read back, cut to the width of its
  field where the parameter is a whole byte.
\<close>
theorem lis_vendor_set_get:
  assumes "register_device ctx regs ok"
  shows "(\<forall>v. reads_back regs ok (lis3mdl_data_rate_set ctx v) (lis3mdl_data_rate_get ctx) v) \<and>
    (\<forall>v. reads_back regs ok (lis3mdl_temperature_meas_set ctx v) (lis3mdl_temperature_meas_get ctx) (take_bit 1 v)) \<and>
    (\<forall>v. reads_back regs ok (lis3mdl_full_scale_set ctx v) (lis3mdl_full_scale_get ctx) v) \<and>
    (\<forall>v. reads_back regs ok (lis3mdl_operating_mode_set ctx v) (lis3mdl_operating_mode_get ctx) v) \<and>
    (\<forall>v. reads_back regs ok (lis3mdl_fast_low_power_set ctx v) (lis3mdl_fast_low_power_get ctx) (take_bit 1 v)) \<and>
    (\<forall>v. reads_back regs ok (lis3mdl_block_data_update_set ctx v) (lis3mdl_block_data_update_get ctx) (take_bit 1 v)) \<and>
    (\<forall>v. reads_back regs ok (lis3mdl_high_part_cycle_set ctx v) (lis3mdl_high_part_cycle_get ctx) (take_bit 1 v)) \<and>
    (\<forall>v. reads_back regs ok (lis3mdl_self_test_set ctx v) (lis3mdl_self_test_get ctx) (take_bit 1 v)) \<and>
    (\<forall>v. reads_back regs ok (lis3mdl_reset_set ctx v) (lis3mdl_reset_get ctx) (take_bit 1 v)) \<and>
    (\<forall>v. reads_back regs ok (lis3mdl_boot_set ctx v) (lis3mdl_boot_get ctx) (take_bit 1 v)) \<and>
    (\<forall>v. reads_back regs ok (lis3mdl_data_format_set ctx v) (lis3mdl_data_format_get ctx) v) \<and>
    (\<forall>v. reads_back regs ok (lis3mdl_int_generation_set ctx v) (lis3mdl_int_generation_get ctx) (take_bit 1 v)) \<and>
    (\<forall>v. reads_back regs ok (lis3mdl_int_notification_mode_set ctx v) (lis3mdl_int_notification_mode_get ctx) v) \<and>
    (\<forall>v. reads_back regs ok (lis3mdl_int_polarity_set ctx v) (lis3mdl_int_polarity_get ctx) v) \<and>
    (\<forall>v. reads_back regs ok (lis3mdl_int_on_z_ax_set ctx v) (lis3mdl_int_on_z_ax_get ctx) (take_bit 1 v)) \<and>
    (\<forall>v. reads_back regs ok (lis3mdl_int_on_y_ax_set ctx v) (lis3mdl_int_on_y_ax_get ctx) (take_bit 1 v)) \<and>
    (\<forall>v. reads_back regs ok (lis3mdl_int_on_x_ax_set ctx v) (lis3mdl_int_on_x_ax_get ctx) (take_bit 1 v)) \<and>
    (\<forall>v. reads_back regs ok (lis3mdl_spi_mode_set ctx v) (lis3mdl_spi_mode_get ctx) v)"
  by (intro conjI allI; rule lis_reads_back [OF assms])

theorem lis_vendor_set_get_witness:
  "reads_back (\<lambda>g. g) (\<lambda>_. True) (lis3mdl_data_rate_set ram_ctx HP_80Hz) (lis3mdl_data_rate_get ram_ctx) HP_80Hz"
  using lis_vendor_set_get [OF ram_ctx_device] by blast

text \<open>
  The threshold is sent low byte first, and what is read back is the two registers; the field is joined as a signed
  number from its six registers.
\<close>
lemma lis_threshold_bytes:
  "lis3mdl_int_threshold_set ctx val = ctx_write ctx LIS3MDL_INT_THS_L [lo8 val, hi8 val]"
proof -
  have "hi8 val = ucast (val div 256)"
    by (simp add: hi8_def drop_bit_eq_div)
  then show ?thesis
    by (simp add: lis3mdl_int_threshold_set_def Let_def ucast_diff_256 lo8_ucast)
qed

context register_device
begin

lemma lis_threshold_get:
  "acts regs ok (lis3mdl_int_threshold_get ctx) (\<lambda>g. (0, be16 (g 0x33) (g 0x32))) (\<lambda>g. g)"
proof (rule actsI)
  fix s assume "ok s"
  then obtain s' where "read_reg ctx 0x32 (map (\<lambda>i. stale ctx (0x32 + of_nat i)) [0..<2]) s = (0, [regs s 0x32, regs s 0x33], s')"
    "ok s'" "regs s' = regs s"
    using device_reads [of s "0x32" "map (\<lambda>i. stale ctx (0x32 + of_nat i)) [0..<2]"] by (auto simp: upt_rec)
  then show "\<exists>s'. run_state (lis3mdl_int_threshold_get ctx) s = ((0, be16 (regs s 0x33) (regs s 0x32)), s') \<and> ok s' \<and> regs s' = regs s"
    by (simp add: lis3mdl_int_threshold_get_def LIS3MDL_INT_THS_L_def join16_be16)
qed

lemma lis_magnetic_raw:
  "acts regs ok (lis3mdl_magnetic_raw_get ctx)
     (\<lambda>g. (0, [be16 (g 0x29) (g 0x28), be16 (g 0x2B) (g 0x2A), be16 (g 0x2D) (g 0x2C)])) (\<lambda>g. g)"
proof (rule actsI)
  fix s assume "ok s"
  then obtain s' where "read_reg ctx 0x28 (map (\<lambda>i. stale ctx (0x28 + of_nat i)) [0..<6]) s =
      (0, [regs s 0x28, regs s 0x29, regs s 0x2A, regs s 0x2B, regs s 0x2C, regs s 0x2D], s')" "ok s'" "regs s' = regs s"
    using device_reads [of s "0x28" "map (\<lambda>i. stale ctx (0x28 + of_nat i)) [0..<6]"] by (auto simp: upt_rec)
  then show "\<exists>s'. run_state (lis3mdl_magnetic_raw_get ctx) s =
      ((0, [be16 (regs s 0x29) (regs s 0x28), be16 (regs s 0x2B) (regs s 0x2A), be16 (regs s 0x2D) (regs s 0x2C)]), s') \<and>
      ok s' \<and> regs s' = regs s"
    by (simp add: lis3mdl_magnetic_raw_get_def LIS3MDL_OUT_X_L_def join16_be16)
qed

end

end
