(* ===== verification/FlashResume.thy ===== *)
theory FlashResume
  imports FlashModel SyncModel
begin

text \<open>
  The flash memory driver of src/device/peripherals/W25Q/W25Q.h activation by activation: each function has its
  static labels (src/sched/macros), a call that waits makes it return, and it continues at the label of that
  call when it is called again.  The first activation is the function of \<open>FlashModel\<close>; the theorems on the
  activations that follow show what becomes of a blocked write, and of data that is read into a local variable.
\<close>

section \<open>Functions with labels\<close>

datatype wq_fn =
    FnSpiW | FnSpiWW | FnSpiWR | FnReadId | FnReadStatus | FnWriteStatus | FnWriteEnable | FnBlockIfBusy
  | FnMemRead | FnMemProgram | FnErase | FnPoll | FnWriteBlock | FnReadBlock | FnInit

text \<open>The places of a function are numbered: 0 is the start, then come its calls in their order.\<close>

record wq_res =
  wr_dev :: w25q
  wr_labels :: "wq_fn \<Rightarrow> nat labels"

definition wr_enter :: "wq_fn \<Rightarrow> int \<Rightarrow> (wq_res \<times> 'x, nat) state" where
  "wr_enter fn tid = State (\<lambda>(r, x).
     case mac_resume 0 tid (wr_labels r fn) of (p, l) \<Rightarrow> (p, r\<lparr>wr_labels := (wr_labels r)(fn := l)\<rparr>, x))"

definition wr_label :: "wq_fn \<Rightarrow> int \<Rightarrow> nat \<Rightarrow> (wq_res \<times> 'x, unit) state" where
  "wr_label fn tid p = mod_dev (\<lambda>r. r\<lparr>wr_labels := (wr_labels r)(fn := set_label tid p (wr_labels r fn))\<rparr>)"

text \<open>\<open>RESET\<close> and a return.\<close>

definition wr_return :: "wq_fn \<Rightarrow> int \<Rightarrow> ret_type \<Rightarrow> (wq_res, 'x) drv" where
  "wr_return fn tid ret = do {wr_label fn tid 0; State_Monad.return ret}"

definition wr_get :: "(wq_res \<times> 'x, w25q) state" where
  "wr_get = do {r \<leftarrow> get_dev; State_Monad.return (wr_dev r)}"

definition wr_mod :: "(w25q \<Rightarrow> w25q) \<Rightarrow> (wq_res \<times> 'x, unit) state" where
  "wr_mod f = mod_dev (\<lambda>r. r\<lparr>wr_dev := f (wr_dev r)\<rparr>)"

text \<open>\<open>CHECK_CALL\<close> at the place \<open>p\<close>.\<close>

definition wr_check :: "wq_fn \<Rightarrow> int \<Rightarrow> nat \<Rightarrow> (wq_res, 'x) drv \<Rightarrow> (wq_res, 'x) drv \<Rightarrow> (wq_res, 'x) drv" where
  "wr_check fn tid p m k = do {
     wr_label fn tid p;
     ret \<leftarrow> m;
     if call_waits ret then State_Monad.return ret
     else if ret \<noteq> RET_SUCCESS then wr_return fn tid RET_ERROR
     else k}"

text \<open>Calls from the place \<open>p\<close> on, with nothing between them.\<close>

fun wr_calls :: "wq_fn \<Rightarrow> int \<Rightarrow> nat \<Rightarrow> (wq_res, 'x) drv list \<Rightarrow> (wq_res, 'x) drv" where
  "wr_calls fn tid p [] = wr_return fn tid RET_SUCCESS"
| "wr_calls fn tid p (m # ms) = wr_check fn tid p m (wr_calls fn tid (p + 1) ms)"

definition wr_resume_calls :: "wq_fn \<Rightarrow> int \<Rightarrow> nat \<Rightarrow> (wq_res, 'x) drv list \<Rightarrow> (wq_res, 'x) drv" where
  "wr_resume_calls fn tid p ms = wr_calls fn tid (max 1 p) (drop (p - 1) ms)"

definition wr_function :: "wq_fn \<Rightarrow> int \<Rightarrow> (wq_res, 'x) drv list \<Rightarrow> (wq_res, 'x) drv" where
  "wr_function fn tid ms = do {p \<leftarrow> wr_enter fn tid; wr_resume_calls fn tid p ms}"

section \<open>The functions of the driver\<close>

definition wr_spi_w :: "'x bus \<Rightarrow> int \<Rightarrow> u8 list \<Rightarrow> (wq_res, 'x) drv" where
  "wr_spi_w bus tid buf =
     wr_function FnSpiW tid [bus_do bus (PinSet 0 0), bus_do bus (SpiWrite buf), bus_do bus (PinSet 0 1)]"

definition wr_spi_ww :: "'x bus \<Rightarrow> int \<Rightarrow> u8 list \<Rightarrow> u8 list \<Rightarrow> (wq_res, 'x) drv" where
  "wr_spi_ww bus tid buf1 buf2 =
     wr_function FnSpiWW tid [bus_do bus (PinSet 0 0), bus_do bus (SpiWrite buf1), bus_do bus (SpiWrite buf2),
       bus_do bus (PinSet 0 1)]"

text \<open>
  A read that is finished in a later activation than it was started in has gone to the buffer of the earlier one.
  That is lost where the buffer is a local variable (\<open>own\<close>) of a function that has been left in between.
\<close>

definition wr_read_into :: "'x bus \<Rightarrow> bool \<Rightarrow> nat \<Rightarrow> (wq_res, 'x) drv" where
  "wr_read_into bus lost n = do {
     (ret, data) \<leftarrow> bus_call bus (SpiRead n);
     wr_mod (\<lambda>d. if lost then d else d\<lparr>wq_buff := data\<rparr>);
     State_Monad.return ret}"

definition wr_spi_wr :: "'x bus \<Rightarrow> int \<Rightarrow> u8 list \<Rightarrow> bool \<Rightarrow> nat \<Rightarrow> (wq_res, 'x) drv" where
  "wr_spi_wr bus tid buf1 own len2 = do {
     p \<leftarrow> wr_enter FnSpiWR tid;
     wr_resume_calls FnSpiWR tid p
       [bus_do bus (PinSet 0 0), bus_do bus (SpiWrite buf1), wr_read_into bus (own \<and> p = 3) len2, bus_do bus (PinSet 0 1)]}"

text \<open>The local buffer of a resumed activation holds its initial value, or anything (\<open>junk\<close>) where it has none.\<close>

definition wr_local :: "nat \<Rightarrow> u8 list \<Rightarrow> (wq_res \<times> 'x, unit) state" where
  "wr_local p b = wr_mod (\<lambda>d. if p = 0 then d else d\<lparr>wq_buff := b\<rparr>)"

definition wr_read_id :: "'x bus \<Rightarrow> int \<Rightarrow> (wq_res, 'x) drv" where
  "wr_read_id bus tid = do {
     p \<leftarrow> wr_enter FnReadId tid;
     wr_local p [0, 0, 0];
     wr_resume_calls FnReadId tid p [wr_spi_wr bus tid [0x9F] True 3]}"

definition wr_read_status :: "'x bus \<Rightarrow> int \<Rightarrow> read_status_t \<Rightarrow> (wq_res, 'x) drv" where
  "wr_read_status bus tid cmd = wr_function FnReadStatus tid [wr_spi_wr bus tid [read_status_code cmd] True 1]"

definition wr_write_enable_set :: "'x bus \<Rightarrow> int \<Rightarrow> write_set_t \<Rightarrow> (wq_res, 'x) drv" where
  "wr_write_enable_set bus tid mode = wr_function FnWriteEnable tid [wr_spi_w bus tid [write_set_code mode]]"

definition wr_write_status :: "'x bus \<Rightarrow> int \<Rightarrow> write_status_t \<Rightarrow> u8 \<Rightarrow> (wq_res, 'x) drv" where
  "wr_write_status bus tid cmd src =
     wr_function FnWriteStatus tid [wr_write_enable_set bus tid WRITE_ENABLE, wr_spi_w bus tid [write_status_code cmd, src]]"

text \<open>Place 2 is behind \<open>BLOCK\<close>.\<close>

definition wr_block_if_busy :: "'x bus \<Rightarrow> int \<Rightarrow> u8 \<Rightarrow> (wq_res, 'x) drv" where
  "wr_block_if_busy bus tid junk = do {
     p \<leftarrow> wr_enter FnBlockIfBusy tid;
     wr_local p [junk];
     if p = 2 then wr_return FnBlockIfBusy tid RET_SUCCESS
     else do {
       d \<leftarrow> wr_get;
       if p = 0 \<and> wq_blocked d \<noteq> TID_UNBLOCKED then wr_return FnBlockIfBusy tid RET_ERROR
       else wr_check FnBlockIfBusy tid 1 (wr_read_status bus tid READ_ONE) (do {
         d \<leftarrow> wr_get;
         if wq_buff d ! 0 AND S_BUSY \<noteq> 0 then do {
           wr_mod (\<lambda>d. d\<lparr>wq_blocked := tid\<rparr>);
           wr_label FnBlockIfBusy tid 2;
           _ \<leftarrow> bus_do bus (BlockTask tid);
           State_Monad.return RET_BLOCKED}
         else wr_return FnBlockIfBusy tid RET_SUCCESS})}}"

definition wr_mem_read :: "'x bus \<Rightarrow> int \<Rightarrow> u8 \<Rightarrow> u32 \<Rightarrow> nat \<Rightarrow> (wq_res, 'x) drv" where
  "wr_mem_read bus tid junk addr len =
     wr_function FnMemRead tid [wr_block_if_busy bus tid junk, wr_spi_wr bus tid (READ_DATA # addr_to_24 addr) False len]"

definition wr_mem_program :: "'x bus \<Rightarrow> int \<Rightarrow> u8 \<Rightarrow> u8 \<Rightarrow> u32 \<Rightarrow> u8 list \<Rightarrow> (wq_res, 'x) drv" where
  "wr_mem_program bus tid junk cmd addr src =
     wr_function FnMemProgram tid [wr_block_if_busy bus tid junk, wr_write_enable_set bus tid WRITE_ENABLE,
       wr_spi_ww bus tid (cmd # addr_to_24 addr) src]"

text \<open>
  \<open>cmd_len\<close> is 4 again in an activation that continues at the last call, but is set to 1 for the erasure of the
  chip only in the one that comes from the call before it.
\<close>

definition wr_erase :: "'x bus \<Rightarrow> int \<Rightarrow> u8 \<Rightarrow> erase_command_t \<Rightarrow> u32 \<Rightarrow> (wq_res, 'x) drv" where
  "wr_erase bus tid junk cmd addr = do {
     p \<leftarrow> wr_enter FnErase tid;
     wr_resume_calls FnErase tid p [wr_block_if_busy bus tid junk, wr_write_enable_set bus tid WRITE_ENABLE,
       wr_spi_w bus tid (take (if cmd = CHIP_ERASE \<and> p \<noteq> 3 then 1 else 4) (erase_code cmd # addr_to_24 addr))]}"

definition wr_poll :: "'x bus \<Rightarrow> int \<Rightarrow> u8 \<Rightarrow> (wq_res, 'x) drv" where
  "wr_poll bus tid junk = do {
     p \<leftarrow> wr_enter FnPoll tid;
     wr_local p [junk];
     d \<leftarrow> wr_get;
     if p \<noteq> 0 \<or> wq_blocked d \<noteq> TID_UNBLOCKED then
       wr_check FnPoll tid 1 (wr_read_status bus tid READ_ONE) (do {
         d \<leftarrow> wr_get;
         if wq_buff d ! 0 AND S_BUSY = 0 then do {
           wr_mod (\<lambda>d. d\<lparr>wq_blocked := TID_UNBLOCKED\<rparr>);
           d \<leftarrow> wr_get;
           _ \<leftarrow> bus_do bus (WakeTask (wq_blocked d));
           wr_return FnPoll tid RET_SUCCESS}
         else wr_return FnPoll tid RET_SUCCESS})
     else wr_return FnPoll tid RET_SUCCESS}"

definition wr_write :: "'x bus \<Rightarrow> int \<Rightarrow> u8 \<Rightarrow> size_t \<Rightarrow> u8 list \<Rightarrow> (wq_res, 'x) drv" where
  "wr_write bus tid junk block buff = do {
     p \<leftarrow> wr_enter FnWriteBlock tid;
     d \<leftarrow> wr_get;
     if p = 0 \<and> block > wq_page_count d then wr_return FnWriteBlock tid RET_ERROR
     else wr_check FnWriteBlock tid 1
       (wr_mem_program bus tid junk PAGE_PROGRAM (push_bit 8 block) (take (unat (wq_page_size d)) buff))
       (wr_return FnWriteBlock tid RET_SUCCESS)}"

definition wr_read :: "'x bus \<Rightarrow> int \<Rightarrow> u8 \<Rightarrow> size_t \<Rightarrow> (wq_res, 'x) drv" where
  "wr_read bus tid junk block = do {
     p \<leftarrow> wr_enter FnReadBlock tid;
     d \<leftarrow> wr_get;
     if p = 0 \<and> block > wq_page_count d then wr_return FnReadBlock tid RET_ERROR
     else wr_check FnReadBlock tid 1 (wr_mem_read bus tid junk (push_bit 8 block) (unat (wq_page_size d)))
       (wr_return FnReadBlock tid RET_SUCCESS)}"

definition wr_init :: "'x bus \<Rightarrow> int \<Rightarrow> (wq_res, 'x) drv" where
  "wr_init bus tid = do {
     p \<leftarrow> wr_enter FnInit tid;
     wr_check FnInit tid 1 (wr_read_id bus tid) (do {
       d \<leftarrow> wr_get;
       if id_of (wq_buff d) \<noteq> W25Q128JV_JEDEC_ID then wr_return FnInit tid RET_ERROR
       else do {
         wr_mod (\<lambda>d. d\<lparr>wq_dev_id := id_of (wq_buff d), wq_page_size := 0xFF, wq_page_count := 0xFFFF\<rparr>);
         wr_return FnInit tid RET_SUCCESS}})}"

section \<open>The first activation\<close>

text \<open>The functions that a function of a rank calls have lower ranks.\<close>

fun wr_rank :: "wq_fn \<Rightarrow> nat" where
  "wr_rank FnSpiW = 0" | "wr_rank FnSpiWW = 0" | "wr_rank FnSpiWR = 0"
| "wr_rank FnReadId = 1" | "wr_rank FnReadStatus = 1" | "wr_rank FnWriteEnable = 1"
| "wr_rank FnWriteStatus = 2" | "wr_rank FnBlockIfBusy = 2" | "wr_rank FnPoll = 2"
| "wr_rank FnMemRead = 3" | "wr_rank FnMemProgram = 3" | "wr_rank FnErase = 3"
| "wr_rank FnWriteBlock = 4" | "wr_rank FnReadBlock = 4" | "wr_rank FnInit = 4"

definition at_start :: "int \<Rightarrow> wq_res \<Rightarrow> wq_fn \<Rightarrow> bool" where
  "at_start tid r fn \<longleftrightarrow> fst (mac_resume 0 tid (wr_labels r fn)) = 0"

text \<open>No function of a rank below \<open>n\<close> is to be continued for the task.\<close>

definition idle_below :: "nat \<Rightarrow> int \<Rightarrow> wq_res \<Rightarrow> bool" where
  "idle_below n tid r \<longleftrightarrow> (\<forall>fn. wr_rank fn < n \<longrightarrow> at_start tid r fn)"

abbreviation wr_idle :: "int \<Rightarrow> wq_res \<Rightarrow> bool" where
  "wr_idle \<equiv> idle_below 5"

text \<open>
  A function does what the function of \<open>FlashModel\<close> does, touches the labels of lower functions only and, unless
  it waits, leaves them at their starts.  \<open>body_sim\<close> says this of the rest of a function from one of its places.
\<close>

definition fn_sim :: "nat \<Rightarrow> int \<Rightarrow> (wq_res, 'x) drv \<Rightarrow> (w25q, 'x) drv \<Rightarrow> bool" where
  "fn_sim n tid m m' \<longleftrightarrow> (\<forall>r x ret r' x'. idle_below n tid r \<longrightarrow> run_state m (r, x) = (ret, r', x') \<longrightarrow>
     run_state m' (wr_dev r, x) = (ret, wr_dev r', x') \<and>
     (\<forall>fn. n \<le> wr_rank fn \<longrightarrow> wr_labels r' fn = wr_labels r fn) \<and> (\<not> call_waits ret \<longrightarrow> idle_below n tid r'))"

definition body_sim :: "wq_fn \<Rightarrow> int \<Rightarrow> (wq_res, 'x) drv \<Rightarrow> (w25q, 'x) drv \<Rightarrow> bool" where
  "body_sim f tid m m' \<longleftrightarrow> (\<forall>r x ret r' x'. idle_below (wr_rank f) tid r \<longrightarrow> lb_init (wr_labels r f) \<longrightarrow>
     run_state m (r, x) = (ret, r', x') \<longrightarrow>
     run_state m' (wr_dev r, x) = (ret, wr_dev r', x') \<and>
     (\<forall>fn. wr_rank f \<le> wr_rank fn \<longrightarrow> fn \<noteq> f \<longrightarrow> wr_labels r' fn = wr_labels r fn) \<and>
     (\<not> call_waits ret \<longrightarrow> idle_below (wr_rank f) tid r' \<and> at_start tid r' f))"

named_theorems flash_sim

lemma fn_simD:
  assumes "fn_sim n tid m m'" "idle_below n tid r" "run_state m (r, x) = (ret, r', x')"
  shows "run_state m' (wr_dev r, x) = (ret, wr_dev r', x')" and "n \<le> wr_rank fn \<Longrightarrow> wr_labels r' fn = wr_labels r fn"
    and "\<not> call_waits ret \<Longrightarrow> idle_below n tid r'"
  using assms unfolding fn_sim_def by blast+

lemma idle_below_mono: "idle_below n tid r \<Longrightarrow> m \<le> n \<Longrightarrow> idle_below m tid r"
  by (auto simp: idle_below_def)

lemma fn_sim_mono:
  assumes "fn_sim m tid a b" "m \<le> n"
  shows "fn_sim n tid a b"
  unfolding fn_sim_def
proof (intro allI impI)
  fix r x ret r' x' assume i: "idle_below n tid r" and run: "run_state a (r, x) = (ret, r', x')"
  note f = fn_simD [OF assms(1) idle_below_mono [OF i assms(2)] run]
  have "idle_below n tid r'" if "\<not> call_waits ret"
    using f(3) [OF that] f(2) i unfolding idle_below_def at_start_def by (metis not_le)
  then show "run_state b (wr_dev r, x) = (ret, wr_dev r', x') \<and>
      (\<forall>fn. n \<le> wr_rank fn \<longrightarrow> wr_labels r' fn = wr_labels r fn) \<and> (\<not> call_waits ret \<longrightarrow> idle_below n tid r')"
    using f(1,2) assms(2) by auto
qed

lemma run_wr [simp]:
  "run_state (wr_label f tid p) (r, x) = ((), r\<lparr>wr_labels := (wr_labels r)(f := set_label tid p (wr_labels r f))\<rparr>, x)"
  "run_state wr_get (r, x) = (wr_dev r, r, x)" "run_state (wr_mod g) (r, x) = ((), r\<lparr>wr_dev := g (wr_dev r)\<rparr>, x)"
  "run_state (wr_return f tid ret) (r, x) = (ret, r\<lparr>wr_labels := (wr_labels r)(f := set_label tid 0 (wr_labels r f))\<rparr>, x)"
  by (simp_all add: wr_label_def wr_get_def wr_mod_def wr_return_def)

lemma idle_simps [simp]:
  "idle_below n tid (r\<lparr>wr_dev := d\<rparr>) = idle_below n tid r"
  "at_start tid (r\<lparr>wr_dev := d\<rparr>) f = at_start tid r f"
  by (simp_all add: idle_below_def at_start_def)

lemma idle_label [simp]:
  assumes "n \<le> wr_rank f"
  shows "idle_below n tid (r\<lparr>wr_labels := (wr_labels r)(f := l)\<rparr>) = idle_below n tid r"
proof -
  have "fn \<noteq> f" if "wr_rank fn < n" for fn
    using that assms by auto
  then show ?thesis
    by (simp add: idle_below_def at_start_def cong: imp_cong)
qed

lemma body_simI:
  assumes "\<And>r x ret r' x'. idle_below (wr_rank f) tid r \<Longrightarrow> lb_init (wr_labels r f) \<Longrightarrow> run_state m (r, x) = (ret, r', x') \<Longrightarrow>
     run_state m' (wr_dev r, x) = (ret, wr_dev r', x') \<and>
     (\<forall>fn. wr_rank f \<le> wr_rank fn \<longrightarrow> fn \<noteq> f \<longrightarrow> wr_labels r' fn = wr_labels r fn) \<and>
     (\<not> call_waits ret \<longrightarrow> idle_below (wr_rank f) tid r' \<and> at_start tid r' f)"
  shows "body_sim f tid m m'"
  using assms unfolding body_sim_def by blast

lemma body_simD:
  assumes "body_sim f tid m m'" "idle_below (wr_rank f) tid r" "lb_init (wr_labels r f)" "run_state m (r, x) = (ret, r', x')"
  shows "run_state m' (wr_dev r, x) = (ret, wr_dev r', x') \<and>
     (\<forall>fn. wr_rank f \<le> wr_rank fn \<longrightarrow> fn \<noteq> f \<longrightarrow> wr_labels r' fn = wr_labels r fn) \<and>
     (\<not> call_waits ret \<longrightarrow> idle_below (wr_rank f) tid r' \<and> at_start tid r' f)"
  using assms unfolding body_sim_def by blast

lemma fn_sim_bus [flash_sim]: "fn_sim n tid (bus_do bus ev) (bus_do bus ev)"
  by (auto simp: fn_sim_def split: prod.splits)

lemma fn_sim_read [flash_sim]: "\<not> lost \<Longrightarrow> fn_sim n tid (wr_read_into bus lost k) (spi_read_into bus k)"
  by (auto simp: fn_sim_def wr_read_into_def spi_read_into_def split: prod.splits)

lemma body_sim_return [flash_sim]: "body_sim f tid (wr_return f tid ret) (State_Monad.return ret)"
  by (rule body_simI) (auto simp: at_start_def resume_after_set)

lemma body_sim_get [flash_sim]:
  assumes "\<And>d. body_sim f tid (k d) (k' d)"
  shows "body_sim f tid (State_Monad.bind wr_get k) (State_Monad.bind get_dev k')"
proof (rule body_simI)
  fix r x ret r' x'
  assume i: "idle_below (wr_rank f) tid r" "lb_init (wr_labels r f)"
    and run: "run_state (State_Monad.bind wr_get k) (r, x) = (ret, r', x')"
  from run have run: "run_state (k (wr_dev r)) (r, x) = (ret, r', x')" by simp
  show "run_state (State_Monad.bind get_dev k') (wr_dev r, x) = (ret, wr_dev r', x') \<and>
     (\<forall>fn. wr_rank f \<le> wr_rank fn \<longrightarrow> fn \<noteq> f \<longrightarrow> wr_labels r' fn = wr_labels r fn) \<and>
     (\<not> call_waits ret \<longrightarrow> idle_below (wr_rank f) tid r' \<and> at_start tid r' f)"
    using body_simD [OF assms i run] by simp
qed

lemma body_sim_mod [flash_sim]:
  assumes "body_sim f tid k k'"
  shows "body_sim f tid (State_Monad.bind (wr_mod g) (\<lambda>_. k)) (State_Monad.bind (mod_dev g) (\<lambda>_. k'))"
proof (rule body_simI)
  fix r x ret r' x'
  assume i: "idle_below (wr_rank f) tid r" "lb_init (wr_labels r f)"
    and run: "run_state (State_Monad.bind (wr_mod g) (\<lambda>_. k)) (r, x) = (ret, r', x')"
  from run have "run_state k (r\<lparr>wr_dev := g (wr_dev r)\<rparr>, x) = (ret, r', x')" by simp
  from body_simD [OF assms _ _ this] i
  show "run_state (State_Monad.bind (mod_dev g) (\<lambda>_. k')) (wr_dev r, x) = (ret, wr_dev r', x') \<and>
     (\<forall>fn. wr_rank f \<le> wr_rank fn \<longrightarrow> fn \<noteq> f \<longrightarrow> wr_labels r' fn = wr_labels r fn) \<and>
     (\<not> call_waits ret \<longrightarrow> idle_below (wr_rank f) tid r' \<and> at_start tid r' f)"
    by simp
qed

lemma body_sim_if [flash_sim]:
  "(b \<Longrightarrow> body_sim f tid m m') \<Longrightarrow> (\<not> b \<Longrightarrow> body_sim f tid k k') \<Longrightarrow>
   body_sim f tid (if b then m else k) (if b then m' else k')"
  by simp

lemma body_sim_event [flash_sim]:
  assumes "body_sim f tid k k'"
  shows "body_sim f tid (State_Monad.bind (bus_do bus ev) (\<lambda>_. k)) (State_Monad.bind (bus_do bus ev) (\<lambda>_. k'))"
proof (rule body_simI)
  fix r x ret r' x'
  assume i: "idle_below (wr_rank f) tid r" "lb_init (wr_labels r f)"
    and run: "run_state (State_Monad.bind (bus_do bus ev) (\<lambda>_. k)) (r, x) = (ret, r', x')"
  obtain c data x1 where bus: "bus ev x = (c, data, x1)" by (cases "bus ev x")
  from run have "run_state k (r, x1) = (ret, r', x')" by (simp add: bus)
  from body_simD [OF assms i this]
  show "run_state (State_Monad.bind (bus_do bus ev) (\<lambda>_. k')) (wr_dev r, x) = (ret, wr_dev r', x') \<and>
     (\<forall>fn. wr_rank f \<le> wr_rank fn \<longrightarrow> fn \<noteq> f \<longrightarrow> wr_labels r' fn = wr_labels r fn) \<and>
     (\<not> call_waits ret \<longrightarrow> idle_below (wr_rank f) tid r' \<and> at_start tid r' f)"
    by (simp add: bus)
qed

text \<open>A return of a code that waits, from behind a label.\<close>

lemma body_sim_wait [flash_sim]:
  "call_waits ret \<Longrightarrow> body_sim f tid (do {wr_label f tid p; _ \<leftarrow> bus_do bus ev; State_Monad.return ret})
     (do {_ \<leftarrow> bus_do bus ev; State_Monad.return ret})"
  by (rule body_simI) (auto split: prod.splits)

lemma body_sim_check [flash_sim]:
  assumes m: "fn_sim n tid m m'" "n \<le> wr_rank f" and k: "body_sim f tid k k'"
  shows "body_sim f tid (wr_check f tid p m k) (check_call m' k')"
proof (rule body_simI)
  fix r x ret r' x'
  assume i: "idle_below (wr_rank f) tid r" "lb_init (wr_labels r f)"
    and run: "run_state (wr_check f tid p m k) (r, x) = (ret, r', x')"
  let ?r = "r\<lparr>wr_labels := (wr_labels r)(f := set_label tid p (wr_labels r f))\<rparr>"
  obtain c r1 x1 where m1: "run_state m (?r, x) = (c, r1, x1)" by (metis prod_cases3)
  note s = fn_simD [OF fn_sim_mono [OF m] _ m1]
  have r1: "run_state m' (wr_dev r, x) = (c, wr_dev r1, x1)" "lb_init (wr_labels r1 f)"
      "\<And>fn. wr_rank f \<le> wr_rank fn \<Longrightarrow> fn \<noteq> f \<Longrightarrow> wr_labels r1 fn = wr_labels r fn"
      "\<not> call_waits c \<Longrightarrow> idle_below (wr_rank f) tid r1"
    using s i by auto
  show "run_state (check_call m' k') (wr_dev r, x) = (ret, wr_dev r', x') \<and>
     (\<forall>fn. wr_rank f \<le> wr_rank fn \<longrightarrow> fn \<noteq> f \<longrightarrow> wr_labels r' fn = wr_labels r fn) \<and>
     (\<not> call_waits ret \<longrightarrow> idle_below (wr_rank f) tid r' \<and> at_start tid r' f)"
  proof (cases "c = RET_SUCCESS")
    case True
    then have "run_state k (r1, x1) = (ret, r', x')" using run m1 by (simp add: wr_check_def)
    from body_simD [OF k _ r1(2) this] r1 True show ?thesis by simp
  next
    case False
    then show ?thesis using run m1 r1 by (auto simp: wr_check_def at_start_def resume_after_set split: if_splits)
  qed
qed

text \<open>From its start, a function with a body that follows is simulated as a whole.\<close>

lemma fn_sim_enter [flash_sim]:
  assumes "body_sim f tid (k 0) k'"
  shows "fn_sim (Suc (wr_rank f)) tid (State_Monad.bind (wr_enter f tid) k) k'"
  unfolding fn_sim_def
proof (intro allI impI)
  fix r x ret r' x' assume i: "idle_below (Suc (wr_rank f)) tid r"
    and run: "run_state (State_Monad.bind (wr_enter f tid) k) (r, x) = (ret, r', x')"
  obtain l where l: "mac_resume 0 tid (wr_labels r f) = (0, l)" "lb_init l"
    using i resume_init [of 0 tid "wr_labels r f"] unfolding idle_below_def at_start_def by (metis lessI prod.collapse snd_conv)
  let ?r = "r\<lparr>wr_labels := (wr_labels r)(f := l)\<rparr>"
  have k0: "run_state (k 0) (?r, x) = (ret, r', x')" using run by (simp add: wr_enter_def l)
  have "idle_below (wr_rank f) tid ?r" using idle_below_mono [OF i] by simp
  note b = body_simD [OF assms this _ k0]
  then have b: "run_state k' (wr_dev r, x) = (ret, wr_dev r', x')"
      "\<And>fn. wr_rank f \<le> wr_rank fn \<Longrightarrow> fn \<noteq> f \<Longrightarrow> wr_labels r' fn = wr_labels r fn"
      "\<not> call_waits ret \<Longrightarrow> idle_below (wr_rank f) tid r' \<and> at_start tid r' f"
    using l(2) by auto
  have "idle_below (Suc (wr_rank f)) tid r'" if "\<not> call_waits ret"
    using b(2,3) that i unfolding idle_below_def at_start_def by (metis less_antisym less_or_eq_imp_le)
  then show "run_state k' (wr_dev r, x) = (ret, wr_dev r', x') \<and>
      (\<forall>fn. Suc (wr_rank f) \<le> wr_rank fn \<longrightarrow> wr_labels r' fn = wr_labels r fn) \<and>
      (\<not> call_waits ret \<longrightarrow> idle_below (Suc (wr_rank f)) tid r')"
    using b(1,2) by (metis Suc_leD Suc_n_not_le_n)
qed

lemma wr_calls_sim:
  assumes "list_all2 (fn_sim n tid) ms ms'" "n \<le> wr_rank f"
  shows "body_sim f tid (wr_calls f tid p ms) (foldr check_call ms' (State_Monad.return RET_SUCCESS))"
  using assms(1) by (induction ms ms' arbitrary: p) (simp_all add: body_sim_return body_sim_check assms(2))

lemma wr_resume_calls_sim:
  assumes "list_all2 (fn_sim n tid) ms ms'" "n \<le> wr_rank f"
  shows "body_sim f tid (wr_resume_calls f tid 0 ms) (foldr check_call ms' (State_Monad.return RET_SUCCESS))"
  unfolding wr_resume_calls_def using wr_calls_sim [OF assms] by simp

lemma wr_function_sim:
  assumes "list_all2 (fn_sim n tid) ms ms'" "n \<le> wr_rank f"
  shows "fn_sim (Suc (wr_rank f)) tid (wr_function f tid ms) (foldr check_call ms' (State_Monad.return RET_SUCCESS))"
  unfolding wr_function_def by (rule fn_sim_enter) (rule wr_resume_calls_sim [OF assms])

lemma wr_spi_sim:
  "fn_sim 1 tid (wr_spi_w bus tid buf) (m_spi_w bus buf)"
  "fn_sim 1 tid (wr_spi_ww bus tid buf1 buf2) (m_spi_ww bus buf1 buf2)"
  "fn_sim 1 tid (wr_spi_wr bus tid buf own k) (m_spi_wr bus buf k)"
proof -
  show "fn_sim 1 tid (wr_spi_w bus tid buf) (m_spi_w bus buf)"
    using wr_function_sim [where f = FnSpiW and n = 0 and tid = tid
        and ms' = "[bus_do bus (PinSet 0 0), bus_do bus (SpiWrite buf), bus_do bus (PinSet 0 1)]"]
    by (simp add: wr_spi_w_def m_spi_w_def fn_sim_bus)
  show "fn_sim 1 tid (wr_spi_ww bus tid buf1 buf2) (m_spi_ww bus buf1 buf2)"
    using wr_function_sim [where f = FnSpiWW and n = 0 and tid = tid
        and ms' = "[bus_do bus (PinSet 0 0), bus_do bus (SpiWrite buf1), bus_do bus (SpiWrite buf2), bus_do bus (PinSet 0 1)]"]
    by (simp add: wr_spi_ww_def m_spi_ww_def fn_sim_bus)
  have "fn_sim (Suc (wr_rank FnSpiWR)) tid (wr_spi_wr bus tid buf own k) (m_spi_wr bus buf k)"
    unfolding wr_spi_wr_def
  proof (rule fn_sim_enter)
    show "body_sim FnSpiWR tid (wr_resume_calls FnSpiWR tid 0 [bus_do bus (PinSet 0 0), bus_do bus (SpiWrite buf),
        wr_read_into bus (own \<and> 0 = (3 :: nat)) k, bus_do bus (PinSet 0 1)]) (m_spi_wr bus buf k)"
      using wr_resume_calls_sim [where f = FnSpiWR and n = 0 and tid = tid
          and ms' = "[bus_do bus (PinSet 0 0), bus_do bus (SpiWrite buf), spi_read_into bus k, bus_do bus (PinSet 0 1)]"]
      by (simp add: m_spi_wr_def fn_sim_bus fn_sim_read)
  qed
  then show "fn_sim 1 tid (wr_spi_wr bus tid buf own k) (m_spi_wr bus buf k)"
    by simp
qed

lemma body_sim_local:
  assumes "body_sim f tid k k'"
  shows "body_sim f tid (State_Monad.bind (wr_local 0 b) (\<lambda>_. k)) k'"
proof (rule body_simI)
  fix r x ret r' x'
  assume i: "idle_below (wr_rank f) tid r" "lb_init (wr_labels r f)"
    and run: "run_state (State_Monad.bind (wr_local 0 b) (\<lambda>_. k)) (r, x) = (ret, r', x')"
  from run have "run_state k (r, x) = (ret, r', x')" by (simp add: wr_local_def)
  from body_simD [OF assms i this]
  show "run_state k' (wr_dev r, x) = (ret, wr_dev r', x') \<and>
     (\<forall>fn. wr_rank f \<le> wr_rank fn \<longrightarrow> fn \<noteq> f \<longrightarrow> wr_labels r' fn = wr_labels r fn) \<and>
     (\<not> call_waits ret \<longrightarrow> idle_below (wr_rank f) tid r' \<and> at_start tid r' f)" .
qed

lemma fn_sim_rank: "fn_sim (Suc (wr_rank f)) tid m m' \<Longrightarrow> Suc (wr_rank f) \<le> n \<Longrightarrow> fn_sim n tid m m'"
  by (rule fn_sim_mono)

lemma wr_status_sim:
  "fn_sim 2 tid (wr_read_status bus tid cmd) (wq_read_status bus cmd)"
  "fn_sim 2 tid (wr_write_enable_set bus tid mode) (wq_write_enable_set bus mode)"
  "fn_sim 3 tid (wr_write_status bus tid wcmd src) (wq_write_status bus wcmd src)"
proof -
  have "list_all2 (fn_sim 1 tid) [wr_spi_wr bus tid [read_status_code cmd] True 1] [m_spi_wr bus [read_status_code cmd] 1]"
    by (intro list.rel_intros wr_spi_sim)
  from wr_function_sim [OF this, of FnReadStatus] show "fn_sim 2 tid (wr_read_status bus tid cmd) (wq_read_status bus cmd)"
    by (simp add: wr_read_status_def wq_read_status_def numeral_2_eq_2)
  have "list_all2 (fn_sim 1 tid) [wr_spi_w bus tid [write_set_code mode]] [m_spi_w bus [write_set_code mode]]" for mode
    by (intro list.rel_intros wr_spi_sim)
  from wr_function_sim [OF this, of FnWriteEnable]
  show w: "fn_sim 2 tid (wr_write_enable_set bus tid mode) (wq_write_enable_set bus mode)" for mode
    by (simp add: wr_write_enable_set_def wq_write_enable_set_def numeral_2_eq_2)
  have "list_all2 (fn_sim 2 tid) [wr_write_enable_set bus tid WRITE_ENABLE, wr_spi_w bus tid [write_status_code wcmd, src]]
      [wq_write_enable_set bus WRITE_ENABLE, m_spi_w bus [write_status_code wcmd, src]]"
    by (intro list.rel_intros w fn_sim_mono [OF wr_spi_sim(1)]) simp
  from wr_function_sim [OF this, of FnWriteStatus]
  show "fn_sim 3 tid (wr_write_status bus tid wcmd src) (wq_write_status bus wcmd src)"
    by (simp add: wr_write_status_def wq_write_status_def numeral_3_eq_3)
qed

lemma wr_read_id_sim: "fn_sim 2 tid (wr_read_id bus tid) (wq_read_id bus)"
proof -
  have "list_all2 (fn_sim 1 tid) [wr_spi_wr bus tid [0x9F] True 3] [m_spi_wr bus [0x9F] 3]"
    by (intro list.rel_intros wr_spi_sim)
  from wr_resume_calls_sim [OF this, of FnReadId]
  have "body_sim FnReadId tid (wr_resume_calls FnReadId tid 0 [wr_spi_wr bus tid [0x9F] True 3]) (wq_read_id bus)"
    by (simp add: wq_read_id_def)
  from fn_sim_enter [where k = "\<lambda>p. State_Monad.bind (wr_local p [0, 0, 0]) (\<lambda>_. wr_resume_calls FnReadId tid p [wr_spi_wr bus tid [0x9F] True 3])",
      OF body_sim_local [OF this]]
  show ?thesis by (simp add: wr_read_id_def numeral_2_eq_2)
qed

lemma wr_block_if_busy_sim: "fn_sim 3 tid (wr_block_if_busy bus tid junk) (wq_block_if_busy bus tid)"
proof -
  have "fn_sim (Suc (wr_rank FnBlockIfBusy)) tid (wr_block_if_busy bus tid junk) (wq_block_if_busy bus tid)"
    unfolding wr_block_if_busy_def wq_block_if_busy_def
    by (rule fn_sim_enter, rule body_sim_local)
      (simp add: flash_sim wr_status_sim body_sim_check [OF wr_status_sim(1)] call_waits_def)
  then show ?thesis by (simp add: numeral_3_eq_3)
qed

lemma wr_poll_sim: "fn_sim 3 tid (wr_poll bus tid junk) (wq_poll bus)"
proof -
  have "fn_sim (Suc (wr_rank FnPoll)) tid (wr_poll bus tid junk) (wq_poll bus)"
    unfolding wr_poll_def wq_poll_def
    by (rule fn_sim_enter, rule body_sim_local) (simp add: flash_sim body_sim_check [OF wr_status_sim(1)])
  then show ?thesis by (simp add: numeral_3_eq_3)
qed

lemma wr_mem_sim:
  "fn_sim 4 tid (wr_mem_read bus tid junk addr len) (wq_mem_read bus tid addr len)"
  "fn_sim 4 tid (wr_mem_program bus tid junk cmd addr src) (wq_mem_program bus tid cmd addr src)"
  "fn_sim 4 tid (wr_erase bus tid junk ecmd addr) (wq_erase_cmd bus tid ecmd addr)"
proof -
  note sims = wr_block_if_busy_sim fn_sim_mono [OF wr_status_sim(2)] fn_sim_mono [OF wr_spi_sim(1)]
    fn_sim_mono [OF wr_spi_sim(2)] fn_sim_mono [OF wr_spi_sim(3)]
  have "list_all2 (fn_sim 3 tid) [wr_block_if_busy bus tid junk, wr_spi_wr bus tid (READ_DATA # addr_to_24 addr) False len]
      [wq_block_if_busy bus tid, m_spi_wr bus (READ_DATA # addr_to_24 addr) len]"
    by (intro list.rel_intros sims) simp
  from wr_function_sim [OF this, of FnMemRead]
  show "fn_sim 4 tid (wr_mem_read bus tid junk addr len) (wq_mem_read bus tid addr len)"
    by (simp add: wr_mem_read_def wq_mem_read_def eval_nat_numeral)
  have "list_all2 (fn_sim 3 tid) [wr_block_if_busy bus tid junk, wr_write_enable_set bus tid WRITE_ENABLE,
        wr_spi_ww bus tid (cmd # addr_to_24 addr) src]
      [wq_block_if_busy bus tid, wq_write_enable_set bus WRITE_ENABLE, m_spi_ww bus (cmd # addr_to_24 addr) src]"
    by (intro list.rel_intros sims) simp_all
  from wr_function_sim [OF this, of FnMemProgram]
  show "fn_sim 4 tid (wr_mem_program bus tid junk cmd addr src) (wq_mem_program bus tid cmd addr src)"
    by (simp add: wr_mem_program_def wq_mem_program_def eval_nat_numeral)
  let ?n = "if ecmd = CHIP_ERASE then 1 else 4 :: nat"
  have "list_all2 (fn_sim 3 tid) [wr_block_if_busy bus tid junk, wr_write_enable_set bus tid WRITE_ENABLE,
        wr_spi_w bus tid (take ?n (erase_code ecmd # addr_to_24 addr))]
      [wq_block_if_busy bus tid, wq_write_enable_set bus WRITE_ENABLE, m_spi_w bus (take ?n (erase_code ecmd # addr_to_24 addr))]"
    by (intro list.rel_intros sims) simp_all
  from wr_resume_calls_sim [OF this, of FnErase]
  have "body_sim FnErase tid (wr_resume_calls FnErase tid 0 [wr_block_if_busy bus tid junk, wr_write_enable_set bus tid WRITE_ENABLE,
       wr_spi_w bus tid (take (if ecmd = CHIP_ERASE \<and> 0 \<noteq> (3 :: nat) then 1 else 4) (erase_code ecmd # addr_to_24 addr))])
     (wq_erase_cmd bus tid ecmd addr)"
    by (simp add: wq_erase_cmd_def)
  from fn_sim_enter [where f = FnErase and k = "\<lambda>p. wr_resume_calls FnErase tid p [wr_block_if_busy bus tid junk,
       wr_write_enable_set bus tid WRITE_ENABLE,
       wr_spi_w bus tid (take (if ecmd = CHIP_ERASE \<and> p \<noteq> 3 then 1 else 4) (erase_code ecmd # addr_to_24 addr))]", OF this]
  show "fn_sim 4 tid (wr_erase bus tid junk ecmd addr) (wq_erase_cmd bus tid ecmd addr)"
    by (simp add: wr_erase_def eval_nat_numeral)
qed

lemma wr_write_sim: "fn_sim 5 tid (wr_write bus tid junk block buff) (wq_write bus tid block buff)"
proof -
  have "fn_sim (Suc (wr_rank FnWriteBlock)) tid (wr_write bus tid junk block buff) (wq_write bus tid block buff)"
    unfolding wr_write_def wq_write_def
    by (rule fn_sim_enter) (simp add: flash_sim body_sim_check [OF wr_mem_sim(2)])
  then show ?thesis by simp
qed

lemma wr_read_sim: "fn_sim 5 tid (wr_read bus tid junk block) (wq_read bus tid block)"
proof -
  have "fn_sim (Suc (wr_rank FnReadBlock)) tid (wr_read bus tid junk block) (wq_read bus tid block)"
    unfolding wr_read_def wq_read_def
    by (rule fn_sim_enter) (simp add: flash_sim body_sim_check [OF wr_mem_sim(1)])
  then show ?thesis by simp
qed

lemma wr_init_sim: "fn_sim 5 tid (wr_init bus tid) (wq_init bus)"
proof -
  have "fn_sim (Suc (wr_rank FnInit)) tid (wr_init bus tid) (wq_init bus)"
    unfolding wr_init_def wq_init_def
    by (rule fn_sim_enter) (simp add: flash_sim body_sim_check [OF wr_read_id_sim])
  then show ?thesis by simp
qed

section \<open>A blocked write\<close>

lemma fn_simE:
  assumes "fn_sim n tid m m'" "idle_below n tid r" "run_state m' (wr_dev r, x) = (ret, d', x')"
  obtains r' where "run_state m (r, x) = (ret, r', x')" "wr_dev r' = d'"
    "\<forall>fn. n \<le> wr_rank fn \<longrightarrow> wr_labels r' fn = wr_labels r fn" "\<not> call_waits ret \<longrightarrow> idle_below n tid r'"
proof -
  obtain c r1 x1 where m: "run_state m (r, x) = (c, r1, x1)" by (metis prod_cases3)
  note s = fn_simD [OF assms(1,2) m]
  show thesis
  proof (rule that)
    show "run_state m (r, x) = (ret, r1, x')" using m s(1) assms(3) by simp
    show "wr_dev r1 = d'" using s(1) assms(3) by simp
    show "\<forall>fn. n \<le> wr_rank fn \<longrightarrow> wr_labels r1 fn = wr_labels r fn" using s(2) by blast
    show "\<not> call_waits ret \<longrightarrow> idle_below n tid r1" using s(1,3) assms(3) by simp
  qed
qed

definition wr_place :: "int \<Rightarrow> wq_res \<Rightarrow> wq_fn \<Rightarrow> nat \<Rightarrow> bool" where
  "wr_place tid r fn p \<longleftrightarrow> lb_init (wr_labels r fn) \<and> lb_current (wr_labels r fn) tid = p"

lemma run_enterE:
  assumes "at_start tid r f"
  obtains l where "lb_init l" "run_state (wr_enter f tid) (r, x) = (0, r\<lparr>wr_labels := (wr_labels r)(f := l)\<rparr>, x)"
proof (cases "mac_resume 0 tid (wr_labels r f)")
  case (Pair p l)
  with assms resume_init [of 0 tid "wr_labels r f"] that [of l] show thesis
    by (simp add: at_start_def wr_enter_def)
qed

lemma run_enter_place: "wr_place tid r f p \<Longrightarrow> run_state (wr_enter f tid) (r, x) = (p, r, x)"
  by (simp add: wr_enter_def mac_resume_def wr_place_def)

lemma run_wr_check [simp]:
  "run_state (wr_check f tid p m k) (r, x) =
     (case run_state m (r\<lparr>wr_labels := (wr_labels r)(f := set_label tid p (wr_labels r f))\<rparr>, x) of (ret, s') \<Rightarrow>
        if ret = RET_SUCCESS then run_state k s'
        else if call_waits ret then (ret, s') else run_state (wr_return f tid RET_ERROR) s')"
  by (auto simp: wr_check_def split: prod.split)

text \<open>The task waits behind \<open>BLOCK\<close>, in the middle of a write.\<close>

definition wr_write_blocked :: "int \<Rightarrow> wq_res \<Rightarrow> bool" where
  "wr_write_blocked tid r \<longleftrightarrow> wr_place tid r FnWriteBlock 1 \<and> wr_place tid r FnMemProgram 1 \<and>
     wr_place tid r FnBlockIfBusy 2 \<and> (\<forall>fn. fn \<notin> {FnWriteBlock, FnMemProgram, FnBlockIfBusy} \<longrightarrow> at_start tid r fn)"

lemma block_if_busy_blocks:
  assumes "idle_below 3 tid r" "wq_blocked (wr_dev r) = TID_UNBLOCKED"
    and "f (SpiRead 1) (evs @ [PinSet 0 0, SpiWrite [0x05]]) = [s]" "s AND S_BUSY \<noteq> 0"
  obtains r' where
    "run_state (wr_block_if_busy (ok_bus f) tid junk) (r, evs) = (RET_BLOCKED, r', evs @ status_traffic @ [BlockTask tid])"
    "wr_place tid r' FnBlockIfBusy 2" "\<forall>fn. fn \<noteq> FnBlockIfBusy \<longrightarrow> 2 \<le> wr_rank fn \<longrightarrow> wr_labels r' fn = wr_labels r fn"
    "idle_below 2 tid r'" "wr_dev r' = (wr_dev r)\<lparr>wq_buff := [s], wq_blocked := tid\<rparr>"
proof -
  have st: "at_start tid r FnBlockIfBusy" "idle_below 2 tid r"
    using assms(1) by (auto simp: idle_below_def)
  obtain l where l: "lb_init l"
      "run_state (wr_enter FnBlockIfBusy tid) (r, evs) = (0, r\<lparr>wr_labels := (wr_labels r)(FnBlockIfBusy := l)\<rparr>, evs)"
    using st(1) by (rule run_enterE)
  let ?r = "r\<lparr>wr_labels := (wr_labels r)(FnBlockIfBusy := set_label tid 1 l)\<rparr>"
  have run: "run_state (wq_read_status (ok_bus f) READ_ONE) (wr_dev ?r, evs) =
      (RET_SUCCESS, (wr_dev r)\<lparr>wq_buff := [s]\<rparr>, evs @ status_traffic)"
    using assms(3) by (simp add: read_status_run)
  have idle: "idle_below 2 tid ?r"
    using st(2) by simp
  obtain r1 where r1:
      "run_state (wr_read_status (ok_bus f) tid READ_ONE) (?r, evs) = (RET_SUCCESS, r1, evs @ status_traffic)"
      "wr_dev r1 = (wr_dev r)\<lparr>wq_buff := [s]\<rparr>" "\<forall>fn. 2 \<le> wr_rank fn \<longrightarrow> wr_labels r1 fn = wr_labels ?r fn"
      "\<not> call_waits RET_SUCCESS \<longrightarrow> idle_below 2 tid r1"
    by (rule fn_simE [OF wr_status_sim(1) idle run])
  show thesis
  proof (rule that)
    let ?r' = "r1\<lparr>wr_dev := (wr_dev r1)\<lparr>wq_blocked := tid\<rparr>,
      wr_labels := (wr_labels r1)(FnBlockIfBusy := set_label tid 2 (wr_labels r1 FnBlockIfBusy))\<rparr>"
    show "run_state (wr_block_if_busy (ok_bus f) tid junk) (r, evs) = (RET_BLOCKED, ?r', evs @ status_traffic @ [BlockTask tid])"
      unfolding wr_block_if_busy_def using l r1(1,2) assms(2,4) by (simp add: wr_local_def)
    show "wr_place tid ?r' FnBlockIfBusy 2" using r1(3) l(1) by (simp add: wr_place_def)
    show "\<forall>fn. fn \<noteq> FnBlockIfBusy \<longrightarrow> 2 \<le> wr_rank fn \<longrightarrow> wr_labels ?r' fn = wr_labels r fn" using r1(3) by simp
    show "idle_below 2 tid ?r'" using r1(4) by (simp add: idle_below_def at_start_def)
    show "wr_dev ?r' = (wr_dev r)\<lparr>wq_buff := [s], wq_blocked := tid\<rparr>" using r1(2) by simp
  qed
qed

lemma wr_write_blocks:
  assumes "wr_idle tid r" "wq_blocked (wr_dev r) = TID_UNBLOCKED" "block \<le> wq_page_count (wr_dev r)"
    and "f (SpiRead 1) (evs @ [PinSet 0 0, SpiWrite [0x05]]) = [s]" "s AND S_BUSY \<noteq> 0"
  obtains r' where
    "run_state (wr_write (ok_bus f) tid junk block buff) (r, evs) = (RET_BLOCKED, r', evs @ status_traffic @ [BlockTask tid])"
    "wr_write_blocked tid r'" "wr_dev r' = (wr_dev r)\<lparr>wq_buff := [s], wq_blocked := tid\<rparr>"
proof -
  have st: "at_start tid r fn" for fn
    using assms(1) by (cases fn) (simp_all add: idle_below_def)
  obtain l where l: "lb_init l"
      "run_state (wr_enter FnWriteBlock tid) (r, evs) = (0, r\<lparr>wr_labels := (wr_labels r)(FnWriteBlock := l)\<rparr>, evs)"
    using st by (rule run_enterE)
  let ?r = "r\<lparr>wr_labels := (wr_labels r)(FnWriteBlock := set_label tid 1 l)\<rparr>"
  have "at_start tid ?r FnMemProgram" using st by (simp add: at_start_def)
  then obtain l' where l': "lb_init l'"
      "run_state (wr_enter FnMemProgram tid) (?r, evs) = (0, ?r\<lparr>wr_labels := (wr_labels ?r)(FnMemProgram := l')\<rparr>, evs)"
    by (rule run_enterE)
  let ?q = "?r\<lparr>wr_labels := (wr_labels ?r)(FnMemProgram := set_label tid 1 l')\<rparr>"
  have q: "idle_below 3 tid ?q" "wq_blocked (wr_dev ?q) = TID_UNBLOCKED"
    using st assms(2) by (auto simp: idle_below_def at_start_def)
  obtain r' where r':
      "run_state (wr_block_if_busy (ok_bus f) tid junk) (?q, evs) = (RET_BLOCKED, r', evs @ status_traffic @ [BlockTask tid])"
      "wr_place tid r' FnBlockIfBusy 2" "\<forall>fn. fn \<noteq> FnBlockIfBusy \<longrightarrow> 2 \<le> wr_rank fn \<longrightarrow> wr_labels r' fn = wr_labels ?q fn"
      "idle_below 2 tid r'" "wr_dev r' = (wr_dev ?q)\<lparr>wq_buff := [s], wq_blocked := tid\<rparr>"
    by (rule block_if_busy_blocks [where f = f, OF q assms(4,5)])
  show thesis
  proof (rule that)
    have "run_state (wr_mem_program (ok_bus f) tid junk cmd addr src) (?r, evs) = (RET_BLOCKED, r', evs @ status_traffic @ [BlockTask tid])"
      for cmd addr src
      using l' r'(1) by (simp add: wr_mem_program_def wr_function_def wr_resume_calls_def call_waits_def)
    then show "run_state (wr_write (ok_bus f) tid junk block buff) (r, evs) = (RET_BLOCKED, r', evs @ status_traffic @ [BlockTask tid])"
      using l assms(3) by (simp add: wr_write_def call_waits_def)
    have "at_start tid r' fn" if "fn \<notin> {FnWriteBlock, FnMemProgram, FnBlockIfBusy}" for fn
    proof (cases "2 \<le> wr_rank fn")
      case True
      then show ?thesis using r'(3) st [of fn] that by (simp add: at_start_def)
    qed (use r'(4) in \<open>simp add: idle_below_def\<close>)
    then show "wr_write_blocked tid r'"
      using r'(2,3) l(1) l'(1) by (simp add: wr_write_blocked_def wr_place_def)
    show "wr_dev r' = (wr_dev r)\<lparr>wq_buff := [s], wq_blocked := tid\<rparr>" using r'(5) by simp
  qed
qed

text \<open>What a write sends once the chip is not busy.\<close>

definition program_traffic :: "u8 list \<Rightarrow> size_t \<Rightarrow> u8 list \<Rightarrow> bus_event list" where
  "program_traffic cmd block buff =
     [PinSet 0 0, SpiWrite [0x06], PinSet 0 1,
      PinSet 0 0, SpiWrite (cmd @ addr_to_24 (push_bit 8 block)), SpiWrite buff, PinSet 0 1]"

lemma wr_write_continues:
  assumes "wr_write_blocked tid r"
  shows "\<exists>r'. run_state (wr_write (ok_bus f) tid junk block buff) (r, evs) =
      (RET_SUCCESS, r', evs @ program_traffic [PAGE_PROGRAM] block (take (unat (wq_page_size (wr_dev r))) buff)) \<and>
    wr_idle tid r' \<and> wr_dev r' = (wr_dev r)\<lparr>wq_buff := [junk]\<rparr>"
proof -
  have pl: "wr_place tid r FnWriteBlock 1" "wr_place tid r FnMemProgram 1" "wr_place tid r FnBlockIfBusy 2"
      "\<forall>fn. fn \<notin> {FnWriteBlock, FnMemProgram, FnBlockIfBusy} \<longrightarrow> at_start tid r fn"
    using assms by (auto simp: wr_write_blocked_def)
  let ?r1 = "r\<lparr>wr_labels := (wr_labels r)(FnWriteBlock := set_label tid 1 (wr_labels r FnWriteBlock))\<rparr>"
  let ?r2 = "?r1\<lparr>wr_labels := (wr_labels ?r1)(FnMemProgram := set_label tid 1 (wr_labels r FnMemProgram))\<rparr>"
  let ?r3 = "?r2\<lparr>wr_dev := (wr_dev r)\<lparr>wq_buff := [junk]\<rparr>,
    wr_labels := (wr_labels ?r2)(FnBlockIfBusy := set_label tid 0 (wr_labels r FnBlockIfBusy))\<rparr>"
  let ?src = "take (unat (wq_page_size (wr_dev r))) buff" and ?addr = "addr_to_24 (push_bit 8 block)"
  have en: "run_state (wr_enter FnWriteBlock tid) (r, x) = (1, r, x)"
      "run_state (wr_enter FnMemProgram tid) (?r1, x) = (1, ?r1, x)"
      "run_state (wr_enter FnBlockIfBusy tid) (?r2, x) = (2, ?r2, x)" for x :: "bus_event list"
    using pl by (auto intro!: run_enter_place simp: wr_place_def)
  note en = en [simplified]
  have busy: "run_state (wr_block_if_busy (ok_bus f) tid junk) (?r2, evs) = (RET_SUCCESS, ?r3, evs)"
    by (simp add: wr_block_if_busy_def en(3) wr_local_def)
  note busy = busy [simplified]
  have idle: "idle_below 3 tid ?r3" "lb_init (wr_labels ?r3 FnMemProgram)"
    using pl unfolding idle_below_def by (auto simp: at_start_def wr_place_def resume_after_set)
  let ?ms = "[wr_write_enable_set (ok_bus f) tid WRITE_ENABLE, wr_spi_ww (ok_bus f) tid (PAGE_PROGRAM # ?addr) ?src]"
  have "list_all2 (fn_sim 3 tid) ?ms [wq_write_enable_set (ok_bus f) WRITE_ENABLE, m_spi_ww (ok_bus f) (PAGE_PROGRAM # ?addr) ?src]"
    by (intro list.rel_intros fn_sim_mono [OF wr_status_sim(2)] fn_sim_mono [OF wr_spi_sim(2)]) simp_all
  note sim = wr_calls_sim [OF this, of FnMemProgram 2]
  obtain c r4 x where run: "run_state (wr_calls FnMemProgram tid 2 ?ms) (?r3, evs) = (c, r4, x)"
    by (metis prod_cases3)
  have "body_sim FnMemProgram tid (wr_calls FnMemProgram tid 2 ?ms) (foldr check_call
      [wq_write_enable_set (ok_bus f) WRITE_ENABLE, m_spi_ww (ok_bus f) (PAGE_PROGRAM # ?addr) ?src] (State_Monad.return RET_SUCCESS))"
    by (rule sim) simp
  from body_simD [OF this _ idle(2) run] idle(1) have r4: "c = RET_SUCCESS" "wr_dev r4 = (wr_dev r)\<lparr>wq_buff := [junk]\<rparr>"
      "x = evs @ program_traffic [PAGE_PROGRAM] block ?src"
      "\<forall>fn. 3 \<le> wr_rank fn \<longrightarrow> fn \<noteq> FnMemProgram \<longrightarrow> wr_labels r4 fn = wr_labels ?r3 fn"
      "idle_below 3 tid r4" "at_start tid r4 FnMemProgram"
    by (auto simp: wq_write_enable_set_def m_spi_w_def m_spi_ww_def program_traffic_def)
  let ?r5 = "r4\<lparr>wr_labels := (wr_labels r4)(FnWriteBlock := set_label tid 0 (wr_labels r4 FnWriteBlock))\<rparr>"
  have "run_state (wr_mem_program (ok_bus f) tid junk PAGE_PROGRAM (push_bit 8 block) ?src) (?r1, evs) = (RET_SUCCESS, r4, x)"
    using en(2) busy run r4(1) by (simp add: wr_mem_program_def wr_function_def wr_resume_calls_def numeral_2_eq_2)
  then have "run_state (wr_write (ok_bus f) tid junk block buff) (r, evs) = (RET_SUCCESS, ?r5, x)"
    using en(1) by (simp add: wr_write_def)
  moreover have "wr_idle tid ?r5"
  proof -
    have "at_start tid ?r5 fn" for fn
      using r4(4-6) pl by (cases fn) (simp_all add: idle_below_def at_start_def wr_place_def resume_after_set)
    then show ?thesis by (simp add: idle_below_def)
  qed
  ultimately show ?thesis using r4(2,3) by auto
qed

section \<open>Interrupts\<close>

text \<open>
  A transfer of the SPI device is started by a call that blocks, and its outcome is returned by the call after it
  (src/device/platforms/stm32/HAL_SPIDevice.h).  The log holds the transfers as they are started.
\<close>

fun irq_bus :: "(bus_event list \<Rightarrow> u8 list) \<Rightarrow> (bus_event list \<times> bool) bus" where
  "irq_bus f (SpiWrite b) (evs, started) =
     (if started then (RET_SUCCESS, [], evs, False) else (RET_BLOCKED, [], evs @ [SpiWrite b], True))"
| "irq_bus f (SpiRead n) (evs, started) =
     (if started then (RET_SUCCESS, f evs, evs, False) else (RET_BLOCKED, [], evs @ [SpiRead n], True))"
| "irq_bus f ev (evs, started) = (RET_SUCCESS, [], evs @ [ev], started)"

text \<open>The task is dispatched again, up to \<open>n\<close> times in all, until its function returns a code that does not wait.\<close>

fun wr_rounds :: "nat \<Rightarrow> (wq_res, 'x) drv \<Rightarrow> wq_res \<times> 'x \<Rightarrow> (ret_type \<times> wq_res \<times> 'x) option" where
  "wr_rounds 0 m s = None"
| "wr_rounds (Suc n) m s =
     (case run_state m s of (ret, s') \<Rightarrow> if call_waits ret then wr_rounds n m s' else Some (ret, s'))"

lemma wr_init_first:
  assumes "wr_idle tid r"
  obtains r' where "run_state (wr_init (irq_bus f) tid) (r, evs, False) =
      (RET_BLOCKED, r', evs @ [PinSet 0 0, SpiWrite [0x9F]], True)"
    "wr_place tid r' FnInit 1" "wr_place tid r' FnReadId 1" "wr_place tid r' FnSpiWR 2"
proof -
  have st: "at_start tid r fn" for fn
    using assms by (cases fn) (simp_all add: idle_below_def)
  have step: "\<exists>l. lb_init l \<and> run_state (wr_enter fn tid) (q, x) = (0, q\<lparr>wr_labels := (wr_labels q)(fn := l)\<rparr>, x)"
    if "wr_labels q fn = wr_labels r fn" for q fn and x :: "bus_event list \<times> bool"
  proof -
    have "at_start tid q fn" using st [of fn] that by (simp add: at_start_def)
    then show ?thesis by (rule run_enterE) blast
  qed
  obtain l where l: "lb_init l" "run_state (wr_enter FnInit tid) (r, evs, False) = (0, r\<lparr>wr_labels := (wr_labels r)(FnInit := l)\<rparr>, evs, False)"
    using step [of r FnInit "(evs, False)"] by auto
  let ?r1 = "r\<lparr>wr_labels := (wr_labels r)(FnInit := set_label tid 1 l)\<rparr>"
  obtain k where k: "lb_init k" "run_state (wr_enter FnReadId tid) (?r1, evs, False) = (0, ?r1\<lparr>wr_labels := (wr_labels ?r1)(FnReadId := k)\<rparr>, evs, False)"
    using step [of ?r1 FnReadId "(evs, False)"] by auto
  let ?r2 = "?r1\<lparr>wr_labels := (wr_labels ?r1)(FnReadId := set_label tid 1 k)\<rparr>"
  obtain j where j: "lb_init j" "run_state (wr_enter FnSpiWR tid) (?r2, evs, False) = (0, ?r2\<lparr>wr_labels := (wr_labels ?r2)(FnSpiWR := j)\<rparr>, evs, False)"
    using step [of ?r2 FnSpiWR "(evs, False)"] by auto
  note en = l(2) k(2) [simplified] j(2) [simplified]
  let ?r3 = "?r2\<lparr>wr_labels := (wr_labels ?r2)(FnSpiWR := set_label tid 2 (set_label tid 1 j))\<rparr>"
  show thesis
  proof (rule that)
    show "run_state (wr_init (irq_bus f) tid) (r, evs, False) = (RET_BLOCKED, ?r3, evs @ [PinSet 0 0, SpiWrite [0x9F]], True)"
      by (simp add: wr_init_def wr_read_id_def wr_spi_wr_def wr_resume_calls_def wr_local_def en call_waits_def numeral_2_eq_2)
  qed (use l k j in \<open>simp_all add: wr_place_def\<close>)
qed

lemma label_same:
  "wr_place tid r fn p \<Longrightarrow> r\<lparr>wr_labels := (wr_labels r)(fn := set_label tid p (wr_labels r fn))\<rparr> = r"
  by (cases r) (simp add: wr_place_def set_label_def fun_upd_def fun_eq_iff)

lemma wr_place_simps [simp]:
  "wr_place tid (r\<lparr>wr_dev := d\<rparr>) fn p = wr_place tid r fn p"
  "fn \<noteq> fn' \<Longrightarrow> wr_place tid (r\<lparr>wr_labels := (wr_labels r)(fn' := l)\<rparr>) fn p = wr_place tid r fn p"
  "lb_init (wr_labels r fn) \<Longrightarrow> wr_place tid (r\<lparr>wr_labels := (wr_labels r)(fn := set_label tid q (wr_labels r fn))\<rparr>) fn p = (q = p)"
  by (auto simp: wr_place_def)

lemma wr_init_second:
  assumes "wr_place tid r FnInit 1" "wr_place tid r FnReadId 1" "wr_place tid r FnSpiWR 2"
  shows "\<exists>r'. run_state (wr_init (irq_bus f) tid) (r, evs, True) = (RET_BLOCKED, r', evs @ [SpiRead 3], True) \<and>
    wr_place tid r' FnInit 1 \<and> wr_place tid r' FnReadId 1 \<and> wr_place tid r' FnSpiWR 3"
proof -
  let ?q = "r\<lparr>wr_dev := (wr_dev r)\<lparr>wq_buff := [0, 0, 0]\<rparr>\<rparr>"
  have q: "wr_place tid ?q FnSpiWR 2" "lb_init (wr_labels r FnSpiWR)" "wr_place tid ?q FnReadId 1" using assms(2,3) by (simp_all add: wr_place_def)
  note en = run_enter_place [OF assms(1)] run_enter_place [OF assms(2)] run_enter_place [OF q(1)]
  note same = label_same [OF assms(1)] label_same [OF q(3)] label_same [OF q(1)]
  let ?r' = "r\<lparr>wr_dev := (wr_dev r)\<lparr>wq_buff := []\<rparr>, wr_labels := (wr_labels r)(FnSpiWR := set_label tid 3 (wr_labels r FnSpiWR))\<rparr>"
  have "run_state (wr_spi_wr (irq_bus f) tid [0x9F] True 3) (?q, evs, True) = (RET_BLOCKED, ?r', evs @ [SpiRead 3], True)"
    using same(3) q(1,2) by (simp add: wr_spi_wr_def wr_resume_calls_def en(3) wr_read_into_def call_waits_def numeral_2_eq_2 numeral_3_eq_3)
  then have "run_state (wr_init (irq_bus f) tid) (r, evs, True) = (RET_BLOCKED, ?r', evs @ [SpiRead 3], True)"
    using same(1,2) by (simp add: wr_init_def wr_read_id_def wr_resume_calls_def wr_local_def en(1,2) call_waits_def)
  then show ?thesis using assms q(2) by (auto simp: wr_place_def)
qed

lemma wr_init_third:
  assumes "wr_place tid r FnInit 1" "wr_place tid r FnReadId 1" "wr_place tid r FnSpiWR 3"
  shows "\<exists>r'. run_state (wr_init (irq_bus f) tid) (r, evs, True) = (RET_ERROR, r', evs @ [PinSet 0 1], False)"
proof -
  let ?q = "r\<lparr>wr_dev := (wr_dev r)\<lparr>wq_buff := [0, 0, 0]\<rparr>\<rparr>"
  have q: "wr_place tid ?q FnSpiWR 3" "wr_place tid ?q FnReadId 1" "lb_init (wr_labels r FnReadId)"
    using assms(2,3) by (simp_all add: wr_place_def)
  note en = run_enter_place [OF assms(1)] run_enter_place [OF assms(2)] run_enter_place [OF q(1)]
  note same = label_same [OF assms(1)] label_same [OF q(2)] label_same [OF q(1)]
  have "\<exists>r1. run_state (wr_spi_wr (irq_bus f) tid [0x9F] True 3) (?q, evs, True) = (RET_SUCCESS, r1, evs @ [PinSet 0 1], False) \<and>
      wr_dev r1 = wr_dev ?q"
    using same(3) q(1) by (simp add: wr_spi_wr_def wr_resume_calls_def en(3) wr_read_into_def numeral_3_eq_3)
  then obtain r1 where r1: "run_state (wr_spi_wr (irq_bus f) tid [0x9F] True 3) (?q, evs, True) = (RET_SUCCESS, r1, evs @ [PinSet 0 1], False)"
      "wr_dev r1 = wr_dev ?q" by blast
  then show ?thesis
    using same(1,2) by (simp add: wr_init_def wr_read_id_def wr_resume_calls_def wr_local_def en(1,2) call_waits_def
        id_of_def W25Q128JV_JEDEC_ID_def)
qed

section \<open>What the driver does when it is resumed\<close>

text \<open>
  The functions of the driver and their first activations: as long as no function of the driver is to be
  continued for the task, a write does what the model without labels says, up to the first return, and
  unless it returns to wait, it leaves no function to be continued.
\<close>
theorem flash_first_activation:
  assumes "wr_idle tid r" and "run_state (wr_write bus tid junk block buff) (r, x) = (ret, r', x')"
  shows "run_state (wq_write bus tid block buff) (wr_dev r, x) = (ret, wr_dev r', x') \<and> (\<not> call_waits ret \<longrightarrow> wr_idle tid r')"
  using fn_simD [OF wr_write_sim assms] by blast

definition ex_flash :: wq_res where
  "ex_flash = \<lparr>wr_dev = \<lparr>wq_blocked = - 1, wq_dev_id = 0, wq_page_size = 0xFF, wq_page_count = 0xFFFF, wq_erase = 0, wq_buff = []\<rparr>,
     wr_labels = (\<lambda>fn. \<lparr>lb_init = False, lb_current = (\<lambda>i. 0)\<rparr>)\<rparr>"

lemma ex_flash_idle: "wr_idle tid ex_flash"
  by (simp add: idle_below_def at_start_def ex_flash_def mac_resume_def)

theorem flash_first_activation_witness:
  "\<exists>ret r' x'. run_state (wr_write (ok_bus (\<lambda>ev evs. [0])) 3 0 2 [7]) (ex_flash, []) = (ret, r', x') \<and>
     run_state (wq_write (ok_bus (\<lambda>ev evs. [0])) 3 2 [7]) (wr_dev ex_flash, []) = (ret, wr_dev r', x')"
proof -
  obtain ret r' x' where "run_state (wr_write (ok_bus (\<lambda>ev evs. [0])) 3 0 2 [7]) (ex_flash, []) = (ret, r', x')"
    by (metis prod_cases3)
  with flash_first_activation [OF ex_flash_idle this] show ?thesis by blast
qed

text \<open>C38: 
  A write of a block the flash has to a busy chip, on a bus whose calls succeed, while no task is recorded as
  blocked: the first activation reads the status, records the
  task as the blocked one and blocks it.  Whenever the task is dispatched again, whatever the members of the
  driver are by then, the write goes on with the write enable command and the page program command, does not
  ask again whether the chip is busy, and succeeds; a blocked task that stays recorded is not cleared.
\<close>
theorem flash_write_resumed:
  assumes "wr_idle tid r" "wq_blocked (wr_dev r) = TID_UNBLOCKED" "block \<le> wq_page_count (wr_dev r)"
    and "f (SpiRead 1) (evs @ [PinSet 0 0, SpiWrite [0x05]]) = [s]" "s AND S_BUSY \<noteq> 0"
  shows "\<exists>r1. run_state (wr_write (ok_bus f) tid junk block buff) (r, evs) = (RET_BLOCKED, r1, evs @ status_traffic @ [BlockTask tid]) \<and>
    wq_blocked (wr_dev r1) = tid \<and>
    (\<forall>d evs' junk'. \<exists>r2. run_state (wr_write (ok_bus f) tid junk' block buff) (r1\<lparr>wr_dev := d\<rparr>, evs') =
       (RET_SUCCESS, r2, evs' @ program_traffic [PAGE_PROGRAM] block (take (unat (wq_page_size d)) buff)) \<and>
       wr_idle tid r2 \<and> wr_dev r2 = d\<lparr>wq_buff := [junk']\<rparr>)"
proof -
  obtain r1 where r1:
      "run_state (wr_write (ok_bus f) tid junk block buff) (r, evs) = (RET_BLOCKED, r1, evs @ status_traffic @ [BlockTask tid])"
      "wr_write_blocked tid r1" "wr_dev r1 = (wr_dev r)\<lparr>wq_buff := [s], wq_blocked := tid\<rparr>"
    by (rule wr_write_blocks [where f = f, OF assms])
  have "wr_write_blocked tid (r1\<lparr>wr_dev := d\<rparr>)" for d
    using r1(2) by (simp add: wr_write_blocked_def)
  from wr_write_continues [OF this] r1(1,3) show ?thesis
    by (intro exI [where x = r1]) simp
qed

theorem flash_write_resumed_witness:
  "\<exists>r1. run_state (wr_write (ok_bus (\<lambda>ev evs. [1])) 3 0 2 [7]) (ex_flash, []) = (RET_BLOCKED, r1, status_traffic @ [BlockTask 3]) \<and>
    (\<exists>r2. run_state (wr_write (ok_bus (\<lambda>ev evs. [1])) 3 0 2 [7]) (r1\<lparr>wr_dev := wr_dev ex_flash\<rparr>, []) =
       (RET_SUCCESS, r2, program_traffic [PAGE_PROGRAM] 2 [7]))"
proof -
  have "wq_blocked (wr_dev ex_flash) = TID_UNBLOCKED" "(2 :: size_t) \<le> wq_page_count (wr_dev ex_flash)" "(1 :: u8) AND S_BUSY \<noteq> 0"
    "(\<lambda>ev evs. [1 :: u8]) (SpiRead 1) ([] @ [PinSet 0 0, SpiWrite [0x05]]) = [1]"
    by (simp_all add: ex_flash_def TID_UNBLOCKED_def S_BUSY_def)
  from flash_write_resumed [where f = "\<lambda>ev evs. [1]" and tid = 3 and junk = 0 and buff = "[7]", OF ex_flash_idle this(1,2,4,3)]
  obtain r1 where r1: "run_state (wr_write (ok_bus (\<lambda>ev evs. [1])) 3 0 2 [7]) (ex_flash, []) = (RET_BLOCKED, r1, [] @ status_traffic @ [BlockTask 3])"
    "\<forall>d evs' junk'. \<exists>r2. run_state (wr_write (ok_bus (\<lambda>ev evs. [1])) 3 junk' 2 [7]) (r1\<lparr>wr_dev := d\<rparr>, evs') =
       (RET_SUCCESS, r2, evs' @ program_traffic [PAGE_PROGRAM] 2 (take (unat (wq_page_size d)) [7])) \<and>
       wr_idle 3 r2 \<and> wr_dev r2 = d\<lparr>wq_buff := [junk']\<rparr>"
    by blast
  have "take (unat (wq_page_size (wr_dev ex_flash))) [7] = [7 :: u8]"
    by (simp add: ex_flash_def)
  with r1(1) spec [OF spec [OF spec [OF r1(2), of "wr_dev ex_flash"], of "[]"], of 0] show ?thesis
    by (metis append_Nil)
qed

text \<open>
  Initialisation over the interrupt driven SPI device: whatever the chip answers, the task is blocked twice, and
  in its third activation the function fails, because the identifier was read into a local variable of an
  activation that is over, and that of the third one holds zeros.
\<close>
theorem flash_init_loses_id:
  assumes "wr_idle tid r"
  shows "\<exists>r'. wr_rounds 3 (wr_init (irq_bus f) tid) (r, [], False) =
    Some (RET_ERROR, r', [PinSet 0 0, SpiWrite [0x9F], SpiRead 3, PinSet 0 1], False)"
proof -
  obtain r1 where r1: "run_state (wr_init (irq_bus f) tid) (r, [], False) = (RET_BLOCKED, r1, [] @ [PinSet 0 0, SpiWrite [0x9F]], True)"
      "wr_place tid r1 FnInit 1" "wr_place tid r1 FnReadId 1" "wr_place tid r1 FnSpiWR 2"
    by (rule wr_init_first [OF assms])
  obtain r2 where r2: "run_state (wr_init (irq_bus f) tid) (r1, [PinSet 0 0, SpiWrite [0x9F]], True) =
      (RET_BLOCKED, r2, [PinSet 0 0, SpiWrite [0x9F]] @ [SpiRead 3], True)"
      "wr_place tid r2 FnInit 1" "wr_place tid r2 FnReadId 1" "wr_place tid r2 FnSpiWR 3"
    using wr_init_second [OF r1(2-4)] by blast
  obtain r3 where "run_state (wr_init (irq_bus f) tid) (r2, [PinSet 0 0, SpiWrite [0x9F], SpiRead 3], True) =
      (RET_ERROR, r3, [PinSet 0 0, SpiWrite [0x9F], SpiRead 3] @ [PinSet 0 1], False)"
    using wr_init_third [OF r2(2-4)] by blast
  with r1(1) r2(1) show ?thesis
    by (simp add: numeral_3_eq_3 call_waits_def)
qed

theorem flash_init_loses_id_witness:
  "\<exists>r'. wr_rounds 3 (wr_init (irq_bus (\<lambda>evs. [0xEF, 0x40, 0x18])) 3) (ex_flash, [], False) =
    Some (RET_ERROR, r', [PinSet 0 0, SpiWrite [0x9F], SpiRead 3, PinSet 0 1], False)"
  by (rule flash_init_loses_id [OF ex_flash_idle])

end
