(* ===== verification/NmeaModel.thy ===== *)
theory NmeaModel
  imports Prelude
begin

text \<open>
  The parser of src/common/utils/nmea.h.  It looks for the terminator of the sentence and then calls sscanf, whose
  first conversion, for the hours, is a string: a conversion of a string stores a terminating zero behind the
  characters, and the variable that it is given has one byte.  \<open>None\<close> stands for an access outside of an
  object, \<open>sentence\<close> is the memory from the pointer on.
\<close>

section \<open>Definitions\<close>

text \<open>The search for the terminator among the first \<open>n\<close> bytes.\<close>

fun find_nul :: "nat \<Rightarrow> u8 list \<Rightarrow> bool option" where
  "find_nul 0 mem = Some False"
| "find_nul (Suc n) [] = None"
| "find_nul (Suc n) (c # mem) = (if c = 0 then Some True else find_nul n mem)"

definition is_space :: "u8 \<Rightarrow> bool" where
  "is_space c \<longleftrightarrow> c = 0x20 \<or> (9 \<le> c \<and> c \<le> 13)"

text \<open>The conversion \<open>%2s\<close>: the bytes it stores, or \<open>None\<close> when the input does not match.\<close>

definition scan_2s :: "u8 list \<Rightarrow> u8 list option" where
  "scan_2s inp =
     (case dropWhile is_space inp of [] \<Rightarrow> None
      | c # cs \<Rightarrow> Some (take 2 (takeWhile (\<lambda>c. \<not> is_space c) (c # cs)) @ [0]))"

text \<open>The input behind \<open>$%*2cGGA,\<close> at the start of the format.\<close>

fun scan_gga :: "u8 list \<Rightarrow> u8 list option" where
  "scan_gga (d # a # b # g1 # g2 # g3 # c # inp) =
     (if d = 0x24 \<and> g1 = 0x47 \<and> g2 = 0x47 \<and> g3 = 0x41 \<and> c = 0x2C then Some inp else None)"
| "scan_gga _ = None"

text \<open>
  The result of the call.  When the input ends or does not match before the first conversion, sscanf returns 0 or
  -1 fields, which are not 12; otherwise it stores the hours.  The size of \<open>hours\<close> is 1.
\<close>

definition parse_gga :: "u8 list \<Rightarrow> size_t \<Rightarrow> int option" where
  "parse_gga sentence n =
     (case find_nul (unat n) sentence of
        None \<Rightarrow> None
      | Some found \<Rightarrow>
          if \<not> found then Some (- 1)
          else
            (case Option.bind (scan_gga (takeWhile (\<lambda>c. c \<noteq> 0) sentence)) scan_2s of
               None \<Rightarrow> Some 1
             | Some stored \<Rightarrow> if length stored \<le> 1 then Some 0 else None))"

section \<open>Results\<close>

lemma find_nul_iff:
  "find_nul n mem = (if 0 \<in> set (take n mem) then Some True else if n \<le> length mem then Some False else None)"
  by (induction n mem rule: find_nul.induct) auto

lemma scan_2s_stores: "scan_2s inp = Some stored \<Longrightarrow> 2 \<le> length stored"
  by (auto simp: scan_2s_def dropWhile_eq_Cons_conv split: list.splits)

lemma parse_gga_cases:
  "parse_gga sentence n =
    (if 0 \<notin> set (take (unat n) sentence) then (if unat n \<le> length sentence then Some (- 1) else None)
     else if Option.bind (scan_gga (takeWhile (\<lambda>c. c \<noteq> 0) sentence)) scan_2s = None then Some 1 else None)"
  using scan_2s_stores by (fastforce simp: parse_gga_def find_nul_iff split: option.split bind_split)

text \<open>
  The parser never succeeds: the call returns -1 when there is no terminator among the first bytes, 1 when the
  sentence is not one that the format accepts up to the hours, and is undefined for every sentence that is.
\<close>
theorem gga_never_parses:
  "parse_gga sentence n \<noteq> Some 0 \<and>
   (parse_gga sentence n = Some (- 1) \<longleftrightarrow> 0 \<notin> set (take (unat n) sentence) \<and> unat n \<le> length sentence)"
  by (simp add: parse_gga_cases)

text \<open>A sentence with hours.\<close>

theorem gga_sentence_undefined:
  assumes "a \<noteq> 0" "b \<noteq> 0" "h \<noteq> 0" "\<not> is_space h" "0 \<notin> set cs" "8 + length cs < unat n"
  shows "parse_gga ([0x24, a, b, 0x47, 0x47, 0x41, 0x2C, h] @ cs @ [0]) n = None"
proof -
  let ?s = "[0x24, a, b, 0x47, 0x47, 0x41, 0x2C, h] @ cs @ [0]"
  have "takeWhile (\<lambda>c. c \<noteq> 0) ?s = [0x24, a, b, 0x47, 0x47, 0x41, 0x2C, h] @ cs"
    using assms(1-3,5) by (simp add: takeWhile_append)
  moreover have "0 \<in> set (take (unat n) ?s)"
    using assms(6) by simp
  ultimately show ?thesis
    using assms(4) by (simp add: parse_gga_cases scan_2s_def)
qed

theorem gga_sentence_undefined_witness:
  "parse_gga ([0x24, 0x47, 0x50, 0x47, 0x47, 0x41, 0x2C, 0x31] @ [0x32] @ [0]) 80 = None"
  by (rule gga_sentence_undefined) (simp_all add: is_space_def)

end
