(* ===== verification/Spec2Isabelle.thy ===== *)
theory Spec2Isabelle
  imports SchedReach RingBufferModel VectorModel HashMapModel IPv4Props EthModel StackModel SlipModel KissModel
    RingDevModel StringModel EventModel DeviceModel BlockDevModel ChainFSModel FlashModel
    LedModel TempSensorModel AccelModel RadioModel GpsModel BaroModel WiznetModel
    LsmModel LisModel BmpModel ConvModel PlatformModel L3gdModel LisRegModel
    FlashResume NmeaModel
begin

text \<open>
  A verification library for launch-core, the embedded library of the RIT Launch Initiative: a
  cooperative scheduler, containers that never allocate from a heap, a small network stack,
  synchronisation and framing.  The source is C++ under src/; the definitions below are translated
  from it, operation by operation, and keep its names where these are free in HOL.

  \<^bold>\<open>Conventions.\<close>  A pointer into an array or pool is an index (type \<open>ptr\<close>), the null pointer
  is \<open>None\<close> of an option.  Integers keep their width and wrap around; \<open>size_t\<close> has 32 bits, as on
  the microcontrollers of the project.  An operation whose call would follow a null pointer, leave
  an array or not return has the result \<open>None\<close> of an option type; a return code is a value of
  \<open>ret_type\<close> (return.h).  State is passed explicitly, in a record with the members of the class.

  \<^bold>\<open>Parts.\<close>
  \<^item> \<open>Prelude\<close>: the integer types, \<open>ret_type\<close>, shared lemmas on chains of pointers, lists, words.
  \<^item> \<open>SimpleQueueModel\<close> (src/queue: queue_node.h, queue_simple.h, queue_iterator.h): doubly linked
    queues on a heap of nodes; \<open>wf_queue\<close> says that the links agree with a list of nodes, and every
    operation is shown to act on that list.
  \<^item> \<open>PoolModel\<close> (src/pool/pool.h): allocation from two such queues, and histories of calls in which
    arbitrary memory is given back, too.  The locale \<open>object_pool\<close> is the contract on which the queues rest.
  \<^item> \<open>AllocQueueModel\<close> (src/queue/allocated_queue.h): queues of values on a pool.  The interface of
    src/queue/queue.h is the locale \<open>fifo_queue\<close>.
  \<^item> \<open>SchedModel\<close>, \<open>SchedReach\<close> (src/sched/sched.h, sched.cpp): the scheduler.  Task code is a
    parameter that may call the scheduler's operations.  Its client lemmas are proved in the locale
    \<open>task_queue\<close>, an extension of \<open>fifo_queue\<close>; \<open>sched_reach\<close> are the states that calls can lead to.
    \<open>sched_script\<close> makes task code of lists of calls, for which the conditions on task code are proved and
    not assumed; what each call has to keep to is \<open>op_fits\<close>.
  \<^item> \<open>RingBufferModel\<close>, \<open>VectorModel\<close>, \<open>HashMapModel\<close> (src/ringbuffer, src/vector, src/hash,
    src/bloom_filter, src/hashmap): the other containers.  The map's contract is the locale
    \<open>key_store\<close>.
  \<^item> \<open>NetBytes\<close>, \<open>PacketModel\<close> (src/net/common.h, src/net/packet/Packet.h): byte order, and packets
    with headers in front of a payload in one array.
  \<^item> \<open>IPv4Model\<close>, \<open>IPv4Props\<close>, \<open>EthModel\<close>, \<open>UdpModel\<close> (src/net/ipv4, eth, simple_arp, udp):
    the layers.  A layer's last action is a call of another layer, so a handler returns what it does
    next as a value of \<open>outcome\<close>.
  \<^item> \<open>SyncModel\<close> (src/sched/macros, src/sync, src/triple_buffer): labels of resumable functions,
    both semaphores, the triple buffer.  The spinning semaphore is modelled as calls and as a step
    relation in which threads interleave between memory accesses.
  \<^item> \<open>SocketModel\<close>, \<open>StackModel\<close> (src/net/stack/IPv4UDP, src/net/loopback): sockets with a queue of
    received packets, the loopback device with the labels it never resets, and the stack, in which
    \<open>net_run\<close> follows the calls from layer to layer.
  \<^item> \<open>SlipModel\<close>, \<open>KissModel\<close>, \<open>RingDevModel\<close> (src/net/slip, src/net/kiss): framing, and the device
    that sends frames round a ring of serial lines, with its labels.
  \<^item> \<open>StringModel\<close> (src/string), \<open>EventModel\<close> (src/event): fixed strings over a buffer with its
    terminating zero, and the detectors of launch, apogee and landing with the tasks they start.
  \<^item> \<open>DeviceModel\<close> (src/device/Device.h, DeviceMap.h, src/init/init.h): registration of devices, the
    map from names to devices, initialisation and polling as tasks of the scheduler.
  \<^item> \<open>BlockDevModel\<close> (src/device/platforms/linux), \<open>ChainFSModel\<close> (src/filesystem/ChainFS): a device
    of blocks with tasks that wait for it, and the allocation of blocks of the file system.
  \<^item> \<open>HalModel\<close>, \<open>UartModel\<close> (src/device/platforms/stm32): the drivers of I2C, SPI and UART.  A
    transfer is a sequence of activations of one function between which the interrupt handler and
    other tasks run; the functions of the vendor's HAL are a parameter.
  \<^item> \<open>PlatformModel\<close> (src/device/platforms): the console and the pins of Linux, the pins of the
    STM32 and the ESP32, with the calls of the system as parameters.
  \<^item> \<open>ConvModel\<close>, \<open>NmeaModel\<close> (src/common/utils: conversion.h, nmea.h): conversions between integers and
    arrays of bytes, and the parser of sentences of a GPS receiver.
  \<^item> The drivers of src/device/peripherals.  \<open>DriverBase\<close> and \<open>ByteRegs\<close> hold what they share: a
    program of bus transfers over a device that is a parameter, and fields of byte registers.
    \<open>FlashModel\<close> (W25Q; \<open>FlashResume\<close> has its functions with their labels, activation by activation),
    \<open>LedModel\<close>, \<open>TempSensorModel\<close>, \<open>AccelModel\<close>, \<open>RadioModel\<close> (RFM95W),
    \<open>GpsModel\<close>, \<open>BaroModel\<close> (MS5607), \<open>BmpModel\<close> (BMP3XX), \<open>LsmModel\<close> (LSM6DSL), \<open>LisModel\<close>
    (LIS3MDL), \<open>WiznetRegs\<close> and \<open>WiznetModel\<close> (the W5500 Ethernet controller).  What a theorem relies on of a
    chip is a named hypothesis: \<open>byte_registers\<close> and \<open>bmp_chip\<close> for registers that keep what is written,
    \<open>wiz_chip\<close> for the frames, the registers and the wrapping buffers of the W5500, of which the registers that
    the chip changes itself, and what a reset or a command other than send and receive does, are left open.
    Each holds of a concrete bus, on which the witnesses run.  None of these buses waits or fails.
  \<^item> \<open>VendorRegs\<close>, \<open>L3gdRegs\<close>, \<open>L3gdModel\<close>, \<open>LisRegModel\<close> (src/device/peripherals/L3GD20H and
    LIS3MDL): the register files of the vendor, over a context whose contract is the locale
    \<open>register_device\<close>, and the facade of the L3GD20H that provides such a context.

  \<^bold>\<open>Bounds and fuel.\<close>  \<open>net_run\<close> has a bound on the number of calls; the delivery theorem shows that
  six are enough for each pass.  Searches along links and the two
  spinning loops are partial functions; that they return is proved from the invariants.

  \<^bold>\<open>Not modelled.\<close>  Of ChainFS, open names variables that do not exist.  Where no blocking is
  modelled in a driver (\<open>DriverBase\<close>), a call of the bus stands for its whole course.  The abstract
  device classes and the protocol headers are declarations.  Constants of the chips that no driver
  uses, printing for debugging, and the tests, are left out.
\<close>

end
